(* ===== verification/Prelude.thy ===== *)
theory Prelude
  imports Main "HOL-Library.AList"
begin

text \<open>
  The runtime the components share: JavaScript's \<open>Map\<close> (insertion-ordered, modelled as an
  association list), truthiness, the array idioms of the sources (\<open>findIndex\<close> followed by
  \<open>splice\<close>, \<open>find\<close> followed by an in-place write), and the two generic interfaces the
  components are proved against: \<open>kv_store\<close>, the laws of a keyed store, and
  \<open>op_machine\<close>, a state with operations that keep an invariant.
\<close>

named_theorems js_defs \<open>definitions of the modelled JavaScript runtime\<close>
named_theorems op_inv \<open>one operation of a component keeps that component's invariant\<close>

type_synonym ms = int
type_synonym ('k, 'v) jsmap = "('k \<times> 'v) list"

section \<open>Truthiness\<close>

text \<open>
  \<open>undefined\<close> is \<open>None\<close>. The empty string and the number 0 are falsy, so a test such as
  \<open>!t.claimedBy\<close> also succeeds on an empty string.
\<close>

definition truthy_str :: "string option \<Rightarrow> bool" where
  "truthy_str v = (case v of None \<Rightarrow> False | Some s \<Rightarrow> s \<noteq> [])"

definition truthy_int :: "int option \<Rightarrow> bool" where
  "truthy_int v = (case v of None \<Rightarrow> False | Some n \<Rightarrow> n \<noteq> 0)"

definition nullish :: "'a option \<Rightarrow> 'a \<Rightarrow> 'a" where
  "nullish v d = (case v of None \<Rightarrow> d | Some x \<Rightarrow> x)"

lemma truthy_str_simps [simp]:
  "truthy_str None = False" "truthy_str (Some s) = (s \<noteq> [])"
  by (simp_all add: truthy_str_def)

lemma truthy_int_simps [simp]:
  "truthy_int None = False" "truthy_int (Some n) = (n \<noteq> 0)"
  by (simp_all add: truthy_int_def)

lemma nullish_simps [simp]: "nullish None d = d" "nullish (Some x) d = x"
  by (simp_all add: nullish_def)

section \<open>Insertion-ordered maps\<close>

definition jsm_get :: "('k, 'v) jsmap \<Rightarrow> 'k \<Rightarrow> 'v option" where
  "jsm_get m k = map_of m k"

definition jsm_has :: "('k, 'v) jsmap \<Rightarrow> 'k \<Rightarrow> bool" where
  "jsm_has m k = (k \<in> set (map fst m))"

definition jsm_set :: "'k \<Rightarrow> 'v \<Rightarrow> ('k, 'v) jsmap \<Rightarrow> ('k, 'v) jsmap" where
  "jsm_set k v m = AList.update k v m"

definition jsm_delete :: "'k \<Rightarrow> ('k, 'v) jsmap \<Rightarrow> ('k, 'v) jsmap" where
  "jsm_delete k m = AList.delete k m"

definition jsm_values :: "('k, 'v) jsmap \<Rightarrow> 'v list" where
  "jsm_values m = map snd m"

definition jsm_wf :: "('k, 'v) jsmap \<Rightarrow> bool" where
  "jsm_wf m = distinct (map fst m)"

lemmas jsm_defs [js_defs] =
  jsm_get_def jsm_has_def jsm_set_def jsm_delete_def jsm_values_def jsm_wf_def

lemma jsm_get_Nil [simp]: "jsm_get [] k = None"
  by (simp add: jsm_get_def)

lemma jsm_has_Nil [simp]: "\<not> jsm_has [] k"
  by (simp add: jsm_has_def)

lemma jsm_wf_Nil [simp]: "jsm_wf []"
  by (simp add: jsm_wf_def)

lemma jsm_get_set: "jsm_get (jsm_set k v m) k' = (if k' = k then Some v else jsm_get m k')"
  by (simp add: jsm_defs update_conv')

lemma jsm_get_delete: "jsm_get (jsm_delete k m) k' = (if k' = k then None else jsm_get m k')"
  by (simp add: jsm_defs delete_conv')

lemma jsm_wf_set [simp]: "jsm_wf m \<Longrightarrow> jsm_wf (jsm_set k v m)"
  by (simp add: jsm_defs distinct_update)

lemma jsm_wf_delete [simp]: "jsm_wf m \<Longrightarrow> jsm_wf (jsm_delete k m)"
  by (simp add: jsm_defs distinct_delete)

lemma jsm_has_iff: "jsm_has m k \<longleftrightarrow> jsm_get m k \<noteq> None"
  by (auto simp: jsm_defs map_of_eq_None_iff)

lemma jsm_get_in_set: "jsm_get m k = Some v \<Longrightarrow> (k, v) \<in> set m"
  by (simp add: jsm_defs map_of_SomeD)

lemma jsm_get_iff: "jsm_wf m \<Longrightarrow> jsm_get m k = Some v \<longleftrightarrow> (k, v) \<in> set m"
  by (auto simp: jsm_defs)

lemma jsm_set_new: "\<not> jsm_has m k \<Longrightarrow> jsm_set k v m = m @ [(k, v)]"
  by (induction m) (auto simp: jsm_defs)

lemma keys_jsm_set: "set (map fst (jsm_set k v m)) = insert k (set (map fst m))"
  by (simp add: jsm_defs dom_update)

lemma keys_jsm_delete: "set (map fst (jsm_delete k m)) = set (map fst m) - {k}"
  unfolding jsm_delete_def delete_keys by auto

lemma jsm_has_set: "jsm_has (jsm_set k v m) k' \<longleftrightarrow> k' = k \<or> jsm_has m k'"
  by (simp add: jsm_has_iff jsm_get_set)

lemma jsm_has_delete: "jsm_has (jsm_delete k m) k' \<longleftrightarrow> k' \<noteq> k \<and> jsm_has m k'"
  by (simp add: jsm_has_iff jsm_get_delete)

text \<open>A write to a field of the object a map holds at \<open>k\<close>, when it holds one.\<close>

definition jsm_modify :: "'k \<Rightarrow> ('v \<Rightarrow> 'v) \<Rightarrow> ('k, 'v) jsmap \<Rightarrow> ('k, 'v) jsmap" where
  "jsm_modify k f m = (case jsm_get m k of None \<Rightarrow> m | Some v \<Rightarrow> jsm_set k (f v) m)"

text \<open>JavaScript's \<open>Set\<close>, a list without repetitions in insertion order.\<close>

definition jss_add :: "'a \<Rightarrow> 'a list \<Rightarrow> 'a list" where
  "jss_add x xs = (if x \<in> set xs then xs else xs @ [x])"

lemma set_jss_add [simp]: "set (jss_add x xs) = insert x (set xs)"
  by (auto simp: jss_add_def)

lemma distinct_jss_add [simp]: "distinct xs \<Longrightarrow> distinct (jss_add x xs)"
  by (simp add: jss_add_def)

text \<open>
  The interface a keyed store promises to its clients. The clients of the development use
  \<open>Map\<close> to count (\<open>m.set(k, (m.get(k) ?? 0) + n)\<close>); the lemmas about that idiom are proved
  here once.
\<close>

locale kv_store =
  fixes get :: "'m \<Rightarrow> 'k \<Rightarrow> 'v option"
    and put :: "'k \<Rightarrow> 'v \<Rightarrow> 'm \<Rightarrow> 'm"
    and del :: "'k \<Rightarrow> 'm \<Rightarrow> 'm"
  assumes get_put: "get (put k v m) k' = (if k' = k then Some v else get m k')"
    and get_del: "get (del k m) k' = (if k' = k then None else get m k')"
begin

lemma get_put_same: "get (put k v m) k = Some v"
  by (simp add: get_put)

lemma get_put_other: "k' \<noteq> k \<Longrightarrow> get (put k v m) k' = get m k'"
  by (simp add: get_put)

lemma get_put_del: "get (del k (put k v m)) k = None"
  by (simp add: get_del)

lemma nullish_get_put: "nullish (get (put k v m) k') d = (if k' = k then v else nullish (get m k') d)"
  by (simp add: get_put)

end

interpretation jsm: kv_store jsm_get jsm_set jsm_delete
  by unfold_locales (simp_all add: jsm_get_set jsm_get_delete)

section \<open>Operations that keep an invariant\<close>

locale op_machine =
  fixes exec :: "'op \<Rightarrow> 's \<Rightarrow> 's"
    and inv :: "'s \<Rightarrow> bool"
  assumes exec_inv: "inv s \<Longrightarrow> inv (exec op s)"
begin

lemma run_inv: "inv s \<Longrightarrow> inv (fold exec ops s)"
  by (induction ops arbitrary: s) (simp_all add: exec_inv)

end

locale op_machine_init = op_machine +
  fixes s0 :: 'b
  assumes init_inv: "inv s0"
begin

lemma reach_inv: "inv (fold exec ops s0)"
  by (rule run_inv) (rule init_inv)

end

section \<open>Array idioms\<close>

text \<open>\<open>xs.findIndex(p)\<close> followed by \<open>xs.splice(i, 1)\<close> when an index was found.\<close>

fun remove_first :: "('a \<Rightarrow> bool) \<Rightarrow> 'a list \<Rightarrow> 'a list" where
  "remove_first p [] = []"
| "remove_first p (x # xs) = (if p x then xs else x # remove_first p xs)"

text \<open>\<open>xs.find(p)\<close> followed by a write to the fields of the object found.\<close>

fun update_first :: "('a \<Rightarrow> bool) \<Rightarrow> ('a \<Rightarrow> 'a) \<Rightarrow> 'a list \<Rightarrow> 'a list" where
  "update_first p f [] = []"
| "update_first p f (x # xs) = (if p x then f x # xs else x # update_first p f xs)"

text \<open>\<open>xs.slice(-n)\<close> and \<open>xs.slice(xs.length - n)\<close>: the last \<open>n\<close> elements.\<close>

definition slice_last :: "nat \<Rightarrow> 'a list \<Rightarrow> 'a list" where
  "slice_last n xs = drop (length xs - n) xs"

lemma set_remove_first: "set (remove_first p xs) \<subseteq> set xs"
  by (induction xs) auto

lemma remove_first_id: "(\<forall>x \<in> set xs. \<not> p x) \<Longrightarrow> remove_first p xs = xs"
  by (induction xs) auto

lemma length_remove_first:
  "\<exists>x \<in> set xs. p x \<Longrightarrow> Suc (length (remove_first p xs)) = length xs"
  by (induction xs) auto

lemma remove_first_keeps: "x \<in> set xs \<Longrightarrow> \<not> p x \<Longrightarrow> x \<in> set (remove_first p xs)"
  by (induction xs) auto

lemma map_remove_first_subseq: "set (map g (remove_first p xs)) \<subseteq> set (map g xs)"
  using set_remove_first by fastforce

lemma distinct_map_remove_first: "distinct (map g xs) \<Longrightarrow> distinct (map g (remove_first p xs))"
  using set_remove_first by (induction xs) (fastforce simp: image_iff)+

lemma map_update_first: "(\<And>x. g (f x) = g x) \<Longrightarrow> map g (update_first p f xs) = map g xs"
  by (induction xs) auto

lemma length_update_first [simp]: "length (update_first p f xs) = length xs"
  by (induction xs) auto

lemma set_update_first: "set (update_first p f xs) \<subseteq> set xs \<union> f ` {x \<in> set xs. p x}"
  by (induction xs) auto

lemma length_slice_last [simp]: "length (slice_last n xs) = min n (length xs)"
  by (simp add: slice_last_def)

lemma set_slice_last: "set (slice_last n xs) \<subseteq> set xs"
  by (simp add: slice_last_def set_drop_subset)

lemma find_SomeD: "find p xs = Some x \<Longrightarrow> x \<in> set xs \<and> p x"
  by (induction xs) (auto split: if_splits)

lemma find_None_all: "find p xs = None \<longleftrightarrow> (\<forall>x \<in> set xs. \<not> p x)"
  by (induction xs) auto

text \<open>
  The selection loop of the sources: \<open>let item = pool[0]; for (const c of pool) if (better(c, item)) item = c\<close>,
  with \<open>better\<close> a strict comparison of keys. It returns the first element of the pool with the
  least key.
\<close>

definition pick_first_min :: "('a \<Rightarrow> 'k::linorder) \<Rightarrow> 'a list \<Rightarrow> 'a option" where
  "pick_first_min key pool =
     (case pool of [] \<Rightarrow> None
      | p # _ \<Rightarrow> Some (foldl (\<lambda>item c. if key c < key item then c else item) p pool))"

definition first_min :: "('a \<Rightarrow> 'k::linorder) \<Rightarrow> 'a list \<Rightarrow> 'a \<Rightarrow> bool" where
  "first_min key pool r = (\<exists>pre post. pool = pre @ r # post \<and>
     (\<forall>y \<in> set pre. key r < key y) \<and> (\<forall>y \<in> set post. key r \<le> key y))"

lemma first_minI:
  "pool = pre @ r # post \<Longrightarrow> \<forall>y \<in> set pre. key r < key y \<Longrightarrow> \<forall>y \<in> set post. key r \<le> key y \<Longrightarrow>
   first_min key pool r"
  by (auto simp: first_min_def)

lemma first_min_le: "first_min key pool r \<Longrightarrow> y \<in> set pool \<Longrightarrow> key r \<le> key y"
  by (auto simp: first_min_def less_imp_le)

lemma first_min_snoc:
  assumes fm: "first_min key pool r"
  shows "first_min key (pool @ [c]) (if key c < key r then c else r)"
proof (cases "key c < key r")
  case True
  have "\<forall>y \<in> set pool. key c < key y"
    using first_min_le [OF fm] True less_le_trans by blast
  with True show ?thesis by (intro first_minI [of _ pool _ "[]"]) simp_all
next
  case False
  from fm obtain pre post where sp: "pool = pre @ r # post"
    "\<forall>y \<in> set pre. key r < key y" "\<forall>y \<in> set post. key r \<le> key y" unfolding first_min_def by blast
  from False sp show ?thesis by (intro first_minI [of _ pre _ "post @ [c]"]) simp_all
qed

lemma foldl_first_min: "first_min key (x # xs) (foldl (\<lambda>item c. if key c < key item then c else item) x xs)"
proof (induction xs rule: rev_induct)
  case Nil
  show ?case by (rule first_minI [of _ "[]" _ "[]"]) simp_all
next
  case (snoc c xs)
  then show ?case using first_min_snoc [OF snoc, of c] by simp
qed

lemma pick_first_min_SomeD: "pick_first_min key pool = Some r \<Longrightarrow> first_min key pool r"
  using foldl_first_min [where key = key] by (cases pool) (auto simp: pick_first_min_def)

lemma pick_first_min_None [simp]: "pick_first_min key pool = None \<longleftrightarrow> pool = []"
  by (simp add: pick_first_min_def split: list.splits)

lemma pick_first_min_Nil [simp]: "pick_first_min key [] = None"
  by simp

lemma pick_first_min_in: "pick_first_min key pool = Some r \<Longrightarrow> r \<in> set pool"
  by (drule pick_first_min_SomeD) (auto simp: first_min_def)

lemma nth_in_filter_upt: "i \<in> set (filter p [0..<n]) \<longleftrightarrow> i < n \<and> p i"
  by auto

lemma sum_jsm_bump:
  "sum_list (map snd (jsm_set k (nullish (jsm_get m k) 0 + n) m)) = sum_list (map snd m) + (n::nat)"
  by (induction m) (auto simp: jsm_defs)

lemma sum_jsm_bump_Suc:
  "sum_list (map snd (jsm_set k (Suc (nullish (jsm_get m k) 0)) m)) = Suc (sum_list (map snd m))"
  using sum_jsm_bump [of k m 1] by simp

lemma jsm_set_all: "\<forall>(a, b) \<in> set m. P a b \<Longrightarrow> P k v \<Longrightarrow> \<forall>(a, b) \<in> set (jsm_set k v m). P a b"
  by (induction m) (auto simp: jsm_defs)

lemma jsm_delete_all: "\<forall>(a, b) \<in> set m. P a b \<Longrightarrow> \<forall>(a, b) \<in> set (jsm_delete k m). P a b"
  by (auto simp: jsm_defs AList.delete_eq)

lemma set_jsm_set: "set (jsm_set k v m) \<subseteq> insert (k, v) (set m)"
  by (induction m) (auto simp: jsm_defs)

lemma set_jsm_delete: "set (jsm_delete k m) = {e \<in> set m. fst e \<noteq> k}"
  by (auto simp: jsm_defs AList.delete_eq)

text \<open>\<open>map_of\<close> of a list of objects keyed by a field, under the array idioms.\<close>

lemma map_of_keyed_remove_first:
  assumes "distinct (map key xs)" "\<And>x. p x \<Longrightarrow> key x = k" "\<exists>x \<in> set xs. p x"
  shows "map_of (map (\<lambda>x. (key x, f x)) (remove_first p xs)) = (map_of (map (\<lambda>x. (key x, f x)) xs))(k := None)"
  using assms
proof (induction xs)
  case (Cons x xs)
  show ?case
  proof (cases "p x")
    case True
    then have "k \<notin> key ` set xs" using Cons.prems by auto
    then have "map_of (map (\<lambda>x. (key x, f x)) xs) k = None" by (simp add: map_of_eq_None_iff image_iff)
    with True Cons.prems(2) show ?thesis by (auto simp: fun_eq_iff)
  next
    case False
    have "key x \<noteq> k" using Cons.prems False by (metis distinct.simps(2) image_eqI list.simps(9) set_ConsD set_map)
    with False Cons show ?thesis by (auto simp: fun_eq_iff)
  qed
qed simp

lemma map_of_keyed_update_nth:
  assumes "distinct (map key xs)" "i < length xs" "key y = key (xs ! i)"
  shows "map_of (map (\<lambda>x. (key x, f x)) (xs[i := y])) = (map_of (map (\<lambda>x. (key x, f x)) xs))(key y \<mapsto> f y)"
  using assms
proof (induction xs arbitrary: i)
  case (Cons x xs)
  show ?case
  proof (cases i)
    case 0
    with Cons.prems show ?thesis by (simp add: fun_eq_iff)
  next
    case (Suc j)
    with Cons.prems have "key y \<noteq> key x" by (metis Suc_less_eq distinct.simps(2) image_eqI length_Cons list.simps(9) nth_Cons_Suc nth_mem set_map)
    with Suc Cons show ?thesis by (auto simp: fun_eq_iff)
  qed
qed simp

lemma map_of_keyed_in:
  "distinct (map key xs) \<Longrightarrow> x \<in> set xs \<Longrightarrow> map_of (map (\<lambda>x. (key x, f x)) xs) (key x) = Some (f x)"
  by (induction xs) (auto simp: image_iff)

lemma map_of_keyed_None: "map_of (map (\<lambda>x. (key x, f x)) xs) k = None \<longleftrightarrow> k \<notin> key ` set xs"
  by (simp add: map_of_eq_None_iff image_image)

lemma map_of_keyed_SomeD:
  "map_of (map (\<lambda>x. (key x, f x)) xs) k = Some v \<Longrightarrow> \<exists>x \<in> set xs. key x = k \<and> v = f x"
  by (auto dest!: map_of_SomeD)

lemma update_first_eq_nth:
  "find p xs \<noteq> None \<Longrightarrow> \<exists>i < length xs. p (xs ! i) \<and> update_first p f xs = xs[i := f (xs ! i)] \<and>
     find p xs = Some (xs ! i)"
proof (induction xs)
  case (Cons x xs)
  show ?case
  proof (cases "p x")
    case True
    then show ?thesis by (intro exI [of _ 0]) simp
  next
    case False
    with Cons obtain i where "i < length xs" "p (xs ! i)" "update_first p f xs = xs[i := f (xs ! i)]"
      "find p xs = Some (xs ! i)" by auto
    with False show ?thesis by (intro exI [of _ "Suc i"]) simp
  qed
qed simp

end
