(* ===== verification/SwarmQueue.thy ===== *)
theory SwarmQueue
  imports Prelude "HOL-Library.Product_Lexorder"
begin

text \<open>
  The coordinator's subtask queue, \<open>src/src/swarm/queue.ts\<close>, with the task types of
  \<open>src/src/common/types.ts\<close>. Every method of the class \<open>SwarmQueue\<close> is a function on the record
  \<open>SwarmQueue\<close>; \<open>Date.now()\<close> and \<open>randomUUID()\<close> are arguments, one per call the method makes.
  The calls to the optional Postgres store are fire-and-forget; the model keeps them in order
  in \<open>storeLog\<close>. A queue item is a mutable object shared with \<open>tasks\<close>, so the model of \<open>claim\<close>
  selects the position of an item and writes there.
\<close>

section \<open>Data\<close>

datatype Language = Python | Javascript
datatype SubtaskKind = Micro_loop | Single_step
datatype ResourceClass = Cpu | Gpu

record ExecutionPolicy =
  cpuCapPercent :: int
  memoryLimitMb :: int
  idleOnly :: bool
  maxConcurrentTasks :: int
  startHourUtc :: int
  endHourUtc :: int

record TaskProjectMeta =
  projectId :: string
  tenantId :: "string option"
  resourceClass :: ResourceClass
  priority :: int

record Subtask =
  st_id :: string
  st_taskId :: string
  st_kind :: SubtaskKind
  st_language :: Language
  st_input :: string
  st_timeoutMs :: int
  st_snapshotRef :: string
  st_projectMeta :: TaskProjectMeta
  st_requestedModel :: "string option"
  st_dependsOn :: "string list option"
  st_subtaskIndex :: "nat option"

record SubtaskResult =
  sr_subtaskId :: string
  sr_taskId :: string
  sr_agentId :: string
  sr_ok :: bool
  sr_output :: string
  sr_error :: "string option"
  sr_durationMs :: int
  sr_snapshotRef :: "string option"
  sr_reportNonce :: "string option"
  sr_reportSignature :: "string option"

record AgentState =
  as_agentId :: string
  as_policy :: ExecutionPolicy
  as_lastHeartbeat :: ms

record AgentMetadata =
  am_os :: string
  am_version :: string
  am_mode :: string
  am_localModelEnabled :: "bool option"
  am_activeModel :: "string option"
  am_activeModelParamSize :: "int option"

record QueueItem =
  qi_subtask :: Subtask
  qi_claimedBy :: "string option"
  qi_claimedAt :: "ms option"
  qi_claimableAfterMs :: "ms option"

datatype StoreCall =
    UpsertAgent string string string string bool ms "string option" "int option"
  | PersistSubtask Subtask
  | MarkSubtaskClaimed string string ms
  | PersistResult SubtaskResult

record SwarmQueue =
  tasks :: "QueueItem list"
  results :: "SubtaskResult list"
  agents :: "(string, AgentState) jsmap"
  projectCompleted :: "(string, nat) jsmap"
  agentClaimCount :: "(string, nat) jsmap"
  hasStore :: bool
  storeLog :: "StoreCall list"

definition newSwarmQueue :: "bool \<Rightarrow> SwarmQueue" where
  "newSwarmQueue store = \<lparr> tasks = [], results = [], agents = [], projectCompleted = [],
     agentClaimCount = [], hasStore = store, storeLog = [] \<rparr>"

definition storeCall :: "StoreCall \<Rightarrow> SwarmQueue \<Rightarrow> SwarmQueue" where
  "storeCall c q = (if hasStore q then q\<lparr> storeLog := storeLog q @ [c] \<rparr> else q)"

section \<open>Operations\<close>

definition registerAgent ::
  "string \<Rightarrow> ExecutionPolicy \<Rightarrow> AgentMetadata option \<Rightarrow> ms \<Rightarrow> SwarmQueue \<Rightarrow> SwarmQueue" where
  "registerAgent agentId policy metadata now q =
     storeCall
       (UpsertAgent agentId
          (nullish (map_option am_os metadata) ''unknown'')
          (nullish (map_option am_version metadata) ''unknown'')
          (nullish (map_option am_mode metadata) ''swarm-only'')
          (nullish (Option.bind metadata am_localModelEnabled) False)
          now
          (Option.bind metadata am_activeModel)
          (Option.bind metadata am_activeModelParamSize))
       (q\<lparr> agents := jsm_set agentId
              \<lparr> as_agentId = agentId, as_policy = policy, as_lastHeartbeat = now \<rparr> (agents q) \<rparr>)"

definition heartbeat :: "string \<Rightarrow> ms \<Rightarrow> SwarmQueue \<Rightarrow> SwarmQueue" where
  "heartbeat agentId now q =
     (case jsm_get (agents q) agentId of
        None \<Rightarrow> q
      | Some current \<Rightarrow>
          storeCall
            (UpsertAgent agentId ''unknown'' ''unknown'' ''swarm-only'' False now None None)
            (q\<lparr> agents := jsm_set agentId (current\<lparr> as_lastHeartbeat := now \<rparr>) (agents q) \<rparr>))"

text \<open>
  \<open>enqueueSubtask\<close>: the caller's \<open>id\<close> may be undefined, then \<open>uuid\<close> (the value \<open>randomUUID()\<close>
  returns) is taken. \<open>claimDelayMs\<close> of 0 is falsy and sets no window.
\<close>

definition enqueueSubtask ::
  "string option \<Rightarrow> Subtask \<Rightarrow> int option \<Rightarrow> string \<Rightarrow> ms \<Rightarrow> SwarmQueue \<Rightarrow> SwarmQueue \<times> Subtask" where
  "enqueueSubtask sid subtask claimDelayMs uuid now q =
     (let materialized = subtask\<lparr> st_id := nullish sid uuid \<rparr> in
      if (\<exists>t \<in> set (tasks q). st_id (qi_subtask t) = st_id materialized) then (q, materialized)
      else
        (let claimableAfterMs = (case claimDelayMs of None \<Rightarrow> None
                                 | Some d \<Rightarrow> if d = 0 then None else Some (now + d)) in
         (storeCall (PersistSubtask materialized)
            (q\<lparr> tasks := tasks q @ [\<lparr> qi_subtask = materialized, qi_claimedBy = None,
                  qi_claimedAt = None, qi_claimableAfterMs = claimableAfterMs \<rparr>] \<rparr>),
          materialized)))"

definition remoteClaimable :: "string \<Rightarrow> QueueItem \<Rightarrow> bool" where
  "remoteClaimable subtaskId t = (st_id (qi_subtask t) = subtaskId \<and> \<not> truthy_str (qi_claimedBy t))"

definition markRemoteClaimed :: "string \<Rightarrow> SwarmQueue \<Rightarrow> SwarmQueue \<times> bool" where
  "markRemoteClaimed subtaskId q =
     (if (\<exists>t \<in> set (tasks q). remoteClaimable subtaskId t)
      then (q\<lparr> tasks := remove_first (remoteClaimable subtaskId) (tasks q) \<rparr>, True)
      else (q, False))"

definition claimable :: "ms \<Rightarrow> QueueItem \<Rightarrow> bool" where
  "claimable now task =
     (\<not> truthy_str (qi_claimedBy task) \<and>
      (\<not> truthy_int (qi_claimableAfterMs task) \<or> now \<ge> the (qi_claimableAfterMs task)))"

definition completedCount :: "SwarmQueue \<Rightarrow> QueueItem \<Rightarrow> nat" where
  "completedCount q t = nullish (jsm_get (projectCompleted q) (projectId (st_projectMeta (qi_subtask t)))) 0"

text \<open>
  The loop replaces \<open>item\<close> by \<open>candidate\<close> when its project completed fewer results, or the same
  number and the candidate has the higher priority: a strict lexicographic comparison.
\<close>

definition fairKey :: "SwarmQueue \<Rightarrow> QueueItem \<Rightarrow> nat \<times> int" where
  "fairKey q t = (completedCount q t, - priority (st_projectMeta (qi_subtask t)))"

definition claimPool :: "string option \<Rightarrow> ms \<Rightarrow> SwarmQueue \<Rightarrow> nat list" where
  "claimPool agentActiveModel now q =
     (let unclaimed = filter (\<lambda>i. claimable now (tasks q ! i)) [0..<length (tasks q)];
          matching = (if truthy_str agentActiveModel
                      then filter (\<lambda>i. st_requestedModel (qi_subtask (tasks q ! i)) = agentActiveModel) unclaimed
                      else [])
      in if matching \<noteq> [] then matching else unclaimed)"

definition claim ::
  "string \<Rightarrow> string option \<Rightarrow> ms \<Rightarrow> ms \<Rightarrow> SwarmQueue \<Rightarrow> SwarmQueue \<times> Subtask option" where
  "claim agentId agentActiveModel now claimedAt q =
     (case pick_first_min (\<lambda>i. fairKey q (tasks q ! i)) (claimPool agentActiveModel now q) of
        None \<Rightarrow> (q, None)
      | Some i \<Rightarrow>
          (let item = tasks q ! i in
           (storeCall (MarkSubtaskClaimed (st_id (qi_subtask item)) agentId claimedAt)
              (q\<lparr> tasks := (tasks q)[i := item\<lparr> qi_claimedBy := Some agentId, qi_claimedAt := Some claimedAt \<rparr>],
                 agentClaimCount := jsm_set agentId
                   (nullish (jsm_get (agentClaimCount q) agentId) 0 + 1) (agentClaimCount q) \<rparr>),
            Some (qi_subtask item))))"

definition complete :: "SubtaskResult \<Rightarrow> SwarmQueue \<Rightarrow> SwarmQueue" where
  "complete result q =
     (let q1 = storeCall (PersistResult result) (q\<lparr> results := results q @ [result] \<rparr>) in
      case find (\<lambda>t. st_id (qi_subtask t) = sr_subtaskId result) (tasks q) of
        None \<Rightarrow> q1
      | Some t \<Rightarrow>
          (let pid = projectId (st_projectMeta (qi_subtask t)) in
           q1\<lparr> projectCompleted := jsm_set pid (nullish (jsm_get (projectCompleted q) pid) 0 + 1)
                                     (projectCompleted q),
               tasks := remove_first (\<lambda>t. st_id (qi_subtask t) = sr_subtaskId result) (tasks q) \<rparr>))"

definition getSubtask :: "string \<Rightarrow> SwarmQueue \<Rightarrow> Subtask option" where
  "getSubtask subtaskId q =
     map_option qi_subtask (find (\<lambda>t. st_id (qi_subtask t) = subtaskId) (tasks q))"

definition clearClaim :: "QueueItem \<Rightarrow> QueueItem" where
  "clearClaim t = t\<lparr> qi_claimedBy := None, qi_claimedAt := None \<rparr>"

definition requeue :: "string \<Rightarrow> SwarmQueue \<Rightarrow> SwarmQueue \<times> bool" where
  "requeue subtaskId q =
     (case find (\<lambda>t. st_id (qi_subtask t) = subtaskId) (tasks q) of
        None \<Rightarrow> (q, False)
      | Some _ \<Rightarrow>
          (q\<lparr> tasks := update_first (\<lambda>t. st_id (qi_subtask t) = subtaskId) clearClaim (tasks q) \<rparr>, True))"

definition staleClaim :: "int \<Rightarrow> ms \<Rightarrow> QueueItem \<Rightarrow> bool" where
  "staleClaim claimTimeoutMs now t =
     (truthy_str (qi_claimedBy t) \<and> truthy_int (qi_claimedAt t) \<and>
      now - the (qi_claimedAt t) > claimTimeoutMs)"

definition requeueStale :: "int \<Rightarrow> ms \<Rightarrow> SwarmQueue \<Rightarrow> SwarmQueue \<times> nat" where
  "requeueStale claimTimeoutMs now q =
     (let (ts, count) = foldl (\<lambda>(ts, count) item.
            if staleClaim claimTimeoutMs now item then (ts @ [clearClaim item], count + 1)
            else (ts @ [item], count)) ([], 0) (tasks q)
      in (q\<lparr> tasks := ts \<rparr>, count))"

definition agentClaims :: "string \<Rightarrow> SwarmQueue \<Rightarrow> nat" where
  "agentClaims agentId q = nullish (jsm_get (agentClaimCount q) agentId) 0"

definition status :: "SwarmQueue \<Rightarrow> nat \<times> nat \<times> nat" where
  "status q = (length (tasks q), length (agents q), length (results q))"

section \<open>Sequences of operations\<close>

datatype queue_op =
    RegisterAgent string ExecutionPolicy "AgentMetadata option" ms
  | Heartbeat string ms
  | EnqueueSubtask "string option" Subtask "int option" string ms
  | MarkRemoteClaimed string
  | Claim string "string option" ms ms
  | Complete SubtaskResult
  | Requeue string
  | RequeueStale int ms

fun queue_exec :: "queue_op \<Rightarrow> SwarmQueue \<Rightarrow> SwarmQueue" where
  "queue_exec (RegisterAgent a p m now) q = registerAgent a p m now q"
| "queue_exec (Heartbeat a now) q = heartbeat a now q"
| "queue_exec (EnqueueSubtask sid st d uuid now) q = fst (enqueueSubtask sid st d uuid now q)"
| "queue_exec (MarkRemoteClaimed i) q = fst (markRemoteClaimed i q)"
| "queue_exec (Claim a m now at) q = fst (claim a m now at q)"
| "queue_exec (Complete r) q = complete r q"
| "queue_exec (Requeue i) q = fst (requeue i q)"
| "queue_exec (RequeueStale timeout now) q = fst (requeueStale timeout now q)"

abbreviation item_id :: "QueueItem \<Rightarrow> string" where
  "item_id t \<equiv> st_id (qi_subtask t)"

definition agents_keyed :: "(string, AgentState) jsmap \<Rightarrow> bool" where
  "agents_keyed m = (\<forall>(k, a) \<in> set m. as_agentId a = k)"

definition claim_paired :: "QueueItem \<Rightarrow> bool" where
  "claim_paired t = (qi_claimedBy t = None \<longleftrightarrow> qi_claimedAt t = None)"

definition queue_inv :: "SwarmQueue \<Rightarrow> bool" where
  "queue_inv q \<longleftrightarrow>
     distinct (map item_id (tasks q)) \<and>
     Ball (set (tasks q)) claim_paired \<and>
     jsm_wf (agents q) \<and> jsm_wf (projectCompleted q) \<and> jsm_wf (agentClaimCount q) \<and>
     agents_keyed (agents q) \<and>
     sum_list (map snd (projectCompleted q)) \<le> length (results q)"

lemma queue_invI:
  assumes "distinct (map item_id (tasks q))"
    and "Ball (set (tasks q)) claim_paired"
    and "jsm_wf (agents q)" "jsm_wf (projectCompleted q)" "jsm_wf (agentClaimCount q)"
    and "agents_keyed (agents q)"
    and "sum_list (map snd (projectCompleted q)) \<le> length (results q)"
  shows "queue_inv q"
  using assms by (simp add: queue_inv_def)

lemma queue_invD:
  assumes "queue_inv q"
  shows "distinct (map item_id (tasks q))"
    and "Ball (set (tasks q)) claim_paired"
    and "jsm_wf (agents q)" "jsm_wf (projectCompleted q)" "jsm_wf (agentClaimCount q)"
    and "agents_keyed (agents q)"
    and "sum_list (map snd (projectCompleted q)) \<le> length (results q)"
  using assms by (simp_all add: queue_inv_def)

lemma storeCall_simps [simp]:
  "tasks (storeCall c q) = tasks q" "results (storeCall c q) = results q"
  "agents (storeCall c q) = agents q" "projectCompleted (storeCall c q) = projectCompleted q"
  "agentClaimCount (storeCall c q) = agentClaimCount q"
  by (simp_all add: storeCall_def)

lemma claim_paired_simps [simp]:
  "claim_paired \<lparr> qi_subtask = st, qi_claimedBy = None, qi_claimedAt = None, qi_claimableAfterMs = c \<rparr>"
  "claim_paired (t\<lparr> qi_claimedBy := Some a, qi_claimedAt := Some n \<rparr>)"
  "claim_paired (clearClaim t)"
  by (simp_all add: claim_paired_def clearClaim_def)

lemma agents_keyed_set: "agents_keyed m \<Longrightarrow> as_agentId a = k \<Longrightarrow> agents_keyed (jsm_set k a m)"
  unfolding agents_keyed_def by (rule jsm_set_all)

lemma agents_keyed_get: "agents_keyed m \<Longrightarrow> jsm_get m k = Some a \<Longrightarrow> as_agentId a = k"
  by (auto simp: agents_keyed_def dest: jsm_get_in_set)

lemma registerAgent_inv [op_inv]: "queue_inv q \<Longrightarrow> queue_inv (registerAgent a p m now q)"
  unfolding registerAgent_def by (rule queue_invI) (simp_all add: queue_invD agents_keyed_set)

lemma heartbeat_inv [op_inv]:
  assumes "queue_inv q"
  shows "queue_inv (heartbeat a now q)"
proof (cases "jsm_get (agents q) a")
  case None
  with assms show ?thesis by (simp add: heartbeat_def)
next
  case (Some cur)
  have "as_agentId cur = a" by (rule agents_keyed_get [OF queue_invD(6) [OF assms] Some])
  with assms Some show ?thesis
    by (intro queue_invI) (simp_all add: heartbeat_def queue_invD agents_keyed_set)
qed

lemma enqueueSubtask_inv [op_inv]: "queue_inv q \<Longrightarrow> queue_inv (fst (enqueueSubtask sid st d uuid now q))"
  by (auto simp: enqueueSubtask_def Let_def queue_invD image_iff eq_commute intro!: queue_invI
      dest: queue_invD(2))

lemma markRemoteClaimed_inv [op_inv]: "queue_inv q \<Longrightarrow> queue_inv (fst (markRemoteClaimed i q))"
  using set_remove_first [of "remoteClaimable i" "tasks q"]
  by (auto simp: markRemoteClaimed_def queue_invD distinct_map_remove_first intro!: queue_invI
      dest: queue_invD(2))

lemma map_item_id_update:
  "i < length ts \<Longrightarrow> item_id y = item_id (ts ! i) \<Longrightarrow> map item_id (ts[i := y]) = map item_id ts"
  by (simp add: map_update list_update_same_conv)

lemma claimPool_in:
  "i \<in> set (claimPool m now q) \<Longrightarrow> i < length (tasks q) \<and> claimable now (tasks q ! i)"
  by (auto simp: claimPool_def Let_def split: if_splits)

text \<open>\<open>claim\<close> either changes nothing, or writes the claim into one claimable item of the pool.\<close>

lemma claim_cases:
  obtains (none) "claim a m now at q = (q, None)" "claimPool m now q = []"
  | (some) i where "i \<in> set (claimPool m now q)" "i < length (tasks q)" "claimable now (tasks q ! i)"
      "pick_first_min (\<lambda>i. fairKey q (tasks q ! i)) (claimPool m now q) = Some i"
      "snd (claim a m now at q) = Some (qi_subtask (tasks q ! i))"
      "tasks (fst (claim a m now at q)) =
         (tasks q)[i := (tasks q ! i)\<lparr> qi_claimedBy := Some a, qi_claimedAt := Some at \<rparr>]"
      "agentClaimCount (fst (claim a m now at q)) =
         jsm_set a (nullish (jsm_get (agentClaimCount q) a) 0 + 1) (agentClaimCount q)"
      "results (fst (claim a m now at q)) = results q"
      "agents (fst (claim a m now at q)) = agents q"
      "projectCompleted (fst (claim a m now at q)) = projectCompleted q"
proof (cases "pick_first_min (\<lambda>i. fairKey q (tasks q ! i)) (claimPool m now q)")
  case None
  then have "claim a m now at q = (q, None)" by (simp add: claim_def)
  with None show ?thesis using none by simp
next
  case (Some i)
  then have "i \<in> set (claimPool m now q)" by (rule pick_first_min_in)
  with Some claimPool_in [OF this] show ?thesis by (intro some [of i]) (simp_all add: claim_def Let_def)
qed

lemma claim_inv [op_inv]:
  assumes "queue_inv q"
  shows "queue_inv (fst (claim a m now at q))"
  using assms
proof (cases rule: claim_cases [of a m now at q])
  case (some i)
  then show ?thesis using assms
    by (intro queue_invI) (auto simp: queue_invD map_item_id_update dest!: set_update_subset_insert [THEN subsetD]
        dest: queue_invD(2))
qed simp

lemma complete_inv [op_inv]: "queue_inv q \<Longrightarrow> queue_inv (complete r q)"
  using set_remove_first [of "\<lambda>t. item_id t = sr_subtaskId r" "tasks q"]
  by (auto simp: complete_def Let_def queue_invD distinct_map_remove_first sum_jsm_bump_Suc intro!: queue_invI
      split: option.splits dest: queue_invD)

lemma clearClaim_simps [simp]:
  "qi_subtask (clearClaim t) = qi_subtask t" "qi_claimedBy (clearClaim t) = None"
  "qi_claimedAt (clearClaim t) = None" "qi_claimableAfterMs (clearClaim t) = qi_claimableAfterMs t"
  by (simp_all add: clearClaim_def)

lemma requeue_inv [op_inv]: "queue_inv q \<Longrightarrow> queue_inv (fst (requeue i q))"
  using set_update_first [of "\<lambda>t. item_id t = i" clearClaim "tasks q"]
  by (auto simp: requeue_def queue_invD map_update_first intro!: queue_invI
      split: option.splits dest: queue_invD(2))

lemma requeueStale_eq:
  "requeueStale timeout now q =
     (q\<lparr> tasks := map (\<lambda>t. if staleClaim timeout now t then clearClaim t else t) (tasks q) \<rparr>,
      length (filter (staleClaim timeout now) (tasks q)))"
proof -
  have "foldl (\<lambda>(ts, count) item. if staleClaim timeout now item then (ts @ [clearClaim item], count + 1)
            else (ts @ [item], count)) (acc, n) xs =
        (acc @ map (\<lambda>t. if staleClaim timeout now t then clearClaim t else t) xs,
         n + length (filter (staleClaim timeout now) xs))" for acc n xs
    by (induction xs arbitrary: acc n) simp_all
  then show ?thesis by (simp add: requeueStale_def)
qed

lemma requeueStale_inv [op_inv]: "queue_inv q \<Longrightarrow> queue_inv (fst (requeueStale timeout now q))"
  by (auto simp: requeueStale_eq queue_invD comp_def if_distrib cong: if_cong intro!: queue_invI
      dest: queue_invD(2))

lemma newSwarmQueue_inv: "queue_inv (newSwarmQueue b)"
  by (simp add: queue_inv_def agents_keyed_def newSwarmQueue_def)

lemma queue_exec_inv: "queue_inv q \<Longrightarrow> queue_inv (queue_exec opn q)"
  by (cases opn) (simp_all add: op_inv)

interpretation swarm: op_machine_init queue_exec queue_inv "newSwarmQueue b" for b
  by unfold_locales (simp_all add: queue_exec_inv newSwarmQueue_inv)

section \<open>The lease table the queue implements\<close>

text \<open>
  What the coordinator relies on: a table of subtask ids, each free or leased to one agent, that
  changes by the steps below only. The queue refines it.
\<close>

type_synonym leases = "string \<rightharpoonup> string option"

datatype lease_event =
    Offered string | Granted string string | Withdrawn string | Finished string
  | Released "string set" | Idle

inductive lease_step :: "leases \<Rightarrow> lease_event \<Rightarrow> leases \<Rightarrow> bool" where
  offer: "m i = None \<Longrightarrow> lease_step m (Offered i) (m(i \<mapsto> None))"
| grant: "m i = Some None \<Longrightarrow> lease_step m (Granted i a) (m(i \<mapsto> Some a))"
| withdraw: "m i = Some None \<Longrightarrow> lease_step m (Withdrawn i) (m(i := None))"
| finish: "m i \<noteq> None \<Longrightarrow> lease_step m (Finished i) (m(i := None))"
| release: "E \<subseteq> dom m \<Longrightarrow> lease_step m (Released E) (\<lambda>i. if i \<in> E then Some None else m i)"
| idle: "lease_step m Idle m"

inductive_cases lease_stepE: "lease_step m e m'"
inductive_simps lease_step_Granted: "lease_step m (Granted i a) m'"

definition abs_leases :: "SwarmQueue \<Rightarrow> leases" where
  "abs_leases q = map_of (map (\<lambda>t. (item_id t, qi_claimedBy t)) (tasks q))"

fun op_event :: "queue_op \<Rightarrow> SwarmQueue \<Rightarrow> lease_event" where
  "op_event (EnqueueSubtask sid st d uuid now) q =
     (if abs_leases q (nullish sid uuid) = None then Offered (nullish sid uuid) else Idle)"
| "op_event (MarkRemoteClaimed i) q = (if snd (markRemoteClaimed i q) then Withdrawn i else Idle)"
| "op_event (Claim a m now at) q =
     (case snd (claim a m now at q) of None \<Rightarrow> Idle | Some st \<Rightarrow> Granted (st_id st) a)"
| "op_event (Complete r) q = (if abs_leases q (sr_subtaskId r) = None then Idle else Finished (sr_subtaskId r))"
| "op_event (Requeue i) q = (if abs_leases q i = None then Idle else Released {i})"
| "op_event (RequeueStale timeout now) q = Released (item_id ` set (filter (staleClaim timeout now) (tasks q)))"
| "op_event _ q = Idle"

definition named_op :: "queue_op \<Rightarrow> bool" where
  "named_op opn = (case opn of Claim a m now at \<Rightarrow> a \<noteq> [] | _ \<Rightarrow> True)"

text \<open>Every claim in the table is held by a named agent: claims by the empty name are excluded.\<close>

definition named_claims :: "SwarmQueue \<Rightarrow> bool" where
  "named_claims q = (\<forall>t \<in> set (tasks q). qi_claimedBy t \<noteq> Some [])"

lemma abs_leases_None: "abs_leases q i = None \<longleftrightarrow> i \<notin> item_id ` set (tasks q)"
  by (simp add: abs_leases_def map_of_keyed_None)

lemma abs_leases_in:
  "queue_inv q \<Longrightarrow> t \<in> set (tasks q) \<Longrightarrow> abs_leases q (item_id t) = Some (qi_claimedBy t)"
  unfolding abs_leases_def by (rule map_of_keyed_in) (rule queue_invD(1))

lemma named_falsy: "named_claims q \<Longrightarrow> t \<in> set (tasks q) \<Longrightarrow> \<not> truthy_str (qi_claimedBy t) \<longleftrightarrow> qi_claimedBy t = None"
  by (cases "qi_claimedBy t") (auto simp: named_claims_def)

lemma enqueue_refines:
  "lease_step (abs_leases q) (op_event (EnqueueSubtask sid st d uuid now) q)
     (abs_leases (queue_exec (EnqueueSubtask sid st d uuid now) q))"
proof (cases "abs_leases q (nullish sid uuid) = None")
  case True
  then have "\<forall>t \<in> set (tasks q). item_id t \<noteq> nullish sid uuid" by (auto simp: abs_leases_None image_iff)
  then have "abs_leases (queue_exec (EnqueueSubtask sid st d uuid now) q) = (abs_leases q)(nullish sid uuid \<mapsto> None)"
    using True by (auto simp: abs_leases_def enqueueSubtask_def Let_def map_add_def fun_eq_iff
        split: option.splits)
  then show ?thesis using True by (simp add: offer)
next
  case False
  then have "\<exists>t \<in> set (tasks q). item_id t = nullish sid uuid" by (auto simp: abs_leases_None)
  then show ?thesis using False by (auto simp: enqueueSubtask_def Let_def idle)
qed

lemma markRemoteClaimed_refines:
  assumes "queue_inv q" "named_claims q"
  shows "lease_step (abs_leases q) (op_event (MarkRemoteClaimed i) q) (abs_leases (queue_exec (MarkRemoteClaimed i) q))"
proof (cases "\<exists>t \<in> set (tasks q). remoteClaimable i t")
  case True
  then obtain t where t: "t \<in> set (tasks q)" "item_id t = i" "\<not> truthy_str (qi_claimedBy t)"
    by (auto simp: remoteClaimable_def)
  with assms have "abs_leases q i = Some None" using abs_leases_in named_falsy by metis
  moreover have rc: "item_id t = i" if "remoteClaimable i t" for t using that by (simp add: remoteClaimable_def)
  then have "abs_leases (fst (markRemoteClaimed i q)) = (abs_leases q)(i := None)"
    using True map_of_keyed_remove_first [OF queue_invD(1) [OF assms(1)] rc True, of qi_claimedBy]
    by (simp add: abs_leases_def markRemoteClaimed_def)
  ultimately show ?thesis using True withdraw [of "abs_leases q" i] by (simp add: markRemoteClaimed_def)
next
  case False
  then show ?thesis by (simp add: markRemoteClaimed_def idle)
qed

lemma claim_refines:
  assumes "queue_inv q" "named_claims q"
  shows "lease_step (abs_leases q) (op_event (Claim a m now at) q) (abs_leases (queue_exec (Claim a m now at) q))"
proof (cases rule: claim_cases [of a m now at q])
  case none
  then show ?thesis by (simp add: idle)
next
  case (some i)
  let ?t = "tasks q ! i"
  have "abs_leases q (item_id ?t) = Some None"
    using some assms abs_leases_in named_falsy by (simp add: claimable_def)
  moreover have "abs_leases (fst (claim a m now at q)) = (abs_leases q)(item_id ?t \<mapsto> Some a)"
    using some map_of_keyed_update_nth [OF queue_invD(1) [OF assms(1)] some(2), of "?t\<lparr> qi_claimedBy := Some a, qi_claimedAt := Some at \<rparr>" qi_claimedBy]
    by (simp add: abs_leases_def)
  ultimately show ?thesis using some(5) grant [of "abs_leases q" "item_id ?t" a] by simp
qed

lemma complete_refines:
  assumes "queue_inv q"
  shows "lease_step (abs_leases q) (op_event (Complete r) q) (abs_leases (queue_exec (Complete r) q))"
proof (cases "find (\<lambda>t. item_id t = sr_subtaskId r) (tasks q)")
  case None
  then have "abs_leases q (sr_subtaskId r) = None" by (auto simp: find_None_all abs_leases_None)
  with None show ?thesis by (simp add: complete_def abs_leases_def idle)
next
  case (Some t)
  then have t: "\<exists>t \<in> set (tasks q). item_id t = sr_subtaskId r" by (auto dest: find_SomeD)
  then have "abs_leases q (sr_subtaskId r) \<noteq> None" unfolding abs_leases_None by (metis imageI)
  moreover have "abs_leases (complete r q) = (abs_leases q)(sr_subtaskId r := None)"
    using Some map_of_keyed_remove_first [OF queue_invD(1) [OF assms] _ t, of "sr_subtaskId r" qi_claimedBy]
    by (simp add: abs_leases_def complete_def Let_def)
  ultimately show ?thesis by (auto simp: finish)
qed

lemma requeue_refines:
  assumes "queue_inv q"
  shows "lease_step (abs_leases q) (op_event (Requeue i) q) (abs_leases (queue_exec (Requeue i) q))"
proof (cases "find (\<lambda>t. item_id t = i) (tasks q)")
  case None
  then have "abs_leases q i = None" by (auto simp: find_None_all abs_leases_None)
  with None show ?thesis by (simp add: requeue_def idle)
next
  case (Some t)
  then obtain j where j: "j < length (tasks q)" "item_id (tasks q ! j) = i"
    "update_first (\<lambda>t. item_id t = i) clearClaim (tasks q) = (tasks q)[j := clearClaim (tasks q ! j)]"
    using update_first_eq_nth [of "\<lambda>t. item_id t = i" "tasks q"] by auto
  have "abs_leases (fst (requeue i q)) = (abs_leases q)(i \<mapsto> None)"
    using Some j map_of_keyed_update_nth [OF queue_invD(1) [OF assms] j(1), of "clearClaim (tasks q ! j)" qi_claimedBy]
    by (simp add: abs_leases_def requeue_def)
  moreover have "(abs_leases q)(i \<mapsto> None) = (\<lambda>k. if k \<in> {i} then Some None else abs_leases q k)" by auto
  moreover have "abs_leases q i \<noteq> None" using Some by (auto simp: abs_leases_None dest: find_SomeD)
  ultimately show ?thesis using release [of "{i}" "abs_leases q"] by (auto simp: domIff)
qed

lemma map_of_keyed_map_if:
  "distinct (map key xs) \<Longrightarrow> (\<And>x. key (g x) = key x) \<Longrightarrow>
   map_of (map (\<lambda>x. (key x, f x)) (map (\<lambda>x. if p x then g x else x) xs)) k =
     (case find (\<lambda>x. key x = k) xs of None \<Rightarrow> None | Some x \<Rightarrow> Some (if p x then f (g x) else f x))"
  by (induction xs) auto

lemma find_keyed: "distinct (map key xs) \<Longrightarrow> x \<in> set xs \<Longrightarrow> find (\<lambda>y. key y = key x) xs = Some x"
  by (induction xs) (auto simp: image_iff)

lemma requeueStale_refines:
  assumes "queue_inv q"
  shows "lease_step (abs_leases q) (op_event (RequeueStale timeout now) q) (abs_leases (queue_exec (RequeueStale timeout now) q))"
proof -
  let ?E = "item_id ` set (filter (staleClaim timeout now) (tasks q))"
  have "abs_leases (fst (requeueStale timeout now q)) k = (if k \<in> ?E then Some None else abs_leases q k)" for k
  proof (cases "\<exists>t \<in> set (tasks q). item_id t = k")
    case True
    then obtain t where t: "t \<in> set (tasks q)" "item_id t = k" by blast
    have "k \<in> ?E \<longleftrightarrow> staleClaim timeout now t"
      using t queue_invD(1) [OF assms] by (auto simp: distinct_map inj_on_def)
    moreover have "abs_leases q k = Some (qi_claimedBy t)" using abs_leases_in [OF assms t(1)] t(2) by simp
    ultimately show ?thesis
      using map_of_keyed_map_if [OF queue_invD(1) [OF assms], of clearClaim qi_claimedBy "staleClaim timeout now" k]
        find_keyed [OF queue_invD(1) [OF assms] t(1)] t(2)
      by (simp add: requeueStale_eq abs_leases_def)
  next
    case False
    then have "abs_leases q k = None" "k \<notin> ?E" by (auto simp: abs_leases_None)
    moreover have "abs_leases (fst (requeueStale timeout now q)) k = None"
      using False unfolding abs_leases_None by (auto simp: requeueStale_eq)
    ultimately show ?thesis by simp
  qed
  then have "abs_leases (fst (requeueStale timeout now q)) = (\<lambda>k. if k \<in> ?E then Some None else abs_leases q k)" ..
  moreover have "?E \<subseteq> dom (abs_leases q)" unfolding dom_def abs_leases_None by auto
  ultimately show ?thesis using release [of ?E "abs_leases q"] by simp
qed

lemma agent_ops_refine:
  "abs_leases (registerAgent a p mt now q) = abs_leases q" "abs_leases (heartbeat a now q) = abs_leases q"
  by (simp_all add: abs_leases_def registerAgent_def heartbeat_def split: option.splits)

lemma named_claims_exec:
  assumes "named_claims q" "named_op opn"
  shows "named_claims (queue_exec opn q)"
proof (cases opn)
  case (Claim a m now at)
  show ?thesis
  proof (cases rule: claim_cases [of a m now at q])
    case (some i)
    then show ?thesis using assms Claim
      by (auto simp: named_claims_def named_op_def dest!: set_update_subset_insert [THEN subsetD])
  qed (simp add: assms Claim)
qed (use assms in \<open>auto simp: named_claims_def registerAgent_def heartbeat_def enqueueSubtask_def Let_def
    markRemoteClaimed_def complete_def requeue_def requeueStale_eq split: option.splits
    dest: set_remove_first [THEN subsetD] set_update_first [THEN subsetD]\<close>)

lemma exec_refines:
  assumes "queue_inv q" "named_claims q"
  shows "lease_step (abs_leases q) (op_event opn q) (abs_leases (queue_exec opn q))"
  using assms
  by (cases opn) (simp_all only: enqueue_refines markRemoteClaimed_refines claim_refines complete_refines
      requeue_refines requeueStale_refines, simp_all add: agent_ops_refine idle)

section \<open>Properties\<close>

lemma granted_agent:
  "lease_step m e m' \<Longrightarrow> m i = Some (Some a) \<Longrightarrow> e \<noteq> Finished i \<Longrightarrow> (\<And>E. e = Released E \<Longrightarrow> i \<notin> E) \<Longrightarrow>
   m' i = Some (Some a)"
  by (erule lease_stepE) auto

text \<open>
  The operations that leave a lease on \<open>i\<close> granted at time \<open>at\<close> alone: neither its completion nor its requeue, and no sweep later than
  the sweep's time limit after \<open>at\<close>.
\<close>

definition keeps_lease :: "string \<Rightarrow> ms \<Rightarrow> queue_op \<Rightarrow> bool" where
  "keeps_lease i at opn = (case opn of Complete r \<Rightarrow> sr_subtaskId r \<noteq> i | Requeue j \<Rightarrow> j \<noteq> i
     | RequeueStale timeout now \<Rightarrow> now - at \<le> timeout | _ \<Rightarrow> True)"

definition heldSince :: "string \<Rightarrow> string \<Rightarrow> ms \<Rightarrow> SwarmQueue \<Rightarrow> bool" where
  "heldSince i a at q = (\<exists>t \<in> set (tasks q). item_id t = i \<and> qi_claimedBy t = Some a \<and> qi_claimedAt t = Some at)"

lemma heldSince_lease: "queue_inv q \<Longrightarrow> heldSince i a at q \<Longrightarrow> abs_leases q i = Some (Some a)"
  by (auto simp: heldSince_def abs_leases_in)

lemma update_first_keeps: "x \<in> set xs \<Longrightarrow> \<not> p x \<Longrightarrow> x \<in> set (update_first p f xs)"
  by (induction xs) auto

lemma exec_keeps_held:
  assumes "a \<noteq> []" "keeps_lease i at opn" "heldSince i a at q"
  shows "heldSince i a at (queue_exec opn q)"
proof -
  obtain t where t: "t \<in> set (tasks q)" "item_id t = i" "qi_claimedBy t = Some a" "qi_claimedAt t = Some at"
    using assms(3) by (auto simp: heldSince_def)
  have "t \<in> set (tasks (queue_exec opn q))"
  proof (cases opn)
    case (MarkRemoteClaimed j)
    then show ?thesis using t assms(1) by (auto simp: markRemoteClaimed_def remoteClaimable_def intro: remove_first_keeps)
  next
    case (Claim b m now at')
    show ?thesis
    proof (cases rule: claim_cases [of b m now at' q])
      case (some j)
      obtain k where k: "k < length (tasks q)" "tasks q ! k = t" using t(1) by (auto simp: in_set_conv_nth)
      have "claimable now (tasks q ! j)" using some by simp
      then have "j \<noteq> k" using k t(3) assms(1) by (auto simp: claimable_def)
      then have "(tasks q)[j := x] ! k = t" "k < length ((tasks q)[j := x])" for x using k by simp_all
      then show ?thesis using some Claim by (simp, metis nth_mem)
    qed (use t Claim in simp)
  next
    case (Complete r)
    then show ?thesis using t assms(2) by (auto simp: complete_def Let_def keeps_lease_def split: option.splits intro: remove_first_keeps)
  next
    case (Requeue j)
    then show ?thesis using t assms(2) by (auto simp: requeue_def keeps_lease_def split: option.splits intro: update_first_keeps)
  next
    case (RequeueStale timeout now)
    then have "\<not> staleClaim timeout now t" using t assms(2) by (simp add: staleClaim_def keeps_lease_def)
    then show ?thesis using t RequeueStale by (force simp: requeueStale_eq)
  qed (use t in \<open>auto simp: registerAgent_def heartbeat_def enqueueSubtask_def Let_def split: option.splits\<close>)
  then show ?thesis using t by (auto simp: heldSince_def)
qed

lemma run_keeps_held:
  "queue_inv q \<Longrightarrow> named_claims q \<Longrightarrow> a \<noteq> [] \<Longrightarrow> heldSince i a at q \<Longrightarrow>
   list_all named_op ops \<Longrightarrow> list_all (keeps_lease i at) ops \<Longrightarrow>
   queue_inv (fold queue_exec ops q) \<and> named_claims (fold queue_exec ops q) \<and> heldSince i a at (fold queue_exec ops q)"
  by (induction ops arbitrary: q) (simp_all add: queue_exec_inv named_claims_exec exec_keeps_held)

lemma claim_holds: "claim a m now at q = (q', Some st) \<Longrightarrow> heldSince (st_id st) a at q'"
proof (cases rule: claim_cases [of a m now at q])
  case (some j)
  assume "claim a m now at q = (q', Some st)"
  then have e: "tasks q' = (tasks q)[j := (tasks q ! j)\<lparr> qi_claimedBy := Some a, qi_claimedAt := Some at \<rparr>]" "st = qi_subtask (tasks q ! j)"
    using some by auto
  have "(tasks q ! j)\<lparr> qi_claimedBy := Some a, qi_claimedAt := Some at \<rparr> \<in> set (tasks q')"
    using some e by (auto intro: set_update_memI)
  then show ?thesis unfolding heldSince_def
    by (rule rev_bexI) (simp add: e)
qed auto

lemma claim_grants:
  assumes "queue_inv q" "named_claims q" "claim a m now at q = (q', Some st)"
  shows "abs_leases q (st_id st) = Some None \<and> abs_leases q' (st_id st) = Some (Some a)"
  using claim_refines [OF assms(1,2), of a m now at] assms(3)
  by (auto simp: lease_step_Granted)

text \<open>
  In every queue reached from an empty one by any sequence of the class's operations, no two
  items carry the same subtask id (the deduplication of \<open>enqueueSubtask\<close>), an item has a
  \<open>claimedAt\<close> exactly when it has a \<open>claimedBy\<close>, each agent is filed under its own id, and the
  per-project completion counters never exceed the number of recorded results.
\<close>

theorem queue_reach_inv: "queue_inv (fold queue_exec ops (newSwarmQueue store))"
  by (rule swarm.reach_inv)

text \<open>
  C2: every operation of the queue is one step of the lease table: a subtask is offered once,
  granted only while free, withdrawn only while free, and freed or removed by requeue, expiry and
  completion only. (Claims are made under non-empty agent names.)
\<close>

theorem queue_refines_leases:
  assumes "list_all named_op ops"
  shows "let q = fold queue_exec ops (newSwarmQueue store) in
    lease_step (abs_leases q) (op_event opn q) (abs_leases (queue_exec opn q))"
proof -
  have "named_claims (fold queue_exec ops (newSwarmQueue store))"
    using assms by (induction ops rule: rev_induct) (simp_all add: named_claims_exec, simp add: named_claims_def newSwarmQueue_def)
  with queue_exec_inv swarm.reach_inv show ?thesis by (simp add: exec_refines)
qed

text \<open>
  C1: a subtask granted to a named agent is not granted again, to anybody, by any later claim, and cannot be withdrawn by a peer,
  whatever operations happen in between, heartbeats with their sweeps of stale claims included, as long as it is not completed or
  requeued and no sweep comes later than the time limit of the sweep after the grant.
\<close>

theorem no_double_claim:
  assumes "queue_inv q" "named_claims q" "a \<noteq> []" "claim a m now at q = (q1, Some st)"
    and "list_all named_op ops" "list_all (keeps_lease (st_id st) at) ops"
  shows "(case snd (claim b m' now' at' (fold queue_exec ops q1)) of None \<Rightarrow> True | Some st' \<Rightarrow> st_id st' \<noteq> st_id st) \<and>
    \<not> snd (markRemoteClaimed (st_id st) (fold queue_exec ops q1))"
proof -
  have q1: "queue_inv q1" "named_claims q1"
    using queue_exec_inv [OF assms(1), of "Claim a m now at"] named_claims_exec [OF assms(2), of "Claim a m now at"]
      assms(3,4) by (simp_all add: named_op_def)
  let ?q = "fold queue_exec ops q1"
  have "queue_inv ?q \<and> named_claims ?q \<and> heldSince (st_id st) a at ?q"
    by (rule run_keeps_held [OF q1 assms(3) claim_holds [OF assms(4)] assms(5,6)])
  then have run: "queue_inv ?q" "named_claims ?q" "abs_leases ?q (st_id st) = Some (Some a)"
    using heldSince_lease by auto
  have "case snd (claim b m' now' at' ?q) of None \<Rightarrow> True | Some st' \<Rightarrow> st_id st' \<noteq> st_id st"
    using claim_grants [OF run(1,2), of b m' now' at'] run(3)
    by (cases "claim b m' now' at' ?q") (auto split: option.splits)
  moreover have "\<not> snd (markRemoteClaimed (st_id st) ?q)"
    using abs_leases_in [OF run(1)] named_falsy [OF run(2)] run(3)
    by (auto simp: markRemoteClaimed_def remoteClaimable_def) (metis option.distinct(1) option.inject)
  ultimately show ?thesis ..
qed


text \<open>
  \<open>requeueStale\<close> frees exactly the claims older than the timeout, keeps every other item and the
  order of the queue, and returns how many it freed.
\<close>

theorem requeueStale_exact:
  "tasks (fst (requeueStale timeout now q)) =
     map (\<lambda>t. if staleClaim timeout now t then t\<lparr> qi_claimedBy := None, qi_claimedAt := None \<rparr> else t) (tasks q) \<and>
   snd (requeueStale timeout now q) = length (filter (staleClaim timeout now) (tasks q)) \<and>
   \<not> list_ex (staleClaim timeout now) (tasks (fst (requeueStale timeout now q))) \<and>
   snd (requeueStale timeout now (fst (requeueStale timeout now q))) = 0"
  by (auto simp: requeueStale_eq clearClaim_def list_ex_iff staleClaim_def filter_empty_conv)

section \<open>Witnesses\<close>

definition ex_subtask :: "string \<Rightarrow> string \<Rightarrow> int \<Rightarrow> string option \<Rightarrow> Subtask" where
  "ex_subtask i project prio model = \<lparr> st_id = i, st_taskId = ''task'', st_kind = Single_step,
     st_language = Python, st_input = ''x'', st_timeoutMs = 1000, st_snapshotRef = ''ref'',
     st_projectMeta = \<lparr> projectId = project, tenantId = None, resourceClass = Cpu, priority = prio \<rparr>,
     st_requestedModel = model, st_dependsOn = None, st_subtaskIndex = None \<rparr>"

definition ex_result :: "string \<Rightarrow> SubtaskResult" where
  "ex_result i = \<lparr> sr_subtaskId = i, sr_taskId = ''task'', sr_agentId = ''ag'', sr_ok = True,
     sr_output = ''out'', sr_error = None, sr_durationMs = 3, sr_snapshotRef = None,
     sr_reportNonce = None, sr_reportSignature = None \<rparr>"

definition ex_ops :: "queue_op list" where
  "ex_ops = [EnqueueSubtask (Some ''a'') (ex_subtask ''a'' ''p'' 5 None) None ''u1'' 10,
     EnqueueSubtask (Some ''b'') (ex_subtask ''b'' ''q'' 5 None) None ''u2'' 11,
     EnqueueSubtask None (ex_subtask ''x'' ''q'' 9 (Some ''qwen'')) (Some 0) ''c'' 12,
     Claim ''ag'' None 20 20, Complete (ex_result ''c'')]"

definition ex_queue :: SwarmQueue where
  "ex_queue = fold queue_exec ex_ops (newSwarmQueue True)"

lemma ex_queue_inv: "queue_inv ex_queue" "named_claims ex_queue"
  unfolding ex_queue_def by (rule swarm.reach_inv) code_simp

theorem queue_refines_leases_witness:
  "let q = fold queue_exec ex_ops (newSwarmQueue True) in
     lease_step (abs_leases q) (op_event (Claim ''ag2'' None 30 31) q) (abs_leases (queue_exec (Claim ''ag2'' None 30 31) q)) \<and>
     op_event (Claim ''ag2'' None 30 31) q = Granted ''a'' ''ag2''"
proof -
  have "list_all named_op ex_ops" by code_simp
  moreover have "op_event (Claim ''ag2'' None 30 31) (fold queue_exec ex_ops (newSwarmQueue True)) = Granted ''a'' ''ag2''"
    by code_simp
  ultimately show ?thesis using queue_refines_leases [of ex_ops True "Claim ''ag2'' None 30 31"] by (simp add: Let_def)
qed

theorem no_double_claim_witness:
  "\<exists>q1 st. claim ''ag2'' None 30 31 ex_queue = (q1, Some st) \<and> st_id st = ''a'' \<and>
     (case snd (claim ''ag3'' None 50 50 (fold queue_exec [Heartbeat ''ag2'' 40, RequeueStale 30000 40, Requeue ''b'', RequeueStale 30000 30031] q1)) of
        None \<Rightarrow> True | Some st' \<Rightarrow> st_id st' \<noteq> st_id st)"
proof -
  let ?r = "claim ''ag2'' None 30 31 ex_queue"
  let ?ops = "[Heartbeat ''ag2'' 40, RequeueStale 30000 40, Requeue ''b'', RequeueStale 30000 30031]"
  have "snd ?r = Some (ex_subtask ''a'' ''p'' 5 None)" by code_simp
  then have eq: "?r = (fst ?r, Some (ex_subtask ''a'' ''p'' 5 None))" by (simp add: prod_eq_iff)
  have "list_all named_op ?ops" "list_all (keeps_lease (st_id (ex_subtask ''a'' ''p'' 5 None)) 31) ?ops"
    by (simp_all add: named_op_def keeps_lease_def ex_subtask_def)
  from no_double_claim [OF ex_queue_inv _ eq this, of "''ag3''" None 50 50] eq show ?thesis
    by (intro exI [of _ "fst ?r"] exI [of _ "ex_subtask ''a'' ''p'' 5 None"]) (simp add: ex_subtask_def)
qed


end
