(* ===== verification/JsString.thy ===== *)
theory JsString
  imports Prelude
begin

text \<open>
  Strings as the sources build them: decimal numerals, \<open>join\<close>, and \<open>JSON.stringify\<close>. A string is
  a list of characters; the numerals and the separators are pinned down exactly because hashes
  and signatures are taken over the strings built here.
\<close>

section \<open>Numerals\<close>

definition digit_char :: "nat \<Rightarrow> char" where
  "digit_char d = char_of (48 + d)"

fun nat_str :: "nat \<Rightarrow> string" where
  "nat_str n = (if n < 10 then [digit_char n] else nat_str (n div 10) @ [digit_char (n mod 10)])"

declare nat_str.simps [simp del]

definition int_str :: "int \<Rightarrow> string" where
  "int_str i = (if i < 0 then CHR ''-'' # nat_str (nat (- i)) else nat_str (nat i))"

definition is_digit :: "char \<Rightarrow> bool" where
  "is_digit c = (48 \<le> (of_char c :: nat) \<and> (of_char c :: nat) \<le> 57)"

lemma of_char_digit: "d < 10 \<Longrightarrow> of_char (digit_char d) = (48 + d :: nat)"
  by (simp add: digit_char_def)

lemma digit_char_inj: "d < 10 \<Longrightarrow> e < 10 \<Longrightarrow> digit_char d = digit_char e \<longleftrightarrow> d = e"
  using of_char_digit by (metis add_left_cancel)

lemma is_digit_digit_char: "d < 10 \<Longrightarrow> is_digit (digit_char d)"
  by (simp add: is_digit_def of_char_digit)

lemma nat_str_digits: "c \<in> set (nat_str n) \<Longrightarrow> is_digit c"
  by (induction n rule: nat_str.induct)
    (subst (asm) (2) nat_str.simps, auto simp: is_digit_digit_char split: if_splits)

lemma nat_str_not_Nil [simp]: "nat_str n \<noteq> []"
  by (subst nat_str.simps) simp

lemma nat_str_eq_iff [simp]: "nat_str m = nat_str n \<longleftrightarrow> m = n"
proof (induction m arbitrary: n rule: nat_str.induct)
  case (1 m)
  have "m = n" if eq: "nat_str m = nat_str n"
  proof (cases "m < 10")
    case True
    then have "n < 10" using eq nat_str_not_Nil [of "n div 10"]
      by (auto simp: nat_str.simps [of m] nat_str.simps [of n] eq_commute [of "[]"] split: if_splits)
    with True eq show ?thesis by (simp add: nat_str.simps [of m] nat_str.simps [of n] digit_char_inj)
  next
    case False
    then have n: "\<not> n < 10" using eq nat_str_not_Nil [of "m div 10"]
      by (auto simp: nat_str.simps [of m] nat_str.simps [of n] eq_commute [of "[]"] split: if_splits)
    with False eq have "nat_str (m div 10) = nat_str (n div 10)" "m mod 10 = n mod 10"
      by (simp_all add: nat_str.simps [of m] nat_str.simps [of n] digit_char_inj)
    moreover have "m div 10 = n div 10" using 1 [OF False] calculation(1) by blast
    ultimately show ?thesis by (metis div_mult_mod_eq)
  qed
  then show ?case by auto
qed

lemma minus_not_digit: "\<not> is_digit (CHR ''-'')"
  by (simp add: is_digit_def)

lemma int_str_eq_iff [simp]: "int_str i = int_str j \<longleftrightarrow> i = j"
proof -
  have "hd (nat_str n) \<noteq> CHR ''-''" for n
    using nat_str_digits [of "hd (nat_str n)" n] minus_not_digit by (metis hd_in_set nat_str_not_Nil)
  then have "CHR ''-'' # xs \<noteq> nat_str n" for xs n by (metis list.sel(1))
  then show ?thesis by (auto simp: int_str_def) (metis list.distinct(1))
qed

lemma int_str_not_Nil [simp]: "int_str i \<noteq> []"
  by (simp add: int_str_def)

section \<open>Joining and splitting\<close>

fun join :: "string \<Rightarrow> string list \<Rightarrow> string" where
  "join sep [] = []"
| "join sep [x] = x"
| "join sep (x # y # ys) = x @ sep @ join sep (y # ys)"

text \<open>A field ends at the first separator character when it does not contain it.\<close>

lemma sep_inj:
  "c \<notin> set a \<Longrightarrow> c \<notin> set b \<Longrightarrow> a @ c # x = b @ c # y \<longleftrightarrow> a = b \<and> x = y"
proof (induction a arbitrary: b)
  case Nil
  then show ?case by (cases b) auto
next
  case (Cons d a)
  then show ?case by (cases b) auto
qed

section \<open>JSON strings\<close>

text \<open>
  \<open>JSON.stringify\<close> of a string: quotation mark, backslash and the control characters are escaped.
  Characters stand for the code units below 256; the two-character escapes and the
  \<open>\u00XX\<close> form follow ECMA-262.
\<close>

definition hex_char :: "nat \<Rightarrow> char" where
  "hex_char d = (if d < 10 then char_of (48 + d) else char_of (87 + d))"

definition bslash :: char where
  "bslash = CHR 0x5C"

definition json_escape_char :: "char \<Rightarrow> string" where
  "json_escape_char c =
     (let n = of_char c :: nat in
      if n = 34 then [bslash, CHR 0x22]
      else if n = 92 then [bslash, bslash]
      else if n = 8 then [bslash, CHR ''b'']
      else if n = 9 then [bslash, CHR ''t'']
      else if n = 10 then [bslash, CHR ''n'']
      else if n = 12 then [bslash, CHR ''f'']
      else if n = 13 then [bslash, CHR ''r'']
      else if n < 32 then [bslash, CHR ''u'', CHR ''0'', CHR ''0'', hex_char (n div 16), hex_char (n mod 16)]
      else [c])"

definition dquote :: char where
  "dquote = CHR 0x22"

definition json_str :: "string \<Rightarrow> string" where
  "json_str s = dquote # concat (map json_escape_char s) @ [dquote]"

text \<open>
  Escaping is undone by \<open>parse_char\<close>, so that a quoted string can be read back from any text it
  begins.
\<close>

definition hex_val :: "char \<Rightarrow> nat" where
  "hex_val c = (let n = of_char c in if n < 58 then n - 48 else n - 87)"

fun parse_char :: "string \<Rightarrow> (char \<times> string) option" where
  "parse_char [] = None"
| "parse_char (x # r) =
     (if x \<noteq> bslash then Some (x, r)
      else (case r of
              [] \<Rightarrow> None
            | t # r' \<Rightarrow>
                if t = CHR ''b'' then Some (CHR 0x08, r')
                else if t = CHR ''t'' then Some (CHR 0x09, r')
                else if t = CHR ''n'' then Some (CHR 0x0A, r')
                else if t = CHR ''f'' then Some (CHR 0x0C, r')
                else if t = CHR ''r'' then Some (CHR 0x0D, r')
                else if t = CHR ''u'' then
                  (case r' of _ # _ # h # l # r'' \<Rightarrow> Some (char_of (16 * hex_val h + hex_val l), r'') | _ \<Rightarrow> None)
                else Some (t, r')))"

lemma hex_val_hex_char: "d < 16 \<Longrightarrow> hex_val (hex_char d) = d"
  by (simp add: hex_val_def hex_char_def Let_def)

lemma bslash_code [simp]: "of_char bslash = (92::nat)" "of_char dquote = (34::nat)"
  by (simp_all add: bslash_def dquote_def)

lemma char_of_of_char_nat: "char_of (of_char c :: nat) = c"
  by simp

lemma special_chars:
  "of_char c = (34::nat) \<Longrightarrow> c = CHR 0x22" "of_char c = (92::nat) \<Longrightarrow> c = CHR 0x5C"
  "of_char c = (8::nat) \<Longrightarrow> c = CHR 0x08" "of_char c = (9::nat) \<Longrightarrow> c = CHR 0x09"
  "of_char c = (10::nat) \<Longrightarrow> c = CHR 0x0A" "of_char c = (12::nat) \<Longrightarrow> c = CHR 0x0C"
  "of_char c = (13::nat) \<Longrightarrow> c = CHR 0x0D"
  by (rule of_char_eq_iff [where 'a = nat, THEN iffD1], simp)+

lemma bslash_ne [simp]: "bslash \<noteq> dquote" "dquote \<noteq> bslash"
  by (simp_all add: bslash_def dquote_def)

lemma parse_escape_special:
  "of_char c \<in> {34, 92, 8, 9, 10, 12, 13 :: nat} \<Longrightarrow> parse_char (json_escape_char c @ u) = Some (c, u)"
  by (elim insertE emptyE; drule special_chars; simp add: json_escape_char_def bslash_def)

lemma parse_escape: "parse_char (json_escape_char c @ u) = Some (c, u)"
proof (cases "of_char c \<in> {34, 92, 8, 9, 10, 12, 13 :: nat}")
  case False
  let ?n = "of_char c :: nat"
  show ?thesis
  proof (cases "?n < 32")
    case True
    then have "16 * hex_val (hex_char (?n div 16)) + hex_val (hex_char (?n mod 16)) = ?n"
      by (simp add: hex_val_hex_char)
    then have "char_of (16 * hex_val (hex_char (?n div 16)) + hex_val (hex_char (?n mod 16))) = c" by simp
    moreover have "json_escape_char c = [bslash, CHR ''u'', CHR ''0'', CHR ''0'', hex_char (?n div 16), hex_char (?n mod 16)]"
      using False True by (simp add: json_escape_char_def Let_def)
    ultimately show ?thesis by simp
  next
    case nl: False
    then have "json_escape_char c = [c]" using False by (simp add: json_escape_char_def Let_def)
    moreover have "c \<noteq> bslash" using False by auto
    ultimately show ?thesis by simp
  qed
qed (rule parse_escape_special)

lemma escape_hd: "json_escape_char c @ u = x # v \<Longrightarrow> x \<noteq> dquote"
  by (auto simp: json_escape_char_def Let_def split: if_splits)

lemma escape_not_Nil [simp]: "json_escape_char c \<noteq> []"
  by (simp add: json_escape_char_def Let_def)

lemma json_body_inj:
  "concat (map json_escape_char s) @ dquote # x = concat (map json_escape_char t) @ dquote # y \<Longrightarrow> s = t \<and> x = y"
proof (induction s arbitrary: t)
  case Nil
  show ?case
  proof (cases t)
    case (Cons d t')
    with Nil show ?thesis using escape_hd [of d "concat (map json_escape_char t') @ dquote # y" dquote x] by simp
  qed (use Nil in simp)
next
  case (Cons c s)
  show ?case
  proof (cases t)
    case Nil
    with Cons.prems show ?thesis
      using escape_hd [of c "concat (map json_escape_char s) @ dquote # x" dquote y] by simp
  next
    case (Cons d t')
    from Cons.prems Cons have eq: "json_escape_char c @ (concat (map json_escape_char s) @ dquote # x) =
        json_escape_char d @ (concat (map json_escape_char t') @ dquote # y)" by simp
    then have "parse_char (json_escape_char c @ (concat (map json_escape_char s) @ dquote # x)) =
        parse_char (json_escape_char d @ (concat (map json_escape_char t') @ dquote # y))" by simp
    then have "c = d" "concat (map json_escape_char s) @ dquote # x = concat (map json_escape_char t') @ dquote # y"
      by (simp_all only: parse_escape option.inject prod.inject)
    with Cons.IH [of t'] Cons show ?thesis by simp
  qed
qed

lemma json_str_inj: "json_str s @ x = json_str t @ y \<longleftrightarrow> s = t \<and> x = y"
  using json_body_inj [of s x t y] by (auto simp: json_str_def)

section \<open>JSON texts\<close>

text \<open>
  \<open>JSON.stringify\<close> of the values the sources hash and sign. Numbers are integers (time stamps, counters and
  sequence numbers). An object is the list of its fields in order; a field whose value is
  \<open>undefined\<close> is left out, which \<open>jfield\<close> expresses.
\<close>

datatype json = JNull | JBool bool | JNum int | JStr string | JArr "json list" | JObj "(string \<times> json) list"

fun json_text :: "json \<Rightarrow> string" and json_rest :: "json list \<Rightarrow> string" and json_members :: "(string \<times> json) list \<Rightarrow> string" where
  "json_text JNull = ''null''"
| "json_text (JBool b) = (if b then ''true'' else ''false'')"
| "json_text (JNum i) = int_str i"
| "json_text (JStr s) = json_str s"
| "json_text (JArr []) = ''[]''"
| "json_text (JArr (v # vs)) = CHR ''['' # json_text v @ json_rest vs"
| "json_text (JObj []) = ''{}''"
| "json_text (JObj ((k, v) # ms)) = CHR ''{'' # json_str k @ CHR '':'' # json_text v @ json_members ms"
| "json_rest [] = '']''"
| "json_rest (v # vs) = CHR '','' # json_text v @ json_rest vs"
| "json_members [] = ''}''"
| "json_members ((k, v) # ms) = CHR '','' # json_str k @ CHR '':'' # json_text v @ json_members ms"

text \<open>A property of a parsed value; of repeated keys the last one counts.\<close>

fun json_member :: "json \<Rightarrow> string \<Rightarrow> json option" where
  "json_member (JObj ms) k = map_of (rev ms) k"
| "json_member _ k = None"

definition jfield :: "string \<Rightarrow> json option \<Rightarrow> (string \<times> json) list" where
  "jfield k v = (case v of None \<Rightarrow> [] | Some x \<Rightarrow> [(k, x)])"

text \<open>What may follow a value in a JSON text does not begin with a digit.\<close>

definition ends_value :: "string \<Rightarrow> bool" where
  "ends_value x = (case x of [] \<Rightarrow> True | c # _ \<Rightarrow> \<not> is_digit c)"

lemma ends_value_rest [simp]: "ends_value (json_rest vs @ x)" "ends_value (json_members ms @ x)"
  by (cases vs; simp add: ends_value_def is_digit_def) (cases ms; auto simp: ends_value_def is_digit_def)

lemma digits_prefix:
  "list_all is_digit a \<Longrightarrow> list_all is_digit b \<Longrightarrow> ends_value x \<Longrightarrow> ends_value y \<Longrightarrow> a @ x = b @ y \<Longrightarrow> a = b \<and> x = y"
proof (induction a arbitrary: b)
  case Nil
  show ?case
  proof (cases b)
    case (Cons d b')
    with Nil have "x = d # (b' @ y)" "is_digit d" by simp_all
    with Nil(3) show ?thesis by (simp add: ends_value_def)
  qed (use Nil in simp)
next
  case (Cons c a)
  show ?case
  proof (cases b)
    case Nil
    with Cons.prems have "y = c # (a @ x)" "is_digit c" by simp_all
    with Cons.prems(4) show ?thesis by (simp add: ends_value_def)
  next
    case (Cons d b')
    with Cons.prems have "c = d" "a @ x = b' @ y" "list_all is_digit a" "list_all is_digit b'" by simp_all
    with Cons.IH [of b'] Cons.prems(3,4) Cons show ?thesis by simp
  qed
qed

lemma nat_str_list_all: "list_all is_digit (nat_str n)"
  using nat_str_digits by (simp add: list_all_iff)

lemma nat_str_not_minus: "nat_str n @ u \<noteq> CHR ''-'' # v"
proof (cases "nat_str n")
  case (Cons c cs)
  then have "is_digit c" using nat_str_list_all [of n] by simp
  with Cons minus_not_digit show ?thesis by auto
qed simp

lemma int_str_prefix:
  assumes eq: "int_str i @ x = int_str j @ y" and ends: "ends_value x" "ends_value y"
  shows "i = j \<and> x = y"
proof -
  note dp = digits_prefix [OF nat_str_list_all nat_str_list_all ends]
  consider "i < 0" "j < 0" | "0 \<le> i" "0 \<le> j" | "i < 0" "0 \<le> j" | "0 \<le> i" "j < 0" by linarith
  then show ?thesis
  proof cases
    case 1
    with eq dp [of "nat (- i)" "nat (- j)"] have "nat (- i) = nat (- j) \<and> x = y" by (simp add: int_str_def)
    with 1 show ?thesis by linarith
  next
    case 2
    with eq dp [of "nat i" "nat j"] have "nat i = nat j \<and> x = y" by (simp add: int_str_def)
    with 2 show ?thesis by linarith
  next
    case 3
    with eq nat_str_not_minus [of "nat j" y "nat_str (nat (- i)) @ x"] show ?thesis by (simp add: int_str_def)
  next
    case 4
    with eq nat_str_not_minus [of "nat i" x "nat_str (nat (- j)) @ y"] show ?thesis by (simp add: int_str_def)
  qed
qed

text \<open>
  Two JSON texts that agree as far as either goes are texts of the same value. The kinds of values
  differ in their first character.
\<close>

definition json_hd_class :: "json \<Rightarrow> nat" where
  "json_hd_class v = (case v of JNull \<Rightarrow> 0 | JBool b \<Rightarrow> if b then 1 else 2 | JNum _ \<Rightarrow> 3 | JStr _ \<Rightarrow> 4 | JArr _ \<Rightarrow> 5 | JObj _ \<Rightarrow> 6)"

definition char_class :: "char \<Rightarrow> nat" where
  "char_class c = (if c = CHR ''n'' then 0 else if c = CHR ''t'' then 1 else if c = CHR ''f'' then 2
     else if is_digit c \<or> c = CHR ''-'' then 3 else if c = dquote then 4 else if c = CHR ''['' then 5 else 6)"

lemma int_str_hd: "is_digit (hd (int_str i)) \<or> hd (int_str i) = CHR ''-''"
  using nat_str_list_all [of "nat i"] by (auto simp: int_str_def list_all_iff)

lemma json_text_hd: "json_text v \<noteq> [] \<and> char_class (hd (json_text v)) = json_hd_class v"
proof (cases v)
  case (JNum i)
  then show ?thesis using int_str_hd [of i]
    by (auto simp: json_hd_class_def char_class_def) (auto simp: is_digit_def)
next
  case (JArr vs)
  then show ?thesis by (cases vs) (auto simp: json_hd_class_def char_class_def is_digit_def dquote_def)
next
  case (JObj ms)
  then show ?thesis by (cases ms) (auto simp: json_hd_class_def char_class_def is_digit_def dquote_def)
qed (auto simp: json_hd_class_def char_class_def is_digit_def dquote_def json_str_def)

lemma json_class_eq: "json_text v @ x = json_text w @ y \<Longrightarrow> json_hd_class v = json_hd_class w"
  using json_text_hd [of v] json_text_hd [of w] by (metis hd_append2)

lemma json_prefix:
  shows "json_text v @ x = json_text w @ y \<Longrightarrow> ends_value x \<Longrightarrow> ends_value y \<Longrightarrow> v = w \<and> x = y"
    and "json_rest vs @ x = json_rest ws @ y \<Longrightarrow> vs = ws \<and> x = y"
    and "json_members ms @ x = json_members ns @ y \<Longrightarrow> ms = ns \<and> x = y"
proof (induction v and vs and ms arbitrary: w x y and ws x y and ns x y rule: json_text_json_rest_json_members.induct)
  case (3 i)
  from json_class_eq [OF 3(1)] obtain j where "w = JNum j" by (cases w) (auto simp: json_hd_class_def split: if_splits)
  with 3 int_str_prefix show ?case by simp
next
  case (4 s)
  from json_class_eq [OF 4(1)] obtain t where "w = JStr t" by (cases w) (auto simp: json_hd_class_def split: if_splits)
  with 4 show ?case by (simp add: json_str_inj)
next
  case 5
  from json_class_eq [OF 5(1)] obtain ws where w: "w = JArr ws" by (cases w) (auto simp: json_hd_class_def split: if_splits)
  show ?case
  proof (cases ws)
    case (Cons u us)
    with 5(1) w have "hd (json_text u) = CHR '']''" using json_text_hd [of u] by (cases "json_text u") auto
    with json_text_hd [of u] have "json_hd_class u = 6" by (simp add: char_class_def is_digit_def dquote_def)
    then obtain ms where "u = JObj ms" by (cases u) (auto simp: json_hd_class_def split: if_splits)
    with \<open>hd (json_text u) = CHR '']''\<close> show ?thesis by (cases ms) auto
  qed (use 5 w in simp)
next
  case (6 u us)
  from json_class_eq [OF 6(3)] obtain ws where w: "w = JArr ws" by (cases w) (auto simp: json_hd_class_def split: if_splits)
  show ?case
  proof (cases ws)
    case Nil
    with 6(3) w have "hd (json_text u) = CHR '']''" using json_text_hd [of u] by (cases "json_text u") auto
    with json_text_hd [of u] have "json_hd_class u = 6" by (simp add: char_class_def is_digit_def dquote_def)
    then obtain ms where "u = JObj ms" by (cases u) (auto simp: json_hd_class_def split: if_splits)
    with \<open>hd (json_text u) = CHR '']''\<close> show ?thesis by (cases ms) auto
  next
    case (Cons u' us')
    with 6(3) w have "json_text u @ (json_rest us @ x) = json_text u' @ (json_rest us' @ y)" by simp
    from 6(1) [OF this] have "u = u'" "json_rest us @ x = json_rest us' @ y" by simp_all
    with 6(2) Cons w show ?thesis by blast
  qed
next
  case 7
  from json_class_eq [OF 7(1)] obtain ws where w: "w = JObj ws" by (cases w) (auto simp: json_hd_class_def split: if_splits)
  with 7 show ?case by (cases ws) (auto simp: json_str_def dquote_def)
next
  case (8 k u us)
  from json_class_eq [OF 8(3)] obtain ws where w: "w = JObj ws" by (cases w) (auto simp: json_hd_class_def split: if_splits)
  show ?case
  proof (cases ws)
    case Nil
    with 8(3) w show ?thesis by (simp add: json_str_def dquote_def)
  next
    case (Cons m us')
    obtain k' u' where m: "m = (k', u')" by (cases m)
    from 8(3) w Cons m have e: "json_str k @ (CHR '':'' # json_text u @ (json_members us @ x)) =
        json_str k' @ (CHR '':'' # json_text u' @ (json_members us' @ y))" by simp
    then have "k = k'" "json_text u @ (json_members us @ x) = json_text u' @ (json_members us' @ y)"
      by (simp_all add: json_str_inj)
    with 8(1) [OF this(2)] 8(2) [of x us' y] Cons w m show ?thesis by simp
  qed
next
  case 9
  show ?case by (cases ws) (use 9 in auto)
next
  case (10 u us)
  show ?case
  proof (cases ws)
    case (Cons u' us')
    with 10(3) have "json_text u @ (json_rest us @ x) = json_text u' @ (json_rest us' @ y)" by simp
    from 10(1) [OF this] have "u = u'" "json_rest us @ x = json_rest us' @ y" by simp_all
    with 10(2) Cons show ?thesis by blast
  qed (use 10(3) in simp)
next
  case 11
  show ?case by (cases ns) (use 11 in auto)
next
  case (12 k u us)
  show ?case
  proof (cases ns)
    case (Cons m us')
    obtain k' u' where m: "m = (k', u')" by (cases m)
    from 12(3) Cons m have e: "json_str k @ (CHR '':'' # json_text u @ (json_members us @ x)) =
        json_str k' @ (CHR '':'' # json_text u' @ (json_members us' @ y))" by simp
    then have "k = k'" "json_text u @ (json_members us @ x) = json_text u' @ (json_members us' @ y)"
      by (simp_all add: json_str_inj)
    with 12(1) [OF this(2)] 12(2) [of x us' y] Cons m show ?thesis by simp
  qed (use 12(3) in simp)
next
  case 1
  from json_class_eq [OF 1(1)] have "w = JNull" by (cases w) (auto simp: json_hd_class_def split: if_splits)
  with 1 show ?case by simp
next
  case (2 b)
  from json_class_eq [OF 2(1)] have "w = JBool b" by (cases w) (auto simp: json_hd_class_def split: if_splits)
  with 2 show ?case by simp
qed

lemma json_text_inj [simp]: "json_text v = json_text w \<longleftrightarrow> v = w"
  using json_prefix(1) [of v "[]" w "[]"] by (auto simp: ends_value_def)

lemma jfield_simps [simp]: "jfield k None = []" "jfield k (Some v) = [(k, v)]"
  by (simp_all add: jfield_def)

text \<open>An optional field in front of others with different names determines its own value.\<close>

lemma jfield_append_inj:
  "k \<notin> fst ` set xs \<Longrightarrow> k \<notin> fst ` set ys \<Longrightarrow> jfield k v @ xs = jfield k w @ ys \<longleftrightarrow> v = w \<and> xs = ys"
  by (cases v; cases w) force+

lemma jfield_keys: "fst ` set (jfield k v) \<subseteq> {k}"
  by (cases v) simp_all

end
