(* ===== verification/SubtaskDeps.thy ===== *)
theory SubtaskDeps
  imports SwarmQueue JsString
begin

text \<open>
  Dependencies between the subtasks of one task, \<open>src/src/swarm/subtask-deps.ts\<close>, and the two places
  of the coordinator that drive them: the scheduling loop of \<open>POST /submit\<close> and the completion step
  of \<open>POST /result\<close> (\<open>src/src/swarm/coordinator.ts\<close>). The tracker hands released subtasks to
  an enqueue function; the locale \<open>enqueuer\<close> states what it needs of it and is interpreted on
  \<open>SwarmQueue.enqueueSubtask\<close>.
\<close>

section \<open>Data\<close>

record PendingDependentSubtask =
  pd_subtask :: Subtask
  pd_dependsOn :: "string list"
  pd_claimDelayMs :: "int option"

record SubtaskDepTracker =
  pending :: "(string, PendingDependentSubtask) jsmap"
  completedOutputs :: "(string, string) jsmap"

definition newSubtaskDepTracker :: SubtaskDepTracker where
  "newSubtaskDepTracker = \<lparr> pending = [], completedOutputs = [] \<rparr>"

section \<open>Cycle detection\<close>

type_synonym dep_node = "string \<times> string list option"
type_synonym dep_graph = "(string, string list) jsmap"

definition depGraph :: "dep_node list \<Rightarrow> dep_graph" where
  "depGraph subtasks =
     foldl (\<lambda>g (i, deps). jsm_set i (filter (\<lambda>d. d \<noteq> i) (nullish deps [])) g) [] subtasks"

definition succs :: "dep_graph \<Rightarrow> string \<Rightarrow> string list" where
  "succs graph i = nullish (jsm_get graph i) []"

text \<open>
  The search from \<open>startId\<close>. The stack is kept with its top first: \<open>push\<close> of the dependencies in
  order leaves the last of them on top. \<open>ids\<close> and the keys of \<open>graph\<close> are the same set.
\<close>

definition unvisited :: "dep_graph \<Rightarrow> string list \<Rightarrow> nat" where
  "unvisited graph visited = length (filter (\<lambda>i. i \<notin> set visited) (map fst graph))"

lemma unvisited_less:
  "jsm_has graph x \<Longrightarrow> x \<notin> set visited \<Longrightarrow> unvisited graph (x # visited) < unvisited graph visited"
proof (unfold unvisited_def jsm_has_def)
  let ?ks = "map fst graph"
  assume "x \<in> set ?ks" "x \<notin> set visited"
  have "length (filter (\<lambda>i. i \<notin> set (x # visited)) ks) < length (filter (\<lambda>i. i \<notin> set visited) ks)"
    if "x \<in> set ks" for ks
    using that
  proof (induction ks)
    case (Cons k ks)
    have le: "length (filter (\<lambda>i. i \<notin> set (x # visited)) ks) \<le> length (filter (\<lambda>i. i \<notin> set visited) ks)"
      by (induction ks) auto
    show ?case using Cons \<open>x \<notin> set visited\<close> le by (cases "k = x") (auto simp: le_imp_less_Suc)
  qed simp
  then show "length (filter (\<lambda>i. i \<notin> set (x # visited)) ?ks) < length (filter (\<lambda>i. i \<notin> set visited) ?ks)"
    using \<open>x \<in> set ?ks\<close> by blast
qed

function reachesSelf :: "dep_graph \<Rightarrow> string \<Rightarrow> string list \<Rightarrow> string list \<Rightarrow> bool" where
  "reachesSelf graph startId visited [] = False"
| "reachesSelf graph startId visited (current # stack) =
     (if current = startId then True
      else if current \<in> set visited \<or> \<not> jsm_has graph current then reachesSelf graph startId visited stack
      else reachesSelf graph startId (current # visited) (rev (succs graph current) @ stack))"
  by pat_completeness auto
termination
  by (relation "measures [\<lambda>(g, s, v, st). unvisited g v, \<lambda>(g, s, v, st). length st]")
    (auto simp: unvisited_less)

definition detectCircularDeps :: "dep_node list \<Rightarrow> string list" where
  "detectCircularDeps subtasks =
     (let graph = depGraph subtasks;
          selfLoops = foldl (\<lambda>acc (i, deps). if i \<in> set (nullish deps []) then jss_add i acc else acc) [] subtasks
      in foldl (\<lambda>cycleNodes startId.
            if startId \<in> set cycleNodes then cycleNodes
            else if reachesSelf graph startId [] (rev (succs graph startId)) then jss_add startId cycleNodes
            else cycleNodes) selfLoops (map fst graph))"

section \<open>Holding and releasing\<close>

definition contextLine :: "nat \<Rightarrow> string \<Rightarrow> string" where
  "contextLine i outp = ''Subtask '' @ nat_str (i + 1) @ '' result: '' @ outp"

definition newline :: string where
  "newline = [char_of (10 :: nat)]"

definition buildDependencyContext :: "string list \<Rightarrow> SubtaskDepTracker \<Rightarrow> string" where
  "buildDependencyContext depIds t =
     (let ls = concat (map (\<lambda>(i, d). case jsm_get (completedOutputs t) d of
                 None \<Rightarrow> [] | Some outp \<Rightarrow> [contextLine i outp]) (enumerate 0 depIds))
      in if ls = [] then []
         else ''[Context from previous subtasks]'' @ newline @ join newline ls @ newline @ newline @
              ''[Your task]'' @ newline)"

definition allMet :: "SubtaskDepTracker \<Rightarrow> PendingDependentSubtask \<Rightarrow> bool" where
  "allMet t e = list_all (jsm_has (completedOutputs t)) (pd_dependsOn e)"

definition enrich :: "SubtaskDepTracker \<Rightarrow> PendingDependentSubtask \<Rightarrow> Subtask" where
  "enrich t e = (pd_subtask e)\<lparr> st_input := buildDependencyContext (pd_dependsOn e) t @ st_input (pd_subtask e) \<rparr>"

text \<open>
  One pass over the entries of \<open>pending\<close>, deleting the current entry as it goes (which a \<open>Map\<close>
  iterator tolerates). \<open>enqueueFn\<close> works on the queue state \<open>q\<close> it closes over.
\<close>

definition releaseStep ::
  "(Subtask \<Rightarrow> int option \<Rightarrow> 'q \<Rightarrow> 'q \<times> Subtask) \<Rightarrow> SubtaskDepTracker \<times> 'q \<times> Subtask list \<Rightarrow>
   string \<times> PendingDependentSubtask \<Rightarrow> SubtaskDepTracker \<times> 'q \<times> Subtask list" where
  "releaseStep enqueueFn = (\<lambda>(t, q, released) (i, entry).
     if allMet t entry
     then (let (q', enqueued) = enqueueFn (enrich t entry) (pd_claimDelayMs entry) q
           in (t\<lparr> pending := jsm_delete i (pending t) \<rparr>, q', released @ [enqueued]))
     else (t, q, released))"

definition recordCompletionAndRelease ::
  "string \<Rightarrow> string \<Rightarrow> (Subtask \<Rightarrow> int option \<Rightarrow> 'q \<Rightarrow> 'q \<times> Subtask) \<Rightarrow>
   SubtaskDepTracker \<Rightarrow> 'q \<Rightarrow> SubtaskDepTracker \<times> 'q \<times> Subtask list" where
  "recordCompletionAndRelease completedSubtaskId outp enqueueFn t q =
     (let t1 = t\<lparr> completedOutputs := jsm_set completedSubtaskId outp (completedOutputs t) \<rparr> in
      foldl (releaseStep enqueueFn) (t1, q, []) (pending t1))"

definition hold :: "PendingDependentSubtask \<Rightarrow> SubtaskDepTracker \<Rightarrow> SubtaskDepTracker" where
  "hold entry t = t\<lparr> pending := jsm_set (st_id (pd_subtask entry)) entry (pending t) \<rparr>"

section \<open>The coordinator's use of the tracker\<close>

text \<open>
  \<open>POST /submit\<close>: the subtasks of the decomposition get fresh ids (\<open>uuids\<close>, one per subtask) while
  their \<open>dependsOn\<close> lists are kept as received. Subtasks with dependencies outside a cycle are held, the
  others enqueued.
\<close>

definition assignIds :: "string list \<Rightarrow> Subtask list \<Rightarrow> Subtask list" where
  "assignIds uuids subtasks = map (\<lambda>(u, s). s\<lparr> st_id := u \<rparr>) (zip uuids subtasks)"

definition hasDeps :: "Subtask \<Rightarrow> bool" where
  "hasDeps s = (case st_dependsOn s of None \<Rightarrow> False | Some deps \<Rightarrow> deps \<noteq> [])"

definition scheduleSubtask ::
  "string list \<Rightarrow> int option \<Rightarrow> ms \<Rightarrow> SubtaskDepTracker \<times> SwarmQueue \<times> Subtask list \<times> string list \<Rightarrow> Subtask \<Rightarrow>
   SubtaskDepTracker \<times> SwarmQueue \<times> Subtask list \<times> string list" where
  "scheduleSubtask circularIds enqueueOpts now = (\<lambda>(t, q, created, deferred) s.
     if hasDeps s \<and> st_id s \<notin> set circularIds
     then (hold \<lparr> pd_subtask = s, pd_dependsOn = the (st_dependsOn s), pd_claimDelayMs = enqueueOpts \<rparr> t,
           q, created, deferred @ [st_id s])
     else (let (q', enqueued) = enqueueSubtask (Some (st_id s)) s enqueueOpts [] now q
           in (t, q', created @ [enqueued], deferred)))"

definition scheduleSubtasks ::
  "string list \<Rightarrow> bool \<Rightarrow> ms \<Rightarrow> Subtask list \<Rightarrow> SubtaskDepTracker \<Rightarrow> SwarmQueue \<Rightarrow>
   SubtaskDepTracker \<times> SwarmQueue \<times> Subtask list \<times> string list" where
  "scheduleSubtasks uuids hasMeshPeers now subtasks t q =
     (let subtasksWithIds = assignIds uuids subtasks;
          circularIds = detectCircularDeps (map (\<lambda>s. (st_id s, st_dependsOn s)) subtasksWithIds);
          enqueueOpts = (if hasMeshPeers then Some 3000 else None)
      in foldl (scheduleSubtask circularIds enqueueOpts now) (t, q, [], []) subtasksWithIds)"

text \<open>
  \<open>POST /result\<close>, after the request has been authenticated: the queue drops the subtask and the
  tracker releases what waited for it.
\<close>

definition completeAndRelease ::
  "SubtaskResult \<Rightarrow> ms \<Rightarrow> SubtaskDepTracker \<Rightarrow> SwarmQueue \<Rightarrow> SubtaskDepTracker \<times> SwarmQueue \<times> Subtask list" where
  "completeAndRelease body now t q =
     recordCompletionAndRelease (sr_subtaskId body) (sr_output body)
       (\<lambda>s opts. enqueueSubtask (Some (st_id s)) s opts [] now) t (complete body q)"

section \<open>The search is correct\<close>

definition graph_edges :: "dep_graph \<Rightarrow> (string \<times> string) set" where
  "graph_edges g = {(a, b). b \<in> set (succs g a)}"

definition dep_edges :: "dep_node list \<Rightarrow> (string \<times> string) set" where
  "dep_edges subtasks = {(a, b). \<exists>deps. (a, deps) \<in> set subtasks \<and> b \<in> set (nullish deps [])}"

lemma reachesSelf_sound:
  "reachesSelf g s vis st \<Longrightarrow> \<exists>x \<in> set st. (x, s) \<in> (graph_edges g)\<^sup>*"
proof (induction g s vis st rule: reachesSelf.induct)
  case (2 g s vis x st)
  show ?case
  proof (cases "x = s")
    case False
    show ?thesis
    proof (cases "x \<in> set vis \<or> \<not> jsm_has g x")
      case True
      with 2 False show ?thesis by auto
    next
      case 3: False
      with 2 False obtain y where y: "y \<in> set (rev (succs g x) @ st)" "(y, s) \<in> (graph_edges g)\<^sup>*" by auto
      have "(x, y) \<in> graph_edges g" if "y \<in> set (succs g x)" using that by (simp add: graph_edges_def)
      with y show ?thesis by (auto intro: converse_rtrancl_into_rtrancl)
    qed
  qed auto
qed simp

text \<open>
  A search that fails has built a set that contains the stack, is closed under the edges and misses
  the start node. \<open>N\<close> collects the popped names that are not nodes.
\<close>

lemma reachesSelf_complete:
  assumes "\<not> reachesSelf g s vis st" "s \<notin> set vis" "jsm_has g s"
    and "\<forall>x \<in> N. \<not> jsm_has g x" "\<forall>v \<in> set vis. set (succs g v) \<subseteq> set vis \<union> N \<union> set st"
  shows "\<exists>V. set vis \<union> N \<union> set st \<subseteq> V \<and> s \<notin> V \<and> (\<forall>v \<in> V. set (succs g v) \<subseteq> V)"
  using assms
proof (induction g s vis st arbitrary: N rule: reachesSelf.induct)
  case (1 g s vis)
  have N: "succs g x = []" if "x \<in> N" for x using 1(4) that by (simp add: succs_def jsm_has_iff)
  have "s \<notin> set vis \<union> N" using 1(2,3,4) by blast
  moreover have "set (succs g v) \<subseteq> set vis \<union> N" if "v \<in> set vis \<union> N" for v
    using that N 1(5) by (cases "v \<in> N") auto
  ultimately show ?case by (intro exI [of _ "set vis \<union> N"]) simp
next
  case (2 g s vis x st)
  from 2(3) have ne: "x \<noteq> s" by (auto simp only: reachesSelf.simps if_True simp_thms)
  consider (visited) "x \<in> set vis" | (unknown) "x \<notin> set vis" "\<not> jsm_has g x" | (fresh) "x \<notin> set vis" "jsm_has g x"
    by blast
  then show ?case
  proof cases
    case visited
    have f: "\<not> reachesSelf g s vis st" using 2(3) ne visited by simp
    have c: "\<forall>v \<in> set vis. set (succs g v) \<subseteq> set vis \<union> N \<union> set st" using 2(7) visited by auto
    from 2(1) [OF ne disjI1 [OF visited] f 2(4-6) c] obtain V where
      V: "set vis \<union> N \<union> set st \<subseteq> V" "s \<notin> V" "\<forall>v \<in> V. set (succs g v) \<subseteq> V" by blast
    with visited show ?thesis by (intro exI [of _ V]) auto
  next
    case unknown
    have f: "\<not> reachesSelf g s vis st" using 2(3) ne unknown by simp
    have n: "\<forall>y \<in> insert x N. \<not> jsm_has g y" using 2(6) unknown by simp
    have c: "\<forall>v \<in> set vis. set (succs g v) \<subseteq> set vis \<union> insert x N \<union> set st" using 2(7) by auto
    from 2(1) [OF ne disjI2 [OF unknown(2)] f 2(4,5) n c] obtain V where
      V: "set vis \<union> insert x N \<union> set st \<subseteq> V" "s \<notin> V" "\<forall>v \<in> V. set (succs g v) \<subseteq> V" by blast
    then show ?thesis by (intro exI [of _ V]) auto
  next
    case fresh
    have nd: "\<not> (x \<in> set vis \<or> \<not> jsm_has g x)" using fresh by simp
    have f: "\<not> reachesSelf g s (x # vis) (rev (succs g x) @ st)" using 2(3) ne fresh by simp
    have v: "s \<notin> set (x # vis)" using 2(4) ne by simp
    have c: "\<forall>v \<in> set (x # vis). set (succs g v) \<subseteq> set (x # vis) \<union> N \<union> set (rev (succs g x) @ st)"
      using 2(7) by auto
    from 2(2) [OF ne nd f v 2(5,6) c] obtain V where
      V: "set (x # vis) \<union> N \<union> set (rev (succs g x) @ st) \<subseteq> V" "s \<notin> V" "\<forall>v \<in> V. set (succs g v) \<subseteq> V" by blast
    then show ?thesis by (intro exI [of _ V]) auto
  qed
qed

lemma reachesSelf_iff:
  assumes "jsm_has g s"
  shows "reachesSelf g s [] (rev (succs g s)) \<longleftrightarrow> (s, s) \<in> (graph_edges g)\<^sup>+"
proof
  assume "reachesSelf g s [] (rev (succs g s))"
  then obtain x where "(s, x) \<in> graph_edges g" "(x, s) \<in> (graph_edges g)\<^sup>*"
    by (auto dest: reachesSelf_sound simp: graph_edges_def)
  then show "(s, s) \<in> (graph_edges g)\<^sup>+" by (rule rtrancl_into_trancl2)
next
  assume tr: "(s, s) \<in> (graph_edges g)\<^sup>+"
  show "reachesSelf g s [] (rev (succs g s))"
  proof (rule ccontr)
    assume "\<not> reachesSelf g s [] (rev (succs g s))"
    from reachesSelf_complete [OF this _ assms, of "{}"] obtain V
      where V: "set (succs g s) \<subseteq> V" "s \<notin> V" "\<forall>v \<in> V. set (succs g v) \<subseteq> V" by auto
    have "(a, y) \<in> (graph_edges g)\<^sup>+ \<Longrightarrow> a = s \<Longrightarrow> y \<in> V" for a y
      by (induction rule: trancl_induct) (use V in \<open>auto simp: graph_edges_def\<close>)
    with tr V(2) show False by blast
  qed
qed

lemma depGraph_get:
  "distinct (map fst ss) \<Longrightarrow>
   jsm_get (depGraph ss) i = map_option (\<lambda>deps. filter (\<lambda>d. d \<noteq> i) (nullish deps [])) (map_of ss i)"
proof (induction ss rule: rev_induct)
  case (snoc x ss)
  obtain j deps where x: "x = (j, deps)" by (cases x)
  with snoc have "j \<notin> fst ` set ss" by auto
  then have "map_of ss j = None" by (simp add: map_of_eq_None_iff)
  with snoc x show ?case by (auto simp: depGraph_def jsm_get_set map_add_def split: option.splits)
qed (simp add: depGraph_def)

lemma depGraph_has: "distinct (map fst ss) \<Longrightarrow> jsm_has (depGraph ss) i \<longleftrightarrow> i \<in> fst ` set ss"
  by (simp add: jsm_has_iff depGraph_get map_of_eq_None_iff)

lemma graph_edges_depGraph:
  assumes "distinct (map fst ss)"
  shows "graph_edges (depGraph ss) = dep_edges ss - Id"
  using assms
  by (auto simp: graph_edges_def dep_edges_def succs_def depGraph_get split: option.splits
      dest: map_of_SomeD) (auto simp: nullish_def split: option.splits dest: map_of_SomeD)

lemma cycle_minus_Id: "(i, i) \<in> E\<^sup>+ \<longleftrightarrow> (i, i) \<in> E \<or> (i, i) \<in> (E - Id)\<^sup>+"
proof
  assume "(i, i) \<in> E\<^sup>+"
  then obtain j where j: "(i, j) \<in> E" "(j, i) \<in> E\<^sup>*" by (meson tranclD)
  then have "(j, i) \<in> (E - Id)\<^sup>*" by (simp add: rtrancl_r_diff_Id)
  with j show "(i, i) \<in> E \<or> (i, i) \<in> (E - Id)\<^sup>+" by (cases "i = j") (auto intro: rtrancl_into_trancl2)
next
  assume "(i, i) \<in> E \<or> (i, i) \<in> (E - Id)\<^sup>+"
  then show "(i, i) \<in> E\<^sup>+" by (auto elim: trancl_mono)
qed

lemma set_foldl_insert:
  "set (foldl (\<lambda>acc x. if x \<in> set acc then acc else if p x then jss_add x acc else acc) acc xs) =
   set acc \<union> {x \<in> set xs. p x}"
  by (induction xs arbitrary: acc) auto

lemma set_foldl_selfLoops:
  "set (foldl (\<lambda>acc (i, deps). if i \<in> set (nullish deps []) then jss_add i acc else acc) acc ss) =
   set acc \<union> {i. (i, i) \<in> dep_edges ss}"
  by (induction ss arbitrary: acc) (auto simp: dep_edges_def)

lemma set_detectCircularDeps:
  assumes "distinct (map fst ss)"
  shows "set (detectCircularDeps ss) = {i. (i, i) \<in> (dep_edges ss)\<^sup>+}"
proof -
  have "i \<in> fst ` set ss" if "(i, i) \<in> (dep_edges ss - Id)\<^sup>+" for i
    using tranclD [OF that] by (force simp: dep_edges_def)
  moreover have "reachesSelf (depGraph ss) i [] (rev (succs (depGraph ss) i)) \<longleftrightarrow> (i, i) \<in> (dep_edges ss - Id)\<^sup>+"
    if "i \<in> fst ` set ss" for i
    using reachesSelf_iff [of "depGraph ss" i] that assms by (simp add: depGraph_has graph_edges_depGraph)
  moreover have "set (map fst (depGraph ss)) = fst ` set ss"
    using depGraph_has [OF assms] by (auto simp: jsm_has_def)
  ultimately show ?thesis
    unfolding detectCircularDeps_def Let_def set_foldl_insert set_foldl_selfLoops
    by (subst cycle_minus_Id) auto
qed

section \<open>The enqueue interface\<close>

lemma pending_irrelevant [simp]:
  "allMet (t\<lparr> pending := p \<rparr>) = allMet t" "enrich (t\<lparr> pending := p \<rparr>) = enrich t"
  by (auto simp: allMet_def enrich_def buildDependencyContext_def fun_eq_iff)

locale enqueuer =
  fixes enq :: "Subtask \<Rightarrow> int option \<Rightarrow> 'q \<Rightarrow> 'q \<times> Subtask"
    and queued :: "'q \<Rightarrow> string \<Rightarrow> bool"
  assumes enq_returns: "snd (enq s d q) = s"
    and enq_queued: "queued (fst (enq s d q)) i \<longleftrightarrow> queued q i \<or> i = st_id s"
begin

lemma release_loop:
  assumes "foldl (releaseStep enq) (t, q, rel) es = (t', q', rel')"
  shows "completedOutputs t' = completedOutputs t \<and>
    pending t' = filter (\<lambda>(i, e). i \<notin> fst ` set (filter (allMet t \<circ> snd) es)) (pending t) \<and>
    rel' = rel @ map (enrich t \<circ> snd) (filter (allMet t \<circ> snd) es) \<and>
    (\<forall>i. queued q' i \<longleftrightarrow> queued q i \<or> i \<in> (st_id \<circ> enrich t \<circ> snd) ` set (filter (allMet t \<circ> snd) es))"
  using assms
proof (induction es arbitrary: t q rel)
  case (Cons x es)
  obtain i e where x: "x = (i, e)" by (cases x)
  show ?case
  proof (cases "allMet t e")
    case False
    with Cons x show ?thesis by (simp add: releaseStep_def)
  next
    case True
    let ?t = "t\<lparr> pending := jsm_delete i (pending t) \<rparr>"
    let ?r = "enq (enrich t e) (pd_claimDelayMs e) q"
    have "completedOutputs t' = completedOutputs ?t \<and>
      pending t' = filter (\<lambda>(i, e). i \<notin> fst ` set (filter (allMet ?t \<circ> snd) es)) (pending ?t) \<and>
      rel' = (rel @ [snd ?r]) @ map (enrich ?t \<circ> snd) (filter (allMet ?t \<circ> snd) es) \<and>
      (\<forall>i. queued q' i \<longleftrightarrow> queued (fst ?r) i \<or> i \<in> (st_id \<circ> enrich ?t \<circ> snd) ` set (filter (allMet ?t \<circ> snd) es))"
      using Cons.prems True x by (intro Cons.IH) (simp add: releaseStep_def case_prod_beta Let_def)
    with True x show ?thesis
      by (auto simp: enq_returns enq_queued jsm_delete_def AList.delete_eq case_prod_beta comp_def intro!: filter_cong)
  qed
qed simp

lemma release_eq:
  assumes "recordCompletionAndRelease c outp enq t q = (t', q', rel)" "jsm_wf (pending t)"
  defines "t1 \<equiv> t\<lparr> completedOutputs := jsm_set c outp (completedOutputs t) \<rparr>"
  shows "completedOutputs t' = completedOutputs t1"
    and "pending t' = filter (\<lambda>(i, e). \<not> allMet t1 e) (pending t)"
    and "rel = map (enrich t1 \<circ> snd) (filter (allMet t1 \<circ> snd) (pending t))"
    and "queued q' i \<longleftrightarrow> queued q i \<or> i \<in> st_id ` set rel"
proof -
  note loop = release_loop [OF assms(1) [unfolded recordCompletionAndRelease_def Let_def]]
  have "i \<notin> fst ` set (filter (allMet t1 \<circ> snd) (pending t)) \<longleftrightarrow> \<not> allMet t1 e" if m: "(i, e) \<in> set (pending t)" for i e
  proof -
    have "e' = e" if "(i, e') \<in> set (pending t)" for e'
      using m that assms(2) by (metis jsm_wf_def eq_key_imp_eq_value)
    with m have "(i, e') \<in> set (pending t) \<longleftrightarrow> e' = e" for e' by blast
    then show ?thesis by (auto simp: image_iff)
  qed
  then have "filter (\<lambda>(i, e). i \<notin> fst ` set (filter (allMet t1 \<circ> snd) (pending t))) (pending t) =
      filter (\<lambda>(i, e). \<not> allMet t1 e) (pending t)"
    by (intro filter_cong) auto
  with loop show "completedOutputs t' = completedOutputs t1"
    "pending t' = filter (\<lambda>(i, e). \<not> allMet t1 e) (pending t)"
    "rel = map (enrich t1 \<circ> snd) (filter (allMet t1 \<circ> snd) (pending t))"
    "queued q' i \<longleftrightarrow> queued q i \<or> i \<in> st_id ` set rel"
    by (simp_all add: t1_def image_image)
qed

end

definition in_queue :: "SwarmQueue \<Rightarrow> string \<Rightarrow> bool" where
  "in_queue q i = (\<exists>t \<in> set (tasks q). item_id t = i)"

lemma enqueueSubtask_in_queue:
  "in_queue (fst (enqueueSubtask sid s d uuid now q)) i \<longleftrightarrow> in_queue q i \<or> i = nullish sid uuid"
  by (auto simp: in_queue_def enqueueSubtask_def Let_def)

interpretation swarm_enq: enqueuer "\<lambda>s opts. enqueueSubtask (Some (st_id s)) s opts [] now" in_queue for now
  by unfold_locales (auto simp: enqueueSubtask_in_queue, simp add: enqueueSubtask_def Let_def)

section \<open>Invariant of the tracker\<close>

definition tracker_inv :: "SubtaskDepTracker \<Rightarrow> bool" where
  "tracker_inv t = (jsm_wf (pending t) \<and> (\<forall>(i, e) \<in> set (pending t). st_id (pd_subtask e) = i \<and> \<not> allMet t e))"

lemma tracker_inv_new: "tracker_inv newSubtaskDepTracker"
  by (simp add: tracker_inv_def newSubtaskDepTracker_def)

lemma hold_inv [op_inv]:
  assumes "tracker_inv t" "\<not> allMet t e"
  shows "tracker_inv (hold e t)"
proof -
  have same: "allMet (hold e t) = allMet t" by (auto simp: hold_def allMet_def fun_eq_iff)
  have "\<forall>(i, e) \<in> set (jsm_set (st_id (pd_subtask e)) e (pending t)). st_id (pd_subtask e) = i \<and> \<not> allMet t e"
    using assms by (intro jsm_set_all) (auto simp: tracker_inv_def)
  with assms(1) show ?thesis by (simp add: tracker_inv_def same) (simp add: hold_def)
qed

lemma completeAndRelease_facts:
  assumes "completeAndRelease body now t q = (t', q', rel)" "tracker_inv t"
  defines "t1 \<equiv> t\<lparr> completedOutputs := jsm_set (sr_subtaskId body) (sr_output body) (completedOutputs t) \<rparr>"
  shows "completedOutputs t' = completedOutputs t1"
    and "pending t' = filter (\<lambda>(i, e). \<not> allMet t1 e) (pending t)"
    and "rel = map (enrich t1 \<circ> snd) (filter (allMet t1 \<circ> snd) (pending t))"
    and "in_queue q' i \<longleftrightarrow> in_queue (complete body q) i \<or> i \<in> st_id ` set rel"
  using swarm_enq.release_eq [OF assms(1) [unfolded completeAndRelease_def]] assms(2)
  by (simp_all add: tracker_inv_def t1_def)

lemma completeAndRelease_inv [op_inv]:
  assumes "completeAndRelease body now t q = (t', q', rel)" "tracker_inv t"
  shows "tracker_inv t'"
proof -
  note f = completeAndRelease_facts [OF assms]
  have "allMet t' = allMet (t\<lparr> completedOutputs := jsm_set (sr_subtaskId body) (sr_output body) (completedOutputs t) \<rparr>)"
    by (simp add: allMet_def f(1) fun_eq_iff)
  then show ?thesis using assms(2) by (auto simp: tracker_inv_def f(2) jsm_wf_def distinct_map_filter)
qed

lemma allMet_iff: "allMet t e \<longleftrightarrow> (\<forall>d \<in> set (pd_dependsOn e). jsm_has (completedOutputs t) d)"
  by (simp add: allMet_def list_all_iff)

section \<open>Scheduling\<close>

lemma schedule_loop:
  assumes "foldl (scheduleSubtask circ opts now) (t, q, cr, df) ss = (t', q', cr', df')"
    and "distinct (map st_id ss)"
  shows "cr' = cr @ filter (\<lambda>s. \<not> (hasDeps s \<and> st_id s \<notin> set circ)) ss \<and>
    df' = df @ map st_id (filter (\<lambda>s. hasDeps s \<and> st_id s \<notin> set circ) ss) \<and>
    (\<forall>i. in_queue q' i \<longleftrightarrow> in_queue q i \<or> i \<in> st_id ` {s \<in> set ss. \<not> (hasDeps s \<and> st_id s \<notin> set circ)}) \<and>
    completedOutputs t' = completedOutputs t \<and>
    (\<forall>i. i \<notin> st_id ` set ss \<longrightarrow> jsm_get (pending t') i = jsm_get (pending t) i) \<and>
    (\<forall>s. s \<in> set ss \<longrightarrow> hasDeps s \<longrightarrow> st_id s \<notin> set circ \<longrightarrow> jsm_get (pending t') (st_id s) =
           Some \<lparr> pd_subtask = s, pd_dependsOn = the (st_dependsOn s), pd_claimDelayMs = opts \<rparr>)"
  using assms
proof (induction ss arbitrary: t q cr df)
  case (Cons x ss)
  let ?p = "hasDeps x \<and> st_id x \<notin> set circ"
  have d: "distinct (map st_id ss)" "st_id x \<notin> st_id ` set ss" using Cons.prems(2) by auto
  show ?case
  proof (cases ?p)
    case True
    let ?e = "\<lparr> pd_subtask = x, pd_dependsOn = the (st_dependsOn x), pd_claimDelayMs = opts \<rparr>"
    have "foldl (scheduleSubtask circ opts now) (hold ?e t, q, cr, df @ [st_id x]) ss = (t', q', cr', df')"
      using Cons.prems(1) True by (simp add: scheduleSubtask_def)
    note IH = Cons.IH [OF this d(1)]
    have get: "jsm_get (pending (hold ?e t)) i = (if i = st_id x then Some ?e else jsm_get (pending t) i)" for i
      by (simp add: hold_def jsm_get_set)
    from IH True d(2) show ?thesis by (auto simp: get) (simp add: hold_def)
  next
    case False
    let ?q = "fst (enqueueSubtask (Some (st_id x)) x opts [] now q)"
    have step: "scheduleSubtask circ opts now (t, q, cr, df) x = (t, ?q, cr @ [x], df)"
      using False swarm_enq.enq_returns [where s = x] by (auto simp: scheduleSubtask_def case_prod_beta Let_def)
    have "foldl (scheduleSubtask circ opts now) (t, ?q, cr @ [x], df) ss = (t', q', cr', df')"
      using Cons.prems(1) step by simp
    note IH = Cons.IH [OF this d(1)]
    from IH False d(2) show ?thesis by (auto simp: enqueueSubtask_in_queue)
  qed
qed simp

lemma assignIds_ids: "length uuids = length subtasks \<Longrightarrow> map st_id (assignIds uuids subtasks) = uuids"
proof (induction uuids arbitrary: subtasks)
  case (Cons u us)
  then show ?case by (cases subtasks) (auto simp: assignIds_def)
qed (simp add: assignIds_def)

lemma assignIds_deps: "s \<in> set (assignIds uuids subtasks) \<Longrightarrow> \<exists>s' \<in> set subtasks. st_dependsOn s = st_dependsOn s' \<and> hasDeps s = hasDeps s'"
  by (force simp: assignIds_def hasDeps_def dest: set_zip_rightD)

text \<open>Dependencies that name none of the nodes close no cycle.\<close>

lemma foreign_deps_acyclic:
  assumes "\<forall>(i, deps) \<in> set ss. \<forall>d \<in> set (nullish deps []). d \<notin> fst ` set ss" "distinct (map fst ss)"
  shows "detectCircularDeps ss = []"
proof -
  have "(i, i) \<notin> (dep_edges ss)\<^sup>+" for i
  proof
    assume c: "(i, i) \<in> (dep_edges ss)\<^sup>+"
    from tranclD [OF c] obtain j where "(i, j) \<in> dep_edges ss" by blast
    then have "i \<in> fst ` set ss" by (force simp: dep_edges_def)
    moreover from tranclD2 [OF c] obtain k where "(k, i) \<in> dep_edges ss" by blast
    then have "i \<notin> fst ` set ss" using assms(1) by (force simp: dep_edges_def)
    ultimately show False by blast
  qed
  then have "set (detectCircularDeps ss) = {}" by (simp add: set_detectCircularDeps [OF assms(2)])
  then show ?thesis by simp
qed

fun completeAll :: "SubtaskResult list \<Rightarrow> ms \<Rightarrow> SubtaskDepTracker \<times> SwarmQueue \<Rightarrow> SubtaskDepTracker \<times> SwarmQueue" where
  "completeAll [] now s = s"
| "completeAll (r # rs) now (t, q) = (let (t', q', _) = completeAndRelease r now t q in completeAll rs now (t', q'))"

text \<open>An entry with a dependency that never completes stays pending.\<close>

lemma completeAll_keeps:
  "tracker_inv t \<Longrightarrow> jsm_get (pending t) i = Some e \<Longrightarrow> d \<in> set (pd_dependsOn e) \<Longrightarrow>
   \<not> jsm_has (completedOutputs t) d \<Longrightarrow> \<forall>r \<in> set rs. sr_subtaskId r \<noteq> d \<Longrightarrow>
   jsm_get (pending (fst (completeAll rs now (t, q)))) i = Some e"
proof (induction rs arbitrary: t q)
  case (Cons r rs)
  obtain t' q' rel where c: "completeAndRelease r now t q = (t', q', rel)" by (cases "completeAndRelease r now t q")
  note f = completeAndRelease_facts [OF c Cons.prems(1)]
  have inv: "tracker_inv t'" by (rule completeAndRelease_inv [OF c Cons.prems(1)])
  have d: "\<not> jsm_has (completedOutputs t') d" using Cons.prems by (auto simp: f(1) jsm_has_set)
  have "(i, e) \<in> set (pending t)" using Cons.prems(2) by (rule jsm_get_in_set)
  with d Cons.prems(3) have "(i, e) \<in> set (pending t')" by (auto simp: f(2) allMet_iff f(1))
  with inv have "jsm_get (pending t') i = Some e" by (simp add: jsm_get_iff tracker_inv_def)
  with Cons.IH [OF inv this Cons.prems(3) d] Cons.prems(5) c show ?case by simp
qed simp

section \<open>Properties\<close>

text \<open>
  C18: \<open>detectCircularDeps\<close> returns exactly the ids that lie on a dependency cycle, self-loops
  included; dependencies on names outside the batch are ignored.
\<close>

theorem detectCircularDeps_correct:
  assumes "distinct (map fst subtasks)"
  shows "i \<in> set (detectCircularDeps subtasks) \<longleftrightarrow> (i, i) \<in> (dep_edges subtasks)\<^sup>+"
  by (simp add: set_detectCircularDeps [OF assms])

theorem detectCircularDeps_correct_witness:
  "detectCircularDeps [(''a'', Some [''b'']), (''b'', Some [''a'']), (''d'', Some [''a''])] = [''a'', ''b''] \<and>
   (''d'', ''d'') \<notin> (dep_edges [(''a'', Some [''b'']), (''b'', Some [''a'']), (''d'', Some [''a''])])\<^sup>+"
proof -
  let ?g = "[(''a'', Some [''b'']), (''b'', Some [''a'']), (''d'', Some [''a''])]"
  have "detectCircularDeps ?g = [''a'', ''b'']" by code_simp
  then show ?thesis using detectCircularDeps_correct [of ?g "''d''"] by simp
qed

text \<open>
  C26: recording a completion releases exactly the held subtasks whose dependencies have now all
  completed, each once, with the context prepended to its input, and puts them in the queue; the
  others stay held, so a subtask never waits once all its dependencies have completed.
\<close>

theorem completion_releases_exactly:
  assumes "tracker_inv t" "completeAndRelease body now t q = (t', q', released)"
  shows "let met = (\<lambda>e. list_all (\<lambda>d. d = sr_subtaskId body \<or> jsm_has (completedOutputs t) d) (pd_dependsOn e)) in
    map st_id released = map fst (filter (met \<circ> snd) (pending t)) \<and>
    released = map (\<lambda>(i, e). (pd_subtask e)\<lparr> st_input := buildDependencyContext (pd_dependsOn e) t' @ st_input (pd_subtask e) \<rparr>)
                 (filter (met \<circ> snd) (pending t)) \<and>
    pending t' = filter (\<lambda>(i, e). \<not> met e) (pending t) \<and>
    list_all (\<lambda>s. in_queue q' (st_id s)) released \<and> distinct (map st_id released) \<and> tracker_inv t'"
proof -
  let ?t1 = "t\<lparr> completedOutputs := jsm_set (sr_subtaskId body) (sr_output body) (completedOutputs t) \<rparr>"
  note f = completeAndRelease_facts [OF assms(2,1)]
  have met: "allMet ?t1 = (\<lambda>e. list_all (\<lambda>d. d = sr_subtaskId body \<or> jsm_has (completedOutputs t) d) (pd_dependsOn e))"
    by (simp add: allMet_def jsm_has_set fun_eq_iff list_all_iff)
  have ctx: "enrich ?t1 e = (pd_subtask e)\<lparr> st_input := buildDependencyContext (pd_dependsOn e) t' @ st_input (pd_subtask e) \<rparr>" for e
    by (simp add: enrich_def buildDependencyContext_def f(1))
  have ids: "map st_id released = map fst (filter (allMet ?t1 \<circ> snd) (pending t))"
    using assms(1) by (auto simp: f(3) enrich_def tracker_inv_def)
  then have "distinct (map st_id released)" using assms(1) by (simp add: tracker_inv_def jsm_wf_def distinct_map_filter)
  then show ?thesis
    using f(2-4) ids completeAndRelease_inv [OF assms(2,1)]
    unfolding met by (simp add: Let_def ctx comp_def case_prod_beta list_all_iff)
qed

text \<open>
  Scheduling a decomposition loses nothing. With one fresh id per subtask, every subtask is either
  enqueued at once or held; it is held exactly when it has dependencies and lies on no cycle, so
  that no cycle of subtasks can wait for itself.
\<close>

theorem schedule_partition:
  assumes "length uuids = length subtasks" "distinct uuids"
    and "scheduleSubtasks uuids peers now subtasks t q = (t', q', created, deferred)"
  shows "let withIds = assignIds uuids subtasks;
             nodes = map (\<lambda>s. (st_id s, st_dependsOn s)) withIds;
             held = (\<lambda>s. hasDeps s \<and> (st_id s, st_id s) \<notin> (dep_edges nodes)\<^sup>+) in
    created = filter (\<lambda>s. \<not> held s) withIds \<and> deferred = map st_id (filter held withIds) \<and>
    list_all (\<lambda>s. if held s then jsm_has (pending t') (st_id s) else in_queue q' (st_id s)) withIds"
proof -
  let ?ss = "assignIds uuids subtasks"
  let ?nodes = "map (\<lambda>s. (st_id s, st_dependsOn s)) ?ss"
  let ?circ = "detectCircularDeps ?nodes"
  have ids: "distinct (map st_id ?ss)" using assms(1,2) by (simp add: assignIds_ids)
  then have circ: "set ?circ = {i. (i, i) \<in> (dep_edges ?nodes)\<^sup>+}"
    by (intro set_detectCircularDeps) (simp add: comp_def)
  note loop = schedule_loop [OF assms(3) [unfolded scheduleSubtasks_def Let_def] ids]
  show ?thesis using loop unfolding Let_def circ by (auto simp: list_all_iff jsm_has_iff)
qed

text \<open>
  Ids are assigned after the decomposition was received, so a \<open>dependsOn\<close> entry naming anything but one of
  the fresh ids can never be satisfied: the subtask is held, and stays held through the completion of every
  subtask of the task.
\<close>

theorem foreign_dependency_waits_forever:
  assumes "length uuids = length subtasks" "distinct uuids" "tracker_inv t"
    and "\<forall>s \<in> set subtasks. \<forall>d \<in> set (nullish (st_dependsOn s) []). d \<notin> set uuids \<and> \<not> jsm_has (completedOutputs t) d"
    and "scheduleSubtasks uuids peers now subtasks t q = (t', q', created, deferred)" "tracker_inv t'"
    and "s \<in> set (assignIds uuids subtasks)" "hasDeps s"
    and "\<forall>r \<in> set rs. sr_subtaskId r \<in> set uuids"
  shows "st_id s \<in> set deferred \<and> jsm_has (pending (fst (completeAll rs later (t', q')))) (st_id s)"
proof -
  let ?ss = "assignIds uuids subtasks"
  let ?nodes = "map (\<lambda>s. (st_id s, st_dependsOn s)) ?ss"
  have ids: "map st_id ?ss = uuids" using assms(1) by (simp add: assignIds_ids)
  then have set_ids: "st_id ` set ?ss = set uuids" by (metis set_map)
  have deps: "d \<notin> set uuids \<and> \<not> jsm_has (completedOutputs t) d"
    if "x \<in> set ?ss" "d \<in> set (nullish (st_dependsOn x) [])" for x d
    using assignIds_deps [OF that(1)] that(2) assms(4) by auto
  have nocirc: "detectCircularDeps ?nodes = []"
  proof (rule foreign_deps_acyclic)
    show "\<forall>(i, dp) \<in> set ?nodes. \<forall>d \<in> set (nullish dp []). d \<notin> fst ` set ?nodes"
      using deps set_ids by (auto simp: image_image)
    show "distinct (map fst ?nodes)" using ids assms(2) by (simp add: comp_def)
  qed
  have loop: "deferred = [] @ map st_id (filter (\<lambda>s. hasDeps s \<and> st_id s \<notin> set []) ?ss)"
    "completedOutputs t' = completedOutputs t"
    "jsm_get (pending t') (st_id s) = Some \<lparr> pd_subtask = s, pd_dependsOn = the (st_dependsOn s),
       pd_claimDelayMs = (if peers then Some 3000 else None) \<rparr>"
    using schedule_loop [OF assms(5) [unfolded scheduleSubtasks_def Let_def nocirc]] ids assms(2,7,8) by simp_all
  obtain d ds where d: "st_dependsOn s = Some (d # ds)"
    using assms(8) by (cases "st_dependsOn s"; cases "the (st_dependsOn s)") (auto simp: hasDeps_def)
  with deps [OF assms(7), of d] have nd: "d \<notin> set uuids" "\<not> jsm_has (completedOutputs t') d" by (simp_all add: loop(2))
  have "jsm_get (pending (fst (completeAll rs later (t', q')))) (st_id s) \<noteq> None"
    using completeAll_keeps [OF assms(6) loop(3) _ nd(2), of rs later q'] d nd(1) assms(9) by auto
  then show ?thesis using loop(1) assms(7,8) by (simp add: jsm_has_iff)
qed

text \<open>Two subtasks, the second naming the first by its index, as a decomposition service might.\<close>

definition ex_batch :: "Subtask list" where
  "ex_batch = [ex_subtask [] ''p'' 1 None, (ex_subtask [] ''p'' 1 None)\<lparr> st_dependsOn := Some [''0''] \<rparr>]"

definition ex_batch2 :: "Subtask list" where
  "ex_batch2 = [ex_subtask [] ''p'' 1 None, (ex_subtask [] ''p'' 1 None)\<lparr> st_dependsOn := Some [''u1''] \<rparr>]"

definition ex_tracker :: SubtaskDepTracker where
  "ex_tracker = fst (scheduleSubtasks [''u1'', ''u2''] False 0 ex_batch2 newSubtaskDepTracker (newSwarmQueue False))"

lemma ex_tracker_eval: "pending ex_tracker =
    [(''u2'', \<lparr> pd_subtask = (ex_subtask ''u2'' ''p'' 1 None)\<lparr> st_dependsOn := Some [''u1''] \<rparr>,
       pd_dependsOn = [''u1''], pd_claimDelayMs = None \<rparr>)] \<and> completedOutputs ex_tracker = []"
  by code_simp

lemma ex_tracker_inv: "tracker_inv ex_tracker"
  by (simp add: tracker_inv_def ex_tracker_eval jsm_wf_def allMet_def jsm_has_def ex_subtask_def)

theorem completion_releases_exactly_witness:
  "map st_id (snd (snd (completeAndRelease (ex_result ''u1'') 9 ex_tracker (newSwarmQueue False)))) = [''u2'']"
proof -
  let ?r = "completeAndRelease (ex_result ''u1'') 9 ex_tracker (newSwarmQueue False)"
  have "?r = (fst ?r, fst (snd ?r), snd (snd ?r))" by simp
  from completion_releases_exactly [OF ex_tracker_inv this] have
    "map st_id (snd (snd ?r)) = map fst (filter ((\<lambda>e. list_all (\<lambda>d. d = sr_subtaskId (ex_result ''u1'') \<or>
       jsm_has (completedOutputs ex_tracker) d) (pd_dependsOn e)) \<circ> snd) (pending ex_tracker))"
    unfolding Let_def by blast
  then show ?thesis by (simp add: ex_tracker_eval ex_result_def)
qed

theorem schedule_partition_witness:
  "map st_id (fst (snd (snd (scheduleSubtasks [''u1'', ''u2''] False 0 ex_batch2 newSubtaskDepTracker (newSwarmQueue False))))) = [''u1''] \<and>
   jsm_has (pending ex_tracker) ''u2''"
proof -
  let ?r = "scheduleSubtasks [''u1'', ''u2''] False 0 ex_batch2 newSubtaskDepTracker (newSwarmQueue False)"
  have eq: "?r = (fst ?r, fst (snd ?r), fst (snd (snd ?r)), snd (snd (snd ?r)))" by simp
  have l: "length [''u1'', ''u2''] = length ex_batch2" "distinct [''u1'', ''u2'']" by (simp_all add: ex_batch2_def)
  have "snd (snd (snd ?r)) = [''u2'']" "map st_id (fst (snd (snd ?r))) = [''u1'']" by code_simp+
  moreover have "list_all (\<lambda>s. if st_id s \<in> set (snd (snd (snd ?r))) then jsm_has (pending (fst ?r)) (st_id s) else True)
      (assignIds [''u1'', ''u2''] ex_batch2)"
    using schedule_partition [OF l eq] by (auto simp: Let_def list_all_iff split: if_splits)
  ultimately show ?thesis by (simp add: ex_tracker_def assignIds_def ex_batch2_def)
qed

theorem foreign_dependency_waits_forever_witness:
  "jsm_has (pending (fst (completeAll [ex_result ''u1''] 9
     (let (t, q, _) = scheduleSubtasks [''u1'', ''u2''] False 0 ex_batch newSubtaskDepTracker (newSwarmQueue False) in (t, q))))) ''u2''"
proof -
  let ?r = "scheduleSubtasks [''u1'', ''u2''] False 0 ex_batch newSubtaskDepTracker (newSwarmQueue False)"
  have eq: "?r = (fst ?r, fst (snd ?r), fst (snd (snd ?r)), snd (snd (snd ?r)))" by simp
  have l: "length [''u1'', ''u2''] = length ex_batch" "distinct [''u1'', ''u2'']" by (simp_all add: ex_batch_def)
  have f: "\<forall>s \<in> set ex_batch. \<forall>d \<in> set (nullish (st_dependsOn s) []). d \<notin> set [''u1'', ''u2''] \<and>
      \<not> jsm_has (completedOutputs newSubtaskDepTracker) d"
    by (simp add: ex_batch_def ex_subtask_def newSubtaskDepTracker_def jsm_has_def)
  have p: "pending (fst ?r) = [(''u2'', \<lparr> pd_subtask = (ex_subtask ''u2'' ''p'' 1 None)\<lparr> st_dependsOn := Some [''0''] \<rparr>,
       pd_dependsOn = [''0''], pd_claimDelayMs = None \<rparr>)] \<and> completedOutputs (fst ?r) = []" by code_simp
  have inv: "tracker_inv (fst ?r)" by (simp add: p tracker_inv_def jsm_wf_def allMet_def jsm_has_def ex_subtask_def)
  let ?s = "(ex_subtask ''u2'' ''p'' 1 None)\<lparr> st_dependsOn := Some [''0''] \<rparr>"
  have s: "?s \<in> set (assignIds [''u1'', ''u2''] ex_batch)" "hasDeps ?s"
    by (simp_all add: assignIds_def ex_batch_def ex_subtask_def hasDeps_def)
  have "\<forall>r \<in> set [ex_result ''u1'']. sr_subtaskId r \<in> set [''u1'', ''u2'']" by (simp add: ex_result_def)
  from foreign_dependency_waits_forever [OF l tracker_inv_new f eq inv s this, of 9] show ?thesis
    by (simp add: case_prod_beta ex_subtask_def)
qed

end
