(* ===== verification/JsNumber.thy ===== *)
theory JsNumber
  imports Prelude Complex_Main "HOL-Library.Log_Nat"
begin

text \<open>
  JavaScript's \<open>Number\<close>: IEEE-754 binary64. A finite number is the rational it denotes
  (\<open>num = rat\<close>); every arithmetic operation of the source computes the exact rational
  result and rounds it with \<open>fl\<close> (round to nearest, ties to even, with the subnormal
  quantum \<open>2\<^sup>-\<^sup>1\<^sup>0\<^sup>7\<^sup>4\<close>). A decimal literal of the source such as \<open>0.35\<close> is
  \<open>fl (35/100)\<close>. Overflow to infinity and \<open>NaN\<close> are outside the model: every quantity of
  the modelled code is far below \<open>2\<^sup>1\<^sup>0\<^sup>2\<^sup>4\<close>, and the places where the sources can meet a
  \<open>NaN\<close> say so in their own definitions.
\<close>

type_synonym num = rat

section \<open>Rounding to an integer\<close>

text \<open>Round half to even, the rule of IEEE-754 arithmetic.\<close>

definition rne :: "rat \<Rightarrow> int" where
  "rne x = (let f = \<lfloor>x\<rfloor>; d = x - of_int f in
     if d < 1/2 then f else if d > 1/2 then f + 1 else if even f then f else f + 1)"

lemma rne_of_int [simp]: "rne (of_int n) = n"
  by (simp add: rne_def Let_def)

lemma rne_bounds: "\<lfloor>x\<rfloor> \<le> rne x \<and> rne x \<le> \<lfloor>x\<rfloor> + 1"
  by (simp add: rne_def Let_def)

lemma rne_mono: "x \<le> y \<Longrightarrow> rne x \<le> rne y"
proof (cases "\<lfloor>x\<rfloor> = \<lfloor>y\<rfloor>")
  case True
  assume "x \<le> y"
  with True show ?thesis by (auto simp: rne_def Let_def)
next
  case False
  assume "x \<le> y"
  with False have "\<lfloor>x\<rfloor> + 1 \<le> \<lfloor>y\<rfloor>" using floor_mono [of x y] by linarith
  with rne_bounds [of x] rne_bounds [of y] show ?thesis by linarith
qed

lemma rne_minus: "rne (- x) = - rne x"
proof (cases "x = of_int \<lfloor>x\<rfloor>")
  case True
  then obtain n where "x = of_int n" by blast
  then show ?thesis by (metis of_int_minus rne_of_int)
next
  case False
  then have "\<lfloor>- x\<rfloor> = - \<lfloor>x\<rfloor> - 1"
    by (smt (verit, ccfv_SIG) ceiling_altdef ceiling_def minus_minus)
  then show ?thesis by (auto simp: rne_def Let_def)
qed

section \<open>The binary exponent\<close>

text \<open>The largest \<open>e\<close> with \<open>2\<^sup>e \<le> x\<close>, computed with integer logarithms.\<close>

definition exp2 :: "rat \<Rightarrow> int" where
  "exp2 x = (if 1 \<le> x then int (floorlog 2 (nat \<lfloor>x\<rfloor>)) - 1
             else - int (ceillog2 (nat \<lceil>1 / x\<rceil>)))"

lemma exp2_bounds_ge1:
  assumes "1 \<le> x"
  shows "2 powi exp2 x \<le> x \<and> x < 2 powi (exp2 x + 1)"
proof -
  define n where "n = nat \<lfloor>x\<rfloor>"
  define l where "l = floorlog 2 n"
  have n1: "1 \<le> n" using assms by (simp add: n_def le_nat_iff)
  have l1: "1 \<le> l" using n1 floorlog_eq_zero_iff [of 2 n] by (auto simp: l_def)
  have lo: "2 ^ (l - 1) \<le> n" and hi: "Suc n \<le> 2 ^ l"
    using floorlog_bounds [of n 2] n1 by (auto simp: l_def)
  have nx: "of_nat n \<le> x" "x < of_nat n + 1"
    using assms floor_correct [of x] by (simp_all add: n_def of_nat_nat)
  have "exp2 x = int (l - 1)" using assms l1 by (simp add: exp2_def n_def [symmetric] l_def of_nat_diff)
  then have e: "2 powi exp2 x = (2::rat) ^ (l - 1)" "2 powi (exp2 x + 1) = (2::rat) ^ l"
    using l1 by (simp_all add: power_int_def nat_add_distrib nat_diff_distrib)
  have "rat_of_nat (2 ^ (l - 1)) \<le> of_nat n" "rat_of_nat (Suc n) \<le> of_nat (2 ^ l)"
    using lo hi by (simp_all only: of_nat_le_iff)
  then have "(2::rat) ^ (l - 1) \<le> of_nat n" "of_nat n + 1 \<le> (2::rat) ^ l"
    unfolding of_nat_power of_nat_numeral of_nat_Suc by simp_all
  then show ?thesis using nx unfolding e by linarith
qed

lemma exp2_bounds_lt1:
  assumes "0 < x" "x < 1"
  shows "2 powi exp2 x \<le> x \<and> x < 2 powi (exp2 x + 1)"
proof -
  define m where "m = nat \<lceil>1 / x\<rceil>"
  define k where "k = ceillog2 m"
  have "1 < 1 / x" using assms by simp
  then have c2: "2 \<le> \<lceil>1 / x\<rceil>" by (simp add: le_ceiling_iff)
  then have m2: "2 \<le> m" by (simp add: m_def le_nat_iff)
  have mx: "1 / x \<le> of_nat m" "of_nat m - 1 < 1 / x"
    using c2 ceiling_correct [of "1 / x"] by (simp_all add: m_def of_nat_nat)
  have up: "m \<le> 2 ^ k" by (simp add: k_def le_two_power_ceillog2)
  have k1: "1 \<le> k" using up m2 by (cases k) auto
  have "2 ^ k < 2 * m" using m2 two_power_ceillog2_gt [of m] by (simp add: k_def)
  then have lo: "Suc (2 ^ (k - 1)) \<le> m" using k1 by (cases k) auto
  have "exp2 x = - int k" using assms by (simp add: exp2_def m_def k_def)
  then have e: "2 powi exp2 x = 1 / (2::rat) ^ k" "2 powi (exp2 x + 1) = 1 / (2::rat) ^ (k - 1)"
    using k1 by (simp_all add: power_int_def inverse_eq_divide power_one_over nat_diff_distrib)
  have "rat_of_nat m \<le> of_nat (2 ^ k)" "rat_of_nat (Suc (2 ^ (k - 1))) \<le> of_nat m"
    using up lo by (simp_all only: of_nat_le_iff)
  then have "rat_of_nat m \<le> 2 ^ k" "2 ^ (k - 1) + 1 \<le> rat_of_nat m"
    unfolding of_nat_power of_nat_numeral of_nat_Suc by simp_all
  then have b: "1 / x \<le> 2 ^ k" "2 ^ (k - 1) < 1 / x" using mx by linarith+
  have "1 / 2 ^ k \<le> x" using b(1) assms by (simp add: divide_le_eq mult.commute)
  moreover have "x < 1 / 2 ^ (k - 1)" using b(2) assms by (simp add: less_divide_eq mult.commute)
  ultimately show ?thesis unfolding e by blast
qed

lemma exp2_bounds:
  assumes "0 < x"
  shows "2 powi exp2 x \<le> x" and "x < 2 powi (exp2 x + 1)"
  using assms exp2_bounds_ge1 [of x] exp2_bounds_lt1 [of x] by (cases "1 \<le> x"; simp)+

lemma exp2_mono:
  assumes "0 < x" "x \<le> y"
  shows "exp2 x \<le> exp2 y"
proof (rule ccontr)
  assume "\<not> exp2 x \<le> exp2 y"
  then have "exp2 y + 1 \<le> exp2 x" by simp
  then have "(2::rat) powi (exp2 y + 1) \<le> 2 powi exp2 x" by (intro power_int_increasing) simp_all
  with exp2_bounds [of x] exp2_bounds [of y] assms show False by linarith
qed

section \<open>Rounding to binary64\<close>

definition quantum :: "rat \<Rightarrow> rat" where
  "quantum x = 2 powi (max (exp2 \<bar>x\<bar> - 52) (- 1074))"

definition fl :: "rat \<Rightarrow> num" where
  "fl x = (if x = 0 then 0 else of_int (rne (x / quantum x)) * quantum x)"

lemma quantum_pos [simp]: "0 < quantum x"
  by (simp add: quantum_def)

lemma fl_0 [simp]: "fl 0 = 0"
  by (simp add: fl_def)

lemma fl_minus: "fl (- x) = - fl x"
  by (simp add: fl_def quantum_def rne_minus)

text \<open>A multiple of the quantum of a bound above (or below) \<open>x\<close> bounds the rounded value.\<close>

lemma fl_le_multiple:
  assumes "x \<noteq> 0" "x \<le> of_int n * quantum x"
  shows "fl x \<le> of_int n * quantum x"
proof -
  have "x / quantum x \<le> of_int n" using assms by (simp add: divide_le_eq)
  then have "rne (x / quantum x) \<le> n" using rne_mono rne_of_int by metis
  then show ?thesis using assms by (simp add: fl_def mult_right_mono)
qed

lemma fl_ge_multiple:
  assumes "x \<noteq> 0" "of_int n * quantum x \<le> x"
  shows "of_int n * quantum x \<le> fl x"
proof -
  have "of_int n \<le> x / quantum x" using assms by (simp add: le_divide_eq)
  then have "n \<le> rne (x / quantum x)" using rne_mono rne_of_int by metis
  then show ?thesis using assms by (simp add: fl_def mult_right_mono)
qed

lemma fl_nonneg: "0 \<le> x \<Longrightarrow> 0 \<le> fl x"
  using fl_ge_multiple [of x 0] by (cases "x = 0") simp_all

text \<open>A power of two is a multiple of every smaller one.\<close>

lemma powi_multiple:
  assumes "k \<le> (e::int)"
  shows "\<exists>n. (2::rat) powi e = of_int n * 2 powi k"
proof
  have "(2::rat) powi e = 2 powi (e - k) * 2 powi k" by (simp add: power_int_add [symmetric])
  also have "(2::rat) powi (e - k) = of_int (2 ^ nat (e - k))"
    using assms by (simp add: power_int_def)
  finally show "(2::rat) powi e = of_int (2 ^ nat (e - k)) * 2 powi k" .
qed

lemma fl_mono_pos:
  assumes "0 < x" "x \<le> y"
  shows "fl x \<le> fl y"
proof (cases "quantum x = quantum y")
  case True
  have "rne (x / quantum y) \<le> rne (y / quantum y)"
    using assms by (intro rne_mono divide_right_mono) (simp_all add: less_imp_le)
  with True show ?thesis using assms by (simp add: fl_def mult_right_mono)
next
  case False
  let ?e = "exp2 y"
  have ey: "exp2 x \<le> ?e" using exp2_mono assms by blast
  have kx: "max (exp2 x - 52) (- 1074) < max (?e - 52) (- 1074)"
    using False ey assms by (cases "exp2 x = ?e") (auto simp: quantum_def max_def split: if_splits)
  then have big: "- 1074 < ?e - 52" "exp2 x < ?e" by auto
  have "(2::rat) powi (exp2 x + 1) \<le> 2 powi ?e" using big by (intro power_int_increasing) simp_all
  then have xb: "x \<le> 2 powi ?e" using exp2_bounds(2) [of x] assms by linarith
  have yb: "2 powi ?e \<le> y" using exp2_bounds(1) [of y] assms by simp
  obtain n m where nm: "(2::rat) powi ?e = of_int n * quantum x" "(2::rat) powi ?e = of_int m * quantum y"
    using powi_multiple [of "max (exp2 x - 52) (- 1074)" ?e]
      powi_multiple [of "max (?e - 52) (- 1074)" ?e] assms big by (auto simp: quantum_def)
  have "fl x \<le> 2 powi ?e" using fl_le_multiple [of x n] assms xb nm(1) by simp
  moreover have "2 powi ?e \<le> fl y" using fl_ge_multiple [of y m] assms yb nm(2) by simp
  ultimately show ?thesis by simp
qed

lemma fl_mono: "x \<le> y \<Longrightarrow> fl x \<le> fl y"
proof -
  assume xy: "x \<le> y"
  consider "0 < x" | "x \<le> 0" "0 \<le> y" | "y < 0" using xy by linarith
  then show ?thesis
  proof cases
    case 1
    then show ?thesis using xy fl_mono_pos by blast
  next
    case 2
    then show ?thesis using fl_nonneg [of y] fl_nonneg [of "- x"] by (simp add: fl_minus)
  next
    case 3
    then show ?thesis using xy fl_mono_pos [of "- y" "- x"] by (simp add: fl_minus)
  qed
qed

lemma fl_exact: "x = of_int m * quantum x \<Longrightarrow> fl x = x"
  by (metis fl_def nonzero_mult_div_cancel_right order_less_irrefl quantum_pos rne_of_int)

lemma fl_of_int:
  assumes "\<bar>n\<bar> \<le> 2 ^ 53"
  shows "fl (of_int n) = of_int n"
proof (cases "n = 0")
  case False
  let ?x = "rat_of_int n"
  let ?k = "max (exp2 \<bar>?x\<bar> - 52) (- 1074)"
  have lo: "2 powi exp2 \<bar>?x\<bar> \<le> \<bar>?x\<bar>" using exp2_bounds(1) False by simp
  have ub: "\<bar>?x\<bar> \<le> 2 ^ 53"
    using assms by (metis of_int_abs of_int_le_iff of_int_numeral of_int_power)
  show ?thesis
  proof (cases "exp2 \<bar>?x\<bar> \<le> 52")
    case True
    then obtain m where "(2::rat) powi 0 = of_int m * 2 powi ?k" using powi_multiple [of ?k 0] by auto
    then have "?x = of_int (n * m) * quantum ?x" by (simp add: quantum_def mult.assoc)
    then show ?thesis by (rule fl_exact)
  next
    case False
    then have "(2::rat) powi 53 \<le> 2 powi exp2 \<bar>?x\<bar>" by (intro power_int_increasing) simp_all
    with lo ub have x53: "\<bar>?x\<bar> = 2 powi 53" by (simp add: power_int_def)
    have "\<not> 53 < exp2 \<bar>?x\<bar>"
    proof
      assume "53 < exp2 \<bar>?x\<bar>"
      then have "(2::rat) powi 54 \<le> 2 powi exp2 \<bar>?x\<bar>" by (intro power_int_increasing) simp_all
      with lo ub show False by (simp add: power_int_def)
    qed
    with False have "exp2 \<bar>?x\<bar> = 53" by simp
    then have "quantum ?x = 2" by (simp add: quantum_def)
    moreover have "?x = of_int (sgn n * 2 ^ 52) * 2"
      using x53 by (cases "n < 0") (simp_all add: power_int_def sgn_if)
    ultimately show ?thesis using fl_exact [of ?x "sgn n * 2 ^ 52"] by simp
  qed
qed simp

lemma fl_1 [simp]: "fl 1 = 1"
  using fl_of_int [of 1] by simp

lemma fl_numeral [simp]: "numeral w \<le> (2::int) ^ 53 \<Longrightarrow> fl (numeral w) = numeral w"
  using fl_of_int [of "numeral w"] by simp

text \<open>Every number with a 53-bit significand and an exponent in range is a fixed point.\<close>

lemma fl_repr_less:
  assumes "\<bar>m\<bar> < 2 ^ 53" "- 1074 \<le> k"
  shows "fl (of_int m * 2 powi k) = of_int m * 2 powi k"
proof (cases "m = 0")
  case False
  let ?x = "rat_of_int m * 2 powi k"
  let ?k = "max (exp2 \<bar>?x\<bar> - 52) (- 1074)"
  have "\<bar>rat_of_int m\<bar> < 2 powi 53"
    using assms(1) by (simp add: power_int_def)
  then have "\<bar>rat_of_int m\<bar> * 2 powi k < 2 powi 53 * 2 powi k" by (rule mult_strict_right_mono) simp
  then have "\<bar>?x\<bar> < 2 powi (53 + k)" by (simp add: abs_mult power_int_add)
  moreover have "0 < \<bar>?x\<bar>" using False by simp
  ultimately have "(2::rat) powi exp2 \<bar>?x\<bar> < 2 powi (53 + k)" using exp2_bounds(1) [of "\<bar>?x\<bar>"] by linarith
  then have "exp2 \<bar>?x\<bar> < 53 + k"
    using power_int_increasing [of "53 + k" "exp2 \<bar>?x\<bar>" "2::rat"] by (meson leD not_le_imp_less one_le_numeral)
  then have "?k \<le> k" using assms(2) by simp
  from powi_multiple [OF this] obtain n where "(2::rat) powi k = of_int n * 2 powi ?k" by blast
  then have "?x = of_int (m * n) * quantum ?x" by (simp only: quantum_def mult.assoc of_int_mult)
  then show ?thesis by (rule fl_exact)
qed simp

lemma fl_repr:
  assumes "\<bar>m\<bar> \<le> 2 ^ 53" "- 1074 \<le> k"
  shows "fl (of_int m * 2 powi k) = of_int m * 2 powi k"
proof (cases "\<bar>m\<bar> = 2 ^ 53")
  case True
  then obtain s :: int where s: "\<bar>s\<bar> = 1" "m = s * 2 ^ 53" by (metis abs_mult_sgn abs_sgn_eq mult.commute abs_eq_0 power_not_zero zero_neq_numeral)
  have "rat_of_int m * 2 powi k = of_int (s * 2 ^ 52) * 2 powi (k + 1)"
    by (simp add: s(2) power_int_add)
  moreover have "fl (of_int (s * 2 ^ 52) * 2 powi (k + 1)) = of_int (s * 2 ^ 52) * 2 powi (k + 1)"
    using s(1) assms(2) by (intro fl_repr_less) (simp_all add: abs_mult)
  ultimately show ?thesis by simp
qed (use assms in \<open>auto intro: fl_repr_less\<close>)

lemma fl_idem [simp]: "fl (fl x) = fl x"
proof (cases "x = 0")
  case False
  let ?n = "rne (x / quantum x)"
  have q: "quantum x = 2 powi max (exp2 \<bar>x\<bar> - 52) (- 1074)" by (simp add: quantum_def)
  have "\<bar>x\<bar> < 2 powi (exp2 \<bar>x\<bar> + 1)" using exp2_bounds(2) [of "\<bar>x\<bar>"] False by simp
  also have "\<dots> \<le> 2 powi (53 + max (exp2 \<bar>x\<bar> - 52) (- 1074))" by (intro power_int_increasing) simp_all
  also have "\<dots> = 2 ^ 53 * quantum x" unfolding q by (simp add: power_int_add)
  finally have "\<bar>x / quantum x\<bar> \<le> 2 ^ 53" by (simp add: abs_divide divide_le_eq)
  then have "x / quantum x \<le> of_int (2 ^ 53)" "of_int (- (2 ^ 53)) \<le> x / quantum x" by (simp_all only: abs_le_iff of_int_minus of_int_power of_int_numeral) linarith+
  then have "?n \<le> 2 ^ 53" "- (2 ^ 53) \<le> ?n" using rne_mono rne_of_int by metis+
  then have "fl (of_int ?n * quantum x) = of_int ?n * quantum x" unfolding q by (intro fl_repr) (simp_all add: abs_le_iff)
  with False show ?thesis by (simp add: fl_def)
qed simp

lemma fl_dyadic:
  assumes "\<bar>m\<bar> < 2 ^ 53" "j \<le> 1074"
  shows "fl (of_int m / 2 ^ j) = of_int m / 2 ^ j"
proof -
  have "rat_of_int m / 2 ^ j = of_int m * 2 powi (- int j)" by (simp only: power_int_minus power_int_of_nat divide_inverse)
  then show ?thesis using fl_repr_less [OF assms(1), of "- int j"] assms(2) by simp
qed

text \<open>
  Flooring a rounded quotient of integers gives the integer quotient, as long as the quotient leaves
  enough bits for the fraction.
\<close>

lemma floor_fl_div:
  assumes "0 \<le> n" "0 < d" "d < 2 ^ 14" "n div d + 1 < 2 ^ 39"
  shows "\<lfloor>fl (of_int n / of_int d)\<rfloor> = n div d"
proof (rule floor_unique)
  let ?k = "n div d"
  have k0: "0 \<le> ?k" using assms(1,2) by (simp add: pos_imp_zdiv_nonneg_iff)
  have nk: "?k * d \<le> n" "n \<le> (?k + 1) * d - 1"
  proof -
    have "n = ?k * d + n mod d" by simp
    moreover have "0 \<le> n mod d" "n mod d < d" using assms(2) by simp_all
    ultimately show "?k * d \<le> n" "n \<le> (?k + 1) * d - 1" unfolding distrib_right by linarith+
  qed
  have "rat_of_int ?k \<le> of_int n / of_int d"
    using nk(1) assms(2) by (simp add: le_divide_eq of_int_mult [symmetric] del: of_int_mult)
  then have "fl (of_int ?k) \<le> fl (of_int n / of_int d)" by (rule fl_mono)
  moreover have "\<bar>?k\<bar> \<le> 2 ^ 53" using k0 assms(4) by simp
  ultimately show "of_int ?k \<le> fl (of_int n / of_int d)" using fl_of_int by simp
  let ?m = "(?k + 1) * 2 ^ 14 - 1"
  have "rat_of_int n / of_int d \<le> of_int ((?k + 1) * d - 1) / of_int d"
    using nk(2) assms(2) by (intro divide_right_mono iffD2 [OF of_int_le_iff]) simp_all
  also have "\<dots> = of_int (?k + 1) - 1 / of_int d" using assms(2) by (simp add: field_simps)
  also have "\<dots> \<le> of_int (?k + 1) - 1 / 2 ^ 14"
  proof -
    have "rat_of_int d \<le> 2 ^ 14" using assms(3) by (metis less_imp_le of_int_le_iff of_int_numeral of_int_power)
    then have "1 / (2::rat) ^ 14 \<le> 1 / of_int d" using assms(2) by (intro divide_left_mono) simp_all
    then show ?thesis by simp
  qed
  also have "\<dots> = of_int ?m / 2 ^ 14" by (simp add: field_simps)
  finally have "fl (of_int n / of_int d) \<le> fl (of_int ?m / 2 ^ 14)" by (rule fl_mono)
  also have "fl (of_int ?m / 2 ^ 14) = of_int ?m / 2 ^ 14"
    using k0 assms(4) by (intro fl_dyadic) simp_all
  also have "\<dots> < of_int ?k + 1" by (simp add: field_simps)
  finally show "fl (of_int n / of_int d) < of_int ?k + 1" .
qed

lemma ceiling_fl_div:
  assumes "0 \<le> n" "0 < d" "d < 2 ^ 14" "n < 2 ^ 38"
  shows "\<lceil>fl (of_int n / of_int d)\<rceil> = \<lceil>rat_of_int n / of_int d\<rceil>"
proof (rule ceiling_unique)
  let ?x = "rat_of_int n / of_int d"
  let ?k = "\<lceil>?x\<rceil>"
  have "?x \<le> of_int n" using assms(1,2) by (simp add: divide_le_eq mult_le_cancel_left1)
  moreover have "0 \<le> ?x" using assms(1,2) by simp
  ultimately have k: "0 \<le> ?k" "?k \<le> n" by (simp_all add: ceiling_le_iff)
  have "fl ?x \<le> fl (of_int ?k)" by (rule fl_mono) (rule le_of_int_ceiling)
  moreover have kb: "\<bar>?k\<bar> \<le> 2 ^ 53"
  proof -
    have "?k < 2 ^ 38" using k(2) assms(4) by (rule le_less_trans)
    moreover have "(2::int) ^ 38 \<le> 2 ^ 53" by simp
    ultimately show ?thesis using k(1) by linarith
  qed
  ultimately show "fl ?x \<le> of_int ?k" using fl_of_int [OF kb] by simp
  have "of_int (?k - 1) < ?x" using ceiling_correct [of ?x] by simp
  then have "rat_of_int ((?k - 1) * d) < of_int n" using assms(2) by (simp add: less_divide_eq)
  then have "(?k - 1) * d + 1 \<le> n" unfolding of_int_less_iff by simp
  then have "rat_of_int ((?k - 1) * d + 1) / of_int d \<le> ?x"
    using assms(2) by (intro divide_right_mono iffD2 [OF of_int_le_iff]) simp_all
  moreover have "rat_of_int ((?k - 1) * 2 ^ 14 + 1) / 2 ^ 14 \<le> of_int ((?k - 1) * d + 1) / of_int d"
  proof -
    have "rat_of_int d \<le> 2 ^ 14" using assms(3) by (metis less_imp_le of_int_le_iff of_int_numeral of_int_power)
    then have "1 / (2::rat) ^ 14 \<le> 1 / of_int d" using assms(2) by (intro divide_left_mono) simp_all
    then show ?thesis using assms(2) by (simp add: add_divide_distrib)
  qed
  ultimately have "fl (of_int ((?k - 1) * 2 ^ 14 + 1) / 2 ^ 14) \<le> fl ?x" by (intro fl_mono) (rule order_trans)
  moreover have "fl (of_int ((?k - 1) * 2 ^ 14 + 1) / 2 ^ 14) = of_int ((?k - 1) * 2 ^ 14 + 1) / 2 ^ 14"
  proof (rule fl_dyadic)
    have "?k < 2 ^ 38" using k(2) assms(4) by (rule le_less_trans)
    moreover have "\<bar>(m - 1) * 2 ^ 14 + 1\<bar> < (2::int) ^ 53" if "0 \<le> m" "m < 2 ^ 38" for m :: int using that by (simp add: abs_less_iff)
    ultimately show "\<bar>(?k - 1) * 2 ^ 14 + 1\<bar> < 2 ^ 53" using k(1) by blast
  qed simp
  moreover have "of_int ?k - 1 < rat_of_int ((?k - 1) * 2 ^ 14 + 1) / 2 ^ 14" by (simp add: add_divide_distrib)
  ultimately show "of_int ?k - 1 < fl ?x" by simp
qed

section \<open>The operations the sources use\<close>

definition n_add :: "num \<Rightarrow> num \<Rightarrow> num" where
  "n_add a b = fl (a + b)"

definition n_sub :: "num \<Rightarrow> num \<Rightarrow> num" where
  "n_sub a b = fl (a - b)"

definition n_mul :: "num \<Rightarrow> num \<Rightarrow> num" where
  "n_mul a b = fl (a * b)"

text \<open>Division; the sources divide by a number they have tested or that is a constant.\<close>

definition n_div :: "num \<Rightarrow> num \<Rightarrow> num" where
  "n_div a b = fl (a / b)"

text \<open>\<open>Math.round\<close>: the nearest integer, halves rounded up.\<close>

definition math_round :: "num \<Rightarrow> int" where
  "math_round x = \<lfloor>x + 1 / 2\<rfloor>"

text \<open>
  \<open>Number(x.toFixed(d))\<close>: the integer nearest to \<open>x * 10\<^sup>d\<close> (the larger of two, on the
  absolute value), written in decimal and read back as a double.
\<close>

definition to_fixed :: "nat \<Rightarrow> num \<Rightarrow> num" where
  "to_fixed d x = (if x < 0 then - fl (of_int \<lfloor>- x * 10 ^ d + 1 / 2\<rfloor> / 10 ^ d)
                   else fl (of_int \<lfloor>x * 10 ^ d + 1 / 2\<rfloor> / 10 ^ d))"

definition clampN :: "num \<Rightarrow> num \<Rightarrow> num \<Rightarrow> num" where
  "clampN v lo hi = max lo (min hi v)"

lemmas num_ops [js_defs] = n_add_def n_sub_def n_mul_def n_div_def

text \<open>
  What the clients use of rounding: it is monotone and keeps 0. The sign and comparison
  lemmas below follow from these two laws alone.
\<close>

locale rounding =
  fixes rnd :: "rat \<Rightarrow> rat"
  assumes rnd_mono: "x \<le> y \<Longrightarrow> rnd x \<le> rnd y"
    and rnd_0: "rnd 0 = 0"
begin

lemma nonneg: "0 \<le> x \<Longrightarrow> 0 \<le> rnd x"
  using rnd_mono [of 0 x] rnd_0 by simp

lemma nonpos: "x \<le> 0 \<Longrightarrow> rnd x \<le> 0"
  using rnd_mono [of x 0] rnd_0 by simp

lemma diff_nonneg: "b \<le> a \<Longrightarrow> 0 \<le> rnd (a - b)"
  by (rule nonneg) simp

lemma prod_nonneg: "0 \<le> a \<Longrightarrow> 0 \<le> b \<Longrightarrow> 0 \<le> rnd (a * b)"
  by (rule nonneg) simp

lemma quot_nonneg: "0 \<le> a \<Longrightarrow> 0 \<le> b \<Longrightarrow> 0 \<le> rnd (a / b)"
  by (rule nonneg) simp

lemma foldl_nonneg:
  "0 \<le> a \<Longrightarrow> (\<And>x. x \<in> set xs \<Longrightarrow> 0 \<le> x) \<Longrightarrow> 0 \<le> foldl (\<lambda>s x. rnd (s + x)) a xs"
  by (induction xs arbitrary: a) (simp_all add: nonneg)

lemma between: "a \<le> x \<Longrightarrow> x \<le> b \<Longrightarrow> rnd a \<le> rnd x \<and> rnd x \<le> rnd b"
  by (simp add: rnd_mono)

end

interpretation binary64: rounding fl
  by unfold_locales (simp_all add: fl_mono)

lemma clampN_bounds: "lo \<le> hi \<Longrightarrow> lo \<le> clampN v lo hi \<and> clampN v lo hi \<le> hi"
  by (simp add: clampN_def)

lemma to_fixed_mono:
  assumes "0 \<le> x" "x \<le> y"
  shows "to_fixed d x \<le> to_fixed d y"
  using assms by (auto simp: to_fixed_def intro!: fl_mono divide_right_mono floor_mono mult_right_mono add_right_mono)

lemma to_fixed_nonneg: "0 \<le> x \<Longrightarrow> 0 \<le> to_fixed d x"
  by (auto simp: to_fixed_def intro!: fl_nonneg divide_nonneg_nonneg)

text \<open>A number that is an integer multiple of \<open>10\<^sup>-\<^sup>d\<close> is only rounded to a double.\<close>

lemma to_fixed_grid: "to_fixed d (of_int n / 10 ^ d) = fl (of_int n / 10 ^ d)"
proof -
  have f: "\<lfloor>rat_of_int m + 1 / 2\<rfloor> = m" for m
    by (simp add: floor_eq_iff)
  show ?thesis using f [of n] f [of "- n"]
    by (auto simp: to_fixed_def fl_minus [symmetric] divide_less_0_iff)
qed

lemma to_fixed_of_int:
  assumes "\<bar>n\<bar> \<le> 2 ^ 53"
  shows "to_fixed d (of_int n) = of_int n"
proof -
  have "rat_of_int n = of_int (n * 10 ^ d) / 10 ^ d" by simp
  then show ?thesis using to_fixed_grid [of d "n * 10 ^ d"] fl_of_int [OF assms] by simp
qed

end
