(* ===== verification/CoordinatorUtils.thy ===== *)
theory CoordinatorUtils
  imports JsNumber JsString "HOL-Library.List_Lexorder" "HOL-Library.Char_ord"
begin

text \<open>
  The pure helpers of the coordinator, \<open>src/src/swarm/coordinator-utils.ts\<close>: client address
  extraction, the key of an agent pair, the weighted median of price quotes and the fee split of a
  payment. (\<open>normalizeUrl\<close> and \<open>parseRecordPayload\<close> only call the URL and JSON parsers.)
\<close>

section \<open>String helpers\<close>

definition is_space :: "char \<Rightarrow> bool" where
  "is_space c = (let n = (of_char c :: nat) in (9 \<le> n \<and> n \<le> 13) \<or> n = 32 \<or> n = 160)"

definition trim :: "string \<Rightarrow> string" where
  "trim s = rev (dropWhile is_space (rev (dropWhile is_space s)))"

definition lower_char :: "char \<Rightarrow> char" where
  "lower_char c = (let n = (of_char c :: nat) in if 65 \<le> n \<and> n \<le> 90 then char_of (n + 32) else c)"

definition to_lower :: "string \<Rightarrow> string" where
  "to_lower s = map lower_char s"

definition starts_with :: "string \<Rightarrow> string \<Rightarrow> bool" where
  "starts_with s p = (take (length p) s = p)"

text \<open>\<open>s.split(c)\<close> for a one-character separator.\<close>

fun split_on :: "char \<Rightarrow> string \<Rightarrow> string list" where
  "split_on c [] = [[]]"
| "split_on c (x # xs) =
     (if x = c then [] # split_on c xs
      else (case split_on c xs of [] \<Rightarrow> [[x]] | p # ps \<Rightarrow> (x # p) # ps))"

definition all_digits :: "string \<Rightarrow> bool" where
  "all_digits s = (s \<noteq> [] \<and> list_all is_digit s)"

section \<open>Client addresses\<close>

text \<open>The regular expression \<open>^\d{1,3}(\.\d{1,3}){3}:\d+$\<close> on a value with one colon.\<close>

definition ipv4_with_port :: "string \<Rightarrow> bool" where
  "ipv4_with_port value =
     (case split_on (CHR '':'') value of
        [host, port] \<Rightarrow> (let parts = split_on (CHR ''.'') host in
           length parts = 4 \<and> list_all (\<lambda>p. all_digits p \<and> length p \<le> 3) parts \<and> all_digits port)
      | _ \<Rightarrow> False)"

definition normalizeIpCandidate :: "string \<Rightarrow> string option" where
  "normalizeIpCandidate raw =
     (let value = trim raw in
      if value = [] then None
      else if to_lower value = ''unknown'' then None
      else if starts_with value ''::ffff:'' then Some (drop 7 value)
      else if starts_with value ''['' \<and> CHR '']'' \<in> set value
           then Some (takeWhile (\<lambda>c. c \<noteq> CHR '']'') (drop 1 value))
      else if count_list value (CHR '':'') = 1 \<and> ipv4_with_port value
           then Some (hd (split_on (CHR '':'') value))
      else Some value)"

datatype HeaderValue = HString string | HArray "string option list" | HOther

definition readHeaderValue :: "(string, HeaderValue) jsmap \<Rightarrow> string \<Rightarrow> string option" where
  "readHeaderValue headers key =
     (case jsm_get headers key of
        Some (HString raw) \<Rightarrow> Some raw
      | Some (HArray items) \<Rightarrow> (case find (\<lambda>i. i \<noteq> None) items of Some i \<Rightarrow> i | None \<Rightarrow> None)
      | _ \<Rightarrow> None)"

text \<open>The first candidate that normalizes to a non-empty string.\<close>

fun first_ip :: "string list \<Rightarrow> string option" where
  "first_ip [] = None"
| "first_ip (c # cs) = (if truthy_str (normalizeIpCandidate c) then normalizeIpCandidate c else first_ip cs)"

definition priorityHeaders :: "string list" where
  "priorityHeaders = [''fly-client-ip'', ''cf-connecting-ip'', ''x-real-ip'', ''true-client-ip'']"

definition extractClientIp :: "(string, HeaderValue) jsmap \<Rightarrow> string option \<Rightarrow> string option" where
  "extractClientIp headers fallbackIp =
     (let candidates = map the (filter truthy_str (map (readHeaderValue headers) priorityHeaders));
          forwarded = readHeaderValue headers ''x-forwarded-for'' in
      case first_ip candidates of
        Some ip \<Rightarrow> Some ip
      | None \<Rightarrow>
          (case (if truthy_str forwarded then first_ip (split_on (CHR '','') (the forwarded)) else None) of
             Some ip \<Rightarrow> Some ip
           | None \<Rightarrow> Option.bind fallbackIp normalizeIpCandidate))"

section \<open>Pairs, medians and fees\<close>

definition pairKey :: "string \<Rightarrow> string \<Rightarrow> string" where
  "pairKey a b = join ''::'' (sort [a, b])"

text \<open>Entries are pairs of value and weight. The sums are accumulated left to right in binary64.\<close>

definition totalWeight :: "(num \<times> num) list \<Rightarrow> num" where
  "totalWeight es = foldl (\<lambda>s (v, w). n_add s (max 0 w)) 0 es"

fun medianScan :: "num \<Rightarrow> num \<Rightarrow> (num \<times> num) list \<Rightarrow> num option" where
  "medianScan half cumulative [] = None"
| "medianScan half cumulative ((v, w) # es) =
     (let cumulative' = n_add cumulative (max 0 w) in
      if half \<le> cumulative' then Some v else medianScan half cumulative' es)"

definition weightedMedian :: "(num \<times> num) list \<Rightarrow> num" where
  "weightedMedian entries =
     (if entries = [] then 0
      else (let sorted = sort_key fst entries; total = totalWeight sorted in
            if total \<le> 0 then fst (sorted ! (length sorted div 2))
            else (case medianScan (n_div total 2) 0 sorted of
                    Some v \<Rightarrow> v
                  | None \<Rightarrow> fst (last sorted))))"

definition computeIntentFee :: "int \<Rightarrow> int \<Rightarrow> int \<times> int" where
  "computeIntentFee amountSats feeBps =
     (let feeSats = \<lfloor>n_div (n_mul (of_int amountSats) (of_int feeBps)) 10000\<rfloor>;
          netSats = max 0 (amountSats - feeSats)
      in (feeSats, netSats))"

definition safeTokenEqual :: "string \<Rightarrow> string \<Rightarrow> bool" where
  "safeTokenEqual a b = (if length a \<noteq> length b then False else list_all2 (=) a b)"

section \<open>Lemmas\<close>

lemma totalWeight_append: "totalWeight (es @ [e]) = n_add (totalWeight es) (max 0 (snd e))"
  by (simp add: totalWeight_def case_prod_beta)

lemma n_add_nonneg: "0 \<le> a \<Longrightarrow> 0 \<le> b \<Longrightarrow> 0 \<le> n_add a b"
  unfolding n_add_def by (rule binary64.nonneg) simp

lemma totalWeight_nonneg: "0 \<le> totalWeight es"
  by (induction es rule: rev_induct) (simp_all add: totalWeight_append n_add_nonneg, simp add: totalWeight_def)

lemma fl_half_le: "0 \<le> fl x \<Longrightarrow> fl (fl x / 2) \<le> fl (fl x)"
  by (rule fl_mono) simp

text \<open>The scan stops at the first prefix whose accumulated weight reaches the threshold.\<close>

lemma medianScan_spec:
  "medianScan half (totalWeight pre) es =
     (case find (\<lambda>i. half \<le> totalWeight (pre @ take (Suc i) es)) [0..<length es] of
        None \<Rightarrow> None | Some i \<Rightarrow> Some (fst (es ! i)))"
proof (induction es arbitrary: pre)
  case (Cons e es)
  obtain v w where e: "e = (v, w)" by (cases e)
  have up: "[0..<length (e # es)] = 0 # map Suc [0..<length es]" by (simp add: upt_conv_Cons map_Suc_upt del: upt_Suc)
  have fm: "find p (map Suc is) = map_option Suc (find (p \<circ> Suc) is)" for p "is"
    by (induction "is") auto
  show ?case
  proof (cases "half \<le> totalWeight (pre @ [e])")
    case True
    then show ?thesis by (simp only: up) (simp add: e totalWeight_append Let_def)
  next
    case False
    then have "medianScan half (totalWeight pre) (e # es) = medianScan half (totalWeight (pre @ [e])) es"
      by (simp add: e totalWeight_append Let_def)
    also have "\<dots> = (case find (\<lambda>i. half \<le> totalWeight ((pre @ [e]) @ take (Suc i) es)) [0..<length es] of
        None \<Rightarrow> None | Some i \<Rightarrow> Some (fst (es ! i)))" by (rule Cons.IH)
    finally show ?thesis using False by (simp only: up) (simp add: fm comp_def split: option.splits)
  qed
qed simp

lemma computeIntentFee_exact:
  assumes "0 \<le> amountSats" "amountSats \<le> 100000000" "0 \<le> feeBps" "feeBps \<le> 10000"
  shows "computeIntentFee amountSats feeBps = (amountSats * feeBps div 10000, amountSats - amountSats * feeBps div 10000)"
    and "amountSats * feeBps div 10000 \<le> amountSats" "0 \<le> amountSats * feeBps div 10000"
proof -
  let ?p = "amountSats * feeBps"
  have p: "0 \<le> ?p" "?p \<le> 100000000 * 10000"
    using assms by (simp, intro mult_mono) simp_all
  have pa: "?p \<le> amountSats * 10000" using assms by (intro mult_left_mono) simp_all
  then show le: "?p div 10000 \<le> amountSats" by simp
  show nn: "0 \<le> ?p div 10000" using p(1) by simp
  have mul: "n_mul (of_int amountSats) (of_int feeBps) = of_int ?p"
    using fl_of_int [of ?p] p by (simp add: n_mul_def)
  have "\<lfloor>fl (of_int ?p / of_int 10000)\<rfloor> = ?p div 10000" by (rule floor_fl_div) (use p le assms in simp_all)
  then show "computeIntentFee amountSats feeBps = (?p div 10000, amountSats - ?p div 10000)"
    using le by (simp add: computeIntentFee_def Let_def mul n_div_def)
qed

lemma weightedMedian_index:
  assumes "entries \<noteq> []" "\<not> totalWeight (sort_key fst entries) \<le> 0"
  obtains i where "i < length (sort_key fst entries)" "weightedMedian entries = fst (sort_key fst entries ! i)"
    "n_div (totalWeight (sort_key fst entries)) 2 \<le> totalWeight (take (Suc i) (sort_key fst entries))"
    "\<forall>j < i. totalWeight (take (Suc j) (sort_key fst entries)) < n_div (totalWeight (sort_key fst entries)) 2"
proof -
  let ?s = "sort_key fst entries" and ?h = "n_div (totalWeight (sort_key fst entries)) 2"
  have ne: "?s \<noteq> []" using assms(1) by (metis length_0_conv length_sort)
  have fixed: "fl (totalWeight ?s) = totalWeight ?s"
    using ne by (cases ?s rule: rev_cases) (simp_all add: totalWeight_append n_add_def)
  have "?h \<le> fl (totalWeight ?s)" unfolding n_div_def by (rule fl_mono) (use totalWeight_nonneg [of ?s] in simp)
  then have all: "?h \<le> totalWeight (take (Suc (length ?s - 1)) ?s)" using ne fixed by simp
  have "find (\<lambda>i. ?h \<le> totalWeight (take (Suc i) ?s)) [0..<length ?s] \<noteq> None"
    using all assms(1) by (auto simp: find_None_all intro!: bexI [of _ "length ?s - 1"])
  then obtain i where fi: "find (\<lambda>i. ?h \<le> totalWeight (take (Suc i) ?s)) [0..<length ?s] = Some i" by auto
  then have i: "i < length ?s" "?h \<le> totalWeight (take (Suc i) ?s)" "\<forall>j < i. totalWeight (take (Suc j) ?s) < ?h"
    by (auto simp: find_Some_iff)
  have "totalWeight [] = 0" by (simp add: totalWeight_def)
  then have "medianScan ?h 0 ?s = Some (fst (?s ! i))"
    using medianScan_spec [of ?h "[]" ?s] fi by simp
  then have "weightedMedian entries = fst (?s ! i)" using assms by (simp add: weightedMedian_def Let_def)
  with i show thesis using that by blast
qed

section \<open>Properties\<close>

text \<open>
  For every amount the payment and robot-task schemas admit and every fee rate between 0 and 10000 basis
  points, the fee is the exact integer quotient (no rounding error of the double division reaches
  the floor), the net amount is never negative, and fee and net amount add up to the amount paid.
\<close>

theorem computeIntentFee_conserves:
  assumes "0 \<le> amountSats" "amountSats \<le> 100000000" "0 \<le> feeBps" "feeBps \<le> 10000"
  shows "let (feeSats, netSats) = computeIntentFee amountSats feeBps in
    feeSats = amountSats * feeBps div 10000 \<and> feeSats + netSats = amountSats \<and>
    0 \<le> feeSats \<and> 0 \<le> netSats"
  using computeIntentFee_exact [OF assms] by simp

theorem computeIntentFee_conserves_witness:
  "let (feeSats, netSats) = computeIntentFee 12345 200 in feeSats = 246 \<and> netSats = 12099"
  using computeIntentFee_conserves [of 12345 200] by (auto simp: Let_def)

text \<open>
  The weighted median of a non-empty list of quotes is the value at the first position, in the order of
  values, where the accumulated weight reaches half the total; with no positive weight it is the
  middle value. In particular it is always one of the quoted values, and quotes after that position
  do not influence it.
\<close>

theorem weightedMedian_correct:
  assumes "entries \<noteq> []"
  shows "let s = sort_key fst entries; half = n_div (totalWeight s) 2 in
    weightedMedian entries \<in> fst ` set entries \<and>
    (if totalWeight s \<le> 0 then weightedMedian entries = fst (s ! (length s div 2))
     else \<exists>i < length s. weightedMedian entries = fst (s ! i) \<and> half \<le> totalWeight (take (Suc i) s) \<and>
            (\<forall>j < i. totalWeight (take (Suc j) s) < half))"
proof -
  let ?s = "sort_key fst entries"
  have mem: "fst (?s ! i) \<in> fst ` set entries" if "i < length ?s" for i
    using that by (metis nth_mem set_sort imageI)
  show ?thesis
  proof (cases "totalWeight ?s \<le> 0")
    case True
    have "length ?s div 2 < length ?s" using assms by (cases entries) simp_all
    from mem [OF this] True assms show ?thesis by (simp add: weightedMedian_def Let_def)
  next
    case False
    from weightedMedian_index [OF assms False] obtain i where i: "i < length ?s" "weightedMedian entries = fst (?s ! i)"
      "n_div (totalWeight ?s) 2 \<le> totalWeight (take (Suc i) ?s)" "\<forall>j < i. totalWeight (take (Suc j) ?s) < n_div (totalWeight ?s) 2" by blast
    then have "\<exists>i < length ?s. weightedMedian entries = fst (?s ! i) \<and> n_div (totalWeight ?s) 2 \<le> totalWeight (take (Suc i) ?s) \<and>
        (\<forall>j < i. totalWeight (take (Suc j) ?s) < n_div (totalWeight ?s) 2)" by blast
    then show ?thesis using False mem [OF i(1)] i(2) unfolding Let_def by simp
  qed
qed

theorem weightedMedian_correct_witness:
  "weightedMedian [(30, 120), (10, 1), (20, 200)] = 20 \<and> weightedMedian [(30, 120), (10, 1), (20, 200)] \<in> {30, 10, 20}"
proof -
  have "weightedMedian [(30, 120), (10, 1), (20, 200)] = 20" by code_simp
  then show ?thesis using weightedMedian_correct [of "[(30, 120), (10, 1), (20, 200)]"] by (simp add: Let_def)
qed

end
