(* ===== verification/RobotQueue.thy ===== *)
theory RobotQueue
  imports CoordinatorUtils
begin

text \<open>
  The escrowed robot-task queue: \<open>src/src/swarm/robot-types.ts\<close>, the class of
  \<open>src/src/swarm/robot-queue.ts\<close> and the HTTP handlers of \<open>src/src/swarm/robot-routes.ts\<close>.
  A method that throws returns \<open>Inl\<close> of its error and leaves the queue as the code leaves it (every
  throw comes before the first write). \<open>Date.now()\<close>, \<open>randomUUID()\<close>, the token checks and the
  Lightning provider are arguments.
\<close>

section \<open>Data\<close>

datatype RobotTaskKind = Physical | Compute | Hybrid

datatype RobotTaskStatus =
  Pending_funding | Funded | Claimed | Proof_submitted | Settled | Disputed | Expired

record RobotTask =
  rt_taskId :: string
  rt_clientAccountId :: string
  rt_title :: string
  rt_description :: string
  rt_taskKind :: RobotTaskKind
  rt_resourceRequirements :: "string list"
  rt_escrowSats :: int
  rt_rewardSats :: int
  rt_coordinatorFeeSats :: int
  rt_coordinatorFeeBps :: int
  rt_status :: RobotTaskStatus
  rt_timeoutMs :: int
  rt_proofSchema :: "string option"
  rt_invoiceRef :: string
  rt_claimedBy :: "string option"
  rt_claimedAtMs :: "ms option"
  rt_proofPayload :: "string option"
  rt_proofSubmittedAtMs :: "ms option"
  rt_disputeReason :: "string option"
  rt_createdAtMs :: ms
  rt_settledAtMs :: "ms option"

record RobotAgent =
  ra_agentId :: string
  ra_payoutAddress :: string
  ra_capabilities :: "string list"
  ra_robotKind :: string
  ra_lastSeenMs :: ms
  ra_successCount :: nat
  ra_failureCount :: nat

datatype EarningsStatus = Accrued | Swept

record RobotEarningsEntry =
  re_entryId :: string
  re_agentId :: string
  re_taskId :: string
  re_earnedSats :: int
  re_status :: EarningsStatus
  re_sweepTxId :: "string option"
  re_createdAtMs :: ms

record RobotSweepPayout =
  sp_agentId :: string
  sp_address :: string
  sp_amountSats :: int

record RobotQueueConfig =
  coordinatorFeeBps :: int
  defaultTimeoutMs :: int
  autoSettleDelayMs :: int
  sweepIntervalMs :: int
  minSweepSats :: int

record RobotQueue =
  config :: RobotQueueConfig
  agents :: "(string, RobotAgent) jsmap"
  tasks :: "(string, RobotTask) jsmap"
  earnings :: "RobotEarningsEntry list"

datatype RobotError =
    Payout_address_required | Task_not_found | Task_not_pending_funding | Task_not_claimable
  | Agent_not_registered | Capability_mismatch | Task_not_claimed | Not_claimed_by_agent
  | Task_not_proof_submitted

definition newRobotQueue :: "RobotQueueConfig \<Rightarrow> RobotQueue" where
  "newRobotQueue cfg = \<lparr> config = cfg, agents = [], tasks = [], earnings = [] \<rparr>"

section \<open>Operations\<close>

definition registerAgent ::
  "string \<Rightarrow> string \<Rightarrow> string list \<Rightarrow> string \<Rightarrow> ms \<Rightarrow> RobotQueue \<Rightarrow> RobotQueue \<times> (RobotError + RobotAgent)" where
  "registerAgent agentId payoutAddress capabilities robotKind now q =
     (if payoutAddress = [] then (q, Inl Payout_address_required)
      else (let existing = jsm_get (agents q) agentId;
                agent = \<lparr> ra_agentId = agentId, ra_payoutAddress = payoutAddress,
                  ra_capabilities = capabilities, ra_robotKind = robotKind, ra_lastSeenMs = now,
                  ra_successCount = nullish (map_option ra_successCount existing) 0,
                  ra_failureCount = nullish (map_option ra_failureCount existing) 0 \<rparr>
            in (q\<lparr> agents := jsm_set agentId agent (agents q) \<rparr>, Inr agent)))"

definition getAgent :: "string \<Rightarrow> RobotQueue \<Rightarrow> RobotAgent option" where
  "getAgent agentId q = jsm_get (agents q) agentId"

definition heartbeat :: "string \<Rightarrow> ms \<Rightarrow> RobotQueue \<Rightarrow> RobotQueue" where
  "heartbeat agentId now q = q\<lparr> agents := jsm_modify agentId (\<lambda>a. a\<lparr> ra_lastSeenMs := now \<rparr>) (agents q) \<rparr>"

record CreateTaskInput =
  ci_clientAccountId :: string
  ci_title :: string
  ci_description :: string
  ci_taskKind :: RobotTaskKind
  ci_resourceRequirements :: "string list"
  ci_amountSats :: int
  ci_timeoutMs :: "int option"
  ci_proofSchema :: "string option"

definition createTask ::
  "CreateTaskInput \<Rightarrow> string \<Rightarrow> string \<Rightarrow> ms \<Rightarrow> RobotQueue \<Rightarrow> RobotQueue \<times> RobotTask" where
  "createTask input invoiceRef uuid now q =
     (let (feeSats, netSats) = computeIntentFee (ci_amountSats input) (coordinatorFeeBps (config q));
          task = \<lparr> rt_taskId = uuid, rt_clientAccountId = ci_clientAccountId input,
            rt_title = ci_title input, rt_description = ci_description input,
            rt_taskKind = ci_taskKind input, rt_resourceRequirements = ci_resourceRequirements input,
            rt_escrowSats = ci_amountSats input, rt_rewardSats = netSats,
            rt_coordinatorFeeSats = feeSats, rt_coordinatorFeeBps = coordinatorFeeBps (config q),
            rt_status = Pending_funding,
            rt_timeoutMs = nullish (ci_timeoutMs input) (defaultTimeoutMs (config q)),
            rt_proofSchema = ci_proofSchema input, rt_invoiceRef = invoiceRef,
            rt_claimedBy = None, rt_claimedAtMs = None, rt_proofPayload = None,
            rt_proofSubmittedAtMs = None, rt_disputeReason = None, rt_createdAtMs = now,
            rt_settledAtMs = None \<rparr>
      in (q\<lparr> tasks := jsm_set uuid task (tasks q) \<rparr>, task))"

definition getTask :: "string \<Rightarrow> RobotQueue \<Rightarrow> RobotTask option" where
  "getTask taskId q = jsm_get (tasks q) taskId"

definition putTask :: "string \<Rightarrow> RobotTask \<Rightarrow> RobotQueue \<Rightarrow> RobotQueue" where
  "putTask taskId t q = q\<lparr> tasks := jsm_set taskId t (tasks q) \<rparr>"

definition markFunded :: "string \<Rightarrow> RobotQueue \<Rightarrow> RobotQueue \<times> (RobotError + RobotTask)" where
  "markFunded taskId q =
     (case jsm_get (tasks q) taskId of
        None \<Rightarrow> (q, Inl Task_not_found)
      | Some task \<Rightarrow>
          if rt_status task \<noteq> Pending_funding then (q, Inl Task_not_pending_funding)
          else (let t = task\<lparr> rt_status := Funded \<rparr> in (putTask taskId t q, Inr t)))"

definition claimTask :: "string \<Rightarrow> string \<Rightarrow> ms \<Rightarrow> RobotQueue \<Rightarrow> RobotQueue \<times> (RobotError + RobotTask)" where
  "claimTask taskId agentId now q =
     (case jsm_get (tasks q) taskId of
        None \<Rightarrow> (q, Inl Task_not_found)
      | Some task \<Rightarrow>
          if rt_status task \<noteq> Funded then (q, Inl Task_not_claimable)
          else (case jsm_get (agents q) agentId of
                  None \<Rightarrow> (q, Inl Agent_not_registered)
                | Some agent \<Rightarrow>
                    if list_ex (\<lambda>req. req \<notin> set (ra_capabilities agent)) (rt_resourceRequirements task)
                    then (q, Inl Capability_mismatch)
                    else (let t = task\<lparr> rt_status := Claimed, rt_claimedBy := Some agentId,
                                        rt_claimedAtMs := Some now \<rparr>
                          in (putTask taskId t q, Inr t))))"

definition listAvailableTasks :: "string \<Rightarrow> RobotQueue \<Rightarrow> RobotTask list" where
  "listAvailableTasks agentId q =
     (case jsm_get (agents q) agentId of
        None \<Rightarrow> []
      | Some agent \<Rightarrow> filter (\<lambda>task. rt_status task = Funded \<and>
          list_all (\<lambda>r. r \<in> set (ra_capabilities agent)) (rt_resourceRequirements task)) (jsm_values (tasks q)))"

definition submitProof ::
  "string \<Rightarrow> string \<Rightarrow> string option \<Rightarrow> ms \<Rightarrow> RobotQueue \<Rightarrow> RobotQueue \<times> (RobotError + RobotTask)" where
  "submitProof taskId agentId payload now q =
     (case jsm_get (tasks q) taskId of
        None \<Rightarrow> (q, Inl Task_not_found)
      | Some task \<Rightarrow>
          if rt_status task \<noteq> Claimed then (q, Inl Task_not_claimed)
          else if rt_claimedBy task \<noteq> Some agentId then (q, Inl Not_claimed_by_agent)
          else (let t = task\<lparr> rt_status := Proof_submitted, rt_proofPayload := payload,
                              rt_proofSubmittedAtMs := Some now \<rparr>
                in (putTask taskId t q, Inr t)))"

text \<open>\<open>task.claimedBy!\<close> is the claiming agent; an absent one would be filed under \<open>undefined\<close>.\<close>

definition claimant :: "RobotTask \<Rightarrow> string" where
  "claimant t = nullish (rt_claimedBy t) ''undefined''"

definition settleTask ::
  "string \<Rightarrow> ms \<Rightarrow> string \<Rightarrow> ms \<Rightarrow> RobotQueue \<Rightarrow> RobotQueue \<times> (RobotError + RobotTask)" where
  "settleTask taskId now entryId now2 q =
     (case jsm_get (tasks q) taskId of
        None \<Rightarrow> (q, Inl Task_not_found)
      | Some task \<Rightarrow>
          if rt_status task \<noteq> Proof_submitted then (q, Inl Task_not_proof_submitted)
          else (let t = task\<lparr> rt_status := Settled, rt_settledAtMs := Some now \<rparr>;
                    entry = \<lparr> re_entryId = entryId, re_agentId = claimant t, re_taskId = rt_taskId t,
                      re_earnedSats = rt_rewardSats t, re_status = Accrued, re_sweepTxId = None,
                      re_createdAtMs = now2 \<rparr>;
                    q1 = putTask taskId t q
                in (q1\<lparr> earnings := earnings q @ [entry],
                        agents := jsm_modify (claimant t) (\<lambda>a. a\<lparr> ra_successCount := ra_successCount a + 1 \<rparr>) (agents q) \<rparr>,
                    Inr t)))"

definition disputeTask :: "string \<Rightarrow> string \<Rightarrow> RobotQueue \<Rightarrow> RobotQueue \<times> (RobotError + RobotTask)" where
  "disputeTask taskId reason q =
     (case jsm_get (tasks q) taskId of
        None \<Rightarrow> (q, Inl Task_not_found)
      | Some task \<Rightarrow>
          if rt_status task \<noteq> Proof_submitted then (q, Inl Task_not_proof_submitted)
          else (let t = task\<lparr> rt_status := Disputed, rt_disputeReason := Some reason \<rparr>
                in (putTask taskId t q, Inr t)))"

definition isStale :: "ms \<Rightarrow> RobotTask \<Rightarrow> bool" where
  "isStale now task = (rt_status task = Claimed \<and> truthy_int (rt_claimedAtMs task) \<and>
     now - the (rt_claimedAtMs task) > rt_timeoutMs task)"

definition expireStep ::
  "ms \<Rightarrow> (string, RobotTask) jsmap \<times> (string, RobotAgent) jsmap \<times> nat \<Rightarrow> string \<times> RobotTask \<Rightarrow>
   (string, RobotTask) jsmap \<times> (string, RobotAgent) jsmap \<times> nat" where
  "expireStep now = (\<lambda>(ts, ags, count) (k, task).
     if isStale now task
     then (ts @ [(k, task\<lparr> rt_status := Expired \<rparr>)],
           jsm_modify (claimant task) (\<lambda>a. a\<lparr> ra_failureCount := ra_failureCount a + 1 \<rparr>) ags, count + 1)
     else (ts @ [(k, task)], ags, count))"

definition expireStale :: "ms \<Rightarrow> RobotQueue \<Rightarrow> RobotQueue \<times> nat" where
  "expireStale now q =
     (let (ts, ags, count) = foldl (expireStep now) ([], agents q, 0) (tasks q)
      in (q\<lparr> tasks := ts, agents := ags \<rparr>, count))"

definition getEarnings :: "string \<Rightarrow> RobotQueue \<Rightarrow> RobotEarningsEntry list" where
  "getEarnings agentId q = filter (\<lambda>e. re_agentId e = agentId) (earnings q)"

definition sumByAgent :: "RobotEarningsEntry list \<Rightarrow> (string, int) jsmap" where
  "sumByAgent es = foldl (\<lambda>m e. if re_status e \<noteq> Accrued then m
     else jsm_set (re_agentId e) (nullish (jsm_get m (re_agentId e)) 0 + re_earnedSats e) m) [] es"

definition pendingSweepPayouts :: "RobotQueue \<Rightarrow> RobotSweepPayout list" where
  "pendingSweepPayouts q =
     List.map_filter (\<lambda>(agentId, total).
       if total < minSweepSats (config q) then None
       else (case jsm_get (agents q) agentId of
               None \<Rightarrow> None
             | Some agent \<Rightarrow> Some \<lparr> sp_agentId = agentId, sp_address = ra_payoutAddress agent, sp_amountSats = total \<rparr>))
       (sumByAgent (earnings q))"

definition markSwept :: "string \<Rightarrow> string \<Rightarrow> RobotQueue \<Rightarrow> RobotQueue" where
  "markSwept agentId txid q =
     q\<lparr> earnings := map (\<lambda>e. if re_agentId e = agentId \<and> re_status e = Accrued
          then e\<lparr> re_status := Swept, re_sweepTxId := Some txid \<rparr> else e) (earnings q) \<rparr>"

definition status :: "RobotQueue \<Rightarrow> nat \<times> nat \<times> nat \<times> nat \<times> nat" where
  "status q =
     (let (funded, claimed, settled) = foldl (\<lambda>(f, c, s) t.
            case rt_status t of Funded \<Rightarrow> (f + 1, c, s) | Claimed \<Rightarrow> (f, c + 1, s) | Settled \<Rightarrow> (f, c, s + 1) | _ \<Rightarrow> (f, c, s))
            (0, 0, 0) (jsm_values (tasks q))
      in (length (agents q), length (tasks q), funded, claimed, settled))"

section \<open>HTTP handlers\<close>

text \<open>
  A request carries the outcome of the two token checks. \<open>RejectedBody\<close> is the exception of a
  schema that does not accept the body, \<open>ProviderFailed\<close> that of the Lightning provider.
\<close>

datatype RobotResponse =
    HttpError nat string | Conflict RobotError | RejectedBody | ProviderFailed | ThrownError RobotError
  | OkAgent RobotAgent | OkPlain | OkTask RobotTask | OkTasks "RobotTask list"
  | NotFoundBody | OkEarnings "RobotEarningsEntry list" int int | OkPayouts "RobotSweepPayout list" | NoPayouts

datatype RobotRequest =
    PostRegister string string "string list" string ms
  | PostHeartbeat string ms
  | PostTask CreateTaskInput "string option" string ms
  | GetAvailable "string option"
  | GetTask string
  | PostClaim string string ms
  | PostProof string "string option" "string option" ms
  | PostSettle string ms string ms
  | PostDispute string string
  | GetEarnings string
  | PostSweep

definition validCreate :: "CreateTaskInput \<Rightarrow> bool" where
  "validCreate b = (ci_clientAccountId b \<noteq> [] \<and> ci_title b \<noteq> [] \<and> ci_description b \<noteq> [] \<and>
     0 < ci_amountSats b \<and> ci_amountSats b \<le> 100000000 \<and>
     (case ci_timeoutMs b of None \<Rightarrow> True | Some t \<Rightarrow> 0 < t))"

definition conflictOr :: "RobotQueue \<times> (RobotError + RobotTask) \<Rightarrow> RobotQueue \<times> RobotResponse" where
  "conflictOr r = (fst r, case snd r of Inl e \<Rightarrow> Conflict e | Inr t \<Rightarrow> OkTask t)"

definition sumEarned :: "EarningsStatus \<Rightarrow> RobotEarningsEntry list \<Rightarrow> int" where
  "sumEarned st es = foldl (\<lambda>s e. s + re_earnedSats e) 0 (filter (\<lambda>e. re_status e = st) es)"

fun meshGuarded :: "RobotRequest \<Rightarrow> bool" where
  "meshGuarded (PostTask _ _ _ _) = False"
| "meshGuarded (PostSettle _ _ _ _) = False"
| "meshGuarded (PostDispute _ _) = False"
| "meshGuarded PostSweep = False"
| "meshGuarded _ = True"

fun handleBody :: "RobotRequest \<Rightarrow> RobotQueue \<Rightarrow> RobotQueue \<times> RobotResponse" where
  "handleBody (PostRegister a addr caps kind now) q =
     (if a = [] \<or> addr = [] \<or> kind = [] then (q, RejectedBody)
      else (let (q', r) = registerAgent a addr caps kind now q
            in (q', case r of Inl e \<Rightarrow> ThrownError e | Inr ag \<Rightarrow> OkAgent ag)))"
| "handleBody (PostHeartbeat a now) q = (if a = [] then (q, RejectedBody) else (heartbeat a now q, OkPlain))"
| "handleBody (PostTask body invoice uuid now) q =
     (if \<not> validCreate body then (q, RejectedBody)
      else (case invoice of
              None \<Rightarrow> (q, ProviderFailed)
            | Some ref \<Rightarrow> (let (q', t) = createTask body ref uuid now q in (q', OkTask t))))"
| "handleBody (GetAvailable agentId) q =
     (if \<not> truthy_str agentId then (q, HttpError 400 ''agentId_required'')
      else (q, OkTasks (listAvailableTasks (the agentId) q)))"
| "handleBody (GetTask taskId) q =
     (q, case getTask taskId q of None \<Rightarrow> NotFoundBody | Some t \<Rightarrow> OkTask t)"
| "handleBody (PostClaim taskId agentId now) q =
     (if agentId = [] then (q, RejectedBody) else conflictOr (claimTask taskId agentId now q))"
| "handleBody (PostProof taskId agentId payload now) q =
     (if \<not> truthy_str agentId then (q, HttpError 400 ''agentId_required'')
      else conflictOr (submitProof taskId (the agentId) payload now q))"
| "handleBody (PostSettle taskId now entryId now2) q = conflictOr (settleTask taskId now entryId now2 q)"
| "handleBody (PostDispute taskId reason) q =
     (if reason = [] then (q, RejectedBody) else conflictOr (disputeTask taskId reason q))"
| "handleBody (GetEarnings agentId) q =
     (q, let es = getEarnings agentId q in OkEarnings es (sumEarned Accrued es) (sumEarned Swept es))"
| "handleBody PostSweep q =
     (q, let payouts = pendingSweepPayouts q in if payouts = [] then NoPayouts else OkPayouts payouts)"

definition handle :: "bool \<Rightarrow> bool \<Rightarrow> RobotRequest \<Rightarrow> RobotQueue \<Rightarrow> RobotQueue \<times> RobotResponse" where
  "handle meshToken portalToken req q =
     (if \<not> (if meshGuarded req then meshToken else portalToken) then (q, HttpError 401 ''unauthorized'')
      else handleBody req q)"

section \<open>Sequences of operations\<close>

text \<open>
  What can happen to the queue: an HTTP request, and the three methods that no route calls. A task id
  that \<open>randomUUID()\<close> returns is not in use.
\<close>

datatype robot_op = Http bool bool RobotRequest | MarkFunded string | ExpireStale ms | MarkSwept string string

fun fresh_op :: "robot_op \<Rightarrow> RobotQueue \<Rightarrow> bool" where
  "fresh_op (Http m p (PostTask body invoice uuid now)) q = (\<not> jsm_has (tasks q) uuid)"
| "fresh_op _ q = True"

fun robot_step :: "robot_op \<Rightarrow> RobotQueue \<Rightarrow> RobotQueue" where
  "robot_step (Http m p req) q = fst (handle m p req q)"
| "robot_step (MarkFunded i) q = fst (markFunded i q)"
| "robot_step (ExpireStale now) q = fst (expireStale now q)"
| "robot_step (MarkSwept a txid) q = markSwept a txid q"

definition robot_exec :: "robot_op \<Rightarrow> RobotQueue \<Rightarrow> RobotQueue" where
  "robot_exec opn q = (if fresh_op opn q then robot_step opn q else q)"

section \<open>The life of a task\<close>

inductive task_step :: "RobotTaskStatus \<Rightarrow> RobotTaskStatus \<Rightarrow> bool" where
  fund: "task_step Pending_funding Funded"
| claim: "task_step Funded Claimed"
| prove: "task_step Claimed Proof_submitted"
| expire: "task_step Claimed Expired"
| settle: "task_step Proof_submitted Settled"
| dispute: "task_step Proof_submitted Disputed"

inductive_simps task_step_simps [simp]:
  "task_step Pending_funding s" "task_step Funded s" "task_step Claimed s" "task_step Proof_submitted s"
  "task_step Settled s" "task_step Disputed s" "task_step Expired s" "task_step s Settled"

definition task_terms :: "RobotTask \<Rightarrow> string \<times> int \<times> int \<times> int \<times> int \<times> string list" where
  "task_terms t = (rt_taskId t, rt_escrowSats t, rt_rewardSats t, rt_coordinatorFeeSats t,
     rt_coordinatorFeeBps t, rt_resourceRequirements t)"

definition evolves :: "RobotTask \<Rightarrow> RobotTask \<Rightarrow> bool" where
  "evolves t t' = (t' = t \<or>
     (task_step (rt_status t) (rt_status t') \<and> task_terms t' = task_terms t \<and>
      (rt_status t = Pending_funding \<longrightarrow> rt_claimedBy t' = rt_claimedBy t) \<and>
      (rt_status t = Funded \<longrightarrow> rt_claimedBy t' \<noteq> None) \<and>
      (rt_status t \<notin> {Pending_funding, Funded} \<longrightarrow> rt_claimedBy t' = rt_claimedBy t)))"

lemma evolves_refl [simp]: "evolves t t"
  by (simp add: evolves_def)

text \<open>The effect of an operation on the task table: existing tasks evolve, at most one is new.\<close>

definition tasks_evolve :: "RobotQueue \<Rightarrow> RobotQueue \<Rightarrow> bool" where
  "tasks_evolve q q' = (\<forall>k. case jsm_get (tasks q) k of
     Some t \<Rightarrow> (\<exists>t'. jsm_get (tasks q') k = Some t' \<and> evolves t t')
   | None \<Rightarrow> (\<forall>t'. jsm_get (tasks q') k = Some t' \<longrightarrow>
       rt_status t' = Pending_funding \<and> rt_claimedBy t' = None \<and> rt_taskId t' = k \<and>
       0 \<le> rt_rewardSats t' \<and>
       (\<exists>amount. 0 < amount \<and> amount \<le> 100000000 \<and>
          task_terms t' = (k, amount, snd (computeIntentFee amount (coordinatorFeeBps (config q))),
            fst (computeIntentFee amount (coordinatorFeeBps (config q))), coordinatorFeeBps (config q), rt_resourceRequirements t'))))"

lemma tasks_evolve_same: "tasks q' = tasks q \<Longrightarrow> tasks_evolve q q'"
  by (simp add: tasks_evolve_def split: option.splits)

lemma tasks_evolve_put:
  "jsm_get (tasks q) k = Some t \<Longrightarrow> evolves t t' \<Longrightarrow> tasks q' = jsm_set k t' (tasks q) \<Longrightarrow> tasks_evolve q q'"
  by (auto simp: tasks_evolve_def jsm_get_set split: option.splits)

lemma jsm_modify_wf [simp]: "jsm_wf m \<Longrightarrow> jsm_wf (jsm_modify k f m)"
  by (simp add: jsm_modify_def split: option.splits)

lemma expireStale_eq:
  "tasks (fst (expireStale now q)) =
     map (\<lambda>(k, t). (k, if isStale now t then t\<lparr> rt_status := Expired \<rparr> else t)) (tasks q)"
  "snd (expireStale now q) = length (filter (isStale now \<circ> snd) (tasks q))"
  "jsm_wf (agents q) \<Longrightarrow> jsm_wf (agents (fst (expireStale now q)))"
  "earnings (fst (expireStale now q)) = earnings q" "config (fst (expireStale now q)) = config q"
proof -
  have "fst (foldl (expireStep now) (ts, ags, n) es) =
      ts @ map (\<lambda>(k, t). (k, if isStale now t then t\<lparr> rt_status := Expired \<rparr> else t)) es \<and>
    snd (snd (foldl (expireStep now) (ts, ags, n) es)) = n + length (filter (isStale now \<circ> snd) es) \<and>
    (jsm_wf ags \<longrightarrow> jsm_wf (fst (snd (foldl (expireStep now) (ts, ags, n) es))))" for ts ags n es
    by (induction es arbitrary: ts ags n) (auto simp: expireStep_def)
  then show "tasks (fst (expireStale now q)) =
     map (\<lambda>(k, t). (k, if isStale now t then t\<lparr> rt_status := Expired \<rparr> else t)) (tasks q)"
    "snd (expireStale now q) = length (filter (isStale now \<circ> snd) (tasks q))"
    "jsm_wf (agents q) \<Longrightarrow> jsm_wf (agents (fst (expireStale now q)))"
    "earnings (fst (expireStale now q)) = earnings q" "config (fst (expireStale now q)) = config q"
    by (simp_all add: expireStale_def case_prod_beta)
qed

lemma expireStale_get:
  "jsm_get (tasks (fst (expireStale now q))) k =
     map_option (\<lambda>t. if isStale now t then t\<lparr> rt_status := Expired \<rparr> else t) (jsm_get (tasks q) k)"
  by (simp add: expireStale_eq jsm_get_def map_of_map comp_def)

lemma evolves_steps:
  "rt_status t = Pending_funding \<Longrightarrow> evolves t (t\<lparr> rt_status := Funded \<rparr>)"
  "rt_status t = Funded \<Longrightarrow> evolves t (t\<lparr> rt_status := Claimed, rt_claimedBy := Some a, rt_claimedAtMs := n \<rparr>)"
  "rt_status t = Claimed \<Longrightarrow> evolves t (t\<lparr> rt_status := Proof_submitted, rt_proofPayload := p, rt_proofSubmittedAtMs := n \<rparr>)"
  "rt_status t = Claimed \<Longrightarrow> evolves t (t\<lparr> rt_status := Expired \<rparr>)"
  "rt_status t = Proof_submitted \<Longrightarrow> evolves t (t\<lparr> rt_status := Settled, rt_settledAtMs := n \<rparr>)"
  "rt_status t = Proof_submitted \<Longrightarrow> evolves t (t\<lparr> rt_status := Disputed, rt_disputeReason := r \<rparr>)"
  by (simp_all add: evolves_def task_terms_def)

lemma markFunded_evolve: "tasks_evolve q (fst (markFunded i q))"
  by (auto simp: markFunded_def putTask_def Let_def tasks_evolve_same evolves_steps
      intro!: tasks_evolve_put split: option.splits)

lemma claimTask_evolve: "tasks_evolve q (fst (claimTask i a now q))"
  by (auto simp: claimTask_def putTask_def Let_def tasks_evolve_same evolves_steps
      intro!: tasks_evolve_put split: option.splits)

lemma submitProof_evolve: "tasks_evolve q (fst (submitProof i a p now q))"
  by (auto simp: submitProof_def putTask_def Let_def tasks_evolve_same evolves_steps
      intro!: tasks_evolve_put split: option.splits)

lemma settleTask_evolve: "tasks_evolve q (fst (settleTask i now e now2 q))"
  by (auto simp: settleTask_def putTask_def Let_def tasks_evolve_same evolves_steps
      intro!: tasks_evolve_put split: option.splits)

lemma disputeTask_evolve: "tasks_evolve q (fst (disputeTask i r q))"
  by (auto simp: disputeTask_def putTask_def Let_def tasks_evolve_same evolves_steps
      intro!: tasks_evolve_put split: option.splits)

lemma expireStale_evolve: "tasks_evolve q (fst (expireStale now q))"
  by (auto simp: tasks_evolve_def expireStale_get isStale_def evolves_steps split: option.splits)

lemma createTask_evolve:
  assumes "validCreate b" "\<not> jsm_has (tasks q) uuid"
  shows "tasks_evolve q (fst (createTask b ref uuid now q))"
proof -
  have "jsm_get (tasks q) uuid = None" using assms(2) by (simp add: jsm_has_iff)
  moreover have "0 \<le> snd (computeIntentFee a f)" for a f by (simp add: computeIntentFee_def Let_def)
  ultimately show ?thesis using assms(1)
    by (auto simp: tasks_evolve_def createTask_def jsm_get_set task_terms_def validCreate_def
        case_prod_beta Let_def split: option.splits)
qed

lemma handleBody_evolve: "fresh_op (Http m p req) q \<Longrightarrow> tasks_evolve q (fst (handleBody req q))"
  by (cases req) (auto simp: conflictOr_def claimTask_evolve submitProof_evolve settleTask_evolve
      disputeTask_evolve createTask_evolve case_prod_beta Let_def registerAgent_def heartbeat_def
      split: option.splits intro: tasks_evolve_same)

lemma robot_exec_evolve: "tasks_evolve q (robot_exec opn q)"
proof (cases "fresh_op opn q")
  case True
  then show ?thesis
    by (cases opn) (auto simp: robot_exec_def handle_def handleBody_evolve markFunded_evolve
        expireStale_evolve markSwept_def intro: tasks_evolve_same)
qed (simp add: robot_exec_def tasks_evolve_same)

section \<open>Escrow and earnings\<close>

definition task_ok :: "string \<Rightarrow> RobotTask \<Rightarrow> bool" where
  "task_ok k t = (rt_taskId t = k \<and> rt_escrowSats t = rt_rewardSats t + rt_coordinatorFeeSats t \<and>
     0 \<le> rt_rewardSats t \<and> 0 \<le> rt_coordinatorFeeSats t \<and>
     (rt_claimedBy t = None \<longleftrightarrow> rt_status t \<in> {Pending_funding, Funded}))"

definition earned :: "RobotQueue \<Rightarrow> (string \<times> string \<times> int) list" where
  "earned q = map (\<lambda>e. (re_taskId e, re_agentId e, re_earnedSats e)) (earnings q)"

definition earnings_ok :: "RobotQueue \<Rightarrow> bool" where
  "earnings_ok q = (distinct (map fst (earned q)) \<and>
     (\<forall>(i, a, n) \<in> set (earned q). \<exists>t. jsm_get (tasks q) i = Some t \<and> rt_status t = Settled \<and>
        rt_claimedBy t = Some a \<and> rt_rewardSats t = n) \<and>
     (\<forall>i t. jsm_get (tasks q) i = Some t \<longrightarrow> rt_status t = Settled \<longrightarrow> i \<in> fst ` set (earned q)))"

definition robot_inv :: "RobotQueue \<Rightarrow> bool" where
  "robot_inv q = (jsm_wf (tasks q) \<and> jsm_wf (agents q) \<and>
     0 \<le> coordinatorFeeBps (config q) \<and> coordinatorFeeBps (config q) \<le> 10000 \<and>
     (\<forall>k t. jsm_get (tasks q) k = Some t \<longrightarrow> task_ok k t) \<and> earnings_ok q)"

lemma task_ok_evolves: "task_ok k t \<Longrightarrow> evolves t t' \<Longrightarrow> task_ok k t'"
  by (cases "rt_status t") (auto simp: evolves_def task_ok_def task_terms_def)

lemma tasks_ok_evolve:
  assumes "tasks_evolve q q'" "0 \<le> coordinatorFeeBps (config q)" "coordinatorFeeBps (config q) \<le> 10000"
    and "\<forall>k t. jsm_get (tasks q) k = Some t \<longrightarrow> task_ok k t" "jsm_get (tasks q') k = Some t'"
  shows "task_ok k t'"
proof (cases "jsm_get (tasks q) k")
  case None
  then obtain amount where t': "rt_status t' = Pending_funding" "rt_claimedBy t' = None" "rt_taskId t' = k"
    "0 < amount" "amount \<le> 100000000"
    "task_terms t' = (k, amount, snd (computeIntentFee amount (coordinatorFeeBps (config q))),
       fst (computeIntentFee amount (coordinatorFeeBps (config q))), coordinatorFeeBps (config q), rt_resourceRequirements t')"
    using assms(1,5) unfolding tasks_evolve_def by (auto dest!: spec [of _ k])
  then show ?thesis using computeIntentFee_exact [of amount, OF _ t'(5) assms(2,3)]
    by (auto simp: task_ok_def task_terms_def)
next
  case (Some t)
  then obtain t'' where "jsm_get (tasks q') k = Some t''" "evolves t t''"
    using assms(1) unfolding tasks_evolve_def by (auto dest!: spec [of _ k])
  with assms(5) have "evolves t t'" by simp
  with assms(4) Some show ?thesis by (blast intro: task_ok_evolves)
qed

text \<open>Only \<open>settleTask\<close> creates an earnings entry or a settled task.\<close>

definition no_settlement :: "RobotQueue \<Rightarrow> RobotQueue \<Rightarrow> bool" where
  "no_settlement q q' = (earned q' = earned q \<and>
     (\<forall>k t. jsm_get (tasks q') k = Some t \<longrightarrow> rt_status t = Settled \<longrightarrow> jsm_get (tasks q) k = Some t))"

lemma no_settlement_simps:
  "no_settlement q q"
  "no_settlement q (fst (markFunded i q))" "no_settlement q (fst (claimTask i a now q))"
  "no_settlement q (fst (submitProof i a p now q))" "no_settlement q (fst (disputeTask i r q))"
  "no_settlement q (markSwept a txid q)"
  "no_settlement q (fst (createTask b ref uuid now q))" "no_settlement q (fst (registerAgent a addr caps kind now q))"
  "no_settlement q (heartbeat a now q)"
  by (auto simp: no_settlement_def earned_def markFunded_def claimTask_def submitProof_def disputeTask_def
      markSwept_def createTask_def registerAgent_def heartbeat_def putTask_def
      Let_def case_prod_beta jsm_get_set comp_def split: option.splits if_splits)

lemma no_settlement_expire: "no_settlement q (fst (expireStale now q))"
  by (auto simp: no_settlement_def earned_def expireStale_get expireStale_eq(4) split: if_splits)

lemma settleTask_cases:
  obtains (fail) e where "settleTask i now ei now2 q = (q, Inl e)"
  | (ok) t where "jsm_get (tasks q) i = Some t" "rt_status t = Proof_submitted"
      "tasks (fst (settleTask i now ei now2 q)) = jsm_set i (t\<lparr> rt_status := Settled, rt_settledAtMs := Some now \<rparr>) (tasks q)"
      "earned (fst (settleTask i now ei now2 q)) = earned q @ [(rt_taskId t, claimant t, rt_rewardSats t)]"
proof (cases "\<exists>t. jsm_get (tasks q) i = Some t \<and> rt_status t = Proof_submitted")
  case True
  then obtain t where "jsm_get (tasks q) i = Some t" "rt_status t = Proof_submitted" by blast
  then show ?thesis by (intro ok [of t]) (simp_all add: settleTask_def Let_def putTask_def earned_def claimant_def)
next
  case False
  then show ?thesis by (cases "jsm_get (tasks q) i") (auto simp: settleTask_def intro: fail)
qed

lemma earnings_ok_no_settlement:
  assumes "earnings_ok q" "no_settlement q q'" "tasks_evolve q q'"
  shows "earnings_ok q'"
proof -
  have keep: "jsm_get (tasks q') i = Some t" if "jsm_get (tasks q) i = Some t" "rt_status t = Settled" for i t
  proof -
    from assms(3) that(1) obtain t' where "jsm_get (tasks q') i = Some t'" "evolves t t'"
      unfolding tasks_evolve_def by (auto dest!: spec [of _ i])
    with that(2) show ?thesis by (simp add: evolves_def)
  qed
  have e: "earned q' = earned q" using assms(2) by (simp add: no_settlement_def)
  show ?thesis unfolding earnings_ok_def e
  proof (intro conjI allI impI ballI)
    fix x assume "x \<in> set (earned q)"
    with assms(1) keep show "case x of (i, a, n) \<Rightarrow> \<exists>t. jsm_get (tasks q') i = Some t \<and> rt_status t = Settled \<and>
        rt_claimedBy t = Some a \<and> rt_rewardSats t = n"
      by (fastforce simp: earnings_ok_def)
  next
    fix i t assume "jsm_get (tasks q') i = Some t" "rt_status t = Settled"
    with assms(1,2) show "i \<in> fst ` set (earned q)" by (auto simp: earnings_ok_def no_settlement_def)
  qed (use assms(1) in \<open>simp add: earnings_ok_def\<close>)
qed

lemma earnings_ok_settle:
  assumes "earnings_ok q" "\<forall>k t. jsm_get (tasks q) k = Some t \<longrightarrow> task_ok k t"
  shows "earnings_ok (fst (settleTask i now ei now2 q))"
proof (cases rule: settleTask_cases [of i now ei now2 q])
  case (fail e)
  with assms show ?thesis by simp
next
  case (ok t)
  have "task_ok i t" using assms(2) ok(1) by blast
  then have t: "rt_taskId t = i" "rt_claimedBy t = Some (claimant t)"
    using ok(2) by (auto simp: task_ok_def claimant_def)
  have rev: "\<exists>t. jsm_get (tasks q) j = Some t \<and> rt_status t = Settled \<and> rt_claimedBy t = Some a \<and> rt_rewardSats t = n"
    if "(j, a, n) \<in> set (earned q)" for j a n
  proof -
    have "\<forall>x \<in> set (earned q). case x of (i, a, n) \<Rightarrow> \<exists>t. jsm_get (tasks q) i = Some t \<and> rt_status t = Settled \<and>
        rt_claimedBy t = Some a \<and> rt_rewardSats t = n" using assms(1) by (simp add: earnings_ok_def)
    from bspec [OF this that] show ?thesis by simp
  qed
  have ni: "i \<noteq> fst x" if "x \<in> set (earned q)" for x
  proof
    assume "i = fst x"
    with rev [of "fst x" "fst (snd x)" "snd (snd x)"] that ok(1) have "rt_status t = Settled" by simp
    with ok(2) show False by simp
  qed
  let ?q = "fst (settleTask i now ei now2 q)"
  have get: "jsm_get (tasks ?q) j = (if j = i then Some (t\<lparr> rt_status := Settled, rt_settledAtMs := Some now \<rparr>) else jsm_get (tasks q) j)" for j
    by (simp add: ok(3) jsm_get_set)
  have e: "set (earned ?q) = insert (i, claimant t, rt_rewardSats t) (set (earned q))" using ok(4) t(1) by simp
  show ?thesis unfolding earnings_ok_def
  proof (intro conjI allI impI ballI)
    have "i \<notin> fst ` set (earned q)" using ni by blast
    then show "distinct (map fst (earned ?q))" using assms(1) by (simp add: ok(4) t(1) earnings_ok_def)
  next
    fix x assume "x \<in> set (earned ?q)"
    then consider "x = (i, claimant t, rt_rewardSats t)" | "x \<in> set (earned q)" using e by blast
    then show "case x of (j, a, n) \<Rightarrow> \<exists>t. jsm_get (tasks ?q) j = Some t \<and> rt_status t = Settled \<and>
        rt_claimedBy t = Some a \<and> rt_rewardSats t = n"
    proof cases
      case 2
      obtain j a n where x: "x = (j, a, n)" by (cases x)
      with 2 ni have "j \<noteq> i" by force
      with rev [of j a n] 2 x show ?thesis by (simp add: get)
    qed (simp add: get t(2))
  next
    fix j t' assume "jsm_get (tasks ?q) j = Some t'" "rt_status t' = Settled"
    then show "j \<in> fst ` set (earned ?q)"
      using assms(1) unfolding e by (cases "j = i") (auto simp: get earnings_ok_def)
  qed
qed

lemma wf_steps:
  assumes "jsm_wf (tasks q)" "jsm_wf (agents q)"
  shows "jsm_wf (tasks (robot_step opn q)) \<and> jsm_wf (agents (robot_step opn q)) \<and> config (robot_step opn q) = config q"
proof (cases opn)
  case (Http m p req)
  have "jsm_wf (tasks (fst (handleBody req q))) \<and> jsm_wf (agents (fst (handleBody req q))) \<and> config (fst (handleBody req q)) = config q"
    using assms by (cases req) (auto simp: conflictOr_def claimTask_def submitProof_def settleTask_def disputeTask_def
        createTask_def registerAgent_def heartbeat_def putTask_def case_prod_beta Let_def split: option.splits)
  with Http assms show ?thesis by (simp add: handle_def)
next
  case (ExpireStale now)
  have "jsm_wf (tasks (fst (expireStale now q)))" using assms(1)
    by (simp add: expireStale_eq jsm_wf_def comp_def case_prod_beta)
  with ExpireStale assms show ?thesis by (simp add: expireStale_eq)
qed (use assms in \<open>auto simp: markFunded_def markSwept_def putTask_def Let_def split: option.splits\<close>)

lemma handleBody_earnings:
  assumes "earnings_ok q" "\<forall>k t. jsm_get (tasks q) k = Some t \<longrightarrow> task_ok k t" "tasks_evolve q (fst (handleBody req q))"
  shows "earnings_ok (fst (handleBody req q))"
proof (cases "\<exists>i now ei now2. req = PostSettle i now ei now2")
  case True
  then show ?thesis using assms by (auto simp: conflictOr_def earnings_ok_settle)
next
  case False
  then have "no_settlement q (fst (handleBody req q))"
    by (cases req) (auto simp: conflictOr_def no_settlement_simps case_prod_beta Let_def split: option.splits)
  then show ?thesis by (rule earnings_ok_no_settlement [OF assms(1) _ assms(3)])
qed

lemma robot_exec_inv [op_inv]:
  assumes "robot_inv q"
  shows "robot_inv (robot_exec opn q)"
proof (cases "fresh_op opn q")
  case True
  have ev: "tasks_evolve q (robot_exec opn q)" by (rule robot_exec_evolve)
  have tk: "\<forall>k t. jsm_get (tasks q) k = Some t \<longrightarrow> task_ok k t" and eo: "earnings_ok q"
    using assms by (simp_all add: robot_inv_def)
  have "earnings_ok (robot_exec opn q)"
  proof (cases opn)
    case (Http m p req)
    with True ev show ?thesis
      by (auto simp: robot_exec_def handle_def eo intro!: handleBody_earnings [OF eo tk])
  qed (use True ev in \<open>auto simp: robot_exec_def no_settlement_simps no_settlement_expire
        intro!: earnings_ok_no_settlement [OF eo]\<close>)
  moreover have "jsm_wf (tasks (robot_exec opn q)) \<and> jsm_wf (agents (robot_exec opn q)) \<and> config (robot_exec opn q) = config q"
    using wf_steps [of q opn] assms True by (simp add: robot_exec_def robot_inv_def)
  moreover have "task_ok k t" if "jsm_get (tasks (robot_exec opn q)) k = Some t" for k t
    using assms that by (intro tasks_ok_evolve [OF ev]) (auto simp: robot_inv_def)
  ultimately show ?thesis using assms by (simp add: robot_inv_def)
qed (simp add: robot_exec_def assms)

interpretation robot: op_machine robot_exec robot_inv
  by unfold_locales (rule robot_exec_inv)

lemma newRobotQueue_inv:
  "0 \<le> coordinatorFeeBps cfg \<Longrightarrow> coordinatorFeeBps cfg \<le> 10000 \<Longrightarrow> robot_inv (newRobotQueue cfg)"
  by (simp add: robot_inv_def newRobotQueue_def earnings_ok_def earned_def)

lemma run_evolves:
  "jsm_get (tasks q) k = Some t \<Longrightarrow> \<exists>t'. jsm_get (tasks (fold robot_exec ops q)) k = Some t' \<and>
     task_step\<^sup>*\<^sup>* (rt_status t) (rt_status t') \<and> task_terms t' = task_terms t"
proof (induction ops arbitrary: q t)
  case (Cons opn ops)
  from robot_exec_evolve [of q opn] Cons.prems obtain t1
    where t1: "jsm_get (tasks (robot_exec opn q)) k = Some t1" "evolves t t1"
    unfolding tasks_evolve_def by (auto dest!: spec [of _ k])
  from Cons.IH [OF t1(1)] obtain t' where t': "jsm_get (tasks (fold robot_exec ops (robot_exec opn q))) k = Some t'"
    "task_step\<^sup>*\<^sup>* (rt_status t1) (rt_status t')" "task_terms t' = task_terms t1" by blast
  have "task_step\<^sup>*\<^sup>* (rt_status t) (rt_status t1)" "task_terms t1 = task_terms t"
    using t1(2) by (auto simp: evolves_def)
  with t' show ?case by auto
qed simp

lemma terminal_stays: "task_step\<^sup>*\<^sup>* s s' \<Longrightarrow> s \<in> {Settled, Disputed, Expired} \<Longrightarrow> s' = s"
  by (induction rule: rtranclp_induct) auto

definition available :: "string \<Rightarrow> RobotQueue \<Rightarrow> RobotTask \<Rightarrow> bool" where
  "available a q t = (\<exists>agent. jsm_get (agents q) a = Some agent \<and> rt_status t = Funded \<and>
     list_all (\<lambda>r. r \<in> set (ra_capabilities agent)) (rt_resourceRequirements t))"

lemma listAvailable_set: "set (listAvailableTasks a q) = {t \<in> set (jsm_values (tasks q)). available a q t}"
  by (cases "jsm_get (agents q) a") (auto simp: listAvailableTasks_def available_def)

lemma task_value_iff:
  assumes "robot_inv q"
  shows "t \<in> set (jsm_values (tasks q)) \<and> rt_taskId t = i \<longleftrightarrow> jsm_get (tasks q) i = Some t"
proof
  assume t: "t \<in> set (jsm_values (tasks q)) \<and> rt_taskId t = i"
  then obtain k where "(k, t) \<in> set (tasks q)" by (auto simp: jsm_values_def)
  then have "jsm_get (tasks q) k = Some t" using assms by (simp add: jsm_get_iff robot_inv_def)
  moreover from this have "rt_taskId t = k" using assms by (simp add: robot_inv_def task_ok_def)
  ultimately show "jsm_get (tasks q) i = Some t" using t by simp
next
  assume g: "jsm_get (tasks q) i = Some t"
  then have "rt_taskId t = i" using assms by (simp add: robot_inv_def task_ok_def)
  with jsm_get_in_set [OF g] show "t \<in> set (jsm_values (tasks q)) \<and> rt_taskId t = i"
    by (auto simp: jsm_values_def intro: rev_image_eqI)
qed

lemma listed_iff:
  assumes "robot_inv q"
  shows "i \<in> rt_taskId ` set (listAvailableTasks a q) \<longleftrightarrow>
    (case jsm_get (tasks q) i of None \<Rightarrow> False | Some t \<Rightarrow> available a q t)"
proof -
  have "i \<in> rt_taskId ` set (listAvailableTasks a q) \<longleftrightarrow> (\<exists>t. jsm_get (tasks q) i = Some t \<and> available a q t)"
    using task_value_iff [OF assms, symmetric] by (auto simp: listAvailable_set)
  then show ?thesis by (simp split: option.splits)
qed

section \<open>Properties\<close>

text \<open>
  C12: over every history of HTTP requests and internal operations, with a fee rate between 0 and 10000
  basis points: each task's escrow is exactly its reward plus the coordinator's fee, a task has a
  claimant exactly from its claim on, and the earnings ledger is in one-to-one correspondence with
  the settled tasks, each entry crediting the claimant with the task's reward, once.
\<close>

theorem robot_ledger_invariant:
  assumes "0 \<le> coordinatorFeeBps cfg" "coordinatorFeeBps cfg \<le> 10000"
  shows "let q = fold robot_exec ops (newRobotQueue cfg) in
    (\<forall>k t. jsm_get (tasks q) k = Some t \<longrightarrow> rt_escrowSats t = rt_rewardSats t + rt_coordinatorFeeSats t \<and>
       (rt_claimedBy t = None \<longleftrightarrow> rt_status t \<in> {Pending_funding, Funded})) \<and>
    distinct (map re_taskId (earnings q)) \<and>
    (\<forall>e \<in> set (earnings q). \<exists>t. jsm_get (tasks q) (re_taskId e) = Some t \<and> rt_status t = Settled \<and>
       rt_claimedBy t = Some (re_agentId e) \<and> rt_rewardSats t = re_earnedSats e) \<and>
    (\<forall>i t. jsm_get (tasks q) i = Some t \<and> rt_status t = Settled \<longrightarrow> i \<in> re_taskId ` set (earnings q))"
proof -
  let ?q = "fold robot_exec ops (newRobotQueue cfg)"
  have inv: "robot_inv ?q" by (rule robot.run_inv [OF newRobotQueue_inv [OF assms]])
  have e: "map fst (earned ?q) = map re_taskId (earnings ?q)" by (simp add: earned_def comp_def)
  have e2: "fst ` set (earned ?q) = re_taskId ` set (earnings ?q)" by (simp add: earned_def image_image)
  have eo: "earnings_ok ?q" using inv by (simp add: robot_inv_def)
  have "\<exists>t. jsm_get (tasks ?q) (re_taskId e) = Some t \<and> rt_status t = Settled \<and>
       rt_claimedBy t = Some (re_agentId e) \<and> rt_rewardSats t = re_earnedSats e" if "e \<in> set (earnings ?q)" for e
    using eo that by (auto simp: earnings_ok_def earned_def)
  moreover have "distinct (map re_taskId (earnings ?q))" using eo e by (simp add: earnings_ok_def)
  moreover have "i \<in> re_taskId ` set (earnings ?q)"
    if "jsm_get (tasks ?q) i = Some t" "rt_status t = Settled" for i t
    using eo that unfolding earnings_ok_def e2 by blast
  ultimately show ?thesis using inv by (auto simp: Let_def robot_inv_def task_ok_def)
qed

text \<open>
  C27: a task follows its life cycle only: through any history it stays in the table, its status moves along
  funding, claim, proof and settlement, dispute or expiry, its terms (amounts and requirements) never
  change, and a settled, disputed or expired task never changes status again.
\<close>

theorem robot_task_lifecycle:
  assumes "jsm_get (tasks q) k = Some t"
  shows "\<exists>t'. jsm_get (tasks (fold robot_exec ops q)) k = Some t' \<and>
    task_step\<^sup>*\<^sup>* (rt_status t) (rt_status t') \<and> task_terms t' = task_terms t \<and>
    (rt_status t \<in> {Settled, Disputed, Expired} \<longrightarrow> rt_status t' = rt_status t)"
  using run_evolves [OF assms, of ops] terminal_stays by blast

text \<open>
  An agent's claim succeeds exactly on the tasks listed as available to it (funded, with every required
  capability among its own), and a successful claim records the agent and the time.
\<close>

theorem claim_iff_available:
  assumes "robot_inv q"
  shows "case snd (claimTask i a now q) of
     Inl _ \<Rightarrow> i \<notin> rt_taskId ` set (listAvailableTasks a q) \<and> fst (claimTask i a now q) = q
   | Inr t \<Rightarrow> i \<in> rt_taskId ` set (listAvailableTasks a q) \<and>
       rt_status t = Claimed \<and> rt_claimedBy t = Some a \<and> rt_claimedAtMs t = Some now \<and>
       jsm_get (tasks (fst (claimTask i a now q))) i = Some t"
proof (cases "jsm_get (tasks q) i")
  case None
  then have "i \<notin> rt_taskId ` set (listAvailableTasks a q)" using listed_iff [OF assms] by simp
  with None show ?thesis by (simp add: claimTask_def)
next
  case (Some t)
  then have "i \<in> rt_taskId ` set (listAvailableTasks a q) \<longleftrightarrow> available a q t" using listed_iff [OF assms] by simp
  with Some show ?thesis
    by (auto simp: claimTask_def available_def putTask_def Let_def jsm_get_set list_ex_iff list_all_iff
        split: option.splits)
qed

text \<open>The accrued total of an agent.\<close>

definition accruedSats :: "string \<Rightarrow> RobotQueue \<Rightarrow> int" where
  "accruedSats a q = sum_list (map re_earnedSats (filter (\<lambda>e. re_agentId e = a \<and> re_status e = Accrued) (earnings q)))"

lemma sumByAgent_snoc:
  "sumByAgent (es @ [e]) = (if re_status e \<noteq> Accrued then sumByAgent es
     else jsm_set (re_agentId e) (nullish (jsm_get (sumByAgent es) (re_agentId e)) 0 + re_earnedSats e) (sumByAgent es))"
  by (simp add: sumByAgent_def)

lemma sumByAgent_get:
  "jsm_get (sumByAgent es) a =
     (if \<exists>e \<in> set es. re_agentId e = a \<and> re_status e = Accrued
      then Some (sum_list (map re_earnedSats (filter (\<lambda>e. re_agentId e = a \<and> re_status e = Accrued) es)))
      else None)"
proof (induction es rule: rev_induct)
  case (snoc e es)
  have "sum_list (map re_earnedSats (filter (\<lambda>e. re_agentId e = a \<and> re_status e = Accrued) es)) = 0"
    if "\<not> (\<exists>e \<in> set es. re_agentId e = a \<and> re_status e = Accrued)"
    using that by (simp add: filter_False)
  with snoc show ?case by (simp add: sumByAgent_snoc jsm_get_set) auto
qed (simp add: sumByAgent_def)

lemma sumByAgent_wf: "jsm_wf (sumByAgent es)"
  by (induction es rule: rev_induct) (simp_all add: sumByAgent_snoc, simp add: sumByAgent_def)

lemma set_map_filter: "p \<in> set (List.map_filter f xs) \<longleftrightarrow> (\<exists>x \<in> set xs. f x = Some p)"
  by (induction xs) (auto simp: List.map_filter_simps split: option.splits)

lemma payout_in_iff:
  "p \<in> set (pendingSweepPayouts q) \<longleftrightarrow>
     (\<exists>k total ag. jsm_get (sumByAgent (earnings q)) k = Some total \<and> minSweepSats (config q) \<le> total \<and>
        jsm_get (agents q) k = Some ag \<and>
        p = \<lparr> sp_agentId = k, sp_address = ra_payoutAddress ag, sp_amountSats = total \<rparr>)"
proof -
  have "(if total < m then None else case g of None \<Rightarrow> None | Some ag \<Rightarrow> Some (f ag)) = Some p \<longleftrightarrow>
      m \<le> total \<and> (\<exists>ag. g = Some ag \<and> p = f ag)" for total m :: int and g :: "RobotAgent option" and f
    by (cases g) auto
  then show ?thesis
    unfolding pendingSweepPayouts_def set_map_filter jsm_get_iff [OF sumByAgent_wf] Bex_def split_paired_Ex
    by (simp only: prod.case) blast
qed

lemma markSwept_none:
  assumes "e \<in> set (earnings (markSwept a txid q))" "re_agentId e = a"
  shows "re_status e \<noteq> Accrued"
proof -
  from assms(1) obtain e0 where e: "e = (if re_agentId e0 = a \<and> re_status e0 = Accrued
      then e0\<lparr> re_status := Swept, re_sweepTxId := Some txid \<rparr> else e0)"
    unfolding markSwept_def by force
  show ?thesis
  proof (cases "re_agentId e0 = a \<and> re_status e0 = Accrued")
    case True
    with e show ?thesis by simp
  next
    case False
    with e assms(2) show ?thesis by simp
  qed
qed

text \<open>
  A pending payout pays a registered agent, at its own address, exactly the sum of its accrued earnings,
  and only when that reaches the sweep minimum; every registered agent whose accrued total reaches a
  positive minimum gets one; and once an agent is marked swept nothing is pending for it.
\<close>

theorem sweep_payouts_exact:
  "(\<forall>p \<in> set (pendingSweepPayouts q).
      sp_amountSats p = accruedSats (sp_agentId p) q \<and> minSweepSats (config q) \<le> sp_amountSats p \<and>
      map_option ra_payoutAddress (jsm_get (agents q) (sp_agentId p)) = Some (sp_address p)) \<and>
   (0 < minSweepSats (config q) \<longrightarrow> jsm_has (agents q) a \<longrightarrow> minSweepSats (config q) \<le> accruedSats a q \<longrightarrow>
      a \<in> sp_agentId ` set (pendingSweepPayouts q)) \<and>
   a \<notin> sp_agentId ` set (pendingSweepPayouts (markSwept a txid q))"
proof (intro conjI ballI impI)
  fix p assume "p \<in> set (pendingSweepPayouts q)"
  then obtain k total ag where p: "jsm_get (sumByAgent (earnings q)) k = Some total" "minSweepSats (config q) \<le> total"
    "jsm_get (agents q) k = Some ag" "p = \<lparr> sp_agentId = k, sp_address = ra_payoutAddress ag, sp_amountSats = total \<rparr>"
    unfolding payout_in_iff by blast
  have "total = accruedSats k q"
    using p(1) unfolding sumByAgent_get accruedSats_def by (simp split: if_split_asm)
  with p show "sp_amountSats p = accruedSats (sp_agentId p) q" "minSweepSats (config q) \<le> sp_amountSats p"
    "map_option ra_payoutAddress (jsm_get (agents q) (sp_agentId p)) = Some (sp_address p)" by simp_all
next
  assume min: "0 < minSweepSats (config q)" "minSweepSats (config q) \<le> accruedSats a q" and "jsm_has (agents q) a"
  then obtain ag where ag: "jsm_get (agents q) a = Some ag" by (auto simp: jsm_has_iff)
  have "\<exists>e \<in> set (earnings q). re_agentId e = a \<and> re_status e = Accrued"
  proof (rule ccontr)
    assume "\<not> ?thesis"
    then have "filter (\<lambda>e. re_agentId e = a \<and> re_status e = Accrued) (earnings q) = []" by (auto simp: filter_empty_conv)
    then have "accruedSats a q = 0" by (simp add: accruedSats_def)
    with min show False by simp
  qed
  then have g: "jsm_get (sumByAgent (earnings q)) a = Some (accruedSats a q)"
    unfolding sumByAgent_get accruedSats_def by (rule if_P)
  have "\<lparr> sp_agentId = a, sp_address = ra_payoutAddress ag, sp_amountSats = accruedSats a q \<rparr> \<in> set (pendingSweepPayouts q)"
    unfolding payout_in_iff using g ag min(2) by blast
  from imageI [OF this, of sp_agentId] show "a \<in> sp_agentId ` set (pendingSweepPayouts q)" by simp
next
  show "a \<notin> sp_agentId ` set (pendingSweepPayouts (markSwept a txid q))"
  proof
    assume "a \<in> sp_agentId ` set (pendingSweepPayouts (markSwept a txid q))"
    then obtain p where p: "p \<in> set (pendingSweepPayouts (markSwept a txid q))" "sp_agentId p = a" by blast
    from p(1) obtain k total where k: "jsm_get (sumByAgent (earnings (markSwept a txid q))) k = Some total" "sp_agentId p = k"
      unfolding payout_in_iff by auto
    have "jsm_get (sumByAgent (earnings (markSwept a txid q))) a = None"
      unfolding sumByAgent_get by (rule if_not_P) (use markSwept_none in blast)
    with k p(2) show False by simp
  qed
qed

definition is_http :: "robot_op \<Rightarrow> bool" where
  "is_http opn = (case opn of Http _ _ _ \<Rightarrow> True | _ \<Rightarrow> False)"

definition unfunded :: "RobotQueue \<Rightarrow> bool" where
  "unfunded q = ((\<forall>k t. jsm_get (tasks q) k = Some t \<longrightarrow> rt_status t = Pending_funding) \<and> earnings q = [])"

lemma unfunded_http:
  assumes "unfunded q" "is_http opn"
  shows "unfunded (robot_exec opn q)"
proof -
  from assms(2) obtain m p req where o: "opn = Http m p req" by (cases opn) (auto simp: is_http_def)
  have st: "rt_status t = Pending_funding" if "jsm_get (tasks q) k = Some t" for k t
    using assms(1) that by (simp add: unfunded_def)
  have "unfunded (fst (handleBody req q))"
  proof (cases req)
    case (PostTask b inv uuid now)
    with assms(1) show ?thesis
      by (auto simp: unfunded_def createTask_def case_prod_beta Let_def jsm_get_set split: option.splits)
  next
    case (PostClaim i a now)
    with assms(1) st show ?thesis by (auto simp: conflictOr_def claimTask_def split: option.splits)
  next
    case (PostProof i a pl now)
    with assms(1) st show ?thesis by (auto simp: conflictOr_def submitProof_def split: option.splits)
  next
    case (PostSettle i now ei now2)
    with assms(1) st show ?thesis by (auto simp: conflictOr_def settleTask_def split: option.splits)
  next
    case (PostDispute i r)
    with assms(1) st show ?thesis by (auto simp: conflictOr_def disputeTask_def split: option.splits)
  qed (use assms(1) in \<open>auto simp: unfunded_def registerAgent_def heartbeat_def Let_def\<close>)
  with assms(1) show ?thesis by (simp add: o robot_exec_def handle_def)
qed

lemma unfunded_run: "unfunded q \<Longrightarrow> list_all is_http ops \<Longrightarrow> unfunded (fold robot_exec ops q)"
  by (induction ops arbitrary: q) (simp_all add: unfunded_http)

text \<open>
  The HTTP routes never call \<open>markFunded\<close>. Over every history made of requests only, each task stays
  unfunded, every claim is refused with a conflict, and no agent ever earns anything.
\<close>

theorem http_only_never_funds:
  assumes "list_all is_http ops"
  shows "let q = fold robot_exec ops (newRobotQueue cfg) in
    (\<forall>k t. jsm_get (tasks q) k = Some t \<longrightarrow> rt_status t = Pending_funding) \<and> earnings q = [] \<and>
    (a \<noteq> [] \<longrightarrow> (\<exists>e. handle True portal (PostClaim i a now) q = (q, Conflict e)))"
proof -
  let ?q = "fold robot_exec ops (newRobotQueue cfg)"
  have "unfunded (newRobotQueue cfg)" by (simp add: unfunded_def newRobotQueue_def)
  then have u: "unfunded ?q" using assms by (rule unfunded_run)
  then have "\<exists>e. claimTask i a now ?q = (?q, Inl e)"
    by (cases "jsm_get (tasks ?q) i") (auto simp: claimTask_def unfunded_def)
  with u show ?thesis by (auto simp: Let_def handle_def conflictOr_def unfunded_def)
qed

section \<open>Witnesses\<close>

definition ex_config :: RobotQueueConfig where
  "ex_config = \<lparr> coordinatorFeeBps = 200, defaultTimeoutMs = 3600000, autoSettleDelayMs = 86400000,
     sweepIntervalMs = 86400000, minSweepSats = 10000 \<rparr>"

definition ex_input :: CreateTaskInput where
  "ex_input = \<lparr> ci_clientAccountId = ''acct'', ci_title = ''t'', ci_description = ''d'', ci_taskKind = Physical,
     ci_resourceRequirements = [''arm''], ci_amountSats = 50000, ci_timeoutMs = None, ci_proofSchema = None \<rparr>"

definition ex_history :: "robot_op list" where
  "ex_history = [Http True False (PostRegister ''r1'' ''bc1'' [''arm''] ''kuka'' 1),
     Http False True (PostTask ex_input (Some ''inv'') ''t1'' 2), MarkFunded ''t1'',
     Http True False (PostClaim ''t1'' ''r1'' 3), Http True False (PostProof ''t1'' (Some ''r1'') None 4),
     Http False True (PostSettle ''t1'' 5 ''e1'' 5)]"

definition ex_task :: RobotTask where
  "ex_task = \<lparr> rt_taskId = ''t1'', rt_clientAccountId = ''acct'', rt_title = ''t'', rt_description = ''d'',
     rt_taskKind = Physical, rt_resourceRequirements = [''arm''], rt_escrowSats = 50000, rt_rewardSats = 49000,
     rt_coordinatorFeeSats = 1000, rt_coordinatorFeeBps = 200, rt_status = Pending_funding,
     rt_timeoutMs = 3600000, rt_proofSchema = None, rt_invoiceRef = ''inv'', rt_claimedBy = None,
     rt_claimedAtMs = None, rt_proofPayload = None, rt_proofSubmittedAtMs = None, rt_disputeReason = None,
     rt_createdAtMs = 2, rt_settledAtMs = None \<rparr>"

definition ex_created :: RobotQueue where
  "ex_created = \<lparr> config = ex_config,
     agents = [(''r1'', \<lparr> ra_agentId = ''r1'', ra_payoutAddress = ''bc1'', ra_capabilities = [''arm''],
        ra_robotKind = ''kuka'', ra_lastSeenMs = 1, ra_successCount = 0, ra_failureCount = 0 \<rparr>)],
     tasks = [(''t1'', ex_task)], earnings = [] \<rparr>"

lemma ex_create: "fold robot_exec (take 2 ex_history) (newRobotQueue ex_config) = ex_created"
proof -
  have fee: "computeIntentFee 50000 200 = (1000, 49000)" using computeIntentFee_exact(1) [of 50000 200] by simp
  show ?thesis
    by (simp add: ex_history_def robot_exec_def handle_def registerAgent_def createTask_def newRobotQueue_def
        ex_config_def ex_input_def validCreate_def fee ex_created_def ex_task_def jsm_defs Let_def)
qed

definition ex_funded :: RobotQueue where
  "ex_funded = robot_exec (MarkFunded ''t1'') ex_created"

definition ex_settled :: RobotQueue where
  "ex_settled = fold robot_exec (drop 2 ex_history) ex_created"

lemma ex_settled_run: "ex_settled = fold robot_exec ex_history (newRobotQueue ex_config)"
proof -
  have "fold robot_exec ex_history (newRobotQueue ex_config) =
      fold robot_exec (drop 2 ex_history) (fold robot_exec (take 2 ex_history) (newRobotQueue ex_config))"
    by (metis append_take_drop_id comp_apply fold_append)
  then show ?thesis by (simp only: ex_settled_def ex_create)
qed

lemma ex_inv: "robot_inv ex_funded"
proof -
  have "robot_inv ex_created"
    unfolding ex_create [symmetric] by (rule robot.run_inv) (rule newRobotQueue_inv; simp add: ex_config_def)
  then show ?thesis unfolding ex_funded_def by (rule robot_exec_inv)
qed

lemma ex_settled_eval:
  "map_option (\<lambda>t. (rt_status t, rt_rewardSats t)) (jsm_get (tasks ex_settled) ''t1'') = Some (Settled, 49000)"
  "minSweepSats (config ex_settled) = 10000" "jsm_has (agents ex_settled) ''r1''" "accruedSats ''r1'' ex_settled = 49000"
  by code_simp+

theorem robot_ledger_invariant_witness:
  "\<exists>t. jsm_get (tasks ex_settled) ''t1'' = Some t \<and> rt_status t = Settled \<and> rt_rewardSats t = 49000 \<and>
     ''t1'' \<in> re_taskId ` set (earnings ex_settled)"
proof -
  from ex_settled_eval(1) obtain t where "jsm_get (tasks ex_settled) ''t1'' = Some t" "rt_status t = Settled"
    "rt_rewardSats t = 49000" by auto
  with robot_ledger_invariant [of ex_config ex_history] show ?thesis
    unfolding ex_settled_run [symmetric] Let_def by (auto simp: ex_config_def)
qed

theorem robot_task_lifecycle_witness:
  "\<exists>t'. jsm_get (tasks (fold robot_exec [Http False True (PostDispute ''t1'' ''late'')] ex_settled)) ''t1'' = Some t' \<and>
     rt_status t' = Settled"
proof -
  from ex_settled_eval(1) obtain t where "jsm_get (tasks ex_settled) ''t1'' = Some t" "rt_status t = Settled" by auto
  with robot_task_lifecycle [of ex_settled "''t1''" t "[Http False True (PostDispute ''t1'' ''late'')]"] show ?thesis by auto
qed

theorem claim_iff_available_witness: "''t1'' \<in> rt_taskId ` set (listAvailableTasks ''r1'' ex_funded)"
proof -
  have "case snd (claimTask ''t1'' ''r1'' 3 ex_funded) of Inl _ \<Rightarrow> False | Inr _ \<Rightarrow> True" by code_simp
  with claim_iff_available [OF ex_inv, of "''t1''" "''r1''" 3] show ?thesis by (auto split: sum.splits)
qed

theorem sweep_payouts_exact_witness: "''r1'' \<in> sp_agentId ` set (pendingSweepPayouts ex_settled)"
  using sweep_payouts_exact [of ex_settled "''r1''" "''tx''"] ex_settled_eval by simp

theorem http_only_never_funds_witness:
  "\<exists>e. handle True False (PostClaim ''t1'' ''r1'' 3) ex_created = (ex_created, Conflict e)"
proof -
  have "list_all is_http (take 2 ex_history)" by code_simp
  from http_only_never_funds [OF this, of ex_config "''r1''" False "''t1''" 3] show ?thesis
    unfolding ex_create Let_def by simp
qed

end
