(* ===== verification/Ledger.thy ===== *)
theory Ledger
  imports JsString
begin

text \<open>
  The hash-chained ledgers: the ordering chain of queue events (\<open>src/src/ledger/record.ts\<close>,
  \<open>chain.ts\<close>, \<open>verify.ts\<close>), the quorum records (\<open>quorum.ts\<close>), the audit verifier
  (\<open>src/src/audit/ledger-verifier.ts\<close>), and the blacklist events with their audit
  (\<open>src/src/security/blacklist.ts\<close>, \<open>src/src/bootstrap/verify-blacklist-audit.ts\<close>).
  SHA-256 and Ed25519 are parameters, the fields of a record \<open>crypto\<close>. What the code needs of
  them appears as named hypotheses: \<open>key_pair\<close> (a signature made with a private key verifies under
  its public key) and the absence of hash collisions among the texts at hand.
\<close>

section \<open>Hashing and signing\<close>

record crypto =
  sha256_hex :: "string \<Rightarrow> string"
  ed_sign :: "string \<Rightarrow> string \<Rightarrow> string"
  ed_verify :: "string \<Rightarrow> string \<Rightarrow> string \<Rightarrow> bool option"

text \<open>\<open>ed_verify\<close> is \<open>None\<close> where \<open>crypto.verify\<close> throws (a malformed key).\<close>

definition signPayload :: "crypto \<Rightarrow> string \<Rightarrow> string \<Rightarrow> string" where
  "signPayload cr payload privateKeyPem = ed_sign cr payload privateKeyPem"

definition verifyPayload :: "crypto \<Rightarrow> string \<Rightarrow> string \<Rightarrow> string \<Rightarrow> bool" where
  "verifyPayload cr payload signature publicKeyPem =
     (case ed_verify cr payload signature publicKeyPem of None \<Rightarrow> False | Some b \<Rightarrow> b)"

definition key_pair :: "crypto \<Rightarrow> string \<Rightarrow> string \<Rightarrow> bool" where
  "key_pair cr priv pub = (\<forall>p. verifyPayload cr p (signPayload cr p priv) pub)"

section \<open>Chains in general\<close>

text \<open>
  A list of records is linked from \<open>p\<close> when every record carries the digest of its content and names
  the digest of its predecessor, the first one naming \<open>p\<close>.
\<close>

fun linked :: "('r \<Rightarrow> string) \<Rightarrow> ('r \<Rightarrow> string) \<Rightarrow> ('r \<Rightarrow> string) \<Rightarrow> string \<Rightarrow> 'r list \<Rightarrow> bool" where
  "linked digest hash_of prev_of p [] = True"
| "linked digest hash_of prev_of p (r # rs) =
     (prev_of r = p \<and> hash_of r = digest r \<and> linked digest hash_of prev_of (hash_of r) rs)"

definition chain_head :: "('r \<Rightarrow> string) \<Rightarrow> string \<Rightarrow> 'r list \<Rightarrow> string" where
  "chain_head hash_of p rs = (if rs = [] then p else hash_of (last rs))"

lemma chain_head_simps [simp]:
  "chain_head h p [] = p" "chain_head h p (rs @ [r]) = h r"
  "chain_head h p (r # rs) = chain_head h (h r) rs"
  by (simp_all add: chain_head_def)

lemma linked_snoc:
  "linked d h pv p (rs @ [r]) \<longleftrightarrow> linked d h pv p rs \<and> pv r = chain_head h p rs \<and> h r = d r"
  by (induction rs arbitrary: p) auto

locale hash_chain =
  fixes digest :: "'r \<Rightarrow> string" and hash_of :: "'r \<Rightarrow> string" and prev_of :: "'r \<Rightarrow> string"
    and content :: "'r \<Rightarrow> 'c"
  assumes content_prev: "content r = content r' \<Longrightarrow> prev_of r = prev_of r'"
begin

text \<open>Equal heads mean equal histories, when no two contents at hand collide.\<close>

lemma same_head_same_history:
  assumes "linked digest hash_of prev_of g rs" "linked digest hash_of prev_of g rs'"
    and "chain_head hash_of g rs = chain_head hash_of g rs'"
    and "\<forall>r \<in> set rs \<union> set rs'. digest r \<noteq> g"
    and "\<forall>r \<in> set rs \<union> set rs'. \<forall>r' \<in> set rs \<union> set rs'. digest r = digest r' \<longrightarrow> content r = content r'"
  shows "map content rs = map content rs'"
  using assms
proof (induction rs arbitrary: rs' rule: rev_induct)
  case Nil
  show ?case
  proof (cases rs' rule: rev_cases)
    case (snoc ys y)
    with Nil(2) have "hash_of y = digest y" by (simp add: linked_snoc)
    moreover have "digest y \<noteq> g" using Nil(4) snoc by simp
    ultimately show ?thesis using Nil(3) snoc by simp
  qed simp
next
  case (snoc r rs)
  have r: "linked digest hash_of prev_of g rs" "prev_of r = chain_head hash_of g rs" "hash_of r = digest r"
    using snoc.prems(1) by (simp_all add: linked_snoc)
  show ?case
  proof (cases rs' rule: rev_cases)
    case Nil
    have "digest r \<noteq> g" using snoc.prems(4) by simp
    with snoc.prems(3) Nil r(3) show ?thesis by simp
  next
    case ys: (snoc ys y)
    have y: "linked digest hash_of prev_of g ys" "prev_of y = chain_head hash_of g ys" "hash_of y = digest y"
      using snoc.prems(2) ys by (simp_all add: linked_snoc)
    have "digest r = digest y" using snoc.prems(3) ys r(3) y(3) by simp
    moreover have "r \<in> set (rs @ [r]) \<union> set rs'" "y \<in> set (rs @ [r]) \<union> set rs'" using ys by simp_all
    ultimately have c: "content r = content y" using snoc.prems(5) by blast
    from content_prev [OF this] have h: "chain_head hash_of g rs = chain_head hash_of g ys" using r(2) y(2) by simp
    have sub: "set rs \<union> set ys \<subseteq> set (rs @ [r]) \<union> set rs'" using ys by auto
    have "map content rs = map content ys"
      by (rule snoc.IH [OF r(1) y(1) h]) (use sub snoc.prems(4,5) in blast)+
    with c ys show ?thesis by simp
  qed
qed

end

section \<open>Queue events\<close>

datatype QueueEventType =
    Task_enqueue | Task_claim | Task_complete | Task_requeue | Node_approval | Node_validation
  | Earnings_accrual | Stats_checkpoint_proposal | Stats_checkpoint_signature | Stats_checkpoint_commit

fun event_name :: "QueueEventType \<Rightarrow> string" where
  "event_name Task_enqueue = ''task_enqueue''"
| "event_name Task_claim = ''task_claim''"
| "event_name Task_complete = ''task_complete''"
| "event_name Task_requeue = ''task_requeue''"
| "event_name Node_approval = ''node_approval''"
| "event_name Node_validation = ''node_validation''"
| "event_name Earnings_accrual = ''earnings_accrual''"
| "event_name Stats_checkpoint_proposal = ''stats_checkpoint_proposal''"
| "event_name Stats_checkpoint_signature = ''stats_checkpoint_signature''"
| "event_name Stats_checkpoint_commit = ''stats_checkpoint_commit''"

record EventPayload =
  ep_eventType :: QueueEventType
  ep_taskId :: string
  ep_subtaskId :: "string option"
  ep_actorId :: string
  ep_sequence :: int
  ep_issuedAtMs :: ms
  ep_prevHash :: string
  ep_coordinatorId :: "string option"
  ep_checkpointHeight :: "int option"
  ep_checkpointHash :: "string option"
  ep_payloadJson :: "string option"

text \<open>A stored record is a payload with an id, the hash and the signature.\<close>

record QueueEventRecord =
  qe_id :: string
  qe_payload :: EventPayload
  qe_hash :: string
  qe_signature :: string

definition payload_json :: "EventPayload \<Rightarrow> json" where
  "payload_json p = JObj (
     [(''eventType'', JStr (event_name (ep_eventType p))), (''taskId'', JStr (ep_taskId p))] @
     jfield ''subtaskId'' (map_option JStr (ep_subtaskId p)) @
     [(''actorId'', JStr (ep_actorId p)), (''sequence'', JNum (ep_sequence p)),
      (''issuedAtMs'', JNum (ep_issuedAtMs p)), (''prevHash'', JStr (ep_prevHash p))] @
     jfield ''coordinatorId'' (map_option JStr (ep_coordinatorId p)) @
     jfield ''checkpointHeight'' (map_option JNum (ep_checkpointHeight p)) @
     jfield ''checkpointHash'' (map_option JStr (ep_checkpointHash p)) @
     jfield ''payloadJson'' (map_option JStr (ep_payloadJson p)))"

definition hashRecordPayload :: "crypto \<Rightarrow> EventPayload \<Rightarrow> string" where
  "hashRecordPayload cr payload = sha256_hex cr (json_text (payload_json payload))"

definition createQueueEventRecord :: "crypto \<Rightarrow> string \<Rightarrow> EventPayload \<Rightarrow> string \<Rightarrow> QueueEventRecord" where
  "createQueueEventRecord cr i payload signerPrivateKeyPem =
     (let h = hashRecordPayload cr payload
      in \<lparr> qe_id = i, qe_payload = payload, qe_hash = h, qe_signature = signPayload cr h signerPrivateKeyPem \<rparr>)"

record OrderingChain =
  records :: "QueueEventRecord list"
  signerPeerId :: string
  signerPrivateKeyPem :: string

text \<open>The event given to \<open>append\<close>; the chain supplies sequence, time and previous hash.\<close>

record ChainEvent =
  ce_eventType :: QueueEventType
  ce_taskId :: string
  ce_subtaskId :: "string option"
  ce_actorId :: string
  ce_coordinatorId :: "string option"
  ce_checkpointHeight :: "int option"
  ce_checkpointHash :: "string option"
  ce_payloadJson :: "string option"

definition append :: "crypto \<Rightarrow> ChainEvent \<Rightarrow> string \<Rightarrow> ms \<Rightarrow> OrderingChain \<Rightarrow> OrderingChain \<times> QueueEventRecord" where
  "append cr event uuid now c =
     (let record = createQueueEventRecord cr uuid
            \<lparr> ep_eventType = ce_eventType event, ep_taskId = ce_taskId event, ep_subtaskId = ce_subtaskId event,
              ep_actorId = ce_actorId event, ep_sequence = int (length (records c)) + 1, ep_issuedAtMs = now,
              ep_prevHash = (if records c = [] then ''GENESIS'' else qe_hash (last (records c))),
              ep_coordinatorId = ce_coordinatorId event, ep_checkpointHeight = ce_checkpointHeight event,
              ep_checkpointHash = ce_checkpointHash event, ep_payloadJson = ce_payloadJson event \<rparr>
            (signerPrivateKeyPem c)
      in (c\<lparr> records := records c @ [record] \<rparr>, record))"

definition latestProof :: "OrderingChain \<Rightarrow> (string \<times> string \<times> string \<times> int \<times> string) option" where
  "latestProof c =
     (if records c = [] then None
      else (let latest = last (records c)
            in Some (qe_id latest, qe_hash latest, ep_prevHash (qe_payload latest),
                     ep_sequence (qe_payload latest), signerPeerId c)))"

definition snapshot :: "OrderingChain \<Rightarrow> QueueEventRecord list" where
  "snapshot c = records c"

datatype ChainFault = Invalid_sequence | Invalid_prev_hash | Hash_mismatch | Invalid_signature

fun verifyFrom :: "crypto \<Rightarrow> string \<Rightarrow> int \<Rightarrow> string \<Rightarrow> QueueEventRecord list \<Rightarrow> ChainFault option" where
  "verifyFrom cr publicKeyPem i prevHash [] = None"
| "verifyFrom cr publicKeyPem i prevHash (record # rs) =
     (if ep_sequence (qe_payload record) \<noteq> i + 1 then Some Invalid_sequence
      else if ep_prevHash (qe_payload record) \<noteq> prevHash then Some Invalid_prev_hash
      else if hashRecordPayload cr (qe_payload record) \<noteq> qe_hash record then Some Hash_mismatch
      else if \<not> verifyPayload cr (qe_hash record) (qe_signature record) publicKeyPem then Some Invalid_signature
      else verifyFrom cr publicKeyPem (i + 1) (qe_hash record) rs)"

text \<open>\<open>None\<close> stands for \<open>ok: true\<close>, \<open>Some\<close> of a fault for \<open>ok: false\<close> with that reason.\<close>

definition verifyOrderingChain :: "crypto \<Rightarrow> QueueEventRecord list \<Rightarrow> string \<Rightarrow> ChainFault option" where
  "verifyOrderingChain cr rs publicKeyPem = verifyFrom cr publicKeyPem 0 ''GENESIS'' rs"

section \<open>Quorum records\<close>

datatype QuorumRecordType = Issuance_proposal | Issuance_vote | Issuance_commit | Issuance_checkpoint

fun quorum_name :: "QuorumRecordType \<Rightarrow> string" where
  "quorum_name Issuance_proposal = ''issuance_proposal''"
| "quorum_name Issuance_vote = ''issuance_vote''"
| "quorum_name Issuance_commit = ''issuance_commit''"
| "quorum_name Issuance_checkpoint = ''issuance_checkpoint''"

record QuorumLedgerRecord =
  ql_recordId :: string
  ql_recordType :: QuorumRecordType
  ql_epochId :: string
  ql_coordinatorId :: string
  ql_prevHash :: string
  ql_hash :: string
  ql_payloadJson :: string
  ql_signature :: string
  ql_createdAtMs :: ms

definition createQuorumLedgerRecord ::
  "crypto \<Rightarrow> QuorumRecordType \<Rightarrow> string \<Rightarrow> string \<Rightarrow> string \<Rightarrow> string \<Rightarrow> string \<Rightarrow> string \<Rightarrow> ms \<Rightarrow> QuorumLedgerRecord" where
  "createQuorumLedgerRecord cr recordType epochId coordinatorId prevHash payloadJson privateKeyPem uuid now =
     (let h = sha256_hex cr (json_text (JObj [(''recordType'', JStr (quorum_name recordType)), (''epochId'', JStr epochId),
            (''coordinatorId'', JStr coordinatorId), (''prevHash'', JStr prevHash), (''payloadJson'', JStr payloadJson)]))
      in \<lparr> ql_recordId = uuid, ql_recordType = recordType, ql_epochId = epochId, ql_coordinatorId = coordinatorId,
           ql_prevHash = prevHash, ql_hash = h, ql_payloadJson = payloadJson,
           ql_signature = signPayload cr h privateKeyPem, ql_createdAtMs = now \<rparr>)"

definition verifyQuorumLedgerRecord :: "crypto \<Rightarrow> QuorumLedgerRecord \<Rightarrow> string \<Rightarrow> bool" where
  "verifyQuorumLedgerRecord cr record publicKeyPem = verifyPayload cr (ql_hash record) (ql_signature record) publicKeyPem"

section \<open>The audit verifier\<close>

record LedgerEvent =
  le_sequence :: int
  le_hash :: string
  le_prevHash :: string
  le_payload :: string

datatype AuditFault = Sequence_gap | Audit_hash_mismatch | Chain_break

text \<open>\<open>prev\<close> is the event before, absent for the first. The result is the breakpoint and its reason.\<close>

fun verifyEvents :: "crypto \<Rightarrow> LedgerEvent option \<Rightarrow> LedgerEvent list \<Rightarrow> (int \<times> AuditFault) option" where
  "verifyEvents cr prev [] = None"
| "verifyEvents cr prev (event # es) =
     (if (case prev of None \<Rightarrow> False | Some p \<Rightarrow> le_sequence event \<noteq> le_sequence p + 1)
        then Some (le_sequence event, Sequence_gap)
      else if le_hash event \<noteq> sha256_hex cr (le_prevHash event @ le_payload event)
        then Some (le_sequence event, Audit_hash_mismatch)
      else if (case prev of None \<Rightarrow> False | Some p \<Rightarrow> le_prevHash event \<noteq> le_hash p)
        then Some (le_sequence event, Chain_break)
      else verifyEvents cr (Some event) es)"

definition verifyLedgerChain :: "crypto \<Rightarrow> LedgerEvent list \<Rightarrow> (int \<times> AuditFault) option" where
  "verifyLedgerChain cr events = verifyEvents cr None events"

section \<open>Blacklist events\<close>

datatype BlacklistReasonCode =
    Abuse_spam | Abuse_malware | Policy_violation | Credential_abuse | Dos_behavior
  | Forged_results | Manual_review | Tampered_binary | Behavioral_anomaly

fun reason_name :: "BlacklistReasonCode \<Rightarrow> string" where
  "reason_name Abuse_spam = ''abuse_spam''"
| "reason_name Abuse_malware = ''abuse_malware''"
| "reason_name Policy_violation = ''policy_violation''"
| "reason_name Credential_abuse = ''credential_abuse''"
| "reason_name Dos_behavior = ''dos_behavior''"
| "reason_name Forged_results = ''forged_results''"
| "reason_name Manual_review = ''manual_review''"
| "reason_name Tampered_binary = ''tampered_binary''"
| "reason_name Behavioral_anomaly = ''behavioral_anomaly''"

record BlacklistEvidenceInput =
  be_agentId :: string
  be_reasonCode :: BlacklistReasonCode
  be_reason :: string
  be_evidenceHashSha256 :: string
  be_reporterId :: string
  be_timestampMs :: ms

definition canonicalizeBlacklistEvidence :: "BlacklistEvidenceInput \<Rightarrow> string" where
  "canonicalizeBlacklistEvidence b = json_text (JObj
     [(''agentId'', JStr (be_agentId b)), (''reasonCode'', JStr (reason_name (be_reasonCode b))),
      (''reason'', JStr (be_reason b)), (''evidenceHashSha256'', JStr (be_evidenceHashSha256 b)),
      (''reporterId'', JStr (be_reporterId b)), (''timestampMs'', JNum (be_timestampMs b))])"

text \<open>The part of a blacklist record that is hashed: the evidence, its origin and the previous hash.\<close>

record BlacklistContent = BlacklistEvidenceInput +
  bc_eventId :: string
  bc_sourceCoordinatorId :: string
  bc_expiresAtMs :: "ms option"
  bc_prevEventHash :: string
  bc_evidenceSignatureVerified :: bool

record BlacklistRecord =
  br_content :: BlacklistContent
  br_eventHash :: string
  br_coordinatorSignature :: string

definition blacklist_json :: "BlacklistContent \<Rightarrow> json" where
  "blacklist_json b = JObj
     [(''eventId'', JStr (bc_eventId b)), (''agentId'', JStr (be_agentId b)),
      (''reasonCode'', JStr (reason_name (be_reasonCode b))), (''reason'', JStr (be_reason b)),
      (''evidenceHashSha256'', JStr (be_evidenceHashSha256 b)), (''reporterId'', JStr (be_reporterId b)),
      (''sourceCoordinatorId'', JStr (bc_sourceCoordinatorId b)), (''timestampMs'', JNum (be_timestampMs b)),
      (''expiresAtMs'', case bc_expiresAtMs b of None \<Rightarrow> JNull | Some t \<Rightarrow> JNum t),
      (''prevEventHash'', JStr (bc_prevEventHash b)),
      (''evidenceSignatureVerified'', JBool (bc_evidenceSignatureVerified b))]"

definition buildBlacklistEventHash :: "crypto \<Rightarrow> BlacklistContent \<Rightarrow> string" where
  "buildBlacklistEventHash cr b = sha256_hex cr (json_text (blacklist_json b))"

definition verifyReporterEvidenceSignature ::
  "crypto \<Rightarrow> BlacklistEvidenceInput \<Rightarrow> string option \<Rightarrow> string option \<Rightarrow> bool" where
  "verifyReporterEvidenceSignature cr evidence reporterPublicKeyPem reporterSignature =
     (if \<not> truthy_str reporterPublicKeyPem \<or> \<not> truthy_str reporterSignature then False
      else verifyPayload cr (canonicalizeBlacklistEvidence evidence) (the reporterSignature) (the reporterPublicKeyPem))"

datatype IncomingFault = Blacklist_event_hash_mismatch | Blacklist_coordinator_signature_invalid

definition validateIncomingBlacklistRecord :: "crypto \<Rightarrow> BlacklistRecord \<Rightarrow> string \<Rightarrow> IncomingFault option" where
  "validateIncomingBlacklistRecord cr record peerPublicKeyPem =
     (if buildBlacklistEventHash cr (br_content record) \<noteq> br_eventHash record then Some Blacklist_event_hash_mismatch
      else if \<not> verifyPayload cr (br_eventHash record) (br_coordinatorSignature record) peerPublicKeyPem
        then Some Blacklist_coordinator_signature_invalid
      else None)"

datatype BlacklistAuditFault =
    Hash_chain_break string | Event_hash_mismatch string | Missing_coordinator_key string
  | Coordinator_signature_invalid string | Chain_head_mismatch string string

fun auditEvents ::
  "crypto \<Rightarrow> (string, string) jsmap \<Rightarrow> string \<Rightarrow> BlacklistRecord list \<Rightarrow> BlacklistAuditFault + string" where
  "auditEvents cr keys previousHash [] = Inr previousHash"
| "auditEvents cr keys previousHash (event # es) =
     (if bc_prevEventHash (br_content event) \<noteq> previousHash then Inl (Hash_chain_break (bc_eventId (br_content event)))
      else if buildBlacklistEventHash cr (br_content event) \<noteq> br_eventHash event
        then Inl (Event_hash_mismatch (bc_eventId (br_content event)))
      else if \<not> truthy_str (jsm_get keys (bc_sourceCoordinatorId (br_content event)))
        then Inl (Missing_coordinator_key (bc_sourceCoordinatorId (br_content event)))
      else if \<not> verifyPayload cr (br_eventHash event) (br_coordinatorSignature event)
                 (the (jsm_get keys (bc_sourceCoordinatorId (br_content event))))
        then Inl (Coordinator_signature_invalid (bc_eventId (br_content event)))
      else auditEvents cr keys (br_eventHash event) es)"

definition coordinatorKeys :: "string \<times> string \<Rightarrow> (string \<times> string) list \<Rightarrow> (string, string) jsmap" where
  "coordinatorKeys identity peers = foldl (\<lambda>m (peerId, pem). jsm_set peerId pem m) [identity] peers"

definition verifyBlacklistAudit ::
  "crypto \<Rightarrow> string \<times> string \<Rightarrow> (string \<times> string) list \<Rightarrow> string \<Rightarrow> BlacklistRecord list \<Rightarrow> BlacklistAuditFault option" where
  "verifyBlacklistAudit cr identity peers chainHead events =
     (case auditEvents cr (coordinatorKeys identity peers) ''BLACKLIST_GENESIS'' events of
        Inl f \<Rightarrow> Some f
      | Inr previousHash \<Rightarrow>
          if chainHead \<noteq> previousHash then Some (Chain_head_mismatch previousHash chainHead) else None)"

section \<open>What the texts determine\<close>

lemma event_name_inj [simp]: "event_name a = event_name b \<longleftrightarrow> a = b"
  by (cases a; cases b; simp)

lemma reason_name_inj [simp]: "reason_name a = reason_name b \<longleftrightarrow> a = b"
  by (cases a; cases b; simp)

lemma jfield_key_notin [simp]: "k \<noteq> k' \<Longrightarrow> k \<notin> fst ` set (jfield k' v)"
  using jfield_keys [of k' v] by auto

lemma map_option_JStr_inj [simp]: "map_option JStr a = map_option JStr b \<longleftrightarrow> a = b"
  by (cases a; cases b; simp)

lemma map_option_JNum_inj [simp]: "map_option JNum a = map_option JNum b \<longleftrightarrow> a = b"
  by (cases a; cases b; simp)

lemma jfield_inj [simp]: "jfield k v = jfield k w \<longleftrightarrow> v = w"
  by (cases v; cases w; simp)

lemma payload_json_inj: "payload_json p = payload_json p' \<Longrightarrow> p = p'"
  by (rule EventPayload.equality) (simp_all add: payload_json_def jfield_append_inj image_Un)

lemma blacklist_json_inj: "blacklist_json b = blacklist_json b' \<Longrightarrow> b = b'"
  by (rule BlacklistContent.equality) (auto simp: blacklist_json_def split: option.splits)

interpretation ordering: hash_chain "\<lambda>r. hashRecordPayload cr (qe_payload r)" qe_hash "\<lambda>r. ep_prevHash (qe_payload r)" qe_payload
  for cr
  by unfold_locales simp

interpretation blacklist: hash_chain "\<lambda>r. buildBlacklistEventHash cr (br_content r)" br_eventHash
    "\<lambda>r. bc_prevEventHash (br_content r)" br_content for cr
  by unfold_locales simp

lemma verifyFrom_iff:
  "verifyFrom cr pub i p rs = None \<longleftrightarrow>
     linked (\<lambda>r. hashRecordPayload cr (qe_payload r)) qe_hash (\<lambda>r. ep_prevHash (qe_payload r)) p rs \<and>
     (\<forall>j < length rs. ep_sequence (qe_payload (rs ! j)) = i + int j + 1 \<and>
        verifyPayload cr (qe_hash (rs ! j)) (qe_signature (rs ! j)) pub)"
proof (induction rs arbitrary: i p)
  case (Cons r rs)
  have sp: "(\<forall>j < length (r # rs). P j ((r # rs) ! j)) \<longleftrightarrow> P 0 r \<and> (\<forall>j < length rs. P (Suc j) (rs ! j))" for P
    by (auto simp: nth_Cons split: nat.splits)
  show ?case unfolding sp [of "\<lambda>j x. ep_sequence (qe_payload x) = i + int j + 1 \<and> verifyPayload cr (qe_hash x) (qe_signature x) pub"]
    using Cons.IH [of "i + 1" "qe_hash r"] by (auto simp: algebra_simps)
qed simp

lemma auditEvents_iff:
  "auditEvents cr keys p es = Inr h \<longleftrightarrow>
     linked (\<lambda>r. buildBlacklistEventHash cr (br_content r)) br_eventHash (\<lambda>r. bc_prevEventHash (br_content r)) p es \<and>
     list_all (\<lambda>e. truthy_str (jsm_get keys (bc_sourceCoordinatorId (br_content e))) \<and>
        verifyPayload cr (br_eventHash e) (br_coordinatorSignature e) (the (jsm_get keys (bc_sourceCoordinatorId (br_content e))))) es \<and>
     h = chain_head br_eventHash p es"
  by (induction es arbitrary: p) auto

section \<open>Appending\<close>

definition appendAll :: "crypto \<Rightarrow> (ChainEvent \<times> string \<times> ms) list \<Rightarrow> OrderingChain \<Rightarrow> OrderingChain" where
  "appendAll cr evs c = fold (\<lambda>(e, uuid, now) c. fst (append cr e uuid now c)) evs c"

lemma append_facts:
  "\<exists>r. records (fst (append cr e uuid now c)) = records c @ [r] \<and>
     ep_sequence (qe_payload r) = int (length (records c)) + 1 \<and>
     ep_prevHash (qe_payload r) = chain_head qe_hash ''GENESIS'' (records c) \<and>
     qe_hash r = hashRecordPayload cr (qe_payload r) \<and>
     qe_signature r = signPayload cr (qe_hash r) (signerPrivateKeyPem c)"
  by (simp add: append_def createQueueEventRecord_def Let_def chain_head_def)

lemma append_signer [simp]: "signerPrivateKeyPem (fst (append cr e uuid now c)) = signerPrivateKeyPem c"
  by (simp add: append_def Let_def)

definition chain_ok :: "crypto \<Rightarrow> string \<Rightarrow> OrderingChain \<Rightarrow> bool" where
  "chain_ok cr pub c = (verifyOrderingChain cr (records c) pub = None)"

lemma append_ok:
  assumes "chain_ok cr pub c" "key_pair cr (signerPrivateKeyPem c) pub"
  shows "chain_ok cr pub (fst (append cr e uuid now c))"
proof -
  obtain r where r: "records (fst (append cr e uuid now c)) = records c @ [r]"
    "ep_sequence (qe_payload r) = int (length (records c)) + 1"
    "ep_prevHash (qe_payload r) = chain_head qe_hash ''GENESIS'' (records c)"
    "qe_hash r = hashRecordPayload cr (qe_payload r)"
    "qe_signature r = signPayload cr (qe_hash r) (signerPrivateKeyPem c)"
    using append_facts [of cr e uuid now c] by blast
  have "verifyPayload cr (qe_hash r) (qe_signature r) pub" using assms(2) r(5) by (simp add: key_pair_def)
  with assms(1) r show ?thesis
    by (auto simp: chain_ok_def verifyOrderingChain_def verifyFrom_iff linked_snoc nth_append)
qed

section \<open>Properties\<close>

text \<open>
  A chain built by \<open>append\<close> alone, from any sequence of events, verifies under the signer's public key.
\<close>

theorem appended_chain_verifies:
  assumes "key_pair cr priv pub"
  shows "verifyOrderingChain cr (snapshot (appendAll cr evs
    \<lparr> records = [], signerPeerId = peer, signerPrivateKeyPem = priv \<rparr>)) pub = None"
proof -
  have "chain_ok cr pub c \<Longrightarrow> signerPrivateKeyPem c = priv \<Longrightarrow> chain_ok cr pub (appendAll cr evs c)" for c
    using assms by (induction evs arbitrary: c) (auto simp: appendAll_def append_ok)
  moreover have "chain_ok cr pub \<lparr> records = [], signerPeerId = peer, signerPrivateKeyPem = priv \<rparr>"
    by (simp add: chain_ok_def verifyOrderingChain_def)
  ultimately show ?thesis by (simp add: chain_ok_def snapshot_def)
qed

text \<open>
  C22: the ordering chain is tamper-evident. Two record lists that both verify and end in the same hash carry the
  same events, in the same order and number, in every hashed field, provided SHA-256 has no collision
  among their payload texts and none of them hashes to the genesis marker.
\<close>

theorem ordering_chain_tamper_evident:
  assumes "verifyOrderingChain cr rs pub = None" "verifyOrderingChain cr rs' pub' = None"
    and "chain_head qe_hash ''GENESIS'' rs = chain_head qe_hash ''GENESIS'' rs'"
    and "inj_on (sha256_hex cr) ((\<lambda>r. json_text (payload_json (qe_payload r))) ` (set rs \<union> set rs'))"
    and "\<forall>r \<in> set rs \<union> set rs'. hashRecordPayload cr (qe_payload r) \<noteq> ''GENESIS''"
  shows "map qe_payload rs = map qe_payload rs'"
proof (rule ordering.same_head_same_history [OF _ _ assms(3,5)])
  show "linked (\<lambda>r. hashRecordPayload cr (qe_payload r)) qe_hash (\<lambda>r. ep_prevHash (qe_payload r)) ''GENESIS'' rs"
    "linked (\<lambda>r. hashRecordPayload cr (qe_payload r)) qe_hash (\<lambda>r. ep_prevHash (qe_payload r)) ''GENESIS'' rs'"
    using assms(1,2) by (simp_all add: verifyOrderingChain_def verifyFrom_iff)
  show "\<forall>r \<in> set rs \<union> set rs'. \<forall>r' \<in> set rs \<union> set rs'.
      hashRecordPayload cr (qe_payload r) = hashRecordPayload cr (qe_payload r') \<longrightarrow> qe_payload r = qe_payload r'"
  proof (intro ballI impI)
    fix r r' assume "r \<in> set rs \<union> set rs'" "r' \<in> set rs \<union> set rs'"
      "hashRecordPayload cr (qe_payload r) = hashRecordPayload cr (qe_payload r')"
    with inj_onD [OF assms(4)] have "json_text (payload_json (qe_payload r)) = json_text (payload_json (qe_payload r'))"
      unfolding hashRecordPayload_def by blast
    then show "qe_payload r = qe_payload r'" by (simp add: payload_json_inj)
  qed
qed

text \<open>
  So is the blacklist audit. Two event lists accepted for the same published chain head agree in every
  hashed field of every event, under the same assumptions on the hash, and each event was signed under
  the key known for its source coordinator.
\<close>

theorem blacklist_audit_tamper_evident:
  assumes "verifyBlacklistAudit cr identity peers hd1 es = None" "verifyBlacklistAudit cr identity peers hd1 es' = None"
    and "inj_on (sha256_hex cr) ((\<lambda>r. json_text (blacklist_json (br_content r))) ` (set es \<union> set es'))"
    and "\<forall>r \<in> set es \<union> set es'. buildBlacklistEventHash cr (br_content r) \<noteq> ''BLACKLIST_GENESIS''"
  shows "map br_content es = map br_content es' \<and>
    list_all (\<lambda>e. case jsm_get (coordinatorKeys identity peers) (bc_sourceCoordinatorId (br_content e)) of
       None \<Rightarrow> False | Some key \<Rightarrow> validateIncomingBlacklistRecord cr e key = None) es"
proof -
  let ?ks = "coordinatorKeys identity peers"
  have a: "auditEvents cr ?ks ''BLACKLIST_GENESIS'' es = Inr hd1" "auditEvents cr ?ks ''BLACKLIST_GENESIS'' es' = Inr hd1"
    using assms(1,2) by (auto simp: verifyBlacklistAudit_def split: sum.splits if_splits)
  note s = a [unfolded auditEvents_iff]
  have "buildBlacklistEventHash cr (br_content r) = buildBlacklistEventHash cr (br_content r') \<longrightarrow> br_content r = br_content r'"
    if "r \<in> set es \<union> set es'" "r' \<in> set es \<union> set es'" for r r'
  proof
    assume "buildBlacklistEventHash cr (br_content r) = buildBlacklistEventHash cr (br_content r')"
    with inj_onD [OF assms(3)] that have "json_text (blacklist_json (br_content r)) = json_text (blacklist_json (br_content r'))"
      unfolding buildBlacklistEventHash_def by blast
    then show "br_content r = br_content r'" by (simp add: blacklist_json_inj)
  qed
  then have "map br_content es = map br_content es'"
    using s by (intro blacklist.same_head_same_history [where cr = cr, OF _ _ _ assms(4)]) (auto simp del: Un_iff)
  moreover have "list_all (\<lambda>e. br_eventHash e = buildBlacklistEventHash cr (br_content e)) es"
  proof -
    have "linked d h pv p rs \<Longrightarrow> list_all (\<lambda>r. h r = d r) rs" for d h pv p and rs :: "BlacklistRecord list"
      by (induction rs arbitrary: p) auto
    with s(1) show ?thesis by blast
  qed
  then have "case jsm_get ?ks (bc_sourceCoordinatorId (br_content e)) of
       None \<Rightarrow> False | Some key \<Rightarrow> validateIncomingBlacklistRecord cr e key = None" if "e \<in> set es" for e
  proof -
    assume hashes: "list_all (\<lambda>e. br_eventHash e = buildBlacklistEventHash cr (br_content e)) es"
    have "truthy_str (jsm_get ?ks (bc_sourceCoordinatorId (br_content e)))"
      "verifyPayload cr (br_eventHash e) (br_coordinatorSignature e) (the (jsm_get ?ks (bc_sourceCoordinatorId (br_content e))))"
      using s(1) that by (simp_all add: list_all_iff)
    then obtain key where "jsm_get ?ks (bc_sourceCoordinatorId (br_content e)) = Some key"
      "verifyPayload cr (br_eventHash e) (br_coordinatorSignature e) key"
      by (cases "jsm_get ?ks (bc_sourceCoordinatorId (br_content e))") simp_all
    with hashes that show ?thesis by (simp add: validateIncomingBlacklistRecord_def list_all_iff)
  qed
  then have "list_all (\<lambda>e. case jsm_get ?ks (bc_sourceCoordinatorId (br_content e)) of
       None \<Rightarrow> False | Some key \<Rightarrow> validateIncomingBlacklistRecord cr e key = None) es"
    unfolding list_all_iff by blast
  ultimately show ?thesis ..
qed

text \<open>
  The verification of a quorum record does not bind its content. A record made by \<open>createQuorumLedgerRecord\<close>
  verifies, and still verifies after its type, epoch, coordinator, previous hash and payload are all
  replaced, since only the signature over the stored hash is checked.
\<close>

theorem quorum_record_content_unbound:
  assumes "key_pair cr priv pub"
  shows "let r = createQuorumLedgerRecord cr ty epoch coord prev payload priv uuid now in
    verifyQuorumLedgerRecord cr r pub \<and>
    verifyQuorumLedgerRecord cr (r\<lparr> ql_recordType := ty', ql_epochId := epoch', ql_coordinatorId := coord',
      ql_prevHash := prev', ql_payloadJson := payload' \<rparr>) pub"
  using assms by (simp add: createQuorumLedgerRecord_def verifyQuorumLedgerRecord_def key_pair_def Let_def)

section \<open>Witnesses\<close>

text \<open>A signature scheme and a hash for which the hypotheses hold.\<close>

definition ex_crypto :: crypto where
  "ex_crypto = \<lparr> sha256_hex = (\<lambda>s. CHR ''h'' # s), ed_sign = (\<lambda>p k. k @ p), ed_verify = (\<lambda>p s k. Some (s = k @ p)) \<rparr>"

lemma ex_key_pair: "key_pair ex_crypto k k"
  by (simp add: key_pair_def verifyPayload_def signPayload_def ex_crypto_def)

definition ex_event :: "string \<Rightarrow> ChainEvent" where
  "ex_event i = \<lparr> ce_eventType = Task_enqueue, ce_taskId = i, ce_subtaskId = None, ce_actorId = ''a'',
     ce_coordinatorId = None, ce_checkpointHeight = None, ce_checkpointHash = None, ce_payloadJson = Some ''{}'' \<rparr>"

theorem appended_chain_verifies_witness:
  "verifyOrderingChain ex_crypto (snapshot (appendAll ex_crypto [(ex_event ''t1'', ''u1'', 5), (ex_event ''t2'', ''u2'', 6)]
    \<lparr> records = [], signerPeerId = ''p'', signerPrivateKeyPem = ''k'' \<rparr>)) ''k'' = None"
  by (rule appended_chain_verifies [OF ex_key_pair])

definition ex_chain :: "QueueEventRecord list" where
  "ex_chain = records (appendAll ex_crypto [(ex_event ''t1'', ''u1'', 5)]
    \<lparr> records = [], signerPeerId = ''p'', signerPrivateKeyPem = ''k'' \<rparr>)"

theorem ordering_chain_tamper_evident_witness:
  "map qe_payload ex_chain = map qe_payload (map (\<lambda>r. r\<lparr> qe_id := ''other'' \<rparr>) ex_chain)"
proof (rule ordering_chain_tamper_evident [of ex_crypto _ "''k''" _ "''k''"])
  show "verifyOrderingChain ex_crypto ex_chain ''k'' = None"
    "verifyOrderingChain ex_crypto (map (\<lambda>r. r\<lparr> qe_id := ''other'' \<rparr>) ex_chain) ''k'' = None" by code_simp+
  show "chain_head qe_hash ''GENESIS'' ex_chain = chain_head qe_hash ''GENESIS'' (map (\<lambda>r. r\<lparr> qe_id := ''other'' \<rparr>) ex_chain)"
    by code_simp
  show "inj_on (sha256_hex ex_crypto) A" for A by (simp add: ex_crypto_def inj_on_def)
  show "\<forall>r \<in> set ex_chain \<union> set (map (\<lambda>r. r\<lparr> qe_id := ''other'' \<rparr>) ex_chain). hashRecordPayload ex_crypto (qe_payload r) \<noteq> ''GENESIS''"
    by (simp add: hashRecordPayload_def ex_crypto_def)
qed

definition ex_blacklist :: "BlacklistRecord list" where
  "ex_blacklist = (let c = \<lparr> be_agentId = ''bad'', be_reasonCode = Abuse_spam, be_reason = ''spam'', be_evidenceHashSha256 = ''e'',
       be_reporterId = ''r'', be_timestampMs = 7, bc_eventId = ''ev1'', bc_sourceCoordinatorId = ''coord'', bc_expiresAtMs = None,
       bc_prevEventHash = ''BLACKLIST_GENESIS'', bc_evidenceSignatureVerified = False \<rparr>;
       h = buildBlacklistEventHash ex_crypto c
     in [\<lparr> br_content = c, br_eventHash = h, br_coordinatorSignature = signPayload ex_crypto h ''k'' \<rparr>])"

theorem blacklist_audit_tamper_evident_witness:
  "list_all (\<lambda>e. case jsm_get (coordinatorKeys (''coord'', ''k'') []) (bc_sourceCoordinatorId (br_content e)) of
     None \<Rightarrow> False | Some key \<Rightarrow> validateIncomingBlacklistRecord ex_crypto e key = None) ex_blacklist"
proof -
  have v: "verifyBlacklistAudit ex_crypto (''coord'', ''k'') [] (br_eventHash (hd ex_blacklist)) ex_blacklist = None" by code_simp
  have "inj_on (sha256_hex ex_crypto) A" for A by (simp add: ex_crypto_def inj_on_def)
  moreover have "\<forall>r \<in> set ex_blacklist \<union> set ex_blacklist. buildBlacklistEventHash ex_crypto (br_content r) \<noteq> ''BLACKLIST_GENESIS''"
    by (simp add: buildBlacklistEventHash_def ex_crypto_def)
  ultimately show ?thesis using blacklist_audit_tamper_evident [OF v v] by blast
qed

theorem quorum_record_content_unbound_witness:
  "let r = createQuorumLedgerRecord ex_crypto Issuance_commit ''ep'' ''c'' ''GENESIS'' ''{}'' ''k'' ''u'' 1 in
    verifyQuorumLedgerRecord ex_crypto (r\<lparr> ql_payloadJson := ''forged'' \<rparr>) ''k''"
  using quorum_record_content_unbound [OF ex_key_pair, where ty = Issuance_commit and epoch = "''ep''" and coord = "''c''"
      and prev = "''GENESIS''" and payload = "''{}''" and uuid = "''u''" and now = 1 and ty' = Issuance_commit
      and epoch' = "''ep''" and coord' = "''c''" and prev' = "''GENESIS''" and payload' = "''forged''"]
  by (simp add: Let_def createQuorumLedgerRecord_def)

end
