(* ===== verification/Credits.thy ===== *)
theory Credits
  imports Ledger CoordinatorUtils
begin

text \<open>
  Credit accounts: \<open>src/src/credits/engine.ts\<close> (the in-memory engine), \<open>pricing.ts\<close>, \<open>store.ts\<close> (the same
  operations on PostgreSQL when it is configured, with the statements of \<open>db/postgres.ts\<close> they
  run), and the coordinator's users of them: the contribution-first policy, the charge of
  \<open>POST /submit\<close> and \<open>POST /credits/ble-sync\<close>. \<open>randomUUID()\<close> and \<open>Date.now()\<close> are arguments; a database
  table is the list of its rows in insertion order, and its \<open>SUM\<close> adds in that order.
\<close>

section \<open>Rates\<close>

datatype ResourceClass = Cpu | Gpu

record LoadSnapshot =
  queuedTasks :: nat
  activeAgents :: nat

definition loadMultiplier :: "LoadSnapshot \<Rightarrow> num" where
  "loadMultiplier load =
     (let pressure = (if activeAgents load = 0 then 2 else n_div (of_nat (queuedTasks load)) (of_nat (activeAgents load))) in
      if pressure \<le> 1 / 2 then fl (8 / 10)
      else if pressure \<le> 1 then 1
      else if pressure \<le> 2 then 5 / 4
      else fl (16 / 10))"

definition baseRatePerSecond :: "ResourceClass \<Rightarrow> num" where
  "baseRatePerSecond rc = (if rc = Gpu then 4 else 1)"

definition modelSeedCredits :: "num \<Rightarrow> nat \<Rightarrow> num" where
  "modelSeedCredits fileSizeBytes seederCount =
     (let sizeGB = n_div fileSizeBytes 1000000000; baseCredits = n_mul sizeGB (1 / 2);
          rarityMultiplier = n_div 1 (max 1 (of_nat seederCount))
      in to_fixed 3 (n_mul baseCredits (n_add 1 rarityMultiplier)))"

definition modelCostCredits :: "num \<Rightarrow> num" where
  "modelCostCredits paramSizeB = max (1 / 2) paramSizeB"

section \<open>Transactions\<close>

datatype TxType = Earn | Spend | Adjust | Held

record CreditTransaction =
  tx_txId :: string
  tx_accountId :: string
  tx_type :: TxType
  tx_credits :: num
  tx_reason :: string
  tx_timestampMs :: ms
  tx_relatedTaskId :: "string option"

record ComputeContributionReport =
  cr_reportId :: string
  cr_agentId :: string
  cr_sourceAgentId :: "string option"
  cr_taskId :: string
  cr_resourceClass :: ResourceClass
  cr_cpuSeconds :: num
  cr_gpuSeconds :: num
  cr_success :: bool
  cr_qualityScore :: num
  cr_timestampMs :: ms

datatype CreditError = Duplicate_contribution_report | Insufficient_credits num num

definition signedCredits :: "CreditTransaction \<Rightarrow> num" where
  "signedCredits tx = (if tx_type tx = Spend then - tx_credits tx else tx_credits tx)"

definition sumCredits :: "CreditTransaction list \<Rightarrow> num" where
  "sumCredits txs = foldl (\<lambda>s tx. n_add s (signedCredits tx)) 0 txs"

definition contributionSeconds :: "ComputeContributionReport \<Rightarrow> num" where
  "contributionSeconds r = (if cr_resourceClass r = Gpu then cr_gpuSeconds r else cr_cpuSeconds r)"

definition qualityMultiplier :: "ComputeContributionReport \<Rightarrow> num" where
  "qualityMultiplier r = max (1 / 2) (min (3 / 2) (cr_qualityScore r))"

definition contributionCredits :: "ComputeContributionReport \<Rightarrow> LoadSnapshot \<Rightarrow> num" where
  "contributionCredits r load =
     to_fixed 3 (n_mul (n_mul (n_mul (contributionSeconds r) (baseRatePerSecond (cr_resourceClass r))) (qualityMultiplier r)) (loadMultiplier load))"

section \<open>The in-memory engine\<close>

record CreditEngine =
  txByAccount :: "(string, CreditTransaction list) jsmap"
  seenReports :: "string list"

definition engine_history :: "CreditEngine \<Rightarrow> string \<Rightarrow> CreditTransaction list" where
  "engine_history e accountId = nullish (jsm_get (txByAccount e) accountId) []"

definition engine_balance :: "CreditEngine \<Rightarrow> string \<Rightarrow> num" where
  "engine_balance e accountId = sumCredits (nullish (jsm_get (txByAccount e) accountId) [])"

definition addTx :: "CreditTransaction \<Rightarrow> CreditEngine \<Rightarrow> CreditEngine" where
  "addTx tx e = e\<lparr> txByAccount := jsm_set (tx_accountId tx) (nullish (jsm_get (txByAccount e) (tx_accountId tx)) [] @ [tx]) (txByAccount e) \<rparr>"

definition earnTx :: "string \<Rightarrow> ms \<Rightarrow> string \<Rightarrow> num \<Rightarrow> string \<Rightarrow> string option \<Rightarrow> CreditTransaction" where
  "earnTx uuid now accountId credits reason task = \<lparr> tx_txId = uuid, tx_accountId = accountId, tx_type = Earn, tx_credits = credits,
     tx_reason = reason, tx_timestampMs = now, tx_relatedTaskId = task \<rparr>"

definition spendTx :: "string \<Rightarrow> ms \<Rightarrow> string \<Rightarrow> num \<Rightarrow> string \<Rightarrow> string option \<Rightarrow> CreditTransaction" where
  "spendTx uuid now accountId credits reason task = \<lparr> tx_txId = uuid, tx_accountId = accountId, tx_type = Spend, tx_credits = credits,
     tx_reason = reason, tx_timestampMs = now, tx_relatedTaskId = task \<rparr>"

definition accrue ::
  "string \<Rightarrow> ms \<Rightarrow> ComputeContributionReport \<Rightarrow> LoadSnapshot \<Rightarrow> CreditEngine \<Rightarrow> CreditEngine \<times> (CreditError + CreditTransaction)" where
  "accrue uuid now report load e =
     (if cr_reportId report \<in> set (seenReports e) then (e, Inl Duplicate_contribution_report)
      else (let tx = earnTx uuid now (cr_agentId report) (contributionCredits report load) ''compute_contribution'' (Some (cr_taskId report))
            in (addTx tx (e\<lparr> seenReports := jss_add (cr_reportId report) (seenReports e) \<rparr>), Inr tx)))"

definition spend ::
  "string \<Rightarrow> ms \<Rightarrow> string \<Rightarrow> num \<Rightarrow> string \<Rightarrow> string option \<Rightarrow> CreditEngine \<Rightarrow> CreditEngine \<times> (CreditError + CreditTransaction)" where
  "spend uuid now accountId credits reason task e =
     (if engine_balance e accountId < credits then (e, Inl (Insufficient_credits (engine_balance e accountId) credits))
      else (let tx = spendTx uuid now accountId credits reason task in (addTx tx e, Inr tx)))"

definition adjustTx :: "string \<Rightarrow> ms \<Rightarrow> string \<Rightarrow> num \<Rightarrow> string \<Rightarrow> CreditTransaction" where
  "adjustTx uuid now accountId credits reason =
     (if credits \<ge> 0 then earnTx uuid now accountId credits reason None
      else spendTx uuid now accountId \<bar>credits\<bar> reason None)"

definition adjust :: "string \<Rightarrow> ms \<Rightarrow> string \<Rightarrow> num \<Rightarrow> string \<Rightarrow> CreditEngine \<Rightarrow> CreditEngine \<times> CreditTransaction" where
  "adjust uuid now accountId credits reason e = (let tx = adjustTx uuid now accountId credits reason in (addTx tx e, tx))"

section \<open>The database\<close>

record ContributionRow =
  row_report :: ComputeContributionReport
  row_accountId :: string
  row_sourceAgentId :: string
  row_reliabilityScore :: num
  row_weightedContribution :: num

record PgCredits =
  credit_transactions :: "CreditTransaction list"
  compute_contribution_reports :: "ContributionRow list"
  agent_ownership :: "(string, string) jsmap"

definition persistCreditTransaction :: "CreditTransaction \<Rightarrow> PgCredits \<Rightarrow> PgCredits" where
  "persistCreditTransaction tx pg =
     (if tx_txId tx \<in> tx_txId ` set (credit_transactions pg) then pg
      else pg\<lparr> credit_transactions := credit_transactions pg @ [tx] \<rparr>)"

definition pg_transactions :: "PgCredits \<Rightarrow> string \<Rightarrow> CreditTransaction list" where
  "pg_transactions pg accountId = filter (\<lambda>tx. tx_accountId tx = accountId) (credit_transactions pg)"

definition creditBalance :: "PgCredits \<Rightarrow> string \<Rightarrow> num" where
  "creditBalance pg accountId = sumCredits (pg_transactions pg accountId)"

text \<open>Earned by contributing, and spent by submitting.\<close>

definition creditContributionStats :: "PgCredits \<Rightarrow> string \<Rightarrow> num \<times> num" where
  "creditContributionStats pg accountId =
     (foldl (\<lambda>s tx. n_add s (if tx_type tx = Earn \<and> tx_reason tx = ''compute_contribution'' then tx_credits tx else 0)) 0 (pg_transactions pg accountId),
      foldl (\<lambda>s tx. n_add s (if tx_type tx = Spend \<and> tx_reason tx = ''task_submit'' then tx_credits tx else 0)) 0 (pg_transactions pg accountId))"

definition persistComputeContributionReport :: "ContributionRow \<Rightarrow> PgCredits \<Rightarrow> PgCredits" where
  "persistComputeContributionReport row pg =
     (if cr_reportId (row_report row) \<in> (cr_reportId \<circ> row_report) ` set (compute_contribution_reports pg) then pg
      else pg\<lparr> compute_contribution_reports := compute_contribution_reports pg @ [row] \<rparr>)"

section \<open>The store in front of both\<close>

record CreditStore =
  creditEngine :: CreditEngine
  pgStore :: "PgCredits option"

definition accrueCredits ::
  "string \<Rightarrow> ms \<Rightarrow> ComputeContributionReport \<Rightarrow> LoadSnapshot \<Rightarrow> CreditStore \<Rightarrow> CreditStore \<times> (CreditError + CreditTransaction)" where
  "accrueCredits uuid now report load st =
     (case pgStore st of
        Some pg \<Rightarrow>
          (let resourceWeight = (if cr_resourceClass report = Gpu then 2 else 1);
               reliabilityScore = (if cr_success report then 1 else 3 / 4);
               weightedContribution = to_fixed 6 (n_mul (n_mul (n_mul (contributionSeconds report) resourceWeight) (qualityMultiplier report)) reliabilityScore);
               tx = earnTx uuid now (cr_agentId report) (contributionCredits report load) ''compute_contribution'' (Some (cr_taskId report));
               row = \<lparr> row_report = report, row_accountId = cr_agentId report,
                       row_sourceAgentId = nullish (cr_sourceAgentId report) (cr_agentId report),
                       row_reliabilityScore = reliabilityScore, row_weightedContribution = weightedContribution \<rparr>
           in (st\<lparr> pgStore := Some (persistComputeContributionReport row (persistCreditTransaction tx pg)) \<rparr>, Inr tx))
      | None \<Rightarrow> (let (e, r) = accrue uuid now report load (creditEngine st) in (st\<lparr> creditEngine := e \<rparr>, r)))"

definition rewardAccountForAgent :: "string \<Rightarrow> CreditStore \<Rightarrow> string" where
  "rewardAccountForAgent agentId st =
     nullish (case pgStore st of None \<Rightarrow> None | Some pg \<Rightarrow> jsm_get (agent_ownership pg) agentId) agentId"

text \<open>
  With a database \<open>spendCredits\<close> awaits the balance before it inserts the transaction: \<open>spendCheck\<close> and
  \<open>spendInsert\<close> are its two parts, \<open>spendCredits\<close> runs them without anything between.
\<close>

definition spendCheck :: "string \<Rightarrow> num \<Rightarrow> PgCredits \<Rightarrow> CreditError option" where
  "spendCheck accountId credits pg =
     (if creditBalance pg accountId < credits then Some (Insufficient_credits (creditBalance pg accountId) credits) else None)"

definition spendInsert :: "string \<Rightarrow> ms \<Rightarrow> string \<Rightarrow> num \<Rightarrow> string \<Rightarrow> string option \<Rightarrow> PgCredits \<Rightarrow> PgCredits" where
  "spendInsert uuid now accountId credits reason task pg = persistCreditTransaction (spendTx uuid now accountId credits reason task) pg"

definition spendCredits ::
  "string \<Rightarrow> ms \<Rightarrow> string \<Rightarrow> num \<Rightarrow> string \<Rightarrow> string option \<Rightarrow> CreditStore \<Rightarrow> CreditStore \<times> (CreditError + CreditTransaction)" where
  "spendCredits uuid now accountId credits reason task st =
     (case pgStore st of
        Some pg \<Rightarrow>
          (case spendCheck accountId credits pg of
             Some e \<Rightarrow> (st, Inl e)
           | None \<Rightarrow> (st\<lparr> pgStore := Some (spendInsert uuid now accountId credits reason task pg) \<rparr>,
                     Inr (spendTx uuid now accountId credits reason task)))
      | None \<Rightarrow> (let (e, r) = spend uuid now accountId credits reason task (creditEngine st) in (st\<lparr> creditEngine := e \<rparr>, r)))"

definition adjustCredits :: "string \<Rightarrow> ms \<Rightarrow> string \<Rightarrow> num \<Rightarrow> string \<Rightarrow> CreditStore \<Rightarrow> CreditStore \<times> CreditTransaction" where
  "adjustCredits uuid now accountId credits reason st =
     (case pgStore st of
        Some pg \<Rightarrow> (let tx = adjustTx uuid now accountId credits reason in (st\<lparr> pgStore := Some (persistCreditTransaction tx pg) \<rparr>, tx))
      | None \<Rightarrow> (let (e, tx) = adjust uuid now accountId credits reason (creditEngine st) in (st\<lparr> creditEngine := e \<rparr>, tx)))"

section \<open>The coordinator's policy and charge\<close>

record ContributionPolicy =
  CONTRIBUTION_BURST_CREDITS :: num
  MIN_CONTRIBUTION_RATIO :: num

text \<open>With nothing spent the ratio is infinite and the policy holds.\<close>

definition enforceContributionFirstPolicy :: "ContributionPolicy \<Rightarrow> string \<Rightarrow> CreditStore \<Rightarrow> bool" where
  "enforceContributionFirstPolicy cfg accountId st =
     (case pgStore st of
        None \<Rightarrow> True
      | Some pg \<Rightarrow>
          (let (earned, spent) = creditContributionStats pg accountId; bal = creditBalance pg accountId in
           if bal \<ge> CONTRIBUTION_BURST_CREDITS cfg then True
           else if spent \<le> 0 then True
           else \<not> n_div earned spent < MIN_CONTRIBUTION_RATIO cfg))"

datatype SubmitRefusal = Contribute_first_required | Insufficient_credits_402

definition submitCharge ::
  "ContributionPolicy \<Rightarrow> string \<Rightarrow> ms \<Rightarrow> string \<Rightarrow> string \<Rightarrow> CreditStore \<Rightarrow> CreditStore \<times> SubmitRefusal option" where
  "submitCharge cfg uuid now submitterAccountId taskId st =
     (if submitterAccountId = ''anonymous'' then (st, None)
      else if \<not> enforceContributionFirstPolicy cfg submitterAccountId st then (st, Some Contribute_first_required)
      else (case spendCredits uuid now submitterAccountId 1 ''task_submit'' (Some taskId) st of
              (st', Inl _) \<Rightarrow> (st', Some Insufficient_credits_402)
            | (st', Inr _) \<Rightarrow> (st', None)))"

section \<open>Synchronising offline transactions\<close>

record BLECreditTransaction =
  ble_txId :: string
  ble_requesterId :: string
  ble_providerId :: string
  ble_requesterAccountId :: string
  ble_providerAccountId :: string
  ble_credits :: num
  ble_cpuSeconds :: num
  ble_taskHash :: string
  ble_timestamp :: ms
  ble_requesterSignature :: string
  ble_providerSignature :: string

definition requesterPayload :: "BLECreditTransaction \<Rightarrow> string" where
  "requesterPayload tx = json_text (JObj [(''requesterId'', JStr (ble_requesterId tx)), (''taskHash'', JStr (ble_taskHash tx))])"

text \<open>\<open>num_text\<close> is the decimal text of a number.\<close>

definition providerPayload :: "(num \<Rightarrow> string) \<Rightarrow> BLECreditTransaction \<Rightarrow> string" where
  "providerPayload num_text tx =
     ''{'' @ json_str ''providerId'' @ '':'' @ json_str (ble_providerId tx) @ '','' @ json_str ''status'' @ '':'' @ json_str ''completed'' @
     '','' @ json_str ''cpuSeconds'' @ '':'' @ num_text (ble_cpuSeconds tx) @ '','' @ json_str ''taskHash'' @ '':'' @ json_str (ble_taskHash tx) @ ''}''"

text \<open>A check is made only where both the key of a registered agent and a signature are present.\<close>

definition signatureRefused :: "crypto \<Rightarrow> string option \<Rightarrow> string \<Rightarrow> string \<Rightarrow> bool" where
  "signatureRefused cr key signature payload =
     (truthy_str key \<and> signature \<noteq> [] \<and> \<not> verifyPayload cr payload signature (nullish key []))"

record BleSync =
  syncedBLETxIds :: "string list"
  ble_store :: CreditStore

text \<open>
  The parts of the loop body between its awaits: the check, the credit of the provider's account, the debit of the
  requester's, and the note that the transaction is synced. \<open>bleSyncOne\<close> runs them without anything between.
\<close>

definition bleRefused :: "crypto \<Rightarrow> (num \<Rightarrow> string) \<Rightarrow> (string \<Rightarrow> string option) \<Rightarrow> BLECreditTransaction \<Rightarrow> bool" where
  "bleRefused cr num_text keyOf tx =
     (if signatureRefused cr (keyOf (ble_requesterId tx)) (ble_requesterSignature tx) (requesterPayload tx) then True
      else signatureRefused cr (keyOf (ble_providerId tx)) (ble_providerSignature tx) (providerPayload num_text tx))"

definition bleAdmits :: "crypto \<Rightarrow> (num \<Rightarrow> string) \<Rightarrow> (string \<Rightarrow> string option) \<Rightarrow> BLECreditTransaction \<Rightarrow> BleSync \<Rightarrow> bool" where
  "bleAdmits cr num_text keyOf tx s = (ble_txId tx \<notin> set (syncedBLETxIds s) \<and> \<not> bleRefused cr num_text keyOf tx)"

definition bleCredit :: "string \<Rightarrow> ms \<Rightarrow> BLECreditTransaction \<Rightarrow> BleSync \<Rightarrow> BleSync" where
  "bleCredit u now tx s =
     s\<lparr> ble_store := fst (adjustCredits u now (rewardAccountForAgent (ble_providerId tx) (ble_store s)) (ble_credits tx) ''ble_compute'' (ble_store s)) \<rparr>"

definition bleDebit :: "string \<Rightarrow> ms \<Rightarrow> BLECreditTransaction \<Rightarrow> BleSync \<Rightarrow> BleSync" where
  "bleDebit u now tx s =
     s\<lparr> ble_store := fst (adjustCredits u now (ble_requesterAccountId tx) (- ble_credits tx) ''ble_compute'' (ble_store s)) \<rparr>"

definition bleMark :: "BLECreditTransaction \<Rightarrow> BleSync \<Rightarrow> BleSync" where
  "bleMark tx s = s\<lparr> syncedBLETxIds := jss_add (ble_txId tx) (syncedBLETxIds s) \<rparr>"

definition bleSyncOne ::
  "crypto \<Rightarrow> (num \<Rightarrow> string) \<Rightarrow> (string \<Rightarrow> string option) \<Rightarrow> ms \<Rightarrow> (string \<times> string) \<times> BLECreditTransaction \<Rightarrow>
   BleSync \<times> string list \<times> string list \<Rightarrow> BleSync \<times> string list \<times> string list" where
  "bleSyncOne cr num_text keyOf now item acc = (case acc of (s, applied, skipped) \<Rightarrow> case item of ((u1, u2), tx) \<Rightarrow>
     if \<not> bleAdmits cr num_text keyOf tx s then (s, applied, skipped @ [ble_txId tx])
     else (bleMark tx (bleDebit u2 now tx (bleCredit u1 now tx s)), applied @ [ble_txId tx], skipped))"

text \<open>The handler; \<open>None\<close> where the schema rejects the body.\<close>

definition bleSync ::
  "crypto \<Rightarrow> (num \<Rightarrow> string) \<Rightarrow> (string \<Rightarrow> string option) \<Rightarrow> ms \<Rightarrow> ((string \<times> string) \<times> BLECreditTransaction) list \<Rightarrow>
   BleSync \<Rightarrow> (BleSync \<times> string list \<times> string list) option" where
  "bleSync cr num_text keyOf now items s =
     (if list_all (\<lambda>(_, tx). 0 \<le> ble_credits tx \<and> 0 \<le> ble_cpuSeconds tx) items
      then Some (fold (bleSyncOne cr num_text keyOf now) items (s, [], []))
      else None)"

section \<open>One ledger interface for both\<close>

text \<open>
  What the operations need of a place that records transactions: a recorded transaction is the newest entry
  of its account and no other account changes. \<open>fresh\<close> is the condition on the generated id.
\<close>

locale credit_ledger =
  fixes post :: "CreditTransaction \<Rightarrow> 's \<Rightarrow> 's"
    and entries :: "'s \<Rightarrow> string \<Rightarrow> CreditTransaction list"
    and fresh :: "CreditTransaction \<Rightarrow> 's \<Rightarrow> bool"
  assumes entries_post: "fresh tx s \<Longrightarrow> entries (post tx s) a = entries s a @ (if tx_accountId tx = a then [tx] else [])"
begin

lemma balance_post:
  "fresh tx s \<Longrightarrow> sumCredits (entries (post tx s) a) =
     (if tx_accountId tx = a then n_add (sumCredits (entries s a)) (signedCredits tx) else sumCredits (entries s a))"
  by (simp add: entries_post sumCredits_def)

lemma post_covered_nonneg:
  assumes "fresh tx s" "\<And>a. 0 \<le> sumCredits (entries s a)" "- sumCredits (entries s (tx_accountId tx)) \<le> signedCredits tx"
  shows "0 \<le> sumCredits (entries (post tx s) a)"
  using assms(2) [of a] assms(3) by (auto simp: balance_post [OF assms(1)] n_add_def intro!: fl_nonneg)

end

interpretation engine: credit_ledger addTx engine_history "\<lambda>_ _. True"
  by unfold_locales (simp add: addTx_def engine_history_def jsm_get_set)

interpretation pg: credit_ledger persistCreditTransaction pg_transactions "\<lambda>tx pg. tx_txId tx \<notin> tx_txId ` set (credit_transactions pg)"
  by unfold_locales (simp add: persistCreditTransaction_def pg_transactions_def)

definition postTx :: "CreditTransaction \<Rightarrow> CreditStore \<Rightarrow> CreditStore" where
  "postTx tx st = (case pgStore st of None \<Rightarrow> st\<lparr> creditEngine := addTx tx (creditEngine st) \<rparr>
     | Some pg \<Rightarrow> st\<lparr> pgStore := Some (persistCreditTransaction tx pg) \<rparr>)"

definition accountTxs :: "CreditStore \<Rightarrow> string \<Rightarrow> CreditTransaction list" where
  "accountTxs st a = (case pgStore st of None \<Rightarrow> engine_history (creditEngine st) a | Some pg \<Rightarrow> pg_transactions pg a)"

definition freshTx :: "string \<Rightarrow> CreditStore \<Rightarrow> bool" where
  "freshTx uuid st = (case pgStore st of None \<Rightarrow> True | Some pg \<Rightarrow> uuid \<notin> tx_txId ` set (credit_transactions pg))"

interpretation store: credit_ledger postTx accountTxs "\<lambda>tx. freshTx (tx_txId tx)"
  by unfold_locales (auto simp: postTx_def accountTxs_def freshTx_def engine.entries_post pg.entries_post split: option.splits)

text \<open>The balance the store answers with, in either configuration.\<close>

definition storeBalance :: "CreditStore \<Rightarrow> string \<Rightarrow> num" where
  "storeBalance st a = (case pgStore st of None \<Rightarrow> engine_balance (creditEngine st) a | Some pg \<Rightarrow> creditBalance pg a)"

lemma storeBalance_sum: "storeBalance st a = sumCredits (accountTxs st a)"
  by (simp add: storeBalance_def accountTxs_def engine_balance_def engine_history_def creditBalance_def split: option.splits)

lemma adjustCredits_post: "adjustCredits u now a c reason st = (postTx (adjustTx u now a c reason) st, adjustTx u now a c reason)"
  by (simp add: adjustCredits_def postTx_def adjust_def Let_def split: option.splits)

lemma spendCredits_post:
  "spendCredits u now a c reason task st =
     (if storeBalance st a < c then (st, Inl (Insufficient_credits (storeBalance st a) c))
      else (postTx (spendTx u now a c reason task) st, Inr (spendTx u now a c reason task)))"
  by (simp add: spendCredits_def spendCheck_def spendInsert_def spend_def postTx_def storeBalance_def Let_def split: option.splits)

lemma accountTxs_accrueCredits:
  assumes "freshTx u st"
  shows "accountTxs (fst (accrueCredits u now r load st)) a = accountTxs st a @
    (case snd (accrueCredits u now r load st) of Inl _ \<Rightarrow> [] | Inr tx \<Rightarrow> if tx_accountId tx = a then [tx] else [])"
proof (cases "pgStore st")
  case None
  then show ?thesis
    by (simp add: accrueCredits_def accrue_def accountTxs_def Let_def earnTx_def addTx_def engine_history_def jsm_get_set)
next
  case (Some pg)
  have "pg_transactions (persistComputeContributionReport row p) a = pg_transactions p a" for row p
    by (simp add: persistComputeContributionReport_def pg_transactions_def)
  then show ?thesis using assms Some
    by (simp add: accrueCredits_def accountTxs_def Let_def freshTx_def pg.entries_post earnTx_def)
qed

lemma loadMultiplier_nonneg: "0 \<le> loadMultiplier load"
  by (simp add: loadMultiplier_def Let_def fl_nonneg)

lemma contributionCredits_nonneg: "0 \<le> contributionSeconds r \<Longrightarrow> 0 \<le> contributionCredits r load"
  unfolding contributionCredits_def n_mul_def
  by (intro to_fixed_nonneg fl_nonneg mult_nonneg_nonneg loadMultiplier_nonneg)
     (simp_all add: baseRatePerSecond_def qualityMultiplier_def)

lemma accrueCredits_tx: "snd (accrueCredits u now r load st) = Inr tx \<Longrightarrow>
   tx = earnTx u now (cr_agentId r) (contributionCredits r load) ''compute_contribution'' (Some (cr_taskId r))"
  by (auto simp: accrueCredits_def accrue_def Let_def split: option.splits if_splits prod.splits)

lemma signed_earn [simp]: "signedCredits (earnTx u now a c reason task) = c"
  by (simp add: signedCredits_def earnTx_def)

lemma signed_spend [simp]: "signedCredits (spendTx u now a c reason task) = - c"
  by (simp add: signedCredits_def spendTx_def)

lemma signed_adjust [simp]: "signedCredits (adjustTx u now a c reason) = c"
  by (simp add: adjustTx_def)

lemma account_tx [simp]:
  "tx_accountId (earnTx u now a c reason task) = a" "tx_accountId (spendTx u now a c reason task) = a"
  "tx_accountId (adjustTx u now a c reason) = a"
  "tx_txId (earnTx u now a c reason task) = u" "tx_txId (spendTx u now a c reason task) = u" "tx_txId (adjustTx u now a c reason) = u"
  by (simp_all add: earnTx_def spendTx_def adjustTx_def)

section \<open>No overdraft\<close>

lemma fl_sumCredits: "fl (sumCredits txs) = sumCredits txs"
  by (induction txs rule: rev_induct) (simp_all add: sumCredits_def n_add_def)

text \<open>
  The operations the coordinator performs on credits apart from the settlement of offline work: contributions
  of measured time, non-negative adjustments (purchases, the faucet), spending and the submission charge. With
  a database a spend is its two parts, with any other operations between them; the map holds the
  amount an account is about to spend, one at a time. In memory a spend is one step.
\<close>

inductive credit_step :: "CreditStore \<times> (string \<Rightarrow> num option) \<Rightarrow> CreditStore \<times> (string \<Rightarrow> num option) \<Rightarrow> bool" where
  step_accrue: "freshTx u st \<Longrightarrow> 0 \<le> contributionSeconds r \<Longrightarrow> credit_step (st, pend) (fst (accrueCredits u now r load st), pend)"
| step_adjust: "freshTx u st \<Longrightarrow> 0 \<le> c \<Longrightarrow> credit_step (st, pend) (fst (adjustCredits u now a c reason st), pend)"
| step_check: "pgStore st = Some pg \<Longrightarrow> pend a = None \<Longrightarrow> spendCheck a c pg = None \<Longrightarrow> credit_step (st, pend) (st, pend(a \<mapsto> c))"
| step_insert: "pgStore st = Some pg \<Longrightarrow> pend a = Some c \<Longrightarrow> freshTx u st \<Longrightarrow>
    credit_step (st, pend) (st\<lparr> pgStore := Some (spendInsert u now a c reason task pg) \<rparr>, pend(a := None))"
| step_memory: "pgStore st = None \<Longrightarrow> credit_step (st, pend) (fst (spendCredits u now a c reason task st), pend)"

definition solvent :: "CreditStore \<times> (string \<Rightarrow> num option) \<Rightarrow> bool" where
  "solvent sp = (case sp of (st, pend) \<Rightarrow> (\<forall>a. 0 \<le> storeBalance st a) \<and> (\<forall>a c. pend a = Some c \<longrightarrow> c \<le> storeBalance st a) \<and>
     (pgStore st = None \<longrightarrow> pend = (\<lambda>_. None)))"

lemma storeBalance_post:
  "freshTx (tx_txId tx) st \<Longrightarrow> storeBalance (postTx tx st) a =
     (if tx_accountId tx = a then fl (storeBalance st a + signedCredits tx) else storeBalance st a)"
  by (simp add: storeBalance_sum store.balance_post n_add_def)

text \<open>A balance only grows by an entry that is not negative, also with rounding.\<close>

lemma balance_grows:
  assumes "accountTxs st' a = accountTxs st a @ new" "\<forall>tx \<in> set new. 0 \<le> signedCredits tx"
  shows "storeBalance st a \<le> storeBalance st' a"
proof -
  have "sumCredits txs \<le> sumCredits (txs @ new)" for txs
    using assms(2)
  proof (induction new arbitrary: txs)
    case (Cons tx new)
    have "sumCredits txs = fl (sumCredits txs)" by (simp add: fl_sumCredits)
    also have "\<dots> \<le> fl (sumCredits txs + signedCredits tx)" using Cons.prems by (intro fl_mono) simp
    also have "\<dots> = sumCredits (txs @ [tx])" by (simp add: sumCredits_def n_add_def)
    also have "\<dots> \<le> sumCredits ((txs @ [tx]) @ new)" by (rule Cons.IH) (use Cons.prems in simp)
    finally show ?case by simp
  qed simp
  then show ?thesis by (simp add: storeBalance_sum assms(1))
qed

lemma solvent_grows:
  assumes "solvent (st, pend)" "\<And>a. storeBalance st a \<le> storeBalance st' a" "pgStore st' = None \<longleftrightarrow> pgStore st = None"
  shows "solvent (st', pend)"
  using assms unfolding solvent_def prod.case by (meson order_trans)

lemma solvent_accrue:
  assumes "solvent (st, pend)" "freshTx u st" "0 \<le> contributionSeconds r"
  shows "solvent (fst (accrueCredits u now r load st), pend)"
proof (rule solvent_grows [OF assms(1)])
  fix a
  have "0 \<le> signedCredits tx" if "snd (accrueCredits u now r load st) = Inr tx" for tx
    using accrueCredits_tx [OF that] contributionCredits_nonneg [OF assms(3)] by simp
  then show "storeBalance st a \<le> storeBalance (fst (accrueCredits u now r load st)) a"
    by (intro balance_grows [OF accountTxs_accrueCredits [OF assms(2)]]) (auto split: sum.splits)
qed (simp add: accrueCredits_def Let_def split: option.splits prod.splits)

lemma solvent_adjust:
  assumes "solvent (st, pend)" "freshTx u st" "0 \<le> c"
  shows "solvent (fst (adjustCredits u now a c reason st), pend)"
proof (rule solvent_grows [OF assms(1)])
  fix b
  show "storeBalance st b \<le> storeBalance (fst (adjustCredits u now a c reason st)) b"
    using assms(2,3) by (intro balance_grows [where new = "if a = b then [adjustTx u now a c reason] else []"])
      (simp_all add: adjustCredits_post store.entries_post)
qed (simp add: adjustCredits_def adjust_def Let_def split: option.splits)

lemma spendCheck_balance: "pgStore st = Some pg \<Longrightarrow> spendCheck a c pg = None \<longleftrightarrow> c \<le> storeBalance st a"
  by (auto simp: spendCheck_def storeBalance_def)

lemma spendInsert_post: "pgStore st = Some pg \<Longrightarrow> st\<lparr> pgStore := Some (spendInsert u now a c reason task pg) \<rparr> = postTx (spendTx u now a c reason task) st"
  by (simp add: spendInsert_def postTx_def)

lemma credit_step_solvent: "credit_step sp sp' \<Longrightarrow> solvent sp \<Longrightarrow> solvent sp'"
proof (induction rule: credit_step.induct)
  case (step_check st pg pend a c)
  then show ?case by (simp add: solvent_def spendCheck_balance)
next
  case (step_insert st pg pend a c u now reason task)
  have "0 \<le> fl (storeBalance st a - c)" using step_insert by (intro fl_nonneg) (simp add: solvent_def)
  moreover have "pgStore (postTx (spendTx u now a c reason task) st) \<noteq> None" using step_insert(1) by (simp add: postTx_def)
  ultimately show ?case using step_insert unfolding spendInsert_post [OF step_insert(1)] by (auto simp: solvent_def storeBalance_post)
next
  case (step_memory st pend u now a c reason task)
  have "0 \<le> fl (storeBalance st a - c)" if "c \<le> storeBalance st a" using that by (intro fl_nonneg) simp
  moreover have "freshTx u st" using step_memory by (simp add: freshTx_def)
  moreover have "pgStore (postTx (spendTx u now a c reason task) st) = None" using step_memory by (simp add: postTx_def)
  ultimately show ?case using step_memory by (simp add: spendCredits_post solvent_def storeBalance_post)
qed (simp_all add: solvent_accrue solvent_adjust)


text \<open>A spend and a submission charge that nothing disturbs are runs of these steps.\<close>

lemma spend_run:
  assumes "pend a = None" "freshTx u st"
  shows "credit_step\<^sup>*\<^sup>* (st, pend) (fst (spendCredits u now a c reason task st), pend)"
proof (cases "pgStore st")
  case None
  then show ?thesis by (intro r_into_rtranclp step_memory)
next
  case (Some pg)
  show ?thesis
  proof (cases "spendCheck a c pg")
    case None
    have 1: "credit_step (st, pend) (st, pend(a \<mapsto> c))" using Some assms(1) None by (rule step_check)
    have 2: "credit_step (st, pend(a \<mapsto> c)) (st\<lparr> pgStore := Some (spendInsert u now a c reason task pg) \<rparr>, (pend(a \<mapsto> c))(a := None))"
      using Some _ assms(2) by (rule step_insert) simp
    have "(pend(a \<mapsto> c))(a := None) = pend" using assms(1) by auto
    then have "credit_step\<^sup>*\<^sup>* (st, pend) (st\<lparr> pgStore := Some (spendInsert u now a c reason task pg) \<rparr>, pend)"
      using 1 2 by (metis converse_rtranclp_into_rtranclp r_into_rtranclp)
    then show ?thesis using Some None by (simp add: spendCredits_def)
  qed (simp add: spendCredits_def Some)
qed

lemma submit_run:
  assumes "pend a = None" "freshTx u st"
  shows "credit_step\<^sup>*\<^sup>* (st, pend) (fst (submitCharge cfg u now a task st), pend)"
  using spend_run [of pend a u st now 1 "''task_submit''" "Some task"] assms
  by (auto simp: submitCharge_def split: prod.splits sum.splits)

text \<open>Two spends that both read the balance before either inserts: each is covered, and together they overdraw the account.\<close>

lemma overlapping_spends_overdraw:
  assumes "pgStore st = Some pg" "storeBalance st a = c" "0 < c" "freshTx u1 st" "freshTx u2 st" "u1 \<noteq> u2"
    and st1: "st1 = postTx (spendTx u1 now1 a c reason1 task1) st"
  shows "spendCheck a c pg = None" and "storeBalance (postTx (spendTx u2 now2 a c reason2 task2) st1) a = - c"
proof -
  show "spendCheck a c pg = None" using assms(1,2) by (simp add: spendCheck_balance)
  have fr: "freshTx u2 st1" using assms(5,6) by (auto simp: st1 freshTx_def postTx_def persistCreditTransaction_def split: option.splits)
  have "storeBalance st1 a = 0" using assms(2,4) by (simp add: st1 storeBalance_post)
  moreover have "fl (- c) = - c" using assms(2) fl_sumCredits [of "accountTxs st a"] by (simp add: fl_minus storeBalance_sum)
  ultimately show "storeBalance (postTx (spendTx u2 now2 a c reason2 task2) st1) a = - c" using fr by (simp add: storeBalance_post)
qed

definition ex_store :: CreditStore where
  "ex_store = \<lparr> creditEngine = \<lparr> txByAccount = [], seenReports = [] \<rparr>,
     pgStore = Some \<lparr> credit_transactions = [], compute_contribution_reports = [], agent_ownership = [] \<rparr> \<rparr>"


section \<open>Contribution reports\<close>

text \<open>
  The engine pays a report once: a second accrual with the same report id fails and changes nothing,
  whatever happened in between on the engine. The database path has no such test: two accruals
  of one report with different generated ids record the payment twice, although the report itself
  is stored once.
\<close>

theorem contribution_report_payment:
  assumes "freshTx u st" "freshTx u' (fst (accrueCredits u now r load st))" "snd (accrueCredits u now r load st) = Inr tx"
  shows "case pgStore st of
     None \<Rightarrow> cr_reportId r \<in> set (seenReports (creditEngine (fst (accrueCredits u now r load st)))) \<and>
       (\<forall>st'. pgStore st' = None \<and> set (seenReports (creditEngine (fst (accrueCredits u now r load st)))) \<subseteq> set (seenReports (creditEngine st')) \<longrightarrow>
          accrueCredits u' now' r load' st' = (st', Inl Duplicate_contribution_report))
   | Some _ \<Rightarrow> accountTxs (fst (accrueCredits u' now' r load' (fst (accrueCredits u now r load st)))) (cr_agentId r) =
       accountTxs st (cr_agentId r) @
         [tx, earnTx u' now' (cr_agentId r) (contributionCredits r load') ''compute_contribution'' (Some (cr_taskId r))]"
proof (cases "pgStore st")
  case None
  have "cr_reportId r \<in> set (seenReports (creditEngine (fst (accrueCredits u now r load st))))"
    by (simp add: accrueCredits_def None accrue_def Let_def addTx_def)
  moreover have "accrueCredits u' now' r load' st' = (st', Inl Duplicate_contribution_report)"
    if "pgStore st' = None" "cr_reportId r \<in> set (seenReports (creditEngine st'))" for st'
    using that by (simp add: accrueCredits_def accrue_def)
  ultimately show ?thesis using None by auto
next
  case (Some pg)
  let ?st = "fst (accrueCredits u now r load st)"
  obtain p where "pgStore ?st = Some p" by (simp add: accrueCredits_def Some Let_def)
  then have "snd (accrueCredits u' now' r load' ?st) = Inr (earnTx u' now' (cr_agentId r) (contributionCredits r load') ''compute_contribution'' (Some (cr_taskId r)))"
    by (simp add: accrueCredits_def Let_def)
  moreover have "tx_accountId tx = cr_agentId r" using accrueCredits_tx [OF assms(3)] by simp
  ultimately show ?thesis using Some assms(3)
    by (simp add: accountTxs_accrueCredits [OF assms(2)] accountTxs_accrueCredits [OF assms(1)])
qed

definition ex_report :: ComputeContributionReport where
  "ex_report = \<lparr> cr_reportId = ''r1'', cr_agentId = ''ag'', cr_sourceAgentId = None, cr_taskId = ''t'', cr_resourceClass = Cpu,
     cr_cpuSeconds = 3, cr_gpuSeconds = 0, cr_success = True, cr_qualityScore = 1, cr_timestampMs = 1 \<rparr>"

definition ex_load :: LoadSnapshot where
  "ex_load = \<lparr> queuedTasks = 1, activeAgents = 1 \<rparr>"

lemma contribution_report_payment_witness:
  "accountTxs (fst (accrueCredits ''u2'' 2 ex_report ex_load (fst (accrueCredits ''u1'' 1 ex_report ex_load ex_store)))) ''ag'' =
     [earnTx ''u1'' 1 ''ag'' (contributionCredits ex_report ex_load) ''compute_contribution'' (Some ''t''),
      earnTx ''u2'' 2 ''ag'' (contributionCredits ex_report ex_load) ''compute_contribution'' (Some ''t'')]"
proof -
  let ?st = "fst (accrueCredits ''u1'' 1 ex_report ex_load ex_store)"
  have tx: "snd (accrueCredits ''u1'' 1 ex_report ex_load ex_store) =
      Inr (earnTx ''u1'' 1 ''ag'' (contributionCredits ex_report ex_load) ''compute_contribution'' (Some ''t''))"
    by (simp add: accrueCredits_def ex_store_def ex_report_def Let_def)
  have f: "freshTx ''u1'' ex_store" by (simp add: freshTx_def ex_store_def)
  have f': "freshTx ''u2'' ?st"
    by (simp add: freshTx_def accrueCredits_def ex_store_def Let_def persistComputeContributionReport_def persistCreditTransaction_def)
  have e: "pgStore ex_store = Some \<lparr> credit_transactions = [], compute_contribution_reports = [], agent_ownership = [] \<rparr>"
    "accountTxs ex_store ''ag'' = []" by (simp_all add: ex_store_def accountTxs_def pg_transactions_def)
  show ?thesis using contribution_report_payment [OF f f' tx, of 2 ex_load] unfolding e
    by (simp add: ex_report_def e)
qed

section \<open>Offline settlement\<close>

lemma freshTx_post: "freshTx u (postTx tx st) \<longleftrightarrow> freshTx u st \<and> (pgStore st = None \<or> u \<noteq> tx_txId tx)"
  by (auto simp: freshTx_def postTx_def persistCreditTransaction_def split: option.splits)

section \<open>Offline transactions are settled once\<close>

text \<open>A transaction that a handler has checked, credited, or credited and debited, and not yet marked.\<close>

datatype BleJob =
    B_checked BLECreditTransaction
  | B_credited BLECreditTransaction
  | B_debited BLECreditTransaction

type_synonym BleJobs = "string \<Rightarrow> BleJob option"

text \<open>
  The parts in any order, with other credit transactions between. The keys of the agents may change; at most one
  handler at a time works on a transaction id. The list records, for the statement only, which entry was
  made for which transaction.
\<close>

inductive ble_step ::
  "BleSync \<times> BleJobs \<times> (string \<times> CreditTransaction) list \<Rightarrow> BleSync \<times> BleJobs \<times> (string \<times> CreditTransaction) list \<Rightarrow> bool" where
  ble_check: "ble_txId tx = k \<Longrightarrow> bleAdmits cr num_text keyOf tx s \<Longrightarrow> js k = None \<Longrightarrow> ble_step (s, js, made) (s, js(k \<mapsto> B_checked tx), made)"
| ble_credit: "js k = Some (B_checked tx) \<Longrightarrow> freshTx u (ble_store s) \<Longrightarrow>
    t = adjustTx u now (rewardAccountForAgent (ble_providerId tx) (ble_store s)) (ble_credits tx) ''ble_compute'' \<Longrightarrow>
    ble_step (s, js, made) (bleCredit u now tx s, js(k \<mapsto> B_credited tx), made @ [(k, t)])"
| ble_debit: "js k = Some (B_credited tx) \<Longrightarrow> freshTx u (ble_store s) \<Longrightarrow>
    t = adjustTx u now (ble_requesterAccountId tx) (- ble_credits tx) ''ble_compute'' \<Longrightarrow>
    ble_step (s, js, made) (bleDebit u now tx s, js(k \<mapsto> B_debited tx), made @ [(k, t)])"
| ble_mark: "js k = Some (B_debited tx) \<Longrightarrow> ble_step (s, js, made) (bleMark tx s, js(k := None), made)"
| ble_other: "tx_reason t \<noteq> ''ble_compute'' \<Longrightarrow> freshTx (tx_txId t) (ble_store s) \<Longrightarrow>
    ble_step (s, js, made) (s\<lparr> ble_store := postTx t (ble_store s) \<rparr>, js, made)"

definition bleTxs :: "BleSync \<Rightarrow> string \<Rightarrow> CreditTransaction list" where
  "bleTxs s a = filter (\<lambda>t. tx_reason t = ''ble_compute'') (accountTxs (ble_store s) a)"

definition entriesFor :: "string \<Rightarrow> (string \<times> CreditTransaction) list \<Rightarrow> num list" where
  "entriesFor k made = map (signedCredits \<circ> snd) (filter (\<lambda>(i, _). i = k) made)"

lemma entriesFor_simps [simp]: "entriesFor k [] = []"
  "entriesFor k (made @ [(i, t)]) = entriesFor k made @ (if i = k then [signedCredits t] else [])"
  by (simp_all add: entriesFor_def)

text \<open>What has been entered for a transaction id, by the progress of its handler.\<close>

definition bleEntries :: "string list \<Rightarrow> string list \<Rightarrow> string \<Rightarrow> BleJob option \<Rightarrow> num list \<Rightarrow> bool" where
  "bleEntries before after k j l = (case j of
     Some (B_checked tx) \<Rightarrow> ble_txId tx = k \<and> l = []
   | Some (B_credited tx) \<Rightarrow> ble_txId tx = k \<and> l = [ble_credits tx]
   | Some (B_debited tx) \<Rightarrow> ble_txId tx = k \<and> l = [ble_credits tx, - ble_credits tx]
   | None \<Rightarrow> if k \<in> set after - set before then \<exists>c. l = [c, - c] else l = [])"

definition ble_inv :: "BleSync \<Rightarrow> BleSync \<times> BleJobs \<times> (string \<times> CreditTransaction) list \<Rightarrow> bool" where
  "ble_inv s0 st = (case st of (s, js, made) \<Rightarrow>
     set (syncedBLETxIds s0) \<subseteq> set (syncedBLETxIds s) \<and> (\<forall>k. js k \<noteq> None \<longrightarrow> k \<notin> set (syncedBLETxIds s0)) \<and>
     (\<forall>a. bleTxs s a = bleTxs s0 a @ filter (\<lambda>t. tx_accountId t = a) (map snd made)) \<and>
     (\<forall>k. bleEntries (syncedBLETxIds s0) (syncedBLETxIds s) k (js k) (entriesFor k made)))"

lemma bleTxs_adjust:
  assumes "freshTx u (ble_store s)"
  shows "bleTxs (s\<lparr> ble_store := fst (adjustCredits u now b c ''ble_compute'' (ble_store s)) \<rparr>) a =
    bleTxs s a @ (if b = a then [adjustTx u now b c ''ble_compute''] else [])"
  using assms by (simp add: bleTxs_def adjustCredits_post store.entries_post adjustTx_def earnTx_def spendTx_def)

lemma ble_inv_post:
  assumes "ble_inv s0 (s, js, made)" "js k \<noteq> None" "syncedBLETxIds s' = syncedBLETxIds s"
    and "\<And>a. bleTxs s' a = bleTxs s a @ (if tx_accountId t = a then [t] else [])"
    and "bleEntries (syncedBLETxIds s0) (syncedBLETxIds s) k (Some j) (entriesFor k made @ [signedCredits t])"
  shows "ble_inv s0 (s', js(k \<mapsto> j), made @ [(k, t)])"
  using assms by (simp add: ble_inv_def)

lemma ble_inv_slot: "ble_inv s0 (s, js, made) \<Longrightarrow> js k = j \<Longrightarrow> bleEntries (syncedBLETxIds s0) (syncedBLETxIds s) k j (entriesFor k made)"
  by (auto simp: ble_inv_def)

lemma ble_step_inv: "ble_step st st' \<Longrightarrow> ble_inv s0 st \<Longrightarrow> ble_inv s0 st'"
proof (induction rule: ble_step.induct)
  case (ble_check tx k cr num_text keyOf s js made)
  have "k \<notin> set (syncedBLETxIds s)" using ble_check by (auto simp: bleAdmits_def)
  moreover have "set (syncedBLETxIds s0) \<subseteq> set (syncedBLETxIds s)" using ble_check.prems by (simp add: ble_inv_def)
  ultimately have "k \<notin> set (syncedBLETxIds s0)" "entriesFor k made = []"
    using ble_inv_slot [OF ble_check.prems ble_check.hyps(3)] by (auto simp: bleEntries_def)
  then show ?case using ble_check by (simp add: ble_inv_def bleEntries_def)
next
  case (ble_credit js k tx u s t now made)
  have "bleEntries (syncedBLETxIds s0) (syncedBLETxIds s) k (Some (B_credited tx)) (entriesFor k made @ [signedCredits t])"
    using ble_inv_slot [OF ble_credit.prems ble_credit.hyps(1)] ble_credit.hyps(3) by (simp add: bleEntries_def)
  then show ?case using ble_credit by (intro ble_inv_post) (simp_all add: bleCredit_def bleTxs_adjust)
next
  case (ble_debit js k tx u s t now made)
  have "bleEntries (syncedBLETxIds s0) (syncedBLETxIds s) k (Some (B_debited tx)) (entriesFor k made @ [signedCredits t])"
    using ble_inv_slot [OF ble_debit.prems ble_debit.hyps(1)] ble_debit.hyps(3) by (simp add: bleEntries_def)
  then show ?case using ble_debit by (intro ble_inv_post) (simp_all add: bleDebit_def bleTxs_adjust)
next
  case (ble_mark js k tx s made)
  have k: "ble_txId tx = k" "entriesFor k made = [ble_credits tx, - ble_credits tx]" "k \<notin> set (syncedBLETxIds s0)"
    using ble_inv_slot [OF ble_mark.prems ble_mark.hyps(1)] ble_mark by (auto simp: bleEntries_def ble_inv_def)
  have "bleEntries (syncedBLETxIds s0) (syncedBLETxIds (bleMark tx s)) i ((js(k := None)) i) (entriesFor i made)" for i
    using ble_inv_slot [OF ble_mark.prems refl, of i] k by (auto simp: bleEntries_def bleMark_def split: option.splits)
  moreover have "bleTxs (bleMark tx s) a = bleTxs s a" for a by (simp add: bleTxs_def bleMark_def)
  ultimately show ?case using ble_mark.prems by (auto simp: ble_inv_def bleMark_def)
next
  case (ble_other t s js made)
  have "bleTxs (s\<lparr> ble_store := postTx t (ble_store s) \<rparr>) a = bleTxs s a" for a
    using ble_other.hyps by (simp add: bleTxs_def store.entries_post)
  then show ?case using ble_other.prems by (simp add: ble_inv_def)
qed

text \<open>
  C38: Offline settlement. While at most one handler at a time works on a transaction id, each transaction is
  settled once, ever: in any interleaving of the parts of the handlers (batches that share no transaction
  overlap freely, and batches repeat earlier ones), with other credit transactions between, the offline entries of
  every account are those it had and, in order, the ones made for the transactions; for a transaction id these are
  a credit and a debit of the same number when it has become synced, a prefix of
  the pair while its handler is at work, and nothing otherwise. Overlapping handlers of one
  transaction settle it more than once (\<open>overlapping_syncs_settle_twice\<close>).
\<close>

theorem ble_sync_settles_once:
  assumes "ble_step\<^sup>*\<^sup>* (s0, \<lambda>_. None, []) (s, js, made)"
  shows "filter (\<lambda>t. tx_reason t = ''ble_compute'') (accountTxs (ble_store s) a) =
       filter (\<lambda>t. tx_reason t = ''ble_compute'') (accountTxs (ble_store s0) a) @ filter (\<lambda>t. tx_accountId t = a) (map snd made) \<and>
    (case js k of
       Some (B_checked tx) \<Rightarrow> entriesFor k made = []
     | Some (B_credited tx) \<Rightarrow> entriesFor k made = [ble_credits tx]
     | Some (B_debited tx) \<Rightarrow> entriesFor k made = [ble_credits tx, - ble_credits tx]
     | None \<Rightarrow> if k \<in> set (syncedBLETxIds s) - set (syncedBLETxIds s0) then \<exists>c. entriesFor k made = [c, - c] else entriesFor k made = [])"
proof
  have "ble_inv s0 (s0, \<lambda>_. None, [])" by (simp add: ble_inv_def bleEntries_def)
  with assms have inv: "ble_inv s0 (s, js, made)" by (induction rule: rtranclp_induct) (simp_all add: ble_step_inv)
  then show "filter (\<lambda>t. tx_reason t = ''ble_compute'') (accountTxs (ble_store s) a) =
       filter (\<lambda>t. tx_reason t = ''ble_compute'') (accountTxs (ble_store s0) a) @ filter (\<lambda>t. tx_accountId t = a) (map snd made)"
    by (simp add: ble_inv_def bleTxs_def)
  show "case js k of
       Some (B_checked tx) \<Rightarrow> entriesFor k made = []
     | Some (B_credited tx) \<Rightarrow> entriesFor k made = [ble_credits tx]
     | Some (B_debited tx) \<Rightarrow> entriesFor k made = [ble_credits tx, - ble_credits tx]
     | None \<Rightarrow> if k \<in> set (syncedBLETxIds s) - set (syncedBLETxIds s0) then \<exists>c. entriesFor k made = [c, - c] else entriesFor k made = []"
    using ble_inv_slot [OF inv refl, of k] unfolding bleEntries_def by (simp split: option.splits BleJob.splits)
qed

text \<open>A transaction settled by the loop, with nothing between its parts, is a run of them.\<close>

lemma bleSyncOne_run:
  assumes "js (ble_txId tx) = None" "freshTx u1 (ble_store s)" "freshTx u2 (ble_store s)" "u1 \<noteq> u2"
  shows "\<exists>made'. ble_step\<^sup>*\<^sup>* (s, js, made) (fst (bleSyncOne cr nt keyOf now ((u1, u2), tx) (s, applied, skipped)), js, made')"
proof (cases "bleAdmits cr nt keyOf tx s")
  case True
  let ?k = "ble_txId tx"
  let ?t1 = "adjustTx u1 now (rewardAccountForAgent (ble_providerId tx) (ble_store s)) (ble_credits tx) ''ble_compute''"
  let ?s1 = "bleCredit u1 now tx s"
  let ?t2 = "adjustTx u2 now (ble_requesterAccountId tx) (- ble_credits tx) ''ble_compute''"
  have f2: "freshTx u2 (ble_store ?s1)" using assms(3,4)
    by (auto simp: bleCredit_def adjustCredits_post freshTx_def postTx_def persistCreditTransaction_def split: option.splits)
  have 1: "ble_step (s, js, made) (s, js(?k \<mapsto> B_checked tx), made)" using refl True assms(1) by (rule ble_check)
  have 2: "ble_step (s, js(?k \<mapsto> B_checked tx), made) (?s1, js(?k \<mapsto> B_credited tx), made @ [(?k, ?t1)])"
    using ble_credit [of "js(?k \<mapsto> B_checked tx)" ?k tx u1 s ?t1 now made] assms(2) by simp
  have 3: "ble_step (?s1, js(?k \<mapsto> B_credited tx), made @ [(?k, ?t1)]) (bleDebit u2 now tx ?s1, js(?k \<mapsto> B_debited tx), (made @ [(?k, ?t1)]) @ [(?k, ?t2)])"
    using ble_debit [of "js(?k \<mapsto> B_credited tx)" ?k tx u2 ?s1 ?t2 now "made @ [(?k, ?t1)]"] f2 by simp
  have 4: "ble_step (bleDebit u2 now tx ?s1, js(?k \<mapsto> B_debited tx), (made @ [(?k, ?t1)]) @ [(?k, ?t2)])
      (bleMark tx (bleDebit u2 now tx ?s1), js(?k := None), (made @ [(?k, ?t1)]) @ [(?k, ?t2)])"
    using ble_mark [of "js(?k \<mapsto> B_debited tx)" ?k tx] by simp
  have js: "js(?k := None) = js" using assms(1) by auto
  have "ble_step\<^sup>*\<^sup>* (s, js, made) (bleMark tx (bleDebit u2 now tx ?s1), js(?k := None), (made @ [(?k, ?t1)]) @ [(?k, ?t2)])"
    by (rule converse_rtranclp_into_rtranclp, rule 1, rule converse_rtranclp_into_rtranclp, rule 2,
        rule converse_rtranclp_into_rtranclp, rule 3, rule r_into_rtranclp, rule 4)
  then show ?thesis using True unfolding bleSyncOne_def js by auto
qed (auto simp: bleSyncOne_def)

text \<open>A second handler checks the transaction while the first has credited and not marked it: both settle it.\<close>

lemma overlapping_syncs_settle_twice:
  assumes "bleAdmits cr nt keyOf tx s"
  shows "bleAdmits cr nt keyOf tx (bleDebit u2 now tx (bleCredit u1 now tx s))"
    and "freshTx u1 (ble_store s) \<Longrightarrow> freshTx u3 (ble_store s) \<Longrightarrow> u1 \<noteq> u3 \<Longrightarrow>
      a = rewardAccountForAgent (ble_providerId tx) (ble_store s) \<Longrightarrow>
      map signedCredits (bleTxs (bleCredit u3 now' tx (bleCredit u1 now tx s)) a) = map signedCredits (bleTxs s a) @ [ble_credits tx, ble_credits tx]"
proof -
  show "bleAdmits cr nt keyOf tx (bleDebit u2 now tx (bleCredit u1 now tx s))"
    using assms by (simp add: bleAdmits_def bleDebit_def bleCredit_def)
  assume f: "freshTx u1 (ble_store s)" "freshTx u3 (ble_store s)" "u1 \<noteq> u3" and a: "a = rewardAccountForAgent (ble_providerId tx) (ble_store s)"
  have own: "rewardAccountForAgent g (ble_store (bleCredit u1 now tx s)) = rewardAccountForAgent g (ble_store s)" for g
    by (simp add: bleCredit_def adjustCredits_post rewardAccountForAgent_def postTx_def persistCreditTransaction_def split: option.splits)
  have f3: "freshTx u3 (ble_store (bleCredit u1 now tx s))" using f
    by (auto simp: bleCredit_def adjustCredits_post freshTx_def postTx_def persistCreditTransaction_def split: option.splits)
  have cr: "bleTxs (bleCredit u n tx s') a = bleTxs s' a @
      (if rewardAccountForAgent (ble_providerId tx) (ble_store s') = a
       then [adjustTx u n (rewardAccountForAgent (ble_providerId tx) (ble_store s')) (ble_credits tx) ''ble_compute''] else [])"
    if "freshTx u (ble_store s')" for u n s'
    unfolding bleCredit_def by (rule bleTxs_adjust [OF that])
  show "map signedCredits (bleTxs (bleCredit u3 now' tx (bleCredit u1 now tx s)) a) = map signedCredits (bleTxs s a) @ [ble_credits tx, ble_credits tx]"
    unfolding cr [OF f3] cr [OF f(1)] own using a by simp
qed

definition ex_ble :: BLECreditTransaction where
  "ex_ble = \<lparr> ble_txId = ''b1'', ble_requesterId = ''ra'', ble_providerId = ''pa'', ble_requesterAccountId = ''racc'',
     ble_providerAccountId = ''pacc'', ble_credits = 2, ble_cpuSeconds = 2, ble_taskHash = ''h'', ble_timestamp = 1,
     ble_requesterSignature = [], ble_providerSignature = [] \<rparr>"

theorem ble_sync_settles_once_witness:
  "\<exists>s js made. s = fst (bleSyncOne ex_crypto (\<lambda>_. []) (\<lambda>_. Some ''key'') 5 ((''u1'', ''u2''), ex_ble) (\<lparr> syncedBLETxIds = [], ble_store = ex_store \<rparr>, [], [])) \<and>
     syncedBLETxIds s = [''b1''] \<and> js ''b1'' = None \<and> (\<exists>c. entriesFor ''b1'' made = [c, - c])"
proof -
  let ?start = "\<lparr> syncedBLETxIds = [], ble_store = ex_store \<rparr>"
  let ?s = "fst (bleSyncOne ex_crypto (\<lambda>_. []) (\<lambda>_. Some ''key'') 5 ((''u1'', ''u2''), ex_ble) (?start, [], []))"
  have "freshTx ''u1'' ex_store" "freshTx ''u2'' ex_store" by (simp_all add: freshTx_def ex_store_def)
  then obtain made where run: "ble_step\<^sup>*\<^sup>* (?start, \<lambda>_. None, []) (?s, \<lambda>_. None, made)"
    using bleSyncOne_run [of "\<lambda>_. None" ex_ble "''u1''" ?start "''u2''" "[]" ex_crypto "\<lambda>_. []" "\<lambda>_. Some ''key''" 5 "[]" "[]"] by auto
  have ids: "syncedBLETxIds ?s = [''b1'']"
    by (simp add: bleSyncOne_def bleAdmits_def bleRefused_def signatureRefused_def ex_ble_def bleMark_def bleDebit_def bleCredit_def) (simp add: jss_add_def)
  have new: "''b1'' \<in> set (syncedBLETxIds ?s) - set (syncedBLETxIds ?start)" by (unfold ids) simp
  have ex: "\<exists>c. entriesFor ''b1'' made = [c, - c]"
    using ble_sync_settles_once [OF run, of "[]" "''b1''"] unfolding if_P [OF new] by simp
  show ?thesis by (rule exI [of _ ?s], rule exI [of _ "\<lambda>_. None"], rule exI [of _ made], intro conjI refl ids ex)
qed

text \<open>A transaction that is synced is skipped, however often a batch repeats it.\<close>

lemma ble_synced_skipped:
  assumes "ble_txId tx \<in> set (syncedBLETxIds s)"
  shows "bleSyncOne cr nt keyOf now (u, tx) (s, applied, skipped) = (s, applied, skipped @ [ble_txId tx])"
  using assms by (cases u) (simp add: bleSyncOne_def bleAdmits_def)

text \<open>An unsigned transaction is settled even between agents whose keys are registered.\<close>

lemma ble_unsigned_settled:
  assumes "ble_requesterSignature tx = []" "ble_providerSignature tx = []" "ble_txId tx \<notin> set (syncedBLETxIds s)"
  shows "fst (snd (bleSyncOne cr nt keyOf now (u, tx) (s, applied, skipped))) = applied @ [ble_txId tx]"
  using assms by (cases u) (simp add: bleSyncOne_def bleAdmits_def bleRefused_def signatureRefused_def)

end
