(* ===== verification/Economy.thy ===== *)
theory Economy
  imports Credits
begin

text \<open>
  Prices, issuance and the issuance quorum: \<open>src/src/economy/pricing.ts\<close>, \<open>issuance.ts\<close>, \<open>treasury.ts\<close> and the
  coordinator's price negotiation, issuance tick, vote and treasury routes in \<open>swarm/coordinator.ts\<close>. The
  responses of other coordinators, the rows of the rolling contribution query, \<open>JSON.parse\<close> and the
  decimal text of a number are arguments.
\<close>

section \<open>Prices\<close>

record DynamicPriceInputs =
  dp_cpuCapacity :: num
  dp_gpuCapacity :: num
  dp_queuedTasks :: num
  dp_activeAgents :: num

definition computeDynamicPricePerComputeUnitSats :: "ResourceClass \<Rightarrow> DynamicPriceInputs \<Rightarrow> int" where
  "computeDynamicPricePerComputeUnitSats rc inputs =
     (let capacity = (if rc = Gpu then max 1 (dp_gpuCapacity inputs) else max 1 (dp_cpuCapacity inputs));
          demand = max 1 (n_add (dp_queuedTasks inputs) (dp_activeAgents inputs));
          scarcity = n_div demand capacity;
          base = (if rc = Gpu then 120 else 30);
          multiplier = clampN (n_add (fl (65 / 100)) (n_mul scarcity (fl (35 / 100)))) (fl (35 / 100)) 4
      in max 1 (math_round (n_mul base multiplier)))"

definition creditsForSats :: "num \<Rightarrow> num \<Rightarrow> num" where
  "creditsForSats netSats satsPerCredit = (if satsPerCredit \<le> 0 then 0 else to_fixed 3 (n_div netSats satsPerCredit))"

definition satsForCredits :: "num \<Rightarrow> num \<Rightarrow> int" where
  "satsForCredits credits satsPerCredit = (if satsPerCredit \<le> 0 \<or> credits \<le> 0 then 0 else \<lfloor>n_mul credits satsPerCredit\<rfloor>)"

record PriceEpochRecord =
  pe_epochId :: string
  pe_coordinatorId :: string
  pe_resourceClass :: ResourceClass
  pe_pricePerComputeUnitSats :: num
  pe_supplyIndex :: num
  pe_demandIndex :: num
  pe_negotiatedWith :: "string list"
  pe_signature :: string
  pe_createdAtMs :: ms

text \<open>A coordinator's own identity, with the text a number has in JSON.\<close>

record Identity =
  id_peerId :: string
  id_privateKeyPem :: string
  id_num_text :: "num \<Rightarrow> string"

definition resource_name :: "ResourceClass \<Rightarrow> string" where
  "resource_name rc = (case rc of Cpu \<Rightarrow> ''cpu'' | Gpu \<Rightarrow> ''gpu'')"

definition pricePayload :: "Identity \<Rightarrow> ResourceClass \<Rightarrow> num \<Rightarrow> ms \<Rightarrow> string" where
  "pricePayload me rc price now =
     ''{'' @ json_str ''resourceClass'' @ '':'' @ json_str (resource_name rc) @ '','' @
     json_str ''pricePerComputeUnitSats'' @ '':'' @ id_num_text me price @ '','' @
     json_str ''coordinatorId'' @ '':'' @ json_str (id_peerId me) @ '','' @ json_str ''createdAtMs'' @ '':'' @ int_str now @ ''}''"

definition priceEpoch :: "crypto \<Rightarrow> Identity \<Rightarrow> string \<Rightarrow> ms \<Rightarrow> ResourceClass \<Rightarrow> num \<Rightarrow> DynamicPriceInputs \<Rightarrow> string list \<Rightarrow> PriceEpochRecord" where
  "priceEpoch cr me uuid now rc price body with = \<lparr> pe_epochId = uuid, pe_coordinatorId = id_peerId me, pe_resourceClass = rc,
     pe_pricePerComputeUnitSats = price, pe_supplyIndex = (if rc = Gpu then dp_gpuCapacity body else dp_cpuCapacity body),
     pe_demandIndex = n_add (dp_queuedTasks body) (dp_activeAgents body), pe_negotiatedWith = with,
     pe_signature = signPayload cr (pricePayload me rc price now) (id_privateKeyPem me), pe_createdAtMs = now \<rparr>"

type_synonym PriceEpochs = "(ResourceClass, PriceEpochRecord) jsmap"

definition isApprovedCoordinator :: "string list \<Rightarrow> string \<Rightarrow> bool" where
  "isApprovedCoordinator approvedIds peerId = (if approvedIds = [] then True else peerId \<in> set approvedIds)"

text \<open>\<open>None\<close> where the proposing coordinator is not approved.\<close>

definition proposePrice ::
  "crypto \<Rightarrow> Identity \<Rightarrow> string list \<Rightarrow> string \<times> string \<Rightarrow> ms \<Rightarrow> string \<Rightarrow> DynamicPriceInputs \<Rightarrow> PriceEpochs \<Rightarrow> PriceEpochs \<times> PriceEpochRecord list option" where
  "proposePrice cr me approvedIds uuids now coordinatorId body epochs =
     (if \<not> isApprovedCoordinator approvedIds coordinatorId then (epochs, None)
      else (let make = (\<lambda>rc uuid. priceEpoch cr me uuid now rc (of_int (computeDynamicPricePerComputeUnitSats rc body)) body [coordinatorId]);
                cpu = make Cpu (fst uuids); gpu = make Gpu (snd uuids)
            in (jsm_set Gpu gpu (jsm_set Cpu cpu epochs), Some [cpu, gpu])))"

text \<open>
  Negotiation. A peer answers with its quote, or not at all (an error status or a failed request); the
  answers are in the order they arrive.
\<close>

record PeerQuote =
  pq_peerId :: string
  pq_coordinatorId :: string
  pq_price :: num
  pq_reputationWeight :: "num option"

definition quoteWeight :: "(string, num) jsmap \<Rightarrow> PeerQuote \<Rightarrow> num" where
  "quoteWeight peerScore q = max 1 (min 500 (nullish (pq_reputationWeight q) (nullish (jsm_get peerScore (pq_peerId q)) 100)))"

definition localWeight :: "Identity \<Rightarrow> (string, num) jsmap \<Rightarrow> num" where
  "localWeight me peerScore = max 1 (nullish (jsm_get peerScore (id_peerId me)) 120)"

definition priceQuotes ::
  "Identity \<Rightarrow> (string, num) jsmap \<Rightarrow> ResourceClass \<Rightarrow> DynamicPriceInputs \<Rightarrow> PeerQuote option list \<Rightarrow> (string \<times> num \<times> num) list" where
  "priceQuotes me peerScore rc body answers =
     (id_peerId me, of_int (computeDynamicPricePerComputeUnitSats rc body), localWeight me peerScore) #
     List.map_filter (map_option (\<lambda>q. (pq_coordinatorId q, pq_price q, quoteWeight peerScore q))) answers"

definition negotiate ::
  "crypto \<Rightarrow> Identity \<Rightarrow> (string, num) jsmap \<Rightarrow> string \<Rightarrow> ms \<Rightarrow> DynamicPriceInputs \<Rightarrow> ResourceClass \<Rightarrow> PeerQuote option list \<Rightarrow>
   PriceEpochs \<Rightarrow> PriceEpochs \<times> PriceEpochRecord" where
  "negotiate cr me peerScore uuid now body rc answers epochs =
     (let quotes = priceQuotes me peerScore rc body answers;
          finalPrice = weightedMedian (map snd quotes);
          epoch = priceEpoch cr me uuid now rc finalPrice body (foldl (\<lambda>acc q. jss_add (fst q) acc) [] quotes)
      in (jsm_set rc epoch epochs, epoch))"

section \<open>Issuance\<close>

record IssuancePoolConfig =
  baseDailyPoolTokens :: num
  minDailyPoolTokens :: num
  maxDailyPoolTokens :: num
  loadCurveSlope :: num
  smoothingAlpha :: num

definition computeLoadIndex :: "DynamicPriceInputs \<Rightarrow> num" where
  "computeLoadIndex inputs =
     (let capacity = max 1 (n_add (dp_cpuCapacity inputs) (n_mul (dp_gpuCapacity inputs) 2));
          demand = max 1 (n_add (dp_queuedTasks inputs) (dp_activeAgents inputs));
          scarcity = n_div demand capacity
      in to_fixed 6 (clampN scarcity (fl (2 / 10)) 6))"

definition smoothLoadIndex :: "num option \<Rightarrow> num \<Rightarrow> num \<Rightarrow> num" where
  "smoothLoadIndex previous current alpha =
     (case previous of None \<Rightarrow> current
      | Some p \<Rightarrow> (let a = clampN alpha (fl (1 / 100)) 1 in to_fixed 6 (n_add (n_mul p (n_sub 1 a)) (n_mul current a))))"

definition computeDailyPoolTokens :: "num \<Rightarrow> IssuancePoolConfig \<Rightarrow> num" where
  "computeDailyPoolTokens loadIndex config =
     (let scaled = n_mul (baseDailyPoolTokens config) (n_add 1 (n_mul (max 0 (n_sub loadIndex 1)) (loadCurveSlope config)))
      in to_fixed 6 (clampN scaled (minDailyPoolTokens config) (maxDailyPoolTokens config)))"

record RollingContributionShare =
  rs_accountId :: string
  rs_cpuSeconds :: num
  rs_gpuSeconds :: num
  rs_avgQualityScore :: num
  rs_reliabilityScore :: num
  rs_weightedContribution :: num

record Allocation =
  al_accountId :: string
  al_weightedContribution :: num
  al_allocationShare :: num
  al_issuedTokens :: num

definition totalWeighted :: "RollingContributionShare list \<Rightarrow> num" where
  "totalWeighted shares = foldl (\<lambda>s i. n_add s (max 0 (rs_weightedContribution i))) 0 shares"

definition computeHourlyIssuanceAllocations :: "RollingContributionShare list \<Rightarrow> num \<Rightarrow> Allocation list" where
  "computeHourlyIssuanceAllocations shares dailyPoolTokens =
     (let hourlyTokens = n_div dailyPoolTokens 24 in
      if totalWeighted shares \<le> 0 \<or> hourlyTokens \<le> 0 then []
      else map (\<lambda>i. let allocationShare = n_div (rs_weightedContribution i) (totalWeighted shares) in
                  \<lparr> al_accountId = rs_accountId i, al_weightedContribution = to_fixed 6 (rs_weightedContribution i),
                    al_allocationShare = to_fixed 9 allocationShare, al_issuedTokens = to_fixed 6 (n_mul hourlyTokens allocationShare) \<rparr>)
             (filter (\<lambda>i. rs_weightedContribution i > 0) shares))"

section \<open>Treasury policy\<close>

datatype PolicyStatus = Draft | Active | Retired

record TreasuryPolicy =
  tp_policyId :: string
  tp_treasuryAccountId :: string
  tp_multisigDescriptor :: string
  tp_quorumThreshold :: nat
  tp_totalCustodians :: nat
  tp_approvedCoordinatorIds :: "string list"
  tp_keyRotationDays :: nat
  tp_status :: PolicyStatus
  tp_createdAtMs :: ms
  tp_updatedAtMs :: ms

datatype CustodyAction = Create_policy | Activate_policy

record KeyCustodyEvent =
  kc_eventId :: string
  kc_policyId :: string
  kc_actorId :: string
  kc_action :: CustodyAction
  kc_details :: string
  kc_signature :: string
  kc_createdAtMs :: ms

definition action_name :: "CustodyAction \<Rightarrow> string" where
  "action_name a = (case a of Create_policy \<Rightarrow> ''create_policy'' | Activate_policy \<Rightarrow> ''activate_policy'')"

definition signKeyCustodyEvent :: "crypto \<Rightarrow> string \<Rightarrow> ms \<Rightarrow> string \<Rightarrow> string \<Rightarrow> CustodyAction \<Rightarrow> string \<Rightarrow> string \<Rightarrow> KeyCustodyEvent" where
  "signKeyCustodyEvent cr uuid now policyId actorId action details privateKeyPem =
     \<lparr> kc_eventId = uuid, kc_policyId = policyId, kc_actorId = actorId, kc_action = action, kc_details = details,
       kc_signature = signPayload cr (json_text (JObj [(''policyId'', JStr policyId), (''actorId'', JStr actorId),
         (''action'', JStr (action_name action)), (''details'', JStr details), (''createdAtMs'', JNum now)])) privateKeyPem,
       kc_createdAtMs = now \<rparr>"

record TreasuryInput =
  ti_treasuryAccountId :: string
  ti_multisigDescriptor :: string
  ti_quorumThreshold :: nat
  ti_totalCustodians :: nat
  ti_approvedCoordinatorIds :: "string list"
  ti_keyRotationDays :: nat

definition createTreasuryPolicy :: "string \<Rightarrow> ms \<Rightarrow> TreasuryInput \<Rightarrow> TreasuryPolicy" where
  "createTreasuryPolicy uuid now i = \<lparr> tp_policyId = uuid, tp_treasuryAccountId = ti_treasuryAccountId i,
     tp_multisigDescriptor = ti_multisigDescriptor i, tp_quorumThreshold = ti_quorumThreshold i,
     tp_totalCustodians = ti_totalCustodians i, tp_approvedCoordinatorIds = ti_approvedCoordinatorIds i,
     tp_keyRotationDays = ti_keyRotationDays i, tp_status = Draft, tp_createdAtMs = now, tp_updatedAtMs = now \<rparr>"

text \<open>The coordinator's variables \<open>treasuryPolicy\<close> and \<open>keyCustodyEvents\<close> (newest first).\<close>

type_synonym Treasury = "TreasuryPolicy option \<times> KeyCustodyEvent list"

definition postPolicy :: "crypto \<Rightarrow> Identity \<Rightarrow> string \<times> string \<Rightarrow> ms \<Rightarrow> string \<Rightarrow> TreasuryInput \<Rightarrow> Treasury \<Rightarrow> Treasury \<times> TreasuryPolicy option" where
  "postPolicy cr me uuids now requestedBy i = (\<lambda>(policy, events).
     if ti_quorumThreshold i > ti_totalCustodians i then ((policy, events), None)
     else (let created = createTreasuryPolicy (fst uuids) now i;
               event = signKeyCustodyEvent cr (snd uuids) now (tp_policyId created) requestedBy Create_policy
                 (''treasury='' @ tp_treasuryAccountId created @ '';quorum='' @ nat_str (tp_quorumThreshold created) @ ''/'' @ nat_str (tp_totalCustodians created))
                 (id_privateKeyPem me)
           in ((Some created, event # events), Some created)))"

definition activatePolicy :: "crypto \<Rightarrow> Identity \<Rightarrow> string \<Rightarrow> ms \<Rightarrow> string \<Rightarrow> string \<Rightarrow> Treasury \<Rightarrow> Treasury \<times> TreasuryPolicy option" where
  "activatePolicy cr me uuid now requestedBy policyId = (\<lambda>(policy, events).
     case policy of
       None \<Rightarrow> ((policy, events), None)
     | Some p \<Rightarrow>
         if tp_policyId p \<noteq> policyId then ((policy, events), None)
         else (let p' = p\<lparr> tp_status := Active, tp_updatedAtMs := now \<rparr>;
                   event = signKeyCustodyEvent cr uuid now (tp_policyId p') requestedBy Activate_policy ''policy_activated'' (id_privateKeyPem me)
               in ((Some p', event # events), Some p')))"

definition quorumThreshold :: "TreasuryPolicy option \<Rightarrow> nat" where
  "quorumThreshold policy =
     (case policy of None \<Rightarrow> 1
      | Some p \<Rightarrow> if tp_approvedCoordinatorIds p = [] then 1 else max 1 (length (tp_approvedCoordinatorIds p) div 2 + 1))"

section \<open>The issuance quorum\<close>

record IssuanceEpochRecord =
  ie_issuanceEpochId :: string
  ie_coordinatorId :: string
  ie_windowStartMs :: ms
  ie_windowEndMs :: ms
  ie_loadIndex :: num
  ie_dailyPoolTokens :: num
  ie_hourlyTokens :: num
  ie_totalWeightedContribution :: num
  ie_contributionCount :: nat
  ie_finalized :: bool
  ie_createdAtMs :: ms

text \<open>The tables the issuance uses; \<open>smoothedLoadIndex\<close> is the coordinator's variable.\<close>

record Issuance =
  is_epochs :: "(string, IssuanceEpochRecord) jsmap"
  is_allocations :: "(string, Allocation list) jsmap"
  is_quorum :: "QuorumLedgerRecord list"
  is_smoothed :: "num option"

definition upsertIssuanceEpoch :: "IssuanceEpochRecord \<Rightarrow> Issuance \<Rightarrow> Issuance" where
  "upsertIssuanceEpoch e s = s\<lparr> is_epochs :=
     (case jsm_get (is_epochs s) (ie_issuanceEpochId e) of
        None \<Rightarrow> jsm_set (ie_issuanceEpochId e) e (is_epochs s)
      | Some old \<Rightarrow> jsm_set (ie_issuanceEpochId e) (old\<lparr> ie_loadIndex := ie_loadIndex e, ie_dailyPoolTokens := ie_dailyPoolTokens e,
          ie_hourlyTokens := ie_hourlyTokens e, ie_totalWeightedContribution := ie_totalWeightedContribution e,
          ie_contributionCount := ie_contributionCount e, ie_finalized := ie_finalized e \<rparr>) (is_epochs s)) \<rparr>"

text \<open>\<open>latest\<close> is the row \<open>ORDER BY created_at_ms DESC LIMIT 1\<close> gives.\<close>

definition appendQuorumRecord ::
  "crypto \<Rightarrow> Identity \<Rightarrow> (QuorumLedgerRecord list \<Rightarrow> QuorumLedgerRecord option) \<Rightarrow> string \<Rightarrow> ms \<Rightarrow> QuorumRecordType \<Rightarrow> string \<Rightarrow> string \<Rightarrow>
   Issuance \<Rightarrow> Issuance \<times> QuorumLedgerRecord" where
  "appendQuorumRecord cr me latest uuid now recordType epochId payloadJson s =
     (let prevHash = (case latest (is_quorum s) of None \<Rightarrow> ''GENESIS'' | Some r \<Rightarrow> ql_hash r);
          record = createQuorumLedgerRecord cr recordType epochId (id_peerId me) prevHash payloadJson (id_privateKeyPem me) uuid now
      in (if uuid \<in> ql_recordId ` set (is_quorum s) then s else s\<lparr> is_quorum := is_quorum s @ [record] \<rparr>, record))"

definition listQuorumLedgerByEpoch :: "string \<Rightarrow> Issuance \<Rightarrow> QuorumLedgerRecord list" where
  "listQuorumLedgerByEpoch epochId s = sort_key ql_createdAtMs (filter (\<lambda>r. ql_epochId r = epochId) (is_quorum s))"

text \<open>
  The set of approvals; \<open>None\<close> where a vote's payload does not parse, or is \<open>null\<close>, and the handler throws. Of
  repeated keys the last one counts.
\<close>

fun approvalLoop :: "(string \<Rightarrow> json option) \<Rightarrow> string list \<Rightarrow> QuorumLedgerRecord list \<Rightarrow> string list option" where
  "approvalLoop parse approvals [] = Some approvals"
| "approvalLoop parse approvals (r # rs) =
     (case ql_recordType r of
        Issuance_proposal \<Rightarrow> approvalLoop parse (jss_add (ql_coordinatorId r) approvals) rs
      | Issuance_vote \<Rightarrow>
          (case parse (ql_payloadJson r) of
             None \<Rightarrow> None
           | Some JNull \<Rightarrow> None
           | Some payload \<Rightarrow>
               approvalLoop parse (if json_member payload ''vote'' = Some (JStr ''approve'') then jss_add (ql_coordinatorId r) approvals else approvals) rs)
      | _ \<Rightarrow> approvalLoop parse approvals rs)"

definition commitPayload :: "string list \<Rightarrow> nat \<Rightarrow> string" where
  "commitPayload approvals threshold = json_text (JObj [(''approvals'', JArr (map JStr approvals)), (''threshold'', JNum (int threshold))])"

definition maybeFinalizeIssuanceEpoch ::
  "crypto \<Rightarrow> Identity \<Rightarrow> (QuorumLedgerRecord list \<Rightarrow> QuorumLedgerRecord option) \<Rightarrow> (string \<Rightarrow> json option) \<Rightarrow> TreasuryPolicy option \<Rightarrow>
   string \<Rightarrow> ms \<Rightarrow> IssuanceEpochRecord \<Rightarrow> Issuance \<Rightarrow> Issuance \<times> bool option" where
  "maybeFinalizeIssuanceEpoch cr me latest parse policy uuid now epoch s =
     (let records = listQuorumLedgerByEpoch (ie_issuanceEpochId epoch) s in
      case approvalLoop parse [] records of
        None \<Rightarrow> (s, None)
      | Some approvals \<Rightarrow>
          if length approvals < quorumThreshold policy then (s, Some False)
          else (let s1 = (if list_ex (\<lambda>r. ql_recordType r = Issuance_commit) records then s
                          else fst (appendQuorumRecord cr me latest uuid now Issuance_commit (ie_issuanceEpochId epoch)
                                      (commitPayload approvals (quorumThreshold policy)) s))
                in (upsertIssuanceEpoch (epoch\<lparr> ie_finalized := True \<rparr>) s1, Some True)))"

definition votePayload :: "Identity \<Rightarrow> string \<Rightarrow> string" where
  "votePayload me vote = json_text (JObj [(''vote'', JStr vote), (''voterCoordinatorId'', JStr (id_peerId me))])"

definition postVote ::
  "crypto \<Rightarrow> Identity \<Rightarrow> (QuorumLedgerRecord list \<Rightarrow> QuorumLedgerRecord option) \<Rightarrow> (string \<Rightarrow> json option) \<Rightarrow> TreasuryPolicy option \<Rightarrow>
   string \<times> string \<Rightarrow> ms \<Rightarrow> string \<Rightarrow> bool \<Rightarrow> Issuance \<Rightarrow> Issuance" where
  "postVote cr me latest parse policy uuids now epochId approve s =
     (let s1 = fst (appendQuorumRecord cr me latest (fst uuids) now Issuance_vote epochId (votePayload me (if approve then ''approve'' else ''reject'')) s)
      in case jsm_get (is_epochs s1) epochId of
           None \<Rightarrow> s1
         | Some epoch \<Rightarrow> fst (maybeFinalizeIssuanceEpoch cr me latest parse policy (snd uuids) now epoch s1))"

definition proposalPayload :: "Identity \<Rightarrow> IssuanceEpochRecord \<Rightarrow> string" where
  "proposalPayload me e =
     ''{'' @ json_str ''windowStartMs'' @ '':'' @ int_str (ie_windowStartMs e) @ '','' @ json_str ''windowEndMs'' @ '':'' @ int_str (ie_windowEndMs e) @
     '','' @ json_str ''dailyPoolTokens'' @ '':'' @ id_num_text me (ie_dailyPoolTokens e) @ '','' @
     json_str ''loadIndex'' @ '':'' @ id_num_text me (ie_loadIndex e) @ ''}''"

datatype QuorumError = Unreadable_payload

record TickIds =
  tk_epoch :: string
  tk_proposal :: string
  tk_vote :: string
  tk_commit :: string

text \<open>One tick: \<open>shares\<close> are the rows of the rolling query and \<open>load\<close> the inputs read from the queue and the agents.\<close>

definition runIssuanceTick ::
  "crypto \<Rightarrow> Identity \<Rightarrow> (QuorumLedgerRecord list \<Rightarrow> QuorumLedgerRecord option) \<Rightarrow> (string \<Rightarrow> json option) \<Rightarrow> TreasuryPolicy option \<Rightarrow>
   IssuancePoolConfig \<Rightarrow> int \<Rightarrow> TickIds \<Rightarrow> ms \<Rightarrow> RollingContributionShare list \<Rightarrow> DynamicPriceInputs \<Rightarrow> Issuance \<Rightarrow>
   Issuance \<times> (QuorumError + IssuanceEpochRecord option \<times> Allocation list)" where
  "runIssuanceTick cr me latest parse policy config windowMs ids now shares load s =
     (if shares = [] then (s, Inr (None, []))
      else (let smoothed = smoothLoadIndex (is_smoothed s) (computeLoadIndex load) (smoothingAlpha config);
                daily = computeDailyPoolTokens smoothed config;
                allocations = computeHourlyIssuanceAllocations shares daily;
                epoch = \<lparr> ie_issuanceEpochId = tk_epoch ids, ie_coordinatorId = id_peerId me, ie_windowStartMs = now - windowMs,
                  ie_windowEndMs = now, ie_loadIndex = smoothed, ie_dailyPoolTokens = daily, ie_hourlyTokens = to_fixed 6 (n_div daily 24),
                  ie_totalWeightedContribution = to_fixed 6 (foldl (\<lambda>a i. n_add a (rs_weightedContribution i)) 0 shares),
                  ie_contributionCount = length shares, ie_finalized = False, ie_createdAtMs = now \<rparr>;
                s1 = upsertIssuanceEpoch epoch (s\<lparr> is_smoothed := Some smoothed \<rparr>);
                s2 = s1\<lparr> is_allocations := jsm_set (tk_epoch ids) allocations (is_allocations s1) \<rparr>;
                s3 = fst (appendQuorumRecord cr me latest (tk_proposal ids) now Issuance_proposal (tk_epoch ids) (proposalPayload me epoch) s2);
                s4 = fst (appendQuorumRecord cr me latest (tk_vote ids) now Issuance_vote (tk_epoch ids) (votePayload me ''approve'') s3);
                (s5, finalized) = maybeFinalizeIssuanceEpoch cr me latest parse policy (tk_commit ids) now epoch s4
            in (s5, case finalized of
                       None \<Rightarrow> Inl Unreadable_payload
                     | Some fin \<Rightarrow> Inr (Some (if fin then epoch\<lparr> ie_finalized := True \<rparr> else epoch), allocations))))"

section \<open>Prices follow scarcity\<close>

lemma n_add_mono: "a \<le> a' \<Longrightarrow> b \<le> b' \<Longrightarrow> n_add a b \<le> n_add a' b'"
  unfolding n_add_def by (rule fl_mono) simp

lemma n_mul_mono: "a \<le> a' \<Longrightarrow> b \<le> b' \<Longrightarrow> 0 \<le> b \<Longrightarrow> 0 \<le> a' \<Longrightarrow> n_mul a b \<le> n_mul a' b'"
  unfolding n_mul_def by (rule fl_mono) (rule mult_mono)

lemma n_div_mono: "0 \<le> a' \<Longrightarrow> a \<le> a' \<Longrightarrow> 0 < b' \<Longrightarrow> b' \<le> b \<Longrightarrow> n_div a b \<le> n_div a' b'"
  unfolding n_div_def by (rule fl_mono) (rule frac_le)

lemma math_round_mono: "x \<le> y \<Longrightarrow> math_round x \<le> math_round y"
  by (simp add: math_round_def floor_mono)

lemma clampN_mono: "v \<le> v' \<Longrightarrow> clampN v lo hi \<le> clampN v' lo hi"
  by (auto simp: clampN_def)

definition priceDemand :: "DynamicPriceInputs \<Rightarrow> num" where
  "priceDemand i = n_add (dp_queuedTasks i) (dp_activeAgents i)"

definition priceCapacity :: "ResourceClass \<Rightarrow> DynamicPriceInputs \<Rightarrow> num" where
  "priceCapacity rc i = (if rc = Gpu then dp_gpuCapacity i else dp_cpuCapacity i)"

lemma price_unfold:
  "computeDynamicPricePerComputeUnitSats rc i = max 1 (math_round (n_mul (if rc = Gpu then 120 else 30)
     (clampN (n_add (fl (65 / 100)) (n_mul (n_div (max 1 (priceDemand i)) (max 1 (priceCapacity rc i))) (fl (35 / 100)))) (fl (35 / 100)) 4)))"
  by (simp add: computeDynamicPricePerComputeUnitSats_def priceDemand_def priceCapacity_def Let_def)

lemma fl_35: "0 \<le> fl (35 / 100)" "fl (35 / 100) \<le> 1"
  using fl_mono [of "35 / 100" 1] by (simp_all add: fl_nonneg)

lemma fl_65: "665 / 1024 \<le> fl (65 / 100)"
proof -
  have "fl (665 / 1024) = 665 / 1024" using fl_dyadic [of 665 10] by simp
  then show ?thesis using fl_mono [of "665 / 1024" "65 / 100"] by simp
qed

text \<open>
  The price of a compute unit is at least 19 sats (CPU) or 77 sats (GPU) and at most 120 or 480, and it follows
  scarcity: with at least the demand and at most the capacity of the resource it is at least as
  high, in the rounded arithmetic of the code.
\<close>

theorem dynamic_price_bounds_mono:
  assumes "priceDemand i \<le> priceDemand i'" "priceCapacity rc i' \<le> priceCapacity rc i"
  shows "computeDynamicPricePerComputeUnitSats rc i \<le> computeDynamicPricePerComputeUnitSats rc i' \<and>
    (if rc = Gpu then 77 else 19) \<le> computeDynamicPricePerComputeUnitSats rc i \<and>
    computeDynamicPricePerComputeUnitSats rc i \<le> (if rc = Gpu then 480 else 120)"
proof -
  let ?m = "\<lambda>i. clampN (n_add (fl (65 / 100)) (n_mul (n_div (max 1 (priceDemand i)) (max 1 (priceCapacity rc i))) (fl (35 / 100)))) (fl (35 / 100)) 4"
  let ?b = "if rc = Gpu then 120 else (30 :: num)"
  have pos: "0 \<le> n_div (max 1 (priceDemand i)) (max 1 (priceCapacity rc i))" for i unfolding n_div_def by (intro fl_nonneg divide_nonneg_nonneg) simp_all
  have "n_div (max 1 (priceDemand i)) (max 1 (priceCapacity rc i)) \<le> n_div (max 1 (priceDemand i')) (max 1 (priceCapacity rc i'))"
    using assms by (intro n_div_mono) auto
  then have "?m i \<le> ?m i'" using pos fl_35 by (intro clampN_mono n_add_mono n_mul_mono) simp_all
  moreover have m4: "?m i \<le> 4" "665 / 1024 \<le> ?m i" for i
  proof -
    show "?m i \<le> 4" using fl_35 by (simp add: clampN_def)
    have "fl (65 / 100) = n_add (fl (65 / 100)) 0" by (simp add: n_add_def)
    also have "\<dots> \<le> n_add (fl (65 / 100)) (n_mul (n_div (max 1 (priceDemand i)) (max 1 (priceCapacity rc i))) (fl (35 / 100)))"
      unfolding n_mul_def using pos [of i] fl_35 by (intro n_add_mono fl_nonneg mult_nonneg_nonneg) simp_all
    finally show "665 / 1024 \<le> ?m i" using fl_65 by (simp add: clampN_def)
  qed
  ultimately have "n_mul ?b (?m i) \<le> n_mul ?b (?m i')" using order_trans [OF _ m4(2), of 0] by (intro n_mul_mono) auto
  moreover have "n_mul ?b (?m i) \<le> n_mul ?b 4" using order_trans [OF _ m4(2), of 0] m4(1) by (intro n_mul_mono) auto
  moreover have "n_mul ?b (665 / 1024) \<le> n_mul ?b (?m i)" using m4(2) order_trans [OF _ m4(2), of 0] by (intro n_mul_mono) auto
  ultimately have r: "math_round (n_mul ?b (?m i)) \<le> math_round (n_mul ?b (?m i'))"
    "math_round (n_mul ?b (?m i)) \<le> math_round (n_mul ?b 4)" "math_round (n_mul ?b (665 / 1024)) \<le> math_round (n_mul ?b (?m i))"
    by (auto intro: math_round_mono)
  have v: "math_round (n_mul ?b 4) = (if rc = Gpu then 480 else 120)" by (simp add: n_mul_def math_round_def floor_eq_iff)
  have "fl (9975 / 512) = 9975 / 512" "fl (9975 / 128) = 9975 / 128" using fl_dyadic [of 9975 9] fl_dyadic [of 9975 7] by simp_all
  then have "math_round (n_mul ?b (665 / 1024)) = (if rc = Gpu then 78 else 19)" by (simp add: n_mul_def math_round_def floor_eq_iff)
  then show ?thesis unfolding price_unfold using r v by (auto split: if_splits)
qed

theorem dynamic_price_bounds_mono_witness:
  "computeDynamicPricePerComputeUnitSats Cpu \<lparr> dp_cpuCapacity = 4, dp_gpuCapacity = 0, dp_queuedTasks = 2, dp_activeAgents = 1 \<rparr>
   \<le> computeDynamicPricePerComputeUnitSats Cpu \<lparr> dp_cpuCapacity = 2, dp_gpuCapacity = 0, dp_queuedTasks = 2, dp_activeAgents = 1 \<rparr>"
  using dynamic_price_bounds_mono [of "\<lparr> dp_cpuCapacity = 4, dp_gpuCapacity = 0, dp_queuedTasks = 2, dp_activeAgents = 1 \<rparr>"
    "\<lparr> dp_cpuCapacity = 2, dp_gpuCapacity = 0, dp_queuedTasks = 2, dp_activeAgents = 1 \<rparr>" Cpu]
  by (simp add: priceDemand_def priceCapacity_def)

section \<open>Issuance\<close>

lemma rounded_sum_ge: "0 \<le> a \<Longrightarrow> fl a = a \<Longrightarrow> a \<le> foldl (\<lambda>s i. n_add s (max 0 (f i))) a xs"
proof (induction xs arbitrary: a)
  case (Cons x xs)
  have "fl a \<le> n_add a (max 0 (f x))" unfolding n_add_def by (rule fl_mono) simp
  moreover have "n_add a (max 0 (f x)) \<le> foldl (\<lambda>s i. n_add s (max 0 (f i))) (n_add a (max 0 (f x))) xs"
    by (rule Cons.IH) (simp_all add: n_add_def fl_nonneg Cons.prems(1))
  ultimately show ?case using Cons.prems(2) by simp
qed simp

lemma rounded_sum_ge_item:
  assumes "0 \<le> a" "x \<in> set xs" "fl (f x) = f x"
  shows "f x \<le> foldl (\<lambda>s i. n_add s (max 0 (f i))) a xs"
  using assms(1,2)
proof (induction xs arbitrary: a)
  case (Cons y xs)
  let ?a = "n_add a (max 0 (f y))"
  have a: "0 \<le> ?a" "fl ?a = ?a" by (simp_all add: n_add_def fl_nonneg Cons.prems(1))
  show ?case
  proof (cases "x \<in> set xs")
    case True
    then show ?thesis using Cons.IH [OF a(1)] by simp
  next
    case False
    then have "x = y" using Cons.prems(2) by simp
    then have "fl (f x) \<le> ?a" unfolding n_add_def using Cons.prems(1) by (intro fl_mono) simp
    then show ?thesis using rounded_sum_ge [OF a, of f xs] assms(3) by simp
  qed
qed simp

lemma totalWeighted_ge: "i \<in> set shares \<Longrightarrow> fl (rs_weightedContribution i) = rs_weightedContribution i \<Longrightarrow> rs_weightedContribution i \<le> totalWeighted shares"
  unfolding totalWeighted_def using rounded_sum_ge_item [of 0 i shares rs_weightedContribution] by simp

definition allocate :: "num \<Rightarrow> num \<Rightarrow> RollingContributionShare \<Rightarrow> Allocation" where
  "allocate hourly weight i = (let share = n_div (rs_weightedContribution i) weight in
     \<lparr> al_accountId = rs_accountId i, al_weightedContribution = to_fixed 6 (rs_weightedContribution i),
       al_allocationShare = to_fixed 9 share, al_issuedTokens = to_fixed 6 (n_mul hourly share) \<rparr>)"

lemma allocations_map:
  "computeHourlyIssuanceAllocations shares daily =
     (if totalWeighted shares \<le> 0 \<or> n_div daily 24 \<le> 0 then []
      else map (allocate (n_div daily 24) (totalWeighted shares)) (filter (\<lambda>i. rs_weightedContribution i > 0) shares))"
  by (simp add: computeHourlyIssuanceAllocations_def allocate_def Let_def)

lemma share_bounds:
  assumes "i \<in> set shares" "0 < rs_weightedContribution i" "fl (rs_weightedContribution i) = rs_weightedContribution i"
  shows "0 \<le> n_div (rs_weightedContribution i) (totalWeighted shares)" "n_div (rs_weightedContribution i) (totalWeighted shares) \<le> 1"
proof -
  have "rs_weightedContribution i / totalWeighted shares \<le> 1"
    using totalWeighted_ge [OF assms(1,3)] assms(2) by (simp add: divide_le_eq)
  then have "fl (rs_weightedContribution i / totalWeighted shares) \<le> fl 1" by (rule fl_mono)
  then show "n_div (rs_weightedContribution i) (totalWeighted shares) \<le> 1" by (simp add: n_div_def)
  show "0 \<le> n_div (rs_weightedContribution i) (totalWeighted shares)"
    using totalWeighted_ge [OF assms(1,3)] assms(2) unfolding n_div_def by (intro fl_nonneg) simp
qed

text \<open>
  Issuance of an hour: nobody is paid when nothing was contributed or the pool is empty; otherwise exactly the
  accounts with a positive contribution are paid, in the order of the shares; every allocation
  share lies in [0, 1] and no account is issued more than the hourly pool; and of two accounts the
  one that contributed more is issued at least as much.
\<close>

theorem hourly_issuance_fair:
  assumes "\<forall>i \<in> set shares. fl (rs_weightedContribution i) = rs_weightedContribution i"
  shows "let out = computeHourlyIssuanceAllocations shares daily; hourly = n_div daily 24;
             paid = filter (\<lambda>i. rs_weightedContribution i > 0) shares in
    (if totalWeighted shares \<le> 0 \<or> hourly \<le> 0 then out = [] else map al_accountId out = map rs_accountId paid) \<and>
    (\<forall>a \<in> set out. 0 \<le> al_allocationShare a \<and> al_allocationShare a \<le> 1 \<and> 0 \<le> al_issuedTokens a \<and> al_issuedTokens a \<le> to_fixed 6 hourly) \<and>
    (\<forall>k < length out. \<forall>l < length out. rs_weightedContribution (paid ! k) \<le> rs_weightedContribution (paid ! l) \<longrightarrow>
       al_issuedTokens (out ! k) \<le> al_issuedTokens (out ! l))"
proof -
  let ?h = "n_div daily 24" and ?t = "totalWeighted shares"
  let ?paid = "filter (\<lambda>i. rs_weightedContribution i > 0) shares" and ?out = "computeHourlyIssuanceAllocations shares daily"
  have share: "0 \<le> n_div (rs_weightedContribution i) ?t \<and> n_div (rs_weightedContribution i) ?t \<le> 1 \<and> 0 < ?t" if "i \<in> set ?paid" for i
    using share_bounds [of i shares] totalWeighted_ge [of i shares] that assms by fastforce
  have issued: "0 \<le> al_allocationShare a \<and> al_allocationShare a \<le> 1 \<and> 0 \<le> al_issuedTokens a \<and> al_issuedTokens a \<le> to_fixed 6 ?h"
    if "a \<in> set ?out" for a
  proof -
    from that obtain i where i: "i \<in> set ?paid" "a = allocate ?h ?t i" and h: "0 < ?h"
      by (auto simp: allocations_map not_le split: if_splits)
    let ?s = "n_div (rs_weightedContribution i) ?t"
    have s: "0 \<le> ?s" "?s \<le> 1" using share [OF i(1)] by auto
    have "n_mul ?h ?s \<le> n_mul ?h 1" using s h by (intro n_mul_mono) simp_all
    then have "n_mul ?h ?s \<le> ?h" by (simp add: n_mul_def n_div_def)
    moreover have "0 \<le> n_mul ?h ?s" using s h unfolding n_mul_def by (intro fl_nonneg mult_nonneg_nonneg) simp_all
    moreover have "to_fixed 9 1 = 1" using to_fixed_of_int [of 1 9] by simp
    moreover have "to_fixed 9 ?s \<le> to_fixed 9 1" using s by (rule to_fixed_mono)
    ultimately show ?thesis using s by (metis i(2) allocate_def Allocation.select_convs(3,4) to_fixed_mono to_fixed_nonneg)
  qed
  have mono: "al_issuedTokens (?out ! k) \<le> al_issuedTokens (?out ! l)"
    if kl: "k < length ?out" "l < length ?out" "rs_weightedContribution (?paid ! k) \<le> rs_weightedContribution (?paid ! l)" for k l
  proof -
    have out: "?out = map (allocate ?h ?t) ?paid" and h: "0 < ?h" using kl(1) by (auto simp: allocations_map not_le split: if_splits)
    have len: "k < length ?paid" "l < length ?paid" using kl(1,2) by (simp_all only: out length_map)
    have k: "0 \<le> n_div (rs_weightedContribution (?paid ! k)) ?t" "0 < ?t" "0 < rs_weightedContribution (?paid ! k)"
      using share [OF nth_mem [OF len(1)]] nth_mem [OF len(1)] by auto
    have "n_div (rs_weightedContribution (?paid ! k)) ?t \<le> n_div (rs_weightedContribution (?paid ! l)) ?t"
      using k kl(3) by (intro n_div_mono) simp_all
    then have "n_mul ?h (n_div (rs_weightedContribution (?paid ! k)) ?t) \<le> n_mul ?h (n_div (rs_weightedContribution (?paid ! l)) ?t)"
      using h k(1) by (intro n_mul_mono) simp_all
    moreover have "0 \<le> n_mul ?h (n_div (rs_weightedContribution (?paid ! k)) ?t)" using h k(1) unfolding n_mul_def by (intro fl_nonneg mult_nonneg_nonneg) simp_all
    ultimately show ?thesis using len by (simp add: out allocate_def Let_def to_fixed_mono)
  qed
  have "if ?t \<le> 0 \<or> ?h \<le> 0 then ?out = [] else map al_accountId ?out = map rs_accountId ?paid"
    by (simp add: allocations_map allocate_def Let_def comp_def)
  then show ?thesis unfolding Let_def using issued mono by blast
qed

definition ex_shares :: "RollingContributionShare list" where
  "ex_shares = [\<lparr> rs_accountId = ''a'', rs_cpuSeconds = 1, rs_gpuSeconds = 0, rs_avgQualityScore = 1, rs_reliabilityScore = 1, rs_weightedContribution = 3 \<rparr>,
     \<lparr> rs_accountId = ''b'', rs_cpuSeconds = 1, rs_gpuSeconds = 0, rs_avgQualityScore = 1, rs_reliabilityScore = 1, rs_weightedContribution = 0 \<rparr>]"

theorem hourly_issuance_fair_witness:
  "map al_accountId (computeHourlyIssuanceAllocations ex_shares 240) = [''a'']"
proof -
  have w: "\<forall>i \<in> set ex_shares. fl (rs_weightedContribution i) = rs_weightedContribution i" by (simp add: ex_shares_def)
  have "totalWeighted ex_shares = 3" "n_div 240 24 = 10" by (simp_all add: ex_shares_def totalWeighted_def n_add_def n_div_def)
  then show ?thesis using hourly_issuance_fair [OF w, of 240] by (simp add: Let_def ex_shares_def)
qed

section \<open>Consensus price\<close>

lemma fl_sum_int:
  assumes "a \<in> \<int>" "b \<in> \<int>" "0 \<le> a" "0 \<le> b" "a + b \<le> 2 ^ 53"
  shows "n_add a b = a + b"
proof -
  obtain k where k: "a + b = of_int k" using assms(1,2) by (metis Ints_add Ints_cases)
  then have "0 \<le> k" "of_int k \<le> (of_int (2 ^ 53) :: rat)" using assms(3-5) by (metis add_nonneg_nonneg of_int_0_le_iff, simp)
  then have "\<bar>k\<bar> \<le> 2 ^ 53" unfolding of_int_le_iff by simp
  then show ?thesis using fl_of_int [of k] by (simp add: n_add_def k)
qed

lemma half_exact: "t \<in> \<int> \<Longrightarrow> 0 \<le> t \<Longrightarrow> t < 2 ^ 53 \<Longrightarrow> n_div t 2 = t / 2"
proof -
  assume t: "t \<in> \<int>" "0 \<le> t" "t < 2 ^ 53"
  then obtain k where k: "t = of_int k" by (auto elim: Ints_cases)
  then have "0 \<le> k" "rat_of_int k < of_int (2 ^ 53)" using t by simp_all
  then have "\<bar>k\<bar> < 2 ^ 53" unfolding of_int_less_iff by simp
  then show "n_div t 2 = t / 2" using fl_dyadic [of k 1] by (simp add: n_div_def k)
qed

text \<open>Sums of weights without rounding, and integer weights, for which the code's sums are exact.\<close>

definition wsum :: "(num \<times> num) list \<Rightarrow> num" where
  "wsum es = sum_list (map snd es)"

definition int_weights :: "(num \<times> num) list \<Rightarrow> bool" where
  "int_weights es = (\<forall>e \<in> set es. snd e \<in> \<int> \<and> 0 \<le> snd e)"

lemma wsum_append [simp]: "wsum (es @ fs) = wsum es + wsum fs"
  by (simp add: wsum_def)

lemma int_weights_subset: "int_weights es \<Longrightarrow> set fs \<subseteq> set es \<Longrightarrow> int_weights fs"
  by (auto simp: int_weights_def)

lemma wsum_nonneg: "int_weights es \<Longrightarrow> 0 \<le> wsum es"
  unfolding wsum_def by (rule sum_list_nonneg) (auto simp: int_weights_def)

lemma wsum_split: "wsum es = wsum (filter P es) + wsum (filter (\<lambda>e. \<not> P e) es)"
  unfolding wsum_def by (induction es) auto

lemma wsum_filter_le: "int_weights es \<Longrightarrow> wsum (filter P es) \<le> wsum es"
  using wsum_split [of es P] wsum_nonneg [of "filter (\<lambda>e. \<not> P e) es"] int_weights_subset [of es "filter (\<lambda>e. \<not> P e) es"] by simp

lemma wsum_take_le: "int_weights es \<Longrightarrow> wsum (take n es) \<le> wsum es"
  using wsum_append [of "take n es" "drop n es"] wsum_nonneg [OF int_weights_subset [OF _ set_drop_subset], of es n] by simp

lemma wsum_sort: "wsum (sort_key k es) = wsum es"
proof -
  have insort: "wsum (insort_key k x ys) = snd x + wsum ys" for x ys unfolding wsum_def by (induction ys) auto
  show ?thesis by (induction es) (simp_all add: insort, simp_all add: wsum_def)
qed

lemma totalWeight_exact:
  assumes "int_weights es" "wsum es \<le> 2 ^ 53"
  shows "totalWeight es = wsum es \<and> wsum es \<in> \<int>"
  using assms
proof (induction es rule: rev_induct)
  case Nil
  show ?case by (simp add: totalWeight_def wsum_def)
next
  case (snoc e es)
  have e: "snd e \<in> \<int>" "0 \<le> snd e" and es: "int_weights es" using snoc.prems(1) by (simp_all add: int_weights_def)
  have "wsum [e] = snd e" by (simp add: wsum_def)
  moreover have ih: "totalWeight es = wsum es" "wsum es \<in> \<int>" using snoc.IH [OF es] snoc.prems(2) e(2) calculation by simp_all
  moreover have "n_add (wsum es) (snd e) = wsum es + snd e"
    using ih(2) e snoc.prems(2) wsum_nonneg [OF es] calculation(1) by (intro fl_sum_int) simp_all
  ultimately show ?case using e by (simp add: totalWeight_append)
qed

lemma below_median:
  assumes "sorted (map fst s)" "i < length s" "fst (s ! i) < lo" "int_weights s"
  shows "wsum (take (Suc i) s) \<le> wsum (filter (\<lambda>e. \<not> (lo \<le> fst e \<and> fst e \<le> hi)) s)"
proof -
  let ?Q = "\<lambda>e :: num \<times> num. \<not> (lo \<le> fst e \<and> fst e \<le> hi)"
  have "?Q e" if e: "e \<in> set (take (Suc i) s)" for e
  proof -
    obtain a where a: "a < Suc i" "e = s ! a" using e assms(2) by (auto simp: in_set_conv_nth)
    then have "map fst s ! a \<le> map fst s ! i" using assms(1,2) by (intro sorted_nth_mono) simp_all
    then show ?thesis using a assms(2,3) by simp
  qed
  then have "filter ?Q (take (Suc i) s) = take (Suc i) s" by (rule filter_True [OF ballI])
  moreover have "filter ?Q s = filter ?Q (take (Suc i) s) @ filter ?Q (drop (Suc i) s)" by (metis append_take_drop_id filter_append)
  moreover have "0 \<le> wsum (filter ?Q (drop (Suc i) s))"
    by (rule wsum_nonneg [OF int_weights_subset [OF assms(4)]]) (rule order_trans [OF filter_is_subset set_drop_subset])
  ultimately show ?thesis by simp
qed

lemma above_median:
  assumes "sorted (map fst s)" "hi < fst (s ! i)" "int_weights s"
  shows "wsum (filter (\<lambda>e. lo \<le> fst e \<and> fst e \<le> hi) s) \<le> wsum (take i s)"
proof -
  let ?P = "\<lambda>e :: num \<times> num. lo \<le> fst e \<and> fst e \<le> hi"
  have "\<not> ?P e" if e: "e \<in> set (drop i s)" for e
  proof -
    obtain a where "a < length (drop i s)" "drop i s ! a = e" using e unfolding in_set_conv_nth by blast
    then have a: "i + a < length s" "e = s ! (i + a)" by simp_all
    have "map fst s ! i \<le> map fst s ! (i + a)" using assms(1) a by (intro sorted_nth_mono) simp_all
    then show ?thesis using a assms(2) by simp
  qed
  then have "filter ?P (drop i s) = []" unfolding filter_empty_conv by blast
  moreover have "filter ?P s = filter ?P (take i s) @ filter ?P (drop i s)" by (metis append_take_drop_id filter_append)
  ultimately have "filter ?P s = filter ?P (take i s)" by simp
  moreover have "wsum (filter ?P (take i s)) \<le> wsum (take i s)"
    by (rule wsum_filter_le [OF int_weights_subset [OF assms(3) set_take_subset]])
  ultimately show ?thesis by simp
qed

text \<open>More than half of the weight inside an interval keeps the weighted median inside it.\<close>

lemma weightedMedian_majority:
  assumes w: "int_weights es" "wsum es < 2 ^ 53"
    and maj: "wsum es / 2 < wsum (filter (\<lambda>e. lo \<le> fst e \<and> fst e \<le> hi) es)"
  shows "lo \<le> weightedMedian es \<and> weightedMedian es \<le> hi"
proof -
  let ?s = "sort_key fst es" and ?P = "\<lambda>e :: num \<times> num. lo \<le> fst e \<and> fst e \<le> hi"
  have ws: "int_weights ?s" using w(1) by (simp add: int_weights_def)
  have perm: "wsum ?s = wsum es" "wsum (filter ?P ?s) = wsum (filter ?P es)" by (simp_all add: filter_sort wsum_sort)
  have exact: "totalWeight (take n ?s) = wsum (take n ?s)" for n
    using totalWeight_exact [OF int_weights_subset [OF ws set_take_subset]] wsum_take_le [OF ws, of n] w(2) perm(1) by force
  have tot: "totalWeight ?s = wsum es" "wsum es \<in> \<int>" using totalWeight_exact [OF ws] w(2) perm(1) by simp_all
  have nn: "0 \<le> wsum es" using wsum_nonneg [OF w(1)] .
  have half: "n_div (totalWeight ?s) 2 = wsum es / 2" using half_exact [OF tot(2) nn w(2)] tot(1) by simp
  have "wsum (filter ?P es) \<le> wsum es" by (rule wsum_filter_le [OF w(1)])
  then have pos: "\<not> totalWeight ?s \<le> 0" using maj nn tot(1) by simp
  then have ne: "es \<noteq> []" by (auto simp: totalWeight_def)
  obtain i where i: "i < length ?s" "weightedMedian es = fst (?s ! i)"
    "wsum es / 2 \<le> wsum (take (Suc i) ?s)" "\<forall>j < i. wsum (take (Suc j) ?s) < wsum es / 2"
    by (rule weightedMedian_index [OF ne pos, unfolded half exact])
  have srt: "sorted (map fst ?s)" by simp
  have "\<not> fst (?s ! i) < lo"
  proof
    assume "fst (?s ! i) < lo"
    from below_median [OF srt i(1) this ws, of hi] show False
      using i(3) maj wsum_split [of ?s ?P] unfolding perm by simp
  qed
  moreover have "\<not> hi < fst (?s ! i)"
  proof
    assume "hi < fst (?s ! i)"
    from above_median [OF srt this ws, of lo] have le: "wsum (filter ?P es) \<le> wsum (take i ?s)" unfolding perm .
    show False
    proof (cases i)
      case 0
      with le maj nn show False by (simp add: wsum_def)
    next
      case (Suc j)
      then have "wsum (take i ?s) < wsum es / 2" using i(4) by (metis lessI)
      with le maj show False by simp
    qed
  qed
  ultimately show ?thesis unfolding i(2) by simp
qed

lemma priceQuotes_answers:
  "map snd (priceQuotes me peerScore rc body answers) =
     (of_int (computeDynamicPricePerComputeUnitSats rc body), localWeight me peerScore) #
     map (\<lambda>q. (pq_price q, quoteWeight peerScore q)) (List.map_filter id answers)"
proof -
  have "map snd (List.map_filter (map_option (\<lambda>q. (pq_coordinatorId q, pq_price q, quoteWeight peerScore q))) answers) =
     map (\<lambda>q. (pq_price q, quoteWeight peerScore q)) (List.map_filter id answers)"
  proof (induction answers)
    case (Cons a answers)
    then show ?case by (cases a) (simp_all add: List.map_filter_simps)
  qed (simp add: List.map_filter_simps)
  then show ?thesis by (simp add: priceQuotes_def)
qed

definition ex_identity :: Identity where
  "ex_identity = \<lparr> id_peerId = ''me'', id_privateKeyPem = ''k'', id_num_text = (\<lambda>_. ''1'') \<rparr>"

text \<open>
  The negotiated price resists a minority: the new epoch is stored for its resource, and whenever the quotes inside
  an interval carry more than half of the total weight, the consensus price lies in that
  interval, whatever the other coordinators answer (weights being whole numbers whose sum is
  below 2^53, so that the code adds them exactly).
\<close>

theorem price_consensus_majority:
  assumes "int_weights (map snd (priceQuotes me peerScore rc body answers))"
    and "wsum (map snd (priceQuotes me peerScore rc body answers)) < 2 ^ 53"
    and "wsum (map snd (priceQuotes me peerScore rc body answers)) / 2 <
         wsum (filter (\<lambda>e. lo \<le> fst e \<and> fst e \<le> hi) (map snd (priceQuotes me peerScore rc body answers)))"
  shows "case negotiate cr me peerScore uuid now body rc answers epochs of (epochs', epoch) \<Rightarrow>
     jsm_get epochs' rc = Some epoch \<and> (\<forall>rc'. rc' \<noteq> rc \<longrightarrow> jsm_get epochs' rc' = jsm_get epochs rc') \<and>
     lo \<le> pe_pricePerComputeUnitSats epoch \<and> pe_pricePerComputeUnitSats epoch \<le> hi"
  using weightedMedian_majority [OF assms] by (simp add: negotiate_def priceEpoch_def Let_def jsm_get_set)

theorem price_consensus_majority_witness:
  "30 \<le> pe_pricePerComputeUnitSats (snd (negotiate ex_crypto ex_identity [(''me'', 10), (''p2'', 120), (''p3'', 50)] ''u'' 5
     \<lparr> dp_cpuCapacity = 1, dp_gpuCapacity = 0, dp_queuedTasks = 1, dp_activeAgents = 0 \<rparr> Cpu
     [Some \<lparr> pq_peerId = ''p2'', pq_coordinatorId = ''p2'', pq_price = 35, pq_reputationWeight = None \<rparr>, None,
      Some \<lparr> pq_peerId = ''p3'', pq_coordinatorId = ''p3'', pq_price = 9999, pq_reputationWeight = None \<rparr>] []))"
proof -
  let ?body = "\<lparr> dp_cpuCapacity = 1, dp_gpuCapacity = 0, dp_queuedTasks = 1, dp_activeAgents = 0 \<rparr>"
  let ?score = "[(''me'', 10), (''p2'', 120), (''p3'', 50)] :: (string, num) jsmap"
  let ?answers = "[Some \<lparr> pq_peerId = ''p2'', pq_coordinatorId = ''p2'', pq_price = 35, pq_reputationWeight = None \<rparr>, None,
      Some \<lparr> pq_peerId = ''p3'', pq_coordinatorId = ''p3'', pq_price = 9999, pq_reputationWeight = None \<rparr>]"
  let ?own = "rat_of_int (computeDynamicPricePerComputeUnitSats Cpu ?body)"
  have q: "map snd (priceQuotes ex_identity ?score Cpu ?body ?answers) = [(?own, 10), (35, 120), (9999, 50)]"
    by (simp add: priceQuotes_answers List.map_filter_def localWeight_def quoteWeight_def ex_identity_def jsm_get_def)
  have "wsum (filter (\<lambda>e. 30 \<le> fst e \<and> fst e \<le> 40) [(?own, 10), (35, 120), (9999, 50)]) \<ge> 120" by (simp add: wsum_def)
  then show ?thesis
    using price_consensus_majority [where me = ex_identity and peerScore = ?score and rc = Cpu and body = ?body and answers = ?answers
      and lo = 30 and hi = 40 and cr = ex_crypto and uuid = "''u''" and now = 5 and epochs = "[]"] unfolding q
    by (simp add: int_weights_def wsum_def case_prod_beta)
qed

section \<open>Quorum\<close>

text \<open>A record that approves its epoch, and one whose payload the handler can read.\<close>

definition approves :: "(string \<Rightarrow> json option) \<Rightarrow> QuorumLedgerRecord \<Rightarrow> bool" where
  "approves parse r = (ql_recordType r = Issuance_proposal \<or> ql_recordType r = Issuance_vote \<and>
     (case parse (ql_payloadJson r) of None \<Rightarrow> False | Some p \<Rightarrow> json_member p ''vote'' = Some (JStr ''approve'')))"

definition readable :: "(string \<Rightarrow> json option) \<Rightarrow> QuorumLedgerRecord \<Rightarrow> bool" where
  "readable parse r = (ql_recordType r = Issuance_vote \<longrightarrow> parse (ql_payloadJson r) \<notin> {None, Some JNull})"

lemma approvalLoop_spec:
  assumes "\<forall>r \<in> set rs. readable parse r"
  shows "approvalLoop parse ap rs = Some (foldl (\<lambda>acc r. if approves parse r then jss_add (ql_coordinatorId r) acc else acc) ap rs)"
  using assms
proof (induction rs arbitrary: ap)
  case (Cons r rs)
  then show ?case
    by (cases "ql_recordType r"; cases "parse (ql_payloadJson r)") (auto simp: approves_def readable_def split: json.splits)
qed simp

lemma approvers:
  "set (foldl (\<lambda>acc r. if approves parse r then jss_add (ql_coordinatorId r) acc else acc) ap rs) =
     set ap \<union> ql_coordinatorId ` {r \<in> set rs. approves parse r} \<and>
   (distinct ap \<longrightarrow> distinct (foldl (\<lambda>acc r. if approves parse r then jss_add (ql_coordinatorId r) acc else acc) ap rs))"
proof (induction rs arbitrary: ap)
  case (Cons r rs)
  show ?case using Cons.IH [of "if approves parse r then jss_add (ql_coordinatorId r) ap else ap"] by auto
qed simp

lemma readable_unreadable: "\<not> (\<forall>r \<in> set rs. readable parse r) \<Longrightarrow> approvalLoop parse ap rs = None"
proof (induction rs arbitrary: ap)
  case (Cons r rs)
  then show ?case
    by (cases "ql_recordType r"; cases "parse (ql_payloadJson r)") (auto simp: readable_def split: json.splits)
qed simp

definition commits :: "string \<Rightarrow> Issuance \<Rightarrow> QuorumLedgerRecord list" where
  "commits epochId s = filter (\<lambda>r. ql_epochId r = epochId \<and> ql_recordType r = Issuance_commit) (is_quorum s)"

lemma get_upserted: "\<exists>e'. jsm_get (is_epochs (upsertIssuanceEpoch e s)) (ie_issuanceEpochId e) = Some e' \<and> ie_finalized e' = ie_finalized e"
  by (auto simp: upsertIssuanceEpoch_def jsm_get_set split: option.splits)

text \<open>
  An epoch is finalised exactly by a quorum: counting every coordinator once however often it proposed or voted,
  the epoch becomes final when the approvers reach the threshold (which, with a policy that names
  coordinators, is a strict majority of them) and nothing changes below it; finalising leaves exactly one
  more commit record if there was none and none otherwise. A vote whose payload cannot be read
  blocks the decision and changes nothing.
\<close>

theorem issuance_quorum:
  assumes "uuid \<notin> ql_recordId ` set (is_quorum s)"
  shows "let approvers = ql_coordinatorId ` {r \<in> set (is_quorum s). ql_epochId r = ie_issuanceEpochId epoch \<and> approves parse r};
             old = commits (ie_issuanceEpochId epoch) s in
    case maybeFinalizeIssuanceEpoch cr me latest parse policy uuid now epoch s of (s', result) \<Rightarrow>
      result = (if \<forall>r \<in> set (is_quorum s). ql_epochId r = ie_issuanceEpochId epoch \<longrightarrow> readable parse r
                then Some (quorumThreshold policy \<le> card approvers) else None) \<and>
      (if result = Some True
       then (\<exists>e. jsm_get (is_epochs s') (ie_issuanceEpochId epoch) = Some e \<and> ie_finalized e) \<and>
            length (commits (ie_issuanceEpochId epoch) s') = (if old = [] then 1 else length old)
       else s' = s) \<and>
      (\<forall>p. policy = Some p \<and> tp_approvedCoordinatorIds p \<noteq> [] \<longrightarrow> length (tp_approvedCoordinatorIds p) < 2 * quorumThreshold policy)"
proof -
  let ?id = "ie_issuanceEpochId epoch"
  let ?rs = "listQuorumLedgerByEpoch ?id s"
  have set_rs: "set ?rs = {r \<in> set (is_quorum s). ql_epochId r = ?id}" by (auto simp: listQuorumLedgerByEpoch_def)
  have maj: "length (tp_approvedCoordinatorIds p) < 2 * quorumThreshold policy" if "policy = Some p" "tp_approvedCoordinatorIds p \<noteq> []" for p
    using that by (simp add: quorumThreshold_def)
  show ?thesis
  proof (cases "\<forall>r \<in> set ?rs. readable parse r")
    case False
    then have "maybeFinalizeIssuanceEpoch cr me latest parse policy uuid now epoch s = (s, None)"
      using readable_unreadable by (simp add: maybeFinalizeIssuanceEpoch_def Let_def)
    moreover have "\<not> (\<forall>r \<in> set (is_quorum s). ql_epochId r = ?id \<longrightarrow> readable parse r)" using False set_rs by blast
    ultimately show ?thesis using maj by simp
  next
    case True
    define ap where "ap = foldl (\<lambda>acc r. if approves parse r then jss_add (ql_coordinatorId r) acc else acc) [] ?rs"
    have loop: "approvalLoop parse [] ?rs = Some ap" using approvalLoop_spec [OF True] by (simp add: ap_def)
    have "set ap = ql_coordinatorId ` {r \<in> set ?rs. approves parse r}" "distinct ap" using approvers [of parse "[]" ?rs] by (simp_all add: ap_def)
    moreover have "{r \<in> set ?rs. approves parse r} = {r \<in> set (is_quorum s). ql_epochId r = ?id \<and> approves parse r}" using set_rs by auto
    ultimately have card: "length ap = card (ql_coordinatorId ` {r \<in> set (is_quorum s). ql_epochId r = ?id \<and> approves parse r})"
      by (metis distinct_card)
    have read: "\<forall>r \<in> set (is_quorum s). ql_epochId r = ?id \<longrightarrow> readable parse r" using True set_rs by blast
    have has: "list_ex (\<lambda>r. ql_recordType r = Issuance_commit) ?rs \<longleftrightarrow> commits ?id s \<noteq> []"
      using set_rs by (auto simp: list_ex_iff commits_def filter_empty_conv)
    have up: "commits ?id (upsertIssuanceEpoch e t) = commits ?id t" for e t by (simp add: commits_def upsertIssuanceEpoch_def)
    have app: "length (commits ?id (fst (appendQuorumRecord cr me latest uuid now Issuance_commit ?id pl s))) = Suc (length (commits ?id s))" for pl
      using assms by (simp add: appendQuorumRecord_def commits_def createQuorumLedgerRecord_def Let_def)
    have fin: "\<exists>e. jsm_get (is_epochs (upsertIssuanceEpoch (epoch\<lparr> ie_finalized := True \<rparr>) t)) ?id = Some e \<and> ie_finalized e" for t
      using get_upserted [of "epoch\<lparr> ie_finalized := True \<rparr>" t] by simp
    show ?thesis
    proof (cases "length ap < quorumThreshold policy")
      case True
      then show ?thesis using loop maj read card by (simp add: maybeFinalizeIssuanceEpoch_def Let_def)
    next
      case False
      then show ?thesis using loop maj read card has app fin by (simp add: maybeFinalizeIssuanceEpoch_def Let_def up)
    qed
  qed
qed

definition ex_issuance :: Issuance where
  "ex_issuance = \<lparr> is_epochs = [], is_allocations = [],
     is_quorum = [createQuorumLedgerRecord ex_crypto Issuance_proposal ''e1'' ''c1'' ''GENESIS'' ''{}'' ''k'' ''r1'' 1], is_smoothed = None \<rparr>"

definition ex_epoch :: IssuanceEpochRecord where
  "ex_epoch = \<lparr> ie_issuanceEpochId = ''e1'', ie_coordinatorId = ''c1'', ie_windowStartMs = 0, ie_windowEndMs = 1, ie_loadIndex = 1,
     ie_dailyPoolTokens = 24, ie_hourlyTokens = 1, ie_totalWeightedContribution = 1, ie_contributionCount = 1, ie_finalized = False, ie_createdAtMs = 1 \<rparr>"

theorem issuance_quorum_witness:
  "snd (maybeFinalizeIssuanceEpoch ex_crypto ex_identity (\<lambda>_. None) (\<lambda>_. None) None ''r2'' 2 ex_epoch ex_issuance) = Some True"
proof -
  have fresh: "''r2'' \<notin> ql_recordId ` set (is_quorum ex_issuance)"
    by (simp add: ex_issuance_def createQuorumLedgerRecord_def Let_def)
  have rec: "is_quorum ex_issuance = [createQuorumLedgerRecord ex_crypto Issuance_proposal ''e1'' ''c1'' ''GENESIS'' ''{}'' ''k'' ''r1'' 1]"
    by (simp add: ex_issuance_def)
  have app: "{r. r = createQuorumLedgerRecord ex_crypto Issuance_proposal ''e1'' ''c1'' ''GENESIS'' ''{}'' ''k'' ''r1'' 1 \<and> ql_epochId r = ''e1'' \<and> approves (\<lambda>_. None) r} =
      {createQuorumLedgerRecord ex_crypto Issuance_proposal ''e1'' ''c1'' ''GENESIS'' ''{}'' ''k'' ''r1'' 1}"
    by (auto simp: approves_def createQuorumLedgerRecord_def Let_def)
  have "readable (\<lambda>_. None) (createQuorumLedgerRecord ex_crypto Issuance_proposal ''e1'' ''c1'' ''GENESIS'' ''{}'' ''k'' ''r1'' 1)"
    by (simp add: readable_def createQuorumLedgerRecord_def Let_def)
  then show ?thesis
    using issuance_quorum [OF fresh, where epoch = ex_epoch and parse = "\<lambda>_. None" and cr = ex_crypto and me = ex_identity
        and latest = "\<lambda>_. None" and policy = None and now = 2] app
    by (simp add: rec ex_epoch_def quorumThreshold_def Let_def case_prod_beta)
qed

end
