(* ===== verification/Payments.thy ===== *)
theory Payments
  imports Economy
begin

text \<open>
  Purchases of credits: the payment-intent routes of \<open>src/src/swarm/coordinator.ts\<close> (create, confirm,
  webhook, reconcile), \<open>settleIntent\<close>, \<open>allocateIntentPayouts\<close> and the statements of \<open>db/postgres.ts\<close> they
  run. The state holds the in-memory map and, when a database is configured, its table; a
  restart keeps the table. A route is given twice: as one function, and as the
  parts between its awaits, which the step relation interleaves; an undisturbed
  run of the function is a run of the parts (\<open>create_run\<close>, \<open>confirm_run\<close>, \<open>webhook_run\<close>, \<open>reconcile_run\<close>).
\<close>

section \<open>Data\<close>

datatype WalletType = Lightning | Onchain

datatype IntentStatus = Created | Settled | Expired | Cancelled

record PaymentIntent =
  pi_intentId :: string
  pi_accountId :: string
  pi_coordinatorId :: string
  pi_walletType :: WalletType
  pi_invoiceRef :: string
  pi_amountSats :: int
  pi_coordinatorFeeBps :: int
  pi_coordinatorFeeSats :: int
  pi_netSats :: int
  pi_quotedCredits :: num
  pi_status :: IntentStatus
  pi_createdAtMs :: ms
  pi_settledAtMs :: "ms option"
  pi_txRef :: "string option"

record CoordinatorFeeEvent =
  fe_eventId :: string
  fe_coordinatorId :: string
  fe_intentId :: string
  fe_feeWalletAccountId :: string
  fe_feeSats :: int
  fe_createdAtMs :: ms

datatype PayoutType = Contributor | Coordinator_service | Reserve

record IssuancePayoutEvent =
  po_payoutEventId :: string
  po_issuanceEpochId :: string
  po_accountId :: string
  po_payoutType :: PayoutType
  po_tokens :: num
  po_sourceIntentId :: string
  po_createdAtMs :: ms

record PayConfig =
  COORDINATOR_FEE_BPS :: int
  COORDINATOR_FEE_ACCOUNT :: string
  PAYMENT_INTENT_TTL_MS :: int
  PAYMENT_WEBHOOK_SECRET :: string
  ISSUANCE_COORDINATOR_SHARE :: num
  ISSUANCE_RESERVE_SHARE :: num
  pc_peerId :: string

text \<open>
  \<open>pgIntents\<close> is the table \<open>payment_intents\<close> (\<open>None\<close> without a database), \<open>pgEpoch\<close> the latest finalised epoch with its
  allocations; the last two lists are the rows of the fee and payout tables.
\<close>

record Payments =
  paymentIntents :: "(string, PaymentIntent) jsmap"
  pgIntents :: "(string, PaymentIntent) jsmap option"
  settledTxRefs :: "string list"
  payCredits :: CreditStore
  pgEpoch :: "(string \<times> (string \<times> num) list) option"
  feeEvents :: "CoordinatorFeeEvent list"
  payoutEvents :: "IssuancePayoutEvent list"

section \<open>The table\<close>

definition upsertRow :: "PaymentIntent \<Rightarrow> (string, PaymentIntent) jsmap \<Rightarrow> (string, PaymentIntent) jsmap" where
  "upsertRow i t =
     (case jsm_get t (pi_intentId i) of
        None \<Rightarrow> jsm_set (pi_intentId i) i t
      | Some old \<Rightarrow> jsm_set (pi_intentId i) (old\<lparr> pi_status := pi_status i, pi_settledAtMs := pi_settledAtMs i, pi_txRef := pi_txRef i \<rparr>) t)"

definition upsertPaymentIntent :: "PaymentIntent \<Rightarrow> Payments \<Rightarrow> Payments" where
  "upsertPaymentIntent i p = p\<lparr> pgIntents := map_option (upsertRow i) (pgIntents p) \<rparr>"

definition getPaymentIntent :: "string \<Rightarrow> Payments \<Rightarrow> PaymentIntent option" where
  "getPaymentIntent intentId p = (case pgIntents p of None \<Rightarrow> None | Some t \<Rightarrow> jsm_get t intentId)"

definition listPendingPaymentIntents :: "nat \<Rightarrow> (string, PaymentIntent) jsmap \<Rightarrow> PaymentIntent list" where
  "listPendingPaymentIntents limit t = take limit (sort_key pi_createdAtMs (filter (\<lambda>i. pi_status i = Created) (jsm_values t)))"

section \<open>Settling\<close>

text \<open>Payouts to contributors, coordinator and reserve out of the net amount; \<open>u\<close> gives the generated ids.\<close>

definition allocateIntentPayouts :: "PayConfig \<Rightarrow> (nat \<Rightarrow> string) \<Rightarrow> ms \<Rightarrow> PaymentIntent \<Rightarrow> Payments \<Rightarrow> Payments" where
  "allocateIntentPayouts cfg u now intent p =
     (case (pgIntents p, pgEpoch p) of
        (Some _, Some (epochId, allocations)) \<Rightarrow>
          if allocations = [] then p
          else (let coordinatorShare = max 0 (min (1 / 2) (ISSUANCE_COORDINATOR_SHARE cfg));
                    reserveShare = max 0 (min (1 / 2) (ISSUANCE_RESERVE_SHARE cfg));
                    contributorShare = max 0 (n_sub (n_sub 1 coordinatorShare) reserveShare);
                    contributorPool = n_mul (of_int (pi_netSats intent)) contributorShare;
                    event = (\<lambda>k account ty tokens. \<lparr> po_payoutEventId = u k, po_issuanceEpochId = epochId, po_accountId = account,
                       po_payoutType = ty, po_tokens = tokens, po_sourceIntentId = pi_intentId intent, po_createdAtMs = now \<rparr>);
                    n = length allocations
                in p\<lparr> payoutEvents := payoutEvents p @
                     map (\<lambda>(k, account, share). event k account Contributor (to_fixed 6 (n_mul contributorPool share))) (enumerate 0 allocations) @
                     [event n (COORDINATOR_FEE_ACCOUNT cfg) Coordinator_service (to_fixed 6 (n_mul (of_int (pi_netSats intent)) coordinatorShare)),
                      event (n + 1) (''reserve:'' @ pc_peerId cfg) Reserve (to_fixed 6 (n_mul (of_int (pi_netSats intent)) reserveShare))] \<rparr>)
      | _ \<Rightarrow> p)"

definition purchaseReason :: "string \<Rightarrow> string" where
  "purchaseReason intentId = ''credit_purchase:'' @ intentId"

text \<open>
  \<open>settleIntent\<close> in the parts between which it awaits the database: the reference is taken (\<open>None\<close> is
  \<open>duplicate_tx_ref_rejected\<close>), the account credited, the settled intent put into the map, and then into the table with
  its fee and payouts. \<open>u 0\<close> is the id of the credit transaction, \<open>u 1\<close> of the fee event, the others of the payouts.
\<close>

definition settleBegin :: "string \<Rightarrow> Payments \<Rightarrow> Payments option" where
  "settleBegin txRef p =
     (if txRef \<in> set (settledTxRefs p) then None else Some (p\<lparr> settledTxRefs := jss_add txRef (settledTxRefs p) \<rparr>))"

definition settleCredit :: "string \<Rightarrow> ms \<Rightarrow> PaymentIntent \<Rightarrow> Payments \<Rightarrow> Payments" where
  "settleCredit u now intent p =
     p\<lparr> payCredits := fst (adjustCredits u now (pi_accountId intent) (pi_quotedCredits intent) (purchaseReason (pi_intentId intent)) (payCredits p)) \<rparr>"

definition settledIntent :: "ms \<Rightarrow> string \<Rightarrow> PaymentIntent \<Rightarrow> PaymentIntent" where
  "settledIntent now txRef intent = intent\<lparr> pi_status := Settled, pi_settledAtMs := Some now, pi_txRef := Some txRef \<rparr>"

definition saveIntent :: "PaymentIntent \<Rightarrow> Payments \<Rightarrow> Payments" where
  "saveIntent i p = p\<lparr> paymentIntents := jsm_set (pi_intentId i) i (paymentIntents p) \<rparr>"

definition settleFinish :: "PayConfig \<Rightarrow> (nat \<Rightarrow> string) \<Rightarrow> ms \<Rightarrow> PaymentIntent \<Rightarrow> Payments \<Rightarrow> Payments \<times> CoordinatorFeeEvent" where
  "settleFinish cfg u now settled p =
     (let p2 = upsertPaymentIntent settled p;
          fee = \<lparr> fe_eventId = u 1, fe_coordinatorId = pc_peerId cfg, fe_intentId = pi_intentId settled,
                  fe_feeWalletAccountId = COORDINATOR_FEE_ACCOUNT cfg, fe_feeSats = pi_coordinatorFeeSats settled, fe_createdAtMs = now \<rparr>;
          p3 = (if pgIntents p2 = None then p2 else p2\<lparr> feeEvents := feeEvents p2 @ [fee] \<rparr>)
      in (allocateIntentPayouts cfg (\<lambda>k. u (k + 2)) now settled p3, fee))"

text \<open>The parts one after another, as they run when no other handler comes between.\<close>

definition settleIntent :: "PayConfig \<Rightarrow> (nat \<Rightarrow> string) \<Rightarrow> ms \<Rightarrow> PaymentIntent \<Rightarrow> string \<Rightarrow> Payments \<Rightarrow> Payments \<times> (PaymentIntent \<times> CoordinatorFeeEvent) option" where
  "settleIntent cfg u now intent txRef p =
     (case settleBegin txRef p of
        None \<Rightarrow> (p, None)
      | Some p1 \<Rightarrow>
          (let settled = settledIntent now txRef intent;
               (p4, fee) = settleFinish cfg u now settled (saveIntent settled (settleCredit (u 0) now intent p1))
           in (p4, Some (settled, fee))))"

section \<open>The routes\<close>

datatype PayResponse =
    Pay_ok PaymentIntent
  | Pay_settled PaymentIntent CoordinatorFeeEvent
  | Pay_ignored
  | Pay_already_settled
  | Pay_unauthorized
  | Pay_bad_request
  | Pay_not_found
  | Pay_expired
  | Pay_thrown
  | Pay_scanned nat nat nat

text \<open>The price of a credit is the latest CPU price or 30 sats.\<close>

definition satsPerCredit :: "PriceEpochs \<Rightarrow> num" where
  "satsPerCredit epochs = (case jsm_get epochs Cpu of None \<Rightarrow> 30 | Some e \<Rightarrow> pe_pricePerComputeUnitSats e)"

definition newIntent :: "PayConfig \<Rightarrow> PriceEpochs \<Rightarrow> string \<Rightarrow> string \<Rightarrow> ms \<Rightarrow> string \<Rightarrow> WalletType \<Rightarrow> int \<Rightarrow> PaymentIntent" where
  "newIntent cfg epochs uuid invoiceRef now accountId walletType amountSats =
     (let (feeSats, netSats) = computeIntentFee amountSats (COORDINATOR_FEE_BPS cfg)
      in \<lparr> pi_intentId = uuid, pi_accountId = accountId, pi_coordinatorId = pc_peerId cfg, pi_walletType = walletType,
           pi_invoiceRef = invoiceRef, pi_amountSats = amountSats, pi_coordinatorFeeBps = COORDINATOR_FEE_BPS cfg,
           pi_coordinatorFeeSats = feeSats, pi_netSats = netSats, pi_quotedCredits = creditsForSats (of_int netSats) (satsPerCredit epochs),
           pi_status = Created, pi_createdAtMs = now, pi_settledAtMs = None, pi_txRef = None \<rparr>)"

definition createIntent ::
  "PayConfig \<Rightarrow> PriceEpochs \<Rightarrow> bool \<Rightarrow> string \<Rightarrow> string \<Rightarrow> ms \<Rightarrow> string \<Rightarrow> WalletType \<Rightarrow> int \<Rightarrow> Payments \<Rightarrow> Payments \<times> PayResponse" where
  "createIntent cfg epochs meshOk uuid invoiceRef now accountId walletType amountSats p =
     (if \<not> meshOk then (p, Pay_unauthorized)
      else if \<not> (0 < amountSats \<and> amountSats \<le> 100000000) then (p, Pay_bad_request)
      else (let intent = newIntent cfg epochs uuid invoiceRef now accountId walletType amountSats
            in (upsertPaymentIntent intent (saveIntent intent p), Pay_ok intent)))"

definition lookupIntent :: "string \<Rightarrow> Payments \<Rightarrow> PaymentIntent option" where
  "lookupIntent intentId p = (case jsm_get (paymentIntents p) intentId of Some i \<Rightarrow> Some i | None \<Rightarrow> getPaymentIntent intentId p)"

definition settledOr :: "Payments \<times> (PaymentIntent \<times> CoordinatorFeeEvent) option \<Rightarrow> Payments \<times> PayResponse" where
  "settledOr r = (case r of (p, None) \<Rightarrow> (p, Pay_thrown) | (p, Some (i, fee)) \<Rightarrow> (p, Pay_settled i fee))"

definition confirmIntent :: "PayConfig \<Rightarrow> bool \<Rightarrow> (nat \<Rightarrow> string) \<Rightarrow> ms \<Rightarrow> string \<Rightarrow> string \<Rightarrow> Payments \<Rightarrow> Payments \<times> PayResponse" where
  "confirmIntent cfg meshOk u now intentId txRef p =
     (if \<not> meshOk then (p, Pay_unauthorized)
      else if length txRef < 4 then (p, Pay_bad_request)
      else (case lookupIntent intentId p of
              None \<Rightarrow> (p, Pay_not_found)
            | Some intent \<Rightarrow>
                if pi_status intent = Settled then (p, Pay_ok intent)
                else if pi_status intent = Expired then (p, Pay_expired)
                else settledOr (settleIntent cfg u now intent txRef p)))"

definition webhookAuthorized :: "PayConfig \<Rightarrow> string option \<Rightarrow> bool" where
  "webhookAuthorized cfg provided =
     (PAYMENT_WEBHOOK_SECRET cfg = [] \<or> (case provided of None \<Rightarrow> False | Some s \<Rightarrow> safeTokenEqual s (PAYMENT_WEBHOOK_SECRET cfg)))"

definition matchInvoice :: "string \<Rightarrow> Payments \<Rightarrow> PaymentIntent option" where
  "matchInvoice invoiceRef p =
     (case find (\<lambda>i. pi_invoiceRef i = invoiceRef) (jsm_values (paymentIntents p)) of
        Some i \<Rightarrow> Some i
      | None \<Rightarrow> (case pgIntents p of None \<Rightarrow> None
                 | Some t \<Rightarrow> find (\<lambda>i. pi_invoiceRef i = invoiceRef) (listPendingPaymentIntents 500 t)))"

definition webhook ::
  "PayConfig \<Rightarrow> bool \<Rightarrow> string option \<Rightarrow> (nat \<Rightarrow> string) \<Rightarrow> ms \<Rightarrow> string \<Rightarrow> bool \<Rightarrow> string \<Rightarrow> string option \<Rightarrow> Payments \<Rightarrow> Payments \<times> PayResponse" where
  "webhook cfg meshOk secret u now invoiceRef settled ref_uuid txRef p =
     (if \<not> meshOk then (p, Pay_unauthorized)
      else if \<not> webhookAuthorized cfg secret then (p, Pay_unauthorized)
      else if length invoiceRef < 8 then (p, Pay_bad_request)
      else (case matchInvoice invoiceRef p of
              None \<Rightarrow> (p, Pay_not_found)
            | Some intent \<Rightarrow>
                if \<not> settled then (p, Pay_ignored)
                else if pi_status intent = Settled then (p, Pay_already_settled)
                else settledOr (settleIntent cfg u now intent (nullish txRef (''webhook:'' @ ref_uuid)) p)))"

text \<open>
  The reconciliation loop over the pending intents, with the counts so far. \<open>lightning\<close> is the provider's answer
  (not settled where the request fails); \<open>ids\<close> gives the generated ids and reference of each
  position. A duplicate reference aborts the handler.
\<close>

fun reconcileLoop ::
  "PayConfig \<Rightarrow> (string \<Rightarrow> bool \<times> string option) \<Rightarrow> (nat \<Rightarrow> (nat \<Rightarrow> string) \<times> string) \<Rightarrow> ms \<Rightarrow> nat \<Rightarrow> PaymentIntent list \<Rightarrow> nat \<Rightarrow> nat \<Rightarrow>
   Payments \<Rightarrow> Payments \<times> (nat \<times> nat) option" where
  "reconcileLoop cfg lightning ids now k [] settledCount expiredCount p = (p, Some (settledCount, expiredCount))"
| "reconcileLoop cfg lightning ids now k (intent # rest) settledCount expiredCount p =
     (if pi_status intent \<noteq> Created then reconcileLoop cfg lightning ids now (k + 1) rest settledCount expiredCount p
      else if now - pi_createdAtMs intent > PAYMENT_INTENT_TTL_MS cfg
      then (let expired = intent\<lparr> pi_status := Expired \<rparr>
            in reconcileLoop cfg lightning ids now (k + 1) rest settledCount (expiredCount + 1)
                 (upsertPaymentIntent expired (saveIntent expired p)))
      else if fst (lightning (pi_invoiceRef intent))
      then (case settleIntent cfg (fst (ids k)) now intent (nullish (snd (lightning (pi_invoiceRef intent))) (''reconcile:'' @ snd (ids k))) p of
              (p', None) \<Rightarrow> (p', None)
            | (p', Some _) \<Rightarrow> reconcileLoop cfg lightning ids now (k + 1) rest (settledCount + 1) expiredCount p')
      else reconcileLoop cfg lightning ids now (k + 1) rest settledCount expiredCount p)"

definition pendingIntents :: "Payments \<Rightarrow> PaymentIntent list" where
  "pendingIntents p = (case pgIntents p of Some t \<Rightarrow> listPendingPaymentIntents 500 t | None \<Rightarrow> jsm_values (paymentIntents p))"

definition reconcile ::
  "PayConfig \<Rightarrow> bool \<Rightarrow> (string \<Rightarrow> bool \<times> string option) \<Rightarrow> (nat \<Rightarrow> (nat \<Rightarrow> string) \<times> string) \<Rightarrow> ms \<Rightarrow> Payments \<Rightarrow> Payments \<times> PayResponse" where
  "reconcile cfg meshOk lightning ids now p =
     (if \<not> meshOk then (p, Pay_unauthorized)
      else (case reconcileLoop cfg lightning ids now 0 (pendingIntents p) 0 0 p of
              (p', None) \<Rightarrow> (p', Pay_thrown)
            | (p', Some (s, e)) \<Rightarrow> (p', Pay_scanned (length (pendingIntents p)) s e)))"

text \<open>A restart with a database: the variables are lost, and the pending intents are read back from the table.\<close>

definition restart :: "Payments \<Rightarrow> Payments" where
  "restart p = (case pgIntents p of
     None \<Rightarrow> p
   | Some t \<Rightarrow> p\<lparr> settledTxRefs := [],
       paymentIntents := foldl (\<lambda>m i. jsm_set (pi_intentId i) i m) [] (listPendingPaymentIntents 500 t) \<rparr>)"

section \<open>Overlapping handlers\<close>

text \<open>
  What a handler that has read an intent is about to do with it: it has only seen it, has taken the reference, has
  credited the account, or has put the new value into the map and not yet into the table (with
  the row it will replace).
\<close>

datatype SettleJob =
    J_seen PaymentIntent
  | J_begun PaymentIntent string
  | J_credited PaymentIntent string
  | J_saved "PaymentIntent option" PaymentIntent

type_synonym Jobs = "string \<Rightarrow> SettleJob option"

text \<open>The scan of the reconciliation route and of the poller: every pending intent is seen at once.\<close>

definition scanJobs :: "Payments \<Rightarrow> Jobs \<Rightarrow> Jobs" where
  "scanJobs p js k = (case find (\<lambda>i. pi_intentId i = k \<and> pi_status i = Created) (pendingIntents p) of Some i \<Rightarrow> Some (J_seen i) | None \<Rightarrow> js k)"

definition finishJob :: "PayConfig \<Rightarrow> (nat \<Rightarrow> string) \<Rightarrow> ms \<Rightarrow> PaymentIntent \<Rightarrow> Payments \<Rightarrow> Payments" where
  "finishJob cfg u now i p = (if pi_status i = Settled then fst (settleFinish cfg u now i p) else upsertPaymentIntent i p)"

text \<open>Credit transactions of the rest of the coordinator; their reasons are constants of the code.\<close>

definition otherReasons :: "string set" where
  "otherReasons = {''compute_contribution'', ''task_submit'', ''ble_compute'', ''faucet''}"

text \<open>
  The parts of the handlers in any order. The handlers of different intents overlap freely; at most
  one at a time works on an intent, and no restart falls between a credit and its row.
\<close>

inductive pay_step :: "PayConfig \<Rightarrow> Payments \<times> Jobs \<Rightarrow> Payments \<times> Jobs \<Rightarrow> bool" for cfg where
  pay_create: "lookupIntent uuid p = None \<Longrightarrow> js uuid = None \<Longrightarrow> i = newIntent cfg epochs uuid invoice now a w amt \<Longrightarrow>
    pay_step cfg (p, js) (saveIntent i p, js(uuid \<mapsto> J_saved None i))"
| pay_confirm: "lookupIntent k p = Some i \<Longrightarrow> js k = None \<Longrightarrow> pi_status i \<noteq> Settled \<Longrightarrow> pi_status i \<noteq> Expired \<Longrightarrow>
    pay_step cfg (p, js) (p, js(k \<mapsto> J_seen i))"
| pay_webhook: "matchInvoice ref p = Some i \<Longrightarrow> js (pi_intentId i) = None \<Longrightarrow> pi_status i \<noteq> Settled \<Longrightarrow>
    pay_step cfg (p, js) (p, js(pi_intentId i \<mapsto> J_seen i))"
| pay_scan: "\<forall>i \<in> set (pendingIntents p). js (pi_intentId i) = None \<Longrightarrow> pay_step cfg (p, js) (p, scanJobs p js)"
| pay_leave: "js k = Some (J_seen i) \<Longrightarrow> pay_step cfg (p, js) (p, js(k := None))"
| pay_expire: "js k = Some (J_seen i) \<Longrightarrow> x = i\<lparr> pi_status := Expired \<rparr> \<Longrightarrow>
    pay_step cfg (p, js) (saveIntent x p, js(k \<mapsto> J_saved (Some i) x))"
| pay_begin: "js k = Some (J_seen i) \<Longrightarrow> settleBegin txRef p = Some p' \<Longrightarrow> pay_step cfg (p, js) (p', js(k \<mapsto> J_begun i txRef))"
| pay_credit: "js k = Some (J_begun i txRef) \<Longrightarrow> freshTx u (payCredits p) \<Longrightarrow>
    pay_step cfg (p, js) (settleCredit u now i p, js(k \<mapsto> J_credited i txRef))"
| pay_save: "js k = Some (J_credited i txRef) \<Longrightarrow> s = settledIntent now txRef i \<Longrightarrow>
    pay_step cfg (p, js) (saveIntent s p, js(k \<mapsto> J_saved (Some i) s))"
| pay_row: "js k = Some (J_saved old i) \<Longrightarrow> pay_step cfg (p, js) (finishJob cfg u now i p, js(k := None))"
| pay_restart: "pgIntents p \<noteq> None \<Longrightarrow> \<forall>k i r. js k \<noteq> Some (J_credited i r) \<Longrightarrow> \<forall>k old i. js k \<noteq> Some (J_saved old i) \<Longrightarrow>
    pay_step cfg (p, js) (restart p, \<lambda>_. None)"
| pay_other: "tx_reason tx \<in> otherReasons \<Longrightarrow> freshTx (tx_txId tx) (payCredits p) \<Longrightarrow>
    pay_step cfg (p, js) (p\<lparr> payCredits := postTx tx (payCredits p) \<rparr>, js)"

section \<open>One intent at a time\<close>

definition keyed :: "(string, PaymentIntent) jsmap \<Rightarrow> bool" where
  "keyed m = (jsm_wf m \<and> (\<forall>k i. jsm_get m k = Some i \<longrightarrow> pi_intentId i = k))"

lemma keyed_set: "keyed m \<Longrightarrow> pi_intentId i = k \<Longrightarrow> keyed (jsm_set k i m)"
  by (auto simp: keyed_def jsm_get_set)

text \<open>The row of an intent, where there is a table.\<close>

definition rowOf :: "string \<Rightarrow> (string, PaymentIntent) jsmap option \<Rightarrow> PaymentIntent option option" where
  "rowOf k pg = map_option (\<lambda>t. jsm_get t k) pg"

definition pick :: "PaymentIntent option \<Rightarrow> PaymentIntent option option \<Rightarrow> PaymentIntent option" where
  "pick m r = (case m of Some i \<Rightarrow> Some i | None \<Rightarrow> (case r of None \<Rightarrow> None | Some x \<Rightarrow> x))"

lemma lookupIntent_pick: "lookupIntent k p = pick (jsm_get (paymentIntents p) k) (rowOf k (pgIntents p))"
  by (simp add: lookupIntent_def pick_def rowOf_def getPaymentIntent_def split: option.splits)

text \<open>An intent is new, or differs from the stored one in what an upsert writes.\<close>

definition successor :: "PaymentIntent option \<Rightarrow> PaymentIntent \<Rightarrow> bool" where
  "successor old i = (case old of None \<Rightarrow> True
     | Some x \<Rightarrow> i = x\<lparr> pi_status := pi_status i, pi_settledAtMs := pi_settledAtMs i, pi_txRef := pi_txRef i \<rparr>)"

lemma successor_simps [simp]:
  "successor None i" "successor (Some i) (i\<lparr> pi_status := st \<rparr>)" "successor (Some i) (settledIntent now txRef i)"
  by (simp_all add: successor_def settledIntent_def)

lemma upsertRow_get:
  assumes "successor (jsm_get t (pi_intentId i)) i"
  shows "upsertRow i t = jsm_set (pi_intentId i) i t"
  using assms by (auto simp: upsertRow_def successor_def split: option.splits)

text \<open>The state of one intent: value in the map, row, handler at work, and the credits its account received.\<close>

definition credited :: "PaymentIntent option \<Rightarrow> SettleJob option \<Rightarrow> string \<Rightarrow> num list" where
  "credited cur j a = (case cur of None \<Rightarrow> []
     | Some i \<Rightarrow> if pi_accountId i = a \<and> (pi_status i = Settled \<or> (\<exists>i' r. j = Some (J_credited i' r))) then [pi_quotedCredits i] else [])"

definition slot_ok :: "string \<Rightarrow> PaymentIntent option \<Rightarrow> PaymentIntent option option \<Rightarrow> SettleJob option \<Rightarrow> (string \<Rightarrow> num list) \<Rightarrow> bool" where
  "slot_ok k m r j cr = (cr = credited (pick m r) j \<and>
     (case j of
        Some (J_saved old s) \<Rightarrow> m = Some s \<and> pi_intentId s = k \<and> successor old s \<and> (r = None \<or> r = Some old)
      | _ \<Rightarrow> (\<forall>x i. r = Some x \<longrightarrow> m = Some i \<longrightarrow> x = Some i)) \<and>
     (case j of
        Some (J_seen i) \<Rightarrow> pick m r = Some i \<and> pi_status i \<noteq> Settled \<and> pi_intentId i = k
      | Some (J_begun i txRef) \<Rightarrow> pick m r = Some i \<and> pi_status i \<noteq> Settled \<and> pi_intentId i = k
      | Some (J_credited i txRef) \<Rightarrow> pick m r = Some i \<and> pi_status i \<noteq> Settled \<and> pi_intentId i = k
      | _ \<Rightarrow> True))"

definition purchases :: "Payments \<Rightarrow> string \<Rightarrow> string \<Rightarrow> num list" where
  "purchases p k a = map signedCredits (filter (\<lambda>tx. tx_reason tx = purchaseReason k) (accountTxs (payCredits p) a))"

definition slotOf :: "Payments \<Rightarrow> string \<Rightarrow> SettleJob option \<Rightarrow> bool" where
  "slotOf p k j = slot_ok k (jsm_get (paymentIntents p) k) (rowOf k (pgIntents p)) j (purchases p k)"

definition pay_inv :: "Payments \<times> Jobs \<Rightarrow> bool" where
  "pay_inv pj = (case pj of (p, js) \<Rightarrow>
     keyed (paymentIntents p) \<and> (\<forall>t. pgIntents p = Some t \<longrightarrow> keyed t) \<and> (\<forall>k. slotOf p k (js k)))"

lemma purchaseReason_inj [simp]: "purchaseReason k = purchaseReason l \<longleftrightarrow> k = l"
  by (simp add: purchaseReason_def)

lemma tx_reason_simps [simp]:
  "tx_reason (earnTx u now a c r t) = r" "tx_reason (spendTx u now a c r t) = r" "tx_reason (adjustTx u now a c r) = r"
  by (simp_all add: earnTx_def spendTx_def adjustTx_def)

lemma saveIntent_simps [simp]:
  "paymentIntents (saveIntent i p) = jsm_set (pi_intentId i) i (paymentIntents p)" "pgIntents (saveIntent i p) = pgIntents p"
  "payCredits (saveIntent i p) = payCredits p" "settledTxRefs (saveIntent i p) = settledTxRefs p"
  by (simp_all add: saveIntent_def)

lemma allocate_simps [simp]:
  "paymentIntents (allocateIntentPayouts cfg v n j q) = paymentIntents q" "pgIntents (allocateIntentPayouts cfg v n j q) = pgIntents q"
  "payCredits (allocateIntentPayouts cfg v n j q) = payCredits q"
  by (simp_all add: allocateIntentPayouts_def Let_def split: option.splits prod.splits)

lemma finishJob_simps [simp]:
  "paymentIntents (finishJob cfg u now i p) = paymentIntents p" "pgIntents (finishJob cfg u now i p) = map_option (upsertRow i) (pgIntents p)"
  "payCredits (finishJob cfg u now i p) = payCredits p"
  by (simp_all add: finishJob_def settleFinish_def Let_def upsertPaymentIntent_def)

lemma purchases_simps [simp]:
  "purchases (saveIntent i p) k = purchases p k" "purchases (finishJob cfg u now i p) k = purchases p k"
  by (simp_all add: purchases_def fun_eq_iff)

section \<open>Every part keeps the invariant\<close>

text \<open>A part touches the slot of one intent.\<close>

lemma pay_inv_update:
  assumes "pay_inv (p, js)" "keyed (paymentIntents p')" "\<And>t. pgIntents p' = Some t \<Longrightarrow> keyed t" "slotOf p' k j"
    and "\<And>x. x \<noteq> k \<Longrightarrow> jsm_get (paymentIntents p') x = jsm_get (paymentIntents p) x"
    and "\<And>x. x \<noteq> k \<Longrightarrow> rowOf x (pgIntents p') = rowOf x (pgIntents p)" "\<And>x. x \<noteq> k \<Longrightarrow> purchases p' x = purchases p x"
  shows "pay_inv (p', js(k := j))"
  using assms by (simp add: pay_inv_def slotOf_def)

lemma slot_id:
  assumes "pay_inv (p, js)" "lookupIntent k p = Some i"
  shows "pi_intentId i = k"
  using assms by (auto simp: pay_inv_def lookupIntent_pick pick_def rowOf_def keyed_def split: option.splits)

lemma save_step:
  assumes inv: "pay_inv (p, js)" and i: "pi_intentId i = k" and slot: "slot_ok k (Some i) (rowOf k (pgIntents p)) j (purchases p k)"
  shows "pay_inv (saveIntent i p, js(k := j))"
proof (rule pay_inv_update [OF inv])
  show "keyed (paymentIntents (saveIntent i p))" using inv i by (simp add: pay_inv_def keyed_set)
  show "slotOf (saveIntent i p) k j" using slot i by (simp add: slotOf_def jsm_get_set)
qed (use inv i in \<open>simp_all add: jsm_get_set pay_inv_def\<close>)

lemma credited_idle [simp]:
  "credited cur (Some (J_seen i)) = credited cur None" "credited cur (Some (J_begun i txRef)) = credited cur None"
  "credited cur (Some (J_saved old i)) = credited cur None"
  by (simp_all add: credited_def fun_eq_iff split: option.splits)

lemma row_step:
  assumes inv: "pay_inv (p, js)" and j: "js k = Some (J_saved old i)"
  shows "pay_inv (finishJob cfg u now i p, js(k := None))"
proof -
  have sl: "slotOf p k (Some (J_saved old i))" using inv j by (metis (no_types, lifting) case_prod_conv pay_inv_def)
  then have i: "pi_intentId i = k" and suc: "successor old i" and m: "jsm_get (paymentIntents p) k = Some i"
    and cr: "purchases p k = credited (Some i) None"
    by (simp_all add: slotOf_def slot_ok_def pick_def)
  from sl have r: "jsm_get t k = old" if "pgIntents p = Some t" for t using that by (simp add: slotOf_def slot_ok_def rowOf_def)
  have up: "upsertRow i t = jsm_set k i t" if "pgIntents p = Some t" for t
    using upsertRow_get [of t i] suc r [OF that] by (simp add: i)
  show ?thesis
  proof (rule pay_inv_update [OF inv])
    show "slotOf (finishJob cfg u now i p) k None"
      using m cr up by (cases "pgIntents p") (simp_all add: slotOf_def slot_ok_def rowOf_def pick_def jsm_get_set)
    show "keyed t" if "pgIntents (finishJob cfg u now i p) = Some t" for t
      using that inv up i by (auto simp: pay_inv_def keyed_set)
    show "rowOf x (pgIntents (finishJob cfg u now i p)) = rowOf x (pgIntents p)" if "x \<noteq> k" for x
      using that up by (cases "pgIntents p") (simp_all add: rowOf_def jsm_get_set)
  qed (use inv in \<open>simp_all add: pay_inv_def\<close>)
qed

lemma job_step:
  assumes "pay_inv (p, js)" "slotOf p k j"
  shows "pay_inv (p, js(k := j))"
  using assms by (simp add: pay_inv_def)

lemma slot_job: "pay_inv (p, js) \<Longrightarrow> js k = j \<Longrightarrow> slotOf p k j"
  by (auto simp: pay_inv_def)

lemma seen_step:
  assumes "pay_inv (p, js)" "js k = None" "lookupIntent k p = Some i" "pi_status i \<noteq> Settled"
  shows "pay_inv (p, js(k \<mapsto> J_seen i))"
proof (rule job_step [OF assms(1)])
  have "slotOf p k None" using slot_job [OF assms(1,2)] .
  then show "slotOf p k (Some (J_seen i))"
    using assms(3,4) slot_id [OF assms(1,3)] by (simp add: slotOf_def slot_ok_def lookupIntent_pick)
qed

lemma leave_step: "pay_inv (p, js) \<Longrightarrow> js k = Some (J_seen i) \<Longrightarrow> pay_inv (p, js(k := None))"
  using slot_job [of p js k] by (intro job_step) (simp_all add: slotOf_def slot_ok_def)

lemma slot_seen:
  assumes "pay_inv (p, js)" "js k = Some j" "j = J_seen i \<or> j = J_begun i r \<or> j = J_credited i r"
  shows "pick (jsm_get (paymentIntents p) k) (rowOf k (pgIntents p)) = Some i" "pi_status i \<noteq> Settled" "pi_intentId i = k"
    "rowOf k (pgIntents p) = None \<or> rowOf k (pgIntents p) = Some (Some i)" "purchases p k = credited (Some i) (Some j)"
    "\<forall>x i. rowOf k (pgIntents p) = Some x \<longrightarrow> jsm_get (paymentIntents p) k = Some i \<longrightarrow> x = Some i"
proof -
  have sl: "slotOf p k (Some j)" using slot_job [OF assms(1,2)] .
  show pk: "pick (jsm_get (paymentIntents p) k) (rowOf k (pgIntents p)) = Some i" and "pi_status i \<noteq> Settled" "pi_intentId i = k"
    "purchases p k = credited (Some i) (Some j)"
    and co: "\<forall>x i. rowOf k (pgIntents p) = Some x \<longrightarrow> jsm_get (paymentIntents p) k = Some i \<longrightarrow> x = Some i"
    using sl assms(3) by (auto simp: slotOf_def slot_ok_def)
  show "rowOf k (pgIntents p) = None \<or> rowOf k (pgIntents p) = Some (Some i)"
    using pk co by (cases "rowOf k (pgIntents p)"; cases "jsm_get (paymentIntents p) k") (simp_all add: pick_def)
qed

lemma expire_step:
  assumes "pay_inv (p, js)" "js k = Some (J_seen i)"
  shows "pay_inv (saveIntent (i\<lparr> pi_status := Expired \<rparr>) p, js(k \<mapsto> J_saved (Some i) (i\<lparr> pi_status := Expired \<rparr>)))"
  using slot_seen [OF assms, of i "[]"] by (intro save_step [OF assms(1)]) (auto simp: slot_ok_def pick_def credited_def)

lemma begin_step:
  assumes inv: "pay_inv (p, js)" and j: "js k = Some (J_seen i)" and b: "settleBegin txRef p = Some p'"
  shows "pay_inv (p', js(k \<mapsto> J_begun i txRef))"
proof -
  have p': "paymentIntents p' = paymentIntents p" "pgIntents p' = pgIntents p" "payCredits p' = payCredits p"
    using b by (auto simp: settleBegin_def split: if_splits)
  then have pc: "purchases p' x = purchases p x" for x by (simp add: purchases_def fun_eq_iff)
  have "slotOf p' k (Some (J_begun i txRef))"
    using slot_seen [OF inv j, of i "[]"] by (simp add: slotOf_def slot_ok_def p' pc)
  then show ?thesis using inv by (intro pay_inv_update [OF inv]) (simp_all add: p' pc pay_inv_def)
qed

lemma purchase_step:
  assumes inv: "pay_inv (p, js)" and j: "js k = Some (J_begun i txRef)" and f: "freshTx u (payCredits p)"
  shows "pay_inv (settleCredit u now i p, js(k \<mapsto> J_credited i txRef))"
proof -
  let ?p = "settleCredit u now i p"
  note sl = slot_seen [OF inv j, of i txRef]
  have p': "paymentIntents ?p = paymentIntents p" "pgIntents ?p = pgIntents p" by (simp_all add: settleCredit_def)
  have pur: "purchases ?p x a = purchases p x a @ (if a = pi_accountId i \<and> x = k then [pi_quotedCredits i] else [])" for x a
    using f sl(3) by (simp add: purchases_def settleCredit_def adjustCredits_post store.entries_post)
  have "slotOf ?p k (Some (J_credited i txRef))"
    using sl by (simp add: slotOf_def slot_ok_def p' fun_eq_iff pur) (simp add: credited_def)
  then show ?thesis using inv by (intro pay_inv_update [OF inv]) (simp_all add: p' pur fun_eq_iff pay_inv_def)
qed

lemma settle_job_step:
  assumes "pay_inv (p, js)" "js k = Some (J_credited i txRef)"
  shows "pay_inv (saveIntent (settledIntent now txRef i) p, js(k \<mapsto> J_saved (Some i) (settledIntent now txRef i)))"
proof (rule save_step [OF assms(1)])
  note sl = slot_seen [OF assms, of i txRef]
  show "pi_intentId (settledIntent now txRef i) = k" using sl by (simp add: settledIntent_def)
  then show "slot_ok k (Some (settledIntent now txRef i)) (rowOf k (pgIntents p)) (Some (J_saved (Some i) (settledIntent now txRef i))) (purchases p k)"
    using sl by (simp add: slot_ok_def pick_def fun_eq_iff) (simp add: credited_def settledIntent_def)
qed

lemma create_step:
  assumes inv: "pay_inv (p, js)" and n: "lookupIntent uuid p = None" "js uuid = None" and i: "pi_intentId i = uuid" "pi_status i \<noteq> Settled"
  shows "pay_inv (saveIntent i p, js(uuid \<mapsto> J_saved None i))"
proof (rule save_step [OF inv i(1)])
  have "slotOf p uuid None" using slot_job [OF inv n(2)] .
  then show "slot_ok uuid (Some i) (rowOf uuid (pgIntents p)) (Some (J_saved None i)) (purchases p uuid)"
    using n(1) i unfolding slotOf_def slot_ok_def lookupIntent_pick
    by (cases "rowOf uuid (pgIntents p)") (auto simp: pick_def credited_def split: option.splits)
qed

text \<open>Which intents the routes read.\<close>

lemma values_get: "jsm_wf m \<Longrightarrow> i \<in> set (jsm_values m) \<longleftrightarrow> (\<exists>k. jsm_get m k = Some i)"
  by (force simp: jsm_values_def jsm_get_iff)

lemma keyed_value: "keyed m \<Longrightarrow> i \<in> set (jsm_values m) \<Longrightarrow> jsm_get m (pi_intentId i) = Some i"
  using values_get unfolding keyed_def by metis

lemma pending_get:
  assumes "keyed t" "i \<in> set (listPendingPaymentIntents n t)"
  shows "jsm_get t (pi_intentId i) = Some i" "pi_status i = Created"
proof -
  have "i \<in> set (sort_key pi_createdAtMs (filter (\<lambda>i. pi_status i = Created) (jsm_values t)))"
    using assms(2) unfolding listPendingPaymentIntents_def by (rule in_set_takeD)
  then have i: "i \<in> set (jsm_values t)" "pi_status i = Created" by simp_all
  then show "pi_status i = Created" by simp
  show "jsm_get t (pi_intentId i) = Some i" using keyed_value [OF assms(1) i(1)] .
qed

lemma lookup_mem: "jsm_get (paymentIntents p) k = Some i \<Longrightarrow> lookupIntent k p = Some i"
  by (simp add: lookupIntent_def)

lemma lookup_row:
  assumes "pay_inv (p, js)" "js k = None" "pgIntents p = Some t" "jsm_get t k = Some i"
  shows "lookupIntent k p = Some i"
  using slot_job [OF assms(1,2)] assms(3,4) by (auto simp: slotOf_def slot_ok_def rowOf_def lookupIntent_pick pick_def split: option.splits)

lemma matchInvoice_current:
  assumes inv: "pay_inv (p, js)" and m: "matchInvoice ref p = Some i" and j: "js (pi_intentId i) = None"
  shows "lookupIntent (pi_intentId i) p = Some i"
proof (cases "find (\<lambda>i. pi_invoiceRef i = ref) (jsm_values (paymentIntents p))")
  case (Some x)
  with m have "i \<in> set (jsm_values (paymentIntents p))" by (auto simp: matchInvoice_def dest: find_SomeD)
  then show ?thesis using inv by (simp add: pay_inv_def keyed_value lookup_mem)
next
  case None
  with m obtain t where t: "pgIntents p = Some t" "i \<in> set (listPendingPaymentIntents 500 t)"
    by (auto simp: matchInvoice_def split: option.splits dest: find_SomeD)
  then have "keyed t" using inv by (simp add: pay_inv_def)
  then show ?thesis using lookup_row [OF inv j t(1)] pending_get(1) t(2) by simp
qed

lemma pending_current:
  assumes inv: "pay_inv (p, js)" and i: "i \<in> set (pendingIntents p)" and j: "js (pi_intentId i) = None"
  shows "lookupIntent (pi_intentId i) p = Some i"
proof (cases "pgIntents p")
  case None
  then have "i \<in> set (jsm_values (paymentIntents p))" using i by (simp add: pendingIntents_def)
  then show ?thesis using inv by (simp add: pay_inv_def keyed_value lookup_mem)
next
  case (Some t)
  then have "keyed t" using inv by (simp add: pay_inv_def)
  then show ?thesis using lookup_row [OF inv j Some] pending_get(1) i Some by (simp add: pendingIntents_def)
qed

lemma scan_step:
  assumes inv: "pay_inv (p, js)" and free: "\<forall>i \<in> set (pendingIntents p). js (pi_intentId i) = None"
  shows "pay_inv (p, scanJobs p js)"
proof -
  have "slotOf p k (scanJobs p js k)" for k
  proof (cases "find (\<lambda>i. pi_intentId i = k \<and> pi_status i = Created) (pendingIntents p)")
    case None
    then show ?thesis using slot_job [OF inv refl] by (simp add: scanJobs_def)
  next
    case (Some i)
    then have i: "i \<in> set (pendingIntents p)" "pi_intentId i = k" "pi_status i = Created" by (auto dest: find_SomeD)
      then have j: "js k = None" using free by auto
    have "lookupIntent k p = Some i" using pending_current [OF inv i(1)] j i(2) by simp
    then have "pay_inv (p, js(k \<mapsto> J_seen i))" using seen_step [OF inv j] i(3) by simp
    then have "slotOf p k (Some (J_seen i))" using slot_job by (metis fun_upd_same)
    then show ?thesis using Some by (simp add: scanJobs_def)
  qed
  then show ?thesis using inv by (simp add: pay_inv_def)
qed

lemma restored_get:
  assumes "keyed m" "\<forall>i \<in> set is. jsm_get t (pi_intentId i) = Some i" "\<forall>k i. jsm_get m k = Some i \<longrightarrow> jsm_get t k = Some i"
  shows "keyed (foldl (\<lambda>m i. jsm_set (pi_intentId i) i m) m is) \<and>
    (\<forall>k i. jsm_get (foldl (\<lambda>m i. jsm_set (pi_intentId i) i m) m is) k = Some i \<longrightarrow> jsm_get t k = Some i)"
  using assms
proof (induction "is" arbitrary: m)
  case (Cons i "is")
  show ?case unfolding foldl_Cons
    by (rule Cons.IH) (use Cons.prems in \<open>auto simp: keyed_set jsm_get_set\<close>)
qed simp

lemma slot_restart:
  assumes "slot_ok k m (Some x) j cr" "\<And>i. m' = Some i \<Longrightarrow> x = Some i"
    "\<forall>i r. j \<noteq> Some (J_credited i r)" "\<forall>old i. j \<noteq> Some (J_saved old i)"
  shows "slot_ok k m' (Some x) None cr"
proof -
  have "pick m (Some x) = x" "credited x j = credited x None"
    using assms(1,3,4) by (auto simp: slot_ok_def pick_def split: option.splits SettleJob.splits)
  moreover have "pick m' (Some x) = x" using assms(2) by (auto simp: pick_def split: option.splits)
  ultimately show ?thesis using assms(1,2) by (auto simp: slot_ok_def)
qed

lemma restart_step:
  assumes inv: "pay_inv (p, js)" and db: "pgIntents p \<noteq> None"
    and quiet: "\<forall>k i r. js k \<noteq> Some (J_credited i r)" "\<forall>k old i. js k \<noteq> Some (J_saved old i)"
  shows "pay_inv (restart p, \<lambda>_. None)"
proof -
  obtain t where t: "pgIntents p = Some t" using db by blast
  have k: "keyed t" using inv t by (simp add: pay_inv_def)
  let ?m = "foldl (\<lambda>m i. jsm_set (pi_intentId i) i m) [] (listPendingPaymentIntents 500 t)"
  have m: "keyed ?m \<and> (\<forall>k i. jsm_get ?m k = Some i \<longrightarrow> jsm_get t k = Some i)"
    by (rule restored_get) (use pending_get(1) [OF k] in \<open>simp_all add: keyed_def\<close>)
  have st: "paymentIntents (restart p) = ?m" "pgIntents (restart p) = Some t" "payCredits (restart p) = payCredits p"
    by (simp_all add: restart_def t)
  then have pur: "purchases (restart p) x = purchases p x" for x by (simp add: purchases_def fun_eq_iff)
  have "slotOf (restart p) x None" for x
  proof -
    have "slot_ok x (jsm_get (paymentIntents p) x) (Some (jsm_get t x)) (js x) (purchases p x)"
      using slot_job [OF inv refl, of x] by (simp add: slotOf_def rowOf_def t)
    then have "slot_ok x (jsm_get ?m x) (Some (jsm_get t x)) None (purchases p x)"
      by (rule slot_restart) (use m quiet in auto)
    then show ?thesis by (simp add: slotOf_def rowOf_def st pur)
  qed
  then show ?thesis using m k by (simp add: pay_inv_def st)
qed

lemma other_step:
  assumes inv: "pay_inv (p, js)" and tx: "tx_reason tx \<in> otherReasons" "freshTx (tx_txId tx) (payCredits p)"
  shows "pay_inv (p\<lparr> payCredits := postTx tx (payCredits p) \<rparr>, js)"
proof -
  have "tx_reason tx \<noteq> purchaseReason k" for k using tx(1) by (auto simp: otherReasons_def purchaseReason_def)
  then have "purchases (p\<lparr> payCredits := postTx tx (payCredits p) \<rparr>) k = purchases p k" for k
    using tx(2) by (simp add: purchases_def fun_eq_iff store.entries_post)
  then show ?thesis using inv by (simp add: pay_inv_def slotOf_def)
qed

lemma pay_step_inv: "pay_step cfg pj pj' \<Longrightarrow> pay_inv pj \<Longrightarrow> pay_inv pj'"
proof (induction rule: pay_step.induct)
  case (pay_create uuid p js i epochs invoice now a w amt)
  then show ?case by (intro create_step) (simp_all add: newIntent_def split: prod.splits)
next
  case (pay_webhook ref p i js)
  then show ?case using matchInvoice_current [OF pay_webhook.prems] by (intro seen_step) simp_all
qed (simp_all add: seen_step scan_step leave_step expire_step begin_step purchase_step settle_job_step row_step restart_step other_step)

section \<open>Each intent is credited once\<close>

definition fresh_payments :: "bool \<Rightarrow> CreditStore \<Rightarrow> Payments" where
  "fresh_payments db c = \<lparr> paymentIntents = [], pgIntents = (if db then Some [] else None), settledTxRefs = [], payCredits = c,
     pgEpoch = None, feeEvents = [], payoutEvents = [] \<rparr>"

lemma fresh_payments_inv:
  assumes "\<forall>a. accountTxs c a = []"
  shows "pay_inv (fresh_payments db c, \<lambda>_. None)"
  using assms by (simp add: pay_inv_def fresh_payments_def keyed_def slotOf_def slot_ok_def rowOf_def pick_def purchases_def credited_def fun_eq_iff)

text \<open>
  C3: While at most one handler at a time works on an intent, a purchase is credited exactly
  once. The parts of the handlers that create, confirm, notify, reconcile, poll and expire intents may be
  interleaved in any way, those of different intents overlapping, with other credit
  transactions and with restarts that find the database and cut no settlement between its credit and its row. Then the credits an account has received for an
  intent are its quoted amount, once, if the intent (as the coordinator finds it, in memory
  or in the table) belongs to that account and is settled or is just being settled, with the credit entered and
  the status not yet stored; and nothing otherwise. Handlers of the same
  intent that overlap credit it more than once (\<open>overlapping_settlements_credit_twice\<close>).
\<close>

theorem purchase_credited_once:
  assumes "(pay_step cfg)\<^sup>*\<^sup>* (fresh_payments db c, \<lambda>_. None) (p, js)" "\<forall>a. accountTxs c a = []"
  shows "map signedCredits (filter (\<lambda>tx. tx_reason tx = purchaseReason intentId) (accountTxs (payCredits p) account)) =
    (case lookupIntent intentId p of
       None \<Rightarrow> []
     | Some i \<Rightarrow> if pi_accountId i = account \<and> (pi_status i = Settled \<or> (\<exists>i' txRef. js intentId = Some (J_credited i' txRef)))
                 then [pi_quotedCredits i] else [])"
proof -
  have "pay_inv (p, js)" using assms(1)
    by (induction rule: rtranclp_induct) (simp_all add: fresh_payments_inv [OF assms(2)] pay_step_inv)
  then have "purchases p intentId = credited (lookupIntent intentId p) (js intentId)"
    by (simp add: pay_inv_def slotOf_def slot_ok_def lookupIntent_pick)
  then show ?thesis by (simp add: purchases_def credited_def fun_eq_iff)
qed

text \<open>Two handlers that have both seen an open intent credit it twice, if their references differ.\<close>

lemma overlapping_settlements_credit_twice:
  assumes "settleBegin r1 p = Some p1" "settleBegin r2 p1 = Some p2"
    and "freshTx u1 (payCredits p)" "freshTx u2 (payCredits p)" "u1 \<noteq> u2"
  shows "purchases (settleCredit u2 now2 i (settleCredit u1 now1 i p2)) (pi_intentId i) (pi_accountId i) =
    purchases p (pi_intentId i) (pi_accountId i) @ [pi_quotedCredits i, pi_quotedCredits i]"
proof -
  have "payCredits p2 = payCredits p" using assms(1,2) by (auto simp: settleBegin_def split: if_splits)
  then show ?thesis using assms(3-5)
    by (simp add: purchases_def settleCredit_def adjustCredits_post store.entries_post freshTx_post)
qed

section \<open>Undisturbed handlers are runs of the parts\<close>

lemma settledOr_fst [simp]: "fst (settledOr r) = fst r"
  by (simp add: settledOr_def split: prod.splits option.splits)

lemma create_run:
  assumes "lookupIntent uuid p = None" "js uuid = None"
  shows "(pay_step cfg)\<^sup>*\<^sup>* (p, js) (fst (createIntent cfg epochs meshOk uuid invoice now a w amt p), js)"
proof -
  let ?i = "newIntent cfg epochs uuid invoice now a w amt"
  have i: "pi_intentId ?i = uuid" "pi_status ?i = Created" by (simp_all add: newIntent_def split: prod.splits)
  have 1: "pay_step cfg (p, js) (saveIntent ?i p, js(uuid \<mapsto> J_saved None ?i))" using assms by (rule pay_create) simp
  have 2: "pay_step cfg (saveIntent ?i p, js(uuid \<mapsto> J_saved None ?i)) (finishJob cfg (\<lambda>_. uuid) now ?i (saveIntent ?i p), (js(uuid \<mapsto> J_saved None ?i))(uuid := None))"
    by (rule pay_row) simp
  have "(js(uuid \<mapsto> J_saved None ?i))(uuid := None) = js" using assms(2) by auto
  then have "(pay_step cfg)\<^sup>*\<^sup>* (p, js) (upsertPaymentIntent ?i (saveIntent ?i p), js)"
    using 1 2 i by (metis (no_types, lifting) IntentStatus.distinct(1) converse_rtranclp_into_rtranclp finishJob_def r_into_rtranclp)
  then show ?thesis by (auto simp: createIntent_def Let_def)
qed

lemma settle_run:
  assumes j: "js k = Some (J_seen i)" and f: "freshTx (u 0) (payCredits p)"
  shows "\<exists>js'. (pay_step cfg)\<^sup>*\<^sup>* (p, js) (fst (settleIntent cfg u now i txRef p), js') \<and> (\<forall>x. x \<noteq> k \<longrightarrow> js' x = js x) \<and> js' k = None"
proof (cases "settleBegin txRef p")
  case None
  then have "pay_step cfg (p, js) (fst (settleIntent cfg u now i txRef p), js(k := None))"
    using pay_leave [of js k i cfg p, OF j] by (simp add: settleIntent_def)
  then show ?thesis by (metis fun_upd_apply r_into_rtranclp)
next
  case (Some p1)
  let ?s = "settledIntent now txRef i"
  let ?q = "settleCredit (u 0) now i p1"
  have f1: "freshTx (u 0) (payCredits p1)" using Some f by (auto simp: settleBegin_def split: if_splits)
  have 1: "pay_step cfg (p, js) (p1, js(k \<mapsto> J_begun i txRef))" by (rule pay_begin [where js = js, OF j Some])
  have 2: "pay_step cfg (p1, js(k \<mapsto> J_begun i txRef)) (?q, js(k \<mapsto> J_credited i txRef))"
    using pay_credit [of "js(k \<mapsto> J_begun i txRef)" k i txRef "u 0" p1 cfg now] f1 by simp
  have 3: "pay_step cfg (?q, js(k \<mapsto> J_credited i txRef)) (saveIntent ?s ?q, js(k \<mapsto> J_saved (Some i) ?s))"
    using pay_save [of "js(k \<mapsto> J_credited i txRef)" k i txRef ?s now cfg ?q] by simp
  have 4: "pay_step cfg (saveIntent ?s ?q, js(k \<mapsto> J_saved (Some i) ?s)) (finishJob cfg u now ?s (saveIntent ?s ?q), js(k := None))"
    using pay_row [of "js(k \<mapsto> J_saved (Some i) ?s)" k "Some i" ?s cfg "saveIntent ?s ?q" u now] by simp
  have "fst (settleIntent cfg u now i txRef p) = finishJob cfg u now ?s (saveIntent ?s ?q)"
    using Some by (simp add: settleIntent_def finishJob_def Let_def settledIntent_def split: prod.splits)
  then have "(pay_step cfg)\<^sup>*\<^sup>* (p, js) (fst (settleIntent cfg u now i txRef p), js(k := None))"
    using 1 2 3 4 by (metis (no_types, lifting) converse_rtranclp_into_rtranclp rtranclp.rtrancl_refl)
  then show ?thesis by (metis fun_upd_apply)
qed

text \<open>A handler that reads an intent and settles it at once.\<close>

lemma seen_run:
  assumes s: "pay_step cfg (p, js) (p, js(k \<mapsto> J_seen i))" and j: "js k = None" and f: "freshTx (u 0) (payCredits p)"
  shows "(pay_step cfg)\<^sup>*\<^sup>* (p, js) (fst (settleIntent cfg u now i txRef p), js)"
proof -
  obtain js' where r: "(pay_step cfg)\<^sup>*\<^sup>* (p, js(k \<mapsto> J_seen i)) (fst (settleIntent cfg u now i txRef p), js')"
    "\<forall>x. x \<noteq> k \<longrightarrow> js' x = (js(k \<mapsto> J_seen i)) x" "js' k = None"
    using settle_run [of "js(k \<mapsto> J_seen i)" k i u p cfg now txRef] f by auto
  have "js' = js" using r(2,3) j by (metis (no_types, opaque_lifting) ext fun_upd_apply)
  then show ?thesis using s r(1) by (metis converse_rtranclp_into_rtranclp)
qed

lemma confirm_run:
  assumes "js k = None" "freshTx (u 0) (payCredits p)"
  shows "(pay_step cfg)\<^sup>*\<^sup>* (p, js) (fst (confirmIntent cfg meshOk u now k txRef p), js)"
proof -
  have "(pay_step cfg)\<^sup>*\<^sup>* (p, js) (fst (settleIntent cfg u now i txRef p), js)"
    if "lookupIntent k p = Some i" "pi_status i \<noteq> Settled" "pi_status i \<noteq> Expired" for i
    by (rule seen_run [where k = k and i = i]) (use pay_confirm [where js = js and cfg = cfg] that assms in auto)
  then show ?thesis by (simp add: confirmIntent_def split: option.splits)
qed

lemma webhook_run:
  assumes "\<forall>i. matchInvoice ref p = Some i \<longrightarrow> js (pi_intentId i) = None" "freshTx (u 0) (payCredits p)"
  shows "(pay_step cfg)\<^sup>*\<^sup>* (p, js) (fst (webhook cfg meshOk secret u now ref settled ref_uuid txRef p), js)"
proof -
  have "(pay_step cfg)\<^sup>*\<^sup>* (p, js) (fst (settleIntent cfg u now i r p), js)" if "matchInvoice ref p = Some i" "pi_status i \<noteq> Settled" for i r
    by (rule seen_run [where k = "pi_intentId i" and i = i]) (use pay_webhook [where js = js and cfg = cfg] that assms in auto)
  then show ?thesis by (simp add: webhook_def split: option.splits)
qed

lemma settle_fresh:
  assumes "freshTx v (payCredits p)" "v \<noteq> u 0"
  shows "freshTx v (payCredits (fst (settleIntent cfg u now i txRef p)))"
  using assms by (auto simp: settleIntent_def settleBegin_def settleFinish_def settleCredit_def adjustCredits_post adjustTx_def freshTx_post Let_def
      upsertPaymentIntent_def)

lemma expire_run:
  assumes "js k = Some (J_seen i)" "pi_intentId i = k"
  defines "x \<equiv> i\<lparr> pi_status := Expired \<rparr>"
  shows "(pay_step cfg)\<^sup>*\<^sup>* (p, js) (upsertPaymentIntent x (saveIntent x p), js(k := None))"
proof -
  have 1: "pay_step cfg (p, js) (saveIntent x p, js(k \<mapsto> J_saved (Some i) x))" using assms(1) x_def by (rule pay_expire [OF _ meta_eq_to_obj_eq])
  have 2: "pay_step cfg (saveIntent x p, js(k \<mapsto> J_saved (Some i) x)) (finishJob cfg (\<lambda>_. k) 0 x (saveIntent x p), js(k := None))"
    using pay_row [of "js(k \<mapsto> J_saved (Some i) x)" k "Some i" x cfg "saveIntent x p"] by simp
  have "finishJob cfg (\<lambda>_. k) 0 x (saveIntent x p) = upsertPaymentIntent x (saveIntent x p)" by (simp add: finishJob_def x_def)
  then show ?thesis using 1 2 by (metis converse_rtranclp_into_rtranclp r_into_rtranclp)
qed

lemma reconcileLoop_run:
  assumes inj: "inj (\<lambda>k. fst (ids k) 0)"
  shows "distinct (map pi_intentId rest) \<Longrightarrow> \<forall>i \<in> set rest. pi_status i = Created \<longrightarrow> js (pi_intentId i) = Some (J_seen i) \<Longrightarrow>
    \<forall>k' \<ge> k. freshTx (fst (ids k') 0) (payCredits p) \<Longrightarrow>
    \<exists>js'. (pay_step cfg)\<^sup>*\<^sup>* (p, js) (fst (reconcileLoop cfg lightning ids now k rest s e p), js')"
proof (induction rest arbitrary: k s e p js)
  case (Cons i rest)
  let ?ref = "nullish (snd (lightning (pi_invoiceRef i))) (''reconcile:'' @ snd (ids k))"
  let ?r = "settleIntent cfg (fst (ids k)) now i ?ref p"
  let ?x = "i\<lparr> pi_status := Expired \<rparr>"
  have go: "\<exists>js''. (pay_step cfg)\<^sup>*\<^sup>* (p, js) (fst (reconcileLoop cfg lightning ids now (k + 1) rest s' e' q), js'')"
    if "(pay_step cfg)\<^sup>*\<^sup>* (p, js) (q, js')" "\<forall>x. x \<noteq> pi_intentId i \<longrightarrow> js' x = js x"
      "\<And>k'. k < k' \<Longrightarrow> freshTx (fst (ids k') 0) (payCredits q)" for q js' s' e'
  proof -
    have "\<exists>js''. (pay_step cfg)\<^sup>*\<^sup>* (q, js') (fst (reconcileLoop cfg lightning ids now (k + 1) rest s' e' q), js'')"
      by (rule Cons.IH) (use Cons.prems(1,2) that(2,3) in \<open>auto simp: image_iff\<close>)
    then show ?thesis using that(1) by (meson rtranclp_trans)
  qed
  have later: "freshTx (fst (ids k') 0) (payCredits p)" "fst (ids k') 0 \<noteq> fst (ids k) 0" if "k < k'" for k'
    using Cons.prems(3) that injD [OF inj, of k' k] by auto
  consider (skip) "pi_status i \<noteq> Created" | (expire) "pi_status i = Created" "now - pi_createdAtMs i > PAYMENT_INTENT_TTL_MS cfg"
    | (settle) "pi_status i = Created" "\<not> now - pi_createdAtMs i > PAYMENT_INTENT_TTL_MS cfg" "fst (lightning (pi_invoiceRef i))"
    | (wait) "pi_status i = Created" "\<not> now - pi_createdAtMs i > PAYMENT_INTENT_TTL_MS cfg" "\<not> fst (lightning (pi_invoiceRef i))" by blast
  then show ?case
  proof cases
    case expire
    have "(pay_step cfg)\<^sup>*\<^sup>* (p, js) (upsertPaymentIntent ?x (saveIntent ?x p), js(pi_intentId i := None))"
      using expire_run [of js "pi_intentId i" i cfg p] Cons.prems(2) expire(1) by simp
    from go [OF this, of s "e + 1"] show ?thesis using expire later by (simp add: Let_def upsertPaymentIntent_def)
  next
    case settle
    obtain js' where r: "(pay_step cfg)\<^sup>*\<^sup>* (p, js) (fst ?r, js')" "\<forall>x. x \<noteq> pi_intentId i \<longrightarrow> js' x = js x"
      using settle_run [of js "pi_intentId i" i "fst (ids k)" p cfg now ?ref] Cons.prems(2,3) settle(1) by auto
    have "\<exists>js''. (pay_step cfg)\<^sup>*\<^sup>* (p, js) (fst (reconcileLoop cfg lightning ids now (k + 1) rest (s + 1) e (fst ?r)), js'')"
      by (rule go [OF r]) (use settle_fresh later in simp)
    then show ?thesis using settle r(1) by (cases ?r; cases "snd ?r") auto
  qed (use go [OF rtranclp.rtrancl_refl] later in auto)
qed auto

lemma reconcile_run:
  assumes "inj (\<lambda>k. fst (ids k) 0)" "\<forall>k. freshTx (fst (ids k) 0) (payCredits p)"
    and "distinct (map pi_intentId (pendingIntents p))" "\<forall>i \<in> set (pendingIntents p). js (pi_intentId i) = None"
  shows "\<exists>js'. (pay_step cfg)\<^sup>*\<^sup>* (p, js) (fst (reconcile cfg meshOk lightning ids now p), js')"
proof -
  have found: "find (\<lambda>x. pi_intentId x = pi_intentId i \<and> pi_status x = Created) l = Some i"
    if "distinct (map pi_intentId l)" "i \<in> set l" "pi_status i = Created" for i l
    using that by (induction l) (auto simp: image_iff)
  then have seen: "\<forall>i \<in> set (pendingIntents p). pi_status i = Created \<longrightarrow> scanJobs p js (pi_intentId i) = Some (J_seen i)"
    using found [OF assms(3)] by (simp add: scanJobs_def)
  obtain js' where "(pay_step cfg)\<^sup>*\<^sup>* (p, scanJobs p js) (fst (reconcileLoop cfg lightning ids now 0 (pendingIntents p) 0 0 p), js')"
    using reconcileLoop_run [OF assms(1,3) seen] assms(2) by blast
  moreover have "pay_step cfg (p, js) (p, scanJobs p js)" by (rule pay_scan [OF assms(4)])
  moreover have "fst (reconcile cfg True lightning ids now p) = fst (reconcileLoop cfg lightning ids now 0 (pendingIntents p) 0 0 p)"
    by (auto simp: reconcile_def split: prod.splits option.splits)
  ultimately show ?thesis by (cases meshOk) (auto simp: reconcile_def intro: converse_rtranclp_into_rtranclp)
qed

definition ex_pay_config :: PayConfig where
  "ex_pay_config = \<lparr> COORDINATOR_FEE_BPS = 150, COORDINATOR_FEE_ACCOUNT = ''fees'', PAYMENT_INTENT_TTL_MS = 1000, PAYMENT_WEBHOOK_SECRET = [],
     ISSUANCE_COORDINATOR_SHARE = 0, ISSUANCE_RESERVE_SHARE = 0, pc_peerId = ''c'' \<rparr>"

definition ex_created_intent :: Payments where
  "ex_created_intent = fst (createIntent ex_pay_config [] True ''i1'' ''invoice1'' 5 ''acc'' Lightning 300 (fresh_payments True ex_store))"

definition ex_settled_intent :: Payments where
  "ex_settled_intent = fst (confirmIntent ex_pay_config True (\<lambda>k. if k = 0 then ''u1'' else ''u2'') 6 ''i1'' ''txid'' ex_created_intent)"

theorem purchase_credited_once_witness:
  "\<exists>i. lookupIntent ''i1'' ex_settled_intent = Some i \<and> pi_status i = Settled \<and>
     map signedCredits (filter (\<lambda>tx. tx_reason tx = purchaseReason ''i1'') (accountTxs (payCredits ex_settled_intent) ''acc'')) = [pi_quotedCredits i]"
proof -
  let ?p0 = "fresh_payments True ex_store"
  have "lookupIntent ''i1'' ?p0 = None" by (simp add: fresh_payments_def lookupIntent_def getPaymentIntent_def)
  then have 1: "(pay_step ex_pay_config)\<^sup>*\<^sup>* (?p0, \<lambda>_. None) (ex_created_intent, \<lambda>_. None)"
    unfolding ex_created_intent_def by (rule create_run) simp
  have cr: "payCredits ex_created_intent = ex_store" "settledTxRefs ex_created_intent = []"
    by (simp_all add: ex_created_intent_def createIntent_def Let_def upsertPaymentIntent_def fresh_payments_def)
  then have "freshTx ''u1'' (payCredits ex_created_intent)" by (simp add: freshTx_def ex_store_def)
  then have 2: "(pay_step ex_pay_config)\<^sup>*\<^sup>* (ex_created_intent, \<lambda>_. None) (ex_settled_intent, \<lambda>_. None)"
    unfolding ex_settled_intent_def by (intro confirm_run) simp_all
  from 1 2 have run: "(pay_step ex_pay_config)\<^sup>*\<^sup>* (?p0, \<lambda>_. None) (ex_settled_intent, \<lambda>_. None)" by (rule rtranclp_trans)
  have empty: "\<forall>a. accountTxs ex_store a = []" by (simp add: ex_store_def accountTxs_def pg_transactions_def)
  obtain i where i: "lookupIntent ''i1'' ex_created_intent = Some i" "pi_status i = Created" "pi_intentId i = ''i1''" "pi_accountId i = ''acc''"
    by (simp add: ex_created_intent_def createIntent_def newIntent_def Let_def case_prod_beta upsertPaymentIntent_def fresh_payments_def lookupIntent_def jsm_get_set)
  have "fst (confirmIntent ex_pay_config True (\<lambda>k. if k = 0 then ''u1'' else ''u2'') 6 ''i1'' ''txid'' ex_created_intent) =
      fst (settleIntent ex_pay_config (\<lambda>k. if k = 0 then ''u1'' else ''u2'') 6 i ''txid'' ex_created_intent)"
    by (simp add: confirmIntent_def i)
  then have "lookupIntent ''i1'' ex_settled_intent = Some (settledIntent 6 ''txid'' i)"
    by (simp add: ex_settled_intent_def settleIntent_def settleBegin_def cr settleFinish_def Let_def lookupIntent_def
        upsertPaymentIntent_def settledIntent_def jsm_get_set i)
  then show ?thesis using purchase_credited_once [OF run empty, of "''i1''" "''acc''"] i by (simp add: settledIntent_def)
qed

text \<open>An expired intent is refused by the confirmation route and settled by the webhook.\<close>

lemma expired_settled_by_webhook:
  assumes "matchInvoice ref p = Some i" "pi_status i = Expired" "webhookAuthorized cfg secret" "8 \<le> length ref" "txRef \<notin> set (settledTxRefs p)"
  shows "\<exists>i' fee. snd (webhook cfg True secret u now ref True v (Some txRef) p) = Pay_settled i' fee \<and> pi_status i' = Settled"
    and "lookupIntent (pi_intentId i) p = Some i \<Longrightarrow> 4 \<le> length txRef \<Longrightarrow> confirmIntent cfg True u now (pi_intentId i) txRef p = (p, Pay_expired)"
  using assms by (simp_all add: webhook_def confirmIntent_def settleIntent_def settleBegin_def settledIntent_def settleFinish_def settledOr_def Let_def)

end
