(* ===== verification/BleMesh.thy ===== *)
theory BleMesh
  imports Credits "HOL-Library.Word" "HOL-Library.Multiset"
begin

text \<open>
  The offline mesh over Bluetooth, \<open>src/src/mesh/ble/\<close>: the chunk protocol (\<open>protocol.ts\<close>), connection quality
  (\<open>connection-quality.ts\<close>), peer selection (\<open>ble-router.ts\<close>), reconnection with back-off
  (\<open>reconnection-manager.ts\<close>), the ledger of offline credits (\<open>offline-ledger.ts\<close> with its SQLite table) and
  the manager that ties them together (\<open>ble-mesh-manager.ts\<close>). The radio transport, random
  numbers and the clock are arguments.
\<close>

section \<open>Chunks\<close>

type_synonym byte = "8 word"

definition CHUNK_HEADER_SIZE :: nat where
  "CHUNK_HEADER_SIZE = 4"

definition writeUInt16BE :: "nat \<Rightarrow> byte list" where
  "writeUInt16BE n = [word_of_nat (n div 256), word_of_nat n]"

text \<open>\<open>None\<close> where the read is out of the buffer's range.\<close>

definition readUInt16BE :: "byte list \<Rightarrow> nat \<Rightarrow> nat option" where
  "readUInt16BE buf off = (if off + 2 \<le> length buf then Some (unat (buf ! off) * 256 + unat (buf ! (off + 1))) else None)"

datatype ChunkError = Mtu_too_small | Payload_too_large | Wrong_count nat nat | Out_of_range

definition totalChunks :: "nat \<Rightarrow> nat \<Rightarrow> nat" where
  "totalChunks len chunkDataSize = nat \<lceil>n_div (of_nat len) (of_nat chunkDataSize)\<rceil>"

definition chunkAt :: "byte list \<Rightarrow> nat \<Rightarrow> nat \<Rightarrow> nat \<Rightarrow> byte list" where
  "chunkAt dat chunkDataSize n i =
     (let start = i * chunkDataSize; stop = min (start + chunkDataSize) (length dat)
      in writeUInt16BE i @ writeUInt16BE n @ take (stop - start) (drop start dat))"

definition encodeChunks :: "byte list \<Rightarrow> nat \<Rightarrow> ChunkError + byte list list" where
  "encodeChunks dat mtu =
     (if mtu \<le> CHUNK_HEADER_SIZE then Inl Mtu_too_small
      else (let chunkDataSize = mtu - CHUNK_HEADER_SIZE; n = totalChunks (length dat) chunkDataSize in
            if n > 65535 then Inl Payload_too_large
            else Inr (map (chunkAt dat chunkDataSize n) [0..<n])))"

definition chunkSeq :: "byte list \<Rightarrow> nat" where
  "chunkSeq c = (case readUInt16BE c 0 of None \<Rightarrow> 0 | Some n \<Rightarrow> n)"

text \<open>The sort reads the sequence number of every chunk when there are at least two.\<close>

definition decodeChunks :: "byte list list \<Rightarrow> ChunkError + byte list" where
  "decodeChunks chunks =
     (if chunks = [] then Inr []
      else if 2 \<le> length chunks \<and> list_ex (\<lambda>c. readUInt16BE c 0 = None) chunks then Inl Out_of_range
      else (let sorted = sort_key chunkSeq chunks in
            case readUInt16BE (hd sorted) 2 of
              None \<Rightarrow> Inl Out_of_range
            | Some expectedTotal \<Rightarrow>
                if length sorted \<noteq> expectedTotal then Inl (Wrong_count expectedTotal (length sorted))
                else Inr (concat (map (drop CHUNK_HEADER_SIZE) sorted))))"

section \<open>Connection quality\<close>

record PeerConnectionStats =
  cs_peerId :: string
  cs_rssiHistory :: "(num \<times> ms) list"
  cs_connectionDropCount :: nat
  cs_lastDropTimestampMs :: ms
  cs_avgLatencyMs :: num
  cs_taskSuccessRate :: num
  cs_consecutiveFailures :: nat

datatype RssiTrend = Improving | Stable | Degrading

definition defaultStats :: "string \<Rightarrow> PeerConnectionStats" where
  "defaultStats peerId = \<lparr> cs_peerId = peerId, cs_rssiHistory = [], cs_connectionDropCount = 0, cs_lastDropTimestampMs = 0,
     cs_avgLatencyMs = 0, cs_taskSuccessRate = 1, cs_consecutiveFailures = 0 \<rparr>"

text \<open>The regression sums over index and value; the sums over the index alone are integers.\<close>

definition linearRegressionSlope :: "num list \<Rightarrow> num" where
  "linearRegressionSlope vals =
     (let n = length vals in
      if n < 2 then 0
      else (let (sumX, sumY, sumXY, sumXX) = foldl (\<lambda>(sx, sy, sxy, sxx) (i, v).
                  (n_add sx (of_nat i), n_add sy v, n_add sxy (n_mul (of_nat i) v), n_add sxx (of_nat (i * i)))) (0, 0, 0, 0) (enumerate 0 vals);
                denom = n_sub (n_mul (of_nat n) sumXX) (n_mul sumX sumX)
            in if denom = 0 then 0 else n_div (n_sub (n_mul (of_nat n) sumXY) (n_mul sumX sumY)) denom))"

record QualityMonitor =
  qm_stats :: "(string, PeerConnectionStats) jsmap"
  qm_totalTaskCount :: "(string, nat) jsmap"

definition qmEnsure :: "string \<Rightarrow> QualityMonitor \<Rightarrow> QualityMonitor" where
  "qmEnsure peerId q = (case jsm_get (qm_stats q) peerId of
     Some _ \<Rightarrow> q
   | None \<Rightarrow> q\<lparr> qm_stats := jsm_set peerId (defaultStats peerId) (qm_stats q), qm_totalTaskCount := jsm_set peerId 0 (qm_totalTaskCount q) \<rparr>)"

definition qmModify :: "string \<Rightarrow> (PeerConnectionStats \<Rightarrow> PeerConnectionStats) \<Rightarrow> QualityMonitor \<Rightarrow> QualityMonitor" where
  "qmModify peerId f q = (qmEnsure peerId q)\<lparr> qm_stats := jsm_modify peerId f (qm_stats (qmEnsure peerId q)) \<rparr>"

definition recordRssi :: "string \<Rightarrow> num \<Rightarrow> ms \<Rightarrow> QualityMonitor \<Rightarrow> QualityMonitor" where
  "recordRssi peerId rssi now = qmModify peerId (\<lambda>s.
     let h = cs_rssiHistory s @ [(rssi, now)] in s\<lparr> cs_rssiHistory := (if length h > 60 then slice_last 60 h else h) \<rparr>)"

definition recordConnectionDrop :: "string \<Rightarrow> ms \<Rightarrow> QualityMonitor \<Rightarrow> QualityMonitor" where
  "recordConnectionDrop peerId now = qmModify peerId (\<lambda>s.
     s\<lparr> cs_connectionDropCount := cs_connectionDropCount s + 1, cs_lastDropTimestampMs := now \<rparr>)"

definition recordPeerTaskResult :: "string \<Rightarrow> bool \<Rightarrow> num \<Rightarrow> QualityMonitor \<Rightarrow> QualityMonitor" where
  "recordPeerTaskResult peerId success latencyMs q0 =
     (let q = qmEnsure peerId q0; count = nullish (jsm_get (qm_totalTaskCount q) peerId) 0 + 1 in
      qmModify peerId (\<lambda>s. s\<lparr>
          cs_avgLatencyMs := n_add (cs_avgLatencyMs s) (n_div (n_sub latencyMs (cs_avgLatencyMs s)) (of_nat count)),
          cs_taskSuccessRate := n_add (cs_taskSuccessRate s) (n_div (n_sub (if success then 1 else 0) (cs_taskSuccessRate s)) (of_nat count)),
          cs_consecutiveFailures := (if success then 0 else cs_consecutiveFailures s + 1) \<rparr>)
        (q\<lparr> qm_totalTaskCount := jsm_set peerId count (qm_totalTaskCount q) \<rparr>))"

definition connectionScore :: "PeerConnectionStats \<Rightarrow> int" where
  "connectionScore s =
     (let rssiScore = (if cs_rssiHistory s \<noteq> []
            then (let avgRssi = n_div (foldl (\<lambda>a x. n_add a (fst x)) 0 (cs_rssiHistory s)) (of_nat (length (cs_rssiHistory s)))
                  in max 0 (min 25 (n_mul (n_div (n_add avgRssi 100) 70) 25)))
            else 25);
          dropScore = max 0 (n_sub 25 (n_mul (of_nat (cs_connectionDropCount s)) (5 / 2)));
          successScore = n_mul (cs_taskSuccessRate s) 25;
          latencyScore = max 0 (n_sub 25 (n_mul (n_div (cs_avgLatencyMs s) 5000) 25))
      in math_round (n_add (n_add (n_add rssiScore dropScore) successScore) latencyScore))"

definition getConnectionScore :: "string \<Rightarrow> QualityMonitor \<Rightarrow> int" where
  "getConnectionScore peerId q = (case jsm_get (qm_stats q) peerId of None \<Rightarrow> 50 | Some s \<Rightarrow> connectionScore s)"

definition shouldBlacklist :: "string \<Rightarrow> QualityMonitor \<Rightarrow> bool" where
  "shouldBlacklist peerId q = (case jsm_get (qm_stats q) peerId of
     None \<Rightarrow> False
   | Some s \<Rightarrow> cs_consecutiveFailures s \<ge> 5 \<or> getConnectionScore peerId q < 10)"

definition getRssiTrend :: "string \<Rightarrow> QualityMonitor \<Rightarrow> RssiTrend" where
  "getRssiTrend peerId q = (case jsm_get (qm_stats q) peerId of
     None \<Rightarrow> Stable
   | Some s \<Rightarrow>
       if length (cs_rssiHistory s) < 2 then Stable
       else (let slope = linearRegressionSlope (map fst (slice_last 20 (cs_rssiHistory s))) in
             if slope > fl (3 / 10) then Improving else if slope < - fl (3 / 10) then Degrading else Stable))"

section \<open>Routing\<close>

datatype DeviceType = Phone | Laptop | Workstation

record BLEPeerEntry =
  bp_agentId :: string
  bp_meshTokenHash :: string
  bp_accountId :: string
  bp_model :: string
  bp_modelParamSize :: num
  bp_memoryMB :: num
  bp_batteryPct :: num
  bp_currentLoad :: num
  bp_deviceType :: DeviceType
  bp_rssi :: num
  bp_lastSeenMs :: ms
  bp_taskSuccessCount :: "nat option"
  bp_taskFailCount :: "nat option"

record BLERouter =
  br_peers :: "(string, BLEPeerEntry) jsmap"
  br_quality :: QualityMonitor

definition updatePeer :: "BLEPeerEntry \<Rightarrow> ms \<Rightarrow> BLERouter \<Rightarrow> BLERouter" where
  "updatePeer peer now r = r\<lparr> br_peers := jsm_set (bp_agentId peer) peer (br_peers r),
     br_quality := recordRssi (bp_agentId peer) (bp_rssi peer) now (br_quality r) \<rparr>"

definition removePeer :: "string \<Rightarrow> BLERouter \<Rightarrow> BLERouter" where
  "removePeer agentId r = r\<lparr> br_peers := jsm_delete agentId (br_peers r) \<rparr>"

text \<open>The loop deletes the entries of the map that are too old.\<close>

definition evictStalePeers :: "ms \<Rightarrow> BLERouter \<Rightarrow> BLERouter" where
  "evictStalePeers now r = r\<lparr> br_peers := filter (\<lambda>(_, peer). \<not> now - bp_lastSeenMs peer > 60000) (br_peers r) \<rparr>"

definition computeCost :: "QualityMonitor \<Rightarrow> BLEPeerEntry \<Rightarrow> num" where
  "computeCost q peer =
     (let modelPreferencePenalty = max 0 (n_mul (n_sub 7 (bp_modelParamSize peer)) 8);
          loadPenalty = n_mul (bp_currentLoad peer) 20;
          batteryPenalty = (if bp_deviceType peer = Phone then n_mul (n_sub 100 (bp_batteryPct peer)) (1 / 2) else 0);
          signalPenalty = min 30 (max 0 (n_mul (n_sub (- bp_rssi peer) 30) (1 / 2)));
          fails = nullish (bp_taskFailCount peer) 0;
          total = nullish (bp_taskSuccessCount peer) 0 + fails;
          failRate = (if total > 0 then n_div (of_nat fails) (of_nat total) else 0);
          reliabilityPenalty = n_mul failRate 60;
          qualityPenalty = max 0 (n_mul (of_int (100 - getConnectionScore (bp_agentId peer) q)) (fl (3 / 10)))
      in n_add (n_add (n_add (n_add (n_add modelPreferencePenalty loadPenalty) batteryPenalty) signalPenalty) reliabilityPenalty) qualityPenalty)"

text \<open>The test of a candidate; \<open>None\<close> and the empty token hash put no condition on the peer's.\<close>

definition candidate :: "QualityMonitor \<Rightarrow> string option \<Rightarrow> BLEPeerEntry \<Rightarrow> bool" where
  "candidate q ownTokenHash peer \<longleftrightarrow>
     \<not> (truthy_str ownTokenHash \<and> Some (bp_meshTokenHash peer) \<noteq> ownTokenHash) \<and>
     \<not> shouldBlacklist (bp_agentId peer) q \<and> computeCost q peer < 200"

definition selectBestPeers :: "ms \<Rightarrow> nat \<Rightarrow> string option \<Rightarrow> BLERouter \<Rightarrow> BLERouter \<times> BLEPeerEntry list" where
  "selectBestPeers now limit ownTokenHash r0 =
     (let r = evictStalePeers now r0;
          candidates = map (\<lambda>peer. (peer, computeCost (br_quality r) peer)) (filter (candidate (br_quality r) ownTokenHash) (jsm_values (br_peers r)))
      in (r, map fst (take limit (sort_key snd candidates))))"

definition selectBestPeer :: "ms \<Rightarrow> string option \<Rightarrow> BLERouter \<Rightarrow> BLERouter \<times> BLEPeerEntry option" where
  "selectBestPeer now ownTokenHash r =
     (case selectBestPeers now 1 ownTokenHash r of (r', []) \<Rightarrow> (r', None) | (r', p # _) \<Rightarrow> (r', Some p))"

record NetworkHealthStats =
  nh_totalPeers :: nat
  nh_activePeers :: nat
  nh_blacklistedPeers :: nat
  nh_avgConnectionScore :: int

definition getNetworkHealth :: "ms \<Rightarrow> BLERouter \<Rightarrow> BLERouter \<times> NetworkHealthStats" where
  "getNetworkHealth now r0 =
     (let r = evictStalePeers now r0; peers = jsm_values (br_peers r);
          totalScore = sum_list (map (\<lambda>p. getConnectionScore (bp_agentId p) (br_quality r)) peers);
          blacklisted = length (filter (\<lambda>p. shouldBlacklist (bp_agentId p) (br_quality r)) peers)
      in (r, \<lparr> nh_totalPeers = length peers, nh_activePeers = length peers - blacklisted, nh_blacklistedPeers = blacklisted,
               nh_avgConnectionScore = (if length peers > 0 then math_round (n_div (of_int totalScore) (of_nat (length peers))) else 0) \<rparr>))"

section \<open>Reconnection\<close>

record ReconnectionState =
  rc_peerId :: string
  rc_attempt :: nat
  rc_nextRetryMs :: int
  rc_maxAttempts :: nat
  rc_gaveUp :: bool

record ReconnectionConfig =
  rcc_baseDelayMs :: num
  rcc_maxDelayMs :: num
  rcc_maxAttempts :: nat

definition DEFAULT_RECONNECTION :: ReconnectionConfig where
  "DEFAULT_RECONNECTION = \<lparr> rcc_baseDelayMs = 500, rcc_maxDelayMs = 30000, rcc_maxAttempts = 8 \<rparr>"

type_synonym ReconnectionStates = "(string, ReconnectionState) jsmap"

definition newReconnection :: "ReconnectionConfig \<Rightarrow> string \<Rightarrow> ReconnectionState" where
  "newReconnection cfg peerId = \<lparr> rc_peerId = peerId, rc_attempt = 0, rc_nextRetryMs = 0, rc_maxAttempts = rcc_maxAttempts cfg, rc_gaveUp = False \<rparr>"

definition computeBaseDelay :: "ReconnectionConfig \<Rightarrow> nat \<Rightarrow> num" where
  "computeBaseDelay cfg attempt = min (n_mul (rcc_baseDelayMs cfg) (2 ^ attempt)) (rcc_maxDelayMs cfg)"

text \<open>\<open>rnd\<close> is the value of \<open>Math.random()\<close>.\<close>

definition applyJitter :: "num \<Rightarrow> num \<Rightarrow> int" where
  "applyJitter rnd delay =
     (let jitterRange = n_mul delay (fl (1 / 10)); jitter = n_mul (n_sub (n_mul rnd 2) 1) jitterRange
      in max 0 (math_round (n_add delay jitter)))"

definition scheduleReconnect :: "ReconnectionConfig \<Rightarrow> num \<Rightarrow> string \<Rightarrow> ReconnectionStates \<Rightarrow> ReconnectionStates \<times> int" where
  "scheduleReconnect cfg rnd peerId states =
     (let state = nullish (jsm_get states peerId) (newReconnection cfg peerId) in
      if rc_gaveUp state then (jsm_set peerId state states, - 1)
      else (let delay = applyJitter rnd (computeBaseDelay cfg (rc_attempt state));
                state' = state\<lparr> rc_nextRetryMs := delay, rc_attempt := rc_attempt state + 1,
                                rc_gaveUp := rc_attempt state + 1 \<ge> rc_maxAttempts state \<rparr>
            in (jsm_set peerId state' states, delay)))"

definition shouldRetry :: "string \<Rightarrow> ReconnectionStates \<Rightarrow> bool" where
  "shouldRetry peerId states = (case jsm_get states peerId of None \<Rightarrow> True | Some s \<Rightarrow> \<not> rc_gaveUp s)"

definition recordSuccess :: "string \<Rightarrow> ReconnectionStates \<Rightarrow> ReconnectionStates" where
  "recordSuccess peerId states = jsm_delete peerId states"

definition getBackoffMs :: "string \<Rightarrow> ReconnectionStates \<Rightarrow> int" where
  "getBackoffMs peerId states = (case jsm_get states peerId of None \<Rightarrow> 0 | Some s \<Rightarrow> rc_nextRetryMs s)"

definition getAttemptCount :: "string \<Rightarrow> ReconnectionStates \<Rightarrow> nat" where
  "getAttemptCount peerId states = (case jsm_get states peerId of None \<Rightarrow> 0 | Some s \<Rightarrow> rc_attempt s)"

section \<open>The offline ledger\<close>

record BLECreditLedgerRow =
  lr_txId :: string
  lr_requesterId :: string
  lr_providerId :: string
  lr_credits :: num
  lr_cpuSeconds :: num
  lr_taskHash :: string
  lr_createdAt :: int
  lr_synced :: bool
  lr_requesterSig :: string
  lr_providerSig :: string

text \<open>\<open>INSERT OR REPLACE\<close> removes the row with the same key and adds the new one; \<open>created_at\<close> is in seconds.\<close>

definition recordBLECreditTx :: "BLECreditTransaction \<Rightarrow> int \<Rightarrow> BLECreditLedgerRow list \<Rightarrow> BLECreditLedgerRow list" where
  "recordBLECreditTx tx nowSec rows = filter (\<lambda>r. lr_txId r \<noteq> ble_txId tx) rows @
     [\<lparr> lr_txId = ble_txId tx, lr_requesterId = ble_requesterId tx, lr_providerId = ble_providerId tx, lr_credits = ble_credits tx,
        lr_cpuSeconds = ble_cpuSeconds tx, lr_taskHash = ble_taskHash tx, lr_createdAt = nowSec, lr_synced = False,
        lr_requesterSig = ble_requesterSignature tx, lr_providerSig = ble_providerSignature tx \<rparr>]"

definition listUnsyncedBLECredits :: "nat \<Rightarrow> BLECreditLedgerRow list \<Rightarrow> BLECreditLedgerRow list" where
  "listUnsyncedBLECredits limit rows = take limit (sort_key lr_createdAt (filter (\<lambda>r. \<not> lr_synced r) rows))"

definition markBLECreditsSynced :: "string list \<Rightarrow> BLECreditLedgerRow list \<Rightarrow> BLECreditLedgerRow list" where
  "markBLECreditsSynced txIds rows = map (\<lambda>r. if lr_txId r \<in> set txIds then r\<lparr> lr_synced := True \<rparr> else r) rows"

text \<open>The ledger over the store it was given, if any.\<close>

type_synonym OfflineLedger = "BLECreditLedgerRow list option"

definition ledgerRecord :: "BLECreditTransaction \<Rightarrow> int \<Rightarrow> OfflineLedger \<Rightarrow> OfflineLedger" where
  "ledgerRecord tx nowSec l = map_option (recordBLECreditTx tx nowSec) l"

definition rowTransaction :: "BLECreditLedgerRow \<Rightarrow> BLECreditTransaction" where
  "rowTransaction row = \<lparr> ble_txId = lr_txId row, ble_requesterId = lr_requesterId row, ble_providerId = lr_providerId row,
     ble_requesterAccountId = lr_requesterId row, ble_providerAccountId = lr_providerId row, ble_credits = lr_credits row,
     ble_cpuSeconds = lr_cpuSeconds row, ble_taskHash = lr_taskHash row, ble_timestamp = lr_createdAt row * 1000,
     ble_requesterSignature = lr_requesterSig row, ble_providerSignature = lr_providerSig row \<rparr>"

definition ledgerPending :: "OfflineLedger \<Rightarrow> BLECreditTransaction list" where
  "ledgerPending l = (case l of None \<Rightarrow> [] | Some rows \<Rightarrow> map rowTransaction (listUnsyncedBLECredits 50 rows))"

definition ledgerMarkSynced :: "string list \<Rightarrow> OfflineLedger \<Rightarrow> OfflineLedger" where
  "ledgerMarkSynced txIds l = map_option (\<lambda>rows. if txIds = [] then rows else markBLECreditsSynced txIds rows) l"

section \<open>The manager\<close>

record BLETaskRequest =
  bq_requestId :: string
  bq_requesterId :: string
  bq_task :: string
  bq_requesterSignature :: string

record BLETaskResponse =
  bs_requestId :: string
  bs_providerId :: string
  bs_completed :: bool
  bs_cpuSeconds :: num
  bs_providerSignature :: string

definition modelQualityMultiplier :: "num \<Rightarrow> num" where
  "modelQualityMultiplier paramSize =
     (if paramSize \<ge> 7 then 1 else if paramSize \<ge> 3 then fl (7 / 10) else if paramSize \<ge> 3 / 2 then 1 / 2 else fl (3 / 10))"

record BLEMeshManager =
  bm_agentId :: string
  bm_accountId :: string
  bm_offline :: bool
  bm_ownTokenHash :: string
  bm_router :: BLERouter
  bm_ledger :: OfflineLedger

text \<open>\<open>trust\<close> are the success and failure counts of the peers table, when there is a store.\<close>

definition applyTrust :: "(string, nat \<times> nat) jsmap \<Rightarrow> BLEPeerEntry \<Rightarrow> BLEPeerEntry" where
  "applyTrust trust peer = (case jsm_get trust (bp_agentId peer) of
     None \<Rightarrow> peer
   | Some (s, f) \<Rightarrow> peer\<lparr> bp_taskSuccessCount := Some s, bp_taskFailCount := Some f \<rparr>)"

definition refreshPeers :: "BLEPeerEntry list \<Rightarrow> (string, nat \<times> nat) jsmap \<Rightarrow> ms \<Rightarrow> BLEMeshManager \<Rightarrow> BLEMeshManager" where
  "refreshPeers discovered trust now m =
     m\<lparr> bm_router := evictStalePeers now (foldl (\<lambda>r peer. updatePeer (applyTrust trust peer) now r) (bm_router m) discovered) \<rparr>"

definition taskTransaction ::
  "crypto \<Rightarrow> string \<Rightarrow> ms \<Rightarrow> BLETaskRequest \<Rightarrow> BLEPeerEntry \<Rightarrow> BLETaskResponse \<Rightarrow> BLEMeshManager \<Rightarrow> BLECreditTransaction" where
  "taskTransaction cr uuid now request peer response m =
     \<lparr> ble_txId = uuid, ble_requesterId = bm_agentId m, ble_providerId = bs_providerId response,
       ble_requesterAccountId = bm_accountId m, ble_providerAccountId = bp_accountId peer,
       ble_credits = to_fixed 3 (n_mul (n_mul (bs_cpuSeconds response) (baseRatePerSecond Cpu)) (modelQualityMultiplier (bp_modelParamSize peer))),
       ble_cpuSeconds = bs_cpuSeconds response, ble_taskHash = sha256_hex cr (bq_task request), ble_timestamp = now,
       ble_requesterSignature = bq_requesterSignature request, ble_providerSignature = bs_providerSignature response \<rparr>"

text \<open>The peers are tried in order until one completes the task; \<open>send\<close> is the transport's answer.\<close>

fun tryPeers ::
  "crypto \<Rightarrow> string \<Rightarrow> ms \<Rightarrow> (string \<Rightarrow> BLETaskRequest \<Rightarrow> BLETaskResponse) \<Rightarrow> BLETaskRequest \<Rightarrow> BLEPeerEntry list \<Rightarrow> BLEMeshManager \<Rightarrow>
   BLEMeshManager \<times> BLETaskResponse option" where
  "tryPeers cr uuid now send request [] m = (m, None)"
| "tryPeers cr uuid now send request (peer # peers) m =
     (let response = send (bp_agentId peer) request in
      if bs_completed response
      then (m\<lparr> bm_ledger := ledgerRecord (taskTransaction cr uuid now request peer response m) (now div 1000) (bm_ledger m) \<rparr>, Some response)
      else tryPeers cr uuid now send request peers m)"

definition routeTask ::
  "crypto \<Rightarrow> string \<Rightarrow> ms \<Rightarrow> (string \<Rightarrow> BLETaskRequest \<Rightarrow> BLETaskResponse) \<Rightarrow> BLEPeerEntry list \<Rightarrow> (string, nat \<times> nat) jsmap \<Rightarrow>
   BLETaskRequest \<Rightarrow> nat \<Rightarrow> BLEMeshManager \<Rightarrow> BLEMeshManager \<times> BLETaskResponse option" where
  "routeTask cr uuid now send discovered trust request maxRetries m0 =
     (let m1 = refreshPeers discovered trust now m0;
          (r, peers) = selectBestPeers now maxRetries (if bm_ownTokenHash m1 = [] then None else Some (bm_ownTokenHash m1)) (bm_router m1);
          m = m1\<lparr> bm_router := r \<rparr>
      in if peers = [] then (m, None) else tryPeers cr uuid now send request peers m)"

section \<open>Chunks: round trip\<close>

lemma unat_byte: "unat (word_of_nat n :: byte) = n mod 256"
  by (simp add: unat_of_nat)

lemma read_write: "n < 65536 \<Longrightarrow> readUInt16BE (writeUInt16BE n @ rest) 0 = Some n"
proof -
  assume "n < 65536"
  then have "n div 256 mod 256 = n div 256" by simp
  then show ?thesis by (simp add: readUInt16BE_def writeUInt16BE_def unat_byte)
qed

lemma read_second: "n < 65536 \<Longrightarrow> readUInt16BE (writeUInt16BE i @ writeUInt16BE n @ rest) 2 = Some n"
  using read_write [of n rest] by (simp add: readUInt16BE_def writeUInt16BE_def)

lemma length_write [simp]: "length (writeUInt16BE n) = 2"
  by (simp add: writeUInt16BE_def)

lemma totalChunks_ceiling:
  assumes "0 < d" "d < 2 ^ 14" "len < 2 ^ 38"
  shows "totalChunks len d = nat \<lceil>rat_of_nat len / of_nat d\<rceil>" "len \<le> totalChunks len d * d" "totalChunks len d = 0 \<longleftrightarrow> len = 0"
proof -
  have "int d < 2 ^ 14" "int len < 2 ^ 38" using assms(2,3) by simp_all
  then show eq: "totalChunks len d = nat \<lceil>rat_of_nat len / of_nat d\<rceil>"
    using ceiling_fl_div [of "int len" "int d"] assms(1) by (simp add: totalChunks_def n_div_def)
  let ?x = "rat_of_nat len / of_nat d"
  have nn: "0 \<le> \<lceil>?x\<rceil>" using ceiling_mono [of 0 ?x] by simp
  have "?x \<le> of_int \<lceil>?x\<rceil>" by (rule le_of_int_ceiling)
  also have "\<dots> = of_nat (totalChunks len d)" using nn by (simp add: eq)
  finally have "rat_of_nat len \<le> of_nat (totalChunks len d * d)" using assms(1) by (simp add: divide_le_eq)
  then show "len \<le> totalChunks len d * d" unfolding of_nat_le_iff .
  then show "totalChunks len d = 0 \<longleftrightarrow> len = 0" using eq by (cases "len = 0") auto
qed

definition chunkData :: "byte list \<Rightarrow> nat \<Rightarrow> nat \<Rightarrow> byte list" where
  "chunkData dat d i = take d (drop (i * d) dat)"

lemma chunkAt_eq: "chunkAt dat d n i = writeUInt16BE i @ writeUInt16BE n @ chunkData dat d i"
proof -
  have "take (min (i * d + d) (length dat) - i * d) (drop (i * d) dat) = take d (drop (i * d) dat)"
    by (simp add: min_def)
  then show ?thesis by (simp add: chunkAt_def Let_def chunkData_def)
qed

lemma concat_chunkData: "concat (map (chunkData dat d) [0..<n]) = take (n * d) dat"
proof (induction n)
  case (Suc n)
  have "take (n * d + d) dat = take (n * d) dat @ take d (drop (n * d) dat)" by (rule take_add)
  then show ?case using Suc by (simp add: chunkData_def add.commute)
qed simp

lemma chunkAt_props:
  assumes "i < 65536" "n < 65536"
  shows "chunkSeq (chunkAt dat d n i) = i" "readUInt16BE (chunkAt dat d n i) 0 = Some i" "readUInt16BE (chunkAt dat d n i) 2 = Some n"
    "drop CHUNK_HEADER_SIZE (chunkAt dat d n i) = chunkData dat d i" "length (chunkAt dat d n i) \<le> CHUNK_HEADER_SIZE + d"
  using assms by (simp_all add: chunkAt_eq chunkSeq_def read_write read_second CHUNK_HEADER_SIZE_def chunkData_def)

lemma encoded_sorted:
  assumes "n \<le> 65535"
  shows "map chunkSeq (map (chunkAt dat d n) [0..<n]) = [0..<n]"
proof -
  have "map (chunkSeq \<circ> chunkAt dat d n) [0..<n] = map id [0..<n]"
    using assms by (intro map_cong) (simp_all add: chunkAt_props(1))
  then show ?thesis by simp
qed

lemma decode_permuted:
  assumes "n \<le> 65535" "0 < n" "mset chunks = mset (map (chunkAt dat d n) [0..<n])"
  shows "decodeChunks chunks = Inr (take (n * d) dat)"
proof -
  let ?enc = "map (chunkAt dat d n) [0..<n]"
  have set: "set chunks = set ?enc" and len: "length chunks = n" using mset_eq_setD [OF assms(3)] mset_eq_length [OF assms(3)] by simp_all
  have "inj_on chunkSeq (set ?enc)"
    using encoded_sorted [OF assms(1), of dat d] by (metis distinct_map distinct_upt)
  then have srt: "sort_key chunkSeq chunks = ?enc"
    using set encoded_sorted [OF assms(1), of dat d] by (intro sort_key_inj_key_eq assms(3)) (simp_all only: sorted_upt)
  have ne: "chunks \<noteq> []" using len assms(2) by auto
  have readable: "\<not> list_ex (\<lambda>c. readUInt16BE c 0 = None) chunks"
    using assms(1) by (auto simp: list_ex_iff set chunkAt_props(2))
  have "hd ?enc = chunkAt dat d n 0" using assms(2) by (simp add: hd_map)
  then have total: "readUInt16BE (hd ?enc) 2 = Some n" using assms(1) by (simp add: chunkAt_props(3))
  have "map (drop CHUNK_HEADER_SIZE) ?enc = map (chunkData dat d) [0..<n]"
    using assms(1) by (simp add: chunkAt_props(4))
  then show ?thesis using ne readable total assms(2) concat_chunkData [of dat d n] unfolding decodeChunks_def srt Let_def
    by (simp del: map_map)
qed

text \<open>
  A payload survives the radio in any order: when it is encoded for a packet size the transport uses, no chunk is
  longer than a packet and decoding the chunks in whatever order they arrive gives the payload
  back; encoding fails exactly when the packet has no room beside the header or more than
  65535 chunks are needed.
\<close>

theorem chunks_roundtrip:
  assumes "mtu < 2 ^ 14" "length dat < 2 ^ 38"
  shows "case encodeChunks dat mtu of
      Inl e \<Rightarrow> mtu \<le> 4 \<or> 65535 < nat \<lceil>rat_of_nat (length dat) / of_nat (mtu - 4)\<rceil>
    | Inr chunks \<Rightarrow> (\<forall>c \<in> set chunks. length c \<le> mtu) \<and> (\<forall>received. mset received = mset chunks \<longrightarrow> decodeChunks received = Inr dat)"
proof (cases "mtu \<le> 4")
  case True
  then show ?thesis by (simp add: encodeChunks_def CHUNK_HEADER_SIZE_def)
next
  case False
  let ?d = "mtu - 4"
  let ?n = "totalChunks (length dat) ?d"
  have d: "0 < ?d" "?d < 2 ^ 14" using False assms(1) by simp_all
  note tc = totalChunks_ceiling [OF d assms(2)]
  show ?thesis
  proof (cases "?n > 65535")
    case True
    then show ?thesis using False tc(1) by (simp add: encodeChunks_def CHUNK_HEADER_SIZE_def Let_def)
  next
    case ok: False
    have enc: "encodeChunks dat mtu = Inr (map (chunkAt dat ?d ?n) [0..<?n])"
      using False ok by (simp add: encodeChunks_def CHUNK_HEADER_SIZE_def Let_def)
    have "length c \<le> mtu" if "c \<in> set (map (chunkAt dat ?d ?n) [0..<?n])" for c
      using that chunkAt_props(5) [of _ ?n dat ?d] ok False by (fastforce simp: CHUNK_HEADER_SIZE_def)
    moreover have "decodeChunks received = Inr dat" if "mset received = mset (map (chunkAt dat ?d ?n) [0..<?n])" for received
    proof (cases "?n = 0")
      case True
      then show ?thesis using that tc(3) by (simp add: decodeChunks_def)
    next
      case False
      then show ?thesis using decode_permuted [OF _ _ that] ok tc(2) by simp
    qed
    ultimately show ?thesis by (simp add: enc)
  qed
qed

theorem chunks_roundtrip_witness:
  "encodeChunks [1, 2, 3] 6 = Inr [[0, 0, 0, 2, 1, 2], [0, 1, 0, 2, 3]] \<and> decodeChunks [[0, 1, 0, 2, 3], [0, 0, 0, 2, 1, 2]] = Inr [1, 2, 3]"
proof -
  have "\<lceil>3 / (2 :: rat)\<rceil> = 2" by (rule ceiling_unique) simp_all
  then have n: "totalChunks (length [1, 2, 3 :: byte]) 2 = 2" using totalChunks_ceiling(1) [of 2 3] by (simp add: numeral_3_eq_3)
  have enc: "encodeChunks [1, 2, 3] 6 = Inr [[0, 0, 0, 2, 1, 2], [0, 1, 0, 2, 3]]"
    using n by (simp add: encodeChunks_def CHUNK_HEADER_SIZE_def Let_def chunkAt_def writeUInt16BE_def numeral_2_eq_2)
  have "mset [[0, 1, 0, 2, 3], [0, 0, 0, 2, 1, 2 :: byte]] = mset [[0, 0, 0, 2, 1, 2], [0, 1, 0, 2, 3]]" by (simp add: add_mset_commute)
  then show ?thesis using chunks_roundtrip [of 6 "[1, 2, 3]"] enc by simp
qed

text \<open>Only the number of chunks is checked: a repeated chunk in place of another decodes without an error.\<close>

lemma repeated_chunk_decodes:
  "decodeChunks [[0, 0, 0, 2, 1, 2], [0, 0, 0, 2, 1, 2]] = Inr [1, 2, 1, 2]"
  by (simp add: decodeChunks_def readUInt16BE_def chunkSeq_def CHUNK_HEADER_SIZE_def Let_def)

section \<open>Selection of peers\<close>

lemma sorted_take_drop_le:
  assumes "sorted (map f xs)" "x \<in> set (take n xs)" "y \<in> set (drop n xs)"
  shows "f x \<le> f y"
proof -
  have "sorted (map f (take n xs @ drop n xs))" using assms(1) by simp
  then show ?thesis using assms(2,3) unfolding map_append sorted_append by auto
qed

definition eligible :: "ms \<Rightarrow> string option \<Rightarrow> BLERouter \<Rightarrow> BLEPeerEntry \<Rightarrow> bool" where
  "eligible now ownTokenHash r peer \<longleftrightarrow> peer \<in> set (jsm_values (br_peers r)) \<and> now - bp_lastSeenMs peer \<le> 60000 \<and> candidate (br_quality r) ownTokenHash peer"

definition ex_peer :: "string \<Rightarrow> ms \<Rightarrow> BLEPeerEntry" where
  "ex_peer a seen = \<lparr> bp_agentId = a, bp_meshTokenHash = ''h'', bp_accountId = a, bp_model = ''m'', bp_modelParamSize = 7, bp_memoryMB = 1,
     bp_batteryPct = 100, bp_currentLoad = 0, bp_deviceType = Laptop, bp_rssi = - 30, bp_lastSeenMs = seen, bp_taskSuccessCount = None, bp_taskFailCount = None \<rparr>"

text \<open>
  The router picks the best peers: at most \<open>limit\<close> of them, each known, seen within the last minute, of the own mesh,
  not blacklisted and below the cost threshold, in the order of their cost; and an eligible peer
  is left out only when \<open>limit\<close> peers that cost no more were picked. Stale peers are forgotten.
\<close>

theorem selectBestPeers_optimal:
  "case selectBestPeers now limit ownTokenHash r of (r', picked) \<Rightarrow>
     length picked \<le> limit \<and> (\<forall>p \<in> set picked. eligible now ownTokenHash r p) \<and>
     sorted (map (computeCost (br_quality r)) picked) \<and>
     (\<forall>p. eligible now ownTokenHash r p \<longrightarrow> p \<in> set picked \<or>
        length picked = limit \<and> (\<forall>q \<in> set picked. computeCost (br_quality r) q \<le> computeCost (br_quality r) p)) \<and>
     set (jsm_values (br_peers r')) = {p \<in> set (jsm_values (br_peers r)). now - bp_lastSeenMs p \<le> 60000}"
proof -
  let ?cost = "computeCost (br_quality r)"
  let ?live = "filter (\<lambda>p. \<not> now - bp_lastSeenMs p > 60000) (jsm_values (br_peers r))"
  let ?cand = "filter (candidate (br_quality r) ownTokenHash) ?live"
  let ?s = "sort_key ?cost ?cand"
  have evict: "br_quality (evictStalePeers now r) = br_quality r" "jsm_values (br_peers (evictStalePeers now r)) = ?live"
    by (simp_all add: evictStalePeers_def jsm_values_def filter_map comp_def case_prod_unfold)
  have "map fst (sort_key snd (map (\<lambda>p. (p, ?cost p)) xs)) = sort_key ?cost xs" for xs
  proof -
    have ins: "insort_key snd (p, ?cost p) (map (\<lambda>p. (p, ?cost p)) ys) = map (\<lambda>p. (p, ?cost p)) (insort_key ?cost p ys)" for p ys
      by (induction ys) auto
    have "sort_key snd (map (\<lambda>p. (p, ?cost p)) xs) = map (\<lambda>p. (p, ?cost p)) (sort_key ?cost xs)" by (induction xs) (simp_all add: ins)
    then show ?thesis by (simp add: comp_def)
  qed
  then have picked: "snd (selectBestPeers now limit ownTokenHash r) = take limit ?s"
    by (simp add: selectBestPeers_def Let_def evict take_map [symmetric])
  have r': "fst (selectBestPeers now limit ownTokenHash r) = evictStalePeers now r" by (simp add: selectBestPeers_def Let_def)
  have el: "p \<in> set ?s \<longleftrightarrow> eligible now ownTokenHash r p" for p by (auto simp: eligible_def)
  have srt: "sorted (map ?cost ?s)" by simp
  have "eligible now ownTokenHash r p" if "p \<in> set (take limit ?s)" for p using in_set_takeD [OF that] el by blast
  moreover have "sorted (map ?cost (take limit ?s))" using sorted_wrt_take [OF srt, of limit] by (simp only: take_map)
  moreover have "p \<in> set (take limit ?s) \<or> length (take limit ?s) = limit \<and> (\<forall>q \<in> set (take limit ?s). ?cost q \<le> ?cost p)"
    if "eligible now ownTokenHash r p" for p
  proof (cases "p \<in> set (take limit ?s)")
    case False
    then have d: "p \<in> set (drop limit ?s)" using that el by (metis UnE append_take_drop_id set_append)
    then have "limit < length ?s" by (metis drop_all empty_iff linorder_not_less list.set(1))
    then show ?thesis using sorted_take_drop_le [OF srt _ d] by (simp del: length_sort)
  qed simp
  ultimately show ?thesis using evict(2) unfolding case_prod_beta picked r' by (auto simp: not_less)
qed

definition ex_router :: BLERouter where
  "ex_router = \<lparr> br_peers = [(''a'', ex_peer ''a'' 5)], br_quality = \<lparr> qm_stats = [], qm_totalTaskCount = [] \<rparr> \<rparr>"

lemma ex_peer_eligible: "eligible 10 (Some ''h'') ex_router (ex_peer ''a'' 5)"
proof -
  have "fl (3 / 10) \<le> fl 1" by (rule fl_mono) simp
  then have "fl (50 * fl (3 / 10)) \<le> fl 50" by (intro fl_mono) simp
  then have c: "fl (50 * fl (3 / 10)) \<le> 50" by simp
  have "computeCost (br_quality ex_router) (ex_peer ''a'' 5) = max 0 (fl (50 * fl (3 / 10)))"
    by (simp add: computeCost_def ex_peer_def ex_router_def getConnectionScore_def Let_def n_add_def n_sub_def n_mul_def max_def)
  then have "computeCost (br_quality ex_router) (ex_peer ''a'' 5) < 200" using c by simp
  then show ?thesis by (simp add: eligible_def candidate_def shouldBlacklist_def ex_router_def jsm_values_def ex_peer_def)
qed

theorem selectBestPeers_optimal_witness:
  "snd (selectBestPeers 10 1 (Some ''h'') ex_router) \<noteq> [] \<and>
   list_all (eligible 10 (Some ''h'') ex_router) (snd (selectBestPeers 10 1 (Some ''h'') ex_router))"
proof -
  obtain r' picked where s: "selectBestPeers 10 1 (Some ''h'') ex_router = (r', picked)" by fastforce
  show ?thesis using selectBestPeers_optimal [where now = 10 and limit = 1 and ownTokenHash = "Some ''h''" and r = ex_router] ex_peer_eligible unfolding s by (auto simp: list_all_iff)
qed

section \<open>Giving up\<close>

fun schedules :: "ReconnectionConfig \<Rightarrow> (nat \<Rightarrow> num) \<Rightarrow> string \<Rightarrow> nat \<Rightarrow> ReconnectionStates \<Rightarrow> ReconnectionStates" where
  "schedules cfg rnd peerId 0 st = st"
| "schedules cfg rnd peerId (Suc n) st = fst (scheduleReconnect cfg (rnd n) peerId (schedules cfg rnd peerId n st))"

lemma applyJitter_nonneg: "0 \<le> applyJitter rnd delay"
  by (simp add: applyJitter_def Let_def)

lemma schedules_state:
  assumes "jsm_get st peerId = None" "0 < rcc_maxAttempts cfg"
  shows "case jsm_get (schedules cfg rnd peerId n st) peerId of
      None \<Rightarrow> n = 0
    | Some s \<Rightarrow> 0 < n \<and> rc_attempt s = min n (rcc_maxAttempts cfg) \<and> rc_maxAttempts s = rcc_maxAttempts cfg \<and> (rc_gaveUp s \<longleftrightarrow> rcc_maxAttempts cfg \<le> n)"
proof (induction n)
  case (Suc n)
  then show ?case using assms
    by (cases "jsm_get (schedules cfg rnd peerId n st) peerId")
       (auto simp: scheduleReconnect_def newReconnection_def Let_def jsm_get_set min_def)
qed (simp add: assms)

text \<open>
  Reconnection stops: for a peer without a state, the calls of \<open>scheduleReconnect\<close> count up to the configured
  number of attempts and no further; \<open>shouldRetry\<close> holds exactly before that number is reached, and
  from then on every call answers -1 while each earlier one gives a delay of at least 0. A
  success starts afresh, and other peers are not affected.
\<close>

theorem reconnection_gives_up:
  assumes "jsm_get st peerId = None" "0 < rcc_maxAttempts cfg"
  shows "let st' = schedules cfg rnd peerId n st; delay = snd (scheduleReconnect cfg r peerId st') in
     getAttemptCount peerId st' = min n (rcc_maxAttempts cfg) \<and> (shouldRetry peerId st' \<longleftrightarrow> n < rcc_maxAttempts cfg) \<and>
     (if n < rcc_maxAttempts cfg then 0 \<le> delay else delay = - 1) \<and>
     shouldRetry peerId (recordSuccess peerId st') \<and> getAttemptCount peerId (recordSuccess peerId st') = 0 \<and>
     (\<forall>p. p \<noteq> peerId \<longrightarrow> jsm_get st' p = jsm_get st p)"
proof -
  let ?st = "schedules cfg rnd peerId n st"
  have other: "jsm_get ?st p = jsm_get st p" if "p \<noteq> peerId" for p
    using that by (induction n) (simp_all add: scheduleReconnect_def Let_def jsm_get_set)
  show ?thesis
  proof (cases "jsm_get ?st peerId")
    case None
    then show ?thesis using schedules_state [OF assms, where rnd = rnd and n = n] assms(2) other
      by (simp add: Let_def getAttemptCount_def shouldRetry_def recordSuccess_def jsm_get_delete scheduleReconnect_def newReconnection_def applyJitter_nonneg)
  next
    case (Some s)
    then show ?thesis using schedules_state [OF assms, where rnd = rnd and n = n] other
      by (auto simp: Let_def getAttemptCount_def shouldRetry_def recordSuccess_def jsm_get_delete scheduleReconnect_def applyJitter_nonneg)
  qed
qed

theorem reconnection_gives_up_witness:
  "\<not> shouldRetry ''p'' (schedules DEFAULT_RECONNECTION (\<lambda>_. 0) ''p'' 8 []) \<and> shouldRetry ''p'' (schedules DEFAULT_RECONNECTION (\<lambda>_. 0) ''p'' 7 [])"
  using reconnection_gives_up [of "[]" "''p''" DEFAULT_RECONNECTION "\<lambda>_. 0" 8 0] reconnection_gives_up [of "[]" "''p''" DEFAULT_RECONNECTION "\<lambda>_. 0" 7 0]
  by (simp add: Let_def DEFAULT_RECONNECTION_def)

text \<open>The ledger forgets the account ids: a pending transaction names the agents as accounts.\<close>

lemma pending_accounts: "tx \<in> set (ledgerPending l) \<Longrightarrow> ble_requesterAccountId tx = ble_requesterId tx \<and> ble_providerAccountId tx = ble_providerId tx"
  by (auto simp: ledgerPending_def rowTransaction_def split: option.splits)

text \<open>Every recorded transaction stays pending, in the queue, until it is marked.\<close>

lemma recorded_pending:
  "length (filter (\<lambda>r. \<not> lr_synced r) rows) < 50 \<Longrightarrow>
   \<exists>t \<in> set (ledgerPending (ledgerRecord tx now (Some rows))). ble_txId t = ble_txId tx \<and> ble_credits t = ble_credits tx"
proof -
  assume few: "length (filter (\<lambda>r. \<not> lr_synced r) rows) < 50"
  let ?rows = "recordBLECreditTx tx now rows"
  let ?u = "filter (\<lambda>r. \<not> lr_synced r) ?rows"
  obtain row where row: "row \<in> set ?rows" "lr_txId row = ble_txId tx" "lr_credits row = ble_credits tx" "\<not> lr_synced row"
    by (simp add: recordBLECreditTx_def)
  have "length (filter (\<lambda>r. \<not> lr_synced r) (filter (\<lambda>r. lr_txId r \<noteq> ble_txId tx) rows)) \<le> length (filter (\<lambda>r. \<not> lr_synced r) rows)"
    using length_filter_le [of "\<lambda>r. lr_txId r \<noteq> ble_txId tx" "filter (\<lambda>r. \<not> lr_synced r) rows"] by (simp add: conj_commute)
  then have "length ?u \<le> 50" using few by (simp add: recordBLECreditTx_def)
  then have "set (listUnsyncedBLECredits 50 ?rows) = set ?u" by (simp add: listUnsyncedBLECredits_def)
  then have "row \<in> set (listUnsyncedBLECredits 50 ?rows)" using row by simp
  then show ?thesis using row(2,3) unfolding ledgerPending_def ledgerRecord_def
    by (auto simp: rowTransaction_def intro!: bexI [of _ row])
qed

end
