(* ===== verification/SecurityGuards.thy ===== *)
theory SecurityGuards
  imports Ledger CoordinatorUtils
begin

text \<open>
  The checks in front of the coordinator's agent routes: rate limiting
  (\<open>src/src/security/agent-rate-limiter.ts\<close>), nonces (\<open>nonce-verifier.ts\<close>), request signatures
  (\<open>request-signing.ts\<close>), their composition \<open>verifyAgentRequest\<close> (\<open>src/src/swarm/coordinator.ts\<close>), and the
  neighbours: security event levels, key rotation, model manifests and release verification.
  The conversion \<open>Number(s)\<close>, the URL parser and the network fetches are arguments.
\<close>

section \<open>Rate limiter\<close>

record RateLimitConfig =
  maxRequests :: nat
  windowMs :: int

type_synonym RateWindows = "(string, ms list) jsmap"

definition evictExpired :: "RateLimitConfig \<Rightarrow> ms \<Rightarrow> ms list \<Rightarrow> ms list" where
  "evictExpired cfg now timestamps = dropWhile (\<lambda>t. t < now - windowMs cfg) timestamps"

definition rateCheck :: "RateLimitConfig \<Rightarrow> string \<Rightarrow> ms \<Rightarrow> RateWindows \<Rightarrow> RateWindows \<times> bool" where
  "rateCheck cfg agentId now windows =
     (let timestamps = evictExpired cfg now (nullish (jsm_get windows agentId) []) in
      if length timestamps \<ge> maxRequests cfg then (jsm_set agentId timestamps windows, False)
      else (jsm_set agentId (timestamps @ [now]) windows, True))"

definition rateReset :: "string \<Rightarrow> RateWindows \<Rightarrow> RateWindows" where
  "rateReset agentId windows = jsm_delete agentId windows"

section \<open>Nonces\<close>

record NonceEntry =
  ne_sourceId :: string
  ne_expiresAtMs :: ms

type_synonym NonceStore = "(string, NonceEntry) jsmap"

definition nonce_exists :: "string \<Rightarrow> NonceStore \<Rightarrow> bool" where
  "nonce_exists nonce entries = jsm_has entries nonce"

definition nonce_insert :: "string \<Rightarrow> string \<Rightarrow> ms \<Rightarrow> NonceStore \<Rightarrow> NonceStore" where
  "nonce_insert nonce sourceId expiresAtMs entries =
     jsm_set nonce \<lparr> ne_sourceId = sourceId, ne_expiresAtMs = expiresAtMs \<rparr> entries"

definition nonce_prune :: "ms \<Rightarrow> NonceStore \<Rightarrow> NonceStore" where
  "nonce_prune now entries =
     foldl (\<lambda>m (nonce, entry). if ne_expiresAtMs entry < now then jsm_delete nonce m else m) entries entries"

datatype NonceReason = Replay | Nonce_timestamp_skew

text \<open>A time stamp \<open>None\<close> is \<open>NaN\<close>; a comparison with it is false, so it passes the skew test.\<close>

definition skewed :: "ms \<Rightarrow> int option \<Rightarrow> int \<Rightarrow> bool" where
  "skewed now timestampMs maxSkewMs =
     (case timestampMs of None \<Rightarrow> False | Some t \<Rightarrow> \<bar>now - t\<bar> > maxSkewMs)"

text \<open>\<open>verifyNonce\<close> in its two parts, between which it awaits the store, and without anything between them.\<close>

definition nonceCheck :: "string \<Rightarrow> int option \<Rightarrow> int \<Rightarrow> ms \<Rightarrow> NonceStore \<Rightarrow> NonceReason option" where
  "nonceCheck nonce timestampMs maxSkewMs now store =
     (if skewed now timestampMs maxSkewMs then Some Nonce_timestamp_skew
      else if nonce_exists nonce store then Some Replay
      else None)"

definition nonceAccept :: "string \<Rightarrow> string \<Rightarrow> int option \<Rightarrow> ms \<Rightarrow> NonceStore \<Rightarrow> NonceStore" where
  "nonceAccept nonce sourceId ttlMs now store = nonce_insert nonce sourceId (now + nullish ttlMs (5 * 60000)) store"

definition verifyNonce ::
  "string \<Rightarrow> string \<Rightarrow> int option \<Rightarrow> int \<Rightarrow> int option \<Rightarrow> ms \<Rightarrow> NonceStore \<Rightarrow> NonceStore \<times> NonceReason option" where
  "verifyNonce nonce sourceId timestampMs maxSkewMs ttlMs now store =
     (case nonceCheck nonce timestampMs maxSkewMs now store of
        Some reason \<Rightarrow> (store, Some reason)
      | None \<Rightarrow> (nonceAccept nonce sourceId ttlMs now store, None))"

section \<open>Request signatures\<close>

record SignedHeaders =
  x_agent_id :: string
  x_timestamp_ms :: string
  x_nonce :: string
  x_body_sha256 :: string
  x_signature :: string

definition nl :: string where
  "nl = [CHR 0x0A]"

definition canonicalize :: "string \<Rightarrow> string \<Rightarrow> string \<Rightarrow> string \<Rightarrow> string \<Rightarrow> string" where
  "canonicalize timestampMs nonce method path bodyHash =
     timestampMs @ nl @ nonce @ nl @ method @ nl @ path @ nl @ bodyHash"

definition signRequest ::
  "crypto \<Rightarrow> string \<Rightarrow> string \<Rightarrow> string \<Rightarrow> string \<Rightarrow> string \<Rightarrow> ms \<Rightarrow> string \<Rightarrow> SignedHeaders" where
  "signRequest cr method path bodyHash privateKeyPem agentId now uuid =
     (let payload = canonicalize (int_str now) uuid method path bodyHash in
      \<lparr> x_agent_id = agentId, x_timestamp_ms = int_str now, x_nonce = uuid, x_body_sha256 = bodyHash,
        x_signature = ed_sign cr payload privateKeyPem \<rparr>)"

datatype VerifyReason = Missing_headers | Timestamp_skew | Bad_signature

text \<open>
  Valid requests give the agent and the nonce. A key that makes \<open>crypto.verify\<close> throw ends the
  call with an exception: the outer \<open>None\<close>.
\<close>

definition verifySignedRequest ::
  "crypto \<Rightarrow> (string \<Rightarrow> int option) \<Rightarrow> string \<Rightarrow> string \<Rightarrow> SignedHeaders \<Rightarrow> string \<Rightarrow> int \<Rightarrow> ms \<Rightarrow>
   (VerifyReason + string \<times> string) option" where
  "verifySignedRequest cr toNumber method path h publicKeyPem maxSkewMs now =
     (if x_timestamp_ms h = [] \<or> x_nonce h = [] \<or> x_body_sha256 h = [] \<or> x_signature h = [] \<or> x_agent_id h = []
        then Some (Inl Missing_headers)
      else if skewed now (toNumber (x_timestamp_ms h)) maxSkewMs then Some (Inl Timestamp_skew)
      else (case ed_verify cr (canonicalize (x_timestamp_ms h) (x_nonce h) method path (x_body_sha256 h)) (x_signature h) publicKeyPem of
              None \<Rightarrow> None
            | Some False \<Rightarrow> Some (Inl Bad_signature)
            | Some True \<Rightarrow> Some (Inr (x_agent_id h, x_nonce h))))"

section \<open>Security events\<close>

datatype SecurityLevel = INFO | WARN | HIGH | CRITICAL

datatype SecurityEventType =
    Failed_auth | Auth_rate_limit_hit | Replay_attempt | Invalid_signature_event | Manifest_signature_failure
  | Ledger_chain_break | Blacklist_chain_tamper | Agent_trust_violation | Key_rotation | Key_rotation_overdue
  | Key_expired | Ast_validation_rejection | Sandbox_timeout | Sandbox_seccomp_violation
  | Binary_integrity_failure | Behavioral_anomaly_detected | Auto_blacklist_triggered

fun severity :: "SecurityEventType \<Rightarrow> SecurityLevel" where
  "severity Failed_auth = WARN"
| "severity Auth_rate_limit_hit = HIGH"
| "severity Replay_attempt = HIGH"
| "severity Invalid_signature_event = HIGH"
| "severity Manifest_signature_failure = CRITICAL"
| "severity Ledger_chain_break = CRITICAL"
| "severity Blacklist_chain_tamper = CRITICAL"
| "severity Agent_trust_violation = HIGH"
| "severity Key_rotation = INFO"
| "severity Key_rotation_overdue = WARN"
| "severity Key_expired = CRITICAL"
| "severity Ast_validation_rejection = INFO"
| "severity Sandbox_timeout = WARN"
| "severity Sandbox_seccomp_violation = HIGH"
| "severity Binary_integrity_failure = HIGH"
| "severity Behavioral_anomaly_detected = WARN"
| "severity Auto_blacklist_triggered = CRITICAL"

text \<open>The order of the levels, as a linear order.\<close>

fun level_rank :: "SecurityLevel \<Rightarrow> nat" where
  "level_rank INFO = 0" | "level_rank WARN = 1" | "level_rank HIGH = 2" | "level_rank CRITICAL = 3"

instantiation SecurityLevel :: linorder
begin

definition less_eq_SecurityLevel :: "SecurityLevel \<Rightarrow> SecurityLevel \<Rightarrow> bool" where
  "less_eq_SecurityLevel a b = (level_rank a \<le> level_rank b)"

definition less_SecurityLevel :: "SecurityLevel \<Rightarrow> SecurityLevel \<Rightarrow> bool" where
  "less_SecurityLevel a b = (level_rank a < level_rank b)"

instance
proof
  fix x y z :: SecurityLevel
  show "x \<le> y \<Longrightarrow> y \<le> x \<Longrightarrow> x = y" by (cases x; cases y) (simp_all add: less_eq_SecurityLevel_def)
qed (auto simp: less_eq_SecurityLevel_def less_SecurityLevel_def)

end

section \<open>The composed check\<close>

datatype Violation = Signature_failure | Replay_violation | Rate_limit_hit

record AuthState =
  windows :: RateWindows
  nonces :: NonceStore
  publicKeys :: "(string, string option) jsmap"
  securityLog :: "(SecurityEventType \<times> string) list"
  violations :: "(string \<times> Violation) list"

record AuthConfig =
  rateCfg :: RateLimitConfig
  maxSkew :: int
  nonceTtl :: int

datatype AuthResult = Authenticated string string | Rejected | Unsigned | Threw

definition isLoopback :: "string option \<Rightarrow> bool" where
  "isLoopback sourceIp = (sourceIp = Some ''127.0.0.1'' \<or> sourceIp = Some ''::1'' \<or> sourceIp = Some ''::ffff:127.0.0.1'')"

definition logEvent :: "SecurityEventType \<Rightarrow> string \<Rightarrow> AuthState \<Rightarrow> AuthState" where
  "logEvent ev agentId s = s\<lparr> securityLog := securityLog s @ [(ev, agentId)] \<rparr>"

definition recordViolation :: "string \<Rightarrow> Violation \<Rightarrow> AuthState \<Rightarrow> AuthState" where
  "recordViolation agentId v s = s\<lparr> violations := violations s @ [(agentId, v)] \<rparr>"

text \<open>The five headers, all of them strings, or nothing.\<close>

definition headerString :: "(string, HeaderValue) jsmap \<Rightarrow> string \<Rightarrow> string option" where
  "headerString headers key = (case jsm_get headers key of Some (HString v) \<Rightarrow> Some v | _ \<Rightarrow> None)"

definition extractSignedHeaders :: "(string, HeaderValue) jsmap \<Rightarrow> SignedHeaders option" where
  "extractSignedHeaders headers =
     (case (headerString headers ''x-agent-id'', headerString headers ''x-timestamp-ms'', headerString headers ''x-nonce'',
            headerString headers ''x-body-sha256'', headerString headers ''x-signature'') of
        (Some agentId, Some timestampMs, Some nonce, Some bodySha256, Some signature) \<Rightarrow>
          Some \<lparr> x_agent_id = agentId, x_timestamp_ms = timestampMs, x_nonce = nonce,
                 x_body_sha256 = bodySha256, x_signature = signature \<rparr>
      | _ \<Rightarrow> None)"

text \<open>
  \<open>verifyAgentRequest\<close> takes the extracted headers. Steps after the rate limit: the key lookup, the signature and the nonce. \<open>nowSig\<close> and \<open>nowNonce\<close> are
  the two further readings of the clock.
\<close>

definition verifyIdentity ::
  "crypto \<Rightarrow> (string \<Rightarrow> int option) \<Rightarrow> AuthConfig \<Rightarrow> SignedHeaders \<Rightarrow> string \<Rightarrow> ms \<Rightarrow> ms \<Rightarrow> AuthState \<Rightarrow> AuthState \<times> AuthResult" where
  "verifyIdentity cr toNumber cfg signed routePath nowSig nowNonce s =
     (let agentId = x_agent_id signed; key = Option.bind (jsm_get (publicKeys s) agentId) id in
      if \<not> truthy_str key
      then (logEvent Invalid_signature_event agentId (s\<lparr> windows := rateReset agentId (windows s) \<rparr>), Rejected)
      else (case verifySignedRequest cr toNumber ''POST'' routePath signed (the key) (maxSkew cfg) nowSig of
              None \<Rightarrow> (s, Threw)
            | Some (Inl reason) \<Rightarrow>
                if reason = Timestamp_skew
                then (recordViolation agentId Replay_violation (logEvent Replay_attempt agentId s), Rejected)
                else (recordViolation agentId Signature_failure (logEvent Invalid_signature_event agentId s), Rejected)
            | Some (Inr (agent, nonce)) \<Rightarrow>
                (case verifyNonce nonce agentId (toNumber (x_timestamp_ms signed)) (maxSkew cfg) (Some (nonceTtl cfg)) nowNonce (nonces s) of
                   (store, Some _) \<Rightarrow>
                     (recordViolation agentId Replay_violation (logEvent Replay_attempt agentId (s\<lparr> nonces := store \<rparr>)), Rejected)
                 | (store, None) \<Rightarrow> (s\<lparr> nonces := store \<rparr>, Authenticated agent nonce))))"

definition verifyAgentRequest ::
  "crypto \<Rightarrow> (string \<Rightarrow> int option) \<Rightarrow> AuthConfig \<Rightarrow> SignedHeaders option \<Rightarrow> string \<Rightarrow> string option \<Rightarrow> ms \<Rightarrow> ms \<Rightarrow> ms \<Rightarrow>
   AuthState \<Rightarrow> AuthState \<times> AuthResult" where
  "verifyAgentRequest cr toNumber cfg headers routePath sourceIp now nowSig nowNonce s =
     (case headers of
        None \<Rightarrow> (s, Unsigned)
      | Some signed \<Rightarrow>
          (let agentId = x_agent_id signed in
           if isLoopback sourceIp then verifyIdentity cr toNumber cfg signed routePath nowSig nowNonce s
           else (let (ws, allowed) = rateCheck (rateCfg cfg) agentId now (windows s); s1 = s\<lparr> windows := ws \<rparr> in
                 if \<not> allowed
                 then (recordViolation agentId Rate_limit_hit (logEvent Auth_rate_limit_hit agentId s1), Rejected)
                 else verifyIdentity cr toNumber cfg signed routePath nowSig nowNonce s1)))"

section \<open>Key rotation\<close>

record CurrentKey =
  ck_privateKeyPem :: string
  ck_publicKeyPem :: string
  ck_activatedAt :: ms
  ck_expiresAt :: ms

record PreviousKey =
  pk_privateKeyPem :: string
  pk_publicKeyPem :: string
  pk_activatedAt :: ms
  pk_deactivatedAt :: ms

record KeyBundle =
  currentKey :: CurrentKey
  previousKey :: "PreviousKey option"
  keyId :: string

definition daysUntilExpiry :: "ms \<Rightarrow> KeyBundle \<Rightarrow> num" where
  "daysUntilExpiry now b = n_div (n_sub (of_int (ck_expiresAt (currentKey b))) (of_int now)) 86400000"

definition isRotationDue :: "num \<Rightarrow> ms \<Rightarrow> KeyBundle \<Rightarrow> bool" where
  "isRotationDue warningDays now b = (daysUntilExpiry now b \<le> warningDays)"

definition isExpired :: "ms \<Rightarrow> KeyBundle \<Rightarrow> bool" where
  "isExpired now b = (now > ck_expiresAt (currentKey b))"

definition isGracePeriodActive :: "ms \<Rightarrow> KeyBundle \<Rightarrow> bool" where
  "isGracePeriodActive now b =
     (case previousKey b of None \<Rightarrow> False | Some p \<Rightarrow> now - pk_deactivatedAt p < 48 * 3600000)"

text \<open>\<open>generateKeyPairSync\<close> and \<open>randomUUID\<close> supply the new key pair and id.\<close>

definition rotate :: "int \<Rightarrow> string \<times> string \<Rightarrow> string \<Rightarrow> ms \<Rightarrow> KeyBundle \<Rightarrow> KeyBundle" where
  "rotate rotationDays newKeys uuid now b =
     \<lparr> currentKey = \<lparr> ck_privateKeyPem = fst newKeys, ck_publicKeyPem = snd newKeys, ck_activatedAt = now,
         ck_expiresAt = now + rotationDays * 86400000 \<rparr>,
       previousKey = Some \<lparr> pk_privateKeyPem = ck_privateKeyPem (currentKey b),
         pk_publicKeyPem = ck_publicKeyPem (currentKey b), pk_activatedAt = ck_activatedAt (currentKey b),
         pk_deactivatedAt = now \<rparr>,
       keyId = uuid \<rparr>"

definition generateKeyBundle :: "int \<Rightarrow> string \<times> string \<Rightarrow> string \<Rightarrow> ms \<Rightarrow> KeyBundle" where
  "generateKeyBundle rotationDays newKeys uuid now =
     \<lparr> currentKey = \<lparr> ck_privateKeyPem = fst newKeys, ck_publicKeyPem = snd newKeys, ck_activatedAt = now,
         ck_expiresAt = now + rotationDays * 86400000 \<rparr>,
       previousKey = None, keyId = uuid \<rparr>"

section \<open>Model manifests\<close>

record ModelManifest =
  mm_modelId :: string
  mm_version :: string
  mm_source :: string
  mm_sha256 :: string

record SignedModelManifest = ModelManifest +
  mm_signature :: string
  mm_signerPeerId :: string

record TrustConfig =
  trustedPeerIds :: "string list"
  trustedPublicKeys :: "(string, string) jsmap"

definition ALLOWED_MODEL_EXTENSIONS :: "string list" where
  "ALLOWED_MODEL_EXTENSIONS = [''.gguf'', ''.bin'', ''.safetensors'']"

definition ALLOWED_DOWNLOAD_DOMAINS :: "string list" where
  "ALLOWED_DOWNLOAD_DOMAINS = [''models.edgecoder.io'', ''huggingface.co'']"

definition canonicalizeManifest :: "string \<Rightarrow> string \<Rightarrow> string \<Rightarrow> string" where
  "canonicalizeManifest modelId version sha = modelId @ nl @ version @ nl @ sha"

definition signModelManifest :: "crypto \<Rightarrow> ModelManifest \<Rightarrow> string \<Rightarrow> string \<Rightarrow> SignedModelManifest" where
  "signModelManifest cr m privateKeyPem peerId =
     \<lparr> mm_modelId = mm_modelId m, mm_version = mm_version m, mm_source = mm_source m, mm_sha256 = mm_sha256 m,
       mm_signature = ed_sign cr (canonicalizeManifest (mm_modelId m) (mm_version m) (mm_sha256 m)) privateKeyPem,
       mm_signerPeerId = peerId \<rparr>"

text \<open>\<open>s.substring(s.lastIndexOf("."))\<close>: from the last dot on, or all of \<open>s\<close> when it has none.\<close>

definition from_last_dot :: "string \<Rightarrow> string" where
  "from_last_dot s = (if CHR ''.'' \<in> set s
     then CHR ''.'' # rev (takeWhile (\<lambda>c. c \<noteq> CHR ''.'') (rev s)) else s)"

datatype ManifestReason =
    Untrusted_peer | Source_not_allowlisted | Invalid_source_url | Disallowed_file_extension
  | No_public_key_for_peer | Manifest_invalid_signature

text \<open>\<open>hostname\<close> is the URL parser; the inner \<open>None\<close> means valid, the outer \<open>None\<close> an exception of \<open>verify\<close>.\<close>

definition verifyModelManifest ::
  "crypto \<Rightarrow> (string \<Rightarrow> string option) \<Rightarrow> SignedModelManifest \<Rightarrow> TrustConfig \<Rightarrow> ManifestReason option option" where
  "verifyModelManifest cr hostname signed trust =
     (if mm_signerPeerId signed \<notin> set (trustedPeerIds trust) then Some (Some Untrusted_peer)
      else (case hostname (mm_source signed) of
          None \<Rightarrow> Some (Some Invalid_source_url)
        | Some host \<Rightarrow>
            if host \<notin> set ALLOWED_DOWNLOAD_DOMAINS then Some (Some Source_not_allowlisted)
            else if from_last_dot (mm_source signed) \<notin> set ALLOWED_MODEL_EXTENSIONS then Some (Some Disallowed_file_extension)
            else if \<not> truthy_str (jsm_get (trustedPublicKeys trust) (mm_signerPeerId signed)) then Some (Some No_public_key_for_peer)
            else (case ed_verify cr (canonicalizeManifest (mm_modelId signed) (mm_version signed) (mm_sha256 signed))
                         (mm_signature signed) (the (jsm_get (trustedPublicKeys trust) (mm_signerPeerId signed))) of
                    None \<Rightarrow> None
                  | Some ok \<Rightarrow> Some (if ok then None else Some Manifest_invalid_signature))))"

record LocalModelManifest =
  lm_modelId :: string
  lm_sourceUrl :: string
  lm_checksumSha256 :: string
  lm_signature :: string

definition is_hex :: "char \<Rightarrow> bool" where
  "is_hex c = (let n = (of_char c :: nat) in is_digit c \<or> (97 \<le> n \<and> n \<le> 102) \<or> (65 \<le> n \<and> n \<le> 70))"

definition ALLOWED_MODEL_SOURCES :: "string list" where
  "ALLOWED_MODEL_SOURCES = [''https://models.edgecoder.local/'', ''https://huggingface.co/'']"

datatype LocalManifestReason = Source_not_allowed | Invalid_checksum_format | Local_invalid_signature

definition verifyManifest :: "LocalModelManifest \<Rightarrow> LocalManifestReason option" where
  "verifyManifest m =
     (if \<not> list_ex (\<lambda>prefix. take (length prefix) (lm_sourceUrl m) = prefix) ALLOWED_MODEL_SOURCES then Some Source_not_allowed
      else if \<not> (length (lm_checksumSha256 m) = 64 \<and> list_all is_hex (lm_checksumSha256 m)) then Some Invalid_checksum_format
      else if length (lm_signature m) < 16 then Some Local_invalid_signature
      else None)"

section \<open>Releases\<close>

record TrustedReleaseKey =
  tk_publicKeyPem :: string
  tk_activatedAtMs :: ms
  tk_expiresAtMs :: "ms option"

definition TRUSTED_RELEASE_KEYS :: "TrustedReleaseKey list" where
  "TRUSTED_RELEASE_KEYS = []"

definition keyActive :: "ms \<Rightarrow> TrustedReleaseKey \<Rightarrow> bool" where
  "keyActive nowMs key =
     (if nowMs < tk_activatedAtMs key then False
      else if truthy_int (tk_expiresAtMs key) \<and> nowMs > the (tk_expiresAtMs key) then False
      else True)"

definition getActiveReleaseKeys :: "TrustedReleaseKey list \<Rightarrow> ms \<Rightarrow> TrustedReleaseKey list" where
  "getActiveReleaseKeys trusted nowMs = filter (keyActive nowMs) trusted"

record ReleaseManifest =
  rm_version :: string
  rm_artifacts :: "(string \<times> string) list"
  rm_distTreeHash :: string
  rm_timestamp :: string

definition manifestJson :: "ReleaseManifest \<Rightarrow> string" where
  "manifestJson m = json_text (JObj
     [(''version'', JStr (rm_version m)),
      (''artifacts'', JArr (map (\<lambda>(n, h). JObj [(''name'', JStr n), (''sha256'', JStr h)]) (rm_artifacts m))),
      (''distTreeHash'', JStr (rm_distTreeHash m)), (''timestamp'', JStr (rm_timestamp m))])"

datatype VerificationStatus = Verified | Unverified | Signature_mismatch | Hash_mismatch_status

record BinaryIntegrityPayload =
  bi_distHash :: string
  bi_releaseVersion :: string
  bi_releaseSignature :: string

text \<open>\<open>verifyText\<close> is the streaming verifier; a key that makes it throw (\<open>None\<close>) is skipped.\<close>

definition verifyBinaryIntegrity ::
  "(string \<Rightarrow> string \<Rightarrow> string \<Rightarrow> bool option) \<Rightarrow> TrustedReleaseKey list \<Rightarrow> BinaryIntegrityPayload \<Rightarrow>
   (string, ReleaseManifest) jsmap \<Rightarrow> ms \<Rightarrow> VerificationStatus" where
  "verifyBinaryIntegrity verifyText trusted payload cachedManifests nowMs =
     (if bi_releaseSignature payload = [] then Unverified
      else (case jsm_get cachedManifests (bi_releaseVersion payload) of
          None \<Rightarrow> Unverified
        | Some manifest \<Rightarrow>
            (let activeKeys = getActiveReleaseKeys trusted nowMs in
             if activeKeys = [] then Unverified
             else if \<not> list_ex (\<lambda>key. verifyText (manifestJson manifest) (bi_releaseSignature payload) (tk_publicKeyPem key) = Some True) activeKeys
               then Signature_mismatch
             else if bi_distHash payload \<noteq> rm_distTreeHash manifest then Hash_mismatch_status
             else Verified)))"

section \<open>The manifest cache\<close>

definition strip_v :: "string \<Rightarrow> string" where
  "strip_v tag = (case tag of c # rest \<Rightarrow> if c = CHR ''v'' then rest else tag | [] \<Rightarrow> [])"

text \<open>One release of the listing; \<open>fetchManifest\<close> is the download and parse of an asset, \<open>None\<close> on any failure.\<close>

definition refreshRelease ::
  "(string \<Rightarrow> ReleaseManifest option) \<Rightarrow> string \<times> (string \<times> string) list \<Rightarrow> (string, ReleaseManifest) jsmap \<Rightarrow>
   (string, ReleaseManifest) jsmap" where
  "refreshRelease fetchManifest = (\<lambda>(tag, assets) manifests.
     (let version = strip_v tag in
      if jsm_has manifests version then manifests
      else (case find (\<lambda>(name, url). name = ''release-manifest.json'') assets of
              None \<Rightarrow> manifests
            | Some (_, url) \<Rightarrow>
                (case fetchManifest url of
                   None \<Rightarrow> manifests
                 | Some m \<Rightarrow> if rm_version m \<noteq> [] \<and> rm_distTreeHash m \<noteq> [] then jsm_set version m manifests else manifests))))"

definition refresh ::
  "(string \<times> (string \<times> string) list) list option \<Rightarrow> (string \<Rightarrow> ReleaseManifest option) \<Rightarrow>
   (string, ReleaseManifest) jsmap \<Rightarrow> (string, ReleaseManifest) jsmap" where
  "refresh releases fetchManifest manifests =
     (case releases of None \<Rightarrow> manifests | Some rs \<Rightarrow> fold (refreshRelease fetchManifest) rs manifests)"

section \<open>The limiter bounds every window\<close>

text \<open>A run of checks, with the accepted requests in order.\<close>

definition rateStep ::
  "RateLimitConfig \<Rightarrow> string \<times> ms \<Rightarrow> RateWindows \<times> (string \<times> ms) list \<Rightarrow> RateWindows \<times> (string \<times> ms) list" where
  "rateStep cfg = (\<lambda>(a, now) (ws, acc). let (ws', ok) = rateCheck cfg a now ws in (ws', if ok then acc @ [(a, now)] else acc))"

definition times :: "string \<Rightarrow> (string \<times> ms) list \<Rightarrow> ms list" where
  "times a acc = map snd (filter (\<lambda>(b, _). b = a) acc)"

definition window_count :: "RateLimitConfig \<Rightarrow> ms \<Rightarrow> ms list \<Rightarrow> nat" where
  "window_count cfg t A = length (filter (\<lambda>x. t - windowMs cfg \<le> x \<and> x \<le> t) A)"

definition rate_inv :: "RateLimitConfig \<Rightarrow> ms \<Rightarrow> ms list \<Rightarrow> ms list \<Rightarrow> bool" where
  "rate_inv cfg T ts A \<longleftrightarrow> sorted A \<and> (\<forall>x \<in> set A. x \<le> T) \<and>
     (\<exists>c \<le> T - windowMs cfg. ts = filter (\<lambda>x. c \<le> x) A) \<and> (\<forall>t. window_count cfg t A \<le> maxRequests cfg)"

lemma dropWhile_sorted: "sorted (xs :: int list) \<Longrightarrow> dropWhile (\<lambda>x. x < k) xs = filter (\<lambda>x. k \<le> x) xs"
proof (induction xs)
  case (Cons x xs)
  show ?case
  proof (cases "x < k")
    case False
    with Cons.prems have "\<forall>y \<in> set xs. k \<le> y" by auto
    with False show ?thesis by simp
  qed (use Cons in simp)
qed simp

lemma evict_inv:
  assumes "rate_inv cfg T ts A" "T \<le> now"
  shows "evictExpired cfg now ts = filter (\<lambda>x. now - windowMs cfg \<le> x) A"
proof -
  from assms(1) obtain c where c: "c \<le> T - windowMs cfg" "ts = filter (\<lambda>x. c \<le> x) A" and s: "sorted A"
    unfolding rate_inv_def by blast
  have "sorted ts" using s c(2) sorted_filter [of id A "\<lambda>x. c \<le> x"] by simp
  then have "evictExpired cfg now ts = filter (\<lambda>x. now - windowMs cfg \<le> x) ts"
    unfolding evictExpired_def by (rule dropWhile_sorted)
  also have "\<dots> = filter (\<lambda>x. now - windowMs cfg \<le> x) A" using c assms(2) by (auto simp: c(2) intro!: filter_cong)
  finally show ?thesis .
qed

lemma rate_inv_reject:
  assumes "rate_inv cfg T ts A" "T \<le> now"
  shows "rate_inv cfg now (evictExpired cfg now ts) A"
  unfolding rate_inv_def evict_inv [OF assms] using assms unfolding rate_inv_def by force

lemma rate_inv_accept:
  assumes inv: "rate_inv cfg T ts A" and T: "T \<le> now" and w: "0 \<le> windowMs cfg"
    and l: "length (evictExpired cfg now ts) < maxRequests cfg"
  shows "rate_inv cfg now (evictExpired cfg now ts @ [now]) (A @ [now])"
proof -
  have A: "sorted A" "\<forall>x \<in> set A. x \<le> T" "\<forall>t. window_count cfg t A \<le> maxRequests cfg"
    using inv by (simp_all add: rate_inv_def)
  have ts: "evictExpired cfg now ts = filter (\<lambda>x. now - windowMs cfg \<le> x) A" by (rule evict_inv [OF inv T])
  have "window_count cfg t (A @ [now]) \<le> maxRequests cfg" for t
  proof (cases "now \<le> t")
    case False
    with A(3) show ?thesis by (simp add: window_count_def)
  next
    case True
    have "length (filter (\<lambda>x. t - windowMs cfg \<le> x \<and> x \<le> t) A) \<le> length (filter (\<lambda>x. now - windowMs cfg \<le> x) A)"
    proof -
      have "filter (\<lambda>x. t - windowMs cfg \<le> x \<and> x \<le> t) A =
          filter (\<lambda>x. t - windowMs cfg \<le> x \<and> x \<le> t) (filter (\<lambda>x. now - windowMs cfg \<le> x) A)"
        using True by (auto intro!: filter_cong)
      then show ?thesis by (metis length_filter_le)
    qed
    with l ts show ?thesis by (simp add: window_count_def)
  qed
  moreover have "evictExpired cfg now ts @ [now] = filter (\<lambda>x. now - windowMs cfg \<le> x) (A @ [now])" using ts w by simp
  moreover have "sorted (A @ [now])" using A(1,2) T by (force simp: sorted_append)
  moreover have "\<forall>x \<in> set (A @ [now]). x \<le> now" using A(2) T by force
  ultimately show ?thesis unfolding rate_inv_def by blast
qed

lemma rate_inv_later:
  assumes "rate_inv cfg T ts A" "T \<le> now"
  shows "rate_inv cfg now ts A"
proof -
  from assms(1) obtain c where "c \<le> T - windowMs cfg" "ts = filter (\<lambda>x. c \<le> x) A" unfolding rate_inv_def by blast
  with assms(2) have "c \<le> now - windowMs cfg" "ts = filter (\<lambda>x. c \<le> x) A" by simp_all
  moreover have "\<forall>x \<in> set A. x \<le> now" using assms unfolding rate_inv_def by force
  ultimately show ?thesis using assms(1) unfolding rate_inv_def by blast
qed

lemma rateStep_inv:
  assumes inv: "\<forall>a. rate_inv cfg T (nullish (jsm_get ws a) []) (times a acc)" and T: "T \<le> now" and w: "0 \<le> windowMs cfg"
    and st: "rateStep cfg (b, now) (ws, acc) = (ws', acc')"
  shows "\<forall>a. rate_inv cfg now (nullish (jsm_get ws' a) []) (times a acc')"
proof
  fix a
  let ?ts = "evictExpired cfg now (nullish (jsm_get ws b) [])"
  have weak: "rate_inv cfg now ts A" if "rate_inv cfg T ts A" for ts A by (rule rate_inv_later [OF that T])
  show "rate_inv cfg now (nullish (jsm_get ws' a) []) (times a acc')"
  proof (cases "length ?ts \<ge> maxRequests cfg")
    case True
    then have "ws' = jsm_set b ?ts ws" "acc' = acc" using st by (auto simp: rateStep_def rateCheck_def Let_def)
    then show ?thesis using rate_inv_reject [OF inv [rule_format, of b] T] weak [OF inv [rule_format, of a]]
      by (simp add: jsm_get_set)
  next
    case False
    then have "ws' = jsm_set b (?ts @ [now]) ws" "acc' = acc @ [(b, now)]"
      using st by (auto simp: rateStep_def rateCheck_def Let_def)
    then show ?thesis using rate_inv_accept [OF inv [rule_format, of b] T w] False weak [OF inv [rule_format, of a]]
      by (auto simp: jsm_get_set times_def)
  qed
qed

lemma rateRun_inv:
  "sorted (map snd ops) \<Longrightarrow> \<forall>o1 \<in> set ops. T \<le> snd o1 \<Longrightarrow> 0 \<le> windowMs cfg \<Longrightarrow>
   \<forall>a. rate_inv cfg T (nullish (jsm_get ws a) []) (times a acc) \<Longrightarrow>
   \<exists>T'. \<forall>a. rate_inv cfg T' (nullish (jsm_get (fst (fold (rateStep cfg) ops (ws, acc))) a) []) (times a (snd (fold (rateStep cfg) ops (ws, acc))))"
proof (induction ops arbitrary: ws acc T)
  case (Cons x ops)
  obtain b now where x: "x = (b, now)" by (cases x)
  obtain ws' acc' where st: "rateStep cfg (b, now) (ws, acc) = (ws', acc')" by (cases "rateStep cfg (b, now) (ws, acc)")
  have "\<forall>a. rate_inv cfg now (nullish (jsm_get ws' a) []) (times a acc')"
    by (rule rateStep_inv [OF Cons.prems(4) _ Cons.prems(3) st]) (use Cons.prems(2) x in simp)
  moreover have "sorted (map snd ops)" "\<forall>o1 \<in> set ops. now \<le> snd o1" using Cons.prems(1) x by auto
  ultimately show ?case using Cons.IH [of now ws' acc'] Cons.prems(3) st x by simp
qed auto

section \<open>Nonces are not accepted twice\<close>

definition is_auth :: "AuthResult \<Rightarrow> bool" where
  "is_auth r = (case r of Authenticated _ _ \<Rightarrow> True | _ \<Rightarrow> False)"

lemma is_auth_simps [simp]: "is_auth (Authenticated a n)" "\<not> is_auth Rejected" "\<not> is_auth Unsigned" "\<not> is_auth Threw"
  by (simp_all add: is_auth_def)

lemma log_simps [simp]:
  "nonces (logEvent e a s) = nonces s" "nonces (recordViolation a v s) = nonces s"
  "windows (logEvent e a s) = windows s" "windows (recordViolation a v s) = windows s"
  by (simp_all add: logEvent_def recordViolation_def)

lemma verifyIdentity_nonces:
  "case verifyIdentity cr toNumber cfg h route nowSig nowNonce s of (s', r) \<Rightarrow>
     if is_auth r
     then \<not> skewed nowNonce (toNumber (x_timestamp_ms h)) (maxSkew cfg) \<and> \<not> nonce_exists (x_nonce h) (nonces s) \<and>
          nonces s' = nonce_insert (x_nonce h) (x_agent_id h) (nowNonce + nonceTtl cfg) (nonces s) \<and>
          r = Authenticated (x_agent_id h) (x_nonce h)
     else nonces s' = nonces s"
  by (auto simp: verifyIdentity_def verifyNonce_def nonceCheck_def nonceAccept_def verifySignedRequest_def Let_def
      split: option.splits sum.splits bool.splits)

lemma verifyAgentRequest_nonces:
  assumes "verifyAgentRequest cr toNumber cfg (Some h) route ip now nowSig nowNonce s = (s', r)"
  shows "if is_auth r
     then \<not> skewed nowNonce (toNumber (x_timestamp_ms h)) (maxSkew cfg) \<and> \<not> nonce_exists (x_nonce h) (nonces s) \<and>
          nonces s' = nonce_insert (x_nonce h) (x_agent_id h) (nowNonce + nonceTtl cfg) (nonces s) \<and>
          r = Authenticated (x_agent_id h) (x_nonce h)
     else nonces s' = nonces s"
proof (cases "isLoopback ip")
  case True
  with assms verifyIdentity_nonces [where cr = cr and toNumber = toNumber and cfg = cfg and h = h and route = route and nowSig = nowSig and nowNonce = nowNonce and s = s] show ?thesis
    by (simp add: verifyAgentRequest_def)
next
  case False
  obtain ws ok where rc: "rateCheck (rateCfg cfg) (x_agent_id h) now (windows s) = (ws, ok)"
    by (cases "rateCheck (rateCfg cfg) (x_agent_id h) now (windows s)")
  show ?thesis
  proof (cases ok)
    case True
    with False rc assms verifyIdentity_nonces [where cr = cr and toNumber = toNumber and cfg = cfg and h = h and route = route and nowSig = nowSig and nowNonce = nowNonce and s = "s\<lparr> windows := ws \<rparr>"]
    show ?thesis by (auto simp: verifyAgentRequest_def split: if_splits)
  next
    case no: False
    with False rc assms have "r = Rejected" "nonces s' = nonces s" by (auto simp: verifyAgentRequest_def Let_def)
    then show ?thesis by simp
  qed
qed

lemma nonce_prune_get:
  assumes "jsm_wf m"
  shows "jsm_get (nonce_prune now m) k = (case jsm_get m k of None \<Rightarrow> None | Some e \<Rightarrow> if ne_expiresAtMs e < now then None else Some e)"
proof -
  have "jsm_get (foldl (\<lambda>m (nonce, entry). if ne_expiresAtMs entry < now then jsm_delete nonce m else m) m0 es) k =
      (if \<exists>e. (k, e) \<in> set es \<and> ne_expiresAtMs e < now then None else jsm_get m0 k)" for es m0 :: NonceStore
    by (induction es arbitrary: m0) (auto simp: jsm_get_delete)
  note get = this [of m m, folded nonce_prune_def]
  show ?thesis
  proof (cases "jsm_get m k")
    case None
    with get show ?thesis by simp
  next
    case (Some e)
    then have "(k, e') \<in> set m \<longleftrightarrow> e' = e" for e' using jsm_get_iff [OF assms, of k e'] by auto
    with get Some show ?thesis by simp
  qed
qed

lemma nonce_prune_wf: "jsm_wf m \<Longrightarrow> jsm_wf (nonce_prune now m)"
proof -
  have "jsm_wf m0 \<Longrightarrow> jsm_wf (foldl (\<lambda>m (nonce, entry). if ne_expiresAtMs entry < now then jsm_delete nonce m else m) m0 es)" for es m0 :: NonceStore
    by (induction es arbitrary: m0) auto
  then show "jsm_wf m \<Longrightarrow> jsm_wf (nonce_prune now m)" by (simp add: nonce_prune_def)
qed

text \<open>
  A request up to the point where its nonce has been checked and not yet inserted, and the insertion. The triple is what the
  waiting request will insert: its nonce, its agent and the clock it read.
\<close>

definition beginRequest ::
  "crypto \<Rightarrow> (string \<Rightarrow> int option) \<Rightarrow> AuthConfig \<Rightarrow> SignedHeaders option \<Rightarrow> string \<Rightarrow> string option \<Rightarrow> ms \<Rightarrow> ms \<Rightarrow> ms \<Rightarrow>
   AuthState \<Rightarrow> AuthState \<times> AuthResult" where
  "beginRequest cr toNumber cfg headers route ip now nowSig nowNonce s =
     (case verifyAgentRequest cr toNumber cfg headers route ip now nowSig nowNonce s of (s', r) \<Rightarrow> (s'\<lparr> nonces := nonces s \<rparr>, r))"

type_synonym Waiting = "string \<times> string \<times> ms"

definition finishRequest :: "AuthConfig \<Rightarrow> Waiting \<Rightarrow> AuthState \<Rightarrow> AuthState" where
  "finishRequest cfg w s = (case w of (nonce, agentId, nowNonce) \<Rightarrow>
     s\<lparr> nonces := nonceAccept nonce agentId (Some (nonceTtl cfg)) nowNonce (nonces s) \<rparr>)"

lemma verifyAgentRequest_parts:
  assumes "verifyAgentRequest cr toNumber cfg headers route ip now nowSig nowNonce s = (s', Authenticated a n)"
  shows "s' = finishRequest cfg (n, a, nowNonce) (fst (beginRequest cr toNumber cfg headers route ip now nowSig nowNonce s))"
proof (cases headers)
  case (Some h)
  have "nonces s' = nonce_insert n a (nowNonce + nonceTtl cfg) (nonces s)"
    using verifyAgentRequest_nonces [of cr toNumber cfg h route ip now nowSig nowNonce s s'] assms by (simp add: Some)
  then show ?thesis using assms by (simp add: beginRequest_def finishRequest_def nonceAccept_def nullish_def)
qed (use assms in \<open>simp add: verifyAgentRequest_def\<close>)

lemma beginRequest_nonces:
  assumes "beginRequest cr toNumber cfg (Some h) route ip now nowSig nowNonce s = (s', r)"
  shows "nonces s' = nonces s"
    and "is_auth r \<Longrightarrow> \<not> skewed nowNonce (toNumber (x_timestamp_ms h)) (maxSkew cfg) \<and> \<not> nonce_exists (x_nonce h) (nonces s) \<and>
      r = Authenticated (x_agent_id h) (x_nonce h)"
proof -
  obtain s1 where v: "verifyAgentRequest cr toNumber cfg (Some h) route ip now nowSig nowNonce s = (s1, r)" "s' = s1\<lparr> nonces := nonces s \<rparr>"
    using assms by (auto simp: beginRequest_def split: prod.splits)
  show "nonces s' = nonces s" by (simp add: v(2))
  show "is_auth r \<Longrightarrow> \<not> skewed nowNonce (toNumber (x_timestamp_ms h)) (maxSkew cfg) \<and> \<not> nonce_exists (x_nonce h) (nonces s) \<and>
      r = Authenticated (x_agent_id h) (x_nonce h)" using verifyAgentRequest_nonces [OF v(1)] by simp
qed

text \<open>The state is the guard's with the requests that wait for their insertion.\<close>

datatype auth_op =
    BeginRequest "SignedHeaders option" string "string option" ms ms ms
  | FinishRequest Waiting
  | PruneNonces ms
  | RegisterKey string "string option"

fun op_times :: "auth_op \<Rightarrow> ms list" where
  "op_times (BeginRequest h route ip now nowSig nowNonce) = [nowNonce]"
| "op_times (FinishRequest w) = []"
| "op_times (PruneNonces now) = [now]"
| "op_times (RegisterKey a k) = []"

fun auth_exec :: "crypto \<Rightarrow> (string \<Rightarrow> int option) \<Rightarrow> AuthConfig \<Rightarrow> auth_op \<Rightarrow> AuthState \<times> Waiting list \<Rightarrow> AuthState \<times> Waiting list" where
  "auth_exec cr toNumber cfg (BeginRequest h route ip now nowSig nowNonce) (s, ws) =
     (case beginRequest cr toNumber cfg h route ip now nowSig nowNonce s of
        (s', Authenticated a n) \<Rightarrow> (s', ws @ [(n, a, nowNonce)])
      | (s', _) \<Rightarrow> (s', ws))"
| "auth_exec cr toNumber cfg (FinishRequest w) (s, ws) = (if w \<in> set ws then (finishRequest cfg w s, remove1 w ws) else (s, ws))"
| "auth_exec cr toNumber cfg (PruneNonces now) (s, ws) = (s\<lparr> nonces := nonce_prune now (nonces s) \<rparr>, ws)"
| "auth_exec cr toNumber cfg (RegisterKey a k) (s, ws) = (s\<lparr> publicKeys := jsm_set a k (publicKeys s) \<rparr>, ws)"

lemma begin_exec:
  obtains (pass) h' where "h = Some h'" "\<not> skewed nowNonce (toNumber (x_timestamp_ms h')) (maxSkew cfg)"
      "\<not> nonce_exists (x_nonce h') (nonces s)" "nonces (fst (auth_exec cr toNumber cfg (BeginRequest h route ip now nowSig nowNonce) (s, ws))) = nonces s"
      "snd (auth_exec cr toNumber cfg (BeginRequest h route ip now nowSig nowNonce) (s, ws)) = ws @ [(x_nonce h', x_agent_id h', nowNonce)]"
  | (stop) "nonces (fst (auth_exec cr toNumber cfg (BeginRequest h route ip now nowSig nowNonce) (s, ws))) = nonces s"
      "snd (auth_exec cr toNumber cfg (BeginRequest h route ip now nowSig nowNonce) (s, ws)) = ws"
proof (cases h)
  case None
  then show ?thesis by (intro stop) (simp_all add: beginRequest_def verifyAgentRequest_def)
next
  case (Some h')
  obtain s' r where b: "beginRequest cr toNumber cfg (Some h') route ip now nowSig nowNonce s = (s', r)" by fastforce
  note nb = beginRequest_nonces [OF b]
  show ?thesis
  proof (cases "is_auth r")
    case True
    then show ?thesis using nb Some b by (intro pass [of h']) simp_all
  next
    case False
    then show ?thesis using nb(1) Some b by (intro stop) (cases r; simp)+
  qed
qed

text \<open>The nonce is stored until \<open>E\<close> at least, or a request that will store it so long waits.\<close>

definition held :: "string \<Rightarrow> ms \<Rightarrow> AuthState \<Rightarrow> bool" where
  "held n E s = (\<exists>e. jsm_get (nonces s) n = Some e \<and> E \<le> ne_expiresAtMs e)"

definition guard_inv :: "AuthConfig \<Rightarrow> string \<Rightarrow> ms \<Rightarrow> AuthState \<times> Waiting list \<Rightarrow> bool" where
  "guard_inv cfg n t sw = (jsm_wf (nonces (fst sw)) \<and> (\<forall>(m, a, t') \<in> set (snd sw). m = n \<longrightarrow> t \<le> t'))"

lemma finish_nonces [simp]:
  "nonces (finishRequest cfg (m, a, t) s) = nonce_insert m a (t + nonceTtl cfg) (nonces s)"
  by (simp add: finishRequest_def nonceAccept_def nullish_def)

lemma auth_exec_guard [op_inv]:
  assumes "guard_inv cfg n t sw" "\<forall>x \<in> set (op_times opn). t \<le> x"
  shows "guard_inv cfg n t (auth_exec cr toNumber cfg opn sw)"
proof -
  obtain s ws where sw: "sw = (s, ws)" by fastforce
  show ?thesis
  proof (cases opn)
    case (BeginRequest h route ip now nowSig nowNonce)
    then show ?thesis using assms
      by (cases rule: begin_exec [of h nowNonce toNumber cfg s cr route ip now nowSig ws]) (auto simp: guard_inv_def sw simp del: auth_exec.simps)
  next
    case (FinishRequest w)
    then show ?thesis using assms set_remove1_subset [of w ws] by (cases w) (auto simp: guard_inv_def sw nonce_insert_def)
  qed (use assms in \<open>auto simp: guard_inv_def sw nonce_prune_wf\<close>)
qed

lemma auth_exec_held:
  assumes inv: "guard_inv cfg n t sw" and h: "held n (t + nonceTtl cfg) (fst sw)" and le: "\<forall>x \<in> set (op_times opn). x \<le> t + nonceTtl cfg"
  shows "held n (t + nonceTtl cfg) (fst (auth_exec cr toNumber cfg opn sw))"
proof -
  obtain s ws where sw: "sw = (s, ws)" by fastforce
  obtain e where e: "jsm_get (nonces s) n = Some e" "t + nonceTtl cfg \<le> ne_expiresAtMs e" using h by (auto simp: held_def sw)
  show ?thesis
  proof (cases opn)
    case (BeginRequest h route ip now nowSig nowNonce)
    have "nonces (fst (auth_exec cr toNumber cfg opn (s, ws))) = nonces s"
      unfolding BeginRequest by (cases rule: begin_exec [of h nowNonce toNumber cfg s cr route ip now nowSig ws]) simp_all
    then show ?thesis using e by (simp add: sw held_def)
  next
    case (FinishRequest w)
    then show ?thesis using inv e by (cases w) (auto simp: guard_inv_def sw held_def nonce_insert_def jsm_get_set)
  next
    case (PruneNonces now)
    then show ?thesis using inv e le nonce_prune_get [of "nonces s" now n] by (auto simp: guard_inv_def sw held_def)
  next
    case (RegisterKey a k)
    then show ?thesis using e by (auto simp: sw held_def)
  qed
qed

lemma auth_exec_waits:
  assumes inv: "guard_inv cfg n t sw" and w: "(n, a, t) \<in> set (snd sw) \<or> held n (t + nonceTtl cfg) (fst sw)"
    and le: "\<forall>x \<in> set (op_times opn). x \<le> t + nonceTtl cfg"
  shows "(n, a, t) \<in> set (snd (auth_exec cr toNumber cfg opn sw)) \<or> held n (t + nonceTtl cfg) (fst (auth_exec cr toNumber cfg opn sw))"
proof (cases "held n (t + nonceTtl cfg) (fst sw)")
  case True
  then show ?thesis using auth_exec_held [OF inv _ le] by blast
next
  case False
  with w have w: "(n, a, t) \<in> set (snd sw)" by blast
  obtain s ws where sw: "sw = (s, ws)" by fastforce
  show ?thesis
  proof (cases opn)
    case (BeginRequest h route ip now nowSig nowNonce)
    show ?thesis unfolding BeginRequest sw
      by (cases rule: begin_exec [of h nowNonce toNumber cfg s cr route ip now nowSig ws]) (use w in \<open>simp_all add: sw\<close>)
  next
    case (FinishRequest u)
    show ?thesis
    proof (cases "u = (n, a, t)")
      case True
      then show ?thesis using w by (simp add: FinishRequest sw held_def nonce_insert_def jsm_get_set)
    next
      case False
      then show ?thesis using w by (simp add: FinishRequest sw in_set_remove1)
    qed
  qed (use w in \<open>simp_all add: sw\<close>)
qed

lemma run_guard:
  assumes "guard_inv cfg n t sw" "(n, a, t) \<in> set (snd sw) \<or> held n (t + nonceTtl cfg) (fst sw)"
    and "\<forall>o1 \<in> set ops. \<forall>x \<in> set (op_times o1). t \<le> x \<and> x \<le> t + nonceTtl cfg"
  shows "guard_inv cfg n t (fold (auth_exec cr toNumber cfg) ops sw) \<and>
    ((n, a, t) \<in> set (snd (fold (auth_exec cr toNumber cfg) ops sw)) \<or> held n (t + nonceTtl cfg) (fst (fold (auth_exec cr toNumber cfg) ops sw))) \<and>
    (held n (t + nonceTtl cfg) (fst sw) \<longrightarrow> held n (t + nonceTtl cfg) (fst (fold (auth_exec cr toNumber cfg) ops sw)))"
  using assms
proof (induction ops arbitrary: sw)
  case (Cons opn ops)
  have le: "\<forall>x \<in> set (op_times opn). t \<le> x" "\<forall>x \<in> set (op_times opn). x \<le> t + nonceTtl cfg" using Cons.prems(3) by simp_all
  show ?case
    using Cons.IH [OF auth_exec_guard [OF Cons.prems(1) le(1)] auth_exec_waits [OF Cons.prems(1,2) le(2)]]
      auth_exec_held [OF Cons.prems(1) _ le(2)] Cons.prems(3) by auto
qed simp

section \<open>Properties\<close>

text \<open>
  In every run of the rate limiter with a clock that does not go back, no window of \<open>windowMs\<close>
  milliseconds holds more than \<open>maxRequests\<close> accepted requests of one agent, wherever the window starts
  and however the requests of different agents interleave.
\<close>

theorem rate_limit_bound:
  assumes "0 \<le> windowMs cfg" "sorted (map snd ops)"
  shows "length (filter (\<lambda>(b, x). b = a \<and> t - windowMs cfg \<le> x \<and> x \<le> t) (snd (fold (rateStep cfg) ops ([], [])))) \<le> maxRequests cfg"
proof -
  let ?T = "if ops = [] then 0 else snd (hd ops)"
  have "\<forall>o1 \<in> set ops. ?T \<le> snd o1" using assms(2) by (cases ops) auto
  moreover have "rate_inv cfg ?T [] []" by (auto simp: rate_inv_def window_count_def intro!: exI [of _ "?T - windowMs cfg"])
  then have "\<forall>a. rate_inv cfg ?T (nullish (jsm_get [] a) []) (times a [])" by (simp add: times_def)
  ultimately obtain T' where "rate_inv cfg T' (nullish (jsm_get (fst (fold (rateStep cfg) ops ([], []))) a) [])
      (times a (snd (fold (rateStep cfg) ops ([], []))))"
    using rateRun_inv [OF assms(2) _ assms(1)] by blast
  then have "window_count cfg t (times a (snd (fold (rateStep cfg) ops ([], [])))) \<le> maxRequests cfg"
    unfolding rate_inv_def by blast
  moreover have "window_count cfg t (times a acc) = length (filter (\<lambda>(b, x). b = a \<and> t - windowMs cfg \<le> x \<and> x \<le> t) acc)" for acc
    by (induction acc) (auto simp: window_count_def times_def)
  ultimately show ?thesis by simp
qed

text \<open>
  C21: A signed agent request whose time stamp is a number is not accepted again by a check that starts after its nonce was
  stored. When the nonce lifetime is at least twice the allowed clock skew and the clock does not go back, and no
  other request with the same nonce is waiting when it passes its check, a request that repeats its
  nonce and time stamp is rejected once the insertion has been made, whatever requests (overlapping
  each other and these two), insertions, key registrations and nonce prunings happen in between. Two requests that
  are both checked before either nonce is stored both pass (\<open>overlapping_requests_both_pass\<close>).
\<close>

theorem no_replayed_request:
  assumes "2 * maxSkew cfg \<le> nonceTtl cfg" "jsm_wf (nonces s)" "\<forall>w \<in> set ws. fst w \<noteq> x_nonce h"
    and "snd (beginRequest cr toNumber cfg (Some h) route ip now nowSig nowNonce s) = Authenticated a n"
    and "toNumber (x_timestamp_ms h) = Some T"
    and "x_nonce h' = x_nonce h" "x_timestamp_ms h' = x_timestamp_ms h"
    and "sorted (nowNonce # concat (map op_times (before @ after)) @ [nowNonce'])"
    and "fold (auth_exec cr toNumber cfg) (BeginRequest (Some h) route ip now nowSig nowNonce # before @ FinishRequest (n, a, nowNonce) # after) (s, ws) = (s', ws')"
  shows "\<not> is_auth (snd (beginRequest cr toNumber cfg (Some h') route' ip' now' nowSig' nowNonce' s'))"
proof
  let ?E = "nowNonce + nonceTtl cfg" and ?n = "x_nonce h"
  obtain s1 where b1: "beginRequest cr toNumber cfg (Some h) route ip now nowSig nowNonce s = (s1, Authenticated a n)"
    using assms(4) by (metis prod.collapse)
  have ok1: "\<bar>nowNonce - T\<bar> \<le> maxSkew cfg" "n = ?n" "a = x_agent_id h" "nonces s1 = nonces s"
    using beginRequest_nonces [OF b1] assms(5) by (simp_all add: skewed_def)
  assume "is_auth (snd (beginRequest cr toNumber cfg (Some h') route' ip' now' nowSig' nowNonce' s'))"
  then obtain s2 r2 where b2: "beginRequest cr toNumber cfg (Some h') route' ip' now' nowSig' nowNonce' s' = (s2, r2)" "is_auth r2"
    by (metis prod.collapse)
  have ok2: "\<bar>nowNonce' - T\<bar> \<le> maxSkew cfg" "\<not> nonce_exists ?n (nonces s')"
    using beginRequest_nonces(2) [OF b2] assms(5-7) by (simp_all add: skewed_def)
  have "nowNonce' \<le> ?E" using ok1(1) ok2(1) assms(1) by linarith
  then have times: "nowNonce \<le> x \<and> x \<le> ?E" if "o1 \<in> set before \<union> set after" "x \<in> set (op_times o1)" for o1 x
    using that assms(8) by (force simp: sorted_append)
  let ?sw1 = "(s1, ws @ [(?n, a, nowNonce)])"
  have first: "auth_exec cr toNumber cfg (BeginRequest (Some h) route ip now nowSig nowNonce) (s, ws) = ?sw1"
    using b1 ok1(2) by simp
  have g1: "guard_inv cfg ?n nowNonce ?sw1" using assms(2,3) by (auto simp: guard_inv_def ok1(4))
  have w1: "(?n, a, nowNonce) \<in> set (snd ?sw1) \<or> held ?n ?E (fst ?sw1)" by simp
  let ?sw2 = "fold (auth_exec cr toNumber cfg) before ?sw1"
  have g2: "guard_inv cfg ?n nowNonce ?sw2" "(?n, a, nowNonce) \<in> set (snd ?sw2) \<or> held ?n ?E (fst ?sw2)"
    using run_guard [OF g1 w1, of before cr toNumber] times by auto
  let ?sw3 = "auth_exec cr toNumber cfg (FinishRequest (?n, a, nowNonce)) ?sw2"
  have g3: "guard_inv cfg ?n nowNonce ?sw3" by (rule auth_exec_guard [OF g2(1)]) simp
  have h3: "held ?n ?E (fst ?sw3)"
  proof (cases "(?n, a, nowNonce) \<in> set (snd ?sw2)")
    case True
    then show ?thesis by (cases ?sw2) (simp add: held_def nonce_insert_def jsm_get_set)
  next
    case False
    then have "held ?n ?E (fst ?sw2)" using g2(2) by blast
    then show ?thesis by (rule auth_exec_held [OF g2(1)]) simp
  qed
  have "held ?n ?E (fst (fold (auth_exec cr toNumber cfg) after ?sw3))"
    using run_guard [OF g3 disjI2 [OF h3], of after cr toNumber] times h3 by auto
  moreover have "fold (auth_exec cr toNumber cfg) after ?sw3 = (s', ws')"
    using assms(9) first ok1(2) by (simp del: auth_exec.simps)
  ultimately show False using ok2(2) by (auto simp: held_def nonce_exists_def jsm_has_iff)
qed

text \<open>From the loopback address, where no rate limit applies: the check leaves nothing for a second check to find.\<close>

lemma overlapping_requests_both_pass:
  assumes "isLoopback ip" "beginRequest cr toNumber cfg (Some h) route ip now nowSig nowNonce s = (s', Authenticated a n)"
  shows "snd (beginRequest cr toNumber cfg (Some h) route ip now nowSig nowNonce s') = Authenticated a n"
proof -
  obtain s1 where v: "verifyIdentity cr toNumber cfg h route nowSig nowNonce s = (s1, Authenticated a n)" "s' = s1\<lparr> nonces := nonces s \<rparr>"
    using assms by (auto simp: beginRequest_def verifyAgentRequest_def split: prod.splits)
  have "publicKeys s1 = publicKeys s"
    using v(1) by (auto simp: verifyIdentity_def Let_def split: option.splits sum.splits prod.splits if_splits)
  then have "nonces s' = nonces s" "publicKeys s' = publicKeys s" by (simp_all add: v(2))
  then have "snd (verifyIdentity cr toNumber cfg h route nowSig nowNonce s') = Authenticated a n"
    using v(1) by (auto simp: verifyIdentity_def Let_def split: option.splits sum.splits prod.splits if_splits)
  then show ?thesis using assms(1) by (simp add: beginRequest_def verifyAgentRequest_def case_prod_beta)
qed

text \<open>
  A request signed with \<open>signRequest\<close> is accepted by \<open>verifySignedRequest\<close> under the matching key while the
  clocks agree within the allowed skew, and yields the signer's agent id and nonce; and the signed text
  determines time stamp, nonce, method, path and body hash when the first four contain no line break.
\<close>

theorem signed_request_roundtrip:
  assumes "\<forall>p. ed_verify cr p (ed_sign cr p priv) pub = Some True" "\<forall>p. ed_sign cr p priv \<noteq> []"
    and "toNumber (int_str now) = Some now" "\<bar>later - now\<bar> \<le> maxSkewMs"
    and "uuid \<noteq> []" "bodyHash \<noteq> []" "agentId \<noteq> []"
  shows "verifySignedRequest cr toNumber method path (signRequest cr method path bodyHash priv agentId now uuid) pub maxSkewMs later =
      Some (Inr (agentId, uuid)) \<and>
    (\<forall>t n m p b t' n' m' p' b'. CHR 0x0A \<notin> set t \<union> set n \<union> set m \<union> set p \<union> set t' \<union> set n' \<union> set m' \<union> set p' \<longrightarrow>
       canonicalize t n m p b = canonicalize t' n' m' p' b' \<longrightarrow> (t, n, m, p, b) = (t', n', m', p', b'))"
proof
  show "verifySignedRequest cr toNumber method path (signRequest cr method path bodyHash priv agentId now uuid) pub maxSkewMs later =
      Some (Inr (agentId, uuid))"
    using assms by (simp add: verifySignedRequest_def signRequest_def Let_def skewed_def)
  show "\<forall>t n m p b t' n' m' p' b'. CHR 0x0A \<notin> set t \<union> set n \<union> set m \<union> set p \<union> set t' \<union> set n' \<union> set m' \<union> set p' \<longrightarrow>
       canonicalize t n m p b = canonicalize t' n' m' p' b' \<longrightarrow> (t, n, m, p, b) = (t', n', m', p', b')"
    by (auto simp: canonicalize_def nl_def sep_inj)
qed

text \<open>
  A binary is reported as verified only when its release is cached, the signature over that manifest verifies
  under a trusted key that is active at the time, and the reported tree hash is the manifest's; and then it is.
\<close>

theorem binary_verified_iff:
  "verifyBinaryIntegrity vt trusted payload cached nowMs = Verified \<longleftrightarrow>
     bi_releaseSignature payload \<noteq> [] \<and>
     (\<exists>m. jsm_get cached (bi_releaseVersion payload) = Some m \<and> bi_distHash payload = rm_distTreeHash m \<and>
        (\<exists>k \<in> set trusted. tk_activatedAtMs k \<le> nowMs \<and> (truthy_int (tk_expiresAtMs k) \<longrightarrow> nowMs \<le> the (tk_expiresAtMs k)) \<and>
           vt (manifestJson m) (bi_releaseSignature payload) (tk_publicKeyPem k) = Some True))"
proof (cases "jsm_get cached (bi_releaseVersion payload)")
  case (Some m)
  have act: "keyActive nowMs k \<longleftrightarrow> tk_activatedAtMs k \<le> nowMs \<and> (truthy_int (tk_expiresAtMs k) \<longrightarrow> nowMs \<le> the (tk_expiresAtMs k))" for k
    by (auto simp: keyActive_def)
  show ?thesis
    using Some by (auto simp: verifyBinaryIntegrity_def getActiveReleaseKeys_def Let_def list_ex_iff act filter_empty_conv)
qed (simp add: verifyBinaryIntegrity_def)

section \<open>Witnesses\<close>

definition ex_rate :: RateLimitConfig where
  "ex_rate = \<lparr> maxRequests = 2, windowMs = 10 \<rparr>"

definition ex_checks :: "(string \<times> ms) list" where
  "ex_checks = [(''a'', 1), (''a'', 2), (''b'', 2), (''a'', 3), (''a'', 12), (''a'', 20)]"

theorem rate_limit_bound_witness:
  "length (filter (\<lambda>(b, x). b = ''a'' \<and> 12 - 10 \<le> x \<and> x \<le> 12) (snd (fold (rateStep ex_rate) ex_checks ([], [])))) \<le> 2 \<and>
   snd (fold (rateStep ex_rate) ex_checks ([], [])) = [(''a'', 1), (''a'', 2), (''b'', 2), (''a'', 12), (''a'', 20)]"
proof -
  have "snd (fold (rateStep ex_rate) ex_checks ([], [])) = [(''a'', 1), (''a'', 2), (''b'', 2), (''a'', 12), (''a'', 20)]"
    by code_simp
  then show ?thesis using rate_limit_bound [of ex_rate ex_checks "''a''" 12] by (simp add: ex_rate_def ex_checks_def)
qed

definition ex_number :: "string \<Rightarrow> int option" where
  "ex_number s = (if s = ''1000'' then Some 1000 else None)"

definition ex_auth :: AuthConfig where
  "ex_auth = \<lparr> rateCfg = ex_rate, maxSkew = 120, nonceTtl = 300 \<rparr>"

definition ex_auth_state :: AuthState where
  "ex_auth_state = \<lparr> windows = [], nonces = [], publicKeys = [(''ag'', Some ''k'')], securityLog = [], violations = [] \<rparr>"

definition ex_headers :: SignedHeaders where
  "ex_headers = signRequest ex_crypto ''POST'' ''/pull'' ''b'' ''k'' ''ag'' 1000 ''n1''"

definition ex_replay_run :: "AuthState \<times> Waiting list" where
  "ex_replay_run = fold (auth_exec ex_crypto ex_number ex_auth)
     (BeginRequest (Some ex_headers) ''/pull'' None 1010 1010 1010 # [] @ FinishRequest (''n1'', ''ag'', 1010) # [PruneNonces 1020]) (ex_auth_state, [])"

theorem no_replayed_request_witness:
  "snd (beginRequest ex_crypto ex_number ex_auth (Some ex_headers) ''/pull'' None 1010 1010 1010 ex_auth_state) = Authenticated ''ag'' ''n1'' \<and>
     \<not> is_auth (snd (beginRequest ex_crypto ex_number ex_auth (Some ex_headers) ''/pull'' None 1030 1030 1030 (fst ex_replay_run)))"
proof -
  have b: "snd (beginRequest ex_crypto ex_number ex_auth (Some ex_headers) ''/pull'' None 1010 1010 1010 ex_auth_state) = Authenticated ''ag'' ''n1''"
    by code_simp
  have ts: "x_timestamp_ms ex_headers = ''1000''" by code_simp
  have run: "fold (auth_exec ex_crypto ex_number ex_auth)
     (BeginRequest (Some ex_headers) ''/pull'' None 1010 1010 1010 # [] @ FinishRequest (''n1'', ''ag'', 1010) # [PruneNonces 1020]) (ex_auth_state, []) =
     (fst ex_replay_run, snd ex_replay_run)" by (simp add: ex_replay_run_def)
  have "\<not> is_auth (snd (beginRequest ex_crypto ex_number ex_auth (Some ex_headers) ''/pull'' None 1030 1030 1030 (fst ex_replay_run)))"
    by (rule no_replayed_request [OF _ _ _ b _ _ _ _ run, where T = 1000]) (simp_all add: ex_auth_def ex_auth_state_def ts ex_number_def)
  with b show ?thesis by blast
qed

theorem signed_request_roundtrip_witness:
  "verifySignedRequest ex_crypto ex_number ''POST'' ''/pull'' ex_headers ''k'' 120 1100 = Some (Inr (''ag'', ''n1''))"
proof -
  have "int_str 1000 = ''1000''" by code_simp
  then have "ex_number (int_str 1000) = Some 1000" by (simp add: ex_number_def)
  with signed_request_roundtrip [of ex_crypto "''k''" "''k''" ex_number 1000 1100 120 "''n1''" "''b''" "''ag''" "''POST''" "''/pull''"]
  show ?thesis by (simp add: ex_crypto_def ex_headers_def)
qed

definition ex_release :: ReleaseManifest where
  "ex_release = \<lparr> rm_version = ''1'', rm_artifacts = [], rm_distTreeHash = ''h'', rm_timestamp = ''t'' \<rparr>"

theorem binary_verified_iff_witness:
  "verifyBinaryIntegrity (\<lambda>_ _ _. Some True) [\<lparr> tk_publicKeyPem = ''k'', tk_activatedAtMs = 1, tk_expiresAtMs = Some 9 \<rparr>]
     \<lparr> bi_distHash = ''h'', bi_releaseVersion = ''1'', bi_releaseSignature = ''s'' \<rparr> [(''1'', ex_release)] 5 = Verified \<and>
   verifyBinaryIntegrity (\<lambda>_ _ _. Some True) TRUSTED_RELEASE_KEYS
     \<lparr> bi_distHash = ''h'', bi_releaseVersion = ''1'', bi_releaseSignature = ''s'' \<rparr> [(''1'', ex_release)] 5 \<noteq> Verified"
  by (simp add: binary_verified_iff TRUSTED_RELEASE_KEYS_def jsm_get_def ex_release_def)

end
