(* ===== verification/Behavior.thy ===== *)
theory Behavior
  imports SecurityGuards
begin

text \<open>
  Behavioural monitoring of agents: the sliding-window statistics of
  \<open>src/src/security/behavior-tracker.ts\<close>, the ten rules of \<open>anomaly-detector.ts\<close>, the strike counter of
  \<open>auto-blacklister.ts\<close> and the coordinator's \<open>evaluateAndEnforce\<close>. Averages and ratios are binary64
  (\<open>JsNumber\<close>); \<open>Math.sqrt\<close>, SHA-256 and the JSON text of a list of anomalies are arguments.
\<close>

section \<open>Statistics\<close>

record TaskEvent =
  te_timestampMs :: ms
  te_ok :: bool
  te_outputHash :: string
  te_outputLength :: nat
  te_durationMs :: int

record BehaviorEntry =
  b_tasks :: "TaskEvent list"
  b_protocolEvents :: "(ms \<times> Violation) list"
  b_registrations :: "ms list"
  b_taskClaims :: "ms list"
  b_heartbeats :: "ms list"
  b_requeueCount :: nat
  b_concurrentClaimCount :: nat

record AgentBehaviorStats =
  totalTasks :: nat
  successCount :: nat
  successRate :: num
  emptyOutputCount :: nat
  identicalOutputCount :: nat
  recentOutputHashes :: "string list"
  avgOutputLength :: num
  avgDurationMs :: num
  minDurationMs :: int
  durationStdDev :: num
  suspiciouslyFastCount :: nat
  signatureFailureCount :: nat
  replayAttemptCount :: nat
  rateLimitHitCount :: nat
  registrationCount :: nat
  taskClaimCount :: nat
  taskClaimRate :: num
  requeueCount :: nat
  concurrentClaimCount :: nat
  heartbeatGapMaxMs :: int
  windowStartMs :: ms
  windowEndMs :: ms

type_synonym BehaviorAgents = "(string, BehaviorEntry) jsmap"

definition emptyEntry :: BehaviorEntry where
  "emptyEntry = \<lparr> b_tasks = [], b_protocolEvents = [], b_registrations = [], b_taskClaims = [], b_heartbeats = [],
     b_requeueCount = 0, b_concurrentClaimCount = 0 \<rparr>"

text \<open>\<open>getOrCreate\<close> followed by writes to the entry.\<close>

definition withEntry :: "string \<Rightarrow> (BehaviorEntry \<Rightarrow> BehaviorEntry) \<Rightarrow> BehaviorAgents \<Rightarrow> BehaviorAgents" where
  "withEntry agentId f agents = jsm_set agentId (f (nullish (jsm_get agents agentId) emptyEntry)) agents"

definition pruneWindow :: "int \<Rightarrow> ('e \<Rightarrow> ms) \<Rightarrow> ms \<Rightarrow> 'e list \<Rightarrow> 'e list" where
  "pruneWindow win ts now events = filter (\<lambda>e. ts e \<ge> now - win) events"

definition hashOutput :: "crypto \<Rightarrow> string \<Rightarrow> string" where
  "hashOutput cr outp = take 16 (sha256_hex cr outp)"

definition recordTaskResult :: "crypto \<Rightarrow> int \<Rightarrow> string \<Rightarrow> bool \<Rightarrow> string \<Rightarrow> int \<Rightarrow> ms \<Rightarrow> BehaviorAgents \<Rightarrow> BehaviorAgents" where
  "recordTaskResult cr win agentId ok outp durationMs nowMs =
     withEntry agentId (\<lambda>e. e\<lparr> b_tasks := pruneWindow win te_timestampMs nowMs (b_tasks e) @
       [\<lparr> te_timestampMs = nowMs, te_ok = ok, te_outputHash = hashOutput cr outp, te_outputLength = length outp, te_durationMs = durationMs \<rparr>] \<rparr>)"

definition recordHeartbeat :: "int \<Rightarrow> string \<Rightarrow> ms \<Rightarrow> BehaviorAgents \<Rightarrow> BehaviorAgents" where
  "recordHeartbeat win agentId nowMs =
     withEntry agentId (\<lambda>e. e\<lparr> b_heartbeats := pruneWindow win id nowMs (b_heartbeats e) @ [nowMs] \<rparr>)"

definition recordRegistration :: "int \<Rightarrow> string \<Rightarrow> ms \<Rightarrow> BehaviorAgents \<Rightarrow> BehaviorAgents" where
  "recordRegistration win agentId nowMs =
     withEntry agentId (\<lambda>e. e\<lparr> b_registrations := pruneWindow win id nowMs (b_registrations e) @ [nowMs] \<rparr>)"

definition recordProtocolViolation :: "int \<Rightarrow> string \<Rightarrow> Violation \<Rightarrow> ms \<Rightarrow> BehaviorAgents \<Rightarrow> BehaviorAgents" where
  "recordProtocolViolation win agentId reason nowMs =
     withEntry agentId (\<lambda>e. e\<lparr> b_protocolEvents := pruneWindow win fst nowMs (b_protocolEvents e) @ [(nowMs, reason)] \<rparr>)"

definition recordTaskClaim :: "int \<Rightarrow> string \<Rightarrow> ms \<Rightarrow> BehaviorAgents \<Rightarrow> BehaviorAgents" where
  "recordTaskClaim win agentId nowMs =
     withEntry agentId (\<lambda>e. e\<lparr> b_taskClaims := pruneWindow win id nowMs (b_taskClaims e) @ [nowMs] \<rparr>)"

definition recordRequeue :: "string \<Rightarrow> BehaviorAgents \<Rightarrow> BehaviorAgents" where
  "recordRequeue agentId = withEntry agentId (\<lambda>e. e\<lparr> b_requeueCount := b_requeueCount e + 1 \<rparr>)"

definition setConcurrentClaimCount :: "string \<Rightarrow> nat \<Rightarrow> BehaviorAgents \<Rightarrow> BehaviorAgents" where
  "setConcurrentClaimCount agentId count = withEntry agentId (\<lambda>e. e\<lparr> b_concurrentClaimCount := count \<rparr>)"

text \<open>The loop over neighbours: the current run, and the longest run of at least two seen so far.\<close>

fun runLoop :: "string \<Rightarrow> nat \<Rightarrow> nat \<Rightarrow> string list \<Rightarrow> nat" where
  "runLoop prev run best [] = best"
| "runLoop prev run best (h # hs) =
     (if h = prev then runLoop h (run + 1) (max best (run + 1)) hs else runLoop h 1 best hs)"

definition identicalRun :: "string list \<Rightarrow> nat" where
  "identicalRun hashes = (case hashes of h # h' # hs \<Rightarrow> runLoop h 1 0 (h' # hs) | _ \<Rightarrow> 0)"

definition num_sum :: "num list \<Rightarrow> num" where
  "num_sum xs = foldl n_add 0 xs"

text \<open>\<open>(v - mean) ** 2\<close> is the rounded product of the rounded difference with itself.\<close>

definition computeStdDev :: "(num \<Rightarrow> num) \<Rightarrow> num list \<Rightarrow> num \<Rightarrow> num" where
  "computeStdDev sqrt_fn vals mean =
     (if length vals < 2 then 0
      else sqrt_fn (n_div (foldl (\<lambda>s v. n_add s (n_mul (n_sub v mean) (n_sub v mean))) 0 vals) (of_nat (length vals))))"

fun gapLoop :: "int \<Rightarrow> ms list \<Rightarrow> int" where
  "gapLoop best (a # b # ts) = gapLoop (max best (b - a)) (b # ts)"
| "gapLoop best _ = best"

definition statsOf :: "(num \<Rightarrow> num) \<Rightarrow> int \<Rightarrow> ms \<Rightarrow> BehaviorEntry \<Rightarrow> AgentBehaviorStats" where
  "statsOf sqrt_fn win nowMs e =
     (let ts = b_tasks e; total = length ts; durations = map te_durationMs ts;
          successes = length (filter te_ok ts);
          avgDur = (if ts \<noteq> [] then n_div (num_sum (map of_int durations)) (of_nat total) else 0);
          winSec = n_div (of_int win) 1000
      in \<lparr> totalTasks = total, successCount = successes,
           successRate = (if total > 0 then n_div (of_nat successes) (of_nat total) else 1),
           emptyOutputCount = length (filter (\<lambda>t. te_outputLength t = 0) ts),
           identicalOutputCount = identicalRun (map te_outputHash ts),
           recentOutputHashes = map te_outputHash (slice_last 20 ts),
           avgOutputLength = (if total > 0 then n_div (num_sum (map (of_nat \<circ> te_outputLength) ts)) (of_nat total) else 0),
           avgDurationMs = avgDur,
           minDurationMs = (if ts \<noteq> [] then Min (set durations) else 0),
           durationStdDev = computeStdDev sqrt_fn (map of_int durations) avgDur,
           suspiciouslyFastCount = length (filter (\<lambda>t. te_durationMs t < 500) ts),
           signatureFailureCount = length (filter (\<lambda>(_, v). v = Signature_failure) (b_protocolEvents e)),
           replayAttemptCount = length (filter (\<lambda>(_, v). v = Replay_violation) (b_protocolEvents e)),
           rateLimitHitCount = length (filter (\<lambda>(_, v). v = Rate_limit_hit) (b_protocolEvents e)),
           registrationCount = length (b_registrations e),
           taskClaimCount = length (b_taskClaims e),
           taskClaimRate = (if winSec > 0 then n_div (of_nat (length (b_taskClaims e))) winSec else 0),
           requeueCount = b_requeueCount e, concurrentClaimCount = b_concurrentClaimCount e,
           heartbeatGapMaxMs = gapLoop 0 (sort (b_heartbeats e)),
           windowStartMs = nowMs - win, windowEndMs = nowMs \<rparr>)"

definition pruneEntry :: "int \<Rightarrow> ms \<Rightarrow> BehaviorEntry \<Rightarrow> BehaviorEntry" where
  "pruneEntry win nowMs e =
     e\<lparr> b_tasks := pruneWindow win te_timestampMs nowMs (b_tasks e),
        b_protocolEvents := pruneWindow win fst nowMs (b_protocolEvents e),
        b_registrations := pruneWindow win id nowMs (b_registrations e),
        b_taskClaims := pruneWindow win id nowMs (b_taskClaims e),
        b_heartbeats := pruneWindow win id nowMs (b_heartbeats e) \<rparr>"

definition getStats :: "(num \<Rightarrow> num) \<Rightarrow> int \<Rightarrow> string \<Rightarrow> ms \<Rightarrow> BehaviorAgents \<Rightarrow> BehaviorAgents \<times> AgentBehaviorStats option" where
  "getStats sqrt_fn win agentId nowMs agents =
     (case jsm_get agents agentId of
        None \<Rightarrow> (agents, None)
      | Some e \<Rightarrow> (let e' = pruneEntry win nowMs e in (jsm_set agentId e' agents, Some (statsOf sqrt_fn win nowMs e'))))"

section \<open>Rules\<close>

record AnomalyEvent =
  ruleId :: string
  ruleName :: string
  an_severity :: SecurityLevel
  blacklistReason :: BlacklistReasonCode
  description :: string
  an_stats :: "(string \<times> num) list"

record AnomalyConfig =
  suspiciouslyFastMinCount :: nat
  suspiciouslyFastAvgThresholdMs :: num
  massEmptyMinCount :: nat
  massEmptyRatioThreshold :: num
  duplicateForgeryConsecutiveMin :: nat
  successCollapseMinTasks :: nat
  successCollapseRateThreshold :: num
  protocolAbuseThreshold :: nat
  heartbeatGapThresholdMs :: int
  taskHoardingConcurrentMultiplier :: nat
  taskHoardingRequeueThreshold :: nat
  taskHoardingMaxConcurrent :: nat
  registrationStormThreshold :: nat
  registrationStormWindowMs :: int
  robotPrecisionStdDevThreshold :: num
  robotPrecisionMinTasks :: nat
  tinyOutputAvgLengthThreshold :: num
  tinyOutputMinTasks :: nat
  tinyOutputMinSuccessRate :: num

definition DEFAULT_ANOMALY_CONFIG :: AnomalyConfig where
  "DEFAULT_ANOMALY_CONFIG = \<lparr> suspiciouslyFastMinCount = 3, suspiciouslyFastAvgThresholdMs = 1000,
     massEmptyMinCount = 5, massEmptyRatioThreshold = fl (6 / 10), duplicateForgeryConsecutiveMin = 3,
     successCollapseMinTasks = 10, successCollapseRateThreshold = fl (15 / 100), protocolAbuseThreshold = 5,
     heartbeatGapThresholdMs = 5 * 60 * 1000, taskHoardingConcurrentMultiplier = 2,
     taskHoardingRequeueThreshold = 8, taskHoardingMaxConcurrent = 1, registrationStormThreshold = 10,
     registrationStormWindowMs = 10 * 60 * 1000, robotPrecisionStdDevThreshold = 50, robotPrecisionMinTasks = 10,
     tinyOutputAvgLengthThreshold = 10, tinyOutputMinTasks = 5, tinyOutputMinSuccessRate = fl (8 / 10) \<rparr>"

text \<open>The text \<open>x.toFixed(d)\<close> of a non-negative number, for no or one decimal.\<close>

definition fixed_text :: "nat \<Rightarrow> num \<Rightarrow> string" where
  "fixed_text d x = (let n = nat \<lfloor>x * 10 ^ d + 1 / 2\<rfloor> in
     if d = 0 then nat_str n else nat_str (n div 10 ^ d) @ ''.'' @ nat_str (n mod 10 ^ d))"

type_synonym AnomalyRule = "AgentBehaviorStats \<Rightarrow> AnomalyConfig \<Rightarrow> AnomalyEvent option"

definition anomaly :: "string \<Rightarrow> string \<Rightarrow> SecurityLevel \<Rightarrow> BlacklistReasonCode \<Rightarrow> string \<Rightarrow> (string \<times> num) list \<Rightarrow> AnomalyEvent" where
  "anomaly i name sev reason descr st = \<lparr> ruleId = i, ruleName = name, an_severity = sev, blacklistReason = reason,
     description = descr, an_stats = st \<rparr>"

definition bhv001SuspiciouslyFast :: AnomalyRule where
  "bhv001SuspiciouslyFast stats config =
     (if suspiciouslyFastCount stats \<ge> suspiciouslyFastMinCount config \<and> avgDurationMs stats < suspiciouslyFastAvgThresholdMs config
      then Some (anomaly ''BHV001'' ''Suspiciously fast'' CRITICAL Forged_results
        (nat_str (suspiciouslyFastCount stats) @ '' tasks completed in <500ms with avg '' @ int_str (math_round (avgDurationMs stats)) @ ''ms'')
        [(''suspiciouslyFastCount'', of_nat (suspiciouslyFastCount stats)), (''avgDurationMs'', avgDurationMs stats)])
      else None)"

definition bhv002MassEmptyOutputs :: AnomalyRule where
  "bhv002MassEmptyOutputs stats config =
     (if totalTasks stats = 0 then None
      else (let emptyRatio = n_div (of_nat (emptyOutputCount stats)) (of_nat (totalTasks stats)) in
        if emptyOutputCount stats \<ge> massEmptyMinCount config \<and> emptyRatio > massEmptyRatioThreshold config
        then Some (anomaly ''BHV002'' ''Mass empty outputs'' HIGH Forged_results
          (nat_str (emptyOutputCount stats) @ ''/'' @ nat_str (totalTasks stats) @ '' tasks returned empty output ('' @
           fixed_text 0 (n_mul emptyRatio 100) @ ''%)'')
          [(''emptyOutputCount'', of_nat (emptyOutputCount stats)), (''totalTasks'', of_nat (totalTasks stats)), (''emptyRatio'', emptyRatio)])
        else None))"

definition bhv003DuplicateForgery :: AnomalyRule where
  "bhv003DuplicateForgery stats config =
     (if identicalOutputCount stats \<ge> duplicateForgeryConsecutiveMin config
      then Some (anomaly ''BHV003'' ''Duplicate forgery'' CRITICAL Forged_results
        (nat_str (identicalOutputCount stats) @ '' consecutive identical output hashes'')
        [(''identicalOutputCount'', of_nat (identicalOutputCount stats))])
      else None)"

definition bhv004SuccessCollapse :: AnomalyRule where
  "bhv004SuccessCollapse stats config =
     (if totalTasks stats \<ge> successCollapseMinTasks config \<and> successRate stats < successCollapseRateThreshold config
      then Some (anomaly ''BHV004'' ''Success collapse'' HIGH Policy_violation
        (''Success rate '' @ fixed_text 0 (n_mul (successRate stats) 100) @ ''% over '' @ nat_str (totalTasks stats) @ '' tasks'')
        [(''successRate'', successRate stats), (''totalTasks'', of_nat (totalTasks stats))])
      else None)"

definition bhv005ProtocolAbuse :: AnomalyRule where
  "bhv005ProtocolAbuse stats config =
     (let total = signatureFailureCount stats + replayAttemptCount stats in
      if total \<ge> protocolAbuseThreshold config
      then Some (anomaly ''BHV005'' ''Protocol abuse'' CRITICAL Credential_abuse
        (nat_str total @ '' protocol violations ('' @ nat_str (signatureFailureCount stats) @ '' sig failures, '' @
         nat_str (replayAttemptCount stats) @ '' replay attempts)'')
        [(''signatureFailureCount'', of_nat (signatureFailureCount stats)), (''replayAttemptCount'', of_nat (replayAttemptCount stats))])
      else None)"

definition bhv006HeartbeatManipulation :: AnomalyRule where
  "bhv006HeartbeatManipulation stats config =
     (if heartbeatGapMaxMs stats > heartbeatGapThresholdMs config \<and> taskClaimCount stats > 0
      then Some (anomaly ''BHV006'' ''Heartbeat manipulation'' HIGH Dos_behavior
        (''Max heartbeat gap '' @ int_str (math_round (n_div (of_int (heartbeatGapMaxMs stats)) 1000)) @ ''s while still claiming tasks'')
        [(''heartbeatGapMaxMs'', of_int (heartbeatGapMaxMs stats)), (''taskClaimCount'', of_nat (taskClaimCount stats))])
      else None)"

definition bhv007TaskHoarding :: AnomalyRule where
  "bhv007TaskHoarding stats config =
     (let concurrentThreshold = taskHoardingConcurrentMultiplier config * taskHoardingMaxConcurrent config in
      if concurrentClaimCount stats > concurrentThreshold \<or> requeueCount stats \<ge> taskHoardingRequeueThreshold config
      then Some (anomaly ''BHV007'' ''Task hoarding'' HIGH Dos_behavior
        (''Concurrent claims: '' @ nat_str (concurrentClaimCount stats) @ '' (limit: '' @ nat_str concurrentThreshold @
         ''), requeues: '' @ nat_str (requeueCount stats))
        [(''concurrentClaimCount'', of_nat (concurrentClaimCount stats)), (''requeueCount'', of_nat (requeueCount stats))])
      else None)"

definition bhv008RegistrationStorm :: AnomalyRule where
  "bhv008RegistrationStorm stats config =
     (if registrationCount stats \<ge> registrationStormThreshold config
      then Some (anomaly ''BHV008'' ''Registration storm'' HIGH Dos_behavior
        (nat_str (registrationCount stats) @ '' registrations in window'')
        [(''registrationCount'', of_nat (registrationCount stats))])
      else None)"

definition bhv009RobotPrecision :: AnomalyRule where
  "bhv009RobotPrecision stats config =
     (if durationStdDev stats < robotPrecisionStdDevThreshold config \<and> totalTasks stats \<ge> robotPrecisionMinTasks config
      then Some (anomaly ''BHV009'' ''Robot precision'' WARN Forged_results
        (''Duration stddev '' @ fixed_text 1 (durationStdDev stats) @ ''ms over '' @ nat_str (totalTasks stats) @ '' tasks (unnaturally consistent)'')
        [(''durationStdDev'', durationStdDev stats), (''totalTasks'', of_nat (totalTasks stats))])
      else None)"

definition bhv010TinyOutputs :: AnomalyRule where
  "bhv010TinyOutputs stats config =
     (if avgOutputLength stats < tinyOutputAvgLengthThreshold config \<and> totalTasks stats \<ge> tinyOutputMinTasks config \<and>
         successRate stats > tinyOutputMinSuccessRate config
      then Some (anomaly ''BHV010'' ''Tiny outputs'' WARN Forged_results
        (''Avg output length '' @ fixed_text 1 (avgOutputLength stats) @ '' over '' @ nat_str (totalTasks stats) @ '' '' @ [dquote] @ ''successful'' @ [dquote] @ '' tasks'')
        [(''avgOutputLength'', avgOutputLength stats), (''totalTasks'', of_nat (totalTasks stats)), (''successRate'', successRate stats)])
      else None)"

definition ALL_RULES :: "AnomalyRule list" where
  "ALL_RULES = [bhv001SuspiciouslyFast, bhv002MassEmptyOutputs, bhv003DuplicateForgery, bhv004SuccessCollapse,
     bhv005ProtocolAbuse, bhv006HeartbeatManipulation, bhv007TaskHoarding, bhv008RegistrationStorm,
     bhv009RobotPrecision, bhv010TinyOutputs]"

definition evaluate :: "AnomalyConfig \<Rightarrow> AgentBehaviorStats \<Rightarrow> AnomalyEvent list" where
  "evaluate config stats = List.map_filter (\<lambda>rule. rule stats config) ALL_RULES"

section \<open>Strikes\<close>

record BlacklistAction =
  ba_agentId :: string
  ba_reasonCode :: BlacklistReasonCode
  ba_reason :: string
  ba_evidenceHashSha256 :: string
  ba_anomalyEvents :: "AnomalyEvent list"

record AutoBlacklister =
  strikeWindowMs :: int
  strikeThreshold :: nat
  strikes :: "(string, (ms \<times> AnomalyEvent) list) jsmap"
  blacklisted :: "BlacklistAction list"

text \<open>The index in \<open>["CRITICAL", "HIGH", "WARN", "INFO"]\<close>. The reason text contains a dash in UTF-8.\<close>

definition severityIndex :: "SecurityLevel \<Rightarrow> nat" where
  "severityIndex l = 3 - level_rank l"

definition buildBlacklistAction :: "crypto \<Rightarrow> (AnomalyEvent list \<Rightarrow> string) \<Rightarrow> string \<Rightarrow> AnomalyEvent list \<Rightarrow> BlacklistAction" where
  "buildBlacklistAction cr stringify agentId anomalies =
     (let primary = hd (sort_key (severityIndex \<circ> an_severity) anomalies) in
      \<lparr> ba_agentId = agentId, ba_reasonCode = blacklistReason primary,
        ba_reason = ''Auto-blacklisted by behavioral monitoring: '' @ join '', '' (map ruleId anomalies) @ '' '' @
          [CHR 0xE2, CHR 0x80, CHR 0x94] @ '' '' @ description primary,
        ba_evidenceHashSha256 = sha256_hex cr (stringify anomalies), ba_anomalyEvents = anomalies \<rparr>)"

definition processAnomalies ::
  "crypto \<Rightarrow> (AnomalyEvent list \<Rightarrow> string) \<Rightarrow> string \<Rightarrow> AnomalyEvent list \<Rightarrow> ms \<Rightarrow> AutoBlacklister \<Rightarrow> AutoBlacklister \<times> BlacklistAction option" where
  "processAnomalies cr stringify agentId anomalies nowMs b =
     (if anomalies = [] then (b, None)
      else if list_ex (\<lambda>a. an_severity a = CRITICAL) anomalies
      then (let action = buildBlacklistAction cr stringify agentId anomalies
            in (b\<lparr> blacklisted := blacklisted b @ [action] \<rparr>, Some action))
      else (let kept = filter (\<lambda>s. fst s \<ge> nowMs - strikeWindowMs b) (nullish (jsm_get (strikes b) agentId) []);
                agentStrikes = kept @ map (\<lambda>a. (nowMs, a)) anomalies
            in if length agentStrikes \<ge> strikeThreshold b
               then (let action = buildBlacklistAction cr stringify agentId (map snd agentStrikes)
                     in (b\<lparr> strikes := jsm_delete agentId (jsm_set agentId agentStrikes (strikes b)),
                            blacklisted := blacklisted b @ [action] \<rparr>, Some action))
               else (b\<lparr> strikes := jsm_set agentId agentStrikes (strikes b) \<rparr>, None)))"

definition getStrikeCount :: "string \<Rightarrow> ms \<Rightarrow> AutoBlacklister \<Rightarrow> nat" where
  "getStrikeCount agentId nowMs b =
     (case jsm_get (strikes b) agentId of
        None \<Rightarrow> 0
      | Some ss \<Rightarrow> length (filter (\<lambda>s. fst s \<ge> nowMs - strikeWindowMs b) ss))"

text \<open>The coordinator's check after each report; the log entry of an anomaly is its rule and level.\<close>

definition evaluateAndEnforce ::
  "crypto \<Rightarrow> (AnomalyEvent list \<Rightarrow> string) \<Rightarrow> (num \<Rightarrow> num) \<Rightarrow> int \<Rightarrow> AnomalyConfig \<Rightarrow> string \<Rightarrow> ms \<Rightarrow> ms \<Rightarrow>
   BehaviorAgents \<times> (string \<times> SecurityLevel) list \<times> AutoBlacklister \<Rightarrow> BehaviorAgents \<times> (string \<times> SecurityLevel) list \<times> AutoBlacklister" where
  "evaluateAndEnforce cr stringify sqrt_fn win config agentId nowStats nowStrike = (\<lambda>(agents, log, bl).
     (case getStats sqrt_fn win agentId nowStats agents of
        (agents', None) \<Rightarrow> (agents', log, bl)
      | (agents', Some stats) \<Rightarrow>
          (let anomalies = evaluate config stats in
           if anomalies \<noteq> []
           then (agents', log @ map (\<lambda>a. (ruleId a, an_severity a)) anomalies,
                 fst (processAnomalies cr stringify agentId anomalies nowStrike bl))
           else (agents', log, bl))))"


section \<open>The tracker refines an unpruned log\<close>

text \<open>The calls the coordinator makes on the tracker.\<close>

datatype TrackOp =
    OpTask string bool string int ms
  | OpHeartbeat string ms
  | OpRegistration string ms
  | OpProtocol string Violation ms
  | OpClaim string ms
  | OpRequeue string
  | OpConcurrent string nat
  | OpStats string ms

fun track :: "crypto \<Rightarrow> (num \<Rightarrow> num) \<Rightarrow> int \<Rightarrow> TrackOp \<Rightarrow> BehaviorAgents \<Rightarrow> BehaviorAgents" where
  "track cr sqrt_fn win (OpTask a ok outp d t) m = recordTaskResult cr win a ok outp d t m"
| "track cr sqrt_fn win (OpHeartbeat a t) m = recordHeartbeat win a t m"
| "track cr sqrt_fn win (OpRegistration a t) m = recordRegistration win a t m"
| "track cr sqrt_fn win (OpProtocol a v t) m = recordProtocolViolation win a v t m"
| "track cr sqrt_fn win (OpClaim a t) m = recordTaskClaim win a t m"
| "track cr sqrt_fn win (OpRequeue a) m = recordRequeue a m"
| "track cr sqrt_fn win (OpConcurrent a n) m = setConcurrentClaimCount a n m"
| "track cr sqrt_fn win (OpStats a t) m = fst (getStats sqrt_fn win a t m)"

text \<open>The specification: one agent's entry with every event ever recorded, and the moment of each call.\<close>

fun logged :: "crypto \<Rightarrow> string \<Rightarrow> TrackOp \<Rightarrow> BehaviorEntry \<Rightarrow> BehaviorEntry" where
  "logged cr x (OpTask a ok outp d t) e = (if a = x then e\<lparr> b_tasks := b_tasks e @
     [\<lparr> te_timestampMs = t, te_ok = ok, te_outputHash = hashOutput cr outp, te_outputLength = length outp, te_durationMs = d \<rparr>] \<rparr> else e)"
| "logged cr x (OpHeartbeat a t) e = (if a = x then e\<lparr> b_heartbeats := b_heartbeats e @ [t] \<rparr> else e)"
| "logged cr x (OpRegistration a t) e = (if a = x then e\<lparr> b_registrations := b_registrations e @ [t] \<rparr> else e)"
| "logged cr x (OpProtocol a v t) e = (if a = x then e\<lparr> b_protocolEvents := b_protocolEvents e @ [(t, v)] \<rparr> else e)"
| "logged cr x (OpClaim a t) e = (if a = x then e\<lparr> b_taskClaims := b_taskClaims e @ [t] \<rparr> else e)"
| "logged cr x (OpRequeue a) e = (if a = x then e\<lparr> b_requeueCount := b_requeueCount e + 1 \<rparr> else e)"
| "logged cr x (OpConcurrent a n) e = (if a = x then e\<lparr> b_concurrentClaimCount := n \<rparr> else e)"
| "logged cr x (OpStats a t) e = e"

fun op_time :: "TrackOp \<Rightarrow> ms option" where
  "op_time (OpTask a ok outp d t) = Some t"
| "op_time (OpHeartbeat a t) = Some t"
| "op_time (OpRegistration a t) = Some t"
| "op_time (OpProtocol a v t) = Some t"
| "op_time (OpClaim a t) = Some t"
| "op_time (OpStats a t) = Some t"
| "op_time _ = None"

fun records :: "string \<Rightarrow> TrackOp \<Rightarrow> bool" where
  "records x (OpStats a t) = False"
| "records x (OpTask a ok outp d t) = (a = x)"
| "records x (OpHeartbeat a t) = (a = x)"
| "records x (OpRegistration a t) = (a = x)"
| "records x (OpProtocol a v t) = (a = x)"
| "records x (OpClaim a t) = (a = x)"
| "records x (OpRequeue a) = (a = x)"
| "records x (OpConcurrent a n) = (a = x)"

definition op_times :: "TrackOp list \<Rightarrow> ms list" where
  "op_times ops = List.map_filter op_time ops"

lemmas track_defs = recordTaskResult_def recordHeartbeat_def recordRegistration_def recordProtocolViolation_def
  recordTaskClaim_def recordRequeue_def setConcurrentClaimCount_def

lemma prune_prune: "t \<le> now \<Longrightarrow> pruneWindow win ts now (pruneWindow win ts t xs) = pruneWindow win ts now xs"
  by (auto simp: pruneWindow_def intro: filter_cong)

lemma prune_append: "pruneWindow win ts now (xs @ ys) = pruneWindow win ts now xs @ pruneWindow win ts now ys"
  by (simp add: pruneWindow_def)

lemma pruneEntry_twice: "t \<le> now \<Longrightarrow> pruneEntry win now (pruneEntry win t e) = pruneEntry win now e"
  by (simp add: pruneEntry_def prune_prune)

lemma pruneEntry_eq_iff:
  "pruneEntry win now e = pruneEntry win now f \<longleftrightarrow>
   pruneWindow win te_timestampMs now (b_tasks e) = pruneWindow win te_timestampMs now (b_tasks f) \<and>
   pruneWindow win fst now (b_protocolEvents e) = pruneWindow win fst now (b_protocolEvents f) \<and>
   pruneWindow win id now (b_registrations e) = pruneWindow win id now (b_registrations f) \<and>
   pruneWindow win id now (b_taskClaims e) = pruneWindow win id now (b_taskClaims f) \<and>
   pruneWindow win id now (b_heartbeats e) = pruneWindow win id now (b_heartbeats f) \<and>
   b_requeueCount e = b_requeueCount f \<and> b_concurrentClaimCount e = b_concurrentClaimCount (f :: BehaviorEntry)"
  by (cases e, cases f) (auto simp: pruneEntry_def)

text \<open>One call changes the entry as the log does, up to what the window no longer shows.\<close>

definition entryOf :: "string \<Rightarrow> BehaviorAgents \<Rightarrow> BehaviorEntry" where
  "entryOf a m = nullish (jsm_get m a) emptyEntry"

lemma track_has: "jsm_has (track cr sqrt_fn win op m) x \<longleftrightarrow> records x op \<or> jsm_has m x"
  by (cases op) (auto simp: track_defs withEntry_def jsm_has_iff jsm_get_set getStats_def Let_def split: option.splits)

lemma entryOf_track_other: "\<not> records x op \<Longrightarrow> \<forall>t. op \<noteq> OpStats x t \<Longrightarrow> entryOf x (track cr sqrt_fn win op m) = entryOf x m"
  by (cases op) (auto simp: track_defs withEntry_def entryOf_def jsm_get_set getStats_def Let_def split: option.splits)

lemma logged_other: "\<not> records x op \<Longrightarrow> logged cr x op e = e"
  by (cases op) auto

lemma pruneEntry_step:
  assumes sim: "\<And>n. t \<le> n \<Longrightarrow> pruneEntry win n (entryOf x m) = pruneEntry win n e"
    and now: "\<And>s. op_time op = Some s \<Longrightarrow> s \<le> now" "t \<le> now"
  shows "pruneEntry win now (entryOf x (track cr sqrt_fn win op m)) = pruneEntry win now (logged cr x op e)"
proof (cases "records x op")
  case True
  with sim [OF now(2)] now(1) show ?thesis
    by (cases op) (auto simp: track_defs withEntry_def entryOf_def jsm_get_set pruneEntry_eq_iff prune_prune prune_append)
next
  case False
  note logged_other [OF False, simp]
  show ?thesis
  proof (cases "\<exists>s. op = OpStats x s")
    case True
    then obtain s where op: "op = OpStats x s" by blast
    show ?thesis using now(1) [of s] sim [OF now(2)] 
      by (cases "jsm_get m x") (auto simp: op getStats_def entryOf_def Let_def jsm_get_set pruneEntry_twice)
  qed (use sim [OF now(2)] entryOf_track_other [OF False] in simp)
qed

lemma op_times_snoc: "op_times (ops @ [op]) = op_times ops @ (case op_time op of None \<Rightarrow> [] | Some t \<Rightarrow> [t])"
  by (simp add: op_times_def List.map_filter_def split: option.splits)

lemma track_simulates_log:
  assumes "sorted (op_times ops)" "\<forall>t \<in> set (op_times ops). t \<le> now"
  shows "pruneEntry win now (entryOf x (fold (track cr sqrt_fn win) ops [])) =
         pruneEntry win now (fold (logged cr x) ops emptyEntry)"
  using assms
proof (induction ops arbitrary: now rule: rev_induct)
  case Nil
  show ?case by (simp add: entryOf_def)
next
  case (snoc op ops)
  let ?t = "if op_times ops = [] then now else min now (last (op_times ops))"
  have srt: "sorted (op_times ops)" using snoc.prems(1) by (simp add: op_times_snoc sorted_append)
  have last: "s \<le> last (op_times ops)" if "s \<in> set (op_times ops)" for s
    using srt that by (metis in_set_conv_nth last_conv_nth length_pos_if_in_set diff_less less_Suc_eq_le Suc_diff_1 less_one sorted_iff_nth_mono list.size(3) less_irrefl)
  have now: "\<forall>s \<in> set (op_times ops). s \<le> now" using snoc.prems(2) by (simp add: op_times_snoc)
  have "pruneEntry win n (entryOf x (fold (track cr sqrt_fn win) ops [])) = pruneEntry win n (fold (logged cr x) ops emptyEntry)"
    if "?t \<le> n" for n
  proof (rule snoc.IH [OF srt], rule ballI)
    fix s assume s: "s \<in> set (op_times ops)"
    then have "min now (last (op_times ops)) \<le> n" using that by (auto split: if_splits)
    moreover have "last (op_times ops) \<le> now" using now s by (metis empty_iff last_in_set list.set(1))
    ultimately show "s \<le> n" using last [OF s] by simp
  qed
  moreover have "?t \<le> now" by simp
  moreover have "s \<le> now" if "op_time op = Some s" for s using snoc.prems(2) that by (simp add: op_times_snoc)
  ultimately show ?case using pruneEntry_step [of ?t win x "fold (track cr sqrt_fn win) ops []" "fold (logged cr x) ops emptyEntry" op now cr sqrt_fn] by simp
qed

lemma track_has_iff: "jsm_has (fold (track cr sqrt_fn win) ops m) x \<longleftrightarrow> jsm_has m x \<or> list_ex (records x) ops"
  by (induction ops arbitrary: m) (auto simp: track_has)

lemma getStats_entry: "snd (getStats sqrt_fn win x now m) =
   (if jsm_has m x then Some (statsOf sqrt_fn win now (pruneEntry win now (entryOf x m))) else None)"
  by (auto simp: getStats_def entryOf_def jsm_has_iff Let_def split: option.splits)

definition ex_track :: "TrackOp list" where
  "ex_track = [OpRegistration ''a'' 10, OpTask ''a'' True ''out'' 700 100, OpClaim ''b'' 150, OpStats ''a'' 3000, OpRequeue ''a'',
     OpTask ''a'' False [] 40 4000]"

text \<open>The log of one agent cut to a window, read off the calls themselves.\<close>

lemma log_tasks:
  "pruneWindow win te_timestampMs now (b_tasks (fold (logged cr x) ops e)) = pruneWindow win te_timestampMs now (b_tasks e) @
     [\<lparr> te_timestampMs = t, te_ok = ok, te_outputHash = hashOutput cr outp, te_outputLength = length outp, te_durationMs = d \<rparr>.
        OpTask a ok outp d t \<leftarrow> ops, a = x \<and> now - win \<le> t]"
proof (induction ops arbitrary: e)
  case (Cons op ops)
  then show ?case by (cases op) (simp_all add: prune_append, simp_all add: pruneWindow_def)
qed simp

lemma log_violations:
  "pruneWindow win fst now (b_protocolEvents (fold (logged cr x) ops e)) = pruneWindow win fst now (b_protocolEvents e) @
     [(t, v). OpProtocol a v t \<leftarrow> ops, a = x \<and> now - win \<le> t]"
proof (induction ops arbitrary: e)
  case (Cons op ops)
  then show ?case by (cases op) (simp_all add: prune_append, simp_all add: pruneWindow_def)
qed simp

lemma log_registrations:
  "pruneWindow win id now (b_registrations (fold (logged cr x) ops e)) = pruneWindow win id now (b_registrations e) @
     [t. OpRegistration a t \<leftarrow> ops, a = x \<and> now - win \<le> t]"
proof (induction ops arbitrary: e)
  case (Cons op ops)
  then show ?case by (cases op) (simp_all add: prune_append, simp_all add: pruneWindow_def)
qed simp

lemma log_claims:
  "pruneWindow win id now (b_taskClaims (fold (logged cr x) ops e)) = pruneWindow win id now (b_taskClaims e) @
     [t. OpClaim a t \<leftarrow> ops, a = x \<and> now - win \<le> t]"
proof (induction ops arbitrary: e)
  case (Cons op ops)
  then show ?case by (cases op) (simp_all add: prune_append, simp_all add: pruneWindow_def)
qed simp

lemma log_requeues: "b_requeueCount (fold (logged cr x) ops e) = b_requeueCount e + length [a. OpRequeue a \<leftarrow> ops, a = x]"
proof (induction ops arbitrary: e)
  case (Cons op ops)
  then show ?case by (cases op) simp_all
qed simp

lemma log_concurrent:
  "b_concurrentClaimCount (fold (logged cr x) ops e) = last (b_concurrentClaimCount e # [n. OpConcurrent a n \<leftarrow> ops, a = x])"
proof (induction ops arbitrary: e)
  case (Cons op ops)
  then show ?case by (cases op) simp_all
qed simp

definition tasksSince :: "string \<Rightarrow> ms \<Rightarrow> TrackOp list \<Rightarrow> (bool \<times> string \<times> int) list" where
  "tasksSince x start ops = [(ok, outp, d). OpTask a ok outp d t \<leftarrow> ops, a = x \<and> start \<le> t]"

definition violationsSince :: "string \<Rightarrow> ms \<Rightarrow> TrackOp list \<Rightarrow> Violation list" where
  "violationsSince x start ops = [v. OpProtocol a v t \<leftarrow> ops, a = x \<and> start \<le> t]"

definition windowedLog :: "crypto \<Rightarrow> int \<Rightarrow> ms \<Rightarrow> string \<Rightarrow> TrackOp list \<Rightarrow> BehaviorEntry" where
  "windowedLog cr win now x ops = pruneEntry win now (fold (logged cr x) ops emptyEntry)"

lemma windowed_fields:
  "b_tasks (windowedLog cr win now x ops) =
     [\<lparr> te_timestampMs = t, te_ok = ok, te_outputHash = hashOutput cr outp, te_outputLength = length outp, te_durationMs = d \<rparr>.
        OpTask a ok outp d t \<leftarrow> ops, a = x \<and> now - win \<le> t]"
  "b_protocolEvents (windowedLog cr win now x ops) = [(t, v). OpProtocol a v t \<leftarrow> ops, a = x \<and> now - win \<le> t]"
  "b_registrations (windowedLog cr win now x ops) = [t. OpRegistration a t \<leftarrow> ops, a = x \<and> now - win \<le> t]"
  "b_taskClaims (windowedLog cr win now x ops) = [t. OpClaim a t \<leftarrow> ops, a = x \<and> now - win \<le> t]"
  "b_requeueCount (windowedLog cr win now x ops) = length [a. OpRequeue a \<leftarrow> ops, a = x]"
  "b_concurrentClaimCount (windowedLog cr win now x ops) = last (0 # [n. OpConcurrent a n \<leftarrow> ops, a = x])"
proof -
  have e: "pruneWindow win te_timestampMs now (b_tasks emptyEntry) = []" "pruneWindow win fst now (b_protocolEvents emptyEntry) = []"
    "pruneWindow win id now (b_registrations emptyEntry) = []" "pruneWindow win id now (b_taskClaims emptyEntry) = []"
    "b_requeueCount emptyEntry = 0" "b_concurrentClaimCount emptyEntry = 0"
    by (simp_all add: emptyEntry_def pruneWindow_def)
  show "b_tasks (windowedLog cr win now x ops) =
     [\<lparr> te_timestampMs = t, te_ok = ok, te_outputHash = hashOutput cr outp, te_outputLength = length outp, te_durationMs = d \<rparr>.
        OpTask a ok outp d t \<leftarrow> ops, a = x \<and> now - win \<le> t]"
    "b_protocolEvents (windowedLog cr win now x ops) = [(t, v). OpProtocol a v t \<leftarrow> ops, a = x \<and> now - win \<le> t]"
    "b_registrations (windowedLog cr win now x ops) = [t. OpRegistration a t \<leftarrow> ops, a = x \<and> now - win \<le> t]"
    "b_taskClaims (windowedLog cr win now x ops) = [t. OpClaim a t \<leftarrow> ops, a = x \<and> now - win \<le> t]"
    "b_requeueCount (windowedLog cr win now x ops) = length [a. OpRequeue a \<leftarrow> ops, a = x]"
    "b_concurrentClaimCount (windowedLog cr win now x ops) = last (0 # [n. OpConcurrent a n \<leftarrow> ops, a = x])"
    by (simp_all add: windowedLog_def pruneEntry_def log_tasks log_violations log_registrations log_claims log_requeues log_concurrent e)
qed

lemma windowed_tasks:
  "map (\<lambda>t. (te_ok t, te_outputHash t, te_outputLength t, te_durationMs t)) (b_tasks (windowedLog cr win now x ops)) =
     map (\<lambda>(ok, outp, d). (ok, take 16 (sha256_hex cr outp), length outp, d)) (tasksSince x (now - win) ops)"
  unfolding windowed_fields tasksSince_def
proof (induction ops)
  case (Cons op ops)
  then show ?case by (cases op) (simp_all add: hashOutput_def)
qed simp

lemma windowed_violations: "map snd (b_protocolEvents (windowedLog cr win now x ops)) = violationsSince x (now - win) ops"
  unfolding windowed_fields violationsSince_def
proof (induction ops)
  case (Cons op ops)
  then show ?case by (cases op) simp_all
qed simp

lemma length_filter_of_map: "length (filter (\<lambda>x. Q (f x)) xs) = length (filter Q (map f xs))"
  by (simp add: filter_map comp_def)

lemma windowed_task_views:
  fixes cr win now x ops
  defines "ts \<equiv> b_tasks (windowedLog cr win now x ops)" and "tasks \<equiv> tasksSince x (now - win) ops"
  shows "length ts = length tasks" "map te_ok ts = map fst tasks" "map te_outputHash ts = map (\<lambda>(ok, outp, d). take 16 (sha256_hex cr outp)) tasks"
    "map te_outputLength ts = map (\<lambda>(ok, outp, d). length outp) tasks" "map te_durationMs ts = map (\<lambda>(ok, outp, d). d) tasks"
proof -
  have m: "map (\<lambda>t. g (te_ok t, te_outputHash t, te_outputLength t, te_durationMs t)) ts =
      map (\<lambda>(ok, outp, d). g (ok, take 16 (sha256_hex cr outp), length outp, d)) tasks" for g :: "bool \<times> string \<times> nat \<times> int \<Rightarrow> 'a"
    using arg_cong [OF windowed_tasks [of cr win now x ops], of "map g"] by (simp add: ts_def tasks_def comp_def case_prod_beta')
  show "length ts = length tasks" using arg_cong [OF m [of id], of length] by simp
  show "map te_ok ts = map fst tasks" using m [of fst] by (simp add: case_prod_beta')
  show "map te_outputHash ts = map (\<lambda>(ok, outp, d). take 16 (sha256_hex cr outp)) tasks" using m [of "\<lambda>(a, b, c, d). b"] by simp
  show "map te_outputLength ts = map (\<lambda>(ok, outp, d). length outp) tasks" using m [of "\<lambda>(a, b, c, d). c"] by simp
  show "map te_durationMs ts = map (\<lambda>(ok, outp, d). d) tasks" using m [of "\<lambda>(a, b, c, d). d"] by simp
qed

lemma stats_of_log:
  fixes x now win ops
  defines "tasks \<equiv> tasksSince x (now - win) ops" and "offences \<equiv> violationsSince x (now - win) ops"
  defines "s \<equiv> \<lambda>cr sqrt_fn. statsOf sqrt_fn win now (windowedLog cr win now x ops)"
  shows "totalTasks (s cr sqrt_fn) = length tasks"
    "successCount (s cr sqrt_fn) = length (filter (\<lambda>(ok, outp, d). ok) tasks)"
    "successRate (s cr sqrt_fn) = (if tasks = [] then 1 else n_div (of_nat (length (filter (\<lambda>(ok, outp, d). ok) tasks))) (of_nat (length tasks)))"
    "emptyOutputCount (s cr sqrt_fn) = length (filter (\<lambda>(ok, outp, d). outp = []) tasks)"
    "recentOutputHashes (s cr sqrt_fn) = map (\<lambda>(ok, outp, d). take 16 (sha256_hex cr outp)) (drop (length tasks - 20) tasks)"
    "suspiciouslyFastCount (s cr sqrt_fn) = length (filter (\<lambda>(ok, outp, d). d < 500) tasks)"
    "minDurationMs (s cr sqrt_fn) = (if tasks = [] then 0 else Min ((\<lambda>(ok, outp, d). d) ` set tasks))"
    "signatureFailureCount (s cr sqrt_fn) = count_list offences Signature_failure"
    "replayAttemptCount (s cr sqrt_fn) = count_list offences Replay_violation"
    "rateLimitHitCount (s cr sqrt_fn) = count_list offences Rate_limit_hit"
    "registrationCount (s cr sqrt_fn) = length [t. OpRegistration a t \<leftarrow> ops, a = x \<and> now - win \<le> t]"
    "taskClaimCount (s cr sqrt_fn) = length [t. OpClaim a t \<leftarrow> ops, a = x \<and> now - win \<le> t]"
    "requeueCount (s cr sqrt_fn) = length [a. OpRequeue a \<leftarrow> ops, a = x]"
    "concurrentClaimCount (s cr sqrt_fn) = last (0 # [n. OpConcurrent a n \<leftarrow> ops, a = x])"
    "windowStartMs (s cr sqrt_fn) = now - win" "windowEndMs (s cr sqrt_fn) = now"
proof -
  let ?e = "windowedLog cr win now x ops"
  note v = windowed_task_views [of cr win now x ops, folded tasks_def]
  note d = s_def statsOf_def Let_def
  have n: "b_tasks ?e = [] \<longleftrightarrow> tasks = []" using v(1) by (metis length_0_conv)
  have ok: "length (filter te_ok (b_tasks ?e)) = length (filter (\<lambda>(ok, outp, d). ok) tasks)"
    using length_filter_of_map [of id te_ok "b_tasks ?e"] length_filter_of_map [of id fst tasks] v(2) by (simp add: case_prod_beta')
  show "totalTasks (s cr sqrt_fn) = length tasks" using v(1) by (simp add: d)
  show "successCount (s cr sqrt_fn) = length (filter (\<lambda>(ok, outp, d). ok) tasks)" using ok by (simp add: d)
  show "successRate (s cr sqrt_fn) = (if tasks = [] then 1 else n_div (of_nat (length (filter (\<lambda>(ok, outp, d). ok) tasks))) (of_nat (length tasks)))"
    using ok v(1) n by (simp add: d)
  show "emptyOutputCount (s cr sqrt_fn) = length (filter (\<lambda>(ok, outp, d). outp = []) tasks)"
    using length_filter_of_map [of "\<lambda>n. n = 0" te_outputLength "b_tasks ?e"] length_filter_of_map [of "\<lambda>n. n = 0" "\<lambda>(ok, outp, d). length outp" tasks] v(4)
    by (simp add: d case_prod_beta')
  show "recentOutputHashes (s cr sqrt_fn) = map (\<lambda>(ok, outp, d). take 16 (sha256_hex cr outp)) (drop (length tasks - 20) tasks)"
    using v(1,3) by (simp add: d slice_last_def drop_map [symmetric])
  show "suspiciouslyFastCount (s cr sqrt_fn) = length (filter (\<lambda>(ok, outp, d). d < 500) tasks)"
    using length_filter_of_map [of "\<lambda>n. n < 500" te_durationMs "b_tasks ?e"] length_filter_of_map [of "\<lambda>n. n < 500" "\<lambda>(ok, outp, d). d" tasks] v(5)
    by (simp add: d case_prod_beta')
  show "minDurationMs (s cr sqrt_fn) = (if tasks = [] then 0 else Min ((\<lambda>(ok, outp, d). d) ` set tasks))"
    using v(5) n by (simp add: d)
  have c: "length (filter (\<lambda>(_, v). v = w) (b_protocolEvents ?e)) = count_list offences w" for w
    using length_filter_of_map [of "(=) w" snd "b_protocolEvents ?e"] windowed_violations [of cr win now x ops]
    by (simp add: offences_def count_list_eq_length_filter case_prod_beta' comp_def eq_commute [of _ w])
  show "signatureFailureCount (s cr sqrt_fn) = count_list offences Signature_failure"
    "replayAttemptCount (s cr sqrt_fn) = count_list offences Replay_violation"
    "rateLimitHitCount (s cr sqrt_fn) = count_list offences Rate_limit_hit" using c by (simp_all add: d)
  show "registrationCount (s cr sqrt_fn) = length [t. OpRegistration a t \<leftarrow> ops, a = x \<and> now - win \<le> t]"
    "taskClaimCount (s cr sqrt_fn) = length [t. OpClaim a t \<leftarrow> ops, a = x \<and> now - win \<le> t]"
    "requeueCount (s cr sqrt_fn) = length [a. OpRequeue a \<leftarrow> ops, a = x]"
    "concurrentClaimCount (s cr sqrt_fn) = last (0 # [n. OpConcurrent a n \<leftarrow> ops, a = x])"
    "windowStartMs (s cr sqrt_fn) = now - win" "windowEndMs (s cr sqrt_fn) = now"
    unfolding d by (simp_all only: windowed_fields AgentBehaviorStats.select_convs)
qed

text \<open>
  C37: Pruning on every call loses nothing. For calls in the order of the clock, the statistics of an agent count, from the complete
  list of calls, the tasks, protocol violations, registrations and claims of that agent with a time stamp of at least \<open>now - win\<close>: how many,
  the successes and their rate, the empty outputs, the hashes of the last twenty outputs, the tasks below half a second, the least
  duration, and the violations of each kind. The requeues are counted over all time, the concurrent claims are the number last set. There
  are no statistics exactly when nothing was recorded for the agent.
\<close>

theorem tracker_refines_log:
  assumes "sorted (op_times ops)" "\<forall>t \<in> set (op_times ops). t \<le> now"
  shows "if list_ex (records x) ops then
     \<exists>s tasks offences. snd (getStats sqrt_fn win x now (fold (track cr sqrt_fn win) ops [])) = Some s \<and>
       tasks = [(ok, outp, d). OpTask a ok outp d t \<leftarrow> ops, a = x \<and> now - win \<le> t] \<and>
       offences = [v. OpProtocol a v t \<leftarrow> ops, a = x \<and> now - win \<le> t] \<and>
       totalTasks s = length tasks \<and>
       successCount s = length (filter (\<lambda>(ok, outp, d). ok) tasks) \<and>
       successRate s = (if tasks = [] then 1 else n_div (of_nat (length (filter (\<lambda>(ok, outp, d). ok) tasks))) (of_nat (length tasks))) \<and>
       emptyOutputCount s = length (filter (\<lambda>(ok, outp, d). outp = []) tasks) \<and>
       recentOutputHashes s = map (\<lambda>(ok, outp, d). take 16 (sha256_hex cr outp)) (drop (length tasks - 20) tasks) \<and>
       suspiciouslyFastCount s = length (filter (\<lambda>(ok, outp, d). d < 500) tasks) \<and>
       minDurationMs s = (if tasks = [] then 0 else Min ((\<lambda>(ok, outp, d). d) ` set tasks)) \<and>
       signatureFailureCount s = count_list offences Signature_failure \<and>
       replayAttemptCount s = count_list offences Replay_violation \<and>
       rateLimitHitCount s = count_list offences Rate_limit_hit \<and>
       registrationCount s = length [t. OpRegistration a t \<leftarrow> ops, a = x \<and> now - win \<le> t] \<and>
       taskClaimCount s = length [t. OpClaim a t \<leftarrow> ops, a = x \<and> now - win \<le> t] \<and>
       requeueCount s = length [a. OpRequeue a \<leftarrow> ops, a = x] \<and>
       concurrentClaimCount s = last (0 # [n. OpConcurrent a n \<leftarrow> ops, a = x]) \<and>
       windowStartMs s = now - win \<and> windowEndMs s = now
     else snd (getStats sqrt_fn win x now (fold (track cr sqrt_fn win) ops [])) = None"
proof (cases "list_ex (records x) ops")
  case True
  have e: "snd (getStats sqrt_fn win x now (fold (track cr sqrt_fn win) ops [])) = Some (statsOf sqrt_fn win now (windowedLog cr win now x ops))"
    using True by (simp add: getStats_entry track_simulates_log [OF assms] track_has_iff windowedLog_def)
  note r = stats_of_log [where x = x and now = now and win = win and ops = ops and cr = cr and sqrt_fn = sqrt_fn,
      unfolded tasksSince_def violationsSince_def]
  show ?thesis unfolding if_P [OF True] by (intro exI conjI) (rule e, rule refl, rule refl, (rule r)+)
next
  case False
  then show ?thesis by (simp add: getStats_entry track_has_iff)
qed

theorem tracker_refines_log_witness:
  "\<exists>s. snd (getStats id 3600 ''a'' 4000 (fold (track ex_crypto id 3600) ex_track [])) = Some s \<and>
     totalTasks s = 1 \<and> successCount s = 0 \<and> emptyOutputCount s = 1 \<and> registrationCount s = 0 \<and> requeueCount s = 1"
  using tracker_refines_log [of ex_track 4000 "''a''" id 3600 ex_crypto]
  by (simp add: ex_track_def op_times_def List.map_filter_def) (elim exE conjE, rule exI, intro conjI, assumption+)

text \<open>
  The requeue counter is not windowed: once enough claims of an agent have been requeued, every later
  evaluation raises the hoarding anomaly, whatever happened since.
\<close>

lemma requeue_count_log: "b_requeueCount (fold (logged cr x) ops e) = b_requeueCount e + length (filter (\<lambda>op. op = OpRequeue x) ops)"
proof (induction ops arbitrary: e)
  case (Cons op ops)
  then show ?case by (cases op) auto
qed simp

lemma evaluate_rule: "rule \<in> set ALL_RULES \<Longrightarrow> rule stats config = Some a \<Longrightarrow> a \<in> set (evaluate config stats)"
  by (auto simp: evaluate_def List.map_filter_def intro!: image_eqI [of _ _ rule])

lemma hoarding_evaluated:
  assumes "requeueCount stats \<ge> taskHoardingRequeueThreshold config"
  shows "\<exists>a \<in> set (evaluate config stats). ruleId a = ''BHV007'' \<and> an_severity a = HIGH"
proof -
  have "\<exists>a. bhv007TaskHoarding stats config = Some a \<and> ruleId a = ''BHV007'' \<and> an_severity a = HIGH"
    using assms by (simp add: bhv007TaskHoarding_def anomaly_def Let_def)
  moreover have "bhv007TaskHoarding \<in> set ALL_RULES" by (simp add: ALL_RULES_def)
  ultimately show ?thesis using evaluate_rule by blast
qed

lemma requeues_never_expire:
  assumes "sorted (op_times ops)" "\<forall>t \<in> set (op_times ops). t \<le> now"
    and "length (filter (\<lambda>op. op = OpRequeue x) ops) \<ge> taskHoardingRequeueThreshold config" "0 < taskHoardingRequeueThreshold config"
  shows "\<exists>stats. snd (getStats sqrt_fn win x now (fold (track cr sqrt_fn win) ops [])) = Some stats \<and>
     (\<exists>a \<in> set (evaluate config stats). ruleId a = ''BHV007'' \<and> an_severity a = HIGH)"
proof -
  have "OpRequeue x \<in> set ops" using assms(3,4) by (metis (mono_tags, lifting) filter_False leD list.size(3))
  then have "list_ex (records x) ops" unfolding list_ex_iff by (rule bexI [rotated]) simp
  then have "snd (getStats sqrt_fn win x now (fold (track cr sqrt_fn win) ops [])) =
      Some (statsOf sqrt_fn win now (pruneEntry win now (fold (logged cr x) ops emptyEntry)))" (is "_ = Some ?stats")
    by (simp add: getStats_entry track_simulates_log [OF assms(1,2)] track_has_iff)
  moreover have "requeueCount ?stats \<ge> taskHoardingRequeueThreshold config"
    using assms(3) by (simp add: statsOf_def Let_def pruneEntry_def requeue_count_log)
  ultimately show ?thesis using hoarding_evaluated by blast
qed

section \<open>Repeated outputs\<close>

definition hasRun :: "nat \<Rightarrow> 'a list \<Rightarrow> bool" where
  "hasRun k xs = (\<exists>i. i + k \<le> length xs \<and> (\<forall>j < k. xs ! (i + j) = xs ! i))"

lemma hasRun_Cons: "hasRun k (x # xs) \<longleftrightarrow> (k \<le> Suc (length xs) \<and> (\<forall>j < k. (x # xs) ! j = x)) \<or> hasRun k xs"
proof
  assume "hasRun k (x # xs)"
  then obtain i where i: "i + k \<le> length (x # xs)" "\<forall>j < k. (x # xs) ! (i + j) = (x # xs) ! i" unfolding hasRun_def by blast
  then show "(k \<le> Suc (length xs) \<and> (\<forall>j < k. (x # xs) ! j = x)) \<or> hasRun k xs"
  proof (cases i)
    case (Suc n)
    with i have "n + k \<le> length xs \<and> (\<forall>j < k. xs ! (n + j) = xs ! n)" by simp
    then show ?thesis unfolding hasRun_def by blast
  qed auto
next
  assume "(k \<le> Suc (length xs) \<and> (\<forall>j < k. (x # xs) ! j = x)) \<or> hasRun k xs"
  then show "hasRun k (x # xs)"
  proof
    assume "k \<le> Suc (length xs) \<and> (\<forall>j < k. (x # xs) ! j = x)"
    then show ?thesis unfolding hasRun_def by (intro exI [of _ 0]) simp
  next
    assume "hasRun k xs"
    then obtain i where "i + k \<le> length xs" "\<forall>j < k. xs ! (i + j) = xs ! i" unfolding hasRun_def by blast
    then show ?thesis unfolding hasRun_def by (intro exI [of _ "Suc i"]) simp
  qed
qed

lemma hasRun_replicate: "0 < k \<Longrightarrow> hasRun k (replicate n x) \<longleftrightarrow> k \<le> n"
  by (auto simp: hasRun_def intro!: exI [of _ 0])

lemma nth_replicate_prefix: "j < n \<Longrightarrow> (replicate n p @ ys) ! j = p"
  by (simp add: nth_append)

lemma hasRun_break: "h \<noteq> p \<Longrightarrow> 0 < k \<Longrightarrow> hasRun k (replicate n p @ h # hs) \<longleftrightarrow> k \<le> n \<or> hasRun k (h # hs)"
proof (induction n)
  case (Suc n)
  let ?ys = "replicate n p @ h # hs"
  have eq: "p # ?ys = replicate (Suc n) p @ h # hs" by simp
  have nth: "(p # ?ys) ! j = p" if "j < Suc n" for j using that unfolding eq by (rule nth_replicate_prefix)
  have "(p # ?ys) ! Suc n = h" by (simp add: nth_append)
  with Suc.prems(1) have "k \<le> Suc n" if "\<forall>j < k. (p # ?ys) ! j = p" using that by (metis not_less)
  then have head: "(k \<le> Suc (length ?ys) \<and> (\<forall>j < k. (p # ?ys) ! j = p)) \<longleftrightarrow> k \<le> Suc n"
    using nth by (metis (no_types, lifting) Suc_leI eq length_Cons length_append length_replicate less_le_trans le_add1 le_trans)
  have "hasRun k (p # ?ys) \<longleftrightarrow> k \<le> Suc n \<or> (k \<le> n \<or> hasRun k (h # hs))"
    unfolding hasRun_Cons [of k p ?ys] head using Suc.IH [OF Suc.prems] by simp
  then show ?case unfolding eq using le_SucI by blast
qed auto

lemma runLoop_iff:
  assumes "2 \<le> k" "0 < run" "2 \<le> run \<Longrightarrow> run \<le> best"
  shows "k \<le> runLoop p run best hs \<longleftrightarrow> k \<le> best \<or> hasRun k (replicate run p @ hs)"
  using assms(2,3)
proof (induction hs arbitrary: p run best)
  case Nil
  then show ?case using assms(1) by (auto simp: hasRun_replicate)
next
  case (Cons h hs)
  show ?case
  proof (cases "h = p")
    case True
    have eq: "replicate (run + 1) p @ hs = replicate run p @ p # hs" by (simp add: replicate_app_Cons_same)
    have "hasRun k (replicate run p @ p # hs)" if "k \<le> run + 1"
      unfolding eq [symmetric] hasRun_def using that nth_replicate_prefix [of _ "run + 1" p hs]
      by (intro exI [of _ 0]) (simp del: replicate_Suc add: less_le_trans)
    moreover have "k \<le> runLoop p (run + 1) (max best (run + 1)) hs \<longleftrightarrow> k \<le> max best (run + 1) \<or> hasRun k (replicate run p @ p # hs)"
      using Cons.IH [of "run + 1" "max best (run + 1)" p] unfolding eq by simp
    ultimately show ?thesis using True by (simp only: runLoop.simps simp_thms if_True le_max_iff_disj) blast
  next
    case False
    have "runLoop p run best (h # hs) = runLoop h 1 best hs" using False by simp
    moreover have "hasRun k (replicate run p @ h # hs) \<longleftrightarrow> k \<le> run \<or> hasRun k (h # hs)"
      using hasRun_break [OF False] assms(1) by simp
    moreover have "k \<le> run \<Longrightarrow> k \<le> best" using Cons.prems assms(1) by simp
    ultimately show ?thesis using Cons.IH [of 1 best h] by auto
  qed
qed

lemma identicalRun_iff: "2 \<le> k \<Longrightarrow> k \<le> identicalRun hs \<longleftrightarrow> hasRun k hs"
proof (cases hs rule: remdups_adj.cases)
  case (3 x y zs)
  assume "2 \<le> k"
  then show ?thesis using runLoop_iff [of k 1 0 x "y # zs"] 3 by (simp add: identicalRun_def)
qed (auto simp: identicalRun_def hasRun_def)

definition ex_entry :: BehaviorEntry where
  "ex_entry = emptyEntry\<lparr> b_tasks := map (\<lambda>(t, h). \<lparr> te_timestampMs = t, te_ok = True, te_outputHash = h, te_outputLength = 4, te_durationMs = 900 \<rparr>)
     [(1, ''h1''), (2, ''h2''), (3, ''h2''), (4, ''h2''), (5, ''h3'')] \<rparr>"

text \<open>
  The forgery rule fires exactly when the window holds a run of \<open>n\<close> consecutive results with the same
  output hash, \<open>n\<close> the configured minimum (at least 2): the single pass with a current and a
  best run finds the longest run.
\<close>

theorem duplicate_forgery_iff:
  assumes "2 \<le> duplicateForgeryConsecutiveMin config"
  shows "bhv003DuplicateForgery (statsOf sqrt_fn win now e) config \<noteq> None \<longleftrightarrow>
    (\<exists>i. i + duplicateForgeryConsecutiveMin config \<le> length (b_tasks e) \<and>
         (\<forall>j < duplicateForgeryConsecutiveMin config. te_outputHash (b_tasks e ! (i + j)) = te_outputHash (b_tasks e ! i)))"
proof -
  have "bhv003DuplicateForgery (statsOf sqrt_fn win now e) config \<noteq> None \<longleftrightarrow> hasRun (duplicateForgeryConsecutiveMin config) (map te_outputHash (b_tasks e))"
    using identicalRun_iff [OF assms] by (simp add: bhv003DuplicateForgery_def statsOf_def Let_def)
  also have "\<dots> \<longleftrightarrow> (\<exists>i. i + duplicateForgeryConsecutiveMin config \<le> length (b_tasks e) \<and>
         (\<forall>j < duplicateForgeryConsecutiveMin config. te_outputHash (b_tasks e ! (i + j)) = te_outputHash (b_tasks e ! i)))"
    unfolding hasRun_def using assms by (intro ex_cong1 conj_cong all_cong1 imp_cong) simp_all
  finally show ?thesis .
qed

lemma ex_entry_run: "map te_outputHash (b_tasks ex_entry) = [''h1'', ''h2'', ''h2'', ''h2'', ''h3'']"
  by (simp add: ex_entry_def emptyEntry_def)

theorem duplicate_forgery_iff_witness:
  "2 \<le> duplicateForgeryConsecutiveMin DEFAULT_ANOMALY_CONFIG \<and>
   bhv003DuplicateForgery (statsOf id 3600 5 ex_entry) DEFAULT_ANOMALY_CONFIG \<noteq> None"
proof -
  have min: "duplicateForgeryConsecutiveMin DEFAULT_ANOMALY_CONFIG = 3" by (simp add: DEFAULT_ANOMALY_CONFIG_def)
  have "\<forall>j < 3. te_outputHash (b_tasks ex_entry ! (1 + j)) = te_outputHash (b_tasks ex_entry ! 1)"
    by (auto simp: ex_entry_def emptyEntry_def less_Suc_eq numeral_3_eq_3)
  moreover have "1 + 3 \<le> length (b_tasks ex_entry)" by (simp add: ex_entry_def)
  ultimately have "\<exists>i. i + 3 \<le> length (b_tasks ex_entry) \<and> (\<forall>j < 3. te_outputHash (b_tasks ex_entry ! (i + j)) = te_outputHash (b_tasks ex_entry ! i))" by blast
  moreover have "(2::nat) \<le> 3" by simp
  ultimately show ?thesis using duplicate_forgery_iff [of DEFAULT_ANOMALY_CONFIG id 3600 5 ex_entry] unfolding min by blast
qed

section \<open>Strikes\<close>

lemma severityIndex_le: "severityIndex l \<le> severityIndex l' \<longleftrightarrow> l' \<le> l"
  by (cases l; cases l') (simp_all add: severityIndex_def less_eq_SecurityLevel_def)

text \<open>The action names the first of the most severe anomalies.\<close>

lemma hd_sort_key:
  assumes "xs \<noteq> []"
  shows "hd (sort_key f xs) \<in> set xs" "x \<in> set xs \<Longrightarrow> f (hd (sort_key f xs)) \<le> f x"
proof -
  obtain y ys where s: "sort_key f xs = y # ys" using assms by (metis list.exhaust length_0_conv length_sort)
  then show "hd (sort_key f xs) \<in> set xs" by (metis list.sel(1) list.set_intros(1) set_sort)
  have "sorted (map f (y # ys))" using s sorted_sort_key by metis
  then show "f (hd (sort_key f xs)) \<le> f x" if "x \<in> set xs" using that s by (metis (no_types, lifting) dual_order.refl image_eqI list.sel(1) list.set_map list.simps(9) set_ConsD set_sort sorted_simps(2))
qed

lemma buildBlacklistAction_primary:
  assumes "anomalies \<noteq> []"
  shows "\<exists>a \<in> set anomalies. ba_reasonCode (buildBlacklistAction cr str agentId anomalies) = blacklistReason a \<and>
     (\<forall>a' \<in> set anomalies. an_severity a' \<le> an_severity a)"
  using hd_sort_key [OF assms, where f = "severityIndex \<circ> an_severity"]
  by (intro bexI [of _ "hd (sort_key (severityIndex \<circ> an_severity) anomalies)"])
     (auto simp: buildBlacklistAction_def Let_def severityIndex_le)

text \<open>Between reports fewer strikes than the threshold are stored for every agent.\<close>

definition strikes_inv :: "AutoBlacklister \<Rightarrow> bool" where
  "strikes_inv b = (0 < strikeThreshold b \<and>
     (\<forall>a ss. jsm_get (strikes b) a = Some ss \<longrightarrow> length ss < strikeThreshold b \<and> (\<forall>s \<in> set ss. an_severity (snd s) \<noteq> CRITICAL)))"

definition report ::
  "crypto \<Rightarrow> (AnomalyEvent list \<Rightarrow> string) \<Rightarrow> string \<times> AnomalyEvent list \<times> ms \<Rightarrow> AutoBlacklister \<Rightarrow> AutoBlacklister" where
  "report cr stringify r b = (case r of (agentId, anomalies, nowMs) \<Rightarrow> fst (processAnomalies cr stringify agentId anomalies nowMs b))"

lemma kept_strikes: "length (filter (\<lambda>s. fst s \<ge> now - strikeWindowMs b) (nullish (jsm_get (strikes b) a) [])) = getStrikeCount a now b"
  by (simp add: getStrikeCount_def nullish_def split: option.splits)

lemma report_config: "strikeThreshold (report cr str r b) = strikeThreshold b" "strikeWindowMs (report cr str r b) = strikeWindowMs b"
  by (auto simp: report_def processAnomalies_def Let_def split: prod.splits)

lemma report_inv [op_inv]: "strikes_inv b \<Longrightarrow> strikes_inv (report cr str r b)"
proof -
  assume inv: "strikes_inv b"
  obtain agentId anomalies now where r: "r = (agentId, anomalies, now)" by (metis prod_cases3)
  let ?kept = "filter (\<lambda>s. fst s \<ge> now - strikeWindowMs b) (nullish (jsm_get (strikes b) agentId) [])"
  have "\<forall>s \<in> set ?kept. an_severity (snd s) \<noteq> CRITICAL"
    using inv by (cases "jsm_get (strikes b) agentId") (auto simp: strikes_inv_def)
  then show ?thesis using inv
    by (auto simp: r report_def processAnomalies_def Let_def strikes_inv_def jsm_get_set jsm_get_delete list_ex_iff split: if_splits)
qed

interpretation blacklister: op_machine "report cr str" strikes_inv
  by unfold_locales (rule report_inv)

definition fresh_blacklister :: "int \<Rightarrow> nat \<Rightarrow> AutoBlacklister" where
  "fresh_blacklister win thr = \<lparr> strikeWindowMs = win, strikeThreshold = thr, strikes = [], blacklisted = [] \<rparr>"

lemma fresh_inv: "0 < thr \<Longrightarrow> strikes_inv (fresh_blacklister win thr)"
  by (simp add: strikes_inv_def fresh_blacklister_def)

lemma processAnomalies_action:
  assumes "anomalies \<noteq> []"
  shows "snd (processAnomalies cr str a anomalies now b) \<noteq> None \<longleftrightarrow>
    (\<exists>x \<in> set anomalies. an_severity x = CRITICAL) \<or> strikeThreshold b \<le> getStrikeCount a now b + length anomalies"
  using assms by (auto simp: processAnomalies_def Let_def list_ex_iff kept_strikes)

lemma processAnomalies_strikes:
  assumes "0 \<le> strikeWindowMs b" "anomalies \<noteq> []" "\<forall>x \<in> set anomalies. an_severity x \<noteq> CRITICAL"
  shows "getStrikeCount a now (fst (processAnomalies cr str a anomalies now b)) =
     (if strikeThreshold b \<le> getStrikeCount a now b + length anomalies then 0 else getStrikeCount a now b + length anomalies)"
proof -
  have "filter (\<lambda>s. now - strikeWindowMs b \<le> fst s) (map (\<lambda>x. (now, x)) anomalies) = map (\<lambda>x. (now, x)) anomalies"
    using assms(1) by (simp add: filter_map comp_def)
  moreover have "\<not> list_ex (\<lambda>x. an_severity x = CRITICAL) anomalies" using assms(3) by (auto simp: list_ex_iff)
  ultimately show ?thesis using assms(2)
    by (simp add: processAnomalies_def Let_def kept_strikes)
       (simp add: getStrikeCount_def jsm_get_set jsm_get_delete kept_strikes filter_filter)
qed

lemma strikes_inv_count: "strikes_inv b \<Longrightarrow> getStrikeCount a t b < strikeThreshold b"
  by (auto simp: strikes_inv_def getStrikeCount_def split: option.splits intro: le_less_trans [OF length_filter_le])

lemma reports_config:
  "strikeThreshold (fold (report cr str) rs b) = strikeThreshold b"
  "strikeWindowMs (fold (report cr str) rs b) = strikeWindowMs b"
  by (induction rs arbitrary: b) (simp_all add: report_config)

lemma processAnomalies_SomeE:
  assumes "snd (processAnomalies cr str a anomalies now b) = Some act"
  obtains (critical) "anomalies \<noteq> []" "act = buildBlacklistAction cr str a anomalies"
      "blacklisted (fst (processAnomalies cr str a anomalies now b)) = blacklisted b @ [act]"
  | (strikes) kept where "anomalies \<noteq> []" "act = buildBlacklistAction cr str a (kept @ anomalies)"
      "blacklisted (fst (processAnomalies cr str a anomalies now b)) = blacklisted b @ [act]"
proof (cases "list_ex (\<lambda>x. an_severity x = CRITICAL) anomalies")
  case True
  with assms show thesis by (intro critical) (auto simp: processAnomalies_def Let_def split: if_splits)
next
  case False
  let ?kept = "map snd (filter (\<lambda>s. fst s \<ge> now - strikeWindowMs b) (nullish (jsm_get (strikes b) a) []))"
  have "map snd (map (\<lambda>x. (now, x)) anomalies) = anomalies" by (simp add: comp_def)
  with assms False show thesis by (intro strikes [of ?kept]) (auto simp: processAnomalies_def Let_def simp del: map_map split: if_splits)
qed

text \<open>What one report returns: the anomalies it blames are those reported, or all strikes of the window.\<close>

lemma processAnomalies_SomeD:
  assumes "snd (processAnomalies cr str a anomalies now b) = Some act"
  shows "ba_agentId act = a \<and> blacklisted (fst (processAnomalies cr str a anomalies now b)) = blacklisted b @ [act] \<and>
     set anomalies \<subseteq> set (ba_anomalyEvents act) \<and>
     (\<exists>x \<in> set (ba_anomalyEvents act). ba_reasonCode act = blacklistReason x \<and> (\<forall>y \<in> set (ba_anomalyEvents act). an_severity y \<le> an_severity x))"
proof -
  have built: "ba_anomalyEvents (buildBlacklistAction cr str a as) = as" "ba_agentId (buildBlacklistAction cr str a as) = a" for as
    by (simp_all add: buildBlacklistAction_def Let_def)
  from assms show ?thesis
  proof (cases rule: processAnomalies_SomeE)
    case critical
    then show ?thesis using buildBlacklistAction_primary [of anomalies cr str a] by (simp add: built)
  next
    case (strikes kept)
    then show ?thesis using buildBlacklistAction_primary [of "kept @ anomalies" cr str a] unfolding strikes(2) built by simp
  qed
qed

definition ex_anomaly :: AnomalyEvent where
  "ex_anomaly = anomaly ''BHV008'' ''Registration storm'' HIGH Dos_behavior ''storm'' []"

text \<open>
  Three strikes. Whatever was reported before, fewer strikes than the threshold are counted for every
  agent at every moment; a report leads to a blacklisting exactly when it contains a critical anomaly or
  fills the threshold with the strikes still in the window; otherwise its anomalies are added to the
  count. The action is recorded, names the agent, and takes its reason from a most severe anomaly of
  those it cites.
\<close>

theorem strike_enforcement:
  assumes "0 < thr" "0 \<le> win" "anomalies \<noteq> []"
    and b: "b = fold (report cr str) reports (fresh_blacklister win thr)"
    and b': "(b', result) = processAnomalies cr str a anomalies now b"
  shows "(\<forall>a' t. getStrikeCount a' t b < thr) \<and>
     (result = None \<longleftrightarrow> (\<forall>x \<in> set anomalies. an_severity x \<noteq> CRITICAL) \<and> getStrikeCount a now b + length anomalies < thr) \<and>
     (case result of
        None \<Rightarrow> getStrikeCount a now b' = getStrikeCount a now b + length anomalies \<and> blacklisted b' = blacklisted b
      | Some act \<Rightarrow> ba_agentId act = a \<and> blacklisted b' = blacklisted b @ [act] \<and> set anomalies \<subseteq> set (ba_anomalyEvents act) \<and>
          (\<exists>x \<in> set (ba_anomalyEvents act). ba_reasonCode act = blacklistReason x \<and>
             (\<forall>y \<in> set (ba_anomalyEvents act). an_severity y \<le> an_severity x)))"
proof -
  have cfg: "strikeThreshold b = thr" "strikeWindowMs b = win" by (simp_all add: b reports_config fresh_blacklister_def)
  have "strikes_inv b" unfolding b by (rule blacklister.run_inv) (rule fresh_inv [OF assms(1)])
  then have count: "\<forall>a' t. getStrikeCount a' t b < thr" using strikes_inv_count unfolding cfg(1) [symmetric] by blast
  have res: "snd (processAnomalies cr str a anomalies now b) = result" "fst (processAnomalies cr str a anomalies now b) = b'"
    by (simp_all add: b' [symmetric])
  have iff: "result = None \<longleftrightarrow> (\<forall>x \<in> set anomalies. an_severity x \<noteq> CRITICAL) \<and> getStrikeCount a now b + length anomalies < thr"
    using processAnomalies_action [OF assms(3), of cr str a now b] unfolding res cfg(1) not_le [symmetric] by blast
  show ?thesis
  proof (cases result)
    case None
    with iff have no: "\<forall>x \<in> set anomalies. an_severity x \<noteq> CRITICAL" "\<not> thr \<le> getStrikeCount a now b + length anomalies" by simp_all
    have "getStrikeCount a now b' = getStrikeCount a now b + length anomalies"
      using processAnomalies_strikes [of b anomalies a now cr str] assms(2,3) no unfolding cfg res by simp
    moreover have "blacklisted b' = blacklisted b"
      using None unfolding res [symmetric] by (auto simp: processAnomalies_def Let_def split: if_splits)
    ultimately show ?thesis using count iff None by simp
  next
    case (Some act)
    then show ?thesis using count iff processAnomalies_SomeD [of cr str a anomalies now b act] unfolding res by simp
  qed
qed

lemma ex_anomaly_high: "an_severity ex_anomaly = HIGH"
  by (simp add: ex_anomaly_def anomaly_def)

theorem strike_enforcement_witness:
  "snd (processAnomalies ex_crypto (\<lambda>_. []) ''a'' [ex_anomaly] 50
     (fold (report ex_crypto (\<lambda>_. [])) [(''a'', [ex_anomaly, ex_anomaly], 10)] (fresh_blacklister 100 3))) \<noteq> None"
proof -
  let ?b = "fold (report ex_crypto (\<lambda>_. [])) [(''a'', [ex_anomaly, ex_anomaly], 10)] (fresh_blacklister 100 3)"
  have "getStrikeCount ''a'' 50 ?b = 2"
    by (simp add: report_def processAnomalies_def fresh_blacklister_def ex_anomaly_high getStrikeCount_def jsm_get_set)
  then show ?thesis
    using strike_enforcement [of 3 100 "[ex_anomaly]" ?b ex_crypto "\<lambda>_. []" "[(''a'', [ex_anomaly, ex_anomaly], 10)]"
      "fst (processAnomalies ex_crypto (\<lambda>_. []) ''a'' [ex_anomaly] 50 ?b)" _ "''a''" 50] by simp
qed

end
