(* ===== verification/Mesh.thy ===== *)
theory Mesh
  imports Ledger JsNumber
begin

text \<open>
  The gossip mesh over HTTP and WebSockets, \<open>src/src/mesh/\<close>: signed messages (\<open>peer.ts\<close>, \<open>protocol.ts\<close>), the
  broadcast with its three delivery paths (\<open>gossip.ts\<close>), the stand-alone peer (\<open>mesh-peer.ts\<close>) with its
  HTTP routes (\<open>mesh-http-server.ts\<close>), and the capability summary (\<open>capability-gossip.ts\<close>). The network is a
  record of outcomes, one per request the code can make; UUIDs and the clock are arguments. The deliveries of a
  broadcast run concurrently, so the broadcast is also given as a step relation over the pending deliveries.
\<close>

section \<open>Messages\<close>

datatype MeshMessageType =
    Msg_peer_announce | Msg_queue_summary | Msg_task_offer | Msg_task_claim | Msg_result_announce
  | Msg_ordering_snapshot | Msg_blacklist_update | Msg_issuance_proposal | Msg_issuance_vote
  | Msg_issuance_commit | Msg_issuance_checkpoint | Msg_capability_summary | Msg_peer_exchange
  | Msg_capability_announce

fun msg_name :: "MeshMessageType \<Rightarrow> string" where
  "msg_name Msg_peer_announce = ''peer_announce''"
| "msg_name Msg_queue_summary = ''queue_summary''"
| "msg_name Msg_task_offer = ''task_offer''"
| "msg_name Msg_task_claim = ''task_claim''"
| "msg_name Msg_result_announce = ''result_announce''"
| "msg_name Msg_ordering_snapshot = ''ordering_snapshot''"
| "msg_name Msg_blacklist_update = ''blacklist_update''"
| "msg_name Msg_issuance_proposal = ''issuance_proposal''"
| "msg_name Msg_issuance_vote = ''issuance_vote''"
| "msg_name Msg_issuance_commit = ''issuance_commit''"
| "msg_name Msg_issuance_checkpoint = ''issuance_checkpoint''"
| "msg_name Msg_capability_summary = ''capability_summary''"
| "msg_name Msg_peer_exchange = ''peer_exchange''"
| "msg_name Msg_capability_announce = ''capability_announce''"

text \<open>The payload is an object; its members are JSON values with integral numbers.\<close>

type_synonym payload = "(string \<times> json) list"

record UnsignedMessage =
  mm_id :: string
  mm_type :: MeshMessageType
  mm_fromPeerId :: string
  mm_issuedAtMs :: ms
  mm_ttlMs :: int
  mm_payload :: payload

record MeshMessage =
  mm_unsigned :: UnsignedMessage
  mm_signature :: string

definition canonicalizeMessage :: "UnsignedMessage \<Rightarrow> string" where
  "canonicalizeMessage message = json_text (JObj
     [(''id'', JStr (mm_id message)), (''type'', JStr (msg_name (mm_type message))),
      (''fromPeerId'', JStr (mm_fromPeerId message)), (''issuedAtMs'', JNum (mm_issuedAtMs message)),
      (''ttlMs'', JNum (mm_ttlMs message)), (''payload'', JObj (mm_payload message))])"

definition SEEN_CACHE_LIMIT :: nat where
  "SEEN_CACHE_LIMIT = 5000"

definition createMessage ::
  "crypto \<Rightarrow> string \<Rightarrow> ms \<Rightarrow> MeshMessageType \<Rightarrow> string \<Rightarrow> payload \<Rightarrow> string \<Rightarrow> int \<Rightarrow> MeshMessage" where
  "createMessage cr uuid now typ fromPeerId payload privateKeyPem ttlMs =
     (let unsigned = \<lparr> mm_id = uuid, mm_type = typ, mm_fromPeerId = fromPeerId, mm_issuedAtMs = now,
                       mm_ttlMs = ttlMs, mm_payload = payload \<rparr>
      in \<lparr> mm_unsigned = unsigned, mm_signature = signPayload cr (canonicalizeMessage unsigned) privateKeyPem \<rparr>)"

datatype MessageFault = Duplicate_message | Message_expired | Invalid_message_signature

text \<open>
  \<open>seenIds\<close> is a set in insertion order. When it grows past its limit the oldest id is dropped, unless that id
  is the empty string.
\<close>

definition rememberId :: "string \<Rightarrow> string list \<Rightarrow> string list" where
  "rememberId i seenIds =
     (let s = jss_add i seenIds in
      if length s > SEEN_CACHE_LIMIT \<and> hd s \<noteq> [] then removeAll (hd s) s else s)"

definition validateMessage ::
  "crypto \<Rightarrow> ms \<Rightarrow> MeshMessage \<Rightarrow> string \<Rightarrow> string list \<Rightarrow> string list \<times> MessageFault option" where
  "validateMessage cr now message publicKeyPem seenIds =
     (let u = mm_unsigned message in
      if mm_id u \<in> set seenIds then (seenIds, Some Duplicate_message)
      else if now > mm_issuedAtMs u + mm_ttlMs u then (seenIds, Some Message_expired)
      else if \<not> verifyPayload cr (canonicalizeMessage u) (mm_signature message) publicKeyPem
        then (seenIds, Some Invalid_message_signature)
      else (rememberId (mm_id u) seenIds, None))"

section \<open>Gossip\<close>

datatype NetworkMode = Public_mesh | Enterprise_overlay

record MeshPeerIdentity =
  id_peerId :: string
  id_publicKeyPem :: string
  id_coordinatorUrl :: string
  id_networkMode :: NetworkMode

record PeerKeys =
  pk_peerId :: string
  pk_publicKeyPem :: string
  pk_privateKeyPem :: string

definition createPeerIdentity :: "PeerKeys \<Rightarrow> string \<Rightarrow> NetworkMode \<Rightarrow> MeshPeerIdentity" where
  "createPeerIdentity keys coordinatorUrl networkMode =
     \<lparr> id_peerId = pk_peerId keys, id_publicKeyPem = pk_publicKeyPem keys,
       id_coordinatorUrl = coordinatorUrl, id_networkMode = networkMode \<rparr>"

text \<open>A socket is its ready state and whatever else the transport keeps.\<close>

record WebSocket =
  ws_id :: nat
  ws_readyState :: nat

record GossipMesh =
  gm_peers :: "(string, MeshPeerIdentity) jsmap"
  gm_wsPeers :: "(string, WebSocket) jsmap"
  gm_meshToken :: "string option"
  gm_failureCounts :: "(string, nat) jsmap"
  gm_natPeers :: "string list"

definition newGossipMesh :: GossipMesh where
  "newGossipMesh = \<lparr> gm_peers = [], gm_wsPeers = [], gm_meshToken = None, gm_failureCounts = [], gm_natPeers = [] \<rparr>"

definition MAX_CONSECUTIVE_FAILURES :: nat where
  "MAX_CONSECUTIVE_FAILURES = 5"

definition NAT_DETECTION_THRESHOLD :: nat where
  "NAT_DETECTION_THRESHOLD = 2"

definition setMeshToken :: "string \<Rightarrow> GossipMesh \<Rightarrow> GossipMesh" where
  "setMeshToken token g = g\<lparr> gm_meshToken := Some token \<rparr>"

definition gossipAddPeer :: "MeshPeerIdentity \<Rightarrow> GossipMesh \<Rightarrow> GossipMesh" where
  "gossipAddPeer peer g = g\<lparr> gm_peers := jsm_set (id_peerId peer) peer (gm_peers g) \<rparr>"

definition gossipRemovePeer :: "string \<Rightarrow> GossipMesh \<Rightarrow> GossipMesh" where
  "gossipRemovePeer peerId g = g\<lparr> gm_peers := jsm_delete peerId (gm_peers g),
     gm_failureCounts := jsm_delete peerId (gm_failureCounts g), gm_natPeers := removeAll peerId (gm_natPeers g) \<rparr>"

definition setWebSocketForPeer :: "string \<Rightarrow> WebSocket \<Rightarrow> GossipMesh \<Rightarrow> GossipMesh" where
  "setWebSocketForPeer peerId ws g = g\<lparr> gm_wsPeers := jsm_set peerId ws (gm_wsPeers g),
     gm_natPeers := removeAll peerId (gm_natPeers g), gm_failureCounts := jsm_delete peerId (gm_failureCounts g) \<rparr>"

definition removeWebSocketForPeer :: "string \<Rightarrow> GossipMesh \<Rightarrow> GossipMesh" where
  "removeWebSocketForPeer peerId g = g\<lparr> gm_wsPeers := jsm_delete peerId (gm_wsPeers g) \<rparr>"

definition hasWebSocket :: "string \<Rightarrow> GossipMesh \<Rightarrow> bool" where
  "hasWebSocket peerId g = (case jsm_get (gm_wsPeers g) peerId of None \<Rightarrow> False | Some ws \<Rightarrow> ws_readyState ws = 1)"

definition isNatted :: "string \<Rightarrow> GossipMesh \<Rightarrow> bool" where
  "isNatted peerId g = (peerId \<in> set (gm_natPeers g))"

definition gossipPeers :: "GossipMesh \<Rightarrow> MeshPeerIdentity list" where
  "gossipPeers g = jsm_values (gm_peers g)"

definition getWsConnectedPeerIds :: "GossipMesh \<Rightarrow> string list" where
  "getWsConnectedPeerIds g = map fst (filter (\<lambda>(peerId, ws). ws_readyState ws = 1) (gm_wsPeers g))"

definition recordFailure :: "string \<Rightarrow> GossipMesh \<Rightarrow> GossipMesh" where
  "recordFailure peerId g =
     (let count = nullish (jsm_get (gm_failureCounts g) peerId) 0 + 1;
          g1 = g\<lparr> gm_failureCounts := jsm_set peerId count (gm_failureCounts g) \<rparr>;
          g2 = (if count \<ge> NAT_DETECTION_THRESHOLD \<and> peerId \<notin> set (gm_natPeers g1)
                then g1\<lparr> gm_natPeers := jss_add peerId (gm_natPeers g1) \<rparr> else g1)
      in if count \<ge> MAX_CONSECUTIVE_FAILURES then
           (if \<not> hasWebSocket peerId g2
            then g2\<lparr> gm_peers := jsm_delete peerId (gm_peers g2),
                     gm_failureCounts := jsm_delete peerId (gm_failureCounts g2),
                     gm_natPeers := removeAll peerId (gm_natPeers g2) \<rparr>
            else g2\<lparr> gm_failureCounts := jsm_set peerId 0 (gm_failureCounts g2) \<rparr>)
         else g2)"

section \<open>Broadcast\<close>

text \<open>
  What the network answers during one broadcast: whether a send on a socket returns (rather than throws), the
  status of \<open>POST url/mesh/ingest\<close>, and that of \<open>POST url/mesh/relay-gossip\<close> for a target; \<open>None\<close> where the
  request throws.
\<close>

record Network =
  net_send :: "WebSocket \<Rightarrow> bool"
  net_ingest :: "string \<Rightarrow> nat option"
  net_relay :: "string \<Rightarrow> string \<Rightarrow> nat option"

definition status_ok :: "nat option \<Rightarrow> bool" where
  "status_ok s = (case s of None \<Rightarrow> False | Some code \<Rightarrow> 200 \<le> code \<and> code < 300)"

definition sendDirect :: "Network \<Rightarrow> string \<Rightarrow> GossipMesh \<Rightarrow> bool" where
  "sendDirect net peerId g =
     (case jsm_get (gm_wsPeers g) peerId of None \<Rightarrow> False | Some ws \<Rightarrow> ws_readyState ws = 1 \<and> net_send net ws)"

text \<open>One delivery is waiting for its HTTP answer, working through the sockets left to relay over, or done.\<close>

datatype Delivery = Awaiting_http | Relaying "(string \<times> WebSocket) list" | Delivered | Failed

definition startDelivery :: "Network \<Rightarrow> GossipMesh \<Rightarrow> MeshPeerIdentity \<Rightarrow> Delivery" where
  "startDelivery net g peer =
     (if sendDirect net (id_peerId peer) g then Delivered
      else if \<not> isNatted (id_peerId peer) g then Awaiting_http
      else Relaying (gm_wsPeers g))"

definition httpAnswer :: "Network \<Rightarrow> MeshPeerIdentity \<Rightarrow> GossipMesh \<Rightarrow> GossipMesh \<times> Delivery" where
  "httpAnswer net peer g =
     (if status_ok (net_ingest net (id_coordinatorUrl peer))
      then (g\<lparr> gm_failureCounts := jsm_delete (id_peerId peer) (gm_failureCounts g) \<rparr>, Delivered)
      else (recordFailure (id_peerId peer) g, Relaying (gm_wsPeers g)))"

fun relayNext :: "Network \<Rightarrow> GossipMesh \<Rightarrow> string \<Rightarrow> (string \<times> WebSocket) list \<Rightarrow> Delivery" where
  "relayNext net g targetPeerId [] = Failed"
| "relayNext net g targetPeerId ((connectedId, ws) # rest) =
     (if connectedId = targetPeerId \<or> ws_readyState ws \<noteq> 1 then Relaying rest
      else (case jsm_get (gm_peers g) connectedId of
              None \<Rightarrow> Relaying rest
            | Some connectedPeer \<Rightarrow>
                if status_ok (net_relay net (id_coordinatorUrl connectedPeer) targetPeerId) then Delivered
                else Relaying rest))"

fun relayViaConnectedPeer :: "Network \<Rightarrow> GossipMesh \<Rightarrow> string \<Rightarrow> (string \<times> WebSocket) list \<Rightarrow> bool" where
  "relayViaConnectedPeer net g targetPeerId [] = False"
| "relayViaConnectedPeer net g targetPeerId ((connectedId, ws) # rest) =
     (if connectedId = targetPeerId \<or> ws_readyState ws \<noteq> 1 then relayViaConnectedPeer net g targetPeerId rest
      else (case jsm_get (gm_peers g) connectedId of
              None \<Rightarrow> relayViaConnectedPeer net g targetPeerId rest
            | Some connectedPeer \<Rightarrow>
                if status_ok (net_relay net (id_coordinatorUrl connectedPeer) targetPeerId) then True
                else relayViaConnectedPeer net g targetPeerId rest))"

text \<open>The schedule in which every delivery runs to its end before the next one starts.\<close>

definition deliver :: "Network \<Rightarrow> MeshPeerIdentity \<Rightarrow> GossipMesh \<Rightarrow> GossipMesh \<times> bool" where
  "deliver net peer g =
     (if sendDirect net (id_peerId peer) g then (g, True)
      else if \<not> isNatted (id_peerId peer) g then
        (case httpAnswer net peer g of
           (g1, Delivered) \<Rightarrow> (g1, True)
         | (g1, _) \<Rightarrow> (g1, relayViaConnectedPeer net g1 (id_peerId peer) (gm_wsPeers g1)))
      else (g, relayViaConnectedPeer net g (id_peerId peer) (gm_wsPeers g)))"

definition recipients :: "string option \<Rightarrow> GossipMesh \<Rightarrow> MeshPeerIdentity list" where
  "recipients excludePeerId g =
     filter (\<lambda>p. \<not> truthy_str excludePeerId \<or> id_peerId p \<noteq> the excludePeerId) (gossipPeers g)"

definition broadcast :: "Network \<Rightarrow> string option \<Rightarrow> GossipMesh \<Rightarrow> GossipMesh \<times> nat \<times> nat" where
  "broadcast net excludePeerId g =
     foldl (\<lambda>(g, delivered, failed) peer.
        case deliver net peer g of (g', ok) \<Rightarrow> if ok then (g', delivered + 1, failed) else (g', delivered, failed + 1))
       (g, 0, 0) (recipients excludePeerId g)"

text \<open>
  The concurrent broadcast: the synchronous prefix of every delivery has run (\<open>Promise.all\<close> over the mapped
  callbacks), then the answers of the network arrive in any order.
\<close>

type_synonym bcast = "GossipMesh \<times> (MeshPeerIdentity \<times> Delivery) list"

definition bcastStart :: "Network \<Rightarrow> string option \<Rightarrow> GossipMesh \<Rightarrow> bcast" where
  "bcastStart net excludePeerId g = (g, map (\<lambda>p. (p, startDelivery net g p)) (recipients excludePeerId g))"

inductive bcast_step :: "Network \<Rightarrow> bcast \<Rightarrow> bcast \<Rightarrow> bool" for net where
  http: "i < length ds \<Longrightarrow> ds ! i = (p, Awaiting_http) \<Longrightarrow> httpAnswer net p g = (g', d) \<Longrightarrow>
    bcast_step net (g, ds) (g', ds[i := (p, d)])"
| relay: "i < length ds \<Longrightarrow> ds ! i = (p, Relaying ws) \<Longrightarrow>
    bcast_step net (g, ds) (g, ds[i := (p, relayNext net g (id_peerId p) ws)])"

fun pending :: "Delivery \<Rightarrow> bool" where
  "pending Awaiting_http = True"
| "pending (Relaying _) = True"
| "pending Delivered = False"
| "pending Failed = False"

definition bcastCounts :: "bcast \<Rightarrow> nat \<times> nat" where
  "bcastCounts c = (length (filter (\<lambda>(p, d). d = Delivered) (snd c)), length (filter (\<lambda>(p, d). d = Failed) (snd c)))"

section \<open>Every schedule of a broadcast\<close>

definition gossip_wf :: "GossipMesh \<Rightarrow> bool" where
  "gossip_wf g = (jsm_wf (gm_peers g) \<and> jsm_wf (gm_wsPeers g) \<and> (\<forall>(k, p) \<in> set (gm_peers g). id_peerId p = k))"

text \<open>What the mesh keeps about one peer id.\<close>

definition footprint :: "GossipMesh \<Rightarrow> string \<Rightarrow> nat option \<times> bool \<times> MeshPeerIdentity option" where
  "footprint g k = (jsm_get (gm_failureCounts g) k, k \<in> set (gm_natPeers g), jsm_get (gm_peers g) k)"

text \<open>A broadcast leaves the sockets alone, and the entries of the peers it can relay over.\<close>

definition keeps :: "GossipMesh \<Rightarrow> GossipMesh \<Rightarrow> bool" where
  "keeps g0 g = (gm_wsPeers g = gm_wsPeers g0 \<and> (\<forall>c. hasWebSocket c g0 \<longrightarrow> jsm_get (gm_peers g) c = jsm_get (gm_peers g0) c))"

lemma keeps_refl [simp]: "keeps g g"
  by (simp add: keeps_def)

lemma ws_recordFailure [simp]: "gm_wsPeers (recordFailure k g) = gm_wsPeers g"
  by (simp add: recordFailure_def Let_def)

lemma ws_httpAnswer [simp]: "gm_wsPeers (fst (httpAnswer net p g)) = gm_wsPeers g"
  by (simp add: httpAnswer_def)

lemma footprint_recordFailure_other: "k \<noteq> j \<Longrightarrow> footprint (recordFailure j g) k = footprint g k"
  by (simp add: footprint_def recordFailure_def Let_def jsm_get_set jsm_get_delete)

lemma footprint_httpAnswer_other: "k \<noteq> id_peerId p \<Longrightarrow> footprint (fst (httpAnswer net p g)) k = footprint g k"
  by (simp add: httpAnswer_def footprint_recordFailure_other) (simp add: footprint_def jsm_get_delete)

lemma footprint_recordFailure_same:
  assumes "footprint g j = footprint g0 j" "gm_wsPeers g = gm_wsPeers g0"
  shows "footprint (recordFailure j g) j = footprint (recordFailure j g0) j"
  using assms by (simp add: footprint_def recordFailure_def Let_def jsm_get_set jsm_get_delete hasWebSocket_def)

lemma footprint_httpAnswer_same:
  assumes "footprint g (id_peerId p) = footprint g0 (id_peerId p)" "gm_wsPeers g = gm_wsPeers g0"
  shows "footprint (fst (httpAnswer net p g)) (id_peerId p) = footprint (fst (httpAnswer net p g0)) (id_peerId p)"
  using assms footprint_recordFailure_same [OF assms]
  by (simp add: httpAnswer_def) (simp add: footprint_def jsm_get_delete)

lemma delivery_httpAnswer: "gm_wsPeers g = gm_wsPeers g0 \<Longrightarrow> snd (httpAnswer net p g) = snd (httpAnswer net p g0)"
  by (simp add: httpAnswer_def)

lemma peers_recordFailure: "hasWebSocket c g \<Longrightarrow> jsm_get (gm_peers (recordFailure k g)) c = jsm_get (gm_peers g) c"
  by (cases "c = k") (simp_all add: recordFailure_def Let_def jsm_get_delete hasWebSocket_def)

lemma keeps_httpAnswer: "keeps g0 g \<Longrightarrow> keeps g0 (fst (httpAnswer net p g))"
  using peers_recordFailure by (simp add: keeps_def httpAnswer_def hasWebSocket_def)

lemma open_entry: "jsm_wf (gm_wsPeers g) \<Longrightarrow> (c, ws) \<in> set (gm_wsPeers g) \<Longrightarrow> ws_readyState ws = 1 \<Longrightarrow> hasWebSocket c g"
  by (simp add: hasWebSocket_def jsm_get_iff [symmetric])

lemma relay_keeps:
  assumes "keeps g0 g" "jsm_wf (gm_wsPeers g0)" "set ws \<subseteq> set (gm_wsPeers g0)"
  shows "relayNext net g t ws = relayNext net g0 t ws \<and> relayViaConnectedPeer net g t ws = relayViaConnectedPeer net g0 t ws"
  using assms(3)
proof (induction ws)
  case (Cons e ws)
  obtain c w where e: "e = (c, w)" by (cases e)
  have "jsm_get (gm_peers g) c = jsm_get (gm_peers g0) c" if "ws_readyState w = 1"
    using open_entry [OF assms(2), of c w] Cons.prems e that assms(1) unfolding keeps_def by simp
  with Cons e show ?case by (auto split: option.splits)
qed simp

definition verdict :: "Network \<Rightarrow> GossipMesh \<Rightarrow> MeshPeerIdentity \<Rightarrow> bool" where
  "verdict net g p = (sendDirect net (id_peerId p) g \<or> (\<not> isNatted (id_peerId p) g \<and> status_ok (net_ingest net (id_coordinatorUrl p)))
     \<or> relayViaConnectedPeer net g (id_peerId p) (gm_wsPeers g))"

text \<open>How a delivery in a given state will end.\<close>

fun outcome :: "Network \<Rightarrow> GossipMesh \<Rightarrow> MeshPeerIdentity \<Rightarrow> Delivery \<Rightarrow> bool" where
  "outcome net g p Delivered = True"
| "outcome net g p Failed = False"
| "outcome net g p (Relaying ws) = relayViaConnectedPeer net g (id_peerId p) ws"
| "outcome net g p Awaiting_http =
     (status_ok (net_ingest net (id_coordinatorUrl p)) \<or> relayViaConnectedPeer net g (id_peerId p) (gm_wsPeers g))"

lemma outcome_start: "outcome net g p (startDelivery net g p) = verdict net g p"
  by (simp add: startDelivery_def verdict_def)

lemma outcome_http: "gm_wsPeers g = gm_wsPeers g0 \<Longrightarrow> outcome net g0 p (snd (httpAnswer net p g)) = outcome net g0 p Awaiting_http"
  by (simp add: httpAnswer_def)

lemma outcome_relay: "outcome net g p (relayNext net g (id_peerId p) ws) = relayViaConnectedPeer net g (id_peerId p) ws"
  by (cases ws) (auto split: option.splits)

text \<open>The effect of a delivery on its own peer.\<close>

definition effect :: "Network \<Rightarrow> GossipMesh \<Rightarrow> MeshPeerIdentity \<Rightarrow> nat option \<times> bool \<times> MeshPeerIdentity option" where
  "effect net g p = footprint (if startDelivery net g p = Awaiting_http then fst (httpAnswer net p g) else g) (id_peerId p)"

definition delivery_ok :: "Network \<Rightarrow> GossipMesh \<Rightarrow> GossipMesh \<Rightarrow> MeshPeerIdentity \<times> Delivery \<Rightarrow> bool" where
  "delivery_ok net g0 g pd = (case pd of (p, d) \<Rightarrow>
     outcome net g0 p d = verdict net g0 p \<and>
     (case d of Relaying ws \<Rightarrow> set ws \<subseteq> set (gm_wsPeers g0) | _ \<Rightarrow> True) \<and>
     (d = Awaiting_http \<longrightarrow> startDelivery net g0 p = Awaiting_http) \<and>
     footprint g (id_peerId p) = (if d = Awaiting_http then footprint g0 (id_peerId p) else effect net g0 p))"

definition bcast_inv :: "Network \<Rightarrow> GossipMesh \<Rightarrow> MeshPeerIdentity list \<Rightarrow> bcast \<Rightarrow> bool" where
  "bcast_inv net g0 ps c = (case c of (g, ds) \<Rightarrow>
     map fst ds = ps \<and> keeps g0 g \<and> list_all (delivery_ok net g0 g) ds \<and>
     (\<forall>k. k \<notin> id_peerId ` set ps \<longrightarrow> footprint g k = footprint g0 k))"

lemma delivery_ok_cong: "footprint g (id_peerId (fst pd)) = footprint g' (id_peerId (fst pd)) \<Longrightarrow>
    delivery_ok net g0 g pd = delivery_ok net g0 g' pd"
  by (cases pd) (simp add: delivery_ok_def)

lemma delivery_ok_start: "delivery_ok net g g (p, startDelivery net g p)"
  unfolding delivery_ok_def prod.case outcome_start by (simp add: effect_def startDelivery_def)

lemma delivery_ok_http:
  assumes "delivery_ok net g0 g (p, Awaiting_http)" "keeps g0 g"
  shows "delivery_ok net g0 (fst (httpAnswer net p g)) (p, snd (httpAnswer net p g))"
proof -
  have ws: "gm_wsPeers g = gm_wsPeers g0" using assms(2) by (simp add: keeps_def)
  have na: "snd (httpAnswer net p g) \<noteq> Awaiting_http" by (simp add: httpAnswer_def)
  have sub: "case snd (httpAnswer net p g) of Relaying w \<Rightarrow> set w \<subseteq> set (gm_wsPeers g0) | _ \<Rightarrow> True"
    using ws by (simp add: httpAnswer_def)
  have fp: "footprint (fst (httpAnswer net p g)) (id_peerId p) = effect net g0 p"
    using footprint_httpAnswer_same [OF _ ws] assms(1) by (simp add: delivery_ok_def effect_def)
  show ?thesis using assms(1) outcome_http [OF ws] na sub fp unfolding delivery_ok_def by simp
qed

lemma delivery_ok_relay:
  assumes "delivery_ok net g0 g (p, Relaying ws)" "keeps g0 g" "jsm_wf (gm_wsPeers g0)"
  shows "delivery_ok net g0 g (p, relayNext net g (id_peerId p) ws)"
proof -
  have sub: "set ws \<subseteq> set (gm_wsPeers g0)" using assms(1) by (simp add: delivery_ok_def)
  have eq: "relayNext net g (id_peerId p) ws = relayNext net g0 (id_peerId p) ws"
    using relay_keeps [OF assms(2,3) sub] by simp
  have "relayNext net g0 (id_peerId p) ws \<noteq> Awaiting_http \<and>
      (case relayNext net g0 (id_peerId p) ws of Relaying w \<Rightarrow> set w \<subseteq> set (gm_wsPeers g0) | _ \<Rightarrow> True)"
    using sub by (cases ws) (auto split: option.splits if_splits)
  with assms(1) show ?thesis unfolding eq by (simp add: delivery_ok_def outcome_relay)
qed

lemma bcast_inv_start: "bcast_inv net g (recipients e g) (bcastStart net e g)"
  by (simp add: bcast_inv_def bcastStart_def comp_def list_all_iff delivery_ok_start)

lemma distinct_other:
  "distinct (map id_peerId (map fst ds)) \<Longrightarrow> i < length ds \<Longrightarrow> j < length ds \<Longrightarrow> j \<noteq> i \<Longrightarrow>
   id_peerId (fst (ds ! j)) \<noteq> id_peerId (fst (ds ! i))"
  by (auto simp: distinct_conv_nth)

text \<open>Replacing one delivery, with a change of state that only its own peer sees.\<close>

lemma bcast_inv_update:
  assumes inv: "bcast_inv net g0 ps (g, ds)" and "distinct (map id_peerId ps)" and i: "i < length ds" "ds ! i = (p, d)"
    and "keeps g0 g'" "delivery_ok net g0 g' (p, d')"
    and other: "\<And>k. k \<noteq> id_peerId p \<Longrightarrow> footprint g' k = footprint g k"
  shows "bcast_inv net g0 ps (g', ds[i := (p, d')])"
proof -
  have ps: "map fst ds = ps" using inv by (simp add: bcast_inv_def)
  have p: "p \<in> set ps" using i ps nth_mem [OF i(1)] by force
  have "delivery_ok net g0 g' (ds[i := (p, d')] ! j)" if "j < length ds" for j
  proof (cases "j = i")
    case False
    then have "footprint g' (id_peerId (fst (ds ! j))) = footprint g (id_peerId (fst (ds ! j)))"
      using distinct_other [of ds i j] assms(2) ps i that other by simp
    then have "delivery_ok net g0 g' (ds ! j) = delivery_ok net g0 g (ds ! j)" by (rule delivery_ok_cong)
    then show ?thesis using False inv that by (simp add: bcast_inv_def list_all_length)
  qed (use assms(6) that in simp)
  moreover have "map fst (ds[i := (p, d')]) = ps" using ps i by (auto simp: map_update list_update_same_conv)
  moreover have "footprint g' k = footprint g0 k" if "k \<notin> id_peerId ` set ps" for k
    using that p other [of k] inv by (auto simp: bcast_inv_def)
  ultimately show ?thesis using assms(5) by (simp add: bcast_inv_def list_all_length)
qed

lemma bcast_inv_step:
  assumes "bcast_step net c c'" "bcast_inv net g0 ps c" "distinct (map id_peerId ps)" "jsm_wf (gm_wsPeers g0)"
  shows "bcast_inv net g0 ps c'"
  using assms(1)
proof cases
  case (http i ds p g g' d)
  have k: "keeps g0 g" "delivery_ok net g0 g (p, Awaiting_http)"
    using assms(2) http by (simp_all add: bcast_inv_def list_all_length) metis
  have g': "g' = fst (httpAnswer net p g)" "d = snd (httpAnswer net p g)" using http by simp_all
  show ?thesis unfolding http(2) g'
    by (rule bcast_inv_update [OF _ assms(3) http(3,4) keeps_httpAnswer [OF k(1)] delivery_ok_http [OF k(2,1)]])
      (use assms(2) http(1) footprint_httpAnswer_other in simp_all)
next
  case (relay i ds p ws g)
  have k: "keeps g0 g" "delivery_ok net g0 g (p, Relaying ws)"
    using assms(2) relay by (simp_all add: bcast_inv_def list_all_length) metis
  show ?thesis unfolding relay(2)
    by (rule bcast_inv_update [OF _ assms(3) relay(3,4) k(1) delivery_ok_relay [OF k(2,1) assms(4)]])
      (use assms(2) relay(1) in simp_all)
qed

text \<open>The steps left, at most.\<close>

fun steps_left :: "nat \<Rightarrow> Delivery \<Rightarrow> nat" where
  "steps_left n Awaiting_http = n + 2"
| "steps_left n (Relaying ws) = length ws + 1"
| "steps_left n Delivered = 0"
| "steps_left n Failed = 0"

definition work :: "bcast \<Rightarrow> nat" where
  "work c = sum_list (map (\<lambda>(p, d). steps_left (length (gm_wsPeers (fst c))) d) (snd c))"

lemma sum_list_update_less:
  "i < length xs \<Longrightarrow> f y < f (xs ! i) \<Longrightarrow> sum_list (map f (xs[i := y])) < (sum_list (map f xs) :: nat)"
proof (induction xs arbitrary: i)
  case (Cons x xs)
  then show ?case by (cases i) auto
qed simp

lemma work_step: "bcast_step net c c' \<Longrightarrow> work c' < work c"
proof (induction rule: bcast_step.induct)
  case (http i ds p g g' d)
  have "gm_wsPeers g' = gm_wsPeers g" "steps_left (length (gm_wsPeers g)) d < length (gm_wsPeers g) + 2"
    using http(3) ws_httpAnswer [of net p g] by (auto simp: httpAnswer_def split: if_splits)
  with http show ?case unfolding work_def by (simp add: sum_list_update_less)
next
  case (relay i ds p ws g)
  have "steps_left n (relayNext net g (id_peerId p) ws) < length ws + 1" for n
    by (cases ws) (auto split: option.splits)
  with relay show ?case unfolding work_def by (simp add: sum_list_update_less)
qed

lemma run_bound: "(bcast_step net ^^ n) c c' \<Longrightarrow> n + work c' \<le> work c"
proof (induction n arbitrary: c')
  case (Suc n)
  then obtain m where "(bcast_step net ^^ n) c m" "bcast_step net m c'" by auto
  with Suc.IH work_step [of net m c'] show ?case by fastforce
qed simp

lemma run_bcast_inv:
  "(bcast_step net ^^ n) c c' \<Longrightarrow> bcast_inv net g0 ps c \<Longrightarrow> distinct (map id_peerId ps) \<Longrightarrow> jsm_wf (gm_wsPeers g0) \<Longrightarrow>
   bcast_inv net g0 ps c'"
proof (induction n arbitrary: c')
  case (Suc n)
  then obtain m where "(bcast_step net ^^ n) c m" "bcast_step net m c'" by auto
  with Suc bcast_inv_step [of net m c' g0 ps] show ?case by simp
qed simp

lemma sum_list_le_length: "(\<And>x. x \<in> set xs \<Longrightarrow> f x \<le> (n::nat)) \<Longrightarrow> sum_list (map f xs) \<le> length xs * n"
  by (induction xs) (simp_all add: add_mono)

lemma work_start: "work (bcastStart net e g) \<le> length (recipients e g) * (length (gm_wsPeers g) + 2)"
proof -
  have "steps_left n d \<le> n + 2" if "length (case d of Relaying ws \<Rightarrow> ws | _ \<Rightarrow> []) \<le> n" for n d
    using that by (cases d) auto
  then have "steps_left (length (gm_wsPeers g)) (startDelivery net g p) \<le> length (gm_wsPeers g) + 2" for p
    by (simp add: startDelivery_def)
  then show ?thesis unfolding work_def bcastStart_def
    using sum_list_le_length [of "recipients e g" "\<lambda>p. steps_left (length (gm_wsPeers g)) (startDelivery net g p)"
      "length (gm_wsPeers g) + 2"]
    by (simp add: comp_def)
qed

lemma pending_steps: "x \<in> set (snd c) \<Longrightarrow> pending (snd x) \<Longrightarrow> \<exists>c'. bcast_step net c c'"
proof -
  assume x: "x \<in> set (snd c)" "pending (snd x)"
  obtain g ds where c: "c = (g, ds)" by (cases c)
  obtain p d where pd: "x = (p, d)" by (cases x)
  obtain i where i: "i < length ds" "ds ! i = (p, d)" using x c pd by (auto simp: in_set_conv_nth)
  show ?thesis
  proof (cases d)
    case Awaiting_http
    with i c bcast_step.http [of i ds p net g] show ?thesis by (cases "httpAnswer net p g") auto
  next
    case (Relaying ws)
    with i c bcast_step.relay [of i ds p ws net g] show ?thesis by auto
  qed (use x pd in auto)
qed

text \<open>One delivery of the sequential schedule, started from a state that agrees with \<open>g0\<close> on its peer.\<close>

lemma deliver_agrees:
  assumes "keeps g0 g" "jsm_wf (gm_wsPeers g0)" "footprint g (id_peerId p) = footprint g0 (id_peerId p)"
  shows "snd (deliver net p g) = verdict net g0 p" (is ?v)
    and "footprint (fst (deliver net p g)) (id_peerId p) = effect net g0 p" (is ?f)
    and "keeps g0 (fst (deliver net p g))" (is ?k)
    and "k \<noteq> id_peerId p \<Longrightarrow> footprint (fst (deliver net p g)) k = footprint g k"
proof -
  have ws: "gm_wsPeers g = gm_wsPeers g0" using assms(1) by (simp add: keeps_def)
  have sd: "sendDirect net (id_peerId p) g = sendDirect net (id_peerId p) g0" using ws by (simp add: sendDirect_def)
  have na: "isNatted (id_peerId p) g = isNatted (id_peerId p) g0" using assms(3) by (simp add: isNatted_def footprint_def)
  let ?h = "fst (httpAnswer net p g)"
  have rel: "relayViaConnectedPeer net g' (id_peerId p) (gm_wsPeers g0) = relayViaConnectedPeer net g0 (id_peerId p) (gm_wsPeers g0)"
    if "keeps g0 g'" for g' using relay_keeps [OF that assms(2)] by simp
  have kh: "keeps g0 ?h" by (rule keeps_httpAnswer [OF assms(1)])
  have st: "fst (deliver net p g) = (if startDelivery net g0 p = Awaiting_http then ?h else g)"
    using sd na by (auto simp: deliver_def startDelivery_def split: prod.splits Delivery.splits)
  show ?f unfolding st effect_def using footprint_httpAnswer_same [OF assms(3) ws] assms(3) by simp
  show ?k unfolding st using kh assms(1) by simp
  show "k \<noteq> id_peerId p \<Longrightarrow> footprint (fst (deliver net p g)) k = footprint g k"
    unfolding st using footprint_httpAnswer_other by simp
  obtain h dl where h: "httpAnswer net p g = (h, dl)" "gm_wsPeers h = gm_wsPeers g"
    using ws_httpAnswer [of net p g] by (cases "httpAnswer net p g") simp
  have "snd (deliver net p g) = (sendDirect net (id_peerId p) g0 \<or>
      (if isNatted (id_peerId p) g0 then relayViaConnectedPeer net g (id_peerId p) (gm_wsPeers g)
       else snd (httpAnswer net p g) = Delivered \<or> relayViaConnectedPeer net ?h (id_peerId p) (gm_wsPeers g)))"
    using sd na h by (cases dl) (simp_all add: deliver_def)
  also have "\<dots> = verdict net g0 p"
    unfolding ws rel [OF assms(1)] rel [OF kh] verdict_def by (auto simp: httpAnswer_def)
  finally show ?v .
qed

lemma broadcast_fold:
  assumes "distinct (map id_peerId ps)" "keeps g0 g" "jsm_wf (gm_wsPeers g0)"
    and "\<And>p. p \<in> set ps \<Longrightarrow> footprint g (id_peerId p) = footprint g0 (id_peerId p)"
  shows "case foldl (\<lambda>(g, d, f) peer. case deliver net peer g of (g', ok) \<Rightarrow> if ok then (g', d + 1, f) else (g', d, f + 1)) (g, d, f) ps of
    (g', d', f') \<Rightarrow> d' = d + length (filter (verdict net g0) ps) \<and> f' = f + length (filter (\<lambda>p. \<not> verdict net g0 p) ps) \<and>
      keeps g0 g' \<and> (\<forall>p \<in> set ps. footprint g' (id_peerId p) = effect net g0 p) \<and>
      (\<forall>k. k \<notin> id_peerId ` set ps \<longrightarrow> footprint g' k = footprint g k)"
  using assms
proof (induction ps arbitrary: g d f)
  case (Cons p ps)
  obtain g1 ok where d1: "deliver net p g = (g1, ok)" by (cases "deliver net p g")
  note a = deliver_agrees [OF Cons.prems(2,3) Cons.prems(4) [OF list.set_intros(1)], where net = net, unfolded d1, simplified]
  have dist: "distinct (map id_peerId ps)" "id_peerId p \<notin> id_peerId ` set ps" using Cons.prems(1) by auto
  have fp: "footprint g1 (id_peerId q) = footprint g0 (id_peerId q)" if "q \<in> set ps" for q
  proof -
    have "id_peerId q \<noteq> id_peerId p" using that dist(2) by (metis imageI)
    with a(4) [of "id_peerId q"] Cons.prems(4) [of q] that show ?thesis by simp
  qed
  note ih = Cons.IH [OF dist(1) a(3) Cons.prems(3) fp]
  show ?case
    using ih [of "if ok then d + 1 else d" "if ok then f else f + 1"] dist(2) a(1,2,4) d1
    by (cases ok) (auto split: prod.splits)
qed simp

text \<open>The result of a broadcast, in the sequential schedule.\<close>

lemma recipients_distinct: "gossip_wf g \<Longrightarrow> distinct (map id_peerId (recipients e g))"
proof -
  assume wf: "gossip_wf g"
  then have "map id_peerId (gossipPeers g) = map fst (gm_peers g)"
    by (auto simp: gossip_wf_def gossipPeers_def jsm_values_def)
  with wf show ?thesis unfolding recipients_def
    by (auto simp: gossip_wf_def jsm_wf_def intro: distinct_map_filter)
qed

lemma broadcast_result:
  assumes "gossip_wf g" "broadcast net e g = (g', d, f)"
  shows "d = length (filter (verdict net g) (recipients e g)) \<and> f = length (filter (\<lambda>p. \<not> verdict net g p) (recipients e g)) \<and>
    keeps g g' \<and> (\<forall>p \<in> set (recipients e g). footprint g' (id_peerId p) = effect net g p) \<and>
    (\<forall>k. k \<notin> id_peerId ` set (recipients e g) \<longrightarrow> footprint g' k = footprint g k)"
  using broadcast_fold [OF recipients_distinct [OF assms(1), of e] keeps_refl [of g], where net = net and d = 0 and f = 0] assms
  by (simp add: broadcast_def gossip_wf_def)

lemma bcast_final:
  assumes "bcast_inv net g0 ps (g, ds)" "\<And>x. x \<in> set ds \<Longrightarrow> \<not> pending (snd x)"
  shows "bcastCounts (g, ds) = (length (filter (verdict net g0) ps), length (filter (\<lambda>p. \<not> verdict net g0 p) ps))"
    and "\<And>p. p \<in> set ps \<Longrightarrow> footprint g (id_peerId p) = effect net g0 p"
proof -
  have ps: "ps = map fst ds" using assms(1) by (auto simp: bcast_inv_def)
  have d: "snd x = (if verdict net g0 (fst x) then Delivered else Failed) \<and> footprint g (id_peerId (fst x)) = effect net g0 (fst x)"
    if x: "x \<in> set ds" for x
  proof -
    have "delivery_ok net g0 g x" "\<not> pending (snd x)" using assms x by (auto simp: bcast_inv_def list_all_iff)
    then show ?thesis by (cases x; cases "snd x") (auto simp: delivery_ok_def)
  qed
  have "(case x of (p, d) \<Rightarrow> d = Delivered) = verdict net g0 (fst x) \<and> (case x of (p, d) \<Rightarrow> d = Failed) = (\<not> verdict net g0 (fst x))"
    if "x \<in> set ds" for x
    using d [OF that] by (cases x) (simp split: if_splits)
  then have "filter (\<lambda>(p, d). d = Delivered) ds = filter (\<lambda>x. verdict net g0 (fst x)) ds"
    "filter (\<lambda>(p, d). d = Failed) ds = filter (\<lambda>x. \<not> verdict net g0 (fst x)) ds"
    by (simp_all cong: filter_cong)
  then show "bcastCounts (g, ds) = (length (filter (verdict net g0) ps), length (filter (\<lambda>p. \<not> verdict net g0 p) ps))"
    unfolding ps bcastCounts_def by (simp add: filter_map comp_def)
  show "\<And>p. p \<in> set ps \<Longrightarrow> footprint g (id_peerId p) = effect net g0 p" using d ps by auto
qed

text \<open>
  C19: a broadcast ends under every schedule, and the schedule does not matter. After any \<open>n\<close> steps of the
  concurrent deliveries, \<open>n\<close> is at most the number of recipients times the number of sockets plus two; while a
  delivery is pending some step is possible; and once none is pending the delivered and failed counts, and what the
  mesh records about every peer, are those of the schedule that finishes one delivery before it starts the next.
\<close>

theorem broadcast_schedule_independent:
  assumes "gossip_wf g" "(bcast_step net ^^ n) (bcastStart net e g) c"
  shows "n \<le> length (recipients e g) * (length (gm_wsPeers g) + 2) \<and>
    (list_ex (\<lambda>(p, d). pending d) (snd c) \<longrightarrow> (\<exists>c'. bcast_step net c c')) \<and>
    (\<not> list_ex (\<lambda>(p, d). pending d) (snd c) \<longrightarrow>
       bcastCounts c = snd (broadcast net e g) \<and>
       (\<forall>k. footprint (fst c) k = footprint (fst (broadcast net e g)) k) \<and>
       gm_wsPeers (fst c) = gm_wsPeers (fst (broadcast net e g)))"
proof (intro conjI impI)
  show "n \<le> length (recipients e g) * (length (gm_wsPeers g) + 2)"
    using run_bound [OF assms(2)] work_start [of net e g] by simp
  show "\<exists>c'. bcast_step net c c'" if pend: "list_ex (\<lambda>(p, d). pending d) (snd c)"
  proof -
    obtain p d where "(p, d) \<in> set (snd c)" "pending d" using pend by (auto simp: list_ex_iff)
    then show ?thesis using pending_steps [of "(p, d)" c net] by simp
  qed
next
  assume fin: "\<not> list_ex (\<lambda>(p, d). pending d) (snd c)"
  obtain g1 ds where c: "c = (g1, ds)" by (cases c)
  obtain g' d f where b: "broadcast net e g = (g', d, f)" by (cases "broadcast net e g")
  have wf: "jsm_wf (gm_wsPeers g)" using assms(1) by (simp add: gossip_wf_def)
  have inv: "bcast_inv net g (recipients e g) (g1, ds)"
    using run_bcast_inv [OF assms(2) bcast_inv_start recipients_distinct [OF assms(1)] wf] c by simp
  have np: "\<And>x. x \<in> set ds \<Longrightarrow> \<not> pending (snd x)" using fin c by (auto simp: list_ex_iff)
  note r = broadcast_result [OF assms(1) b]
  show "bcastCounts c = snd (broadcast net e g)" using bcast_final(1) [OF inv np] r b c by simp
  show "\<forall>k. footprint (fst c) k = footprint (fst (broadcast net e g)) k"
  proof
    fix k
    show "footprint (fst c) k = footprint (fst (broadcast net e g)) k"
    proof (cases "k \<in> id_peerId ` set (recipients e g)")
      case True
      with bcast_final(2) [OF inv np] r b c show ?thesis by auto
    next
      case False
      with inv r b c show ?thesis by (simp add: bcast_inv_def)
    qed
  qed
  show "gm_wsPeers (fst c) = gm_wsPeers (fst (broadcast net e g))"
    using inv r b c by (simp add: bcast_inv_def keeps_def)
qed

section \<open>Failure counts\<close>

datatype gossip_op =
    GAddPeer MeshPeerIdentity
  | GRemovePeer string
  | GSetWebSocket string WebSocket
  | GRemoveWebSocket string
  | GReadyState string nat
  | GBroadcast Network "string option"

text \<open>\<open>GReadyState\<close> is the transport changing the state of a socket.\<close>

fun gossip_exec :: "gossip_op \<Rightarrow> GossipMesh \<Rightarrow> GossipMesh" where
  "gossip_exec (GAddPeer p) g = gossipAddPeer p g"
| "gossip_exec (GRemovePeer k) g = gossipRemovePeer k g"
| "gossip_exec (GSetWebSocket k ws) g = setWebSocketForPeer k ws g"
| "gossip_exec (GRemoveWebSocket k) g = removeWebSocketForPeer k g"
| "gossip_exec (GReadyState k n) g = g\<lparr> gm_wsPeers := jsm_modify k (\<lambda>ws. ws\<lparr> ws_readyState := n \<rparr>) (gm_wsPeers g) \<rparr>"
| "gossip_exec (GBroadcast net e) g = fst (broadcast net e g)"

text \<open>Between broadcasts no peer has more than two failures, and one with two is marked as NATed.\<close>

definition nat_inv :: "GossipMesh \<Rightarrow> bool" where
  "nat_inv g = (\<forall>k n. jsm_get (gm_failureCounts g) k = Some n \<longrightarrow> n \<le> 2 \<and> (n = 2 \<longrightarrow> k \<in> set (gm_natPeers g)))"

definition gossip_inv :: "GossipMesh \<Rightarrow> bool" where
  "gossip_inv g = (gossip_wf g \<and> nat_inv g)"

lemma failures_below:
  assumes "nat_inv g" "\<not> isNatted k g"
  shows "nullish (jsm_get (gm_failureCounts g) k) 0 < 2"
  using assms by (cases "jsm_get (gm_failureCounts g) k") (fastforce simp: nat_inv_def isNatted_def nullish_def)+

lemma recordFailure_below:
  assumes "nullish (jsm_get (gm_failureCounts g) k) 0 < 2"
  shows "gm_peers (recordFailure k g) = gm_peers g"
    and "nat_inv g \<Longrightarrow> nat_inv (recordFailure k g)"
  using assms
  by (auto simp: recordFailure_def Let_def MAX_CONSECUTIVE_FAILURES_def NAT_DETECTION_THRESHOLD_def nat_inv_def jsm_get_set
      split: if_splits)

lemma deliver_nat_inv: "nat_inv g \<Longrightarrow> nat_inv (fst (deliver net p g)) \<and> gm_peers (fst (deliver net p g)) = gm_peers g"
proof -
  assume inv: "nat_inv g"
  have "nat_inv (fst (httpAnswer net p g)) \<and> gm_peers (fst (httpAnswer net p g)) = gm_peers g" if "\<not> isNatted (id_peerId p) g"
    using recordFailure_below [OF failures_below [OF inv that]] inv
    by (auto simp: httpAnswer_def) (auto simp: nat_inv_def jsm_get_delete split: if_splits)
  with inv show ?thesis by (auto simp: deliver_def split: prod.splits Delivery.splits)
qed

lemma ws_deliver [simp]: "gm_wsPeers (fst (deliver net p g)) = gm_wsPeers g"
  using ws_httpAnswer [of net p g]
  by (cases "httpAnswer net p g"; cases "snd (httpAnswer net p g)") (simp_all add: deliver_def)

lemma broadcast_nat_inv:
  "nat_inv g \<Longrightarrow> case foldl (\<lambda>(g, d, f) peer. case deliver net peer g of (g', ok) \<Rightarrow> if ok then (g', d + 1, f) else (g', d, f + 1)) (g, d :: nat, f :: nat) ps
     of (g', d', f') \<Rightarrow> nat_inv g' \<and> gm_peers g' = gm_peers g \<and> gm_wsPeers g' = gm_wsPeers g"
proof (induction ps arbitrary: g d f)
  case (Cons p ps)
  obtain g1 ok where d1: "deliver net p g = (g1, ok)" by (cases "deliver net p g")
  with deliver_nat_inv [OF Cons.prems, of net p] ws_deliver [of net p g]
  have g1: "nat_inv g1" "gm_peers g1 = gm_peers g" "gm_wsPeers g1 = gm_wsPeers g" by simp_all
  show ?case using Cons.IH [OF g1(1), of "if ok then d + 1 else d" "if ok then f else f + 1"] g1 d1
    by (cases ok) simp_all
qed simp

lemma broadcast_keeps_peers:
  "nat_inv g \<Longrightarrow> nat_inv (fst (broadcast net e g)) \<and> gm_peers (fst (broadcast net e g)) = gm_peers g \<and>
    gm_wsPeers (fst (broadcast net e g)) = gm_wsPeers g"
  using broadcast_nat_inv [of g net 0 0 "recipients e g"] by (auto simp: broadcast_def split: prod.splits)

lemma gossip_exec_inv: "gossip_inv g \<Longrightarrow> gossip_inv (gossip_exec opn g)"
proof (cases opn)
  case (GAddPeer p)
  assume "gossip_inv g"
  with GAddPeer show ?thesis using set_jsm_set [of "id_peerId p" p "gm_peers g"]
    by (auto simp: gossip_inv_def gossip_wf_def gossipAddPeer_def nat_inv_def)
next
  case (GBroadcast net e)
  assume "gossip_inv g"
  with GBroadcast broadcast_keeps_peers [of g net e] show ?thesis by (simp add: gossip_inv_def gossip_wf_def)
qed (auto simp: gossip_inv_def gossip_wf_def nat_inv_def gossipRemovePeer_def setWebSocketForPeer_def removeWebSocketForPeer_def
    jsm_modify_def set_jsm_delete jsm_get_delete split: if_splits option.splits)

interpretation gossip: op_machine_init gossip_exec gossip_inv newGossipMesh
  by unfold_locales (simp_all add: gossip_exec_inv, simp add: gossip_inv_def gossip_wf_def nat_inv_def newGossipMesh_def)

text \<open>
  As long as broadcasts do not overlap, the eviction in \<open>recordFailure\<close> is never reached: after two failures the
  peer is NATed, HTTP is skipped, and its count stops below \<open>MAX_CONSECUTIVE_FAILURES\<close>.
\<close>

lemma sequential_broadcasts_never_evict:
  "gm_peers (fst (broadcast net e (fold gossip_exec ops newGossipMesh))) = gm_peers (fold gossip_exec ops newGossipMesh)"
  using broadcast_keeps_peers gossip.reach_inv by (simp add: gossip_inv_def)

section \<open>The cache of message ids\<close>

lemma remember_keeps:
  assumes "seen = pre @ x # post" "length post + 1 < SEEN_CACHE_LIMIT" "distinct seen"
  shows "\<exists>pre' post'. rememberId y seen = pre' @ x # post' \<and> length post' \<le> length post + 1"
proof (cases "y \<in> set seen \<or> \<not> length (seen @ [y]) > SEEN_CACHE_LIMIT \<or> hd (seen @ [y]) = []")
  case True
  then have "rememberId y seen = pre @ x # post \<or> rememberId y seen = pre @ x # (post @ [y]) \<or>
      (rememberId y seen = removeAll (hd seen) seen \<and> y \<in> set seen \<and> length seen > SEEN_CACHE_LIMIT)"
    using assms(1) by (auto simp: rememberId_def jss_add_def Let_def)
  then show ?thesis
  proof (elim disjE)
    assume r: "rememberId y seen = removeAll (hd seen) seen \<and> y \<in> set seen \<and> length seen > SEEN_CACHE_LIMIT"
    then obtain z pre' where "pre = z # pre'" using assms by (cases pre) auto
    with r assms have "rememberId y seen = pre' @ x # post" by (simp add: removeAll_id)
    then show ?thesis by (metis le_add1)
  qed (use le_add1 in \<open>fastforce+\<close>)
next
  case False
  then obtain z pre' where p: "pre = z # pre'" using assms by (cases pre) auto
  then have "rememberId y seen = pre' @ x # (post @ [y])"
    using assms False by (auto simp: rememberId_def jss_add_def Let_def removeAll_id)
  then show ?thesis by (intro exI [of _ pre'] exI [of _ "post @ [y]"]) simp
qed

lemma remember_distinct: "distinct seen \<Longrightarrow> distinct (rememberId y seen)"
  by (simp add: rememberId_def Let_def distinct_removeAll)

lemma validate_cases:
  "validateMessage cr now m pub seen = (seen', r) \<Longrightarrow>
   (r = None \<and> seen' = rememberId (mm_id (mm_unsigned m)) seen \<and> mm_id (mm_unsigned m) \<notin> set seen \<and>
      now \<le> mm_issuedAtMs (mm_unsigned m) + mm_ttlMs (mm_unsigned m) \<and>
      verifyPayload cr (canonicalizeMessage (mm_unsigned m)) (mm_signature m) pub) \<or> (r \<noteq> None \<and> seen' = seen)"
  by (auto simp: validateMessage_def Let_def split: if_splits)

text \<open>
  An id in the cache survives the next steps of anything that remembers at most one id per step, while fewer than
  \<open>SEEN_CACHE_LIMIT\<close> ids followed it.
\<close>

lemma seen_survives:
  assumes step: "\<And>a s. seen_of (f a s) = seen_of s \<or> (\<exists>y. seen_of (f a s) = rememberId y (seen_of s))"
    and "distinct (seen_of s)" "seen_of s = pre @ x # post" "length post + length as < SEEN_CACHE_LIMIT"
  shows "x \<in> set (seen_of (fold f as s))"
  using assms(2-)
proof (induction as arbitrary: s pre post)
  case (Cons a as)
  obtain y where y: "seen_of (f a s) = seen_of s \<or> seen_of (f a s) = rememberId y (seen_of s)" using step by blast
  then have d: "distinct (seen_of (f a s))" using Cons.prems(1) remember_distinct by metis
  have "\<exists>pre' post'. rememberId y (seen_of s) = pre' @ x # post' \<and> length post' \<le> length post + 1"
    by (rule remember_keeps [OF Cons.prems(2) _ Cons.prems(1)]) (use Cons.prems(3) in simp)
  with y Cons.prems(2) obtain pre' post' where "seen_of (f a s) = pre' @ x # post'" "length post' \<le> length post + 1"
    by (metis le_add1)
  with Cons.IH [OF d] Cons.prems(3) show ?case by simp
qed simp

lemma remember_last: "x \<notin> set seen \<Longrightarrow> distinct seen \<Longrightarrow> \<exists>pre. rememberId x seen = pre @ [x]"
proof (cases seen)
  case Nil
  then show ?thesis by (simp add: rememberId_def jss_add_def SEEN_CACHE_LIMIT_def)
next
  case (Cons z zs)
  assume "x \<notin> set seen" "distinct seen"
  with Cons have "rememberId x seen = zs @ [x] \<or> rememberId x seen = seen @ [x]"
    by (auto simp: rememberId_def jss_add_def Let_def removeAll_id)
  then show ?thesis by blast
qed

lemma created_message_valid:
  assumes "key_pair cr priv pub" "uuid \<notin> set seen" "now \<le> t + ttl"
  shows "validateMessage cr now (createMessage cr uuid t typ from payload priv ttl) pub seen = (rememberId uuid seen, None)"
  using assms by (simp add: validateMessage_def createMessage_def key_pair_def Let_def)

section \<open>The stand-alone peer\<close>

datatype MeshPeerRole = Role_coordinator | Role_agent | Role_phone

record MeshPeerConfig =
  mc_peerId :: string
  mc_keys :: PeerKeys
  mc_publicUrl :: string
  mc_networkMode :: NetworkMode
  mc_role :: MeshPeerRole
  mc_bootstrapUrls :: "string list"
  mc_meshToken :: "string option"
  mc_peerTtlMs :: "int option"

record PeerTableEntry =
  te_identity :: MeshPeerIdentity
  te_role :: MeshPeerRole
  te_lastSeenMs :: ms

text \<open>Handlers are named; the handlers a message is dispatched to are part of the result of an ingest.\<close>

record MeshPeer =
  mp_identity :: MeshPeerIdentity
  mp_config :: MeshPeerConfig
  mp_seenIds :: "string list"
  mp_gossip :: GossipMesh
  mp_peerTable :: "(string, PeerTableEntry) jsmap"
  mp_messageHandlers :: "(MeshMessageType, string list) jsmap"

definition newMeshPeer :: "MeshPeerConfig \<Rightarrow> MeshPeer" where
  "newMeshPeer config =
     \<lparr> mp_identity = createPeerIdentity (mc_keys config) (mc_publicUrl config) (mc_networkMode config),
       mp_config = config, mp_seenIds = [],
       mp_gossip = (if truthy_str (mc_meshToken config) then setMeshToken (the (mc_meshToken config)) newGossipMesh else newGossipMesh),
       mp_peerTable = [], mp_messageHandlers = [] \<rparr>"

definition setPublicUrl :: "string \<Rightarrow> MeshPeer \<Rightarrow> MeshPeer" where
  "setPublicUrl url mp = mp\<lparr> mp_config := (mp_config mp)\<lparr> mc_publicUrl := url \<rparr>,
     mp_identity := (mp_identity mp)\<lparr> id_coordinatorUrl := url \<rparr> \<rparr>"

definition addPeer :: "ms \<Rightarrow> MeshPeerIdentity \<Rightarrow> MeshPeerRole \<Rightarrow> MeshPeer \<Rightarrow> MeshPeer" where
  "addPeer now identity role mp =
     (if id_peerId identity = mc_peerId (mp_config mp) then mp
      else mp\<lparr> mp_peerTable := jsm_set (id_peerId identity)
                 \<lparr> te_identity = identity, te_role = role, te_lastSeenMs = now \<rparr> (mp_peerTable mp),
               mp_gossip := gossipAddPeer identity (mp_gossip mp) \<rparr>)"

definition removePeer :: "string \<Rightarrow> MeshPeer \<Rightarrow> MeshPeer" where
  "removePeer peerId mp = mp\<lparr> mp_peerTable := jsm_delete peerId (mp_peerTable mp),
     mp_gossip := gossipRemovePeer peerId (mp_gossip mp) \<rparr>"

definition peerCount :: "MeshPeer \<Rightarrow> nat" where
  "peerCount mp = length (mp_peerTable mp)"

subsection \<open>Peer exchange\<close>

record PeerExchangeEntry =
  px_identity :: MeshPeerIdentity
  px_role :: MeshPeerRole
  px_lastSeenMs :: ms

definition MAX_PEER_EXCHANGE_ENTRIES :: nat where
  "MAX_PEER_EXCHANGE_ENTRIES = 50"

definition exchangeEntries :: "MeshPeer \<Rightarrow> PeerExchangeEntry list" where
  "exchangeEntries mp =
     map (\<lambda>e. \<lparr> px_identity = te_identity e, px_role = te_role e, px_lastSeenMs = te_lastSeenMs e \<rparr>)
       (take MAX_PEER_EXCHANGE_ENTRIES (sort_key (\<lambda>e. - te_lastSeenMs e) (jsm_values (mp_peerTable mp))))"

fun mode_name :: "NetworkMode \<Rightarrow> string" where
  "mode_name Public_mesh = ''public_mesh''"
| "mode_name Enterprise_overlay = ''enterprise_overlay''"

fun role_name :: "MeshPeerRole \<Rightarrow> string" where
  "role_name Role_coordinator = ''coordinator''"
| "role_name Role_agent = ''agent''"
| "role_name Role_phone = ''phone''"

definition exchangePayload :: "PeerExchangeEntry list \<Rightarrow> payload" where
  "exchangePayload es = [(''peers'', JArr (map (\<lambda>e. JObj
     [(''peerId'', JStr (id_peerId (px_identity e))), (''publicKeyPem'', JStr (id_publicKeyPem (px_identity e))),
      (''peerUrl'', JStr (id_coordinatorUrl (px_identity e))), (''networkMode'', JStr (mode_name (id_networkMode (px_identity e)))),
      (''role'', JStr (role_name (px_role e))), (''lastSeenMs'', JNum (px_lastSeenMs e))]) es))]"

text \<open>
  Reading a payload as a \<open>PeerExchangePayload\<close>. The code casts without a check; payloads of another shape are
  outside the model and read as \<open>None\<close>.
\<close>

fun as_str :: "json option \<Rightarrow> string option" where
  "as_str (Some (JStr s)) = Some s"
| "as_str _ = None"

fun as_int :: "json option \<Rightarrow> int option" where
  "as_int (Some (JNum n)) = Some n"
| "as_int _ = None"

definition as_enum :: "('e \<Rightarrow> string) \<Rightarrow> 'e list \<Rightarrow> json option \<Rightarrow> 'e option" where
  "as_enum name xs v = (case as_str v of None \<Rightarrow> None | Some s \<Rightarrow> find (\<lambda>x. name x = s) xs)"

definition readExchangeEntry :: "json \<Rightarrow> PeerExchangeEntry option" where
  "readExchangeEntry v =
     (case (as_str (json_member v ''peerId''), as_str (json_member v ''publicKeyPem''), as_str (json_member v ''peerUrl''),
            as_enum mode_name [Public_mesh, Enterprise_overlay] (json_member v ''networkMode''),
            as_enum role_name [Role_coordinator, Role_agent, Role_phone] (json_member v ''role''), as_int (json_member v ''lastSeenMs'')) of
        (Some i, Some pem, Some url, Some mode, Some role, Some t) \<Rightarrow>
          Some \<lparr> px_identity = \<lparr> id_peerId = i, id_publicKeyPem = pem, id_coordinatorUrl = url, id_networkMode = mode \<rparr>,
                 px_role = role, px_lastSeenMs = t \<rparr>
      | _ \<Rightarrow> None)"

definition readExchange :: "payload \<Rightarrow> PeerExchangeEntry list option" where
  "readExchange payload =
     (case json_member (JObj payload) ''peers'' of
        None \<Rightarrow> Some []
      | Some JNull \<Rightarrow> Some []
      | Some (JArr vs) \<Rightarrow> those (map readExchangeEntry vs)
      | _ \<Rightarrow> None)"

definition mergeEntry :: "ms \<Rightarrow> PeerExchangeEntry \<Rightarrow> MeshPeer \<Rightarrow> MeshPeer" where
  "mergeEntry now p mp =
     (let peerId = id_peerId (px_identity p) in
      if peerId = mc_peerId (mp_config mp) then mp
      else if jsm_has (mp_peerTable mp) peerId
        then mp\<lparr> mp_peerTable := jsm_modify peerId (\<lambda>e. e\<lparr> te_lastSeenMs := max (te_lastSeenMs e) (px_lastSeenMs p) \<rparr>) (mp_peerTable mp) \<rparr>
      else addPeer now (px_identity p) (px_role p) mp)"

definition handlePeerExchange :: "ms \<Rightarrow> PeerExchangeEntry list \<Rightarrow> MeshPeer \<Rightarrow> MeshPeer" where
  "handlePeerExchange now peers mp = fold (mergeEntry now) peers mp"

subsection \<open>Eviction, ingest and broadcast\<close>

definition evictPeers :: "ms \<Rightarrow> MeshPeer \<Rightarrow> MeshPeer" where
  "evictPeers now mp =
     fold (\<lambda>(i, entry) mp. if now - te_lastSeenMs entry > nullish (mc_peerTtlMs (mp_config mp)) 120000 then removePeer i mp else mp)
       (mp_peerTable mp) mp"

definition onMessage :: "MeshMessageType \<Rightarrow> string \<Rightarrow> MeshPeer \<Rightarrow> MeshPeer" where
  "onMessage typ handler mp = mp\<lparr> mp_messageHandlers :=
     jsm_set typ (nullish (jsm_get (mp_messageHandlers mp) typ) [] @ [handler]) (mp_messageHandlers mp) \<rparr>"

datatype PeerIngest = Own_message | Ingest_rejected MessageFault | Ingest_ok "string list" | Ingest_threw

definition dispatch :: "MeshMessage \<Rightarrow> ms \<Rightarrow> MeshPeer \<Rightarrow> MeshPeer \<times> PeerIngest" where
  "dispatch message now mp =
     (let typ = mm_type (mm_unsigned message); handlers = nullish (jsm_get (mp_messageHandlers mp) typ) [] in
      if typ = Msg_peer_exchange then
        (case readExchange (mm_payload (mm_unsigned message)) of
           None \<Rightarrow> (mp, Ingest_threw)
         | Some peers \<Rightarrow> (handlePeerExchange now peers mp, Ingest_ok handlers))
      else (mp, Ingest_ok handlers))"

definition handleIngest :: "crypto \<Rightarrow> ms \<Rightarrow> MeshMessage \<Rightarrow> MeshPeer \<Rightarrow> MeshPeer \<times> PeerIngest" where
  "handleIngest cr now message mp =
     (let fromPeerId = mm_fromPeerId (mm_unsigned message) in
      if fromPeerId = mc_peerId (mp_config mp) then (mp, Own_message)
      else (case jsm_get (mp_peerTable mp) fromPeerId of
              None \<Rightarrow> dispatch message now mp
            | Some sender \<Rightarrow>
                (case validateMessage cr now message (id_publicKeyPem (te_identity sender)) (mp_seenIds mp) of
                   (seen, Some fault) \<Rightarrow> (mp\<lparr> mp_seenIds := seen \<rparr>, Ingest_rejected fault)
                 | (seen, None) \<Rightarrow> dispatch message now (mp\<lparr> mp_seenIds := seen,
                     mp_peerTable := jsm_set fromPeerId (sender\<lparr> te_lastSeenMs := now \<rparr>) (mp_peerTable mp) \<rparr>))))"

definition peerBroadcast ::
  "crypto \<Rightarrow> Network \<Rightarrow> string \<Rightarrow> ms \<Rightarrow> MeshMessageType \<Rightarrow> payload \<Rightarrow> int option \<Rightarrow> MeshPeer \<Rightarrow> MeshPeer \<times> MeshMessage" where
  "peerBroadcast cr net uuid now typ payload ttlMs mp =
     (let msg = createMessage cr uuid now typ (mc_peerId (mp_config mp)) payload (pk_privateKeyPem (mc_keys (mp_config mp))) (nullish ttlMs 30000)
      in (mp\<lparr> mp_gossip := fst (broadcast net (Some (mc_peerId (mp_config mp))) (mp_gossip mp)) \<rparr>, msg))"

definition broadcastPeerExchange :: "crypto \<Rightarrow> Network \<Rightarrow> string \<Rightarrow> ms \<Rightarrow> MeshPeer \<Rightarrow> MeshPeer \<times> MeshMessage" where
  "broadcastPeerExchange cr net uuid now mp =
     peerBroadcast cr net uuid now Msg_peer_exchange (exchangePayload (exchangeEntries mp)) None mp"

subsection \<open>Bootstrap\<close>

text \<open>
  What a seed answers: its identity (\<open>None\<close> for a status outside 2xx or an exception), whether the registration
  request returns, and its list of peers (\<open>None\<close> where the request fails).
\<close>

record SeedAnswer =
  sa_identity :: "(MeshPeerIdentity \<times> MeshPeerRole option) option"
  sa_registered :: bool
  sa_peers :: "(MeshPeerIdentity \<times> MeshPeerRole option) list option"

definition learnPeer :: "ms \<Rightarrow> MeshPeerIdentity \<times> MeshPeerRole option \<Rightarrow> MeshPeer \<Rightarrow> MeshPeer" where
  "learnPeer now pr mp = (case pr of (p, role) \<Rightarrow>
     if id_peerId p \<noteq> mc_peerId (mp_config mp) then addPeer now p (nullish role Role_coordinator) mp else mp)"

text \<open>The second component lists the urls the peer registers itself with.\<close>

definition bootstrapSeed :: "ms \<Rightarrow> string \<times> SeedAnswer \<Rightarrow> MeshPeer \<times> string list \<Rightarrow> MeshPeer \<times> string list" where
  "bootstrapSeed now seed acc = (case seed of (seedUrl, ans) \<Rightarrow> case acc of (mp, contacted) \<Rightarrow>
     (case sa_identity ans of
        None \<Rightarrow> (mp, contacted)
      | Some (remote, role) \<Rightarrow>
          if id_peerId remote = mc_peerId (mp_config mp) then (mp, contacted)
          else if \<not> sa_registered ans then (mp, contacted @ [seedUrl])
          else (let mp1 = addPeer now (remote\<lparr> id_coordinatorUrl := seedUrl \<rparr>) (nullish role Role_coordinator) mp;
                    mp2 = fold (learnPeer now) (nullish (sa_peers ans) []) mp1
                in (mp2, contacted @ [seedUrl] @ map (id_coordinatorUrl \<circ> te_identity)
                      (filter (\<lambda>e. id_peerId (te_identity e) \<noteq> id_peerId remote) (jsm_values (mp_peerTable mp2)))))))"

definition bootstrap :: "ms \<Rightarrow> (string \<Rightarrow> SeedAnswer) \<Rightarrow> MeshPeer \<Rightarrow> MeshPeer \<times> string list" where
  "bootstrap now answer mp = fold (\<lambda>url. bootstrapSeed now (url, answer url)) (mc_bootstrapUrls (mp_config mp)) (mp, [])"

subsection \<open>HTTP routes\<close>

definition requireMeshToken :: "string option \<Rightarrow> string option \<Rightarrow> bool" where
  "requireMeshToken configured header = (\<not> truthy_str configured \<or> header = configured)"

datatype MeshResponse =
    Mesh_unauthorized
  | Mesh_registered nat
  | Mesh_refused MessageFault
  | Mesh_accepted
  | Mesh_error
  | Mesh_peers "(MeshPeerIdentity \<times> MeshPeerRole) list"

definition listPeersRoute :: "string option \<Rightarrow> string option \<Rightarrow> MeshPeer \<Rightarrow> MeshResponse" where
  "listPeersRoute token header mp =
     (if \<not> requireMeshToken token header then Mesh_unauthorized
      else Mesh_peers (map (\<lambda>e. (te_identity e, te_role e)) (jsm_values (mp_peerTable mp))))"

definition registerPeerRoute ::
  "string option \<Rightarrow> string option \<Rightarrow> ms \<Rightarrow> MeshPeerIdentity \<Rightarrow> MeshPeerRole option \<Rightarrow> MeshPeer \<Rightarrow> MeshPeer \<times> MeshResponse" where
  "registerPeerRoute token header now body role mp =
     (if \<not> requireMeshToken token header then (mp, Mesh_unauthorized)
      else (let mp1 = addPeer now body (nullish role Role_agent) mp in (mp1, Mesh_registered (peerCount mp1))))"

definition ingestRoute :: "crypto \<Rightarrow> string option \<Rightarrow> string option \<Rightarrow> ms \<Rightarrow> MeshMessage \<Rightarrow> MeshPeer \<Rightarrow> MeshPeer \<times> MeshResponse" where
  "ingestRoute cr token header now message mp =
     (if \<not> requireMeshToken token header then (mp, Mesh_unauthorized)
      else (case handleIngest cr now message mp of
              (mp1, Ingest_rejected fault) \<Rightarrow> (mp1, Mesh_refused fault)
            | (mp1, Ingest_threw) \<Rightarrow> (mp1, Mesh_error)
            | (mp1, _) \<Rightarrow> (mp1, Mesh_accepted)))"

section \<open>The peer table and the gossip layer agree\<close>

definition mesh_peer_inv :: "MeshPeer \<Rightarrow> bool" where
  "mesh_peer_inv mp = (gossip_inv (mp_gossip mp) \<and> jsm_wf (mp_peerTable mp) \<and> distinct (mp_seenIds mp) \<and>
     \<not> jsm_has (mp_peerTable mp) (mc_peerId (mp_config mp)) \<and>
     (\<forall>k. jsm_get (gm_peers (mp_gossip mp)) k = map_option te_identity (jsm_get (mp_peerTable mp) k)))"

lemma gossip_inv_add: "gossip_inv g \<Longrightarrow> gossip_inv (gossipAddPeer p g)"
  using gossip_exec_inv [of g "GAddPeer p"] by simp

lemma gossip_inv_remove: "gossip_inv g \<Longrightarrow> gossip_inv (gossipRemovePeer k g)"
  using gossip_exec_inv [of g "GRemovePeer k"] by simp

lemma addPeer_inv: "mesh_peer_inv mp \<Longrightarrow> mesh_peer_inv (addPeer now p r mp)"
  by (auto simp: mesh_peer_inv_def addPeer_def gossip_inv_add jsm_has_set) (auto simp: gossipAddPeer_def jsm_get_set)

lemma removePeer_inv: "mesh_peer_inv mp \<Longrightarrow> mesh_peer_inv (removePeer k mp)"
  by (auto simp: mesh_peer_inv_def removePeer_def gossip_inv_remove jsm_has_delete) (auto simp: gossipRemovePeer_def jsm_get_delete)

text \<open>Touching an entry of the table without changing its identity.\<close>

lemma touch_inv:
  assumes "mesh_peer_inv mp" "jsm_get (mp_peerTable mp) k = Some e" "te_identity e' = te_identity e"
  shows "mesh_peer_inv (mp\<lparr> mp_peerTable := jsm_set k e' (mp_peerTable mp) \<rparr>)"
  using assms by (auto simp: mesh_peer_inv_def jsm_has_set jsm_get_set jsm_has_iff)

lemma mergeEntry_inv: "mesh_peer_inv mp \<Longrightarrow> mesh_peer_inv (mergeEntry now p mp)"
  by (auto simp: mergeEntry_def Let_def addPeer_inv jsm_modify_def jsm_has_iff intro!: touch_inv split: option.splits)

lemma fold_inv: "(\<And>x s. P s \<Longrightarrow> P (f x s)) \<Longrightarrow> P s \<Longrightarrow> P (fold f xs s)"
  by (induction xs arbitrary: s) simp_all

lemma handlePeerExchange_inv: "mesh_peer_inv mp \<Longrightarrow> mesh_peer_inv (handlePeerExchange now ps mp)"
  unfolding handlePeerExchange_def by (rule fold_inv [where P = mesh_peer_inv]) (simp_all add: mergeEntry_inv)

lemma evictPeers_inv: "mesh_peer_inv mp \<Longrightarrow> mesh_peer_inv (evictPeers now mp)"
  unfolding evictPeers_def by (rule fold_inv [where P = mesh_peer_inv]) (auto simp: removePeer_inv)

lemma dispatch_inv: "mesh_peer_inv mp \<Longrightarrow> mesh_peer_inv (fst (dispatch m now mp))"
  by (auto simp: dispatch_def Let_def handlePeerExchange_inv split: option.splits)

lemma seen_inv: "mesh_peer_inv mp \<Longrightarrow> distinct seen \<Longrightarrow> mesh_peer_inv (mp\<lparr> mp_seenIds := seen \<rparr>)"
  by (simp add: mesh_peer_inv_def)

lemma validate_distinct: "distinct seen \<Longrightarrow> validateMessage cr now m pub seen = (seen', r) \<Longrightarrow> distinct seen'"
  using validate_cases remember_distinct by metis

lemma handleIngest_inv:
  assumes "mesh_peer_inv mp"
  shows "mesh_peer_inv (fst (handleIngest cr now m mp))"
proof (cases "mm_fromPeerId (mm_unsigned m) = mc_peerId (mp_config mp)")
  case False
  show ?thesis
  proof (cases "jsm_get (mp_peerTable mp) (mm_fromPeerId (mm_unsigned m))")
    case None
    with False assms show ?thesis by (simp add: handleIngest_def Let_def dispatch_inv)
  next
    case (Some sender)
    obtain seen r where v: "validateMessage cr now m (id_publicKeyPem (te_identity sender)) (mp_seenIds mp) = (seen, r)"
      by (cases "validateMessage cr now m (id_publicKeyPem (te_identity sender)) (mp_seenIds mp)")
    have s: "mesh_peer_inv (mp\<lparr> mp_seenIds := seen \<rparr>)"
      using seen_inv [OF assms validate_distinct [OF _ v]] assms by (simp add: mesh_peer_inv_def)
    have "mesh_peer_inv (mp\<lparr> mp_seenIds := seen, mp_peerTable :=
        jsm_set (mm_fromPeerId (mm_unsigned m)) (sender\<lparr> te_lastSeenMs := now \<rparr>) (mp_peerTable mp) \<rparr>)"
      using touch_inv [OF s, of "mm_fromPeerId (mm_unsigned m)" sender "sender\<lparr> te_lastSeenMs := now \<rparr>"] Some by simp
    with False Some v s show ?thesis by (cases r) (simp_all add: handleIngest_def Let_def dispatch_inv)
  qed
qed (use assms in \<open>simp add: handleIngest_def\<close>)

lemma peerBroadcast_inv:
  assumes "mesh_peer_inv mp"
  shows "mesh_peer_inv (fst (peerBroadcast cr net uuid now typ payload ttl mp))"
proof -
  have g: "gossip_inv (mp_gossip mp)" using assms by (simp add: mesh_peer_inv_def)
  with gossip_exec_inv [OF g, of "GBroadcast net (Some (mc_peerId (mp_config mp)))"]
    broadcast_keeps_peers [of "mp_gossip mp" net "Some (mc_peerId (mp_config mp))"] assms
  show ?thesis by (simp add: peerBroadcast_def Let_def mesh_peer_inv_def gossip_inv_def)
qed

lemma learnPeer_inv: "mesh_peer_inv mp \<Longrightarrow> mesh_peer_inv (learnPeer now pr mp)"
  by (auto simp: learnPeer_def addPeer_inv split: prod.splits)

lemma bootstrapSeed_inv: "mesh_peer_inv (fst acc) \<Longrightarrow> mesh_peer_inv (fst (bootstrapSeed now seed acc))"
  by (auto simp: bootstrapSeed_def Let_def addPeer_inv learnPeer_inv intro!: fold_inv [where P = mesh_peer_inv]
      split: prod.splits option.splits)

lemma bootstrap_inv: "mesh_peer_inv mp \<Longrightarrow> mesh_peer_inv (fst (bootstrap now answer mp))"
  unfolding bootstrap_def by (rule fold_inv [where P = "\<lambda>a. mesh_peer_inv (fst a)"]) (simp_all add: bootstrapSeed_inv)

datatype mesh_op =
    MAddPeer ms MeshPeerIdentity MeshPeerRole
  | MRemovePeer string
  | MEvict ms
  | MOn MeshMessageType string
  | MSetUrl string
  | MIngest ms MeshMessage
  | MBroadcast Network string ms MeshMessageType payload "int option"
  | MBroadcastExchange Network string ms
  | MBootstrap ms "string \<Rightarrow> SeedAnswer"
  | MSocket string "WebSocket option"

fun mesh_exec :: "crypto \<Rightarrow> mesh_op \<Rightarrow> MeshPeer \<Rightarrow> MeshPeer" where
  "mesh_exec cr (MAddPeer now p r) mp = addPeer now p r mp"
| "mesh_exec cr (MRemovePeer k) mp = removePeer k mp"
| "mesh_exec cr (MEvict now) mp = evictPeers now mp"
| "mesh_exec cr (MOn typ h) mp = onMessage typ h mp"
| "mesh_exec cr (MSetUrl url) mp = setPublicUrl url mp"
| "mesh_exec cr (MIngest now m) mp = fst (handleIngest cr now m mp)"
| "mesh_exec cr (MBroadcast net u now typ pl ttl) mp = fst (peerBroadcast cr net u now typ pl ttl mp)"
| "mesh_exec cr (MBroadcastExchange net u now) mp = fst (broadcastPeerExchange cr net u now mp)"
| "mesh_exec cr (MBootstrap now answer) mp = fst (bootstrap now answer mp)"
| "mesh_exec cr (MSocket k ws) mp = mp\<lparr> mp_gossip := (case ws of
     None \<Rightarrow> removeWebSocketForPeer k (mp_gossip mp) | Some w \<Rightarrow> setWebSocketForPeer k w (mp_gossip mp)) \<rparr>"

lemma socket_inv: "mesh_peer_inv mp \<Longrightarrow> mesh_peer_inv (mesh_exec cr (MSocket k ws) mp)"
  using gossip_exec_inv [of "mp_gossip mp" "GRemoveWebSocket k"] gossip_exec_inv [of "mp_gossip mp" "GSetWebSocket k (the ws)"]
  by (auto simp: mesh_peer_inv_def removeWebSocketForPeer_def setWebSocketForPeer_def split: option.splits)

lemma mesh_exec_inv: "mesh_peer_inv mp \<Longrightarrow> mesh_peer_inv (mesh_exec cr opn mp)"
  by (cases opn) (simp_all add: addPeer_inv removePeer_inv evictPeers_inv handleIngest_inv peerBroadcast_inv bootstrap_inv
      broadcastPeerExchange_def socket_inv del: mesh_exec.simps(10), simp_all add: onMessage_def setPublicUrl_def mesh_peer_inv_def)

interpretation mesh_peer: op_machine_init "mesh_exec cr" mesh_peer_inv "newMeshPeer config" for cr config
  by unfold_locales (simp_all add: mesh_exec_inv, simp add: mesh_peer_inv_def newMeshPeer_def gossip_inv_def gossip_wf_def
      nat_inv_def newGossipMesh_def setMeshToken_def)

section \<open>Peer exchange between two peers\<close>

lemma mode_inj: "mode_name a = mode_name b \<longleftrightarrow> a = b"
  by (cases a; cases b) simp_all

lemma readExchangeEntry_payload:
  "readExchangeEntry (JObj
     [(''peerId'', JStr (id_peerId (px_identity e))), (''publicKeyPem'', JStr (id_publicKeyPem (px_identity e))),
      (''peerUrl'', JStr (id_coordinatorUrl (px_identity e))), (''networkMode'', JStr (mode_name (id_networkMode (px_identity e)))),
      (''role'', JStr (role_name (px_role e))), (''lastSeenMs'', JNum (px_lastSeenMs e))]) = Some e"
  by (cases "id_networkMode (px_identity e)"; cases "px_role e") (simp_all add: readExchangeEntry_def as_enum_def)

lemma those_map_Some: "(\<And>x. x \<in> set xs \<Longrightarrow> f (g x) = Some x) \<Longrightarrow> those (map (f \<circ> g) xs) = Some xs"
  by (induction xs) simp_all

lemma readExchange_payload: "readExchange (exchangePayload es) = Some es"
  unfolding readExchange_def exchangePayload_def using readExchangeEntry_payload by (simp add: those_map_Some)

definition merged :: "ms \<Rightarrow> PeerExchangeEntry \<Rightarrow> PeerTableEntry option \<Rightarrow> PeerTableEntry" where
  "merged now p old = (case old of
     Some e \<Rightarrow> e\<lparr> te_lastSeenMs := max (te_lastSeenMs e) (px_lastSeenMs p) \<rparr>
   | None \<Rightarrow> \<lparr> te_identity = px_identity p, te_role = px_role p, te_lastSeenMs = now \<rparr>)"

lemma config_mergeEntry [simp]: "mp_config (mergeEntry now p mp) = mp_config mp"
  by (simp add: mergeEntry_def addPeer_def Let_def)

lemma mergeEntry_get:
  "jsm_get (mp_peerTable (mergeEntry now p mp)) k =
     (if k = id_peerId (px_identity p) \<and> k \<noteq> mc_peerId (mp_config mp)
      then Some (merged now p (jsm_get (mp_peerTable mp) k)) else jsm_get (mp_peerTable mp) k)"
  by (auto simp: mergeEntry_def addPeer_def Let_def merged_def jsm_modify_def jsm_has_iff jsm_get_set split: option.splits)

lemma handlePeerExchange_get:
  assumes "distinct (map (id_peerId \<circ> px_identity) es)"
  shows "jsm_get (mp_peerTable (handlePeerExchange now es mp)) k =
    (case find (\<lambda>e. id_peerId (px_identity e) = k) es of
       Some e \<Rightarrow> if k = mc_peerId (mp_config mp) then jsm_get (mp_peerTable mp) k
                 else Some (merged now e (jsm_get (mp_peerTable mp) k))
     | None \<Rightarrow> jsm_get (mp_peerTable mp) k)"
  using assms
proof (induction es arbitrary: mp)
  case (Cons e es)
  have none: "find (\<lambda>e. id_peerId (px_identity e) = k) es = None" if "id_peerId (px_identity e) = k"
    using Cons.prems that by (auto simp: find_None_iff image_iff)
  show ?case using Cons.IH [of "mergeEntry now e mp"] Cons.prems none
    by (auto simp: handlePeerExchange_def mergeEntry_get split: option.splits)
qed (simp add: handlePeerExchange_def)

lemma table_keys:
  assumes "mesh_peer_inv mp" "(k, e) \<in> set (mp_peerTable mp)"
  shows "id_peerId (te_identity e) = k"
proof -
  have "jsm_get (mp_peerTable mp) k = Some e" using assms by (simp add: mesh_peer_inv_def jsm_get_iff)
  then have "jsm_get (gm_peers (mp_gossip mp)) k = Some (te_identity e)" using assms(1) by (simp add: mesh_peer_inv_def)
  then have "(k, te_identity e) \<in> set (gm_peers (mp_gossip mp))" by (rule jsm_get_in_set)
  then show ?thesis using assms(1) by (auto simp: mesh_peer_inv_def gossip_inv_def gossip_wf_def)
qed

lemma exchange_distinct: "mesh_peer_inv mp \<Longrightarrow> distinct (map (id_peerId \<circ> px_identity) (exchangeEntries mp))"
proof -
  assume inv: "mesh_peer_inv mp"
  let ?s = "sort_key (\<lambda>e. - te_lastSeenMs e) (jsm_values (mp_peerTable mp))"
  have "map (id_peerId \<circ> te_identity) (jsm_values (mp_peerTable mp)) = map fst (mp_peerTable mp)"
    using table_keys [OF inv] by (auto simp: jsm_values_def)
  then have "distinct (map (id_peerId \<circ> te_identity) (jsm_values (mp_peerTable mp)))"
    using inv by (simp add: mesh_peer_inv_def jsm_wf_def)
  then have "distinct (map (id_peerId \<circ> te_identity) ?s)" by (simp add: distinct_map)
  then have "distinct (take n (map (id_peerId \<circ> te_identity) ?s))" for n by (rule distinct_take)
  then show ?thesis by (simp add: exchangeEntries_def comp_def take_map)
qed

lemma find_unique:
  "distinct (map f es) \<Longrightarrow> e \<in> set es \<Longrightarrow> find (\<lambda>x. f x = f e) es = Some e"
  by (induction es) (auto simp: rev_image_eqI)

text \<open>
  Gossip spreads the peer table. Between two peers in any reachable state, a peer-exchange message of \<open>a\<close> that
  reaches \<open>b\<close> in time, with a fresh id, and signed with the key \<open>b\<close> has on file for \<open>a\<close>, is accepted; afterwards
  \<open>b\<close> knows every peer the message lists (at most 50), under the identity it already had or else the one listed,
  with a time stamp no older than the listed one or the current time; and \<open>b\<close> has forgotten nobody.
\<close>

theorem peer_exchange_propagates:
  assumes "mesh_peer_inv a" "mesh_peer_inv b" "key_pair cr (pk_privateKeyPem (mc_keys (mp_config a))) (id_publicKeyPem (te_identity sender))"
    and sender: "jsm_get (mp_peerTable b) (mc_peerId (mp_config a)) = Some sender"
    and fresh: "uuid \<notin> set (mp_seenIds b)" and time: "now \<le> t + 30000"
  shows "case handleIngest cr now (snd (broadcastPeerExchange cr net uuid t a)) b of (b', r) \<Rightarrow>
    r = Ingest_ok (nullish (jsm_get (mp_messageHandlers b) Msg_peer_exchange) []) \<and>
    length (exchangeEntries a) \<le> 50 \<and>
    list_all (\<lambda>e. let k = id_peerId (px_identity e) in k = mc_peerId (mp_config b) \<or>
       (case jsm_get (mp_peerTable b') k of None \<Rightarrow> False
        | Some e' \<Rightarrow> te_identity e' = (case jsm_get (mp_peerTable b) k of None \<Rightarrow> px_identity e | Some old \<Rightarrow> te_identity old) \<and>
            (px_lastSeenMs e \<le> te_lastSeenMs e' \<or> te_lastSeenMs e' = now))) (exchangeEntries a) \<and>
    (\<forall>k old. jsm_get (mp_peerTable b) k = Some old \<longrightarrow>
       (\<exists>e'. jsm_get (mp_peerTable b') k = Some e' \<and> te_identity e' = te_identity old))"
proof -
  let ?es = "exchangeEntries a" and ?own = "mc_peerId (mp_config b)" and ?from = "mc_peerId (mp_config a)"
  let ?msg = "snd (broadcastPeerExchange cr net uuid t a)"
  let ?seen = "rememberId uuid (mp_seenIds b)"
  let ?b1 = "b\<lparr> mp_seenIds := ?seen, mp_peerTable := jsm_set ?from (sender\<lparr> te_lastSeenMs := now \<rparr>) (mp_peerTable b) \<rparr>"
  let ?b2 = "handlePeerExchange now ?es ?b1"
  have msg: "?msg = createMessage cr uuid t Msg_peer_exchange ?from (exchangePayload ?es) (pk_privateKeyPem (mc_keys (mp_config a))) 30000"
    by (simp add: broadcastPeerExchange_def peerBroadcast_def Let_def nullish_def)
  have ne: "?from \<noteq> ?own" using assms(2) sender by (auto simp: mesh_peer_inv_def jsm_has_iff)
  have u: "mm_fromPeerId (mm_unsigned ?msg) = ?from" "mm_type (mm_unsigned ?msg) = Msg_peer_exchange"
    "mm_payload (mm_unsigned ?msg) = exchangePayload ?es" by (simp_all add: msg createMessage_def Let_def)
  have v: "validateMessage cr now ?msg (id_publicKeyPem (te_identity sender)) (mp_seenIds b) = (?seen, None)"
    unfolding msg by (rule created_message_valid [OF assms(3) fresh time])
  have res: "handleIngest cr now ?msg b = (?b2, Ingest_ok (nullish (jsm_get (mp_messageHandlers b) Msg_peer_exchange) []))"
    using ne sender v by (simp add: handleIngest_def u dispatch_def readExchange_payload)
  note d = exchange_distinct [OF assms(1)]
  note get = handlePeerExchange_get [OF d, of now ?b1]
  have known: "\<exists>e'. jsm_get (mp_peerTable ?b2) k = Some e' \<and> te_identity e' = te_identity old"
    if "jsm_get (mp_peerTable b) k = Some old" for k old
    using that sender unfolding get by (auto simp: jsm_get_set merged_def split: option.splits)
  have listed: "k = ?own \<or> (case jsm_get (mp_peerTable ?b2) k of None \<Rightarrow> False
        | Some e' \<Rightarrow> te_identity e' = (case jsm_get (mp_peerTable b) k of None \<Rightarrow> px_identity e | Some old \<Rightarrow> te_identity old) \<and>
            (px_lastSeenMs e \<le> te_lastSeenMs e' \<or> te_lastSeenMs e' = now))"
    if e: "e \<in> set ?es" and k: "k = id_peerId (px_identity e)" for e k
  proof -
    have "find (\<lambda>x. id_peerId (px_identity x) = k) ?es = Some e" using find_unique [OF d e] k by simp
    then show ?thesis unfolding get using sender by (auto simp: jsm_get_set merged_def split: option.splits)
  qed
  have len: "length ?es \<le> 50" by (simp add: exchangeEntries_def MAX_PEER_EXCHANGE_ENTRIES_def)
  show ?thesis unfolding res prod.case list_all_iff Let_def
    by (intro conjI allI ballI impI refl len known listed [OF _ refl])
qed

section \<open>Capability summaries\<close>

record AgentCapabilityInfo =
  ac_agentId :: string
  ac_activeModel :: string
  ac_activeModelParamSize :: num
  ac_currentLoad :: num

record ModelAvailability =
  ma_agentCount :: nat
  ma_totalParamCapacity :: num
  ma_avgLoad :: num

record CapabilitySummary =
  cap_coordinatorId :: string
  cap_agentCount :: nat
  cap_modelAvailability :: "(string, ModelAvailability) jsmap"
  cap_timestamp :: ms

definition countAgent :: "AgentCapabilityInfo \<Rightarrow> (string, ModelAvailability) jsmap \<Rightarrow> (string, ModelAvailability) jsmap" where
  "countAgent agent modelMap =
     (if ac_activeModel agent = [] then modelMap
      else (let e = nullish (jsm_get modelMap (ac_activeModel agent))
                      \<lparr> ma_agentCount = 0, ma_totalParamCapacity = 0, ma_avgLoad = 0 \<rparr>
            in jsm_set (ac_activeModel agent)
                 \<lparr> ma_agentCount = ma_agentCount e + 1,
                   ma_totalParamCapacity = n_add (ma_totalParamCapacity e) (ac_activeModelParamSize agent),
                   ma_avgLoad = n_add (ma_avgLoad e) (ac_currentLoad agent) \<rparr> modelMap))"

definition averageLoad :: "ModelAvailability \<Rightarrow> ModelAvailability" where
  "averageLoad e = (if ma_agentCount e > 0 then e\<lparr> ma_avgLoad := n_div (ma_avgLoad e) (of_nat (ma_agentCount e)) \<rparr> else e)"

definition buildCapabilitySummary :: "string \<Rightarrow> AgentCapabilityInfo list \<Rightarrow> ms \<Rightarrow> CapabilitySummary" where
  "buildCapabilitySummary coordinatorId agents now =
     \<lparr> cap_coordinatorId = coordinatorId, cap_agentCount = length agents,
       cap_modelAvailability = map (\<lambda>(k, e). (k, averageLoad e)) (fold countAgent agents []),
       cap_timestamp = now \<rparr>"

lemma countAgents_count:
  "map_option ma_agentCount (jsm_get (fold countAgent agents m) k) =
     (let n = length (filter (\<lambda>a. ac_activeModel a = k) agents) in
      if k = [] \<or> n = 0 then map_option ma_agentCount (jsm_get m k)
      else Some (nullish (map_option ma_agentCount (jsm_get m k)) 0 + n))"
proof (induction agents arbitrary: m)
  case (Cons a as)
  show ?case unfolding fold.simps comp_def Cons.IH
    by (auto simp: countAgent_def Let_def jsm_get_set nullish_def split: option.splits)
qed simp

text \<open>The summary counts, for every model an agent has loaded, exactly the agents that loaded it.\<close>

lemma capability_summary_counts:
  "map_option ma_agentCount (jsm_get (cap_modelAvailability (buildCapabilitySummary c agents now)) k) =
     (let n = length (filter (\<lambda>a. ac_activeModel a = k) agents) in if k = [] \<or> n = 0 then None else Some n)"
proof -
  have "map_option ma_agentCount (jsm_get (map (\<lambda>(k, e). (k, averageLoad e)) m) k) = map_option ma_agentCount (jsm_get m k)" for m
    by (induction m) (auto simp: jsm_get_def averageLoad_def)
  then show ?thesis using countAgents_count [of agents "[]" k] by (simp add: buildCapabilitySummary_def Let_def nullish_def)
qed

section \<open>Concrete runs\<close>

definition ex_member :: "string \<Rightarrow> MeshPeerIdentity" where
  "ex_member i = \<lparr> id_peerId = i, id_publicKeyPem = ''key-'' @ i, id_coordinatorUrl = ''url-'' @ i, id_networkMode = Public_mesh \<rparr>"

definition ex_net :: Network where
  "ex_net = \<lparr> net_send = (\<lambda>_. True), net_ingest = (\<lambda>url. if url = ''url-a'' then Some 200 else None), net_relay = (\<lambda>_ _. None) \<rparr>"

definition ex_gossip :: GossipMesh where
  "ex_gossip = gossipAddPeer (ex_member ''b'') (gossipAddPeer (ex_member ''a'') newGossipMesh)"

definition ex_delivered :: bcast where
  "ex_delivered = (ex_gossip\<lparr> gm_failureCounts := [(''b'', 1)] \<rparr>, [(ex_member ''a'', Delivered), (ex_member ''b'', Failed)])"

lemma ex_schedule: "(bcast_step ex_net ^^ 3) (bcastStart ex_net None ex_gossip) ex_delivered"
proof -
  let ?a = "ex_member ''a''" and ?b = "ex_member ''b''" and ?g = "ex_gossip\<lparr> gm_failureCounts := [(''b'', 1)] \<rparr>"
  note ev = ex_member_def ex_net_def ex_gossip_def newGossipMesh_def gossipAddPeer_def jsm_defs httpAnswer_def status_ok_def
  have s: "bcastStart ex_net None ex_gossip = (ex_gossip, [(?a, Awaiting_http), (?b, Awaiting_http)])"
    by (simp add: ev bcastStart_def recipients_def gossipPeers_def startDelivery_def sendDirect_def isNatted_def)
  have h1: "httpAnswer ex_net ?b ex_gossip = (?g, Relaying [])"
    by (simp add: ev recordFailure_def Let_def nullish_def NAT_DETECTION_THRESHOLD_def MAX_CONSECUTIVE_FAILURES_def)
  have h2: "httpAnswer ex_net ?a ?g = (?g, Delivered)" by (simp add: ev)
  have 1: "bcast_step ex_net (ex_gossip, [(?a, Awaiting_http), (?b, Awaiting_http)]) (?g, [(?a, Awaiting_http), (?b, Relaying [])])"
    using bcast_step.http [of 1 "[(?a, Awaiting_http), (?b, Awaiting_http)]" ?b ex_net ex_gossip] h1 by simp
  have 2: "bcast_step ex_net (?g, [(?a, Awaiting_http), (?b, Relaying [])]) (?g, [(?a, Delivered), (?b, Relaying [])])"
    using bcast_step.http [of 0 "[(?a, Awaiting_http), (?b, Relaying [])]" ?a ex_net ?g] h2 by simp
  have 3: "bcast_step ex_net (?g, [(?a, Delivered), (?b, Relaying [])]) (?g, [(?a, Delivered), (?b, Failed)])"
    using bcast_step.relay [of 1 "[(?a, Delivered), (?b, Relaying [])]" ?b "[]" ex_net ?g] by simp
  from 1 2 3 show ?thesis unfolding s ex_delivered_def by (auto simp: numeral_3_eq_3 relcompp.simps)
qed

theorem broadcast_schedule_independent_witness:
  "gossip_wf ex_gossip \<and> (bcast_step ex_net ^^ 3) (bcastStart ex_net None ex_gossip) ex_delivered \<and>
   bcastCounts ex_delivered = snd (broadcast ex_net None ex_gossip) \<and>
   footprint (fst ex_delivered) ''b'' = footprint (fst (broadcast ex_net None ex_gossip)) ''b''"
proof -
  have "gossip_wf ex_gossip"
    by (simp add: gossip_wf_def ex_gossip_def ex_member_def newGossipMesh_def gossipAddPeer_def jsm_defs)
  moreover have "\<not> list_ex (\<lambda>(p, d). pending d) (snd ex_delivered)" by (simp add: ex_delivered_def)
  ultimately show ?thesis using broadcast_schedule_independent [OF _ ex_schedule] ex_schedule by blast
qed

definition ex_peer_config :: "string \<Rightarrow> MeshPeerConfig" where
  "ex_peer_config i = \<lparr> mc_peerId = i, mc_keys = \<lparr> pk_peerId = i, pk_publicKeyPem = ''key-'' @ i, pk_privateKeyPem = ''key-'' @ i \<rparr>,
     mc_publicUrl = ''url-'' @ i, mc_networkMode = Public_mesh, mc_role = Role_agent, mc_bootstrapUrls = [], mc_meshToken = None,
     mc_peerTtlMs = None \<rparr>"

definition ex_node :: "string \<Rightarrow> string \<Rightarrow> MeshPeer" where
  "ex_node i other = addPeer 1000 (ex_member other) Role_phone (newMeshPeer (ex_peer_config i))"

lemma ex_node_inv: "mesh_peer_inv (ex_node i other)"
  using mesh_peer.reach_inv [of undefined "[MAddPeer 1000 (ex_member other) Role_phone]" "ex_peer_config i"] by (simp add: ex_node_def)

lemma ex_node_table: "i \<noteq> other \<Longrightarrow> mp_peerTable (ex_node i other) =
    [(other, \<lparr> te_identity = ex_member other, te_role = Role_phone, te_lastSeenMs = 1000 \<rparr>)]"
  by (simp add: ex_node_def addPeer_def newMeshPeer_def ex_peer_config_def ex_member_def jsm_defs)

theorem peer_exchange_propagates_witness:
  "let a = ex_node ''a'' ''c''; b = ex_node ''b'' ''a'' in
   mesh_peer_inv a \<and> mesh_peer_inv b \<and> key_pair ex_crypto (pk_privateKeyPem (mc_keys (mp_config a))) ''key-a'' \<and>
   (case handleIngest ex_crypto 2000 (snd (broadcastPeerExchange ex_crypto ex_net ''m1'' 1500 a)) b of (b', r) \<Rightarrow>
      r = Ingest_ok [] \<and> jsm_get (mp_peerTable b') ''c'' \<noteq> None)"
proof -
  let ?a = "ex_node ''a'' ''c''" and ?b = "ex_node ''b'' ''a''"
  let ?s = "\<lparr> te_identity = ex_member ''a'', te_role = Role_phone, te_lastSeenMs = 1000 \<rparr>"
  have c: "mp_config (ex_node i k) = ex_peer_config i" "mp_seenIds (ex_node i k) = []" "mp_messageHandlers (ex_node i k) = []" for i k
    by (simp_all add: ex_node_def addPeer_def newMeshPeer_def)
  have kp: "key_pair ex_crypto (pk_privateKeyPem (mc_keys (mp_config ?a))) (id_publicKeyPem (te_identity ?s))"
    using ex_key_pair [of "''key-a''"] by (simp add: c ex_peer_config_def ex_member_def)
  have t: "jsm_get (mp_peerTable ?b) (mc_peerId (mp_config ?a)) = Some ?s"
    by (simp add: c ex_node_table ex_peer_config_def jsm_get_def)
  have es: "exchangeEntries ?a = [\<lparr> px_identity = ex_member ''c'', px_role = Role_phone, px_lastSeenMs = 1000 \<rparr>]"
    by (simp add: exchangeEntries_def ex_node_table jsm_values_def MAX_PEER_EXCHANGE_ENTRIES_def)
  note p = peer_exchange_propagates [OF ex_node_inv ex_node_inv kp t, where uuid = "''m1''" and now = 2000 and t = 1500 and net = ex_net]
  obtain b' r where h: "handleIngest ex_crypto 2000 (snd (broadcastPeerExchange ex_crypto ex_net ''m1'' 1500 ?a)) ?b = (b', r)"
    by (cases "handleIngest ex_crypto 2000 (snd (broadcastPeerExchange ex_crypto ex_net ''m1'' 1500 ?a)) ?b")
  have "r = Ingest_ok [] \<and> jsm_get (mp_peerTable b') ''c'' \<noteq> None"
    using p h unfolding es by (auto simp: c Let_def nullish_def ex_member_def ex_peer_config_def split: option.splits)
  then show ?thesis using kp h ex_node_inv by (simp add: Let_def ex_member_def)
qed

end
