(* ===== verification/PowerPolicy.thy ===== *)
theory PowerPolicy
  imports JsNumber
begin

text \<open>
  What an agent may be given to do: the power policy of \<open>src/src/swarm/power-policy.ts\<close>, which reads the battery,
  thermal and load telemetry an agent reports, and the sandbox rule of \<open>src/src/swarm/sandbox-enforcement.ts\<close>, which a
  worker consults before it runs code. Percentages are numbers, time stamps integers; an absent field is \<open>None\<close>.
\<close>

section \<open>Telemetry\<close>

datatype ThermalState = Nominal | Fair | Serious | Critical_heat
datatype DeviceType = Desktop | Laptop | Phone | Tablet | Server
datatype SandboxMode = Sandbox_none | Sandbox_docker | Sandbox_vm

record AgentPowerTelemetry =
  pt_onExternalPower :: "bool option"
  pt_batteryLevelPct :: "num option"
  pt_lowPowerMode :: "bool option"
  pt_updatedAtMs :: "ms option"
  pt_onACPower :: "bool option"
  pt_batteryPct :: "num option"
  pt_thermalState :: "ThermalState option"
  pt_cpuUsagePct :: "num option"
  pt_memoryUsagePct :: "num option"
  pt_deviceType :: "DeviceType option"

definition noTelemetry :: AgentPowerTelemetry where
  "noTelemetry = \<lparr> pt_onExternalPower = None, pt_batteryLevelPct = None, pt_lowPowerMode = None, pt_updatedAtMs = None,
     pt_onACPower = None, pt_batteryPct = None, pt_thermalState = None, pt_cpuUsagePct = None, pt_memoryUsagePct = None,
     pt_deviceType = None \<rparr>"

record PowerPolicyInput =
  pp_os :: string
  pp_telemetry :: "AgentPowerTelemetry option"
  pp_nowMs :: ms
  pp_lastTaskAssignedAtMs :: "ms option"
  pp_batteryPullMinIntervalMs :: int
  pp_batteryTaskStopLevelPct :: num

record PowerPolicyDecision =
  pd_allowCoordinatorTasks :: bool
  pd_allowPeerDirectWork :: bool
  pd_allowSmallTasksOnly :: "bool option"
  pd_deferMs :: "int option"
  pd_reason :: string

definition decide :: "bool \<Rightarrow> bool \<Rightarrow> string \<Rightarrow> PowerPolicyDecision" where
  "decide coordinatorTasks peerWork reason = \<lparr> pd_allowCoordinatorTasks = coordinatorTasks, pd_allowPeerDirectWork = peerWork,
     pd_allowSmallTasksOnly = None, pd_deferMs = None, pd_reason = reason \<rparr>"

definition clampPct :: "num \<Rightarrow> num" where
  "clampPct x = max 0 (min 100 x)"

section \<open>The policy\<close>

definition evaluateIosPowerPolicy :: "PowerPolicyInput \<Rightarrow> AgentPowerTelemetry \<Rightarrow> PowerPolicyDecision" where
  "evaluateIosPowerPolicy inp t =
     (let batteryLevelPct = map_option clampPct (pt_batteryLevelPct t) in
      if pt_lowPowerMode t = Some True then decide False False ''ios_low_power_mode''
      else if pt_onExternalPower t = Some True then decide True True ''ios_external_power''
      else if (case batteryLevelPct of None \<Rightarrow> False | Some b \<Rightarrow> b \<le> pp_batteryTaskStopLevelPct inp)
        then decide False False ''ios_battery_critical''
      else if pp_nowMs inp - nullish (pp_lastTaskAssignedAtMs inp) 0 < pp_batteryPullMinIntervalMs inp
        then decide False False ''ios_on_battery_throttled''
      else decide True False ''ios_on_battery_lite_mode'')"

definition evaluateAgentPowerPolicy :: "PowerPolicyInput \<Rightarrow> PowerPolicyDecision" where
  "evaluateAgentPowerPolicy inp =
     (let t = nullish (pp_telemetry inp) noTelemetry in
      if pp_os inp = ''ios'' then evaluateIosPowerPolicy inp t
      else if pt_deviceType t = Some Server then decide True True ''server_unlimited''
      else if (case pt_cpuUsagePct t of None \<Rightarrow> False | Some c \<Rightarrow> c > 85)
        then (decide True True ''high_cpu_defer'')\<lparr> pd_deferMs := Some 5000 \<rparr>
      else if pt_thermalState t = Some Serious \<or> pt_thermalState t = Some Critical_heat
        then decide False False ''thermal_throttle''
      else (let onAC = pt_onACPower t; batteryPct = map_option clampPct (pt_batteryPct t) in
        if pt_deviceType t = Some Desktop \<or> onAC = Some True \<or> (onAC = None \<and> batteryPct = None)
          then decide True True ''desktop_ac_power''
        else (case batteryPct of
            Some b \<Rightarrow>
              if b < 15 then decide False False ''laptop_battery_critical''
              else if b \<le> 40 then (decide True False ''laptop_battery_low'')\<lparr> pd_allowSmallTasksOnly := Some True \<rparr>
              else decide True False ''laptop_battery_high''
          | None \<Rightarrow> decide True False ''laptop_battery_high'')))"

section \<open>The sandbox rule\<close>

text \<open>\<open>dockerAvailable\<close> is the answer of the probe, made only in mode \<open>docker\<close>. The message contains a dash in UTF-8.\<close>

definition enforceSandboxPolicy :: "bool \<Rightarrow> SandboxMode \<Rightarrow> bool \<Rightarrow> string option" where
  "enforceSandboxPolicy dockerAvailable sandboxMode sandboxRequired =
     (if sandboxRequired \<and> sandboxMode = Sandbox_none
      then Some (''sandbox_required: SANDBOX_REQUIRED=true but SANDBOX_MODE=none '' @ [CHR 0xE2, CHR 0x80, CHR 0x94] @
                 '' refusing to execute without sandbox'')
      else if sandboxMode = Sandbox_docker \<and> \<not> dockerAvailable
      then Some ''sandbox_unavailable: SANDBOX_MODE=docker but Docker daemon is not running''
      else None)"

lemma enforceSandboxPolicy_required:
  "enforceSandboxPolicy d m True = None \<longleftrightarrow> m = Sandbox_vm \<or> (m = Sandbox_docker \<and> d)"
  by (cases m) (simp_all add: enforceSandboxPolicy_def)

lemma enforceSandboxPolicy_optional:
  "enforceSandboxPolicy d m False = None \<longleftrightarrow> m \<noteq> Sandbox_docker \<or> d"
  by (cases m) (simp_all add: enforceSandboxPolicy_def)

section \<open>The permissions grow with the energy at hand\<close>

text \<open>
  The permissions of a decision, as a number: nothing, small tasks, the tasks of the coordinator, and work of peers on top.
\<close>

definition grant :: "PowerPolicyDecision \<Rightarrow> nat" where
  "grant d = (if \<not> pd_allowCoordinatorTasks d then 0
              else if pd_allowSmallTasksOnly d = Some True then 1
              else if \<not> pd_allowPeerDirectWork d then 2 else 3)"

definition withBattery :: "num \<Rightarrow> PowerPolicyInput \<Rightarrow> PowerPolicyInput" where
  "withBattery b inp = inp\<lparr> pp_telemetry := Some ((nullish (pp_telemetry inp) noTelemetry)
     \<lparr> pt_batteryPct := Some b, pt_batteryLevelPct := Some b \<rparr>) \<rparr>"

definition pluggedIn :: "PowerPolicyInput \<Rightarrow> PowerPolicyInput" where
  "pluggedIn inp = inp\<lparr> pp_telemetry := Some ((nullish (pp_telemetry inp) noTelemetry)
     \<lparr> pt_onACPower := Some True, pt_onExternalPower := Some True \<rparr>) \<rparr>"

lemma grant_simps [simp]:
  "grant (decide c p r) = (if \<not> c then 0 else if \<not> p then 2 else 3)"
  "grant ((decide c p r)\<lparr> pd_deferMs := d \<rparr>) = (if \<not> c then 0 else if \<not> p then 2 else 3)"
  "grant ((decide c p r)\<lparr> pd_allowSmallTasksOnly := Some True \<rparr>) = (if \<not> c then 0 else 1)"
  by (simp_all add: grant_def decide_def)

lemma clampPct_mono: "a \<le> b \<Longrightarrow> clampPct a \<le> clampPct b"
  by (simp add: clampPct_def)

lemma grant_le_3: "grant d \<le> 3"
  by (simp add: grant_def)

lemma battery_mono:
  assumes "b \<le> b'"
  shows "grant (evaluateAgentPowerPolicy (withBattery b inp)) \<le> grant (evaluateAgentPowerPolicy (withBattery b' inp))"
  using clampPct_mono [OF assms]
  by (auto simp: evaluateAgentPowerPolicy_def evaluateIosPowerPolicy_def withBattery_def Let_def)

lemma power_lifts:
  "grant (evaluateAgentPowerPolicy inp) \<le> grant (evaluateAgentPowerPolicy (pluggedIn inp))"
  by (auto simp: evaluateAgentPowerPolicy_def evaluateIosPowerPolicy_def pluggedIn_def Let_def grant_le_3 split: option.splits)

lemma peer_work_implies_tasks:
  "pd_allowPeerDirectWork (evaluateAgentPowerPolicy inp) \<Longrightarrow> pd_allowCoordinatorTasks (evaluateAgentPowerPolicy inp)"
  by (auto simp: evaluateAgentPowerPolicy_def evaluateIosPowerPolicy_def decide_def Let_def split: option.splits if_splits)

text \<open>
  The power policy is monotone in the energy an agent has: for every agent, platform, load and history, a higher battery
  level never takes a permission away, nor does plugging the device in; an agent that may work for peers may work for
  the coordinator too; and a device on battery that is known to be below 15 percent, is neither a server nor a desktop and
  whose load is not above 85 percent gets nothing at all.
\<close>

theorem power_policy_monotone:
  "(\<forall>b b'. b \<le> b' \<longrightarrow> grant (evaluateAgentPowerPolicy (withBattery b inp)) \<le> grant (evaluateAgentPowerPolicy (withBattery b' inp))) \<and>
   grant (evaluateAgentPowerPolicy inp) \<le> grant (evaluateAgentPowerPolicy (pluggedIn inp)) \<and>
   (pd_allowPeerDirectWork (evaluateAgentPowerPolicy inp) \<longrightarrow> pd_allowCoordinatorTasks (evaluateAgentPowerPolicy inp)) \<and>
   (\<forall>t b. pp_os inp \<noteq> ''ios'' \<and> pp_telemetry inp = Some t \<and> pt_onACPower t = Some False \<and> pt_batteryPct t = Some b \<and> b < 15 \<and>
        pt_deviceType t \<noteq> Some Server \<and> pt_deviceType t \<noteq> Some Desktop \<and>
        (case pt_cpuUsagePct t of None \<Rightarrow> True | Some c \<Rightarrow> c \<le> 85) \<longrightarrow> grant (evaluateAgentPowerPolicy inp) = 0)"
proof (intro conjI allI impI)
  fix t b
  assume "pp_os inp \<noteq> ''ios'' \<and> pp_telemetry inp = Some t \<and> pt_onACPower t = Some False \<and> pt_batteryPct t = Some b \<and> b < 15 \<and>
    pt_deviceType t \<noteq> Some Server \<and> pt_deviceType t \<noteq> Some Desktop \<and>
        (case pt_cpuUsagePct t of None \<Rightarrow> True | Some c \<Rightarrow> c \<le> 85)"
  then show "grant (evaluateAgentPowerPolicy inp) = 0" by (auto simp: evaluateAgentPowerPolicy_def clampPct_def Let_def split: option.splits)
qed (use battery_mono power_lifts peer_work_implies_tasks in blast)+

definition ex_laptop :: "num \<Rightarrow> PowerPolicyInput" where
  "ex_laptop b = \<lparr> pp_os = ''macos'', pp_telemetry = Some (noTelemetry\<lparr> pt_deviceType := Some Laptop, pt_onACPower := Some False,
     pt_batteryPct := Some b \<rparr>), pp_nowMs = 0, pp_lastTaskAssignedAtMs = None, pp_batteryPullMinIntervalMs = 45000,
     pp_batteryTaskStopLevelPct = 20 \<rparr>"

theorem power_policy_monotone_witness:
  "grant (evaluateAgentPowerPolicy (ex_laptop 10)) = 0 \<and>
   grant (evaluateAgentPowerPolicy (withBattery 30 (ex_laptop 10))) = 1 \<and>
   grant (evaluateAgentPowerPolicy (withBattery 30 (ex_laptop 10))) \<le> grant (evaluateAgentPowerPolicy (withBattery 60 (ex_laptop 10)))"
proof (intro conjI)
  show "grant (evaluateAgentPowerPolicy (ex_laptop 10)) = 0"
    using power_policy_monotone [of "ex_laptop 10"] by (simp add: ex_laptop_def noTelemetry_def)
  show "grant (evaluateAgentPowerPolicy (withBattery 30 (ex_laptop 10))) = 1"
    by (simp add: ex_laptop_def withBattery_def noTelemetry_def evaluateAgentPowerPolicy_def clampPct_def)
  show "grant (evaluateAgentPowerPolicy (withBattery 30 (ex_laptop 10))) \<le> grant (evaluateAgentPowerPolicy (withBattery 60 (ex_laptop 10)))"
    using power_policy_monotone [of "ex_laptop 10"] by simp
qed

text \<open>
  The check of the processor load comes before the check of the temperature: a device in a critical thermal state that is
  also busy is granted everything, while the same device at rest is granted nothing.
\<close>

lemma busy_device_escapes_thermal_check:
  assumes "pp_os inp \<noteq> ''ios''" "pp_telemetry inp = Some t" "pt_deviceType t \<noteq> Some Server"
    "pt_thermalState t = Some Critical_heat" "pt_cpuUsagePct t = Some c"
  shows "grant (evaluateAgentPowerPolicy inp) = (if c > 85 then 3 else 0)"
  using assms by (simp add: evaluateAgentPowerPolicy_def Let_def)

end
