(* ===== verification/Federation.thy ===== *)
theory Federation
  imports SwarmQueue Behavior Mesh PowerPolicy
begin

text \<open>
  How a coordinator takes part in the mesh (\<open>src/src/swarm/coordinator.ts\<close>): the blacklist with its audit log, the
  handler of incoming gossip \<open>handleMeshIngest\<close>, the registration of peers, and the relay to WebSocket peers.
  This is where the subtask queue, the blacklist, the message protocol and the gossip mesh meet: the state is the
  record of the module's variables, and every outgoing message is part of a step's result.
\<close>

section \<open>Reading payloads\<close>

text \<open>The schema validators the handler uses; an optional member may be absent but not \<open>null\<close>.\<close>

fun as_bool :: "json option \<Rightarrow> bool option" where
  "as_bool (Some (JBool b)) = Some b"
| "as_bool _ = None"

definition opt_member :: "(json option \<Rightarrow> 'a option) \<Rightarrow> json option \<Rightarrow> 'a option option" where
  "opt_member rd v = (case v of None \<Rightarrow> Some None | Some _ \<Rightarrow> map_option Some (rd v))"

fun truthy_json :: "json option \<Rightarrow> bool" where
  "truthy_json None = False"
| "truthy_json (Some JNull) = False"
| "truthy_json (Some (JBool b)) = b"
| "truthy_json (Some (JNum n)) = (n \<noteq> 0)"
| "truthy_json (Some (JStr s)) = (s \<noteq> [])"
| "truthy_json (Some _) = True"

section \<open>The blacklist\<close>

text \<open>A record with the fields that are not hashed.\<close>

record BlacklistEntry =
  fr_record :: BlacklistRecord
  fr_reporterPublicKeyPem :: "string option"
  fr_reporterSignature :: "string option"
  fr_evidenceRef :: "string option"
  fr_reportedBy :: string

abbreviation fr_content :: "BlacklistEntry \<Rightarrow> BlacklistContent" where
  "fr_content r \<equiv> br_content (fr_record r)"

record Blacklist =
  bl_byAgent :: "(string, BlacklistEntry) jsmap"
  bl_auditLog :: "BlacklistEntry list"
  bl_version :: nat
  bl_lastHash :: string

definition newBlacklist :: Blacklist where
  "newBlacklist = \<lparr> bl_byAgent = [], bl_auditLog = [], bl_version = 0, bl_lastHash = ''BLACKLIST_GENESIS'' \<rparr>"

definition activeBlacklistRecord :: "ms \<Rightarrow> string \<Rightarrow> Blacklist \<Rightarrow> Blacklist \<times> BlacklistEntry option" where
  "activeBlacklistRecord now agentId bl =
     (case jsm_get (bl_byAgent bl) agentId of
        None \<Rightarrow> (bl, None)
      | Some r \<Rightarrow>
          if truthy_int (bc_expiresAtMs (fr_content r)) \<and> now > the (bc_expiresAtMs (fr_content r))
          then (bl\<lparr> bl_byAgent := jsm_delete agentId (bl_byAgent bl), bl_version := bl_version bl + 1 \<rparr>, None)
          else (bl, Some r))"

definition appendBlacklistRecord :: "BlacklistEntry \<Rightarrow> Blacklist \<Rightarrow> Blacklist" where
  "appendBlacklistRecord r bl = \<lparr> bl_byAgent = jsm_set (be_agentId (fr_content r)) r (bl_byAgent bl),
     bl_auditLog = bl_auditLog bl @ [r], bl_version = bl_version bl + 1, bl_lastHash = br_eventHash (fr_record r) \<rparr>"

text \<open>The members of the gossip payload; members that are undefined are not sent.\<close>

definition recordPayload :: "BlacklistEntry \<Rightarrow> payload" where
  "recordPayload r = (let b = fr_content r in
     [(''eventId'', JStr (bc_eventId b)), (''agentId'', JStr (be_agentId b)),
      (''reasonCode'', JStr (reason_name (be_reasonCode b))), (''reason'', JStr (be_reason b)),
      (''evidenceHashSha256'', JStr (be_evidenceHashSha256 b)), (''reporterId'', JStr (be_reporterId b))] @
     jfield ''reporterPublicKeyPem'' (map_option JStr (fr_reporterPublicKeyPem r)) @
     jfield ''reporterSignature'' (map_option JStr (fr_reporterSignature r)) @
     [(''evidenceSignatureVerified'', JBool (bc_evidenceSignatureVerified b))] @
     jfield ''evidenceRef'' (map_option JStr (fr_evidenceRef r)) @
     [(''sourceCoordinatorId'', JStr (bc_sourceCoordinatorId b)), (''reportedBy'', JStr (fr_reportedBy r)),
      (''timestampMs'', JNum (be_timestampMs b))] @
     jfield ''expiresAtMs'' (map_option JNum (bc_expiresAtMs b)) @
     [(''prevEventHash'', JStr (bc_prevEventHash b)), (''eventHash'', JStr (br_eventHash (fr_record r))),
      (''coordinatorSignature'', JStr (br_coordinatorSignature (fr_record r)))])"

text \<open>The reason codes both the gossip schema and the report route accept.\<close>

definition gossipReasons :: "BlacklistReasonCode list" where
  "gossipReasons = [Abuse_spam, Abuse_malware, Policy_violation, Credential_abuse, Dos_behavior, Forged_results, Manual_review]"

definition readEvidence :: "payload \<Rightarrow> BlacklistEvidenceInput option" where
  "readEvidence p = (let v = json_member (JObj p) in
     case (as_str (v ''agentId''), as_enum reason_name gossipReasons (v ''reasonCode''), as_str (v ''reason''),
           as_str (v ''evidenceHashSha256''), as_str (v ''reporterId''), as_int (v ''timestampMs'')) of
       (Some a, Some c, Some r, Some h, Some i, Some t) \<Rightarrow>
         Some \<lparr> be_agentId = a, be_reasonCode = c, be_reason = r, be_evidenceHashSha256 = h, be_reporterId = i, be_timestampMs = t \<rparr>
     | _ \<Rightarrow> None)"

definition readContent :: "payload \<Rightarrow> BlacklistContent option" where
  "readContent p = (let v = json_member (JObj p) in
     case (readEvidence p, as_str (v ''eventId''), as_str (v ''sourceCoordinatorId''), opt_member as_int (v ''expiresAtMs''),
           as_str (v ''prevEventHash''), as_bool (v ''evidenceSignatureVerified'')) of
       (Some e, Some i, Some s, Some x, Some h, Some b) \<Rightarrow>
         Some (BlacklistEvidenceInput.extend e (BlacklistContent.fields i s x h b))
     | _ \<Rightarrow> None)"

definition readBlacklistPayload :: "payload \<Rightarrow> BlacklistEntry option" where
  "readBlacklistPayload p = (let v = json_member (JObj p) in
     case (readContent p, as_str (v ''eventHash''), as_str (v ''coordinatorSignature''), opt_member as_str (v ''reporterPublicKeyPem''),
           opt_member as_str (v ''reporterSignature''), opt_member as_str (v ''evidenceRef''), as_str (v ''reportedBy'')) of
       (Some c, Some h, Some s, Some k, Some g, Some e, Some b) \<Rightarrow>
         Some \<lparr> fr_record = \<lparr> br_content = c, br_eventHash = h, br_coordinatorSignature = s \<rparr>, fr_reporterPublicKeyPem = k,
                fr_reporterSignature = g, fr_evidenceRef = e, fr_reportedBy = b \<rparr>
     | _ \<Rightarrow> None)"

section \<open>The coordinator's state\<close>

record AgentCapability =
  ag_os :: string
  ag_version :: string
  ag_mode :: string
  ag_localModelEnabled :: bool
  ag_localModelProvider :: string
  ag_localModelCatalog :: "string list"
  ag_clientType :: string
  ag_swarmEnabled :: bool
  ag_ideEnabled :: bool
  ag_maxConcurrentTasks :: int
  ag_connectedPeers :: "string list"
  ag_ownerEmail :: "string option"
  ag_sourceIp :: "string option"
  ag_countryCode :: "string option"
  ag_vpnDetected :: "bool option"
  ag_enrollmentReason :: "string option"
  ag_powerTelemetry :: "AgentPowerTelemetry option"
  ag_activeModel :: "string option"
  ag_activeModelParamSize :: "int option"
  ag_modelSwapInProgress :: "bool option"
  ag_publicKeyPem :: "string option"
  ag_x25519PublicKey :: "string option"
  ag_sandboxMode :: SandboxMode
  ag_lastSeenMs :: ms
  ag_verificationStatus :: "VerificationStatus option"

record CoordinatorIdentity =
  co_peerId :: string
  co_publicKeyPem :: string
  co_privateKeyPem :: string

record Federation =
  fd_queue :: SwarmQueue
  fd_mesh :: GossipMesh
  fd_seenIds :: "string list"
  fd_peerScore :: "(string, int) jsmap"
  fd_peerMessageWindow :: "(string, ms \<times> nat) jsmap"
  fd_taskOriginMap :: "(string, string \<times> string) jsmap"
  fd_agentCapabilities :: "(string, AgentCapability) jsmap"
  fd_federatedCapabilities :: "(json, payload) jsmap"
  fd_blacklist :: Blacklist
  fd_ordering :: OrderingChain

definition newFederation :: "CoordinatorIdentity \<Rightarrow> bool \<Rightarrow> Federation" where
  "newFederation self store = \<lparr> fd_queue = newSwarmQueue store, fd_mesh = newGossipMesh, fd_seenIds = [], fd_peerScore = [],
     fd_peerMessageWindow = [], fd_taskOriginMap = [], fd_agentCapabilities = [], fd_federatedCapabilities = [],
     fd_blacklist = newBlacklist,
     fd_ordering = \<lparr> OrderingChain.records = [], signerPeerId = co_peerId self, signerPrivateKeyPem = co_privateKeyPem self \<rparr> \<rparr>"

section \<open>Reporting an agent\<close>

text \<open>A record as this coordinator makes it: chained to its last event, hashed and signed.\<close>

definition ownRecord ::
  "crypto \<Rightarrow> CoordinatorIdentity \<Rightarrow> string \<Rightarrow> BlacklistEvidenceInput \<Rightarrow> ms option \<Rightarrow> bool \<Rightarrow> string option \<Rightarrow> string option \<Rightarrow>
   string option \<Rightarrow> string \<Rightarrow> Blacklist \<Rightarrow> BlacklistEntry" where
  "ownRecord cr self eventId ev expiresAtMs verified pem sig eref reportedBy bl =
     (let content = BlacklistEvidenceInput.extend ev
            (BlacklistContent.fields eventId (co_peerId self) expiresAtMs (bl_lastHash bl) verified);
          eventHash = buildBlacklistEventHash cr content
      in \<lparr> fr_record = \<lparr> br_content = content, br_eventHash = eventHash,
                         br_coordinatorSignature = signPayload cr eventHash (co_privateKeyPem self) \<rparr>,
           fr_reporterPublicKeyPem = pem, fr_reporterSignature = sig, fr_evidenceRef = eref, fr_reportedBy = reportedBy \<rparr>)"

text \<open>Appending a record and the gossip message for it.\<close>

definition publishRecord :: "crypto \<Rightarrow> CoordinatorIdentity \<Rightarrow> string \<Rightarrow> ms \<Rightarrow> BlacklistEntry \<Rightarrow> Federation \<Rightarrow> Federation \<times> MeshMessage" where
  "publishRecord cr self msgId now r st =
     (st\<lparr> fd_blacklist := appendBlacklistRecord r (fd_blacklist st) \<rparr>,
      createMessage cr msgId now Msg_blacklist_update (co_peerId self) (recordPayload r) (co_privateKeyPem self) 30000)"

text \<open>The callback given to the \<open>AutoBlacklister\<close>.\<close>

definition autoBlacklist :: "crypto \<Rightarrow> CoordinatorIdentity \<Rightarrow> string \<Rightarrow> string \<Rightarrow> ms \<Rightarrow> BlacklistAction \<Rightarrow> Federation \<Rightarrow> Federation \<times> MeshMessage" where
  "autoBlacklist cr self eventId msgId now action st =
     publishRecord cr self msgId now
       (ownRecord cr self eventId
          \<lparr> be_agentId = ba_agentId action, be_reasonCode = ba_reasonCode action, be_reason = ba_reason action,
            be_evidenceHashSha256 = ba_evidenceHashSha256 action, be_reporterId = co_peerId self, be_timestampMs = now \<rparr>
          None False None None None ''behavioral_monitoring'' (fd_blacklist st)) st"

record BlacklistReport =
  rp_agentId :: string
  rp_reasonCode :: BlacklistReasonCode
  rp_reason :: string
  rp_reportedBy :: "string option"
  rp_reporterId :: "string option"
  rp_reporterPublicKeyPem :: "string option"
  rp_reporterSignature :: "string option"
  rp_evidenceHashSha256 :: string
  rp_evidenceRef :: "string option"
  rp_expiresInMs :: "int option"

datatype ReportResponse = Report_unauthorized | Report_invalid | Report_unsigned | Reported BlacklistEntry nat string

text \<open>\<open>POST /security/blacklist\<close>; the message is the one the handler broadcasts.\<close>

definition reportAgent ::
  "crypto \<Rightarrow> CoordinatorIdentity \<Rightarrow> bool \<Rightarrow> string \<Rightarrow> string \<Rightarrow> ms \<Rightarrow> BlacklistReport \<Rightarrow> Federation \<Rightarrow> Federation \<times> ReportResponse \<times> MeshMessage option" where
  "reportAgent cr self meshOk eventId msgId now body st =
     (if \<not> meshOk then (st, Report_unauthorized, None)
      else if rp_reasonCode body \<notin> set gossipReasons \<or> length (rp_reason body) < 3 \<or> length (rp_evidenceHashSha256 body) \<noteq> 64 \<or>
              (case rp_expiresInMs body of None \<Rightarrow> False | Some d \<Rightarrow> d \<le> 0)
        then (st, Report_invalid, None)
      else (let ev = \<lparr> be_agentId = rp_agentId body, be_reasonCode = rp_reasonCode body, be_reason = rp_reason body,
                       be_evidenceHashSha256 = rp_evidenceHashSha256 body, be_reporterId = nullish (rp_reporterId body) ''policy-engine'',
                       be_timestampMs = now \<rparr>;
                verified = verifyReporterEvidenceSignature cr ev (rp_reporterPublicKeyPem body) (rp_reporterSignature body)
            in if \<not> verified \<and> rp_reasonCode body \<noteq> Manual_review then (st, Report_unsigned, None)
               else (let r = ownRecord cr self eventId ev
                               (if truthy_int (rp_expiresInMs body) then Some (now + the (rp_expiresInMs body)) else None) verified
                               (rp_reporterPublicKeyPem body) (rp_reporterSignature body) (rp_evidenceRef body)
                               (nullish (rp_reportedBy body) ''policy-engine'') (fd_blacklist st);
                         (st1, msg) = publishRecord cr self msgId now r st
                     in (st1, Reported r (bl_version (fd_blacklist st1)) (bl_lastHash (fd_blacklist st1)), Some msg))))"

section \<open>Incoming gossip\<close>

definition MESH_RATE_LIMIT_PER_10S :: nat where
  "MESH_RATE_LIMIT_PER_10S = 50"

definition score :: "string \<Rightarrow> Federation \<Rightarrow> int" where
  "score peerId st = nullish (jsm_get (fd_peerScore st) peerId) 100"

definition penalize :: "string \<Rightarrow> int \<Rightarrow> Federation \<Rightarrow> Federation" where
  "penalize peerId n st = st\<lparr> fd_peerScore := jsm_set peerId (max 0 (score peerId st - n)) (fd_peerScore st) \<rparr>"

definition reward :: "string \<Rightarrow> int \<Rightarrow> Federation \<Rightarrow> Federation" where
  "reward peerId n st = st\<lparr> fd_peerScore := jsm_set peerId (min 200 (score peerId st + n)) (fd_peerScore st) \<rparr>"

definition findPeer :: "string \<Rightarrow> Federation \<Rightarrow> MeshPeerIdentity option" where
  "findPeer peerId st = find (\<lambda>p. id_peerId p = peerId) (gossipPeers (fd_mesh st))"

text \<open>Counting a message in its ten-second window; the boolean says whether it is within the limit.\<close>

definition countMessage :: "ms \<Rightarrow> string \<Rightarrow> Federation \<Rightarrow> Federation \<times> bool" where
  "countMessage now peerId st =
     (let windowStart = now - now mod 10000 in
      case jsm_get (fd_peerMessageWindow st) peerId of
        None \<Rightarrow> (st\<lparr> fd_peerMessageWindow := jsm_set peerId (windowStart, 1) (fd_peerMessageWindow st) \<rparr>, True)
      | Some (start, count) \<Rightarrow>
          if start \<noteq> windowStart
          then (st\<lparr> fd_peerMessageWindow := jsm_set peerId (windowStart, 1) (fd_peerMessageWindow st) \<rparr>, True)
          else (st\<lparr> fd_peerMessageWindow := jsm_set peerId (start, count + 1) (fd_peerMessageWindow st) \<rparr>,
                count + 1 \<le> MESH_RATE_LIMIT_PER_10S))"

datatype FedResult =
    Fed_ok
  | Fed_added nat
  | Fed_skipped string
  | Fed_enqueued
  | Fed_refused nat string
  | Fed_threw

fun fault_name :: "MessageFault \<Rightarrow> string" where
  "fault_name Duplicate_message = ''duplicate_message''"
| "fault_name Message_expired = ''message_expired''"
| "fault_name Invalid_message_signature = ''invalid_signature''"

fun incoming_name :: "IncomingFault \<Rightarrow> string" where
  "incoming_name Blacklist_event_hash_mismatch = ''blacklist_event_hash_mismatch''"
| "incoming_name Blacklist_coordinator_signature_invalid = ''blacklist_coordinator_signature_invalid''"

text \<open>Rate limit and signature of a known peer; \<open>None\<close> where the message passes.\<close>

definition admit :: "crypto \<Rightarrow> ms \<Rightarrow> MeshMessage \<Rightarrow> MeshPeerIdentity \<Rightarrow> Federation \<Rightarrow> Federation \<times> FedResult option" where
  "admit cr now message peer st =
     (case countMessage now (id_peerId peer) st of
        (st1, False) \<Rightarrow> (penalize (id_peerId peer) 10 st1, Some (Fed_refused 429 ''peer_rate_limited''))
      | (st1, True) \<Rightarrow>
          (case validateMessage cr now message (id_publicKeyPem peer) (fd_seenIds st1) of
             (seen, Some fault) \<Rightarrow>
               (penalize (id_peerId peer) 5 (st1\<lparr> fd_seenIds := seen \<rparr>), Some (Fed_refused 400 (fault_name fault)))
           | (seen, None) \<Rightarrow> (st1\<lparr> fd_seenIds := seen \<rparr>, None)))"

text \<open>A blacklist update of a known peer; \<open>None\<close> where the handler goes on.\<close>

definition ingestBlacklist :: "crypto \<Rightarrow> ms \<Rightarrow> payload \<Rightarrow> MeshPeerIdentity \<Rightarrow> Federation \<Rightarrow> Federation \<times> FedResult option" where
  "ingestBlacklist cr now payload peer st =
     (case readBlacklistPayload payload of
        None \<Rightarrow> (penalize (id_peerId peer) 5 st, Some (Fed_refused 400 ''invalid_blacklist_payload''))
      | Some r \<Rightarrow>
          (case validateIncomingBlacklistRecord cr (fr_record r) (id_publicKeyPem peer) of
             Some fault \<Rightarrow> (penalize (id_peerId peer) 10 st, Some (Fed_refused 400 (incoming_name fault)))
           | None \<Rightarrow>
               (let (bl, current) = activeBlacklistRecord now (be_agentId (fr_content r)) (fd_blacklist st) in
                (st\<lparr> fd_blacklist := (if (case current of None \<Rightarrow> True
                        | Some c \<Rightarrow> be_timestampMs (fr_content r) \<ge> be_timestampMs (fr_content c))
                      then appendBlacklistRecord r bl else bl) \<rparr>, None))))"

definition ingestSummary :: "payload \<Rightarrow> Federation \<Rightarrow> Federation" where
  "ingestSummary payload st =
     (case json_member (JObj payload) ''coordinatorId'' of
        None \<Rightarrow> st
      | Some c \<Rightarrow>
          if truthy_json (Some c) \<and> truthy_json (json_member (JObj payload) ''timestamp'')
          then st\<lparr> fd_federatedCapabilities := jsm_set c payload (fd_federatedCapabilities st) \<rparr> else st)"

definition ingestExchangeEntry :: "CoordinatorIdentity \<Rightarrow> PeerExchangeEntry \<Rightarrow> Federation \<times> nat \<Rightarrow> Federation \<times> nat" where
  "ingestExchangeEntry self p acc = (case acc of (st, added) \<Rightarrow>
     (let peerId = id_peerId (px_identity p) in
      if peerId = co_peerId self then (st, added)
      else if findPeer peerId st \<noteq> None then (st, added)
      else (st\<lparr> fd_mesh := gossipAddPeer (px_identity p) (fd_mesh st),
                fd_peerScore := jsm_set peerId 100 (fd_peerScore st) \<rparr>, added + 1)))"

record CapabilityAnnounce =
  ca_peerId :: string
  ca_role :: MeshPeerRole
  ca_models :: "string list"
  ca_maxConcurrentTasks :: int
  ca_deviceType :: string

fun as_strs :: "json option \<Rightarrow> string list option" where
  "as_strs (Some (JArr vs)) = those (map (\<lambda>v. as_str (Some v)) vs)"
| "as_strs _ = None"

definition readAnnounce :: "payload \<Rightarrow> CapabilityAnnounce option" where
  "readAnnounce p = (let v = json_member (JObj p) in
     case (as_str (v ''peerId''), as_enum role_name [Role_coordinator, Role_agent, Role_phone] (v ''role''), as_strs (v ''models''),
           as_int (v ''maxConcurrentTasks''), as_enum id [''server'', ''laptop'', ''phone''] (v ''deviceType'')) of
       (Some i, Some r, Some ms, Some n, Some d) \<Rightarrow>
         Some \<lparr> ca_peerId = i, ca_role = r, ca_models = ms, ca_maxConcurrentTasks = n, ca_deviceType = d \<rparr>
     | _ \<Rightarrow> None)"

definition ingestAnnounce :: "ms \<Rightarrow> CapabilityAnnounce \<Rightarrow> Federation \<Rightarrow> Federation" where
  "ingestAnnounce now a st =
     (if ca_peerId a = [] \<or> ca_role a = Role_coordinator then st
      else (let first = (case ca_models a of [] \<Rightarrow> None | m # _ \<Rightarrow> Some m);
                entry = (case jsm_get (fd_agentCapabilities st) (ca_peerId a) of
                    Some existing \<Rightarrow> existing\<lparr> ag_activeModel := first, ag_localModelCatalog := ca_models a,
                      ag_maxConcurrentTasks := ca_maxConcurrentTasks a, ag_lastSeenMs := now \<rparr>
                  | None \<Rightarrow> \<lparr> ag_os = (if ca_deviceType a = ''phone'' then ''ios'' else ''macos''), ag_version = ''mesh-peer'',
                      ag_mode = ''swarm-only'', ag_localModelEnabled = True, ag_localModelProvider = ''ollama-local'',
                      ag_localModelCatalog = ca_models a, ag_clientType = ''mesh-'' @ ca_deviceType a, ag_swarmEnabled = True,
                      ag_ideEnabled = False, ag_maxConcurrentTasks = ca_maxConcurrentTasks a, ag_connectedPeers = [],
                      ag_ownerEmail = None, ag_sourceIp = None, ag_countryCode = None, ag_vpnDetected = None, ag_enrollmentReason = None,
                      ag_powerTelemetry = None, ag_activeModel = first, ag_activeModelParamSize = Some 0, ag_modelSwapInProgress = None,
                      ag_publicKeyPem = None, ag_x25519PublicKey = None, ag_sandboxMode = Sandbox_none, ag_lastSeenMs = now,
                      ag_verificationStatus = None \<rparr>)
            in st\<lparr> fd_agentCapabilities := jsm_set (ca_peerId a) entry (fd_agentCapabilities st) \<rparr>))"

subsection \<open>Task offers\<close>

record TaskOffer =
  to_subtask :: Subtask
  to_originCoordinatorId :: string
  to_originCoordinatorUrl :: string

fun kind_name :: "SubtaskKind \<Rightarrow> string" where
  "kind_name Micro_loop = ''micro_loop''"
| "kind_name Single_step = ''single_step''"

fun language_name :: "Language \<Rightarrow> string" where
  "language_name Python = ''python''"
| "language_name Javascript = ''javascript''"

fun resource_name :: "ResourceClass \<Rightarrow> string" where
  "resource_name Cpu = ''cpu''"
| "resource_name Gpu = ''gpu''"

definition readProjectMeta :: "json option \<Rightarrow> TaskProjectMeta option" where
  "readProjectMeta j = (case j of None \<Rightarrow> None | Some m \<Rightarrow>
     (case (as_str (json_member m ''projectId''), opt_member as_str (json_member m ''tenantId''),
            as_enum resource_name [Cpu, Gpu] (json_member m ''resourceClass''), as_int (json_member m ''priority'')) of
        (Some p, Some t, Some c, Some n) \<Rightarrow> Some \<lparr> projectId = p, tenantId = t, resourceClass = c, priority = n \<rparr>
      | _ \<Rightarrow> None))"

definition readSubtask :: "payload \<Rightarrow> Subtask option" where
  "readSubtask p = (let v = json_member (JObj p) in
     case (as_str (v ''subtaskId''), as_str (v ''taskId''), as_enum kind_name [Micro_loop, Single_step] (v ''kind''),
           as_enum language_name [Python, Javascript] (v ''language''), as_str (v ''input''), as_int (v ''timeoutMs''),
           as_str (v ''snapshotRef''), readProjectMeta (v ''projectMeta'')) of
       (Some i, Some t, Some k, Some l, Some inp, Some tm, Some s, Some m) \<Rightarrow>
         Some \<lparr> st_id = i, st_taskId = t, st_kind = k, st_language = l, st_input = inp, st_timeoutMs = tm, st_snapshotRef = s,
                st_projectMeta = m, st_requestedModel = None, st_dependsOn = None, st_subtaskIndex = None \<rparr>
     | _ \<Rightarrow> None)"

definition readOffer :: "payload \<Rightarrow> TaskOffer option" where
  "readOffer p =
     (case (readSubtask p, as_str (json_member (JObj p) ''originCoordinatorId''), as_str (json_member (JObj p) ''originCoordinatorUrl'')) of
        (Some st, Some c, Some u) \<Rightarrow> Some \<lparr> to_subtask = st, to_originCoordinatorId = c, to_originCoordinatorUrl = u \<rparr>
      | _ \<Rightarrow> None)"

definition aliveAgents :: "ms \<Rightarrow> Federation \<Rightarrow> bool" where
  "aliveAgents now st = (\<exists>a \<in> set (jsm_values (fd_agentCapabilities st)). ag_lastSeenMs a > now - 30000)"

definition acceptOffer ::
  "crypto \<Rightarrow> CoordinatorIdentity \<Rightarrow> string \<Rightarrow> ms \<Rightarrow> TaskOffer \<Rightarrow> MeshPeerIdentity option \<Rightarrow> Federation \<Rightarrow> Federation \<times> MeshMessage" where
  "acceptOffer cr self uuid now d peer st =
     (let subtaskId = st_id (to_subtask d);
          st1 = st\<lparr> fd_queue := fst (enqueueSubtask (Some subtaskId) (to_subtask d) None uuid now (fd_queue st)) \<rparr>;
          url = (case findPeer (to_originCoordinatorId d) st1 of None \<Rightarrow> to_originCoordinatorUrl d | Some p \<Rightarrow> id_coordinatorUrl p);
          st2 = st1\<lparr> fd_taskOriginMap := jsm_set subtaskId (to_originCoordinatorId d, url) (fd_taskOriginMap st1) \<rparr>;
          msg = createMessage cr uuid now Msg_task_claim (co_peerId self)
                  [(''subtaskId'', JStr subtaskId), (''claimedByCoordinator'', JStr (co_peerId self))] (co_privateKeyPem self) 30000
      in (case peer of None \<Rightarrow> st2 | Some p \<Rightarrow> reward (id_peerId p) 2 st2, msg))"

definition ingestOffer ::
  "crypto \<Rightarrow> CoordinatorIdentity \<Rightarrow> string \<Rightarrow> ms \<Rightarrow> payload \<Rightarrow> MeshPeerIdentity option \<Rightarrow> Federation \<Rightarrow> Federation \<times> FedResult \<times> MeshMessage list" where
  "ingestOffer cr self uuid now payload peer st =
     (case readOffer payload of
        None \<Rightarrow> (st, Fed_refused 400 ''invalid_task_offer_payload'', [])
      | Some d \<Rightarrow>
          if to_originCoordinatorId d = co_peerId self then (st, Fed_skipped ''own_task'', [])
          else if \<not> aliveAgents now st then (st, Fed_skipped ''no_agents'', [])
          else (case acceptOffer cr self uuid now d peer st of (st1, msg) \<Rightarrow> (st1, Fed_enqueued, [msg])))"

definition ingestClaim :: "CoordinatorIdentity \<Rightarrow> ms \<Rightarrow> payload \<Rightarrow> Federation \<Rightarrow> Federation" where
  "ingestClaim self now payload st =
     (case (as_str (json_member (JObj payload) ''subtaskId''), as_str (json_member (JObj payload) ''claimedByCoordinator'')) of
        (Some i, Some c) \<Rightarrow>
          if c \<noteq> co_peerId self \<and> \<not> aliveAgents now st
          then st\<lparr> fd_queue := fst (markRemoteClaimed i (fd_queue st)) \<rparr> else st
      | _ \<Rightarrow> st)"

definition resultAnnounced :: "payload \<Rightarrow> string option" where
  "resultAnnounced p = (let v = json_member (JObj p) in
     case (as_str (v ''taskId''), as_str (v ''subtaskId''), as_bool (v ''ok''), opt_member as_str (v ''output''),
           opt_member as_str (v ''error''), opt_member as_int (v ''durationMs'')) of
       (Some t, Some i, Some b, Some out, Some e, Some d) \<Rightarrow> Some i
     | _ \<Rightarrow> None)"

definition ingestResult :: "payload \<Rightarrow> Federation \<Rightarrow> Federation" where
  "ingestResult payload st =
     (case resultAnnounced payload of None \<Rightarrow> st | Some i \<Rightarrow> st\<lparr> fd_queue := fst (markRemoteClaimed i (fd_queue st)) \<rparr>)"

subsection \<open>The handler\<close>

text \<open>What follows the admission of a message; \<open>peer\<close> is \<open>None\<close> for an unknown sender.\<close>

definition ingestAdmitted ::
  "crypto \<Rightarrow> CoordinatorIdentity \<Rightarrow> string \<Rightarrow> ms \<Rightarrow> MeshMessage \<Rightarrow> MeshPeerIdentity option \<Rightarrow> Federation \<Rightarrow> Federation \<times> FedResult \<times> MeshMessage list" where
  "ingestAdmitted cr self uuid now message peer st =
     (let payload = mm_payload (mm_unsigned message);
          bump = (\<lambda>s. case peer of None \<Rightarrow> s | Some p \<Rightarrow> reward (id_peerId p) 1 s)
      in case mm_type (mm_unsigned message) of
           Msg_blacklist_update \<Rightarrow>
             (case peer of
                None \<Rightarrow> (st, Fed_ok, [])
              | Some p \<Rightarrow> (case ingestBlacklist cr now payload p st of
                             (st1, Some r) \<Rightarrow> (st1, r, [])
                           | (st1, None) \<Rightarrow> (bump st1, Fed_ok, [])))
         | Msg_capability_summary \<Rightarrow> (ingestSummary payload st, Fed_ok, [])
         | Msg_peer_exchange \<Rightarrow>
             (case readExchange payload of
                None \<Rightarrow> (st, Fed_threw, [])
              | Some ps \<Rightarrow> (case fold (ingestExchangeEntry self) ps (st, 0) of (st1, added) \<Rightarrow> (st1, Fed_added added, [])))
         | Msg_capability_announce \<Rightarrow>
             (case readAnnounce payload of None \<Rightarrow> (st, Fed_threw, []) | Some a \<Rightarrow> (ingestAnnounce now a st, Fed_ok, []))
         | Msg_task_offer \<Rightarrow> ingestOffer cr self uuid now payload peer st
         | Msg_task_claim \<Rightarrow> (ingestClaim self now payload st, Fed_ok, [])
         | Msg_result_announce \<Rightarrow> (ingestResult payload st, Fed_ok, [])
         | _ \<Rightarrow> (bump st, Fed_ok, []))"

definition handleMeshIngest ::
  "crypto \<Rightarrow> CoordinatorIdentity \<Rightarrow> string \<Rightarrow> ms \<Rightarrow> MeshMessage \<Rightarrow> Federation \<Rightarrow> Federation \<times> FedResult \<times> MeshMessage list" where
  "handleMeshIngest cr self uuid now message st =
     (case findPeer (mm_fromPeerId (mm_unsigned message)) st of
        None \<Rightarrow>
          if mm_type (mm_unsigned message) \<noteq> Msg_peer_exchange \<and> mm_type (mm_unsigned message) \<noteq> Msg_capability_announce
          then (st, Fed_refused 404 ''peer_unknown'', [])
          else ingestAdmitted cr self uuid now message None st
      | Some peer \<Rightarrow>
          (case admit cr now message peer st of
             (st1, Some r) \<Rightarrow> (st1, r, [])
           | (st1, None) \<Rightarrow> ingestAdmitted cr self uuid now message (Some peer) st1))"

section \<open>Routes\<close>

fun fed_accepted :: "FedResult \<Rightarrow> bool" where
  "fed_accepted (Fed_refused _ _) = False"
| "fed_accepted Fed_threw = False"
| "fed_accepted _ = True"

text \<open>\<open>relayToWsPeers\<close>: the peers a message is passed on to.\<close>

definition relayToWsPeers :: "CoordinatorIdentity \<Rightarrow> MeshMessage \<Rightarrow> Federation \<Rightarrow> string list" where
  "relayToWsPeers self message st =
     filter (\<lambda>p. p \<noteq> mm_fromPeerId (mm_unsigned message) \<and> p \<noteq> co_peerId self) (getWsConnectedPeerIds (fd_mesh st))"

text \<open>
  \<open>POST /mesh/ingest\<close>, and the message handler of a WebSocket, which differs in having passed the token check
  when it was opened. \<open>None\<close> is the unauthorized response; the last component lists the peers the message goes on to.
\<close>

definition ingestHttp ::
  "crypto \<Rightarrow> CoordinatorIdentity \<Rightarrow> bool \<Rightarrow> string \<Rightarrow> ms \<Rightarrow> MeshMessage \<Rightarrow> Federation \<Rightarrow>
   Federation \<times> FedResult option \<times> MeshMessage list \<times> string list" where
  "ingestHttp cr self meshOk uuid now message st =
     (if \<not> meshOk then (st, None, [], [])
      else (case handleMeshIngest cr self uuid now message st of (st1, r, out) \<Rightarrow>
              (st1, Some r, out, if fed_accepted r then relayToWsPeers self message st1 else [])))"

record Activation =
  act_allowed :: bool
  act_reason :: "string option"
  act_ownerEmail :: "string option"

datatype RegisterResponse = Register_unauthorized | Register_refused "string option" | Registered nat

text \<open>
  \<open>POST /mesh/register-peer\<close>: \<open>tokenProvided\<close> says that the mesh token is configured and was sent; otherwise the portal's
  answer decides.
\<close>

definition registerPeer ::
  "crypto \<Rightarrow> CoordinatorIdentity \<Rightarrow> bool \<Rightarrow> bool \<Rightarrow> bool \<Rightarrow> Activation \<Rightarrow> string \<Rightarrow> ms \<Rightarrow> string option \<Rightarrow> MeshPeerIdentity \<Rightarrow> Federation \<Rightarrow>
   Federation \<times> RegisterResponse" where
  "registerPeer cr self meshOk tokenProvided portalConfigured activation uuid now sourceIp body st =
     (if \<not> meshOk then (st, Register_unauthorized)
      else if \<not> tokenProvided \<and> \<not> act_allowed activation then (st, Register_refused (act_reason activation))
      else if \<not> tokenProvided \<and> portalConfigured \<and> \<not> truthy_str (act_ownerEmail activation)
        then (st, Register_refused (Some ''owner_email_required''))
      else (let activationReason = (if tokenProvided then ''mesh_token_peer'' else nullish (act_reason activation) ''portal_validated'');
                st1 = st\<lparr> fd_mesh := gossipAddPeer body (fd_mesh st), fd_peerScore := jsm_set (id_peerId body) 100 (fd_peerScore st) \<rparr>;
                event = \<lparr> ce_eventType = Node_approval, ce_taskId = ''coordinator:'' @ id_peerId body, ce_subtaskId = None,
                          ce_actorId = id_peerId body, ce_coordinatorId = Some (co_peerId self), ce_checkpointHeight = None,
                          ce_checkpointHash = None,
                          ce_payloadJson = Some (json_text (JObj [(''approved'', JBool True), (''activationReason'', JStr activationReason),
                            (''sourceIp'', case sourceIp of None \<Rightarrow> JNull | Some ip \<Rightarrow> JStr ip)])) \<rparr>
            in (st1\<lparr> fd_ordering := fst (Ledger.append cr event uuid now (fd_ordering st1)) \<rparr>,
                Registered (length (gossipPeers (fd_mesh st1))))))"

datatype RelayResponse =
  Relay_unauthorized | Relay_no_ws | Relay_invalid | Relay_refused FedResult | Relay_not_open | Relay_send_error | Relayed

text \<open>\<open>POST /mesh/relay-gossip\<close>; \<open>inner\<close> is the parsed message, \<open>None\<close> where it does not parse; \<open>send\<close> whether the send returns.\<close>

definition relayGossip ::
  "crypto \<Rightarrow> CoordinatorIdentity \<Rightarrow> bool \<Rightarrow> string \<Rightarrow> ms \<Rightarrow> string \<Rightarrow> MeshMessage option \<Rightarrow> bool \<Rightarrow> Federation \<Rightarrow>
   Federation \<times> RelayResponse \<times> MeshMessage list" where
  "relayGossip cr self meshOk uuid now targetPeerId inner send st =
     (if \<not> meshOk then (st, Relay_unauthorized, [])
      else if \<not> hasWebSocket targetPeerId (fd_mesh st) then (st, Relay_no_ws, [])
      else (case inner of
              None \<Rightarrow> (st, Relay_invalid, [])
            | Some message \<Rightarrow>
                (case handleMeshIngest cr self uuid now message st of (st1, r, out) \<Rightarrow>
                   if r = Fed_threw then (st1, Relay_invalid, out)
                   else if \<not> fed_accepted r then (st1, Relay_refused r, out)
                   else if \<not> hasWebSocket targetPeerId (fd_mesh st1) then (st1, Relay_not_open, out)
                   else if \<not> send then (st1, Relay_send_error, out)
                   else (st1, Relayed, out))))"

section \<open>Invariants\<close>

datatype fed_op =
    FIngest bool string ms MeshMessage
  | FRelay bool string ms string "MeshMessage option" bool
  | FRegister bool bool bool Activation string ms "string option" MeshPeerIdentity
  | FReport bool string string ms BlacklistReport
  | FAuto string string ms BlacklistAction
  | FActive ms string
  | FSocket string "WebSocket option"
  | FBroadcast Network
  | FQueue queue_op

text \<open>\<open>FActive\<close> is a look-up in the blacklist by some other route, \<open>FQueue\<close> an operation of another route on the queue.\<close>

fun fed_exec :: "crypto \<Rightarrow> CoordinatorIdentity \<Rightarrow> fed_op \<Rightarrow> Federation \<Rightarrow> Federation" where
  "fed_exec cr self (FIngest ok u now m) st = fst (ingestHttp cr self ok u now m st)"
| "fed_exec cr self (FRelay ok u now t m s) st = fst (relayGossip cr self ok u now t m s st)"
| "fed_exec cr self (FRegister ok tok portal act u now ip body) st = fst (registerPeer cr self ok tok portal act u now ip body st)"
| "fed_exec cr self (FReport ok e m now body) st = fst (reportAgent cr self ok e m now body st)"
| "fed_exec cr self (FAuto e m now action) st = fst (autoBlacklist cr self e m now action st)"
| "fed_exec cr self (FActive now a) st = st\<lparr> fd_blacklist := fst (activeBlacklistRecord now a (fd_blacklist st)) \<rparr>"
| "fed_exec cr self (FSocket k ws) st = st\<lparr> fd_mesh := (case ws of
     None \<Rightarrow> removeWebSocketForPeer k (fd_mesh st) | Some w \<Rightarrow> setWebSocketForPeer k w (fd_mesh st)) \<rparr>"
| "fed_exec cr self (FBroadcast net) st = st\<lparr> fd_mesh := fst (broadcast net None (fd_mesh st)) \<rparr>"
| "fed_exec cr self (FQueue opn) st = st\<lparr> fd_queue := queue_exec opn (fd_queue st) \<rparr>"

text \<open>Scores stay within 0 and 200.\<close>

definition scores_ok :: "(string, int) jsmap \<Rightarrow> bool" where
  "scores_ok m = (jsm_wf m \<and> (\<forall>k v. jsm_get m k = Some v \<longrightarrow> 0 \<le> v \<and> v \<le> 200))"

text \<open>
  The blacklist: agents are filed under their id, an entry in force is in the audit log, every logged record
  carries the hash of its content, and the published head is the hash of the last one.
\<close>

definition blacklist_ok :: "crypto \<Rightarrow> Blacklist \<Rightarrow> bool" where
  "blacklist_ok cr bl = (jsm_wf (bl_byAgent bl) \<and>
     (\<forall>k r. jsm_get (bl_byAgent bl) k = Some r \<longrightarrow> be_agentId (fr_content r) = k \<and> r \<in> set (bl_auditLog bl)) \<and>
     (\<forall>r \<in> set (bl_auditLog bl). br_eventHash (fr_record r) = buildBlacklistEventHash cr (fr_content r)) \<and>
     bl_lastHash bl = (if bl_auditLog bl = [] then ''BLACKLIST_GENESIS'' else br_eventHash (fr_record (last (bl_auditLog bl)))) \<and>
     length (bl_auditLog bl) \<le> bl_version bl)"

definition fed_inv :: "crypto \<Rightarrow> Federation \<Rightarrow> bool" where
  "fed_inv cr st = (queue_inv (fd_queue st) \<and> gossip_inv (fd_mesh st) \<and> distinct (fd_seenIds st) \<and>
     scores_ok (fd_peerScore st) \<and> jsm_wf (fd_agentCapabilities st) \<and> blacklist_ok cr (fd_blacklist st))"

lemma scores_set: "scores_ok m \<Longrightarrow> 0 \<le> v \<Longrightarrow> v \<le> 200 \<Longrightarrow> scores_ok (jsm_set k v m)"
  by (auto simp: scores_ok_def jsm_get_set)

lemma score_bounds: "scores_ok (fd_peerScore st) \<Longrightarrow> 0 \<le> score k st \<and> score k st \<le> 200"
  by (cases "jsm_get (fd_peerScore st) k") (auto simp: score_def scores_ok_def nullish_def)

lemma penalize_inv: "fed_inv cr st \<Longrightarrow> 0 \<le> n \<Longrightarrow> fed_inv cr (penalize k n st)"
  using score_bounds [of st k] by (simp add: fed_inv_def penalize_def scores_set)

lemma reward_inv: "fed_inv cr st \<Longrightarrow> 0 \<le> n \<Longrightarrow> fed_inv cr (reward k n st)"
  using score_bounds [of st k] by (simp add: fed_inv_def reward_def scores_set)

lemma append_blacklist_ok:
  assumes "blacklist_ok cr bl" "br_eventHash (fr_record r) = buildBlacklistEventHash cr (fr_content r)"
  shows "blacklist_ok cr (appendBlacklistRecord r bl)"
  using assms by (auto simp: blacklist_ok_def appendBlacklistRecord_def jsm_get_set split: if_splits)

lemma active_blacklist_ok: "blacklist_ok cr bl \<Longrightarrow> blacklist_ok cr (fst (activeBlacklistRecord now a bl))"
  by (auto simp: blacklist_ok_def activeBlacklistRecord_def jsm_get_delete split: option.splits if_splits)

lemma valid_incoming_hash:
  "validateIncomingBlacklistRecord cr r pem = None \<Longrightarrow> br_eventHash r = buildBlacklistEventHash cr (br_content r)"
  by (auto simp: validateIncomingBlacklistRecord_def split: if_splits)

lemma ownRecord_hash:
  "br_eventHash (fr_record (ownRecord cr self e ev x v pem sig er by bl)) =
     buildBlacklistEventHash cr (fr_content (ownRecord cr self e ev x v pem sig er by bl))"
  by (simp add: ownRecord_def Let_def)

lemma blacklist_inv: "fed_inv cr st \<Longrightarrow> blacklist_ok cr bl \<Longrightarrow> fed_inv cr (st\<lparr> fd_blacklist := bl \<rparr>)"
  by (simp add: fed_inv_def)

lemma queue_op_inv: "fed_inv cr st \<Longrightarrow> fed_inv cr (st\<lparr> fd_queue := queue_exec opn (fd_queue st) \<rparr>)"
  by (simp add: fed_inv_def queue_exec_inv)

lemma countMessage_inv: "fed_inv cr st \<Longrightarrow> fed_inv cr (fst (countMessage now k st))"
  by (auto simp: countMessage_def Let_def fed_inv_def split: option.splits)

lemma admit_inv:
  assumes "fed_inv cr st"
  shows "fed_inv cr (fst (admit cr now m p st))"
proof -
  obtain st1 ok where c: "countMessage now (id_peerId p) st = (st1, ok)" by (cases "countMessage now (id_peerId p) st")
  have i: "fed_inv cr st1" using countMessage_inv [OF assms, of now "id_peerId p"] c by simp
  obtain seen r where v: "validateMessage cr now m (id_publicKeyPem p) (fd_seenIds st1) = (seen, r)"
    by (cases "validateMessage cr now m (id_publicKeyPem p) (fd_seenIds st1)")
  have s: "fed_inv cr (st1\<lparr> fd_seenIds := seen \<rparr>)" using i validate_distinct [OF _ v] by (simp add: fed_inv_def)
  show ?thesis using i s c v by (cases ok; cases r) (simp_all add: admit_def penalize_inv)
qed

lemma ingestBlacklist_inv:
  assumes "fed_inv cr st"
  shows "fed_inv cr (fst (ingestBlacklist cr now pl p st))"
proof (cases "readBlacklistPayload pl")
  case (Some r)
  obtain bl cur where a: "activeBlacklistRecord now (be_agentId (fr_content r)) (fd_blacklist st) = (bl, cur)"
    by (cases "activeBlacklistRecord now (be_agentId (fr_content r)) (fd_blacklist st)")
  have bl: "blacklist_ok cr bl"
    using active_blacklist_ok [of cr "fd_blacklist st" now "be_agentId (fr_content r)"] assms a by (simp add: fed_inv_def)
  show ?thesis
  proof (cases "validateIncomingBlacklistRecord cr (fr_record r) (id_publicKeyPem p)")
    case None
    have "fed_inv cr (st\<lparr> fd_blacklist := bl \<rparr>)" "fed_inv cr (st\<lparr> fd_blacklist := appendBlacklistRecord r bl \<rparr>)"
      using blacklist_inv [OF assms] bl append_blacklist_ok [OF bl valid_incoming_hash [OF None]] by simp_all
    with Some None a show ?thesis by (simp add: ingestBlacklist_def)
  qed (use Some assms in \<open>simp add: ingestBlacklist_def penalize_inv\<close>)
qed (use assms in \<open>simp add: ingestBlacklist_def penalize_inv\<close>)

lemma exchangeEntry_inv: "fed_inv cr (fst acc) \<Longrightarrow> fed_inv cr (fst (ingestExchangeEntry self p acc))"
  by (cases acc) (simp add: ingestExchangeEntry_def Let_def fed_inv_def gossip_inv_add scores_set)

lemma fold_exchange_inv: "fed_inv cr st \<Longrightarrow> fed_inv cr (fst (fold (ingestExchangeEntry self) ps (st, n)))"
  by (rule fold_inv [where P = "\<lambda>a. fed_inv cr (fst a)"]) (simp_all add: exchangeEntry_inv)

lemma ingestAnnounce_inv: "fed_inv cr st \<Longrightarrow> fed_inv cr (ingestAnnounce now a st)"
  by (simp add: ingestAnnounce_def Let_def fed_inv_def)

lemma origin_inv: "fed_inv cr st \<Longrightarrow> fed_inv cr (st\<lparr> fd_taskOriginMap := m \<rparr>)"
  by (simp add: fed_inv_def)

lemma acceptOffer_inv: "fed_inv cr st \<Longrightarrow> fed_inv cr (fst (acceptOffer cr self u now d p st))"
  using origin_inv [OF queue_op_inv [of cr st "EnqueueSubtask (Some (st_id (to_subtask d))) (to_subtask d) None u now"]]
  by (cases p) (auto simp: acceptOffer_def Let_def intro!: reward_inv)

lemma ingestOffer_inv: "fed_inv cr st \<Longrightarrow> fed_inv cr (fst (ingestOffer cr self u now pl p st))"
  using acceptOffer_inv by (auto simp: ingestOffer_def split: option.splits prod.splits) (metis fst_conv)

lemma remoteClaimed_inv: "fed_inv cr st \<Longrightarrow> fed_inv cr (st\<lparr> fd_queue := fst (markRemoteClaimed i (fd_queue st)) \<rparr>)"
  using queue_op_inv [of cr st "MarkRemoteClaimed i"] by simp

lemma ingestClaim_inv: "fed_inv cr st \<Longrightarrow> fed_inv cr (ingestClaim self now pl st)"
  by (auto simp: ingestClaim_def remoteClaimed_inv split: option.splits)

lemma ingestResult_inv: "fed_inv cr st \<Longrightarrow> fed_inv cr (ingestResult pl st)"
  by (auto simp: ingestResult_def remoteClaimed_inv split: option.splits)

lemma ingestSummary_inv: "fed_inv cr st \<Longrightarrow> fed_inv cr (ingestSummary pl st)"
  by (auto simp: ingestSummary_def fed_inv_def split: option.splits)

lemma ingestAdmitted_inv:
  assumes "fed_inv cr st"
  shows "fed_inv cr (fst (ingestAdmitted cr self u now m p st))"
proof (cases "mm_type (mm_unsigned m)")
  case Msg_blacklist_update
  then show ?thesis
  proof (cases p)
    case (Some q)
    obtain st1 r where b: "ingestBlacklist cr now (mm_payload (mm_unsigned m)) q st = (st1, r)"
      by (cases "ingestBlacklist cr now (mm_payload (mm_unsigned m)) q st")
    with ingestBlacklist_inv [OF assms, of now "mm_payload (mm_unsigned m)" q] Msg_blacklist_update Some
    show ?thesis by (cases r) (simp_all add: ingestAdmitted_def reward_inv)
  qed (use assms in \<open>simp add: ingestAdmitted_def\<close>)
next
  case Msg_peer_exchange
  with fold_exchange_inv [OF assms] show ?thesis
    by (auto simp: ingestAdmitted_def assms split: option.splits prod.splits) (metis fst_conv)
next
  case Msg_capability_announce
  then show ?thesis by (auto simp: ingestAdmitted_def assms ingestAnnounce_inv split: option.splits)
qed (cases p; simp add: ingestAdmitted_def assms reward_inv ingestSummary_inv ingestOffer_inv ingestClaim_inv ingestResult_inv)+

lemma handleMeshIngest_inv:
  assumes "fed_inv cr st"
  shows "fed_inv cr (fst (handleMeshIngest cr self u now m st))"
proof (cases "findPeer (mm_fromPeerId (mm_unsigned m)) st")
  case (Some p)
  obtain st1 r where a: "admit cr now m p st = (st1, r)" by (cases "admit cr now m p st")
  with admit_inv [OF assms, of now m p] Some ingestAdmitted_inv [of cr st1 self u now m "Some p"]
  show ?thesis by (cases r) (simp_all add: handleMeshIngest_def)
qed (use assms in \<open>simp add: handleMeshIngest_def ingestAdmitted_inv\<close>)

lemma publishRecord_inv:
  "fed_inv cr st \<Longrightarrow> br_eventHash (fr_record r) = buildBlacklistEventHash cr (fr_content r) \<Longrightarrow>
   fed_inv cr (fst (publishRecord cr self u now r st))"
  by (simp add: publishRecord_def fed_inv_def append_blacklist_ok)

lemma reportAgent_inv: "fed_inv cr st \<Longrightarrow> fed_inv cr (fst (reportAgent cr self ok e u now body st))"
  using publishRecord_inv [OF _ ownRecord_hash]
  by (auto simp: reportAgent_def Let_def split: prod.splits option.splits) (metis fst_conv)+

lemma registerPeer_inv: "fed_inv cr st \<Longrightarrow> fed_inv cr (fst (registerPeer cr self ok tok portal act u now ip body st))"
  by (simp add: registerPeer_def Let_def fed_inv_def gossip_inv_add scores_set)

lemma ingestHttp_inv: "fed_inv cr st \<Longrightarrow> fed_inv cr (fst (ingestHttp cr self ok u now m st))"
  using handleMeshIngest_inv [of cr st self u now m] by (cases "handleMeshIngest cr self u now m st") (simp add: ingestHttp_def)

lemma relayGossip_inv: "fed_inv cr st \<Longrightarrow> fed_inv cr (fst (relayGossip cr self ok u now t m s st))"
  using handleMeshIngest_inv [of cr st self u now "the m"] by (cases m; cases "handleMeshIngest cr self u now (the m) st") (simp_all add: relayGossip_def)

lemma mesh_op_inv: "fed_inv cr st \<Longrightarrow> fed_inv cr (st\<lparr> fd_mesh := gossip_exec opn (fd_mesh st) \<rparr>)"
  by (simp add: fed_inv_def gossip_exec_inv)

lemma fed_exec_inv:
  assumes "fed_inv cr st"
  shows "fed_inv cr (fed_exec cr self opn st)"
proof (cases opn)
  case (FSocket k ws)
  then show ?thesis
    using mesh_op_inv [OF assms, of "GRemoveWebSocket k"] mesh_op_inv [OF assms, of "GSetWebSocket k (the ws)"] by (cases ws) simp_all
next
  case (FBroadcast net)
  then show ?thesis using mesh_op_inv [OF assms, of "GBroadcast net None"] by simp
next
  case (FActive now a)
  then show ?thesis using assms active_blacklist_ok by (simp add: fed_inv_def)
next
  case (FAuto e u now action)
  then show ?thesis using assms ownRecord_hash by (simp add: autoBlacklist_def publishRecord_inv)
qed (simp_all add: assms ingestHttp_inv relayGossip_inv registerPeer_inv reportAgent_inv queue_op_inv)

lemma newFederation_inv: "fed_inv cr (newFederation self store)"
  using swarm.init_inv gossip.init_inv
  by (simp add: fed_inv_def newFederation_def scores_ok_def blacklist_ok_def newBlacklist_def)

interpretation federation: op_machine_init "fed_exec cr self" "fed_inv cr" "newFederation self store" for cr self store
  by unfold_locales (simp_all add: fed_exec_inv newFederation_inv)

section \<open>Only authentic messages reach the core state\<close>

text \<open>The state that work and trust depend on.\<close>

definition core :: "Federation \<Rightarrow> SwarmQueue \<times> (string, string \<times> string) jsmap \<times> (json, payload) jsmap \<times> Blacklist" where
  "core st = (fd_queue st, fd_taskOriginMap st, fd_federatedCapabilities st, fd_blacklist st)"

lemma core_simps [simp]:
  "core (penalize k n st) = core st" "core (reward k n st) = core st" "core (fst (countMessage now k st)) = core st"
  "core (st\<lparr> fd_seenIds := s \<rparr>) = core st" "core (ingestAnnounce now a st) = core st"
  by (simp_all add: core_def penalize_def reward_def countMessage_def Let_def ingestAnnounce_def split: option.splits)

lemma seen_simps [simp]:
  "fd_seenIds (penalize k n st) = fd_seenIds st" "fd_seenIds (reward k n st) = fd_seenIds st"
  "fd_seenIds (fst (countMessage now k st)) = fd_seenIds st" "fd_seenIds (ingestAnnounce now a st) = fd_seenIds st"
  by (simp_all add: penalize_def reward_def countMessage_def Let_def ingestAnnounce_def split: option.splits)

lemma fold_exchange_core:
  "core (fst (fold (ingestExchangeEntry self) ps a)) = core (fst a) \<and> fd_seenIds (fst (fold (ingestExchangeEntry self) ps a)) = fd_seenIds (fst a)"
  by (rule fold_inv [where P = "\<lambda>b. core (fst b) = core (fst a) \<and> fd_seenIds (fst b) = fd_seenIds (fst a)"])
    (auto simp: ingestExchangeEntry_def Let_def core_def split: prod.splits)

lemma findPeer_id: "findPeer k st = Some p \<Longrightarrow> id_peerId p = k"
  by (auto simp: findPeer_def find_Some_iff)

text \<open>What an admission says, and what a refusal leaves alone.\<close>

lemma admit_cases:
  assumes "admit cr now m p st = (st1, r)"
  shows "core st1 = core st \<and>
    (case r of
       Some res \<Rightarrow> fd_seenIds st1 = fd_seenIds st \<and> \<not> fed_accepted res
     | None \<Rightarrow> snd (countMessage now (id_peerId p) st) \<and> mm_id (mm_unsigned m) \<notin> set (fd_seenIds st) \<and>
         now \<le> mm_issuedAtMs (mm_unsigned m) + mm_ttlMs (mm_unsigned m) \<and>
         verifyPayload cr (canonicalizeMessage (mm_unsigned m)) (mm_signature m) (id_publicKeyPem p) \<and>
         fd_seenIds st1 = rememberId (mm_id (mm_unsigned m)) (fd_seenIds st))"
proof -
  obtain st0 ok where c: "countMessage now (id_peerId p) st = (st0, ok)" by (cases "countMessage now (id_peerId p) st")
  have s: "core st0 = core st" "fd_seenIds st0 = fd_seenIds st"
    using core_simps(3) [of now "id_peerId p" st] seen_simps(3) [of now "id_peerId p" st] c by simp_all
  obtain seen f where v: "validateMessage cr now m (id_publicKeyPem p) (fd_seenIds st0) = (seen, f)"
    by (cases "validateMessage cr now m (id_publicKeyPem p) (fd_seenIds st0)")
  show ?thesis using assms c v s validate_cases [OF v] by (cases ok; cases f) (auto simp: admit_def)
qed

lemma seen_ingestBlacklist [simp]: "fd_seenIds (fst (ingestBlacklist cr now pl p st)) = fd_seenIds st"
  by (auto simp: ingestBlacklist_def Let_def split: option.splits prod.splits)

lemma seen_ingestOffer [simp]: "fd_seenIds (fst (ingestOffer cr self u now pl p st)) = fd_seenIds st"
  by (auto simp: ingestOffer_def acceptOffer_def Let_def split: option.splits prod.splits)

lemma seen_ingest_simps [simp]:
  "fd_seenIds (ingestSummary pl st) = fd_seenIds st" "fd_seenIds (ingestClaim self now pl st) = fd_seenIds st"
  "fd_seenIds (ingestResult pl st) = fd_seenIds st"
  by (auto simp: ingestSummary_def ingestClaim_def ingestResult_def split: option.splits)

lemma seen_ingestAdmitted [simp]: "fd_seenIds (fst (ingestAdmitted cr self u now m p st)) = fd_seenIds st"
proof (cases "mm_type (mm_unsigned m)")
  case Msg_blacklist_update
  have "fd_seenIds (fst (ingestBlacklist cr now (mm_payload (mm_unsigned m)) q st)) = fd_seenIds st" for q by simp
  then show ?thesis using Msg_blacklist_update
    by (auto simp: ingestAdmitted_def simp del: seen_ingestBlacklist split: option.splits prod.splits) (metis fst_conv)+
next
  case Msg_peer_exchange
  then show ?thesis using fold_exchange_core [of self _ "(st, 0)"]
    by (auto simp: ingestAdmitted_def split: option.splits prod.splits) (metis fst_conv)
next
  case Msg_capability_announce
  then show ?thesis by (auto simp: ingestAdmitted_def split: option.splits)
qed (cases p; simp add: ingestAdmitted_def)+

lemma unknown_core:
  assumes "mm_type (mm_unsigned m) = Msg_peer_exchange \<or> mm_type (mm_unsigned m) = Msg_capability_announce"
  shows "core (fst (ingestAdmitted cr self u now m p st)) = core st \<and> snd (snd (ingestAdmitted cr self u now m p st)) = []"
proof (cases "readExchange (mm_payload (mm_unsigned m))")
  case (Some ps)
  obtain st1 n where f: "fold (ingestExchangeEntry self) ps (st, 0) = (st1, n)" by (cases "fold (ingestExchangeEntry self) ps (st, 0)")
  with Some assms fold_exchange_core [of self ps "(st, 0)"] show ?thesis by (auto simp: ingestAdmitted_def split: option.splits)
qed (use assms in \<open>auto simp: ingestAdmitted_def split: option.splits\<close>)

text \<open>An ingest that changes the core state, or sends anything, was admitted.\<close>

lemma ingest_effect_admitted:
  assumes "handleMeshIngest cr self u now m st = (st1, r, out)" "core st1 \<noteq> core st \<or> out \<noteq> []"
  obtains p where "findPeer (mm_fromPeerId (mm_unsigned m)) st = Some p" "id_peerId p = mm_fromPeerId (mm_unsigned m)"
    "snd (countMessage now (id_peerId p) st)" "mm_id (mm_unsigned m) \<notin> set (fd_seenIds st)"
    "now \<le> mm_issuedAtMs (mm_unsigned m) + mm_ttlMs (mm_unsigned m)"
    "verifyPayload cr (canonicalizeMessage (mm_unsigned m)) (mm_signature m) (id_publicKeyPem p)"
    "fd_seenIds st1 = rememberId (mm_id (mm_unsigned m)) (fd_seenIds st)"
proof (cases "findPeer (mm_fromPeerId (mm_unsigned m)) st")
  case None
  with assms unknown_core [of m cr self u now None st] show ?thesis by (auto simp: handleMeshIngest_def split: if_splits)
next
  case (Some p)
  obtain s0 f where a: "admit cr now m p st = (s0, f)" by (cases "admit cr now m p st")
  note ac = admit_cases [OF a]
  show ?thesis
  proof (cases f)
    case None
    with assms(1) Some a have "st1 = fst (ingestAdmitted cr self u now m (Some p) s0)" by (simp add: handleMeshIngest_def)
    then have "fd_seenIds st1 = fd_seenIds s0" by simp
    with that ac None Some findPeer_id [OF Some] show ?thesis by simp
  qed (use assms Some a ac in \<open>auto simp: handleMeshIngest_def\<close>)
qed

lemma handleMeshIngest_seen:
  "fd_seenIds (fst (handleMeshIngest cr self u now m st)) = fd_seenIds st \<or>
   (\<exists>y. fd_seenIds (fst (handleMeshIngest cr self u now m st)) = rememberId y (fd_seenIds st))"
proof (cases "findPeer (mm_fromPeerId (mm_unsigned m)) st")
  case (Some p)
  obtain s0 f where a: "admit cr now m p st = (s0, f)" by (cases "admit cr now m p st")
  with admit_cases [OF a] Some show ?thesis by (cases f) (auto simp: handleMeshIngest_def)
qed (simp add: handleMeshIngest_def)

lemma fed_exec_seen:
  "fd_seenIds (fed_exec cr self opn st) = fd_seenIds st \<or> (\<exists>y. fd_seenIds (fed_exec cr self opn st) = rememberId y (fd_seenIds st))"
proof (cases opn)
  case (FIngest ok u now m)
  then show ?thesis using handleMeshIngest_seen [of cr self u now m st]
    by (cases "handleMeshIngest cr self u now m st") (simp add: ingestHttp_def)
next
  case (FRelay ok u now t m s)
  then show ?thesis using handleMeshIngest_seen [of cr self u now "the m" st]
    by (cases m; cases "handleMeshIngest cr self u now (the m) st") (simp_all add: relayGossip_def)
next
  case (FReport ok e u now body)
  then show ?thesis by (simp add: reportAgent_def publishRecord_def Let_def)
qed (simp_all add: registerPeer_def Let_def autoBlacklist_def publishRecord_def)

text \<open>
  C23: the invariant of a coordinator's mesh state over any history of gossip, registrations, reports, automatic
  blacklisting, socket changes, broadcasts and queue operations: the queue is well formed, every peer is
  filed under its id, peer scores stay between 0 and 200, an agent that is blacklisted has a record in the audit log that
  carries the hash of its content, and the published chain head is the hash of the last logged record.
\<close>

theorem federation_reach_inv: "fed_inv cr (fold (fed_exec cr self) ops (newFederation self store))"
  by (rule federation.reach_inv)

text \<open>
  C4: gossip changes the queue, the origins of its tasks, the federated capabilities or the blacklist, or makes the
  coordinator send a message, only if it comes from a registered peer within its rate limit, has not expired, and
  carries a valid signature under that peer's key; and a message is applied at most once: after any history of fewer
  than 5000 further operations a message with the same id, from anyone, changes none of these and sends nothing.
\<close>

theorem mesh_ingest_authentic_once:
  assumes "fed_inv cr st" "handleMeshIngest cr self u now m st = (st1, r, out)" "core st1 \<noteq> core st \<or> out \<noteq> []"
    and "length later < SEEN_CACHE_LIMIT" "mm_id (mm_unsigned m') = mm_id (mm_unsigned m)"
  shows "(case findPeer (mm_fromPeerId (mm_unsigned m)) st of
      None \<Rightarrow> False
    | Some p \<Rightarrow> id_peerId p = mm_fromPeerId (mm_unsigned m) \<and> snd (countMessage now (id_peerId p) st) \<and>
        now \<le> mm_issuedAtMs (mm_unsigned m) + mm_ttlMs (mm_unsigned m) \<and>
        verifyPayload cr (canonicalizeMessage (mm_unsigned m)) (mm_signature m) (id_publicKeyPem p)) \<and>
    (let st2 = fold (fed_exec cr self) later st1 in
     case handleMeshIngest cr self u' now' m' st2 of (st3, r3, out3) \<Rightarrow> core st3 = core st2 \<and> out3 = [])"
proof -
  obtain p where p: "findPeer (mm_fromPeerId (mm_unsigned m)) st = Some p" "id_peerId p = mm_fromPeerId (mm_unsigned m)"
    "snd (countMessage now (id_peerId p) st)" "mm_id (mm_unsigned m) \<notin> set (fd_seenIds st)"
    "now \<le> mm_issuedAtMs (mm_unsigned m) + mm_ttlMs (mm_unsigned m)"
    "verifyPayload cr (canonicalizeMessage (mm_unsigned m)) (mm_signature m) (id_publicKeyPem p)"
    "fd_seenIds st1 = rememberId (mm_id (mm_unsigned m)) (fd_seenIds st)"
    by (rule ingest_effect_admitted [OF assms(2,3)])
  let ?st2 = "fold (fed_exec cr self) later st1"
  have d: "distinct (fd_seenIds st)" "distinct (fd_seenIds st1)"
    using assms(1,2) handleMeshIngest_inv [OF assms(1), of self u now m] by (simp_all add: fed_inv_def)
  obtain pre where pre: "fd_seenIds st1 = pre @ [mm_id (mm_unsigned m)]" using remember_last [OF p(4) d(1)] p(7) by auto
  have seen: "mm_id (mm_unsigned m') \<in> set (fd_seenIds ?st2)"
    using seen_survives [where seen_of = fd_seenIds and f = "fed_exec cr self", OF fed_exec_seen d(2) pre] assms(4,5) by simp
  obtain st3 r3 out3 where h: "handleMeshIngest cr self u' now' m' ?st2 = (st3, r3, out3)"
    by (cases "handleMeshIngest cr self u' now' m' ?st2")
  have "core st3 = core ?st2 \<and> out3 = []"
    using ingest_effect_admitted [OF h] seen by blast
  with p h show ?thesis by (simp add: Let_def)
qed

section \<open>Blacklisting across coordinators\<close>

lemma map_of_rev_distinct: "distinct (map fst xs) \<Longrightarrow> map_of (rev xs) = map_of xs"
  by (rule map_of_inject_set [THEN iffD2]) (simp_all add: rev_map [symmetric])

lemma recordPayload_distinct: "distinct (map fst (recordPayload r))"
  by (cases "fr_reporterPublicKeyPem r"; cases "fr_reporterSignature r"; cases "fr_evidenceRef r"; cases "bc_expiresAtMs (fr_content r)")
    (simp_all add: recordPayload_def Let_def jfield_def)

lemma recordPayload_members:
  "json_member (JObj (recordPayload r)) ''eventId'' = Some (JStr (bc_eventId (fr_content r)))"
  "json_member (JObj (recordPayload r)) ''agentId'' = Some (JStr (be_agentId (fr_content r)))"
  "json_member (JObj (recordPayload r)) ''reasonCode'' = Some (JStr (reason_name (be_reasonCode (fr_content r))))"
  "json_member (JObj (recordPayload r)) ''reason'' = Some (JStr (be_reason (fr_content r)))"
  "json_member (JObj (recordPayload r)) ''evidenceHashSha256'' = Some (JStr (be_evidenceHashSha256 (fr_content r)))"
  "json_member (JObj (recordPayload r)) ''reporterId'' = Some (JStr (be_reporterId (fr_content r)))"
  "json_member (JObj (recordPayload r)) ''reporterPublicKeyPem'' = map_option JStr (fr_reporterPublicKeyPem r)"
  "json_member (JObj (recordPayload r)) ''reporterSignature'' = map_option JStr (fr_reporterSignature r)"
  "json_member (JObj (recordPayload r)) ''evidenceSignatureVerified'' = Some (JBool (bc_evidenceSignatureVerified (fr_content r)))"
  "json_member (JObj (recordPayload r)) ''evidenceRef'' = map_option JStr (fr_evidenceRef r)"
  "json_member (JObj (recordPayload r)) ''sourceCoordinatorId'' = Some (JStr (bc_sourceCoordinatorId (fr_content r)))"
  "json_member (JObj (recordPayload r)) ''reportedBy'' = Some (JStr (fr_reportedBy r))"
  "json_member (JObj (recordPayload r)) ''timestampMs'' = Some (JNum (be_timestampMs (fr_content r)))"
  "json_member (JObj (recordPayload r)) ''expiresAtMs'' = map_option JNum (bc_expiresAtMs (fr_content r))"
  "json_member (JObj (recordPayload r)) ''prevEventHash'' = Some (JStr (bc_prevEventHash (fr_content r)))"
  "json_member (JObj (recordPayload r)) ''eventHash'' = Some (JStr (br_eventHash (fr_record r)))"
  "json_member (JObj (recordPayload r)) ''coordinatorSignature'' = Some (JStr (br_coordinatorSignature (fr_record r)))"
  unfolding json_member.simps map_of_rev_distinct [OF recordPayload_distinct]
  by (cases "fr_reporterPublicKeyPem r"; cases "fr_reporterSignature r"; cases "fr_evidenceRef r"; cases "bc_expiresAtMs (fr_content r)";
      simp add: recordPayload_def Let_def jfield_def)+

lemma read_opt [simp]:
  "opt_member as_str (map_option JStr v) = Some v" "opt_member as_int (map_option JNum n) = Some n"
  by (cases v; simp add: opt_member_def) (cases n; simp add: opt_member_def)

lemma readEvidence_payload:
  "be_reasonCode (fr_content r) \<in> set gossipReasons \<Longrightarrow>
   readEvidence (recordPayload r) = Some (BlacklistEvidenceInput.truncate (fr_content r))"
  unfolding readEvidence_def Let_def recordPayload_members
  by (auto simp: as_enum_def gossipReasons_def BlacklistEvidenceInput.defs)

lemma readContent_payload:
  "be_reasonCode (fr_content r) \<in> set gossipReasons \<Longrightarrow> readContent (recordPayload r) = Some (fr_content r)"
  unfolding readContent_def Let_def recordPayload_members
  by (simp add: readEvidence_payload BlacklistEvidenceInput.defs BlacklistContent.defs)

lemma readBlacklistPayload_payload:
  "be_reasonCode (fr_content r) \<in> set gossipReasons \<Longrightarrow> readBlacklistPayload (recordPayload r) = Some r"
  unfolding readBlacklistPayload_def Let_def recordPayload_members
  by (simp add: readContent_payload)

lemma ownRecord_simps [simp]:
  "be_reasonCode (fr_content (ownRecord cr self e ev x v pem sig er by bl)) = be_reasonCode ev"
  "be_agentId (fr_content (ownRecord cr self e ev x v pem sig er by bl)) = be_agentId ev"
  "be_timestampMs (fr_content (ownRecord cr self e ev x v pem sig er by bl)) = be_timestampMs ev"
  "bc_expiresAtMs (fr_content (ownRecord cr self e ev x v pem sig er by bl)) = x"
  "bc_prevEventHash (fr_content (ownRecord cr self e ev x v pem sig er by bl)) = bl_lastHash bl"
  "bc_eventId (fr_content (ownRecord cr self e ev x v pem sig er by bl)) = e"
  "bc_sourceCoordinatorId (fr_content (ownRecord cr self e ev x v pem sig er by bl)) = co_peerId self"
  by (simp_all add: ownRecord_def Let_def BlacklistEvidenceInput.defs BlacklistContent.defs)

lemma ownRecord_valid:
  "key_pair cr (co_privateKeyPem self) pub \<Longrightarrow>
   validateIncomingBlacklistRecord cr (fr_record (ownRecord cr self e ev x v pem sig er by bl)) pub = None"
  by (simp add: validateIncomingBlacklistRecord_def ownRecord_def Let_def key_pair_def)

text \<open>A record made by coordinator \<open>a\<close> and gossiped to one that knows \<open>a\<close>'s key.\<close>

lemma published_record_applies:
  assumes key: "key_pair cr (co_privateKeyPem a) (id_publicKeyPem peer)"
    and known: "findPeer (co_peerId a) stB = Some peer"
    and fresh: "msgId \<notin> set (fd_seenIds stB)" and time: "now \<le> t + 30000" and rate: "snd (countMessage now (co_peerId a) stB)"
    and r: "r = ownRecord cr a e ev x v pem sig er by bl" and reason: "be_reasonCode ev \<in> set gossipReasons"
    and live: "case x of None \<Rightarrow> True | Some d \<Rightarrow> now \<le> d"
    and newer: "case jsm_get (bl_byAgent (fd_blacklist stB)) (be_agentId ev) of None \<Rightarrow> True | Some c \<Rightarrow> be_timestampMs (fr_content c) \<le> be_timestampMs ev"
  shows "case handleMeshIngest cr b u now (snd (publishRecord cr a msgId t r stA)) stB of (stB', res, out) \<Rightarrow>
    res = Fed_ok \<and> out = [] \<and> snd (activeBlacklistRecord now (be_agentId ev) (fd_blacklist stB')) = Some r \<and>
    bl_auditLog (fd_blacklist stB') = bl_auditLog (fd_blacklist stB) @ [r]"
proof -
  let ?m = "snd (publishRecord cr a msgId t r stA)"
  have m: "?m = createMessage cr msgId t Msg_blacklist_update (co_peerId a) (recordPayload r) (co_privateKeyPem a) 30000"
    by (simp add: publishRecord_def)
  have u: "mm_fromPeerId (mm_unsigned ?m) = co_peerId a" "mm_type (mm_unsigned ?m) = Msg_blacklist_update"
    "mm_payload (mm_unsigned ?m) = recordPayload r" by (simp_all add: m createMessage_def Let_def)
  have pid: "id_peerId peer = co_peerId a" by (rule findPeer_id [OF known])
  obtain s0 where c: "countMessage now (co_peerId a) stB = (s0, True)" using rate by (cases "countMessage now (co_peerId a) stB") simp
  have s0: "fd_seenIds s0 = fd_seenIds stB" "fd_blacklist s0 = fd_blacklist stB"
    using seen_simps(3) [of now "co_peerId a" stB] core_simps(3) [of now "co_peerId a" stB] c by (simp_all add: core_def)
  let ?s1 = "s0\<lparr> fd_seenIds := rememberId msgId (fd_seenIds stB) \<rparr>"
  have ad: "admit cr now ?m peer stB = (?s1, None)"
    using created_message_valid [OF key fresh time] c s0 by (simp add: admit_def pid m)
  obtain bl1 cur where act: "activeBlacklistRecord now (be_agentId ev) (fd_blacklist stB) = (bl1, cur)"
    by (cases "activeBlacklistRecord now (be_agentId ev) (fd_blacklist stB)")
  have cur: "case cur of None \<Rightarrow> True | Some c \<Rightarrow> be_timestampMs (fr_content c) \<le> be_timestampMs ev" "bl_auditLog bl1 = bl_auditLog (fd_blacklist stB)"
    using act newer by (auto simp: activeBlacklistRecord_def split: option.splits if_splits)
  have ib: "ingestBlacklist cr now (recordPayload r) peer ?s1 = (?s1\<lparr> fd_blacklist := appendBlacklistRecord r bl1 \<rparr>, None)"
    using act cur(1) s0 readBlacklistPayload_payload [of r] ownRecord_valid [OF key] reason
    by (auto simp: ingestBlacklist_def r split: option.splits)
  have res: "handleMeshIngest cr b u now ?m stB = (reward (co_peerId a) 1 (?s1\<lparr> fd_blacklist := appendBlacklistRecord r bl1 \<rparr>), Fed_ok, [])"
    using known ad ib by (simp add: handleMeshIngest_def u ingestAdmitted_def pid)
  have "snd (activeBlacklistRecord now (be_agentId ev) (appendBlacklistRecord r bl1)) = Some r"
    using live by (auto simp: activeBlacklistRecord_def appendBlacklistRecord_def jsm_get_set r split: option.splits)
  then show ?thesis by (simp add: res reward_def appendBlacklistRecord_def cur(2))
qed

text \<open>
  Blacklisting spreads. A report accepted by coordinator \<open>a\<close>'s \<open>POST /security/blacklist\<close> produces a gossip
  message that any coordinator which knows \<open>a\<close>'s key accepts, if it arrives in time, within the rate limit and for
  the first time; the agent is then blacklisted there by the very same record, unless the record has expired or a
  newer one is in force; and the record is appended to the audit log of the receiver.
\<close>

theorem blacklist_report_propagates:
  assumes "reportAgent cr a True e msgId t body stA = (stA', Reported r v h, Some msg)"
    and "key_pair cr (co_privateKeyPem a) (id_publicKeyPem peer)" "findPeer (co_peerId a) stB = Some peer"
    and "msgId \<notin> set (fd_seenIds stB)" "now \<le> t + 30000" "snd (countMessage now (co_peerId a) stB)"
    and live: "case rp_expiresInMs body of None \<Rightarrow> True | Some d \<Rightarrow> now \<le> t + d"
    and newer: "case jsm_get (bl_byAgent (fd_blacklist stB)) (rp_agentId body) of None \<Rightarrow> True | Some c \<Rightarrow> be_timestampMs (fr_content c) \<le> t"
  shows "case handleMeshIngest cr b u now msg stB of (stB', res, out) \<Rightarrow>
    res = Fed_ok \<and> out = [] \<and> snd (activeBlacklistRecord now (rp_agentId body) (fd_blacklist stB')) = Some r \<and>
    bl_auditLog (fd_blacklist stB') = bl_auditLog (fd_blacklist stB) @ [r]"
proof -
  define ev where "ev = \<lparr> be_agentId = rp_agentId body, be_reasonCode = rp_reasonCode body, be_reason = rp_reason body,
    be_evidenceHashSha256 = rp_evidenceHashSha256 body, be_reporterId = nullish (rp_reporterId body) ''policy-engine'', be_timestampMs = t \<rparr>"
  define x where "x = (if truthy_int (rp_expiresInMs body) then Some (t + the (rp_expiresInMs body)) else None)"
  obtain w where r: "r = ownRecord cr a e ev x w (rp_reporterPublicKeyPem body) (rp_reporterSignature body) (rp_evidenceRef body)
      (nullish (rp_reportedBy body) ''policy-engine'') (fd_blacklist stA)"
    and msg: "msg = snd (publishRecord cr a msgId t r stA)" and reason: "rp_reasonCode body \<in> set gossipReasons"
    using assms(1) unfolding ev_def x_def by (auto simp: reportAgent_def Let_def split: if_splits prod.splits)
  have ev: "be_agentId ev = rp_agentId body" "be_reasonCode ev = rp_reasonCode body" "be_timestampMs ev = t" by (simp_all add: ev_def)
  have "case x of None \<Rightarrow> True | Some d \<Rightarrow> now \<le> d" using live by (auto simp: x_def split: option.splits)
  from published_record_applies [OF assms(2-6) r _ this, where b = b and u = u and stA = stA] reason newer
  show ?thesis unfolding msg ev by simp
qed

text \<open>
  The local audit log after a record is appended: it still verifies if the record continues the local chain, as
  the coordinator's own records do, and is broken by any record chained to another coordinator's log.
\<close>

lemma audit_snoc:
  "auditEvents cr keys p (es @ [e]) = (case auditEvents cr keys p es of Inl f \<Rightarrow> Inl f | Inr h \<Rightarrow> auditEvents cr keys h [e])"
  by (induction es arbitrary: p) auto

lemma foreign_record_breaks_audit:
  assumes "verifyBlacklistAudit cr identity peers (bl_lastHash bl) (map fr_record (bl_auditLog bl)) = None"
    and "bc_prevEventHash (fr_content r) \<noteq> bl_lastHash bl"
  shows "verifyBlacklistAudit cr identity peers (bl_lastHash (appendBlacklistRecord r bl))
     (map fr_record (bl_auditLog (appendBlacklistRecord r bl))) = Some (Hash_chain_break (bc_eventId (fr_content r)))"
  using assms by (auto simp: verifyBlacklistAudit_def appendBlacklistRecord_def audit_snoc split: sum.splits if_splits)

lemma own_record_keeps_audit:
  assumes "verifyBlacklistAudit cr (co_peerId self, pub) peers (bl_lastHash bl) (map fr_record (bl_auditLog bl)) = None"
    and "key_pair cr (co_privateKeyPem self) pub" "pub \<noteq> []" "co_peerId self \<notin> fst ` set peers"
    and "r = ownRecord cr self e ev x v pem sig er by bl"
  shows "verifyBlacklistAudit cr (co_peerId self, pub) peers (bl_lastHash (appendBlacklistRecord r bl))
     (map fr_record (bl_auditLog (appendBlacklistRecord r bl))) = None"
proof -
  have "jsm_get (foldl (\<lambda>m (k, p). jsm_set k p m) ks ps) i = jsm_get ks i" if "i \<notin> fst ` set ps" for i ks and ps :: "(string \<times> string) list"
    using that by (induction ps arbitrary: ks) (auto simp: jsm_get_set)
  then have k: "jsm_get (coordinatorKeys (co_peerId self, pub) peers) (co_peerId self) = Some pub"
    using assms(4) by (simp add: coordinatorKeys_def jsm_get_def)
  have "validateIncomingBlacklistRecord cr (fr_record r) pub = None" using ownRecord_valid [OF assms(2)] assms(5) by simp
  with assms k show ?thesis
    by (auto simp: verifyBlacklistAudit_def appendBlacklistRecord_def audit_snoc validateIncomingBlacklistRecord_def
        split: sum.splits if_splits)
qed

section \<open>Concrete runs\<close>

definition ex_coordinator :: "string \<Rightarrow> CoordinatorIdentity" where
  "ex_coordinator i = \<lparr> co_peerId = i, co_publicKeyPem = ''key-'' @ i, co_privateKeyPem = ''key-'' @ i \<rparr>"

definition ex_activation :: Activation where
  "ex_activation = \<lparr> act_allowed = True, act_reason = None, act_ownerEmail = Some ''o@x'' \<rparr>"

text \<open>Coordinator \<open>b\<close> after coordinator \<open>a\<close> registered with it.\<close>

definition ex_fed :: Federation where
  "ex_fed = fed_exec ex_crypto (ex_coordinator ''b'') (FRegister True True True ex_activation ''u0'' 100 None (ex_member ''a''))
     (newFederation (ex_coordinator ''b'') False)"

definition ex_agent_report :: BlacklistReport where
  "ex_agent_report = \<lparr> rp_agentId = ''bad'', rp_reasonCode = Manual_review, rp_reason = ''spam'', rp_reportedBy = None, rp_reporterId = None,
     rp_reporterPublicKeyPem = None, rp_reporterSignature = None, rp_evidenceHashSha256 = replicate 64 (CHR ''0''),
     rp_evidenceRef = None, rp_expiresInMs = None \<rparr>"

lemma ex_fed_inv: "fed_inv ex_crypto ex_fed"
  unfolding ex_fed_def by (rule fed_exec_inv [OF newFederation_inv])

lemma ex_fed_facts:
  "findPeer ''a'' ex_fed = Some (ex_member ''a'')" "fd_seenIds ex_fed = []" "fd_blacklist ex_fed = newBlacklist"
  "snd (countMessage 600 ''a'' ex_fed)"
  by (simp_all add: ex_fed_def registerPeer_def newFederation_def newGossipMesh_def gossipAddPeer_def findPeer_def gossipPeers_def
      countMessage_def ex_member_def jsm_defs Let_def)

lemma ex_pair: "key_pair ex_crypto (co_privateKeyPem (ex_coordinator ''a'')) (id_publicKeyPem (ex_member ''a''))"
  using ex_key_pair [of "''key-a''"] by (simp add: ex_coordinator_def ex_member_def)

theorem blacklist_report_propagates_witness:
  "case reportAgent ex_crypto (ex_coordinator ''a'') True ''e1'' ''m1'' 500 ex_agent_report (newFederation (ex_coordinator ''a'') False) of
     (stA, Reported r v h, Some msg) \<Rightarrow>
       (case handleMeshIngest ex_crypto (ex_coordinator ''b'') ''u1'' 600 msg ex_fed of (stB, res, out) \<Rightarrow>
          res = Fed_ok \<and> snd (activeBlacklistRecord 600 ''bad'' (fd_blacklist stB)) = Some r)
   | _ \<Rightarrow> False"
proof -
  obtain stA r v h msg where rep: "reportAgent ex_crypto (ex_coordinator ''a'') True ''e1'' ''m1'' 500 ex_agent_report
      (newFederation (ex_coordinator ''a'') False) = (stA, Reported r v h, Some msg)"
    by (simp add: reportAgent_def ex_agent_report_def gossipReasons_def Let_def publishRecord_def)
  have k: "findPeer (co_peerId (ex_coordinator ''a'')) ex_fed = Some (ex_member ''a'')"
    "snd (countMessage 600 (co_peerId (ex_coordinator ''a'')) ex_fed)"
    using ex_fed_facts by (simp_all add: ex_coordinator_def)
  show ?thesis
    using blacklist_report_propagates [OF rep ex_pair k(1) _ _ k(2), where b = "ex_coordinator ''b''" and u = "''u1''"] rep
    by (auto simp: ex_fed_facts newBlacklist_def ex_agent_report_def split: prod.splits)
qed

definition ex_evidence :: BlacklistEvidenceInput where
  "ex_evidence = \<lparr> be_agentId = ''bad'', be_reasonCode = Manual_review, be_reason = ''spam'', be_evidenceHashSha256 = ''0'',
     be_reporterId = ''p'', be_timestampMs = 500 \<rparr>"

definition ex_own_record :: BlacklistEntry where
  "ex_own_record = ownRecord ex_crypto (ex_coordinator ''a'') ''e1'' ex_evidence None False None None None ''p'' newBlacklist"

definition ex_published :: MeshMessage where
  "ex_published = snd (publishRecord ex_crypto (ex_coordinator ''a'') ''m1'' 500 ex_own_record ex_fed)"

theorem mesh_ingest_authentic_once_witness:
  "let self = ex_coordinator ''b''; st1 = fst (handleMeshIngest ex_crypto self ''u1'' 600 ex_published ex_fed) in
   core st1 \<noteq> core ex_fed \<and>
   verifyPayload ex_crypto (canonicalizeMessage (mm_unsigned ex_published)) (mm_signature ex_published) ''key-a'' \<and>
   (case handleMeshIngest ex_crypto self ''u2'' 700 ex_published (fed_exec ex_crypto self (FActive 650 ''bad'') st1) of
      (st3, r3, out3) \<Rightarrow> core st3 = core (fed_exec ex_crypto self (FActive 650 ''bad'') st1))"
proof -
  let ?self = "ex_coordinator ''b''"
  obtain st1 r out where h: "handleMeshIngest ex_crypto ?self ''u1'' 600 ex_published ex_fed = (st1, r, out)"
    by (cases "handleMeshIngest ex_crypto ?self ''u1'' 600 ex_published ex_fed")
  have k: "findPeer (co_peerId (ex_coordinator ''a'')) ex_fed = Some (ex_member ''a'')"
    "snd (countMessage 600 (co_peerId (ex_coordinator ''a'')) ex_fed)"
    using ex_fed_facts by (simp_all add: ex_coordinator_def)
  have "bl_auditLog (fd_blacklist st1) \<noteq> bl_auditLog (fd_blacklist ex_fed)"
    using published_record_applies [OF ex_pair k(1) _ _ k(2) ex_own_record_def, where msgId = "''m1''" and t = 500 and b = ?self and u = "''u1''"
        and stA = ex_fed] h
    by (simp add: ex_published_def [symmetric] ex_fed_facts newBlacklist_def gossipReasons_def ex_evidence_def split: prod.splits)
  then have c: "core st1 \<noteq> core ex_fed" by (auto simp: core_def)
  have f: "mm_fromPeerId (mm_unsigned ex_published) = ''a''"
    by (simp add: ex_published_def publishRecord_def createMessage_def Let_def ex_coordinator_def)
  show ?thesis
    using mesh_ingest_authentic_once [OF ex_fed_inv h disjI1 [OF c], of "[FActive 650 ''bad'']" ex_published "''u2''" 700] c h
    by (simp add: f ex_fed_facts SEEN_CACHE_LIMIT_def Let_def ex_member_def split: prod.splits)
qed

end
