(* ===== verification/AgentMesh.thy ===== *)
theory AgentMesh
  imports Federation
begin

text \<open>
  Work between agents without the queue (the \<open>/agent-mesh\<close> routes of \<open>src/src/swarm/coordinator.ts\<close>): reverse tunnels,
  which one agent opens, the other accepts and both use within rate limits until one closes them or they go stale,
  and direct work, which is offered, accepted and answered. The state extends that of \<open>Federation\<close>, whose blacklist and
  capabilities the routes read; a handler without an await reads the clock once.
\<close>

section \<open>State\<close>

record Tunnel =
  tn_fromAgentId :: string
  tn_toAgentId :: string
  tn_createdAtMs :: ms
  tn_lastRelayMs :: ms
  tn_relayCount :: nat
  tn_relayWindowStartMs :: ms
  tn_relayWindowCount :: nat

datatype WorkType = Code_task | Model_inference
datatype OfferStatus = Offer_offered | Offer_accepted | Offer_completed | Offer_rejected

record DirectResult =
  dr_ok :: bool
  dr_output :: string
  dr_error :: "string option"
  dr_durationMs :: int
  dr_completedAtMs :: ms

record DirectWorkOffer =
  dw_offerId :: string
  dw_fromAgentId :: string
  dw_toAgentId :: string
  dw_workType :: WorkType
  dw_language :: "Language option"
  dw_input :: string
  dw_createdAtMs :: ms
  dw_status :: OfferStatus
  dw_acceptedBy :: "string option"
  dw_acceptedAtMs :: "ms option"
  dw_result :: "DirectResult option"

record CloseNotice =
  cn_peerAgentId :: string
  cn_token :: string
  cn_reason :: string

record AgentMesh =
  mx_fed :: Federation
  mx_activeTunnels :: "(string, Tunnel) jsmap"
  mx_tunnelByPairKey :: "(string, string) jsmap"
  mx_pendingTunnelInvites :: "(string, (string \<times> string) list) jsmap"
  mx_pendingTunnelCloseNotices :: "(string, CloseNotice list) jsmap"
  mx_relayWindowByAgent :: "(string, ms \<times> nat) jsmap"
  mx_offerWindowByAgent :: "(string, ms \<times> nat) jsmap"
  mx_directWorkById :: "(string, DirectWorkOffer) jsmap"
  mx_directWorkInbox :: "(string, string list) jsmap"

definition newAgentMesh :: "Federation \<Rightarrow> AgentMesh" where
  "newAgentMesh fed = \<lparr> mx_fed = fed, mx_activeTunnels = [], mx_tunnelByPairKey = [], mx_pendingTunnelInvites = [],
     mx_pendingTunnelCloseNotices = [], mx_relayWindowByAgent = [], mx_offerWindowByAgent = [], mx_directWorkById = [],
     mx_directWorkInbox = [] \<rparr>"

record MeshLimits =
  TUNNEL_IDLE_TTL_MS :: int
  TUNNEL_MAX_RELAYS_PER_MIN :: nat
  RELAY_RATE_LIMIT_PER_10S :: nat
  DIRECT_WORK_OFFERS_PER_10S :: nat

abbreviation mx_caps :: "AgentMesh \<Rightarrow> (string, AgentCapability) jsmap" where
  "mx_caps s \<equiv> fd_agentCapabilities (mx_fed s)"

definition setCaps :: "(string, AgentCapability) jsmap \<Rightarrow> AgentMesh \<Rightarrow> AgentMesh" where
  "setCaps c s = s\<lparr> mx_fed := (mx_fed s)\<lparr> fd_agentCapabilities := c \<rparr> \<rparr>"

definition setBlacklist :: "Blacklist \<Rightarrow> AgentMesh \<Rightarrow> AgentMesh" where
  "setBlacklist bl s = s\<lparr> mx_fed := (mx_fed s)\<lparr> fd_blacklist := bl \<rparr> \<rparr>"

text \<open>The answers of the routes: an error with its status, or the fields of the reply.\<close>

datatype MeshReply =
    Refused nat string
  | Tunnel_opened string bool
  | Tunnel_relayed nat
  | Mesh_ok
  | Work_offered string "string option"
  | Work_accepted DirectWorkOffer
  | Peers_listed "string list"
  | Models_listed "(string \<times> string \<times> string list \<times> int \<times> nat) list"
  | Model_request DirectWorkOffer

section \<open>Guards\<close>

definition hasMeshToken :: "string \<Rightarrow> (string, HeaderValue) jsmap \<Rightarrow> bool" where
  "hasMeshToken token headers =
     (token = [] \<or> (case jsm_get headers ''x-mesh-token'' of Some (HString t) \<Rightarrow> safeTokenEqual t token | _ \<Rightarrow> False))"

definition withMeshToken ::
  "string \<Rightarrow> (string, HeaderValue) jsmap \<Rightarrow> (AgentMesh \<Rightarrow> AgentMesh \<times> MeshReply) \<Rightarrow> AgentMesh \<Rightarrow> AgentMesh \<times> MeshReply" where
  "withMeshToken token headers handler s =
     (if hasMeshToken token headers then handler s else (s, Refused 401 ''mesh_unauthorized''))"

text \<open>\<open>activeBlacklistRecord\<close> deletes a record that has expired, so the check is a step of the state.\<close>

definition checkBlacklist :: "ms \<Rightarrow> string \<Rightarrow> AgentMesh \<Rightarrow> AgentMesh \<times> bool" where
  "checkBlacklist now agentId s =
     (let (bl, r) = activeBlacklistRecord now agentId (fd_blacklist (mx_fed s)) in (setBlacklist bl s, r \<noteq> None))"

definition checkEither :: "ms \<Rightarrow> string \<Rightarrow> string \<Rightarrow> AgentMesh \<Rightarrow> AgentMesh \<times> bool" where
  "checkEither now a b s =
     (let (s1, x) = checkBlacklist now a s in if x then (s1, True) else checkBlacklist now b s1)"

text \<open>A counter per fixed window: it counts refused requests too, and the first request of a window always passes.\<close>

definition windowCount :: "int \<Rightarrow> nat \<Rightarrow> string \<Rightarrow> ms \<Rightarrow> (string, ms \<times> nat) jsmap \<Rightarrow> (string, ms \<times> nat) jsmap \<times> bool" where
  "windowCount width limit agentId now m =
     (let start = now - now mod width in
      case jsm_get m agentId of
        None \<Rightarrow> (jsm_set agentId (start, 1) m, True)
      | Some (w, count) \<Rightarrow>
          if w \<noteq> start then (jsm_set agentId (start, 1) m, True)
          else (jsm_set agentId (w, count + 1) m, \<not> count + 1 > limit))"

section \<open>Tunnels\<close>

definition connectPeers :: "string \<Rightarrow> string \<Rightarrow> AgentMesh \<Rightarrow> AgentMesh" where
  "connectPeers a b s = setCaps (jsm_modify a (\<lambda>c. c\<lparr> ag_connectedPeers := jss_add b (ag_connectedPeers c) \<rparr>) (mx_caps s)) s"

definition disconnectPeers :: "string \<Rightarrow> string \<Rightarrow> AgentMesh \<Rightarrow> AgentMesh" where
  "disconnectPeers a b s = setCaps (jsm_modify a (\<lambda>c. c\<lparr> ag_connectedPeers := removeAll b (ag_connectedPeers c) \<rparr>) (mx_caps s)) s"

definition openTunnel :: "string \<Rightarrow> string \<Rightarrow> string \<Rightarrow> ms \<Rightarrow> AgentMesh \<Rightarrow> AgentMesh" where
  "openTunnel token from to now s =
     s\<lparr> mx_activeTunnels := jsm_set token \<lparr> tn_fromAgentId = from, tn_toAgentId = to, tn_createdAtMs = now, tn_lastRelayMs = now,
          tn_relayCount = 0, tn_relayWindowStartMs = now - now mod 60000, tn_relayWindowCount = 0 \<rparr> (mx_activeTunnels s),
        mx_tunnelByPairKey := jsm_set (pairKey from to) token (mx_tunnelByPairKey s),
        mx_pendingTunnelInvites := jsm_set to (nullish (jsm_get (mx_pendingTunnelInvites s) to) [] @ [(from, token)])
          (mx_pendingTunnelInvites s) \<rparr>"

definition connect :: "string \<Rightarrow> string \<Rightarrow> string \<Rightarrow> ms \<Rightarrow> AgentMesh \<Rightarrow> AgentMesh \<times> MeshReply" where
  "connect uuid from to now s0 =
     (let (s, blocked) = checkEither now from to s0 in
      if blocked then (s, Refused 403 ''agent_blacklisted'')
      else if \<not> jsm_has (mx_caps s) from \<or> \<not> jsm_has (mx_caps s) to then (s, Refused 404 ''agent_not_found'')
      else (let existing = jsm_get (mx_tunnelByPairKey s) (pairKey from to) in
        if truthy_str existing
        then (case jsm_get (mx_activeTunnels s) (the existing) of
                Some tunnel \<Rightarrow> (s\<lparr> mx_activeTunnels := jsm_set (the existing) (tunnel\<lparr> tn_lastRelayMs := now \<rparr>) (mx_activeTunnels s) \<rparr>,
                                Tunnel_opened (the existing) True)
              | None \<Rightarrow> (openTunnel uuid from to now (s\<lparr> mx_tunnelByPairKey := jsm_delete (pairKey from to) (mx_tunnelByPairKey s) \<rparr>),
                         Tunnel_opened uuid False))
        else (openTunnel uuid from to now s, Tunnel_opened uuid False)))"

definition acceptTunnel :: "string \<Rightarrow> string \<Rightarrow> ms \<Rightarrow> AgentMesh \<Rightarrow> AgentMesh \<times> MeshReply" where
  "acceptTunnel agentId token now s0 =
     (let (s, blocked) = checkBlacklist now agentId s0 in
      if blocked then (s, Refused 403 ''agent_blacklisted'')
      else (case jsm_get (mx_activeTunnels s) token of
          None \<Rightarrow> (s, Refused 404 ''tunnel_not_found'')
        | Some tunnel \<Rightarrow>
            if tn_toAgentId tunnel \<noteq> agentId then (s, Refused 403 ''tunnel_target_mismatch'')
            else (connectPeers (tn_toAgentId tunnel) (tn_fromAgentId tunnel)
                    (connectPeers (tn_fromAgentId tunnel) (tn_toAgentId tunnel) s), Mesh_ok)))"

text \<open>The tunnel object is reset for a new minute even when the relay is then refused.\<close>

definition freshMinute :: "ms \<Rightarrow> Tunnel \<Rightarrow> Tunnel" where
  "freshMinute now t = (let start = now - now mod 60000 in
     if tn_relayWindowStartMs t \<noteq> start then t\<lparr> tn_relayWindowStartMs := start, tn_relayWindowCount := 0 \<rparr> else t)"

definition relay :: "MeshLimits \<Rightarrow> string \<Rightarrow> string \<Rightarrow> string \<Rightarrow> ms \<Rightarrow> AgentMesh \<Rightarrow> AgentMesh \<times> MeshReply" where
  "relay cfg token from payload now s0 =
     (let (s, blocked) = checkBlacklist now from s0 in
      if blocked then (s, Refused 403 ''agent_blacklisted'')
      else (case jsm_get (mx_activeTunnels s) token of
          None \<Rightarrow> (s, Refused 404 ''tunnel_not_found'')
        | Some tunnel \<Rightarrow>
            if tn_fromAgentId tunnel \<noteq> from \<and> tn_toAgentId tunnel \<noteq> from then (s, Refused 403 ''tunnel_peer_mismatch'')
            else if length payload > 16384 then (s, Refused 413 ''relay_payload_too_large'')
            else (let (ws, allowed) = windowCount 10000 (RELAY_RATE_LIMIT_PER_10S cfg) from now (mx_relayWindowByAgent s);
                      s1 = s\<lparr> mx_relayWindowByAgent := ws \<rparr> in
              if \<not> allowed then (s1, Refused 429 ''relay_rate_limited'')
              else (let t1 = freshMinute now tunnel in
                if tn_relayWindowCount t1 \<ge> TUNNEL_MAX_RELAYS_PER_MIN cfg
                then (s1\<lparr> mx_activeTunnels := jsm_set token t1 (mx_activeTunnels s1) \<rparr>, Refused 429 ''tunnel_relay_cap_reached'')
                else (let t2 = t1\<lparr> tn_lastRelayMs := now, tn_relayCount := tn_relayCount t1 + 1,
                                   tn_relayWindowCount := tn_relayWindowCount t1 + 1 \<rparr> in
                  (s1\<lparr> mx_activeTunnels := jsm_set token t2 (mx_activeTunnels s1) \<rparr>, Tunnel_relayed (tn_relayCount t2)))))))"

definition dropTunnel :: "string \<Rightarrow> Tunnel \<Rightarrow> AgentMesh \<Rightarrow> AgentMesh" where
  "dropTunnel token tunnel s =
     disconnectPeers (tn_toAgentId tunnel) (tn_fromAgentId tunnel)
       (disconnectPeers (tn_fromAgentId tunnel) (tn_toAgentId tunnel)
         (s\<lparr> mx_activeTunnels := jsm_delete token (mx_activeTunnels s),
            mx_tunnelByPairKey := jsm_delete (pairKey (tn_fromAgentId tunnel) (tn_toAgentId tunnel)) (mx_tunnelByPairKey s) \<rparr>))"

definition closeTunnel :: "string \<Rightarrow> string \<Rightarrow> string \<Rightarrow> AgentMesh \<Rightarrow> AgentMesh \<times> MeshReply" where
  "closeTunnel from token reason s =
     (case jsm_get (mx_activeTunnels s) token of
        None \<Rightarrow> (s, Refused 404 ''tunnel_not_found'')
      | Some tunnel \<Rightarrow>
          if tn_fromAgentId tunnel \<noteq> from \<and> tn_toAgentId tunnel \<noteq> from then (s, Refused 403 ''tunnel_peer_mismatch'')
          else (let peer = (if tn_fromAgentId tunnel = from then tn_toAgentId tunnel else tn_fromAgentId tunnel);
                    s1 = dropTunnel token tunnel s in
            (s1\<lparr> mx_pendingTunnelCloseNotices := jsm_set peer
                   (nullish (jsm_get (mx_pendingTunnelCloseNotices s1) peer) [] @
                    [\<lparr> cn_peerAgentId = from, cn_token = token, cn_reason = reason \<rparr>]) (mx_pendingTunnelCloseNotices s1) \<rparr>, Mesh_ok)))"

definition closeAck :: "string \<Rightarrow> string \<Rightarrow> AgentMesh \<Rightarrow> AgentMesh \<times> MeshReply" where
  "closeAck agentId token s =
     (s\<lparr> mx_pendingTunnelCloseNotices := jsm_set agentId
           (filter (\<lambda>n. cn_token n \<noteq> token) (nullish (jsm_get (mx_pendingTunnelCloseNotices s) agentId) []))
           (mx_pendingTunnelCloseNotices s) \<rparr>, Mesh_ok)"

definition cleanupStep :: "MeshLimits \<Rightarrow> ms \<Rightarrow> AgentMesh \<times> nat \<Rightarrow> string \<times> Tunnel \<Rightarrow> AgentMesh \<times> nat" where
  "cleanupStep cfg now = (\<lambda>(s, removed) (token, tunnel).
     (let stale = now - tn_lastRelayMs tunnel > TUNNEL_IDLE_TTL_MS cfg;
          invalidAgent = \<not> jsm_has (mx_caps s) (tn_fromAgentId tunnel) \<or> \<not> jsm_has (mx_caps s) (tn_toAgentId tunnel) in
      if stale \<or> invalidAgent then (dropTunnel token tunnel s, removed + 1) else (s, removed)))"

definition cleanupStaleTunnels :: "MeshLimits \<Rightarrow> ms \<Rightarrow> AgentMesh \<Rightarrow> AgentMesh \<times> nat" where
  "cleanupStaleTunnels cfg now s = foldl (cleanupStep cfg now) (s, 0) (mx_activeTunnels s)"

section \<open>Direct work\<close>

definition fileOffer :: "DirectWorkOffer \<Rightarrow> AgentMesh \<Rightarrow> AgentMesh" where
  "fileOffer offer s =
     s\<lparr> mx_directWorkById := jsm_set (dw_offerId offer) offer (mx_directWorkById s),
        mx_directWorkInbox := jsm_set (dw_toAgentId offer)
          (nullish (jsm_get (mx_directWorkInbox s) (dw_toAgentId offer)) [] @ [dw_offerId offer]) (mx_directWorkInbox s) \<rparr>"

definition newOffer :: "string \<Rightarrow> string \<Rightarrow> string \<Rightarrow> WorkType \<Rightarrow> Language option \<Rightarrow> string \<Rightarrow> ms \<Rightarrow> DirectWorkOffer" where
  "newOffer uuid from to wt lang inp now = \<lparr> dw_offerId = uuid, dw_fromAgentId = from, dw_toAgentId = to, dw_workType = wt,
     dw_language = lang, dw_input = inp, dw_createdAtMs = now, dw_status = Offer_offered, dw_acceptedBy = None,
     dw_acceptedAtMs = None, dw_result = None \<rparr>"

definition offerDirectWork ::
  "MeshLimits \<Rightarrow> string \<Rightarrow> string \<Rightarrow> string \<Rightarrow> WorkType \<Rightarrow> Language option \<Rightarrow> string \<Rightarrow> ms \<Rightarrow> AgentMesh \<Rightarrow> AgentMesh \<times> MeshReply" where
  "offerDirectWork cfg uuid from to wt lang inp now s0 =
     (let (s, blocked) = checkEither now from to s0 in
      if blocked then (s, Refused 403 ''agent_blacklisted'')
      else if \<not> jsm_has (mx_caps s) from \<or> \<not> jsm_has (mx_caps s) to then (s, Refused 404 ''agent_not_found'')
      else (let (ws, allowed) = windowCount 10000 (DIRECT_WORK_OFFERS_PER_10S cfg) from now (mx_offerWindowByAgent s);
                s1 = s\<lparr> mx_offerWindowByAgent := ws \<rparr> in
        if \<not> allowed then (s1, Refused 429 ''direct_work_offer_rate_limited'')
        else (fileOffer (newOffer uuid from to wt (if wt = Code_task then Some (nullish lang Python) else None) inp now) s1,
              Work_offered uuid None)))"

definition requestModel ::
  "MeshLimits \<Rightarrow> string \<Rightarrow> string \<Rightarrow> string \<Rightarrow> string \<Rightarrow> ms \<Rightarrow> AgentMesh \<Rightarrow> AgentMesh \<times> MeshReply" where
  "requestModel cfg uuid from to prompt now s0 =
     (let (s, blocked) = checkEither now from to s0 in
      if blocked then (s, Refused 403 ''agent_blacklisted'')
      else (case (jsm_get (mx_caps s) from, jsm_get (mx_caps s) to) of
          (Some fromInfo, Some toInfo) \<Rightarrow>
            if \<not> ag_localModelEnabled toInfo then (s, Refused 409 ''target_has_no_local_model'')
            else (let (ws, allowed) = windowCount 10000 (DIRECT_WORK_OFFERS_PER_10S cfg) from now (mx_offerWindowByAgent s);
                      s1 = s\<lparr> mx_offerWindowByAgent := ws \<rparr> in
              if \<not> allowed then (s1, Refused 429 ''direct_work_offer_rate_limited'')
              else (fileOffer (newOffer uuid from to Model_inference None prompt now) s1,
                    Work_offered uuid (Some (ag_localModelProvider toInfo))))
        | _ \<Rightarrow> (s, Refused 404 ''agent_not_found'')))"

definition readModelRequest :: "string \<Rightarrow> AgentMesh \<Rightarrow> MeshReply" where
  "readModelRequest offerId s =
     (case jsm_get (mx_directWorkById s) offerId of
        None \<Rightarrow> Refused 404 ''offer_not_found''
      | Some offer \<Rightarrow> if dw_workType offer \<noteq> Model_inference then Refused 409 ''offer_not_model_request'' else Model_request offer)"

definition acceptDirectWork :: "string \<Rightarrow> string \<Rightarrow> ms \<Rightarrow> AgentMesh \<Rightarrow> AgentMesh \<times> MeshReply" where
  "acceptDirectWork offerId byAgentId now s0 =
     (let (s, blocked) = checkBlacklist now byAgentId s0 in
      if blocked then (s, Refused 403 ''agent_blacklisted'')
      else (case jsm_get (mx_directWorkById s) offerId of
          None \<Rightarrow> (s, Refused 404 ''offer_not_found'')
        | Some offer \<Rightarrow>
            if dw_toAgentId offer \<noteq> byAgentId then (s, Refused 403 ''offer_target_mismatch'')
            else if dw_status offer \<noteq> Offer_offered then (s, Refused 409 ''offer_not_available'')
            else (let offer' = offer\<lparr> dw_status := Offer_accepted, dw_acceptedBy := Some byAgentId, dw_acceptedAtMs := Some now \<rparr> in
              (s\<lparr> mx_directWorkById := jsm_set offerId offer' (mx_directWorkById s),
                  mx_directWorkInbox := jsm_set byAgentId
                    (filter (\<lambda>i. i \<noteq> offerId) (nullish (jsm_get (mx_directWorkInbox s) byAgentId) [])) (mx_directWorkInbox s) \<rparr>,
               Work_accepted offer'))))"

definition resultDirectWork ::
  "string \<Rightarrow> string \<Rightarrow> bool \<Rightarrow> string \<Rightarrow> string option \<Rightarrow> int \<Rightarrow> ms \<Rightarrow> AgentMesh \<Rightarrow> AgentMesh \<times> MeshReply" where
  "resultDirectWork offerId byAgentId ok outp err durationMs now s0 =
     (let (s, blocked) = checkBlacklist now byAgentId s0 in
      if blocked then (s, Refused 403 ''agent_blacklisted'')
      else (case jsm_get (mx_directWorkById s) offerId of
          None \<Rightarrow> (s, Refused 404 ''offer_not_found'')
        | Some offer \<Rightarrow>
            if dw_toAgentId offer \<noteq> byAgentId then (s, Refused 403 ''offer_target_mismatch'')
            else if dw_status offer \<noteq> Offer_accepted then (s, Refused 409 ''offer_not_accepted'')
            else (s\<lparr> mx_directWorkById := jsm_set offerId (offer\<lparr> dw_status := Offer_completed,
                       dw_result := Some \<lparr> dr_ok = ok, dr_output = outp, dr_error = err, dr_durationMs = durationMs,
                                           dr_completedAtMs = now \<rparr> \<rparr>) (mx_directWorkById s) \<rparr>, Mesh_ok)))"

section \<open>Queries and delivery\<close>

text \<open>The filters check the agents one after another; each check may drop an expired record.\<close>

definition keepAgent :: "ms \<Rightarrow> (string \<times> AgentCapability \<Rightarrow> bool) \<Rightarrow> bool \<Rightarrow> AgentMesh \<times> (string \<times> AgentCapability) list \<Rightarrow>
   string \<times> AgentCapability \<Rightarrow> AgentMesh \<times> (string \<times> AgentCapability) list" where
  "keepAgent now wanted withBlacklisted = (\<lambda>(s, kept) e.
     (let (s1, blocked) = (if withBlacklisted then (s, False) else checkBlacklist now (fst e) s) in
      if \<not> blocked \<and> wanted e then (s1, kept @ [e]) else (s1, kept)))"

text \<open>\<open>GET /agent-mesh/peers/:agentId\<close>: the caller itself is skipped before its check.\<close>

definition listAgentPeers :: "string \<Rightarrow> ms \<Rightarrow> AgentMesh \<Rightarrow> AgentMesh \<times> MeshReply" where
  "listAgentPeers agentId now s0 =
     (let (s, blocked) = checkBlacklist now agentId s0 in
      if blocked then (s, Refused 403 ''agent_blacklisted'')
      else (let (s1, kept) = foldl (keepAgent now (\<lambda>_. True) False) (s, []) (filter (\<lambda>e. fst e \<noteq> agentId) (mx_caps s))
            in (s1, Peers_listed (map fst kept))))"

definition modelsAvailable :: "string option \<Rightarrow> bool \<Rightarrow> ms \<Rightarrow> AgentMesh \<Rightarrow> AgentMesh \<times> MeshReply" where
  "modelsAvailable provider includeBlacklisted now s =
     (let wanted = (\<lambda>(a, info). ag_localModelEnabled info \<and> (truthy_str provider \<longrightarrow> Some (ag_localModelProvider info) = provider));
          (s1, kept) = foldl (keepAgent now wanted includeBlacklisted) (s, []) (mx_caps s)
      in (s1, Models_listed (map (\<lambda>(a, info). (a, ag_localModelProvider info, ag_localModelCatalog info, ag_maxConcurrentTasks info,
                                 length (ag_connectedPeers info))) kept)))"

text \<open>What a heartbeat hands over: invitations and notices are taken out, open offers stay until accepted.\<close>

record Handover =
  ho_invites :: "(string \<times> string) list"
  ho_notices :: "CloseNotice list"
  ho_offers :: "DirectWorkOffer list"

definition handOver :: "string \<Rightarrow> AgentMesh \<Rightarrow> AgentMesh \<times> Handover" where
  "handOver agentId s =
     (s\<lparr> mx_pendingTunnelInvites := jsm_set agentId [] (mx_pendingTunnelInvites s),
         mx_pendingTunnelCloseNotices := jsm_set agentId [] (mx_pendingTunnelCloseNotices s) \<rparr>,
      \<lparr> ho_invites = nullish (jsm_get (mx_pendingTunnelInvites s) agentId) [],
        ho_notices = nullish (jsm_get (mx_pendingTunnelCloseNotices s) agentId) [],
        ho_offers = filter (\<lambda>offer. dw_status offer = Offer_offered)
          (List.map_filter (jsm_get (mx_directWorkById s)) (nullish (jsm_get (mx_directWorkInbox s) agentId) [])) \<rparr>)"

text \<open>\<open>GET /agent-mesh/direct-work/audit\<close>: the latest offers first, in a stable sort.\<close>

definition auditDirectWork :: "nat \<Rightarrow> AgentMesh \<Rightarrow> DirectWorkOffer list" where
  "auditDirectWork limit s = take limit (sort_key (\<lambda>offer. - dw_createdAtMs offer) (jsm_values (mx_directWorkById s)))"

section \<open>Invariants\<close>

definition pair_of :: "Tunnel \<Rightarrow> string" where
  "pair_of t = pairKey (tn_fromAgentId t) (tn_toAgentId t)"

definition joins :: "Tunnel \<Rightarrow> string \<Rightarrow> string \<Rightarrow> bool" where
  "joins t a b \<longleftrightarrow> (tn_fromAgentId t = a \<and> tn_toAgentId t = b) \<or> (tn_fromAgentId t = b \<and> tn_toAgentId t = a)"

definition peered :: "AgentMesh \<Rightarrow> string \<Rightarrow> string \<Rightarrow> bool" where
  "peered s a b \<longleftrightarrow> (\<exists>c. jsm_get (mx_caps s) a = Some c \<and> b \<in> set (ag_connectedPeers c))"

text \<open>
  The tunnel table and the index by pairs are inverse to each other, both ends of a tunnel are registered, and agents
  are peered symmetrically and only where a tunnel joins them.
\<close>

definition tunnel_inv :: "AgentMesh \<Rightarrow> bool" where
  "tunnel_inv s \<longleftrightarrow>
     jsm_wf (mx_activeTunnels s) \<and>
     (\<forall>k token. jsm_get (mx_tunnelByPairKey s) k = Some token \<longrightarrow>
        token \<noteq> [] \<and> (\<exists>t. jsm_get (mx_activeTunnels s) token = Some t \<and> pair_of t = k)) \<and>
     (\<forall>token t. jsm_get (mx_activeTunnels s) token = Some t \<longrightarrow>
        jsm_get (mx_tunnelByPairKey s) (pair_of t) = Some token \<and>
        jsm_has (mx_caps s) (tn_fromAgentId t) \<and> jsm_has (mx_caps s) (tn_toAgentId t)) \<and>
     (\<forall>a b. peered s a b \<longrightarrow> peered s b a \<and> (\<exists>token t. jsm_get (mx_activeTunnels s) token = Some t \<and> joins t a b))"

definition offer_ok :: "DirectWorkOffer \<Rightarrow> bool" where
  "offer_ok offer \<longleftrightarrow>
     (case dw_status offer of
        Offer_offered \<Rightarrow> dw_acceptedBy offer = None \<and> dw_result offer = None
      | Offer_accepted \<Rightarrow> dw_acceptedBy offer = Some (dw_toAgentId offer) \<and> dw_acceptedAtMs offer \<noteq> None \<and> dw_result offer = None
      | Offer_completed \<Rightarrow> dw_acceptedBy offer = Some (dw_toAgentId offer) \<and> dw_acceptedAtMs offer \<noteq> None \<and> dw_result offer \<noteq> None
      | Offer_rejected \<Rightarrow> False)"

definition open_for :: "string \<Rightarrow> DirectWorkOffer \<Rightarrow> bool" where
  "open_for a offer \<longleftrightarrow> dw_toAgentId offer = a \<and> dw_status offer = Offer_offered"

definition inbox :: "AgentMesh \<Rightarrow> string \<Rightarrow> string list" where
  "inbox s a = nullish (jsm_get (mx_directWorkInbox s) a) []"

text \<open>Offers are filed under their id, and the inbox of an agent holds its open offers, oldest first.\<close>

definition offer_inv :: "AgentMesh \<Rightarrow> bool" where
  "offer_inv s \<longleftrightarrow>
     jsm_wf (mx_directWorkById s) \<and>
     (\<forall>(i, offer) \<in> set (mx_directWorkById s). dw_offerId offer = i \<and> offer_ok offer) \<and>
     (\<forall>a. inbox s a = map fst (filter (open_for a \<circ> snd) (mx_directWorkById s)))"

section \<open>Preservation\<close>

lemma setCaps_simps [simp]:
  "mx_fed (setCaps c s) = (mx_fed s)\<lparr> fd_agentCapabilities := c \<rparr>"
  "mx_activeTunnels (setCaps c s) = mx_activeTunnels s"
  "mx_tunnelByPairKey (setCaps c s) = mx_tunnelByPairKey s"
  "mx_pendingTunnelInvites (setCaps c s) = mx_pendingTunnelInvites s"
  "mx_pendingTunnelCloseNotices (setCaps c s) = mx_pendingTunnelCloseNotices s"
  "mx_relayWindowByAgent (setCaps c s) = mx_relayWindowByAgent s"
  "mx_offerWindowByAgent (setCaps c s) = mx_offerWindowByAgent s"
  "mx_directWorkById (setCaps c s) = mx_directWorkById s"
  "mx_directWorkInbox (setCaps c s) = mx_directWorkInbox s"
  by (simp_all add: setCaps_def)

lemma setBlacklist_simps [simp]:
  "mx_fed (setBlacklist bl s) = (mx_fed s)\<lparr> fd_blacklist := bl \<rparr>"
  "mx_activeTunnels (setBlacklist bl s) = mx_activeTunnels s"
  "mx_tunnelByPairKey (setBlacklist bl s) = mx_tunnelByPairKey s"
  "mx_pendingTunnelInvites (setBlacklist bl s) = mx_pendingTunnelInvites s"
  "mx_pendingTunnelCloseNotices (setBlacklist bl s) = mx_pendingTunnelCloseNotices s"
  "mx_relayWindowByAgent (setBlacklist bl s) = mx_relayWindowByAgent s"
  "mx_offerWindowByAgent (setBlacklist bl s) = mx_offerWindowByAgent s"
  "mx_directWorkById (setBlacklist bl s) = mx_directWorkById s"
  "mx_directWorkInbox (setBlacklist bl s) = mx_directWorkInbox s"
  by (simp_all add: setBlacklist_def)

lemma setBlacklist_twice [simp]: "setBlacklist b2 (setBlacklist b1 s) = setBlacklist b2 s"
  by (simp add: setBlacklist_def)

text \<open>A blacklist check changes nothing but the blacklist.\<close>

lemma checkBlacklist_setBlacklist: "\<exists>bl. fst (checkBlacklist now a s) = setBlacklist bl s"
  by (auto simp: checkBlacklist_def case_prod_beta Let_def)

lemma checkEither_setBlacklist: "\<exists>bl. fst (checkEither now a b s) = setBlacklist bl s"
proof -
  obtain s1 x where c: "checkBlacklist now a s = (s1, x)" by fastforce
  obtain bl1 where b1: "s1 = setBlacklist bl1 s" using checkBlacklist_setBlacklist [of now a s] c by auto
  obtain bl2 where b2: "fst (checkBlacklist now b s1) = setBlacklist bl2 s1" using checkBlacklist_setBlacklist by blast
  then show ?thesis using c b1 by (cases x) (auto simp: checkEither_def)
qed

lemma peered_cong: "mx_caps s' = mx_caps s \<Longrightarrow> peered s' = peered s"
  by (simp add: peered_def fun_eq_iff)

lemma tunnel_inv_cong:
  "tunnel_inv s \<Longrightarrow> mx_caps s' = mx_caps s \<Longrightarrow> mx_activeTunnels s' = mx_activeTunnels s \<Longrightarrow>
   mx_tunnelByPairKey s' = mx_tunnelByPairKey s \<Longrightarrow> tunnel_inv s'"
  unfolding tunnel_inv_def peered_def by simp

lemma offer_inv_cong:
  "offer_inv s \<Longrightarrow> mx_directWorkById s' = mx_directWorkById s \<Longrightarrow> mx_directWorkInbox s' = mx_directWorkInbox s \<Longrightarrow> offer_inv s'"
  unfolding offer_inv_def inbox_def by simp

lemma inv_setBlacklist [simp]:
  "tunnel_inv s \<Longrightarrow> tunnel_inv (setBlacklist bl s)" "offer_inv s \<Longrightarrow> offer_inv (setBlacklist bl s)"
  by (erule tunnel_inv_cong offer_inv_cong; simp)+

lemma tunnel_invI:
  assumes "jsm_wf (mx_activeTunnels s)"
    "\<And>k token. jsm_get (mx_tunnelByPairKey s) k = Some token \<Longrightarrow> token \<noteq> [] \<and> (\<exists>t. jsm_get (mx_activeTunnels s) token = Some t \<and> pair_of t = k)"
    "\<And>token t. jsm_get (mx_activeTunnels s) token = Some t \<Longrightarrow> jsm_get (mx_tunnelByPairKey s) (pair_of t) = Some token \<and>
       jsm_has (mx_caps s) (tn_fromAgentId t) \<and> jsm_has (mx_caps s) (tn_toAgentId t)"
    "\<And>a b. peered s a b \<Longrightarrow> peered s b a \<and> (\<exists>token t. jsm_get (mx_activeTunnels s) token = Some t \<and> joins t a b)"
  shows "tunnel_inv s"
  using assms unfolding tunnel_inv_def by blast

lemma tunnel_invD:
  assumes "tunnel_inv s"
  shows "jsm_wf (mx_activeTunnels s)"
    and "jsm_get (mx_tunnelByPairKey s) k = Some token \<Longrightarrow> token \<noteq> [] \<and> (\<exists>t. jsm_get (mx_activeTunnels s) token = Some t \<and> pair_of t = k)"
    and "jsm_get (mx_activeTunnels s) token = Some t \<Longrightarrow> jsm_get (mx_tunnelByPairKey s) (pair_of t) = Some token \<and>
       jsm_has (mx_caps s) (tn_fromAgentId t) \<and> jsm_has (mx_caps s) (tn_toAgentId t)"
    and "peered s a b \<Longrightarrow> peered s b a \<and> (\<exists>token t. jsm_get (mx_activeTunnels s) token = Some t \<and> joins t a b)"
  using assms unfolding tunnel_inv_def by blast+

text \<open>Writing a tunnel back with its ends kept, and opening one under a fresh token for a free pair.\<close>

lemma tunnel_inv_update:
  assumes inv: "tunnel_inv s" and t: "jsm_get (mx_activeTunnels s) token = Some t"
    and ends: "tn_fromAgentId t' = tn_fromAgentId t" "tn_toAgentId t' = tn_toAgentId t"
  shows "tunnel_inv (s\<lparr> mx_activeTunnels := jsm_set token t' (mx_activeTunnels s) \<rparr>)"
proof (rule tunnel_invI, goal_cases)
  case 1
  show ?case using tunnel_invD(1) [OF inv] by simp
next
  case (2 k tok)
  then have "tok \<noteq> [] \<and> (\<exists>t. jsm_get (mx_activeTunnels s) tok = Some t \<and> pair_of t = k)" using tunnel_invD(2) [OF inv] by simp
  then show ?case using t ends by (auto simp: jsm_get_set pair_of_def)
next
  case (3 tok u)
  then show ?case using tunnel_invD(3) [OF inv, of tok u] tunnel_invD(3) [OF inv t] ends
    by (auto simp: jsm_get_set pair_of_def split: if_splits)
next
  case (4 a b)
  then have "peered s a b" by (simp add: peered_def)
  from tunnel_invD(4) [OF inv this] obtain tok u where u: "jsm_get (mx_activeTunnels s) tok = Some u" "joins u a b" and "peered s b a" by blast
  moreover have "joins t' a b" if "tok = token" using u t ends that by (simp add: joins_def)
  ultimately show ?case by (auto simp: peered_def jsm_get_set)
qed

lemma tunnel_inv_open:
  assumes inv: "tunnel_inv s" and free: "jsm_get (mx_tunnelByPairKey s) (pairKey from to) = None"
    and fresh: "\<not> jsm_has (mx_activeTunnels s) token" "token \<noteq> []"
    and reg: "jsm_has (mx_caps s) from" "jsm_has (mx_caps s) to"
  shows "tunnel_inv (openTunnel token from to now s)"
proof (rule tunnel_invI, goal_cases)
  case 1
  show ?case using tunnel_invD(1) [OF inv] by (simp add: openTunnel_def)
next
  case (2 k tok)
  show ?case
  proof (cases "k = pairKey from to")
    case True
    with 2 fresh show ?thesis by (simp add: openTunnel_def jsm_get_set pair_of_def)
  next
    case False
    with 2 have "jsm_get (mx_tunnelByPairKey s) k = Some tok" by (simp add: openTunnel_def jsm_get_set)
    then show ?thesis using tunnel_invD(2) [OF inv] fresh by (fastforce simp: openTunnel_def jsm_get_set jsm_has_iff)
  qed
next
  case (3 tok u)
  show ?case
  proof (cases "tok = token")
    case True
    with 3 reg show ?thesis by (auto simp: openTunnel_def jsm_get_set pair_of_def)
  next
    case False
    with 3 have "jsm_get (mx_activeTunnels s) tok = Some u" by (simp add: openTunnel_def jsm_get_set)
    from tunnel_invD(3) [OF inv this] free show ?thesis by (auto simp: openTunnel_def jsm_get_set)
  qed
next
  case (4 a b)
  then have "peered s a b" by (simp add: peered_def openTunnel_def)
  from tunnel_invD(4) [OF inv this] obtain tok u where u: "jsm_get (mx_activeTunnels s) tok = Some u" "joins u a b" and l: "peered s b a" by blast
  from u fresh have "tok \<noteq> token" by (auto simp: jsm_has_iff)
  with u have "jsm_get (mx_activeTunnels (openTunnel token from to now s)) tok = Some u" by (simp add: openTunnel_def jsm_get_set)
  moreover have "peered (openTunnel token from to now s) b a" using l by (simp add: peered_def openTunnel_def)
  ultimately show ?case using u by blast
qed

text \<open>Links are added and removed on both sides.\<close>

lemma jsm_get_modify: "jsm_get (jsm_modify k f m) k' = (if k' = k then map_option f (jsm_get m k) else jsm_get m k')"
  by (auto simp: jsm_modify_def jsm_get_set split: option.splits)

lemma jsm_has_modify [simp]: "jsm_has (jsm_modify k f m) k' = jsm_has m k'"
  by (auto simp: jsm_has_iff jsm_get_modify)

lemma peered_connectPeers: "peered (connectPeers x y s) a b \<longleftrightarrow> peered s a b \<or> (a = x \<and> b = y \<and> jsm_has (mx_caps s) x)"
  by (auto simp: peered_def connectPeers_def jsm_get_modify jsm_has_iff)

lemma peered_disconnectPeers: "peered (disconnectPeers x y s) a b \<longleftrightarrow> peered s a b \<and> \<not> (a = x \<and> b = y)"
  by (auto simp: peered_def disconnectPeers_def jsm_get_modify)

lemma connectPeers_simps [simp]:
  "mx_activeTunnels (connectPeers x y s) = mx_activeTunnels s" "mx_tunnelByPairKey (connectPeers x y s) = mx_tunnelByPairKey s"
  "mx_directWorkById (connectPeers x y s) = mx_directWorkById s" "mx_directWorkInbox (connectPeers x y s) = mx_directWorkInbox s"
  "mx_relayWindowByAgent (connectPeers x y s) = mx_relayWindowByAgent s"
  "jsm_has (mx_caps (connectPeers x y s)) a = jsm_has (mx_caps s) a"
  by (simp_all add: connectPeers_def)

lemma disconnectPeers_simps [simp]:
  "mx_activeTunnels (disconnectPeers x y s) = mx_activeTunnels s" "mx_tunnelByPairKey (disconnectPeers x y s) = mx_tunnelByPairKey s"
  "mx_directWorkById (disconnectPeers x y s) = mx_directWorkById s" "mx_directWorkInbox (disconnectPeers x y s) = mx_directWorkInbox s"
  "mx_relayWindowByAgent (disconnectPeers x y s) = mx_relayWindowByAgent s"
  "jsm_has (mx_caps (disconnectPeers x y s)) a = jsm_has (mx_caps s) a"
  by (simp_all add: disconnectPeers_def)

lemma dropTunnel_simps [simp]:
  "mx_activeTunnels (dropTunnel token t s) = jsm_delete token (mx_activeTunnels s)"
  "mx_tunnelByPairKey (dropTunnel token t s) = jsm_delete (pair_of t) (mx_tunnelByPairKey s)"
  "mx_directWorkById (dropTunnel token t s) = mx_directWorkById s" "mx_directWorkInbox (dropTunnel token t s) = mx_directWorkInbox s"
  "mx_relayWindowByAgent (dropTunnel token t s) = mx_relayWindowByAgent s"
  "jsm_has (mx_caps (dropTunnel token t s)) a = jsm_has (mx_caps s) a"
  by (simp_all add: dropTunnel_def pair_of_def)

lemma peered_dropTunnel: "peered (dropTunnel token t s) a b \<longleftrightarrow> peered s a b \<and> \<not> joins t a b"
proof -
  have "peered (s\<lparr> mx_activeTunnels := x, mx_tunnelByPairKey := y \<rparr>) = peered s" for x y by (rule peered_cong) simp
  then show ?thesis by (auto simp: dropTunnel_def peered_disconnectPeers joins_def)
qed

lemma tunnel_inv_accept:
  assumes inv: "tunnel_inv s" and t: "jsm_get (mx_activeTunnels s) token = Some t"
  shows "tunnel_inv (connectPeers (tn_toAgentId t) (tn_fromAgentId t) (connectPeers (tn_fromAgentId t) (tn_toAgentId t) s))"
proof (rule tunnel_invI, goal_cases)
  case 1
  show ?case using tunnel_invD(1) [OF inv] by simp
next
  case (2 k tok)
  then show ?case using tunnel_invD(2) [OF inv] by simp
next
  case (3 tok u)
  then show ?case using tunnel_invD(3) [OF inv] by simp
next
  case (4 a b)
  have reg: "jsm_has (mx_caps s) (tn_fromAgentId t)" "jsm_has (mx_caps s) (tn_toAgentId t)" using tunnel_invD(3) [OF inv t] by simp_all
  from 4 consider "peered s a b" | "joins t a b" by (auto simp: peered_connectPeers joins_def)
  then show ?case
  proof cases
    case 1
    then show ?thesis using tunnel_invD(4) [OF inv 1] by (auto simp: peered_connectPeers)
  next
    case 2
    with t reg show ?thesis by (auto simp: peered_connectPeers joins_def)
  qed
qed

lemma tunnel_inv_drop:
  assumes inv: "tunnel_inv s" and t: "jsm_get (mx_activeTunnels s) token = Some t"
  shows "tunnel_inv (dropTunnel token t s)"
proof (rule tunnel_invI, goal_cases)
  case 1
  show ?case using tunnel_invD(1) [OF inv] by simp
next
  case (2 k tok)
  then have k: "k \<noteq> pair_of t" "jsm_get (mx_tunnelByPairKey s) k = Some tok" by (simp_all add: jsm_get_delete split: if_splits)
  then have "tok \<noteq> token" using tunnel_invD(2) [OF inv] t by force
  with k show ?case using tunnel_invD(2) [OF inv k(2)] by (simp add: jsm_get_delete)
next
  case (3 tok u)
  then have u: "tok \<noteq> token" "jsm_get (mx_activeTunnels s) tok = Some u" by (simp_all add: jsm_get_delete split: if_splits)
  have "pair_of u \<noteq> pair_of t" using tunnel_invD(3) [OF inv t] tunnel_invD(3) [OF inv u(2)] u(1) by auto
  with u show ?case using tunnel_invD(3) [OF inv u(2)] by (simp add: jsm_get_delete)
next
  case (4 a b)
  then have l: "peered s a b" and nj: "\<not> joins t a b" by (simp_all add: peered_dropTunnel)
  from tunnel_invD(4) [OF inv l] obtain tok u where u: "jsm_get (mx_activeTunnels s) tok = Some u" "joins u a b" and ba: "peered s b a" by blast
  have "tok \<noteq> token" using u nj t by auto
  with u have "jsm_get (mx_activeTunnels (dropTunnel token t s)) tok = Some u" by (simp add: jsm_get_delete)
  moreover have "peered (dropTunnel token t s) b a" using ba nj by (auto simp: peered_dropTunnel joins_def)
  ultimately show ?case using u by blast
qed

text \<open>A check of the blacklist, seen from the invariants.\<close>

lemma check_cases:
  assumes "checkBlacklist now a s0 = (s, x)"
  obtains bl where "s = setBlacklist bl s0"
  using checkBlacklist_setBlacklist [of now a s0] assms by auto

lemma checkEither_cases:
  assumes "checkEither now a b s0 = (s, x)"
  obtains bl where "s = setBlacklist bl s0"
  using checkEither_setBlacklist [of now a b s0] assms by auto

lemma freshMinute_ends [simp]: "tn_fromAgentId (freshMinute now t) = tn_fromAgentId t" "tn_toAgentId (freshMinute now t) = tn_toAgentId t"
  by (simp_all add: freshMinute_def Let_def)

lemma tunnel_inv_windows [simp]:
  "tunnel_inv (s\<lparr> mx_relayWindowByAgent := w \<rparr>) = tunnel_inv s" "tunnel_inv (s\<lparr> mx_offerWindowByAgent := w \<rparr>) = tunnel_inv s"
  "tunnel_inv (s\<lparr> mx_pendingTunnelCloseNotices := n \<rparr>) = tunnel_inv s"
  "tunnel_inv (s\<lparr> mx_directWorkById := d, mx_directWorkInbox := i \<rparr>) = tunnel_inv s"
  "tunnel_inv (s\<lparr> mx_directWorkById := d \<rparr>) = tunnel_inv s"
  by (auto elim!: tunnel_inv_cong)

lemma tunnel_connect:
  assumes "tunnel_inv s0" "\<not> jsm_has (mx_activeTunnels s0) uuid" "uuid \<noteq> []"
  shows "tunnel_inv (fst (connect uuid from to now s0))"
proof -
  obtain s blocked where ch: "checkEither now from to s0 = (s, blocked)" by fastforce
  then obtain bl where s: "s = setBlacklist bl s0" by (rule checkEither_cases)
  have inv: "tunnel_inv s" and fresh: "\<not> jsm_has (mx_activeTunnels s) uuid" using assms s by simp_all
  let ?e = "jsm_get (mx_tunnelByPairKey s) (pairKey from to)"
  show ?thesis
  proof (cases "blocked \<or> \<not> jsm_has (mx_caps s) from \<or> \<not> jsm_has (mx_caps s) to")
    case True
    then show ?thesis using ch inv by (auto simp: connect_def)
  next
    case ok: False
    show ?thesis
    proof (cases ?e)
      case None
      have "tunnel_inv (openTunnel uuid from to now s)" using tunnel_inv_open [OF inv None fresh assms(3)] ok by simp
      then show ?thesis using ch ok None by (simp add: connect_def)
    next
      case (Some token)
      from tunnel_invD(2) [OF inv Some] obtain t where "token \<noteq> []" "jsm_get (mx_activeTunnels s) token = Some t" by blast
      then show ?thesis using ch ok Some by (simp add: connect_def tunnel_inv_update [OF inv])
    qed
  qed
qed

lemma tunnel_acceptTunnel: "tunnel_inv s0 \<Longrightarrow> tunnel_inv (fst (acceptTunnel agentId token now s0))"
proof -
  assume inv0: "tunnel_inv s0"
  obtain s blocked where ch: "checkBlacklist now agentId s0 = (s, blocked)" by fastforce
  then obtain bl where "s = setBlacklist bl s0" by (rule check_cases)
  then have inv: "tunnel_inv s" using inv0 by simp
  show ?thesis
  proof (cases "jsm_get (mx_activeTunnels s) token")
    case None
    then show ?thesis using ch inv by (simp add: acceptTunnel_def)
  next
    case (Some t)
    then show ?thesis using ch inv tunnel_inv_accept [OF inv Some] by (auto simp: acceptTunnel_def)
  qed
qed

lemma tunnel_relay: "tunnel_inv s0 \<Longrightarrow> tunnel_inv (fst (relay cfg token from payload now s0))"
proof -
  assume inv0: "tunnel_inv s0"
  obtain s blocked where ch: "checkBlacklist now from s0 = (s, blocked)" by fastforce
  then obtain bl where "s = setBlacklist bl s0" by (rule check_cases)
  then have inv: "tunnel_inv s" using inv0 by simp
  obtain ws allowed where w: "windowCount 10000 (RELAY_RATE_LIMIT_PER_10S cfg) from now (mx_relayWindowByAgent s) = (ws, allowed)" by fastforce
  have inv1: "tunnel_inv (s\<lparr> mx_relayWindowByAgent := ws \<rparr>)" using inv by simp
  show ?thesis
  proof (cases "jsm_get (mx_activeTunnels s) token")
    case None
    then show ?thesis using ch inv by (simp add: relay_def)
  next
    case (Some t)
    have t: "jsm_get (mx_activeTunnels (s\<lparr> mx_relayWindowByAgent := ws \<rparr>)) token = Some t" using Some by simp
    note up = tunnel_inv_update [OF inv1 t, simplified]
    show ?thesis using ch Some w inv inv1 by (simp add: relay_def Let_def up)
  qed
qed

lemma tunnel_closeTunnel: "tunnel_inv s \<Longrightarrow> tunnel_inv (fst (closeTunnel from token reason s))"
  using tunnel_inv_drop [of s token] by (simp add: closeTunnel_def Let_def split: option.splits)

lemma tunnel_closeAck: "tunnel_inv s \<Longrightarrow> tunnel_inv (fst (closeAck agentId token s))"
  by (simp add: closeAck_def)

lemma cleanupStep_eq:
  "cleanupStep cfg now (s, n) (token, t) =
     (if now - tn_lastRelayMs t > TUNNEL_IDLE_TTL_MS cfg \<or> \<not> jsm_has (mx_caps s) (tn_fromAgentId t) \<or> \<not> jsm_has (mx_caps s) (tn_toAgentId t)
      then (dropTunnel token t s, n + 1) else (s, n))"
  by (simp add: cleanupStep_def Let_def)

text \<open>The loop works through the entries it started with; the entries not yet visited are untouched.\<close>

lemma cleanup_loop:
  assumes "tunnel_inv s" "jsm_wf es" "\<forall>(token, t) \<in> set es. jsm_get (mx_activeTunnels s) token = Some t"
  shows "tunnel_inv (fst (foldl (cleanupStep cfg now) (s, n) es)) \<and>
    (\<forall>token. token \<notin> fst ` set es \<longrightarrow>
       jsm_get (mx_activeTunnels (fst (foldl (cleanupStep cfg now) (s, n) es))) token = jsm_get (mx_activeTunnels s) token) \<and>
    (\<forall>(token, t) \<in> set es. jsm_get (mx_activeTunnels (fst (foldl (cleanupStep cfg now) (s, n) es))) token =
       (if now - tn_lastRelayMs t > TUNNEL_IDLE_TTL_MS cfg then None else Some t))"
  using assms
proof (induction es arbitrary: s n)
  case Nil
  then show ?case by simp
next
  case (Cons e es)
  obtain token t where e: "e = (token, t)" by fastforce
  from Cons.prems e have t: "jsm_get (mx_activeTunnels s) token = Some t" and new: "token \<notin> fst ` set es" and wf: "jsm_wf es"
    by (auto simp: jsm_wf_def)
  have reg: "jsm_has (mx_caps s) (tn_fromAgentId t)" "jsm_has (mx_caps s) (tn_toAgentId t)"
    using tunnel_invD(3) [OF Cons.prems(1) t] by simp_all
  define stale where "stale \<longleftrightarrow> now - tn_lastRelayMs t > TUNNEL_IDLE_TTL_MS cfg"
  define s' where "s' = (if stale then dropTunnel token t s else s)"
  have step: "cleanupStep cfg now (s, n) e = (s', if stale then n + 1 else n)"
    using reg by (simp add: e cleanupStep_eq s'_def stale_def)
  have inv': "tunnel_inv s'" using Cons.prems(1) tunnel_inv_drop [OF Cons.prems(1) t] by (simp add: s'_def)
  have get': "jsm_get (mx_activeTunnels s') k = (if k = token \<and> stale then None else jsm_get (mx_activeTunnels s) k)" for k
    by (simp add: s'_def jsm_get_delete)
  have rest: "\<forall>(k, u) \<in> set es. jsm_get (mx_activeTunnels s') k = Some u"
    using Cons.prems(3) new by (force simp: get' e)
  note IH = Cons.IH [OF inv' wf rest, of "if stale then n + 1 else n"]
  have fold: "foldl (cleanupStep cfg now) (s, n) (e # es) = foldl (cleanupStep cfg now) (s', if stale then n + 1 else n) es"
    by (simp add: step)
  have here: "jsm_get (mx_activeTunnels (fst (foldl (cleanupStep cfg now) (s, n) (e # es)))) token = (if stale then None else Some t)"
    using IH new t by (simp only: fold) (simp add: get')
  show ?case unfolding fold
  proof (intro conjI)
    show "tunnel_inv (fst (foldl (cleanupStep cfg now) (s', if stale then n + 1 else n) es))" using IH by blast
    show "\<forall>k. k \<notin> fst ` set (e # es) \<longrightarrow> jsm_get (mx_activeTunnels (fst (foldl (cleanupStep cfg now) (s', if stale then n + 1 else n) es))) k =
        jsm_get (mx_activeTunnels s) k" using IH by (simp add: e get')
    show "\<forall>(k, u) \<in> set (e # es). jsm_get (mx_activeTunnels (fst (foldl (cleanupStep cfg now) (s', if stale then n + 1 else n) es))) k =
        (if now - tn_lastRelayMs u > TUNNEL_IDLE_TTL_MS cfg then None else Some u)"
      using IH here [unfolded fold] by (simp add: e stale_def)
  qed
qed

lemma cleanup_exact:
  assumes "tunnel_inv s"
  shows "tunnel_inv (fst (cleanupStaleTunnels cfg now s))"
    and "jsm_get (mx_activeTunnels (fst (cleanupStaleTunnels cfg now s))) token =
      (case jsm_get (mx_activeTunnels s) token of None \<Rightarrow> None
       | Some t \<Rightarrow> if now - tn_lastRelayMs t > TUNNEL_IDLE_TTL_MS cfg then None else Some t)"
proof -
  have wf: "jsm_wf (mx_activeTunnels s)" using tunnel_invD(1) [OF assms] .
  then have all: "\<forall>(k, t) \<in> set (mx_activeTunnels s). jsm_get (mx_activeTunnels s) k = Some t" by (auto simp: jsm_get_iff)
  note loop = cleanup_loop [OF assms wf all, of cfg now 0]
  show "tunnel_inv (fst (cleanupStaleTunnels cfg now s))" using loop by (simp add: cleanupStaleTunnels_def)
  show "jsm_get (mx_activeTunnels (fst (cleanupStaleTunnels cfg now s))) token =
      (case jsm_get (mx_activeTunnels s) token of None \<Rightarrow> None
       | Some t \<Rightarrow> if now - tn_lastRelayMs t > TUNNEL_IDLE_TTL_MS cfg then None else Some t)"
  proof (cases "jsm_get (mx_activeTunnels s) token")
    case None
    then have "token \<notin> fst ` set (mx_activeTunnels s)" by (simp add: jsm_get_def map_of_eq_None_iff)
    with loop None show ?thesis by (simp add: cleanupStaleTunnels_def)
  next
    case (Some t)
    then have "(token, t) \<in> set (mx_activeTunnels s)" by (rule jsm_get_in_set)
    with loop Some show ?thesis unfolding cleanupStaleTunnels_def by fastforce
  qed
qed

text \<open>The direct work routes do not touch the tunnels.\<close>

lemma tunnel_fileOffer [simp]: "tunnel_inv (fileOffer offer s) = tunnel_inv s"
  by (simp add: fileOffer_def)

lemma tunnel_offerDirectWork:
  assumes "tunnel_inv s0"
  shows "tunnel_inv (fst (offerDirectWork cfg uuid from to wt lang inp now s0))"
proof -
  obtain s blocked where ch: "checkEither now from to s0 = (s, blocked)" by fastforce
  then obtain bl where "s = setBlacklist bl s0" by (rule checkEither_cases)
  then show ?thesis using assms ch by (simp add: offerDirectWork_def case_prod_beta Let_def)
qed

lemma tunnel_requestModel:
  assumes "tunnel_inv s0"
  shows "tunnel_inv (fst (requestModel cfg uuid from to prompt now s0))"
proof -
  obtain s blocked where ch: "checkEither now from to s0 = (s, blocked)" by fastforce
  then obtain bl where "s = setBlacklist bl s0" by (rule checkEither_cases)
  then show ?thesis using assms ch by (simp add: requestModel_def case_prod_beta Let_def split: option.split)
qed

lemma tunnel_acceptDirectWork:
  assumes "tunnel_inv s0"
  shows "tunnel_inv (fst (acceptDirectWork offerId byAgentId now s0))"
proof -
  obtain s blocked where ch: "checkBlacklist now byAgentId s0 = (s, blocked)" by fastforce
  then obtain bl where "s = setBlacklist bl s0" by (rule check_cases)
  then show ?thesis using assms ch by (simp add: acceptDirectWork_def Let_def split: option.split)
qed

lemma tunnel_resultDirectWork:
  assumes "tunnel_inv s0"
  shows "tunnel_inv (fst (resultDirectWork offerId byAgentId ok outp err durationMs now s0))"
proof -
  obtain s blocked where ch: "checkBlacklist now byAgentId s0 = (s, blocked)" by fastforce
  then obtain bl where "s = setBlacklist bl s0" by (rule check_cases)
  then show ?thesis using assms ch by (simp add: resultDirectWork_def Let_def split: option.split)
qed

text \<open>Open offers in a table, when an entry is added or overwritten.\<close>

lemma filter_jsm_set_new:
  "\<not> jsm_has m k \<Longrightarrow> map fst (filter (P \<circ> snd) (jsm_set k v m)) = map fst (filter (P \<circ> snd) m) @ (if P v then [k] else [])"
  by (simp add: jsm_set_new)

lemma filter_jsm_set_old:
  "jsm_wf m \<Longrightarrow> jsm_has m k \<Longrightarrow> \<not> P v \<Longrightarrow>
   map fst (filter (P \<circ> snd) (jsm_set k v m)) = filter (\<lambda>i. i \<noteq> k) (map fst (filter (P \<circ> snd) m))"
proof (induction m)
  case (Cons e m)
  obtain k' v' where e: "e = (k', v')" by fastforce
  show ?case
  proof (cases "k' = k")
    case True
    with Cons.prems e have "k \<notin> fst ` set m" by (auto simp: jsm_wf_def)
    then have "filter (\<lambda>i. i \<noteq> k) (map fst (filter (P \<circ> snd) m)) = map fst (filter (P \<circ> snd) m)" by (intro filter_True) force
    with True e Cons.prems(3) show ?thesis by (simp add: jsm_set_def o_def)
  next
    case False
    with Cons e show ?thesis by (simp add: jsm_set_def jsm_wf_def jsm_has_def)
  qed
qed simp

lemma not_open_filter:
  assumes "jsm_wf m" "jsm_get m k = Some v" "\<not> P v"
  shows "filter (\<lambda>i. i \<noteq> k) (map fst (filter (P \<circ> snd) m)) = map fst (filter (P \<circ> snd) m)"
proof (rule filter_True, rule ballI)
  fix i assume "i \<in> set (map fst (filter (P \<circ> snd) m))"
  then obtain w where "(i, w) \<in> set m" "P w" by auto
  with assms show "i \<noteq> k" by (auto simp: jsm_get_iff [symmetric])
qed

lemma offer_invD:
  assumes "offer_inv s"
  shows "jsm_wf (mx_directWorkById s)"
    and "jsm_get (mx_directWorkById s) i = Some offer \<Longrightarrow> dw_offerId offer = i \<and> offer_ok offer"
    and "inbox s a = map fst (filter (open_for a \<circ> snd) (mx_directWorkById s))"
  using assms jsm_get_in_set unfolding offer_inv_def by fastforce+

lemma offer_file:
  assumes inv: "offer_inv s" and fresh: "\<not> jsm_has (mx_directWorkById s) uuid"
  shows "offer_inv (fileOffer (newOffer uuid from to wt lang inp now) s)"
proof -
  let ?o = "newOffer uuid from to wt lang inp now"
  have ok: "offer_ok ?o" by (simp add: offer_ok_def newOffer_def)
  have "inbox (fileOffer ?o s) a = map fst (filter (open_for a \<circ> snd) (jsm_set uuid ?o (mx_directWorkById s)))" for a
  proof -
    have "inbox (fileOffer ?o s) a = inbox s a @ (if a = to then [uuid] else [])"
      by (simp add: inbox_def fileOffer_def newOffer_def jsm_get_set)
    moreover have "open_for a ?o \<longleftrightarrow> a = to" by (auto simp: open_for_def newOffer_def)
    ultimately show ?thesis using offer_invD(3) [OF inv, of a] by (simp add: filter_jsm_set_new [OF fresh])
  qed
  moreover have "mx_directWorkById (fileOffer ?o s) = jsm_set uuid ?o (mx_directWorkById s)" by (simp add: fileOffer_def newOffer_def)
  moreover have "\<forall>(i, offer) \<in> set (jsm_set uuid ?o (mx_directWorkById s)). dw_offerId offer = i \<and> offer_ok offer"
    by (rule jsm_set_all) (use inv ok in \<open>simp_all add: offer_inv_def newOffer_def\<close>)
  ultimately show ?thesis unfolding offer_inv_def using offer_invD(1) [OF inv] by simp
qed

lemma offer_write:
  assumes inv: "offer_inv s" and o: "jsm_get (mx_directWorkById s) i = Some offer"
    and o': "dw_offerId offer' = i" "offer_ok offer'" "dw_status offer' \<noteq> Offer_offered"
    and box: "\<And>a. inbox s' a = (if open_for a offer then filter (\<lambda>j. j \<noteq> i) (inbox s a) else inbox s a)"
    and tab: "mx_directWorkById s' = jsm_set i offer' (mx_directWorkById s)"
  shows "offer_inv s'"
proof -
  have wf: "jsm_wf (mx_directWorkById s)" by (rule offer_invD(1) [OF inv])
  have has: "jsm_has (mx_directWorkById s) i" using o by (simp add: jsm_has_iff)
  have "inbox s' a = map fst (filter (open_for a \<circ> snd) (jsm_set i offer' (mx_directWorkById s)))" for a
  proof -
    have n: "\<not> open_for a offer'" using o' by (simp add: open_for_def)
    have "inbox s' a = filter (\<lambda>j. j \<noteq> i) (inbox s a)"
      using box [of a] not_open_filter [OF wf o, of "open_for a"] offer_invD(3) [OF inv, of a] by auto
    then show ?thesis using filter_jsm_set_old [where P = "open_for a", OF wf has n] offer_invD(3) [OF inv, of a] by simp
  qed
  moreover have "\<forall>(i, offer) \<in> set (jsm_set i offer' (mx_directWorkById s)). dw_offerId offer = i \<and> offer_ok offer"
    by (rule jsm_set_all) (use inv o' in \<open>simp_all add: offer_inv_def\<close>)
  ultimately show ?thesis unfolding offer_inv_def using wf by (simp add: tab)
qed

section \<open>The routes as one machine\<close>

datatype am_op =
    Am_connect string string string ms
  | Am_accept string string ms
  | Am_relay string string string ms
  | Am_close string string string
  | Am_closeAck string string
  | Am_cleanup ms
  | Am_offer string string string WorkType "Language option" string ms
  | Am_request string string string string ms
  | Am_acceptWork string string ms
  | Am_resultWork string string bool string "string option" int ms
  | Am_handOver string

fun am_exec :: "MeshLimits \<Rightarrow> am_op \<Rightarrow> AgentMesh \<Rightarrow> AgentMesh \<times> MeshReply" where
  "am_exec cfg (Am_connect uuid from to now) s = connect uuid from to now s"
| "am_exec cfg (Am_accept a token now) s = acceptTunnel a token now s"
| "am_exec cfg (Am_relay token from payload now) s = relay cfg token from payload now s"
| "am_exec cfg (Am_close from token reason) s = closeTunnel from token reason s"
| "am_exec cfg (Am_closeAck a token) s = closeAck a token s"
| "am_exec cfg (Am_cleanup now) s = (fst (cleanupStaleTunnels cfg now s), Mesh_ok)"
| "am_exec cfg (Am_offer uuid from to wt lang inp now) s = offerDirectWork cfg uuid from to wt lang inp now s"
| "am_exec cfg (Am_request uuid from to prompt now) s = requestModel cfg uuid from to prompt now s"
| "am_exec cfg (Am_acceptWork i a now) s = acceptDirectWork i a now s"
| "am_exec cfg (Am_resultWork i a ok outp err d now) s = resultDirectWork i a ok outp err d now s"
| "am_exec cfg (Am_handOver a) s = (fst (handOver a s), Mesh_ok)"

text \<open>The ids drawn by an operation are new.\<close>

fun am_fresh :: "am_op \<Rightarrow> AgentMesh \<Rightarrow> bool" where
  "am_fresh (Am_connect uuid _ _ _) s = (\<not> jsm_has (mx_activeTunnels s) uuid \<and> uuid \<noteq> [])"
| "am_fresh (Am_offer uuid _ _ _ _ _ _) s = (\<not> jsm_has (mx_directWorkById s) uuid)"
| "am_fresh (Am_request uuid _ _ _ _) s = (\<not> jsm_has (mx_directWorkById s) uuid)"
| "am_fresh _ _ = True"

lemma tunnel_exec: "tunnel_inv s \<Longrightarrow> am_fresh op s \<Longrightarrow> tunnel_inv (fst (am_exec cfg op s))"
  by (cases op) (simp_all add: tunnel_connect tunnel_acceptTunnel tunnel_relay tunnel_closeTunnel tunnel_closeAck cleanup_exact(1)
    tunnel_offerDirectWork tunnel_requestModel tunnel_acceptDirectWork tunnel_resultDirectWork handOver_def tunnel_inv_cong)

text \<open>The operations other than the four of direct work leave the offers alone.\<close>

lemma offers_dropTunnel: "mx_directWorkById (fst (foldl (cleanupStep cfg now) (s, n) es)) = mx_directWorkById s \<and>
  mx_directWorkInbox (fst (foldl (cleanupStep cfg now) (s, n) es)) = mx_directWorkInbox s"
proof (induction es arbitrary: s n)
  case (Cons e es)
  obtain token t where e: "e = (token, t)" by fastforce
  show ?case using Cons.IH [of "dropTunnel token t s" "n + 1"] Cons.IH [of s n] by (simp add: e cleanupStep_eq)
qed simp

lemma offers_tunnel_ops:
  assumes "\<And>u f t w l i n. op \<noteq> Am_offer u f t w l i n" "\<And>u f t p n. op \<noteq> Am_request u f t p n"
    "\<And>i a n. op \<noteq> Am_acceptWork i a n" "\<And>i a ok outp e d n. op \<noteq> Am_resultWork i a ok outp e d n"
  shows "mx_directWorkById (fst (am_exec cfg op s)) = mx_directWorkById s \<and> mx_directWorkInbox (fst (am_exec cfg op s)) = mx_directWorkInbox s"
proof (cases op)
  case (Am_connect uuid f g now)
  obtain s1 blocked where ch: "checkEither now f g s = (s1, blocked)" by fastforce
  then obtain bl where "s1 = setBlacklist bl s" by (rule checkEither_cases)
  with ch Am_connect show ?thesis by (simp add: connect_def openTunnel_def Let_def split: option.split)
next
  case (Am_accept a token now)
  obtain s1 blocked where ch: "checkBlacklist now a s = (s1, blocked)" by fastforce
  then obtain bl where "s1 = setBlacklist bl s" by (rule check_cases)
  with ch Am_accept show ?thesis by (simp add: acceptTunnel_def split: option.split)
next
  case (Am_relay token f payload now)
  obtain s1 blocked where ch: "checkBlacklist now f s = (s1, blocked)" by fastforce
  then obtain bl where "s1 = setBlacklist bl s" by (rule check_cases)
  with ch Am_relay show ?thesis by (simp add: relay_def case_prod_beta Let_def split: option.split)
next
  case (Am_close f token reason)
  then show ?thesis by (simp add: closeTunnel_def Let_def split: option.split)
qed (use assms in \<open>simp_all add: closeAck_def handOver_def cleanupStaleTunnels_def offers_dropTunnel\<close>)

lemma offer_inv_windows [simp]: "offer_inv (s\<lparr> mx_offerWindowByAgent := w \<rparr>) = offer_inv s"
  by (auto elim!: offer_inv_cong)

lemma offer_offerDirectWork:
  assumes "offer_inv s0" "\<not> jsm_has (mx_directWorkById s0) uuid"
  shows "offer_inv (fst (offerDirectWork cfg uuid from to wt lang inp now s0))"
proof -
  obtain s blocked where ch: "checkEither now from to s0 = (s, blocked)" by fastforce
  then obtain bl where s: "s = setBlacklist bl s0" by (rule checkEither_cases)
  obtain ws allowed where w: "windowCount 10000 (DIRECT_WORK_OFFERS_PER_10S cfg) from now (mx_offerWindowByAgent s) = (ws, allowed)" by fastforce
  have inv: "offer_inv s" "offer_inv (s\<lparr> mx_offerWindowByAgent := ws \<rparr>)" "\<not> jsm_has (mx_directWorkById (s\<lparr> mx_offerWindowByAgent := ws \<rparr>)) uuid"
    using assms s by simp_all
  show ?thesis using ch w inv offer_file [OF inv(2) inv(3)] by (simp add: offerDirectWork_def Let_def)
qed

lemma offer_requestModel:
  assumes "offer_inv s0" "\<not> jsm_has (mx_directWorkById s0) uuid"
  shows "offer_inv (fst (requestModel cfg uuid from to prompt now s0))"
proof -
  obtain s blocked where ch: "checkEither now from to s0 = (s, blocked)" by fastforce
  then obtain bl where s: "s = setBlacklist bl s0" by (rule checkEither_cases)
  obtain ws allowed where w: "windowCount 10000 (DIRECT_WORK_OFFERS_PER_10S cfg) from now (mx_offerWindowByAgent s) = (ws, allowed)" by fastforce
  have inv: "offer_inv s" "offer_inv (s\<lparr> mx_offerWindowByAgent := ws \<rparr>)" "\<not> jsm_has (mx_directWorkById (s\<lparr> mx_offerWindowByAgent := ws \<rparr>)) uuid"
    using assms s by simp_all
  show ?thesis using ch w inv offer_file [OF inv(2) inv(3)] by (simp add: requestModel_def Let_def split: option.split)
qed

text \<open>How an operation can change an offer that is on file.\<close>

definition advances :: "am_op \<Rightarrow> DirectWorkOffer \<Rightarrow> DirectWorkOffer \<Rightarrow> bool" where
  "advances op offer offer' \<longleftrightarrow>
     (\<exists>now. op = Am_acceptWork (dw_offerId offer) (dw_toAgentId offer) now \<and> dw_status offer = Offer_offered \<and>
        offer' = offer\<lparr> dw_status := Offer_accepted, dw_acceptedBy := Some (dw_toAgentId offer), dw_acceptedAtMs := Some now \<rparr>) \<or>
     (\<exists>ok outp err d now. op = Am_resultWork (dw_offerId offer) (dw_toAgentId offer) ok outp err d now \<and> dw_status offer = Offer_accepted \<and>
        offer' = offer\<lparr> dw_status := Offer_completed, dw_result := Some \<lparr> dr_ok = ok, dr_output = outp, dr_error = err,
          dr_durationMs = d, dr_completedAtMs = now \<rparr> \<rparr>)"

lemma acceptDirectWork_effect:
  assumes inv: "offer_inv s0"
  obtains (same) bl where "fst (acceptDirectWork i a now s0) = setBlacklist bl s0"
  | (accepted) bl offer offer' where "jsm_get (mx_directWorkById s0) i = Some offer" "advances (Am_acceptWork i a now) offer offer'"
      "fst (acceptDirectWork i a now s0) = (setBlacklist bl s0)\<lparr> mx_directWorkById := jsm_set i offer' (mx_directWorkById s0),
         mx_directWorkInbox := jsm_set a (filter (\<lambda>j. j \<noteq> i) (inbox s0 a)) (mx_directWorkInbox s0) \<rparr>"
proof -
  obtain s blocked where ch: "checkBlacklist now a s0 = (s, blocked)" by fastforce
  then obtain bl where s: "s = setBlacklist bl s0" by (rule check_cases)
  show ?thesis
  proof (cases "\<not> blocked \<and> (\<exists>offer. jsm_get (mx_directWorkById s0) i = Some offer \<and> dw_toAgentId offer = a \<and> dw_status offer = Offer_offered)")
    case True
    then obtain offer where o: "jsm_get (mx_directWorkById s0) i = Some offer" "dw_toAgentId offer = a" "dw_status offer = Offer_offered" by blast
    have "dw_offerId offer = i" using offer_invD(2) [OF inv o(1)] by simp
    with o have "advances (Am_acceptWork i a now) offer (offer\<lparr> dw_status := Offer_accepted, dw_acceptedBy := Some a, dw_acceptedAtMs := Some now \<rparr>)"
      by (simp add: advances_def)
    from accepted [OF o(1) this, of bl] True o ch s show ?thesis by (simp add: acceptDirectWork_def inbox_def Let_def)
  next
    case False
    then have "fst (acceptDirectWork i a now s0) = s" using ch s by (auto simp: acceptDirectWork_def split: option.split)
    with s show ?thesis by (intro same) simp
  qed
qed

lemma resultDirectWork_effect:
  assumes inv: "offer_inv s0"
  obtains (same) bl where "fst (resultDirectWork i a ok outp err d now s0) = setBlacklist bl s0"
  | (completed) bl offer offer' where "jsm_get (mx_directWorkById s0) i = Some offer" "advances (Am_resultWork i a ok outp err d now) offer offer'"
      "fst (resultDirectWork i a ok outp err d now s0) = (setBlacklist bl s0)\<lparr> mx_directWorkById := jsm_set i offer' (mx_directWorkById s0) \<rparr>"
proof -
  obtain s blocked where ch: "checkBlacklist now a s0 = (s, blocked)" by fastforce
  then obtain bl where s: "s = setBlacklist bl s0" by (rule check_cases)
  show ?thesis
  proof (cases "\<not> blocked \<and> (\<exists>offer. jsm_get (mx_directWorkById s0) i = Some offer \<and> dw_toAgentId offer = a \<and> dw_status offer = Offer_accepted)")
    case True
    then obtain offer where o: "jsm_get (mx_directWorkById s0) i = Some offer" "dw_toAgentId offer = a" "dw_status offer = Offer_accepted" by blast
    have "dw_offerId offer = i" using offer_invD(2) [OF inv o(1)] by simp
    with o have "advances (Am_resultWork i a ok outp err d now) offer (offer\<lparr> dw_status := Offer_completed, dw_result := Some \<lparr> dr_ok = ok,
        dr_output = outp, dr_error = err, dr_durationMs = d, dr_completedAtMs = now \<rparr> \<rparr>)"
      by (simp add: advances_def)
    from completed [OF o(1) this, of bl] True o ch s show ?thesis by (simp add: resultDirectWork_def)
  next
    case False
    then have "fst (resultDirectWork i a ok outp err d now s0) = s" using ch s by (auto simp: resultDirectWork_def split: option.split)
    with s show ?thesis by (intro same) simp
  qed
qed

lemma advances_facts:
  "advances op offer offer' \<Longrightarrow> dw_offerId offer' = dw_offerId offer \<and> dw_fromAgentId offer' = dw_fromAgentId offer \<and>
     dw_toAgentId offer' = dw_toAgentId offer \<and> dw_workType offer' = dw_workType offer \<and> dw_language offer' = dw_language offer \<and>
     dw_input offer' = dw_input offer \<and> dw_createdAtMs offer' = dw_createdAtMs offer \<and> dw_status offer' \<noteq> Offer_offered \<and>
     dw_status offer \<noteq> Offer_completed"
  by (auto simp: advances_def)

lemma advances_ok: "advances op offer offer' \<Longrightarrow> offer_ok offer \<Longrightarrow> offer_ok offer'"
  by (auto simp: advances_def offer_ok_def)

lemma offer_acceptDirectWork:
  assumes inv: "offer_inv s"
  shows "offer_inv (fst (acceptDirectWork i a now s))"
proof (rule acceptDirectWork_effect [OF inv, of i a now], goal_cases)
  case (1 bl)
  then show ?thesis using inv by simp
next
  case accepted: (2 bl offer offer')
  have a: "dw_toAgentId offer = a" "dw_status offer = Offer_offered" "dw_offerId offer = i" using accepted(2) by (auto simp: advances_def)
  note f = advances_facts [OF accepted(2)]
  show ?thesis
    by (rule offer_write [OF inv accepted(1), of offer'])
      (use a f accepted(3) advances_ok [OF accepted(2)] offer_invD(2) [OF inv accepted(1)] in \<open>auto simp: inbox_def open_for_def jsm_get_set\<close>)
qed

lemma offer_resultDirectWork:
  assumes inv: "offer_inv s"
  shows "offer_inv (fst (resultDirectWork i a ok outp err d now s))"
proof (rule resultDirectWork_effect [OF inv, of i a ok outp err d now], goal_cases)
  case (1 bl)
  then show ?thesis using inv by simp
next
  case completed: (2 bl offer offer')
  have a: "dw_status offer = Offer_accepted" "dw_offerId offer = i" using completed(2) by (auto simp: advances_def)
  note f = advances_facts [OF completed(2)]
  show ?thesis
    by (rule offer_write [OF inv completed(1), of offer'])
      (use a f completed(3) advances_ok [OF completed(2)] offer_invD(2) [OF inv completed(1)] in \<open>auto simp: inbox_def open_for_def\<close>)
qed

lemma offer_exec:
  assumes "offer_inv s" "am_fresh op s"
  shows "offer_inv (fst (am_exec cfg op s))"
proof (cases op)
  case Am_offer
  then show ?thesis using assms by (simp add: offer_offerDirectWork)
next
  case Am_request
  then show ?thesis using assms by (simp add: offer_requestModel)
next
  case Am_acceptWork
  then show ?thesis using assms by (simp add: offer_acceptDirectWork)
next
  case Am_resultWork
  then show ?thesis using assms by (simp add: offer_resultDirectWork)
qed (use offers_tunnel_ops [of op cfg s] in \<open>auto intro: offer_inv_cong [OF assms(1)]\<close>)

lemma offer_keep_filed:
  assumes "\<not> jsm_has (mx_directWorkById s0) uuid" "jsm_get (mx_directWorkById s0) i = Some offer"
  shows "jsm_get (mx_directWorkById (fst (offerDirectWork cfg uuid from to wt lang inp now s0))) i = Some offer"
    and "jsm_get (mx_directWorkById (fst (requestModel cfg uuid from to prompt now s0))) i = Some offer"
proof -
  obtain s blocked where ch: "checkEither now from to s0 = (s, blocked)" by fastforce
  then obtain bl where s: "s = setBlacklist bl s0" by (rule checkEither_cases)
  have i: "i \<noteq> uuid" using assms by (auto simp: jsm_has_iff)
  show "jsm_get (mx_directWorkById (fst (offerDirectWork cfg uuid from to wt lang inp now s0))) i = Some offer"
    using ch s i assms(2) by (simp add: offerDirectWork_def case_prod_beta Let_def fileOffer_def newOffer_def jsm_get_set)
  show "jsm_get (mx_directWorkById (fst (requestModel cfg uuid from to prompt now s0))) i = Some offer"
    using ch s i assms(2) by (simp add: requestModel_def case_prod_beta Let_def fileOffer_def newOffer_def jsm_get_set split: option.split)
qed

lemma offer_step:
  assumes inv: "offer_inv s" and fresh: "am_fresh op s" and o: "jsm_get (mx_directWorkById s) i = Some offer"
  shows "\<exists>offer'. jsm_get (mx_directWorkById (fst (am_exec cfg op s))) i = Some offer' \<and> (offer' = offer \<or> advances op offer offer')"
proof (cases op)
  case Am_offer
  then show ?thesis using fresh offer_keep_filed(1) [OF _ o] by simp
next
  case Am_request
  then show ?thesis using fresh offer_keep_filed(2) [OF _ o] by simp
next
  case op: (Am_acceptWork j a now)
  show ?thesis
  proof (rule acceptDirectWork_effect [OF inv, of j a now], goal_cases)
    case (1 bl)
    then show ?case using op o by simp
  next
    case (2 bl offer1 offer')
    then show ?case using op o by (cases "i = j") (auto simp: jsm_get_set)
  qed
next
  case op: (Am_resultWork j a ok outp err d now)
  show ?thesis
  proof (rule resultDirectWork_effect [OF inv, of j a ok outp err d now], goal_cases)
    case (1 bl)
    then show ?case using op o by simp
  next
    case (2 bl offer1 offer')
    then show ?case using op o by (cases "i = j") (auto simp: jsm_get_set)
  qed
qed (use o offers_tunnel_ops [of op cfg s] in auto)

text \<open>
  Runs of the routes, interleaved with everything else the coordinator does. Of the rest it is only assumed that it neither
  drops an agent nor touches its links (the other handlers are shown to comply). The trace lists the calls with their answers.
\<close>

definition keeps_links :: "Federation \<Rightarrow> Federation \<Rightarrow> bool" where
  "keeps_links fed fed' \<longleftrightarrow> (\<forall>a.
     (case jsm_get (fd_agentCapabilities fed) a of
        None \<Rightarrow> (\<forall>c. jsm_get (fd_agentCapabilities fed') a = Some c \<longrightarrow> ag_connectedPeers c = [])
      | Some c \<Rightarrow> (\<exists>c'. jsm_get (fd_agentCapabilities fed') a = Some c' \<and> ag_connectedPeers c' = ag_connectedPeers c)))"

inductive am_steps :: "MeshLimits \<Rightarrow> AgentMesh \<Rightarrow> (am_op \<times> MeshReply) list \<Rightarrow> AgentMesh \<Rightarrow> bool" for cfg s where
  am_refl: "am_steps cfg s [] s"
| am_route: "am_steps cfg s tr s' \<Longrightarrow> am_fresh op s' \<Longrightarrow>
    am_steps cfg s (tr @ [(op, snd (am_exec cfg op s'))]) (fst (am_exec cfg op s'))"
| am_rest: "am_steps cfg s tr s' \<Longrightarrow> keeps_links (mx_fed s') fed \<Longrightarrow> am_steps cfg s tr (s'\<lparr> mx_fed := fed \<rparr>)"

lemma peered_rest: "keeps_links (mx_fed s) fed \<Longrightarrow> peered (s\<lparr> mx_fed := fed \<rparr>) a b = peered s a b"
  by (cases "jsm_get (mx_caps s) a") (force simp: keeps_links_def peered_def split: option.splits)+

lemma registered_rest: "keeps_links (mx_fed s) fed \<Longrightarrow> jsm_has (mx_caps s) a \<Longrightarrow> jsm_has (fd_agentCapabilities fed) a"
  by (force simp: keeps_links_def jsm_has_iff split: option.splits)

lemma tunnel_rest:
  assumes inv: "tunnel_inv s" and rest: "keeps_links (mx_fed s) fed"
  shows "tunnel_inv (s\<lparr> mx_fed := fed \<rparr>)"
proof (rule tunnel_invI, goal_cases)
  case (3 token t)
  then show ?case using tunnel_invD(3) [OF inv] registered_rest [OF rest] by simp
qed (use tunnel_invD [OF inv] rest in \<open>simp_all add: peered_rest\<close>)

lemma offer_rest: "offer_inv s \<Longrightarrow> offer_inv (s\<lparr> mx_fed := fed \<rparr>)"
  by (erule offer_inv_cong) simp_all

lemma am_steps_inv:
  assumes "am_steps cfg s tr s'" "tunnel_inv s" "offer_inv s"
  shows "tunnel_inv s' \<and> offer_inv s'"
  using assms by induction (simp_all add: tunnel_exec offer_exec tunnel_rest offer_rest)

lemma new_mesh_inv: "fd_agentCapabilities fed = [] \<Longrightarrow> tunnel_inv (newAgentMesh fed) \<and> offer_inv (newAgentMesh fed)"
  by (simp add: tunnel_inv_def offer_inv_def newAgentMesh_def peered_def inbox_def)

section \<open>Properties\<close>

text \<open>
  C7: Every state of the tunnel and direct work tables that the routes can reach, interleaved in any order with the rest of
  the coordinator, is consistent: tunnels and the index of agent pairs correspond one to one, both ends of a tunnel are
  registered, two agents are shown as connected symmetrically and only while a tunnel joins them, every offer is filed
  under its id in a well-formed stage, and the inbox a heartbeat reads lists exactly the open offers of its agent.
\<close>

theorem agent_mesh_invariant:
  assumes "am_steps cfg (newAgentMesh fed) tr s" "fd_agentCapabilities fed = []"
  shows "tunnel_inv s \<and> offer_inv s"
  using am_steps_inv [OF assms(1)] new_mesh_inv [OF assms(2)] by simp

text \<open>The stage of an offer after a run, and the calls that moved it there.\<close>

definition accepted_in :: "DirectWorkOffer \<Rightarrow> (am_op \<times> MeshReply) list \<Rightarrow> DirectWorkOffer \<Rightarrow> bool" where
  "accepted_in offer tr offer' \<longleftrightarrow> (\<exists>now. Am_acceptWork (dw_offerId offer) (dw_toAgentId offer) now \<in> fst ` set tr \<and>
     dw_acceptedBy offer' = Some (dw_toAgentId offer) \<and> dw_acceptedAtMs offer' = Some now)"

definition completed_in :: "DirectWorkOffer \<Rightarrow> (am_op \<times> MeshReply) list \<Rightarrow> DirectWorkOffer \<Rightarrow> bool" where
  "completed_in offer tr offer' \<longleftrightarrow> (\<exists>ok outp err d now.
     Am_resultWork (dw_offerId offer) (dw_toAgentId offer) ok outp err d now \<in> fst ` set tr \<and>
     dw_result offer' = Some \<lparr> dr_ok = ok, dr_output = outp, dr_error = err, dr_durationMs = d, dr_completedAtMs = now \<rparr>)"

definition same_work :: "DirectWorkOffer \<Rightarrow> DirectWorkOffer \<Rightarrow> bool" where
  "same_work offer offer' \<longleftrightarrow> dw_offerId offer' = dw_offerId offer \<and> dw_fromAgentId offer' = dw_fromAgentId offer \<and>
     dw_toAgentId offer' = dw_toAgentId offer \<and> dw_workType offer' = dw_workType offer \<and> dw_language offer' = dw_language offer \<and>
     dw_input offer' = dw_input offer \<and> dw_createdAtMs offer' = dw_createdAtMs offer"

definition follows :: "DirectWorkOffer \<Rightarrow> (am_op \<times> MeshReply) list \<Rightarrow> DirectWorkOffer \<Rightarrow> bool" where
  "follows offer tr offer' \<longleftrightarrow> same_work offer offer' \<and>
     (dw_status offer = Offer_completed \<longrightarrow> offer' = offer) \<and>
     (dw_status offer = Offer_accepted \<longrightarrow> offer' = offer \<or> (dw_status offer' = Offer_completed \<and> completed_in offer tr offer')) \<and>
     (dw_status offer = Offer_offered \<longrightarrow> offer' = offer \<or> (dw_status offer' = Offer_accepted \<and> accepted_in offer tr offer') \<or>
        (dw_status offer' = Offer_completed \<and> accepted_in offer tr offer' \<and> completed_in offer tr offer'))"

lemma follows_refl: "follows offer tr offer"
  by (simp add: follows_def same_work_def)

lemma follows_mono:
  assumes "follows offer tr offer'"
  shows "follows offer (tr @ tr') offer'"
proof -
  have "accepted_in offer tr offer' \<Longrightarrow> accepted_in offer (tr @ tr') offer'" "completed_in offer tr offer' \<Longrightarrow> completed_in offer (tr @ tr') offer'"
    unfolding accepted_in_def completed_in_def set_append image_Un by blast+
  then show ?thesis using assms unfolding follows_def by blast
qed

lemma follows_step:
  assumes f: "follows offer tr o1" and a: "advances op o1 o2" and ok: "offer_ok offer" and r: "dw_status offer \<noteq> Offer_rejected"
  shows "follows offer (tr @ [(op, reply)]) o2"
proof -
  have w: "same_work offer o1" using f by (simp add: follows_def)
  have w2: "same_work offer o2" using w advances_facts [OF a] by (simp add: same_work_def)
  from a consider (acc) now where "op = Am_acceptWork (dw_offerId o1) (dw_toAgentId o1) now" "dw_status o1 = Offer_offered"
      "o2 = o1\<lparr> dw_status := Offer_accepted, dw_acceptedBy := Some (dw_toAgentId o1), dw_acceptedAtMs := Some now \<rparr>"
    | (res) ok outp err d now where "op = Am_resultWork (dw_offerId o1) (dw_toAgentId o1) ok outp err d now" "dw_status o1 = Offer_accepted"
      "o2 = o1\<lparr> dw_status := Offer_completed, dw_result := Some \<lparr> dr_ok = ok, dr_output = outp, dr_error = err,
          dr_durationMs = d, dr_completedAtMs = now \<rparr> \<rparr>"
    unfolding advances_def by blast
  then show ?thesis
  proof cases
    case acc
    have "dw_status offer = Offer_offered" "o1 = offer" using f acc(2) r by (cases "dw_status offer"; force simp: follows_def)+
    then show ?thesis using acc w2 by (simp add: follows_def accepted_in_def)
  next
    case res
    have c: "completed_in offer (tr @ [(op, reply)]) o2"
      unfolding completed_in_def using res w by (auto simp: same_work_def)
    have "(dw_status offer = Offer_accepted \<and> o1 = offer) \<or> (dw_status offer = Offer_offered \<and> accepted_in offer tr o1)"
      using f res(2) r by (cases "dw_status offer") (force simp: follows_def)+
    moreover have "accepted_in offer tr o1 \<Longrightarrow> accepted_in offer (tr @ [(op, reply)]) o2"
      using res by (auto simp: accepted_in_def)
    ultimately show ?thesis using res w2 c by (auto simp: follows_def)
  qed
qed

lemma offer_run:
  assumes "am_steps cfg s tr s'" "offer_inv s" "jsm_get (mx_directWorkById s) i = Some offer"
  shows "offer_inv s' \<and> (\<exists>offer'. jsm_get (mx_directWorkById s') i = Some offer' \<and> follows offer tr offer')"
  using assms(1)
proof induction
  case am_refl
  then show ?case using assms by (auto intro: follows_refl)
next
  case (am_route tr s' op)
  then obtain o1 where o1: "jsm_get (mx_directWorkById s') i = Some o1" "follows offer tr o1" and inv: "offer_inv s'" by blast
  have ok: "offer_ok offer" using offer_invD(2) [OF assms(2) assms(3)] by simp
  then have r: "dw_status offer \<noteq> Offer_rejected" by (auto simp: offer_ok_def)
  from offer_step [OF inv am_route.hyps(2) o1(1), of cfg] obtain o2 where
    o2: "jsm_get (mx_directWorkById (fst (am_exec cfg op s'))) i = Some o2" "o2 = o1 \<or> advances op o1 o2" by blast
  then have "follows offer (tr @ [(op, snd (am_exec cfg op s'))]) o2"
    using follows_mono [OF o1(2)] follows_step [OF o1(2) _ ok r] by blast
  with o2 offer_exec [OF inv am_route.hyps(2)] show ?case by blast
next
  case (am_rest tr s' fed)
  then show ?case using offer_rest by auto
qed

text \<open>
  C11: The life cycle of direct work. Over any run, an offer that is on file stays on file with its sender, target, kind, input
  and time; it moves only from offered to accepted to completed; it is accepted only by a call in the name of its
  target, and its result is the one that such a call delivered after the acceptance. A completed offer never changes
  again, so a result is recorded at most once.
\<close>

theorem direct_work_lifecycle:
  assumes "am_steps cfg s tr s'" "offer_inv s" "jsm_get (mx_directWorkById s) i = Some offer"
  shows "\<exists>offer'. jsm_get (mx_directWorkById s') i = Some offer' \<and> same_work offer offer' \<and>
    (dw_status offer = Offer_completed \<longrightarrow> offer' = offer) \<and>
    (dw_status offer = Offer_accepted \<longrightarrow> offer' = offer \<or> (dw_status offer' = Offer_completed \<and> completed_in offer tr offer')) \<and>
    (dw_status offer = Offer_offered \<longrightarrow> offer' = offer \<or> (dw_status offer' = Offer_accepted \<and> accepted_in offer tr offer') \<or>
       (dw_status offer' = Offer_completed \<and> accepted_in offer tr offer' \<and> completed_in offer tr offer'))"
  using offer_run [OF assms] unfolding follows_def by blast

section \<open>The relay limit\<close>

lemma cleanup_windows: "mx_relayWindowByAgent (fst (foldl (cleanupStep cfg now) (s, n) es)) = mx_relayWindowByAgent s"
proof (induction es arbitrary: s n)
  case (Cons e es)
  obtain token t where e: "e = (token, t)" by fastforce
  show ?case using Cons.IH [of "dropTunnel token t s" "n + 1"] Cons.IH [of s n] by (simp add: e cleanupStep_eq)
qed simp

lemma windows_other_ops:
  assumes "\<And>k f p t. op \<noteq> Am_relay k f p t"
  shows "mx_relayWindowByAgent (fst (am_exec cfg op s)) = mx_relayWindowByAgent s"
proof (cases op)
  case (Am_connect uuid f g now)
  obtain s1 blocked where ch: "checkEither now f g s = (s1, blocked)" by fastforce
  then obtain bl where "s1 = setBlacklist bl s" by (rule checkEither_cases)
  with ch Am_connect show ?thesis by (simp add: connect_def openTunnel_def Let_def split: option.split)
next
  case (Am_accept a token now)
  obtain s1 blocked where ch: "checkBlacklist now a s = (s1, blocked)" by fastforce
  then obtain bl where "s1 = setBlacklist bl s" by (rule check_cases)
  with ch Am_accept show ?thesis by (simp add: acceptTunnel_def split: option.split)
next
  case (Am_close f token reason)
  then show ?thesis by (simp add: closeTunnel_def Let_def split: option.split)
next
  case (Am_offer uuid f g wt lang inp now)
  obtain s1 blocked where ch: "checkEither now f g s = (s1, blocked)" by fastforce
  then obtain bl where "s1 = setBlacklist bl s" by (rule checkEither_cases)
  with ch Am_offer show ?thesis by (simp add: offerDirectWork_def fileOffer_def case_prod_beta Let_def)
next
  case (Am_request uuid f g prompt now)
  obtain s1 blocked where ch: "checkEither now f g s = (s1, blocked)" by fastforce
  then obtain bl where "s1 = setBlacklist bl s" by (rule checkEither_cases)
  with ch Am_request show ?thesis by (simp add: requestModel_def fileOffer_def case_prod_beta Let_def split: option.split)
next
  case (Am_acceptWork i a now)
  obtain s1 blocked where ch: "checkBlacklist now a s = (s1, blocked)" by fastforce
  then obtain bl where "s1 = setBlacklist bl s" by (rule check_cases)
  with ch Am_acceptWork show ?thesis by (simp add: acceptDirectWork_def Let_def split: option.split)
next
  case (Am_resultWork i a ok outp err d now)
  obtain s1 blocked where ch: "checkBlacklist now a s = (s1, blocked)" by fastforce
  then obtain bl where "s1 = setBlacklist bl s" by (rule check_cases)
  with ch Am_resultWork show ?thesis by (simp add: resultDirectWork_def split: option.split)
qed (use assms in \<open>simp_all add: closeAck_def handOver_def cleanupStaleTunnels_def cleanup_windows\<close>)

lemma relay_windows:
  obtains (refused) code why where "mx_relayWindowByAgent (fst (relay cfg token f payload now s)) = mx_relayWindowByAgent s"
    "snd (relay cfg token f payload now s) = Refused code why"
  | (counted) ws allowed where "windowCount 10000 (RELAY_RATE_LIMIT_PER_10S cfg) f now (mx_relayWindowByAgent s) = (ws, allowed)"
    "mx_relayWindowByAgent (fst (relay cfg token f payload now s)) = ws"
    "\<And>n. snd (relay cfg token f payload now s) = Tunnel_relayed n \<Longrightarrow> allowed"
proof -
  obtain s1 blocked where ch: "checkBlacklist now f s = (s1, blocked)" by fastforce
  then obtain bl where s1: "s1 = setBlacklist bl s" by (rule check_cases)
  obtain ws allowed where w: "windowCount 10000 (RELAY_RATE_LIMIT_PER_10S cfg) f now (mx_relayWindowByAgent s) = (ws, allowed)" by fastforce
  let ?r = "relay cfg token f payload now s"
  have r1: "?r = (s1, Refused 403 ''agent_blacklisted'')" if "blocked" using ch that by (simp add: relay_def)
  have r2: "?r = (s1, Refused 404 ''tunnel_not_found'')" if "\<not> blocked" "jsm_get (mx_activeTunnels s) token = None"
    using ch s1 that by (simp add: relay_def)
  have r3: "\<exists>code why. ?r = (s1, Refused code why)"
    if "\<not> blocked" "jsm_get (mx_activeTunnels s) token = Some t" "(tn_fromAgentId t \<noteq> f \<and> tn_toAgentId t \<noteq> f) \<or> length payload > 16384" for t
    using that(3)
  proof
    assume "tn_fromAgentId t \<noteq> f \<and> tn_toAgentId t \<noteq> f"
    then show ?thesis using ch s1 that(1,2) by (simp add: relay_def)
  next
    assume "length payload > 16384"
    then show ?thesis using ch s1 that(1,2) by (simp add: relay_def)
  qed
  show ?thesis
  proof (cases "\<exists>code why. ?r = (s1, Refused code why)")
    case True
    then show ?thesis using refused s1 by force
  next
    case False
    then have nb: "\<not> blocked" using r1 by blast
    with False obtain t where t: "jsm_get (mx_activeTunnels s) token = Some t" using r2 by blast
    with False nb have "tn_fromAgentId t = f \<or> tn_toAgentId t = f" "length payload \<le> 16384" using r3 [OF nb t] by force+
    with nb t show ?thesis using ch s1 w by (intro counted [OF w]) (auto simp: relay_def Let_def split: if_splits)
  qed
qed

definition window_start :: "ms \<Rightarrow> ms" where
  "window_start now = now - now mod 10000"

lemma window_start_mono: "t \<le> t' \<Longrightarrow> window_start t \<le> window_start t'"
  unfolding window_start_def by (metis minus_mod_eq_mult_div zdiv_mono1 mult_left_mono zero_le_numeral zero_less_numeral)

fun relay_accepted :: "string \<Rightarrow> ms \<Rightarrow> am_op \<times> MeshReply \<Rightarrow> bool" where
  "relay_accepted a w (Am_relay _ f _ now, Tunnel_relayed _) = (f = a \<and> window_start now = w)"
| "relay_accepted a w _ = False"

fun relay_time :: "string \<Rightarrow> am_op \<times> MeshReply \<Rightarrow> ms option" where
  "relay_time a (Am_relay _ f _ now, _) = (if f = a then Some now else None)"
| "relay_time a _ = None"

definition relays_in :: "string \<Rightarrow> ms \<Rightarrow> (am_op \<times> MeshReply) list \<Rightarrow> nat" where
  "relays_in a w tr = length (filter (relay_accepted a w) tr)"

definition relay_times :: "string \<Rightarrow> (am_op \<times> MeshReply) list \<Rightarrow> ms list" where
  "relay_times a tr = List.map_filter (relay_time a) tr"

text \<open>What the window of an agent says about the relays counted in the window \<open>w\<close> so far.\<close>

definition window_ok :: "nat \<Rightarrow> ms \<Rightarrow> ms list \<Rightarrow> nat \<Rightarrow> (ms \<times> nat) option \<Rightarrow> bool" where
  "window_ok m w ts n e \<longleftrightarrow> n \<le> m \<and>
     (n > 0 \<longrightarrow> (\<exists>w' c. e = Some (w', c) \<and> (\<exists>t \<in> set ts. w' = window_start t) \<and> (w' = w \<and> n \<le> c \<or> w < w')))"

lemma window_ok_later: "window_ok m w ts n e \<Longrightarrow> set ts \<subseteq> set ts' \<Longrightarrow> window_ok m w ts' n e"
  unfolding window_ok_def by blast

lemma window_ok_count:
  assumes ok: "window_ok (max 1 lim0) w ts n (jsm_get m a)" and le: "\<forall>t \<in> set ts. t \<le> now"
    and wc: "windowCount 10000 lim0 a now m = (ws, allowed)" and acc: "acc \<Longrightarrow> allowed \<and> window_start now = w"
  shows "window_ok (max 1 lim0) w (ts @ [now]) (if acc then Suc n else n) (jsm_get ws a)"
proof -
  let ?st = "window_start now"
  have reset: "jsm_get ws a = Some (?st, 1) \<and> allowed" if "\<And>c. jsm_get m a \<noteq> Some (?st, c)"
  proof (cases "jsm_get m a")
    case None
    then show ?thesis using wc by (auto simp: windowCount_def window_start_def Let_def jsm_get_set)
  next
    case (Some e)
    then have "fst e \<noteq> ?st" using that [of "snd e"] by (cases e) auto
    then show ?thesis using wc Some by (cases e) (auto simp: windowCount_def window_start_def Let_def jsm_get_set)
  qed
  have bump: "jsm_get ws a = Some (?st, Suc c) \<and> (allowed \<longrightarrow> Suc c \<le> lim0)" if "jsm_get m a = Some (?st, c)" for c
    using wc that by (auto simp: windowCount_def window_start_def Let_def jsm_get_set)
  have past: "w' \<le> ?st" if "n > 0" "jsm_get m a = Some (w', c)" for w' c
    using ok that le window_start_mono unfolding window_ok_def by fastforce
  show ?thesis
  proof (cases "\<exists>c. jsm_get m a = Some (?st, c)")
    case True
    then obtain c where c: "jsm_get m a = Some (?st, c)" by blast
    show ?thesis using ok bump [OF c] acc c unfolding window_ok_def by (cases "n = 0") fastforce+
  next
    case False
    then have r: "jsm_get ws a = Some (?st, 1)" using reset by blast
    show ?thesis
    proof (cases "n = 0")
      case True
      then show ?thesis using r acc unfolding window_ok_def by force
    next
      case n: False
      then obtain w' c where e: "jsm_get m a = Some (w', c)" "w' = w \<or> w < w'" using ok unfolding window_ok_def by blast
      then have "w < ?st" using past [OF _ e(1)] n False by fastforce
      then show ?thesis using ok r acc n unfolding window_ok_def by force
    qed
  qed
qed

lemma relays_in_snoc: "relays_in a w (tr @ [e]) = (if relay_accepted a w e then Suc (relays_in a w tr) else relays_in a w tr)"
  by (simp add: relays_in_def)

lemma relay_times_snoc:
  "relay_times a (tr @ [e]) = relay_times a tr @ (case relay_time a e of None \<Rightarrow> [] | Some t \<Rightarrow> [t])"
  by (simp add: relay_times_def map_filter_def split: option.split)

lemma windowCount_other: "a \<noteq> f \<Longrightarrow> jsm_get (fst (windowCount width limit f now m)) a = jsm_get m a"
  by (simp add: windowCount_def Let_def jsm_get_set split: option.splits prod.splits)

lemma window_run:
  assumes "am_steps cfg s tr s'" "sorted (relay_times a tr)"
  shows "window_ok (max 1 (RELAY_RATE_LIMIT_PER_10S cfg)) w (relay_times a tr) (relays_in a w tr) (jsm_get (mx_relayWindowByAgent s') a)"
  using assms
proof induction
  case am_refl
  then show ?case by (simp add: window_ok_def relays_in_def)
next
  case (am_route tr s' op)
  let ?e = "(op, snd (am_exec cfg op s'))"
  have srt: "sorted (relay_times a tr)" using am_route.prems by (simp add: relay_times_snoc sorted_append)
  note IH = am_route.IH [OF srt]
  show ?case
  proof (cases "\<exists>k p t. op = Am_relay k a p t")
    case True
    then obtain k p t where op: "op = Am_relay k a p t" by blast
    have le: "\<forall>u \<in> set (relay_times a tr). u \<le> t" using am_route.prems by (simp add: relay_times_snoc op sorted_append)
    show ?thesis
    proof (rule relay_windows [of cfg k a p t s'], goal_cases)
      case (1 code why)
      then have "\<not> relay_accepted a w ?e" by (simp add: op)
      moreover have "set (relay_times a tr) \<subseteq> set (relay_times a tr @ [t])" by auto
      ultimately show ?case using 1 window_ok_later [OF IH] by (simp add: relays_in_snoc relay_times_snoc op)
    next
      case (2 ws allowed)
      let ?acc = "relay_accepted a w (Am_relay k a p t, snd (relay cfg k a p t s'))"
      have "?acc \<Longrightarrow> allowed \<and> window_start t = w"
        using 2(3) by (cases "snd (relay cfg k a p t s')") simp_all
      from window_ok_count [where acc = ?acc, OF IH le 2(1) this] show ?case using 2(2) by (simp add: relays_in_snoc relay_times_snoc op)
    qed
  next
    case False
    have "relay_times a (tr @ [?e]) = relay_times a tr" using False by (cases op) (simp_all add: relay_times_snoc)
    moreover have "\<not> relay_accepted a w ?e" using False by (cases op; cases "snd (am_exec cfg op s')") simp_all
    moreover have "jsm_get (mx_relayWindowByAgent (fst (am_exec cfg op s'))) a = jsm_get (mx_relayWindowByAgent s') a"
    proof (cases "\<exists>k f p t. op = Am_relay k f p t")
      case True
      then obtain k f p t where op: "op = Am_relay k f p t" by blast
      with False have "a \<noteq> f" by blast
      show ?thesis
      proof (rule relay_windows [of cfg k f p t s'], goal_cases)
        case (1 code why)
        then show ?case by (simp add: op)
      next
        case (2 ws allowed)
        then show ?case using windowCount_other [OF \<open>a \<noteq> f\<close>, of 10000 "RELAY_RATE_LIMIT_PER_10S cfg" t "mx_relayWindowByAgent s'"] by (simp add: op)
      qed
    qed (use windows_other_ops in force)
    ultimately show ?thesis using IH by (simp add: relays_in_snoc)
  qed
next
  case (am_rest tr s' fed)
  then show ?case by simp
qed

text \<open>
  The relay limit. In any run in which the clock does not run backwards, the messages of one agent that the relay
  accepts within a ten-second window, over all its tunnels, are at most \<open>RELAY_RATE_LIMIT_PER_10S\<close> (at least one is
  always admitted).
\<close>

theorem relay_rate_bound:
  assumes "am_steps cfg s tr s'" "sorted (relay_times a tr)"
  shows "relays_in a w tr \<le> max 1 (RELAY_RATE_LIMIT_PER_10S cfg)"
  using window_run [OF assms] unfolding window_ok_def by blast

text \<open>
  The key of a pair is not injective: agent ids that contain the separator give two pairs the same key. The second pair is
  then answered with the token of the first, and its relays are refused.
\<close>

lemma pair_keys_collide: "pairKey ''a::b'' ''c'' = pairKey ''a'' ''b::c''"
  by (simp add: pairKey_def)

definition ex_capability :: AgentCapability where
  "ex_capability = \<lparr> ag_os = ''linux'', ag_version = ''1'', ag_mode = ''swarm-only'', ag_localModelEnabled = True,
     ag_localModelProvider = ''ollama-local'', ag_localModelCatalog = [], ag_clientType = ''edgecoder-native'', ag_swarmEnabled = True,
     ag_ideEnabled = False, ag_maxConcurrentTasks = 1, ag_connectedPeers = [], ag_ownerEmail = None, ag_sourceIp = None,
     ag_countryCode = None, ag_vpnDetected = None, ag_enrollmentReason = None, ag_powerTelemetry = None, ag_activeModel = None,
     ag_activeModelParamSize = None, ag_modelSwapInProgress = None, ag_publicKeyPem = None, ag_x25519PublicKey = None,
     ag_sandboxMode = Sandbox_none, ag_lastSeenMs = 0, ag_verificationStatus = None \<rparr>"

definition ex_limits :: MeshLimits where
  "ex_limits = \<lparr> TUNNEL_IDLE_TTL_MS = 90000, TUNNEL_MAX_RELAYS_PER_MIN = 120, RELAY_RATE_LIMIT_PER_10S = 1, DIRECT_WORK_OFFERS_PER_10S = 20 \<rparr>"

definition ex_agents_fed :: Federation where
  "ex_agents_fed = (newFederation (ex_coordinator ''c'') False)\<lparr> fd_agentCapabilities := [(''a'', ex_capability), (''b'', ex_capability)] \<rparr>"

definition ex_am_ops :: "am_op list" where
  "ex_am_ops = [Am_connect ''t1'' ''a'' ''b'' 1, Am_accept ''b'' ''t1'' 2, Am_offer ''o1'' ''a'' ''b'' Code_task None ''x'' 3,
     Am_relay ''t1'' ''a'' ''hi'' 4, Am_relay ''t1'' ''a'' ''hi'' 5, Am_acceptWork ''o1'' ''b'' 6, Am_resultWork ''o1'' ''b'' True ''y'' None 7 8]"

primrec am_trace :: "MeshLimits \<Rightarrow> am_op list \<Rightarrow> AgentMesh \<Rightarrow> (am_op \<times> MeshReply) list" where
  "am_trace cfg [] s = []"
| "am_trace cfg (op # ops) s = (op, snd (am_exec cfg op s)) # am_trace cfg ops (fst (am_exec cfg op s))"

primrec am_final :: "MeshLimits \<Rightarrow> am_op list \<Rightarrow> AgentMesh \<Rightarrow> AgentMesh" where
  "am_final cfg [] s = s"
| "am_final cfg (op # ops) s = am_final cfg ops (fst (am_exec cfg op s))"

primrec am_fresh_run :: "MeshLimits \<Rightarrow> am_op list \<Rightarrow> AgentMesh \<Rightarrow> bool" where
  "am_fresh_run cfg [] s = True"
| "am_fresh_run cfg (op # ops) s = (am_fresh op s \<and> am_fresh_run cfg ops (fst (am_exec cfg op s)))"

lemma am_steps_run:
  "am_steps cfg s tr s' \<Longrightarrow> am_fresh_run cfg ops s' \<Longrightarrow> am_steps cfg s (tr @ am_trace cfg ops s') (am_final cfg ops s')"
proof (induction ops arbitrary: tr s')
  case (Cons op ops)
  from Cons.prems have "am_steps cfg s (tr @ [(op, snd (am_exec cfg op s'))]) (fst (am_exec cfg op s'))" by (simp add: am_route)
  from Cons.IH [OF this] Cons.prems show ?case by simp
qed simp

definition ex_mesh_start :: AgentMesh where
  "ex_mesh_start = (newAgentMesh (newFederation (ex_coordinator ''c'') False))\<lparr> mx_fed := ex_agents_fed \<rparr>"

lemma ex_mesh_steps:
  assumes "am_fresh_run ex_limits ops ex_mesh_start"
  shows "am_steps ex_limits (newAgentMesh (newFederation (ex_coordinator ''c'') False)) (am_trace ex_limits ops ex_mesh_start)
    (am_final ex_limits ops ex_mesh_start)"
proof -
  have "keeps_links (mx_fed (newAgentMesh (newFederation (ex_coordinator ''c'') False))) ex_agents_fed"
    by (simp add: keeps_links_def newAgentMesh_def newFederation_def ex_agents_fed_def ex_capability_def jsm_get_def)
  from am_rest [OF am_refl this] have "am_steps ex_limits (newAgentMesh (newFederation (ex_coordinator ''c'') False)) [] ex_mesh_start"
    by (simp add: ex_mesh_start_def)
  from am_steps_run [OF this assms] show ?thesis by simp
qed

lemma ex_mesh_fresh: "am_fresh_run ex_limits ex_am_ops ex_mesh_start" "am_fresh_run ex_limits (take 3 ex_am_ops) ex_mesh_start"
  by code_simp+

lemma agent_mesh_invariant_witness:
  "map snd (am_trace ex_limits ex_am_ops ex_mesh_start) = [Tunnel_opened ''t1'' False, Mesh_ok, Work_offered ''o1'' None, Tunnel_relayed 1,
     Refused 429 ''relay_rate_limited'', Work_accepted (the (jsm_get (mx_directWorkById (am_final ex_limits (take 6 ex_am_ops) ex_mesh_start)) ''o1'')), Mesh_ok] \<and>
   tunnel_inv (am_final ex_limits ex_am_ops ex_mesh_start) \<and> offer_inv (am_final ex_limits ex_am_ops ex_mesh_start)"
proof
  show "map snd (am_trace ex_limits ex_am_ops ex_mesh_start) = [Tunnel_opened ''t1'' False, Mesh_ok, Work_offered ''o1'' None, Tunnel_relayed 1,
     Refused 429 ''relay_rate_limited'', Work_accepted (the (jsm_get (mx_directWorkById (am_final ex_limits (take 6 ex_am_ops) ex_mesh_start)) ''o1'')), Mesh_ok]"
    by code_simp
  show "tunnel_inv (am_final ex_limits ex_am_ops ex_mesh_start) \<and> offer_inv (am_final ex_limits ex_am_ops ex_mesh_start)"
    by (rule agent_mesh_invariant [OF ex_mesh_steps [OF ex_mesh_fresh(1)]]) (simp add: newFederation_def)
qed

lemma direct_work_lifecycle_witness:
  "\<exists>offer'. jsm_get (mx_directWorkById (am_final ex_limits ex_am_ops ex_mesh_start)) ''o1'' = Some offer' \<and>
     same_work (newOffer ''o1'' ''a'' ''b'' Code_task (Some Python) ''x'' 3) offer' \<and>
     completed_in (newOffer ''o1'' ''a'' ''b'' Code_task (Some Python) ''x'' 3) (am_trace ex_limits ex_am_ops ex_mesh_start) offer'"
proof -
  let ?s = "am_final ex_limits (take 3 ex_am_ops) ex_mesh_start" and ?ops = "drop 3 ex_am_ops"
  let ?o = "newOffer ''o1'' ''a'' ''b'' Code_task (Some Python) ''x'' 3"
  have split: "am_final ex_limits ex_am_ops ex_mesh_start = am_final ex_limits ?ops ?s"
    "am_trace ex_limits ex_am_ops ex_mesh_start = am_trace ex_limits (take 3 ex_am_ops) ex_mesh_start @ am_trace ex_limits ?ops ?s"
    by (simp_all add: ex_am_ops_def)
  have later: "am_fresh_run ex_limits ?ops ?s" by code_simp
  have steps: "am_steps ex_limits ?s (am_trace ex_limits ?ops ?s) (am_final ex_limits ?ops ?s)"
    using am_steps_run [OF am_refl later] by (simp only: append_Nil)
  have start: "tunnel_inv (newAgentMesh (newFederation (ex_coordinator ''c'') False)) \<and> offer_inv (newAgentMesh (newFederation (ex_coordinator ''c'') False))"
    by (rule new_mesh_inv) (simp add: newFederation_def)
  have inv: "offer_inv ?s" using am_steps_inv [OF ex_mesh_steps [OF ex_mesh_fresh(2)]] start by blast
  have o: "jsm_get (mx_directWorkById ?s) ''o1'' = Some ?o" by code_simp
  have fin: "map_option dw_status (jsm_get (mx_directWorkById (am_final ex_limits ?ops ?s)) ''o1'') = Some Offer_completed" by code_simp
  have st: "dw_status ?o = Offer_offered" by (simp add: newOffer_def)
  from direct_work_lifecycle [OF steps inv o] fin st obtain offer' where
    "jsm_get (mx_directWorkById (am_final ex_limits ?ops ?s)) ''o1'' = Some offer'" "same_work ?o offer'" "completed_in ?o (am_trace ex_limits ?ops ?s) offer'"
    by auto
  then show ?thesis unfolding split completed_in_def set_append image_Un by blast
qed

lemma relay_rate_bound_witness:
  "relays_in ''a'' 0 (am_trace ex_limits ex_am_ops ex_mesh_start) = 1 \<and>
   relays_in ''a'' 0 (am_trace ex_limits ex_am_ops ex_mesh_start) \<le> max 1 (RELAY_RATE_LIMIT_PER_10S ex_limits)"
proof
  show "relays_in ''a'' 0 (am_trace ex_limits ex_am_ops ex_mesh_start) = 1" by code_simp
  have "sorted (relay_times ''a'' (am_trace ex_limits ex_am_ops ex_mesh_start))" by code_simp
  from relay_rate_bound [OF ex_mesh_steps [OF ex_mesh_fresh(1)] this]
  show "relays_in ''a'' 0 (am_trace ex_limits ex_am_ops ex_mesh_start) \<le> max 1 (RELAY_RATE_LIMIT_PER_10S ex_limits)" .
qed

end
