(* ===== verification/AgentRoutes.thy ===== *)
theory AgentRoutes
  imports AgentMesh SubtaskDeps Credits
begin

text \<open>
  The coordinator as its agents see it (\<open>src/src/swarm/coordinator.ts\<close>): enrolment with the portal, \<open>POST /register\<close>,
  \<open>/heartbeat\<close>, \<open>/agent/diagnostics\<close>, \<open>/submit\<close>, \<open>/pull\<close> and \<open>/result\<close>. Each handler is one function on the record of
  the module's variables and composes the components below it: request authentication, the behaviour tracker with the
  automatic blacklist, the queue, the dependency tracker, the credit store, the ordering chain and the gossip mesh.
  The result of a handler is the new state, the answer, and the messages sent to other coordinators. The answers
  of the portal, of the inference service and of the node projection, and the envelope cipher, are arguments.
\<close>

section \<open>State\<close>

record Env =
  env_crypto :: crypto
  env_toNumber :: "string \<Rightarrow> int option"
  env_verifyText :: "string \<Rightarrow> string \<Rightarrow> string \<Rightarrow> bool option"
  env_stringify :: "AnomalyEvent list \<Rightarrow> string"
  env_sqrt :: "num \<Rightarrow> num"
  env_self :: CoordinatorIdentity
  env_publicUrl :: string
  env_auth :: AuthConfig
  env_anomaly :: AnomalyConfig
  env_behaviorWindow :: int
  env_contribution :: ContributionPolicy
  env_releaseKeys :: "TrustedReleaseKey list"
  env_policy :: ExecutionPolicy
  MESH_AUTH_TOKEN :: string
  PORTAL_SERVICE_URL :: string
  REQUIRE_VERIFIED_AGENTS :: bool
  OLLAMA_MODEL :: string
  IOS_BATTERY_PULL_MIN_INTERVAL_MS :: int
  IOS_BATTERY_TASK_STOP_LEVEL_PCT :: num

record Coordinator =
  cs_mesh :: AgentMesh
  cs_windows :: RateWindows
  cs_nonces :: NonceStore
  cs_securityLog :: "(SecurityEventType \<times> string) list"
  cs_behavior :: BehaviorAgents
  cs_anomalyLog :: "(string \<times> SecurityLevel) list"
  cs_blacklister :: AutoBlacklister
  cs_deps :: SubtaskDepTracker
  cs_credits :: CreditStore
  cs_lastAssigned :: "(string, ms) jsmap"
  cs_sharedKeys :: "(string, string \<times> ms) jsmap"
  cs_manifests :: "(string, ReleaseManifest) jsmap"
  cs_diagnostics :: "(string, (ms \<times> string) list) jsmap"

abbreviation cs_fed :: "Coordinator \<Rightarrow> Federation" where
  "cs_fed s \<equiv> mx_fed (cs_mesh s)"

abbreviation cs_caps :: "Coordinator \<Rightarrow> (string, AgentCapability) jsmap" where
  "cs_caps s \<equiv> fd_agentCapabilities (cs_fed s)"

abbreviation cs_queue :: "Coordinator \<Rightarrow> SwarmQueue" where
  "cs_queue s \<equiv> fd_queue (cs_fed s)"

definition updFed :: "(Federation \<Rightarrow> Federation) \<Rightarrow> Coordinator \<Rightarrow> Coordinator" where
  "updFed f s = s\<lparr> cs_mesh := (cs_mesh s)\<lparr> mx_fed := f (cs_fed s) \<rparr> \<rparr>"

definition updQueue :: "(SwarmQueue \<Rightarrow> SwarmQueue) \<Rightarrow> Coordinator \<Rightarrow> Coordinator" where
  "updQueue f = updFed (\<lambda>fed. fed\<lparr> fd_queue := f (fd_queue fed) \<rparr>)"

definition updCaps :: "((string, AgentCapability) jsmap \<Rightarrow> (string, AgentCapability) jsmap) \<Rightarrow> Coordinator \<Rightarrow> Coordinator" where
  "updCaps f = updFed (\<lambda>fed. fed\<lparr> fd_agentCapabilities := f (fd_agentCapabilities fed) \<rparr>)"

text \<open>\<open>ordering.append\<close>; the record is also sent to the database, which is not modelled here.\<close>

definition appendEvent :: "Env \<Rightarrow> ChainEvent \<Rightarrow> string \<Rightarrow> ms \<Rightarrow> Federation \<Rightarrow> Federation" where
  "appendEvent env event uuid now fed = fed\<lparr> fd_ordering := fst (Ledger.append (env_crypto env) event uuid now (fd_ordering fed)) \<rparr>"

definition queueEvent :: "QueueEventType \<Rightarrow> string \<Rightarrow> string option \<Rightarrow> string \<Rightarrow> ChainEvent" where
  "queueEvent typ task subtask actor = \<lparr> ce_eventType = typ, ce_taskId = task, ce_subtaskId = subtask, ce_actorId = actor,
     ce_coordinatorId = None, ce_checkpointHeight = None, ce_checkpointHash = None, ce_payloadJson = None \<rparr>"

definition jopt :: "string option \<Rightarrow> json" where
  "jopt v = (case v of None \<Rightarrow> JNull | Some x \<Rightarrow> JStr x)"

datatype Effect = Broadcast MeshMessage | Forward string SubtaskResult

datatype AgentReply =
    Reply_error nat string "string option"
  | Reply_threw
  | Registered_agent string "string option"
  | Heartbeat_blacklisted string nat
  | Heartbeat_ok nat Handover nat "string list"
  | Diagnostics_stored nat
  | Submitted string "string list"
  | Pull_blocked string
  | Pull_deferred "int option" string
  | Pull_no_sandbox
  | Pull_subtask "Subtask option"
  | Pull_envelope string
  | Result_ok

section \<open>Authentication and monitoring\<close>

text \<open>
  \<open>verifyAgentRequest\<close> on the coordinator's state: the keys are those of the registered agents, and protocol violations go to
  the behaviour tracker.
\<close>

definition authenticate ::
  "Env \<Rightarrow> (string, HeaderValue) jsmap \<Rightarrow> string \<Rightarrow> string option \<Rightarrow> ms \<Rightarrow> Coordinator \<Rightarrow> Coordinator \<times> AuthResult" where
  "authenticate env headers route ip now s =
     (let (a, r) = verifyAgentRequest (env_crypto env) (env_toNumber env) (env_auth env) (extractSignedHeaders headers) route ip now now now
            \<lparr> windows = cs_windows s, nonces = cs_nonces s, publicKeys = map (\<lambda>(k, c). (k, ag_publicKeyPem c)) (cs_caps s),
              securityLog = cs_securityLog s, violations = [] \<rparr>
      in (s\<lparr> cs_windows := windows a, cs_nonces := nonces a, cs_securityLog := securityLog a,
            cs_behavior := fold (\<lambda>(k, v). recordProtocolViolation (env_behaviorWindow env) k v now) (violations a) (cs_behavior s) \<rparr>, r))"

text \<open>
  \<open>evaluateAndEnforce\<close> with the callback of the blacklister, which publishes a record for every new action; \<open>u1\<close> and \<open>u2\<close>
  are the ids of the record and of the message.
\<close>

definition enforce :: "Env \<Rightarrow> string \<Rightarrow> string \<Rightarrow> ms \<Rightarrow> string \<Rightarrow> Coordinator \<Rightarrow> Coordinator \<times> Effect list" where
  "enforce env u1 u2 now agentId s =
     (let (agents', log', bl') = evaluateAndEnforce (env_crypto env) (env_stringify env) (env_sqrt env) (env_behaviorWindow env) (env_anomaly env)
            agentId now now (cs_behavior s, cs_anomalyLog s, cs_blacklister s);
          s1 = s\<lparr> cs_behavior := agents', cs_anomalyLog := log', cs_blacklister := bl' \<rparr> in
      case drop (length (blacklisted (cs_blacklister s))) (blacklisted bl') of
        [] \<Rightarrow> (s1, [])
      | action # _ \<Rightarrow>
          (let (fed', msg) = autoBlacklist (env_crypto env) (env_self env) u1 u2 now action (cs_fed s1)
           in ((updFed (\<lambda>_. fed') s1)\<lparr> cs_securityLog := cs_securityLog s1 @ [(Auto_blacklist_triggered, co_peerId (env_self env))] \<rparr>,
               [Broadcast msg])))"

definition agentBlacklisted :: "ms \<Rightarrow> string \<Rightarrow> Coordinator \<Rightarrow> Coordinator \<times> BlacklistEntry option" where
  "agentBlacklisted now agentId s =
     (let (bl, r) = activeBlacklistRecord now agentId (fd_blacklist (cs_fed s))
      in (updFed (\<lambda>fed. fed\<lparr> fd_blacklist := bl \<rparr>) s, r))"

section \<open>Enrolment\<close>

record PortalNode =
  pn_ownerEmail :: "string option"
  pn_sourceIp :: "string option"
  pn_countryCode :: "string option"
  pn_vpnDetected :: "bool option"

definition noNode :: PortalNode where
  "noNode = \<lparr> pn_ownerEmail = None, pn_sourceIp = None, pn_countryCode = None, pn_vpnDetected = None \<rparr>"

datatype PortalAnswer = Portal_unreachable | Portal_answer nat bool "string option" "PortalNode option"

text \<open>The agents the coordinator remembers, or the approved row of the node projection.\<close>

definition knownAgent :: "string \<Rightarrow> PortalNode option \<Rightarrow> Federation \<Rightarrow> PortalNode option" where
  "knownAgent nodeId persisted fed =
     (case jsm_get (fd_agentCapabilities fed) nodeId of
        Some c \<Rightarrow> Some \<lparr> pn_ownerEmail = ag_ownerEmail c, pn_sourceIp = ag_sourceIp c, pn_countryCode = ag_countryCode c,
                        pn_vpnDetected = ag_vpnDetected c \<rparr>
      | None \<Rightarrow> persisted)"

definition cachedOr :: "string \<Rightarrow> string \<Rightarrow> PortalNode option \<Rightarrow> bool \<times> string option \<times> PortalNode" where
  "cachedOr cachedReason refusal known =
     (case known of Some n \<Rightarrow> (True, Some cachedReason, n) | None \<Rightarrow> (False, Some refusal, noNode))"

definition portalDecision ::
  "Env \<Rightarrow> PortalAnswer \<Rightarrow> PortalNode option \<Rightarrow> string \<Rightarrow> string option \<Rightarrow> string option \<Rightarrow> Federation \<Rightarrow> bool \<times> string option \<times> PortalNode" where
  "portalDecision env answer persisted nodeId token sourceIp fed =
     (if PORTAL_SERVICE_URL env = [] then (True, Some ''portal_validation_disabled'', noNode)
      else if isLoopback sourceIp then (True, Some ''loopback_self_registration'', noNode)
      else if \<not> truthy_str token
        then cachedOr ''registration_token_missing_cached_agent'' ''registration_token_required'' (knownAgent nodeId persisted fed)
      else (case answer of
          Portal_unreachable \<Rightarrow>
            cachedOr ''portal_validation_unreachable_cached_agent'' ''portal_validation_unreachable'' (knownAgent nodeId persisted fed)
        | Portal_answer code allowed reason node \<Rightarrow>
            if code < 200 \<or> code \<ge> 300
            then (False, Some (nullish reason (''portal_validation_failed_'' @ nat_str code)), noNode)
            else (allowed, reason, nullish node noNode)))"

definition validatePortalNode ::
  "Env \<Rightarrow> PortalAnswer \<Rightarrow> PortalNode option \<Rightarrow> string \<Rightarrow> ms \<Rightarrow> string \<Rightarrow> string option \<Rightarrow> string option \<Rightarrow> Federation \<Rightarrow>
   Federation \<times> (bool \<times> string option \<times> PortalNode)" where
  "validatePortalNode env answer persisted uuid now nodeId token sourceIp fed =
     (case portalDecision env answer persisted nodeId token sourceIp fed of
        (allowed, reason, node) \<Rightarrow>
          (appendEvent env ((queueEvent Node_validation (''agent:'' @ nodeId) None nodeId)
             \<lparr> ce_coordinatorId := Some (co_peerId (env_self env)),
               ce_payloadJson := Some (json_text (JObj ([(''nodeKind'', JStr ''agent'')] @ jfield ''sourceIp'' (map_option JStr sourceIp) @
                 [(''allowed'', JBool allowed), (''reason'', jopt reason), (''ownerEmail'', jopt (pn_ownerEmail node))]))) \<rparr>) uuid now fed,
           (allowed, reason, node)))"

section \<open>\<open>POST /register\<close>\<close>

record RegisterBody =
  rb_agentId :: string
  rb_os :: string
  rb_version :: string
  rb_mode :: string
  rb_registrationToken :: "string option"
  rb_localModelProvider :: string
  rb_clientType :: string
  rb_maxConcurrentTasks :: int
  rb_powerTelemetry :: "AgentPowerTelemetry option"
  rb_publicKeyPem :: "string option"
  rb_x25519PublicKey :: "string option"
  rb_sandboxMode :: SandboxMode
  rb_binaryIntegrity :: "BinaryIntegrityPayload option"

definition stampTelemetry :: "ms \<Rightarrow> AgentPowerTelemetry \<Rightarrow> AgentPowerTelemetry" where
  "stampTelemetry now t = t\<lparr> pt_updatedAtMs := Some (nullish (pt_updatedAtMs t) now) \<rparr>"

text \<open>The entry a registration writes; only the links of an earlier entry are kept.\<close>

definition registeredCapability ::
  "Env \<Rightarrow> RegisterBody \<Rightarrow> string option \<Rightarrow> string option \<Rightarrow> PortalNode \<Rightarrow> ms \<Rightarrow> AgentCapability option \<Rightarrow> AgentCapability" where
  "registeredCapability env b sourceIp reason node now previous = \<lparr> ag_os = rb_os b, ag_version = rb_version b, ag_mode = rb_mode b,
     ag_localModelEnabled = True, ag_localModelProvider = rb_localModelProvider b,
     ag_localModelCatalog = (if rb_localModelProvider b = ''ollama-local'' then [OLLAMA_MODEL env] else [''edgecoder-default'']),
     ag_clientType = rb_clientType b, ag_swarmEnabled = True, ag_ideEnabled = (rb_mode b = ''ide-enabled''),
     ag_maxConcurrentTasks = rb_maxConcurrentTasks b,
     ag_connectedPeers = (case previous of None \<Rightarrow> [] | Some c \<Rightarrow> ag_connectedPeers c),
     ag_ownerEmail = pn_ownerEmail node,
     ag_sourceIp = (case pn_sourceIp node of None \<Rightarrow> sourceIp | Some ip \<Rightarrow> Some ip),
     ag_countryCode = pn_countryCode node, ag_vpnDetected = pn_vpnDetected node, ag_enrollmentReason = reason,
     ag_powerTelemetry = map_option (stampTelemetry now) (rb_powerTelemetry b),
     ag_activeModel = None, ag_activeModelParamSize = None, ag_modelSwapInProgress = None,
     ag_publicKeyPem = rb_publicKeyPem b, ag_x25519PublicKey = rb_x25519PublicKey b, ag_sandboxMode = rb_sandboxMode b,
     ag_lastSeenMs = now, ag_verificationStatus = None \<rparr>"

definition admitAgent :: "Env \<Rightarrow> RegisterBody \<Rightarrow> string option \<Rightarrow> string option \<Rightarrow> PortalNode \<Rightarrow> ms \<Rightarrow> Coordinator \<Rightarrow> Coordinator" where
  "admitAgent env b sourceIp reason node now s =
     updCaps (\<lambda>caps. jsm_set (rb_agentId b) (registeredCapability env b sourceIp reason node now (jsm_get caps (rb_agentId b))) caps)
       (updQueue (registerAgent (rb_agentId b) (env_policy env)
          (Some \<lparr> am_os = rb_os b, am_version = rb_version b, am_mode = rb_mode b, am_localModelEnabled = Some True,
                 am_activeModel = None, am_activeModelParamSize = None \<rparr>) now) s)"

definition approvalEvent :: "Env \<Rightarrow> string \<Rightarrow> string option \<Rightarrow> string option \<Rightarrow> PortalNode \<Rightarrow> ChainEvent" where
  "approvalEvent env agentId sourceIp reason node = (queueEvent Node_approval (''agent:'' @ agentId) None agentId)
     \<lparr> ce_coordinatorId := Some (co_peerId (env_self env)),
       ce_payloadJson := Some (json_text (JObj [(''approved'', JBool True), (''activationReason'', jopt reason),
         (''ownerEmail'', jopt (pn_ownerEmail node)),
         (''sourceIp'', jopt (case pn_sourceIp node of None \<Rightarrow> sourceIp | Some ip \<Rightarrow> Some ip)),
         (''countryCode'', jopt (pn_countryCode node)),
         (''vpnDetected'', case pn_vpnDetected node of None \<Rightarrow> JNull | Some b \<Rightarrow> JBool b)])) \<rparr>"

text \<open>The check of the release signature; a mismatch is logged, and refused where verified agents are required.\<close>

definition checkBinary :: "Env \<Rightarrow> RegisterBody \<Rightarrow> ms \<Rightarrow> Coordinator \<Rightarrow> Coordinator \<times> VerificationStatus option" where
  "checkBinary env b now s =
     (case rb_binaryIntegrity b of
        None \<Rightarrow> (s, None)
      | Some payload \<Rightarrow>
          (let status = verifyBinaryIntegrity (env_verifyText env) (env_releaseKeys env) payload (cs_manifests s) now;
               s1 = updCaps (jsm_modify (rb_agentId b) (\<lambda>c. c\<lparr> ag_verificationStatus := Some status \<rparr>)) s in
           (if status = Signature_mismatch \<or> status = Hash_mismatch_status
            then s1\<lparr> cs_securityLog := cs_securityLog s1 @ [(Binary_integrity_failure, rb_agentId b)] \<rparr> else s1, Some status)))"

definition finishRegistration ::
  "Env \<Rightarrow> string \<Rightarrow> string \<Rightarrow> string \<Rightarrow> ms \<Rightarrow> RegisterBody \<Rightarrow> ChainEvent \<Rightarrow> Coordinator \<Rightarrow> Coordinator \<times> AgentReply \<times> Effect list" where
  "finishRegistration env u2 u3 u4 now b approval s =
     (let s1 = s\<lparr> cs_behavior := recordRegistration (env_behaviorWindow env) (rb_agentId b) now (cs_behavior s) \<rparr>;
          (s2, out) = enforce env u3 u4 now (rb_agentId b) s1
      in (updFed (appendEvent env approval u2 now) s2,
          Registered_agent (rb_mode b) (if MESH_AUTH_TOKEN env = [] then None else Some (MESH_AUTH_TOKEN env)), out))"

definition registerRoute ::
  "Env \<Rightarrow> PortalAnswer \<Rightarrow> PortalNode option \<Rightarrow> string \<times> string \<times> string \<times> string \<Rightarrow> ms \<Rightarrow> (string, HeaderValue) jsmap \<Rightarrow> string option \<Rightarrow>
   RegisterBody \<Rightarrow> Coordinator \<Rightarrow> Coordinator \<times> AgentReply \<times> Effect list" where
  "registerRoute env answer persisted ids now headers ip b s0 =
     (case ids of (u1, u2, u3, u4) \<Rightarrow>
      let sourceIp = extractClientIp headers ip;
          (fed1, (allowed, reason, node)) =
            validatePortalNode env answer persisted u1 now (rb_agentId b) (rb_registrationToken b) sourceIp (cs_fed s0);
          s1 = updFed (\<lambda>_. fed1) s0 in
      if \<not> allowed then (s1, Reply_error 403 ''node_not_activated'' reason, [])
      else (let s2 = s1\<lparr> cs_windows := rateReset (rb_agentId b) (cs_windows s1) \<rparr>;
                (s3, blocked) = agentBlacklisted now (rb_agentId b) s2 in
        case blocked of
          Some r \<Rightarrow> (s3, Reply_error 403 ''agent_blacklisted'' (Some (be_reason (fr_content r))), [])
        | None \<Rightarrow>
            (let s4 = admitAgent env b sourceIp reason node now s3; (s5, status) = checkBinary env b now s4 in
             if (status = Some Signature_mismatch \<or> status = Some Hash_mismatch_status) \<and> REQUIRE_VERIFIED_AGENTS env
             then (s5, Reply_error 403 ''binary_integrity_failed'' None, [])
             else finishRegistration env u2 u3 u4 now b (approvalEvent env (rb_agentId b) sourceIp reason node) s5)))"

section \<open>\<open>POST /heartbeat\<close> and \<open>/agent/diagnostics\<close>\<close>

record HeartbeatBody =
  hb_agentId :: string
  hb_powerTelemetry :: "AgentPowerTelemetry option"
  hb_activeModel :: "string option"
  hb_activeModelParamSize :: "int option"
  hb_modelSwapInProgress :: "bool option"
  hb_sandboxMode :: "SandboxMode option"

definition applyHeartbeat :: "HeartbeatBody \<Rightarrow> ms \<Rightarrow> AgentCapability \<Rightarrow> AgentCapability" where
  "applyHeartbeat b now c =
     (let c1 = (case hb_powerTelemetry b of None \<Rightarrow> c | Some t \<Rightarrow> c\<lparr> ag_powerTelemetry := Some (stampTelemetry now t) \<rparr>)\<lparr> ag_lastSeenMs := now \<rparr>;
          c2 = (case hb_activeModel b of None \<Rightarrow> c1
                | Some m \<Rightarrow> c1\<lparr> ag_activeModel := Some m, ag_activeModelParamSize := Some (nullish (hb_activeModelParamSize b) 0),
                               ag_modelSwapInProgress := Some (nullish (hb_modelSwapInProgress b) False) \<rparr>)
      in (case hb_sandboxMode b of None \<Rightarrow> c2 | Some m \<Rightarrow> c2\<lparr> ag_sandboxMode := m \<rparr>))"

text \<open>Guards shared by \<open>/heartbeat\<close> and \<open>/pull\<close>: the signature, if there is one, must be that of the agent in the body.\<close>

definition authFault :: "AuthResult \<Rightarrow> string \<Rightarrow> AgentReply option" where
  "authFault r agentId =
     (case r of
        Rejected \<Rightarrow> Some (Reply_error 401 ''signature_invalid'' None)
      | Threw \<Rightarrow> Some Reply_threw
      | Authenticated a _ \<Rightarrow> if a \<noteq> agentId then Some (Reply_error 401 ''agent_id_mismatch'' None) else None
      | Unsigned \<Rightarrow> None)"

definition heartbeatRoute ::
  "Env \<Rightarrow> ms \<Rightarrow> (string, HeaderValue) jsmap \<Rightarrow> string option \<Rightarrow> HeartbeatBody \<Rightarrow> Coordinator \<Rightarrow> Coordinator \<times> AgentReply" where
  "heartbeatRoute env now headers ip b s0 =
     (let (s, r) = authenticate env headers ''/heartbeat'' ip now s0 in
      case authFault r (hb_agentId b) of
        Some reply \<Rightarrow> (s, reply)
      | None \<Rightarrow>
          if \<not> jsm_has (cs_caps s) (hb_agentId b) then (s, Reply_error 401 ''mesh_unauthorized'' (Some ''agent_not_registered''))
          else (let (s1, blocked) = agentBlacklisted now (hb_agentId b) s in
            case blocked of
              Some rec \<Rightarrow> (s1, Heartbeat_blacklisted (be_reason (fr_content rec)) (bl_version (fd_blacklist (cs_fed s1))))
            | None \<Rightarrow>
                (let s2 = updQueue (heartbeat (hb_agentId b) now) s1;
                     s3 = s2\<lparr> cs_behavior := recordHeartbeat (env_behaviorWindow env) (hb_agentId b) now (cs_behavior s2) \<rparr>;
                     s4 = updCaps (jsm_modify (hb_agentId b) (applyHeartbeat b now)) s3;
                     requeued = snd (requeueStale 30000 now (cs_queue s4));
                     s5 = updQueue (\<lambda>q. fst (requeueStale 30000 now q)) s4;
                     (m, handed) = handOver (hb_agentId b) (cs_mesh s5);
                     s6 = s5\<lparr> cs_mesh := m \<rparr>
                 in (s6, Heartbeat_ok requeued handed (bl_version (fd_blacklist (cs_fed s6))) (map fst (bl_byAgent (fd_blacklist (cs_fed s6))))))))"

definition diagnosticsRoute :: "ms \<Rightarrow> string \<Rightarrow> (ms option \<times> string) list \<Rightarrow> Coordinator \<Rightarrow> Coordinator \<times> AgentReply" where
  "diagnosticsRoute now agentId events s =
     (if \<not> jsm_has (cs_caps s) agentId then (s, Reply_error 401 ''mesh_unauthorized'' (Some ''agent_not_registered''))
      else (let merged = slice_last 200 (nullish (jsm_get (cs_diagnostics s) agentId) [] @ map (\<lambda>(t, m). (nullish t now, m)) events)
            in (s\<lparr> cs_diagnostics := jsm_set agentId merged (cs_diagnostics s) \<rparr>, Diagnostics_stored (length merged))))"

section \<open>Task offers\<close>

definition metaJson :: "TaskProjectMeta \<Rightarrow> json" where
  "metaJson m = JObj ([(''projectId'', JStr (projectId m))] @ jfield ''tenantId'' (map_option JStr (tenantId m)) @
     [(''resourceClass'', JStr (resource_name (resourceClass m))), (''priority'', JNum (priority m))])"

definition offerPayload :: "Env \<Rightarrow> Subtask \<Rightarrow> payload" where
  "offerPayload env t =
     [(''subtaskId'', JStr (st_id t)), (''taskId'', JStr (st_taskId t)), (''kind'', JStr (kind_name (st_kind t))),
      (''language'', JStr (language_name (st_language t))), (''input'', JStr (st_input t)), (''timeoutMs'', JNum (st_timeoutMs t)),
      (''snapshotRef'', JStr (st_snapshotRef t)), (''projectMeta'', metaJson (st_projectMeta t)),
      (''originCoordinatorId'', JStr (co_peerId (env_self env))), (''originCoordinatorUrl'', JStr (env_publicUrl env))]"

definition offerMessage :: "Env \<Rightarrow> ms \<Rightarrow> string \<times> Subtask \<Rightarrow> Effect" where
  "offerMessage env now = (\<lambda>(uuid, t). Broadcast (createMessage (env_crypto env) uuid now Msg_task_offer (co_peerId (env_self env))
     (offerPayload env t) (co_privateKeyPem (env_self env)) 60000))"

section \<open>\<open>POST /submit\<close>\<close>

record SubmitBody =
  sb_taskId :: string
  sb_submitterAccountId :: string
  sb_projectId :: string
  sb_tenantId :: "string option"
  sb_resourceClass :: SwarmQueue.ResourceClass
  sb_priority :: int
  sb_requestedModel :: "string option"

text \<open>A subtask as the inference service returns it.\<close>

record Decomposed =
  dc_taskId :: string
  dc_kind :: SubtaskKind
  dc_input :: string
  dc_language :: Language
  dc_timeoutMs :: int
  dc_snapshotRef :: string
  dc_dependsOn :: "string list option"
  dc_subtaskIndex :: "nat option"

datatype DecomposeAnswer = Decompose_threw | Decompose_failed | Decompose_ok "Decomposed list"

definition toSubtask :: "SubmitBody \<Rightarrow> Decomposed \<Rightarrow> Subtask" where
  "toSubtask b d = \<lparr> st_id = [], st_taskId = dc_taskId d, st_kind = dc_kind d, st_language = dc_language d, st_input = dc_input d,
     st_timeoutMs = dc_timeoutMs d, st_snapshotRef = dc_snapshotRef d,
     st_projectMeta = \<lparr> projectId = sb_projectId b, tenantId = sb_tenantId b, resourceClass = sb_resourceClass b, priority = sb_priority b \<rparr>,
     st_requestedModel = sb_requestedModel b, st_dependsOn = dc_dependsOn d, st_subtaskIndex = dc_subtaskIndex d \<rparr>"

record SubmitIds =
  si_tx :: string
  si_event :: string
  si_subtasks :: "string list"
  si_offers :: "string list"
  si_summary :: string

definition scheduleTask :: "Env \<Rightarrow> SubmitIds \<Rightarrow> ms \<Rightarrow> SubmitBody \<Rightarrow> Decomposed list \<Rightarrow> Coordinator \<Rightarrow> Coordinator \<times> AgentReply \<times> Effect list" where
  "scheduleTask env ids now b ds s =
     (let s1 = updFed (appendEvent env (queueEvent Task_enqueue (sb_taskId b) None (sb_submitterAccountId b)) (si_event ids) now) s;
          hasMeshPeers = gossipPeers (fd_mesh (cs_fed s1)) \<noteq> [];
          (t', q', created, deferred) = scheduleSubtasks (si_subtasks ids) hasMeshPeers now (map (toSubtask b) ds) (cs_deps s1) (cs_queue s1);
          s2 = (updQueue (\<lambda>_. q') s1)\<lparr> cs_deps := t' \<rparr>;
          summary = createMessage (env_crypto env) (si_summary ids) now Msg_queue_summary (co_peerId (env_self env))
            [(''taskId'', JStr (sb_taskId b)), (''queued'', JNum (int (length created))), (''deferred'', JNum (int (length deferred))),
             (''projectId'', JStr (sb_projectId b))] (co_privateKeyPem (env_self env)) 30000
      in (s2, Submitted (sb_taskId b) (map st_id created @ deferred),
          map (offerMessage env now) (zip (si_offers ids) created) @ [Broadcast summary]))"

definition submitRoute ::
  "Env \<Rightarrow> DecomposeAnswer \<Rightarrow> SubmitIds \<Rightarrow> ms \<Rightarrow> SubmitBody \<Rightarrow> Coordinator \<Rightarrow> Coordinator \<times> AgentReply \<times> Effect list" where
  "submitRoute env answer ids now b s0 =
     (let (st, refusal) = submitCharge (env_contribution env) (si_tx ids) now (sb_submitterAccountId b) (sb_taskId b) (cs_credits s0);
          s = s0\<lparr> cs_credits := st \<rparr> in
      case refusal of
        Some Contribute_first_required \<Rightarrow> (s, Reply_error 403 ''contribute_first_required'' None, [])
      | Some Insufficient_credits_402 \<Rightarrow> (s, Reply_error 402 ''insufficient_credits'' None, [])
      | None \<Rightarrow>
          (case answer of
             Decompose_threw \<Rightarrow> (s, Reply_threw, [])
           | Decompose_failed \<Rightarrow> (s, Reply_error 502 ''inference_service_unavailable'' None, [])
           | Decompose_ok ds \<Rightarrow> scheduleTask env ids now b ds s))"

section \<open>\<open>POST /pull\<close>\<close>

definition powerInput :: "Env \<Rightarrow> ms \<Rightarrow> string \<Rightarrow> AgentCapability \<Rightarrow> Coordinator \<Rightarrow> PowerPolicyInput" where
  "powerInput env now agentId c s = \<lparr> pp_os = ag_os c, pp_telemetry = ag_powerTelemetry c, pp_nowMs = now,
     pp_lastTaskAssignedAtMs = jsm_get (cs_lastAssigned s) agentId,
     pp_batteryPullMinIntervalMs = IOS_BATTERY_PULL_MIN_INTERVAL_MS env,
     pp_batteryTaskStopLevelPct = IOS_BATTERY_TASK_STOP_LEVEL_PCT env \<rparr>"

definition needsSandbox :: "Subtask \<Rightarrow> SandboxMode \<Rightarrow> bool" where
  "needsSandbox task mode = (truthy_str (tenantId (st_projectMeta task)) \<or> mode = Sandbox_docker \<or> mode = Sandbox_vm)"

definition ENVELOPE_KEY_TTL_MS :: int where
  "ENVELOPE_KEY_TTL_MS = 60 * 60 * 1000"

definition expireKeys :: "ms \<Rightarrow> (string, string \<times> ms) jsmap \<Rightarrow> (string, string \<times> ms) jsmap" where
  "expireKeys now m = filter (\<lambda>(_, (_, created)). \<not> now - created > ENVELOPE_KEY_TTL_MS) m"

text \<open>
  Delivery of a claimed subtask: in plain, or, when the agent registered an X25519 key, in an envelope. \<open>encrypt\<close> returns the
  envelope and the shared key, or \<open>None\<close> where it throws; then the subtask is sent in plain.
\<close>

definition deliverTask ::
  "Env \<Rightarrow> (Subtask \<Rightarrow> string \<Rightarrow> (string \<times> string) option) \<Rightarrow> string \<Rightarrow> ms \<Rightarrow> string \<Rightarrow> AgentCapability \<Rightarrow> Subtask \<Rightarrow> Coordinator \<Rightarrow> Coordinator \<times> AgentReply" where
  "deliverTask env encrypt uuid now agentId c task s =
     (let s1 = s\<lparr> cs_lastAssigned := jsm_set agentId now (cs_lastAssigned s),
                  cs_behavior := recordTaskClaim (env_behaviorWindow env) agentId now (cs_behavior s) \<rparr>;
          s2 = updFed (appendEvent env (queueEvent Task_claim (st_taskId task) (Some (st_id task)) agentId) uuid now) s1;
          sealed = (if truthy_str (ag_x25519PublicKey c) then encrypt task (the (ag_x25519PublicKey c)) else None)
      in (case sealed of
            Some (envelope, sharedKey) \<Rightarrow>
              (s2\<lparr> cs_sharedKeys := expireKeys now (jsm_set (st_id task) (sharedKey, now) (cs_sharedKeys s2)) \<rparr>, Pull_envelope envelope)
          | None \<Rightarrow> (s2, Pull_subtask (Some task))))"

definition pullTask ::
  "Env \<Rightarrow> (Subtask \<Rightarrow> string \<Rightarrow> (string \<times> string) option) \<Rightarrow> string \<Rightarrow> ms \<Rightarrow> string \<Rightarrow> AgentCapability \<Rightarrow> PowerPolicyDecision \<Rightarrow> Coordinator \<Rightarrow> Coordinator \<times> AgentReply" where
  "pullTask env encrypt uuid now agentId c d s =
     (let (q, task) = claim agentId (ag_activeModel c) now now (cs_queue s); s1 = updQueue (\<lambda>_. q) s in
      case task of
        None \<Rightarrow> (s1, Pull_subtask None)
      | Some t \<Rightarrow>
          if needsSandbox t (ag_sandboxMode c) \<and> ag_sandboxMode c = Sandbox_none
          then (updQueue (\<lambda>q. fst (requeue (st_id t) q)) s1, Pull_no_sandbox)
          else if pd_allowSmallTasksOnly d = Some True \<and> st_timeoutMs t > 10000
          then (updQueue (\<lambda>q. fst (requeue (st_id t) q)) s1, Pull_deferred None (pd_reason d))
          else deliverTask env encrypt uuid now agentId c t s1)"

definition pullRoute ::
  "Env \<Rightarrow> (Subtask \<Rightarrow> string \<Rightarrow> (string \<times> string) option) \<Rightarrow> string \<Rightarrow> ms \<Rightarrow> (string, HeaderValue) jsmap \<Rightarrow> string option \<Rightarrow> string \<Rightarrow> Coordinator \<Rightarrow>
   Coordinator \<times> AgentReply" where
  "pullRoute env encrypt uuid now headers ip agentId s0 =
     (let (s, r) = authenticate env headers ''/pull'' ip now s0 in
      case authFault r agentId of
        Some reply \<Rightarrow> (s, reply)
      | None \<Rightarrow>
          (case jsm_get (cs_caps s) agentId of
             None \<Rightarrow> (s, Reply_error 401 ''mesh_unauthorized'' (Some ''agent_not_registered''))
           | Some c \<Rightarrow>
               (let (s1, blocked) = agentBlacklisted now agentId s in
                case blocked of
                  Some rec \<Rightarrow> (s1, Pull_blocked (be_reason (fr_content rec)))
                | None \<Rightarrow>
                    (let d = evaluateAgentPowerPolicy (powerInput env now agentId c s1) in
                     if \<not> pd_allowCoordinatorTasks d then (s1, Pull_deferred None (pd_reason d))
                     else if truthy_int (pd_deferMs d) \<and> the (pd_deferMs d) > 0 then (s1, Pull_deferred (pd_deferMs d) (pd_reason d))
                     else pullTask env encrypt uuid now agentId c d s1))))"

section \<open>\<open>POST /result\<close>\<close>

text \<open>
  The request body as received: \<open>rr_plain\<close> is what the schema makes of it, \<open>None\<close> where it does not parse; the other fields are
  the strings an envelope result carries in the clear.
\<close>

record RawResult =
  rr_plain :: "SubtaskResult option"
  rr_subtaskId :: "string option"
  rr_taskId :: "string option"
  rr_agentId :: "string option"
  rr_reportNonce :: "string option"
  rr_reportSignature :: "string option"
  rr_encryptedPayload :: "string option"

datatype Opened = Open_failed | Open_ok "(bool \<times> string \<times> string option \<times> int) option"

text \<open>\<open>decrypt\<close> is \<open>decryptEnvelopeResult\<close>: it throws, or returns an object that may or may not have the fields of a result.\<close>

definition openResult ::
  "(string \<Rightarrow> RawResult \<Rightarrow> Opened) \<Rightarrow> RawResult \<Rightarrow> Coordinator \<Rightarrow> Coordinator \<times> (AgentReply + SubtaskResult)" where
  "openResult decrypt raw s =
     (case (Option.bind (rr_subtaskId raw) (jsm_get (cs_sharedKeys s)), rr_encryptedPayload raw) of
        (Some (key, _), Some _) \<Rightarrow>
          (case decrypt key raw of
             Open_failed \<Rightarrow> (s, Inl (Reply_error 400 ''envelope_decrypt_failed'' None))
           | Open_ok content \<Rightarrow>
               (let s1 = s\<lparr> cs_sharedKeys := jsm_delete (the (rr_subtaskId raw)) (cs_sharedKeys s) \<rparr> in
                case (content, rr_taskId raw, rr_agentId raw) of
                  (Some (ok, outp, err, d), Some task, Some agent) \<Rightarrow>
                    (s1, Inr \<lparr> sr_subtaskId = the (rr_subtaskId raw), sr_taskId = task, sr_agentId = agent, sr_ok = ok, sr_output = outp,
                              sr_error = err, sr_durationMs = d, sr_snapshotRef = None, sr_reportNonce = rr_reportNonce raw,
                              sr_reportSignature = rr_reportSignature raw \<rparr>)
                | _ \<Rightarrow> (s1, Inl (Reply_error 400 ''envelope_decrypt_failed'' None))))
      | _ \<Rightarrow> (case rr_plain raw of None \<Rightarrow> (s, Inl Reply_threw) | Some body \<Rightarrow> (s, Inr body)))"

record ResultIds =
  ri_record :: string
  ri_blacklistMsg :: string
  ri_offers :: "string list"
  ri_complete :: string
  ri_report :: string
  ri_tx :: string
  ri_earnings :: string
  ri_announce :: string

fun creditClass :: "SwarmQueue.ResourceClass \<Rightarrow> Credits.ResourceClass" where
  "creditClass SwarmQueue.Cpu = Credits.Cpu"
| "creditClass SwarmQueue.Gpu = Credits.Gpu"

definition contributionReport :: "ResultIds \<Rightarrow> ms \<Rightarrow> string \<Rightarrow> SubtaskResult \<Rightarrow> Subtask \<Rightarrow> ComputeContributionReport" where
  "contributionReport ids now account body t =
     (let rc = resourceClass (st_projectMeta t); seconds = n_div (of_int (sr_durationMs body)) 1000 in
      \<lparr> cr_reportId = ri_report ids, cr_agentId = account, cr_sourceAgentId = Some (sr_agentId body), cr_taskId = sr_taskId body,
        cr_resourceClass = creditClass rc, cr_cpuSeconds = (if rc = SwarmQueue.Cpu then seconds else 0),
        cr_gpuSeconds = (if rc = SwarmQueue.Gpu then seconds else 0), cr_success = sr_ok body,
        cr_qualityScore = (if sr_ok body then 1 else fl (6 / 10)), cr_timestampMs = now \<rparr>)"

definition earningsEvent :: "Env \<Rightarrow> string \<Rightarrow> SubtaskResult \<Rightarrow> Subtask \<Rightarrow> ChainEvent" where
  "earningsEvent env account body t = (queueEvent Earnings_accrual (sr_taskId body) (Some (sr_subtaskId body)) account)
     \<lparr> ce_coordinatorId := Some (co_peerId (env_self env)),
       ce_payloadJson := Some (json_text (JObj [(''sourceAgentId'', JStr (sr_agentId body)), (''accountId'', JStr account),
         (''credits'', JNum (if sr_ok body then 5 else 2)), (''durationMs'', JNum (sr_durationMs body)), (''ok'', JBool (sr_ok body)),
         (''resourceClass'', JStr (resource_name (resourceClass (st_projectMeta t))))])) \<rparr>"

text \<open>The payment for a subtask that was in the queue; \<open>False\<close> where \<open>accrueCredits\<close> throws.\<close>

definition payResult :: "Env \<Rightarrow> ResultIds \<Rightarrow> ms \<Rightarrow> SubtaskResult \<Rightarrow> Subtask option \<Rightarrow> Coordinator \<Rightarrow> Coordinator \<times> bool" where
  "payResult env ids now body subtask s =
     (case subtask of
        None \<Rightarrow> (s, True)
      | Some t \<Rightarrow>
          (let account = rewardAccountForAgent (sr_agentId body) (cs_credits s);
               (st, tx) = accrueCredits (ri_tx ids) now (contributionReport ids now account body t)
                 \<lparr> queuedTasks = length (tasks (cs_queue s)), activeAgents = length (agents (cs_queue s)) \<rparr> (cs_credits s);
               s1 = s\<lparr> cs_credits := st \<rparr> in
           case tx of
             Inl _ \<Rightarrow> (s1, False)
           | Inr _ \<Rightarrow> (updFed (appendEvent env (earningsEvent env account body t) (ri_earnings ids) now) s1, True)))"

text \<open>Forwarding to the coordinator the subtask came from, and the announcement.\<close>

definition announceResult :: "Env \<Rightarrow> ResultIds \<Rightarrow> ms \<Rightarrow> SubtaskResult \<Rightarrow> Coordinator \<Rightarrow> Coordinator \<times> Effect list" where
  "announceResult env ids now body s =
     (let announce = Broadcast (createMessage (env_crypto env) (ri_announce ids) now Msg_result_announce (co_peerId (env_self env))
            [(''taskId'', JStr (sr_taskId body)), (''subtaskId'', JStr (sr_subtaskId body)), (''ok'', JBool (sr_ok body))]
            (co_privateKeyPem (env_self env)) 30000) in
      case jsm_get (fd_taskOriginMap (cs_fed s)) (sr_subtaskId body) of
        Some (coordinatorId, url) \<Rightarrow>
          if coordinatorId \<noteq> co_peerId (env_self env)
          then (updFed (\<lambda>fed. fed\<lparr> fd_taskOriginMap := jsm_delete (sr_subtaskId body) (fd_taskOriginMap fed) \<rparr>) s, [Forward url body, announce])
          else (s, [announce])
      | None \<Rightarrow> (s, [announce]))"

definition completeResult :: "Env \<Rightarrow> ResultIds \<Rightarrow> ms \<Rightarrow> SubtaskResult \<Rightarrow> Coordinator \<Rightarrow> Coordinator \<times> AgentReply \<times> Effect list" where
  "completeResult env ids now body s =
     (let subtask = getSubtask (sr_subtaskId body) (cs_queue s);
          s1 = updQueue (SwarmQueue.complete body) s;
          s2 = s1\<lparr> cs_behavior := recordTaskResult (env_crypto env) (env_behaviorWindow env) (sr_agentId body) (sr_ok body) (sr_output body)
                 (sr_durationMs body) now (cs_behavior s1) \<rparr>;
          (s3, out1) = enforce env (ri_record ids) (ri_blacklistMsg ids) now (sr_agentId body) s2;
          (t', q', released) = recordCompletionAndRelease (sr_subtaskId body) (sr_output body)
             (\<lambda>st opts. enqueueSubtask (Some (st_id st)) st opts [] now) (cs_deps s3) (cs_queue s3);
          s4 = (updQueue (\<lambda>_. q') s3)\<lparr> cs_deps := t' \<rparr>;
          out2 = map (offerMessage env now) (zip (ri_offers ids) released);
          s5 = updFed (appendEvent env (queueEvent Task_complete (sr_taskId body) (Some (sr_subtaskId body)) (sr_agentId body)) (ri_complete ids) now) s4;
          (s6, paid) = payResult env ids now body subtask s5 in
      if \<not> paid then (s6, Reply_threw, out1 @ out2)
      else (let (s7, out3) = announceResult env ids now body s6 in (s7, Result_ok, out1 @ out2 @ out3)))"

definition resultRoute ::
  "Env \<Rightarrow> (string \<Rightarrow> RawResult \<Rightarrow> Opened) \<Rightarrow> ResultIds \<Rightarrow> ms \<Rightarrow> (string, HeaderValue) jsmap \<Rightarrow> string option \<Rightarrow> RawResult \<Rightarrow> Coordinator \<Rightarrow>
   Coordinator \<times> AgentReply \<times> Effect list" where
  "resultRoute env decrypt ids now headers ip raw s0 =
     (let (s, r) = authenticate env headers ''/result'' ip now s0 in
      if r = Rejected then (s, Reply_error 401 ''signature_invalid'' None, [])
      else if r = Threw then (s, Reply_threw, [])
      else (case openResult decrypt raw s of
          (s1, Inl reply) \<Rightarrow> (s1, reply, [])
        | (s1, Inr body) \<Rightarrow>
            (case authFault r (sr_agentId body) of
               Some reply \<Rightarrow> (s1, reply, [])
             | None \<Rightarrow>
                 (let (s2, blocked) = agentBlacklisted now (sr_agentId body) s1 in
                  case blocked of
                    Some rec \<Rightarrow> (s2, Reply_error 403 ''agent_blacklisted'' (Some (be_reason (fr_content rec))), [])
                  | None \<Rightarrow> completeResult env ids now body s2))))"

section \<open>Frames\<close>

lemma updFed_simps [simp]:
  "mx_fed (cs_mesh (updFed f s)) = f (cs_fed s)" "cs_windows (updFed f s) = cs_windows s" "cs_nonces (updFed f s) = cs_nonces s"
  "cs_securityLog (updFed f s) = cs_securityLog s" "cs_behavior (updFed f s) = cs_behavior s" "cs_anomalyLog (updFed f s) = cs_anomalyLog s"
  "cs_blacklister (updFed f s) = cs_blacklister s" "cs_deps (updFed f s) = cs_deps s" "cs_credits (updFed f s) = cs_credits s"
  "cs_lastAssigned (updFed f s) = cs_lastAssigned s" "cs_sharedKeys (updFed f s) = cs_sharedKeys s"
  "cs_manifests (updFed f s) = cs_manifests s" "cs_diagnostics (updFed f s) = cs_diagnostics s"
  "cs_mesh (updFed f s) = (cs_mesh s)\<lparr> mx_fed := f (cs_fed s) \<rparr>"
  by (simp_all add: updFed_def)

lemma appendEvent_simps [simp]:
  "fd_queue (appendEvent env e u now fed) = fd_queue fed" "fd_agentCapabilities (appendEvent env e u now fed) = fd_agentCapabilities fed"
  "fd_blacklist (appendEvent env e u now fed) = fd_blacklist fed" "fd_mesh (appendEvent env e u now fed) = fd_mesh fed"
  "fd_taskOriginMap (appendEvent env e u now fed) = fd_taskOriginMap fed" "fd_seenIds (appendEvent env e u now fed) = fd_seenIds fed"
  "fd_peerScore (appendEvent env e u now fed) = fd_peerScore fed"
  by (simp_all add: appendEvent_def)

text \<open>Authentication touches windows, nonces, the log and the tracker only.\<close>

definition auth_only :: "Coordinator \<Rightarrow> Coordinator \<Rightarrow> bool" where
  "auth_only s s' \<longleftrightarrow> (\<exists>w n l b. s' = s\<lparr> cs_windows := w, cs_nonces := n, cs_securityLog := l, cs_behavior := b \<rparr>)"

lemma authenticate_only: "authenticate env headers route ip now s = (s', r) \<Longrightarrow> auth_only s s'"
  by (auto simp: authenticate_def auth_only_def case_prod_beta Let_def)

lemma auth_only_simps:
  assumes "auth_only s s'"
  shows "cs_mesh s' = cs_mesh s" "cs_deps s' = cs_deps s" "cs_credits s' = cs_credits s" "cs_lastAssigned s' = cs_lastAssigned s"
    "cs_sharedKeys s' = cs_sharedKeys s" "cs_blacklister s' = cs_blacklister s" "cs_manifests s' = cs_manifests s"
    "cs_diagnostics s' = cs_diagnostics s" "cs_anomalyLog s' = cs_anomalyLog s"
  using assms by (auto simp: auth_only_def)

text \<open>An unsigned request passes, a signed one only as the agent whose key verifies it.\<close>

lemma authenticate_unsigned:
  "extractSignedHeaders headers = None \<Longrightarrow> authenticate env headers route ip now s = (s, Unsigned)"
  by (simp add: authenticate_def verifyAgentRequest_def)

definition signed_by :: "Env \<Rightarrow> (string, HeaderValue) jsmap \<Rightarrow> string \<Rightarrow> string \<Rightarrow> Coordinator \<Rightarrow> bool" where
  "signed_by env headers route a s \<longleftrightarrow> (\<exists>signed c key. extractSignedHeaders headers = Some signed \<and> x_agent_id signed = a \<and>
     jsm_get (cs_caps s) a = Some c \<and> ag_publicKeyPem c = Some key \<and>
     ed_verify (env_crypto env) (canonicalize (x_timestamp_ms signed) (x_nonce signed) ''POST'' route (x_body_sha256 signed))
       (x_signature signed) key = Some True)"

lemma verifyIdentity_key:
  assumes "verifyIdentity cr tn cfg signed p n1 n2 st = (st', Authenticated a nonce)"
  shows "x_agent_id signed = a \<and> (\<exists>key. jsm_get (publicKeys st) a = Some (Some key) \<and>
    ed_verify cr (canonicalize (x_timestamp_ms signed) (x_nonce signed) ''POST'' p (x_body_sha256 signed)) (x_signature signed) key = Some True)"
proof (cases "jsm_get (publicKeys st) (x_agent_id signed)")
  case None
  then show ?thesis using assms by (simp add: verifyIdentity_def Let_def)
next
  case (Some k)
  then show ?thesis using assms
    by (cases k) (auto simp: verifyIdentity_def verifySignedRequest_def Let_def split: if_splits option.splits sum.splits prod.splits bool.splits)
qed

lemma jsm_get_map: "jsm_get (map (\<lambda>(k, c). (k, f c)) m) k = map_option f (jsm_get m k)"
  by (simp add: jsm_get_def map_of_map)

lemma authenticate_signed:
  assumes "authenticate env headers route ip now s = (s', Authenticated a nonce)"
  shows "signed_by env headers route a s"
proof -
  let ?st = "\<lparr> windows = cs_windows s, nonces = cs_nonces s, publicKeys = map (\<lambda>(k, c). (k, ag_publicKeyPem c)) (cs_caps s),
              securityLog = cs_securityLog s, violations = [] \<rparr>"
  have v: "\<exists>st. verifyAgentRequest (env_crypto env) (env_toNumber env) (env_auth env) (extractSignedHeaders headers) route ip now now now ?st =
      (st, Authenticated a nonce)"
    using assms by (auto simp: authenticate_def case_prod_beta Let_def prod_eq_iff)
  then obtain signed where h: "extractSignedHeaders headers = Some signed"
    by (cases "extractSignedHeaders headers") (auto simp: verifyAgentRequest_def)
  with v obtain st st' where i: "verifyIdentity (env_crypto env) (env_toNumber env) (env_auth env) signed route now now st = (st', Authenticated a nonce)"
    and k: "publicKeys st = publicKeys ?st"
    by (auto simp: verifyAgentRequest_def Let_def case_prod_beta split: if_splits)
  have "\<exists>c key. jsm_get (cs_caps s) a = Some c \<and> ag_publicKeyPem c = Some key \<and>
     ed_verify (env_crypto env) (canonicalize (x_timestamp_ms signed) (x_nonce signed) ''POST'' route (x_body_sha256 signed)) (x_signature signed) key = Some True"
    using verifyIdentity_key [OF i] unfolding k by (auto simp: jsm_get_map)
  then show ?thesis using verifyIdentity_key [OF i] h unfolding signed_by_def by blast
qed

text \<open>A look at the blacklist.\<close>

lemma agentBlacklisted_eq:
  "agentBlacklisted now a s = (updFed (\<lambda>fed. fed\<lparr> fd_blacklist := fst (activeBlacklistRecord now a (fd_blacklist fed)) \<rparr>) s,
     snd (activeBlacklistRecord now a (fd_blacklist (cs_fed s))))"
  by (simp add: agentBlacklisted_def case_prod_beta Let_def updFed_def)

section \<open>Pulling\<close>

lemma claim_requeue_leases:
  assumes inv: "queue_inv q" "named_claims q" and c: "claim a m now ts q = (q1, Some t)"
  shows "abs_leases (fst (requeue (st_id t) q1)) = abs_leases q"
proof -
  have g: "abs_leases q (st_id t) = Some None" "abs_leases q1 = (abs_leases q)(st_id t \<mapsto> Some a)"
    using claim_refines [OF inv, of a m now ts] c by (auto simp: lease_step_Granted)
  have inv1: "queue_inv q1" using queue_exec_inv [OF inv(1), of "Claim a m now ts"] c by simp
  have "abs_leases (fst (requeue (st_id t) q1)) = (\<lambda>i. if i \<in> {st_id t} then Some None else abs_leases q1 i)"
    using requeue_refines [OF inv1, of "st_id t"] g by (auto elim!: lease_stepE)
  then show ?thesis using g by (auto simp: fun_eq_iff)
qed

definition handed_out :: "AgentReply \<Rightarrow> bool" where
  "handed_out r \<longleftrightarrow> (\<exists>t. r = Pull_subtask (Some t)) \<or> (\<exists>e. r = Pull_envelope e)"

lemma deliverTask_facts:
  assumes "deliverTask env encrypt uuid now a c t s = (s', reply)"
  shows "handed_out reply" "cs_queue s' = cs_queue s" "reply = Pull_subtask (Some t) \<or> (\<exists>e. reply = Pull_envelope e)"
    "fd_ordering (cs_fed s') = fst (Ledger.append (env_crypto env) (queueEvent Task_claim (st_taskId t) (Some (st_id t)) a) uuid now (fd_ordering (cs_fed s)))"
    "cs_lastAssigned s' = jsm_set a now (cs_lastAssigned s)"
  using assms by (auto simp: deliverTask_def Let_def handed_out_def appendEvent_def split: option.splits if_splits)

text \<open>What a pull answers, and what it does to the queue.\<close>

definition eligible :: "Env \<Rightarrow> ms \<Rightarrow> string \<Rightarrow> AgentCapability \<Rightarrow> Subtask \<Rightarrow> Coordinator \<Rightarrow> bool" where
  "eligible env now a c t s \<longleftrightarrow>
     (let d = evaluateAgentPowerPolicy (powerInput env now a c s) in
      pd_allowCoordinatorTasks d \<and> \<not> (truthy_int (pd_deferMs d) \<and> the (pd_deferMs d) > 0) \<and>
      (truthy_str (tenantId (st_projectMeta t)) \<longrightarrow> ag_sandboxMode c \<noteq> Sandbox_none) \<and>
      (pd_allowSmallTasksOnly d = Some True \<longrightarrow> st_timeoutMs t \<le> 10000))"

lemma powerInput_cong: "cs_lastAssigned s' = cs_lastAssigned s \<Longrightarrow> powerInput env now a c s' = powerInput env now a c s"
  by (simp add: powerInput_def)

lemma updQueue_simps [simp]:
  "mx_fed (cs_mesh (updQueue f s)) = (cs_fed s)\<lparr> fd_queue := f (cs_queue s) \<rparr>" "cs_lastAssigned (updQueue f s) = cs_lastAssigned s"
  "cs_deps (updQueue f s) = cs_deps s" "cs_credits (updQueue f s) = cs_credits s" "cs_blacklister (updQueue f s) = cs_blacklister s"
  "cs_behavior (updQueue f s) = cs_behavior s" "cs_sharedKeys (updQueue f s) = cs_sharedKeys s"
  "cs_mesh (updQueue f s) = (cs_mesh s)\<lparr> mx_fed := (cs_fed s)\<lparr> fd_queue := f (cs_queue s) \<rparr> \<rparr>"
  by (simp_all add: updQueue_def)

lemma claim_grant:
  assumes "queue_inv q" "named_claims q" "claim a m now ts q = (q1, Some t)"
  shows "abs_leases q (st_id t) = Some None \<and> abs_leases q1 = (abs_leases q)(st_id t \<mapsto> Some a)"
  using claim_refines [OF assms(1,2), of a m now ts] assms(3) by (auto simp: lease_step_Granted)

lemma claim_none: "claim a m now ts q = (q1, None) \<Longrightarrow> q1 = q"
  by (auto simp: claim_def Let_def split: option.splits)

lemma pullTask_facts:
  assumes p: "pullTask env encrypt uuid now a c d s = (s', reply)" and inv: "queue_inv (cs_queue s)" "named_claims (cs_queue s)"
  shows "(handed_out reply \<longrightarrow> (\<exists>t. snd (claim a (ag_activeModel c) now now (cs_queue s)) = Some t \<and>
       \<not> (needsSandbox t (ag_sandboxMode c) \<and> ag_sandboxMode c = Sandbox_none) \<and>
       \<not> (pd_allowSmallTasksOnly d = Some True \<and> st_timeoutMs t > 10000) \<and>
       abs_leases (cs_queue s) (st_id t) = Some None \<and> abs_leases (cs_queue s') = (abs_leases (cs_queue s))(st_id t \<mapsto> Some a) \<and>
       (reply = Pull_subtask (Some t) \<or> (\<exists>e. reply = Pull_envelope e)))) \<and>
     (\<not> handed_out reply \<longrightarrow> abs_leases (cs_queue s') = abs_leases (cs_queue s))"
proof -
  obtain q1 task where cl: "claim a (ag_activeModel c) now now (cs_queue s) = (q1, task)" by fastforce
  show ?thesis
  proof (cases task)
    case None
    then show ?thesis using p cl claim_none [of a "ag_activeModel c" now now "cs_queue s" q1] by (auto simp: pullTask_def handed_out_def)
  next
    case (Some t)
    note g = claim_grant [OF inv cl [unfolded Some]]
    have cl': "claim a (ag_activeModel c) now now (cs_queue s) = (q1, Some t)" using cl Some by simp
    show ?thesis
    proof (cases "(needsSandbox t (ag_sandboxMode c) \<and> ag_sandboxMode c = Sandbox_none) \<or> (pd_allowSmallTasksOnly d = Some True \<and> st_timeoutMs t > 10000)")
      case True
      then have "cs_queue s' = fst (requeue (st_id t) q1)" "\<not> handed_out reply"
        using p cl' by (auto simp: pullTask_def handed_out_def Let_def split: if_splits)
      then show ?thesis using claim_requeue_leases [OF inv cl'] by simp
    next
      case False
      then have "deliverTask env encrypt uuid now a c t (updQueue (\<lambda>_. q1) s) = (s', reply)" using p cl' by (auto simp: pullTask_def Let_def)
      from deliverTask_facts [OF this] show ?thesis using g cl' False by auto
    qed
  qed
qed

lemma authFault_None: "authFault r a = None \<Longrightarrow> r = Unsigned \<or> (\<exists>n. r = Authenticated a n)"
  by (auto simp: authFault_def split: AuthResult.splits if_splits)

lemma auth_origin:
  assumes "authenticate env headers route ip now s = (s', r)" "authFault r a = None"
  shows "extractSignedHeaders headers = None \<or> signed_by env headers route a s"
proof (cases "r = Unsigned")
  case True
  have "extractSignedHeaders headers = None" if "r = Unsigned"
  proof (rule ccontr)
    assume "extractSignedHeaders headers \<noteq> None"
    then obtain signed where h: "extractSignedHeaders headers = Some signed" by blast
    have n: "snd (verifyIdentity cr tn cfg signed p n1 n2 st) \<noteq> Unsigned" for cr tn cfg p n1 n2 st
      by (auto simp: verifyIdentity_def Let_def split: if_splits option.splits sum.splits prod.splits)
    have "snd (authenticate env headers route ip now s) \<noteq> Unsigned"
      using n by (auto simp: authenticate_def h verifyAgentRequest_def Let_def case_prod_beta)
    with that assms(1) show False by simp
  qed
  with True show ?thesis by blast
next
  case False
  with authFault_None [OF assms(2)] obtain n where "r = Authenticated a n" by blast
  then show ?thesis using authenticate_signed assms(1) by blast
qed

text \<open>
  C5: A subtask leaves the queue only to an agent that may have it. When \<open>POST /pull\<close> hands out a subtask, in plain or in an
  envelope, the caller is a registered agent without an active blacklist record; its request was either unsigned or
  verified under the key registered for that very agent; the power policy allows it work now, small tasks only where
  it says so; a subtask of a tenant goes only to an agent with a sandbox; and the subtask was free in the lease table and
  is now leased to the caller. Whenever the route answers anything else, the lease table is as before.
\<close>

theorem pull_hands_out_safely:
  assumes "pullRoute env encrypt uuid now headers ip a s = (s', reply)" "queue_inv (cs_queue s)" "named_claims (cs_queue s)"
  shows "(handed_out reply \<longrightarrow> (\<exists>c t. jsm_get (cs_caps s) a = Some c \<and> snd (activeBlacklistRecord now a (fd_blacklist (cs_fed s))) = None \<and>
       (extractSignedHeaders headers = None \<or> signed_by env headers ''/pull'' a s) \<and> eligible env now a c t s \<and>
       abs_leases (cs_queue s) (st_id t) = Some None \<and> abs_leases (cs_queue s') = (abs_leases (cs_queue s))(st_id t \<mapsto> Some a) \<and>
       (reply = Pull_subtask (Some t) \<or> (\<exists>e. reply = Pull_envelope e)))) \<and>
     (\<not> handed_out reply \<longrightarrow> abs_leases (cs_queue s') = abs_leases (cs_queue s))"
proof -
  obtain s1 r where au: "authenticate env headers ''/pull'' ip now s = (s1, r)" by fastforce
  note f = auth_only_simps [OF authenticate_only [OF au]]
  let ?bl = "fst (activeBlacklistRecord now a (fd_blacklist (cs_fed s)))"
  let ?s2 = "updFed (\<lambda>fed. fed\<lparr> fd_blacklist := fst (activeBlacklistRecord now a (fd_blacklist fed)) \<rparr>) s1"
  have q2: "cs_queue ?s2 = cs_queue s" by (simp add: f)
  show ?thesis
  proof (cases "authFault r a = None \<and> (\<exists>c. jsm_get (cs_caps s) a = Some c \<and> snd (activeBlacklistRecord now a (fd_blacklist (cs_fed s))) = None \<and>
      pd_allowCoordinatorTasks (evaluateAgentPowerPolicy (powerInput env now a c s)) \<and>
      \<not> (truthy_int (pd_deferMs (evaluateAgentPowerPolicy (powerInput env now a c s))) \<and> the (pd_deferMs (evaluateAgentPowerPolicy (powerInput env now a c s))) > 0))")
    case True
    then obtain c where c: "authFault r a = None" "jsm_get (cs_caps s) a = Some c" "snd (activeBlacklistRecord now a (fd_blacklist (cs_fed s))) = None"
      "pd_allowCoordinatorTasks (evaluateAgentPowerPolicy (powerInput env now a c s))"
      "\<not> (truthy_int (pd_deferMs (evaluateAgentPowerPolicy (powerInput env now a c s))) \<and> the (pd_deferMs (evaluateAgentPowerPolicy (powerInput env now a c s))) > 0)"
      by blast
    let ?d = "evaluateAgentPowerPolicy (powerInput env now a c s)"
    have pw: "powerInput env now a c ?s2 = powerInput env now a c s" by (simp add: powerInput_def f)
    have "pullTask env encrypt uuid now a c ?d ?s2 = (s', reply)"
      using assms(1) au c by (simp add: pullRoute_def agentBlacklisted_eq f pw [simplified f])
    from pullTask_facts [OF this] assms(2,3) q2 have facts: "(handed_out reply \<longrightarrow> (\<exists>t.
       \<not> (needsSandbox t (ag_sandboxMode c) \<and> ag_sandboxMode c = Sandbox_none) \<and> \<not> (pd_allowSmallTasksOnly ?d = Some True \<and> st_timeoutMs t > 10000) \<and>
       abs_leases (cs_queue s) (st_id t) = Some None \<and> abs_leases (cs_queue s') = (abs_leases (cs_queue s))(st_id t \<mapsto> Some a) \<and>
       (reply = Pull_subtask (Some t) \<or> (\<exists>e. reply = Pull_envelope e)))) \<and> (\<not> handed_out reply \<longrightarrow> abs_leases (cs_queue s') = abs_leases (cs_queue s))"
      by auto
    have el: "eligible env now a c t s" if "\<not> (needsSandbox t (ag_sandboxMode c) \<and> ag_sandboxMode c = Sandbox_none)"
      "\<not> (pd_allowSmallTasksOnly ?d = Some True \<and> st_timeoutMs t > 10000)" for t
      using c that by (auto simp: eligible_def Let_def needsSandbox_def)
    show ?thesis using facts el c auth_origin [OF au c(1)] by blast
  next
    case False
    have "\<not> handed_out reply \<and> cs_queue s' = cs_queue s"
    proof (cases "authFault r a")
      case (Some reply')
      then show ?thesis using assms(1) au f
        by (auto simp: pullRoute_def handed_out_def authFault_def split: AuthResult.splits if_splits)
    next
      case None
      then show ?thesis using False assms(1) au f
        by (auto simp: pullRoute_def handed_out_def agentBlacklisted_eq powerInput_def Let_def split: option.splits if_splits)
    qed
    then show ?thesis by simp
  qed
qed

section \<open>Results\<close>

lemma autoBlacklist_frame:
  assumes "autoBlacklist cr self e m now action fed = (fed', msg)"
  shows "fed' = fed\<lparr> fd_blacklist := fd_blacklist fed' \<rparr>"
  using assms by (auto simp: autoBlacklist_def publishRecord_def)

text \<open>Monitoring changes the tracker, its logs and the blacklist.\<close>

lemma enforce_frame:
  assumes "enforce env u1 u2 now a s = (s', out)"
  shows "\<exists>bl. cs_fed s' = (cs_fed s)\<lparr> fd_blacklist := bl \<rparr>" "cs_mesh s' = (cs_mesh s)\<lparr> mx_fed := cs_fed s' \<rparr>" "cs_deps s' = cs_deps s"
    "cs_credits s' = cs_credits s" "cs_lastAssigned s' = cs_lastAssigned s" "cs_sharedKeys s' = cs_sharedKeys s"
    "cs_windows s' = cs_windows s" "cs_nonces s' = cs_nonces s" "cs_manifests s' = cs_manifests s" "cs_diagnostics s' = cs_diagnostics s"
proof -
  obtain ag lg bl where ev: "evaluateAndEnforce (env_crypto env) (env_stringify env) (env_sqrt env) (env_behaviorWindow env) (env_anomaly env)
      a now now (cs_behavior s, cs_anomalyLog s, cs_blacklister s) = (ag, lg, bl)" by (cases "evaluateAndEnforce (env_crypto env) (env_stringify env)
      (env_sqrt env) (env_behaviorWindow env) (env_anomaly env) a now now (cs_behavior s, cs_anomalyLog s, cs_blacklister s)") auto
  have frame: "(\<exists>bl. cs_fed s' = (cs_fed s)\<lparr> fd_blacklist := bl \<rparr>) \<and> cs_mesh s' = (cs_mesh s)\<lparr> mx_fed := cs_fed s' \<rparr> \<and> cs_deps s' = cs_deps s \<and>
    cs_credits s' = cs_credits s \<and> cs_lastAssigned s' = cs_lastAssigned s \<and> cs_sharedKeys s' = cs_sharedKeys s \<and>
    cs_windows s' = cs_windows s \<and> cs_nonces s' = cs_nonces s \<and> cs_manifests s' = cs_manifests s \<and> cs_diagnostics s' = cs_diagnostics s"
  proof (cases "drop (length (blacklisted (cs_blacklister s))) (blacklisted bl)")
    case Nil
    then have s': "s' = s\<lparr> cs_behavior := ag, cs_anomalyLog := lg, cs_blacklister := bl \<rparr>" using assms ev by (simp add: enforce_def)
    show ?thesis by (auto simp: s' intro: exI [of _ "fd_blacklist (cs_fed s)"])
  next
    case (Cons action rest)
    obtain fed msg where ab: "autoBlacklist (env_crypto env) (env_self env) u1 u2 now action (cs_fed s) = (fed, msg)" by fastforce
    have s': "s' = (updFed (\<lambda>_. fed) (s\<lparr> cs_behavior := ag, cs_anomalyLog := lg, cs_blacklister := bl \<rparr>))
        \<lparr> cs_securityLog := cs_securityLog s @ [(Auto_blacklist_triggered, co_peerId (env_self env))] \<rparr>"
      using assms ev Cons ab by (simp add: enforce_def Let_def)
    show ?thesis using autoBlacklist_frame [OF ab] by (auto simp: s' intro: exI [of _ "fd_blacklist fed"])
  qed
  then show "\<exists>bl. cs_fed s' = (cs_fed s)\<lparr> fd_blacklist := bl \<rparr>" "cs_mesh s' = (cs_mesh s)\<lparr> mx_fed := cs_fed s' \<rparr>" "cs_deps s' = cs_deps s"
    "cs_credits s' = cs_credits s" "cs_lastAssigned s' = cs_lastAssigned s" "cs_sharedKeys s' = cs_sharedKeys s"
    "cs_windows s' = cs_windows s" "cs_nonces s' = cs_nonces s" "cs_manifests s' = cs_manifests s" "cs_diagnostics s' = cs_diagnostics s"
    by blast+
qed

lemma enforce_fed:
  assumes "enforce env u1 u2 now a s = (s', out)"
  shows "cs_queue s' = cs_queue s" "cs_caps s' = cs_caps s" "fd_taskOriginMap (cs_fed s') = fd_taskOriginMap (cs_fed s)"
    "fd_ordering (cs_fed s') = fd_ordering (cs_fed s)" "fd_mesh (cs_fed s') = fd_mesh (cs_fed s)"
  using enforce_frame(1) [OF assms] by auto

text \<open>The payment made for a result, as the transactions of every account.\<close>

definition paymentFor :: "ResultIds \<Rightarrow> ms \<Rightarrow> SubtaskResult \<Rightarrow> Subtask option \<Rightarrow> LoadSnapshot \<Rightarrow> CreditStore \<Rightarrow> string \<Rightarrow> CreditTransaction list" where
  "paymentFor ids now body subtask load st account =
     (case subtask of
        None \<Rightarrow> []
      | Some t \<Rightarrow>
          if account = rewardAccountForAgent (sr_agentId body) st
          then [earnTx (ri_tx ids) now account (contributionCredits (contributionReport ids now account body t) load) ''compute_contribution''
                  (Some (sr_taskId body))]
          else [])"

definition loadOf :: "SwarmQueue \<Rightarrow> LoadSnapshot" where
  "loadOf q = \<lparr> queuedTasks = length (tasks q), activeAgents = length (agents q) \<rparr>"

lemma payResult_paid:
  assumes p: "payResult env ids now body subtask s = (s', True)" and fresh: "freshTx (ri_tx ids) (cs_credits s)"
  shows "accountTxs (cs_credits s') account = accountTxs (cs_credits s) account @ paymentFor ids now body subtask (loadOf (cs_queue s)) (cs_credits s) account"
proof (cases subtask)
  case None
  then show ?thesis using p by (simp add: payResult_def paymentFor_def)
next
  case (Some t)
  let ?acc = "rewardAccountForAgent (sr_agentId body) (cs_credits s)"
  let ?r = "contributionReport ids now ?acc body t"
  obtain st tx where a: "accrueCredits (ri_tx ids) now ?r (loadOf (cs_queue s)) (cs_credits s) = (st, tx)" by fastforce
  then obtain tr where tr: "tx = Inr tr" and s': "cs_credits s' = st"
    using p Some by (cases tx) (auto simp: payResult_def Let_def loadOf_def)
  have tx: "tr = earnTx (ri_tx ids) now ?acc (contributionCredits ?r (loadOf (cs_queue s))) ''compute_contribution'' (Some (sr_taskId body))"
    using accrueCredits_tx [of "ri_tx ids" now ?r "loadOf (cs_queue s)" "cs_credits s" tr] a tr by (simp add: contributionReport_def Let_def)
  show ?thesis using accountTxs_accrueCredits [OF fresh, of now ?r "loadOf (cs_queue s)" account] a tr s' Some
    by (simp add: paymentFor_def tx)
qed

lemma announceResult_frame:
  assumes "announceResult env ids now body s = (s', out)"
  shows "cs_queue s' = cs_queue s" "cs_deps s' = cs_deps s" "cs_credits s' = cs_credits s" "cs_caps s' = cs_caps s"
  using assms by (auto simp: announceResult_def Let_def split: option.splits if_splits)

lemma payResult_frame:
  assumes "payResult env ids now body subtask s = (s', ok)"
  shows "cs_queue s' = cs_queue s" "cs_deps s' = cs_deps s" "cs_caps s' = cs_caps s"
  using assms by (auto simp: payResult_def Let_def appendEvent_def split: option.splits sum.splits prod.splits)

lemma completeResult_facts:
  assumes c: "completeResult env ids now body s = (s', reply, out)" and fresh: "freshTx (ri_tx ids) (cs_credits s)"
  shows "\<exists>released. completeAndRelease body now (cs_deps s) (cs_queue s) = (cs_deps s', cs_queue s', released)"
    and "reply = Result_ok \<Longrightarrow> accountTxs (cs_credits s') account = accountTxs (cs_credits s) account @
       paymentFor ids now body (getSubtask (sr_subtaskId body) (cs_queue s)) (loadOf (cs_queue s')) (cs_credits s) account"
    and "reply = Result_ok \<or> reply = Reply_threw"
proof -
  let ?s2 = "(updQueue (SwarmQueue.complete body) s)\<lparr> cs_behavior := recordTaskResult (env_crypto env) (env_behaviorWindow env) (sr_agentId body)
     (sr_ok body) (sr_output body) (sr_durationMs body) now (cs_behavior (updQueue (SwarmQueue.complete body) s)) \<rparr>"
  obtain s3 out1 where e: "enforce env (ri_record ids) (ri_blacklistMsg ids) now (sr_agentId body) ?s2 = (s3, out1)" by fastforce
  obtain t' q' rel where r: "recordCompletionAndRelease (sr_subtaskId body) (sr_output body) (\<lambda>st opts. enqueueSubtask (Some (st_id st)) st opts [] now)
      (cs_deps s3) (cs_queue s3) = (t', q', rel)"
    by (cases "recordCompletionAndRelease (sr_subtaskId body) (sr_output body) (\<lambda>st opts. enqueueSubtask (Some (st_id st)) st opts [] now)
      (cs_deps s3) (cs_queue s3)") auto
  let ?s5 = "updFed (appendEvent env (queueEvent Task_complete (sr_taskId body) (Some (sr_subtaskId body)) (sr_agentId body)) (ri_complete ids) now)
     ((updQueue (\<lambda>_. q') s3)\<lparr> cs_deps := t' \<rparr>)"
  obtain s6 paid where p: "payResult env ids now body (getSubtask (sr_subtaskId body) (cs_queue s)) ?s5 = (s6, paid)" by fastforce
  obtain s7 out3 where an: "announceResult env ids now body s6 = (s7, out3)" by fastforce
  have res: "(s', reply) = (if paid then (s7, Result_ok) else (s6, Reply_threw))"
    using c e r p an by (simp add: completeResult_def Let_def split: if_splits)
  have q3: "cs_queue s3 = SwarmQueue.complete body (cs_queue s)" "cs_deps s3 = cs_deps s" "cs_credits s3 = cs_credits s"
    using enforce_fed(1) [OF e] enforce_frame(3,4) [OF e] by simp_all
  have q5: "cs_queue ?s5 = q'" "cs_deps ?s5 = t'" "cs_credits ?s5 = cs_credits s" by (simp_all add: q3)
  have q6: "cs_queue s6 = q'" "cs_deps s6 = t'" using payResult_frame [OF p] q5 by simp_all
  have q7: "cs_queue s7 = q'" "cs_deps s7 = t'" "cs_credits s7 = cs_credits s6" using announceResult_frame [OF an] q6 by simp_all
  have fin: "cs_queue s' = q'" "cs_deps s' = t'" using res q6 q7 by (auto split: if_splits)
  show "\<exists>released. completeAndRelease body now (cs_deps s) (cs_queue s) = (cs_deps s', cs_queue s', released)"
    using r by (simp add: completeAndRelease_def q3 fin)
  show "reply = Result_ok \<or> reply = Reply_threw" using res by (auto split: if_splits)
  show "accountTxs (cs_credits s') account = accountTxs (cs_credits s) account @
       paymentFor ids now body (getSubtask (sr_subtaskId body) (cs_queue s)) (loadOf (cs_queue s')) (cs_credits s) account" if "reply = Result_ok"
  proof -
    have pd: "paid" "s' = s7" using res that by (auto split: if_splits)
    have "freshTx (ri_tx ids) (cs_credits ?s5)" using fresh q5 by simp
    moreover have "payResult env ids now body (getSubtask (sr_subtaskId body) (cs_queue s)) ?s5 = (s6, True)" using p pd(1) by simp
    ultimately show ?thesis using payResult_paid [of env ids now body "getSubtask (sr_subtaskId body) (cs_queue s)" ?s5 s6 account]
      q5 q7 fin pd by simp
  qed
qed

lemma openResult_frame:
  assumes "openResult decrypt raw s = (s', x)"
  shows "cs_mesh s' = cs_mesh s" "cs_deps s' = cs_deps s" "cs_credits s' = cs_credits s" "cs_blacklister s' = cs_blacklister s"
    "cs_lastAssigned s' = cs_lastAssigned s" "cs_behavior s' = cs_behavior s"
  using assms by (auto simp: openResult_def Let_def split: option.splits prod.splits Opened.splits)

text \<open>What it takes for a result to be accepted: the state \<open>s3\<close> differs from \<open>s\<close> in bookkeeping only.\<close>

lemma accepted_result:
  assumes "resultRoute env decrypt ids now headers ip raw s = (s', Result_ok, out)"
  obtains body s1 r s2 s3 where "authenticate env headers ''/result'' ip now s = (s1, r)" "openResult decrypt raw s1 = (s2, Inr body)"
    "snd (activeBlacklistRecord now (sr_agentId body) (fd_blacklist (cs_fed s))) = None"
    "extractSignedHeaders headers = None \<or> signed_by env headers ''/result'' (sr_agentId body) s"
    "completeResult env ids now body s3 = (s', Result_ok, out)"
    "cs_deps s3 = cs_deps s" "cs_queue s3 = cs_queue s" "cs_credits s3 = cs_credits s" "fd_taskOriginMap (cs_fed s3) = fd_taskOriginMap (cs_fed s)"
proof -
  obtain s1 r where au: "authenticate env headers ''/result'' ip now s = (s1, r)" by fastforce
  note f1 = auth_only_simps [OF authenticate_only [OF au]]
  obtain s2 x where op: "openResult decrypt raw s1 = (s2, x)" by fastforce
  note f2 = openResult_frame [OF op]
  have r: "r \<noteq> Rejected" "r \<noteq> Threw" using assms(1) au by (auto simp: resultRoute_def)
  obtain body where body: "x = Inr body"
  proof (cases x)
    case (Inl reply)
    have "reply \<noteq> Result_ok" using op Inl by (auto simp: openResult_def Let_def split: option.splits prod.splits Opened.splits)
    then show ?thesis using assms(1) au op r Inl by (simp add: resultRoute_def)
  qed (rule that)
  have af: "authFault r (sr_agentId body) = None"
  proof (cases "authFault r (sr_agentId body)")
    case (Some reply)
    then have "reply \<noteq> Result_ok" by (auto simp: authFault_def split: AuthResult.splits if_splits)
    then show ?thesis using assms(1) au op r body Some by (simp add: resultRoute_def)
  qed simp
  let ?act = "activeBlacklistRecord now (sr_agentId body) (fd_blacklist (cs_fed s))"
  let ?s3 = "updFed (\<lambda>fed. fed\<lparr> fd_blacklist := fst (activeBlacklistRecord now (sr_agentId body) (fd_blacklist fed)) \<rparr>) s2"
  have nb: "snd ?act = None"
    using assms(1) au op r body af f1 f2 by (cases "snd ?act") (auto simp: resultRoute_def agentBlacklisted_eq)
  have c: "completeResult env ids now body ?s3 = (s', Result_ok, out)"
    using assms(1) au op r body af nb f1 f2 by (simp add: resultRoute_def agentBlacklisted_eq)
  have s3: "cs_deps ?s3 = cs_deps s" "cs_queue ?s3 = cs_queue s" "cs_credits ?s3 = cs_credits s"
    "fd_taskOriginMap (cs_fed ?s3) = fd_taskOriginMap (cs_fed s)" by (simp_all add: f1 f2)
  show thesis using that [OF au op [unfolded body] nb auth_origin [OF au af] c s3] .
qed

text \<open>
  C6: What an accepted result does. Whenever \<open>POST /result\<close> answers ok, the body was opened from the request, its agent has no
  active blacklist record, and the request was unsigned or verified under that agent's key. Then the queue and the
  dependency tracker are exactly those after completing the subtask and releasing what waited for it, and if the
  subtask was in the queue, the reward account of the reporting agent receives exactly one transaction, of the
  credits computed from the reported duration; no other account changes.
\<close>

theorem result_completes_and_pays:
  assumes "resultRoute env decrypt ids now headers ip raw s = (s', Result_ok, out)" "freshTx (ri_tx ids) (cs_credits s)"
  shows "\<exists>body. (\<exists>s1 r s2. authenticate env headers ''/result'' ip now s = (s1, r) \<and> openResult decrypt raw s1 = (s2, Inr body)) \<and>
    snd (activeBlacklistRecord now (sr_agentId body) (fd_blacklist (cs_fed s))) = None \<and>
    (extractSignedHeaders headers = None \<or> signed_by env headers ''/result'' (sr_agentId body) s) \<and>
    (\<exists>released. completeAndRelease body now (cs_deps s) (cs_queue s) = (cs_deps s', cs_queue s', released)) \<and>
    (\<forall>account. accountTxs (cs_credits s') account = accountTxs (cs_credits s) account @
       paymentFor ids now body (getSubtask (sr_subtaskId body) (cs_queue s)) (loadOf (cs_queue s')) (cs_credits s) account)"
proof -
  from accepted_result [OF assms(1)] obtain body s1 r s2 s3 where
    a: "authenticate env headers ''/result'' ip now s = (s1, r)" "openResult decrypt raw s1 = (s2, Inr body)"
    "snd (activeBlacklistRecord now (sr_agentId body) (fd_blacklist (cs_fed s))) = None"
    "extractSignedHeaders headers = None \<or> signed_by env headers ''/result'' (sr_agentId body) s" and
    c: "completeResult env ids now body s3 = (s', Result_ok, out)" and
    s3: "cs_deps s3 = cs_deps s" "cs_queue s3 = cs_queue s" "cs_credits s3 = cs_credits s" .
  have fr: "freshTx (ri_tx ids) (cs_credits s3)" using assms(2) s3 by simp
  show ?thesis using completeResult_facts(1) [OF c fr] completeResult_facts(2) [OF c fr] a unfolding s3 by blast
qed

section \<open>Whom a result pays\<close>

lemma accrueCredits_ok:
  assumes "pgStore st = None \<Longrightarrow> cr_reportId r \<notin> set (seenReports (creditEngine st))"
  shows "\<exists>st' tx. accrueCredits u now r load st = (st', Inr tx)"
  using assms by (cases "pgStore st") (auto simp: accrueCredits_def accrue_def Let_def)

lemma completeResult_ok:
  assumes "pgStore (cs_credits s) = None \<Longrightarrow> ri_report ids \<notin> set (seenReports (creditEngine (cs_credits s)))"
  shows "\<exists>s' out. completeResult env ids now body s = (s', Result_ok, out)"
proof -
  have paid: "\<exists>s6. payResult env ids now body subtask s5 = (s6, True)" if same: "cs_credits s5 = cs_credits s" for subtask s5
  proof (cases subtask)
    case None
    then show ?thesis by (simp add: payResult_def)
  next
    case (Some t)
    let ?acc = "rewardAccountForAgent (sr_agentId body) (cs_credits s5)"
    have "pgStore (cs_credits s5) = None \<Longrightarrow> cr_reportId (contributionReport ids now ?acc body t) \<notin> set (seenReports (creditEngine (cs_credits s5)))"
      using assms same by (simp add: contributionReport_def Let_def)
    from accrueCredits_ok [OF this] obtain st tx where "accrueCredits (ri_tx ids) now (contributionReport ids now ?acc body t)
        \<lparr> queuedTasks = length (tasks (cs_queue s5)), activeAgents = length (agents (cs_queue s5)) \<rparr> (cs_credits s5) = (st, Inr tx)"
      by blast
    then show ?thesis using Some by (simp add: payResult_def Let_def)
  qed
  let ?s2 = "(updQueue (SwarmQueue.complete body) s)\<lparr> cs_behavior := recordTaskResult (env_crypto env) (env_behaviorWindow env) (sr_agentId body)
     (sr_ok body) (sr_output body) (sr_durationMs body) now (cs_behavior (updQueue (SwarmQueue.complete body) s)) \<rparr>"
  obtain s3 out1 where e: "enforce env (ri_record ids) (ri_blacklistMsg ids) now (sr_agentId body) ?s2 = (s3, out1)" by fastforce
  obtain t' q' rel where r: "recordCompletionAndRelease (sr_subtaskId body) (sr_output body) (\<lambda>st opts. enqueueSubtask (Some (st_id st)) st opts [] now)
      (cs_deps s3) (cs_queue s3) = (t', q', rel)"
    by (cases "recordCompletionAndRelease (sr_subtaskId body) (sr_output body) (\<lambda>st opts. enqueueSubtask (Some (st_id st)) st opts [] now)
      (cs_deps s3) (cs_queue s3)") auto
  let ?s5 = "updFed (appendEvent env (queueEvent Task_complete (sr_taskId body) (Some (sr_subtaskId body)) (sr_agentId body)) (ri_complete ids) now)
     ((updQueue (\<lambda>_. q') s3)\<lparr> cs_deps := t' \<rparr>)"
  have "cs_credits ?s5 = cs_credits s" using enforce_frame(4) [OF e] by simp
  from paid [OF this, of "getSubtask (sr_subtaskId body) (cs_queue s)"] obtain s6 where
    p: "payResult env ids now body (getSubtask (sr_subtaskId body) (cs_queue s)) ?s5 = (s6, True)" by blast
  obtain s7 out3 where an: "announceResult env ids now body s6 = (s7, out3)" by fastforce
  show ?thesis using e r p an by (simp add: completeResult_def Let_def)
qed

text \<open>An unsigned result in plain goes straight to completion, and is accepted.\<close>

lemma unsigned_route:
  assumes "extractSignedHeaders headers = None" "rr_encryptedPayload raw = None" "rr_plain raw = Some body"
    "snd (activeBlacklistRecord now (sr_agentId body) (fd_blacklist (cs_fed s))) = None"
  shows "resultRoute env decrypt ids now headers ip raw s = completeResult env ids now body
    (updFed (\<lambda>fed. fed\<lparr> fd_blacklist := fst (activeBlacklistRecord now (sr_agentId body) (fd_blacklist fed)) \<rparr>) s)"
proof -
  have "authenticate env headers ''/result'' ip now s = (s, Unsigned)" using authenticate_unsigned [OF assms(1)] .
  moreover have "openResult decrypt raw s = (s, Inr body)" using assms(2,3) by (simp add: openResult_def split: option.splits prod.splits)
  ultimately show ?thesis using assms(4) by (simp add: resultRoute_def agentBlacklisted_eq authFault_def)
qed

lemma unsigned_result:
  assumes "extractSignedHeaders headers = None" "rr_encryptedPayload raw = None" "rr_plain raw = Some body"
    "snd (activeBlacklistRecord now (sr_agentId body) (fd_blacklist (cs_fed s))) = None"
    "pgStore (cs_credits s) = None \<longrightarrow> ri_report ids \<notin> set (seenReports (creditEngine (cs_credits s)))"
  shows "\<exists>s' out. resultRoute env decrypt ids now headers ip raw s = (s', Result_ok, out)"
proof -
  let ?s3 = "updFed (\<lambda>fed. fed\<lparr> fd_blacklist := fst (activeBlacklistRecord now (sr_agentId body) (fd_blacklist fed)) \<rparr>) s"
  have "pgStore (cs_credits ?s3) = None \<Longrightarrow> ri_report ids \<notin> set (seenReports (creditEngine (cs_credits ?s3)))" using assms(5) by simp
  from completeResult_ok [OF this] show ?thesis unfolding unsigned_route [OF assms(1-4)] by blast
qed

text \<open>A duration of minus one second or less costs the account credits.\<close>

lemma fl_le_neg:
  assumes "x \<le> - (1 / 2 ^ k)" "k \<le> 10"
  shows "fl x \<le> - (1 / 2 ^ k)"
  using fl_mono [OF assms(1)] fl_dyadic [of "- 1" k] assms(2) by simp

lemma n_mul_le_neg:
  assumes "x \<le> - (1 / 2 ^ k)" "1 / 2 ^ j \<le> y" "k + j \<le> 10"
  shows "n_mul x y \<le> - (1 / 2 ^ (k + j))"
proof -
  have "0 \<le> 1 / (2 :: rat) ^ k" by simp
  then have "x \<le> 0" using assms(1) by linarith
  then have "x * y \<le> - (1 / 2 ^ k) * (1 / 2 ^ j)"
    using mult_mono [of "1 / 2 ^ k" "- x" "1 / 2 ^ j" y] assms by simp
  then have "x * y \<le> - (1 / 2 ^ (k + j))" by (simp add: power_add)
  then show ?thesis unfolding n_mul_def by (rule fl_le_neg) (rule assms(3))
qed

lemma loadMultiplier_ge: "1 / 2 \<le> loadMultiplier load"
proof -
  have "1 / 2 \<le> fl (8 / 10)" "1 / 2 \<le> fl (16 / 10)"
    using fl_mono [of "1 / 2" "8 / 10"] fl_mono [of "1 / 2" "16 / 10"] fl_dyadic [of 1 1] by simp_all
  then show ?thesis by (simp add: loadMultiplier_def Let_def)
qed

lemma to_fixed_neg:
  assumes "x \<le> - (1 / 4)"
  shows "to_fixed 3 x < 0"
proof -
  have "(250 :: int) \<le> \<lfloor>- x * 10 ^ 3 + 1 / 2\<rfloor>" using assms by (simp add: le_floor_iff)
  then have "(250 :: rat) \<le> of_int \<lfloor>- x * 10 ^ 3 + 1 / 2\<rfloor>" using of_int_le_iff [of 250, where 'a = rat] by simp
  then have "1 / 4 \<le> of_int \<lfloor>- x * 10 ^ 3 + 1 / 2\<rfloor> / (10 ^ 3 :: rat)" by (simp add: field_simps)
  from fl_mono [OF this] have "1 / 4 \<le> fl (of_int \<lfloor>- x * 10 ^ 3 + 1 / 2\<rfloor> / 10 ^ 3)" using fl_dyadic [of 1 2] by simp
  then show ?thesis using assms by (simp add: to_fixed_def)
qed

lemma negative_duration_debits:
  assumes "sr_durationMs body \<le> - 1000"
  shows "contributionCredits (contributionReport ids now account body t) load < 0"
proof -
  let ?r = "contributionReport ids now account body t"
  have "rat_of_int (sr_durationMs body) / 1000 \<le> - (1 / 2 ^ 0)" using assms by (simp add: divide_le_eq)
  from fl_le_neg [OF this] have s: "contributionSeconds ?r \<le> - (1 / 2 ^ 0)"
    by (cases "resourceClass (st_projectMeta t)") (simp_all add: contributionSeconds_def contributionReport_def n_div_def Let_def)
  have "n_mul (contributionSeconds ?r) (baseRatePerSecond (cr_resourceClass ?r)) \<le> - (1 / 2 ^ (0 + 0))"
    by (rule n_mul_le_neg [OF s]) (simp_all add: baseRatePerSecond_def)
  then have "n_mul (n_mul (contributionSeconds ?r) (baseRatePerSecond (cr_resourceClass ?r))) (qualityMultiplier ?r) \<le> - (1 / 2 ^ (0 + 0 + 1))"
    by (rule n_mul_le_neg) (simp_all add: qualityMultiplier_def)
  then have "n_mul (n_mul (n_mul (contributionSeconds ?r) (baseRatePerSecond (cr_resourceClass ?r))) (qualityMultiplier ?r)) (loadMultiplier load)
      \<le> - (1 / 2 ^ (0 + 0 + 1 + 1))"
    by (rule n_mul_le_neg) (use loadMultiplier_ge [of load] in simp_all)
  then show ?thesis unfolding contributionCredits_def by (intro to_fixed_neg) simp
qed

text \<open>
  C40: A result is bound neither to the agent that holds the lease nor to a registered agent, and its duration is not checked. An
  unsigned \<open>POST /result\<close> for a subtask leased to another agent, in the name of an agent that need not even be
  registered, is accepted; the reward account of the named agent gets the payment computed from the duration in
  the body; and where that duration is minus a second or less the payment is negative, so that anyone who passes the mesh token
  can debit any account.
\<close>

theorem result_from_any_agent:
  assumes "extractSignedHeaders headers = None" "rr_encryptedPayload raw = None" "rr_plain raw = Some body"
    "snd (activeBlacklistRecord now (sr_agentId body) (fd_blacklist (cs_fed s))) = None"
    "freshTx (ri_tx ids) (cs_credits s)" "pgStore (cs_credits s) = None \<longrightarrow> ri_report ids \<notin> set (seenReports (creditEngine (cs_credits s)))"
    "getSubtask (sr_subtaskId body) (cs_queue s) = Some t"
    "abs_leases (cs_queue s) (sr_subtaskId body) = Some (Some holder)" "holder \<noteq> sr_agentId body" "jsm_get (cs_caps s) (sr_agentId body) = None"
    "account = rewardAccountForAgent (sr_agentId body) (cs_credits s)"
  shows "\<exists>s' out credits. resultRoute env decrypt ids now headers ip raw s = (s', Result_ok, out) \<and>
    accountTxs (cs_credits s') account = accountTxs (cs_credits s) account @
      [earnTx (ri_tx ids) now account credits ''compute_contribution'' (Some (sr_taskId body))] \<and>
    (sr_durationMs body \<le> - 1000 \<longrightarrow> credits < 0)"
proof -
  let ?s3 = "updFed (\<lambda>fed. fed\<lparr> fd_blacklist := fst (activeBlacklistRecord now (sr_agentId body) (fd_blacklist fed)) \<rparr>) s"
  note route = unsigned_route [OF assms(1-4), of env decrypt ids ip]
  have "pgStore (cs_credits ?s3) = None \<Longrightarrow> ri_report ids \<notin> set (seenReports (creditEngine (cs_credits ?s3)))" using assms(6) by simp
  from completeResult_ok [OF this] obtain s' out where c: "completeResult env ids now body ?s3 = (s', Result_ok, out)" by blast
  have fr: "freshTx (ri_tx ids) (cs_credits ?s3)" using assms(5) by simp
  have "accountTxs (cs_credits s') account = accountTxs (cs_credits s) account @
      [earnTx (ri_tx ids) now account (contributionCredits (contributionReport ids now account body t) (loadOf (cs_queue s'))) ''compute_contribution'' (Some (sr_taskId body))]"
    using completeResult_facts(2) [OF c fr, of account] assms(7,11) by (simp add: paymentFor_def)
  moreover have "sr_durationMs body \<le> - 1000 \<longrightarrow> contributionCredits (contributionReport ids now account body t) (loadOf (cs_queue s')) < 0"
    using negative_duration_debits by blast
  ultimately show ?thesis unfolding route c by blast
qed

section \<open>Registration\<close>

lemma updCaps_simps [simp]:
  "mx_fed (cs_mesh (updCaps f s)) = (cs_fed s)\<lparr> fd_agentCapabilities := f (cs_caps s) \<rparr>"
  "cs_mesh (updCaps f s) = (cs_mesh s)\<lparr> mx_fed := (cs_fed s)\<lparr> fd_agentCapabilities := f (cs_caps s) \<rparr> \<rparr>"
  "cs_deps (updCaps f s) = cs_deps s" "cs_credits (updCaps f s) = cs_credits s" "cs_lastAssigned (updCaps f s) = cs_lastAssigned s"
  "cs_behavior (updCaps f s) = cs_behavior s" "cs_blacklister (updCaps f s) = cs_blacklister s" "cs_sharedKeys (updCaps f s) = cs_sharedKeys s"
  "cs_manifests (updCaps f s) = cs_manifests s"
  by (simp_all add: updCaps_def)

lemma admitAgent_caps:
  "cs_caps (admitAgent env b sourceIp reason node now s) =
     jsm_set (rb_agentId b) (registeredCapability env b sourceIp reason node now (jsm_get (cs_caps s) (rb_agentId b))) (cs_caps s)"
  by (simp add: admitAgent_def)

lemma checkBinary_caps:
  assumes "checkBinary env b now s = (s', vs)"
  shows "\<exists>f. cs_fed s' = (cs_fed s)\<lparr> fd_agentCapabilities := jsm_modify (rb_agentId b) f (cs_caps s) \<rparr> \<and>
     (\<forall>c. ag_connectedPeers (f c) = ag_connectedPeers c \<and> ag_publicKeyPem (f c) = ag_publicKeyPem c)"
proof (cases "rb_binaryIntegrity b")
  case None
  have "jsm_modify (rb_agentId b) (\<lambda>c. c) (cs_caps s) = cs_caps s"
  proof (cases "jsm_get (cs_caps s) (rb_agentId b)")
    case (Some v)
    then show ?thesis by (simp add: jsm_modify_def jsm_set_def jsm_get_def update_triv)
  qed (simp add: jsm_modify_def)
  with None assms show ?thesis by (intro exI [of _ "\<lambda>c. c"]) (simp add: checkBinary_def)
next
  case (Some payload)
  let ?st = "verifyBinaryIntegrity (env_verifyText env) (env_releaseKeys env) payload (cs_manifests s) now"
  show ?thesis using Some assms
    by (intro exI [of _ "\<lambda>c. c\<lparr> ag_verificationStatus := Some ?st \<rparr>"]) (auto simp: checkBinary_def Let_def split: if_splits)
qed

lemma checkBinary_none [simp]: "rb_binaryIntegrity b = None \<Longrightarrow> checkBinary env b now s = (s, None)"
  by (simp add: checkBinary_def)

lemma finishRegistration_facts:
  assumes "finishRegistration env u2 u3 u4 now b approval s = (s', reply, out)"
  shows "reply = Registered_agent (rb_mode b) (if MESH_AUTH_TOKEN env = [] then None else Some (MESH_AUTH_TOKEN env))"
    "cs_caps s' = cs_caps s" "cs_queue s' = cs_queue s"
proof -
  let ?s1 = "s\<lparr> cs_behavior := recordRegistration (env_behaviorWindow env) (rb_agentId b) now (cs_behavior s) \<rparr>"
  obtain s2 out2 where e: "enforce env u3 u4 now (rb_agentId b) ?s1 = (s2, out2)" by fastforce
  show "reply = Registered_agent (rb_mode b) (if MESH_AUTH_TOKEN env = [] then None else Some (MESH_AUTH_TOKEN env))"
    "cs_caps s' = cs_caps s" "cs_queue s' = cs_queue s"
    using assms e enforce_fed(1,2) [OF e] by (auto simp: finishRegistration_def)
qed

lemma validatePortalNode_frame:
  assumes "validatePortalNode env answer persisted uuid now nodeId token sourceIp fed = (fed', r)"
  shows "r = portalDecision env answer persisted nodeId token sourceIp fed" "fd_agentCapabilities fed' = fd_agentCapabilities fed"
    "fd_blacklist fed' = fd_blacklist fed" "fd_queue fed' = fd_queue fed"
  using assms by (auto simp: validatePortalNode_def split: prod.splits)

lemma register_admitted:
  assumes d: "portalDecision env answer persisted (rb_agentId b) (rb_registrationToken b) (extractClientIp headers ip) (cs_fed s) = (True, reason, node)"
    and nb: "snd (activeBlacklistRecord now (rb_agentId b) (fd_blacklist (cs_fed s))) = None" and bi: "rb_binaryIntegrity b = None"
  shows "\<exists>s' out c. registerRoute env answer persisted ids now headers ip b s =
      (s', Registered_agent (rb_mode b) (if MESH_AUTH_TOKEN env = [] then None else Some (MESH_AUTH_TOKEN env)), out) \<and>
    jsm_get (cs_caps s') (rb_agentId b) = Some c \<and> ag_publicKeyPem c = rb_publicKeyPem b"
proof -
  obtain u1 u2 u3 u4 where ids: "ids = (u1, u2, u3, u4)" by (cases ids)
  obtain fed1 r where v: "validatePortalNode env answer persisted u1 now (rb_agentId b) (rb_registrationToken b) (extractClientIp headers ip) (cs_fed s) = (fed1, r)"
    by (rule prod.exhaust)
  note vf = validatePortalNode_frame [OF v]
  have r: "r = (True, reason, node)" using vf(1) d by simp
  let ?s2 = "(updFed (\<lambda>_. fed1) s)\<lparr> cs_windows := rateReset (rb_agentId b) (cs_windows (updFed (\<lambda>_. fed1) s)) \<rparr>"
  let ?s3 = "updFed (\<lambda>fed. fed\<lparr> fd_blacklist := fst (activeBlacklistRecord now (rb_agentId b) (fd_blacklist fed)) \<rparr>) ?s2"
  let ?s4 = "admitAgent env b (extractClientIp headers ip) reason node now ?s3"
  let ?ap = "approvalEvent env (rb_agentId b) (extractClientIp headers ip) reason node"
  obtain s' reply out where f: "finishRegistration env u2 u3 u4 now b ?ap ?s4 = (s', reply, out)"
    by (cases "finishRegistration env u2 u3 u4 now b ?ap ?s4") auto
  have bl: "agentBlacklisted now (rb_agentId b) ?s2 = (?s3, None)" using nb vf(3) by (simp add: agentBlacklisted_eq)
  have "registerRoute env answer persisted ids now headers ip b s = (s', reply, out)"
    using v r bl bi f by (simp add: registerRoute_def ids Let_def)
  moreover have "jsm_get (cs_caps s') (rb_agentId b) = Some (registeredCapability env b (extractClientIp headers ip) reason node now (jsm_get (cs_caps s) (rb_agentId b)))"
    using finishRegistration_facts(2) [OF f] vf(2) by (simp add: admitAgent_caps jsm_get_set)
  moreover have "ag_publicKeyPem (registeredCapability env b (extractClientIp headers ip) reason node now p) = rb_publicKeyPem b" for p
    by (simp add: registeredCapability_def)
  ultimately show ?thesis using finishRegistration_facts(1) [OF f] by blast
qed

lemma spoofed_loopback: "extractClientIp [(''x-forwarded-for'', HString ''127.0.0.1'')] ip = Some ''127.0.0.1''"
  by code_simp

text \<open>
  Enrolment can be bypassed. Whatever the portal configuration and the portal's answer, \<open>POST /register\<close> without any
  registration token is accepted when the request carries the header \<open>x-forwarded-for: 127.0.0.1\<close> (the address it is
  compared with comes from the headers), and also when it names an agent that is registered already. The mesh token is then in
  the answer, and the public key in the body becomes the key under which that agent's requests are verified.
\<close>

theorem registration_bypass:
  assumes "rb_registrationToken b = None" "rb_binaryIntegrity b = None"
    "snd (activeBlacklistRecord now (rb_agentId b) (fd_blacklist (cs_fed s))) = None"
    "headers = [(''x-forwarded-for'', HString ''127.0.0.1'')] \<or> jsm_has (cs_caps s) (rb_agentId b)"
  shows "\<exists>s' out c. registerRoute env answer persisted ids now headers ip b s =
      (s', Registered_agent (rb_mode b) (if MESH_AUTH_TOKEN env = [] then None else Some (MESH_AUTH_TOKEN env)), out) \<and>
    jsm_get (cs_caps s') (rb_agentId b) = Some c \<and> ag_publicKeyPem c = rb_publicKeyPem b"
proof -
  have "\<exists>reason node. portalDecision env answer persisted (rb_agentId b) (rb_registrationToken b) (extractClientIp headers ip) (cs_fed s) = (True, reason, node)"
    using assms(4)
  proof
    assume "headers = [(''x-forwarded-for'', HString ''127.0.0.1'')]"
    then show ?thesis by (simp add: portalDecision_def spoofed_loopback isLoopback_def)
  next
    assume "jsm_has (cs_caps s) (rb_agentId b)"
    then show ?thesis using assms(1) by (auto simp: portalDecision_def knownAgent_def cachedOr_def jsm_has_iff)
  qed
  then show ?thesis using register_admitted assms(2,3) by blast
qed

section \<open>Examples\<close>

text \<open>A coordinator with the two agents of the example above and the queue of the queue's example.\<close>

definition ex_env :: Env where
  "ex_env = \<lparr> env_crypto = ex_crypto, env_toNumber = ex_number, env_verifyText = (\<lambda>_ _ _. Some False), env_stringify = (\<lambda>_. []),
     env_sqrt = (\<lambda>x. x), env_self = ex_coordinator ''c'', env_publicUrl = ''http://c'', env_auth = ex_auth,
     env_anomaly = DEFAULT_ANOMALY_CONFIG, env_behaviorWindow = 3600000,
     env_contribution = \<lparr> CONTRIBUTION_BURST_CREDITS = 25, MIN_CONTRIBUTION_RATIO = 1 \<rparr>, env_releaseKeys = [],
     env_policy = \<lparr> cpuCapPercent = 50, memoryLimitMb = 2048, idleOnly = True, maxConcurrentTasks = 1, startHourUtc = 0, endHourUtc = 23 \<rparr>,
     MESH_AUTH_TOKEN = ''mesh'', PORTAL_SERVICE_URL = ''http://portal'', REQUIRE_VERIFIED_AGENTS = False, OLLAMA_MODEL = ''qwen'',
     IOS_BATTERY_PULL_MIN_INTERVAL_MS = 45000, IOS_BATTERY_TASK_STOP_LEVEL_PCT = 20 \<rparr>"

definition ex_coord :: Coordinator where
  "ex_coord = \<lparr> cs_mesh = (newAgentMesh (newFederation (ex_coordinator ''c'') False))\<lparr> mx_fed := ex_agents_fed\<lparr> fd_queue := ex_queue \<rparr> \<rparr>,
     cs_windows = [], cs_nonces = [], cs_securityLog = [], cs_behavior = [], cs_anomalyLog = [],
     cs_blacklister = \<lparr> strikeWindowMs = 600000, strikeThreshold = 3, strikes = [], blacklisted = [] \<rparr>, cs_deps = newSubtaskDepTracker,
     cs_credits = ex_store, cs_lastAssigned = [], cs_sharedKeys = [], cs_manifests = [], cs_diagnostics = [] \<rparr>"

lemma ex_coord_simps [simp]:
  "cs_queue ex_coord = ex_queue" "fd_blacklist (cs_fed ex_coord) = fd_blacklist (newFederation (ex_coordinator ''c'') False)"
  "cs_caps ex_coord = [(''a'', ex_capability), (''b'', ex_capability)]" "cs_deps ex_coord = newSubtaskDepTracker" "cs_credits ex_coord = ex_store"
  by (simp_all add: ex_coord_def ex_agents_fed_def)

lemma ex_not_blacklisted: "snd (activeBlacklistRecord now a (fd_blacklist (cs_fed ex_coord))) = None"
  by (simp add: activeBlacklistRecord_def newFederation_def newBlacklist_def jsm_get_def)

theorem pull_hands_out_safely_witness:
  "\<exists>s' t. pullRoute ex_env (\<lambda>_ _. None) ''u9'' 30 [] None ''b'' ex_coord = (s', Pull_subtask (Some t)) \<and> st_id t = ''a'' \<and>
     abs_leases ex_queue ''a'' = Some None \<and> abs_leases (cs_queue s') = (abs_leases ex_queue)(''a'' \<mapsto> Some ''b'')"
proof -
  obtain s' reply where p: "pullRoute ex_env (\<lambda>_ _. None) ''u9'' 30 [] None ''b'' ex_coord = (s', reply)" by fastforce
  have "snd (pullRoute ex_env (\<lambda>_ _. None) ''u9'' 30 [] None ''b'' ex_coord) = Pull_subtask (Some (ex_subtask ''a'' ''p'' 5 None))" by code_simp
  then have r: "reply = Pull_subtask (Some (ex_subtask ''a'' ''p'' 5 None))" using p by simp
  from pull_hands_out_safely [OF p] ex_queue_inv have
    "abs_leases ex_queue ''a'' = Some None \<and> abs_leases (cs_queue s') = (abs_leases ex_queue)(''a'' \<mapsto> Some ''b'')"
    by (auto simp: r handed_out_def ex_subtask_def)
  then show ?thesis using p by (auto simp: r ex_subtask_def)
qed

definition ex_result_ids :: ResultIds where
  "ex_result_ids = \<lparr> ri_record = ''u1'', ri_blacklistMsg = ''u2'', ri_offers = [], ri_complete = ''u3'', ri_report = ''u4'', ri_tx = ''u5'',
     ri_earnings = ''u6'', ri_announce = ''u7'' \<rparr>"

definition ex_raw :: "SubtaskResult \<Rightarrow> RawResult" where
  "ex_raw body = \<lparr> rr_plain = Some body, rr_subtaskId = Some (sr_subtaskId body), rr_taskId = Some (sr_taskId body), rr_agentId = Some (sr_agentId body),
     rr_reportNonce = None, rr_reportSignature = None, rr_encryptedPayload = None \<rparr>"

lemma ex_credits: "freshTx (ri_tx ex_result_ids) (cs_credits ex_coord)" "pgStore (cs_credits ex_coord) \<noteq> None"
  by (simp_all add: ex_store_def freshTx_def)

lemma ex_unsigned: "extractSignedHeaders [] = None"
  by code_simp

theorem result_completes_and_pays_witness:
  "\<exists>s' out. resultRoute ex_env (\<lambda>_ _. Open_failed) ex_result_ids 40 [] None (ex_raw (ex_result ''b'')) ex_coord = (s', Result_ok, out) \<and>
     (\<exists>released. completeAndRelease (ex_result ''b'') 40 newSubtaskDepTracker ex_queue = (cs_deps s', cs_queue s', released)) \<and>
     accountTxs (cs_credits s') ''ag'' = accountTxs ex_store ''ag'' @
       paymentFor ex_result_ids 40 (ex_result ''b'') (getSubtask ''b'' ex_queue) (loadOf (cs_queue s')) ex_store ''ag''"
proof -
  have raw: "rr_encryptedPayload (ex_raw (ex_result ''b'')) = None" "rr_plain (ex_raw (ex_result ''b'')) = Some (ex_result ''b'')"
    by (simp_all add: ex_raw_def)
  obtain s' out where r: "resultRoute ex_env (\<lambda>_ _. Open_failed) ex_result_ids 40 [] None (ex_raw (ex_result ''b'')) ex_coord = (s', Result_ok, out)"
    using unsigned_result [OF ex_unsigned raw ex_not_blacklisted, of ex_result_ids ex_env "\<lambda>_ _. Open_failed" 40 None] ex_credits(2) by blast
  from result_completes_and_pays [OF r ex_credits(1)] obtain body s1 r1 s2 where
    b: "authenticate ex_env [] ''/result'' None 40 ex_coord = (s1, r1)" "openResult (\<lambda>_ _. Open_failed) (ex_raw (ex_result ''b'')) s1 = (s2, Inr body)" and
    f: "\<exists>released. completeAndRelease body 40 (cs_deps ex_coord) (cs_queue ex_coord) = (cs_deps s', cs_queue s', released)"
      "accountTxs (cs_credits s') ''ag'' = accountTxs (cs_credits ex_coord) ''ag'' @
         paymentFor ex_result_ids 40 body (getSubtask (sr_subtaskId body) (cs_queue ex_coord)) (loadOf (cs_queue s')) (cs_credits ex_coord) ''ag''"
    by blast
  have "body = ex_result ''b''" using b(2) by (simp add: openResult_def raw split: option.splits prod.splits)
  moreover have "sr_subtaskId (ex_result ''b'') = ''b''" by (simp add: ex_result_def)
  ultimately show ?thesis using r f by auto
qed

text \<open>The subtask that agent \<open>ag\<close> holds is reported by agent \<open>zz\<close>, with a negative duration.\<close>

definition ex_forged :: SubtaskResult where
  "ex_forged = (ex_result ''a'')\<lparr> sr_agentId := ''zz'', sr_durationMs := - 5000 \<rparr>"

definition ex_leased :: Coordinator where
  "ex_leased = updQueue (\<lambda>q. fst (claim ''ag2'' None 30 30 q)) ex_coord"

lemma ex_leased_simps [simp]: "cs_caps ex_leased = cs_caps ex_coord" "cs_credits ex_leased = cs_credits ex_coord"
  "fd_blacklist (cs_fed ex_leased) = fd_blacklist (cs_fed ex_coord)" "cs_queue ex_leased = fst (claim ''ag2'' None 30 30 ex_queue)"
  by (simp_all add: ex_leased_def)

theorem result_from_any_agent_witness:
  "\<exists>s' out credits. resultRoute ex_env (\<lambda>_ _. Open_failed) ex_result_ids 40 [] None (ex_raw ex_forged) ex_leased = (s', Result_ok, out) \<and>
    accountTxs (cs_credits s') ''zz'' = accountTxs ex_store ''zz'' @ [earnTx ''u5'' 40 ''zz'' credits ''compute_contribution'' (Some ''task'')] \<and> credits < 0"
proof -
  have raw: "rr_encryptedPayload (ex_raw ex_forged) = None" "rr_plain (ex_raw ex_forged) = Some ex_forged" by (simp_all add: ex_raw_def)
  have bl: "snd (activeBlacklistRecord 40 (sr_agentId ex_forged) (fd_blacklist (cs_fed ex_leased))) = None" using ex_not_blacklisted by simp
  have fr: "freshTx (ri_tx ex_result_ids) (cs_credits ex_leased)" and
    pg: "pgStore (cs_credits ex_leased) = None \<longrightarrow> ri_report ex_result_ids \<notin> set (seenReports (creditEngine (cs_credits ex_leased)))"
    using ex_credits by auto
  have "getSubtask ''a'' (fst (claim ''ag2'' None 30 30 ex_queue)) = Some (ex_subtask ''a'' ''p'' 5 None)"
    "abs_leases (fst (claim ''ag2'' None 30 30 ex_queue)) ''a'' = Some (Some ''ag2'')" by code_simp+
  then have st: "getSubtask (sr_subtaskId ex_forged) (cs_queue ex_leased) = Some (ex_subtask ''a'' ''p'' 5 None)"
    "abs_leases (cs_queue ex_leased) (sr_subtaskId ex_forged) = Some (Some ''ag2'')" by (simp_all add: ex_forged_def ex_result_def)
  have other: "''ag2'' \<noteq> sr_agentId ex_forged" "jsm_get (cs_caps ex_leased) (sr_agentId ex_forged) = None"
    by (simp_all add: ex_forged_def ex_result_def jsm_get_def)
  have acc: "''zz'' = rewardAccountForAgent (sr_agentId ex_forged) (cs_credits ex_leased)" unfolding ex_leased_simps ex_coord_simps by code_simp
  have vals: "ri_tx ex_result_ids = ''u5''" "sr_taskId ex_forged = ''task''" "sr_durationMs ex_forged \<le> - 1000" "cs_credits ex_leased = ex_store"
    by (simp_all add: ex_result_ids_def ex_forged_def ex_result_def)
  show ?thesis using result_from_any_agent [OF ex_unsigned raw bl fr pg st other acc, where env = ex_env and decrypt = "\<lambda>_ _. Open_failed" and ip = None] vals
    by metis
qed

definition ex_register :: RegisterBody where
  "ex_register = \<lparr> rb_agentId = ''a'', rb_os = ''linux'', rb_version = ''1'', rb_mode = ''swarm-only'', rb_registrationToken = None,
     rb_localModelProvider = ''edgecoder-local'', rb_clientType = ''edgecoder-native'', rb_maxConcurrentTasks = 1, rb_powerTelemetry = None,
     rb_publicKeyPem = Some ''stolen'', rb_x25519PublicKey = None, rb_sandboxMode = Sandbox_none, rb_binaryIntegrity = None \<rparr>"

theorem registration_bypass_witness:
  "\<exists>s' out c. registerRoute ex_env Portal_unreachable None (''u1'', ''u2'', ''u3'', ''u4'') 50 [] (Some ''203.0.113.9'') ex_register ex_coord =
      (s', Registered_agent ''swarm-only'' (Some ''mesh''), out) \<and>
    jsm_get (cs_caps s') ''a'' = Some c \<and> ag_publicKeyPem c = Some ''stolen''"
proof -
  have b: "rb_registrationToken ex_register = None" "rb_binaryIntegrity ex_register = None" by (simp_all add: ex_register_def)
  have nb: "snd (activeBlacklistRecord 50 (rb_agentId ex_register) (fd_blacklist (cs_fed ex_coord))) = None" by (rule ex_not_blacklisted)
  have k: "[] = [(''x-forwarded-for'', HString ''127.0.0.1'')] \<or> jsm_has (cs_caps ex_coord) (rb_agentId ex_register)"
    by (simp add: jsm_has_iff jsm_get_def ex_register_def)
  show ?thesis using registration_bypass [OF b nb k, of ex_env Portal_unreachable None "(''u1'', ''u2'', ''u3'', ''u4'')" "Some ''203.0.113.9''"]
    by (simp add: ex_register_def ex_env_def)
qed

end
