(* ===== verification/TaskFlow.thy ===== *)
theory TaskFlow
  imports AgentRoutes
begin

text \<open>
  A task across two coordinators: the offer that \<open>POST /submit\<close> and \<open>/result\<close> broadcast, its ingestion by a peer, the claim the
  peer sends back, and the result it forwards to the coordinator of origin (\<open>src/src/swarm/coordinator.ts\<close>). The
  operations are those of the theories below; this theory composes them.
\<close>

section \<open>What an offer carries\<close>

text \<open>The subtask a peer reads from an offer: the requested model, the dependencies and the index are not sent.\<close>

definition offered :: "Subtask \<Rightarrow> Subtask" where
  "offered t = t\<lparr> st_requestedModel := None, st_dependsOn := None, st_subtaskIndex := None \<rparr>"

lemma as_enum_name:
  shows "as_enum kind_name [Micro_loop, Single_step] (Some (JStr (kind_name k))) = Some k"
    and "as_enum language_name [Python, Javascript] (Some (JStr (language_name l))) = Some l"
    and "as_enum resource_name [SwarmQueue.Cpu, SwarmQueue.Gpu] (Some (JStr (resource_name r))) = Some r"
proof -
  show "as_enum kind_name [Micro_loop, Single_step] (Some (JStr (kind_name k))) = Some k" by (cases k) (simp_all add: as_enum_def)
  show "as_enum language_name [Python, Javascript] (Some (JStr (language_name l))) = Some l" by (cases l) (simp_all add: as_enum_def)
  show "as_enum resource_name [SwarmQueue.Cpu, SwarmQueue.Gpu] (Some (JStr (resource_name r))) = Some r" by (cases r) (simp_all add: as_enum_def)
qed

lemma readProjectMeta_json: "readProjectMeta (Some (metaJson m)) = Some m"
  by (cases "tenantId m") (simp_all add: readProjectMeta_def metaJson_def jfield_def opt_member_def as_enum_name)

lemma offer_roundtrip:
  "readOffer (offerPayload env t) = Some \<lparr> to_subtask = offered t, to_originCoordinatorId = co_peerId (env_self env),
     to_originCoordinatorUrl = env_publicUrl env \<rparr>"
  by (simp add: readOffer_def readSubtask_def offerPayload_def readProjectMeta_json as_enum_name offered_def Let_def)

section \<open>Messages between coordinators\<close>

lemma countMessage_frame:
  "fd_agentCapabilities (fst (countMessage now k st)) = fd_agentCapabilities st" "fd_mesh (fst (countMessage now k st)) = fd_mesh st"
  "fd_queue (fst (countMessage now k st)) = fd_queue st" "fd_seenIds (fst (countMessage now k st)) = fd_seenIds st"
  "fd_taskOriginMap (fst (countMessage now k st)) = fd_taskOriginMap st"
  by (auto simp: countMessage_def Let_def split: option.splits prod.splits)

text \<open>A message of a known coordinator that is in time, new and within the limit reaches the handler of its type.\<close>

lemma created_message_admitted:
  assumes "key_pair cr priv (id_publicKeyPem peer)" "findPeer a st = Some peer" "msgId \<notin> set (fd_seenIds st)" "now \<le> t + ttl"
    "snd (countMessage now a st)"
  shows "\<exists>s1. handleMeshIngest cr b u now (createMessage cr msgId t typ a payload priv ttl) st =
      ingestAdmitted cr b u now (createMessage cr msgId t typ a payload priv ttl) (Some peer) s1 \<and>
    fd_queue s1 = fd_queue st \<and> fd_agentCapabilities s1 = fd_agentCapabilities st \<and> fd_mesh s1 = fd_mesh st \<and>
    fd_taskOriginMap s1 = fd_taskOriginMap st"
proof -
  let ?m = "createMessage cr msgId t typ a payload priv ttl"
  obtain s0 where c: "countMessage now a st = (s0, True)" using assms(5) by (cases "countMessage now a st") simp
  have s0: "fd_agentCapabilities s0 = fd_agentCapabilities st" "fd_mesh s0 = fd_mesh st" "fd_queue s0 = fd_queue st"
    "fd_seenIds s0 = fd_seenIds st" "fd_taskOriginMap s0 = fd_taskOriginMap st"
    using countMessage_frame [of now a st] c by simp_all
  have pid: "id_peerId peer = a" by (rule findPeer_id [OF assms(2)])
  have sender: "mm_fromPeerId (mm_unsigned ?m) = a" by (simp add: createMessage_def Let_def)
  have "admit cr now ?m peer st = (s0\<lparr> fd_seenIds := rememberId msgId (fd_seenIds st) \<rparr>, None)"
    using created_message_valid [OF assms(1,3,4)] c s0 by (simp add: admit_def pid)
  then show ?thesis using assms(2) s0
    by (intro exI [of _ "s0\<lparr> fd_seenIds := rememberId msgId (fd_seenIds st) \<rparr>"]) (simp add: handleMeshIngest_def sender)
qed

section \<open>The offer at the peer\<close>

lemma enqueueSubtask_getSubtask:
  assumes "abs_leases q (st_id t) = None"
  shows "getSubtask (st_id t) (fst (enqueueSubtask (Some (st_id t)) t d u now q)) = Some t"
    "abs_leases (fst (enqueueSubtask (Some (st_id t)) t d u now q)) = (abs_leases q)(st_id t \<mapsto> None)"
proof -
  have new: "\<forall>i \<in> set (tasks q). st_id (qi_subtask i) \<noteq> st_id t" using assms by (auto simp: abs_leases_None image_iff)
  then have "find (\<lambda>i. st_id (qi_subtask i) = st_id t) (tasks q) = None" by (auto simp: find_None_iff)
  moreover have "find P (xs @ [y]) = (case find P xs of None \<Rightarrow> if P y then Some y else None | Some z \<Rightarrow> Some z)" for P xs and y :: QueueItem
    by (induction xs) auto
  ultimately show "getSubtask (st_id t) (fst (enqueueSubtask (Some (st_id t)) t d u now q)) = Some t"
    using new by (simp add: getSubtask_def enqueueSubtask_def Let_def)
  show "abs_leases (fst (enqueueSubtask (Some (st_id t)) t d u now q)) = (abs_leases q)(st_id t \<mapsto> None)"
    using enqueue_refines [of q "Some (st_id t)" t d u now] assms by (auto elim!: lease_stepE)
qed

definition claimMessage :: "crypto \<Rightarrow> CoordinatorIdentity \<Rightarrow> string \<Rightarrow> ms \<Rightarrow> string \<Rightarrow> MeshMessage" where
  "claimMessage cr self uuid now subtaskId = createMessage cr uuid now Msg_task_claim (co_peerId self)
     [(''subtaskId'', JStr subtaskId), (''claimedByCoordinator'', JStr (co_peerId self))] (co_privateKeyPem self) 30000"

text \<open>
  C9: An offered subtask reaches a peer that can run it. A coordinator \<open>b\<close> that knows the sender's key and has a live agent accepts
  the \<open>task_offer\<close> of a subtask if it arrives in time, for the first time and within the rate limit: the subtask is then
  in \<open>b\<close>'s queue, free, with the fields it was submitted with except the requested model, the dependencies and the
  index, which the offer does not carry; results will be forwarded to the sender; and \<open>b\<close> answers with a \<open>task_claim\<close> for it.
\<close>

theorem offer_reaches_peer:
  assumes "key_pair (env_crypto env) (co_privateKeyPem (env_self env)) (id_publicKeyPem peer)" "findPeer (co_peerId (env_self env)) st = Some peer"
    "msgId \<notin> set (fd_seenIds st)" "now \<le> t + 60000" "snd (countMessage now (co_peerId (env_self env)) st)"
    "co_peerId b \<noteq> co_peerId (env_self env)" "aliveAgents now st" "abs_leases (fd_queue st) (st_id x) = None"
    "offerMessage env t (msgId, x) = Broadcast msg"
  shows "\<exists>st'. handleMeshIngest (env_crypto env) b u now msg st = (st', Fed_enqueued, [claimMessage (env_crypto env) b u now (st_id x)]) \<and>
    getSubtask (st_id x) (fd_queue st') = Some (offered x) \<and> abs_leases (fd_queue st') = (abs_leases (fd_queue st))(st_id x \<mapsto> None) \<and>
    jsm_get (fd_taskOriginMap st') (st_id x) = Some (co_peerId (env_self env), id_coordinatorUrl peer)"
proof -
  let ?cr = "env_crypto env" and ?a = "co_peerId (env_self env)"
  have m: "msg = createMessage ?cr msgId t Msg_task_offer ?a (offerPayload env x) (co_privateKeyPem (env_self env)) 60000"
    using assms(9) by (simp add: offerMessage_def)
  have u: "mm_type (mm_unsigned msg) = Msg_task_offer" "mm_payload (mm_unsigned msg) = offerPayload env x"
    by (simp_all add: m createMessage_def Let_def)
  obtain s1 where s1: "handleMeshIngest ?cr b u now msg st = ingestAdmitted ?cr b u now msg (Some peer) s1"
    "fd_queue s1 = fd_queue st" "fd_agentCapabilities s1 = fd_agentCapabilities st" "fd_mesh s1 = fd_mesh st"
    using created_message_admitted [OF assms(1-5)] unfolding m by blast
  have al: "aliveAgents now s1" using assms(7) s1(3) by (simp add: aliveAgents_def)
  have id: "st_id (offered x) = st_id x" by (simp add: offered_def)
  let ?d = "\<lparr> to_subtask = offered x, to_originCoordinatorId = ?a, to_originCoordinatorUrl = env_publicUrl env \<rparr>"
  obtain st' msg' where ac: "acceptOffer ?cr b u now ?d (Some peer) s1 = (st', msg')" by fastforce
  have "handleMeshIngest ?cr b u now msg st = (st', Fed_enqueued, [msg'])"
    using s1(1) al ac assms(6) by (simp add: ingestAdmitted_def u ingestOffer_def offer_roundtrip)
  moreover have "msg' = claimMessage ?cr b u now (st_id x)" using ac by (auto simp: acceptOffer_def Let_def claimMessage_def id)
  moreover have "fd_queue st' = fst (enqueueSubtask (Some (st_id x)) (offered x) None u now (fd_queue st))"
    using ac s1(2) by (auto simp: acceptOffer_def Let_def id reward_def)
  moreover have "jsm_get (fd_taskOriginMap st') (st_id x) = Some (?a, id_coordinatorUrl peer)"
    using ac assms(2) s1(4) by (auto simp: acceptOffer_def Let_def id reward_def findPeer_def jsm_get_set)
  moreover note enqueueSubtask_getSubtask [of "fd_queue st" "offered x" None u now] assms(8)
  ultimately show ?thesis by (simp add: id)
qed

section \<open>The claim at the origin\<close>

text \<open>
  A claim withdraws the subtask only from a coordinator without live agents. When the origin receives the \<open>task_claim\<close> of a
  peer, a subtask that is free in its queue leaves the queue if none of its own agents was seen in the last
  30 seconds; otherwise its lease table is unchanged, the subtask stays free there, and so the same subtask can be claimed by
  an agent at the origin and by an agent at the peer that announced the claim.
\<close>

theorem claim_withdraws_iff_idle:
  assumes "key_pair cr (co_privateKeyPem b) (id_publicKeyPem peer)" "findPeer (co_peerId b) st = Some peer"
    "u \<notin> set (fd_seenIds st)" "now \<le> t + 30000" "snd (countMessage now (co_peerId b) st)" "co_peerId b \<noteq> co_peerId a"
    "queue_inv (fd_queue st)" "named_claims (fd_queue st)" "abs_leases (fd_queue st) i = Some None"
  shows "\<exists>st'. handleMeshIngest cr a v now (claimMessage cr b u t i) st = (st', Fed_ok, []) \<and>
    abs_leases (fd_queue st') = (if aliveAgents now st then abs_leases (fd_queue st) else (abs_leases (fd_queue st))(i := None))"
proof -
  let ?m = "claimMessage cr b u t i"
  have u: "mm_type (mm_unsigned ?m) = Msg_task_claim"
    "mm_payload (mm_unsigned ?m) = [(''subtaskId'', JStr i), (''claimedByCoordinator'', JStr (co_peerId b))]"
    by (simp_all add: claimMessage_def createMessage_def Let_def)
  obtain s1 where s1: "handleMeshIngest cr a v now ?m st = ingestAdmitted cr a v now ?m (Some peer) s1"
    "fd_queue s1 = fd_queue st" "fd_agentCapabilities s1 = fd_agentCapabilities st"
    using created_message_admitted [OF assms(1-5)] unfolding claimMessage_def by blast
  have al: "aliveAgents now s1 = aliveAgents now st" using s1(3) by (simp add: aliveAgents_def)
  have h: "handleMeshIngest cr a v now ?m st = (ingestClaim a now (mm_payload (mm_unsigned ?m)) s1, Fed_ok, [])"
    using s1(1) by (simp add: ingestAdmitted_def u)
  have w: "abs_leases (fst (markRemoteClaimed i (fd_queue st))) = (abs_leases (fd_queue st))(i := None)"
  proof -
    obtain x where x: "x \<in> set (tasks (fd_queue st))" "item_id x = i" "qi_claimedBy x = None"
      using assms(9) by (auto simp: abs_leases_def dest!: map_of_SomeD)
    then have "snd (markRemoteClaimed i (fd_queue st))" by (auto simp: markRemoteClaimed_def remoteClaimable_def)
    then show ?thesis using markRemoteClaimed_refines [OF assms(7,8), of i] by (auto elim!: lease_stepE)
  qed
  have "fd_queue (ingestClaim a now (mm_payload (mm_unsigned ?m)) s1) = (if aliveAgents now st then fd_queue st else fst (markRemoteClaimed i (fd_queue st)))"
    using assms(6) s1(2) by (simp add: ingestClaim_def u al)
  then show ?thesis using h w by simp
qed

section \<open>The result at the origin\<close>

text \<open>The request a forwarded result becomes: the body in plain, no signature headers.\<close>

definition forwardedRequest :: "SubtaskResult \<Rightarrow> RawResult" where
  "forwardedRequest body = \<lparr> rr_plain = Some body, rr_subtaskId = Some (sr_subtaskId body), rr_taskId = Some (sr_taskId body),
     rr_agentId = Some (sr_agentId body), rr_reportNonce = sr_reportNonce body, rr_reportSignature = sr_reportSignature body,
     rr_encryptedPayload = None \<rparr>"

lemma payResult_origin: "payResult env ids now body x s = (s', ok) \<Longrightarrow> fd_taskOriginMap (cs_fed s') = fd_taskOriginMap (cs_fed s)"
  by (auto simp: payResult_def Let_def split: option.splits sum.splits prod.splits)

lemma completeResult_forwards:
  assumes c: "completeResult env ids now body s = (s', Result_ok, out)"
    and o: "jsm_get (fd_taskOriginMap (cs_fed s)) (sr_subtaskId body) = Some (a, url)" "a \<noteq> co_peerId (env_self env)"
  shows "Forward url body \<in> set out" "jsm_get (fd_taskOriginMap (cs_fed s')) (sr_subtaskId body) = None"
proof -
  let ?s2 = "(updQueue (SwarmQueue.complete body) s)\<lparr> cs_behavior := recordTaskResult (env_crypto env) (env_behaviorWindow env) (sr_agentId body)
     (sr_ok body) (sr_output body) (sr_durationMs body) now (cs_behavior (updQueue (SwarmQueue.complete body) s)) \<rparr>"
  obtain s3 out1 where e: "enforce env (ri_record ids) (ri_blacklistMsg ids) now (sr_agentId body) ?s2 = (s3, out1)" by fastforce
  obtain t' q' rel where r: "recordCompletionAndRelease (sr_subtaskId body) (sr_output body) (\<lambda>st opts. enqueueSubtask (Some (st_id st)) st opts [] now)
      (cs_deps s3) (cs_queue s3) = (t', q', rel)" by (rule prod_cases3)
  let ?s5 = "updFed (appendEvent env (queueEvent Task_complete (sr_taskId body) (Some (sr_subtaskId body)) (sr_agentId body)) (ri_complete ids) now)
     ((updQueue (\<lambda>_. q') s3)\<lparr> cs_deps := t' \<rparr>)"
  obtain s6 paid where p: "payResult env ids now body (getSubtask (sr_subtaskId body) (cs_queue s)) ?s5 = (s6, paid)" by fastforce
  obtain s7 out3 where an: "announceResult env ids now body s6 = (s7, out3)" by fastforce
  have res: "s' = s7" "set out3 \<subseteq> set out" using c e r p an by (auto simp: completeResult_def Let_def split: if_splits)
  have "fd_taskOriginMap (cs_fed s6) = fd_taskOriginMap (cs_fed s)" using payResult_origin [OF p] enforce_fed(3) [OF e] by simp
  then have "Forward url body \<in> set out3" "jsm_get (fd_taskOriginMap (cs_fed s7)) (sr_subtaskId body) = None"
    using an o by (auto simp: announceResult_def Let_def jsm_get_delete)
  then show "Forward url body \<in> set out" "jsm_get (fd_taskOriginMap (cs_fed s')) (sr_subtaskId body) = None" using res by auto
qed

text \<open>The headers of a forwarded result: the body goes out again without the signature headers of the agent.\<close>

definition forwardHeaders :: "string \<Rightarrow> (string, HeaderValue) jsmap" where
  "forwardHeaders meshToken =
     (''content-type'', HString ''application/json'') # (if meshToken \<noteq> [] then [(''x-mesh-token'', HString meshToken)] else [])"

lemma forwardHeaders_unsigned: "extractSignedHeaders (forwardHeaders meshToken) = None"
  by (simp add: extractSignedHeaders_def headerString_def forwardHeaders_def jsm_get_def)

text \<open>
  C10: A result produced at a peer settles the task at its origin. When coordinator \<open>b\<close> accepts a result, signed or not, for a subtask that came from
  another coordinator, it forwards the body to the origin's \<open>POST /result\<close>, with the headers of the forwarding and so without
  signature; unless the agent is blacklisted there, the
  origin accepts it, its queue and dependency tracker become those after completing the subtask, so that what
  waited for it is released there, and the work is paid by both: each coordinator whose queue still held the subtask posts a
  payment to the reward account of the agent. (The forwarded request is taken to arrive; the ids of the two payments are new.)
\<close>

theorem forwarded_result_settles_origin:
  assumes "resultRoute envB decrypt idsB now headers ip raw sB = (sB', Result_ok, out)" "openResult decrypt raw (fst (authenticate envB headers ''/result'' ip now sB)) = (s2, Inr body)"
    "freshTx (ri_tx idsB) (cs_credits sB)"
    "jsm_get (fd_taskOriginMap (cs_fed sB)) (sr_subtaskId body) = Some (a, url)" "a \<noteq> co_peerId (env_self envB)"
    "snd (activeBlacklistRecord nowA (sr_agentId body) (fd_blacklist (cs_fed sA))) = None"
    "freshTx (ri_tx idsA) (cs_credits sA)" "pgStore (cs_credits sA) = None \<longrightarrow> ri_report idsA \<notin> set (seenReports (creditEngine (cs_credits sA)))"
  shows "Forward url body \<in> set out \<and>
    (\<exists>sA' outA released. resultRoute envA decryptA idsA nowA (forwardHeaders meshToken) ipA (forwardedRequest body) sA = (sA', Result_ok, outA) \<and>
      completeAndRelease body nowA (cs_deps sA) (cs_queue sA) = (cs_deps sA', cs_queue sA', released) \<and>
      (\<forall>account.
        accountTxs (cs_credits sB') account = accountTxs (cs_credits sB) account @
          paymentFor idsB now body (getSubtask (sr_subtaskId body) (cs_queue sB)) (loadOf (cs_queue sB')) (cs_credits sB) account \<and>
        accountTxs (cs_credits sA') account = accountTxs (cs_credits sA) account @
          paymentFor idsA nowA body (getSubtask (sr_subtaskId body) (cs_queue sA)) (loadOf (cs_queue sA')) (cs_credits sA) account))"
proof -
  from accepted_result [OF assms(1)] obtain body' s1 r s2' s3 where
    b: "authenticate envB headers ''/result'' ip now sB = (s1, r)" "openResult decrypt raw s1 = (s2', Inr body')" and
    c: "completeResult envB idsB now body' s3 = (sB', Result_ok, out)" and
    s3: "cs_deps s3 = cs_deps sB" "cs_queue s3 = cs_queue sB" "cs_credits s3 = cs_credits sB" "fd_taskOriginMap (cs_fed s3) = fd_taskOriginMap (cs_fed sB)" .
  have body: "body' = body" using b assms(2) by simp
  have fwd: "Forward url body \<in> set out" using completeResult_forwards(1) [OF c] assms(4,5) s3(4) body by simp
  have frB: "freshTx (ri_tx idsB) (cs_credits s3)" using assms(3) s3 by simp
  have raw: "rr_encryptedPayload (forwardedRequest body) = None" "rr_plain (forwardedRequest body) = Some body" by (simp_all add: forwardedRequest_def)
  from unsigned_result [OF forwardHeaders_unsigned raw assms(6,8)] obtain sA' outA where
    A: "resultRoute envA decryptA idsA nowA (forwardHeaders meshToken) ipA (forwardedRequest body) sA = (sA', Result_ok, outA)" by blast
  let ?sA = "updFed (\<lambda>fed. fed\<lparr> fd_blacklist := fst (activeBlacklistRecord nowA (sr_agentId body) (fd_blacklist fed)) \<rparr>) sA"
  have cA: "completeResult envA idsA nowA body ?sA = (sA', Result_ok, outA)" using A unsigned_route [OF forwardHeaders_unsigned raw assms(6)] by simp
  have frA: "freshTx (ri_tx idsA) (cs_credits ?sA)" using assms(7) by simp
  from completeResult_facts(1) [OF cA frA] obtain released where
    rel: "completeAndRelease body nowA (cs_deps sA) (cs_queue sA) = (cs_deps sA', cs_queue sA', released)" by auto
  have payA: "accountTxs (cs_credits sA') account = accountTxs (cs_credits sA) account @
      paymentFor idsA nowA body (getSubtask (sr_subtaskId body) (cs_queue sA)) (loadOf (cs_queue sA')) (cs_credits sA) account" for account
    using completeResult_facts(2) [OF cA frA, of account] by simp
  have payB: "accountTxs (cs_credits sB') account = accountTxs (cs_credits sB) account @
      paymentFor idsB now body (getSubtask (sr_subtaskId body) (cs_queue sB)) (loadOf (cs_queue sB')) (cs_credits sB) account" for account
    using completeResult_facts(2) [OF c frB, of account] s3 body by simp
  show ?thesis using fwd A rel payA payB by blast
qed

section \<open>Submission\<close>

lemma submitCharge_paid:
  assumes "a \<noteq> ''anonymous''" "enforceContributionFirstPolicy cfg a st" "1 \<le> storeBalance st a"
  shows "submitCharge cfg u now a task st = (postTx (spendTx u now a 1 ''task_submit'' (Some task)) st, None)"
  using assms by (simp add: submitCharge_def spendCredits_post)

lemma spendTx_account: "tx_accountId (spendTx u now a c reason task) = a" "tx_txId (spendTx u now a c reason task) = u"
  by (simp_all add: spendTx_def)

text \<open>
  A submission is charged before it is decomposed, and the charge stays when the decomposition fails. For a named account that the
  contribution policy admits and whose balance covers the price, \<open>POST /submit\<close> answers 502 when the inference service refuses
  and fails when it cannot be reached; nothing is queued, held back, recorded or broadcast; yet the account has one
  more transaction, the credit spent on the task.
\<close>

theorem submit_failure_keeps_charge:
  assumes "sb_submitterAccountId b \<noteq> ''anonymous''" "enforceContributionFirstPolicy (env_contribution env) (sb_submitterAccountId b) (cs_credits s)"
    "1 \<le> storeBalance (cs_credits s) (sb_submitterAccountId b)" "freshTx (si_tx ids) (cs_credits s)"
    "answer = Decompose_failed \<or> answer = Decompose_threw"
  shows "\<exists>s'. submitRoute env answer ids now b s =
      (s', if answer = Decompose_failed then Reply_error 502 ''inference_service_unavailable'' None else Reply_threw, []) \<and>
    cs_mesh s' = cs_mesh s \<and> cs_deps s' = cs_deps s \<and>
    (\<forall>account. accountTxs (cs_credits s') account = accountTxs (cs_credits s) account @
      (if account = sb_submitterAccountId b then [spendTx (si_tx ids) now account 1 ''task_submit'' (Some (sb_taskId b))] else []))"
proof -
  let ?tx = "spendTx (si_tx ids) now (sb_submitterAccountId b) 1 ''task_submit'' (Some (sb_taskId b))"
  have "submitCharge (env_contribution env) (si_tx ids) now (sb_submitterAccountId b) (sb_taskId b) (cs_credits s) = (postTx ?tx (cs_credits s), None)"
    by (rule submitCharge_paid [OF assms(1-3)])
  then have "submitRoute env answer ids now b s = (s\<lparr> cs_credits := postTx ?tx (cs_credits s) \<rparr>,
      if answer = Decompose_failed then Reply_error 502 ''inference_service_unavailable'' None else Reply_threw, [])"
    using assms(5) by (auto simp: submitRoute_def)
  moreover have "accountTxs (postTx ?tx (cs_credits s)) account = accountTxs (cs_credits s) account @ (if account = sb_submitterAccountId b then [?tx] else [])" for account
    using store.entries_post [of ?tx "cs_credits s"] assms(4) by (simp add: spendTx_account)
  ultimately show ?thesis by auto
qed

section \<open>Examples\<close>

text \<open>Coordinator \<open>b\<close>, which knows coordinator \<open>a\<close>, with and without a live agent.\<close>

definition ex_peer_fed :: "bool \<Rightarrow> Federation" where
  "ex_peer_fed alive = ex_fed\<lparr> fd_agentCapabilities := if alive then [(''ag'', ex_capability)] else [], fd_queue := ex_queue \<rparr>"

lemma ex_peer_fed_facts:
  "findPeer ''a'' (ex_peer_fed alive) = Some (ex_member ''a'')" "fd_seenIds (ex_peer_fed alive) = []" "snd (countMessage 600 ''a'' (ex_peer_fed alive))"
  "aliveAgents 600 (ex_peer_fed alive) = alive" "fd_queue (ex_peer_fed alive) = ex_queue"
  using ex_fed_facts
  by (auto simp: ex_peer_fed_def findPeer_def countMessage_def aliveAgents_def jsm_values_def ex_capability_def Let_def split: option.splits prod.splits)

lemma ex_a: "co_peerId (ex_coordinator ''a'') = ''a''" "co_peerId (ex_coordinator ''b'') = ''b''"
  by (simp_all add: ex_coordinator_def)

definition ex_env_a :: Env where
  "ex_env_a = ex_env\<lparr> env_self := ex_coordinator ''a'' \<rparr>"

lemma ex_env_a_simps [simp]: "env_crypto ex_env_a = ex_crypto" "env_self ex_env_a = ex_coordinator ''a''"
  by (simp_all add: ex_env_a_def ex_env_def)

theorem offer_reaches_peer_witness:
  "\<exists>msg st'. offerMessage ex_env_a 500 (''m1'', ex_subtask ''new'' ''p'' 5 (Some ''qwen'')) = Broadcast msg \<and>
    handleMeshIngest ex_crypto (ex_coordinator ''b'') ''u1'' 600 msg (ex_peer_fed True) =
      (st', Fed_enqueued, [claimMessage ex_crypto (ex_coordinator ''b'') ''u1'' 600 ''new'']) \<and>
    getSubtask ''new'' (fd_queue st') = Some (ex_subtask ''new'' ''p'' 5 None) \<and> abs_leases (fd_queue st') ''new'' = Some None"
proof -
  let ?x = "ex_subtask ''new'' ''p'' 5 (Some ''qwen'')" and ?st = "ex_peer_fed True"
  obtain msg where msg: "offerMessage ex_env_a 500 (''m1'', ?x) = Broadcast msg" by (simp add: offerMessage_def)
  have x: "st_id ?x = ''new''" "offered ?x = ex_subtask ''new'' ''p'' 5 None" by (simp_all add: ex_subtask_def offered_def)
  have free: "abs_leases ex_queue ''new'' = None" by code_simp
  have h: "key_pair (env_crypto ex_env_a) (co_privateKeyPem (env_self ex_env_a)) (id_publicKeyPem (ex_member ''a''))"
    "findPeer (co_peerId (env_self ex_env_a)) ?st = Some (ex_member ''a'')" "''m1'' \<notin> set (fd_seenIds ?st)" "(600 :: int) \<le> 500 + 60000"
    "snd (countMessage 600 (co_peerId (env_self ex_env_a)) ?st)" "co_peerId (ex_coordinator ''b'') \<noteq> co_peerId (env_self ex_env_a)"
    "aliveAgents 600 ?st" "abs_leases (fd_queue ?st) (st_id ?x) = None"
    using ex_pair ex_peer_fed_facts [of True] free by (simp_all add: ex_a x)
  from offer_reaches_peer [OF h msg, of "''u1''"] show ?thesis using msg by (auto simp: x)
qed

theorem claim_withdraws_iff_idle_witness:
  "\<exists>st1 st2. handleMeshIngest ex_crypto (ex_coordinator ''b'') ''v'' 600 (claimMessage ex_crypto (ex_coordinator ''a'') ''u'' 590 ''a'') (ex_peer_fed False) = (st1, Fed_ok, []) \<and>
     abs_leases (fd_queue st1) ''a'' = None \<and>
     handleMeshIngest ex_crypto (ex_coordinator ''b'') ''v'' 600 (claimMessage ex_crypto (ex_coordinator ''a'') ''u'' 590 ''a'') (ex_peer_fed True) = (st2, Fed_ok, []) \<and>
     abs_leases (fd_queue st2) ''a'' = Some None"
proof -
  have free: "abs_leases ex_queue ''a'' = Some None" by code_simp
  have h: "findPeer (co_peerId (ex_coordinator ''a'')) (ex_peer_fed al) = Some (ex_member ''a'')" "''u'' \<notin> set (fd_seenIds (ex_peer_fed al))"
    "(600 :: int) \<le> 590 + 30000" "snd (countMessage 600 (co_peerId (ex_coordinator ''a'')) (ex_peer_fed al))"
    "co_peerId (ex_coordinator ''a'') \<noteq> co_peerId (ex_coordinator ''b'')" "queue_inv (fd_queue (ex_peer_fed al))" "named_claims (fd_queue (ex_peer_fed al))"
    "abs_leases (fd_queue (ex_peer_fed al)) ''a'' = Some None" for al
    using ex_peer_fed_facts [of al] ex_queue_inv free by (simp_all add: ex_a)
  have "\<exists>st'. handleMeshIngest ex_crypto (ex_coordinator ''b'') ''v'' 600 (claimMessage ex_crypto (ex_coordinator ''a'') ''u'' 590 ''a'') (ex_peer_fed al) = (st', Fed_ok, []) \<and>
     abs_leases (fd_queue st') ''a'' = (if al then Some None else None)" for al
  proof -
    from claim_withdraws_iff_idle [OF ex_pair h, where v = "''v''"] obtain st' where
      "handleMeshIngest ex_crypto (ex_coordinator ''b'') ''v'' 600 (claimMessage ex_crypto (ex_coordinator ''a'') ''u'' 590 ''a'') (ex_peer_fed al) = (st', Fed_ok, [])"
      "abs_leases (fd_queue st') = (if aliveAgents 600 (ex_peer_fed al) then abs_leases (fd_queue (ex_peer_fed al))
         else (abs_leases (fd_queue (ex_peer_fed al)))(''a'' := None))" by blast
    then show ?thesis using free by (auto simp: ex_peer_fed_facts)
  qed
  from this [of False] this [of True] show ?thesis by simp
qed

definition ex_remote :: Coordinator where
  "ex_remote = updFed (\<lambda>fed. fed\<lparr> fd_taskOriginMap := [(''b'', (''a'', ''url-a''))] \<rparr>) ex_coord"

theorem forwarded_result_settles_origin_witness:
  "\<exists>sB' out sA' outA released.
    resultRoute ex_env (\<lambda>_ _. Open_failed) ex_result_ids 40 [] None (ex_raw (ex_result ''b'')) ex_remote = (sB', Result_ok, out) \<and>
    Forward ''url-a'' (ex_result ''b'') \<in> set out \<and>
    resultRoute ex_env_a (\<lambda>_ _. Open_failed) ex_result_ids 41 (forwardHeaders ''m'') None (forwardedRequest (ex_result ''b'')) ex_coord = (sA', Result_ok, outA) \<and>
    completeAndRelease (ex_result ''b'') 41 newSubtaskDepTracker ex_queue = (cs_deps sA', cs_queue sA', released)"
proof -
  have f: "cs_credits ex_remote = cs_credits ex_coord" "fd_blacklist (cs_fed ex_remote) = fd_blacklist (cs_fed ex_coord)"
    "jsm_get (fd_taskOriginMap (cs_fed ex_remote)) ''b'' = Some (''a'', ''url-a'')" by (simp_all add: ex_remote_def jsm_get_def)
  have id: "sr_subtaskId (ex_result ''b'') = ''b''" by (simp add: ex_result_def)
  have raw: "rr_encryptedPayload (ex_raw (ex_result ''b'')) = None" "rr_plain (ex_raw (ex_result ''b'')) = Some (ex_result ''b'')" by (simp_all add: ex_raw_def)
  have pg: "pgStore (cs_credits ex_remote) = None \<longrightarrow> ri_report ex_result_ids \<notin> set (seenReports (creditEngine (cs_credits ex_remote)))"
    "pgStore (cs_credits ex_coord) = None \<longrightarrow> ri_report ex_result_ids \<notin> set (seenReports (creditEngine (cs_credits ex_coord)))"
    using ex_credits(2) f by auto
  have nb: "snd (activeBlacklistRecord 40 (sr_agentId (ex_result ''b'')) (fd_blacklist (cs_fed ex_remote))) = None" unfolding f by (rule ex_not_blacklisted)
  from unsigned_result [OF ex_unsigned raw nb pg(1)] obtain sB' out where
    B: "resultRoute ex_env (\<lambda>_ _. Open_failed) ex_result_ids 40 [] None (ex_raw (ex_result ''b'')) ex_remote = (sB', Result_ok, out)" by blast
  have op: "openResult (\<lambda>_ _. Open_failed) (ex_raw (ex_result ''b'')) (fst (authenticate ex_env [] ''/result'' None 40 ex_remote)) = (ex_remote, Inr (ex_result ''b''))"
    by (simp add: openResult_def raw authenticate_unsigned [OF ex_unsigned] split: option.splits prod.splits)
  have o: "jsm_get (fd_taskOriginMap (cs_fed ex_remote)) (sr_subtaskId (ex_result ''b'')) = Some (''a'', ''url-a'')" "''a'' \<noteq> co_peerId (env_self ex_env)"
    using f(3) id by (simp_all add: ex_env_def ex_coordinator_def)
  have fr: "freshTx (ri_tx ex_result_ids) (cs_credits ex_remote)" using ex_credits(1) f by simp
  from forwarded_result_settles_origin [OF B op fr o ex_not_blacklisted ex_credits(1) pg(2), where nowA = 41 and envA = ex_env_a and decryptA = "\<lambda>_ _. Open_failed" and ipA = None and meshToken = "''m''"]
  show ?thesis using B by auto
qed

definition ex_submit :: SubmitBody where
  "ex_submit = \<lparr> sb_taskId = ''t1'', sb_submitterAccountId = ''acc'', sb_projectId = ''p'', sb_tenantId = None, sb_resourceClass = SwarmQueue.Cpu,
     sb_priority = 50, sb_requestedModel = None \<rparr>"

definition ex_submit_ids :: SubmitIds where
  "ex_submit_ids = \<lparr> si_tx = ''u2'', si_event = ''e'', si_subtasks = [], si_offers = [], si_summary = ''m'' \<rparr>"

definition ex_funded_coord :: Coordinator where
  "ex_funded_coord = ex_coord\<lparr> cs_credits := fst (adjustCredits ''u1'' 5 ''acc'' 25 ''faucet'' ex_store) \<rparr>"

theorem submit_failure_keeps_charge_witness:
  "\<exists>s'. submitRoute ex_env Decompose_failed ex_submit_ids 9 ex_submit ex_funded_coord = (s', Reply_error 502 ''inference_service_unavailable'' None, []) \<and>
     cs_queue s' = ex_queue \<and>
     accountTxs (cs_credits s') ''acc'' = accountTxs (cs_credits ex_funded_coord) ''acc'' @ [spendTx ''u2'' 9 ''acc'' 1 ''task_submit'' (Some ''t1'')]"
proof -
  have c: "cs_credits ex_funded_coord = postTx (adjustTx ''u1'' 5 ''acc'' 25 ''faucet'') ex_store" by (simp add: ex_funded_coord_def adjustCredits_post)
  have tx: "accountTxs (cs_credits ex_funded_coord) ''acc'' = [adjustTx ''u1'' 5 ''acc'' 25 ''faucet'']"
    unfolding c by (simp add: postTx_def ex_store_def accountTxs_def persistCreditTransaction_def pg_transactions_def adjustTx_def)
  have bal: "storeBalance (cs_credits ex_funded_coord) ''acc'' = 25"
    unfolding storeBalance_sum tx using fl_of_int [of 25] by (simp add: sumCredits_def adjustTx_def n_add_def)
  then have cb: "\<exists>pg. pgStore (cs_credits ex_funded_coord) = Some pg \<and> creditBalance pg ''acc'' = 25"
    by (auto simp: storeBalance_def c postTx_def ex_store_def)
  have b: "sb_submitterAccountId ex_submit \<noteq> ''anonymous''"
    "enforceContributionFirstPolicy (env_contribution ex_env) (sb_submitterAccountId ex_submit) (cs_credits ex_funded_coord)"
    "1 \<le> storeBalance (cs_credits ex_funded_coord) (sb_submitterAccountId ex_submit)"
    using cb bal by (auto simp: ex_submit_def enforceContributionFirstPolicy_def ex_env_def split: prod.splits)
  have fr: "freshTx (si_tx ex_submit_ids) (cs_credits ex_funded_coord)"
    unfolding c by (simp add: ex_submit_ids_def freshTx_def postTx_def ex_store_def persistCreditTransaction_def adjustTx_def)
  have "cs_queue ex_funded_coord = ex_queue" using ex_coord_simps(1) by (simp add: ex_funded_coord_def)
  then show ?thesis using submit_failure_keeps_charge [OF b fr, of Decompose_failed 9] by (auto simp: ex_submit_def ex_submit_ids_def)
qed

end
