(* ===== verification/StatsLedger.thy ===== *)
theory StatsLedger
  imports Mesh
begin

text \<open>
  The statistics ledger that coordinators share (\<open>src/src/swarm/coordinator.ts\<close>, the \<open>/stats\<close> routes and their helpers, with the tables of
  \<open>src/src/db/postgres.ts\<close>): persisting records and their projections, verifying and ingesting the records of peers,
  signing and committing checkpoints, anchoring, and pulling from a peer. A database is configured; without one the operations
  do nothing. The parser of JSON, the column of type \<open>JSONB\<close> and the collation of ids are arguments.
\<close>

section \<open>Data\<close>

text \<open>What the projections read of a payload: a field is \<open>None\<close> where it is missing or of another type.\<close>

record ProjectionPayload =
  pp_ownerEmail :: "string option"
  pp_emailVerified :: "bool option"
  pp_nodeApproved :: "bool option"
  pp_approved :: "bool option"
  pp_active :: "bool option"
  pp_sourceIp :: "string option"
  pp_countryCode :: "string option"
  pp_vpnDetected :: "bool option"
  pp_credits :: "num option"
  pp_estimatedCredits :: "num option"

datatype Parsed = Bad_json | Null_json | Fields ProjectionPayload

datatype StatsNodeKind = Agent_node | Coordinator_node

record NodeStatus =
  ns_nodeKind :: StatsNodeKind
  ns_ownerEmail :: "string option"
  ns_emailVerified :: "bool option"
  ns_nodeApproved :: "bool option"
  ns_active :: "bool option"
  ns_sourceIp :: "string option"
  ns_countryCode :: "string option"
  ns_vpnDetected :: "bool option"
  ns_lastSeenMs :: "ms option"
  ns_updatedAtMs :: ms

record EarningsRow =
  ew_ownerEmail :: "string option"
  ew_totalCredits :: num
  ew_taskCount :: nat
  ew_updatedAtMs :: ms

datatype AnchorStatus = Anchor_pending | Anchored | Anchor_failed

record BitcoinAnchorRecord =
  ba_anchorId :: string
  ba_epochId :: string
  ba_checkpointHash :: string
  ba_anchorNetwork :: string
  ba_txRef :: string
  ba_status :: AnchorStatus
  ba_anchoredAtMs :: "ms option"
  ba_createdAtMs :: ms

text \<open>
  \<open>se_column\<close> is what a text of JSON becomes in the column: \<open>None\<close> where the parser or the database refuses it, else the text that
  a later listing prints, \<open>Some None\<close> where it prints nothing. \<open>se_after\<close> orders ids.
\<close>

record StatsEnv =
  se_crypto :: crypto
  se_parse :: "string \<Rightarrow> Parsed"
  se_column :: "string \<Rightarrow> string option option"
  se_after :: "string \<Rightarrow> string \<Rightarrow> bool"
  se_identity :: PeerKeys
  se_peers :: "MeshPeerIdentity list"
  se_network :: string
  se_minConfirmations :: int

record StatsState =
  ss_chain :: OrderingChain
  ss_ledger :: "QueueEventRecord list"
  ss_rows :: "QueueEventRecord list"
  ss_nodes :: "(string, NodeStatus) jsmap"
  ss_earnings :: "(string, EarningsRow) jsmap"
  ss_anchors :: "BitcoinAnchorRecord list"

section \<open>Tables\<close>

definition persistLedgerRecord :: "QueueEventRecord \<Rightarrow> QueueEventRecord list \<Rightarrow> QueueEventRecord list" where
  "persistLedgerRecord r rows = (if list_ex (\<lambda>x. qe_id x = qe_id r) rows then rows else rows @ [r])"

text \<open>
  A row keeps the payload the way the column prints it. A known id makes the statement do nothing; a known hash under another id violates
  the constraint of the column \<open>hash\<close>, and the statement fails (\<open>None\<close>).
\<close>

definition storedPayload :: "StatsEnv \<Rightarrow> string option \<Rightarrow> string option option" where
  "storedPayload env text = (if truthy_str text then se_column env (the text) else Some None)"

definition persistStatsRow :: "StatsEnv \<Rightarrow> QueueEventRecord \<Rightarrow> QueueEventRecord list \<Rightarrow> QueueEventRecord list option" where
  "persistStatsRow env r rows =
     (case storedPayload env (ep_payloadJson (qe_payload r)) of
        None \<Rightarrow> None
      | Some col \<Rightarrow>
          if list_ex (\<lambda>x. qe_id x = qe_id r) rows then Some rows
          else if list_ex (\<lambda>x. qe_hash x = qe_hash r) rows then None
          else Some (rows @ [r\<lparr> qe_payload := (qe_payload r)\<lparr> ep_payloadJson := col \<rparr> \<rparr>]))"

definition coalesce :: "'a option \<Rightarrow> 'a option \<Rightarrow> 'a option" where
  "coalesce new old = (case new of None \<Rightarrow> old | Some x \<Rightarrow> Some x)"

definition upsertNodeStatusProjection :: "string \<Rightarrow> NodeStatus \<Rightarrow> (string, NodeStatus) jsmap \<Rightarrow> (string, NodeStatus) jsmap" where
  "upsertNodeStatusProjection nodeId n m =
     (case jsm_get m nodeId of
        None \<Rightarrow> jsm_set nodeId n m
      | Some old \<Rightarrow> jsm_set nodeId \<lparr> ns_nodeKind = ns_nodeKind n, ns_ownerEmail = coalesce (ns_ownerEmail n) (ns_ownerEmail old),
          ns_emailVerified = coalesce (ns_emailVerified n) (ns_emailVerified old), ns_nodeApproved = coalesce (ns_nodeApproved n) (ns_nodeApproved old),
          ns_active = coalesce (ns_active n) (ns_active old), ns_sourceIp = coalesce (ns_sourceIp n) (ns_sourceIp old),
          ns_countryCode = coalesce (ns_countryCode n) (ns_countryCode old), ns_vpnDetected = coalesce (ns_vpnDetected n) (ns_vpnDetected old),
          ns_lastSeenMs = coalesce (ns_lastSeenMs n) (ns_lastSeenMs old), ns_updatedAtMs = ns_updatedAtMs n \<rparr> m)"

definition incrementCoordinatorEarningsProjection ::
  "string \<Rightarrow> string option \<Rightarrow> num \<Rightarrow> nat \<Rightarrow> ms \<Rightarrow> (string, EarningsRow) jsmap \<Rightarrow> (string, EarningsRow) jsmap" where
  "incrementCoordinatorEarningsProjection accountId ownerEmail credits taskCountDelta now m =
     (case jsm_get m accountId of
        None \<Rightarrow> jsm_set accountId \<lparr> ew_ownerEmail = ownerEmail, ew_totalCredits = credits, ew_taskCount = taskCountDelta, ew_updatedAtMs = now \<rparr> m
      | Some old \<Rightarrow> jsm_set accountId \<lparr> ew_ownerEmail = coalesce ownerEmail (ew_ownerEmail old), ew_totalCredits = ew_totalCredits old + credits,
          ew_taskCount = ew_taskCount old + taskCountDelta, ew_updatedAtMs = now \<rparr> m)"

text \<open>\<open>ORDER BY issued_at_ms DESC, id DESC LIMIT 1\<close>.\<close>

definition newer :: "StatsEnv \<Rightarrow> QueueEventRecord \<Rightarrow> QueueEventRecord \<Rightarrow> bool" where
  "newer env a b = (ep_issuedAtMs (qe_payload b) < ep_issuedAtMs (qe_payload a) \<or>
     (ep_issuedAtMs (qe_payload b) = ep_issuedAtMs (qe_payload a) \<and> se_after env (qe_id a) (qe_id b)))"

fun newest :: "StatsEnv \<Rightarrow> QueueEventRecord list \<Rightarrow> QueueEventRecord option" where
  "newest env [] = None"
| "newest env (r # rs) = (case newest env rs of None \<Rightarrow> Some r | Some b \<Rightarrow> if newer env r b then Some r else Some b)"

text \<open>
  The head: time, hash and a count. The count is \<open>reltuples\<close>, the estimate the database's statistics hold at that moment, an argument here.
\<close>

definition latestStatsLedgerHead :: "StatsEnv \<Rightarrow> int \<Rightarrow> StatsState \<Rightarrow> (ms \<times> string \<times> int) option" where
  "latestStatsLedgerHead env reltuples s =
     map_option (\<lambda>r. (ep_issuedAtMs (qe_payload r), qe_hash r, reltuples)) (newest env (ss_rows s))"

definition latestStatsCheckpoint :: "StatsEnv \<Rightarrow> StatsState \<Rightarrow> (string \<times> int option \<times> ms) option" where
  "latestStatsCheckpoint env s =
     map_option (\<lambda>r. (the (ep_checkpointHash (qe_payload r)), ep_checkpointHeight (qe_payload r), ep_issuedAtMs (qe_payload r)))
       (newest env (filter (\<lambda>r. ep_eventType (qe_payload r) = Stats_checkpoint_commit \<and> ep_checkpointHash (qe_payload r) \<noteq> None) (ss_rows s)))"

definition signerOf :: "QueueEventRecord \<Rightarrow> string" where
  "signerOf r = nullish (ep_coordinatorId (qe_payload r)) (ep_actorId (qe_payload r))"

definition checkpointSignatureStatus :: "string \<Rightarrow> QueueEventRecord list \<Rightarrow> bool \<times> string list" where
  "checkpointSignatureStatus checkpointHash rows =
     (let mine = filter (\<lambda>r. ep_checkpointHash (qe_payload r) = Some checkpointHash) rows in
      (list_ex (\<lambda>r. ep_eventType (qe_payload r) = Stats_checkpoint_commit) mine,
       remdups (map signerOf (filter (\<lambda>r. ep_eventType (qe_payload r) = Stats_checkpoint_signature) mine))))"

text \<open>\<open>WHERE issued_at_ms > since ORDER BY issued_at_ms ASC, id ASC LIMIT limit\<close>.\<close>

fun insertRow :: "StatsEnv \<Rightarrow> QueueEventRecord \<Rightarrow> QueueEventRecord list \<Rightarrow> QueueEventRecord list" where
  "insertRow env r [] = [r]"
| "insertRow env r (x # xs) = (if newer env r x then x # insertRow env r xs else r # x # xs)"

definition listStatsLedgerSince :: "StatsEnv \<Rightarrow> ms \<Rightarrow> nat \<Rightarrow> StatsState \<Rightarrow> QueueEventRecord list" where
  "listStatsLedgerSince env since limit s =
     take (max 1 (min 5000 limit)) (foldr (insertRow env) (filter (\<lambda>r. since < ep_issuedAtMs (qe_payload r)) (ss_rows s)) [])"

definition upsertBitcoinAnchor :: "BitcoinAnchorRecord \<Rightarrow> BitcoinAnchorRecord list \<Rightarrow> BitcoinAnchorRecord list" where
  "upsertBitcoinAnchor a rows =
     (if list_ex (\<lambda>x. ba_anchorId x = ba_anchorId a) rows
      then map (\<lambda>x. if ba_anchorId x = ba_anchorId a
             then x\<lparr> ba_txRef := ba_txRef a, ba_status := ba_status a, ba_anchoredAtMs := ba_anchoredAtMs a \<rparr> else x) rows
      else rows @ [a])"

text \<open>The latest of a checkpoint by creation time, of equal times the one inserted last.\<close>

fun latestAnchorByCheckpoint :: "string \<Rightarrow> BitcoinAnchorRecord list \<Rightarrow> BitcoinAnchorRecord option" where
  "latestAnchorByCheckpoint h [] = None"
| "latestAnchorByCheckpoint h (a # as) =
     (case latestAnchorByCheckpoint h as of
        None \<Rightarrow> if ba_checkpointHash a = h then Some a else None
      | Some b \<Rightarrow> if ba_checkpointHash a = h \<and> ba_createdAtMs b < ba_createdAtMs a then Some a else Some b)"

section \<open>Projections\<close>

definition noFields :: ProjectionPayload where
  "noFields = \<lparr> pp_ownerEmail = None, pp_emailVerified = None, pp_nodeApproved = None, pp_approved = None, pp_active = None,
     pp_sourceIp = None, pp_countryCode = None, pp_vpnDetected = None, pp_credits = None, pp_estimatedCredits = None \<rparr>"

definition parseRecordPayload :: "StatsEnv \<Rightarrow> QueueEventRecord \<Rightarrow> Parsed" where
  "parseRecordPayload env r =
     (let text = ep_payloadJson (qe_payload r) in
      if \<not> truthy_str text then Fields noFields
      else (case se_parse env (the text) of Bad_json \<Rightarrow> Fields noFields | v \<Rightarrow> v))"

text \<open>The two parts of \<open>taskId.split(":")\<close> that are used; the second may be missing or empty.\<close>

definition taskKind :: "string \<Rightarrow> StatsNodeKind" where
  "taskKind t = (if takeWhile (\<lambda>c. c \<noteq> CHR '':'') t = ''coordinator'' then Coordinator_node else Agent_node)"

definition taskNode :: "string \<Rightarrow> string \<Rightarrow> string" where
  "taskNode t actor = (let n = takeWhile (\<lambda>c. c \<noteq> CHR '':'') (drop 1 (dropWhile (\<lambda>c. c \<noteq> CHR '':'') t)) in if n = [] then actor else n)"

definition nodeStatus :: "EventPayload \<Rightarrow> ProjectionPayload \<Rightarrow> NodeStatus" where
  "nodeStatus p f = \<lparr> ns_nodeKind = taskKind (ep_taskId p), ns_ownerEmail = pp_ownerEmail f, ns_emailVerified = pp_emailVerified f,
     ns_nodeApproved = coalesce (pp_nodeApproved f) (pp_approved f), ns_active = pp_active f, ns_sourceIp = pp_sourceIp f,
     ns_countryCode = pp_countryCode f, ns_vpnDetected = pp_vpnDetected f, ns_lastSeenMs = Some (ep_issuedAtMs p),
     ns_updatedAtMs = ep_issuedAtMs p \<rparr>"

text \<open>\<open>None\<close> where the payload is \<open>null\<close>: reading a field of it throws.\<close>

definition applyStatsProjectionRecord :: "StatsEnv \<Rightarrow> QueueEventRecord \<Rightarrow> StatsState \<Rightarrow> StatsState option" where
  "applyStatsProjectionRecord env r s =
     (let p = qe_payload r in
      if ep_eventType p = Node_approval \<or> ep_eventType p = Node_validation
      then (case parseRecordPayload env r of
          Fields f \<Rightarrow> Some (s\<lparr> ss_nodes := upsertNodeStatusProjection (taskNode (ep_taskId p) (ep_actorId p)) (nodeStatus p f) (ss_nodes s) \<rparr>)
        | _ \<Rightarrow> None)
      else if ep_eventType p = Earnings_accrual
      then (case parseRecordPayload env r of
          Fields f \<Rightarrow>
            (let credits = nullish (coalesce (pp_credits f) (pp_estimatedCredits f)) 0 in
             if credits \<le> 0 then Some s
             else Some (s\<lparr> ss_earnings := incrementCoordinatorEarningsProjection (ep_actorId p) (pp_ownerEmail f) credits 1 (ep_issuedAtMs p) (ss_earnings s) \<rparr>))
        | _ \<Rightarrow> None)
      else Some s)"

text \<open>The row, then its projection; \<open>False\<close> where either throws.\<close>

definition persistStatsLedgerRecord :: "StatsEnv \<Rightarrow> QueueEventRecord \<Rightarrow> StatsState \<Rightarrow> StatsState \<times> bool" where
  "persistStatsLedgerRecord env r s =
     (case persistStatsRow env r (ss_rows s) of
        None \<Rightarrow> (s, False)
      | Some rows \<Rightarrow>
          (let s1 = s\<lparr> ss_rows := rows \<rparr> in
           case applyStatsProjectionRecord env r s1 of None \<Rightarrow> (s1, False) | Some s2 \<Rightarrow> (s2, True)))"

text \<open>An event of the coordinator's own: appended to its chain, stored, and added to the ledger of statistics.\<close>

definition recordStatsEvent :: "StatsEnv \<Rightarrow> ChainEvent \<Rightarrow> string \<Rightarrow> ms \<Rightarrow> StatsState \<Rightarrow> StatsState \<times> bool" where
  "recordStatsEvent env event uuid now s =
     (let (chain, r) = append (se_crypto env) event uuid now (ss_chain s)
      in persistStatsLedgerRecord env r (s\<lparr> ss_chain := chain, ss_ledger := persistLedgerRecord r (ss_ledger s) \<rparr>))"

section \<open>Records of peers\<close>

definition coordinatorPublicKeyById :: "StatsEnv \<Rightarrow> string \<Rightarrow> string option" where
  "coordinatorPublicKeyById env peerId =
     (if peerId = pk_peerId (se_identity env) then Some (pk_publicKeyPem (se_identity env))
      else map_option id_publicKeyPem (find (\<lambda>p. id_peerId p = peerId) (se_peers env)))"

definition verifyStatsLedgerRecord :: "StatsEnv \<Rightarrow> QueueEventRecord \<Rightarrow> bool" where
  "verifyStatsLedgerRecord env r =
     (truthy_str (ep_coordinatorId (qe_payload r)) \<and>
      (let key = coordinatorPublicKeyById env (the (ep_coordinatorId (qe_payload r))) in
       truthy_str key \<and> hashRecordPayload (se_crypto env) (qe_payload r) = qe_hash r \<and>
       verifyPayload (se_crypto env) (qe_hash r) (qe_signature r) (the key)))"

definition statsQuorumThreshold :: "StatsEnv \<Rightarrow> nat" where
  "statsQuorumThreshold env = max 1 ((length (se_peers env) + 1) div 2 + 1)"

text \<open>The ids and times of the two records a checkpoint may add.\<close>

record CheckpointIds =
  ci_signId :: string
  ci_signAt :: ms
  ci_commitId :: string
  ci_commitAt :: ms

definition checkpointEvent :: "StatsEnv \<Rightarrow> QueueEventType \<Rightarrow> string \<Rightarrow> int \<Rightarrow> (string \<times> json) list \<Rightarrow> ChainEvent" where
  "checkpointEvent env kind checkpointHash height payload =
     \<lparr> ce_eventType = kind, ce_taskId = ''stats-ledger'', ce_subtaskId = None, ce_actorId = pk_peerId (se_identity env),
       ce_coordinatorId = Some (pk_peerId (se_identity env)), ce_checkpointHeight = Some height, ce_checkpointHash = Some checkpointHash,
       ce_payloadJson = Some (json_text (JObj payload)) \<rparr>"

definition maybeFinalizeStatsCheckpoint :: "StatsEnv \<Rightarrow> int \<Rightarrow> CheckpointIds \<Rightarrow> StatsState \<Rightarrow> StatsState \<times> bool" where
  "maybeFinalizeStatsCheckpoint env reltuples ids s =
     (case latestStatsLedgerHead env reltuples s of
        None \<Rightarrow> (s, True)
      | Some (_, checkpointHash, count) \<Rightarrow>
          (let (hasCommit, signers) = checkpointSignatureStatus checkpointHash (ss_rows s);
               me = pk_peerId (se_identity env);
               threshold = statsQuorumThreshold env;
               (s1, ok) = (if me \<in> set signers then (s, True)
                 else recordStatsEvent env (checkpointEvent env Stats_checkpoint_signature checkpointHash count
                        [(''threshold'', JNum (int threshold)), (''signerPeerId'', JStr me)]) (ci_signId ids) (ci_signAt ids) s);
               signatures = (if me \<in> set signers then signers else signers @ [me]) in
           if \<not> ok then (s1, False)
           else if \<not> hasCommit \<and> threshold \<le> length signatures
           then recordStatsEvent env (checkpointEvent env Stats_checkpoint_commit checkpointHash count
                  [(''threshold'', JNum (int threshold)), (''signerSet'', JArr (map JStr signatures))]) (ci_commitId ids) (ci_commitAt ids) s1
           else (s1, True)))"

text \<open>The loop over the records: the counts, or \<open>None\<close> where storing one of them throws.\<close>

fun ingestLoop :: "StatsEnv \<Rightarrow> QueueEventRecord list \<Rightarrow> StatsState \<Rightarrow> nat \<times> nat \<Rightarrow> StatsState \<times> (nat \<times> nat) option" where
  "ingestLoop env [] s (ingested, skipped) = (s, Some (ingested, skipped))"
| "ingestLoop env (r # rs) s (ingested, skipped) =
     (if \<not> verifyStatsLedgerRecord env r then ingestLoop env rs s (ingested, skipped + 1)
      else (case persistStatsLedgerRecord env r s of
          (s', False) \<Rightarrow> (s', None)
        | (s', True) \<Rightarrow> ingestLoop env rs s' (ingested + 1, skipped)))"

definition ingestStatsLedgerRecords ::
  "StatsEnv \<Rightarrow> int \<Rightarrow> CheckpointIds \<Rightarrow> QueueEventRecord list \<Rightarrow> StatsState \<Rightarrow> StatsState \<times> (nat \<times> nat) option" where
  "ingestStatsLedgerRecords env reltuples ids rs s =
     (case ingestLoop env rs s (0, 0) of
        (s', None) \<Rightarrow> (s', None)
      | (s', Some (ingested, skipped)) \<Rightarrow>
          if 0 < ingested
          then (case maybeFinalizeStatsCheckpoint env reltuples ids s' of
              (s'', True) \<Rightarrow> (s'', Some (ingested, skipped)) | (s'', False) \<Rightarrow> (s'', None))
          else (s', Some (ingested, skipped)))"

section \<open>Anchors and finality\<close>

definition maybeAnchorLatestStatsCheckpoint :: "StatsEnv \<Rightarrow> int \<Rightarrow> string \<Rightarrow> ms \<Rightarrow> StatsState \<Rightarrow> StatsState \<times> BitcoinAnchorRecord option" where
  "maybeAnchorLatestStatsCheckpoint env reltuples uuid now s =
     (case latestStatsLedgerHead env reltuples s of
        None \<Rightarrow> (s, None)
      | Some (_, h, count) \<Rightarrow>
          (let existing = latestAnchorByCheckpoint h (ss_anchors s) in
           if map_option ba_status existing = Some Anchored then (s, existing)
           else (let a = \<lparr> ba_anchorId = nullish (map_option ba_anchorId existing) uuid, ba_epochId = ''stats:'' @ int_str count,
                     ba_checkpointHash = h, ba_anchorNetwork = se_network env,
                     ba_txRef = nullish (map_option ba_txRef existing) (''stats-anchor:'' @ se_network env @ '':'' @ take 24 h),
                     ba_status = Anchored, ba_anchoredAtMs = Some now, ba_createdAtMs = nullish (map_option ba_createdAtMs existing) now \<rparr>
                 in (s\<lparr> ss_anchors := upsertBitcoinAnchor a (ss_anchors s) \<rparr>, Some a))))"

datatype FinalityState = No_checkpoint | Anchored_pending | Anchored_confirmed

record Finality =
  fi_checkpointHash :: "string option"
  fi_checkpointHeight :: "int option"
  fi_softFinalized :: bool
  fi_hardFinalized :: bool
  fi_state :: FinalityState
  fi_anchor :: "(BitcoinAnchorRecord \<times> int) option"

definition anchorConfirmations :: "BitcoinAnchorRecord option \<Rightarrow> int" where
  "anchorConfirmations a = (if map_option ba_status a = Some Anchored then 1 else 0)"

definition latestStatsFinality :: "StatsEnv \<Rightarrow> StatsState \<Rightarrow> Finality" where
  "latestStatsFinality env s =
     (let none = \<lparr> fi_checkpointHash = None, fi_checkpointHeight = None, fi_softFinalized = False, fi_hardFinalized = False,
             fi_state = No_checkpoint, fi_anchor = None \<rparr> in
      case latestStatsCheckpoint env s of
        None \<Rightarrow> none
      | Some (h, height, _) \<Rightarrow>
          if h = [] then none
          else (let anchor = latestAnchorByCheckpoint h (ss_anchors s); confirmations = anchorConfirmations anchor;
                    hard = se_minConfirmations env \<le> confirmations in
            \<lparr> fi_checkpointHash = Some h, fi_checkpointHeight = height, fi_softFinalized = True, fi_hardFinalized = hard,
              fi_state = (if hard then Anchored_confirmed else Anchored_pending), fi_anchor = map_option (\<lambda>a. (a, confirmations)) anchor \<rparr>))"

definition verifyAnchorRoute :: "StatsEnv \<Rightarrow> string \<Rightarrow> StatsState \<Rightarrow> bool" where
  "verifyAnchorRoute env h s = (se_minConfirmations env \<le> anchorConfirmations (latestAnchorByCheckpoint h (ss_anchors s)))"

section \<open>Pulling from a peer\<close>

text \<open>The body of \<open>GET /stats/ledger/head\<close>.\<close>

definition statsHeadRoute :: "StatsEnv \<Rightarrow> int \<Rightarrow> StatsState \<Rightarrow> json" where
  "statsHeadRoute env reltuples s =
     (let (t0, h, count) = nullish (latestStatsLedgerHead env reltuples s) (0, ''GENESIS'', 0) in
      JObj [(''coordinatorId'', JStr (pk_peerId (se_identity env))),
        (''head'', JObj [(''issuedAtMs'', JNum t0), (''hash'', JStr h), (''count'', JNum count)]),
        (''checkpoint'', (case latestStatsCheckpoint env s of None \<Rightarrow> JNull
           | Some (c, height, t) \<Rightarrow> JObj [(''hash'', JStr c), (''height'', (case height of None \<Rightarrow> JNull | Some n \<Rightarrow> JNum n)), (''issuedAtMs'', JNum t)])),
        (''quorumThreshold'', JNum (int (statsQuorumThreshold env)))])"

definition statsRangeRoute :: "StatsEnv \<Rightarrow> ms \<Rightarrow> nat \<Rightarrow> StatsState \<Rightarrow> QueueEventRecord list" where
  "statsRangeRoute env since limit s = listStatsLedgerSince env since limit s"

text \<open>A numeric member of an object; \<open>None\<close> where it is missing or no number.\<close>

definition numMember :: "string \<Rightarrow> json \<Rightarrow> int option" where
  "numMember k j = (case j of JObj ms \<Rightarrow> (case map_of ms k of Some (JNum n) \<Rightarrow> Some n | _ \<Rightarrow> None) | _ \<Rightarrow> None)"

text \<open>
  \<open>head\<close> and \<open>range\<close> are the answers of the peer, \<open>None\<close> where the request fails or has a status outside the two
  hundreds; an exception of the ingestion is swallowed.
\<close>

definition syncStatsLedgerFromPeer ::
  "StatsEnv \<Rightarrow> json option \<Rightarrow> (ms \<Rightarrow> nat \<Rightarrow> QueueEventRecord list option) \<Rightarrow> int \<Rightarrow> CheckpointIds \<Rightarrow> StatsState \<Rightarrow> StatsState" where
  "syncStatsLedgerFromPeer env headReply rangeReply reltuples ids s =
     (case headReply of
        None \<Rightarrow> s
      | Some body \<Rightarrow>
          (let remote = numMember ''issuedAtMs'' body in
           if \<not> truthy_int remote then s
           else (let since = (case latestStatsLedgerHead env reltuples s of None \<Rightarrow> 0 | Some (t, _, _) \<Rightarrow> t) in
             if the remote \<le> since then s
             else (case rangeReply since 1000 of
                 None \<Rightarrow> s
               | Some rs \<Rightarrow> if rs = [] then s else fst (ingestStatsLedgerRecords env reltuples ids rs s)))))"

section \<open>Every commit has a quorum of signatures\<close>

text \<open>A coordinator with a key pair of its own.\<close>

definition stats_env_ok :: "StatsEnv \<Rightarrow> bool" where
  "stats_env_ok env = (pk_peerId (se_identity env) \<noteq> [] \<and> pk_publicKeyPem (se_identity env) \<noteq> [] \<and>
     key_pair (se_crypto env) (pk_privateKeyPem (se_identity env)) (pk_publicKeyPem (se_identity env)))"

text \<open>A record with the payload text it had before the column printed it.\<close>

definition with_text :: "QueueEventRecord \<Rightarrow> string option \<Rightarrow> QueueEventRecord" where
  "with_text r t = r\<lparr> qe_payload := (qe_payload r)\<lparr> ep_payloadJson := t \<rparr> \<rparr>"

lemma with_text_simps [simp]:
  "qe_id (with_text r t) = qe_id r" "qe_hash (with_text r t) = qe_hash r" "qe_signature (with_text r t) = qe_signature r"
  "ep_payloadJson (qe_payload (with_text r t)) = t" "with_text (with_text r t) u = with_text r u"
  "with_text r (ep_payloadJson (qe_payload r)) = r"
  "ep_eventType (qe_payload (with_text r t)) = ep_eventType (qe_payload r)"
  "ep_checkpointHash (qe_payload (with_text r t)) = ep_checkpointHash (qe_payload r)"
  "ep_coordinatorId (qe_payload (with_text r t)) = ep_coordinatorId (qe_payload r)"
  "ep_issuedAtMs (qe_payload (with_text r t)) = ep_issuedAtMs (qe_payload r)"
  "signerOf (with_text r t) = signerOf r"
  by (simp_all add: with_text_def signerOf_def)

definition sig_row :: "StatsEnv \<Rightarrow> QueueEventRecord \<Rightarrow> bool" where
  "sig_row env x = (ep_eventType (qe_payload x) = Stats_checkpoint_signature \<longrightarrow> (\<exists>t. verifyStatsLedgerRecord env (with_text x t)))"

definition stats_inv :: "StatsEnv \<Rightarrow> StatsState \<Rightarrow> bool" where
  "stats_inv env s = (signerPrivateKeyPem (ss_chain s) = pk_privateKeyPem (se_identity env) \<and> (\<forall>x \<in> set (ss_rows s). sig_row env x))"

lemma persistStatsRow_cases:
  assumes "persistStatsRow env r rows = Some rows'"
  obtains "rows' = rows" "list_ex (\<lambda>x. qe_id x = qe_id r) rows"
  | t where "rows' = rows @ [with_text r t]" "storedPayload env (ep_payloadJson (qe_payload r)) = Some t"
      "\<not> list_ex (\<lambda>x. qe_id x = qe_id r) rows" "\<not> list_ex (\<lambda>x. qe_hash x = qe_hash r) rows"
  using assms by (auto simp: persistStatsRow_def with_text_def split: option.splits if_splits)

lemma projection_frame:
  assumes "applyStatsProjectionRecord env r s = Some s'"
  shows "ss_rows s' = ss_rows s" "ss_chain s' = ss_chain s" "ss_ledger s' = ss_ledger s" "ss_anchors s' = ss_anchors s"
  using assms by (auto simp: applyStatsProjectionRecord_def Let_def split: if_splits Parsed.splits)

lemma persist_frame:
  "ss_chain (fst (persistStatsLedgerRecord env r s)) = ss_chain s"
  "ss_anchors (fst (persistStatsLedgerRecord env r s)) = ss_anchors s"
  "ss_rows (fst (persistStatsLedgerRecord env r s)) = (case persistStatsRow env r (ss_rows s) of None \<Rightarrow> ss_rows s | Some rows \<Rightarrow> rows)"
  by (auto simp: persistStatsLedgerRecord_def Let_def projection_frame split: option.splits)

lemma persist_inv:
  assumes "stats_inv env s" and "ep_eventType (qe_payload r) = Stats_checkpoint_signature \<Longrightarrow> verifyStatsLedgerRecord env r"
  shows "stats_inv env (fst (persistStatsLedgerRecord env r s))"
proof (cases "persistStatsRow env r (ss_rows s)")
  case None
  then show ?thesis using assms(1) by (simp add: stats_inv_def persist_frame)
next
  case (Some rows)
  have "sig_row env (with_text r t)" for t
    using assms(2) by (auto simp: sig_row_def intro!: exI [of _ "ep_payloadJson (qe_payload r)"])
  then show ?thesis using assms(1) Some
    by (auto simp: stats_inv_def persist_frame elim!: persistStatsRow_cases)
qed

lemma append_record:
  assumes "append cr e uuid now c = (c', r)"
  shows "signerPrivateKeyPem c' = signerPrivateKeyPem c" "qe_id r = uuid" "ep_issuedAtMs (qe_payload r) = now"
    "ep_eventType (qe_payload r) = ce_eventType e" "ep_checkpointHash (qe_payload r) = ce_checkpointHash e"
    "ep_coordinatorId (qe_payload r) = ce_coordinatorId e" "ep_payloadJson (qe_payload r) = ce_payloadJson e"
    "qe_hash r = hashRecordPayload cr (qe_payload r)" "qe_signature r = signPayload cr (qe_hash r) (signerPrivateKeyPem c)"
  using assms by (auto simp: append_def createQueueEventRecord_def Let_def)

lemma own_record_verifies:
  assumes "stats_env_ok env" and "append (se_crypto env) e uuid now c = (c', r)"
    and "signerPrivateKeyPem c = pk_privateKeyPem (se_identity env)" and "ce_coordinatorId e = Some (pk_peerId (se_identity env))"
  shows "verifyStatsLedgerRecord env r"
  using assms append_record [OF assms(2)]
  by (auto simp: verifyStatsLedgerRecord_def coordinatorPublicKeyById_def stats_env_ok_def truthy_str_def key_pair_def)

lemma record_inv:
  assumes "stats_env_ok env" and "stats_inv env s"
    and "ce_eventType e = Stats_checkpoint_signature \<Longrightarrow> ce_coordinatorId e = Some (pk_peerId (se_identity env))"
  shows "stats_inv env (fst (recordStatsEvent env e uuid now s))"
proof -
  obtain c r where a: "append (se_crypto env) e uuid now (ss_chain s) = (c, r)" by fastforce
  let ?s = "s\<lparr> ss_chain := c, ss_ledger := persistLedgerRecord r (ss_ledger s) \<rparr>"
  have key: "signerPrivateKeyPem (ss_chain s) = pk_privateKeyPem (se_identity env)" using assms(2) by (simp add: stats_inv_def)
  have "stats_inv env ?s" using assms(2) append_record(1) [OF a] by (simp add: stats_inv_def)
  moreover have "verifyStatsLedgerRecord env r" if "ep_eventType (qe_payload r) = Stats_checkpoint_signature"
    using own_record_verifies [OF assms(1) a key assms(3)] that append_record(4) [OF a] by simp
  ultimately have "stats_inv env (fst (persistStatsLedgerRecord env r ?s))" by (rule persist_inv)
  then show ?thesis by (simp add: recordStatsEvent_def a)
qed

lemma checkpointEvent_simps [simp]:
  "ce_eventType (checkpointEvent env k h n p) = k" "ce_checkpointHash (checkpointEvent env k h n p) = Some h"
  "ce_coordinatorId (checkpointEvent env k h n p) = Some (pk_peerId (se_identity env))"
  "ce_payloadJson (checkpointEvent env k h n p) = Some (json_text (JObj p))"
  by (simp_all add: checkpointEvent_def)

lemma finalize_inv:
  assumes "stats_env_ok env" and "stats_inv env s"
  shows "stats_inv env (fst (maybeFinalizeStatsCheckpoint env n ids s))"
  using record_inv [OF assms(1)] assms(2)
  by (auto simp: maybeFinalizeStatsCheckpoint_def Let_def split: option.splits prod.splits)
     (metis checkpointEvent_simps(3) fst_conv)+

lemma ingestLoop_inv: "stats_inv env s \<Longrightarrow> stats_inv env (fst (ingestLoop env rs s k))"
proof (induction env rs s k rule: ingestLoop.induct)
  case (2 env r rs s i k)
  show ?case
  proof (cases "verifyStatsLedgerRecord env r")
    case True
    obtain s' b where p: "persistStatsLedgerRecord env r s = (s', b)" by fastforce
    have "stats_inv env s'" using persist_inv [OF 2(3), of r] True p by simp
    then show ?thesis using True p 2(2) by (cases b) auto
  qed (use 2 in simp)
qed simp

lemma ingest_inv:
  assumes "stats_env_ok env" and "stats_inv env s"
  shows "stats_inv env (fst (ingestStatsLedgerRecords env n ids rs s))"
proof -
  obtain s' o' where l: "ingestLoop env rs s (0, 0) = (s', o')" by fastforce
  have "stats_inv env s'" using ingestLoop_inv [OF assms(2), of rs "(0, 0)"] l by simp
  then show ?thesis using finalize_inv [OF assms(1), of s' n ids] l
    by (auto simp: ingestStatsLedgerRecords_def split: option.splits prod.splits bool.splits)
qed


text \<open>What can happen to the ledger while the peers stay the same: events of the coordinator's own, ingestion, checkpoints, anchoring.\<close>

inductive stats_reach :: "StatsEnv \<Rightarrow> StatsState \<Rightarrow> bool" for env where
  stats_start: "ss_rows s = [] \<Longrightarrow> signerPrivateKeyPem (ss_chain s) = pk_privateKeyPem (se_identity env) \<Longrightarrow> stats_reach env s"
| stats_event: "stats_reach env s \<Longrightarrow> ce_coordinatorId e = Some (pk_peerId (se_identity env)) \<Longrightarrow>
    stats_reach env (fst (recordStatsEvent env e uuid now s))"
| stats_ingest: "stats_reach env s \<Longrightarrow> stats_reach env (fst (ingestStatsLedgerRecords env n ids rs s))"
| stats_finalize: "stats_reach env s \<Longrightarrow> stats_reach env (fst (maybeFinalizeStatsCheckpoint env n ids s))"
| stats_anchor: "stats_reach env s \<Longrightarrow> stats_reach env (fst (maybeAnchorLatestStatsCheckpoint env n uuid now s))"

lemma anchor_frame:
  "ss_rows (fst (maybeAnchorLatestStatsCheckpoint env n uuid now s)) = ss_rows s"
  "ss_chain (fst (maybeAnchorLatestStatsCheckpoint env n uuid now s)) = ss_chain s"
  by (auto simp: maybeAnchorLatestStatsCheckpoint_def Let_def split: option.splits)

lemma stats_reach_inv:
  assumes "stats_env_ok env"
  shows "stats_reach env s \<Longrightarrow> stats_inv env s"
proof (induction rule: stats_reach.induct)
  case (stats_start s)
  then show ?case by (simp add: stats_inv_def)
next
  case (stats_anchor s n uuid now)
  then show ?case by (simp add: stats_inv_def anchor_frame)
qed (use assms in \<open>auto intro: record_inv finalize_inv ingest_inv\<close>)

text \<open>A signature of \<open>k\<close> on the checkpoint \<open>h\<close> stands in the table, and verifies with the text it had.\<close>

definition attested :: "StatsEnv \<Rightarrow> QueueEventRecord list \<Rightarrow> string \<Rightarrow> string \<Rightarrow> bool" where
  "attested env rows h k = (\<exists>x \<in> set rows. ep_eventType (qe_payload x) = Stats_checkpoint_signature \<and> ep_checkpointHash (qe_payload x) = Some h \<and>
     ep_coordinatorId (qe_payload x) = Some k \<and> (\<exists>t. verifyStatsLedgerRecord env (with_text x t)))"

lemma attested_mono: "attested env rows h k \<Longrightarrow> set rows \<subseteq> set rows' \<Longrightarrow> attested env rows' h k"
  unfolding attested_def by blast

lemma signers_attested:
  assumes "stats_inv env s" and "k \<in> set (snd (checkpointSignatureStatus h (ss_rows s)))"
  shows "attested env (ss_rows s) h k"
proof -
  obtain x where x: "x \<in> set (ss_rows s)" "ep_checkpointHash (qe_payload x) = Some h" "ep_eventType (qe_payload x) = Stats_checkpoint_signature" "signerOf x = k"
    using assms(2) by (auto simp: checkpointSignatureStatus_def Let_def)
  then obtain t where t: "verifyStatsLedgerRecord env (with_text x t)" using assms(1) by (auto simp: stats_inv_def sig_row_def)
  then have "ep_coordinatorId (qe_payload x) = Some k"
    using x(4) by (auto simp: verifyStatsLedgerRecord_def signerOf_def truthy_str_def nullish_def split: option.splits)
  then show ?thesis unfolding attested_def using t x by blast
qed

lemma signers_distinct: "distinct (snd (checkpointSignatureStatus h rows))"
  by (simp add: checkpointSignatureStatus_def Let_def)

text \<open>The row an event of the coordinator's own adds.\<close>

lemma record_rows:
  assumes "recordStatsEvent env e uuid now s = (s', ok)" and "append (se_crypto env) e uuid now (ss_chain s) = (c, r)"
  shows "ss_rows s' = ss_rows s \<or> (\<exists>t. ss_rows s' = ss_rows s @ [with_text r t])"
    "ok \<Longrightarrow> \<not> list_ex (\<lambda>x. qe_id x = uuid) (ss_rows s) \<Longrightarrow> \<exists>t. ss_rows s' = ss_rows s @ [with_text r t]"
proof -
  let ?s = "s\<lparr> ss_chain := c, ss_ledger := persistLedgerRecord r (ss_ledger s) \<rparr>"
  have p: "persistStatsLedgerRecord env r ?s = (s', ok)" using assms by (simp add: recordStatsEvent_def)
  then have rows: "ss_rows s' = (case persistStatsRow env r (ss_rows s) of None \<Rightarrow> ss_rows s | Some rows \<Rightarrow> rows)"
    using persist_frame(3) [of env r ?s] by (cases "persistStatsRow env r (ss_rows s)") simp_all
  show "ss_rows s' = ss_rows s \<or> (\<exists>t. ss_rows s' = ss_rows s @ [with_text r t])"
    using rows by (cases "persistStatsRow env r (ss_rows s)") (auto elim: persistStatsRow_cases)
  assume ok and "\<not> list_ex (\<lambda>x. qe_id x = uuid) (ss_rows s)"
  then show "\<exists>t. ss_rows s' = ss_rows s @ [with_text r t]"
    using rows p append_record(2) [OF assms(2)]
    by (cases "persistStatsRow env r (ss_rows s)") (auto simp: persistStatsLedgerRecord_def elim: persistStatsRow_cases)
qed

lemma commit_step:
  assumes "recordStatsEvent env (checkpointEvent env Stats_checkpoint_commit h n p) uuid now s = (s', ok)"
  shows "set (ss_rows s) \<subseteq> set (ss_rows s')"
    "x \<in> set (ss_rows s') \<Longrightarrow> x \<notin> set (ss_rows s) \<Longrightarrow> ep_checkpointHash (qe_payload x) = Some h"
proof -
  obtain c r where a: "append (se_crypto env) (checkpointEvent env Stats_checkpoint_commit h n p) uuid now (ss_chain s) = (c, r)" by fastforce
  show "set (ss_rows s) \<subseteq> set (ss_rows s')" using record_rows(1) [OF assms a] by auto
  show "x \<in> set (ss_rows s') \<Longrightarrow> x \<notin> set (ss_rows s) \<Longrightarrow> ep_checkpointHash (qe_payload x) = Some h"
    using record_rows(1) [OF assms a] append_record(5) [OF a] by auto
qed

lemma sign_rows:
  assumes "recordStatsEvent env (checkpointEvent env Stats_checkpoint_signature h n p) uuid now s = (s', ok)"
    and "x \<in> set (ss_rows s')" and "x \<notin> set (ss_rows s)"
  shows "ep_eventType (qe_payload x) = Stats_checkpoint_signature"
proof -
  obtain c r where a: "append (se_crypto env) (checkpointEvent env Stats_checkpoint_signature h n p) uuid now (ss_chain s) = (c, r)" by fastforce
  show ?thesis using record_rows(1) [OF assms(1) a] append_record(4) [OF a] assms(2,3) by auto
qed

lemma sign_step:
  assumes "stats_env_ok env" and "stats_inv env s"
    and "recordStatsEvent env (checkpointEvent env Stats_checkpoint_signature h n p) uuid now s = (s', True)"
    and "\<not> list_ex (\<lambda>x. qe_id x = uuid) (ss_rows s)"
  shows "set (ss_rows s) \<subseteq> set (ss_rows s')" "attested env (ss_rows s') h (pk_peerId (se_identity env))"
proof -
  obtain c r where a: "append (se_crypto env) (checkpointEvent env Stats_checkpoint_signature h n p) uuid now (ss_chain s) = (c, r)" by fastforce
  obtain t where t: "ss_rows s' = ss_rows s @ [with_text r t]" using record_rows(2) [OF assms(3) a] assms(4) by auto
  have "verifyStatsLedgerRecord env r" using own_record_verifies [OF assms(1) a] assms(2) by (simp add: stats_inv_def)
  then have "\<exists>u. verifyStatsLedgerRecord env (with_text r u)" by (metis with_text_simps(6))
  then show "attested env (ss_rows s') h (pk_peerId (se_identity env))"
    using append_record(4,5,6) [OF a] unfolding attested_def t by (intro bexI [of _ "with_text r t"]) auto
  show "set (ss_rows s) \<subseteq> set (ss_rows s')" using t by auto
qed


text \<open>
  Ingestion checks the signature of one coordinator and nothing else: a commit record signed by any known peer alone is stored.
\<close>

lemma ingested_commit_needs_no_quorum:
  assumes "verifyStatsLedgerRecord env r" "ep_eventType (qe_payload r) = Stats_checkpoint_commit" "storedPayload env (ep_payloadJson (qe_payload r)) = Some t"
    and "\<not> list_ex (\<lambda>x. qe_id x = qe_id r \<or> qe_hash x = qe_hash r) (ss_rows s)"
  shows "ss_rows (fst (ingestLoop env [r] s (0, 0))) = ss_rows s @ [with_text r t]"
  using assms
  by (simp add: persistStatsLedgerRecord_def persistStatsRow_def applyStatsProjectionRecord_def Let_def with_text_def list_ex_iff)

text \<open>A coordinator without peers that has approved one agent.\<close>

definition ex_stats_env :: StatsEnv where
  "ex_stats_env = \<lparr> se_crypto = \<lparr> sha256_hex = (\<lambda>x. x), ed_sign = (\<lambda>p k. k), ed_verify = (\<lambda>p s k. Some (s = k)) \<rparr>,
     se_parse = (\<lambda>_. Fields noFields), se_column = (\<lambda>t. Some (Some t)), se_after = (\<lambda>_ _. False),
     se_identity = \<lparr> pk_peerId = ''c'', pk_publicKeyPem = ''k'', pk_privateKeyPem = ''k'' \<rparr>, se_peers = [], se_network = ''testnet'', se_minConfirmations = 1 \<rparr>"

definition ex_stats_start :: StatsState where
  "ex_stats_start = \<lparr> ss_chain = \<lparr> records = [], signerPeerId = ''c'', signerPrivateKeyPem = ''k'' \<rparr>, ss_ledger = [], ss_rows = [], ss_nodes = [],
     ss_earnings = [], ss_anchors = [] \<rparr>"

definition ex_approval :: ChainEvent where
  "ex_approval = \<lparr> ce_eventType = Node_approval, ce_taskId = ''agent:a'', ce_subtaskId = None, ce_actorId = ''a'', ce_coordinatorId = Some ''c'',
     ce_checkpointHeight = None, ce_checkpointHash = None, ce_payloadJson = None \<rparr>"

definition ex_stats :: StatsState where
  "ex_stats = fst (recordStatsEvent ex_stats_env ex_approval ''i0'' 1 ex_stats_start)"

definition ex_ids :: CheckpointIds where
  "ex_ids = \<lparr> ci_signId = ''i1'', ci_signAt = 2, ci_commitId = ''i2'', ci_commitAt = 3 \<rparr>"

lemma ex_stats_env_ok: "stats_env_ok ex_stats_env"
  by (simp add: stats_env_ok_def ex_stats_env_def key_pair_def verifyPayload_def signPayload_def)

lemma ex_stats_reach: "stats_reach ex_stats_env ex_stats"
  unfolding ex_stats_def by (rule stats_event, rule stats_start) (simp_all add: ex_stats_start_def ex_stats_env_def ex_approval_def)


section \<open>Records as peers receive them\<close>

text \<open>
  A record that a peer lists verifies at another coordinator exactly when the column printed its payload with the text that was hashed.
  The hash covers the text of the payload, but the table keeps the value: a text whose members come back in
  another order is refused by every other coordinator.
\<close>

theorem listed_record_verifies_iff:
  assumes "inj (sha256_hex (se_crypto env))" and "verifyStatsLedgerRecord env r" and "persistStatsRow store r rows = Some (rows @ [x])"
  shows "verifyStatsLedgerRecord env x \<longleftrightarrow> ep_payloadJson (qe_payload x) = ep_payloadJson (qe_payload r)"
proof -
  obtain t where x: "x = with_text r t" using assms(3) by (auto elim: persistStatsRow_cases)
  have "hashRecordPayload (se_crypto env) (qe_payload (with_text r t)) = qe_hash r \<longleftrightarrow> t = ep_payloadJson (qe_payload r)"
  proof
    assume "hashRecordPayload (se_crypto env) (qe_payload (with_text r t)) = qe_hash r"
    then have "hashRecordPayload (se_crypto env) (qe_payload (with_text r t)) = hashRecordPayload (se_crypto env) (qe_payload r)"
      using assms(2) by (simp add: verifyStatsLedgerRecord_def Let_def)
    then have "qe_payload (with_text r t) = qe_payload r"
      using assms(1) by (simp add: hashRecordPayload_def inj_eq payload_json_inj)
    then show "t = ep_payloadJson (qe_payload r)" by (metis with_text_simps(4))
  next
    assume "t = ep_payloadJson (qe_payload r)"
    then show "hashRecordPayload (se_crypto env) (qe_payload (with_text r t)) = qe_hash r"
      using assms(2) by (simp add: verifyStatsLedgerRecord_def Let_def)
  qed
  then show ?thesis using assms(2) unfolding x by (simp add: verifyStatsLedgerRecord_def Let_def)
qed

text \<open>A record with a payload, and a column that prints the members in another order.\<close>

definition ex_payload_record :: QueueEventRecord where
  "ex_payload_record = snd (append (se_crypto ex_stats_env) (ex_approval\<lparr> ce_payloadJson := Some ''ab'' \<rparr>) ''i0'' 1 (ss_chain ex_stats_start))"

theorem listed_record_verifies_iff_witness:
  "persistStatsRow (ex_stats_env\<lparr> se_column := (\<lambda>t. Some (Some (rev t))) \<rparr>) ex_payload_record [] = Some [with_text ex_payload_record (Some ''ba'')] \<and>
   verifyStatsLedgerRecord ex_stats_env ex_payload_record \<and> \<not> verifyStatsLedgerRecord ex_stats_env (with_text ex_payload_record (Some ''ba''))"
proof -
  have p: "persistStatsRow (ex_stats_env\<lparr> se_column := (\<lambda>t. Some (Some (rev t))) \<rparr>) ex_payload_record [] = Some ([] @ [with_text ex_payload_record (Some ''ba'')])"
    by code_simp
  have v: "verifyStatsLedgerRecord ex_stats_env ex_payload_record" by code_simp
  have i: "inj (sha256_hex (se_crypto ex_stats_env))" by (simp add: ex_stats_env_def inj_on_def)
  have "ep_payloadJson (qe_payload ex_payload_record) = Some ''ab''" by code_simp
  then show ?thesis using listed_record_verifies_iff [OF i v p] p v by simp
qed

text \<open>
  No coordinator ever pulls a record from another. The answer to \<open>GET /stats/ledger/head\<close> carries the time of the newest record inside
  its member \<open>head\<close>, the puller looks for it at the top level, finds nothing and stops: whatever the peer's ledger
  and the puller's own ledger hold, a synchronisation changes nothing.
\<close>

theorem stats_sync_never_pulls:
  "syncStatsLedgerFromPeer env (Some (statsHeadRoute peer m remote)) (\<lambda>since limit. Some (statsRangeRoute peer since limit remote)) n ids s = s"
  by (auto simp: syncStatsLedgerFromPeer_def statsHeadRoute_def numMember_def truthy_int_def Let_def split: prod.splits)

text \<open>Ingesting a record again adds its credits again, although the row is already there.\<close>

lemma reingested_earnings_count_again:
  assumes "verifyStatsLedgerRecord env r" and "ep_eventType (qe_payload r) = Earnings_accrual"
    and "parseRecordPayload env r = Fields f" and "pp_credits f = Some credits" and "0 < credits"
    and "storedPayload env (ep_payloadJson (qe_payload r)) \<noteq> None" and "list_ex (\<lambda>x. qe_id x = qe_id r) (ss_rows s)"
    and "jsm_get (ss_earnings s) (ep_actorId (qe_payload r)) = Some e"
  shows "\<exists>s'. ingestLoop env [r] s (0, 0) = (s', Some (1, 0)) \<and> ss_rows s' = ss_rows s \<and>
     map_option ew_totalCredits (jsm_get (ss_earnings s') (ep_actorId (qe_payload r))) = Some (ew_totalCredits e + credits)"
  using assms
  by (auto simp: persistStatsLedgerRecord_def persistStatsRow_def applyStatsProjectionRecord_def Let_def coalesce_def nullish_def
      incrementCoordinatorEarningsProjection_def jsm_get_set)

section \<open>Checkpoints never come to rest\<close>

text \<open>
  Rows carry the hash of their content, no two the same, and a signature of the coordinator's own names the hash of an older row.
\<close>

definition sealed :: "StatsEnv \<Rightarrow> QueueEventRecord \<Rightarrow> bool" where
  "sealed env x = (\<exists>t. hashRecordPayload (se_crypto env) (qe_payload (with_text x t)) = qe_hash x)"

definition own_signature :: "StatsEnv \<Rightarrow> QueueEventRecord \<Rightarrow> bool" where
  "own_signature env g = (ep_eventType (qe_payload g) = Stats_checkpoint_signature \<and> signerOf g = pk_peerId (se_identity env))"

definition rows_ok :: "StatsEnv \<Rightarrow> QueueEventRecord list \<Rightarrow> bool" where
  "rows_ok env rows = (distinct (map qe_hash rows) \<and> (\<forall>x \<in> set rows. sealed env x) \<and>
     (\<forall>g \<in> set rows. own_signature env g \<longrightarrow>
        (\<exists>x \<in> set rows. ep_checkpointHash (qe_payload g) = Some (qe_hash x) \<and> ep_issuedAtMs (qe_payload x) < ep_issuedAtMs (qe_payload g))))"

text \<open>The clock moves on, and the ids are new.\<close>

definition fresh_ids :: "CheckpointIds \<Rightarrow> StatsState \<Rightarrow> bool" where
  "fresh_ids ids s = (list_all (\<lambda>x. qe_id x \<noteq> ci_signId ids \<and> qe_id x \<noteq> ci_commitId ids \<and> ep_issuedAtMs (qe_payload x) < ci_signAt ids) (ss_rows s) \<and>
     ci_signId ids \<noteq> ci_commitId ids \<and> ci_signAt ids < ci_commitAt ids)"

lemma newest_in: "newest env rows = Some r \<Longrightarrow> r \<in> set rows"
  by (induction rows arbitrary: r) (auto split: option.splits if_splits)

lemma newest_None: "newest env rows = None \<longleftrightarrow> rows = []"
  by (cases rows) (auto split: option.splits)

lemma newest_max: "newest env rows = Some r \<Longrightarrow> x \<in> set rows \<Longrightarrow> ep_issuedAtMs (qe_payload x) \<le> ep_issuedAtMs (qe_payload r)"
proof (induction rows arbitrary: r)
  case (Cons a rows)
  show ?case
  proof (cases "newest env rows")
    case None
    then show ?thesis using Cons.prems by (auto simp: newest_None)
  next
    case (Some b)
    then show ?thesis using Cons.prems Cons.IH [OF Some] by (auto simp: newer_def split: if_splits)
  qed
qed simp

lemma fresh_hash:
  assumes "inj (sha256_hex (se_crypto env))" and "sealed env x" and "qe_hash r = hashRecordPayload (se_crypto env) (qe_payload r)"
    and "ep_issuedAtMs (qe_payload x) < ep_issuedAtMs (qe_payload r)"
  shows "qe_hash x \<noteq> qe_hash r"
proof
  assume eq: "qe_hash x = qe_hash r"
  obtain t where "hashRecordPayload (se_crypto env) (qe_payload (with_text x t)) = qe_hash x" using assms(2) by (auto simp: sealed_def)
  then have "qe_payload (with_text x t) = qe_payload r" using eq assms(1,3) by (simp add: hashRecordPayload_def inj_eq payload_json_inj)
  then have "ep_issuedAtMs (qe_payload x) = ep_issuedAtMs (qe_payload r)" by (metis with_text_simps(10))
  then show False using assms(4) by simp
qed

lemma checkpoint_event_stored:
  assumes "inj (sha256_hex (se_crypto env))" and "\<forall>t. se_column env t \<noteq> None" and "rows_ok env (ss_rows s)"
    and "k = Stats_checkpoint_signature \<or> k = Stats_checkpoint_commit"
    and "list_all (\<lambda>x. qe_id x \<noteq> uuid \<and> ep_issuedAtMs (qe_payload x) < now) (ss_rows s)"
    and "x0 \<in> set (ss_rows s)" and "qe_hash x0 = h"
  shows "\<exists>s' r. recordStatsEvent env (checkpointEvent env k h n p) uuid now s = (s', True) \<and> ss_rows s' = ss_rows s @ [r] \<and>
     rows_ok env (ss_rows s') \<and> qe_id r = uuid \<and> ep_issuedAtMs (qe_payload r) = now"
proof -
  obtain c r where a: "append (se_crypto env) (checkpointEvent env k h n p) uuid now (ss_chain s) = (c, r)" by fastforce
  note r = append_record [OF a]
  have p: "storedPayload env (ep_payloadJson (qe_payload r)) \<noteq> None" using assms(2) r(7) by (auto simp: storedPayload_def)
  have "\<not> list_ex (\<lambda>x. qe_id x = qe_id r) (ss_rows s)" using assms(5) r(2) by (auto simp: list_all_iff list_ex_iff)
  moreover have h: "qe_hash x \<noteq> qe_hash r" if "x \<in> set (ss_rows s)" for x
    using fresh_hash [OF assms(1) _ r(8), of x] assms(3,5) that r(3) by (auto simp: rows_ok_def list_all_iff)
  ultimately obtain t where row: "persistStatsRow env r (ss_rows s) = Some (ss_rows s @ [with_text r t])"
    using p by (auto simp: persistStatsRow_def with_text_def list_ex_iff split: option.splits)
  let ?s = "s\<lparr> ss_chain := c, ss_ledger := persistLedgerRecord r (ss_ledger s), ss_rows := ss_rows s @ [with_text r t] \<rparr>"
  have "recordStatsEvent env (checkpointEvent env k h n p) uuid now s = (?s, True)"
    using row assms(4) r(4) by (auto simp: recordStatsEvent_def a persistStatsLedgerRecord_def applyStatsProjectionRecord_def Let_def)
  moreover have "rows_ok env (ss_rows s @ [with_text r t])"
  proof -
    have "sealed env (with_text r t)" using r(8) by (auto simp: sealed_def intro!: exI [of _ "ep_payloadJson (qe_payload r)"])
    moreover have "ep_issuedAtMs (qe_payload x0) < ep_issuedAtMs (qe_payload r)" using assms(5,6) r(3) by (auto simp: list_all_iff)
    moreover have "qe_hash r \<notin> qe_hash ` set (ss_rows s)" using h by (metis imageE)
    ultimately show ?thesis using assms(3,6,7) r(5) by (auto simp: rows_ok_def)
  qed
  ultimately show ?thesis using r(2,3) by (intro exI [of _ ?s] exI [of _ "with_text r t"]) simp
qed

lemma head_unsigned:
  assumes "rows_ok env rows" and "newest env rows = Some r0"
  shows "pk_peerId (se_identity env) \<notin> set (snd (checkpointSignatureStatus (qe_hash r0) rows))"
proof
  assume "pk_peerId (se_identity env) \<in> set (snd (checkpointSignatureStatus (qe_hash r0) rows))"
  then obtain g where g: "g \<in> set rows" "ep_checkpointHash (qe_payload g) = Some (qe_hash r0)" "own_signature env g"
    by (auto simp: checkpointSignatureStatus_def own_signature_def Let_def)
  then obtain x where x: "x \<in> set rows" "qe_hash x = qe_hash r0" "ep_issuedAtMs (qe_payload x) < ep_issuedAtMs (qe_payload g)"
    using assms(1) by (auto simp: rows_ok_def)
  have "x = r0" using x(1,2) newest_in [OF assms(2)] assms(1) by (auto simp: rows_ok_def distinct_map inj_on_def)
  then show False using newest_max [OF assms(2) g(1)] x(3) by simp
qed

lemma round_grows:
  assumes "inj (sha256_hex (se_crypto env))" and "\<forall>t. se_column env t \<noteq> None" and "rows_ok env (ss_rows s)" and "ss_rows s \<noteq> []" and "fresh_ids ids s"
  shows "rows_ok env (ss_rows (fst (maybeFinalizeStatsCheckpoint env n ids s)))"
    "length (ss_rows s) < length (ss_rows (fst (maybeFinalizeStatsCheckpoint env n ids s)))"
proof -
  obtain r0 where r0: "newest env (ss_rows s) = Some r0" using assms(4) newest_None by (metis option.exhaust)
  obtain hc signers where st: "checkpointSignatureStatus (qe_hash r0) (ss_rows s) = (hc, signers)" by fastforce
  have me: "pk_peerId (se_identity env) \<notin> set signers" using head_unsigned [OF assms(3) r0] st by simp
  have "list_all (\<lambda>x. qe_id x \<noteq> ci_signId ids \<and> ep_issuedAtMs (qe_payload x) < ci_signAt ids) (ss_rows s)"
    using assms(5) by (auto simp: fresh_ids_def list_all_iff)
  then obtain s1 r1 where s1: "recordStatsEvent env (checkpointEvent env Stats_checkpoint_signature (qe_hash r0) n
        [(''threshold'', JNum (int (statsQuorumThreshold env))), (''signerPeerId'', JStr (pk_peerId (se_identity env)))]) (ci_signId ids) (ci_signAt ids) s = (s1, True)"
      "ss_rows s1 = ss_rows s @ [r1]" "rows_ok env (ss_rows s1)" "qe_id r1 = ci_signId ids" "ep_issuedAtMs (qe_payload r1) = ci_signAt ids"
    using checkpoint_event_stored [OF assms(1,2,3) _ _ newest_in [OF r0] refl] by blast
  have "list_all (\<lambda>x. qe_id x \<noteq> ci_commitId ids \<and> ep_issuedAtMs (qe_payload x) < ci_commitAt ids) (ss_rows s1)"
    using assms(5) s1(2,4,5) by (auto simp: fresh_ids_def list_all_iff)
  moreover have "r0 \<in> set (ss_rows s1)" using newest_in [OF r0] s1(2) by simp
  ultimately obtain s2 r2 where s2: "recordStatsEvent env (checkpointEvent env Stats_checkpoint_commit (qe_hash r0) n
        [(''threshold'', JNum (int (statsQuorumThreshold env))), (''signerSet'', JArr (map JStr (signers @ [pk_peerId (se_identity env)])))])
        (ci_commitId ids) (ci_commitAt ids) s1 = (s2, True)" "ss_rows s2 = ss_rows s1 @ [r2]" "rows_ok env (ss_rows s2)"
    using checkpoint_event_stored [OF assms(1,2) s1(3)] by blast
  have "fst (maybeFinalizeStatsCheckpoint env n ids s) \<in> {s1, s2}"
    unfolding maybeFinalizeStatsCheckpoint_def using me s1(1) s2(1) by (simp add: latestStatsLedgerHead_def r0 st Let_def)
  then have "rows_ok env (ss_rows (fst (maybeFinalizeStatsCheckpoint env n ids s))) \<and>
      length (ss_rows s) < length (ss_rows (fst (maybeFinalizeStatsCheckpoint env n ids s)))"
    using s1(2,3) s2(2,3) by auto
  then show "rows_ok env (ss_rows (fst (maybeFinalizeStatsCheckpoint env n ids s)))"
    "length (ss_rows s) < length (ss_rows (fst (maybeFinalizeStatsCheckpoint env n ids s)))" by simp_all
qed


text \<open>Successive rounds, each with the estimate of the database and with ids and times of its own.\<close>

primrec rounds :: "StatsEnv \<Rightarrow> (int \<times> CheckpointIds) list \<Rightarrow> StatsState \<Rightarrow> StatsState" where
  "rounds env [] s = s"
| "rounds env (x # xs) s = rounds env xs (fst (maybeFinalizeStatsCheckpoint env (fst x) (snd x) s))"

primrec fresh_rounds :: "StatsEnv \<Rightarrow> (int \<times> CheckpointIds) list \<Rightarrow> StatsState \<Rightarrow> bool" where
  "fresh_rounds env [] s = True"
| "fresh_rounds env (x # xs) s = (fresh_ids (snd x) s \<and> fresh_rounds env xs (fst (maybeFinalizeStatsCheckpoint env (fst x) (snd x) s)))"

text \<open>
  Checkpoints never come to rest. From the first record on, every round of the timer adds at least one record, a signature on the record that the
  previous round added, although no event happens: after \<open>n\<close> rounds the ledger has grown by at least \<open>n\<close> records.
\<close>

theorem checkpoints_never_rest:
  assumes "inj (sha256_hex (se_crypto env))" and "\<forall>t. se_column env t \<noteq> None" and "rows_ok env (ss_rows s)" and "ss_rows s \<noteq> []"
    and "fresh_rounds env xs s"
  shows "length (ss_rows s) + length xs \<le> length (ss_rows (rounds env xs s))"
  using assms(3,4,5)
proof (induction xs arbitrary: s)
  case (Cons x xs)
  let ?s = "fst (maybeFinalizeStatsCheckpoint env (fst x) (snd x) s)"
  have g: "rows_ok env (ss_rows ?s)" "length (ss_rows s) < length (ss_rows ?s)"
    using round_grows [OF assms(1,2) Cons.prems(1,2)] Cons.prems(3) by simp_all
  moreover have "ss_rows ?s \<noteq> []" using g(2) by auto
  ultimately show ?case using Cons.IH [of ?s] Cons.prems(3) by simp
qed simp

definition ex_rounds :: "(int \<times> CheckpointIds) list" where
  "ex_rounds = [(0, ex_ids)]"

theorem checkpoints_never_rest_witness:
  "1 + 1 \<le> length (ss_rows (rounds ex_stats_env ex_rounds ex_stats))"
proof -
  have i: "inj (sha256_hex (se_crypto ex_stats_env))" by (simp add: ex_stats_env_def inj_on_def)
  have c: "\<forall>t. se_column ex_stats_env t \<noteq> None" by (simp add: ex_stats_env_def)
  have l: "length ex_rounds = 1" "length (ss_rows ex_stats) = 1" by code_simp+
  have "rows_ok ex_stats_env (ss_rows ex_stats)"
  proof -
    have "list_all (\<lambda>x. ep_eventType (qe_payload x) = Node_approval \<and> ep_payloadJson (qe_payload x) = None \<and>
        hashRecordPayload (se_crypto ex_stats_env) (qe_payload x) = qe_hash x) (ss_rows ex_stats)" by code_simp
    moreover have "sealed env y" if "hashRecordPayload (se_crypto env) (qe_payload y) = qe_hash y" for env y
      using that unfolding sealed_def by (metis with_text_simps(6))
    ultimately show ?thesis using l by (auto simp: rows_ok_def own_signature_def list_all_iff length_Suc_conv)
  qed
  moreover have "ss_rows ex_stats \<noteq> []" using l(2) by auto
  moreover have "fresh_rounds ex_stats_env ex_rounds ex_stats" by code_simp
  ultimately have "length (ss_rows ex_stats) + length ex_rounds \<le> length (ss_rows (rounds ex_stats_env ex_rounds ex_stats))"
    by (rule checkpoints_never_rest [OF i c])
  then show ?thesis unfolding l .
qed

text \<open>
  A commit record is itself newer than the checkpoint it commits, so that the anchor taken after a round names the hash of the commit record, and
  the committed checkpoint stays pending.
\<close>

lemma anchor_misses_checkpoint:
  "let s = fst (maybeFinalizeStatsCheckpoint ex_stats_env 0 ex_ids ex_stats) in
   fi_state (latestStatsFinality ex_stats_env (fst (maybeAnchorLatestStatsCheckpoint ex_stats_env 0 ''a0'' 4 s))) = Anchored_pending"
  by code_simp

lemma confirmations_at_most_one: "fi_hardFinalized (latestStatsFinality env s) \<Longrightarrow> se_minConfirmations env \<le> 1"
  by (auto simp: latestStatsFinality_def anchorConfirmations_def Let_def split: option.splits if_splits)

end
