(* ===== verification/Executor.thy ===== *)
theory Executor
  imports SwarmQueue CoordinatorUtils JsNumber
begin

text \<open>
  Running generated code (\<open>src/src/executor/\<close>): the regular-expression denylists, the checks of the Python and JavaScript
  syntax trees, the host and Docker runners and \<open>runCode\<close>. The parsers (acorn, Python's \<open>ast\<close>), the child processes and
  the \<open>vm\<close> module are arguments: what they answer, or the events they emit, in order.
\<close>

section \<open>Denylists\<close>

text \<open>The regular expressions the lists use: word boundaries, literals and runs of white space.\<close>

datatype pat = Bound | Lit string | Spaces

definition is_word :: "char \<Rightarrow> bool" where
  "is_word c = (let n = (of_char c :: nat) in (48 \<le> n \<and> n \<le> 57) \<or> (65 \<le> n \<and> n \<le> 90) \<or> n = 95 \<or> (97 \<le> n \<and> n \<le> 122))"

definition word_at :: "char option \<Rightarrow> bool" where
  "word_at c = (case c of None \<Rightarrow> False | Some x \<Rightarrow> is_word x)"

definition head :: "'a list \<Rightarrow> 'a option" where
  "head xs = (case xs of [] \<Rightarrow> None | x # _ \<Rightarrow> Some x)"

text \<open>A match that begins right here; \<open>prev\<close> is the character before.\<close>

function matchHere :: "pat list \<Rightarrow> char option \<Rightarrow> string \<Rightarrow> bool" where
  "matchHere [] prev s = True"
| "matchHere (Bound # ps) prev s = (word_at prev \<noteq> word_at (head s) \<and> matchHere ps prev s)"
| "matchHere (Lit w # ps) prev s = (take (length w) s = w \<and> matchHere ps (if w = [] then prev else Some (last w)) (drop (length w) s))"
| "matchHere (Spaces # ps) prev [] = False"
| "matchHere (Spaces # ps) prev (c # s) = (is_space c \<and> (matchHere (Spaces # ps) (Some c) s \<or> matchHere ps (Some c) s))"
  by pat_completeness auto
termination by (relation "measures [\<lambda>(ps, _, s). length ps, \<lambda>(ps, _, s). length s]") auto

fun testFrom :: "pat list \<Rightarrow> char option \<Rightarrow> string \<Rightarrow> bool" where
  "testFrom ps prev [] = matchHere ps prev []"
| "testFrom ps prev (c # s) = (matchHere ps prev (c # s) \<or> testFrom ps (Some c) s)"

text \<open>A pattern with its source text.\<close>

definition wordThen :: "string \<Rightarrow> char \<Rightarrow> string \<times> pat list" where
  "wordThen w c = ([bslash] @ ''b'' @ w @ [bslash, c], [Bound, Lit (w @ [c])])"

definition wholeWord :: "string \<Rightarrow> string \<times> pat list" where
  "wholeWord w = ([bslash] @ ''b'' @ w @ [bslash] @ ''b'', [Bound, Lit w, Bound])"

definition importOf :: "string \<Rightarrow> string \<times> pat list" where
  "importOf w = ([bslash] @ ''bimport'' @ [bslash] @ ''s+'' @ w @ [bslash] @ ''b'', [Bound, Lit ''import'', Spaces, Lit w, Bound])"

definition PYTHON_DENYLIST :: "(string \<times> pat list) list" where
  "PYTHON_DENYLIST = [wordThen ''exec'' CHR ''('', wordThen ''eval'' CHR ''('', wordThen ''compile'' CHR ''('', (''__import__'', [Lit ''__import__'']),
     importOf ''os'', importOf ''subprocess'', wordThen ''open'' CHR ''('', wholeWord ''socket'']"

definition JS_DENYLIST :: "(string \<times> pat list) list" where
  "JS_DENYLIST = [wordThen ''eval'' CHR ''('', wordThen ''Function'' CHR ''('', wordThen ''require'' CHR ''('', wordThen ''process'' CHR ''.'',
     wordThen ''fs'' CHR ''.'', wholeWord ''child_process'']"

section \<open>JavaScript syntax trees\<close>

text \<open>
  A node of acorn's tree: its type, its name if it has one, and its other members, each a node, an array whose elements may be
  nodes, or something that is no node.
\<close>

datatype node = Node (nd_type: string) (nd_name: "string option") (nd_fields: "(string \<times> field) list")
  and field = F_other | F_node node | F_array "node option list"

definition ALLOWED_NODE_TYPES :: "string list" where
  "ALLOWED_NODE_TYPES = [''Program'', ''FunctionDeclaration'', ''VariableDeclaration'', ''VariableDeclarator'',
     ''ExpressionStatement'', ''ReturnStatement'', ''IfStatement'', ''ForStatement'',
     ''ForInStatement'', ''ForOfStatement'', ''WhileStatement'', ''DoWhileStatement'',
     ''BlockStatement'', ''EmptyStatement'', ''BreakStatement'', ''ContinueStatement'', ''SwitchStatement'', ''SwitchCase'',
     ''ArrayExpression'', ''ObjectExpression'', ''BinaryExpression'', ''UnaryExpression'',
     ''CallExpression'', ''ArrowFunctionExpression'', ''FunctionExpression'',
     ''Literal'', ''Identifier'', ''MemberExpression'', ''TemplateLiteral'', ''TemplateElement'', ''TaggedTemplateExpression'',
     ''ConditionalExpression'', ''LogicalExpression'', ''AssignmentExpression'',
     ''UpdateExpression'', ''SpreadElement'', ''Property'', ''RestElement'',
     ''ArrayPattern'', ''ObjectPattern'', ''AssignmentPattern'',
     ''SequenceExpression'', ''ChainExpression'', ''ParenthesizedExpression'', ''LabeledStatement'']"

definition BLOCKED_GLOBALS :: "string list" where
  "BLOCKED_GLOBALS = [''process'', ''require'', ''globalThis'', ''eval'', ''Function'', ''Proxy'', ''Reflect'']"

definition skipKeys :: "string list" where
  "skipKeys = [''type'', ''start'', ''end'', ''name'', ''raw'', ''value'', ''computed'', ''method'', ''shorthand'', ''kind'', ''operator'', ''prefix'',
     ''sourceType'', ''optional'', ''async'', ''generator'', ''tail'', ''delegate'', ''regex'', ''bigint'', ''loc'', ''range'']"

fun walkAst :: "node \<Rightarrow> node list" and walkField :: "field \<Rightarrow> node list" where
  "walkAst (Node t n fs) = Node t n fs # concat (map (\<lambda>(k, f). if k \<in> set skipKeys then [] else walkField f) fs)"
| "walkField F_other = []"
| "walkField (F_node n) = walkAst n"
| "walkField (F_array xs) = concat (map (\<lambda>x. case x of None \<Rightarrow> [] | Some n \<Rightarrow> walkAst n) xs)"

definition calleeName :: "node \<Rightarrow> string option" where
  "calleeName n = (case jsm_get (nd_fields n) ''callee'' of
     Some (F_node c) \<Rightarrow> (if nd_type c = ''Identifier'' then nd_name c else None) | _ \<Rightarrow> None)"

definition blockedName :: "string option \<Rightarrow> bool" where
  "blockedName n = (case n of None \<Rightarrow> False | Some x \<Rightarrow> x \<in> set BLOCKED_GLOBALS)"

text \<open>The reason a node is refused for.\<close>

definition nodeFault :: "node \<Rightarrow> string option" where
  "nodeFault n =
     (if nd_type n \<notin> set ALLOWED_NODE_TYPES then Some (''Blocked AST node: '' @ nd_type n)
      else if nd_type n = ''Identifier'' \<and> blockedName (nd_name n) then Some (''Blocked global: '' @ the (nd_name n))
      else if nd_type n = ''CallExpression'' \<and> blockedName (calleeName n) then Some (''Blocked global call: '' @ the (calleeName n))
      else None)"

fun firstFault :: "node list \<Rightarrow> string option" where
  "firstFault [] = None"
| "firstFault (n # ns) = (case nodeFault n of None \<Rightarrow> firstFault ns | Some r \<Rightarrow> Some r)"

text \<open>\<open>None\<close> is safe; \<open>parse\<close> is \<open>acorn.parse\<close>, or its error message.\<close>

definition validateJavaScriptAst :: "(string \<Rightarrow> string + node) \<Rightarrow> string \<Rightarrow> string option" where
  "validateJavaScriptAst parse code = (case parse code of Inl msg \<Rightarrow> Some (''parse error: '' @ msg) | Inr ast \<Rightarrow> firstFault (walkAst ast))"

section \<open>Python syntax trees\<close>

definition ALLOWED_PYTHON_NODES :: "string list" where
  "ALLOWED_PYTHON_NODES = [''Module'', ''FunctionDef'', ''Return'', ''Assign'', ''AugAssign'',
     ''For'', ''While'', ''If'', ''Expr'', ''Call'', ''BinOp'', ''UnaryOp'',
     ''Compare'', ''BoolOp'', ''Num'', ''Str'', ''List'', ''Dict'', ''Tuple'',
     ''Set'', ''Name'', ''Subscript'', ''Attribute'', ''ListComp'', ''DictComp'',
     ''SetComp'', ''FormattedValue'', ''JoinedStr'', ''Index'', ''Slice'',
     ''Constant'', ''Pass'', ''Break'', ''Continue'', ''arguments'', ''arg'',
     ''Store'', ''Load'', ''Del'', ''Add'', ''Sub'', ''Mult'', ''Div'', ''Mod'',
     ''Pow'', ''FloorDiv'', ''BitOr'', ''BitXor'', ''BitAnd'', ''LShift'',
     ''RShift'', ''Invert'', ''Not'', ''UAdd'', ''USub'', ''Eq'', ''NotEq'',
     ''Lt'', ''LtE'', ''Gt'', ''GtE'', ''Is'', ''IsNot'', ''In'', ''NotIn'',
     ''And'', ''Or'', ''keyword'', ''comprehension'', ''Starred'',
     ''IfExp'', ''GeneratorExp'', ''Lambda'', ''Slice'']"

definition BLOCKED_BUILTINS :: "string list" where
  "BLOCKED_BUILTINS = [''open'', ''exec'', ''eval'', ''compile'', ''__import__'', ''globals'',
     ''locals'', ''getattr'', ''setattr'', ''delattr'', ''vars'', ''dir'',
     ''input'', ''breakpoint'', ''memoryview'', ''bytearray'']"

record WalkerReport =
  wr_error :: "string option"
  wr_nodes :: "string list option"
  wr_calls :: "string list option"

text \<open>How the walker process ends; a failed spawn emits an \<open>error\<close> event for which the code has no listener.\<close>

datatype WalkerEnd = Walker_timeout | Walker_silent string | Walker_garbage | Walker_report WalkerReport | Walker_no_python

datatype 'a outcome = Value 'a | Uncaught

definition reportFault :: "WalkerReport \<Rightarrow> string option" where
  "reportFault r =
     (if truthy_str (wr_error r) then wr_error r
      else (case find (\<lambda>n. n \<notin> set ALLOWED_PYTHON_NODES) (nullish (wr_nodes r) []) of
          Some n \<Rightarrow> Some (''Blocked AST node: '' @ n)
        | None \<Rightarrow> (case find (\<lambda>c. c \<in> set BLOCKED_BUILTINS) (nullish (wr_calls r) []) of
              Some c \<Rightarrow> Some (''Blocked builtin call: '' @ c)
            | None \<Rightarrow> None)))"

definition validatePythonAst :: "(string \<Rightarrow> WalkerEnd) \<Rightarrow> string \<Rightarrow> string option outcome" where
  "validatePythonAst walker code =
     (case walker code of
        Walker_timeout \<Rightarrow> Value (Some ''AST validation timed out'')
      | Walker_silent stderr \<Rightarrow> Value (Some (''AST parse failed: '' @ stderr))
      | Walker_garbage \<Rightarrow> Value (Some ''Failed to parse AST validation output'')
      | Walker_report r \<Rightarrow> Value (reportFault r)
      | Walker_no_python \<Rightarrow> Uncaught)"

section \<open>The subset check\<close>

definition denied :: "(string \<times> pat list) list \<Rightarrow> string \<Rightarrow> string option" where
  "denied ps code = (case find (\<lambda>(_, p). testFrom p None code) ps of
     None \<Rightarrow> None | Some (src, _) \<Rightarrow> Some (''Unsupported construct detected: '' @ src))"

text \<open>\<open>Value None\<close>: supported.\<close>

definition checkSubset :: "(string \<Rightarrow> WalkerEnd) \<Rightarrow> (string \<Rightarrow> string + node) \<Rightarrow> Language \<Rightarrow> string \<Rightarrow> string option outcome" where
  "checkSubset walker parse language code =
     (case denied (if language = Python then PYTHON_DENYLIST else JS_DENYLIST) code of
        Some reason \<Rightarrow> Value (Some reason)
      | None \<Rightarrow> (if language = Python then validatePythonAst walker code else Value (validateJavaScriptAst parse code)))"

section \<open>Runners\<close>

datatype QueueReasonCode = Outside_subset | Run_timeout | Model_limit | Manual

record RunResult =
  run_language :: Language
  run_ok :: bool
  run_stdout :: string
  run_stderr :: string
  run_exitCode :: int
  run_durationMs :: int
  run_queueForCloud :: bool
  run_queueReason :: "QueueReasonCode option"

definition baseResult :: "Language \<Rightarrow> int \<Rightarrow> RunResult" where
  "baseResult language d = \<lparr> run_language = language, run_ok = False, run_stdout = [], run_stderr = [], run_exitCode = 1,
     run_durationMs = d, run_queueForCloud = False, run_queueReason = None \<rparr>"

text \<open>What happens to a child process: output, its end (with the exit code, if it has one), the timer, a failed spawn.\<close>

datatype ProcEvent = Out_chunk string | Err_chunk string | Proc_close "int option" | Timer | Spawn_error string

record Proc =
  pr_stdout :: string
  pr_stderr :: string
  pr_settled :: "RunResult outcome option"

definition newProc :: Proc where
  "newProc = \<lparr> pr_stdout = [], pr_stderr = [], pr_settled = None \<rparr>"

definition closeResult :: "Language \<Rightarrow> int \<Rightarrow> int option \<Rightarrow> Proc \<Rightarrow> RunResult" where
  "closeResult language d code p = (baseResult language d)\<lparr> run_ok := nullish code 1 = 0, run_stdout := pr_stdout p, run_stderr := pr_stderr p,
     run_exitCode := nullish code 1 \<rparr>"

definition timeoutResult :: "Language \<Rightarrow> int \<Rightarrow> string \<Rightarrow> Proc \<Rightarrow> RunResult" where
  "timeoutResult language d message p = (baseResult language d)\<lparr> run_stdout := pr_stdout p, run_stderr := pr_stderr p @ message,
     run_exitCode := 124, run_queueForCloud := True, run_queueReason := Some Run_timeout \<rparr>"

definition settle :: "RunResult outcome \<Rightarrow> Proc \<Rightarrow> Proc" where
  "settle r p = (case pr_settled p of None \<Rightarrow> p\<lparr> pr_settled := Some r \<rparr> | Some _ \<Rightarrow> p)"

text \<open>
  One event, at the time in its second component. The host runner for Python has no listener for \<open>error\<close>, so that a missing
  interpreter ends the Node process; the Docker runner has one.
\<close>

fun pythonEvent :: "ms \<Rightarrow> ProcEvent \<times> ms \<Rightarrow> Proc \<Rightarrow> Proc" where
  "pythonEvent start (Out_chunk s, t) p = p\<lparr> pr_stdout := pr_stdout p @ s \<rparr>"
| "pythonEvent start (Err_chunk s, t) p = p\<lparr> pr_stderr := pr_stderr p @ s \<rparr>"
| "pythonEvent start (Proc_close code, t) p = settle (Value (closeResult Python (t - start) code p)) p"
| "pythonEvent start (Timer, t) p = settle (Value (timeoutResult Python (t - start) ([CHR 10] @ ''Execution timed out'') p)) p"
| "pythonEvent start (Spawn_error m, t) p = settle Uncaught p"

fun dockerEvent :: "Language \<Rightarrow> ms \<Rightarrow> ProcEvent \<times> ms \<Rightarrow> Proc \<Rightarrow> Proc" where
  "dockerEvent language start (Out_chunk s, t) p = p\<lparr> pr_stdout := pr_stdout p @ s \<rparr>"
| "dockerEvent language start (Err_chunk s, t) p = p\<lparr> pr_stderr := pr_stderr p @ s \<rparr>"
| "dockerEvent language start (Proc_close code, t) p = settle (Value (closeResult language (t - start) code p)) p"
| "dockerEvent language start (Timer, t) p = settle (Value (timeoutResult language (t - start) ([CHR 10] @ ''Docker execution timed out'') p)) p"
| "dockerEvent language start (Spawn_error m, t) p =
     settle (Value ((baseResult language (t - start))\<lparr> run_stdout := pr_stdout p, run_stderr := ''Docker sandbox error: '' @ m \<rparr>)) p"

text \<open>The value of the promise once the events have happened; \<open>None\<close> while it is pending.\<close>

definition runPython :: "ms \<Rightarrow> (ProcEvent \<times> ms) list \<Rightarrow> RunResult outcome option" where
  "runPython start events = pr_settled (fold (pythonEvent start) events newProc)"

definition runInDockerSandbox :: "Language \<Rightarrow> ms \<Rightarrow> (ProcEvent \<times> ms) list \<Rightarrow> RunResult outcome option" where
  "runInDockerSandbox language start events = pr_settled (fold (dockerEvent language start) events newProc)"

text \<open>The script in a \<open>vm\<close> context: the lines it logged, and the message if it threw.\<close>

definition lower :: "char \<Rightarrow> char" where
  "lower c = (let n = (of_char c :: nat) in if 65 \<le> n \<and> n \<le> 90 then char_of (n + 32) else c)"

definition contains :: "string \<Rightarrow> string \<Rightarrow> bool" where
  "contains w s = testFrom [Lit w] None s"

definition runJavaScript :: "ms \<Rightarrow> ms \<Rightarrow> string list \<times> string option \<Rightarrow> RunResult" where
  "runJavaScript start finish script =
     (case script of
        (captured, None) \<Rightarrow> (baseResult Javascript (finish - start))\<lparr> run_ok := True, run_stdout := join [CHR 10] captured, run_exitCode := 0 \<rparr>
      | (captured, Some message) \<Rightarrow>
          (let timeout = contains ''script execution timed out'' (map lower message) in
           (baseResult Javascript (finish - start))\<lparr> run_stdout := join [CHR 10] captured, run_stderr := message,
             run_exitCode := (if timeout then 124 else 1), run_queueForCloud := timeout,
             run_queueReason := (if timeout then Some Run_timeout else None) \<rparr>))"

subsection \<open>Docker command lines\<close>

record DockerSandboxOptions =
  dk_memoryMB :: "int option"
  dk_cpuPercent :: "num option"
  dk_networkAccess :: "bool option"
  dk_readOnly :: "bool option"

definition noOptions :: DockerSandboxOptions where
  "noOptions = \<lparr> dk_memoryMB = None, dk_cpuPercent = None, dk_networkAccess = None, dk_readOnly = None \<rparr>"

fun DOCKER_IMAGES :: "Language \<Rightarrow> string" where
  "DOCKER_IMAGES Python = ''edgecoder/sandbox-python:latest''"
| "DOCKER_IMAGES Javascript = ''edgecoder/sandbox-node:latest''"

text \<open>\<open>toFixed(2)\<close> of a non-negative number.\<close>

definition fixed2 :: "num \<Rightarrow> string" where
  "fixed2 x = (let n = nat \<lfloor>x * 100 + 1 / 2\<rfloor> in nat_str (n div 100) @ ''.'' @ nat_str (n div 10 mod 10) @ nat_str (n mod 10))"

definition buildDockerArgs :: "string \<Rightarrow> string \<Rightarrow> DockerSandboxOptions \<Rightarrow> string list" where
  "buildDockerArgs img code opts =
     [''run'', ''--rm''] @ (if nullish (dk_networkAccess opts) False then [] else [''--network=none'']) @
     (if nullish (dk_readOnly opts) True then [''--read-only''] else []) @
     [''--memory='' @ int_str (nullish (dk_memoryMB opts) 256) @ ''m'', ''--cpus='' @ fixed2 (n_div (nullish (dk_cpuPercent opts) 50) 100),
      ''--pids-limit=50'', img, code]"

record SandboxPolicy =
  sp_maxMemoryMB :: "int option"
  sp_maxCpuPercent :: "num option"
  sp_networkAccess :: "bool option"

definition policyToDockerOptions :: "SandboxPolicy option \<Rightarrow> DockerSandboxOptions" where
  "policyToDockerOptions policy = (case policy of
     None \<Rightarrow> noOptions
   | Some p \<Rightarrow> \<lparr> dk_memoryMB = sp_maxMemoryMB p, dk_cpuPercent = sp_maxCpuPercent p, dk_networkAccess = sp_networkAccess p, dk_readOnly = Some True \<rparr>)"

subsection \<open>\<open>runCode\<close>\<close>

datatype RunSandbox = Host | Docker

text \<open>
  Everything outside: the answers of the two parsers, whether \<open>docker info\<close> succeeds, and what the process or script does. \<open>start\<close>
  and \<open>t1\<close> are the readings of the clock.
\<close>

record HostEnv =
  ho_walker :: "string \<Rightarrow> WalkerEnd"
  ho_parse :: "string \<Rightarrow> string + node"
  ho_docker :: bool
  ho_dockerRun :: "string list \<Rightarrow> ms \<times> (ProcEvent \<times> ms) list"
  ho_pythonRun :: "string \<Rightarrow> (ProcEvent \<times> ms) list"
  ho_vm :: "string \<Rightarrow> string list \<times> string option"

definition runCode :: "HostEnv \<Rightarrow> Language \<Rightarrow> string \<Rightarrow> RunSandbox \<Rightarrow> DockerSandboxOptions \<Rightarrow> ms \<Rightarrow> ms \<Rightarrow> RunResult outcome option" where
  "runCode host language code sandbox opts start t1 =
     (case checkSubset (ho_walker host) (ho_parse host) language code of
        Uncaught \<Rightarrow> Some Uncaught
      | Value (Some reason) \<Rightarrow>
          Some (Value ((baseResult language (t1 - start))\<lparr> run_stderr := reason, run_queueForCloud := True, run_queueReason := Some Outside_subset \<rparr>))
      | Value None \<Rightarrow>
          if sandbox = Docker then
            (if ho_docker host
             then (let (dockerStart, events) = ho_dockerRun host (buildDockerArgs (DOCKER_IMAGES language) code opts)
                   in runInDockerSandbox language dockerStart events)
             else Some (Value ((baseResult language (t1 - start))
               \<lparr> run_stderr := ''sandbox_unavailable: Docker is required for swarm task execution but is not running'' \<rparr>)))
          else if language = Python then runPython start (ho_pythonRun host code)
          else Some (Value (runJavaScript start t1 (ho_vm host code))))"

section \<open>Sandbox profiles\<close>

datatype Platform = Linux | Darwin | Other_platform

record SandboxConfig =
  sc_timeoutMs :: int
  sc_memoryLimitMB :: int
  sc_cpuTimeLimitSec :: int
  sc_noFileCreation :: bool
  sc_noNetwork :: bool
  sc_useSeccomp :: bool
  sc_useNamespaces :: bool
  sc_useSandboxExec :: bool
  sc_sandboxProfile :: "string option"

definition generateDarwinProfile :: "Language \<Rightarrow> string" where
  "generateDarwinProfile language =
     (let runtime = (if language = Python then ''/usr/bin/python3'' else ''/usr/local/bin/node''); q = [dquote] in
      join [CHR 10] [''(version 1)'', ''(deny default)'', ''(allow process-exec (literal '' @ q @ runtime @ q @ ''))'',
        ''(allow file-read* (subpath '' @ q @ ''/usr/lib'' @ q @ '') (subpath '' @ q @ ''/usr/local/lib'' @ q @ ''))'',
        ''(deny network*)'', ''(deny file-write*)'', ''(deny process-fork)''])"

definition createSandboxConfig :: "Platform \<Rightarrow> Language \<Rightarrow> int \<Rightarrow> int \<Rightarrow> int \<Rightarrow> SandboxConfig" where
  "createSandboxConfig os language memoryLimitMB cpuTimeLimitSec timeoutMs =
     (let base = \<lparr> sc_timeoutMs = timeoutMs, sc_memoryLimitMB = memoryLimitMB, sc_cpuTimeLimitSec = cpuTimeLimitSec, sc_noFileCreation = True,
            sc_noNetwork = True, sc_useSeccomp = False, sc_useNamespaces = False, sc_useSandboxExec = False, sc_sandboxProfile = None \<rparr> in
      case os of
        Linux \<Rightarrow> base\<lparr> sc_useSeccomp := True, sc_useNamespaces := True \<rparr>
      | Darwin \<Rightarrow> base\<lparr> sc_useSandboxExec := True, sc_sandboxProfile := Some (generateDarwinProfile language) \<rparr>
      | Other_platform \<Rightarrow> base)"

definition buildSpawnArgs :: "SandboxConfig \<Rightarrow> Language \<Rightarrow> string \<Rightarrow> string \<times> string list" where
  "buildSpawnArgs config language code =
     (if language = Python then
        (if sc_useSandboxExec config \<and> truthy_str (sc_sandboxProfile config)
         then (''sandbox-exec'', [''-p'', the (sc_sandboxProfile config), ''python3'', ''-c'', code])
         else (''python3'', [''-c'', code]))
      else (''node'', [''--max-old-space-size='' @ int_str (sc_memoryLimitMB config), ''--disallow-code-generation-from-strings'', ''-e'', code]))"

section \<open>What the tree check sees\<close>

text \<open>The members of a tree: through every field, and through the fields the walk follows.\<close>

inductive part :: "(string \<Rightarrow> bool) \<Rightarrow> node \<Rightarrow> node \<Rightarrow> bool" for P :: "string \<Rightarrow> bool" where
  part_refl: "part P n n"
| part_node: "part P n m \<Longrightarrow> (k, F_node c) \<in> set (nd_fields m) \<Longrightarrow> P k \<Longrightarrow> part P n c"
| part_array: "part P n m \<Longrightarrow> (k, F_array xs) \<in> set (nd_fields m) \<Longrightarrow> P k \<Longrightarrow> Some c \<in> set xs \<Longrightarrow> part P n c"

lemma part_trans: "part P m c \<Longrightarrow> part P n m \<Longrightarrow> part P n c"
  by (induction rule: part.induct) (auto intro: part.intros)

lemma walk_sound:
  shows "c \<in> set (walkAst n) \<Longrightarrow> part (\<lambda>k. k \<notin> set skipKeys) n c"
    and "c \<in> set (walkField f) \<Longrightarrow> (\<exists>m. f = F_node m \<and> part (\<lambda>k. k \<notin> set skipKeys) m c) \<or>
      (\<exists>xs m. f = F_array xs \<and> Some m \<in> set xs \<and> part (\<lambda>k. k \<notin> set skipKeys) m c)"
proof (induction n and f rule: walkAst_walkField.induct)
  case (1 t n fs)
  show ?case
  proof (cases "c = Node t n fs")
    case False
    then obtain k f where f: "(k, f) \<in> set fs" "k \<notin> set skipKeys" "c \<in> set (walkField f)" using 1(2) by (auto split: if_splits)
    from 1(1) [OF f(1) refl f(2) f(3)] show ?thesis
    proof
      assume "\<exists>m. f = F_node m \<and> part (\<lambda>k. k \<notin> set skipKeys) m c"
      then obtain m where m: "f = F_node m" "part (\<lambda>k. k \<notin> set skipKeys) m c" by blast
      have "part (\<lambda>k. k \<notin> set skipKeys) (Node t n fs) m" by (rule part_node [OF part_refl]) (use f m in auto)
      then show ?thesis by (rule part_trans [OF m(2)])
    next
      assume "\<exists>xs m. f = F_array xs \<and> Some m \<in> set xs \<and> part (\<lambda>k. k \<notin> set skipKeys) m c"
      then obtain xs m where m: "f = F_array xs" "Some m \<in> set xs" "part (\<lambda>k. k \<notin> set skipKeys) m c" by blast
      have "part (\<lambda>k. k \<notin> set skipKeys) (Node t n fs) m" by (rule part_array [OF part_refl]) (use f m in auto)
      then show ?thesis by (rule part_trans [OF m(3)])
    qed
  qed (simp add: part_refl)
next
  case (4 xs)
  then obtain m where "Some m \<in> set xs" "c \<in> set (walkAst m)" by (auto split: option.splits)
  with 4(1) show ?case by blast
qed auto

lemma walk_self: "n \<in> set (walkAst n)"
  by (cases n) auto

lemma walk_trans: "m \<in> set (walkAst n) \<Longrightarrow> c \<in> set (walkAst m) \<Longrightarrow> c \<in> set (walkAst n)"
  and "m \<in> set (walkField f) \<Longrightarrow> c \<in> set (walkAst m) \<Longrightarrow> c \<in> set (walkField f)"
  by (induction n and f rule: walkAst_walkField.induct) (auto split: if_splits option.splits, blast+)

lemma walk_complete: "part (\<lambda>k. k \<notin> set skipKeys) n c \<Longrightarrow> c \<in> set (walkAst n)"
proof (induction rule: part.induct)
  case (part_node n m k c)
  have "c \<in> set (walkAst m)" using part_node(2,3) walk_self [of c] by (cases m) force
  then show ?case by (rule walk_trans [OF part_node.IH])
next
  case (part_array n m k xs c)
  have "c \<in> set (walkField (F_array xs))" using part_array(4) walk_self [of c] by force
  then have "c \<in> set (walkAst m)" using part_array(2,3) by (cases m) force
  then show ?case by (rule walk_trans [OF part_array.IH])
qed (rule walk_self)

lemma firstFault_None: "firstFault ns = None \<longleftrightarrow> (\<forall>n \<in> set ns. nodeFault n = None)"
  by (induction ns) (auto split: option.splits)

lemma nodeFault_None:
  "nodeFault n = None \<longleftrightarrow> nd_type n \<in> set ALLOWED_NODE_TYPES \<and> \<not> (nd_type n = ''Identifier'' \<and> blockedName (nd_name n)) \<and>
     \<not> (nd_type n = ''CallExpression'' \<and> blockedName (calleeName n))"
  by (simp add: nodeFault_def)

text \<open>C31: The check of JavaScript accepts exactly the programs that parse and whose every part, reached through the fields the walk
  follows, is of an allowed type, names no blocked global and calls none.\<close>
theorem js_tree_check_exact:
  "validateJavaScriptAst parse code = None \<longleftrightarrow>
     (\<exists>ast. parse code = Inr ast \<and>
       (\<forall>n. part (\<lambda>k. k \<notin> set skipKeys) ast n \<longrightarrow>
          nd_type n \<in> set ALLOWED_NODE_TYPES \<and> \<not> (nd_type n = ''Identifier'' \<and> blockedName (nd_name n)) \<and>
          \<not> (nd_type n = ''CallExpression'' \<and> blockedName (calleeName n))))"
proof -
  have "c \<in> set (walkAst n) \<longleftrightarrow> part (\<lambda>k. k \<notin> set skipKeys) n c" for n c
    using walk_sound(1) [of c n] walk_complete [of n c] by blast
  then show ?thesis
    by (auto simp: validateJavaScriptAst_def firstFault_None nodeFault_None split: sum.splits)
qed

text \<open>The statement \<open>f(x)\<close>, and the object \<open>{a: process}\<close>.\<close>

definition ex_ident :: "string \<Rightarrow> node" where
  "ex_ident x = Node ''Identifier'' (Some x) []"

definition ex_program :: "node \<Rightarrow> node" where
  "ex_program e = Node ''Program'' None [(''body'', F_array [Some (Node ''ExpressionStatement'' None [(''expression'', F_node e)])])]"

definition ex_call :: node where
  "ex_call = ex_program (Node ''CallExpression'' None [(''callee'', F_node (ex_ident ''f'')), (''arguments'', F_array [Some (ex_ident ''x'')])])"

definition ex_hidden :: node where
  "ex_hidden = ex_program (Node ''ObjectExpression'' None [(''properties'', F_array [Some (Node ''Property'' None
     [(''key'', F_node (ex_ident ''a'')), (''value'', F_node (ex_ident ''process''))])])])"

lemma ex_call_passes: "validateJavaScriptAst (\<lambda>_. Inr ex_call) code = None"
  by (simp add: validateJavaScriptAst_def ex_call_def ex_program_def ex_ident_def skipKeys_def nodeFault_def ALLOWED_NODE_TYPES_def
      blockedName_def BLOCKED_GLOBALS_def calleeName_def jsm_get_def)

lemma ex_call_part: "part (\<lambda>k. k \<notin> set skipKeys) ex_call (ex_ident ''x'')"
  by (rule walk_sound(1)) (simp add: ex_call_def ex_program_def ex_ident_def skipKeys_def)

theorem js_tree_check_exact_witness: "nd_type (ex_ident ''x'') \<in> set ALLOWED_NODE_TYPES \<and> \<not> blockedName (nd_name (ex_ident ''x''))"
proof -
  have "nd_type (ex_ident ''x'') = ''Identifier''" by (simp add: ex_ident_def)
  then show ?thesis
    using js_tree_check_exact [of "\<lambda>_. Inr ex_call" "[]"] ex_call_passes [of "[]"] ex_call_part by auto
qed

text \<open>The walk skips a field named \<open>value\<close> everywhere: what stands as the value of an object property is never
  looked at, a blocked global included.\<close>
lemma object_values_unchecked:
  "validateJavaScriptAst (\<lambda>_. Inr ex_hidden) code = None \<and> part (\<lambda>_. True) ex_hidden (ex_ident ''process'') \<and>
   blockedName (nd_name (ex_ident ''process''))"
proof (intro conjI)
  show "validateJavaScriptAst (\<lambda>_. Inr ex_hidden) code = None"
    by (simp add: validateJavaScriptAst_def ex_hidden_def ex_program_def ex_ident_def skipKeys_def nodeFault_def ALLOWED_NODE_TYPES_def
        blockedName_def BLOCKED_GLOBALS_def calleeName_def jsm_get_def)
  show "part (\<lambda>_. True) ex_hidden (ex_ident ''process'')"
    unfolding ex_hidden_def ex_program_def
    by (rule part_node part_array, rule part_array, rule part_node, rule part_array, rule part_refl) (simp_all | fastforce)+
  show "blockedName (nd_name (ex_ident ''process''))" by (simp add: ex_ident_def blockedName_def BLOCKED_GLOBALS_def)
qed

text \<open>Only the names of calls are compared with the blocked builtins: an alias of \<open>eval\<close> is called freely.\<close>
lemma aliased_builtin_passes:
  "reportFault \<lparr> wr_error = None, wr_nodes = Some [''Module'', ''Assign'', ''Name'', ''Store'', ''Load'', ''Expr'', ''Call''], wr_calls = Some [''x''] \<rparr> = None"
  by (simp add: reportFault_def ALLOWED_PYTHON_NODES_def BLOCKED_BUILTINS_def)

text \<open>A machine without an interpreter: the failed start of the process is nobody's event.\<close>
lemma python_missing_is_uncaught: "runPython start ((Spawn_error m, t) # events) = Some Uncaught"
proof -
  have "pr_settled p = Some r \<Longrightarrow> pr_settled (fold (pythonEvent start) es p) = Some r" for p r es
  proof (induction es arbitrary: p)
    case (Cons e es)
    then show ?case by (cases "(start, e, p)" rule: pythonEvent.cases) (auto simp: settle_def)
  qed simp
  then show ?thesis by (simp add: runPython_def newProc_def settle_def)
qed

section \<open>The outcome of a run in Docker\<close>

fun outText :: "ProcEvent \<times> ms \<Rightarrow> string" where
  "outText (Out_chunk s, t) = s"
| "outText _ = []"

fun errText :: "ProcEvent \<times> ms \<Rightarrow> string" where
  "errText (Err_chunk s, t) = s"
| "errText _ = []"

fun isChunk :: "ProcEvent \<times> ms \<Rightarrow> bool" where
  "isChunk (Out_chunk s, t) = True"
| "isChunk (Err_chunk s, t) = True"
| "isChunk _ = False"

lemma docker_chunks:
  "list_all isChunk es \<Longrightarrow> fold (dockerEvent language start) es p =
     p\<lparr> pr_stdout := pr_stdout p @ concat (map outText es), pr_stderr := pr_stderr p @ concat (map errText es) \<rparr>"
proof (induction es arbitrary: p)
  case (Cons e es)
  then show ?case by (cases e rule: isChunk.cases) auto
qed simp

lemma docker_settled: "pr_settled p = Some r \<Longrightarrow> pr_settled (fold (dockerEvent language start) es p) = Some r"
proof (induction es arbitrary: p)
  case (Cons e es)
  then show ?case by (cases "(language, start, e, p)" rule: dockerEvent.cases) (auto simp: settle_def)
qed simp

text \<open>A run in Docker settles with the first of close, timer and failed start, with the output collected before it; the
  events after it change nothing.\<close>
lemma docker_run_outcome:
  assumes "list_all isChunk es" "\<not> isChunk (e, t)"
  defines "p \<equiv> \<lparr> pr_stdout = concat (map outText es), pr_stderr = concat (map errText es), pr_settled = None \<rparr>"
  shows "runInDockerSandbox language start (es @ (e, t) # later) = Some (Value (case e of
     Proc_close code \<Rightarrow> closeResult language (t - start) code p
   | Timer \<Rightarrow> timeoutResult language (t - start) ([CHR 10] @ ''Docker execution timed out'') p
   | Spawn_error m \<Rightarrow> (baseResult language (t - start))\<lparr> run_stdout := pr_stdout p, run_stderr := ''Docker sandbox error: '' @ m \<rparr>
   | _ \<Rightarrow> baseResult language 0))"
proof -
  have p: "fold (dockerEvent language start) es newProc = p" by (simp add: docker_chunks [OF assms(1)] newProc_def p_def)
  have n: "pr_settled p = None" by (simp add: p_def)
  show ?thesis unfolding runInDockerSandbox_def fold_append comp_apply fold_simps p
    by (rule docker_settled) (use assms(2) n in \<open>cases e; simp add: settle_def\<close>)
qed

end
