(* ===== verification/AgentLoop.thy ===== *)
theory AgentLoop
  imports Executor
begin

text \<open>
  How an agent writes code (\<open>src/src/agent/\<close>, \<open>src/src/model/extract.ts\<close>, \<open>prompts.ts\<close>): the prompts, the extraction of code from
  a model's answer, the loop of planning, running and reflecting, and what a worker reports. The model and the executor
  are arguments, indexed by the number of the call; a model may fail.
\<close>

section \<open>Prompts\<close>

definition nl :: string where
  "nl = [CHR 10]"

fun languageName :: "Language \<Rightarrow> string" where
  "languageName Python = ''python''"
| "languageName Javascript = ''javascript''"

definition planPrompt :: "string \<Rightarrow> string" where
  "planPrompt task = ''You are a coding assistant. Create a step-by-step plan for the following task. Output ONLY numbered steps, no code, no explanation.''
     @ nl @ nl @ ''Task: '' @ task"

definition codePrompt :: "string \<Rightarrow> string \<Rightarrow> Language \<Rightarrow> string" where
  "codePrompt task plan language = ''You are a coding assistant. Write '' @ languageName language @ '' code that implements the following plan.''
     @ nl @ nl @ ''Task: '' @ task @ nl @ nl @ ''Plan:'' @ nl @ plan @ nl @ nl @ ''Output ONLY executable '' @ languageName language
     @ '' code. No markdown fences, no explanation, no comments unless necessary for clarity.''"

definition reflectPrompt :: "string \<Rightarrow> string \<Rightarrow> string \<Rightarrow> string" where
  "reflectPrompt task code error = ''You are a coding assistant. The following code failed to execute correctly.''
     @ nl @ nl @ ''Task: '' @ task @ nl @ nl @ ''Failed code:'' @ nl @ code @ nl @ nl @ ''Error output:'' @ nl @ error @ nl @ nl
     @ ''Analyze what went wrong and write corrected code. Output ONLY the fixed executable code, no markdown fences, no explanation.''"

section \<open>\<open>extractCode\<close>\<close>

definition fence :: string where
  "fence = ''```''"

definition fenceTags :: "string list" where
  "fenceTags = [''python'', ''javascript'', ''js'', ''py'', ''typescript'', ''ts'', []]"

definition stripPrefix :: "string \<Rightarrow> string \<Rightarrow> string option" where
  "stripPrefix p s = (if take (length p) s = p then Some (drop (length p) s) else None)"

text \<open>The expression \<open>\s*\n\<close>: all white space up to the last newline in the run.\<close>

definition afterNewline :: "string \<Rightarrow> string option" where
  "afterNewline s = (let w = takeWhile is_space s in
     if CHR 10 \<in> set w then Some (drop (length (dropWhile (\<lambda>c. c \<noteq> CHR 10) (rev w))) s) else None)"

text \<open>The text before the first closing fence.\<close>

fun untilFence :: "string \<Rightarrow> string option" where
  "untilFence [] = None"
| "untilFence (c # s) = (if take 3 (c # s) = fence then Some [] else map_option ((#) c) (untilFence s))"

fun firstSome :: "('a \<Rightarrow> 'b option) \<Rightarrow> 'a list \<Rightarrow> 'b option" where
  "firstSome f [] = None"
| "firstSome f (x # xs) = (case f x of Some y \<Rightarrow> Some y | None \<Rightarrow> firstSome f xs)"

definition fencedAt :: "string \<Rightarrow> string option" where
  "fencedAt s = Option.bind (stripPrefix fence s)
     (\<lambda>r. firstSome (\<lambda>tag. Option.bind (stripPrefix tag r) (\<lambda>b. Option.bind (afterNewline b) untilFence)) fenceTags)"

fun findFenced :: "string \<Rightarrow> string option" where
  "findFenced [] = None"
| "findFenced (c # s) = (case fencedAt (c # s) of Some code \<Rightarrow> Some code | None \<Rightarrow> findFenced s)"

definition extractCode :: "string \<Rightarrow> string" where
  "extractCode raw = (case findFenced raw of Some code \<Rightarrow> trim code | None \<Rightarrow> trim raw)"

section \<open>The loop\<close>

record IterationRecord =
  it_iteration :: nat
  it_plan :: string
  it_code :: string
  it_runResult :: RunResult

record AgentExecution =
  ax_plan :: string
  ax_generatedCode :: string
  ax_runResult :: "RunResult option"
  ax_iterations :: nat
  ax_history :: "IterationRecord list"
  ax_escalated :: bool
  ax_escalationReason :: "string option"

fun reasonName :: "QueueReasonCode \<Rightarrow> string" where
  "reasonName Outside_subset = ''outside_subset''"
| "reasonName Run_timeout = ''timeout''"
| "reasonName Model_limit = ''model_limit''"
| "reasonName Manual = ''manual''"

text \<open>Plan and code of iteration \<open>i\<close>; \<open>None\<close> where the model throws.\<close>

definition planTask :: "(nat \<Rightarrow> string \<Rightarrow> string option) \<Rightarrow> string \<Rightarrow> string option" where
  "planTask gen task = gen 0 (planPrompt task)"

definition generateCode :: "(nat \<Rightarrow> string \<Rightarrow> string option) \<Rightarrow> string \<Rightarrow> Language \<Rightarrow> string \<Rightarrow> string option" where
  "generateCode gen task language plan = map_option extractCode (gen 1 (codePrompt task plan language))"

definition reflectOnFailure :: "(nat \<Rightarrow> string \<Rightarrow> string option) \<Rightarrow> nat \<Rightarrow> string \<Rightarrow> string \<Rightarrow> RunResult \<Rightarrow> string option" where
  "reflectOnFailure gen i task code run = map_option extractCode (gen (i + 1) (reflectPrompt task code (run_stderr run)))"

definition propose ::
  "(nat \<Rightarrow> string \<Rightarrow> string option) \<Rightarrow> string \<Rightarrow> Language \<Rightarrow> nat \<Rightarrow> string \<Rightarrow> RunResult option \<Rightarrow> (string \<times> string) option" where
  "propose gen task language i code run =
     (case run of
        None \<Rightarrow> Option.bind (planTask gen task) (\<lambda>plan. map_option (Pair plan) (generateCode gen task language plan))
      | Some r \<Rightarrow> map_option (Pair (''Retry '' @ nat_str (i + 1) @ '': fixing previous error'')) (reflectOnFailure gen i task code r))"

function retryLoop ::
  "(nat \<Rightarrow> string \<Rightarrow> string option) \<Rightarrow> (nat \<Rightarrow> string \<Rightarrow> RunResult) \<Rightarrow> string \<Rightarrow> Language \<Rightarrow> nat \<Rightarrow> nat \<Rightarrow>
   string \<Rightarrow> string \<Rightarrow> RunResult option \<Rightarrow> IterationRecord list \<Rightarrow> AgentExecution option" where
  "retryLoop gen exec task language maxIterations i plan code run hist =
     (if i \<ge> maxIterations
      then Some \<lparr> ax_plan = plan, ax_generatedCode = code, ax_runResult = run, ax_iterations = maxIterations, ax_history = hist,
                  ax_escalated = True, ax_escalationReason = Some ''max_iterations_exhausted'' \<rparr>
      else (case propose gen task language i code run of
          None \<Rightarrow> None
        | Some (plan', code') \<Rightarrow>
            (let r = exec i code';
                 hist' = hist @ [\<lparr> it_iteration = i + 1, it_plan = plan', it_code = code', it_runResult = r \<rparr>];
                 result = \<lparr> ax_plan = plan', ax_generatedCode = code', ax_runResult = Some r, ax_iterations = i + 1, ax_history = hist',
                            ax_escalated = False, ax_escalationReason = None \<rparr> in
             if run_ok r then Some result
             else if run_queueForCloud r
             then Some (result\<lparr> ax_escalated := True,
                    ax_escalationReason := Some (case run_queueReason r of None \<Rightarrow> ''outside_subset'' | Some q \<Rightarrow> reasonName q) \<rparr>)
             else retryLoop gen exec task language maxIterations (i + 1) plan' code' (Some r) hist')))"
  by pat_completeness auto
termination by (relation "measure (\<lambda>(_, _, _, _, m, i, _). m - i)") auto

definition runWithRetry ::
  "(nat \<Rightarrow> string \<Rightarrow> string option) \<Rightarrow> (nat \<Rightarrow> string \<Rightarrow> RunResult) \<Rightarrow> nat \<Rightarrow> string \<Rightarrow> Language \<Rightarrow> AgentExecution option" where
  "runWithRetry gen exec maxIterations task language = retryLoop gen exec task language maxIterations 0 [] [] None []"

text \<open>
  The result a worker reports; with its defaults a worker makes two attempts. \<open>None\<close> where the model throws or, without any
  attempt, there is no run to read.
\<close>

definition runSubtask ::
  "(nat \<Rightarrow> string \<Rightarrow> string option) \<Rightarrow> (nat \<Rightarrow> string \<Rightarrow> RunResult) \<Rightarrow> int option \<Rightarrow> Subtask \<Rightarrow> string \<Rightarrow> SubtaskResult option" where
  "runSubtask gen exec maxIterations subtask agentId =
     Option.bind (runWithRetry gen exec (nat (nullish maxIterations 2)) (st_input subtask) (st_language subtask))
       (\<lambda>x. map_option (\<lambda>r. \<lparr> sr_subtaskId = st_id subtask, sr_taskId = st_taskId subtask, sr_agentId = agentId, sr_ok = run_ok r,
               sr_output = run_stdout r, sr_error = (if run_stderr r = [] then None else Some (run_stderr r)),
               sr_durationMs = run_durationMs r, sr_snapshotRef = None, sr_reportNonce = None, sr_reportSignature = None \<rparr>)
             (ax_runResult x))"

section \<open>What the loop returns\<close>

declare retryLoop.simps [simp del]

definition tried :: "nat \<Rightarrow> string \<Rightarrow> RunResult option \<Rightarrow> IterationRecord list \<Rightarrow> bool" where
  "tried i code run hist \<longleftrightarrow> length hist = i \<and> map it_iteration hist = [1..<i + 1] \<and>
     (\<forall>h \<in> set hist. \<not> run_ok (it_runResult h) \<and> \<not> run_queueForCloud (it_runResult h)) \<and>
     (if hist = [] then run = None else run = Some (it_runResult (last hist)) \<and> code = it_code (last hist))"

definition outcome_ok :: "nat \<Rightarrow> AgentExecution \<Rightarrow> bool" where
  "outcome_ok maxIterations x \<longleftrightarrow> ax_history x \<noteq> [] \<and> length (ax_history x) = ax_iterations x \<and> ax_iterations x \<le> maxIterations \<and>
     map it_iteration (ax_history x) = [1..<ax_iterations x + 1] \<and>
     ax_runResult x = Some (it_runResult (last (ax_history x))) \<and> ax_generatedCode x = it_code (last (ax_history x)) \<and>
     (\<forall>h \<in> set (butlast (ax_history x)). \<not> run_ok (it_runResult h) \<and> \<not> run_queueForCloud (it_runResult h)) \<and>
     (ax_escalated x \<longleftrightarrow> \<not> run_ok (it_runResult (last (ax_history x)))) \<and>
     (ax_escalated x \<and> \<not> run_queueForCloud (it_runResult (last (ax_history x))) \<longrightarrow> ax_iterations x = maxIterations) \<and>
     ax_escalationReason x = (let r = it_runResult (last (ax_history x)) in
       if run_ok r then None
       else if run_queueForCloud r then Some (case run_queueReason r of None \<Rightarrow> ''outside_subset'' | Some q \<Rightarrow> reasonName q)
       else Some ''max_iterations_exhausted'')"

lemma retryLoop_outcome:
  assumes "retryLoop gen exec task language m i plan code run hist = Some x" "tried i code run hist" "i \<le> m" "0 < m"
  shows "outcome_ok m x"
  using assms
proof (induction gen exec task language m i plan code run hist rule: retryLoop.induct)
  case (1 gen exec task language m i plan code run hist)
  show ?case
  proof (cases "i \<ge> m")
    case True
    then have x: "x = \<lparr> ax_plan = plan, ax_generatedCode = code, ax_runResult = run, ax_iterations = m, ax_history = hist,
        ax_escalated = True, ax_escalationReason = Some ''max_iterations_exhausted'' \<rparr>" using 1(2) by (simp add: retryLoop.simps)
    have "i = m" using True 1(4) by simp
    then have h: "hist \<noteq> []" "length hist = m" using 1(3,5) by (auto simp: tried_def)
    then show ?thesis using 1(3) \<open>i = m\<close> by (auto simp: x outcome_ok_def tried_def Let_def dest: in_set_butlastD)
  next
    case False
    then obtain plan' code' where p: "propose gen task language i code run = Some (plan', code')"
      using 1(2) by (cases "propose gen task language i code run") (auto simp: retryLoop.simps)
    let ?r = "exec i code'"
    let ?hist = "hist @ [\<lparr> it_iteration = i + 1, it_plan = plan', it_code = code', it_runResult = ?r \<rparr>]"
    show ?thesis
    proof (cases "run_ok ?r \<or> run_queueForCloud ?r")
      case True
      have x: "Some x = (if run_ok ?r then Some \<lparr> ax_plan = plan', ax_generatedCode = code', ax_runResult = Some ?r, ax_iterations = i + 1,
            ax_history = ?hist, ax_escalated = False, ax_escalationReason = None \<rparr>
          else Some \<lparr> ax_plan = plan', ax_generatedCode = code', ax_runResult = Some ?r, ax_iterations = i + 1, ax_history = ?hist, ax_escalated = True,
            ax_escalationReason = Some (case run_queueReason ?r of None \<Rightarrow> ''outside_subset'' | Some q \<Rightarrow> reasonName q) \<rparr>)"
        using 1(2) False p True by (simp add: retryLoop.simps [of gen exec task language m i] Let_def split: if_splits)
      have f: "ax_history x = ?hist" "ax_iterations x = i + 1" "ax_runResult x = Some ?r" "ax_generatedCode x = code'" "ax_escalated x \<longleftrightarrow> \<not> run_ok ?r"
        "ax_escalationReason x = (if run_ok ?r then None else Some (case run_queueReason ?r of None \<Rightarrow> ''outside_subset'' | Some q \<Rightarrow> reasonName q))"
        using x by (simp_all split: if_splits)
      have "map it_iteration ?hist = [1..<i + 1 + 1]" using 1(3) by (simp add: tried_def)
      then show ?thesis using 1(3) f True False unfolding outcome_ok_def f by (auto simp: tried_def Let_def)
    next
      case F: False
      then have rec: "retryLoop gen exec task language m (i + 1) plan' code' (Some ?r) ?hist = Some x"
        using 1(2) False p by (simp add: retryLoop.simps [of gen exec task language m i] Let_def)
      have t: "tried (i + 1) code' (Some ?r) ?hist" using 1(3) F by (auto simp: tried_def)
      show ?thesis using 1(1) [OF False p refl refl refl refl _ _ rec t] F False 1(5) by simp
    qed
  qed
qed

lemma propose_returns:
  assumes "\<forall>j p. gen j p \<noteq> None"
  shows "propose gen task language i code run \<noteq> None"
proof -
  have "\<exists>y. gen j p = Some y" for j p using assms by simp
  then obtain y z where "gen 0 (planPrompt task) = Some y" "\<And>plan. \<exists>c. gen 1 (codePrompt task plan language) = Some c"
    "\<And>j p. \<exists>c. gen j p = Some c" by blast
  then show ?thesis using assms
    by (auto simp: propose_def planTask_def generateCode_def reflectOnFailure_def split: option.split)
qed

lemma retryLoop_returns:
  assumes gen: "\<forall>j p. gen j p \<noteq> None"
  shows "retryLoop gen exec task language m i plan code run hist \<noteq> None"
proof (induction "m - i" arbitrary: i plan code run hist rule: less_induct)
  case less
  show ?case
  proof (cases "i \<ge> m")
    case False
    obtain plan' code' where p: "propose gen task language i code run = Some (plan', code')"
      using propose_returns [OF gen, where task = task and language = language and i = i and code = code and run = run] by (cases "propose gen task language i code run") auto
    show ?thesis
      using False p less [of "i + 1"] by (simp add: retryLoop.simps [of gen exec task language m i] Let_def)
  qed (simp add: retryLoop.simps)
qed

text \<open>C32: The loop of an agent always ends: with a model that answers, a run with at least one allowed attempt returns, after at
  most the allowed number of attempts. Its history numbers the attempts from one; all but the last failed without being
  handed to the cloud; the reported code and run are those of the last attempt. It is escalated exactly when the last attempt
  failed, and a failure the executor does not hand to the cloud only once the attempts are used up; the reason is then
  \<open>max_iterations_exhausted\<close>, else that of the executor, or \<open>outside_subset\<close> where it gives none, and without escalation there is none.\<close>
theorem retry_loop_outcome:
  assumes "0 < m" "\<And>j p. gen j p \<noteq> None"
  shows "\<exists>x. runWithRetry gen exec m task language = Some x \<and> 1 \<le> ax_iterations x \<and> ax_iterations x \<le> m \<and>
     map it_iteration (ax_history x) = [1..<ax_iterations x + 1] \<and>
     list_all (\<lambda>h. \<not> run_ok (it_runResult h) \<and> \<not> run_queueForCloud (it_runResult h)) (butlast (ax_history x)) \<and>
     ax_generatedCode x = it_code (last (ax_history x)) \<and> ax_runResult x = Some (it_runResult (last (ax_history x))) \<and>
     (ax_escalated x \<longleftrightarrow> \<not> run_ok (it_runResult (last (ax_history x)))) \<and>
     (ax_escalated x \<and> \<not> run_queueForCloud (it_runResult (last (ax_history x))) \<longrightarrow> ax_iterations x = m) \<and>
     ax_escalationReason x = (let r = it_runResult (last (ax_history x)) in
       if run_ok r then None
       else if run_queueForCloud r then Some (case run_queueReason r of None \<Rightarrow> ''outside_subset'' | Some q \<Rightarrow> reasonName q)
       else Some ''max_iterations_exhausted'')"
proof -
  obtain x where x: "runWithRetry gen exec m task language = Some x"
    using retryLoop_returns [of gen exec task language m 0 "[]" "[]" None "[]"] assms(2) by (auto simp: runWithRetry_def)
  have "outcome_ok m x"
    by (rule retryLoop_outcome [OF x [unfolded runWithRetry_def]]) (use assms(1) in \<open>auto simp: tried_def\<close>)
  then have o: "ax_history x \<noteq> []" "length (ax_history x) = ax_iterations x" and rest: "outcome_ok m x"
    by (simp_all add: outcome_ok_def)
  have "1 \<le> ax_iterations x" using o by (cases "ax_history x") auto
  with x rest show ?thesis unfolding outcome_ok_def list_all_iff by blast
qed

text \<open>A model that always answers the same, and a run that fails: two attempts, then the escalation.\<close>

definition ex_gen :: "nat \<Rightarrow> string \<Rightarrow> string option" where
  "ex_gen j p = Some ''f()''"

definition ex_exec :: "nat \<Rightarrow> string \<Rightarrow> RunResult" where
  "ex_exec i code = baseResult Python 0"

theorem retry_loop_outcome_witness:
  "map_option (\<lambda>x. (ax_escalated x, ax_iterations x)) (runWithRetry ex_gen ex_exec 2 [] Python) = Some (True, 2)"
proof -
  have m: "(0 :: nat) < 2" and g: "\<And>j p. ex_gen j p \<noteq> None" by (simp_all add: ex_gen_def)
  from retry_loop_outcome [where gen = ex_gen, OF m g, where exec = ex_exec and task = "[]" and language = Python]
  obtain x where x: "runWithRetry ex_gen ex_exec 2 [] Python = Some x"
    and i: "ax_escalated x \<longleftrightarrow> \<not> run_ok (it_runResult (last (ax_history x)))"
      "ax_runResult x = Some (it_runResult (last (ax_history x)))"
      "ax_escalated x \<and> \<not> run_queueForCloud (it_runResult (last (ax_history x))) \<longrightarrow> ax_iterations x = 2"
    by blast
  have "map_option ax_runResult (runWithRetry ex_gen ex_exec 2 [] Python) = Some (Some (baseResult Python 0))" by code_simp
  then have "it_runResult (last (ax_history x)) = baseResult Python 0" using x i(2) by simp
  then show ?thesis using x i by (simp add: baseResult_def)
qed

section \<open>Fenced code\<close>

lemma untilFence_append: "(\<And>k. k < length s \<Longrightarrow> take 3 (drop k s @ fence) \<noteq> fence) \<Longrightarrow> untilFence (s @ fence @ rest) = Some s"
proof (induction s)
  case Nil
  then show ?case by (simp add: fence_def)
next
  case (Cons c s)
  have "take 3 (c # s @ fence @ rest) = take 3 ((c # s) @ fence)" by (simp add: fence_def take_Cons' min_def)
  also have "\<dots> \<noteq> fence" using Cons.prems [of 0] by simp
  finally have n: "take 3 (c # s @ fence @ rest) \<noteq> fence" .
  have "untilFence (s @ fence @ rest) = Some s" by (rule Cons.IH) (use Cons.prems [of "Suc k" for k] in simp)
  with n show ?case by simp
qed

lemma afterNewline_line: "\<not> is_space c \<Longrightarrow> afterNewline (CHR 10 # c # s) = Some (c # s)"
  by (simp add: afterNewline_def is_space_def)

lemma firstSome_hit: "f x = Some y \<Longrightarrow> firstSome f (x # xs) = Some y"
  and firstSome_miss: "f x = None \<Longrightarrow> firstSome f (x # xs) = firstSome f xs"
  by simp_all

lemma stripPrefix_append [simp]: "stripPrefix p (p @ s) = Some s"
  by (simp add: stripPrefix_def)

lemma stripPrefix_clash:
  "stripPrefix [] s = Some s"
  "stripPrefix (x # p) (y # s) = (if x = y then stripPrefix p s else None)"
  by (simp_all add: stripPrefix_def)

lemma fencedAt_tag:
  assumes "tag \<in> set fenceTags" "afterNewline (CHR 10 # x) = Some y" "untilFence y = Some code"
  shows "fencedAt (fence @ tag @ CHR 10 # x) = Some code"
proof -
  have "firstSome (\<lambda>t. Option.bind (stripPrefix t (tag @ CHR 10 # x)) (\<lambda>b. Option.bind (afterNewline b) untilFence)) fenceTags = Some code"
    using assms(1) unfolding fenceTags_def list.set insert_iff
    by (elim disjE emptyE) (simp_all add: stripPrefix_clash assms(2,3))
  then show ?thesis by (simp add: fencedAt_def)
qed

text \<open>Code between fences with any of the known tags comes back unchanged up to trimming, whatever follows.\<close>
lemma extract_fenced_code:
  assumes "tag \<in> set fenceTags" "code = c # cs" "\<not> is_space c" "\<And>k. k < length code \<Longrightarrow> take 3 (drop k code @ fence) \<noteq> fence"
  shows "extractCode (fence @ tag @ [CHR 10] @ code @ fence @ rest) = trim code"
proof -
  have "fencedAt (fence @ tag @ CHR 10 # c # cs @ fence @ rest) = Some code"
    by (rule fencedAt_tag [OF assms(1) afterNewline_line [OF assms(3)]]) (use untilFence_append [OF assms(4), of rest] assms(2) in simp)
  then have "findFenced (fence @ tag @ [CHR 10] @ code @ fence @ rest) = Some code"
    by (simp add: fence_def assms(2))
  then show ?thesis by (simp add: extractCode_def)
qed

end
