(* ===== verification/Handshake.thy ===== *)
theory Handshake
  imports Escalation SecurityGuards
begin

text \<open>
  The handshake service (\<open>src/src/handshake/\<close>): an agent asks for a review, accepts or rejects the session, and polls for what the
  cloud model made of it. The validated bodies, the cloud model and the clock are arguments; a request is its headers and the text
  of its body.
\<close>

section \<open>Sessions\<close>

datatype HandshakePhase = Hs_handshake | Hs_negotiate | Hs_execute | Hs_result | Hs_expired | Hs_failed

record CloudModelRequest =
  cq_sessionId :: string
  cq_task :: string
  cq_snippet :: "string option"
  cq_error :: "string option"
  cq_queueReason :: QueueReasonCode

record CloudModelResponse =
  cm_revisedPlan :: "string option"
  cm_codeDiff :: "string option"
  cm_improvedCode :: "string option"
  cm_notes :: "string option"

record HandshakeSession =
  hs_sessionId :: string
  hs_agentId :: string
  hs_phase :: HandshakePhase
  hs_task :: string
  hs_snippet :: "string option"
  hs_error :: "string option"
  hs_queueReason :: QueueReasonCode
  hs_cloudResponse :: "CloudModelResponse option"
  hs_createdAtMs :: ms
  hs_updatedAtMs :: ms
  hs_failureReason :: "string option"

record SessionStore =
  st_sessions :: "(string, HandshakeSession) jsmap"
  st_byAgent :: "(string, string list) jsmap"

definition storeGet :: "string \<Rightarrow> SessionStore \<Rightarrow> HandshakeSession option" where
  "storeGet i st = jsm_get (st_sessions st) i"

definition storeSet :: "HandshakeSession \<Rightarrow> SessionStore \<Rightarrow> SessionStore" where
  "storeSet session st =
     (let agentSet = nullish (jsm_get (st_byAgent st) (hs_agentId session)) [] in
      \<lparr> st_sessions = jsm_set (hs_sessionId session) session (st_sessions st),
        st_byAgent = jsm_set (hs_agentId session) (jss_add (hs_sessionId session) agentSet) (st_byAgent st) \<rparr>)"

definition storeDelete :: "string \<Rightarrow> SessionStore \<Rightarrow> SessionStore \<times> bool" where
  "storeDelete i st =
     (case storeGet i st of
        None \<Rightarrow> (st, False)
      | Some session \<Rightarrow>
          (let a = hs_agentId session in
           (\<lparr> st_sessions = jsm_delete i (st_sessions st),
              st_byAgent = (case jsm_get (st_byAgent st) a of
                  None \<Rightarrow> st_byAgent st
                | Some ids \<Rightarrow> (let rest = filter (\<lambda>x. x \<noteq> i) ids in
                    if rest = [] then jsm_delete a (st_byAgent st) else jsm_set a rest (st_byAgent st))) \<rparr>, True)))"

definition isActive :: "HandshakeSession \<Rightarrow> bool" where
  "isActive s = (hs_phase s \<noteq> Hs_expired \<and> hs_phase s \<noteq> Hs_failed \<and> hs_phase s \<noteq> Hs_result)"

definition activeCountForAgent :: "string \<Rightarrow> SessionStore \<Rightarrow> nat" where
  "activeCountForAgent agentId st =
     (case jsm_get (st_byAgent st) agentId of
        None \<Rightarrow> 0
      | Some ids \<Rightarrow> length (filter (\<lambda>sid. case storeGet sid st of None \<Rightarrow> False | Some s \<Rightarrow> isActive s) ids))"

section \<open>Requests\<close>

record ReviewBody =
  rb_task :: string
  rb_snippet :: "string option"
  rb_error :: "string option"
  rb_queueReason :: QueueReasonCode

record HandshakeConfig =
  hc_sessionTimeoutMs :: ms
  hc_maxSessionsPerAgent :: nat
  hc_maxSkewMs :: int
  hc_resolvePublicKey :: "string \<Rightarrow> string option"

definition defaultHandshakeConfig :: "(string \<Rightarrow> string option) \<Rightarrow> HandshakeConfig" where
  "defaultHandshakeConfig resolvePublicKey =
     \<lparr> hc_sessionTimeoutMs = 300000, hc_maxSessionsPerAgent = 5, hc_maxSkewMs = 120000, hc_resolvePublicKey = resolvePublicKey \<rparr>"

text \<open>Headers by name, and the text \<open>JSON.stringify\<close> makes of the parsed body.\<close>

record HandshakeRequest =
  hq_headers :: "(string \<times> string) list"
  hq_body :: string

datatype HandshakeReply =
    Hs_error nat string
  | Hs_created string HandshakePhase
  | Hs_moved string HandshakePhase
  | Hs_in_progress string HandshakePhase
  | Hs_ended string HandshakePhase "string option"
  | Hs_answer string "CloudModelResponse option"
  | Hs_status HandshakeSession
  | Hs_threw

definition header :: "HandshakeRequest \<Rightarrow> string \<Rightarrow> string option" where
  "header req k = map_of (hq_headers req) k"

definition verifyAgent ::
  "crypto \<Rightarrow> (string \<Rightarrow> int option) \<Rightarrow> HandshakeConfig \<Rightarrow> string \<Rightarrow> string \<Rightarrow> ms \<Rightarrow> HandshakeRequest \<Rightarrow> HandshakeReply + string" where
  "verifyAgent cr toNumber cfg method routePath now req =
     (let agentId = header req ''x-agent-id'' in
      if \<not> truthy_str agentId then Inl (Hs_error 401 ''missing_agent_id'')
      else (let key = hc_resolvePublicKey cfg (the agentId) in
        if \<not> truthy_str key then Inl (Hs_error 403 ''unknown_agent'')
        else (let signed = \<lparr> x_agent_id = the agentId, x_timestamp_ms = nullish (header req ''x-timestamp-ms'') [],
                 x_nonce = nullish (header req ''x-nonce'') [], x_body_sha256 = nullish (header req ''x-body-sha256'') [],
                 x_signature = nullish (header req ''x-signature'') [] \<rparr> in
          case verifySignedRequest cr toNumber method routePath signed (the key) (hc_maxSkewMs cfg) now of
            None \<Rightarrow> Inl Hs_threw
          | Some (Inl _) \<Rightarrow> Inl (Hs_error 401 ''invalid_signature'')
          | Some (Inr _) \<Rightarrow> Inr (the agentId))))"

definition bodyHashMatches :: "crypto \<Rightarrow> HandshakeRequest \<Rightarrow> bool" where
  "bodyHashMatches cr req = (truthy_str (header req ''x-body-sha256'') \<and> header req ''x-body-sha256'' = Some (sha256_hex cr (hq_body req)))"

section \<open>Routes\<close>

text \<open>\<open>body\<close> is the validated body, \<open>None\<close> where the schema refuses it.\<close>

definition reviewRoute ::
  "crypto \<Rightarrow> (string \<Rightarrow> int option) \<Rightarrow> HandshakeConfig \<Rightarrow> ms \<Rightarrow> string \<Rightarrow> HandshakeRequest \<Rightarrow> ReviewBody option \<Rightarrow> SessionStore \<Rightarrow>
   SessionStore \<times> HandshakeReply" where
  "reviewRoute cr toNumber cfg now uuid req body st =
     (case verifyAgent cr toNumber cfg ''POST'' ''/review'' now req of
        Inl r \<Rightarrow> (st, r)
      | Inr agentId \<Rightarrow>
          if \<not> bodyHashMatches cr req then (st, Hs_error 400 ''body_hash_mismatch'')
          else (case body of
              None \<Rightarrow> (st, Hs_error 400 ''validation_error'')
            | Some b \<Rightarrow>
                if hc_maxSessionsPerAgent cfg \<le> activeCountForAgent agentId st then (st, Hs_error 429 ''too_many_sessions'')
                else (storeSet \<lparr> hs_sessionId = uuid, hs_agentId = agentId, hs_phase = Hs_handshake, hs_task = rb_task b, hs_snippet = rb_snippet b,
                        hs_error = rb_error b, hs_queueReason = rb_queueReason b, hs_cloudResponse = None, hs_createdAtMs = now,
                        hs_updatedAtMs = now, hs_failureReason = None \<rparr> st, Hs_created uuid Hs_handshake)))"

text \<open>
  The answer of an agent: the session id and whether it accepts. The third component is the session whose execution starts.
  The two writes of the phases \<open>negotiate\<close> and \<open>execute\<close> follow each other without a pause.
\<close>

definition negotiateRoute ::
  "crypto \<Rightarrow> (string \<Rightarrow> int option) \<Rightarrow> HandshakeConfig \<Rightarrow> ms \<Rightarrow> HandshakeRequest \<Rightarrow> (string \<times> bool) option \<Rightarrow> SessionStore \<Rightarrow>
   SessionStore \<times> HandshakeReply \<times> HandshakeSession option" where
  "negotiateRoute cr toNumber cfg now req body st =
     (case verifyAgent cr toNumber cfg ''POST'' ''/negotiate'' now req of
        Inl r \<Rightarrow> (st, r, None)
      | Inr agentId \<Rightarrow>
          if \<not> bodyHashMatches cr req then (st, Hs_error 400 ''body_hash_mismatch'', None)
          else (case body of
              None \<Rightarrow> (st, Hs_error 400 ''validation_error'', None)
            | Some (sessionId, accept) \<Rightarrow>
                (case storeGet sessionId st of
                   None \<Rightarrow> (st, Hs_error 404 ''session_not_found'', None)
                 | Some session \<Rightarrow>
                     if hs_agentId session \<noteq> agentId then (st, Hs_error 403 ''session_owner_mismatch'', None)
                     else if hs_phase session \<noteq> Hs_handshake then (st, Hs_error 409 ''invalid_phase_transition'', None)
                     else if \<not> accept
                     then (storeSet (session\<lparr> hs_phase := Hs_failed, hs_failureReason := Some ''agent_rejected'', hs_updatedAtMs := now \<rparr>) st,
                           Hs_moved sessionId Hs_failed, None)
                     else (let s1 = session\<lparr> hs_phase := Hs_negotiate, hs_updatedAtMs := now \<rparr>; s2 = s1\<lparr> hs_phase := Hs_execute \<rparr> in
                           (storeSet s2 (storeSet s1 st), Hs_moved sessionId Hs_execute, Some s2)))))"

definition ownSession :: "string \<Rightarrow> string \<Rightarrow> SessionStore \<Rightarrow> HandshakeReply + HandshakeSession" where
  "ownSession agentId i st =
     (case storeGet i st of
        None \<Rightarrow> Inl (Hs_error 404 ''session_not_found'')
      | Some session \<Rightarrow> if hs_agentId session \<noteq> agentId then Inl (Hs_error 403 ''session_owner_mismatch'') else Inr session)"

definition resultRoute ::
  "crypto \<Rightarrow> (string \<Rightarrow> int option) \<Rightarrow> HandshakeConfig \<Rightarrow> ms \<Rightarrow> string \<Rightarrow> HandshakeRequest \<Rightarrow> SessionStore \<Rightarrow> HandshakeReply" where
  "resultRoute cr toNumber cfg now i req st =
     (case verifyAgent cr toNumber cfg ''GET'' (''/result/'' @ i) now req of
        Inl r \<Rightarrow> r
      | Inr agentId \<Rightarrow>
          (case ownSession agentId i st of
             Inl r \<Rightarrow> r
           | Inr session \<Rightarrow>
               if hs_phase session = Hs_result then Hs_answer (hs_sessionId session) (hs_cloudResponse session)
               else if hs_phase session = Hs_failed \<or> hs_phase session = Hs_expired
               then Hs_ended (hs_sessionId session) (hs_phase session) (hs_failureReason session)
               else Hs_in_progress (hs_sessionId session) (hs_phase session)))"

definition sessionRoute ::
  "crypto \<Rightarrow> (string \<Rightarrow> int option) \<Rightarrow> HandshakeConfig \<Rightarrow> ms \<Rightarrow> string \<Rightarrow> HandshakeRequest \<Rightarrow> SessionStore \<Rightarrow> HandshakeReply" where
  "sessionRoute cr toNumber cfg now i req st =
     (case verifyAgent cr toNumber cfg ''GET'' (''/session/'' @ i) now req of
        Inl r \<Rightarrow> r
      | Inr agentId \<Rightarrow> (case ownSession agentId i st of Inl r \<Rightarrow> r | Inr session \<Rightarrow> Hs_status session))"

section \<open>The sweep and the cloud model\<close>

definition sweepSession :: "HandshakeConfig \<Rightarrow> ms \<Rightarrow> SessionStore \<Rightarrow> HandshakeSession \<Rightarrow> SessionStore" where
  "sweepSession cfg now st session =
     (if isActive session \<and> hc_sessionTimeoutMs cfg < now - hs_updatedAtMs session
      then storeSet (session\<lparr> hs_phase := Hs_expired, hs_failureReason := Some ''session_timeout'', hs_updatedAtMs := now \<rparr>) st
      else st)"

definition sweepSessions :: "HandshakeConfig \<Rightarrow> ms \<Rightarrow> SessionStore \<Rightarrow> SessionStore" where
  "sweepSessions cfg now st = foldl (sweepSession cfg now) st (jsm_values (st_sessions st))"

definition cloudRequest :: "HandshakeSession \<Rightarrow> CloudModelRequest" where
  "cloudRequest s = \<lparr> cq_sessionId = hs_sessionId s, cq_task = hs_task s, cq_snippet = hs_snippet s, cq_error = hs_error s,
     cq_queueReason = hs_queueReason s \<rparr>"

text \<open>What \<open>executeCloudModel\<close> does when the model answers, or throws a text.\<close>

definition cloudDone :: "string \<Rightarrow> string + CloudModelResponse \<Rightarrow> ms \<Rightarrow> SessionStore \<Rightarrow> SessionStore" where
  "cloudDone sessionId answer now st =
     (case storeGet sessionId st of
        None \<Rightarrow> st
      | Some current \<Rightarrow>
          if hs_phase current \<noteq> Hs_execute then st
          else (case answer of
              Inr response \<Rightarrow> storeSet (current\<lparr> hs_cloudResponse := Some response, hs_phase := Hs_result, hs_updatedAtMs := now \<rparr>) st
            | Inl err \<Rightarrow> storeSet (current\<lparr> hs_phase := Hs_failed, hs_failureReason := Some (''cloud_model_error: '' @ err), hs_updatedAtMs := now \<rparr>) st))"

section \<open>The client\<close>

definition sanitizePayload :: "ReviewBody \<Rightarrow> ReviewBody" where
  "sanitizePayload p = p\<lparr> rb_task := scrub (rb_task p), rb_snippet := map_option scrub (rb_snippet p), rb_error := map_option scrub (rb_error p) \<rparr>"

text \<open>The request \<open>queueCloudReview\<close> sends; \<open>text\<close> is the text of the redacted payload.\<close>

definition cloudReviewRequest :: "string \<Rightarrow> string \<Rightarrow> HandshakeRequest" where
  "cloudReviewRequest token text = \<lparr> hq_headers = [(''authorization'', ''Bearer '' @ token), (''content-type'', ''application/json'')], hq_body = text \<rparr>"

definition queueCloudReview :: "(HandshakeRequest \<Rightarrow> ReviewBody \<Rightarrow> nat \<times> string) \<Rightarrow> (ReviewBody \<Rightarrow> string) \<Rightarrow> string \<Rightarrow> ReviewBody \<Rightarrow> string option" where
  "queueCloudReview post stringify token payload =
     (let safe = sanitizePayload payload; (code, reviewId) = post (cloudReviewRequest token (stringify safe)) safe in
      if code < 200 \<or> 300 \<le> code then None else Some reviewId)"

section \<open>The store\<close>

text \<open>Sessions are filed under their id, and the ids of an agent are those of its sessions.\<close>

definition store_ok :: "SessionStore \<Rightarrow> bool" where
  "store_ok st = (jsm_wf (st_sessions st) \<and>
     (\<forall>i s. storeGet i st = Some s \<longrightarrow> hs_sessionId s = i \<and> (\<exists>ids. jsm_get (st_byAgent st) (hs_agentId s) = Some ids \<and> i \<in> set ids)) \<and>
     (\<forall>a ids. jsm_get (st_byAgent st) a = Some ids \<longrightarrow> distinct ids \<and> (\<forall>i \<in> set ids. \<exists>s. storeGet i st = Some s \<and> hs_agentId s = a)))"

lemma store_session: "store_ok st \<Longrightarrow> storeGet i st = Some s \<Longrightarrow> hs_sessionId s = i"
  by (simp add: store_ok_def)

lemma store_index:
  "store_ok st \<Longrightarrow> jsm_get (st_byAgent st) a = Some ids \<Longrightarrow> distinct ids"
  "store_ok st \<Longrightarrow> jsm_get (st_byAgent st) a = Some ids \<Longrightarrow> i \<in> set ids \<Longrightarrow> \<exists>s. storeGet i st = Some s \<and> hs_agentId s = a"
  by (auto simp: store_ok_def)

lemma storeGet_set: "storeGet i (storeSet s st) = (if i = hs_sessionId s then Some s else storeGet i st)"
  by (simp add: storeGet_def storeSet_def Let_def jsm_get_set)

lemma byAgent_set: "jsm_get (st_byAgent (storeSet s st)) a =
    (if a = hs_agentId s then Some (jss_add (hs_sessionId s) (nullish (jsm_get (st_byAgent st) a) [])) else jsm_get (st_byAgent st) a)"
  by (simp add: storeSet_def Let_def jsm_get_set)

lemma storeSet_ok:
  assumes "store_ok st" and "\<And>s0. storeGet (hs_sessionId s) st = Some s0 \<Longrightarrow> hs_agentId s0 = hs_agentId s"
  shows "store_ok (storeSet s st)"
proof -
  have ids: "distinct (nullish (jsm_get (st_byAgent st) (hs_agentId s)) [])"
    "i \<in> set (nullish (jsm_get (st_byAgent st) (hs_agentId s)) []) \<Longrightarrow> \<exists>s0. storeGet i st = Some s0 \<and> hs_agentId s0 = hs_agentId s" for i
    using store_index [OF assms(1), of "hs_agentId s"] by (cases "jsm_get (st_byAgent st) (hs_agentId s)"; fastforce simp: nullish_def)+
  have "jsm_wf (st_sessions (storeSet s st))" using assms(1) by (simp add: store_ok_def storeSet_def Let_def)
  moreover have "hs_sessionId s' = i \<and> (\<exists>ids. jsm_get (st_byAgent (storeSet s st)) (hs_agentId s') = Some ids \<and> i \<in> set ids)"
    if "storeGet i (storeSet s st) = Some s'" for i s'
  proof (cases "i = hs_sessionId s")
    case False
    then have "storeGet i st = Some s'" using that by (simp add: storeGet_set)
    then obtain ids where "hs_sessionId s' = i" "jsm_get (st_byAgent st) (hs_agentId s') = Some ids" "i \<in> set ids"
      using assms(1) unfolding store_ok_def by blast
    then show ?thesis by (auto simp: byAgent_set nullish_def)
  qed (use that in \<open>auto simp: storeGet_set byAgent_set\<close>)
  moreover have "distinct ids' \<and> (\<forall>i \<in> set ids'. \<exists>s'. storeGet i (storeSet s st) = Some s' \<and> hs_agentId s' = a)"
    if "jsm_get (st_byAgent (storeSet s st)) a = Some ids'" for a ids'
  proof (cases "a = hs_agentId s")
    case True
    then show ?thesis using that ids by (auto simp: byAgent_set storeGet_set)
  next
    case False
    then have old: "jsm_get (st_byAgent st) a = Some ids'" using that by (simp add: byAgent_set)
    then have "distinct ids'" "\<And>i. i \<in> set ids' \<Longrightarrow> \<exists>s0. storeGet i st = Some s0 \<and> hs_agentId s0 = a" using assms(1) by (auto simp: store_ok_def)
    then show ?thesis using assms(2) False by (auto simp: storeGet_set)
  qed
  ultimately show ?thesis unfolding store_ok_def by blast
qed

definition activeIds :: "string \<Rightarrow> SessionStore \<Rightarrow> string set" where
  "activeIds a st = {i. \<exists>s. storeGet i st = Some s \<and> hs_agentId s = a \<and> isActive s}"

lemma activeCount_card:
  assumes "store_ok st"
  shows "activeCountForAgent a st = card (activeIds a st)" "finite (activeIds a st)"
proof -
  let ?p = "\<lambda>sid. case storeGet sid st of None \<Rightarrow> False | Some s \<Rightarrow> isActive s"
  have "activeCountForAgent a st = card (activeIds a st) \<and> finite (activeIds a st)"
  proof (cases "jsm_get (st_byAgent st) a")
    case None
    then have "activeIds a st = {}" using assms by (fastforce simp: activeIds_def store_ok_def)
    then show ?thesis using None by (simp add: activeCountForAgent_def)
  next
    case (Some ids)
    then have d: "distinct ids" "\<And>i. i \<in> set ids \<Longrightarrow> \<exists>s. storeGet i st = Some s \<and> hs_agentId s = a" using assms by (auto simp: store_ok_def)
    have "activeIds a st = set (filter ?p ids)" using assms Some d(2) by (fastforce simp: activeIds_def store_ok_def split: option.splits)
    then show ?thesis using Some distinct_card [OF distinct_filter [OF d(1)], of ?p] by (simp add: activeCountForAgent_def)
  qed
  then show "activeCountForAgent a st = card (activeIds a st)" "finite (activeIds a st)" by blast+
qed

text \<open>The sweep, session by session.\<close>

definition expired :: "HandshakeConfig \<Rightarrow> ms \<Rightarrow> HandshakeSession \<Rightarrow> HandshakeSession" where
  "expired cfg now s = (if isActive s \<and> hc_sessionTimeoutMs cfg < now - hs_updatedAtMs s
     then s\<lparr> hs_phase := Hs_expired, hs_failureReason := Some ''session_timeout'', hs_updatedAtMs := now \<rparr> else s)"

lemma expired_simps [simp]: "hs_sessionId (expired cfg now s) = hs_sessionId s" "hs_agentId (expired cfg now s) = hs_agentId s"
  by (simp_all add: expired_def)

lemma sweepSession_get:
  "storeGet (hs_sessionId x) st = Some x \<Longrightarrow> storeGet i (sweepSession cfg now st x) = (if i = hs_sessionId x then Some (expired cfg now x) else storeGet i st)"
  by (auto simp: sweepSession_def expired_def storeGet_set)

lemma sweepSession_ok: "store_ok st \<Longrightarrow> storeGet (hs_sessionId x) st = Some x \<Longrightarrow> store_ok (sweepSession cfg now st x)"
  by (auto simp: sweepSession_def intro!: storeSet_ok)

lemma sweep_fold:
  assumes "distinct (map hs_sessionId xs)" and "store_ok st" and "\<And>x. x \<in> set xs \<Longrightarrow> storeGet (hs_sessionId x) st = Some x"
  shows "store_ok (foldl (sweepSession cfg now) st xs) \<and>
    storeGet i (foldl (sweepSession cfg now) st xs) =
      (if i \<in> hs_sessionId ` set xs then map_option (expired cfg now) (storeGet i st) else storeGet i st)"
  using assms
proof (induction xs arbitrary: st)
  case (Cons x xs)
  have x: "storeGet (hs_sessionId x) st = Some x" using Cons.prems(3) by simp
  let ?st = "sweepSession cfg now st x"
  have "storeGet (hs_sessionId y) ?st = Some y" if "y \<in> set xs" for y
  proof -
    have "hs_sessionId y \<noteq> hs_sessionId x" using that Cons.prems(1) by (metis distinct.simps(2) image_eqI list.simps(9) list.set_map)
    then show ?thesis using that Cons.prems(3) by (simp add: sweepSession_get [OF x])
  qed
  then have "store_ok (foldl (sweepSession cfg now) ?st xs) \<and> storeGet i (foldl (sweepSession cfg now) ?st xs) =
      (if i \<in> hs_sessionId ` set xs then map_option (expired cfg now) (storeGet i ?st) else storeGet i ?st)"
    using Cons.IH [of ?st] Cons.prems(1,2) sweepSession_ok [OF _ x] by simp
  then show ?case using x Cons.prems(1) by (auto simp: sweepSession_get [OF x])
qed simp

lemma sweep_get:
  assumes "store_ok st"
  shows "store_ok (sweepSessions cfg now st)" "storeGet i (sweepSessions cfg now st) = map_option (expired cfg now) (storeGet i st)"
proof -
  let ?xs = "jsm_values (st_sessions st)"
  have wf: "distinct (map fst (st_sessions st))" using assms by (simp add: store_ok_def jsm_wf_def)
  have key: "hs_sessionId (snd p) = fst p" if "p \<in> set (st_sessions st)" for p
    by (rule store_session [OF assms]) (use that wf in \<open>simp add: storeGet_def jsm_get_def\<close>)
  have m: "map hs_sessionId ?xs = map fst (st_sessions st)" using key by (simp add: jsm_values_def)
  have g: "storeGet (hs_sessionId x) st = Some x" if x: "x \<in> set ?xs" for x
  proof -
    obtain p where "p \<in> set (st_sessions st)" "x = snd p" using x by (auto simp: jsm_values_def)
    moreover from this(1) have "map_of (st_sessions st) (fst p) = Some (snd p)" using wf by simp
    ultimately show ?thesis using key [of p] by (simp add: storeGet_def jsm_get_def)
  qed
  have "storeGet i st = None" if "i \<notin> hs_sessionId ` set ?xs"
  proof -
    have "i \<notin> fst ` set (st_sessions st)" using that m by (metis list.set_map)
    then show ?thesis by (simp add: storeGet_def jsm_get_def map_of_eq_None_iff)
  qed
  moreover have "store_ok (sweepSessions cfg now st) \<and> storeGet i (sweepSessions cfg now st) =
      (if i \<in> hs_sessionId ` set ?xs then map_option (expired cfg now) (storeGet i st) else storeGet i st)"
    unfolding sweepSessions_def by (rule sweep_fold [OF _ assms g]) (use m wf in simp_all)
  ultimately show "store_ok (sweepSessions cfg now st)" "storeGet i (sweepSessions cfg now st) = map_option (expired cfg now) (storeGet i st)"
    by auto
qed

section \<open>The life of a session\<close>

text \<open>The store, and the sessions for which the cloud model is at work.\<close>

record Handshaking =
  hk_store :: SessionStore
  hk_running :: "HandshakeSession list"

inductive hs_step :: "crypto \<Rightarrow> (string \<Rightarrow> int option) \<Rightarrow> HandshakeConfig \<Rightarrow> (CloudModelRequest \<Rightarrow> string + CloudModelResponse) \<Rightarrow>
    Handshaking \<Rightarrow> Handshaking \<Rightarrow> bool" for cr toNumber cfg cloud where
  hs_review: "storeGet uuid (hk_store h) = None \<Longrightarrow>
    hs_step cr toNumber cfg cloud h (h\<lparr> hk_store := fst (reviewRoute cr toNumber cfg now uuid req body (hk_store h)) \<rparr>)"
| hs_negotiate: "negotiateRoute cr toNumber cfg now req choice (hk_store h) = (st, r, started) \<Longrightarrow>
    hs_step cr toNumber cfg cloud h (h\<lparr> hk_store := st, hk_running := hk_running h @ (case started of None \<Rightarrow> [] | Some s \<Rightarrow> [s]) \<rparr>)"
| hs_cloud: "s \<in> set (hk_running h) \<Longrightarrow>
    hs_step cr toNumber cfg cloud h (h\<lparr> hk_store := cloudDone (hs_sessionId s) (cloud (cloudRequest s)) now (hk_store h),
      hk_running := remove1 s (hk_running h) \<rparr>)"
| hs_sweep: "hs_step cr toNumber cfg cloud h (h\<lparr> hk_store := sweepSessions cfg now (hk_store h) \<rparr>)"

definition hs_start :: Handshaking where
  "hs_start = \<lparr> hk_store = \<lparr> st_sessions = [], st_byAgent = [] \<rparr>, hk_running = [] \<rparr>"

text \<open>What a session keeps, and how it may move in one step.\<close>

definition same_session :: "HandshakeSession \<Rightarrow> HandshakeSession \<Rightarrow> bool" where
  "same_session s s' = (hs_sessionId s' = hs_sessionId s \<and> hs_agentId s' = hs_agentId s \<and> cloudRequest s' = cloudRequest s \<and>
     hs_createdAtMs s' = hs_createdAtMs s)"

definition moves :: "(CloudModelRequest \<Rightarrow> string + CloudModelResponse) \<Rightarrow> HandshakeSession \<Rightarrow> HandshakeSession \<Rightarrow> bool" where
  "moves cloud s s' = (same_session s s' \<and>
     (s' = s \<or>
      (isActive s \<and> (hs_phase s' = Hs_expired \<or> hs_phase s' = Hs_failed)) \<or>
      (hs_phase s = Hs_handshake \<and> hs_phase s' = Hs_execute) \<or>
      (hs_phase s = Hs_execute \<and> hs_phase s' = Hs_result \<and> (\<exists>r. cloud (cloudRequest s) = Inr r \<and> hs_cloudResponse s' = Some r))))"

lemma moves_refl [simp]: "moves cloud s s"
  by (simp add: moves_def same_session_def)

lemma same_session_upd [simp]:
  "same_session s (s\<lparr> hs_phase := p, hs_failureReason := f, hs_updatedAtMs := t \<rparr>)"
  "same_session s (s\<lparr> hs_phase := p, hs_updatedAtMs := t \<rparr>)"
  "same_session s (s\<lparr> hs_updatedAtMs := t, hs_phase := p \<rparr>)"
  "same_session s (s\<lparr> hs_cloudResponse := c, hs_phase := p, hs_updatedAtMs := t \<rparr>)"
  by (simp_all add: same_session_def cloudRequest_def)

lemma moves_expired: "moves cloud s (expired cfg now s)"
  by (auto simp: expired_def moves_def same_session_def cloudRequest_def)

text \<open>A store moves: its sessions stay, each moving at most one step, apart from a new one.\<close>

definition store_moves :: "(CloudModelRequest \<Rightarrow> string + CloudModelResponse) \<Rightarrow> SessionStore \<Rightarrow> SessionStore \<Rightarrow> bool" where
  "store_moves cloud st st' = (\<forall>i s. storeGet i st = Some s \<longrightarrow> (\<exists>s'. storeGet i st' = Some s' \<and> moves cloud s s'))"

lemma store_moves_refl [simp]: "store_moves cloud st st"
  by (auto simp: store_moves_def)

lemma store_moves_set:
  "storeGet (hs_sessionId s') st = Some s \<Longrightarrow> moves cloud s s' \<Longrightarrow> store_moves cloud st (storeSet s' st)"
  by (auto simp: store_moves_def storeGet_set)

lemma storeSet_twice:
  "hs_sessionId s' = hs_sessionId s \<Longrightarrow> hs_agentId s' = hs_agentId s \<Longrightarrow> storeSet s' (storeSet s st) = storeSet s' st"
  by (simp add: storeSet_def Let_def jsm_get_set jsm_set_def nullish_def jss_add_def jsm_get_def update_conv')

definition rejected :: "ms \<Rightarrow> HandshakeSession \<Rightarrow> HandshakeSession" where
  "rejected now s = s\<lparr> hs_phase := Hs_failed, hs_failureReason := Some ''agent_rejected'', hs_updatedAtMs := now \<rparr>"

definition accepted :: "ms \<Rightarrow> HandshakeSession \<Rightarrow> HandshakeSession" where
  "accepted now s = s\<lparr> hs_updatedAtMs := now, hs_phase := Hs_execute \<rparr>"

lemma answer_moves:
  "hs_phase s = Hs_handshake \<Longrightarrow> moves cloud s (rejected now s)" "hs_phase s = Hs_handshake \<Longrightarrow> moves cloud s (accepted now s)"
  "hs_sessionId (rejected now s) = hs_sessionId s" "hs_sessionId (accepted now s) = hs_sessionId s"
  by (auto simp: moves_def isActive_def rejected_def accepted_def)

text \<open>One answer to an agent: nothing happens, the session fails, or its execution starts.\<close>

lemma negotiate_cases:
  assumes "negotiateRoute cr toNumber cfg now req choice st = (st', r, started)"
  shows "(st' = st \<and> started = None) \<or>
    (\<exists>i s. storeGet i st = Some s \<and> hs_phase s = Hs_handshake \<and>
       ((st' = storeSet (rejected now s) st \<and> started = None) \<or> (st' = storeSet (accepted now s) st \<and> started = Some (accepted now s))))"
proof -
  have twice: "storeSet (s\<lparr> hs_updatedAtMs := now, hs_phase := Hs_execute \<rparr>) (storeSet (s\<lparr> hs_phase := Hs_negotiate, hs_updatedAtMs := now \<rparr>) st) =
      storeSet (accepted now s) st" for s
    unfolding accepted_def by (rule storeSet_twice) simp_all
  show ?thesis
    using assms unfolding negotiateRoute_def Let_def rejected_def [symmetric]
    by (auto simp: twice [simplified] accepted_def split: sum.splits option.splits prod.splits if_splits)
qed

text \<open>A review refuses, or adds one session of the verified agent, which had a place left.\<close>

lemma review_cases:
  "fst (reviewRoute cr toNumber cfg now uuid req body st) = st \<or>
   (\<exists>s. fst (reviewRoute cr toNumber cfg now uuid req body st) = storeSet s st \<and> hs_sessionId s = uuid \<and> hs_phase s = Hs_handshake \<and>
      activeCountForAgent (hs_agentId s) st < hc_maxSessionsPerAgent cfg)"
  by (auto simp: reviewRoute_def not_le split: sum.splits option.splits)

text \<open>An answer of the cloud model that comes too late changes nothing.\<close>

lemma cloudDone_cases:
  assumes "store_ok st" and "\<And>s. storeGet i st = Some s \<Longrightarrow> cloudRequest s = q"
  obtains "cloudDone i (cloud q) now st = st"
  | s s' where "storeGet (hs_sessionId s') st = Some s" "moves cloud s s'" "hs_phase s = Hs_execute" "\<not> isActive s'" "cloudDone i (cloud q) now st = storeSet s' st"
proof (cases "\<exists>s. storeGet i st = Some s \<and> hs_phase s = Hs_execute")
  case True
  then obtain s where s: "storeGet i st = Some s" "hs_phase s = Hs_execute" by blast
  note i = store_session [OF assms(1) s(1)] and q = assms(2) [OF s(1)]
  show ?thesis
  proof (cases "cloud q")
    case (Inl err)
    then show ?thesis using s i
      by (intro that(2) [of "s\<lparr> hs_phase := Hs_failed, hs_failureReason := Some (''cloud_model_error: '' @ err), hs_updatedAtMs := now \<rparr>" s])
         (auto simp: cloudDone_def moves_def isActive_def)
  next
    case (Inr r)
    then show ?thesis using s i q
      by (intro that(2) [of "s\<lparr> hs_cloudResponse := Some r, hs_phase := Hs_result, hs_updatedAtMs := now \<rparr>" s])
         (auto simp: cloudDone_def moves_def isActive_def)
  qed
qed (auto simp: cloudDone_def split: option.splits intro: that(1))

definition hs_inv :: "HandshakeConfig \<Rightarrow> (CloudModelRequest \<Rightarrow> string + CloudModelResponse) \<Rightarrow> Handshaking \<Rightarrow> bool" where
  "hs_inv cfg cloud h = (store_ok (hk_store h) \<and>
     (\<forall>a. activeCountForAgent a (hk_store h) \<le> hc_maxSessionsPerAgent cfg) \<and>
     (\<forall>i s. storeGet i (hk_store h) = Some s \<and> hs_phase s = Hs_result \<longrightarrow> (\<exists>r. hs_cloudResponse s = Some r \<and> cloud (cloudRequest s) = Inr r)) \<and>
     (\<forall>s \<in> set (hk_running h). \<forall>c. storeGet (hs_sessionId s) (hk_store h) = Some c \<longrightarrow> cloudRequest c = cloudRequest s) \<and>
     (\<forall>s \<in> set (hk_running h). storeGet (hs_sessionId s) (hk_store h) \<noteq> None))"

lemma hs_invD:
  assumes "hs_inv cfg cloud h"
  shows "store_ok (hk_store h)" "activeCountForAgent a (hk_store h) \<le> hc_maxSessionsPerAgent cfg"
    "storeGet i (hk_store h) = Some s \<Longrightarrow> hs_phase s = Hs_result \<Longrightarrow> \<exists>r. hs_cloudResponse s = Some r \<and> cloud (cloudRequest s) = Inr r"
    "t \<in> set (hk_running h) \<Longrightarrow> storeGet (hs_sessionId t) (hk_store h) = Some c \<Longrightarrow> cloudRequest c = cloudRequest t"
    "t \<in> set (hk_running h) \<Longrightarrow> storeGet (hs_sessionId t) (hk_store h) \<noteq> None"
  using assms unfolding hs_inv_def by blast+

lemma moves_active: "moves cloud s s' \<Longrightarrow> isActive s' \<Longrightarrow> isActive s"
  by (auto simp: moves_def isActive_def)

lemma count_le:
  assumes "store_ok st" and "store_ok st'" and "store_moves cloud st st'"
    and "\<And>i s'. storeGet i st' = Some s' \<Longrightarrow> storeGet i st \<noteq> None"
  shows "activeCountForAgent a st' \<le> activeCountForAgent a st"
proof -
  have "activeIds a st' \<subseteq> activeIds a st"
  proof
    fix i assume "i \<in> activeIds a st'"
    then obtain s' where s': "storeGet i st' = Some s'" "hs_agentId s' = a" "isActive s'" by (auto simp: activeIds_def)
    then obtain s where s: "storeGet i st = Some s" using assms(4) by blast
    then have "moves cloud s s'" using assms(3) s'(1) unfolding store_moves_def by force
    then show "i \<in> activeIds a st" using s s' moves_active by (auto simp: activeIds_def moves_def same_session_def)
  qed
  then show ?thesis using activeCount_card [OF assms(1)] activeCount_card [OF assms(2)] by (simp add: card_mono)
qed

text \<open>The invariant survives when existing sessions move, and running executions stay those of the sessions.\<close>

lemma inv_moves:
  assumes "hs_inv cfg cloud h" and "store_ok st'" and "store_moves cloud (hk_store h) st'"
    and "\<And>i s'. storeGet i st' = Some s' \<Longrightarrow> storeGet i (hk_store h) \<noteq> None"
    and "\<And>s. s \<in> set rs \<Longrightarrow> s \<in> set (hk_running h) \<or> (storeGet (hs_sessionId s) st' = Some s)"
  shows "hs_inv cfg cloud \<lparr> hk_store = st', hk_running = rs \<rparr>"
proof -
  have ok: "store_ok (hk_store h)" using assms(1) by (simp add: hs_inv_def)
  have mv: "\<exists>s. storeGet i (hk_store h) = Some s \<and> moves cloud s s'" if "storeGet i st' = Some s'" for i s'
    using assms(3) assms(4) [OF that] that unfolding store_moves_def by force
  have "\<exists>r. hs_cloudResponse s' = Some r \<and> cloud (cloudRequest s') = Inr r" if s': "storeGet i st' = Some s'" "hs_phase s' = Hs_result" for i s'
  proof -
    obtain s where s: "storeGet i (hk_store h) = Some s" "moves cloud s s'" using mv [OF s'(1)] by blast
    show ?thesis using s(2) s'(2) hs_invD(3) [OF assms(1) s(1)] by (auto simp: moves_def same_session_def)
  qed
  moreover have "activeCountForAgent a st' \<le> hc_maxSessionsPerAgent cfg" for a
    by (rule le_trans [OF count_le [OF ok assms(2,3) assms(4)] hs_invD(2) [OF assms(1)]])
  moreover have "cloudRequest c = cloudRequest s" if c: "s \<in> set rs" "storeGet (hs_sessionId s) st' = Some c" for s c
    using assms(5) [OF c(1)]
  proof
    assume run: "s \<in> set (hk_running h)"
    obtain s0 where s0: "storeGet (hs_sessionId s) (hk_store h) = Some s0" "moves cloud s0 c" using mv [OF c(2)] by blast
    show ?thesis using s0(2) hs_invD(4) [OF assms(1) run s0(1)] by (simp add: moves_def same_session_def)
  qed (use c in simp)
  moreover have "storeGet (hs_sessionId s) st' \<noteq> None" if "s \<in> set rs" for s
    using assms(5) [OF that] hs_invD(5) [OF assms(1), of s] assms(3) unfolding store_moves_def by force
  ultimately show ?thesis using assms(2) unfolding hs_inv_def by auto
qed


lemma set_inv:
  assumes "hs_inv cfg cloud h" and "storeGet (hs_sessionId s') (hk_store h) = Some s" and "moves cloud s s'"
    and "\<And>t. t \<in> set rs \<Longrightarrow> t \<in> set (hk_running h) \<or> t = s'"
  shows "hs_inv cfg cloud \<lparr> hk_store = storeSet s' (hk_store h), hk_running = rs \<rparr>" "store_moves cloud (hk_store h) (storeSet s' (hk_store h))"
proof -
  show m: "store_moves cloud (hk_store h) (storeSet s' (hk_store h))" using store_moves_set [OF assms(2,3)] .
  have ok: "store_ok (storeSet s' (hk_store h))"
    using storeSet_ok [OF hs_invD(1) [OF assms(1)], of s'] assms(2,3) by (simp add: moves_def same_session_def)
  show "hs_inv cfg cloud \<lparr> hk_store = storeSet s' (hk_store h), hk_running = rs \<rparr>"
    by (rule inv_moves [OF assms(1) ok m]) (use assms(2,4) in \<open>auto simp: storeGet_set split: if_splits\<close>)
qed

lemma review_inv:
  assumes "hs_inv cfg cloud h" and "storeGet (hs_sessionId s) (hk_store h) = None" and "hs_phase s = Hs_handshake"
    and "activeCountForAgent (hs_agentId s) (hk_store h) < hc_maxSessionsPerAgent cfg"
  shows "hs_inv cfg cloud (h\<lparr> hk_store := storeSet s (hk_store h) \<rparr>)" "store_moves cloud (hk_store h) (storeSet s (hk_store h))"
proof -
  note ok = hs_invD(1) [OF assms(1)]
  have ok': "store_ok (storeSet s (hk_store h))" using storeSet_ok [OF ok, of s] assms(2) by simp
  have ids: "activeIds a (storeSet s (hk_store h)) \<subseteq> (if a = hs_agentId s then insert (hs_sessionId s) (activeIds a (hk_store h)) else activeIds a (hk_store h))" for a
    by (auto simp: activeIds_def storeGet_set split: if_splits)
  have "activeCountForAgent a (storeSet s (hk_store h)) \<le> hc_maxSessionsPerAgent cfg" for a
  proof (cases "a = hs_agentId s")
    case True
    then have "card (activeIds a (storeSet s (hk_store h))) \<le> card (insert (hs_sessionId s) (activeIds a (hk_store h)))"
      using ids [of a] activeCount_card(2) [OF ok] by (intro card_mono) auto
    also have "\<dots> \<le> Suc (card (activeIds a (hk_store h)))" by (simp add: card_insert_if activeCount_card(2) [OF ok])
    finally show ?thesis using True assms(4) activeCount_card(1) [OF ok] activeCount_card(1) [OF ok'] by simp
  next
    case False
    then have "card (activeIds a (storeSet s (hk_store h))) \<le> card (activeIds a (hk_store h))"
      using ids [of a] activeCount_card(2) [OF ok] by (intro card_mono) auto
    then show ?thesis using hs_invD(2) [OF assms(1), of a] activeCount_card(1) [OF ok] activeCount_card(1) [OF ok'] by simp
  qed
  moreover have "\<exists>r. hs_cloudResponse s' = Some r \<and> cloud (cloudRequest s') = Inr r"
    if "storeGet i (storeSet s (hk_store h)) = Some s'" "hs_phase s' = Hs_result" for i s'
    using that hs_invD(3) [OF assms(1)] assms(3) by (auto simp: storeGet_set split: if_splits)
  moreover have "storeGet (hs_sessionId t) (storeSet s (hk_store h)) = storeGet (hs_sessionId t) (hk_store h)" if "t \<in> set (hk_running h)" for t
    using hs_invD(5) [OF assms(1) that] assms(2) by (auto simp: storeGet_set)
  ultimately show "hs_inv cfg cloud (h\<lparr> hk_store := storeSet s (hk_store h) \<rparr>)"
    using ok' hs_invD(4,5) [OF assms(1)] unfolding hs_inv_def by auto
  show "store_moves cloud (hk_store h) (storeSet s (hk_store h))" using assms(2) by (auto simp: store_moves_def storeGet_set)
qed

lemma hs_step_inv:
  assumes "hs_step cr toNumber cfg cloud h h'" and "hs_inv cfg cloud h"
  shows "hs_inv cfg cloud h' \<and> store_moves cloud (hk_store h) (hk_store h')"
  using assms(1)
proof (cases rule: hs_step.cases)
  case (hs_review uuid now req body)
  show ?thesis
    using review_cases [of cr toNumber cfg now uuid req body "hk_store h"] review_inv [OF assms(2)] hs_review assms(2) by auto
next
  case (hs_negotiate now req choice st r started)
  show ?thesis
    using negotiate_cases [OF hs_negotiate(2)]
  proof (elim disjE exE conjE)
    fix i s
    assume s: "storeGet i (hk_store h) = Some s" "hs_phase s = Hs_handshake" and st: "st = storeSet (rejected now s) (hk_store h)" "started = None"
    have "storeGet (hs_sessionId (rejected now s)) (hk_store h) = Some s" using s(1) store_session [OF hs_invD(1) [OF assms(2)] s(1)] by (simp add: answer_moves)
    then show ?thesis using set_inv [OF assms(2) _ answer_moves(1) [OF s(2)], where rs = "hk_running h"] hs_negotiate(1) st by (cases h) simp
  next
    fix i s
    assume s: "storeGet i (hk_store h) = Some s" "hs_phase s = Hs_handshake" and st: "st = storeSet (accepted now s) (hk_store h)" "started = Some (accepted now s)"
    have "storeGet (hs_sessionId (accepted now s)) (hk_store h) = Some s" using s(1) store_session [OF hs_invD(1) [OF assms(2)] s(1)] by (simp add: answer_moves)
    then have "hs_inv cfg cloud \<lparr> hk_store = storeSet (accepted now s) (hk_store h), hk_running = hk_running h @ [accepted now s] \<rparr>"
        "store_moves cloud (hk_store h) (storeSet (accepted now s) (hk_store h))"
      by (rule set_inv [OF assms(2) _ answer_moves(2) [OF s(2)]]; auto)+
    then show ?thesis using hs_negotiate(1) st by (cases h) simp
  qed (use hs_negotiate assms(2) in simp)
next
  case (hs_cloud s now)
  have q: "storeGet (hs_sessionId s) (hk_store h) = Some c \<Longrightarrow> cloudRequest c = cloudRequest s" for c
    using hs_invD(4) [OF assms(2) hs_cloud(2)] .
  have sub: "t \<in> set (remove1 s (hk_running h)) \<Longrightarrow> t \<in> set (hk_running h) \<or> t = s'" for t s' by (meson notin_set_remove1)
  show ?thesis
  proof (rule cloudDone_cases [OF hs_invD(1) [OF assms(2)] q, where now = now])
    assume "cloudDone (hs_sessionId s) (cloud (cloudRequest s)) now (hk_store h) = hk_store h"
    moreover have "hs_inv cfg cloud \<lparr> hk_store = hk_store h, hk_running = remove1 s (hk_running h) \<rparr>"
      by (rule inv_moves [OF assms(2) hs_invD(1) [OF assms(2)] store_moves_refl]) (simp, meson notin_set_remove1)
    ultimately show ?thesis using hs_cloud(1) by (cases h) simp
  next
    fix c s'
    assume "storeGet (hs_sessionId s') (hk_store h) = Some c" "moves cloud c s'"
      and st: "cloudDone (hs_sessionId s) (cloud (cloudRequest s)) now (hk_store h) = storeSet s' (hk_store h)"
    from set_inv [OF assms(2) this(1,2) sub] show ?thesis using hs_cloud(1) st by (cases h) simp
  qed
next
  case (hs_sweep now)
  note sw = sweep_get [OF hs_invD(1) [OF assms(2)], where cfg = cfg and now = now]
  have m: "store_moves cloud (hk_store h) (sweepSessions cfg now (hk_store h))" using moves_expired by (auto simp: store_moves_def sw(2))
  then show ?thesis using inv_moves [OF assms(2) sw(1) m, of "hk_running h"] hs_sweep sw(2) m by (cases h) auto
qed


lemma hs_start_inv: "hs_inv cfg cloud hs_start"
  by (simp add: hs_inv_def hs_start_def store_ok_def storeGet_def activeCountForAgent_def)

lemma hs_reach_inv: "(hs_step cr toNumber cfg cloud)\<^sup>*\<^sup>* hs_start h \<Longrightarrow> hs_inv cfg cloud h"
proof (induction rule: rtranclp_induct)
  case base
  show ?case by (rule hs_start_inv)
next
  case (step y z)
  then show ?case using hs_step_inv by blast
qed

definition phaseRank :: "HandshakePhase \<Rightarrow> nat" where
  "phaseRank p = (case p of Hs_handshake \<Rightarrow> 0 | Hs_negotiate \<Rightarrow> 1 | Hs_execute \<Rightarrow> 2 | _ \<Rightarrow> 3)"

text \<open>
  C13: A session only moves forward. Whatever requests, answers of the cloud model and sweeps follow, a session stays in the store with its owner,
  its task and its time of creation; its phase never goes back; and a session that has its result, has failed or has
  expired never changes again.
\<close>

theorem sessions_move_forward:
  assumes "(hs_step cr toNumber cfg cloud)\<^sup>*\<^sup>* hs_start h" and "(hs_step cr toNumber cfg cloud)\<^sup>*\<^sup>* h h'" and "storeGet i (hk_store h) = Some s"
  shows "\<exists>s'. storeGet i (hk_store h') = Some s' \<and> same_session s s' \<and> phaseRank (hs_phase s) \<le> phaseRank (hs_phase s') \<and> (isActive s \<or> s' = s)"
  using assms(2,1,3)
proof (induction rule: rtranclp_induct)
  case base
  then show ?case by (auto simp: same_session_def)
next
  case (step y z)
  then obtain s' where s': "storeGet i (hk_store y) = Some s'" "same_session s s'" "phaseRank (hs_phase s) \<le> phaseRank (hs_phase s')" "isActive s \<or> s' = s" by blast
  have "hs_inv cfg cloud y" using hs_reach_inv rtranclp_trans [OF step.prems(1) step.hyps(1)] by blast
  then obtain s2 where s2: "storeGet i (hk_store z) = Some s2" "moves cloud s' s2" using hs_step_inv [OF step.hyps(2)] s'(1) unfolding store_moves_def by blast
  have "same_session s s2" "phaseRank (hs_phase s') \<le> phaseRank (hs_phase s2)" "isActive s' \<or> s2 = s'"
    using s2(2) s'(2) by (auto simp: moves_def same_session_def phaseRank_def isActive_def split: HandshakePhase.splits)
  then show ?case using s2(1) s'(3,4) by auto
qed

text \<open>The sessions themselves, counted without the index.\<close>

lemma active_sessions_card:
  assumes "store_ok st"
  shows "length (filter (\<lambda>s. hs_agentId s = a \<and> isActive s) (jsm_values (st_sessions st))) = card (activeIds a st)"
proof -
  let ?P = "\<lambda>p :: string \<times> HandshakeSession. hs_agentId (snd p) = a \<and> isActive (snd p)"
  let ?l = "filter ?P (st_sessions st)"
  have wf: "jsm_wf (st_sessions st)" using assms by (simp add: store_ok_def)
  have "set (map fst ?l) = activeIds a st"
    by (force simp: activeIds_def storeGet_def jsm_get_iff [OF wf])
  moreover have "distinct (map fst ?l)" using wf by (simp add: jsm_wf_def distinct_map_filter)
  ultimately have "length ?l = card (activeIds a st)" using distinct_card by fastforce
  then show ?thesis by (simp add: jsm_values_def filter_map comp_def)
qed

text \<open>
  C29: An agent never has more than the allowed number of sessions in progress: of the sessions in the store, those of the agent that are
  neither expired nor failed nor answered are at most \<open>maxSessionsPerAgent\<close>.
\<close>

theorem active_sessions_bounded:
  assumes "(hs_step cr toNumber cfg cloud)\<^sup>*\<^sup>* hs_start h"
  shows "length (filter (\<lambda>s. hs_agentId s = a \<and> hs_phase s \<noteq> Hs_expired \<and> hs_phase s \<noteq> Hs_failed \<and> hs_phase s \<noteq> Hs_result)
    (jsm_values (st_sessions (hk_store h)))) \<le> hc_maxSessionsPerAgent cfg"
proof -
  note inv = hs_reach_inv [OF assms]
  have ok: "store_ok (hk_store h)" using hs_invD(1) [OF inv] .
  show ?thesis
    using hs_invD(2) [OF inv, of a] activeCount_card(1) [OF ok, of a] active_sessions_card [OF ok, of a] by (simp add: isActive_def)
qed

lemma verifyAgent_agent: "verifyAgent cr toNumber cfg m p now req = Inr a \<Longrightarrow> header req ''x-agent-id'' = Some a"
  by (auto simp: verifyAgent_def Let_def truthy_str_def split: if_splits option.splits sum.splits)

text \<open>
  The answer to \<open>GET /result/:id\<close> is what the cloud model said to the request of that very session, and only the agent that owns
  the session gets it.
\<close>

theorem result_is_the_owners:
  assumes "(hs_step cr toNumber cfg cloud)\<^sup>*\<^sup>* hs_start h" and "resultRoute cr toNumber cfg now i req (hk_store h) = Hs_answer sid answer"
  shows "\<exists>s r. storeGet i (hk_store h) = Some s \<and> sid = i \<and> header req ''x-agent-id'' = Some (hs_agentId s) \<and>
     answer = Some r \<and> cloud (cloudRequest s) = Inr r"
proof -
  note inv = hs_reach_inv [OF assms(1)]
  obtain a where a: "verifyAgent cr toNumber cfg ''GET'' (''/result/'' @ i) now req = Inr a"
    using assms(2) by (auto simp: resultRoute_def verifyAgent_def Let_def split: if_splits option.splits sum.splits)
  then obtain s where s: "storeGet i (hk_store h) = Some s" "hs_agentId s = a" "hs_phase s = Hs_result" "sid = hs_sessionId s" "answer = hs_cloudResponse s"
    using assms(2) by (auto simp: resultRoute_def ownSession_def split: option.splits if_splits)
  then show ?thesis using hs_invD(3) [OF inv s(1,3)] store_session [OF hs_invD(1) [OF inv] s(1)] verifyAgent_agent [OF a] by auto
qed

text \<open>
  The service refuses every review its own client sends. The client names no agent and signs nothing, so that the route answers 401 before
  it looks at the body, and no session is created.
\<close>

theorem client_review_refused:
  "reviewRoute cr toNumber cfg now uuid (cloudReviewRequest token text) body st = (st, Hs_error 401 ''missing_agent_id'')"
  by (simp add: reviewRoute_def verifyAgent_def header_def cloudReviewRequest_def truthy_str_def)

text \<open>A signed request is not remembered: the same one sent twice makes two sessions.\<close>

lemma replayed_review_accepted:
  assumes "reviewRoute cr toNumber cfg now u req body st = (st', Hs_created u Hs_handshake)"
    and "\<And>a. activeCountForAgent a st' < hc_maxSessionsPerAgent cfg"
  shows "snd (reviewRoute cr toNumber cfg now v req body st') = Hs_created v Hs_handshake"
  using assms(1) assms(2) [unfolded not_le [symmetric]]
  by (auto simp: reviewRoute_def verifyAgent_def Let_def split: sum.splits if_splits option.splits)

text \<open>After a sweep no session in progress is older than the timeout.\<close>

lemma sweep_expires:
  "store_ok st \<Longrightarrow> storeGet i (sweepSessions cfg now st) = Some s \<Longrightarrow> isActive s \<Longrightarrow> now - hs_updatedAtMs s \<le> hc_sessionTimeoutMs cfg"
proof -
  assume a: "store_ok st" "storeGet i (sweepSessions cfg now st) = Some s" "isActive s"
  then obtain s0 where "s = expired cfg now s0" by (auto simp: sweep_get(2))
  then show ?thesis using a(3) by (auto simp: expired_def isActive_def split: if_splits)
qed


text \<open>One agent, one key, one review that is accepted and answered.\<close>

definition ex_hs_crypto :: crypto where
  "ex_hs_crypto = \<lparr> sha256_hex = (\<lambda>_. ''h''), ed_sign = (\<lambda>_ _. ''s''), ed_verify = (\<lambda>_ s _. Some (s = ''s'')) \<rparr>"

definition ex_hs_config :: HandshakeConfig where
  "ex_hs_config = defaultHandshakeConfig (\<lambda>a. if a = ''a'' then Some ''k'' else None)"

definition ex_hs_request :: HandshakeRequest where
  "ex_hs_request = \<lparr> hq_headers = [(''x-agent-id'', ''a''), (''x-timestamp-ms'', ''0''), (''x-nonce'', ''n''), (''x-body-sha256'', ''h''), (''x-signature'', ''s'')], hq_body = [] \<rparr>"

definition ex_hs_body :: ReviewBody where
  "ex_hs_body = \<lparr> rb_task = ''t'', rb_snippet = None, rb_error = None, rb_queueReason = Manual \<rparr>"

definition ex_hs_cloud :: "CloudModelRequest \<Rightarrow> string + CloudModelResponse" where
  "ex_hs_cloud q = Inr \<lparr> cm_revisedPlan = None, cm_codeDiff = None, cm_improvedCode = Some (cq_task q), cm_notes = None \<rparr>"

definition ex_hs_reviewed :: Handshaking where
  "ex_hs_reviewed = hs_start\<lparr> hk_store := fst (reviewRoute ex_hs_crypto (\<lambda>_. Some 0) ex_hs_config 0 ''u'' ex_hs_request (Some ex_hs_body) (hk_store hs_start)) \<rparr>"

definition ex_hs_negotiated :: Handshaking where
  "ex_hs_negotiated = (case negotiateRoute ex_hs_crypto (\<lambda>_. Some 0) ex_hs_config 1 ex_hs_request (Some (''u'', True)) (hk_store ex_hs_reviewed) of
     (st, r, started) \<Rightarrow> ex_hs_reviewed\<lparr> hk_store := st, hk_running := hk_running ex_hs_reviewed @ (case started of None \<Rightarrow> [] | Some s \<Rightarrow> [s]) \<rparr>)"

definition ex_hs_done :: Handshaking where
  "ex_hs_done = (let s = hd (hk_running ex_hs_negotiated) in ex_hs_negotiated\<lparr> hk_store := cloudDone (hs_sessionId s) (ex_hs_cloud (cloudRequest s)) 2 (hk_store ex_hs_negotiated),
      hk_running := remove1 s (hk_running ex_hs_negotiated) \<rparr>)"

lemma ex_hs_path:
  "(hs_step ex_hs_crypto (\<lambda>_. Some 0) ex_hs_config ex_hs_cloud)\<^sup>*\<^sup>* hs_start ex_hs_reviewed"
  "(hs_step ex_hs_crypto (\<lambda>_. Some 0) ex_hs_config ex_hs_cloud)\<^sup>*\<^sup>* ex_hs_reviewed ex_hs_done"
proof -
  let ?s = "hs_step ex_hs_crypto (\<lambda>_. Some 0) ex_hs_config ex_hs_cloud"
  have "storeGet ''u'' (hk_store hs_start) = None" by (simp add: hs_start_def storeGet_def)
  then show "?s\<^sup>*\<^sup>* hs_start ex_hs_reviewed" unfolding ex_hs_reviewed_def by (intro r_into_rtranclp hs_review)
  have "?s ex_hs_reviewed ex_hs_negotiated" unfolding ex_hs_negotiated_def by (auto split: prod.splits intro: hs_negotiate)
  moreover have "hd (hk_running ex_hs_negotiated) \<in> set (hk_running ex_hs_negotiated)" by code_simp
  then have "?s ex_hs_negotiated ex_hs_done" unfolding ex_hs_done_def Let_def by (rule hs_cloud)
  ultimately show "?s\<^sup>*\<^sup>* ex_hs_reviewed ex_hs_done" by auto
qed

theorem sessions_move_forward_witness:
  "\<exists>s'. storeGet ''u'' (hk_store ex_hs_done) = Some s' \<and> hs_agentId s' = ''a'' \<and> hs_task s' = ''t''"
proof -
  have g: "map_option (\<lambda>s. (hs_agentId s, hs_task s)) (storeGet ''u'' (hk_store ex_hs_reviewed)) = Some (''a'', ''t'')" by code_simp
  then obtain s where s: "storeGet ''u'' (hk_store ex_hs_reviewed) = Some s" "hs_agentId s = ''a''" "hs_task s = ''t''" by blast
  show ?thesis using sessions_move_forward [OF ex_hs_path s(1)] s(2,3) by (auto simp: same_session_def cloudRequest_def)
qed

theorem active_sessions_bounded_witness:
  "length (jsm_values (st_sessions (hk_store ex_hs_reviewed))) = 1 \<and>
   length (filter (\<lambda>s. hs_agentId s = ''a'' \<and> hs_phase s \<noteq> Hs_expired \<and> hs_phase s \<noteq> Hs_failed \<and> hs_phase s \<noteq> Hs_result)
     (jsm_values (st_sessions (hk_store ex_hs_reviewed)))) \<le> 5"
proof -
  have "length (jsm_values (st_sessions (hk_store ex_hs_reviewed))) = 1" by code_simp
  then show ?thesis using active_sessions_bounded [OF ex_hs_path(1), of "''a''"] by (simp add: ex_hs_config_def defaultHandshakeConfig_def)
qed

theorem result_is_the_owners_witness:
  "\<exists>s r. storeGet ''u'' (hk_store ex_hs_done) = Some s \<and> cm_improvedCode r = Some (hs_task s) \<and>
     resultRoute ex_hs_crypto (\<lambda>_. Some 0) ex_hs_config 0 ''u'' ex_hs_request (hk_store ex_hs_done) = Hs_answer ''u'' (Some r)"
proof -
  obtain answer where a: "resultRoute ex_hs_crypto (\<lambda>_. Some 0) ex_hs_config 0 ''u'' ex_hs_request (hk_store ex_hs_done) = Hs_answer ''u'' answer"
  proof -
    have "resultRoute ex_hs_crypto (\<lambda>_. Some 0) ex_hs_config 0 ''u'' ex_hs_request (hk_store ex_hs_done) =
        Hs_answer ''u'' (Some \<lparr> cm_revisedPlan = None, cm_codeDiff = None, cm_improvedCode = Some ''t'', cm_notes = None \<rparr>)" by code_simp
    then show ?thesis using that by blast
  qed
  have "(hs_step ex_hs_crypto (\<lambda>_. Some 0) ex_hs_config ex_hs_cloud)\<^sup>*\<^sup>* hs_start ex_hs_done" using ex_hs_path by auto
  from result_is_the_owners [OF this a] a show ?thesis by (auto simp: ex_hs_cloud_def cloudRequest_def)
qed

end
