(* ===== verification/IdeTools.thy ===== *)
theory IdeTools
  imports AgentLoop Federation
begin

text \<open>
  The tools an editor's agent may use in a project (\<open>src/src/apps/ide/tool-executor.ts\<close>, \<open>tool-types.ts\<close>): the resolution of paths below
  the project root, reading, listing, searching, writing and editing files, shell commands, \<open>git\<close> and GitHub. The file system is a map
  from absolute paths, lists of segments, to files, directories and symbolic links; \<open>git\<close>, \<open>grep\<close>, the shell and GitHub are arguments.
\<close>

section \<open>Paths\<close>

type_synonym path = "string list"

text \<open>\<open>.\<close> and empty segments are dropped, \<open>..\<close> leaves a directory; the first argument is the path so far, reversed.\<close>

fun normalizeSegments :: "path \<Rightarrow> string list \<Rightarrow> path" where
  "normalizeSegments acc [] = rev acc"
| "normalizeSegments acc (s # ss) =
     (if s = [] \<or> s = ''.'' then normalizeSegments acc ss
      else if s = ''..'' then normalizeSegments (tl acc) ss
      else normalizeSegments (s # acc) ss)"

definition slash :: char where
  "slash = CHR 47"

definition resolve_path :: "path \<Rightarrow> string \<Rightarrow> path" where
  "resolve_path base p = normalizeSegments (if starts_with p [slash] then [] else rev base) (split_on slash p)"

fun relativeSegments :: "path \<Rightarrow> path \<Rightarrow> string list" where
  "relativeSegments [] to = to"
| "relativeSegments fr [] = map (\<lambda>_. ''..'') fr"
| "relativeSegments (f # fr) (t # to) = (if f = t then relativeSegments fr to else map (\<lambda>_. ''..'') (f # fr) @ t # to)"

definition relative :: "path \<Rightarrow> path \<Rightarrow> string" where
  "relative fr to = join [slash] (relativeSegments fr to)"

definition path_text :: "path \<Rightarrow> string" where
  "path_text p = slash # join [slash] p"

section \<open>The file system\<close>

text \<open>A link holds its target: from the root, or from the directory the link is in.\<close>

datatype entry = File string | Dir | Link bool "string list"

type_synonym fs = "path \<Rightarrow> entry option"

text \<open>The path a file is really found at, and whether a path leads anywhere; more than forty links are an error.\<close>

function follow :: "nat \<Rightarrow> fs \<Rightarrow> path \<Rightarrow> string list \<Rightarrow> path option" where
  "follow n fs acc [] = Some acc"
| "follow n fs acc (s # ss) =
     (if s = [] \<or> s = ''.'' then follow n fs acc ss
      else if s = ''..'' then follow n fs (butlast acc) ss
      else (case fs (acc @ [s]) of
          None \<Rightarrow> None
        | Some Dir \<Rightarrow> follow n fs (acc @ [s]) ss
        | Some (File _) \<Rightarrow> if ss = [] then Some (acc @ [s]) else None
        | Some (Link absolute target) \<Rightarrow> if n = 0 then None else follow (n - 1) fs (if absolute then [] else acc) (target @ ss)))"
  by pat_completeness auto
termination by (relation "inv_image (less_than <*lex*> less_than) (\<lambda>(n, fs, acc, ss). (n, length ss))") auto

definition existsSync :: "fs \<Rightarrow> path \<Rightarrow> bool" where
  "existsSync fs p \<longleftrightarrow> follow 40 fs [] p \<noteq> None"

definition realpathSync :: "fs \<Rightarrow> path \<Rightarrow> path" where
  "realpathSync fs p = nullish (follow 40 fs [] p) p"

definition readFile :: "fs \<Rightarrow> path \<Rightarrow> string option" where
  "readFile fs p = Option.bind (follow 40 fs [] p) (\<lambda>q. case fs q of Some (File c) \<Rightarrow> Some c | _ \<Rightarrow> None)"

text \<open>Creating a file opens the last segment, through links, whether it exists or not; its directory has to exist.\<close>

function openForWriting :: "nat \<Rightarrow> fs \<Rightarrow> path \<Rightarrow> string list \<Rightarrow> path option" where
  "openForWriting n fs acc [] = None"
| "openForWriting n fs acc (s # ss) =
     (if s = [] \<or> s = ''.'' then openForWriting n fs acc ss
      else if s = ''..'' then openForWriting n fs (butlast acc) ss
      else (case fs (acc @ [s]) of
          None \<Rightarrow> if ss = [] then Some (acc @ [s]) else None
        | Some Dir \<Rightarrow> openForWriting n fs (acc @ [s]) ss
        | Some (File _) \<Rightarrow> if ss = [] then Some (acc @ [s]) else None
        | Some (Link absolute target) \<Rightarrow> if n = 0 then None else openForWriting (n - 1) fs (if absolute then [] else acc) (target @ ss)))"
  by pat_completeness auto
termination by (relation "inv_image (less_than <*lex*> less_than) (\<lambda>(n, fs, acc, ss). (n, length ss))") auto

definition writeFile :: "fs \<Rightarrow> path \<Rightarrow> string \<Rightarrow> fs option" where
  "writeFile fs p content = map_option (\<lambda>q. fs(q \<mapsto> File content)) (openForWriting 40 fs [] p)"

text \<open>\<open>mkdir\<close> with \<open>recursive\<close>: missing directories are made, also below the target of a link.\<close>

function mkdirRecursive :: "nat \<Rightarrow> fs \<Rightarrow> path \<Rightarrow> string list \<Rightarrow> fs option" where
  "mkdirRecursive n fs acc [] = Some fs"
| "mkdirRecursive n fs acc (s # ss) =
     (if s = [] \<or> s = ''.'' then mkdirRecursive n fs acc ss
      else if s = ''..'' then mkdirRecursive n fs (butlast acc) ss
      else (case fs (acc @ [s]) of
          None \<Rightarrow> mkdirRecursive n (fs(acc @ [s] \<mapsto> Dir)) (acc @ [s]) ss
        | Some Dir \<Rightarrow> mkdirRecursive n fs (acc @ [s]) ss
        | Some (File _) \<Rightarrow> None
        | Some (Link absolute target) \<Rightarrow>
            if n = 0 \<or> follow n fs (if absolute then [] else acc) target = None then None
            else mkdirRecursive (n - 1) fs (if absolute then [] else acc) (target @ ss)))"
  by pat_completeness auto
termination by (relation "inv_image (less_than <*lex*> less_than) (\<lambda>(n, fs, acc, ss). (n, length ss))") auto

section \<open>Arguments\<close>

text \<open>\<open>String(x)\<close> of a JSON value, \<open>String(args.x ?? d)\<close>, and the members read only when they have the right type.\<close>

fun js_String :: "json \<Rightarrow> string" where
  "js_String JNull = ''null''"
| "js_String (JBool b) = (if b then ''true'' else ''false'')"
| "js_String (JNum n) = int_str n"
| "js_String (JStr s) = s"
| "js_String (JArr xs) = join '','' (map (\<lambda>x. if x = JNull then [] else js_String x) xs)"
| "js_String (JObj ms) = ''[object Object]''"

definition argOr :: "json \<Rightarrow> string \<Rightarrow> string \<Rightarrow> string" where
  "argOr args k d = (case json_member args k of None \<Rightarrow> d | Some JNull \<Rightarrow> d | Some v \<Rightarrow> js_String v)"

definition argString :: "json \<Rightarrow> string \<Rightarrow> string \<Rightarrow> string" where
  "argString args k d = (case json_member args k of Some (JStr s) \<Rightarrow> s | _ \<Rightarrow> d)"

definition argNumber :: "json \<Rightarrow> string \<Rightarrow> int \<Rightarrow> int" where
  "argNumber args k d = (case json_member args k of Some (JNum n) \<Rightarrow> n | _ \<Rightarrow> d)"

definition argTrue :: "json \<Rightarrow> string \<Rightarrow> bool" where
  "argTrue args k \<longleftrightarrow> json_member args k = Some (JBool True)"

section \<open>Files\<close>

text \<open>\<open>Inl\<close> is the message of the thrown error, and the error of a tool; \<open>Inr\<close> its result.\<close>

type_synonym ToolResult = "string + string"

definition resolvePath :: "path \<Rightarrow> fs \<Rightarrow> string \<Rightarrow> string + path" where
  "resolvePath base fs relativePath =
     (let target = resolve_path base relativePath in
      if starts_with (relative base target) ''..'' then Inl (''Path escapes project root: '' @ relativePath)
      else if existsSync fs target \<and> \<not> starts_with (path_text (realpathSync fs target)) (path_text base)
      then Inl (''Symlink escapes project root: '' @ relativePath)
      else Inr target)"

text \<open>\<open>slice\<close> of an array: negative bounds count from the end.\<close>

definition slice_index :: "nat \<Rightarrow> int \<Rightarrow> nat" where
  "slice_index len i = (if i < 0 then nat (int len + i) else min len (nat i))"

definition js_slice :: "'a list \<Rightarrow> int \<Rightarrow> int \<Rightarrow> 'a list" where
  "js_slice xs i j = drop (slice_index (length xs) i) (take (slice_index (length xs) j) xs)"

definition padStart :: "nat \<Rightarrow> string \<Rightarrow> string" where
  "padStart w s = replicate (w - length s) (CHR 32) @ s"

definition readFileImpl :: "path \<Rightarrow> fs \<Rightarrow> json \<Rightarrow> ToolResult" where
  "readFileImpl base fs args =
     (case resolvePath base fs (argOr args ''path'' []) of Inl e \<Rightarrow> Inl e
      | Inr filePath \<Rightarrow> (case readFile fs filePath of None \<Rightarrow> Inl ''cannot read file''
         | Some raw \<Rightarrow>
            (let allLines = split_on (CHR 10) raw;
                 startIdx = max 0 (argNumber args ''offset'' 1 - 1);
                 limit = argNumber args ''limit'' (int (length allLines)) in
             Inr (join nl (map (\<lambda>(i, line). padStart 6 (int_str (startIdx + int i + 1)) @ ''  '' @ line)
                    (enumerate 0 (js_slice allLines startIdx (startIdx + limit))))))))"

text \<open>\<open>entries\<close> are what \<open>readdir\<close> finds: the name, whether it is a directory, and the size if \<open>stat\<close> gives one.\<close>

definition listDirectory :: "path \<Rightarrow> fs \<Rightarrow> (path \<Rightarrow> string + (string \<times> bool \<times> int option) list) \<Rightarrow> json \<Rightarrow> ToolResult" where
  "listDirectory base fs readdir args =
     (case resolvePath base fs (argOr args ''path'' ''.'') of Inl e \<Rightarrow> Inl e
      | Inr dirPath \<Rightarrow> (case readdir dirPath of Inl e \<Rightarrow> Inl e
         | Inr entries \<Rightarrow>
            (let shown = join nl (map (\<lambda>(name, isDir, size).
                   if isDir then ''dir   '' @ name @ ''/''
                   else (case size of None \<Rightarrow> ''file  '' @ name | Some n \<Rightarrow> ''file  '' @ name @ ''  ('' @ int_str n @ '' bytes)''))
                 (filter (\<lambda>(name, _, _). \<not> starts_with name ''.'') entries)) in
             Inr (if shown = [] then ''(empty directory)'' else shown))))"

definition writeFileImpl :: "path \<Rightarrow> fs \<Rightarrow> json \<Rightarrow> fs \<times> ToolResult" where
  "writeFileImpl base fs args =
     (case resolvePath base fs (argOr args ''path'' []) of Inl e \<Rightarrow> (fs, Inl e)
      | Inr filePath \<Rightarrow>
         (let content = argOr args ''content'' [];
              dir = butlast filePath in
          case (if existsSync fs dir then Some fs else mkdirRecursive 40 fs [] dir) of
            None \<Rightarrow> (fs, Inl ''cannot create directory'')
          | Some fs1 \<Rightarrow> (case writeFile fs1 filePath content of
                None \<Rightarrow> (fs1, Inl ''cannot write file'')
              | Some fs2 \<Rightarrow> (fs2, Inr (''Wrote '' @ nat_str (length content) @ '' bytes to '' @ relative base filePath)))))"

text \<open>The position of the first occurrence, from an offset.\<close>

fun indexOf :: "string \<Rightarrow> string \<Rightarrow> nat option" where
  "indexOf pat [] = (if pat = [] then Some 0 else None)"
| "indexOf pat (c # s) = (if starts_with (c # s) pat then Some 0 else map_option Suc (indexOf pat s))"

definition indexFrom :: "string \<Rightarrow> string \<Rightarrow> nat \<Rightarrow> nat option" where
  "indexFrom pat s i = map_option ((+) i) (indexOf pat (drop i s))"

text \<open>In the replacement of \<open>replace\<close>, \<open>$$\<close> is a dollar, \<open>$&\<close> the matched text, \<open>$`\<close> what precedes and \<open>$'\<close> what follows it.\<close>

fun expandReplacement :: "string \<Rightarrow> string \<Rightarrow> string \<Rightarrow> string \<Rightarrow> string" where
  "expandReplacement before matched after [] = []"
| "expandReplacement before matched after [c] = [c]"
| "expandReplacement before matched after (c # d # s) =
     (if c = CHR 36 \<and> d = CHR 36 then CHR 36 # expandReplacement before matched after s
      else if c = CHR 36 \<and> d = CHR 38 then matched @ expandReplacement before matched after s
      else if c = CHR 36 \<and> d = CHR 96 then before @ expandReplacement before matched after s
      else if c = CHR 36 \<and> d = CHR 39 then after @ expandReplacement before matched after s
      else c # expandReplacement before matched after (d # s))"

definition replaceFirst :: "string \<Rightarrow> string \<Rightarrow> string \<Rightarrow> string" where
  "replaceFirst s pat rep = (case indexOf pat s of None \<Rightarrow> s
     | Some i \<Rightarrow> take i s @ expandReplacement (take i s) pat (drop (i + length pat) s) rep @ drop (i + length pat) s)"

definition editFile :: "path \<Rightarrow> fs \<Rightarrow> json \<Rightarrow> fs \<times> ToolResult" where
  "editFile base fs args =
     (case resolvePath base fs (argOr args ''path'' []) of Inl e \<Rightarrow> (fs, Inl e)
      | Inr filePath \<Rightarrow>
         (let oldString = argOr args ''old_string'' []; newString = argOr args ''new_string'' [] in
          if oldString = [] then (fs, Inl ''old_string must not be empty'')
          else (case readFile fs filePath of None \<Rightarrow> (fs, Inl ''cannot read file'')
            | Some original \<Rightarrow> (case indexFrom oldString original 0 of
                None \<Rightarrow> (fs, Inl ''old_string not found in file'')
              | Some firstIdx \<Rightarrow>
                  if indexFrom oldString original (firstIdx + 1) \<noteq> None
                  then (fs, Inl ''old_string matches multiple locations in the file. Provide a more specific string.'')
                  else (case writeFile fs filePath (replaceFirst original oldString newString) of
                      None \<Rightarrow> (fs, Inl ''cannot write file'')
                    | Some fs1 \<Rightarrow> (fs1, Inr (''Edited '' @ relative base filePath @ '' - replaced '' @ nat_str (length oldString) @ '' chars'')))))))"

section \<open>Searching\<close>

definition trimEnd :: "string \<Rightarrow> string" where
  "trimEnd s = rev (dropWhile is_space (rev s))"

record SearchState =
  se_stdout :: string
  se_lineCount :: nat
  se_killed :: bool

definition MAX_RESULTS :: nat where
  "MAX_RESULTS = 50"

definition relLine :: "path \<Rightarrow> string \<Rightarrow> string" where
  "relLine base line = (if starts_with line (path_text base) then drop (length (path_text base) + 1) line else line)"

fun searchLines :: "path \<Rightarrow> string list \<Rightarrow> SearchState \<Rightarrow> SearchState" where
  "searchLines base [] st = st"
| "searchLines base (line # ls) st =
     (if line = [] then searchLines base ls st
      else if se_lineCount st \<ge> MAX_RESULTS then st\<lparr> se_killed := True \<rparr>
      else searchLines base ls (st\<lparr> se_stdout := se_stdout st @ relLine base line @ nl, se_lineCount := se_lineCount st + 1 \<rparr>))"

definition searchChunk :: "path \<Rightarrow> string \<Rightarrow> SearchState \<Rightarrow> SearchState" where
  "searchChunk base chunk st = (if se_lineCount st \<ge> MAX_RESULTS then st else searchLines base (split_on (CHR 10) chunk) st)"

definition newSearch :: SearchState where
  "newSearch = \<lparr> se_stdout = [], se_lineCount = 0, se_killed = False \<rparr>"

definition searchResult :: "string \<Rightarrow> int option \<Rightarrow> SearchState \<Rightarrow> string" where
  "searchResult stderr code st =
     (if se_lineCount st = 0 \<and> code \<noteq> Some 0
      then (if stderr = [] then ''No matches found.'' else ''No matches found. '' @ trim stderr)
      else trimEnd (se_stdout st) @
        (if se_lineCount st \<ge> MAX_RESULTS then nl @ ''... (limited to '' @ nat_str MAX_RESULTS @ '' results)'' else []))"

definition grepArgs :: "string \<Rightarrow> string \<Rightarrow> path \<Rightarrow> string list" where
  "grepArgs pattern incl searchDir =
     [''-rn'', ''-E'', pattern] @ (if incl = [] then [] else [''--include'', incl]) @ [path_text searchDir]"

text \<open>\<open>grep\<close> gives the chunks of its output, its errors and its exit code.\<close>

definition searchFiles :: "path \<Rightarrow> fs \<Rightarrow> (string list \<Rightarrow> string list \<times> string \<times> int option) \<Rightarrow> json \<Rightarrow> ToolResult" where
  "searchFiles base fs grep args =
     (case resolvePath base fs (argOr args ''path'' ''.'') of Inl e \<Rightarrow> Inl e
      | Inr searchDir \<Rightarrow>
         (let (chunks, stderr, code) = grep (grepArgs (argOr args ''pattern'' []) (argString args ''include'' []) searchDir) in
          Inr (searchResult stderr code (fold (searchChunk base) chunks newSearch))))"

section \<open>The shell\<close>

record ShellState =
  sh_stdout :: string
  sh_stderr :: string
  sh_killed :: bool
  sh_result :: "string option"

definition newShell :: ShellState where
  "newShell = \<lparr> sh_stdout = [], sh_stderr = [], sh_killed = False, sh_result = None \<rparr>"

definition shellOutput :: "string \<Rightarrow> string \<Rightarrow> int \<Rightarrow> string" where
  "shellOutput out err code = json_text (JObj [(''stdout'', JStr out), (''stderr'', JStr err), (''exit_code'', JNum code)])"

text \<open>The timer only kills the process; the result waits for its end. A failed start has no listener (\<open>sh\<close> always exists).\<close>

fun shellEvent :: "ProcEvent \<Rightarrow> ShellState \<Rightarrow> ShellState" where
  "shellEvent (Out_chunk s) st = st\<lparr> sh_stdout := sh_stdout st @ s \<rparr>"
| "shellEvent (Err_chunk s) st = st\<lparr> sh_stderr := sh_stderr st @ s \<rparr>"
| "shellEvent Timer st = (case sh_result st of None \<Rightarrow> st\<lparr> sh_killed := True \<rparr> | Some _ \<Rightarrow> st)"
| "shellEvent (Proc_close code) st = (case sh_result st of
      None \<Rightarrow> st\<lparr> sh_result := Some (shellOutput (trimEnd (sh_stdout st)) (trimEnd (sh_stderr st)) (if sh_killed st then 137 else nullish code 1)) \<rparr>
    | Some _ \<Rightarrow> st)"
| "shellEvent (Spawn_error m) st = st"

text \<open>\<open>None\<close> while the process has not ended.\<close>

definition runShell :: "(string \<Rightarrow> int \<Rightarrow> 's \<Rightarrow> 's \<times> ProcEvent list) \<Rightarrow> json \<Rightarrow> 's \<Rightarrow> 's \<times> string option" where
  "runShell shell args w =
     (let (w', events) = shell (argOr args ''command'' []) (argNumber args ''timeout'' 30000) w in
      (w', sh_result (fold shellEvent events newShell)))"

section \<open>\<open>git\<close>\<close>

text \<open>A run of \<open>git\<close> changes the world and gives its output, or throws.\<close>

type_synonym 's git = "string list \<Rightarrow> 's \<Rightarrow> 's \<times> (string + string)"

definition orText :: "string \<Rightarrow> string \<Rightarrow> string" where
  "orText s d = (if s = [] then d else s)"

definition gitShow :: "'s git \<Rightarrow> string list \<Rightarrow> string \<Rightarrow> 's \<Rightarrow> 's \<times> ToolResult" where
  "gitShow git gitArgs nothing w =
     (case git gitArgs w of (w', Inl e) \<Rightarrow> (w', Inl e) | (w', Inr out) \<Rightarrow> (w', Inr (orText (trimEnd out) nothing)))"

definition gitStatus :: "'s git \<Rightarrow> 's \<Rightarrow> 's \<times> ToolResult" where
  "gitStatus git = gitShow git [''status'', ''--porcelain''] ''(clean working tree)''"

definition gitDiffArgs :: "json \<Rightarrow> string list" where
  "gitDiffArgs args = (let r = argString args ''ref'' []; p = argString args ''path'' [] in
     [''diff''] @ (if r = [] then [] else [r]) @ (if p = [] then [] else [''--'', p]))"

definition gitDiff :: "'s git \<Rightarrow> json \<Rightarrow> 's \<Rightarrow> 's \<times> ToolResult" where
  "gitDiff git args = gitShow git (gitDiffArgs args) ''(no diff)''"

definition gitLog :: "'s git \<Rightarrow> json \<Rightarrow> 's \<Rightarrow> 's \<times> ToolResult" where
  "gitLog git args = (let r = argString args ''ref'' [] in
     gitShow git ([''log'', ''--oneline'', ''-n'', int_str (argNumber args ''count'' 10)] @ (if r = [] then [] else [r])) ''(no commits)'')"

text \<open>\<open>split(/\s+/)\<close> without its empty pieces.\<close>

fun splitSpaces :: "string \<Rightarrow> string \<Rightarrow> string list" where
  "splitSpaces acc [] = (if acc = [] then [] else [rev acc])"
| "splitSpaces acc (c # s) = (if is_space c then (if acc = [] then [] else [rev acc]) @ splitSpaces [] s else splitSpaces (c # acc) s)"

definition gitCommit :: "'s git \<Rightarrow> json \<Rightarrow> 's \<Rightarrow> 's \<times> ToolResult" where
  "gitCommit git args w =
     (let message = argOr args ''message'' []; files = argOr args ''files'' ''.'' in
      if message = [] then (w, Inl ''commit message is required'')
      else (case git (''add'' # splitSpaces [] files) w of
          (w1, Inl e) \<Rightarrow> (w1, Inl e)
        | (w1, Inr _) \<Rightarrow> gitShow git [''commit'', ''-m'', message] [] w1))"

definition gitBranch :: "'s git \<Rightarrow> json \<Rightarrow> 's \<Rightarrow> 's \<times> ToolResult" where
  "gitBranch git args = (let name = argString args ''name'' [] in
     if name = [] then gitShow git [''branch''] []
     else gitShow git ([''checkout''] @ (if argTrue args ''create'' then [''-b''] else []) @ [name]) (''Switched to branch '' @ [CHR 39] @ name @ [CHR 39]))"

definition credentialHelper :: "string \<Rightarrow> string" where
  "credentialHelper token = ''credential.helper=!f() { echo '' @ [dquote] @ ''protocol=https'' @ [dquote] @ ''; echo '' @ [dquote] @ ''host=github.com''
     @ [dquote] @ ''; echo '' @ [dquote] @ ''username=x-access-token'' @ [dquote] @ ''; echo '' @ [dquote] @ ''password='' @ token @ [dquote] @ ''; }; f''"

definition execGitAuth :: "'s git \<Rightarrow> string option \<Rightarrow> string list \<Rightarrow> string \<Rightarrow> 's \<Rightarrow> 's \<times> ToolResult" where
  "execGitAuth git token gitArgs nothing =
     gitShow git ((if truthy_str token then [''-c'', credentialHelper (the token)] else []) @ gitArgs) nothing"

definition gitFetch :: "'s git \<Rightarrow> string option \<Rightarrow> json \<Rightarrow> 's \<Rightarrow> 's \<times> ToolResult" where
  "gitFetch git token args = (let remote = argString args ''remote'' ''origin'' in
     execGitAuth git token [''fetch'', remote] (''Fetched from '' @ remote))"

definition gitPush :: "'s git \<Rightarrow> string option \<Rightarrow> json \<Rightarrow> 's \<Rightarrow> 's \<times> ToolResult" where
  "gitPush git token args = (let remote = argString args ''remote'' ''origin''; branch = argString args ''branch'' [] in
     execGitAuth git token ([''push''] @ (if argTrue args ''setUpstream'' then [''--set-upstream''] else []) @ [remote]
       @ (if branch = [] then [] else [branch])) (''Pushed to '' @ remote @ (if branch = [] then [] else '' '' @ branch)))"

definition gitPull :: "'s git \<Rightarrow> string option \<Rightarrow> json \<Rightarrow> 's \<Rightarrow> 's \<times> ToolResult" where
  "gitPull git token args = (let remote = argString args ''remote'' ''origin''; branch = argString args ''branch'' [] in
     execGitAuth git token ([''pull'', remote] @ (if branch = [] then [] else [branch]))
       (''Pulled from '' @ remote @ (if branch = [] then [] else '' '' @ branch)))"

section \<open>GitHub\<close>

text \<open>The first place where \<open>github.com\<close>, the separator, an owner, a slash and a repository stand.\<close>

definition repoAt :: "char \<Rightarrow> string \<Rightarrow> (string \<times> string) option" where
  "repoAt sep s = Option.bind (stripPrefix (''github.com'' @ [sep]) s) (\<lambda>r.
     (let owner = takeWhile (\<lambda>c. c \<noteq> slash) r;
          rest = drop (length owner + 1) r;
          repo = takeWhile (\<lambda>c. c \<noteq> slash \<and> c \<noteq> CHR 46) rest in
      if owner = [] \<or> length owner = length r \<or> repo = [] then None else Some (owner, repo)))"

fun findRepo :: "char \<Rightarrow> string \<Rightarrow> (string \<times> string) option" where
  "findRepo sep [] = None"
| "findRepo sep (c # s) = (case repoAt sep (c # s) of Some r \<Rightarrow> Some r | None \<Rightarrow> findRepo sep s)"

definition parseRepo :: "string \<Rightarrow> string + string \<times> string" where
  "parseRepo url = (case findRepo slash url of Some r \<Rightarrow> Inr r
     | None \<Rightarrow> (case findRepo (CHR 58) url of Some r \<Rightarrow> Inr r
         | None \<Rightarrow> Inl (''Could not parse GitHub owner/repo from remote URL: '' @ url)))"

definition getGitHubRepo :: "'s git \<Rightarrow> 's \<Rightarrow> 's \<times> (string + string \<times> string)" where
  "getGitHubRepo git w = (case git [''remote'', ''get-url'', ''origin''] w of
     (w', Inl e) \<Rightarrow> (w', Inl e) | (w', Inr out) \<Rightarrow> (w', parseRepo (trim out)))"

text \<open>The request: method, path and body; its answer is a status with a parsed body, or a thrown error.\<close>

type_synonym 's api = "string \<Rightarrow> string \<Rightarrow> json option \<Rightarrow> 's \<Rightarrow> 's \<times> (string + int \<times> json)"

definition tmpl :: "json option \<Rightarrow> string" where
  "tmpl x = (case x of None \<Rightarrow> ''undefined'' | Some v \<Rightarrow> js_String v)"

definition githubApiFetch :: "'s api \<Rightarrow> string option \<Rightarrow> string \<Rightarrow> string \<Rightarrow> json option \<Rightarrow> 's \<Rightarrow> 's \<times> (string + json)" where
  "githubApiFetch api token meth p body w =
     (if \<not> truthy_str token then (w, Inl ''GitHub not connected. Connect GitHub in Settings > Integrations.'')
      else (case api meth p body w of
          (w', Inl e) \<Rightarrow> (w', Inl e)
        | (w', Inr (code, data)) \<Rightarrow>
            if code < 200 \<or> 300 \<le> code
            then (w', Inl (''GitHub API error: '' @ (case json_member data ''message'' of
                None \<Rightarrow> ''HTTP '' @ int_str code | Some JNull \<Rightarrow> ''HTTP '' @ int_str code | Some v \<Rightarrow> js_String v)))
            else (w', Inr data)))"

definition uri_kept :: "char \<Rightarrow> bool" where
  "uri_kept c \<longleftrightarrow> is_digit c \<or> (let n = (of_char c :: nat) in (65 \<le> n \<and> n \<le> 90) \<or> (97 \<le> n \<and> n \<le> 122)) \<or> c \<in> set ''-_.!~*()'' \<or> c = CHR 39"

definition percent :: "nat \<Rightarrow> string" where
  "percent n = map (\<lambda>c. if 97 \<le> (of_char c :: nat) then char_of ((of_char c :: nat) - 32) else c) [CHR 37, hex_char (n div 16), hex_char (n mod 16)]"

definition encodeURIComponent :: "string \<Rightarrow> string" where
  "encodeURIComponent s = concat (map (\<lambda>c. let n = (of_char c :: nat) in
     if uri_kept c then [c] else if n < 128 then percent n else percent (192 + n div 64) @ percent (128 + n mod 64)) s)"

text \<open>One line per item; an item without a user object throws. A hyphen stands for the long dash of the texts here.\<close>

definition itemLine :: "json \<Rightarrow> string option" where
  "itemLine x = (case json_member x ''user'' of None \<Rightarrow> None | Some JNull \<Rightarrow> None
     | Some u \<Rightarrow> Some (CHR 35 # tmpl (json_member x ''number'') @ '' ['' @ tmpl (json_member x ''state'') @ ''] '' @ tmpl (json_member x ''title'')
         @ '' (by @'' @ tmpl (json_member u ''login'') @ '') - '' @ tmpl (json_member x ''html_url'')))"

fun itemLines :: "json list \<Rightarrow> string list option" where
  "itemLines [] = Some []"
| "itemLines (x # xs) = (case itemLine x of None \<Rightarrow> None | Some l \<Rightarrow> map_option ((#) l) (itemLines xs))"

definition listing :: "string \<Rightarrow> json list \<Rightarrow> ToolResult" where
  "listing nothing xs = (if xs = [] then Inr nothing
     else (case itemLines xs of None \<Rightarrow> Inl ''TypeError'' | Some ls \<Rightarrow> Inr (join nl ls)))"

definition githubCreatePr :: "'s git \<Rightarrow> 's api \<Rightarrow> string option \<Rightarrow> json \<Rightarrow> 's \<Rightarrow> 's \<times> ToolResult" where
  "githubCreatePr git api token args w =
     (let title = argOr args ''title'' [] in
      if title = [] then (w, Inl ''title is required'')
      else (case (if argString args ''head'' [] = [] then git [''rev-parse'', ''--abbrev-ref'', ''HEAD''] w else (w, Inr (argString args ''head'' []))) of
          (w1, Inl e) \<Rightarrow> (w1, Inl e)
        | (w1, Inr headName) \<Rightarrow>
            (case getGitHubRepo git w1 of
               (w2, Inl e) \<Rightarrow> (w2, Inl e)
             | (w2, Inr (owner, repo)) \<Rightarrow>
                 (case githubApiFetch api token ''POST'' (''/repos/'' @ owner @ ''/'' @ repo @ ''/pulls'')
                     (Some (JObj [(''title'', JStr title), (''body'', JStr (argString args ''body'' [])), (''head'', JStr (if argString args ''head'' [] = [] then trim headName else headName)),
                        (''base'', JStr (argString args ''base'' ''main''))])) w2 of
                    (w3, Inl e) \<Rightarrow> (w3, Inl e)
                  | (w3, Inr JNull) \<Rightarrow> (w3, Inl ''TypeError'')
                  | (w3, Inr pr) \<Rightarrow> (w3, Inr (''Created PR #'' @ tmpl (json_member pr ''number'') @ '': '' @ tmpl (json_member pr ''title'') @ nl
                      @ tmpl (json_member pr ''html_url'')))))))"

definition githubListPrs :: "'s git \<Rightarrow> 's api \<Rightarrow> string option \<Rightarrow> json \<Rightarrow> 's \<Rightarrow> 's \<times> ToolResult" where
  "githubListPrs git api token args w =
     (let state = argString args ''state'' ''open''; nothing = ''No '' @ state @ '' pull requests.'' in
      case getGitHubRepo git w of
        (w1, Inl e) \<Rightarrow> (w1, Inl e)
      | (w1, Inr (owner, repo)) \<Rightarrow>
          (case githubApiFetch api token ''GET'' (''/repos/'' @ owner @ ''/'' @ repo @ ''/pulls?state='' @ encodeURIComponent state @ ''&per_page=30'') None w1 of
             (w2, Inl e) \<Rightarrow> (w2, Inl e)
           | (w2, Inr (JArr prs)) \<Rightarrow> (w2, listing nothing prs)
           | (w2, Inr data) \<Rightarrow> (w2, if data = JStr [] then Inr nothing else Inl ''TypeError'')))"

text \<open>GitHub lists pull requests among the issues; they are left out.\<close>

definition githubListIssues :: "'s git \<Rightarrow> 's api \<Rightarrow> string option \<Rightarrow> json \<Rightarrow> 's \<Rightarrow> 's \<times> ToolResult" where
  "githubListIssues git api token args w =
     (let state = argString args ''state'' ''open''; labels = argString args ''labels'' [] in
      case getGitHubRepo git w of
        (w1, Inl e) \<Rightarrow> (w1, Inl e)
      | (w1, Inr (owner, repo)) \<Rightarrow>
          (case githubApiFetch api token ''GET'' (''/repos/'' @ owner @ ''/'' @ repo @ ''/issues?state='' @ encodeURIComponent state @ ''&per_page=30''
               @ (if labels = [] then [] else ''&labels='' @ encodeURIComponent labels)) None w1 of
             (w2, Inl e) \<Rightarrow> (w2, Inl e)
           | (w2, Inr (JArr items)) \<Rightarrow> (w2, if JNull \<in> set items then Inl ''TypeError'' else
               listing (''No '' @ state @ '' issues.'') (filter (\<lambda>i. \<not> truthy_json (json_member i ''pull_request'')) items))
           | (w2, Inr data) \<Rightarrow> (w2, Inl ''TypeError'')))"

section \<open>Dispatch\<close>

definition READ_TOOLS :: "string list" where
  "READ_TOOLS = [''read_file'', ''list_directory'', ''search_files'', ''git_status'', ''git_diff'', ''git_log'', ''git_fetch'',
     ''github_list_prs'', ''github_list_issues'']"

definition WRITE_TOOLS :: "string list" where
  "WRITE_TOOLS = [''write_file'', ''edit_file'', ''run_shell'', ''git_commit'', ''git_branch'', ''git_push'', ''git_pull'', ''github_create_pr'']"

text \<open>The file system and the rest of the world.\<close>

type_synonym 'w world = "fs \<times> 'w"

record 'w ToolEnv =
  te_root :: path
  te_githubToken :: "string option"
  te_readdir :: "'w world \<Rightarrow> path \<Rightarrow> string + (string \<times> bool \<times> int option) list"
  te_grep :: "'w world \<Rightarrow> string list \<Rightarrow> string list \<times> string \<times> int option"
  te_shell :: "string \<Rightarrow> int \<Rightarrow> 'w world \<Rightarrow> 'w world \<times> ProcEvent list"
  te_git :: "'w world git"
  te_api :: "'w world api"

definition onFiles :: "fs \<times> ToolResult \<Rightarrow> 'w \<Rightarrow> 'w world \<times> ToolResult option" where
  "onFiles r w = ((fst r, w), Some (snd r))"

definition returned :: "'s \<times> ToolResult \<Rightarrow> 's \<times> ToolResult option" where
  "returned r = (fst r, Some (snd r))"

text \<open>\<open>None\<close> where the tool never returns: a shell command that does not end.\<close>

definition execute :: "'w ToolEnv \<Rightarrow> string \<Rightarrow> json \<Rightarrow> 'w world \<Rightarrow> 'w world \<times> ToolResult option" where
  "execute e tool args w =
     (if tool = ''read_file'' then (w, Some (readFileImpl (te_root e) (fst w) args))
      else if tool = ''list_directory'' then (w, Some (listDirectory (te_root e) (fst w) (te_readdir e w) args))
      else if tool = ''search_files'' then (w, Some (searchFiles (te_root e) (fst w) (te_grep e w) args))
      else if tool = ''write_file'' then onFiles (writeFileImpl (te_root e) (fst w) args) (snd w)
      else if tool = ''edit_file'' then onFiles (editFile (te_root e) (fst w) args) (snd w)
      else if tool = ''run_shell'' then (case runShell (te_shell e) args w of (w', r) \<Rightarrow> (w', map_option Inr r))
      else if tool = ''git_status'' then returned (gitStatus (te_git e) w)
      else if tool = ''git_diff'' then returned (gitDiff (te_git e) args w)
      else if tool = ''git_log'' then returned (gitLog (te_git e) args w)
      else if tool = ''git_commit'' then returned (gitCommit (te_git e) args w)
      else if tool = ''git_branch'' then returned (gitBranch (te_git e) args w)
      else if tool = ''git_fetch'' then returned (gitFetch (te_git e) (te_githubToken e) args w)
      else if tool = ''git_push'' then returned (gitPush (te_git e) (te_githubToken e) args w)
      else if tool = ''git_pull'' then returned (gitPull (te_git e) (te_githubToken e) args w)
      else if tool = ''github_create_pr'' then returned (githubCreatePr (te_git e) (te_api e) (te_githubToken e) args w)
      else if tool = ''github_list_prs'' then returned (githubListPrs (te_git e) (te_api e) (te_githubToken e) args w)
      else if tool = ''github_list_issues'' then returned (githubListIssues (te_git e) (te_api e) (te_githubToken e) args w)
      else (w, Some (Inl (''Unknown tool: '' @ tool))))"

section \<open>Where the tools can write\<close>

definition good :: "string \<Rightarrow> bool" where
  "good s \<longleftrightarrow> s \<noteq> [] \<and> s \<noteq> ''.'' \<and> s \<noteq> ''..''"

lemma normalized_good: "list_all good acc \<Longrightarrow> list_all good (normalizeSegments acc ss)"
proof (induction ss arbitrary: acc)
  case (Cons s ss)
  have "list_all good (tl acc)" using Cons.prems by (cases acc) auto
  then show ?case using Cons by (auto simp: good_def [of s])
qed simp

lemma resolve_path_good: "list_all good base \<Longrightarrow> list_all good (resolve_path base p)"
  by (simp add: resolve_path_def normalized_good)

lemma relativeSegments_cases:
  "(\<exists>rest. to = fr @ rest \<and> relativeSegments fr to = rest) \<or> (\<exists>ups. relativeSegments fr to = ''..'' # ups)"
  by (induction fr to rule: relativeSegments.induct) auto

lemma join_starts: "starts_with (join sep (''..'' # ups)) ''..''"
  by (cases ups) (auto simp: starts_with_def)

lemma resolvePath_inside:
  assumes "resolvePath base fs p = Inr t"
  obtains rest where "t = base @ rest" "t = resolve_path base p"
    "existsSync fs t \<Longrightarrow> starts_with (path_text (realpathSync fs t)) (path_text base)"
proof -
  from assms have t: "t = resolve_path base p" "\<not> starts_with (relative base t) ''..''"
    and ex: "existsSync fs t \<Longrightarrow> starts_with (path_text (realpathSync fs t)) (path_text base)"
    by (auto simp: resolvePath_def Let_def split: if_splits)
  have "\<not> (\<exists>ups. relativeSegments base t = ''..'' # ups)" using t(2) join_starts by (auto simp: relative_def)
  then show ?thesis using relativeSegments_cases [of t base] that t(1) ex by blast
qed

text \<open>No link stands on the way to the root or below it.\<close>

definition linkFree :: "path \<Rightarrow> fs \<Rightarrow> bool" where
  "linkFree base fs \<longleftrightarrow> (\<forall>p a u r. fs p = Some (Link a u) \<longrightarrow> p @ r \<noteq> base \<and> base @ r \<noteq> p)"

lemma linkFree_on_path: "linkFree base fs \<Longrightarrow> fs (take k (base @ rest)) \<noteq> Some (Link a u)"
proof
  assume l: "linkFree base fs" "fs (take k (base @ rest)) = Some (Link a u)"
  show False
  proof (cases "k \<le> length base")
    case True
    then have "take k (base @ rest) @ drop k base = base" by simp
    with l show False unfolding linkFree_def by blast
  next
    case False
    then have "base @ take (k - length base) rest = take k (base @ rest)" by simp
    with l show False unfolding linkFree_def by blast
  qed
qed

lemma open_plain:
  assumes "list_all good ss" "\<And>k a u. fs (take k (acc @ ss)) \<noteq> Some (Link a u)" "openForWriting n fs acc ss = Some q"
  shows "q = acc @ ss"
  using assms
proof (induction ss arbitrary: acc)
  case (Cons s ss)
  have s: "fs (acc @ [s]) \<noteq> Some (Link a u)" for a u using Cons.prems(2) [of "length acc + 1"] by simp
  have *: "openForWriting n fs (acc @ [s]) ss = Some q \<Longrightarrow> q = acc @ s # ss"
    using Cons.IH [of "acc @ [s]"] Cons.prems(1,2) by simp
  show ?case using Cons.prems(1,3) s *
    by (auto simp: good_def [of s] split: if_splits option.splits entry.splits)
qed simp

lemma mkdir_plain:
  assumes "list_all good ss" "\<And>k a u. fs (take k (acc @ ss)) \<noteq> Some (Link a u)" "mkdirRecursive n fs acc ss = Some fs'"
  shows "fs' p = fs p \<or> (fs p = None \<and> fs' p = Some Dir \<and> (\<exists>k. p = take (Suc k) (acc @ ss) \<and> k < length (acc @ ss)))"
  using assms
proof (induction ss arbitrary: acc fs)
  case (Cons s ss)
  have g: "s \<noteq> []" "s \<noteq> ''.''" "s \<noteq> ''..''" "list_all good ss" using Cons.prems(1) by (auto simp: good_def [of s])
  have s: "fs (acc @ [s]) \<noteq> Some (Link a u)" for a u using Cons.prems(2) [of "length acc + 1"] by simp
  show ?case
  proof (cases "fs (acc @ [s])")
    case None
    let ?fs = "fs(acc @ [s] \<mapsto> Dir)"
    have "?fs (take k ((acc @ [s]) @ ss)) \<noteq> Some (Link a u)" for k a u using Cons.prems(2) [of k] by simp
    moreover have "mkdirRecursive n ?fs (acc @ [s]) ss = Some fs'" using Cons.prems(3) None g by simp
    ultimately have "fs' p = ?fs p \<or> (?fs p = None \<and> fs' p = Some Dir \<and> (\<exists>k. p = take (Suc k) ((acc @ [s]) @ ss) \<and> k < length ((acc @ [s]) @ ss)))"
      by (rule Cons.IH [OF g(4)])
    then have ih: "fs' p = ?fs p \<or> (?fs p = None \<and> fs' p = Some Dir \<and> (\<exists>k. p = take (Suc k) (acc @ s # ss) \<and> k < length (acc @ s # ss)))"
      by simp
    have "\<exists>k. acc @ [s] = take (Suc k) (acc @ s # ss) \<and> k < length (acc @ s # ss)" by (rule exI [of _ "length acc"]) simp
    then show ?thesis using None ih by (metis fun_upd_apply)
  next
    case (Some e)
    have "mkdirRecursive n fs (acc @ [s]) ss = Some fs'" using Cons.prems(3) Some g s by (auto split: entry.splits)
    then show ?thesis using Cons.IH [OF g(4), of fs "acc @ [s]"] Cons.prems(2) by simp
  qed
qed simp

definition dirsTo :: "path \<Rightarrow> fs \<Rightarrow> bool" where
  "dirsTo base fs \<longleftrightarrow> (\<forall>k < length base. fs (take (Suc k) base) = Some Dir)"

lemma mkdir_below:
  assumes "list_all good dir" "linkFree base fs" "dirsTo base fs" "dir = base @ rest" "mkdirRecursive n fs [] dir = Some fs'"
  shows "(\<forall>r. p \<noteq> base @ r) \<Longrightarrow> fs' p = fs p" and "linkFree base fs'"
proof -
  have *: "fs' p = fs p \<or> (fs p = None \<and> fs' p = Some Dir \<and> (\<exists>r. p = base @ r))" for p
  proof -
    have "fs' p = fs p \<or> (fs p = None \<and> fs' p = Some Dir \<and> (\<exists>k. p = take (Suc k) ([] @ dir) \<and> k < length ([] @ dir)))"
      by (rule mkdir_plain [OF assms(1) _ assms(5)]) (simp add: assms(4) linkFree_on_path [OF assms(2)] del: take_append)
    moreover have "\<exists>r. take (Suc k) (base @ rest) = base @ r" if "fs (take (Suc k) (base @ rest)) = None" for k
      using that assms(3) by (cases "k < length base") (auto simp: dirsTo_def)
    ultimately show ?thesis unfolding assms(4) append_Nil by (metis)
  qed
  then show "(\<forall>r. p \<noteq> base @ r) \<Longrightarrow> fs' p = fs p" by blast
  show "linkFree base fs'" unfolding linkFree_def
  proof (intro allI impI)
    fix q a u r assume "fs' q = Some (Link a u)"
    then have "fs q = Some (Link a u)" using * [of q] by auto
    then show "q @ r \<noteq> base \<and> base @ r \<noteq> q" using assms(2) by (auto simp: linkFree_def)
  qed
qed

lemma writeFile_below:
  assumes "list_all good t" "linkFree base fs" "t = base @ rest" "writeFile fs t c = Some fs'" "\<forall>r. p \<noteq> base @ r"
  shows "fs' p = fs p"
proof -
  obtain q where q: "openForWriting 40 fs [] t = Some q" "fs' = fs(q \<mapsto> File c)" using assms(4) by (auto simp: writeFile_def)
  have "q = [] @ t" by (rule open_plain [OF assms(1) _ q(1)]) (simp add: assms(3) linkFree_on_path [OF assms(2)] del: take_append)
  then show ?thesis using assms(3,5) q(2) by auto
qed

lemma writeFileImpl_below:
  assumes "list_all good base" "linkFree base fs" "dirsTo base fs" "\<forall>r. p \<noteq> base @ r"
  shows "fst (writeFileImpl base fs args) p = fs p"
proof (cases "resolvePath base fs (argOr args ''path'' [])")
  case (Inr t)
  obtain rest where t: "t = base @ rest" "t = resolve_path base (argOr args ''path'' [])" by (rule resolvePath_inside [OF Inr])
  have g: "list_all good t" using t(2) assms(1) by (simp add: resolve_path_good)
  have gd: "list_all good (butlast t)" using g by (metis append_butlast_last_id butlast.simps(1) list_all_append)
  show ?thesis
  proof (cases "if existsSync fs (butlast t) then Some fs else mkdirRecursive 40 fs [] (butlast t)")
    case None
    then show ?thesis using Inr by (simp add: writeFileImpl_def Let_def)
  next
    case (Some fs1)
    have f: "fs1 p = fs p \<and> linkFree base fs1"
    proof (cases "existsSync fs (butlast t)")
      case False
      then have m: "mkdirRecursive 40 fs [] (butlast t) = Some fs1" using Some by simp
      show ?thesis
      proof (cases "rest = []")
        case True
        have "fs (take k (base @ [])) \<noteq> Some (Link a u)" for k a u by (rule linkFree_on_path [OF assms(2)])
        then have l: "fs (take k ([] @ butlast t)) \<noteq> Some (Link a u)" for k a u
          using True t(1) by (metis append_Nil append_Nil2 butlast_conv_take take_take)
        have "fs1 q = fs q" for q
        proof -
          have "\<not> (fs q = None \<and> (\<exists>k. q = take (Suc k) ([] @ butlast t) \<and> k < length ([] @ butlast t)))"
            using assms(3) True t(1) by (auto simp: dirsTo_def butlast_conv_take min_def)
          then show ?thesis using mkdir_plain [OF gd l m, of q] by blast
        qed
        then have "fs1 = fs" by (rule ext)
        then show ?thesis using assms(2) by simp
      next
        case False
        then have "butlast t = base @ butlast rest" using t(1) by (simp add: butlast_append)
        then show ?thesis using mkdir_below [OF gd assms(2,3) _ m] assms(4) by blast
      qed
    qed (use Some assms(2) in auto)
    then show ?thesis
    proof (cases "writeFile fs1 t (argOr args ''content'' [])")
      case (Some fs2)
      have "fs2 p = fs1 p" using writeFile_below [OF g _ t(1) Some assms(4)] f by blast
      then show ?thesis using Inr Some \<open>(if _ then _ else _) = Some fs1\<close> f by (simp add: writeFileImpl_def Let_def)
    qed (use Inr Some f in \<open>simp add: writeFileImpl_def Let_def\<close>)
  qed
qed (simp add: writeFileImpl_def)

lemma editFile_below:
  assumes "list_all good base" "linkFree base fs" "\<forall>r. p \<noteq> base @ r"
  shows "fst (editFile base fs args) p = fs p"
proof (cases "resolvePath base fs (argOr args ''path'' [])")
  case (Inr t)
  obtain rest where t: "t = base @ rest" "t = resolve_path base (argOr args ''path'' [])" by (rule resolvePath_inside [OF Inr])
  have g: "list_all good t" using t(2) assms(1) by (simp add: resolve_path_good)
  have "writeFile fs t c = Some fs2 \<Longrightarrow> fs2 p = fs p" for c fs2 by (rule writeFile_below [OF g assms(2) t(1) _ assms(3)])
  then show ?thesis using Inr by (auto simp: editFile_def Let_def split: option.split)
qed (simp add: editFile_def)

lemma execute_files:
  "execute e ''write_file'' args w = onFiles (writeFileImpl (te_root e) (fst w) args) (snd w)"
  "execute e ''edit_file'' args w = onFiles (editFile (te_root e) (fst w) args) (snd w)"
  by (simp_all add: execute_def)

text \<open>C17: In a project whose root is an existing directory, without symbolic links on the way to it or below it, the tools that write
  and edit files change nothing outside the root, whatever their arguments.\<close>
theorem file_tools_stay_inside:
  assumes "tool = ''write_file'' \<or> tool = ''edit_file''"
    and "list_all good (te_root e)" "dirsTo (te_root e) fs" "linkFree (te_root e) fs" "\<And>r. p \<noteq> te_root e @ r"
  shows "fst (fst (execute e tool args (fs, w))) p = fs p"
proof -
  have p: "\<forall>r. p \<noteq> te_root e @ r" using assms(5) by simp
  show ?thesis using assms(1)
    by (elim disjE) (simp_all only: execute_files onFiles_def fst_conv writeFileImpl_below [OF assms(2,4,3) p] editFile_below [OF assms(2,4) p])
qed

definition ex_fs :: fs where
  "ex_fs = [[] \<mapsto> Dir, [''p''] \<mapsto> Dir, [''p'', ''a''] \<mapsto> File ''one two'', [''etc''] \<mapsto> Dir, [''etc'', ''hosts''] \<mapsto> File ''h'']"

definition ex_tools :: "unit ToolEnv" where
  "ex_tools = \<lparr> te_root = [''p''], te_githubToken = None, te_readdir = (\<lambda>_ _. Inr []), te_grep = (\<lambda>_ _. ([], [], Some 1)),
     te_shell = (\<lambda>_ _ w. (w, [Proc_close (Some 0)])), te_git = (\<lambda>_ w. (w, Inr [])), te_api = (\<lambda>_ _ _ w. (w, Inr (200, JArr []))) \<rparr>"

definition ex_write :: "string \<Rightarrow> string \<Rightarrow> json" where
  "ex_write p c = JObj [(''path'', JStr p), (''content'', JStr c)]"

lemma ex_fs_plain: "linkFree [''p''] ex_fs \<and> dirsTo [''p''] ex_fs"
  by (auto simp: linkFree_def dirsTo_def ex_fs_def split: if_splits)

theorem file_tools_stay_inside_witness:
  "fst (fst (execute ex_tools ''write_file'' (ex_write ''d/b'' ''x'') (ex_fs, ()))) [''etc'', ''hosts''] = Some (File ''h'')"
  using file_tools_stay_inside [of "''write_file''" ex_tools ex_fs "[''etc'', ''hosts'']" "ex_write ''d/b'' ''x''" "()"] ex_fs_plain
  by (simp add: ex_tools_def good_def ex_fs_def)

text \<open>With a link below the root, a new file is written behind it: the check of the real path only concerns paths that exist.\<close>
lemma new_file_escapes:
  "let fs = ex_fs([''p'', ''l''] \<mapsto> Link True [''etc'']) in
     fst (writeFileImpl [''p''] fs (ex_write ''l/cron'' ''x'')) [''etc'', ''cron''] = Some (File ''x'') \<and>
     snd (writeFileImpl [''p''] fs (ex_write ''l/hosts'' ''x'')) = Inl ''Symlink escapes project root: l/hosts''"
  by code_simp

text \<open>The check of an existing path compares texts: a link to a sibling whose name begins like the root passes.\<close>
lemma sibling_escapes:
  "let fs = ex_fs([''p2''] \<mapsto> Dir, [''p2'', ''key''] \<mapsto> File ''secret'', [''p'', ''l''] \<mapsto> Link True [''p2'']) in
     readFileImpl [''p''] fs (ex_write ''l/key'' []) = Inr ''     1  secret''"
  by code_simp

text \<open>A file of the project whose name begins with two dots is refused.\<close>
lemma dotted_name_refused: "resolvePath [''p''] ex_fs ''..foo'' = Inl ''Path escapes project root: ..foo''"
  by code_simp

section \<open>Editing\<close>

lemma starts_with_iff: "starts_with s p \<longleftrightarrow> (\<exists>r. s = p @ r)"
  by (auto simp: starts_with_def) (metis append_take_drop_id)

lemma indexOf_Some: "indexOf pat s = Some i \<Longrightarrow> pat \<noteq> [] \<Longrightarrow> i \<le> length s \<and> starts_with (drop i s) pat \<and> (\<forall>j < i. \<not> starts_with (drop j s) pat)"
proof (induction s arbitrary: i)
  case (Cons c s)
  show ?case
  proof (cases "starts_with (c # s) pat")
    case False
    then obtain k where k: "i = Suc k" "indexOf pat s = Some k" using Cons.prems by auto
    have "\<not> starts_with (drop j (c # s)) pat" if "j < i" for j
      using that False Cons.IH [OF k(2) Cons.prems(2)] k(1) by (cases j) auto
    then show ?thesis using Cons.IH [OF k(2) Cons.prems(2)] k(1) by simp
  qed (use Cons.prems in auto)
qed simp

lemma indexOf_None: "indexOf pat s = None \<Longrightarrow> pat \<noteq> [] \<Longrightarrow> \<not> starts_with (drop j s) pat"
proof (induction s arbitrary: j)
  case (Cons c s)
  then show ?case by (cases j) (auto split: if_splits)
qed (simp add: starts_with_def)

lemma plain_replacement: "CHR 36 \<notin> set r \<Longrightarrow> expandReplacement b m a r = r"
  by (induction b m a r rule: expandReplacement.induct) auto

text \<open>What the two searches of \<open>editFile\<close> find out: there is one occurrence, and the replacement stands in its place.\<close>

lemma only_occurrence:
  assumes "pat \<noteq> []" "indexFrom pat s 0 = Some i" "indexFrom pat s (i + 1) = None"
  obtains pre post where "s = pre @ pat @ post" "\<And>rep. CHR 36 \<notin> set rep \<Longrightarrow> replaceFirst s pat rep = pre @ rep @ post"
    "\<And>pre' post'. s = pre' @ pat @ post' \<Longrightarrow> pre' = pre"
proof -
  have i: "indexOf pat s = Some i" using assms(2) by (auto simp: indexFrom_def)
  have st: "i \<le> length s" "starts_with (drop i s) pat" "\<forall>j < i. \<not> starts_with (drop j s) pat" using indexOf_Some [OF i assms(1)] by auto
  have "indexOf pat (drop (i + 1) s) = None" using assms(3) by (simp add: indexFrom_def)
  then have late: "\<not> starts_with (drop (i + 1 + j) s) pat" for j using indexOf_None [OF _ assms(1), of "drop (i + 1) s" j] by (simp add: add.commute)
  obtain post where post: "drop i s = pat @ post" using st(2) by (auto simp: starts_with_iff)
  have s: "s = take i s @ pat @ post" using post by (metis append_take_drop_id)
  have d: "drop (i + length pat) s = post" using post by (metis add.commute append_eq_conv_conj drop_drop)
  have uniq: "pre' = take i s" if "s = pre' @ pat @ post'" for pre' post'
  proof -
    have w: "starts_with (drop (length pre') s) pat" using that by (simp add: starts_with_def)
    have "length pre' = i"
    proof (rule ccontr)
      assume "length pre' \<noteq> i"
      then consider "length pre' < i" | j where "length pre' = i + 1 + j" by (metis add.assoc less_iff_Suc_add linorder_neqE_nat plus_1_eq_Suc add.commute)
      then show False using w st(3) late by cases auto
    qed
    then show ?thesis using that by (metis append_eq_conv_conj)
  qed
  have "replaceFirst s pat rep = take i s @ rep @ post" if "CHR 36 \<notin> set rep" for rep
    using that by (simp add: replaceFirst_def i d plain_replacement)
  then show ?thesis using that [OF s] uniq by blast
qed

text \<open>Every entry of a file system is in a directory.\<close>

definition fs_ok :: "fs \<Rightarrow> bool" where
  "fs_ok fs \<longleftrightarrow> fs [] = Some Dir \<and> (\<forall>p s. fs (p @ [s]) \<noteq> None \<longrightarrow> fs p = Some Dir)"

lemma fs_ok_up: "fs_ok fs \<Longrightarrow> fs p = Some Dir \<Longrightarrow> fs (butlast p) = Some Dir"
  by (cases p rule: rev_cases) (auto simp: fs_ok_def)

lemma follow_open:
  "follow n fs acc ss = Some q \<Longrightarrow> fs q = Some (File c) \<Longrightarrow> fs_ok fs \<Longrightarrow> fs acc = Some Dir \<Longrightarrow> openForWriting n fs acc ss = Some q"
proof (induction n fs acc ss rule: follow.induct)
  case (2 n fs acc s ss)
  have top: "fs [] = Some Dir" using 2(7) by (simp add: fs_ok_def)
  show ?case
  proof (cases "s = [] \<or> s = ''.'' \<or> s = ''..''")
    case True
    then show ?thesis using 2(1,2,5-8) fs_ok_up [OF 2(7,8)] by (auto split: if_splits)
  next
    case False
    show ?thesis
    proof (cases "fs (acc @ [s])")
      case (Some e)
      then show ?thesis using 2(3,4,5-8) False top by (cases e) (auto split: if_splits)
    qed (use 2(5) False in auto)
  qed
qed simp

lemma editFile_success:
  assumes "editFile base fs args = (fs', Inr msg)" "resolvePath base fs (argOr args ''path'' []) = Inr t"
  obtains original i where "readFile fs t = Some original" "argOr args ''old_string'' [] \<noteq> []"
    "indexFrom (argOr args ''old_string'' []) original 0 = Some i" "indexFrom (argOr args ''old_string'' []) original (i + 1) = None"
    "writeFile fs t (replaceFirst original (argOr args ''old_string'' []) (argOr args ''new_string'' [])) = Some fs'"
proof -
  let ?old = "argOr args ''old_string'' []"
  have old: "?old \<noteq> []" using assms by (cases "?old = []") (simp_all add: editFile_def)
  obtain original where o: "readFile fs t = Some original" using assms old by (cases "readFile fs t") (simp_all add: editFile_def)
  obtain i where i: "indexFrom ?old original 0 = Some i" using assms old o by (cases "indexFrom ?old original 0") (simp_all add: editFile_def)
  have n: "indexFrom ?old original (i + 1) = None" using assms old o i by (cases "indexFrom ?old original (i + 1)") (simp_all add: editFile_def)
  have "writeFile fs t (replaceFirst original ?old (argOr args ''new_string'' [])) = Some fs'"
    using assms old o i n by (cases "writeFile fs t (replaceFirst original ?old (argOr args ''new_string'' []))") (simp_all add: editFile_def)
  then show ?thesis by (rule that [OF o old i n])
qed

text \<open>An edit that reports success replaces the only occurrence of the old text in the file by the new text, a new text without
  dollar signs that is, and changes nothing else; the file is the one the path leads to, and its real path begins with the root.\<close>
theorem edit_replaces_only_occurrence:
  assumes "fs_ok fs" "editFile base fs args = (fs', Inr msg)" "CHR 36 \<notin> set (argOr args ''new_string'' [])"
  shows "\<exists>q pre post. follow 40 fs [] (resolve_path base (argOr args ''path'' [])) = Some q \<and> starts_with (path_text q) (path_text base) \<and>
     fs q = Some (File (pre @ argOr args ''old_string'' [] @ post)) \<and>
     fs' = fs(q \<mapsto> File (pre @ argOr args ''new_string'' [] @ post)) \<and>
     (\<forall>pre' post'. pre @ argOr args ''old_string'' [] @ post = pre' @ argOr args ''old_string'' [] @ post' \<longrightarrow> pre' = pre)"
proof -
  let ?old = "argOr args ''old_string'' []" and ?new = "argOr args ''new_string'' []"
  obtain t where t: "resolvePath base fs (argOr args ''path'' []) = Inr t" using assms(2) by (cases "resolvePath base fs (argOr args ''path'' [])") (auto simp: editFile_def)
  have tp: "t = resolve_path base (argOr args ''path'' [])" "existsSync fs t \<Longrightarrow> starts_with (path_text (realpathSync fs t)) (path_text base)"
    by (rule resolvePath_inside [OF t], assumption)+
  obtain original i where r: "readFile fs t = Some original" "?old \<noteq> []" "indexFrom ?old original 0 = Some i"
      "indexFrom ?old original (i + 1) = None" and w: "writeFile fs t (replaceFirst original ?old ?new) = Some fs'"
    by (rule editFile_success [OF assms(2) t])
  obtain q where q: "follow 40 fs [] t = Some q" "fs q = Some (File original)"
    using r(1) by (auto simp: readFile_def split: bind_splits option.splits entry.splits)
  have "openForWriting 40 fs [] t = Some q" by (rule follow_open [OF q assms(1)]) (use assms(1) in \<open>simp add: fs_ok_def\<close>)
  then have fs': "fs' = fs(q \<mapsto> File (replaceFirst original ?old ?new))" using w by (simp add: writeFile_def)
  have real: "starts_with (path_text q) (path_text base)" using tp(2) q(1) by (simp add: existsSync_def realpathSync_def nullish_def)
  obtain pre post where o: "original = pre @ ?old @ post" and new: "\<And>rep. CHR 36 \<notin> set rep \<Longrightarrow> replaceFirst original ?old rep = pre @ rep @ post"
    and uniq: "\<And>pre' post'. original = pre' @ ?old @ post' \<Longrightarrow> pre' = pre"
    by (rule only_occurrence [OF r(2-4)]) (rule that)
  have "\<forall>pre' post'. pre @ ?old @ post = pre' @ ?old @ post' \<longrightarrow> pre' = pre" using uniq unfolding o by blast
  with q(1) real show ?thesis
    by (intro exI [of _ q] exI [of _ pre] exI [of _ post]) (simp add: tp(1) [symmetric] q(2) o [symmetric] fs' new [OF assms(3)])
qed

definition ex_edit :: "string \<Rightarrow> string \<Rightarrow> json" where
  "ex_edit old new = JObj [(''path'', JStr ''a''), (''old_string'', JStr old), (''new_string'', JStr new)]"

lemma ex_fs_ok: "fs_ok ex_fs"
  by (auto simp: fs_ok_def ex_fs_def split: if_splits)

lemma ex_edit_runs: "map_option (\<lambda>_. ()) (case snd (editFile [''p''] ex_fs (ex_edit ''two'' ''three'')) of Inr m \<Rightarrow> Some m | Inl _ \<Rightarrow> None) = Some ()"
  by code_simp

theorem edit_replaces_only_occurrence_witness:
  "\<exists>q pre post. fst (editFile [''p''] ex_fs (ex_edit ''two'' ''three'')) q = Some (File (pre @ ''three'' @ post)) \<and>
     ex_fs q = Some (File (pre @ ''two'' @ post))"
proof -
  obtain m where m: "editFile [''p''] ex_fs (ex_edit ''two'' ''three'') = (fst (editFile [''p''] ex_fs (ex_edit ''two'' ''three'')), Inr m)"
    using ex_edit_runs by (cases "editFile [''p''] ex_fs (ex_edit ''two'' ''three'')") (auto split: sum.splits)
  have a: "argOr (ex_edit ''two'' ''three'') ''old_string'' [] = ''two''" "argOr (ex_edit ''two'' ''three'') ''new_string'' [] = ''three''"
    by (simp_all add: ex_edit_def argOr_def)
  obtain q pre post where "ex_fs q = Some (File (pre @ ''two'' @ post))"
    "fst (editFile [''p''] ex_fs (ex_edit ''two'' ''three'')) = ex_fs(q \<mapsto> File (pre @ ''three'' @ post))"
    using edit_replaces_only_occurrence [OF ex_fs_ok m, unfolded a] by auto
  then show ?thesis by (intro exI [of _ q] exI [of _ pre] exI [of _ post]) simp
qed

text \<open>Dollar signs in the new text are patterns: \<open>$&\<close> puts the old text back.\<close>
lemma dollar_is_expanded:
  "fst (editFile [''p''] ex_fs (ex_edit ''two'' ''US$&'')) [''p'', ''a''] = Some (File ''one UStwo'')"
  by code_simp

section \<open>Searching, options and repositories\<close>

lemma searchLines_count: "se_lineCount st \<le> MAX_RESULTS \<Longrightarrow> se_lineCount (searchLines base ls st) \<le> MAX_RESULTS"
  by (induction base ls st rule: searchLines.induct) auto

text \<open>A search never collects more than the limit, whatever the chunks.\<close>
lemma search_bounded: "se_lineCount (fold (searchChunk base) chunks newSearch) \<le> MAX_RESULTS"
proof -
  have "se_lineCount st \<le> MAX_RESULTS \<Longrightarrow> se_lineCount (fold (searchChunk base) cs st) \<le> MAX_RESULTS" for cs st
    by (induction cs arbitrary: st) (auto simp: searchChunk_def searchLines_count)
  then show ?thesis by (simp add: newSearch_def)
qed

text \<open>A line cut by the end of a chunk counts as two.\<close>
lemma cut_line_counts_twice:
  "se_lineCount (fold (searchChunk [''p'']) [''ab'', ''cd''] newSearch) = 2 \<and>
   se_lineCount (fold (searchChunk [''p'']) [''abcd''] newSearch) = 1"
  by code_simp

text \<open>\<open>git_diff\<close> and \<open>git_fetch\<close> need no approval, and take options for revisions and remotes: \<open>--output=f\<close> overwrites a file,
  \<open>--upload-pack=c\<close> names a program to run.\<close>
lemma read_tools_take_options:
  "''git_diff'' \<in> set READ_TOOLS \<and> gitDiffArgs (JObj [(''ref'', JStr ''--output=f'')]) = [''diff'', ''--output=f''] \<and>
   ''git_fetch'' \<in> set READ_TOOLS \<and>
   (\<forall>git w. gitFetch git None (JObj [(''remote'', JStr ''--upload-pack=c'')]) w =
      gitShow git [''fetch'', ''--upload-pack=c''] ''Fetched from --upload-pack=c'' w)"
  by (simp add: READ_TOOLS_def gitDiffArgs_def argString_def gitFetch_def execGitAuth_def Let_def)

lemma tools_partition: "set READ_TOOLS \<inter> set WRITE_TOOLS = {}"
  by code_simp

text \<open>The name of a repository is cut at its first dot.\<close>
lemma dotted_repository: "parseRepo ''https://github.com/vercel/next.js.git'' = Inr (''vercel'', ''next'')"
  by code_simp

end
