(* ===== verification/ModelRouter.thy ===== *)
theory ModelRouter
  imports AgentLoop
begin

text \<open>
  Where a request of an editor runs (\<open>src/src/model/router.ts\<close>), the offline provider (\<open>providers.ts\<close>), and the change of the local model with its
  downloads (\<open>swap.ts\<close>, \<open>swap-routes.ts\<close>, \<open>pull-tracker.ts\<close>). What Bluetooth, the local model server and the swarm answer are arguments.
\<close>

section \<open>Latency and the local gate\<close>

record LatencyTracker =
  lt_ema :: num
  lt_samples :: nat

text \<open>The constants are the doubles nearest to 0.2, 0.8 (computed as 1 - 0.2) and 1.8.\<close>

definition recordLatency :: "num \<Rightarrow> LatencyTracker \<Rightarrow> LatencyTracker" where
  "recordLatency t l =
     \<lparr> lt_ema = (if lt_samples l = 0 then t else n_add (n_mul (fl (1 / 5)) t) (n_mul (n_sub 1 (fl (1 / 5))) (lt_ema l))),
       lt_samples = lt_samples l + 1 \<rparr>"

definition p95EstimateMs :: "LatencyTracker \<Rightarrow> int" where
  "p95EstimateMs l = (if lt_samples l < 3 then 0 else math_round (n_mul (lt_ema l) (fl (9 / 5))))"

record RouterConfig =
  cf_localConcurrencyCap :: nat
  cf_localLatencyThresholdMs :: int
  cf_meshAuthToken :: string
  cf_bluetoothStatusUrl :: "string option"

record Router =
  ro_latency :: LatencyTracker
  ro_active :: nat

definition newRouter :: Router where
  "newRouter = \<lparr> ro_latency = \<lparr> lt_ema = 0, lt_samples = 0 \<rparr>, ro_active = 0 \<rparr>"

text \<open>The two gates of \<open>isLocalViable\<close> that need no request.\<close>

definition localGate :: "RouterConfig \<Rightarrow> Router \<Rightarrow> bool" where
  "localGate cfg r = (ro_active r < cf_localConcurrencyCap cfg \<and>
     \<not> (0 < p95EstimateMs (ro_latency r) \<and> cf_localLatencyThresholdMs cfg < p95EstimateMs (ro_latency r)))"

text \<open>A request starts, completes after \<open>t\<close> milliseconds, or fails; \<open>recordStreamComplete\<close> ends one that was streamed.\<close>

definition startLocal :: "Router \<Rightarrow> Router" where
  "startLocal r = r\<lparr> ro_active := ro_active r + 1 \<rparr>"

definition finishLocal :: "num \<Rightarrow> Router \<Rightarrow> Router" where
  "finishLocal t r = r\<lparr> ro_latency := recordLatency t (ro_latency r), ro_active := ro_active r - 1 \<rparr>"

definition failLocal :: "Router \<Rightarrow> Router" where
  "failLocal r = r\<lparr> ro_active := ro_active r - 1 \<rparr>"

definition recordStreamComplete :: "num \<Rightarrow> Router \<Rightarrow> Router" where
  "recordStreamComplete t r = r\<lparr> ro_latency := recordLatency t (ro_latency r), ro_active := ro_active r - 1 \<rparr>"

section \<open>The waterfall\<close>

datatype RouteDecision = Bluetooth_local | Ollama_local | Swarm | Edgecoder_local

record RouterResult =
  rr_text :: string
  rr_route :: RouteDecision
  rr_latencyMs :: "num option"
  rr_creditsSpent :: "num option"
  rr_swarmTaskId :: "string option"

text \<open>The status of the Bluetooth transport: \<open>None\<close> where it does not answer 200.\<close>

definition bluetoothAvailable :: "RouterConfig \<Rightarrow> (bool \<times> nat option) option \<Rightarrow> bool" where
  "bluetoothAvailable cfg btStatus = (truthy_str (cf_bluetoothStatusUrl cfg) \<and>
     (case btStatus of None \<Rightarrow> False | Some (isConnected, centrals) \<Rightarrow> isConnected \<or> (case centrals of None \<Rightarrow> False | Some n \<Rightarrow> 0 < n)))"

text \<open>What a poll for the result of a subtask finds: an output with its price, or nothing yet (other statuses and failures too).\<close>

type_synonym PollReply = "(string \<times> num option) option"

text \<open>The polls, each with the time read before it; polling stops at the deadline.\<close>

fun pollSwarm :: "ms \<Rightarrow> (ms \<times> PollReply) list \<Rightarrow> (string \<times> num option) option" where
  "pollSwarm deadline [] = None"
| "pollSwarm deadline ((now, reply) # rest) =
     (if deadline \<le> now then None else (case reply of Some r \<Rightarrow> Some r | None \<Rightarrow> pollSwarm deadline rest))"

text \<open>
  The submission: \<open>None\<close> where it is refused or fails, else the task with its subtasks. \<open>None\<close> as a result is an exception.
\<close>

definition runViaSwarm ::
  "(string \<times> string list) option \<Rightarrow> ms \<Rightarrow> (ms \<times> PollReply) list \<Rightarrow> (string \<times> num option \<times> string) option" where
  "runViaSwarm submitted now polls =
     (case submitted of
        None \<Rightarrow> None
      | Some (taskId, subtasks) \<Rightarrow>
          if subtasks = [] \<or> hd subtasks = [] then None
          else map_option (\<lambda>(text, credits). (text, credits, taskId)) (pollSwarm (now + 90000) polls))"

text \<open>
  One request on its own. \<open>btText\<close>, \<open>healthy\<close>, \<open>generated\<close> and \<open>swarm\<close> are the answers of the four ways, \<open>stub\<close> the offline text;
  \<open>elapsed\<close> is the time the local model took.
\<close>

definition route ::
  "RouterConfig \<Rightarrow> (bool \<times> nat option) option \<Rightarrow> string option \<Rightarrow> bool \<Rightarrow> string option \<Rightarrow> num \<Rightarrow> (string \<times> num option \<times> string) option \<Rightarrow>
   string \<Rightarrow> num \<Rightarrow> Router \<Rightarrow> Router \<times> RouterResult" where
  "route cfg btStatus btText healthy generated elapsed swarm stub whole r =
     (let fallBack = (\<lambda>r. case (if cf_meshAuthToken cfg = [] then None else swarm) of
            Some (text, credits, taskId) \<Rightarrow>
              (r, \<lparr> rr_text = text, rr_route = Swarm, rr_latencyMs = Some whole, rr_creditsSpent = credits, rr_swarmTaskId = Some taskId \<rparr>)
          | None \<Rightarrow>
              (r, \<lparr> rr_text = stub, rr_route = Edgecoder_local, rr_latencyMs = Some whole, rr_creditsSpent = None, rr_swarmTaskId = None \<rparr>)) in
      if bluetoothAvailable cfg btStatus \<and> btText \<noteq> None
      then (r, \<lparr> rr_text = the btText, rr_route = Bluetooth_local, rr_latencyMs = Some whole, rr_creditsSpent = None, rr_swarmTaskId = None \<rparr>)
      else if localGate cfg r \<and> healthy
      then (case generated of
          Some text \<Rightarrow> (finishLocal elapsed (startLocal r),
             \<lparr> rr_text = text, rr_route = Ollama_local, rr_latencyMs = Some elapsed, rr_creditsSpent = None, rr_swarmTaskId = None \<rparr>)
        | None \<Rightarrow> fallBack (failLocal (startLocal r)))
      else fallBack r)"

text \<open>A chat: the last message of the user goes to the swarm, and \<open>offline\<close> is the fixed text of the last resort. A streamed answer has no text yet.\<close>

definition lastUserMessage :: "(string \<times> string) list \<Rightarrow> string option" where
  "lastUserMessage messages = map_option snd (find (\<lambda>m. fst m = ''user'') (rev messages))"

definition routeChat ::
  "RouterConfig \<Rightarrow> (bool \<times> nat option) option \<Rightarrow> string option \<Rightarrow> bool \<Rightarrow> bool \<Rightarrow> string option \<Rightarrow> num \<Rightarrow> (string \<Rightarrow> (string \<times> num option \<times> string) option) \<Rightarrow>
   string \<Rightarrow> (string \<times> string) list \<Rightarrow> Router \<Rightarrow> Router \<times> RouteDecision \<times> string option" where
  "routeChat cfg btStatus btText healthy stream answered elapsed swarm offline messages r =
     (let fallBack = (\<lambda>r. case (if cf_meshAuthToken cfg = [] then None else Option.bind (lastUserMessage messages) swarm) of
            Some (text, _, _) \<Rightarrow> (r, Swarm, Some text)
          | None \<Rightarrow> (r, Edgecoder_local, Some offline)) in
      if bluetoothAvailable cfg btStatus \<and> truthy_str btText then (r, Bluetooth_local, btText)
      else if localGate cfg r \<and> healthy
      then (case answered of
          Some text \<Rightarrow> if stream then (startLocal r, Ollama_local, None)
             else (finishLocal elapsed (startLocal r), Ollama_local, Some text)
        | None \<Rightarrow> fallBack (failLocal (startLocal r)))
      else fallBack r)"

section \<open>Requests in flight\<close>

text \<open>
  Several requests at once: those that passed the gates and wait for the health check, those that run, those that are streamed.
\<close>

record Flight =
  fl_router :: Router
  fl_checking :: nat
  fl_running :: nat
  fl_streaming :: nat

inductive router_step :: "RouterConfig \<Rightarrow> Flight \<Rightarrow> Flight \<Rightarrow> bool" for cfg where
  rt_gate: "localGate cfg (fl_router f) \<Longrightarrow> router_step cfg f (f\<lparr> fl_checking := fl_checking f + 1 \<rparr>)"
| rt_refused: "\<not> localGate cfg (fl_router f) \<Longrightarrow> router_step cfg f f"
| rt_unhealthy: "0 < fl_checking f \<Longrightarrow> router_step cfg f (f\<lparr> fl_checking := fl_checking f - 1 \<rparr>)"
| rt_start: "0 < fl_checking f \<Longrightarrow> router_step cfg f
    (f\<lparr> fl_router := startLocal (fl_router f), fl_checking := fl_checking f - 1, fl_running := fl_running f + 1 \<rparr>)"
| rt_done: "0 < fl_running f \<Longrightarrow> router_step cfg f (f\<lparr> fl_router := finishLocal t (fl_router f), fl_running := fl_running f - 1 \<rparr>)"
| rt_fail: "0 < fl_running f \<Longrightarrow> router_step cfg f (f\<lparr> fl_router := failLocal (fl_router f), fl_running := fl_running f - 1 \<rparr>)"
| rt_stream: "0 < fl_running f \<Longrightarrow> router_step cfg f (f\<lparr> fl_running := fl_running f - 1, fl_streaming := fl_streaming f + 1 \<rparr>)"
| rt_streamed: "0 < fl_streaming f \<Longrightarrow> router_step cfg f
    (f\<lparr> fl_router := recordStreamComplete t (fl_router f), fl_streaming := fl_streaming f - 1 \<rparr>)"

inductive_cases router_stepE: "router_step cfg f f'"

definition noFlight :: "Router \<Rightarrow> Flight" where
  "noFlight r = \<lparr> fl_router = r, fl_checking = 0, fl_running = 0, fl_streaming = 0 \<rparr>"

definition slots_ok :: "Flight \<Rightarrow> bool" where
  "slots_ok f = (ro_active (fl_router f) = fl_running f + fl_streaming f)"

lemma router_step_slots: "router_step cfg f f' \<Longrightarrow> slots_ok f \<Longrightarrow> slots_ok f'"
  by (elim router_stepE) (auto simp: slots_ok_def startLocal_def finishLocal_def failLocal_def recordStreamComplete_def)

text \<open>
  The counter of the router is exact. Whatever the order in which requests pass the gates, start, complete, fail and stream, the number of
  active requests is that of the requests running or streaming: no slot is lost, and none is given back twice.
\<close>

theorem router_counts_exactly:
  assumes "(router_step cfg)\<^sup>*\<^sup>* (noFlight newRouter) f"
  shows "ro_active (fl_router f) = fl_running f + fl_streaming f"
proof -
  have "slots_ok f" using assms
  proof (induction rule: rtranclp_induct)
    case base
    show ?case by (simp add: slots_ok_def noFlight_def newRouter_def)
  qed (rule router_step_slots)
  then show ?thesis by (simp add: slots_ok_def)
qed

text \<open>The cap itself does not hold: two requests may both pass the gate before either starts.\<close>

lemma cap_can_be_exceeded:
  assumes "cf_localConcurrencyCap cfg = 1"
  shows "\<exists>f. (router_step cfg)\<^sup>*\<^sup>* (noFlight newRouter) f \<and> ro_active (fl_router f) = 2"
proof -
  let ?f1 = "(noFlight newRouter)\<lparr> fl_checking := 1 \<rparr>"
  let ?f2 = "(noFlight newRouter)\<lparr> fl_checking := 2 \<rparr>"
  have g: "localGate cfg newRouter" using assms by (simp add: localGate_def newRouter_def p95EstimateMs_def)
  have "router_step cfg (noFlight newRouter) ?f1" using rt_gate [of cfg "noFlight newRouter"] g by (simp add: noFlight_def)
  moreover have "router_step cfg ?f1 ?f2" using rt_gate [of cfg ?f1] g by (simp add: noFlight_def numeral_2_eq_2)
  moreover obtain f3 where f3: "router_step cfg ?f2 f3" "fl_checking f3 = 1" "ro_active (fl_router f3) = 1"
    using rt_start [of ?f2 cfg] by (simp add: noFlight_def newRouter_def startLocal_def)
  moreover obtain f4 where "router_step cfg f3 f4" "ro_active (fl_router f4) = 2"
    using rt_start [of f3 cfg] f3 by (simp add: startLocal_def)
  ultimately show ?thesis by (meson r_into_rtranclp rtranclp_trans)
qed

text \<open>One request between the gate and its start at a time: then the cap holds.\<close>

inductive serial_step :: "RouterConfig \<Rightarrow> Flight \<Rightarrow> Flight \<Rightarrow> bool" for cfg where
  "router_step cfg f f' \<Longrightarrow> fl_checking f' \<le> 1 \<Longrightarrow> serial_step cfg f f'"

lemma serial_cap:
  assumes "(serial_step cfg)\<^sup>*\<^sup>* (noFlight newRouter) f"
  shows "ro_active (fl_router f) + fl_checking f \<le> cf_localConcurrencyCap cfg"
  using assms
proof (induction rule: rtranclp_induct)
  case base
  show ?case by (simp add: noFlight_def newRouter_def)
next
  case (step y z)
  from step.hyps(2) show ?case
    by (cases rule: serial_step.cases, elim router_stepE)
       (use step.IH in \<open>auto simp: localGate_def startLocal_def finishLocal_def failLocal_def recordStreamComplete_def\<close>)
qed

text \<open>
  Once the local model was slow it is never asked again. When no request is in flight and the estimate of the latency is above the
  threshold, no sequence of requests changes the state of the router any more: the estimate is only updated by requests
  that ran locally, and none runs.
\<close>

theorem slow_model_locked_out:
  assumes "0 < p95EstimateMs (ro_latency r)" and "cf_localLatencyThresholdMs cfg < p95EstimateMs (ro_latency r)"
    and "(router_step cfg)\<^sup>*\<^sup>* (noFlight r) f"
  shows "f = noFlight r"
  using assms(3)
proof (induction rule: rtranclp_induct)
  case (step y z)
  have "\<not> localGate cfg r" using assms(1,2) by (simp add: localGate_def)
  then show ?case using step.hyps(2) step.IH by (auto simp: noFlight_def elim: router_stepE)
qed simp

definition ex_slow :: Router where
  "ex_slow = \<lparr> ro_latency = \<lparr> lt_ema = 9000, lt_samples = 3 \<rparr>, ro_active = 0 \<rparr>"

definition ex_router_config :: RouterConfig where
  "ex_router_config = \<lparr> cf_localConcurrencyCap = 2, cf_localLatencyThresholdMs = 8000, cf_meshAuthToken = [], cf_bluetoothStatusUrl = None \<rparr>"

theorem router_counts_exactly_witness: "ro_active (fl_router (noFlight newRouter)) = fl_running (noFlight newRouter) + fl_streaming (noFlight newRouter)"
  using router_counts_exactly [of ex_router_config, OF rtranclp.rtrancl_refl] .

theorem slow_model_locked_out_witness:
  "8000 < p95EstimateMs (ro_latency ex_slow) \<and> \<not> (router_step ex_router_config)\<^sup>*\<^sup>* (noFlight ex_slow) (noFlight (startLocal ex_slow))"
proof -
  have "fl 1 \<le> fl (9 / 5)" by (rule fl_mono) simp
  then have "fl 9000 \<le> fl (9000 * fl (9 / 5))" using fl_of_int [of 1] by (intro fl_mono) simp
  then have "9000 \<le> n_mul 9000 (fl (9 / 5))" using fl_of_int [of 9000] by (simp add: n_mul_def)
  then have "8000 < p95EstimateMs (ro_latency ex_slow)" by (simp add: ex_slow_def p95EstimateMs_def math_round_def)
  moreover have "ro_active (fl_router (noFlight (startLocal ex_slow))) \<noteq> ro_active (fl_router (noFlight ex_slow))"
    by (simp add: noFlight_def startLocal_def)
  then have "noFlight (startLocal ex_slow) \<noteq> noFlight ex_slow" by metis
  moreover have "cf_localLatencyThresholdMs ex_router_config = 8000" by (simp add: ex_router_config_def)
  ultimately show ?thesis using slow_model_locked_out [of ex_slow ex_router_config "noFlight (startLocal ex_slow)"] by linarith
qed

section \<open>Downloads\<close>

datatype PullStatus = Pulling | Pull_error | Pull_phase string

record PullProgress =
  pu_model :: string
  pu_status :: PullStatus
  pu_progressPct :: int
  pu_completed :: num
  pu_total :: num
  pu_startedAtMs :: ms
  pu_error :: "string option"

type_synonym PullTracker = "PullProgress option"

definition startPull :: "string \<Rightarrow> ms \<Rightarrow> PullTracker \<Rightarrow> PullTracker" where
  "startPull model now t = Some \<lparr> pu_model = model, pu_status = Pulling, pu_progressPct = 0, pu_completed = 0, pu_total = 0,
     pu_startedAtMs = now, pu_error = None \<rparr>"

definition updateProgress :: "string \<Rightarrow> num \<Rightarrow> num \<Rightarrow> PullTracker \<Rightarrow> PullTracker" where
  "updateProgress phase done whole t = map_option (\<lambda>p. p\<lparr> pu_status := Pull_phase phase, pu_completed := done, pu_total := whole,
     pu_progressPct := (if 0 < whole then math_round (n_mul (n_div done whole) 100) else 0) \<rparr>) t"

definition completePull :: "PullTracker \<Rightarrow> PullTracker" where
  "completePull t = None"

definition failPull :: "string \<Rightarrow> PullTracker \<Rightarrow> PullTracker" where
  "failPull err t = map_option (\<lambda>p. p\<lparr> pu_status := Pull_error, pu_error := Some err \<rparr>) t"

text \<open>
  A line of the stream as the parser reads it: malformed, or an object with a non-empty error, or else with a non-empty phase and its
  numbers (0 where they are missing), or with neither.
\<close>

datatype PullLine = Malformed | Pull_failed string | Pull_update string num num | Pull_silent

text \<open>The text is cut at line breaks; \<open>split\<close> gives the complete lines and the rest of the last one.\<close>

fun splitLines :: "string \<Rightarrow> string list \<times> string" where
  "splitLines [] = ([], [])"
| "splitLines (c # s) = (let (ls, rest) = splitLines s in
     if c = CHR 0x0A then ([] # ls, rest) else (case ls of [] \<Rightarrow> ([], c # rest) | l # ls' \<Rightarrow> ((c # l) # ls', rest)))"

text \<open>One line; \<open>True\<close> where the stream is left because the server reports an error.\<close>

definition pullLine :: "(string \<Rightarrow> PullLine) \<Rightarrow> string \<Rightarrow> PullTracker \<Rightarrow> PullTracker \<times> bool" where
  "pullLine parse line t =
     (if trim line = [] then (t, False)
      else (case parse line of
          Pull_failed err \<Rightarrow> (failPull err t, True)
        | Pull_update phase done whole \<Rightarrow> (updateProgress phase done whole t, False)
        | _ \<Rightarrow> (t, False)))"

fun pullLines :: "(string \<Rightarrow> PullLine) \<Rightarrow> string list \<Rightarrow> PullTracker \<Rightarrow> PullTracker \<times> bool" where
  "pullLines parse [] t = (t, False)"
| "pullLines parse (l # ls) t = (case pullLine parse l t of (t', True) \<Rightarrow> (t', True) | (t', False) \<Rightarrow> pullLines parse ls t')"

text \<open>
  The chunks as they arrive, and whether the stream ends or breaks off. What is left in the buffer at the end is not processed.
\<close>

fun processStreamingPull :: "(string \<Rightarrow> PullLine) \<Rightarrow> string \<Rightarrow> string list \<Rightarrow> bool \<Rightarrow> PullTracker \<Rightarrow> PullTracker" where
  "processStreamingPull parse buffer [] broken t = (if broken then failPull ''stream_interrupted'' t else completePull t)"
| "processStreamingPull parse buffer (chunk # chunks) broken t =
     (let (ls, rest) = splitLines (buffer @ chunk) in
      case pullLines parse ls t of (t', True) \<Rightarrow> t' | (t', False) \<Rightarrow> processStreamingPull parse rest chunks broken t')"

section \<open>Swapping the model\<close>

record InstalledModel =
  im_name :: string
  im_parameterSize :: num
  im_size :: num
  im_quantization :: string

text \<open>\<open>im_parameterSize\<close> is what \<open>parseParamSize\<close> reads from the details, 0 where nothing matches.\<close>

definition paramSizeFromBytes :: "num \<Rightarrow> num" where
  "paramSizeFromBytes bytes = n_div (of_int (math_round (n_mul (n_div bytes 1000000000) 10))) 10"

definition paramSizeOf :: "InstalledModel \<Rightarrow> num" where
  "paramSizeOf m = (if im_parameterSize m \<noteq> 0 then im_parameterSize m else paramSizeFromBytes (im_size m))"

datatype SwapStatus = Swap_ready | Swap_pulling | Swap_error string

record ModelSwapResponse =
  sw_previous :: string
  sw_active :: string
  sw_status :: SwapStatus
  sw_paramSize :: num

text \<open>What the request for a download meets: no connection, a refusal (or no body), or a stream.\<close>

datatype PullAnswer = Pull_unreachable | Pull_refused | Pull_stream

definition swapModel ::
  "InstalledModel list option \<Rightarrow> PullAnswer \<Rightarrow> string \<Rightarrow> string \<Rightarrow> ms \<Rightarrow> PullTracker \<Rightarrow> PullTracker \<times> ModelSwapResponse" where
  "swapModel tags pull target current now t =
     (let failed = (\<lambda>e. \<lparr> sw_previous = current, sw_active = current, sw_status = Swap_error e, sw_paramSize = 0 \<rparr>) in
      case tags of
        None \<Rightarrow> (t, failed ''ollama_not_running: Start Ollama with: ollama serve'')
      | Some models \<Rightarrow>
          (case find (\<lambda>m. im_name m = target) models of
             Some m \<Rightarrow> (t, \<lparr> sw_previous = current, sw_active = target, sw_status = Swap_ready, sw_paramSize = paramSizeOf m \<rparr>)
           | None \<Rightarrow>
               (let t1 = startPull target now t in
                case pull of
                  Pull_unreachable \<Rightarrow> (failPull ''pull_fetch_error'' t1, failed ''pull_failed'')
                | Pull_refused \<Rightarrow> (failPull ''pull_request_failed'' t1, failed ''pull_failed'')
                | Pull_stream \<Rightarrow> (t1, \<lparr> sw_previous = current, sw_active = current, sw_status = Swap_pulling, sw_paramSize = 0 \<rparr>))))"

record ModelSwapState =
  ms_activeModel :: string
  ms_activeModelParamSize :: num
  ms_pullTracker :: PullTracker

text \<open>\<open>POST /model/swap\<close>; \<open>None\<close> where the model is missing. The last component is the change reported to the listener.\<close>

definition swapRoute ::
  "InstalledModel list option \<Rightarrow> PullAnswer \<Rightarrow> string option \<Rightarrow> ms \<Rightarrow> ModelSwapState \<Rightarrow>
   ModelSwapState \<times> ModelSwapResponse option \<times> (string \<times> num) option" where
  "swapRoute tags pull model now s =
     (if \<not> truthy_str model then (s, None, None)
      else (let (t, r) = swapModel tags pull (the model) (ms_activeModel s) now (ms_pullTracker s); s1 = s\<lparr> ms_pullTracker := t \<rparr> in
        if sw_status r = Swap_ready
        then (s1\<lparr> ms_activeModel := sw_active r, ms_activeModelParamSize := sw_paramSize r \<rparr>, Some r, Some (sw_active r, sw_paramSize r))
        else (s1, Some r, None)))"

datatype ModelHealth = Model_ready | No_model | Model_error

definition getModelStatus :: "InstalledModel list option \<Rightarrow> string \<Rightarrow> ModelHealth \<times> num \<times> bool" where
  "getModelStatus tags active =
     (case tags of
        None \<Rightarrow> (Model_error, 0, False)
      | Some models \<Rightarrow> (case find (\<lambda>m. im_name m = active) models of None \<Rightarrow> (No_model, 0, True) | Some m \<Rightarrow> (Model_ready, paramSizeOf m, True)))"

definition baseName :: "string \<Rightarrow> string" where
  "baseName m = takeWhile (\<lambda>c. c \<noteq> CHR '':'') m"

text \<open>The model the list marks: the active one, else its \<open>latest\<close>, else one of the same base, else the first installed one.\<close>

definition resolvedActive :: "string \<Rightarrow> string list \<Rightarrow> string" where
  "resolvedActive active names =
     (if active \<in> set names then active
      else (case find (\<lambda>n. n = baseName active @ '':latest'') names of
          Some n \<Rightarrow> n
        | None \<Rightarrow> (case find (\<lambda>n. take (length (baseName active) + 1) n = baseName active @ '':'') names of
              Some n \<Rightarrow> n
            | None \<Rightarrow> (if names = [] then active else hd names))))"

definition listModels :: "InstalledModel list option \<Rightarrow> string \<Rightarrow> (string \<times> num \<times> string \<times> bool) list" where
  "listModels tags active =
     (case tags of
        None \<Rightarrow> []
      | Some models \<Rightarrow>
          (let resolved = resolvedActive active (map im_name models) in
           map (\<lambda>m. (im_name m, paramSizeOf m, im_quantization m, im_name m = resolved)) models))"

lemma splitLines_append:
  "splitLines (a @ b) = (fst (splitLines a) @ fst (splitLines (snd (splitLines a) @ b)), snd (splitLines (snd (splitLines a) @ b)))"
proof (induction a)
  case (Cons c a)
  obtain la ra where a: "splitLines a = (la, ra)" by fastforce
  obtain lb rb where b: "splitLines (ra @ b) = (lb, rb)" by fastforce
  have ab: "splitLines (a @ b) = (la @ lb, rb)" using Cons a b by simp
  show ?case
  proof (cases "c = CHR 0x0A")
    case True
    then show ?thesis using a b ab by simp
  next
    case False
    then show ?thesis using a b ab by (cases la) (auto split: list.splits)
  qed
qed simp

lemma splitLines_rest: "splitLines (snd (splitLines s)) = ([], snd (splitLines s))"
proof (induction s)
  case (Cons c s)
  obtain ls rest where s: "splitLines s = (ls, rest)" by fastforce
  then show ?case using Cons by (cases ls) (auto simp: Let_def)
qed simp

lemma pullLines_append:
  "pullLines parse (xs @ ys) t = (case pullLines parse xs t of (t', True) \<Rightarrow> (t', True) | (t', False) \<Rightarrow> pullLines parse ys t')"
  by (induction xs arbitrary: t) (auto split: prod.splits bool.splits)

lemma pull_from_buffer:
  assumes "splitLines buffer = ([], buffer)"
  shows "processStreamingPull parse buffer chunks broken t =
    (case pullLines parse (fst (splitLines (buffer @ concat chunks))) t of
       (t', True) \<Rightarrow> t' | (t', False) \<Rightarrow> if broken then failPull ''stream_interrupted'' t' else completePull t')"
  using assms
proof (induction chunks arbitrary: buffer t)
  case (Cons chunk chunks)
  obtain ls rest where l: "splitLines (buffer @ chunk) = (ls, rest)" by fastforce
  have r: "splitLines rest = ([], rest)" using splitLines_rest [of "buffer @ chunk"] l by simp
  obtain t' b where p: "pullLines parse ls t = (t', b)" by fastforce
  have "fst (splitLines (buffer @ chunk @ concat chunks)) = ls @ fst (splitLines (rest @ concat chunks))"
    using splitLines_append [of "buffer @ chunk" "concat chunks"] l by simp
  then show ?case using l p Cons.IH [OF r, of t'] by (cases b) (simp_all add: pullLines_append)
qed simp

text \<open>
  How the stream of a download is cut into chunks does not matter. The progress after the stream is that of processing the complete lines of the whole text,
  up to the first error the server reports; lines that arrive in pieces are put together, none is lost or read twice.
\<close>

theorem pull_chunking_irrelevant:
  "processStreamingPull parse [] chunks broken t =
    (case pullLines parse (fst (splitLines (concat chunks))) t of
       (t', True) \<Rightarrow> t' | (t', False) \<Rightarrow> if broken then failPull ''stream_interrupted'' t' else completePull t')"
  using pull_from_buffer [of "[]"] by simp

text \<open>
  Swapping the model and asking for its state agree. When the swap is answered with ready, the model is installed, becomes the active one with the size in
  the answer, the listener hears of it, and the status is ready with that size as long as the same models are installed; otherwise the active model stays.
\<close>

theorem swap_then_status:
  "let (s', r, told) = swapRoute tags pull model now s in
     (case r of
        Some resp \<Rightarrow>
          if sw_status resp = Swap_ready
          then model = Some (ms_activeModel s') \<and> sw_active resp = ms_activeModel s' \<and> told = Some (ms_activeModel s', ms_activeModelParamSize s') \<and>
               getModelStatus tags (ms_activeModel s') = (Model_ready, ms_activeModelParamSize s', True) \<and> ms_pullTracker s' = ms_pullTracker s
          else ms_activeModel s' = ms_activeModel s \<and> sw_active resp = ms_activeModel s \<and> told = None
      | None \<Rightarrow> s' = s \<and> told = None)"
  by (auto simp: swapRoute_def swapModel_def getModelStatus_def truthy_str_def Let_def split: option.splits PullAnswer.splits)

text \<open>The list marks one model at most, and one exactly where some are installed under distinct names.\<close>

lemma find_some_in: "find P xs = Some x \<Longrightarrow> x \<in> set xs"
  by (auto simp: find_Some_iff)

lemma resolvedActive_in: "names \<noteq> [] \<Longrightarrow> resolvedActive active names \<in> set names"
  using find_some_in [where xs = names] by (auto simp: resolvedActive_def split: option.splits)

lemma one_active:
  assumes "distinct (map im_name models)" and "models \<noteq> []"
  shows "length (filter (\<lambda>(_, _, _, isActive). isActive) (listModels (Some models) active)) = 1"
proof -
  let ?r = "resolvedActive active (map im_name models)"
  have "?r \<in> set (map im_name models)" using assms(2) by (intro resolvedActive_in) simp
  moreover have "x \<in> set (map im_name ms) \<Longrightarrow> distinct (map im_name ms) \<Longrightarrow> length (filter (\<lambda>m. im_name m = x) ms) = 1" for x ms
    by (induction ms) (auto simp: filter_empty_conv image_iff)
  moreover have "filter (\<lambda>(_, _, _, isActive). isActive) (listModels (Some models) active) =
      map (\<lambda>m. (im_name m, paramSizeOf m, im_quantization m, im_name m = ?r)) (filter (\<lambda>m. im_name m = ?r) models)"
    by (simp add: listModels_def Let_def filter_map o_def)
  ultimately show ?thesis using assms(1) by simp
qed

text \<open>The status may say that there is no model while the list marks one as active.\<close>

lemma status_and_list_disagree:
  "let m = \<lparr> im_name = ''b'', im_parameterSize = 1, im_size = 1, im_quantization = [] \<rparr> in
   getModelStatus (Some [m]) ''a'' = (No_model, 0, True) \<and> listModels (Some [m]) ''a'' = [(''b'', 1, [], True)]"
  by (simp add: getModelStatus_def listModels_def resolvedActive_def baseName_def paramSizeOf_def)

text \<open>Two downloads share one tracker: the end of the first clears the progress of the second.\<close>

lemma downloads_share_tracker: "completePull (startPull second now (startPull first t0 t)) = None"
  by (simp add: completePull_def)

text \<open>
  A request is always answered. Whatever fails, the router answers with a text by one of the four ways, in the order Bluetooth, local model, swarm,
  offline; it takes the local way only through the gate; it gives its slot back; and it counts a sample of the latency exactly when the local model answered.
\<close>

theorem route_always_answers:
  "let (r', result) = route cfg btStatus btText healthy generated elapsed swarm stub whole r in
     ro_active r' = ro_active r \<and>
     lt_samples (ro_latency r') = lt_samples (ro_latency r) + (if rr_route result = Ollama_local then 1 else 0) \<and>
     rr_text result =
       (case rr_route result of Bluetooth_local \<Rightarrow> the btText | Ollama_local \<Rightarrow> the generated | Swarm \<Rightarrow> fst (the swarm) | Edgecoder_local \<Rightarrow> stub) \<and>
     (rr_route result = Bluetooth_local \<longleftrightarrow> bluetoothAvailable cfg btStatus \<and> btText \<noteq> None) \<and>
     (rr_route result = Ollama_local \<longleftrightarrow>
        \<not> (bluetoothAvailable cfg btStatus \<and> btText \<noteq> None) \<and> localGate cfg r \<and> healthy \<and> generated \<noteq> None) \<and>
     (rr_route result = Edgecoder_local \<longleftrightarrow>
        \<not> (bluetoothAvailable cfg btStatus \<and> btText \<noteq> None) \<and> \<not> (localGate cfg r \<and> healthy \<and> generated \<noteq> None) \<and>
        (cf_meshAuthToken cfg = [] \<or> swarm = None))"
  by (auto simp: route_def Let_def finishLocal_def failLocal_def startLocal_def recordLatency_def split: option.splits)

section \<open>The offline provider\<close>

text \<open>The text before and after the first occurrence of \<open>p\<close>.\<close>

fun splitFirst :: "string \<Rightarrow> string \<Rightarrow> (string \<times> string) option" where
  "splitFirst p [] = (if p = [] then Some ([], []) else None)"
| "splitFirst p (c # s) = (if take (length p) (c # s) = p then Some ([], drop (length p) (c # s))
     else map_option (\<lambda>(a, b). (c # a, b)) (splitFirst p s))"

definition planMark :: string where
  "planMark = nl @ nl @ ''Plan:'' @ nl"

definition structuredAt :: "string \<Rightarrow> (Language \<times> string) option" where
  "structuredAt s = Option.bind (stripPrefix ''You are a coding assistant. Write '' s) (\<lambda>r. firstSome (\<lambda>lang.
     Option.bind (stripPrefix (languageName lang @ '' code that implements the following plan.'' @ nl @ nl @ ''Task: '') r) (\<lambda>b.
       Option.bind (splitFirst planMark b) (\<lambda>(task, rest).
         if contains (nl @ nl @ ''Output ONLY executable'') rest then Some (lang, task) else None))) [Python, Javascript])"

fun findStructured :: "string \<Rightarrow> (Language \<times> string) option" where
  "findStructured [] = None"
| "findStructured (c # s) = (case structuredAt (c # s) of Some r \<Rightarrow> Some r | None \<Rightarrow> findStructured s)"

definition legacyCode :: "string \<Rightarrow> (Language \<times> string) option" where
  "legacyCode s = Option.bind (stripPrefix ''Write '' s) (\<lambda>r. firstSome (\<lambda>lang.
     map_option (\<lambda>task. (lang, task)) (stripPrefix (languageName lang @ '' code for this task:'' @ nl) r)) [Python, Javascript])"

definition codeWords :: "string list" where
  "codeWords = [''print('', ''console.log'', ''def '', ''function '', ''for '', ''if '', ''return'', ''const '', ''let '', ''var '']"

definition looksLikeCode :: "string \<Rightarrow> bool" where
  "looksLikeCode task = (CHR 10 \<in> set task \<or> list_ex (\<lambda>w. testFrom [Bound, Lit w, Bound] None task) codeWords)"

definition stubCode :: "Language \<Rightarrow> string \<Rightarrow> string" where
  "stubCode lang raw =
     (let task = trim raw in
      if looksLikeCode task then task
      else (case lang of
          Python \<Rightarrow> ''print('' @ json_str (''edgecoder-local:'' @ task) @ '')''
        | Javascript \<Rightarrow> ''console.log('' @ json_str (''edgecoder-local:'' @ task) @ '');''))"

definition stubPlan :: "string \<Rightarrow> string" where
  "stubPlan task = ''1. Parse task requirements'' @ nl @ ''2. Generate minimal valid code'' @ nl @ ''3. Execute and report'' @ nl @ ''Task: '' @ take 120 task"

definition startsWith :: "string \<Rightarrow> string \<Rightarrow> bool" where
  "startsWith p s = (take (length p) s = p)"

definition reflectTask :: "string \<Rightarrow> string option" where
  "reflectTask prompt = Option.bind (splitFirst ''Task: '' prompt) (\<lambda>(_, b).
     Option.bind (splitFirst (nl @ nl @ ''Failed code:'' @ nl) b) (\<lambda>(task, rest).
       if contains (nl @ nl @ ''Error output:'') rest then Some task else None))"

definition generateStub :: "string \<Rightarrow> string" where
  "generateStub prompt =
     (case findStructured prompt of
        Some (lang, task) \<Rightarrow> stubCode lang task
      | None \<Rightarrow> (case legacyCode prompt of
          Some (lang, task) \<Rightarrow> stubCode lang task
        | None \<Rightarrow>
            if startsWith ''You are a coding assistant. Create a step-by-step plan'' prompt
            then stubPlan (case splitFirst ''Task: '' prompt of None \<Rightarrow> [] | Some (_, task) \<Rightarrow> trim task)
            else if startsWith ''Create a short plan for this coding task:'' prompt
            then stubPlan (trim (case splitFirst (''Create a short plan for this coding task:'' @ nl) prompt of None \<Rightarrow> prompt | Some (a, b) \<Rightarrow> a @ b))
            else (case (if startsWith ''You are a coding assistant. The following code failed'' prompt then reflectTask prompt else None) of
                Some task \<Rightarrow> ''print('' @ json_str (''edgecoder-local:fixed:'' @ trim task) @ '')''
              | None \<Rightarrow> ''edgecoder-local:'' @ take 120 prompt)))"

lemma splitFirst_app:
  "splitFirst p (a @ p) = Some (a, []) \<Longrightarrow> p \<noteq> [] \<Longrightarrow> splitFirst p (a @ p @ x) = Some (a, x)"
proof (induction a)
  case Nil
  then show ?case by (cases p) simp_all
next
  case (Cons c a)
  then have n: "take (length p) (c # a @ p) \<noteq> p" "splitFirst p (a @ p) = Some (a, [])"
    by (auto split: if_splits prod.splits)
  moreover have "take (length p) (c # a @ p @ x) = take (length p) (c # a @ p)" using take_append [of "length p" "c # a @ p" x] by simp
  ultimately show ?case using Cons by simp
qed

lemma testFrom_app: "matchHere ps (if a = [] then prev else Some (last a)) b \<Longrightarrow> testFrom ps prev (a @ b)"
proof (induction a arbitrary: prev)
  case Nil
  then show ?case by (cases b) auto
qed (auto split: if_splits)

lemma contains_app: "contains w (a @ w @ b)"
  unfolding contains_def by (rule testFrom_app) simp

lemma stripPrefix_app: "stripPrefix p (p @ s) = Some s"
  by (simp add: stripPrefix_def)

text \<open>
  The offline provider understands the prompts of the agent loop. From the prompt for code it takes the task and the language, as long as the task does not
  itself contain the line that opens the plan, and answers with code of that language that prints the task, or with the task where it looks like code.
\<close>

theorem stub_reads_code_prompt:
  assumes "splitFirst planMark (task @ planMark) = Some (task, [])"
  shows "generateStub (codePrompt task plan language) = stubCode language task"
proof -
  let ?out = "nl @ nl @ ''Output ONLY executable''"
  let ?tail = "'' '' @ languageName language @ '' code. No markdown fences, no explanation, no comments unless necessary for clarity.''"
  let ?b = "task @ planMark @ plan @ ?out @ ?tail"
  have p: "codePrompt task plan language = ''You are a coding assistant. Write '' @
      (languageName language @ '' code that implements the following plan.'' @ nl @ nl @ ''Task: '') @ ?b"
    by (simp add: codePrompt_def planMark_def)
  have "splitFirst planMark ?b = Some (task, plan @ ?out @ ?tail)" by (rule splitFirst_app [OF assms]) (simp add: planMark_def nl_def)
  moreover have "contains ?out (plan @ ?out @ ?tail)" by (rule contains_app)
  ultimately have "structuredAt (codePrompt task plan language) = Some (language, task)"
    unfolding structuredAt_def p stripPrefix_app bind.simps
    by (cases language) (simp_all add: stripPrefix_def)
  then have "findStructured (codePrompt task plan language) = Some (language, task)" unfolding p by simp
  then show ?thesis by (simp add: generateStub_def)
qed

theorem stub_reads_code_prompt_witness:
  "generateStub (codePrompt ''sort'' ''1. sort'' Javascript) = ''console.log('' @ json_str ''edgecoder-local:sort'' @ '');''"
proof -
  have "splitFirst planMark (''sort'' @ planMark) = Some (''sort'', [])" by code_simp
  moreover have "stubCode Javascript ''sort'' = ''console.log('' @ json_str ''edgecoder-local:sort'' @ '');''" by code_simp
  ultimately show ?thesis using stub_reads_code_prompt by simp
qed

text \<open>Asked to repair JavaScript, the offline provider answers with Python.\<close>

lemma stub_repairs_in_python: "generateStub (reflectPrompt ''sort'' ''x('' ''ReferenceError'') = ''print('' @ json_str ''edgecoder-local:fixed:sort'' @ '')''"
  by code_simp

section \<open>The registry of providers\<close>

datatype ModelProviderKind = Kind_edgecoder_local | Kind_ollama_local | Kind_ollama_edge | Kind_ollama_coordinator

record ProviderRegistry =
  rg_providers :: "ModelProviderKind list"
  rg_active :: ModelProviderKind

definition newRegistry :: ProviderRegistry where
  "newRegistry = \<lparr> rg_providers = [Kind_edgecoder_local, Kind_ollama_local, Kind_ollama_edge, Kind_ollama_coordinator], rg_active = Kind_edgecoder_local \<rparr>"

definition useProvider :: "ModelProviderKind \<Rightarrow> ProviderRegistry \<Rightarrow> ProviderRegistry" where
  "useProvider kind r = (if kind \<in> set (rg_providers r) then r\<lparr> rg_active := kind \<rparr> else r)"

definition currentProvider :: "ProviderRegistry \<Rightarrow> ModelProviderKind" where
  "currentProvider r = rg_active r"

lemma use_then_current: "currentProvider (useProvider kind newRegistry) = kind"
  by (cases kind) (simp_all add: currentProvider_def useProvider_def newRegistry_def)

end
