(* ===== verification/IdeChat.thy ===== *)
theory IdeChat
  imports IdeTools ModelRouter
begin

text \<open>
  The local server of the editor (\<open>src/src/apps/ide/provider-server.ts\<close>, \<open>openai-compat.ts\<close>): the OpenAI formats, the streaming of an answer, the loop
  in which a model uses the tools of \<open>IdeTools\<close>, and the approvals of its tool calls. The model, \<open>JSON.parse\<close> and
  the identifiers are arguments.
\<close>

section \<open>OpenAI formats\<close>

definition parseOpenAiRequest :: "(string \<times> string) list \<Rightarrow> string \<Rightarrow> bool option \<Rightarrow> string \<times> string \<times> bool" where
  "parseOpenAiRequest messages model stream = (nullish (lastUserMessage messages) [], model, nullish stream False)"

definition formatOpenAiResponse :: "ms \<Rightarrow> string \<Rightarrow> string \<Rightarrow> string \<Rightarrow> json" where
  "formatOpenAiResponse now requestId model content = JObj [(''id'', JStr requestId), (''object'', JStr ''chat.completion''), (''created'', JNum (now div 1000)),
     (''model'', JStr model),
     (''choices'', JArr [JObj [(''index'', JNum 0), (''message'', JObj [(''role'', JStr ''assistant''), (''content'', JStr content)]), (''finish_reason'', JStr ''stop'')]]),
     (''usage'', JObj [(''prompt_tokens'', JNum 0), (''completion_tokens'', JNum 0), (''total_tokens'', JNum 0)])]"

text \<open>Empty content is left out.\<close>

definition formatOpenAiStreamChunk :: "ms \<Rightarrow> string \<Rightarrow> string \<Rightarrow> json \<Rightarrow> string option \<Rightarrow> json" where
  "formatOpenAiStreamChunk now requestId model content finishReason =
     JObj [(''id'', JStr requestId), (''object'', JStr ''chat.completion.chunk''), (''created'', JNum (now div 1000)), (''model'', JStr model),
     (''choices'', JArr [JObj [(''index'', JNum 0),
        (''delta'', JObj ((''role'', JStr ''assistant'') # (if truthy_json (Some content) then [(''content'', content)] else []))),
        (''finish_reason'', case finishReason of None \<Rightarrow> JNull | Some r \<Rightarrow> JStr r)]])]"

definition formatOpenAiModelsResponse :: "ms \<Rightarrow> string list \<Rightarrow> json" where
  "formatOpenAiModelsResponse now modelIds = JObj [(''object'', JStr ''list''),
     (''data'', JArr (map (\<lambda>i. JObj [(''id'', JStr i), (''object'', JStr ''model''), (''created'', JNum (now div 1000)), (''owned_by'', JStr ''edgecoder'')]) modelIds))]"

section \<open>\<open>POST /v1/chat/completions\<close>\<close>

text \<open>Our system prompt, the system messages of the client, the others.\<close>

definition withSystem :: "string option \<Rightarrow> (string \<times> string) list \<Rightarrow> (string \<times> string) list" where
  "withSystem prompt messages = (case prompt of None \<Rightarrow> [] | Some p \<Rightarrow> [(''system'', p)])
     @ filter (\<lambda>m. fst m = ''system'') messages @ filter (\<lambda>m. fst m \<noteq> ''system'') messages"

definition requestedModel :: "string \<Rightarrow> string option" where
  "requestedModel model = (if model = ''edgecoder-local'' then None else Some model)"

fun routeName :: "RouteDecision \<Rightarrow> string" where
  "routeName Ollama_local = ''ollama-local''"
| "routeName Bluetooth_local = ''bluetooth-local''"
| "routeName Swarm = ''swarm''"
| "routeName Edgecoder_local = ''edgecoder-local''"

fun routeLabel :: "RouteDecision \<Rightarrow> string" where
  "routeLabel Ollama_local = ''local model''"
| "routeLabel Bluetooth_local = ''nearby device''"
| "routeLabel Swarm = ''swarm network''"
| "routeLabel Edgecoder_local = ''offline''"

definition routeInfo :: "RouteDecision \<Rightarrow> string \<Rightarrow> Router \<Rightarrow> json" where
  "routeInfo r model router = JObj [(''route_info'', JObj [(''route'', JStr (routeName r)), (''label'', JStr (routeLabel r)), (''model'', JStr model),
     (''p95Ms'', JNum (p95EstimateMs (ro_latency router))), (''concurrent'', JNum (int (ro_active router)))])]"

definition plainContent :: "RouteDecision \<Rightarrow> string option \<Rightarrow> string option \<Rightarrow> string" where
  "plainContent r text swarmTaskId = nullish text [] @
     (if r = Swarm \<and> truthy_str swarmTaskId then nl @ nl @ ''_Routed via swarm (task: '' @ the swarmTaskId @ '')_'' else [])"

text \<open>What is written to the client: \<open>data:\<close> lines, the last of which is \<open>[DONE]\<close>.\<close>

datatype Sse = Sse_data json | Sse_done

record Streaming =
  sg_out :: "Sse list"
  sg_completed :: nat
  sg_ended :: bool

definition endStream :: "ms \<Rightarrow> string \<Rightarrow> string \<Rightarrow> Streaming \<Rightarrow> Streaming" where
  "endStream now requestId model st = st\<lparr> sg_out := sg_out st @ [Sse_data (formatOpenAiStreamChunk now requestId model (JStr []) (Some ''stop'')), Sse_done],
     sg_completed := sg_completed st + 1, sg_ended := True \<rparr>"

text \<open>A line that is no JSON, or is \<open>null\<close>, is skipped; so is a message that is \<open>null\<close>.\<close>

definition streamLine :: "(string \<Rightarrow> json option) \<Rightarrow> ms \<Rightarrow> string \<Rightarrow> string \<Rightarrow> string \<Rightarrow> Streaming \<Rightarrow> Streaming" where
  "streamLine parse now requestId model line st =
     (if sg_ended st then st
      else (case parse line of None \<Rightarrow> st | Some JNull \<Rightarrow> st
       | Some v \<Rightarrow>
          (let content = Option.bind (json_member v ''message'') (\<lambda>m. json_member m ''content'');
               st1 = (if truthy_json content
                  then st\<lparr> sg_out := sg_out st @ [Sse_data (formatOpenAiStreamChunk now requestId model (the content) None)] \<rparr> else st) in
           if truthy_json (json_member v ''done'') then endStream now requestId model st1 else st1)))"

definition streamChunk :: "(string \<Rightarrow> json option) \<Rightarrow> ms \<Rightarrow> string \<Rightarrow> string \<Rightarrow> string \<Rightarrow> Streaming \<Rightarrow> Streaming" where
  "streamChunk parse now requestId model chunk = fold (streamLine parse now requestId model) (filter (\<lambda>l. l \<noteq> []) (split_on (CHR 10) chunk))"

text \<open>The whole answer; the stream ends, or fails with a message.\<close>

definition streamReply ::
  "(string \<Rightarrow> json option) \<Rightarrow> ms \<Rightarrow> string \<Rightarrow> string \<Rightarrow> RouteDecision \<Rightarrow> Router \<Rightarrow> string list \<Rightarrow> string option \<Rightarrow> Streaming" where
  "streamReply parse now requestId model r router chunks failure =
     (let st = fold (streamChunk parse now requestId model) chunks \<lparr> sg_out = [Sse_data (routeInfo r model router)], sg_completed = 0, sg_ended = False \<rparr> in
      if sg_ended st then st
      else (case failure of
          None \<Rightarrow> endStream now requestId model st
        | Some e \<Rightarrow> endStream now requestId ''error''
            (st\<lparr> sg_out := sg_out st @ [Sse_data (formatOpenAiStreamChunk now requestId ''error'' (JStr (''Error: '' @ e)) None)] \<rparr>)))"

section \<open>Project and approvals\<close>

datatype ProjectResponse = Not_a_directory | Project_set string

definition setProject :: "(string \<Rightarrow> bool) \<Rightarrow> string \<Rightarrow> string option \<Rightarrow> string option \<times> ProjectResponse" where
  "setProject isDirectory dir active = (if isDirectory dir then (Some dir, Project_set dir) else (active, Not_a_directory))"

text \<open>The map of pending approvals, and the promises that have been settled, each with its value.\<close>

record Approvals =
  ap_pending :: "string list"
  ap_settled :: "(string, bool) jsmap"

definition settleApproval :: "string \<Rightarrow> bool \<Rightarrow> Approvals \<Rightarrow> Approvals" where
  "settleApproval i v s = s\<lparr> ap_pending := filter (\<lambda>j. j \<noteq> i) (ap_pending s),
     ap_settled := (if jsm_has (ap_settled s) i then ap_settled s else jsm_set i v (ap_settled s)) \<rparr>"

definition requestApproval :: "string \<Rightarrow> Approvals \<Rightarrow> Approvals" where
  "requestApproval i s = s\<lparr> ap_pending := jss_add i (ap_pending s) \<rparr>"

text \<open>The answer tells whether there was such an approval (404 otherwise).\<close>

definition toolApproval :: "string \<Rightarrow> bool \<Rightarrow> Approvals \<Rightarrow> Approvals \<times> bool" where
  "toolApproval i approved s = (if i \<in> set (ap_pending s) then (settleApproval i approved s, True) else (s, False))"

definition approvalTimeout :: "string \<Rightarrow> Approvals \<Rightarrow> Approvals" where
  "approvalTimeout i s = (if i \<in> set (ap_pending s) then settleApproval i False s else s)"

text \<open>One client closes its connection: every pending approval is rejected.\<close>

definition clientClosed :: "Approvals \<Rightarrow> Approvals" where
  "clientClosed s = fold (\<lambda>i. settleApproval i False) (ap_pending s) s"

section \<open>Blocks in an answer\<close>

text \<open>The text before a newline and a fence, and the text after them.\<close>

fun untilClose :: "string \<Rightarrow> (string \<times> string) option" where
  "untilClose [] = None"
| "untilClose (c # s) = (if take 4 (c # s) = CHR 10 # fence then Some ([], drop 4 (c # s))
     else map_option (\<lambda>(body, after). (c # body, after)) (untilClose s))"

text \<open>\<open>\s*\n\<close> takes the last newline of the white space, or an earlier one where no closing fence follows the last.\<close>

definition blockAt :: "string \<Rightarrow> string \<Rightarrow> (string \<times> nat) option" where
  "blockAt kind s = Option.bind (stripPrefix (fence @ kind) s) (\<lambda>r.
     map_option (\<lambda>(body, after). (body, length s - length after))
       (firstSome (\<lambda>i. untilClose (drop (i + 1) r)) (rev (filter (\<lambda>i. r ! i = CHR 10) [0..<length (takeWhile is_space r)]))))"

datatype BlockKind = Tool_call_block | Plan_block

record BlockMatch =
  bm_kind :: BlockKind
  bm_start :: nat
  bm_end :: nat
  bm_body :: string

fun kindText :: "BlockKind \<Rightarrow> string" where
  "kindText Tool_call_block = ''tool_call''"
| "kindText Plan_block = ''plan''"

function findBlocks :: "BlockKind \<Rightarrow> nat \<Rightarrow> string \<Rightarrow> BlockMatch list" where
  "findBlocks kind pos [] = []"
| "findBlocks kind pos (c # s) = (case blockAt (kindText kind) (c # s) of
     None \<Rightarrow> findBlocks kind (pos + 1) s
   | Some (body, len) \<Rightarrow> \<lparr> bm_kind = kind, bm_start = pos, bm_end = pos + len, bm_body = body \<rparr> # findBlocks kind (pos + len) (drop (len - 1) s))"
  by pat_completeness auto
termination by (relation "measure (\<lambda>(_, _, s). length s)") auto

definition blocks :: "string \<Rightarrow> BlockMatch list" where
  "blocks content = sort_key bm_start (findBlocks Tool_call_block 0 content @ findBlocks Plan_block 0 content)"

section \<open>The loop of the agent\<close>

text \<open>Events for the editor.\<close>

datatype IdeEvent =
    Ev_text string
  | Ev_plan "(json option \<times> json option \<times> json option) list"
  | Ev_tool_call string "json option" json bool
  | Ev_tool_result string ToolResult
  | Ev_shell_output string "json option" "json option" "json option"
  | Ev_done

text \<open>
  \<open>ch_events\<close> are the events written to the editor, \<open>ch_said\<close> counts those handed to \<open>sendEvent\<close>. The calls handed to the
  executor are kept with the number of their approval, for the statements. \<open>ce_gone k\<close> tells whether the client has
  closed its connection when the event number \<open>k\<close> is handed over: \<open>sendEvent\<close> then drops it.
\<close>

record 'w Chat =
  ch_world :: "'w world"
  ch_events :: "IdeEvent list"
  ch_said :: nat
  ch_history :: "(string \<times> string) list"
  ch_calls :: nat
  ch_results :: "string list"
  ch_hadToolCall :: bool
  ch_cursor :: nat
  ch_ran :: "(nat \<times> json option) list"

record 'w ChatEnv =
  ce_tools :: "'w ToolEnv"
  ce_parse :: "string \<Rightarrow> json option"
  ce_model :: "nat \<Rightarrow> (string \<times> string) list \<Rightarrow> string + string"
  ce_callId :: "nat \<Rightarrow> string"
  ce_approved :: "nat \<Rightarrow> bool"
  ce_closed :: "nat \<Rightarrow> bool"
  ce_gone :: "nat \<Rightarrow> bool"

definition say :: "'w ChatEnv \<Rightarrow> IdeEvent \<Rightarrow> 'w Chat \<Rightarrow> 'w Chat" where
  "say e ev c = c\<lparr> ch_said := ch_said c + 1, ch_events := (if ce_gone e (ch_said c) then ch_events c else ch_events c @ [ev]) \<rparr>"

definition sayText :: "'w ChatEnv \<Rightarrow> string \<Rightarrow> 'w Chat \<Rightarrow> 'w Chat" where
  "sayText e s c = (if trim s = [] then c else say e (Ev_text (trim s)) c)"

definition planSteps :: "json \<Rightarrow> (json option \<times> json option \<times> json option) list option" where
  "planSteps v = (case v of
     JArr steps \<Rightarrow> if JNull \<in> set steps then None
       else Some (map (\<lambda>s. (json_member s ''index'', json_member s ''description'',
          if truthy_json (json_member s ''status'') then json_member s ''status'' else Some (JStr ''pending''))) steps)
   | _ \<Rightarrow> None)"

definition planBlock :: "'w ChatEnv \<Rightarrow> string \<Rightarrow> 'w Chat \<Rightarrow> 'w Chat" where
  "planBlock e body c = (case Option.bind (ce_parse e body) planSteps of
     Some steps \<Rightarrow> say e (Ev_plan steps) c | None \<Rightarrow> say e (Ev_text body) c)"

text \<open>The tool and its arguments, of a call that is neither malformed nor \<open>null\<close>.\<close>

definition readCall :: "json option \<Rightarrow> (json option \<times> json) option" where
  "readCall v = (case v of None \<Rightarrow> None | Some JNull \<Rightarrow> None
     | Some v \<Rightarrow> Some (json_member v ''tool'', case json_member v ''args'' of None \<Rightarrow> JObj [] | Some JNull \<Rightarrow> JObj [] | Some a \<Rightarrow> a))"

definition requiresApproval :: "json option \<Rightarrow> bool" where
  "requiresApproval tool = (case tool of Some (JStr s) \<Rightarrow> s \<notin> set READ_TOOLS | _ \<Rightarrow> True)"

definition executeCall :: "'w ToolEnv \<Rightarrow> json option \<Rightarrow> json \<Rightarrow> 'w world \<Rightarrow> 'w world \<times> ToolResult option" where
  "executeCall t tool args w = (case tool of Some (JStr s) \<Rightarrow> execute t s args w | _ \<Rightarrow> (w, Some (Inl (''Unknown tool: '' @ tmpl tool))))"

definition resultText :: "ToolResult \<Rightarrow> string" where
  "resultText r = (case r of Inl e \<Rightarrow> if e = [] then ''(no output)'' else ''[Error]: '' @ e | Inr s \<Rightarrow> s)"

definition resultEvent :: "'w ChatEnv \<Rightarrow> string \<Rightarrow> json option \<Rightarrow> ToolResult \<Rightarrow> IdeEvent" where
  "resultEvent e callId tool r = (case r of
     Inr s \<Rightarrow> if tool = Some (JStr ''run_shell'') \<and> s \<noteq> []
       then (case ce_parse e s of None \<Rightarrow> Ev_tool_result callId r | Some JNull \<Rightarrow> Ev_tool_result callId r
         | Some v \<Rightarrow> Ev_shell_output callId (json_member v ''stdout'') (json_member v ''stderr'') (json_member v ''exit_code''))
       else Ev_tool_result callId r
   | Inl _ \<Rightarrow> Ev_tool_result callId r)"

text \<open>One tool call; \<open>None\<close> where the tool never returns.\<close>

definition toolBlock :: "'w ChatEnv \<Rightarrow> string \<Rightarrow> 'w Chat \<Rightarrow> 'w Chat option" where
  "toolBlock e body c0 =
     (let c = c0\<lparr> ch_hadToolCall := True \<rparr> in
      case readCall (ce_parse e body) of
        None \<Rightarrow> Some (say e (Ev_text (''(malformed tool call: '' @ body @ '')'')) c)
      | Some (tool, args) \<Rightarrow>
         (let n = ch_calls c; callId = ce_callId e n;
              c1 = say e (Ev_tool_call callId tool args (requiresApproval tool)) (c\<lparr> ch_calls := n + 1 \<rparr>) in
          if requiresApproval tool \<and> \<not> ce_approved e n
          then (let msg = ''Tool call '' @ tmpl tool @ '' was rejected by the user.'' in
             Some ((say e (Ev_tool_result callId (Inl msg)) c1)\<lparr> ch_results := ch_results c1 @ [''[Tool '' @ tmpl tool @ '' rejected]: '' @ msg] \<rparr>))
          else (case executeCall (ce_tools e) tool args (ch_world c1) of
              (w, None) \<Rightarrow> None
            | (w, Some r) \<Rightarrow> Some ((say e (resultEvent e callId tool r) c1)\<lparr> ch_world := w, ch_ran := ch_ran c1 @ [(n, tool)],
                ch_results := ch_results c1 @ [''[Tool '' @ tmpl tool @ '' result]: '' @ resultText r] \<rparr>))))"

definition oneBlock :: "'w ChatEnv \<Rightarrow> string \<Rightarrow> BlockMatch \<Rightarrow> 'w Chat \<Rightarrow> 'w Chat option" where
  "oneBlock e content b c =
     (let c1 = (if ch_cursor c < bm_start b then sayText e (drop (ch_cursor c) (take (bm_start b) content)) c else c);
          c2 = c1\<lparr> ch_cursor := bm_end b \<rparr> in
      if bm_kind b = Plan_block then Some (planBlock e (bm_body b) c2) else toolBlock e (bm_body b) c2)"

fun allBlocks :: "'w ChatEnv \<Rightarrow> string \<Rightarrow> BlockMatch list \<Rightarrow> 'w Chat \<Rightarrow> 'w Chat option" where
  "allBlocks e content [] c = Some c"
| "allBlocks e content (b # bs) c = Option.bind (oneBlock e content b c) (allBlocks e content bs)"

text \<open>One answer of the model: the chat, and whether the loop goes on.\<close>

definition handleAnswer :: "'w ChatEnv \<Rightarrow> string \<Rightarrow> 'w Chat \<Rightarrow> ('w Chat \<times> bool) option" where
  "handleAnswer e content c =
     (if trim content = [] then Some (c, False)
      else if blocks content = [] then Some (say e (Ev_text content) c, False)
      else map_option (\<lambda>c1.
         (let c2 = (if ch_cursor c1 < length content then sayText e (drop (ch_cursor c1) content) c1 else c1) in
          (c2\<lparr> ch_history := ch_history c2 @ [(''assistant'', content)]
               @ (if ch_results c2 = [] then [] else [(''user'', join (nl @ nl) (ch_results c2))]) \<rparr>, ch_hadToolCall c2)))
       (allBlocks e content (blocks content) (c\<lparr> ch_cursor := 0, ch_hadToolCall := False, ch_results := [] \<rparr>)))"

definition MAX_ITERATIONS :: nat where
  "MAX_ITERATIONS = 20"

fun chatLoop :: "'w ChatEnv \<Rightarrow> nat \<Rightarrow> 'w Chat \<Rightarrow> 'w Chat option" where
  "chatLoop e 0 c = Some c"
| "chatLoop e (Suc k) c =
     (let i = MAX_ITERATIONS - Suc k in
      if ce_closed e i then Some c
      else (case ce_model e i (ch_history c) of
          Inl msg \<Rightarrow> Some (say e (Ev_text (''Error contacting model: '' @ msg)) c)
        | Inr content \<Rightarrow> (case handleAnswer e content c of
              None \<Rightarrow> None
            | Some (c1, goOn) \<Rightarrow> if goOn then chatLoop e k c1 else Some c1)))"

datatype 'w ChatResponse = No_project | Chat_stuck | Chatted "'w Chat"

text \<open>\<open>POST /v1/ide/chat\<close>: an empty system prompt is left out.\<close>

definition startChat :: "string \<Rightarrow> (string \<times> string) list \<Rightarrow> 'w world \<Rightarrow> 'w Chat" where
  "startChat systemContent messages w = \<lparr> ch_world = w, ch_events = [], ch_said = 0,
     ch_history = (if systemContent = [] then [] else [(''system'', systemContent)]) @ messages,
     ch_calls = 0, ch_results = [], ch_hadToolCall = False, ch_cursor = 0, ch_ran = [] \<rparr>"

definition ideChat ::
  "(string \<Rightarrow> 'w ChatEnv) \<Rightarrow> string option \<Rightarrow> string option \<Rightarrow> string \<Rightarrow> (string \<times> string) list \<Rightarrow> 'w world \<Rightarrow> 'w ChatResponse" where
  "ideChat env active projectRoot systemContent messages w =
     (case (case projectRoot of None \<Rightarrow> active | Some p \<Rightarrow> Some p) of
        None \<Rightarrow> No_project
      | Some dir \<Rightarrow> if dir = [] then No_project
         else (case chatLoop (env dir) MAX_ITERATIONS (startChat systemContent messages w) of
            None \<Rightarrow> Chat_stuck | Some c \<Rightarrow> Chatted (say (env dir) Ev_done c)))"

section \<open>\<open>POST /run\<close>\<close>

definition runLegacy ::
  "(ModelProviderKind \<Rightarrow> nat \<Rightarrow> string \<Rightarrow> string option) \<Rightarrow> (nat \<Rightarrow> string \<Rightarrow> RunResult) \<Rightarrow> nat \<Rightarrow> ModelProviderKind \<Rightarrow> string \<Rightarrow> Language \<Rightarrow>
   ProviderRegistry \<Rightarrow> ProviderRegistry \<times> AgentExecution option" where
  "runLegacy gen exec maxIterations provider task language reg =
     (let reg1 = useProvider provider reg in (reg1, runWithRetry (gen (currentProvider reg1)) exec maxIterations task language))"

section \<open>A stream is closed once\<close>

definition stream_ok :: "Sse \<Rightarrow> Streaming \<Rightarrow> bool" where
  "stream_ok first st \<longleftrightarrow> sg_out st \<noteq> [] \<and> hd (sg_out st) = first \<and>
     (if sg_ended st then sg_completed st = 1 \<and> (\<exists>out fin. sg_out st = out @ [fin, Sse_done] \<and> Sse_done \<notin> set (out @ [fin]))
      else sg_completed st = 0 \<and> Sse_done \<notin> set (sg_out st))"

lemma stream_ok_say: "stream_ok first st \<Longrightarrow> \<not> sg_ended st \<Longrightarrow> stream_ok first (st\<lparr> sg_out := sg_out st @ [Sse_data j] \<rparr>)"
  by (cases "sg_out st") (auto simp: stream_ok_def)

lemma stream_ok_end: "stream_ok first st \<Longrightarrow> \<not> sg_ended st \<Longrightarrow> stream_ok first (endStream now i model st)"
  by (cases "sg_out st") (auto simp: stream_ok_def endStream_def)

lemma stream_ok_line: "stream_ok first st \<Longrightarrow> stream_ok first (streamLine parse now i model line st)"
  by (cases "parse line"; cases "the (parse line)")
    (auto simp: streamLine_def Let_def intro!: stream_ok_end stream_ok_say)

lemma stream_ok_chunk: "stream_ok first st \<Longrightarrow> stream_ok first (streamChunk parse now i model chunk st)"
proof -
  have "stream_ok first st \<Longrightarrow> stream_ok first (fold (streamLine parse now i model) ls st)" for ls
    by (induction ls arbitrary: st) (auto intro: stream_ok_line)
  then show "stream_ok first st \<Longrightarrow> stream_ok first (streamChunk parse now i model chunk st)" by (simp add: streamChunk_def)
qed

text \<open>Whatever the server of the model sends and however it ends: the route comes first, the slot of the router is returned exactly once,
  and the stream is closed exactly once, at its end.\<close>
lemma stream_closed_once:
  "let st = streamReply parse now i model r router chunks failure in
     sg_ended st \<and> sg_completed st = 1 \<and> hd (sg_out st) = Sse_data (routeInfo r model router) \<and>
     (\<exists>out fin. sg_out st = out @ [fin, Sse_done] \<and> Sse_done \<notin> set (out @ [fin]))"
proof -
  let ?first = "Sse_data (routeInfo r model router)"
  have chunks: "stream_ok ?first st \<Longrightarrow> stream_ok ?first (fold (streamChunk parse now i model) cs st)" for cs st
    by (induction cs arbitrary: st) (auto intro: stream_ok_chunk)
  have "stream_ok ?first \<lparr> sg_out = [?first], sg_completed = 0, sg_ended = False \<rparr>" by (simp add: stream_ok_def)
  from chunks [OF this, of chunks]
  have "stream_ok ?first (streamReply parse now i model r router chunks failure) \<and> sg_ended (streamReply parse now i model r router chunks failure)"
    by (auto simp: streamReply_def Let_def endStream_def [THEN arg_cong [where f = sg_ended]] split: option.split
        intro!: stream_ok_end stream_ok_say)
  then show ?thesis by (auto simp: stream_ok_def Let_def)
qed

text \<open>A line cut by the end of a chunk is lost: both parts are no JSON.\<close>

definition ex_parse :: "string \<Rightarrow> json option" where
  "ex_parse s = (if s = ''AB'' then Some (JObj [(''message'', JObj [(''content'', JStr ''x'')])]) else None)"

lemma cut_line_lost:
  "length (sg_out (streamReply ex_parse 0 ''i'' ''m'' Ollama_local newRouter [''AB'' @ nl] None)) = 4 \<and>
   length (sg_out (streamReply ex_parse 0 ''i'' ''m'' Ollama_local newRouter [''A'', ''B'' @ nl] None)) = 3"
  by code_simp

section \<open>Approvals\<close>

datatype ApprovalOp = Request string | Post string bool | Expire string | Closed

fun approvalStep :: "ApprovalOp \<Rightarrow> Approvals \<Rightarrow> Approvals" where
  "approvalStep (Request i) s = requestApproval i s"
| "approvalStep (Post i v) s = fst (toolApproval i v s)"
| "approvalStep (Expire i) s = approvalTimeout i s"
| "approvalStep Closed s = clientClosed s"

lemma settled_settle: "jsm_get (ap_settled (settleApproval i v s)) j =
    (if j = i \<and> jsm_get (ap_settled s) i = None then Some v else jsm_get (ap_settled s) j)"
  by (auto simp: settleApproval_def jsm_has_iff jsm_get_set)

lemma settled_closed:
  "jsm_get (ap_settled (clientClosed s)) j =
     (if j \<in> set (ap_pending s) \<and> jsm_get (ap_settled s) j = None then Some False else jsm_get (ap_settled s) j)"
proof -
  have "jsm_get (ap_settled (fold (\<lambda>i. settleApproval i False) is s)) j =
     (if j \<in> set is \<and> jsm_get (ap_settled s) j = None then Some False else jsm_get (ap_settled s) j)" for "is" s
    by (induction "is" arbitrary: s) (auto simp: settled_settle)
  then show ?thesis by (simp add: clientClosed_def)
qed

lemma settled_step: "jsm_get (ap_settled (approvalStep op s)) j = jsm_get (ap_settled s) j \<or>
    (jsm_get (ap_settled s) j = None \<and> j \<in> set (ap_pending s) \<and>
     (jsm_get (ap_settled (approvalStep op s)) j = Some False \<or> op = Post j True \<and> jsm_get (ap_settled (approvalStep op s)) j = Some True))"
proof (cases op)
  case (Post i v)
  then show ?thesis by (cases v) (auto simp: toolApproval_def settled_settle)
qed (auto simp: requestApproval_def approvalTimeout_def settled_settle settled_closed)

text \<open>A promise is settled once, and as approved only by a request of the editor that names it and approves.\<close>
lemma approved_by_the_editor:
  "jsm_get (ap_settled (fold approvalStep ops s)) i = Some True \<Longrightarrow> jsm_get (ap_settled s) i \<noteq> Some True \<Longrightarrow> Post i True \<in> set ops"
proof (induction ops arbitrary: s)
  case (Cons op ops)
  show ?case
  proof (cases "jsm_get (ap_settled (approvalStep op s)) i = Some True")
    case True
    then show ?thesis using settled_step [of op s i] Cons.prems(2) by auto
  next
    case False
    then show ?thesis using Cons.IH [of "approvalStep op s"] Cons.prems(1) by simp
  qed
qed simp

text \<open>The connection of one editor is enough to reject the calls of every chat.\<close>
lemma close_rejects_every_chat:
  "i \<in> set (ap_pending s) \<Longrightarrow> jsm_get (ap_settled s) i = None \<Longrightarrow> jsm_get (ap_settled (approvalStep Closed s)) i = Some False"
  by (simp add: settled_closed)

section \<open>What the loop runs\<close>

text \<open>What the tools that need no approval can do: read files, run the \<open>git\<close> commands that are meant to show, fetch, and ask GitHub.\<close>

inductive observes :: "'w ToolEnv \<Rightarrow> 'w world \<Rightarrow> 'w world \<Rightarrow> bool" for t where
  observes_git: "command \<in> {''status'', ''diff'', ''log'', ''fetch'', ''remote''} \<Longrightarrow>
    pre \<in> {[], [''-c'', credentialHelper (nullish (te_githubToken t) [])]} \<Longrightarrow> observes t w (fst (te_git t (pre @ command # rest) w))"
| observes_api: "observes t w (fst (te_api t ''GET'' p None w))"

lemma gitShow_fst: "fst (gitShow git args nothing w) = fst (git args w)"
  by (simp add: gitShow_def split: prod.split sum.split)

lemma gitShow_observes: "command \<in> {''status'', ''diff'', ''log'', ''fetch'', ''remote''} \<Longrightarrow> observes t w (fst (gitShow (te_git t) (command # rest) nothing w))"
  using observes_git [of command "[]" t w rest] by (simp add: gitShow_fst)

lemma gitFetch_observes: "observes t w (fst (gitFetch (te_git t) (te_githubToken t) args w))"
  using observes_git [of "''fetch''" "[]" t w "[argString args ''remote'' ''origin'']"]
    observes_git [of "''fetch''" "[''-c'', credentialHelper (nullish (te_githubToken t) [])]" t w "[argString args ''remote'' ''origin'']"]
  by (cases "te_githubToken t") (simp_all add: gitFetch_def execGitAuth_def gitShow_fst Let_def nullish_def)

lemma getGitHubRepo_observes: "observes t w (fst (getGitHubRepo (te_git t) w))"
proof -
  obtain w' r where g: "te_git t [''remote'', ''get-url'', ''origin''] w = (w', r)" by fastforce
  then have "fst (getGitHubRepo (te_git t) w) = w'" by (cases r) (simp_all add: getGitHubRepo_def)
  then show ?thesis using observes_git [of "''remote''" "[]" t w "[''get-url'', ''origin'']"] g by simp
qed

lemma githubApiFetch_observes: "(observes t)\<^sup>*\<^sup>* w (fst (githubApiFetch (te_api t) token ''GET'' p None w))"
proof (cases "truthy_str token")
  case True
  then have "fst (githubApiFetch (te_api t) token ''GET'' p None w) = fst (te_api t ''GET'' p None w)"
    by (auto simp: githubApiFetch_def split: prod.split sum.split)
  then show ?thesis using observes_api [of t w p] by simp
qed (simp add: githubApiFetch_def)

lemma githubListPrs_observes: "(observes t)\<^sup>*\<^sup>* w (fst (githubListPrs (te_git t) (te_api t) token args w))"
proof -
  obtain w1 r where g: "getGitHubRepo (te_git t) w = (w1, r)" by fastforce
  then have o: "observes t w w1" using getGitHubRepo_observes [of t w] by simp
  show ?thesis
  proof (cases r)
    case (Inr or)
    obtain ow rp where or: "or = (ow, rp)" by fastforce
    let ?p = "''/repos/'' @ ow @ ''/'' @ rp @ ''/pulls?state='' @ encodeURIComponent (argString args ''state'' ''open'') @ ''&per_page=30''"
    obtain w2 q where f: "githubApiFetch (te_api t) token ''GET'' ?p None w1 = (w2, q)" by fastforce
    have "fst (githubListPrs (te_git t) (te_api t) token args w) = w2"
      unfolding githubListPrs_def g Inr or Let_def prod.case sum.case f by (simp split: sum.split json.split)
    moreover have "(observes t)\<^sup>*\<^sup>* w1 w2" using githubApiFetch_observes [of t w1 token ?p] unfolding f by simp
    ultimately show ?thesis using o by (simp add: converse_rtranclp_into_rtranclp)
  qed (use o in \<open>simp add: githubListPrs_def g Let_def\<close>)
qed

lemma githubListIssues_observes: "(observes t)\<^sup>*\<^sup>* w (fst (githubListIssues (te_git t) (te_api t) token args w))"
proof -
  obtain w1 r where g: "getGitHubRepo (te_git t) w = (w1, r)" by fastforce
  then have o: "observes t w w1" using getGitHubRepo_observes [of t w] by simp
  show ?thesis
  proof (cases r)
    case (Inr or)
    obtain ow rp where or: "or = (ow, rp)" by fastforce
    let ?p = "''/repos/'' @ ow @ ''/'' @ rp @ ''/issues?state='' @ encodeURIComponent (argString args ''state'' ''open'') @ ''&per_page=30''
      @ (if argString args ''labels'' [] = [] then [] else ''&labels='' @ encodeURIComponent (argString args ''labels'' []))"
    obtain w2 q where f: "githubApiFetch (te_api t) token ''GET'' ?p None w1 = (w2, q)" by fastforce
    have "fst (githubListIssues (te_git t) (te_api t) token args w) = w2"
      unfolding githubListIssues_def g Inr or Let_def prod.case sum.case f by (simp split: sum.split json.split)
    moreover have "(observes t)\<^sup>*\<^sup>* w1 w2" using githubApiFetch_observes [of t w1 token ?p] unfolding f by simp
    ultimately show ?thesis using o by (simp add: converse_rtranclp_into_rtranclp)
  qed (use o in \<open>simp add: githubListIssues_def g Let_def\<close>)
qed

lemma execute_read_tools:
  "execute t ''read_file'' args w = (w, Some (readFileImpl (te_root t) (fst w) args))"
  "execute t ''list_directory'' args w = (w, Some (listDirectory (te_root t) (fst w) (te_readdir t w) args))"
  "execute t ''search_files'' args w = (w, Some (searchFiles (te_root t) (fst w) (te_grep t w) args))"
  "execute t ''git_status'' args w = returned (gitStatus (te_git t) w)"
  "execute t ''git_diff'' args w = returned (gitDiff (te_git t) args w)"
  "execute t ''git_log'' args w = returned (gitLog (te_git t) args w)"
  "execute t ''git_fetch'' args w = returned (gitFetch (te_git t) (te_githubToken t) args w)"
  "execute t ''github_list_prs'' args w = returned (githubListPrs (te_git t) (te_api t) (te_githubToken t) args w)"
  "execute t ''github_list_issues'' args w = returned (githubListIssues (te_git t) (te_api t) (te_githubToken t) args w)"
  by (simp_all add: execute_def)

lemma git_shows:
  "(observes t)\<^sup>*\<^sup>* w (fst (gitStatus (te_git t) w))" "(observes t)\<^sup>*\<^sup>* w (fst (gitDiff (te_git t) args w))"
  "(observes t)\<^sup>*\<^sup>* w (fst (gitLog (te_git t) args w))"
proof -
  show "(observes t)\<^sup>*\<^sup>* w (fst (gitStatus (te_git t) w))"
    unfolding gitStatus_def by (rule r_into_rtranclp, rule gitShow_observes) simp
  show "(observes t)\<^sup>*\<^sup>* w (fst (gitDiff (te_git t) args w))"
    unfolding gitDiff_def gitDiffArgs_def Let_def append_Cons by (rule r_into_rtranclp, rule gitShow_observes) simp
  show "(observes t)\<^sup>*\<^sup>* w (fst (gitLog (te_git t) args w))"
    unfolding gitLog_def Let_def append_Cons by (rule r_into_rtranclp, rule gitShow_observes) simp
qed

lemma gitFetch_closure: "(observes t)\<^sup>*\<^sup>* w (fst (gitFetch (te_git t) (te_githubToken t) args w))"
  by (rule r_into_rtranclp, rule gitFetch_observes)

lemma read_tool_observes:
  assumes "tool \<in> set READ_TOOLS"
  shows "(observes t)\<^sup>*\<^sup>* w (fst (execute t tool args w))"
proof -
  have "list_all (\<lambda>tool. (observes t)\<^sup>*\<^sup>* w (fst (execute t tool args w))) READ_TOOLS"
    unfolding READ_TOOLS_def list.pred_inject execute_read_tools returned_def fst_conv
    by (intro conjI list.pred_inject(1) git_shows gitFetch_closure githubListPrs_observes
        githubListIssues_observes rtranclp.rtrancl_refl)
  then show ?thesis using assms by (simp add: list_all_iff)
qed

text \<open>
  How the world can change in a chat, with the calls in the order in which they ran and the events \<open>evs\<close> the editor got. A call is
  announced, unless the client has gone; what needs no approval only observes.
\<close>

definition announced :: "'w ChatEnv \<Rightarrow> IdeEvent list \<Rightarrow> IdeEvent \<Rightarrow> bool" where
  "announced e evs ev \<longleftrightarrow> ev \<in> set evs \<or> (\<exists>k. ce_gone e k)"

inductive moves :: "'w ChatEnv \<Rightarrow> IdeEvent list \<Rightarrow> 'w world \<Rightarrow> (nat \<times> json option) list \<Rightarrow> 'w world \<Rightarrow> bool" for e evs w where
  moves_none: "moves e evs w [] w"
| moves_observed: "moves e evs w calls w1 \<Longrightarrow> announced e evs (Ev_tool_call (ce_callId e n) tool args False) \<Longrightarrow> (observes (ce_tools e))\<^sup>*\<^sup>* w1 w2 \<Longrightarrow>
    moves e evs w (calls @ [(n, tool)]) w2"
| moves_approved: "moves e evs w calls w1 \<Longrightarrow> announced e evs (Ev_tool_call (ce_callId e n) tool args True) \<Longrightarrow> ce_approved e n \<Longrightarrow>
    moves e evs w (calls @ [(n, tool)]) (fst (executeCall (ce_tools e) tool args w1))"

lemma announced_mono: "announced e evs ev \<Longrightarrow> set evs \<subseteq> set evs' \<Longrightarrow> announced e evs' ev"
  by (auto simp: announced_def)

lemma moves_mono: "moves e evs w calls w' \<Longrightarrow> set evs \<subseteq> set evs' \<Longrightarrow> moves e evs' w calls w'"
  by (induction rule: moves.induct) (auto intro: moves.intros announced_mono)

definition chat_inv :: "'w ChatEnv \<Rightarrow> 'w world \<Rightarrow> 'w Chat \<Rightarrow> bool" where
  "chat_inv e w c \<longleftrightarrow> sorted_wrt (<) (map fst (ch_ran c)) \<and> (\<forall>(n, tool) \<in> set (ch_ran c). n < ch_calls c) \<and>
     moves e (ch_events c) w (ch_ran c) (ch_world c)"

lemma chat_inv_more:
  assumes "chat_inv e w c" "ch_ran c' = ch_ran c" "ch_calls c \<le> ch_calls c'" "set (ch_events c) \<subseteq> set (ch_events c')" "ch_world c' = ch_world c"
  shows "chat_inv e w c'"
  using assms moves_mono [OF _ assms(4)] unfolding chat_inv_def by fastforce

lemma say_simps [simp]:
  "ch_ran (say e ev c) = ch_ran c" "ch_calls (say e ev c) = ch_calls c" "ch_world (say e ev c) = ch_world c" "ch_results (say e ev c) = ch_results c"
  by (simp_all add: say_def)

lemma say_events: "set (ch_events c) \<subseteq> set (ch_events (say e ev c))" "announced e (ch_events (say e ev c)) ev"
  by (auto simp: say_def announced_def)

lemma say_inv: "chat_inv e w c \<Longrightarrow> chat_inv e w (say e ev c)"
  by (erule chat_inv_more) (use say_events in auto)

lemma sayText_inv: "chat_inv e w c \<Longrightarrow> chat_inv e w (sayText e s c)"
  by (simp add: sayText_def say_inv)

lemma planBlock_inv: "chat_inv e w c \<Longrightarrow> chat_inv e w (planBlock e body c)"
  by (simp add: planBlock_def say_inv split: option.split)

lemma call_moves:
  assumes "moves e evs w calls w1" "announced e evs (Ev_tool_call (ce_callId e n) tool args (requiresApproval tool))"
    and "requiresApproval tool \<longrightarrow> ce_approved e n"
  shows "moves e evs w (calls @ [(n, tool)]) (fst (executeCall (ce_tools e) tool args w1))"
proof (cases "requiresApproval tool")
  case True
  then show ?thesis using assms by (intro moves_approved) simp_all
next
  case False
  then obtain s where s: "tool = Some (JStr s)" "s \<in> set READ_TOOLS"
    by (auto simp: requiresApproval_def split: option.splits json.splits)
  have "(observes (ce_tools e))\<^sup>*\<^sup>* w1 (fst (executeCall (ce_tools e) tool args w1))"
    using read_tool_observes [OF s(2)] by (simp add: executeCall_def s(1))
  then show ?thesis using assms(1,2) False by (intro moves_observed [of e evs w calls w1 n tool args]) simp_all
qed

lemma ran_inv:
  assumes "chat_inv e w c" "ch_ran c' = ch_ran c @ [(ch_calls c, tool)]" "ch_calls c' = ch_calls c + 1"
    and "moves e (ch_events c') w (ch_ran c @ [(ch_calls c, tool)]) (ch_world c')"
  shows "chat_inv e w c'"
proof -
  have old: "n < ch_calls c" if "(n, t) \<in> set (ch_ran c)" for n t using assms(1) that by (auto simp: chat_inv_def)
  have "sorted_wrt (<) (map fst (ch_ran c'))" using assms(1) old by (auto simp: assms(2) chat_inv_def sorted_wrt_append)
  then show ?thesis using old assms(2-4) by (fastforce simp: chat_inv_def)
qed

lemma toolBlock_inv:
  assumes "chat_inv e w0 c" "toolBlock e body c = Some c'"
  shows "chat_inv e w0 c'"
proof (cases "readCall (ce_parse e body)")
  case None
  have "chat_inv e w0 (c\<lparr> ch_hadToolCall := True \<rparr>)" using assms(1) by (rule chat_inv_more) simp_all
  then show ?thesis using assms(2) None by (auto simp: toolBlock_def intro: say_inv)
next
  case (Some call)
  obtain tool args where call: "call = (tool, args)" by (cases call)
  let ?n = "ch_calls c"
  let ?ev = "Ev_tool_call (ce_callId e ?n) tool args (requiresApproval tool)"
  let ?c1 = "say e ?ev (c\<lparr> ch_hadToolCall := True, ch_calls := ?n + 1 \<rparr>)"
  have up: "set (ch_events c) \<subseteq> set (ch_events ?c1)" using say_events(1) [of "c\<lparr> ch_hadToolCall := True, ch_calls := ?n + 1 \<rparr>" e ?ev] by simp
  show ?thesis
  proof (cases "requiresApproval tool \<and> \<not> ce_approved e ?n")
    case True
    have "chat_inv e w0 ?c1" using assms(1) by (rule chat_inv_more) (use up in simp_all)
    then have said: "chat_inv e w0 (say e ev ?c1)" for ev by (rule say_inv)
    have "chat_inv e w0 ((say e ev ?c1)\<lparr> ch_results := rs \<rparr>)" for ev rs using said [of ev] by (rule chat_inv_more) simp_all
    then show ?thesis using assms(2) Some call True by (auto simp: toolBlock_def Let_def)
  next
    case False
    obtain w r where x: "executeCall (ce_tools e) tool args (ch_world c) = (w, Some r)"
      using assms(2) Some call False by (cases "executeCall (ce_tools e) tool args (ch_world c)") (auto simp: toolBlock_def Let_def split: option.splits)
    let ?c2 = "say e (resultEvent e (ce_callId e ?n) tool r) ?c1"
    have c': "c' = ?c2\<lparr> ch_world := w, ch_ran := ch_ran c @ [(?n, tool)], ch_results := ch_results c @ [''[Tool '' @ tmpl tool @ '' result]: '' @ resultText r] \<rparr>"
      using assms(2) Some call False x by (simp add: toolBlock_def Let_def)
    have up2: "set (ch_events ?c1) \<subseteq> set (ch_events ?c2)" by (rule say_events(1))
    have "moves e (ch_events ?c2) w0 (ch_ran c) (ch_world c)"
      using assms(1) moves_mono up up2 unfolding chat_inv_def by (meson order_trans)
    moreover have "announced e (ch_events ?c2) ?ev" using announced_mono [OF say_events(2) up2] .
    ultimately have "moves e (ch_events ?c2) w0 (ch_ran c @ [(?n, tool)]) (fst (executeCall (ce_tools e) tool args (ch_world c)))"
      by (rule call_moves) (use False in simp)
    then show ?thesis by (intro ran_inv [OF assms(1), where tool = tool]) (simp_all add: c' x)
  qed
qed

lemma oneBlock_inv:
  assumes "chat_inv e w c" "oneBlock e content b c = Some c'"
  shows "chat_inv e w c'"
proof -
  let ?c1 = "if ch_cursor c < bm_start b then sayText e (drop (ch_cursor c) (take (bm_start b) content)) c else c"
  have "chat_inv e w ?c1" using assms(1) by (simp add: sayText_inv)
  then have c2: "chat_inv e w (?c1\<lparr> ch_cursor := bm_end b \<rparr>)" by (rule chat_inv_more) auto
  show ?thesis
  proof (cases "bm_kind b = Plan_block")
    case True
    then show ?thesis using assms(2) planBlock_inv [OF c2] unfolding oneBlock_def Let_def by auto
  next
    case False
    then show ?thesis using assms(2) unfolding oneBlock_def Let_def by (auto elim: toolBlock_inv [OF c2])
  qed
qed

lemma allBlocks_inv: "chat_inv e w c \<Longrightarrow> allBlocks e content bs c = Some c' \<Longrightarrow> chat_inv e w c'"
proof (induction bs arbitrary: c)
  case (Cons b bs)
  then obtain c1 where "oneBlock e content b c = Some c1" "allBlocks e content bs c1 = Some c'" by (auto split: bind_splits)
  then show ?case using Cons.IH oneBlock_inv [OF Cons.prems(1)] by blast
qed simp

lemma handleAnswer_inv:
  assumes "chat_inv e w c" "handleAnswer e content c = Some (c', goOn)"
  shows "chat_inv e w c'"
proof (cases "trim content = [] \<or> blocks content = []")
  case True
  then show ?thesis using assms by (auto simp: handleAnswer_def say_inv split: if_splits)
next
  case False
  then obtain c1 where a: "allBlocks e content (blocks content) (c\<lparr> ch_cursor := 0, ch_hadToolCall := False, ch_results := [] \<rparr>) = Some c1"
    and c': "c' = (let c2 = (if ch_cursor c1 < length content then sayText e (drop (ch_cursor c1) content) c1 else c1) in
        c2\<lparr> ch_history := ch_history c2 @ [(''assistant'', content)] @ (if ch_results c2 = [] then [] else [(''user'', join (nl @ nl) (ch_results c2))]) \<rparr>)"
    using assms(2) by (auto simp: handleAnswer_def Let_def)
  have "chat_inv e w (c\<lparr> ch_cursor := 0, ch_hadToolCall := False, ch_results := [] \<rparr>)" using assms(1) by (rule chat_inv_more) auto
  then have "chat_inv e w c1" by (rule allBlocks_inv [OF _ a])
  then have "chat_inv e w (if ch_cursor c1 < length content then sayText e (drop (ch_cursor c1) content) c1 else c1)" by (simp add: sayText_inv)
  then show ?thesis unfolding c' Let_def by (rule chat_inv_more) auto
qed

lemma chatLoop_inv: "chat_inv e w c \<Longrightarrow> chatLoop e k c = Some c' \<Longrightarrow> chat_inv e w c'"
proof (induction k arbitrary: c)
  case (Suc k)
  show ?case
  proof (cases "ce_closed e (MAX_ITERATIONS - Suc k)")
    case False
    show ?thesis
    proof (cases "ce_model e (MAX_ITERATIONS - Suc k) (ch_history c)")
      case (Inl msg)
      then show ?thesis using Suc.prems False by (auto simp: say_inv)
    next
      case (Inr content)
      then obtain c1 goOn where h: "handleAnswer e content c = Some (c1, goOn)" using Suc.prems(2) False
        by (cases "handleAnswer e content c") auto
      have "chat_inv e w c1" by (rule handleAnswer_inv [OF Suc.prems(1) h])
      then show ?thesis using Suc.IH [of c1] Suc.prems(2) False Inr h by (cases goOn) auto
    qed
  qed (use Suc.prems in auto)
qed simp

text \<open>
  C16: Nothing is done in a chat without approval but to observe. Whatever a model answers, the files and the rest of the world change only by
  the calls the chat has run, each at most once and in order: a call without approval does no more than read files, run
  \<open>git status\<close>, \<open>diff\<close>, \<open>log\<close>, \<open>fetch\<close> or \<open>remote\<close> and send \<open>GET\<close> requests to GitHub, and every other call was approved
  under its number; and each was announced to the editor with its arguments and the mark whether it needs approval, unless the client had closed
  its connection. The \<open>git\<close> commands take arguments of the model, options among them
  (\<open>read_tools_take_options\<close>): that such a command only shows something is not part of the claim.
\<close>

theorem write_tools_need_approval:
  assumes "ideChat env active (Some dir) systemContent messages w = Chatted c"
  shows "moves (env dir) (ch_events c) w (ch_ran c) (ch_world c) \<and> distinct (map fst (ch_ran c))"
proof -
  obtain c1 where c1: "chatLoop (env dir) MAX_ITERATIONS (startChat systemContent messages w) = Some c1" "c = say (env dir) Ev_done c1"
    using assms by (auto simp: ideChat_def split: if_splits option.splits)
  have "chat_inv (env dir) w (startChat systemContent messages w)" by (simp add: chat_inv_def startChat_def moves_none)
  then have "chat_inv (env dir) w c" using chatLoop_inv [OF _ c1(1)] by (simp add: c1(2) say_inv)
  then show ?thesis by (auto simp: chat_inv_def strict_sorted_iff)
qed

text \<open>A model that writes one file, with the approval of the editor.\<close>

definition ex_chat_env :: "string \<Rightarrow> unit ChatEnv" where
  "ex_chat_env dir = \<lparr> ce_tools = ex_tools,
     ce_parse = (\<lambda>s. if s = ''W'' then Some (JObj [(''tool'', JStr ''write_file''), (''args'', ex_write ''b'' ''x'')]) else None),
     ce_model = (\<lambda>i h. Inr (if i = 0 then fence @ ''tool_call'' @ nl @ ''W'' @ nl @ fence else [])),
     ce_callId = (\<lambda>n. ''tc''), ce_approved = (\<lambda>n. n = 0), ce_closed = (\<lambda>i. False), ce_gone = (\<lambda>k. False) \<rparr>"

definition ranAndWrote :: "unit ChatResponse \<Rightarrow> (nat \<times> json option) list \<times> entry option" where
  "ranAndWrote r = (case r of Chatted c \<Rightarrow> (ch_ran c, fst (ch_world c) [''p'', ''b'']) | _ \<Rightarrow> ([], None))"

lemma ex_chat_runs: "ranAndWrote (ideChat ex_chat_env None (Some ''p'') [] [] (ex_fs, ())) = ([(0, Some (JStr ''write_file''))], Some (File ''x''))"
  by code_simp

theorem write_tools_need_approval_witness:
  "\<exists>c args. ideChat ex_chat_env None (Some ''p'') [] [] (ex_fs, ()) = Chatted c \<and> fst (ch_world c) [''p'', ''b''] = Some (File ''x'') \<and>
     moves (ex_chat_env ''p'') (ch_events c) (ex_fs, ()) [(0, Some (JStr ''write_file''))] (ch_world c)"
proof -
  obtain c where c: "ideChat ex_chat_env None (Some ''p'') [] [] (ex_fs, ()) = Chatted c" "ch_ran c = [(0, Some (JStr ''write_file''))]"
    "fst (ch_world c) [''p'', ''b''] = Some (File ''x'')"
    using ex_chat_runs by (cases "ideChat ex_chat_env None (Some ''p'') [] [] (ex_fs, ())") (auto simp: ranAndWrote_def)
  then show ?thesis using write_tools_need_approval [OF c(1)] by auto
qed

section \<open>Blocks\<close>

text \<open>A block that stands alone is found, with its text.\<close>

lemma ex_blocks: "map (\<lambda>b. (bm_kind b, bm_body b)) (blocks (''do'' @ nl @ fence @ ''plan'' @ nl @ ''P'' @ nl @ fence @ nl @ fence @ ''tool_call '' @ nl @ ''T'' @ nl @ fence))
    = [(Plan_block, ''P''), (Tool_call_block, ''T'')]"
  by code_simp

text \<open>A block ends at the first line that begins with a fence.\<close>

lemma first_fence_closes: "map bm_body (blocks (fence @ ''tool_call'' @ nl @ ''ab'' @ nl @ fence @ ''c'' @ nl @ fence)) = [''ab'']"
  by code_simp

lemma blocks_sorted: "sorted (map bm_start (blocks content))"
  by (simp add: blocks_def)

text \<open>A stuck command makes the chat wait for ever: no answer, not even the last event, is sent.\<close>
lemma chat_waits_for_shell:
  "executeCall (ex_tools\<lparr> te_shell := (\<lambda>_ _ w. (w, [Timer])) \<rparr>) (Some (JStr ''run_shell'')) (JObj []) (ex_fs, ()) = ((ex_fs, ()), None)"
  by (simp add: executeCall_def execute_def runShell_def newShell_def ex_tools_def)

end
