(* ===== verification/Orchestration.thy ===== *)
theory Orchestration
  imports AgentRoutes
begin

text \<open>
  What a coordinator does besides queueing (\<open>src/src/swarm/coordinator.ts\<close>): which requests pass its gate, the diagnostics of agents, the
  roll-out of a model to agents, the search for other coordinators at start, the chat that is handed from coordinator to
  coordinator, and the summaries it shows. Answers of the model server and of other coordinators are arguments.
\<close>

section \<open>The gate\<close>

definition tokenIn :: "string \<Rightarrow> string \<Rightarrow> (string, HeaderValue) jsmap \<Rightarrow> bool" where
  "tokenIn key token headers = (token = [] \<or> (case jsm_get headers key of Some (HString t) \<Rightarrow> safeTokenEqual t token | _ \<Rightarrow> False))"

definition hasPortalServiceToken :: "string \<Rightarrow> (string, HeaderValue) jsmap \<Rightarrow> bool" where
  "hasPortalServiceToken token headers = tokenIn ''x-portal-service-token'' token headers"

text \<open>The hook before every request; \<open>False\<close> is the answer 401.\<close>

definition onRequest :: "string \<Rightarrow> string \<Rightarrow> (string, HeaderValue) jsmap \<Rightarrow> string \<Rightarrow> bool" where
  "onRequest meshToken portalToken headers reqPath =
     (reqPath = ''/register'' \<or> reqPath = ''/health/runtime'' \<or> reqPath = ''/identity'' \<or> reqPath = ''/model/pull/progress'' \<or>
      starts_with reqPath ''/admin/dashboard'' \<or> starts_with reqPath ''/mesh/ws'' \<or>
      (hasPortalServiceToken portalToken headers \<and>
         (starts_with reqPath ''/stats/projections/summary'' \<or> starts_with reqPath ''/agent/diagnostics/'' \<or> reqPath = ''/portal/chat'')) \<or>
      hasMeshToken meshToken headers)"

datatype AdminAnswer = Admin_ok | Admin_refused nat string

definition authorizeAdmin :: "string \<Rightarrow> (string, HeaderValue) jsmap \<Rightarrow> AdminAnswer" where
  "authorizeAdmin adminToken headers =
     (if adminToken = [] then Admin_refused 503 ''admin_dashboard_not_configured''
      else (case readHeaderValue headers ''x-admin-token'' of
          None \<Rightarrow> Admin_refused 401 ''invalid_admin_token''
        | Some t \<Rightarrow> if t = [] \<or> \<not> safeTokenEqual t adminToken then Admin_refused 401 ''invalid_admin_token'' else Admin_ok))"

text \<open>The socket of a peer behind a router: the parameters of its address are checked, and \<open>False\<close> closes it.\<close>

definition acceptSocket :: "string \<Rightarrow> string option \<Rightarrow> string option \<Rightarrow> bool" where
  "acceptSocket meshToken token peerId =
     (truthy_str peerId \<and> (meshToken = [] \<or> (truthy_str token \<and> safeTokenEqual (the token) meshToken)))"

section \<open>Roll-outs\<close>

datatype OrderProvider = Use_edgecoder_local | Use_ollama_local

record OrderStatus =
  os_phase :: string
  os_message :: string
  os_progressPct :: "int option"
  os_updatedAtMs :: ms

record Order =
  od_rolloutId :: string
  od_provider :: OrderProvider
  od_model :: string
  od_autoInstall :: bool
  od_pending :: bool
  od_requestedAtMs :: ms
  od_status :: "OrderStatus option"

datatype RolloutStatus = Requested | In_progress | Applied | Failed

datatype TargetType = Target_coordinator | Target_agent

record Rollout =
  rl_rolloutId :: string
  rl_targetType :: TargetType
  rl_targetId :: string
  rl_provider :: OrderProvider
  rl_model :: string
  rl_autoInstall :: bool
  rl_status :: RolloutStatus
  rl_requestedBy :: string
  rl_requestedAtMs :: ms
  rl_updatedAtMs :: ms
  rl_error :: "string option"

record Orchestrator =
  oc_coord :: Coordinator
  oc_provider :: OrderProvider
  oc_orders :: "(string, Order) jsmap"
  oc_rollouts :: "(string, Rollout) jsmap"

definition upsertRollout :: "Rollout \<Rightarrow> Orchestrator \<Rightarrow> Orchestrator" where
  "upsertRollout r s = s\<lparr> oc_rollouts := jsm_set (rl_rolloutId r) r (oc_rollouts s) \<rparr>"

definition appendAgentDiagnostic :: "string \<Rightarrow> string \<Rightarrow> ms \<Rightarrow> Orchestrator \<Rightarrow> Orchestrator" where
  "appendAgentDiagnostic agentId message t s =
     (if trim message = [] then s
      else (let d = cs_diagnostics (oc_coord s) in
        s\<lparr> oc_coord := (oc_coord s)\<lparr> cs_diagnostics := jsm_set agentId (slice_last 250 (nullish (jsm_get d agentId) [] @ [(t, trim message)])) d \<rparr> \<rparr>))"

text \<open>\<open>GET /agent/diagnostics/:agentId\<close>: newest first, two hundred at most, with the number of all.\<close>

definition listDiagnostics :: "string \<Rightarrow> Orchestrator \<Rightarrow> (ms \<times> string) list \<times> nat \<times> ms option" where
  "listDiagnostics agentId s =
     (let sorted = sort_key (\<lambda>(t, _). - t) (nullish (jsm_get (cs_diagnostics (oc_coord s)) agentId) []) in
      (take 200 sorted, length sorted, if sorted = [] then None else Some (fst (hd sorted))))"

text \<open>The letters and digits of a node id, without the prefix of a telephone.\<close>

definition dropPrefix :: "string \<Rightarrow> string \<Rightarrow> string" where
  "dropPrefix p s = (if starts_with s p then drop (length p) s else s)"

definition alnum :: "char \<Rightarrow> bool" where
  "alnum c \<longleftrightarrow> (let n = (of_char c :: nat) in (97 \<le> n \<and> n \<le> 122) \<or> (48 \<le> n \<and> n \<le> 57))"

definition canonicalNodeSuffix :: "string \<Rightarrow> string" where
  "canonicalNodeSuffix nodeId = filter alnum (dropPrefix ''ios-'' (dropPrefix ''iphone-'' (to_lower nodeId)))"

definition iosStyle :: "string \<Rightarrow> bool" where
  "iosStyle s \<longleftrightarrow> starts_with (to_lower s) ''ios-'' \<or> starts_with (to_lower s) ''iphone-''"

definition looksLikeIosAlias :: "string \<Rightarrow> string \<Rightarrow> bool" where
  "looksLikeIosAlias x y =
     (let a = canonicalNodeSuffix x; b = canonicalNodeSuffix y in
      a \<noteq> [] \<and> b \<noteq> [] \<and> iosStyle x \<and> iosStyle y \<and> (starts_with a b \<or> starts_with b a))"

datatype Target = Target string | Agent_not_connected | Agent_not_recently_seen

definition resolveRecentOrchestrationAgentId :: "int \<Rightarrow> ms \<Rightarrow> (string, AgentCapability) jsmap \<Rightarrow> string \<Rightarrow> Target" where
  "resolveRecentOrchestrationAgentId window now caps requested =
     (case jsm_get caps requested of
        Some cap \<Rightarrow> if now - ag_lastSeenMs cap \<le> window then Target requested else Agent_not_recently_seen
      | None \<Rightarrow> (case sort_key (\<lambda>(_, cap). - ag_lastSeenMs cap)
            (filter (\<lambda>(agentId, cap). looksLikeIosAlias agentId requested \<and> now - ag_lastSeenMs cap \<le> window) caps) of
          [] \<Rightarrow> Agent_not_connected
        | (agentId, _) # _ \<Rightarrow> if agentId = [] then Agent_not_connected else Target agentId))"

record InstallBody =
  ib_provider :: OrderProvider
  ib_model :: string
  ib_autoInstall :: bool
  ib_requestedBy :: string

fun providerName :: "OrderProvider \<Rightarrow> string" where
  "providerName Use_edgecoder_local = ''edgecoder-local''"
| "providerName Use_ollama_local = ''ollama-local''"

datatype OrchReply =
    Install_refused Target
  | Installing string string
  | Orchestration_not_found
  | Status_recorded
  | Acked bool "string option"

definition orderRollout :: "string \<Rightarrow> Order \<Rightarrow> RolloutStatus \<Rightarrow> string \<Rightarrow> ms \<Rightarrow> string option \<Rightarrow> Rollout" where
  "orderRollout agentId ordr st requestedBy now err =
     \<lparr> rl_rolloutId = od_rolloutId ordr, rl_targetType = Target_agent, rl_targetId = agentId, rl_provider = od_provider ordr, rl_model = od_model ordr,
       rl_autoInstall = od_autoInstall ordr, rl_status = st, rl_requestedBy = requestedBy, rl_requestedAtMs = od_requestedAtMs ordr,
       rl_updatedAtMs = now, rl_error = err \<rparr>"

definition agentInstall :: "int \<Rightarrow> string \<Rightarrow> ms \<Rightarrow> string \<Rightarrow> InstallBody \<Rightarrow> Orchestrator \<Rightarrow> Orchestrator \<times> OrchReply" where
  "agentInstall window rolloutId now requested b s =
     (case resolveRecentOrchestrationAgentId window now (cs_caps (oc_coord s)) requested of
        Target target \<Rightarrow>
          (let s1 = (if target \<noteq> requested then appendAgentDiagnostic requested (''Routing model switch request to active id '' @ target) now s else s);
               s2 = appendAgentDiagnostic target (''Model switch requested: '' @ providerName (ib_provider b) @ '' ('' @ ib_model b @ '') autoInstall=''
                      @ (if ib_autoInstall b then ''true'' else ''false'')) now s1;
               ordr = \<lparr> od_rolloutId = rolloutId, od_provider = ib_provider b, od_model = ib_model b, od_autoInstall = ib_autoInstall b,
                     od_pending = True, od_requestedAtMs = now, od_status = None \<rparr>;
               s3 = s2\<lparr> oc_orders := jsm_set target ordr (oc_orders s2) \<rparr> in
           (upsertRollout (orderRollout target ordr Requested (ib_requestedBy b) now None) s3, Installing target rolloutId))
      | why \<Rightarrow> (appendAgentDiagnostic requested (''Model switch request rejected: ''
            @ (if why = Agent_not_connected then ''agent_not_connected'' else ''agent_not_recently_seen'')) now s, Install_refused why))"

definition agentStatus :: "ms \<Rightarrow> string \<Rightarrow> string \<Rightarrow> string \<Rightarrow> int option \<Rightarrow> Orchestrator \<Rightarrow> Orchestrator \<times> OrchReply" where
  "agentStatus now agentId phase message pct s =
     (case jsm_get (oc_orders s) agentId of
        None \<Rightarrow> (s, Orchestration_not_found)
      | Some ordr \<Rightarrow>
          (let ordr' = ordr\<lparr> od_status := Some \<lparr> os_phase = phase, os_message = message, os_progressPct = pct, os_updatedAtMs = now \<rparr> \<rparr>;
               s1 = appendAgentDiagnostic agentId (phase @ '': '' @ message @ (case pct of None \<Rightarrow> [] | Some p \<Rightarrow> '' ('' @ int_str p @ ''%)'')) now s;
               s2 = s1\<lparr> oc_orders := jsm_set agentId ordr' (oc_orders s1) \<rparr> in
           (upsertRollout (orderRollout agentId ordr' In_progress ''control-plane'' now None) s2, Status_recorded)))"

definition applyOrder :: "Order \<Rightarrow> AgentCapability \<Rightarrow> AgentCapability" where
  "applyOrder ordr c = c\<lparr> ag_localModelProvider := providerName (od_provider ordr),
     ag_localModelCatalog := (if od_provider ordr = Use_ollama_local then [od_model ordr] else [''edgecoder-default'']) \<rparr>"

definition agentAck :: "ms \<Rightarrow> string \<Rightarrow> bool \<Rightarrow> string option \<Rightarrow> Orchestrator \<Rightarrow> Orchestrator \<times> OrchReply" where
  "agentAck now agentId ok err s =
     (case jsm_get (oc_orders s) agentId of
        None \<Rightarrow> (s, Orchestration_not_found)
      | Some ordr \<Rightarrow>
          (let ordr' = ordr\<lparr> od_pending := False \<rparr>;
               s1 = s\<lparr> oc_orders := jsm_set agentId ordr' (oc_orders s) \<rparr>;
               s2 = appendAgentDiagnostic agentId (if ok then ''Model switch applied successfully.'' else ''Model switch failed: '' @ nullish err ''unknown error'') now s1;
               s3 = (if ok then s2\<lparr> oc_coord := updCaps (\<lambda>caps. case jsm_get caps agentId of
                        None \<Rightarrow> caps | Some cap \<Rightarrow> jsm_set agentId (applyOrder ordr' cap) caps) (oc_coord s2) \<rparr> else s2) in
           (upsertRollout (orderRollout agentId ordr' (if ok then Applied else Failed) ''control-plane'' now err) s3, Acked ok err)))"

text \<open>The coordinator's own roll-out: recorded, run (\<open>None\<close> succeeds), and recorded again.\<close>

definition ownRollout :: "string \<Rightarrow> ms \<Rightarrow> ms \<Rightarrow> InstallBody \<Rightarrow> RolloutStatus \<Rightarrow> string option \<Rightarrow> Rollout" where
  "ownRollout rolloutId requestedAt now b st err =
     \<lparr> rl_rolloutId = rolloutId, rl_targetType = Target_coordinator, rl_targetId = ''coordinator-local'', rl_provider = ib_provider b, rl_model = ib_model b,
       rl_autoInstall = ib_autoInstall b, rl_status = st, rl_requestedBy = ib_requestedBy b, rl_requestedAtMs = requestedAt, rl_updatedAtMs = now,
       rl_error = err \<rparr>"

definition coordinatorInstall :: "string \<Rightarrow> ms \<Rightarrow> ms \<Rightarrow> InstallBody \<Rightarrow> string option \<Rightarrow> Orchestrator \<Rightarrow> Orchestrator \<times> bool" where
  "coordinatorInstall rolloutId now later b failure s =
     (let s1 = upsertRollout (ownRollout rolloutId now now b In_progress None) s in
      case failure of
        None \<Rightarrow> (upsertRollout (ownRollout rolloutId now later b Applied None) (s1\<lparr> oc_provider := ib_provider b \<rparr>), True)
      | Some e \<Rightarrow> (upsertRollout (ownRollout rolloutId now later b Failed (Some e)) s1, False))"

text \<open>\<open>GET /orchestration/rollouts\<close> without a database.\<close>

definition listRollouts :: "Orchestrator \<Rightarrow> Rollout list" where
  "listRollouts s = jsm_values (oc_rollouts s)"

section \<open>Finding other coordinators\<close>

definition compactUrls :: "(string \<Rightarrow> string option) \<Rightarrow> string list \<Rightarrow> string list" where
  "compactUrls normUrl urls = filter (\<lambda>u. u \<noteq> []) (map (\<lambda>u. nullish (normUrl u) []) urls)"

text \<open>The registry and the cache give normalized addresses; the first of equal ones stays, and the own address goes.\<close>

definition discoverBootstrapPeers :: "(string \<Rightarrow> string option) \<Rightarrow> string \<Rightarrow> string list \<Rightarrow> string list \<Rightarrow> string list \<Rightarrow> string list" where
  "discoverBootstrapPeers normUrl publicUrl fromRegistry fromCache configured =
     filter (\<lambda>u. Some u \<noteq> normUrl publicUrl)
       (rev (remdups (rev (compactUrls normUrl (compactUrls normUrl fromRegistry @ compactUrls normUrl fromCache @ configured)))))"

record RemoteIdentity =
  ri_peerId :: string
  ri_publicKeyPem :: string
  ri_coordinatorUrl :: string
  ri_networkMode :: NetworkMode

text \<open>The answer of \<open>GET /identity\<close> (\<open>None\<close> where it fails) and whether the registration was accepted (\<open>None\<close> where it throws).\<close>

definition bootstrapPeer ::
  "(string \<Rightarrow> string option) \<Rightarrow> string \<Rightarrow> string \<Rightarrow> (string \<Rightarrow> RemoteIdentity option) \<Rightarrow> (string \<Rightarrow> bool option) \<Rightarrow> string \<Rightarrow>
   Federation \<times> string list \<Rightarrow> Federation \<times> string list" where
  "bootstrapPeer normUrl publicUrl self identity accepts peerUrl st =
     (case identity peerUrl of
        None \<Rightarrow> st
      | Some remote \<Rightarrow>
          if ri_peerId remote = [] \<or> ri_peerId remote = self then st
          else (let effectiveUrl = (case normUrl (ri_coordinatorUrl remote) of Some u \<Rightarrow> Some u | None \<Rightarrow> normUrl peerUrl) in
            if \<not> truthy_str effectiveUrl \<or> effectiveUrl = normUrl publicUrl then st
            else (let gossipUrl = nullish (normUrl peerUrl) (the effectiveUrl);
                      peer = \<lparr> id_peerId = ri_peerId remote, id_publicKeyPem = ri_publicKeyPem remote, id_coordinatorUrl = gossipUrl,
                               id_networkMode = ri_networkMode remote \<rparr>;
                      fed = (fst st)\<lparr> fd_mesh := gossipAddPeer peer (fd_mesh (fst st)),
                               fd_peerScore := jsm_set (ri_peerId remote) (nullish (jsm_get (fd_peerScore (fst st)) (ri_peerId remote)) 100) (fd_peerScore (fst st)) \<rparr>;
                      cache = jss_add gossipUrl (snd st) in
                  (fed, if accepts peerUrl = Some True then jss_add peerUrl cache else cache))))"

definition bootstrapPeerMesh ::
  "(string \<Rightarrow> string option) \<Rightarrow> string \<Rightarrow> string \<Rightarrow> (string \<Rightarrow> RemoteIdentity option) \<Rightarrow> (string \<Rightarrow> bool option) \<Rightarrow> string list \<Rightarrow>
   Federation \<Rightarrow> Federation \<times> string list" where
  "bootstrapPeerMesh normUrl publicUrl self identity accepts candidates fed =
     fold (bootstrapPeer normUrl publicUrl self identity accepts) candidates (fed, [])"

section \<open>Chat from coordinator to coordinator\<close>

text \<open>The installed models: \<open>None\<close> where the local server does not answer, an empty list where it refuses.\<close>

definition chatModel :: "string list \<Rightarrow> string \<Rightarrow> string" where
  "chatModel available wanted =
     (if available \<noteq> [] \<and> \<not> list_ex (\<lambda>m. m = wanted \<or> starts_with m (wanted @ '':'')) available then hd available else wanted)"

definition chatMessages :: "string \<Rightarrow> (string \<times> string) list \<Rightarrow> (string \<times> string) list" where
  "chatMessages systemPrompt messages = (''system'', systemPrompt) # filter (\<lambda>m. fst m \<noteq> ''system'') messages"

text \<open>The peers that advertise a chat, then the configured addresses that are not ours and not among them.\<close>

definition chatPeerUrls :: "string \<Rightarrow> string \<Rightarrow> Federation \<Rightarrow> string list \<Rightarrow> string list" where
  "chatPeerUrls self publicUrl fed configured =
     (let fromMesh = concat (map (\<lambda>(_, cap).
            if \<not> truthy_json (json_member (JObj cap) ''chatEnabled'') \<or> json_member (JObj cap) ''coordinatorId'' = Some (JStr self) then []
            else (case json_member (JObj cap) ''coordinatorId'' of
                Some (JStr c) \<Rightarrow> (case findPeer c fed of Some p \<Rightarrow> if id_coordinatorUrl p = [] then [] else [id_coordinatorUrl p] | None \<Rightarrow> [])
              | _ \<Rightarrow> [])) (fd_federatedCapabilities fed)) in
      fold (\<lambda>url urls. if url \<noteq> publicUrl \<and> url \<notin> set urls then urls @ [url] else urls) configured fromMesh)"

text \<open>
  A coordinator as the chat sees it: its model server (reachable, and answering the chat with success) and the addresses it hands
  a chat to. The fuel counts the hand-overs that may be open at once; the time limits of the requests are left out.
\<close>

record ChatNode =
  cn_reachable :: bool
  cn_answers :: bool
  cn_peers :: "string list"

datatype ChatOutcome = Served string | No_models | Peer_unreachable

fun portalChat :: "nat \<Rightarrow> (string \<Rightarrow> ChatNode option) \<Rightarrow> string \<Rightarrow> ChatOutcome option"
  and tryMeshPeerChat :: "nat \<Rightarrow> (string \<Rightarrow> ChatNode option) \<Rightarrow> string list \<Rightarrow> ChatOutcome option" where
  "portalChat 0 net url = None"
| "portalChat (Suc n) net url = (case net url of
     None \<Rightarrow> Some Peer_unreachable
   | Some node \<Rightarrow> if cn_reachable node \<and> cn_answers node then Some (Served url) else tryMeshPeerChat n net (cn_peers node))"
| "tryMeshPeerChat n net [] = Some No_models"
| "tryMeshPeerChat n net (p # ps) = (case portalChat n net p of
     None \<Rightarrow> None | Some (Served u) \<Rightarrow> Some (Served u) | Some _ \<Rightarrow> tryMeshPeerChat n net ps)"

text \<open>The stream to the browser: the content of every line that has one, and an end mark for every line that says so.\<close>

datatype ChatEvent = Chat_content json | Chat_done

definition chatLine :: "(string \<Rightarrow> json option) \<Rightarrow> string \<Rightarrow> ChatEvent list" where
  "chatLine parse line = (if trim line = [] then []
     else (case parse line of None \<Rightarrow> [] | Some JNull \<Rightarrow> []
       | Some v \<Rightarrow>
          (let content = Option.bind (json_member v ''message'') (\<lambda>m. json_member m ''content'') in
           (if truthy_json content then [Chat_content (the content)] else []) @ (if truthy_json (json_member v ''done'') then [Chat_done] else []))))"

definition chatStream :: "(string \<Rightarrow> json option) \<Rightarrow> string list \<Rightarrow> ChatEvent list" where
  "chatStream parse chunks = concat (map (\<lambda>chunk. concat (map (chatLine parse) (split_on (CHR 10) chunk))) chunks)"

section \<open>Summaries\<close>

record ModelSummary =
  mo_paramSize :: int
  mo_agentCount :: nat

definition countModel :: "AgentCapability \<Rightarrow> (string, ModelSummary) jsmap \<Rightarrow> (string, ModelSummary) jsmap" where
  "countModel cap m = (if \<not> truthy_str (ag_activeModel cap) then m
     else (let k = the (ag_activeModel cap);
               e = nullish (jsm_get m k) \<lparr> mo_paramSize = nullish (ag_activeModelParamSize cap) 0, mo_agentCount = 0 \<rparr> in
           jsm_set k (e\<lparr> mo_agentCount := mo_agentCount e + 1 \<rparr>) m))"

text \<open>\<open>GET /models/available\<close>; its load is zero for every model.\<close>

definition modelsAvailable :: "(string, AgentCapability) jsmap \<Rightarrow> (string, ModelSummary) jsmap" where
  "modelsAvailable caps = fold countModel (map snd caps) []"

record Capacity =
  cp_agentsConnected :: nat
  cp_totalCapacity :: int
  cp_swarmEnabled :: nat
  cp_localOllama :: nat
  cp_ideEnabled :: nat

definition capacity :: "(string, AgentCapability) jsmap \<Rightarrow> Capacity" where
  "capacity caps = (let agents = map snd caps in
     \<lparr> cp_agentsConnected = length agents, cp_totalCapacity = sum_list (map ag_maxConcurrentTasks agents),
       cp_swarmEnabled = length (filter ag_swarmEnabled agents),
       cp_localOllama = length (filter (\<lambda>a. ag_localModelProvider a = ''ollama-local'') agents),
       cp_ideEnabled = length (filter ag_ideEnabled agents) \<rparr>)"

text \<open>A row of the node projection, and its merge with what this coordinator knows of its agents.\<close>

record NodeRow =
  nr_nodeId :: string
  nr_isAgent :: bool
  nr_ownerEmail :: "string option"
  nr_emailVerified :: "bool option"
  nr_nodeApproved :: "bool option"
  nr_active :: "bool option"
  nr_sourceIp :: "string option"
  nr_countryCode :: "string option"
  nr_vpnDetected :: "bool option"
  nr_lastSeenMs :: "ms option"
  nr_updatedAtMs :: "ms option"

definition orElse :: "'a option \<Rightarrow> 'a option \<Rightarrow> 'a option" where
  "orElse x y = (case x of None \<Rightarrow> y | Some _ \<Rightarrow> x)"

definition noRow :: NodeRow where
  "noRow = \<lparr> nr_nodeId = [], nr_isAgent = True, nr_ownerEmail = None, nr_emailVerified = None, nr_nodeApproved = None, nr_active = None,
     nr_sourceIp = None, nr_countryCode = None, nr_vpnDetected = None, nr_lastSeenMs = None, nr_updatedAtMs = None \<rparr>"

definition mergeAgent :: "ms \<Rightarrow> string \<times> AgentCapability \<Rightarrow> (string, NodeRow) jsmap \<Rightarrow> (string, NodeRow) jsmap" where
  "mergeAgent now a m =
     (let existing = nullish (jsm_get m (fst a)) noRow; cap = snd a;
          lastSeen = max (nullish (nr_lastSeenMs existing) 0) (ag_lastSeenMs cap) in
      jsm_set (fst a) \<lparr> nr_nodeId = fst a, nr_isAgent = True, nr_ownerEmail = orElse (ag_ownerEmail cap) (nr_ownerEmail existing),
        nr_emailVerified = Some (nullish (nr_emailVerified existing) True), nr_nodeApproved = Some (nullish (nr_nodeApproved existing) True),
        nr_active = Some (now - lastSeen \<le> 120000), nr_sourceIp = orElse (ag_sourceIp cap) (nr_sourceIp existing),
        nr_countryCode = orElse (ag_countryCode cap) (nr_countryCode existing), nr_vpnDetected = orElse (ag_vpnDetected cap) (nr_vpnDetected existing),
        nr_lastSeenMs = (if 0 < lastSeen then Some lastSeen else None),
        nr_updatedAtMs = Some (max (nullish (nr_updatedAtMs existing) 0) lastSeen) \<rparr> m)"

definition mergeNodes :: "ms \<Rightarrow> string option \<Rightarrow> NodeRow list \<Rightarrow> (string, AgentCapability) jsmap \<Rightarrow> (string, NodeRow) jsmap" where
  "mergeNodes now ownerEmail rows caps =
     fold (mergeAgent now) (filter (\<lambda>(_, cap). \<not> truthy_str ownerEmail \<or> ag_ownerEmail cap = ownerEmail) caps)
       (fold (\<lambda>row m. if trim (nr_nodeId row) = [] then m else jsm_set (trim (nr_nodeId row)) row m) rows [])"

section \<open>Roll-outs and orders\<close>

datatype OrchOp =
    O_install int string ms string InstallBody
  | O_status ms string string string "int option"
  | O_ack ms string bool "string option"
  | O_own string ms ms InstallBody "string option"
  | O_else Coordinator

fun orchStep :: "OrchOp \<Rightarrow> Orchestrator \<Rightarrow> Orchestrator" where
  "orchStep (O_install window rolloutId now requested b) s = fst (agentInstall window rolloutId now requested b s)"
| "orchStep (O_status now a phase message pct) s = fst (agentStatus now a phase message pct s)"
| "orchStep (O_ack now a ok err) s = fst (agentAck now a ok err s)"
| "orchStep (O_own rolloutId now later b failure) s = fst (coordinatorInstall rolloutId now later b failure s)"
| "orchStep (O_else c) s = s\<lparr> oc_coord := c \<rparr>"

text \<open>The identifiers of roll-outs are fresh (\<open>randomUUID\<close>).\<close>

fun freshOp :: "OrchOp \<Rightarrow> Orchestrator \<Rightarrow> bool" where
  "freshOp (O_install window rolloutId now requested b) s \<longleftrightarrow> jsm_get (oc_rollouts s) rolloutId = None"
| "freshOp (O_own rolloutId now later b failure) s \<longleftrightarrow> jsm_get (oc_rollouts s) rolloutId = None"
| "freshOp _ s \<longleftrightarrow> True"

inductive orch_steps :: "Orchestrator \<Rightarrow> Orchestrator \<Rightarrow> bool" where
  orch_refl: "orch_steps s s"
| orch_step: "orch_steps s s' \<Longrightarrow> freshOp op s' \<Longrightarrow> orch_steps s (orchStep op s')"

definition newOrchestrator :: "Coordinator \<Rightarrow> OrderProvider \<Rightarrow> Orchestrator" where
  "newOrchestrator c p = \<lparr> oc_coord = c, oc_provider = p, oc_orders = [], oc_rollouts = [] \<rparr>"

lemma diagnostic_frame [simp]:
  "oc_orders (appendAgentDiagnostic a m t s) = oc_orders s" "oc_rollouts (appendAgentDiagnostic a m t s) = oc_rollouts s"
  "oc_provider (appendAgentDiagnostic a m t s) = oc_provider s"
  by (simp_all add: appendAgentDiagnostic_def Let_def)

lemma upsert_frame [simp]: "oc_orders (upsertRollout r s) = oc_orders s" "oc_rollouts (upsertRollout r s) = jsm_set (rl_rolloutId r) r (oc_rollouts s)"
  by (simp_all add: upsertRollout_def)

text \<open>What an operation does to orders and roll-outs: nothing; a new order with its roll-out; a change of the current order of an agent
  with its roll-out; or a roll-out of the coordinator itself.\<close>

lemma orch_effect:
  obtains "oc_orders (orchStep op s) = oc_orders s" "oc_rollouts (orchStep op s) = oc_rollouts s"
  | target ordr requestedBy now where "oc_orders (orchStep op s) = jsm_set target ordr (oc_orders s)"
      "oc_rollouts (orchStep op s) = jsm_set (od_rolloutId ordr) (orderRollout target ordr Requested requestedBy now None) (oc_rollouts s)"
      "freshOp op s \<Longrightarrow> jsm_get (oc_rollouts s) (od_rolloutId ordr) = None"
  | a old ordr st now err where "jsm_get (oc_orders s) a = Some old" "oc_orders (orchStep op s) = jsm_set a ordr (oc_orders s)"
      "od_rolloutId ordr = od_rolloutId old" "od_provider ordr = od_provider old" "od_model ordr = od_model old"
      "oc_rollouts (orchStep op s) = jsm_set (od_rolloutId ordr) (orderRollout a ordr st ''control-plane'' now err) (oc_rollouts s)"
      "od_pending ordr \<Longrightarrow> st = In_progress"
  | r r' i where "oc_orders (orchStep op s) = oc_orders s" "rl_rolloutId r = i" "rl_rolloutId r' = i"
      "oc_rollouts (orchStep op s) = jsm_set i r' (jsm_set i r (oc_rollouts s))" "freshOp op s \<Longrightarrow> jsm_get (oc_rollouts s) i = None"
proof (cases op)
  case (O_install window rid now requested b)
  show ?thesis
  proof (cases "resolveRecentOrchestrationAgentId window now (cs_caps (oc_coord s)) requested")
    case (Target target)
    show ?thesis
      by (rule that(2) [of target "\<lparr> od_rolloutId = rid, od_provider = ib_provider b, od_model = ib_model b, od_autoInstall = ib_autoInstall b,
            od_pending = True, od_requestedAtMs = now, od_status = None \<rparr>" "ib_requestedBy b" now])
        (simp_all add: O_install agentInstall_def Target Let_def orderRollout_def)
  qed (rule that(1); simp add: O_install agentInstall_def)+
next
  case (O_status now a phase message pct)
  show ?thesis
  proof (cases "jsm_get (oc_orders s) a")
    case (Some old)
    show ?thesis
      by (rule that(3) [of a old "old\<lparr> od_status := Some \<lparr> os_phase = phase, os_message = message, os_progressPct = pct, os_updatedAtMs = now \<rparr> \<rparr>" In_progress now None])
        (simp_all add: O_status agentStatus_def Some Let_def orderRollout_def)
  qed (rule that(1); simp add: O_status agentStatus_def)
next
  case (O_ack now a ok err)
  show ?thesis
  proof (cases "jsm_get (oc_orders s) a")
    case (Some old)
    show ?thesis
      by (rule that(3) [of a old "old\<lparr> od_pending := False \<rparr>" "if ok then Applied else Failed" now err])
        (simp_all add: O_ack agentAck_def Some Let_def orderRollout_def)
  qed (rule that(1); simp add: O_ack agentAck_def)
next
  case (O_own rid now later b failure)
  show ?thesis
    by (rule that(4) [of "ownRollout rid now now b In_progress None" rid
          "case failure of None \<Rightarrow> ownRollout rid now later b Applied None | Some e \<Rightarrow> ownRollout rid now later b Failed (Some e)"])
      (simp_all add: O_own coordinatorInstall_def Let_def ownRollout_def upsertRollout_def split: option.split)
next
  case (O_else c)
  show ?thesis by (rule that(1)) (simp_all add: O_else)
qed

text \<open>An order and the record of its roll-out.\<close>

definition tracks :: "string \<Rightarrow> Order \<Rightarrow> Rollout \<Rightarrow> bool" where
  "tracks a ordr r \<longleftrightarrow> rl_targetType r = Target_agent \<and> rl_targetId r = a \<and> rl_provider r = od_provider ordr \<and> rl_model r = od_model ordr \<and>
     (od_pending ordr \<longrightarrow> rl_status r \<in> {Requested, In_progress})"

definition orch_inv :: "Orchestrator \<Rightarrow> bool" where
  "orch_inv s \<longleftrightarrow> (\<forall>a ordr. jsm_get (oc_orders s) a = Some ordr \<longrightarrow> (\<exists>r. jsm_get (oc_rollouts s) (od_rolloutId ordr) = Some r \<and> tracks a ordr r))"

lemma orch_invD: "orch_inv s \<Longrightarrow> jsm_get (oc_orders s) a = Some ordr \<Longrightarrow> \<exists>r. jsm_get (oc_rollouts s) (od_rolloutId ordr) = Some r \<and> tracks a ordr r"
  by (auto simp: orch_inv_def)

lemma orch_invI: "(\<And>a ordr. jsm_get (oc_orders s) a = Some ordr \<Longrightarrow> \<exists>r. jsm_get (oc_rollouts s) (od_rolloutId ordr) = Some r \<and> tracks a ordr r) \<Longrightarrow> orch_inv s"
  by (auto simp: orch_inv_def)

lemma one_agent_per_order: "orch_inv s \<Longrightarrow> jsm_get (oc_orders s) a = Some x \<Longrightarrow> jsm_get (oc_orders s) b = Some y \<Longrightarrow> od_rolloutId x = od_rolloutId y \<Longrightarrow> a = b"
  using orch_invD [of s a x] orch_invD [of s b y] by (auto simp: tracks_def)

lemma orch_step_inv:
  assumes "orch_inv s" "freshOp op s"
  shows "orch_inv (orchStep op s)"
proof (rule orch_effect [where op = op and s = s])
  assume "oc_orders (orchStep op s) = oc_orders s" "oc_rollouts (orchStep op s) = oc_rollouts s"
  then show ?thesis using assms(1) by (simp add: orch_inv_def)
next
  fix target ordr requestedBy now
  assume e: "oc_orders (orchStep op s) = jsm_set target ordr (oc_orders s)"
      "oc_rollouts (orchStep op s) = jsm_set (od_rolloutId ordr) (orderRollout target ordr Requested requestedBy now None) (oc_rollouts s)"
      "freshOp op s \<Longrightarrow> jsm_get (oc_rollouts s) (od_rolloutId ordr) = None"
  show ?thesis
  proof (rule orch_invI)
    fix a x assume g: "jsm_get (oc_orders (orchStep op s)) a = Some x"
    show "\<exists>r. jsm_get (oc_rollouts (orchStep op s)) (od_rolloutId x) = Some r \<and> tracks a x r"
    proof (cases "a = target")
      case True
      then show ?thesis using g by (simp add: e(1,2) jsm_get_set tracks_def orderRollout_def)
    next
      case False
      then obtain r where "jsm_get (oc_rollouts s) (od_rolloutId x) = Some r \<and> tracks a x r" using g orch_invD [OF assms(1)] by (auto simp: e(1) jsm_get_set)
      then show ?thesis using e(3) [OF assms(2)] by (auto simp: e(2) jsm_get_set)
    qed
  qed
next
  fix b old ordr st now err
  assume e: "jsm_get (oc_orders s) b = Some old" "oc_orders (orchStep op s) = jsm_set b ordr (oc_orders s)"
      "od_rolloutId ordr = od_rolloutId old" "od_provider ordr = od_provider old" "od_model ordr = od_model old"
      "oc_rollouts (orchStep op s) = jsm_set (od_rolloutId ordr) (orderRollout b ordr st ''control-plane'' now err) (oc_rollouts s)"
      "od_pending ordr \<Longrightarrow> st = In_progress"
  show ?thesis
  proof (rule orch_invI)
    fix a x assume g: "jsm_get (oc_orders (orchStep op s)) a = Some x"
    show "\<exists>r. jsm_get (oc_rollouts (orchStep op s)) (od_rolloutId x) = Some r \<and> tracks a x r"
    proof (cases "a = b")
      case True
      then show ?thesis using g e(7) by (auto simp: e(2,6) jsm_get_set tracks_def orderRollout_def)
    next
      case False
      then have x: "jsm_get (oc_orders s) a = Some x" using g by (simp add: e(2) jsm_get_set)
      have "od_rolloutId x \<noteq> od_rolloutId ordr" using one_agent_per_order [OF assms(1) x e(1)] False e(3) by auto
      then show ?thesis using orch_invD [OF assms(1) x] by (simp add: e(6) jsm_get_set)
    qed
  qed
next
  fix r r' i
  assume e: "oc_orders (orchStep op s) = oc_orders s" "oc_rollouts (orchStep op s) = jsm_set i r' (jsm_set i r (oc_rollouts s))"
    "freshOp op s \<Longrightarrow> jsm_get (oc_rollouts s) i = None"
  show ?thesis
  proof (rule orch_invI)
    fix a x assume g: "jsm_get (oc_orders (orchStep op s)) a = Some x"
    then obtain q where "jsm_get (oc_rollouts s) (od_rolloutId x) = Some q \<and> tracks a x q" using orch_invD [OF assms(1)] by (auto simp: e(1))
    then show "\<exists>r. jsm_get (oc_rollouts (orchStep op s)) (od_rolloutId x) = Some r \<and> tracks a x r" using e(3) [OF assms(2)]
      by (auto simp: e(2) jsm_get_set)
  qed
qed

lemma orch_steps_inv: "orch_steps s s' \<Longrightarrow> orch_inv s \<Longrightarrow> orch_inv s'"
  by (induction rule: orch_steps.induct) (auto intro: orch_step_inv)

text \<open>No order refers to the roll-out any more.\<close>

definition abandoned :: "string \<Rightarrow> Rollout \<Rightarrow> Orchestrator \<Rightarrow> bool" where
  "abandoned i r s \<longleftrightarrow> jsm_get (oc_rollouts s) i = Some r \<and> (\<forall>a ordr. jsm_get (oc_orders s) a = Some ordr \<longrightarrow> od_rolloutId ordr \<noteq> i)"

lemma abandoned_step:
  assumes "abandoned i r s" "freshOp op s"
  shows "abandoned i r (orchStep op s)"
  by (rule orch_effect [where op = op and s = s])
    (use assms in \<open>auto simp: abandoned_def jsm_get_set split: if_splits\<close>)

lemma abandoned_steps: "orch_steps s s' \<Longrightarrow> abandoned i r s \<Longrightarrow> abandoned i r s'"
  by (induction rule: orch_steps.induct) (auto intro: abandoned_step)

lemma install_effect:
  assumes "agentInstall window rolloutId now requested b s = (s1, Installing a i)"
  obtains r x where "oc_rollouts s1 = jsm_set rolloutId r (oc_rollouts s)" "od_rolloutId x = rolloutId" "oc_orders s1 = jsm_set a x (oc_orders s)"
proof (cases "resolveRecentOrchestrationAgentId window now (cs_caps (oc_coord s)) requested")
  case (Target target)
  let ?x = "\<lparr> od_rolloutId = rolloutId, od_provider = ib_provider b, od_model = ib_model b, od_autoInstall = ib_autoInstall b,
     od_pending = True, od_requestedAtMs = now, od_status = None \<rparr>"
  have s1: "s1 = fst (agentInstall window rolloutId now requested b s)" by (simp add: assms)
  have "snd (agentInstall window rolloutId now requested b s) = Installing a i" by (simp add: assms)
  then have "target = a" by (simp add: agentInstall_def Target Let_def)
  then show ?thesis
    by (intro that [of "orderRollout a ?x Requested (ib_requestedBy b) now None" ?x]) (simp_all add: s1 agentInstall_def Target Let_def orderRollout_def)
qed (use assms in \<open>simp_all add: agentInstall_def\<close>)

text \<open>C36: Every order waiting at an agent is recorded as a roll-out to that agent with its provider and model, still open while the order
  is pending. When a second order for the agent replaces a pending one, the record of the first stays open for ever,
  whatever is reported, acknowledged or ordered later.\<close>
theorem superseded_rollout_stays_open:
  assumes "orch_steps (newOrchestrator c p) s" "jsm_get (oc_orders s) a = Some ordr" "od_pending ordr"
    and "freshOp (O_install window rolloutId now requested b) s" "agentInstall window rolloutId now requested b s = (s1, Installing a rolloutId)"
    and "orch_steps s1 s2"
  shows "\<exists>r. jsm_get (oc_rollouts s) (od_rolloutId ordr) = Some r \<and> rl_targetId r = a \<and> rl_provider r = od_provider ordr \<and> rl_model r = od_model ordr \<and>
     rl_status r \<in> {Requested, In_progress} \<and> jsm_get (oc_rollouts s2) (od_rolloutId ordr) = Some r"
proof -
  have inv: "orch_inv s" by (rule orch_steps_inv [OF assms(1)]) (simp add: orch_inv_def newOrchestrator_def jsm_get_def)
  obtain r where r: "jsm_get (oc_rollouts s) (od_rolloutId ordr) = Some r" "tracks a ordr r" using orch_invD [OF inv assms(2)] by blast
  have ne: "od_rolloutId ordr \<noteq> rolloutId" using assms(4) r(1) by auto
  obtain q x' where s1: "oc_rollouts s1 = jsm_set rolloutId q (oc_rollouts s)" "od_rolloutId x' = rolloutId" "oc_orders s1 = jsm_set a x' (oc_orders s)"
    by (rule install_effect [OF assms(5)])
  have "abandoned (od_rolloutId ordr) r s1" unfolding abandoned_def
  proof (intro conjI allI impI)
    show "jsm_get (oc_rollouts s1) (od_rolloutId ordr) = Some r" using s1 r(1) ne by (simp add: jsm_get_set)
    fix a' x assume x: "jsm_get (oc_orders s1) a' = Some x"
    show "od_rolloutId x \<noteq> od_rolloutId ordr"
    proof (cases "a' = a")
      case True
      then have "x = x'" using s1(3) x by (simp add: jsm_get_set)
      then show ?thesis using s1(2) ne by simp
    next
      case False
      then have "jsm_get (oc_orders s) a' = Some x" using s1 x by (auto simp: jsm_get_set)
      then show ?thesis using one_agent_per_order [OF inv _ assms(2)] False by auto
    qed
  qed
  from abandoned_steps [OF assms(6) this] have "jsm_get (oc_rollouts s2) (od_rolloutId ordr) = Some r" by (simp add: abandoned_def)
  then show ?thesis using r assms(3) by (auto simp: tracks_def)
qed

text \<open>Two orders for one agent, and the acknowledgement of the second.\<close>

definition ex_install :: InstallBody where
  "ex_install = \<lparr> ib_provider = Use_ollama_local, ib_model = ''m'', ib_autoInstall = True, ib_requestedBy = ''ops'' \<rparr>"

definition ex_ordered :: Orchestrator where
  "ex_ordered = orchStep (O_install 120000 ''r1'' 50 ''a'' ex_install) (newOrchestrator ex_coord Use_edgecoder_local)"

definition ex_reordered :: Orchestrator where
  "ex_reordered = fst (agentInstall 120000 ''r2'' 60 ''a'' ex_install ex_ordered)"

lemma ex_order: "map_option (\<lambda>x. (od_rolloutId x, od_pending x)) (jsm_get (oc_orders ex_ordered) ''a'') = Some (''r1'', True)"
  and ex_order_fresh: "jsm_get (oc_rollouts ex_ordered) ''r2'' = None"
  and ex_reorder: "snd (agentInstall 120000 ''r2'' 60 ''a'' ex_install ex_ordered) = Installing ''a'' ''r2''"
  by code_simp+

theorem superseded_rollout_stays_open_witness:
  "\<exists>r. jsm_get (oc_rollouts (orchStep (O_ack 70 ''a'' True None) ex_reordered)) ''r1'' = Some r \<and> rl_status r \<in> {Requested, In_progress}"
proof -
  obtain ordr where ordr: "jsm_get (oc_orders ex_ordered) ''a'' = Some ordr" "od_rolloutId ordr = ''r1''" "od_pending ordr" using ex_order by auto
  have s: "orch_steps (newOrchestrator ex_coord Use_edgecoder_local) ex_ordered" unfolding ex_ordered_def
    by (rule orch_step [OF orch_refl]) (simp add: newOrchestrator_def jsm_get_def)
  have i: "agentInstall 120000 ''r2'' 60 ''a'' ex_install ex_ordered = (ex_reordered, Installing ''a'' ''r2'')"
    using ex_reorder by (simp add: ex_reordered_def prod_eq_iff)
  have t: "orch_steps ex_reordered (orchStep (O_ack 70 ''a'' True None) ex_reordered)" by (rule orch_step [OF orch_refl]) simp
  from superseded_rollout_stays_open [OF s ordr(1,3) _ i t] show ?thesis using ex_order_fresh ordr(2) by auto
qed

text \<open>An acknowledgement names no roll-out: the answer to the first order closes the second, which may not even have started.\<close>
lemma late_ack_closes_new_order:
  "map_option rl_status (jsm_get (oc_rollouts (orchStep (O_ack 70 ''a'' True None) ex_reordered)) ''r2'') = Some Applied"
  by code_simp

text \<open>Progress that is reported after the acknowledgement opens the record again, and the name of the requester is lost.\<close>
lemma late_progress_reopens:
  "map_option (\<lambda>r. (rl_status r, rl_requestedBy r))
     (jsm_get (oc_rollouts (orchStep (O_status 80 ''a'' ''pull'' ''x'' None) (orchStep (O_ack 70 ''a'' True None) ex_ordered))) ''r1'') = Some (In_progress, ''control-plane'')"
  by code_simp

text \<open>The agent an order goes to was seen within the window; it is the one that was named, or a telephone whose name looks like it.\<close>
lemma resolved_target:
  assumes "resolveRecentOrchestrationAgentId window now caps requested = Target a"
  shows "\<exists>cap. (a, cap) \<in> set caps \<and> now - ag_lastSeenMs cap \<le> window \<and> (a = requested \<or> looksLikeIosAlias a requested)"
proof (cases "jsm_get caps requested")
  case None
  let ?xs = "sort_key (\<lambda>(_, cap). - ag_lastSeenMs cap) (filter (\<lambda>(agentId, cap). looksLikeIosAlias agentId requested \<and> now - ag_lastSeenMs cap \<le> window) caps)"
  obtain cap rest where "?xs = (a, cap) # rest" using assms None
    by (cases ?xs) (auto simp: resolveRecentOrchestrationAgentId_def split: if_splits)
  then have "(a, cap) \<in> set ?xs" by simp
  then show ?thesis by auto
next
  case (Some cap)
  then show ?thesis using assms jsm_get_in_set [OF Some] by (auto simp: resolveRecentOrchestrationAgentId_def split: if_splits)
qed

text \<open>A short name matches any telephone whose name begins with it.\<close>
lemma short_alias: "looksLikeIosAlias ''iphone-1a2b3c'' ''ios-1''"
  by code_simp

section \<open>Gate and bootstrap\<close>

text \<open>With both tokens configured, a request that carries neither only reaches the public addresses.\<close>
lemma gate_closed:
  assumes "meshToken \<noteq> []" "portalToken \<noteq> []" "jsm_get headers ''x-mesh-token'' = None" "jsm_get headers ''x-portal-service-token'' = None"
    and "onRequest meshToken portalToken headers reqPath"
  shows "reqPath \<in> {''/register'', ''/health/runtime'', ''/identity'', ''/model/pull/progress''} \<or> starts_with reqPath ''/admin/dashboard'' \<or> starts_with reqPath ''/mesh/ws''"
  using assms by (auto simp: onRequest_def hasPortalServiceToken_def tokenIn_def hasMeshToken_def)

text \<open>Without a configured token for the portal, its addresses are open to everybody.\<close>
lemma portal_addresses_open: "onRequest meshToken [] [] ''/portal/chat'' \<and> onRequest meshToken [] [] ''/agent/diagnostics/a''"
  by (simp add: onRequest_def hasPortalServiceToken_def tokenIn_def starts_with_def)

text \<open>The script of the dashboard sends its token as a parameter of the address; the check only reads the header.\<close>
lemma dashboard_refresh_refused: "jsm_get headers ''x-admin-token'' = None \<Longrightarrow> authorizeAdmin token headers \<noteq> Admin_ok"
  by (simp add: authorizeAdmin_def readHeaderValue_def)

lemma set_discovered:
  "distinct (discoverBootstrapPeers normUrl publicUrl a b c)"
  "u \<in> set (discoverBootstrapPeers normUrl publicUrl a b c) \<Longrightarrow> Some u \<noteq> normUrl publicUrl \<and> u \<noteq> []"
  by (auto simp: discoverBootstrapPeers_def compactUrls_def)

text \<open>The search never enters this coordinator among its own peers.\<close>
lemma bootstrap_skips_self:
  "jsm_get (gm_peers (fd_mesh (fst (bootstrapPeerMesh normUrl publicUrl self identity accepts candidates fed)))) self = jsm_get (gm_peers (fd_mesh fed)) self"
proof -
  have step: "jsm_get (gm_peers (fd_mesh (fst (bootstrapPeer normUrl publicUrl self identity accepts url st)))) self = jsm_get (gm_peers (fd_mesh (fst st))) self" for url st
    by (auto simp: bootstrapPeer_def Let_def gossipAddPeer_def jsm_get_set split: option.split)
  have "jsm_get (gm_peers (fd_mesh (fst (fold (bootstrapPeer normUrl publicUrl self identity accepts) us st)))) self = jsm_get (gm_peers (fd_mesh (fst st))) self" for us st
    by (induction us arbitrary: st) (simp_all add: step)
  then show ?thesis by (simp add: bootstrapPeerMesh_def)
qed

text \<open>The identity a coordinator claims is believed: one that answers with the id of a known peer replaces that peer's key and address.\<close>
lemma bootstrap_replaces_key:
  assumes "identity url = Some \<lparr> ri_peerId = victim, ri_publicKeyPem = key, ri_coordinatorUrl = url, ri_networkMode = mode \<rparr>"
    "victim \<noteq> []" "victim \<noteq> self" "normUrl url = Some url" "url \<noteq> []" "normUrl publicUrl \<noteq> Some url"
  shows "\<exists>p. jsm_get (gm_peers (fd_mesh (fst (bootstrapPeer normUrl publicUrl self identity accepts url st)))) victim = Some p \<and>
     id_publicKeyPem p = key \<and> id_coordinatorUrl p = url"
  using assms by (auto simp: bootstrapPeer_def Let_def gossipAddPeer_def jsm_get_set nullish_def)

section \<open>Chat\<close>

text \<open>Where a chat goes: from coordinator to coordinator.\<close>

inductive handed :: "(string \<Rightarrow> ChatNode option) \<Rightarrow> string \<Rightarrow> string \<Rightarrow> bool" for net where
  handed_refl: "handed net u u"
| handed_step: "net u = Some node \<Longrightarrow> p \<in> set (cn_peers node) \<Longrightarrow> handed net p v \<Longrightarrow> handed net u v"

lemma served_sound:
  shows "portalChat n net u = Some (Served v) \<Longrightarrow> handed net u v \<and> (\<exists>node. net v = Some node \<and> cn_reachable node \<and> cn_answers node)"
    and "tryMeshPeerChat n net ps = Some (Served v) \<Longrightarrow> \<exists>p \<in> set ps. handed net p v \<and> (\<exists>node. net v = Some node \<and> cn_reachable node \<and> cn_answers node)"
proof (induction n net u and n net ps rule: portalChat_tryMeshPeerChat.induct)
  case (2 n net url)
  show ?case
  proof (cases "net url")
    case (Some node)
    show ?thesis
    proof (cases "cn_reachable node \<and> cn_answers node")
      case True
      then show ?thesis using 2(2) Some by (auto intro: handed_refl)
    next
      case False
      then have "tryMeshPeerChat n net (cn_peers node) = Some (Served v)" using 2(2) Some by (simp split: if_splits)
      from 2(1) [OF Some False this] show ?thesis using handed_step [where net = net and u = url and node = node, OF Some] by blast
    qed
  qed (use 2(2) in simp)
next
  case (4 n net p ps)
  then show ?case by (auto split: option.splits ChatOutcome.splits)
qed auto

text \<open>Two coordinators whose model servers are down hand a chat back and forth: no number of open requests is enough for an answer.\<close>
lemma failover_loops:
  assumes "net a = Some \<lparr> cn_reachable = ra, cn_answers = False, cn_peers = b # xs \<rparr>" "net b = Some \<lparr> cn_reachable = rb, cn_answers = False, cn_peers = a # ys \<rparr>"
  shows "portalChat n net a = None \<and> portalChat n net b = None"
proof (induction n)
  case (Suc n)
  then show ?case using assms by simp
qed simp

section \<open>Summaries\<close>

definition totalAgents :: "(string, ModelSummary) jsmap \<Rightarrow> nat" where
  "totalAgents m = sum_list (map (mo_agentCount \<circ> snd) m)"

text \<open>Every agent with an active model is counted, once.\<close>
lemma models_counted: "totalAgents (modelsAvailable caps) = length (filter (truthy_str \<circ> ag_activeModel \<circ> snd) caps)"
proof -
  have set_total: "jsm_get m k = Some e \<Longrightarrow> totalAgents (jsm_set k (e\<lparr> mo_agentCount := Suc (mo_agentCount e) \<rparr>) m) = Suc (totalAgents m)" for m k e
    by (induction m) (auto simp: totalAgents_def jsm_get_def jsm_set_def split: if_splits)
  have new_total: "jsm_get m k = None \<Longrightarrow> totalAgents (jsm_set k e m) = totalAgents m + mo_agentCount e" for m k e
    by (induction m) (auto simp: totalAgents_def jsm_get_def jsm_set_def split: if_splits)
  have step: "totalAgents (countModel cap m) = totalAgents m + (if truthy_str (ag_activeModel cap) then 1 else 0)" for cap m
    by (cases "jsm_get m (the (ag_activeModel cap))") (simp_all add: countModel_def Let_def set_total new_total)
  have "totalAgents (fold countModel cs m) = totalAgents m + length (filter (truthy_str \<circ> ag_activeModel) cs)" for cs m
    by (induction cs arbitrary: m) (simp_all add: step)
  then show ?thesis by (simp add: modelsAvailable_def totalAgents_def filter_map comp_assoc)
qed

text \<open>An agent of this coordinator is shown as active exactly when the coordinator or the database has seen it in the last two minutes.\<close>
lemma merged_active:
  "jsm_get (mergeAgent now (a, cap) m) a = Some row \<Longrightarrow>
     nr_active row = Some (now - max (nullish (nr_lastSeenMs (nullish (jsm_get m a) noRow)) 0) (ag_lastSeenMs cap) \<le> 120000)"
  by (auto simp: mergeAgent_def Let_def jsm_get_set)

end
