(* ===== verification/PortalStore.thy ===== *)
theory PortalStore
  imports CoordinatorUtils Ledger
begin

text \<open>
  The accounts store of the portal: the tables and statements of \<open>src/src/portal/store.ts\<close> and the helpers of
  \<open>src/src/portal/portal-utils.ts\<close>. A table is the list of its rows in the order of insertion, a statement a function on it;
  a violated primary key or unique column is \<open>None\<close>, the error the driver throws. Each statement is atomic, as in the database.
\<close>

section \<open>Tables\<close>

definition sqlUpdate :: "('r \<Rightarrow> bool) \<Rightarrow> ('r \<Rightarrow> 'r) \<Rightarrow> 'r list \<Rightarrow> 'r list" where
  "sqlUpdate cond f rows = map (\<lambda>r. if cond r then f r else r) rows"

definition sqlDelete :: "('r \<Rightarrow> bool) \<Rightarrow> 'r list \<Rightarrow> 'r list" where
  "sqlDelete cond rows = filter (\<lambda>r. \<not> cond r) rows"

text \<open>\<open>INSERT\<close> under a unique key.\<close>

definition sqlInsert :: "('r \<Rightarrow> 'k) \<Rightarrow> 'r \<Rightarrow> 'r list \<Rightarrow> 'r list option" where
  "sqlInsert key r rows = (if key r \<in> set (map key rows) then None else Some (rows @ [r]))"

text \<open>\<open>INSERT ... ON CONFLICT (key) DO UPDATE\<close>.\<close>

definition sqlUpsert :: "('r \<Rightarrow> 'k) \<Rightarrow> 'r \<Rightarrow> ('r \<Rightarrow> 'r) \<Rightarrow> 'r list \<Rightarrow> 'r list" where
  "sqlUpsert key r f rows = (if key r \<in> set (map key rows) then sqlUpdate (\<lambda>x. key x = key r) f rows else rows @ [r])"

text \<open>\<open>ORDER BY key DESC\<close>: equal keys stay in the order of the table.\<close>

definition orderDesc :: "('r \<Rightarrow> int) \<Rightarrow> 'r list \<Rightarrow> 'r list" where
  "orderDesc key rows = sort_key (\<lambda>r. - key r) rows"

lemma set_sqlUpdate: "set (sqlUpdate c f rows) = {r \<in> set rows. \<not> c r} \<union> f ` {r \<in> set rows. c r}"
  by (auto simp: sqlUpdate_def)

lemma set_sqlDelete [simp]: "set (sqlDelete c rows) = {r \<in> set rows. \<not> c r}"
  by (auto simp: sqlDelete_def)

lemma map_sqlUpdate: "(\<And>r. g (f r) = g r) \<Longrightarrow> map g (sqlUpdate c f rows) = map g rows"
  by (simp add: sqlUpdate_def)

lemma sqlInsert_SomeD:
  assumes "sqlInsert key r rows = Some rows'"
  shows "rows' = rows @ [r]" "key r \<notin> set (map key rows)"
  using assms by (auto simp: sqlInsert_def split: if_splits)

lemma distinct_sqlInsert: "distinct (map key rows) \<Longrightarrow> sqlInsert key r rows = Some rows' \<Longrightarrow> distinct (map key rows')"
  by (auto simp: sqlInsert_def split: if_splits)

lemma distinct_sqlDelete: "distinct (map key rows) \<Longrightarrow> distinct (map key (sqlDelete c rows))"
  unfolding sqlDelete_def by (induction rows) auto

lemma distinct_sqlUpsert:
  "distinct (map key rows) \<Longrightarrow> (\<And>x. key (f x) = key x) \<Longrightarrow> distinct (map key (sqlUpsert key r f rows))"
  by (auto simp: sqlUpsert_def map_sqlUpdate)

lemma list_all_sqlUpdate:
  "list_all P rows \<Longrightarrow> (\<And>r. P r \<Longrightarrow> c r \<Longrightarrow> P (f r)) \<Longrightarrow> list_all P (sqlUpdate c f rows)"
  by (auto simp: sqlUpdate_def list_all_iff)

lemma list_all_sqlDelete: "list_all P rows \<Longrightarrow> list_all P (sqlDelete c rows)"
  by (auto simp: list_all_iff)

lemma list_all_sqlUpsert:
  "list_all P rows \<Longrightarrow> P r \<Longrightarrow> (\<And>x. P x \<Longrightarrow> P (f x)) \<Longrightarrow> list_all P (sqlUpsert key r f rows)"
  by (auto simp: sqlUpsert_def list_all_sqlUpdate)

text \<open>
  \<open>LIKE\<close>: a percent sign stands for any text, an underscore for one character, a backslash quotes the next character.
\<close>

fun like :: "string \<Rightarrow> string \<Rightarrow> bool" where
  "like [] s = (s = [])"
| "like (c # p) [] = (c = CHR ''%'' \<and> like p [])"
| "like (c # p) (x # s) =
     (if c = CHR ''%'' then like p (x # s) \<or> like (c # p) s
      else if c = CHR ''_'' then like p s
      else if c = bslash then (case p of [] \<Rightarrow> False | d # q \<Rightarrow> d = x \<and> like q s)
      else c = x \<and> like p s)"

lemma like_any [simp]: "like ''%'' s"
  by (induction s) auto

lemma like_extension:
  "CHR ''%'' \<notin> set p \<Longrightarrow> CHR ''_'' \<notin> set p \<Longrightarrow> bslash \<notin> set p \<Longrightarrow> like (p @ ''%'') s \<longleftrightarrow> starts_with s p"
proof (induction p arbitrary: s)
  case Nil
  then show ?case by (simp add: starts_with_def)
next
  case (Cons c p)
  then show ?case by (cases s) (auto simp: starts_with_def)
qed

section \<open>Helpers\<close>

definition normalizeEmail :: "string \<Rightarrow> string" where
  "normalizeEmail email = to_lower (trim email)"

text \<open>The \<open>Cookie\<close> header; \<open>decode\<close> is \<open>decodeURIComponent\<close>, \<open>None\<close> where it throws.\<close>

fun addCookie :: "(string \<Rightarrow> string option) \<Rightarrow> string \<Rightarrow> (string, string) jsmap option \<Rightarrow> (string, string) jsmap option" where
  "addCookie decode segment None = None"
| "addCookie decode segment (Some out) =
     (case split_on (CHR ''='') (trim segment) of
        [] \<Rightarrow> Some out
      | rawKey # rest \<Rightarrow>
          if rawKey = [] \<or> rest = [] then Some out
          else (case decode (join ''='' rest) of None \<Rightarrow> None | Some v \<Rightarrow> Some (jsm_set rawKey v out)))"

definition parseCookies :: "(string \<Rightarrow> string option) \<Rightarrow> string option \<Rightarrow> (string, string) jsmap option" where
  "parseCookies decode cookieHeader =
     (if \<not> truthy_str cookieHeader then Some []
      else fold (addCookie decode) (split_on (CHR '';'') (the cookieHeader)) (Some []))"

definition secureCompare :: "string \<Rightarrow> string \<Rightarrow> bool" where
  "secureCompare a b = (length a = length b \<and> a = b)"

text \<open>\<open>scrypt$salt$hash\<close>; the key derivation is the argument.\<close>

definition hashPassword :: "(string \<Rightarrow> string \<Rightarrow> string) \<Rightarrow> string \<Rightarrow> string \<Rightarrow> string" where
  "hashPassword scrypt salt password = ''scrypt$'' @ salt @ ''$'' @ scrypt password salt"

definition verifyPassword :: "(string \<Rightarrow> string \<Rightarrow> string) \<Rightarrow> string \<Rightarrow> string \<Rightarrow> bool" where
  "verifyPassword scrypt password encoded =
     (case split_on (CHR ''$'') encoded of
        algo # salt # hashHex # _ \<Rightarrow>
          algo = ''scrypt'' \<and> salt \<noteq> [] \<and> hashHex \<noteq> [] \<and> secureCompare (scrypt password salt) hashHex
      | _ \<Rightarrow> False)"

definition normalizeBase64UrlString :: "string option \<Rightarrow> string option" where
  "normalizeBase64UrlString value =
     (case value of
        None \<Rightarrow> None
      | Some s \<Rightarrow>
          (let trimmed = trim s in
           if trimmed = [] then None
           else Some (rev (dropWhile (\<lambda>c. c = CHR ''='')
             (rev (map (\<lambda>c. if c = CHR ''+'' then CHR ''-'' else if c = CHR ''/'' then CHR ''_'' else c) trimmed))))))"

definition coalesce :: "'a option \<Rightarrow> 'a option \<Rightarrow> 'a option" where
  "coalesce a b = (case a of None \<Rightarrow> b | Some x \<Rightarrow> Some x)"

text \<open>The response of an authenticator; a field that is missing or not a text is \<open>None\<close>.\<close>

record PasskeyResponse =
  rs_id :: "string option"
  rs_rawId :: "string option"
  rs_credentialId :: "string option"
  rs_clientDataJSON :: "string option"
  rs_attestationObject :: "string option"
  rs_authenticatorData :: "string option"
  rs_signature :: "string option"
  rs_userHandle :: "string option"

definition normalizeField :: "string option \<Rightarrow> string option" where
  "normalizeField f = (if truthy_str f then coalesce (normalizeBase64UrlString f) f else f)"

definition normalizePasskeyResponsePayload :: "PasskeyResponse \<Rightarrow> PasskeyResponse" where
  "normalizePasskeyResponsePayload source =
     (let pick = coalesce (normalizeBase64UrlString (rs_rawId source))
                   (coalesce (normalizeBase64UrlString (rs_credentialId source)) (normalizeBase64UrlString (rs_id source)));
          normalized = (if truthy_str pick then source\<lparr> rs_id := pick, rs_rawId := pick \<rparr> else source) in
      normalized\<lparr> rs_clientDataJSON := normalizeField (rs_clientDataJSON source),
                  rs_attestationObject := normalizeField (rs_attestationObject source),
                  rs_authenticatorData := normalizeField (rs_authenticatorData source),
                  rs_signature := normalizeField (rs_signature source),
                  rs_userHandle := normalizeField (rs_userHandle source) \<rparr>)"

definition deriveCredentialIdFromVerifyBody :: "string option \<Rightarrow> PasskeyResponse option \<Rightarrow> string option" where
  "deriveCredentialIdFromVerifyBody credentialId response =
     (let fromBody = normalizeBase64UrlString credentialId in
      if truthy_str fromBody then fromBody
      else (case response of
              None \<Rightarrow> None
            | Some r \<Rightarrow> coalesce (normalizeBase64UrlString (rs_id r))
                (coalesce (normalizeBase64UrlString (rs_rawId r)) (normalizeBase64UrlString (rs_credentialId r)))))"

definition deriveWalletSecretRef :: "crypto \<Rightarrow> string \<Rightarrow> string \<Rightarrow> string \<Rightarrow> string" where
  "deriveWalletSecretRef cr seedPhrase accountId pepper =
     ''seed-sha256:'' @ sha256_hex cr (seedPhrase @ '':'' @ accountId @ '':'' @ pepper)"

definition generateSixDigitCode :: "int \<Rightarrow> string" where
  "generateSixDigitCode random32 =
     (let s = int_str (random32 mod 1000000) in replicate (6 - length s) (CHR ''0'') @ s)"

definition iosPrefix :: "string \<Rightarrow> string option" where
  "iosPrefix s = (if starts_with s ''ios-'' then Some (drop 4 s)
                  else if starts_with s ''iphone-'' then Some (drop 7 s) else None)"

definition lowerAlnum :: "char \<Rightarrow> bool" where
  "lowerAlnum c = (let n = (of_char c :: nat) in (97 \<le> n \<and> n \<le> 122) \<or> (48 \<le> n \<and> n \<le> 57))"

definition deriveIosDeviceIdFromNodeId :: "string \<Rightarrow> string option" where
  "deriveIosDeviceIdFromNodeId nodeId =
     (case iosPrefix (to_lower (trim nodeId)) of
        None \<Rightarrow> None
      | Some rest \<Rightarrow> (let suffix = filter lowerAlnum rest in if length suffix \<ge> 6 then Some suffix else None))"

lemma secureCompare_iff [simp]: "secureCompare a b \<longleftrightarrow> a = b"
  by (auto simp: secureCompare_def)

lemma split_on_no_sep: "c \<notin> set s \<Longrightarrow> split_on c s = [s]"
  by (induction s) auto

lemma split_on_append: "c \<notin> set a \<Longrightarrow> split_on c (a @ c # b) = a # split_on c b"
  by (induction a) auto

lemma verify_hashPassword:
  assumes "CHR ''$'' \<notin> set salt" "CHR ''$'' \<notin> set (scrypt p salt)" "salt \<noteq> []" "scrypt p salt \<noteq> []"
  shows "verifyPassword scrypt q (hashPassword scrypt salt p) \<longleftrightarrow> scrypt q salt = scrypt p salt"
proof -
  have "split_on (CHR ''$'') (hashPassword scrypt salt p) = [''scrypt'', salt, scrypt p salt]"
    using assms split_on_append [of "CHR ''$''" "''scrypt''" "salt @ CHR ''$'' # scrypt p salt"]
    by (simp add: hashPassword_def split_on_append split_on_no_sep del: split_on.simps)
  then show ?thesis using assms by (simp add: verifyPassword_def)
qed

text \<open>The value of a cookie that the portal has set is read back.\<close>

lemma trim_no_space: "\<forall>c \<in> set s. \<not> is_space c \<Longrightarrow> trim s = s"
proof -
  assume a: "\<forall>c \<in> set s. \<not> is_space c"
  have d: "dropWhile is_space t = t" if "\<forall>c \<in> set t. \<not> is_space c" for t
    using that by (cases t) auto
  show ?thesis using a by (simp add: trim_def d)
qed

lemma parseCookies_single:
  assumes "decode v = Some v" "CHR ''='' \<notin> set k" "CHR ''='' \<notin> set v" "k \<noteq> []"
    and "CHR '';'' \<notin> set (k @ v)" "\<forall>c \<in> set (k @ v). \<not> is_space c"
  shows "parseCookies decode (Some (k @ ''='' @ v)) = Some [(k, v)]"
proof -
  have sp: "\<forall>c \<in> set (k @ ''='' @ v). \<not> is_space c" using assms(6) by (auto simp: is_space_def)
  have sc: "CHR '';'' \<notin> set (k @ ''='' @ v)" using assms(5) by auto
  have "split_on (CHR ''='') (k @ CHR ''='' # v) = [k, v]"
    using assms by (simp add: split_on_append split_on_no_sep)
  then show ?thesis
    using assms trim_no_space [OF sp] split_on_no_sep [OF sc]
    by (simp add: parseCookies_def jsm_defs)
qed

lemma sixDigits_length: "length (generateSixDigitCode n) \<ge> 6"
  by (simp add: generateSixDigitCode_def Let_def)

section \<open>Rows\<close>

datatype UiTheme = Warm | Midnight | Emerald
datatype UserRole = Role_user | Role_admin
datatype NodeKind = Node_agent | Node_coordinator
datatype DnsStatus = Dns_pending | Dns_active | Dns_nat | Dns_error | Dns_stale
datatype FlowType = Flow_registration | Flow_authentication
datatype SendStatus = Pending_manual_review | Rejected_send | Sent
datatype MessageRole = Msg_user | Msg_assistant | Msg_system

record PortalUser =
  pu_userId :: string
  pu_email :: string
  pu_emailVerified :: bool
  pu_uiTheme :: UiTheme
  pu_role :: UserRole
  pu_passwordHash :: "string option"
  pu_displayName :: "string option"
  pu_createdAtMs :: ms
  pu_verifiedAtMs :: "ms option"

record NodeEnrollment =
  ne_nodeId :: string
  ne_deviceId :: "string option"
  ne_nodeKind :: NodeKind
  ne_ownerUserId :: string
  ne_ownerEmail :: string
  ne_registrationTokenHash :: string
  ne_emailVerified :: bool
  ne_nodeApproved :: bool
  ne_active :: bool
  ne_lastSeenMs :: "ms option"
  ne_lastIp :: "string option"
  ne_lastCountryCode :: "string option"
  ne_lastVpnDetected :: "bool option"
  ne_dnsHostname :: "string option"
  ne_dnsStatus :: "DnsStatus option"
  ne_dnsIp :: "string option"
  ne_dnsLastUpdatedMs :: "ms option"
  ne_createdAtMs :: ms
  ne_updatedAtMs :: ms

record PortalSession =
  ps_sessionId :: string
  ps_userId :: string
  ps_tokenHash :: string
  ps_expiresAtMs :: ms
  ps_createdAtMs :: ms

record EmailVerification =
  ev_tokenId :: string
  ev_userId :: string
  ev_tokenHash :: string
  ev_expiresAtMs :: ms
  ev_consumedAtMs :: "ms option"
  ev_createdAtMs :: ms

record OauthLink =
  ol_provider :: string
  ol_subject :: string
  ol_userId :: string
  ol_emailSnapshot :: "string option"
  ol_createdAtMs :: ms

record OauthState =
  os_stateId :: string
  os_provider :: string
  os_redirectUri :: string
  os_expiresAtMs :: ms
  os_createdAtMs :: ms

record GithubToken =
  gt_userId :: string
  gt_accessToken :: string
  gt_login :: "string option"
  gt_avatarUrl :: "string option"
  gt_scopes :: "string option"
  gt_updatedAtMs :: ms

record WalletOnboarding =
  wo_userId :: string
  wo_accountId :: string
  wo_network :: string
  wo_seedPhraseHash :: string
  wo_encryptedPrivateKeyRef :: string
  wo_derivedAddress :: "string option"
  wo_createdAtMs :: ms
  wo_acknowledgedAtMs :: "ms option"

record SendChallenge =
  sc_challengeId :: string
  sc_userId :: string
  sc_accountId :: string
  sc_destination :: string
  sc_amountSats :: int
  sc_note :: "string option"
  sc_emailCodeHash :: string
  sc_passkeyChallenge :: string
  sc_expiresAtMs :: ms
  sc_consumedAtMs :: "ms option"
  sc_createdAtMs :: ms

record SendRequest =
  sr_requestId :: string
  sr_userId :: string
  sr_accountId :: string
  sr_destination :: string
  sr_amountSats :: int
  sr_note :: "string option"
  sr_status :: SendStatus
  sr_mfaChallengeId :: string
  sr_createdAtMs :: ms

record PasskeyCredential =
  pk_credentialId :: string
  pk_userId :: string
  pk_webauthnUserId :: string
  pk_publicKeyB64Url :: string
  pk_counter :: int
  pk_deviceType :: string
  pk_backedUp :: bool
  pk_transports :: "string list"
  pk_createdAtMs :: ms
  pk_lastUsedAtMs :: "ms option"

record PasskeyChallenge =
  pc_challengeId :: string
  pc_userId :: "string option"
  pc_email :: "string option"
  pc_challenge :: string
  pc_flowType :: FlowType
  pc_expiresAtMs :: ms
  pc_createdAtMs :: ms

record PortalConversation =
  cv_conversationId :: string
  cv_userId :: string
  cv_title :: string
  cv_createdAtMs :: ms
  cv_updatedAtMs :: ms

record PortalMessage =
  mg_messageId :: string
  mg_conversationId :: string
  mg_role :: MessageRole
  mg_content :: string
  mg_tokensUsed :: int
  mg_creditsSpent :: int
  mg_createdAtMs :: ms

record PortalDb =
  db_users :: "PortalUser list"
  db_sessions :: "PortalSession list"
  db_verifications :: "EmailVerification list"
  db_links :: "OauthLink list"
  db_oauthStates :: "OauthState list"
  db_github :: "GithubToken list"
  db_nodes :: "NodeEnrollment list"
  db_wallets :: "WalletOnboarding list"
  db_challenges :: "SendChallenge list"
  db_sends :: "SendRequest list"
  db_passkeys :: "PasskeyCredential list"
  db_passkeyChallenges :: "PasskeyChallenge list"
  db_conversations :: "PortalConversation list"
  db_messages :: "PortalMessage list"

definition emptyPortalDb :: PortalDb where
  "emptyPortalDb =
     \<lparr> db_users = [], db_sessions = [], db_verifications = [], db_links = [], db_oauthStates = [], db_github = [],
       db_nodes = [], db_wallets = [], db_challenges = [], db_sends = [], db_passkeys = [], db_passkeyChallenges = [],
       db_conversations = [], db_messages = [] \<rparr>"

section \<open>Users, sessions and verifications\<close>

definition getUserByEmail :: "string \<Rightarrow> PortalDb \<Rightarrow> PortalUser option" where
  "getUserByEmail email db = find (\<lambda>u. to_lower (pu_email u) = to_lower email) (db_users db)"

definition getUserById :: "string \<Rightarrow> PortalDb \<Rightarrow> PortalUser option" where
  "getUserById userId db = find (\<lambda>u. pu_userId u = userId) (db_users db)"

definition createUser ::
  "string \<Rightarrow> string \<Rightarrow> string option \<Rightarrow> string option \<Rightarrow> bool \<Rightarrow> ms \<Rightarrow> PortalDb \<Rightarrow> (PortalDb \<times> PortalUser) option" where
  "createUser userId email passwordHash displayName emailVerified now db =
     (let u = \<lparr> pu_userId = userId, pu_email = email, pu_emailVerified = emailVerified, pu_uiTheme = Warm, pu_role = Role_user,
                pu_passwordHash = passwordHash, pu_displayName = displayName, pu_createdAtMs = now,
                pu_verifiedAtMs = (if emailVerified then Some now else None) \<rparr> in
      if email \<in> set (map pu_email (db_users db)) then None
      else (case sqlInsert pu_userId u (db_users db) of
              None \<Rightarrow> None
            | Some users \<Rightarrow> Some (db\<lparr> db_users := users \<rparr>, u)))"

definition setUserTheme :: "string \<Rightarrow> UiTheme \<Rightarrow> PortalDb \<Rightarrow> PortalDb" where
  "setUserTheme userId theme db =
     db\<lparr> db_users := sqlUpdate (\<lambda>u. pu_userId u = userId) (\<lambda>u. u\<lparr> pu_uiTheme := theme \<rparr>) (db_users db) \<rparr>"

definition setUserRole :: "string \<Rightarrow> UserRole \<Rightarrow> PortalDb \<Rightarrow> PortalDb" where
  "setUserRole userId r db =
     db\<lparr> db_users := sqlUpdate (\<lambda>u. pu_userId u = userId) (\<lambda>u. u\<lparr> pu_role := r \<rparr>) (db_users db) \<rparr>"

definition listAdminUsers :: "PortalDb \<Rightarrow> PortalUser list" where
  "listAdminUsers db = sort_key pu_createdAtMs (filter (\<lambda>u. pu_role u = Role_admin) (db_users db))"

definition listAllUsers :: "PortalDb \<Rightarrow> PortalUser list" where
  "listAllUsers db = sort_key pu_createdAtMs (db_users db)"

text \<open>Two statements: the user, then the nodes it owns.\<close>

definition verifyUserRow :: "string \<Rightarrow> ms \<Rightarrow> PortalDb \<Rightarrow> PortalDb" where
  "verifyUserRow userId now db =
     db\<lparr> db_users := sqlUpdate (\<lambda>u. pu_userId u = userId)
           (\<lambda>u. u\<lparr> pu_emailVerified := True, pu_verifiedAtMs := Some (nullish (pu_verifiedAtMs u) now) \<rparr>) (db_users db) \<rparr>"

definition verifyOwnedNodes :: "string \<Rightarrow> ms \<Rightarrow> PortalDb \<Rightarrow> PortalDb" where
  "verifyOwnedNodes userId now db =
     db\<lparr> db_nodes := sqlUpdate (\<lambda>n. ne_ownerUserId n = userId)
           (\<lambda>n. n\<lparr> ne_emailVerified := True, ne_active := ne_nodeApproved n, ne_updatedAtMs := now \<rparr>) (db_nodes db) \<rparr>"

definition markUserEmailVerified :: "string \<Rightarrow> ms \<Rightarrow> PortalDb \<Rightarrow> PortalDb" where
  "markUserEmailVerified userId now db = verifyOwnedNodes userId now (verifyUserRow userId now db)"

definition linkOauthIdentity :: "string \<Rightarrow> string \<Rightarrow> string \<Rightarrow> string option \<Rightarrow> ms \<Rightarrow> PortalDb \<Rightarrow> PortalDb" where
  "linkOauthIdentity provider subject userId emailSnapshot now db =
     db\<lparr> db_links := sqlUpsert (\<lambda>l. (ol_provider l, ol_subject l))
           \<lparr> ol_provider = provider, ol_subject = subject, ol_userId = userId, ol_emailSnapshot = emailSnapshot, ol_createdAtMs = now \<rparr>
           (\<lambda>l. l\<lparr> ol_userId := userId, ol_emailSnapshot := emailSnapshot \<rparr>) (db_links db) \<rparr>"

definition findOauthIdentity :: "string \<Rightarrow> string \<Rightarrow> PortalDb \<Rightarrow> string option" where
  "findOauthIdentity provider subject db =
     map_option ol_userId (find (\<lambda>l. ol_provider l = provider \<and> ol_subject l = subject) (db_links db))"

definition createEmailVerification :: "string \<Rightarrow> string \<Rightarrow> string \<Rightarrow> ms \<Rightarrow> ms \<Rightarrow> PortalDb \<Rightarrow> PortalDb option" where
  "createEmailVerification tokenId userId tokenHash expiresAtMs now db =
     (if tokenHash \<in> set (map ev_tokenHash (db_verifications db)) then None
      else map_option (\<lambda>rows. db\<lparr> db_verifications := rows \<rparr>)
        (sqlInsert ev_tokenId
           \<lparr> ev_tokenId = tokenId, ev_userId = userId, ev_tokenHash = tokenHash, ev_expiresAtMs = expiresAtMs,
             ev_consumedAtMs = None, ev_createdAtMs = now \<rparr> (db_verifications db)))"

definition openVerification :: "string \<Rightarrow> ms \<Rightarrow> EmailVerification \<Rightarrow> bool" where
  "openVerification tokenHash now v = (ev_tokenHash v = tokenHash \<and> ev_consumedAtMs v = None \<and> ev_expiresAtMs v > now)"

definition consumeEmailVerification :: "string \<Rightarrow> ms \<Rightarrow> PortalDb \<Rightarrow> PortalDb \<times> string option" where
  "consumeEmailVerification tokenHash now db =
     (db\<lparr> db_verifications := sqlUpdate (openVerification tokenHash now) (\<lambda>v. v\<lparr> ev_consumedAtMs := Some now \<rparr>) (db_verifications db) \<rparr>,
      map_option ev_userId (find (openVerification tokenHash now) (db_verifications db)))"

definition createSession :: "string \<Rightarrow> string \<Rightarrow> string \<Rightarrow> ms \<Rightarrow> ms \<Rightarrow> PortalDb \<Rightarrow> PortalDb option" where
  "createSession sessionId userId tokenHash expiresAtMs now db =
     (if tokenHash \<in> set (map ps_tokenHash (db_sessions db)) then None
      else map_option (\<lambda>rows. db\<lparr> db_sessions := rows \<rparr>)
        (sqlInsert ps_sessionId
           \<lparr> ps_sessionId = sessionId, ps_userId = userId, ps_tokenHash = tokenHash, ps_expiresAtMs = expiresAtMs,
             ps_createdAtMs = now \<rparr> (db_sessions db)))"

definition deleteSessionByTokenHash :: "string \<Rightarrow> PortalDb \<Rightarrow> PortalDb" where
  "deleteSessionByTokenHash tokenHash db = db\<lparr> db_sessions := sqlDelete (\<lambda>s. ps_tokenHash s = tokenHash) (db_sessions db) \<rparr>"

definition getSessionByTokenHash :: "string \<Rightarrow> ms \<Rightarrow> PortalDb \<Rightarrow> PortalSession option" where
  "getSessionByTokenHash tokenHash now db = find (\<lambda>s. ps_tokenHash s = tokenHash \<and> ps_expiresAtMs s > now) (db_sessions db)"

definition createOauthState :: "string \<Rightarrow> string \<Rightarrow> string \<Rightarrow> ms \<Rightarrow> ms \<Rightarrow> PortalDb \<Rightarrow> PortalDb option" where
  "createOauthState stateId provider redirectUri expiresAtMs now db =
     map_option (\<lambda>rows. db\<lparr> db_oauthStates := rows \<rparr>)
       (sqlInsert os_stateId
          \<lparr> os_stateId = stateId, os_provider = provider, os_redirectUri = redirectUri, os_expiresAtMs = expiresAtMs, os_createdAtMs = now \<rparr>
          (db_oauthStates db))"

definition consumeOauthState :: "string \<Rightarrow> ms \<Rightarrow> PortalDb \<Rightarrow> PortalDb \<times> OauthState option" where
  "consumeOauthState stateId now db =
     (let hit = (\<lambda>s. os_stateId s = stateId \<and> os_expiresAtMs s > now) in
      (db\<lparr> db_oauthStates := sqlDelete hit (db_oauthStates db) \<rparr>, find hit (db_oauthStates db)))"

definition saveGitHubToken :: "string \<Rightarrow> string \<Rightarrow> string option \<Rightarrow> string option \<Rightarrow> string option \<Rightarrow> ms \<Rightarrow> PortalDb \<Rightarrow> PortalDb" where
  "saveGitHubToken userId accessToken login avatarUrl scopes now db =
     (let row = \<lparr> gt_userId = userId, gt_accessToken = accessToken, gt_login = login, gt_avatarUrl = avatarUrl, gt_scopes = scopes,
                  gt_updatedAtMs = now \<rparr> in
      db\<lparr> db_github := sqlUpsert gt_userId row (\<lambda>_. row) (db_github db) \<rparr>)"

definition getGitHubToken :: "string \<Rightarrow> PortalDb \<Rightarrow> GithubToken option" where
  "getGitHubToken userId db = find (\<lambda>t. gt_userId t = userId) (db_github db)"

definition deleteGitHubToken :: "string \<Rightarrow> PortalDb \<Rightarrow> PortalDb" where
  "deleteGitHubToken userId db = db\<lparr> db_github := sqlDelete (\<lambda>t. gt_userId t = userId) (db_github db) \<rparr>"

section \<open>Node enrolments\<close>

definition getNodeEnrollment :: "string \<Rightarrow> PortalDb \<Rightarrow> NodeEnrollment option" where
  "getNodeEnrollment nodeId db = find (\<lambda>n. ne_nodeId n = nodeId) (db_nodes db)"

text \<open>The device matches when it equals the stored device or either is a \<open>LIKE\<close> prefix of the other.\<close>

definition deviceMatches :: "string \<Rightarrow> NodeEnrollment \<Rightarrow> bool" where
  "deviceMatches normalized n =
     (case ne_deviceId n of
        None \<Rightarrow> False
      | Some d \<Rightarrow> to_lower d = normalized \<or> like (normalized @ ''%'') (to_lower d) \<or> like (to_lower d @ ''%'') normalized)"

definition getNodeEnrollmentByDeviceId :: "string \<Rightarrow> PortalDb \<Rightarrow> NodeEnrollment option" where
  "getNodeEnrollmentByDeviceId deviceId db =
     (let normalized = to_lower (trim deviceId) in
      if normalized = [] then None
      else (case orderDesc ne_updatedAtMs (filter (deviceMatches normalized) (db_nodes db)) of [] \<Rightarrow> None | n # _ \<Rightarrow> Some n))"

record EnrollInput =
  ei_nodeId :: string
  ei_deviceId :: "string option"
  ei_nodeKind :: NodeKind
  ei_ownerUserId :: string
  ei_ownerEmail :: string
  ei_registrationTokenHash :: string
  ei_emailVerified :: bool

definition normalizedDevice :: "string option \<Rightarrow> string option" where
  "normalizedDevice d = (case d of None \<Rightarrow> None | Some s \<Rightarrow> (let x = to_lower (trim s) in if x = [] then None else Some x))"

definition enrollTarget :: "EnrollInput \<Rightarrow> PortalDb \<Rightarrow> string" where
  "enrollTarget i db =
     (case normalizedDevice (ei_deviceId i) of
        None \<Rightarrow> ei_nodeId i
      | Some d \<Rightarrow> (case getNodeEnrollmentByDeviceId d db of None \<Rightarrow> ei_nodeId i | Some e \<Rightarrow> ne_nodeId e))"

definition enrolledRow :: "EnrollInput \<Rightarrow> string \<Rightarrow> ms \<Rightarrow> NodeEnrollment" where
  "enrolledRow i target now =
     \<lparr> ne_nodeId = target, ne_deviceId = normalizedDevice (ei_deviceId i), ne_nodeKind = ei_nodeKind i,
       ne_ownerUserId = ei_ownerUserId i, ne_ownerEmail = ei_ownerEmail i, ne_registrationTokenHash = ei_registrationTokenHash i,
       ne_emailVerified = ei_emailVerified i, ne_nodeApproved = False, ne_active = False, ne_lastSeenMs = None, ne_lastIp = None,
       ne_lastCountryCode = None, ne_lastVpnDetected = None, ne_dnsHostname = None, ne_dnsStatus = None, ne_dnsIp = None,
       ne_dnsLastUpdatedMs = None, ne_createdAtMs = now, ne_updatedAtMs = now \<rparr>"

definition reenrolledRow :: "EnrollInput \<Rightarrow> ms \<Rightarrow> NodeEnrollment \<Rightarrow> NodeEnrollment" where
  "reenrolledRow i now n =
     n\<lparr> ne_deviceId := (case normalizedDevice (ei_deviceId i) of None \<Rightarrow> ne_deviceId n | Some d \<Rightarrow> Some d),
        ne_nodeKind := ei_nodeKind i, ne_ownerUserId := ei_ownerUserId i, ne_ownerEmail := ei_ownerEmail i,
        ne_registrationTokenHash := ei_registrationTokenHash i, ne_emailVerified := ei_emailVerified i,
        ne_active := (ne_nodeApproved n \<and> ei_emailVerified i), ne_updatedAtMs := now \<rparr>"

definition upsertNodeRow :: "EnrollInput \<Rightarrow> string \<Rightarrow> ms \<Rightarrow> PortalDb \<Rightarrow> PortalDb" where
  "upsertNodeRow i target now db =
     db\<lparr> db_nodes := sqlUpsert ne_nodeId (enrolledRow i target now) (reenrolledRow i now) (db_nodes db) \<rparr>"

definition upsertNodeEnrollment :: "EnrollInput \<Rightarrow> ms \<Rightarrow> PortalDb \<Rightarrow> PortalDb \<times> NodeEnrollment" where
  "upsertNodeEnrollment i now db =
     (let target = enrollTarget i db;
          db' = upsertNodeRow i target now db in
      (db', the (getNodeEnrollment target db')))"

definition listNodesByOwner :: "string \<Rightarrow> PortalDb \<Rightarrow> NodeEnrollment list" where
  "listNodesByOwner userId db = orderDesc ne_updatedAtMs (filter (\<lambda>n. ne_ownerUserId n = userId) (db_nodes db))"

definition clampLimit :: "int \<Rightarrow> int option \<Rightarrow> int \<Rightarrow> nat" where
  "clampLimit hi limit dflt = nat (max 1 (min hi (nullish limit dflt)))"

definition ofKindAndOwner :: "NodeKind option \<Rightarrow> string option \<Rightarrow> NodeEnrollment \<Rightarrow> bool" where
  "ofKindAndOwner kind owner n =
     ((case kind of None \<Rightarrow> True | Some k \<Rightarrow> ne_nodeKind n = k) \<and>
      (if truthy_str owner then ne_ownerUserId n = the owner else True))"

definition listPendingNodes :: "NodeKind option \<Rightarrow> string option \<Rightarrow> int option \<Rightarrow> PortalDb \<Rightarrow> NodeEnrollment list" where
  "listPendingNodes kind owner limit db =
     take (clampLimit 500 limit 200)
       (orderDesc ne_updatedAtMs (filter (\<lambda>n. \<not> ne_nodeApproved n \<and> ofKindAndOwner kind owner n) (db_nodes db)))"

definition listApprovedNodes :: "NodeKind option \<Rightarrow> string option \<Rightarrow> bool \<Rightarrow> int option \<Rightarrow> PortalDb \<Rightarrow> NodeEnrollment list" where
  "listApprovedNodes kind owner activeOnly limit db =
     take (clampLimit 1000 limit 500)
       (orderDesc ne_updatedAtMs
          (filter (\<lambda>n. ne_nodeApproved n \<and> ofKindAndOwner kind owner n \<and> (activeOnly \<longrightarrow> ne_active n)) (db_nodes db)))"

definition deleteNodeEnrollment :: "string \<Rightarrow> PortalDb \<Rightarrow> PortalDb \<times> bool" where
  "deleteNodeEnrollment nodeId db =
     (db\<lparr> db_nodes := sqlDelete (\<lambda>n. ne_nodeId n = nodeId) (db_nodes db) \<rparr>, nodeId \<in> set (map ne_nodeId (db_nodes db)))"

definition setNodeApproval :: "string \<Rightarrow> bool \<Rightarrow> ms \<Rightarrow> PortalDb \<Rightarrow> PortalDb \<times> NodeEnrollment option" where
  "setNodeApproval nodeId approved now db =
     (let db' = db\<lparr> db_nodes := sqlUpdate (\<lambda>n. ne_nodeId n = nodeId)
            (\<lambda>n. n\<lparr> ne_nodeApproved := approved, ne_active := (approved \<and> ne_emailVerified n), ne_updatedAtMs := now \<rparr>) (db_nodes db) \<rparr> in
      (db', getNodeEnrollment nodeId db'))"

definition touchNodeValidation :: "string \<Rightarrow> string option \<Rightarrow> string option \<Rightarrow> bool option \<Rightarrow> ms \<Rightarrow> PortalDb \<Rightarrow> PortalDb" where
  "touchNodeValidation nodeId sourceIp countryCode vpnDetected now db =
     db\<lparr> db_nodes := sqlUpdate (\<lambda>n. ne_nodeId n = nodeId)
           (\<lambda>n. n\<lparr> ne_lastSeenMs := Some now, ne_lastIp := coalesce sourceIp (ne_lastIp n),
                   ne_lastCountryCode := coalesce countryCode (ne_lastCountryCode n),
                   ne_lastVpnDetected := coalesce vpnDetected (ne_lastVpnDetected n), ne_updatedAtMs := now \<rparr>) (db_nodes db) \<rparr>"

definition updateNodeDns :: "string \<Rightarrow> string \<Rightarrow> DnsStatus \<Rightarrow> string option \<Rightarrow> ms \<Rightarrow> PortalDb \<Rightarrow> PortalDb" where
  "updateNodeDns nodeId hostname st ip now db =
     db\<lparr> db_nodes := sqlUpdate (\<lambda>n. ne_nodeId n = nodeId)
           (\<lambda>n. n\<lparr> ne_dnsHostname := Some hostname, ne_dnsStatus := Some st, ne_dnsIp := ip, ne_dnsLastUpdatedMs := Some now,
                   ne_updatedAtMs := now \<rparr>) (db_nodes db) \<rparr>"

text \<open>\<open>ORDER BY last_seen_ms DESC NULLS LAST\<close>.\<close>

definition listActiveCoordinators :: "PortalDb \<Rightarrow> NodeEnrollment list" where
  "listActiveCoordinators db =
     (let rows = filter (\<lambda>n. ne_nodeKind n = Node_coordinator \<and> ne_active n \<and> ne_dnsStatus n = Some Dns_active \<and> ne_dnsIp n \<noteq> None) (db_nodes db) in
      orderDesc (\<lambda>n. nullish (ne_lastSeenMs n) 0) (filter (\<lambda>n. ne_lastSeenMs n \<noteq> None) rows) @ filter (\<lambda>n. ne_lastSeenMs n = None) rows)"

definition markStaleCoordinatorDns :: "ms \<Rightarrow> ms \<Rightarrow> PortalDb \<Rightarrow> PortalDb \<times> nat" where
  "markStaleCoordinatorDns staleThresholdMs now db =
     (let hit = (\<lambda>n. ne_nodeKind n = Node_coordinator \<and> ne_dnsStatus n = Some Dns_active \<and>
                   (case ne_lastSeenMs n of None \<Rightarrow> False | Some t \<Rightarrow> t < now - staleThresholdMs)) in
      (db\<lparr> db_nodes := sqlUpdate hit (\<lambda>n. n\<lparr> ne_dnsStatus := Some Dns_stale, ne_dnsIp := None, ne_updatedAtMs := now \<rparr>) (db_nodes db) \<rparr>,
       length (filter hit (db_nodes db))))"

definition getStatsCounts :: "PortalDb \<Rightarrow> (nat \<times> nat) \<times> (nat \<times> nat \<times> nat \<times> nat \<times> nat)" where
  "getStatsCounts db =
     ((length (db_users db), length (filter pu_emailVerified (db_users db))),
      (length (db_nodes db), length (filter ne_nodeApproved (db_nodes db)), length (filter ne_active (db_nodes db)),
       length (filter (\<lambda>n. ne_nodeKind n = Node_agent) (db_nodes db)), length (filter (\<lambda>n. ne_nodeKind n = Node_coordinator) (db_nodes db))))"

section \<open>Wallets, passkeys and conversations\<close>

definition getWalletOnboardingByUserId :: "string \<Rightarrow> PortalDb \<Rightarrow> WalletOnboarding option" where
  "getWalletOnboardingByUserId userId db = find (\<lambda>w. wo_userId w = userId) (db_wallets db)"

definition walletRow :: "string \<Rightarrow> string \<Rightarrow> string \<Rightarrow> string \<Rightarrow> string \<Rightarrow> string option \<Rightarrow> ms \<Rightarrow> WalletOnboarding" where
  "walletRow userId accountId network seedPhraseHash keyRef derivedAddress now =
     \<lparr> wo_userId = userId, wo_accountId = accountId, wo_network = network, wo_seedPhraseHash = seedPhraseHash,
       wo_encryptedPrivateKeyRef = keyRef, wo_derivedAddress = derivedAddress, wo_createdAtMs = now, wo_acknowledgedAtMs = None \<rparr>"

text \<open>\<open>ON CONFLICT DO NOTHING\<close>, and the replacement of the seed.\<close>

definition createWalletOnboarding :: "WalletOnboarding \<Rightarrow> PortalDb \<Rightarrow> PortalDb" where
  "createWalletOnboarding row db = db\<lparr> db_wallets := sqlUpsert wo_userId row (\<lambda>w. w) (db_wallets db) \<rparr>"

definition upsertWalletOnboardingSeed :: "WalletOnboarding \<Rightarrow> PortalDb \<Rightarrow> PortalDb" where
  "upsertWalletOnboardingSeed row db = db\<lparr> db_wallets := sqlUpsert wo_userId row (\<lambda>_. row) (db_wallets db) \<rparr>"

definition acknowledgeWalletOnboarding :: "string \<Rightarrow> ms \<Rightarrow> PortalDb \<Rightarrow> PortalDb" where
  "acknowledgeWalletOnboarding userId now db =
     db\<lparr> db_wallets := sqlUpdate (\<lambda>w. wo_userId w = userId)
           (\<lambda>w. w\<lparr> wo_acknowledgedAtMs := Some (nullish (wo_acknowledgedAtMs w) now) \<rparr>) (db_wallets db) \<rparr>"

definition createWalletSendMfaChallenge :: "SendChallenge \<Rightarrow> PortalDb \<Rightarrow> PortalDb option" where
  "createWalletSendMfaChallenge c db =
     map_option (\<lambda>rows. db\<lparr> db_challenges := rows \<rparr>) (sqlInsert sc_challengeId (c\<lparr> sc_consumedAtMs := None \<rparr>) (db_challenges db))"

definition openChallenge :: "string \<Rightarrow> ms \<Rightarrow> SendChallenge \<Rightarrow> bool" where
  "openChallenge challengeId now c = (sc_challengeId c = challengeId \<and> sc_consumedAtMs c = None \<and> sc_expiresAtMs c > now)"

definition consumeWalletSendMfaChallenge :: "string \<Rightarrow> ms \<Rightarrow> PortalDb \<Rightarrow> PortalDb \<times> SendChallenge option" where
  "consumeWalletSendMfaChallenge challengeId now db =
     (db\<lparr> db_challenges := sqlUpdate (openChallenge challengeId now) (\<lambda>c. c\<lparr> sc_consumedAtMs := Some now \<rparr>) (db_challenges db) \<rparr>,
      find (openChallenge challengeId now) (db_challenges db))"

definition createWalletSendRequest :: "SendRequest \<Rightarrow> PortalDb \<Rightarrow> PortalDb option" where
  "createWalletSendRequest r db = map_option (\<lambda>rows. db\<lparr> db_sends := rows \<rparr>) (sqlInsert sr_requestId r (db_sends db))"

definition listWalletSendRequestsByUser :: "string \<Rightarrow> nat \<Rightarrow> PortalDb \<Rightarrow> SendRequest list" where
  "listWalletSendRequestsByUser userId limit db =
     take limit (orderDesc sr_createdAtMs (filter (\<lambda>r. sr_userId r = userId) (db_sends db)))"

definition createPasskeyChallenge :: "PasskeyChallenge \<Rightarrow> PortalDb \<Rightarrow> PortalDb option" where
  "createPasskeyChallenge c db =
     map_option (\<lambda>rows. db\<lparr> db_passkeyChallenges := rows \<rparr>) (sqlInsert pc_challengeId c (db_passkeyChallenges db))"

definition consumePasskeyChallenge :: "string \<Rightarrow> ms \<Rightarrow> PortalDb \<Rightarrow> PortalDb \<times> PasskeyChallenge option" where
  "consumePasskeyChallenge challengeId now db =
     (let hit = (\<lambda>c. pc_challengeId c = challengeId \<and> pc_expiresAtMs c > now) in
      (db\<lparr> db_passkeyChallenges := sqlDelete hit (db_passkeyChallenges db) \<rparr>, find hit (db_passkeyChallenges db)))"

definition listPasskeysByUserId :: "string \<Rightarrow> PortalDb \<Rightarrow> PasskeyCredential list" where
  "listPasskeysByUserId userId db = orderDesc pk_createdAtMs (filter (\<lambda>p. pk_userId p = userId) (db_passkeys db))"

definition findPasskeyByCredentialId :: "string \<Rightarrow> PortalDb \<Rightarrow> PasskeyCredential option" where
  "findPasskeyByCredentialId credentialId db = find (\<lambda>p. pk_credentialId p = credentialId) (db_passkeys db)"

definition upsertPasskeyCredential :: "PasskeyCredential \<Rightarrow> PortalDb \<Rightarrow> PortalDb" where
  "upsertPasskeyCredential row db =
     db\<lparr> db_passkeys := sqlUpsert pk_credentialId row (\<lambda>p. row\<lparr> pk_createdAtMs := pk_createdAtMs p \<rparr>) (db_passkeys db) \<rparr>"

definition updatePasskeyCounter :: "string \<Rightarrow> int \<Rightarrow> ms \<Rightarrow> PortalDb \<Rightarrow> PortalDb" where
  "updatePasskeyCounter credentialId counter now db =
     db\<lparr> db_passkeys := sqlUpdate (\<lambda>p. pk_credentialId p = credentialId)
           (\<lambda>p. p\<lparr> pk_counter := counter, pk_lastUsedAtMs := Some now \<rparr>) (db_passkeys db) \<rparr>"

definition createConversation :: "string \<Rightarrow> string \<Rightarrow> string option \<Rightarrow> ms \<Rightarrow> PortalDb \<Rightarrow> PortalDb option" where
  "createConversation conversationId userId title now db =
     map_option (\<lambda>rows. db\<lparr> db_conversations := rows \<rparr>)
       (sqlInsert cv_conversationId
          \<lparr> cv_conversationId = conversationId, cv_userId = userId, cv_title = nullish title ''New chat'',
            cv_createdAtMs = now, cv_updatedAtMs = now \<rparr> (db_conversations db))"

definition listConversations :: "string \<Rightarrow> nat \<Rightarrow> PortalDb \<Rightarrow> PortalConversation list" where
  "listConversations userId limit db =
     take limit (orderDesc cv_updatedAtMs (filter (\<lambda>c. cv_userId c = userId) (db_conversations db)))"

definition getConversationMessages :: "string \<Rightarrow> PortalDb \<Rightarrow> PortalMessage list" where
  "getConversationMessages conversationId db =
     sort_key mg_createdAtMs (filter (\<lambda>m. mg_conversationId m = conversationId) (db_messages db))"

text \<open>A message needs its conversation (the foreign key) and moves it to the front.\<close>

definition addMessage :: "PortalMessage \<Rightarrow> ms \<Rightarrow> PortalDb \<Rightarrow> PortalDb option" where
  "addMessage m now db =
     (if mg_conversationId m \<notin> set (map cv_conversationId (db_conversations db)) then None
      else (case sqlInsert mg_messageId (m\<lparr> mg_createdAtMs := now \<rparr>) (db_messages db) of
              None \<Rightarrow> None
            | Some rows \<Rightarrow> Some (db\<lparr> db_messages := rows,
                db_conversations := sqlUpdate (\<lambda>c. cv_conversationId c = mg_conversationId m)
                  (\<lambda>c. c\<lparr> cv_updatedAtMs := now \<rparr>) (db_conversations db) \<rparr>)))"

definition renameConversation :: "string \<Rightarrow> string \<Rightarrow> ms \<Rightarrow> PortalDb \<Rightarrow> PortalDb" where
  "renameConversation conversationId title now db =
     db\<lparr> db_conversations := sqlUpdate (\<lambda>c. cv_conversationId c = conversationId)
           (\<lambda>c. c\<lparr> cv_title := title, cv_updatedAtMs := now \<rparr>) (db_conversations db) \<rparr>"

text \<open>\<open>ON DELETE CASCADE\<close> takes the messages along.\<close>

definition deleteConversation :: "string \<Rightarrow> PortalDb \<Rightarrow> PortalDb" where
  "deleteConversation conversationId db =
     db\<lparr> db_conversations := sqlDelete (\<lambda>c. cv_conversationId c = conversationId) (db_conversations db),
         db_messages := sqlDelete (\<lambda>m. mg_conversationId m = conversationId) (db_messages db) \<rparr>"

section \<open>The node table\<close>

text \<open>
  A node is active exactly when it is approved and the e-mail of its owner is verified, as the table knows it. Every
  statement keeps this, so it holds between any two statements of interleaved handlers.
\<close>

definition nodeOk :: "NodeEnrollment \<Rightarrow> bool" where
  "nodeOk n = (ne_active n \<longleftrightarrow> ne_nodeApproved n \<and> ne_emailVerified n)"

definition nodesOk :: "PortalDb \<Rightarrow> bool" where
  "nodesOk db = (list_all nodeOk (db_nodes db) \<and> distinct (map ne_nodeId (db_nodes db)))"

datatype NodeStatement =
    Verify_owned string ms
  | Upsert_node EnrollInput string ms
  | Delete_node string
  | Approve_node string bool ms
  | Touch_node string "string option" "string option" "bool option" ms
  | Dns_node string string DnsStatus "string option" ms
  | Stale_nodes ms ms

fun nodeStatement :: "NodeStatement \<Rightarrow> PortalDb \<Rightarrow> PortalDb" where
  "nodeStatement (Verify_owned userId now) db = verifyOwnedNodes userId now db"
| "nodeStatement (Upsert_node i target now) db = upsertNodeRow i target now db"
| "nodeStatement (Delete_node nodeId) db = fst (deleteNodeEnrollment nodeId db)"
| "nodeStatement (Approve_node nodeId approved now) db = fst (setNodeApproval nodeId approved now db)"
| "nodeStatement (Touch_node nodeId ip country vpn now) db = touchNodeValidation nodeId ip country vpn now db"
| "nodeStatement (Dns_node nodeId host st ip now) db = updateNodeDns nodeId host st ip now db"
| "nodeStatement (Stale_nodes threshold now) db = fst (markStaleCoordinatorDns threshold now db)"

lemma nodesOk_update:
  assumes "nodesOk db" "\<And>n. nodeOk n \<Longrightarrow> c n \<Longrightarrow> nodeOk (f n)" "\<And>n. ne_nodeId (f n) = ne_nodeId n"
  shows "nodesOk (db\<lparr> db_nodes := sqlUpdate c f (db_nodes db) \<rparr>)"
  using assms by (simp add: nodesOk_def list_all_sqlUpdate map_sqlUpdate)

lemma nodesOk_upsertNodeRow [op_inv]: "nodesOk db \<Longrightarrow> nodesOk (upsertNodeRow i target now db)"
  by (auto simp: nodesOk_def upsertNodeRow_def nodeOk_def enrolledRow_def reenrolledRow_def
      intro!: list_all_sqlUpsert distinct_sqlUpsert)

lemma nodesOk_verifyOwnedNodes [op_inv]: "nodesOk db \<Longrightarrow> nodesOk (verifyOwnedNodes userId now db)"
  unfolding verifyOwnedNodes_def by (rule nodesOk_update) (auto simp: nodeOk_def)

lemma nodesOk_setNodeApproval [op_inv]: "nodesOk db \<Longrightarrow> nodesOk (fst (setNodeApproval nodeId approved now db))"
  by (auto simp: setNodeApproval_def Let_def nodeOk_def intro: nodesOk_update)

lemma nodesOk_touchNodeValidation [op_inv]: "nodesOk db \<Longrightarrow> nodesOk (touchNodeValidation nodeId ip country vpn now db)"
  unfolding touchNodeValidation_def by (rule nodesOk_update) (auto simp: nodeOk_def)

lemma nodesOk_updateNodeDns [op_inv]: "nodesOk db \<Longrightarrow> nodesOk (updateNodeDns nodeId host st ip now db)"
  unfolding updateNodeDns_def by (rule nodesOk_update) (auto simp: nodeOk_def)

lemma nodesOk_markStale [op_inv]: "nodesOk db \<Longrightarrow> nodesOk (fst (markStaleCoordinatorDns threshold now db))"
  by (auto simp: markStaleCoordinatorDns_def Let_def nodeOk_def intro: nodesOk_update)

lemma nodesOk_deleteNodeEnrollment [op_inv]: "nodesOk db \<Longrightarrow> nodesOk (fst (deleteNodeEnrollment nodeId db))"
  by (simp add: nodesOk_def deleteNodeEnrollment_def list_all_sqlDelete distinct_sqlDelete)

lemma nodesOk_nodeStatement [op_inv]: "nodesOk db \<Longrightarrow> nodesOk (nodeStatement st db)"
  by (cases st) (simp_all add: op_inv)

lemma nodesOk_empty [simp]: "nodesOk emptyPortalDb"
  by (simp add: nodesOk_def emptyPortalDb_def)

interpretation nt: op_machine_init nodeStatement nodesOk emptyPortalDb
  by unfold_locales (simp_all add: op_inv)

lemma getNodeEnrollment_Some:
  assumes "getNodeEnrollment nodeId db = Some n"
  shows "n \<in> set (db_nodes db)" "ne_nodeId n = nodeId"
  using find_SomeD [of _ _ n] assms unfolding getNodeEnrollment_def by blast+

lemma nodesOk_active: "nodesOk db \<Longrightarrow> getNodeEnrollment nodeId db = Some n \<Longrightarrow> ne_active n \<longleftrightarrow> ne_nodeApproved n \<and> ne_emailVerified n"
  by (auto simp: nodesOk_def list_all_iff nodeOk_def dest: getNodeEnrollment_Some)

section \<open>One-time tokens\<close>

text \<open>
  Verification tokens, OAuth states, passkey challenges and send challenges are taken by a statement that checks and
  takes in one. \<open>live k s\<close>: the token \<open>k\<close> may still be taken; \<open>ok\<close>: the keys of the table are unique.
\<close>

locale one_time =
  fixes take_token :: "'k \<Rightarrow> ms \<Rightarrow> 's \<Rightarrow> 's \<times> 'a option"
    and live :: "'k \<Rightarrow> 's \<Rightarrow> bool"
    and ok :: "'s \<Rightarrow> bool"
  assumes taken: "ok s \<Longrightarrow> take_token k now s = (s', Some a) \<Longrightarrow> live k s \<and> \<not> live k s'"
    and dead_stays: "take_token j now s = (s', r) \<Longrightarrow> \<not> live k s \<Longrightarrow> \<not> live k s'"
    and ok_stays: "ok s \<Longrightarrow> ok (fst (take_token j now s))"
begin

fun successes :: "'k \<Rightarrow> ('k \<times> ms) list \<Rightarrow> 's \<Rightarrow> nat" where
  "successes k [] s = 0"
| "successes k ((j, now) # rest) s =
     (if j = k \<and> snd (take_token j now s) \<noteq> None then 1 else 0) + successes k rest (fst (take_token j now s))"

lemma dead_never: "ok s \<Longrightarrow> \<not> live k s \<Longrightarrow> successes k ops s = 0"
proof (induction ops arbitrary: s)
  case Nil
  then show ?case by simp
next
  case (Cons op ops)
  obtain j now where op: "op = (j, now)" by (cases op)
  obtain s' r where r: "take_token j now s = (s', r)" by (cases "take_token j now s")
  have "\<not> (j = k \<and> r \<noteq> None)" using taken [of s j now s'] r Cons.prems by (cases r) auto
  then show ?case
    using Cons.IH [of s'] dead_stays [OF r Cons.prems(2)] ok_stays [OF Cons.prems(1), of j now] op r by auto
qed

lemma at_most_once: "ok s \<Longrightarrow> successes k ops s \<le> 1"
proof (induction ops arbitrary: s)
  case Nil
  then show ?case by simp
next
  case (Cons op ops)
  obtain j now where op: "op = (j, now)" by (cases op)
  obtain s' r where r: "take_token j now s = (s', r)" by (cases "take_token j now s")
  have ok': "ok s'" using ok_stays [OF Cons.prems, of j now] r by simp
  show ?case
  proof (cases "j = k \<and> r \<noteq> None")
    case True
    then obtain a where "r = Some a" by auto
    then have "\<not> live k s'" using taken [of s j now s' a] Cons.prems r True by simp
    then show ?thesis using op r True dead_never [OF ok'] by simp
  next
    case False
    then show ?thesis using op r Cons.IH [OF ok'] by auto
  qed
qed

end

text \<open>With unique keys the row that is found is the only one with its key, so every row of that key is hit.\<close>

lemma unique_hit:
  assumes "distinct (map key rows)" "find h rows = Some x" "r \<in> set rows" "key r = key x"
  shows "h r"
proof -
  have x: "x \<in> set rows" "h x" using find_SomeD [OF assms(2)] by auto
  then have "r = x" using assms(1,3,4) by (auto simp: distinct_map dest: inj_onD)
  then show ?thesis using x by simp
qed

definition liveVerification :: "string \<Rightarrow> PortalDb \<Rightarrow> bool" where
  "liveVerification tokenHash db = list_ex (\<lambda>v. ev_tokenHash v = tokenHash \<and> ev_consumedAtMs v = None) (db_verifications db)"

definition liveState :: "string \<Rightarrow> PortalDb \<Rightarrow> bool" where
  "liveState stateId db = (stateId \<in> set (map os_stateId (db_oauthStates db)))"

definition livePasskeyChallenge :: "string \<Rightarrow> PortalDb \<Rightarrow> bool" where
  "livePasskeyChallenge i db = (i \<in> set (map pc_challengeId (db_passkeyChallenges db)))"

definition liveChallenge :: "string \<Rightarrow> PortalDb \<Rightarrow> bool" where
  "liveChallenge i db = list_ex (\<lambda>c. sc_challengeId c = i \<and> sc_consumedAtMs c = None) (db_challenges db)"

lemma verification_taken:
  assumes "distinct (map ev_tokenHash (db_verifications db))" "consumeEmailVerification h now db = (db', Some u)"
  shows "liveVerification h db \<and> \<not> liveVerification h db'"
proof -
  obtain v where v: "find (openVerification h now) (db_verifications db) = Some v"
    using assms(2) by (auto simp: consumeEmailVerification_def)
  have vp: "v \<in> set (db_verifications db)" "openVerification h now v" using find_SomeD [OF v] by auto
  have "openVerification h now r" if "r \<in> set (db_verifications db)" "ev_tokenHash r = h" for r
    using unique_hit [OF assms(1) v that(1)] that(2) vp(2) by (simp add: openVerification_def)
  then show ?thesis
    using vp assms(2) by (auto simp: consumeEmailVerification_def liveVerification_def list_ex_iff set_sqlUpdate openVerification_def)
qed

lemma challenge_taken:
  assumes "distinct (map sc_challengeId (db_challenges db))" "consumeWalletSendMfaChallenge i now db = (db', Some c)"
  shows "liveChallenge i db \<and> \<not> liveChallenge i db'"
proof -
  have c: "find (openChallenge i now) (db_challenges db) = Some c"
    using assms(2) by (simp add: consumeWalletSendMfaChallenge_def)
  have cp: "c \<in> set (db_challenges db)" "openChallenge i now c" using find_SomeD [OF c] by auto
  have "openChallenge i now r" if "r \<in> set (db_challenges db)" "sc_challengeId r = i" for r
    using unique_hit [OF assms(1) c that(1)] that(2) cp(2) by (simp add: openChallenge_def)
  then show ?thesis
    using cp assms(2) by (auto simp: consumeWalletSendMfaChallenge_def liveChallenge_def list_ex_iff set_sqlUpdate openChallenge_def)
qed

lemma state_taken:
  assumes "distinct (map os_stateId (db_oauthStates db))" "consumeOauthState i now db = (db', Some st)"
  shows "liveState i db \<and> \<not> liveState i db'"
proof -
  define h where "h = (\<lambda>s :: OauthState. os_stateId s = i \<and> os_expiresAtMs s > now)"
  have st: "find h (db_oauthStates db) = Some st" and db': "db' = db\<lparr> db_oauthStates := sqlDelete h (db_oauthStates db) \<rparr>"
    using assms(2) by (auto simp: consumeOauthState_def Let_def h_def)
  have stp: "st \<in> set (db_oauthStates db)" "h st" using find_SomeD [OF st] by auto
  have "h r" if "r \<in> set (db_oauthStates db)" "os_stateId r = i" for r
    using unique_hit [OF assms(1) st that(1)] that(2) stp(2) by (simp add: h_def)
  then show ?thesis using stp by (auto simp: db' liveState_def h_def)
qed

lemma passkey_challenge_taken:
  assumes "distinct (map pc_challengeId (db_passkeyChallenges db))" "consumePasskeyChallenge i now db = (db', Some c)"
  shows "livePasskeyChallenge i db \<and> \<not> livePasskeyChallenge i db'"
proof -
  define h where "h = (\<lambda>c :: PasskeyChallenge. pc_challengeId c = i \<and> pc_expiresAtMs c > now)"
  have c: "find h (db_passkeyChallenges db) = Some c"
    and db': "db' = db\<lparr> db_passkeyChallenges := sqlDelete h (db_passkeyChallenges db) \<rparr>"
    using assms(2) by (auto simp: consumePasskeyChallenge_def Let_def h_def)
  have cp: "c \<in> set (db_passkeyChallenges db)" "h c" using find_SomeD [OF c] by auto
  have "h r" if "r \<in> set (db_passkeyChallenges db)" "pc_challengeId r = i" for r
    using unique_hit [OF assms(1) c that(1)] that(2) cp(2) by (simp add: h_def)
  then show ?thesis using cp by (auto simp: db' livePasskeyChallenge_def h_def)
qed

interpretation ev: one_time consumeEmailVerification liveVerification "\<lambda>db. distinct (map ev_tokenHash (db_verifications db))"
proof unfold_locales
  show "liveVerification k s \<and> \<not> liveVerification k s'"
    if "distinct (map ev_tokenHash (db_verifications s))" "consumeEmailVerification k now s = (s', Some a)" for s k now s' a
    using that by (rule verification_taken)
qed (auto simp: consumeEmailVerification_def liveVerification_def list_ex_iff set_sqlUpdate map_sqlUpdate)

interpretation sc: one_time consumeWalletSendMfaChallenge liveChallenge "\<lambda>db. distinct (map sc_challengeId (db_challenges db))"
proof unfold_locales
  show "liveChallenge k s \<and> \<not> liveChallenge k s'"
    if "distinct (map sc_challengeId (db_challenges s))" "consumeWalletSendMfaChallenge k now s = (s', Some a)" for s k now s' a
    using that by (rule challenge_taken)
qed (auto simp: consumeWalletSendMfaChallenge_def liveChallenge_def list_ex_iff set_sqlUpdate map_sqlUpdate)

interpretation os: one_time consumeOauthState liveState "\<lambda>db. distinct (map os_stateId (db_oauthStates db))"
proof unfold_locales
  show "liveState k s \<and> \<not> liveState k s'"
    if "distinct (map os_stateId (db_oauthStates s))" "consumeOauthState k now s = (s', Some a)" for s k now s' a
    using that by (rule state_taken)
qed (auto simp: consumeOauthState_def Let_def liveState_def distinct_sqlDelete)

interpretation pc: one_time consumePasskeyChallenge livePasskeyChallenge "\<lambda>db. distinct (map pc_challengeId (db_passkeyChallenges db))"
proof unfold_locales
  show "livePasskeyChallenge k s \<and> \<not> livePasskeyChallenge k s'"
    if "distinct (map pc_challengeId (db_passkeyChallenges s))" "consumePasskeyChallenge k now s = (s', Some a)" for s k now s' a
    using that by (rule passkey_challenge_taken)
qed (auto simp: consumePasskeyChallenge_def Let_def livePasskeyChallenge_def distinct_sqlDelete)

section \<open>Approval\<close>

text \<open>Only the approval of a node's own id approves it.\<close>

lemma approved_statement:
  assumes "n \<in> set (db_nodes (nodeStatement st db))" "ne_nodeApproved n"
  shows "(\<exists>now. st = Approve_node (ne_nodeId n) True now) \<or> (\<exists>m \<in> set (db_nodes db). ne_nodeId m = ne_nodeId n \<and> ne_nodeApproved m)"
proof (cases st)
  case (Upsert_node i target now)
  then show ?thesis using assms
    by (auto simp: upsertNodeRow_def sqlUpsert_def set_sqlUpdate enrolledRow_def reenrolledRow_def split: if_splits)
next
  case (Approve_node j approved now)
  then show ?thesis using assms by (auto simp: setNodeApproval_def Let_def set_sqlUpdate)
qed (use assms in \<open>auto simp: verifyOwnedNodes_def deleteNodeEnrollment_def touchNodeValidation_def updateNodeDns_def
       markStaleCoordinatorDns_def Let_def set_sqlUpdate\<close>)

lemma approved_history:
  "n \<in> set (db_nodes (fold nodeStatement sts emptyPortalDb)) \<Longrightarrow> ne_nodeApproved n \<Longrightarrow> \<exists>now. Approve_node (ne_nodeId n) True now \<in> set sts"
proof (induction sts arbitrary: n rule: rev_induct)
  case Nil
  then show ?case by (simp add: emptyPortalDb_def)
next
  case (snoc st sts)
  show ?case
    using approved_statement [of n st "fold nodeStatement sts emptyPortalDb"] snoc by fastforce
qed

text \<open>
  C39: After any sequence of statements on the node table, in whatever order interleaved handlers issue them, an enrolled node is
  active exactly when it is approved and the e-mail of its owner is recorded as verified, and an active node has been approved by
  a statement for its own id.
\<close>

theorem active_node_is_approved:
  assumes "getNodeEnrollment nodeId (fold nodeStatement sts emptyPortalDb) = Some n"
  shows "(ne_active n \<longleftrightarrow> ne_nodeApproved n \<and> ne_emailVerified n) \<and>
    (\<not> ne_active n \<or> (\<exists>now. Approve_node nodeId True now \<in> set sts))"
  using nodesOk_active [OF nt.reach_inv assms] approved_history [of n sts] getNodeEnrollment_Some [OF assms] by auto

definition ex_enroll :: EnrollInput where
  "ex_enroll = \<lparr> ei_nodeId = ''mac-1'', ei_deviceId = None, ei_nodeKind = Node_agent, ei_ownerUserId = ''u1'', ei_ownerEmail = ''a@b.c'',
     ei_registrationTokenHash = ''h'', ei_emailVerified = False \<rparr>"

definition ex_node_run :: "NodeStatement list" where
  "ex_node_run = [Upsert_node ex_enroll ''mac-1'' 1, Approve_node ''mac-1'' True 2, Verify_owned ''u1'' 3]"

definition ex_node :: NodeEnrollment where
  "ex_node = (enrolledRow ex_enroll ''mac-1'' 1)\<lparr> ne_nodeApproved := True, ne_emailVerified := True, ne_active := True, ne_updatedAtMs := 3 \<rparr>"

lemma ex_node_run_result: "getNodeEnrollment ''mac-1'' (fold nodeStatement ex_node_run emptyPortalDb) = Some ex_node"
  by code_simp

theorem active_node_is_approved_witness:
  "ne_active ex_node \<and> ne_nodeApproved ex_node \<and> Approve_node ''mac-1'' True 2 \<in> set ex_node_run"
proof -
  have "ne_active ex_node" by code_simp
  moreover have "ne_nodeApproved ex_node" using active_node_is_approved [OF ex_node_run_result] calculation by blast
  moreover have "Approve_node ''mac-1'' True 2 \<in> set ex_node_run" by (simp add: ex_node_run_def)
  ultimately show ?thesis by blast
qed

text \<open>
  Enrolling an id that exists hands the node to the caller: the owner and the token change while the approval stays, so the new
  owner's node is active at once; so does the change of an approved agent into a coordinator.
\<close>

lemma reenrolment_keeps_approval:
  assumes "ne_nodeApproved n" "ei_emailVerified i"
  shows "ne_active (reenrolledRow i now n)" "ne_nodeApproved (reenrolledRow i now n)"
    "ne_ownerUserId (reenrolledRow i now n) = ei_ownerUserId i"
    "ne_registrationTokenHash (reenrolledRow i now n) = ei_registrationTokenHash i"
    "ne_nodeKind (reenrolledRow i now n) = ei_nodeKind i"
  using assms by (simp_all add: reenrolledRow_def)

text \<open>A device id that starts with, or is a prefix of, the stored one counts as the same device; so does a lone percent sign.\<close>

lemma device_prefix_matches:
  assumes "ne_deviceId n = Some d" "to_lower d = dev @ rest" "CHR ''%'' \<notin> set dev" "CHR ''_'' \<notin> set dev" "bslash \<notin> set dev"
  shows "deviceMatches dev n"
  using assms by (simp add: deviceMatches_def like_extension starts_with_def)

lemma percent_matches_all: "ne_deviceId n = Some d \<Longrightarrow> deviceMatches ''%'' n"
proof -
  have "like ''%%'' s" for s by (cases s) simp_all
  then show "ne_deviceId n = Some d \<Longrightarrow> deviceMatches ''%'' n" by (simp add: deviceMatches_def)
qed

text \<open>Each token is taken at most once, however often and by whomever it is presented.\<close>

lemma verification_taken_once:
  "distinct (map ev_tokenHash (db_verifications db)) \<Longrightarrow> ev.successes h ops db \<le> 1"
  by (rule ev.at_most_once)

lemma oauth_state_taken_once: "distinct (map os_stateId (db_oauthStates db)) \<Longrightarrow> os.successes i ops db \<le> 1"
  by (rule os.at_most_once)

lemma passkey_challenge_taken_once: "distinct (map pc_challengeId (db_passkeyChallenges db)) \<Longrightarrow> pc.successes i ops db \<le> 1"
  by (rule pc.at_most_once)

lemma send_challenge_taken_once: "distinct (map sc_challengeId (db_challenges db)) \<Longrightarrow> sc.successes i ops db \<le> 1"
  by (rule sc.at_most_once)

end
