(* ===== verification/PortalAccounts.thy ===== *)
theory PortalAccounts
  imports PortalStore
begin

text \<open>
  Accounts of the portal (\<open>src/src/portal/server.ts\<close>): sessions, sign-up and e-mail verification, the OAuth call-back, passkeys, access
  rights and conversations, on the tables of \<open>PortalStore\<close>. A database is configured (without one every route answers 503). The i-th
  call of \<open>Date.now()\<close> and of \<open>randomUUID()\<close> in a handler is \<open>clock i\<close> and \<open>uuid i\<close>. An error is its HTTP code with its text; \<open>P_threw\<close> is an
  exception that leaves the handler: a rejected body, a failed statement, an e-mail that could not be sent.
\<close>

section \<open>Configuration and state\<close>

record PortalConfig =
  pf_serviceToken :: string
  pf_controlPlane :: bool
  pf_mail :: bool
  pf_sessionTtl :: ms
  pf_verifyTtl :: ms
  pf_passkeyTtl :: ms
  pf_walletTtl :: ms
  pf_mobileTtl :: ms
  pf_systemAdmins :: "string list"
  pf_coordinatorAdmins :: "string list"
  pf_operationsOwners :: "string list"
  pf_pepper :: string
  pf_network :: string
  pf_callbackPrefix :: string
  pf_oauthConfigured :: "string \<Rightarrow> bool"

text \<open>
  What the code uses of other software: \<open>decodeURIComponent\<close> and the protocol of a URL (\<open>None\<close> where they throw), scrypt, the address of
  a seed phrase, the e-mail check of the schema library, and the WebAuthn library, which is given the response and the expected challenge.
\<close>

record RegistrationInfo =
  ri_credentialId :: string
  ri_publicKey :: string
  ri_counter :: "int option"
  ri_deviceType :: string
  ri_backedUp :: bool
  ri_transports :: "string list"

record PortalLibrary =
  pl_decode :: "string \<Rightarrow> string option"
  pl_protocol :: "string \<Rightarrow> string option"
  pl_scrypt :: "string \<Rightarrow> string \<Rightarrow> string"
  pl_address :: "string \<Rightarrow> string \<Rightarrow> string"
  pl_isEmail :: "string \<Rightarrow> bool"
  pl_verifyRegistration :: "PasskeyResponse option \<Rightarrow> string \<Rightarrow> RegistrationInfo option"
  pl_verifyAuthentication :: "bool \<Rightarrow> PasskeyResponse option \<Rightarrow> string \<Rightarrow> PasskeyCredential \<Rightarrow> int option option"

text \<open>\<open>Some c\<close> of \<open>pl_verifyAuthentication\<close> is a verified response, with its new counter if it has one.\<close>

text \<open>The mails the mail service has accepted: the link of a verification (its address and token), the code of a transfer.\<close>

datatype PortalMail =
  VerificationMail string string
| SendCodeMail string string int string

text \<open>The requests sent to the DNS provider, each with the type and the name of its record and the domain.\<close>

datatype DnsRequest =
  DnsPut string string string string
| DnsDelete string string string

record Portal =
  pt_db :: PortalDb
  pt_mails :: "PortalMail list"
  pt_dnsRequests :: "DnsRequest list"
  pt_nativeRedirects :: "(string, string) jsmap"
  pt_mobileTokens :: "(string, string \<times> ms) jsmap"

definition emptyPortal :: Portal where
  "emptyPortal = \<lparr> pt_db = emptyPortalDb, pt_mails = [], pt_dnsRequests = [], pt_nativeRedirects = [], pt_mobileTokens = [] \<rparr>"

datatype PortalError = P_error nat string | P_threw

record PortalHeaders =
  ph_cookie :: "string option"
  ph_authorization :: "string option"

section \<open>Sessions\<close>

definition sessionTokenOf :: "PortalLibrary \<Rightarrow> PortalHeaders \<Rightarrow> string option option" where
  "sessionTokenOf lib h =
     (case parseCookies (pl_decode lib) (ph_cookie h) of
        None \<Rightarrow> None
      | Some cookies \<Rightarrow>
          (let sessionToken = jsm_get cookies ''edgecoder_portal_session'';
               auth = nullish (ph_authorization h) [] in
           Some (if truthy_str sessionToken then sessionToken
                 else if starts_with auth ''Bearer '' then Some (drop 7 auth) else sessionToken)))"

text \<open>\<open>None\<close> where the decoding of a cookie throws, \<open>Some None\<close> for nobody.\<close>

definition getCurrentUser :: "PortalLibrary \<Rightarrow> crypto \<Rightarrow> PortalHeaders \<Rightarrow> ms \<Rightarrow> Portal \<Rightarrow> PortalUser option option" where
  "getCurrentUser lib cr h now p =
     (case sessionTokenOf lib h of
        None \<Rightarrow> None
      | Some sessionToken \<Rightarrow>
          Some (if \<not> truthy_str sessionToken then None
                else (case getSessionByTokenHash (sha256_hex cr (the sessionToken)) now (pt_db p) of
                        None \<Rightarrow> None
                      | Some session \<Rightarrow> getUserById (ps_userId session) (pt_db p))))"

definition withUser ::
  "PortalLibrary \<Rightarrow> crypto \<Rightarrow> PortalHeaders \<Rightarrow> ms \<Rightarrow> Portal \<Rightarrow> (PortalUser \<Rightarrow> Portal \<times> (PortalError + 'a)) \<Rightarrow> Portal \<times> (PortalError + 'a)" where
  "withUser lib cr h now p k =
     (case getCurrentUser lib cr h now p of
        None \<Rightarrow> (p, Inl P_threw)
      | Some None \<Rightarrow> (p, Inl (P_error 401 ''not_authenticated''))
      | Some (Some user) \<Rightarrow> k user)"

definition requireInternalToken :: "PortalConfig \<Rightarrow> string option \<Rightarrow> bool" where
  "requireInternalToken cfg token = (pf_serviceToken cfg = [] \<or> token = Some (pf_serviceToken cfg))"

definition createSessionForUser ::
  "PortalConfig \<Rightarrow> crypto \<Rightarrow> string \<Rightarrow> string \<Rightarrow> string \<Rightarrow> ms \<Rightarrow> ms \<Rightarrow> Portal \<Rightarrow> Portal option" where
  "createSessionForUser cfg cr userId sessionToken sessionId now now' p =
     map_option (\<lambda>db. p\<lparr> pt_db := db \<rparr>)
       (createSession sessionId userId (sha256_hex cr sessionToken) (now + pf_sessionTtl cfg) now' (pt_db p))"

definition issueMobileOauthSessionToken :: "PortalConfig \<Rightarrow> string \<Rightarrow> string \<Rightarrow> ms \<Rightarrow> Portal \<Rightarrow> Portal" where
  "issueMobileOauthSessionToken cfg token userId now p =
     p\<lparr> pt_mobileTokens := jsm_set token (userId, now + pf_mobileTtl cfg) (pt_mobileTokens p) \<rparr>"

definition consumeMobileOauthSessionToken :: "string \<Rightarrow> ms \<Rightarrow> Portal \<Rightarrow> Portal \<times> string option" where
  "consumeMobileOauthSessionToken token now p =
     (case jsm_get (pt_mobileTokens p) token of
        None \<Rightarrow> (p, None)
      | Some (userId, expiresAtMs) \<Rightarrow>
          (p\<lparr> pt_mobileTokens := jsm_delete token (pt_mobileTokens p) \<rparr>, if expiresAtMs \<le> now then None else Some userId))"

definition liveMobileToken :: "string \<Rightarrow> Portal \<Rightarrow> bool" where
  "liveMobileToken token p = jsm_has (pt_mobileTokens p) token"

interpretation mt: one_time consumeMobileOauthSessionToken liveMobileToken "\<lambda>p. True"
  by unfold_locales
    (auto simp: consumeMobileOauthSessionToken_def liveMobileToken_def jsm_has_iff jsm_get_delete split: option.splits if_splits)

section \<open>Sign-up, log-in and verification\<close>

text \<open>\<open>delivered\<close>: whether the mail service accepts the request; \<open>None\<close> where it throws. Without a configured service nothing is sent.\<close>

definition sendVerificationEmail :: "PortalConfig \<Rightarrow> bool \<Rightarrow> string \<Rightarrow> string \<Rightarrow> Portal \<Rightarrow> Portal option" where
  "sendVerificationEmail cfg delivered email verifyToken p =
     (if \<not> pf_mail cfg then Some p
      else if delivered then Some (p\<lparr> pt_mails := pt_mails p @ [VerificationMail email verifyToken] \<rparr>) else None)"

definition sendWalletSendMfaCodeEmail :: "PortalConfig \<Rightarrow> bool \<Rightarrow> string \<Rightarrow> string \<Rightarrow> int \<Rightarrow> string \<Rightarrow> Portal \<Rightarrow> Portal option" where
  "sendWalletSendMfaCodeEmail cfg delivered email code amountSats destination p =
     (if \<not> pf_mail cfg then None
      else if delivered then Some (p\<lparr> pt_mails := pt_mails p @ [SendCodeMail email code amountSats destination] \<rparr>) else None)"

definition accountIdOf :: "string \<Rightarrow> string" where
  "accountIdOf userId = ''acct-'' @ userId"

definition seedRow :: "PortalConfig \<Rightarrow> PortalLibrary \<Rightarrow> crypto \<Rightarrow> string \<Rightarrow> string \<Rightarrow> string \<Rightarrow> string \<Rightarrow> ms \<Rightarrow> WalletOnboarding" where
  "seedRow cfg lib cr userId accountId network seedPhrase now =
     walletRow userId accountId network (sha256_hex cr seedPhrase) (deriveWalletSecretRef cr seedPhrase accountId (pf_pepper cfg))
       (Some (pl_address lib seedPhrase network)) now"

record WalletSetup =
  ws_created :: bool
  ws_accountId :: string
  ws_network :: string
  ws_seedPhrase :: "string option"
  ws_derivedAddress :: "string option"

text \<open>\<open>mnemonic\<close> is the generated seed phrase.\<close>

definition ensureStarterWalletForUser ::
  "PortalConfig \<Rightarrow> PortalLibrary \<Rightarrow> crypto \<Rightarrow> string \<Rightarrow> string \<Rightarrow> ms \<Rightarrow> Portal \<Rightarrow> Portal \<times> WalletSetup" where
  "ensureStarterWalletForUser cfg lib cr userId mnemonic now p =
     (let accountId = accountIdOf userId in
      case getWalletOnboardingByUserId userId (pt_db p) of
        Some existing \<Rightarrow>
          (p, \<lparr> ws_created = False, ws_accountId = wo_accountId existing, ws_network = wo_network existing, ws_seedPhrase = None,
                ws_derivedAddress = None \<rparr>)
      | None \<Rightarrow>
          (p\<lparr> pt_db := createWalletOnboarding (seedRow cfg lib cr userId accountId (pf_network cfg) mnemonic now) (pt_db p) \<rparr>,
           \<lparr> ws_created = True, ws_accountId = accountId, ws_network = pf_network cfg, ws_seedPhrase = Some mnemonic,
             ws_derivedAddress = Some (pl_address lib mnemonic (pf_network cfg)) \<rparr>))"

definition setupWalletSeedForUser ::
  "PortalConfig \<Rightarrow> PortalLibrary \<Rightarrow> crypto \<Rightarrow> string \<Rightarrow> string \<Rightarrow> ms \<Rightarrow> Portal \<Rightarrow> Portal \<times> WalletSetup" where
  "setupWalletSeedForUser cfg lib cr userId mnemonic now p =
     (let existing = getWalletOnboardingByUserId userId (pt_db p);
          accountId = nullish (map_option wo_accountId existing) (accountIdOf userId);
          network = nullish (map_option wo_network existing) (pf_network cfg) in
      (p\<lparr> pt_db := upsertWalletOnboardingSeed (seedRow cfg lib cr userId accountId network mnemonic now) (pt_db p) \<rparr>,
       \<lparr> ws_created = True, ws_accountId = accountId, ws_network = network, ws_seedPhrase = Some mnemonic,
         ws_derivedAddress = Some (pl_address lib mnemonic network) \<rparr>))"

definition between_len :: "nat \<Rightarrow> nat \<Rightarrow> string \<Rightarrow> bool" where
  "between_len lo hi s = (lo \<le> length s \<and> length s \<le> hi)"

definition optionally :: "('a \<Rightarrow> bool) \<Rightarrow> 'a option \<Rightarrow> bool" where
  "optionally P v = (case v of None \<Rightarrow> True | Some x \<Rightarrow> P x)"

text \<open>\<open>uuid\<close>: the user id, the verification token, the id of its row.\<close>

definition signup ::
  "PortalConfig \<Rightarrow> PortalLibrary \<Rightarrow> crypto \<Rightarrow> string \<Rightarrow> string \<Rightarrow> string option \<Rightarrow> string \<Rightarrow> string \<Rightarrow> bool \<Rightarrow> (nat \<Rightarrow> string) \<Rightarrow> (nat \<Rightarrow> ms) \<Rightarrow>
     Portal \<Rightarrow> Portal \<times> (PortalError + string \<times> WalletSetup)" where
  "signup cfg lib cr email0 password displayName salt mnemonic delivered uuid clock p =
     (if \<not> pl_isEmail lib email0 \<or> \<not> between_len 8 256 password \<or> \<not> optionally (between_len 2 100) displayName then (p, Inl P_threw)
      else (let email = normalizeEmail email0 in
        if getUserByEmail email (pt_db p) \<noteq> None then (p, Inl (P_error 409 ''email_already_registered''))
        else (case createUser (uuid 0) email (Some (hashPassword (pl_scrypt lib) salt password)) displayName False (clock 0) (pt_db p) of
                None \<Rightarrow> (p, Inl P_threw)
              | Some (db, user) \<Rightarrow>
                  (let p1 = p\<lparr> pt_db := db \<rparr> in
                   case createEmailVerification (uuid 2) (pu_userId user) (sha256_hex cr (uuid 1)) (clock 1 + pf_verifyTtl cfg) (clock 2) db of
                     None \<Rightarrow> (p1, Inl P_threw)
                   | Some db' \<Rightarrow>
                       (let p2 = p1\<lparr> pt_db := db' \<rparr> in
                        case sendVerificationEmail cfg delivered (pu_email user) (uuid 1) p2 of
                          None \<Rightarrow> (p2, Inl P_threw)
                        | Some p3 \<Rightarrow>
                            (case ensureStarterWalletForUser cfg lib cr (pu_userId user) mnemonic (clock 3) p3 of
                               (p4, wallet) \<Rightarrow> (p4, Inr (pu_userId user, wallet))))))))"

definition login ::
  "PortalConfig \<Rightarrow> PortalLibrary \<Rightarrow> crypto \<Rightarrow> string \<Rightarrow> string \<Rightarrow> (nat \<Rightarrow> string) \<Rightarrow> (nat \<Rightarrow> ms) \<Rightarrow> Portal \<Rightarrow> Portal \<times> (PortalError + string \<times> PortalUser)" where
  "login cfg lib cr email password uuid clock p =
     (if \<not> pl_isEmail lib email \<or> password = [] then (p, Inl P_threw)
      else (case getUserByEmail (normalizeEmail email) (pt_db p) of
              None \<Rightarrow> (p, Inl (P_error 401 ''invalid_credentials''))
            | Some user \<Rightarrow>
                if \<not> truthy_str (pu_passwordHash user) \<or> \<not> verifyPassword (pl_scrypt lib) password (the (pu_passwordHash user))
                then (p, Inl (P_error 401 ''invalid_credentials''))
                else (case createSessionForUser cfg cr (pu_userId user) (uuid 0) (uuid 1) (clock 0) (clock 1) p of
                        None \<Rightarrow> (p, Inl P_threw)
                      | Some p' \<Rightarrow> (p', Inr (uuid 0, user)))))"

text \<open>Only the session of the cookie is deleted.\<close>

definition logout :: "PortalLibrary \<Rightarrow> crypto \<Rightarrow> PortalHeaders \<Rightarrow> Portal \<Rightarrow> Portal \<times> (PortalError + unit)" where
  "logout lib cr h p =
     (case parseCookies (pl_decode lib) (ph_cookie h) of
        None \<Rightarrow> (p, Inl P_threw)
      | Some cookies \<Rightarrow>
          (let sessionToken = jsm_get cookies ''edgecoder_portal_session'' in
           (if truthy_str sessionToken then p\<lparr> pt_db := deleteSessionByTokenHash (sha256_hex cr (the sessionToken)) (pt_db p) \<rparr> else p,
            Inr ())))"

definition verifyEmail :: "crypto \<Rightarrow> string \<Rightarrow> (nat \<Rightarrow> ms) \<Rightarrow> Portal \<Rightarrow> Portal \<times> (PortalError + unit)" where
  "verifyEmail cr token clock p =
     (if length token < 10 then (p, Inl P_threw)
      else (case consumeEmailVerification (sha256_hex cr token) (clock 0) (pt_db p) of
              (db, None) \<Rightarrow> (p\<lparr> pt_db := db \<rparr>, Inl (P_error 400 ''Invalid or expired verification token.''))
            | (db, Some userId) \<Rightarrow> (p\<lparr> pt_db := markUserEmailVerified userId (clock 1) db \<rparr>, Inr ())))"

definition resendVerification ::
  "PortalConfig \<Rightarrow> PortalLibrary \<Rightarrow> crypto \<Rightarrow> string \<Rightarrow> bool \<Rightarrow> (nat \<Rightarrow> string) \<Rightarrow> (nat \<Rightarrow> ms) \<Rightarrow> Portal \<Rightarrow> Portal \<times> (PortalError + bool)" where
  "resendVerification cfg lib cr email delivered uuid clock p =
     (if \<not> pl_isEmail lib email then (p, Inl P_threw)
      else (case getUserByEmail (normalizeEmail email) (pt_db p) of
              None \<Rightarrow> (p, Inr False)
            | Some user \<Rightarrow>
                if pu_emailVerified user then (p, Inr True)
                else (case createEmailVerification (uuid 1) (pu_userId user) (sha256_hex cr (uuid 0)) (clock 0 + pf_verifyTtl cfg) (clock 1) (pt_db p) of
                        None \<Rightarrow> (p, Inl P_threw)
                      | Some db \<Rightarrow>
                          (case sendVerificationEmail cfg delivered (pu_email user) (uuid 0) (p\<lparr> pt_db := db \<rparr>) of
                             None \<Rightarrow> (p\<lparr> pt_db := db \<rparr>, Inl P_threw)
                           | Some p' \<Rightarrow> (p', Inr False)))))"

section \<open>OAuth\<close>

text \<open>The redirect of a native application: a URL of another scheme than http that starts with the configured prefix.\<close>

definition dropSlash :: "string \<Rightarrow> string" where
  "dropSlash s = (if s \<noteq> [] \<and> last s = CHR ''/'' then butlast s else s)"

definition normalizeNativeOauthRedirect :: "PortalConfig \<Rightarrow> PortalLibrary \<Rightarrow> string option \<Rightarrow> string option" where
  "normalizeNativeOauthRedirect cfg lib v =
     (if \<not> truthy_str v then None
      else (let candidate = trim (the v) in
        if candidate = [] then None
        else (case pl_protocol lib candidate of
                None \<Rightarrow> None
              | Some protocol \<Rightarrow>
                  if protocol = [] \<or> protocol = ''http:'' \<or> protocol = ''https:'' then None
                  else if starts_with candidate (dropSlash (pf_callbackPrefix cfg)) then Some candidate else None)))"

definition oauthProviderNames :: "string list" where
  "oauthProviderNames = [''google'', ''microsoft'', ''github'']"

text \<open>\<open>uuid 0\<close> is the state; the URL to which the browser is sent carries it.\<close>

definition oauthStart ::
  "PortalConfig \<Rightarrow> PortalLibrary \<Rightarrow> string \<Rightarrow> string \<Rightarrow> string option \<Rightarrow> (nat \<Rightarrow> string) \<Rightarrow> (nat \<Rightarrow> ms) \<Rightarrow> Portal \<Rightarrow> Portal \<times> (PortalError + string)" where
  "oauthStart cfg lib callbackUrl provider appRedirect uuid clock p =
     (if provider \<notin> set oauthProviderNames then (p, Inl P_threw)
      else if \<not> pf_oauthConfigured cfg provider then (p, Inl (P_error 503 (provider @ ''_oauth_not_configured'')))
      else (let p1 = (case normalizeNativeOauthRedirect cfg lib appRedirect of
                        None \<Rightarrow> p
                      | Some r \<Rightarrow> p\<lparr> pt_nativeRedirects := jsm_set (uuid 0) r (pt_nativeRedirects p) \<rparr>) in
            case createOauthState (uuid 0) provider callbackUrl (clock 0 + 10 * 60 * 1000) (clock 1) (pt_db p1) of
              None \<Rightarrow> (p1, Inl P_threw)
            | Some db \<Rightarrow> (p1\<lparr> pt_db := db \<rparr>, Inr (uuid 0))))"

text \<open>
  What the provider answers: the outcome of the token exchange, the claims of the identity token, the user information (\<open>None\<close>
  unless it is fetched with success) and, for GitHub, the list of addresses with their flags. \<open>claimIsTrue\<close> has been applied.
\<close>

record OauthClaims =
  oc_sub :: "string option"
  oc_email :: "string option"
  oc_verified :: bool

record OauthUserInfo =
  ou_sub :: "string option"
  ou_id :: "string option"
  ou_email :: "string option"
  ou_verified :: bool
  ou_login :: "string option"
  ou_avatarUrl :: "string option"

record OauthAnswers =
  oa_exchanged :: bool
  oa_accessToken :: "string option"
  oa_claims :: "OauthClaims option"
  oa_userInfo :: "OauthUserInfo option"
  oa_emails :: "(string \<times> bool \<times> bool) list option"

record OauthPerson =
  op_subject :: "string option"
  op_email :: "string option"
  op_verified :: bool
  op_login :: "string option"
  op_avatarUrl :: "string option"

definition primaryEmail :: "(string \<times> bool \<times> bool) list \<Rightarrow> string option" where
  "primaryEmail emails =
     map_option fst (coalesce (find (\<lambda>(e, primary, verified). primary \<and> verified) emails)
                              (find (\<lambda>(e, primary, verified). verified) emails))"

definition resolvePerson :: "string \<Rightarrow> OauthAnswers \<Rightarrow> OauthPerson" where
  "resolvePerson provider a =
     (let base = (case oa_claims a of
            None \<Rightarrow> \<lparr> op_subject = None, op_email = None, op_verified = False, op_login = None, op_avatarUrl = None \<rparr>
          | Some c \<Rightarrow> \<lparr> op_subject = oc_sub c, op_email = oc_email c, op_verified = oc_verified c, op_login = None, op_avatarUrl = None \<rparr>) in
      if \<not> truthy_str (oa_accessToken a) then base
      else (case oa_userInfo a of
              None \<Rightarrow> base
            | Some u \<Rightarrow>
                if provider = ''github'' then
                  (let email = coalesce (op_email base) (ou_email u);
                       listed = (if truthy_str email then None else (case oa_emails a of None \<Rightarrow> None | Some es \<Rightarrow> primaryEmail es));
                       email' = (case listed of None \<Rightarrow> email | Some e \<Rightarrow> Some e) in
                   \<lparr> op_subject = coalesce (op_subject base) (ou_id u), op_email = email',
                     op_verified = (op_verified base \<or> listed \<noteq> None \<or> truthy_str email'),
                     op_login = ou_login u, op_avatarUrl = ou_avatarUrl u \<rparr>)
                else
                  base\<lparr> op_subject := coalesce (op_subject base) (ou_sub u), op_email := coalesce (op_email base) (ou_email u),
                        op_verified := (op_verified base \<or> ou_verified u) \<rparr>))"

text \<open>
  The account of a person: the linked one, else the one with the same e-mail, else a new one (\<open>uuid 0\<close>), with a wallet. An account that
  exists is marked verified when the provider vouches for the e-mail. \<open>None\<close> is a statement that fails.
\<close>

definition resolveAccount ::
  "PortalConfig \<Rightarrow> PortalLibrary \<Rightarrow> crypto \<Rightarrow> string \<Rightarrow> string \<Rightarrow> string \<Rightarrow> bool \<Rightarrow> string \<Rightarrow> (nat \<Rightarrow> string) \<Rightarrow> (nat \<Rightarrow> ms) \<Rightarrow> Portal \<Rightarrow>
     (Portal \<times> PortalUser option) option" where
  "resolveAccount cfg lib cr provider subject email verified mnemonic uuid clock p =
     (let linkedUser = (case findOauthIdentity provider subject (pt_db p) of None \<Rightarrow> None | Some i \<Rightarrow> getUserById i (pt_db p));
          user = (case linkedUser of None \<Rightarrow> getUserByEmail email (pt_db p) | Some u \<Rightarrow> Some u) in
      case user of
        None \<Rightarrow>
          (case createUser (uuid 0) email None None verified (clock 1) (pt_db p) of
             None \<Rightarrow> None
           | Some (db, u) \<Rightarrow> Some (fst (ensureStarterWalletForUser cfg lib cr (pu_userId u) mnemonic (clock 2) (p\<lparr> pt_db := db \<rparr>)), Some u))
      | Some u \<Rightarrow>
          if verified \<and> \<not> pu_emailVerified u
          then (let p' = p\<lparr> pt_db := markUserEmailVerified (pu_userId u) (clock 1) (pt_db p) \<rparr> in Some (p', getUserById (pu_userId u) (pt_db p')))
          else Some (p, Some u))"

text \<open>The token of the session cookie, and the redirect of a native application with its mobile token.\<close>

record OauthLogin =
  lo_sessionToken :: string
  lo_mobile :: "(string \<times> string) option"

text \<open>\<open>uuid 1\<close>, \<open>uuid 2\<close>: the session; \<open>uuid 3\<close>: the text of the mobile token (two UUIDs without dashes).\<close>

definition finishOauth ::
  "PortalConfig \<Rightarrow> crypto \<Rightarrow> string \<Rightarrow> string \<Rightarrow> string \<Rightarrow> OauthAnswers \<Rightarrow> OauthPerson \<Rightarrow> string option \<Rightarrow> (nat \<Rightarrow> string) \<Rightarrow> (nat \<Rightarrow> ms) \<Rightarrow>
     PortalUser \<Rightarrow> Portal \<Rightarrow> Portal \<times> (PortalError + OauthLogin)" where
  "finishOauth cfg cr provider subject email a person nativeRedirect uuid clock user p =
     (let db = linkOauthIdentity provider subject (pu_userId user) (Some email) (clock 3) (pt_db p);
          db' = (if provider = ''github'' \<and> truthy_str (oa_accessToken a)
                 then saveGitHubToken (pu_userId user) (the (oa_accessToken a)) (op_login person) (op_avatarUrl person) (Some ''repo user'') (clock 4) db
                 else db);
          p' = p\<lparr> pt_db := db' \<rparr> in
      case createSessionForUser cfg cr (pu_userId user) (uuid 1) (uuid 2) (clock 5) (clock 6) p' of
        None \<Rightarrow> (p', Inl P_threw)
      | Some p'' \<Rightarrow>
          (case nativeRedirect of
             None \<Rightarrow> (p'', Inr \<lparr> lo_sessionToken = uuid 1, lo_mobile = None \<rparr>)
           | Some r \<Rightarrow>
               (issueMobileOauthSessionToken cfg (uuid 3) (pu_userId user) (clock 7) p'',
                Inr \<lparr> lo_sessionToken = uuid 1, lo_mobile = Some (r, uuid 3) \<rparr>)))"

definition handleOauthCallback ::
  "PortalConfig \<Rightarrow> PortalLibrary \<Rightarrow> crypto \<Rightarrow> string \<Rightarrow> string \<Rightarrow> OauthAnswers \<Rightarrow> string \<Rightarrow> (nat \<Rightarrow> string) \<Rightarrow> (nat \<Rightarrow> ms) \<Rightarrow>
     Portal \<Rightarrow> Portal \<times> (PortalError + OauthLogin)" where
  "handleOauthCallback cfg lib cr provider stateId a mnemonic uuid clock p =
     (case consumeOauthState stateId (clock 0) (pt_db p) of
        (db, st) \<Rightarrow>
          (let p1 = p\<lparr> pt_db := db \<rparr> in
           if st = None \<or> os_provider (the st) \<noteq> provider then (p1, Inl (P_error 400 ''oauth_state_invalid''))
           else (let nativeRedirect = jsm_get (pt_nativeRedirects p1) stateId;
                     p2 = (if truthy_str nativeRedirect then p1\<lparr> pt_nativeRedirects := jsm_delete stateId (pt_nativeRedirects p1) \<rparr> else p1) in
             if \<not> oa_exchanged a then (p2, Inl (P_error 502 ''oauth_token_exchange_failed''))
             else (let person = resolvePerson provider a in
               if \<not> truthy_str (op_subject person) then (p2, Inl (P_error 400 ''oauth_subject_missing''))
               else if \<not> truthy_str (op_email person) then (p2, Inl (P_error 400 ''oauth_email_missing''))
               else (let email = normalizeEmail (the (op_email person)); subject = the (op_subject person) in
                 case resolveAccount cfg lib cr provider subject email (op_verified person) mnemonic uuid clock p2 of
                   None \<Rightarrow> (p2, Inl P_threw)
                 | Some (p3, None) \<Rightarrow> (p3, Inl (P_error 500 ''oauth_user_resolution_failed''))
                 | Some (p3, Some user) \<Rightarrow>
                     finishOauth cfg cr provider subject email a person (if truthy_str nativeRedirect then nativeRedirect else None)
                       uuid clock user p3)))))"

definition mobileComplete ::
  "PortalConfig \<Rightarrow> crypto \<Rightarrow> string \<Rightarrow> (nat \<Rightarrow> string) \<Rightarrow> (nat \<Rightarrow> ms) \<Rightarrow> Portal \<Rightarrow> Portal \<times> (PortalError + string \<times> PortalUser)" where
  "mobileComplete cfg cr token uuid clock p =
     (if length token < 24 then (p, Inl P_threw)
      else (case consumeMobileOauthSessionToken token (clock 0) p of
              (p1, None) \<Rightarrow> (p1, Inl (P_error 400 ''oauth_mobile_token_invalid''))
            | (p1, Some userId) \<Rightarrow>
                (case getUserById userId (pt_db p1) of
                   None \<Rightarrow> (p1, Inl (P_error 400 ''user_not_found''))
                 | Some user \<Rightarrow>
                     (case createSessionForUser cfg cr (pu_userId user) (uuid 0) (uuid 1) (clock 1) (clock 2) p1 of
                        None \<Rightarrow> (p1, Inl P_threw)
                      | Some p2 \<Rightarrow> (p2, Inr (uuid 0, user))))))"

section \<open>The GitHub token\<close>

definition githubStatus :: "PortalLibrary \<Rightarrow> crypto \<Rightarrow> PortalHeaders \<Rightarrow> ms \<Rightarrow> Portal \<Rightarrow> Portal \<times> (PortalError + (string option \<times> string option) option)" where
  "githubStatus lib cr h now p =
     withUser lib cr h now p (\<lambda>user. (p, Inr (map_option (\<lambda>t. (gt_login t, gt_avatarUrl t)) (getGitHubToken (pu_userId user) (pt_db p)))))"

definition githubToken :: "PortalLibrary \<Rightarrow> crypto \<Rightarrow> PortalHeaders \<Rightarrow> ms \<Rightarrow> Portal \<Rightarrow> Portal \<times> (PortalError + string)" where
  "githubToken lib cr h now p =
     withUser lib cr h now p (\<lambda>user.
       (p, case getGitHubToken (pu_userId user) (pt_db p) of
             None \<Rightarrow> Inl (P_error 404 ''github_not_connected'')
           | Some t \<Rightarrow> Inr (gt_accessToken t)))"

definition githubDisconnect :: "PortalLibrary \<Rightarrow> crypto \<Rightarrow> PortalHeaders \<Rightarrow> ms \<Rightarrow> Portal \<Rightarrow> Portal \<times> (PortalError + unit)" where
  "githubDisconnect lib cr h now p =
     withUser lib cr h now p (\<lambda>user. (p\<lparr> pt_db := deleteGitHubToken (pu_userId user) (pt_db p) \<rparr>, Inr ()))"

section \<open>Passkeys\<close>

text \<open>The challenge of the options is made by the WebAuthn library.\<close>

definition registerOptions ::
  "PortalConfig \<Rightarrow> PortalLibrary \<Rightarrow> crypto \<Rightarrow> PortalHeaders \<Rightarrow> string \<Rightarrow> (nat \<Rightarrow> string) \<Rightarrow> (nat \<Rightarrow> ms) \<Rightarrow> Portal \<Rightarrow>
     Portal \<times> (PortalError + string \<times> string list)" where
  "registerOptions cfg lib cr h challenge uuid clock p =
     withUser lib cr h (clock 0) p (\<lambda>user.
       (let excluded = map pk_credentialId (listPasskeysByUserId (pu_userId user) (pt_db p)) in
        case createPasskeyChallenge
               \<lparr> pc_challengeId = uuid 0, pc_userId = Some (pu_userId user), pc_email = Some (pu_email user), pc_challenge = challenge,
                 pc_flowType = Flow_registration, pc_expiresAtMs = clock 1 + pf_passkeyTtl cfg, pc_createdAtMs = clock 2 \<rparr> (pt_db p) of
          None \<Rightarrow> (p, Inl P_threw)
        | Some db \<Rightarrow> (p\<lparr> pt_db := db \<rparr>, Inr (uuid 0, excluded))))"

definition registeredRow :: "string \<Rightarrow> string \<Rightarrow> RegistrationInfo \<Rightarrow> ms \<Rightarrow> PasskeyCredential" where
  "registeredRow userId webauthnUserId reg now =
     \<lparr> pk_credentialId = ri_credentialId reg, pk_userId = userId, pk_webauthnUserId = webauthnUserId, pk_publicKeyB64Url = ri_publicKey reg,
       pk_counter = nullish (ri_counter reg) 0, pk_deviceType = ri_deviceType reg, pk_backedUp = ri_backedUp reg,
       pk_transports = ri_transports reg, pk_createdAtMs = now, pk_lastUsedAtMs = Some now \<rparr>"

definition registerVerify ::
  "PortalLibrary \<Rightarrow> crypto \<Rightarrow> PortalHeaders \<Rightarrow> string \<Rightarrow> PasskeyResponse option \<Rightarrow> string \<Rightarrow> (nat \<Rightarrow> ms) \<Rightarrow> Portal \<Rightarrow> Portal \<times> (PortalError + unit)" where
  "registerVerify lib cr h challengeId response webauthnUserId clock p =
     withUser lib cr h (clock 0) p (\<lambda>user.
       if length challengeId < 10 then (p, Inl P_threw)
       else (case consumePasskeyChallenge challengeId (clock 1) (pt_db p) of
               (db, None) \<Rightarrow> (p\<lparr> pt_db := db \<rparr>, Inl (P_error 400 ''passkey_challenge_invalid''))
             | (db, Some c) \<Rightarrow>
                 if pc_flowType c \<noteq> Flow_registration \<or> pc_userId c \<noteq> Some (pu_userId user)
                 then (p\<lparr> pt_db := db \<rparr>, Inl (P_error 400 ''passkey_challenge_invalid''))
                 else (case pl_verifyRegistration lib (map_option normalizePasskeyResponsePayload response) (pc_challenge c) of
                         None \<Rightarrow> (p\<lparr> pt_db := db \<rparr>, Inl (P_error 400 ''passkey_registration_failed''))
                       | Some reg \<Rightarrow>
                           (p\<lparr> pt_db := upsertPasskeyCredential (registeredRow (pu_userId user) webauthnUserId reg (clock 2)) db \<rparr>, Inr ()))))"

definition loginOptions ::
  "PortalConfig \<Rightarrow> PortalLibrary \<Rightarrow> string option \<Rightarrow> string \<Rightarrow> (nat \<Rightarrow> string) \<Rightarrow> (nat \<Rightarrow> ms) \<Rightarrow> Portal \<Rightarrow> Portal \<times> (PortalError + string \<times> string list)" where
  "loginOptions cfg lib email challenge uuid clock p =
     (if \<not> optionally (pl_isEmail lib) email then (p, Inl P_threw)
      else (let normalizedEmail = (if truthy_str email then Some (normalizeEmail (the email)) else None);
                user = (if truthy_str normalizedEmail then getUserByEmail (the normalizedEmail) (pt_db p) else None);
                credentials = (case user of None \<Rightarrow> [] | Some u \<Rightarrow> listPasskeysByUserId (pu_userId u) (pt_db p)) in
        if truthy_str normalizedEmail \<and> user = None then (p, Inl (P_error 404 ''user_not_found''))
        else if truthy_str normalizedEmail \<and> credentials = [] then (p, Inl (P_error 404 ''passkey_not_registered''))
        else (case createPasskeyChallenge
                     \<lparr> pc_challengeId = uuid 0, pc_userId = map_option pu_userId user, pc_email = map_option pu_email user,
                       pc_challenge = challenge, pc_flowType = Flow_authentication, pc_expiresAtMs = clock 0 + pf_passkeyTtl cfg,
                       pc_createdAtMs = clock 1 \<rparr> (pt_db p) of
                None \<Rightarrow> (p, Inl P_threw)
              | Some db \<Rightarrow> (p\<lparr> pt_db := db \<rparr>, Inr (uuid 0, map pk_credentialId credentials)))))"

definition loginVerify ::
  "PortalConfig \<Rightarrow> PortalLibrary \<Rightarrow> crypto \<Rightarrow> string \<Rightarrow> string option \<Rightarrow> PasskeyResponse option \<Rightarrow> (nat \<Rightarrow> string) \<Rightarrow> (nat \<Rightarrow> ms) \<Rightarrow> Portal \<Rightarrow>
     Portal \<times> (PortalError + PortalUser option)" where
  "loginVerify cfg lib cr challengeId credentialId0 response uuid clock p =
     (if length challengeId < 10 \<or> \<not> optionally (\<lambda>s. 10 \<le> length s) credentialId0 then (p, Inl P_threw)
      else (case consumePasskeyChallenge challengeId (clock 0) (pt_db p) of
              (db, None) \<Rightarrow> (p\<lparr> pt_db := db \<rparr>, Inl (P_error 400 ''passkey_challenge_invalid''))
            | (db, Some c) \<Rightarrow>
                (let p1 = p\<lparr> pt_db := db \<rparr>; credentialId = deriveCredentialIdFromVerifyBody credentialId0 response in
                 if pc_flowType c \<noteq> Flow_authentication then (p1, Inl (P_error 400 ''passkey_challenge_invalid''))
                 else if \<not> truthy_str credentialId then (p1, Inl (P_error 400 ''passkey_credential_id_missing''))
                 else (case findPasskeyByCredentialId (the credentialId) db of
                         None \<Rightarrow> (p1, Inl (P_error 404 ''passkey_credential_not_found''))
                       | Some credential \<Rightarrow>
                           (case pl_verifyAuthentication lib False (map_option normalizePasskeyResponsePayload response) (pc_challenge c) credential of
                              None \<Rightarrow> (p1, Inl (P_error 401 ''passkey_login_failed''))
                            | Some newCounter \<Rightarrow>
                                (let p2 = p1\<lparr> pt_db := updatePasskeyCounter (pk_credentialId credential) (nullish newCounter (pk_counter credential)) (clock 1) db \<rparr> in
                                 case createSessionForUser cfg cr (pk_userId credential) (uuid 0) (uuid 1) (clock 2) (clock 3) p2 of
                                   None \<Rightarrow> (p2, Inl P_threw)
                                 | Some p3 \<Rightarrow> (p3, Inr (getUserById (pk_userId credential) (pt_db p3)))))))))"

section \<open>Access rights\<close>

record PortalAccessContext =
  ac_isSystemAdmin :: bool
  ac_isCoordinatorAdmin :: bool
  ac_ownsCoordinatorNode :: bool
  ac_canViewCoordinatorOps :: bool
  ac_canManageCoordinatorOps :: bool

definition emailSet :: "string \<Rightarrow> string list" where
  "emailSet csv = filter (\<lambda>s. s \<noteq> []) (map normalizeEmail (split_on (CHR '','') csv))"

definition buildAccessContext :: "PortalConfig \<Rightarrow> PortalUser \<Rightarrow> PortalDb \<Rightarrow> PortalAccessContext" where
  "buildAccessContext cfg user db =
     (let email = normalizeEmail (pu_email user);
          systemAdmin = (pu_role user = Role_admin \<or> email \<in> set (pf_systemAdmins cfg));
          coordinatorAdmin = (systemAdmin \<or> email \<in> set (pf_coordinatorAdmins cfg));
          owns = list_ex (\<lambda>n. ne_nodeKind n = Node_coordinator) (listNodesByOwner (pu_userId user) db) in
      \<lparr> ac_isSystemAdmin = systemAdmin, ac_isCoordinatorAdmin = coordinatorAdmin, ac_ownsCoordinatorNode = owns,
        ac_canViewCoordinatorOps = (systemAdmin \<or> coordinatorAdmin \<or> owns \<or> email \<in> set (pf_operationsOwners cfg)),
        ac_canManageCoordinatorOps = (systemAdmin \<or> coordinatorAdmin) \<rparr>)"

definition requireCoordinatorOperationsUser ::
  "PortalConfig \<Rightarrow> PortalLibrary \<Rightarrow> crypto \<Rightarrow> PortalHeaders \<Rightarrow> ms \<Rightarrow> Portal \<Rightarrow> PortalError + PortalUser \<times> PortalAccessContext" where
  "requireCoordinatorOperationsUser cfg lib cr h now p =
     snd (withUser lib cr h now p (\<lambda>user.
       (let access = buildAccessContext cfg user (pt_db p) in
        (p, if \<not> ac_canViewCoordinatorOps access then Inl (P_error 403 ''coordinator_operations_forbidden'') else Inr (user, access)))))"

definition setTheme :: "PortalLibrary \<Rightarrow> crypto \<Rightarrow> PortalHeaders \<Rightarrow> UiTheme \<Rightarrow> ms \<Rightarrow> Portal \<Rightarrow> Portal \<times> (PortalError + UiTheme)" where
  "setTheme lib cr h theme now p =
     withUser lib cr h now p (\<lambda>user. (p\<lparr> pt_db := setUserTheme (pu_userId user) theme (pt_db p) \<rparr>, Inr theme))"

definition adminUsers :: "PortalConfig \<Rightarrow> PortalLibrary \<Rightarrow> crypto \<Rightarrow> PortalHeaders \<Rightarrow> ms \<Rightarrow> Portal \<Rightarrow> Portal \<times> (PortalError + PortalUser list)" where
  "adminUsers cfg lib cr h now p =
     withUser lib cr h now p (\<lambda>user.
       (p, if \<not> ac_isSystemAdmin (buildAccessContext cfg user (pt_db p)) then Inl (P_error 403 ''admin_only'') else Inr (listAllUsers (pt_db p))))"

definition adminSetRole ::
  "PortalConfig \<Rightarrow> PortalLibrary \<Rightarrow> crypto \<Rightarrow> PortalHeaders \<Rightarrow> string \<Rightarrow> UserRole \<Rightarrow> ms \<Rightarrow> Portal \<Rightarrow> Portal \<times> (PortalError + unit)" where
  "adminSetRole cfg lib cr h userId r now p =
     withUser lib cr h now p (\<lambda>user.
       if \<not> ac_isSystemAdmin (buildAccessContext cfg user (pt_db p)) then (p, Inl (P_error 403 ''admin_only''))
       else if getUserById userId (pt_db p) = None then (p, Inl (P_error 404 ''user_not_found''))
       else (p\<lparr> pt_db := setUserRole userId r (pt_db p) \<rparr>, Inr ()))"

section \<open>Conversations\<close>

definition conversationsList :: "PortalLibrary \<Rightarrow> crypto \<Rightarrow> PortalHeaders \<Rightarrow> ms \<Rightarrow> Portal \<Rightarrow> Portal \<times> (PortalError + PortalConversation list)" where
  "conversationsList lib cr h now p = withUser lib cr h now p (\<lambda>user. (p, Inr (listConversations (pu_userId user) 50 (pt_db p))))"

definition conversationCreate ::
  "PortalLibrary \<Rightarrow> crypto \<Rightarrow> PortalHeaders \<Rightarrow> string option \<Rightarrow> string \<Rightarrow> (nat \<Rightarrow> ms) \<Rightarrow> Portal \<Rightarrow> Portal \<times> (PortalError + string)" where
  "conversationCreate lib cr h title conversationId clock p =
     withUser lib cr h (clock 0) p (\<lambda>user.
       case createConversation conversationId (pu_userId user) title (clock 1) (pt_db p) of
         None \<Rightarrow> (p, Inl P_threw)
       | Some db \<Rightarrow> (p\<lparr> pt_db := db \<rparr>, Inr conversationId))"

definition conversationMessages :: "PortalLibrary \<Rightarrow> crypto \<Rightarrow> PortalHeaders \<Rightarrow> string \<Rightarrow> ms \<Rightarrow> Portal \<Rightarrow> Portal \<times> (PortalError + PortalMessage list)" where
  "conversationMessages lib cr h i now p = withUser lib cr h now p (\<lambda>user. (p, Inr (getConversationMessages i (pt_db p))))"

definition conversationRename ::
  "PortalLibrary \<Rightarrow> crypto \<Rightarrow> PortalHeaders \<Rightarrow> string \<Rightarrow> string \<Rightarrow> (nat \<Rightarrow> ms) \<Rightarrow> Portal \<Rightarrow> Portal \<times> (PortalError + unit)" where
  "conversationRename lib cr h i title clock p =
     withUser lib cr h (clock 0) p (\<lambda>user.
       if title = [] then (p, Inl P_threw) else (p\<lparr> pt_db := renameConversation i title (clock 1) (pt_db p) \<rparr>, Inr ()))"

definition conversationDelete :: "PortalLibrary \<Rightarrow> crypto \<Rightarrow> PortalHeaders \<Rightarrow> string \<Rightarrow> ms \<Rightarrow> Portal \<Rightarrow> Portal \<times> (PortalError + unit)" where
  "conversationDelete lib cr h i now p =
     withUser lib cr h now p (\<lambda>user. (p\<lparr> pt_db := deleteConversation i (pt_db p) \<rparr>, Inr ()))"

section \<open>Who is logged in\<close>

lemma getUserById_Some: "getUserById i db = Some u \<Longrightarrow> u \<in> set (db_users db) \<and> pu_userId u = i"
  unfolding getUserById_def by (drule find_SomeD) auto

lemma current_user_has_session:
  assumes "getCurrentUser lib cr h now p = Some (Some u)"
  shows "\<exists>token s. sessionTokenOf lib h = Some (Some token) \<and> s \<in> set (db_sessions (pt_db p)) \<and>
    ps_tokenHash s = sha256_hex cr token \<and> now < ps_expiresAtMs s \<and> ps_userId s = pu_userId u \<and> u \<in> set (db_users (pt_db p))"
proof -
  obtain t where t: "sessionTokenOf lib h = Some t" using assms by (auto simp: getCurrentUser_def split: option.splits)
  then obtain token where tok: "t = Some token" using assms by (cases t) (auto simp: getCurrentUser_def)
  then obtain s where s: "getSessionByTokenHash (sha256_hex cr token) now (pt_db p) = Some s"
    and u: "getUserById (ps_userId s) (pt_db p) = Some u"
    using assms t by (auto simp: getCurrentUser_def split: if_splits option.splits)
  have "s \<in> set (db_sessions (pt_db p)) \<and> ps_tokenHash s = sha256_hex cr token \<and> ps_expiresAtMs s > now"
    using s unfolding getSessionByTokenHash_def by (drule_tac find_SomeD) auto
  then show ?thesis using t tok getUserById_Some [OF u] by auto
qed

text \<open>A malformed cookie makes every route that looks for a user throw.\<close>

lemma malformed_cookie_throws:
  "parseCookies (pl_decode lib) (ph_cookie h) = None \<Longrightarrow> withUser lib cr h now p k = (p, Inl P_threw)"
  by (simp add: withUser_def getCurrentUser_def sessionTokenOf_def)

lemma withUser_user: "getCurrentUser lib cr h now p = Some (Some u) \<Longrightarrow> withUser lib cr h now p k = k u"
  by (simp add: withUser_def)

lemma withUser_Inr:
  assumes "withUser lib cr h now p k = (p', Inr x)"
  obtains u where "getCurrentUser lib cr h now p = Some (Some u)" "k u = (p', Inr x)"
  using assms by (auto simp: withUser_def split: option.splits)

text \<open>Reading, renaming and deleting a conversation ask for a user, not for its owner.\<close>

lemma conversation_open_to_all:
  assumes "getCurrentUser lib cr h (clock 0) p = Some (Some u)" "title \<noteq> []"
  shows "conversationMessages lib cr h i (clock 0) p = (p, Inr (getConversationMessages i (pt_db p)))"
    "conversationRename lib cr h i title clock p = (p\<lparr> pt_db := renameConversation i title (clock 1) (pt_db p) \<rparr>, Inr ())"
    "conversationDelete lib cr h i (clock 0) p = (p\<lparr> pt_db := deleteConversation i (pt_db p) \<rparr>, Inr ())"
  using assms by (simp_all add: conversationMessages_def conversationRename_def conversationDelete_def withUser_user)

text \<open>Logging out with a bearer token deletes nothing.\<close>

lemma bearer_logout_keeps_session: "logout lib cr \<lparr> ph_cookie = None, ph_authorization = Some b \<rparr> p = (p, Inr ())"
  by (simp add: logout_def parseCookies_def)

text \<open>The owner of a coordinator that nobody approved may see the operations of the coordinators.\<close>

lemma pending_coordinator_views_ops:
  assumes "n \<in> set (db_nodes db)" "ne_ownerUserId n = pu_userId u" "ne_nodeKind n = Node_coordinator"
  shows "ac_canViewCoordinatorOps (buildAccessContext cfg u db)"
  using assms by (auto simp: buildAccessContext_def Let_def listNodesByOwner_def orderDesc_def list_ex_iff)

section \<open>Sign-up and verification\<close>

lemma createUser_SomeD:
  assumes "createUser i email pw dn v now db = Some (db', u)"
  shows "db' = db\<lparr> db_users := db_users db @ [u] \<rparr>" "pu_userId u = i" "pu_email u = email" "pu_emailVerified u = v"
    "i \<notin> set (map pu_userId (db_users db))" "pu_passwordHash u = pw"
  using assms by (auto simp: createUser_def Let_def sqlInsert_def split: if_splits option.splits)

lemma createEmailVerification_SomeD:
  assumes "createEmailVerification tokenId userId tokenHash expires now db = Some db'"
  shows "db' = db\<lparr> db_verifications := db_verifications db @ [\<lparr> ev_tokenId = tokenId, ev_userId = userId, ev_tokenHash = tokenHash,
      ev_expiresAtMs = expires, ev_consumedAtMs = None, ev_createdAtMs = now \<rparr>] \<rparr>"
    "tokenHash \<notin> set (map ev_tokenHash (db_verifications db))"
  using assms by (auto simp: createEmailVerification_def sqlInsert_def split: if_splits)

lemma find_fresh_row: "k \<notin> set (map key rows) \<Longrightarrow> key r = k \<Longrightarrow> Q r \<Longrightarrow> find (\<lambda>x. key x = k \<and> Q x) (rows @ [r]) = Some r"
  by (induction rows) auto

lemma find_fresh_key: "k \<notin> set (map key rows) \<Longrightarrow> key r = k \<Longrightarrow> find (\<lambda>x. key x = k) (rows @ [r]) = Some r"
  by (induction rows) auto

lemma ensureStarterWallet_tables:
  "db_users (pt_db (fst (ensureStarterWalletForUser cfg lib cr i mnemonic now p))) = db_users (pt_db p)"
  "db_verifications (pt_db (fst (ensureStarterWalletForUser cfg lib cr i mnemonic now p))) = db_verifications (pt_db p)"
  "db_sessions (pt_db (fst (ensureStarterWalletForUser cfg lib cr i mnemonic now p))) = db_sessions (pt_db p)"
  "pt_mails (fst (ensureStarterWalletForUser cfg lib cr i mnemonic now p)) = pt_mails p"
  "pt_mobileTokens (fst (ensureStarterWalletForUser cfg lib cr i mnemonic now p)) = pt_mobileTokens p"
  by (simp_all add: ensureStarterWalletForUser_def Let_def createWalletOnboarding_def split: option.splits)

lemma signup_Inr:
  assumes "signup cfg lib cr email0 password displayName salt mnemonic delivered uuid clock p = (p1, Inr (userId, w))"
  obtains u where
    "db_users (pt_db p1) = db_users (pt_db p) @ [u]" "pu_userId u = userId" "userId = uuid 0" "\<not> pu_emailVerified u"
    "uuid 0 \<notin> set (map pu_userId (db_users (pt_db p)))"
    "sha256_hex cr (uuid 1) \<notin> set (map ev_tokenHash (db_verifications (pt_db p)))"
    "db_verifications (pt_db p1) = db_verifications (pt_db p) @ [\<lparr> ev_tokenId = uuid 2, ev_userId = uuid 0, ev_tokenHash = sha256_hex cr (uuid 1),
      ev_expiresAtMs = clock 1 + pf_verifyTtl cfg, ev_consumedAtMs = None, ev_createdAtMs = clock 2 \<rparr>]"
    "pt_mails p1 = pt_mails p @ (if pf_mail cfg then [VerificationMail (normalizeEmail email0) (uuid 1)] else [])"
proof -
  let ?pw = "Some (hashPassword (pl_scrypt lib) salt password)"
  obtain db u where u: "createUser (uuid 0) (normalizeEmail email0) ?pw displayName False (clock 0) (pt_db p) = Some (db, u)"
    using assms by (auto simp: signup_def Let_def split: if_splits option.splits)
  note cu = createUser_SomeD [OF u]
  obtain db' where v: "createEmailVerification (uuid 2) (pu_userId u) (sha256_hex cr (uuid 1)) (clock 1 + pf_verifyTtl cfg) (clock 2) db = Some db'"
    using assms u by (auto simp: signup_def Let_def split: if_splits option.splits)
  note cv = createEmailVerification_SomeD [OF v]
  obtain p3 where m: "sendVerificationEmail cfg delivered (pu_email u) (uuid 1) (p\<lparr> pt_db := db' \<rparr>) = Some p3"
    using assms u v by (auto simp: signup_def Let_def split: if_splits option.splits)
  have p1: "p1 = fst (ensureStarterWalletForUser cfg lib cr (pu_userId u) mnemonic (clock 3) p3)" and i: "userId = pu_userId u"
    using assms u v m by (auto simp: signup_def Let_def split: if_splits prod.splits)
  have e: "pu_email u = normalizeEmail email0" using u by (auto simp: createUser_def Let_def split: if_splits option.splits)
  have p3: "pt_db p3 = db'" "pt_mails p3 = pt_mails p @ (if pf_mail cfg then [VerificationMail (normalizeEmail email0) (uuid 1)] else [])"
    using m e by (auto simp: sendVerificationEmail_def split: if_splits)
  show thesis
    by (rule that [of u]) (use cu cv i p3 in \<open>simp_all add: p1 ensureStarterWallet_tables\<close>)
qed

lemma getUserById_verified:
  "getUserById i db = Some u \<Longrightarrow> \<exists>u'. getUserById i (markUserEmailVerified i now db) = Some u' \<and> pu_emailVerified u'"
proof -
  have "find (\<lambda>u. pu_userId u = i) rows = Some u \<Longrightarrow>
    \<exists>u'. find (\<lambda>u. pu_userId u = i) (sqlUpdate (\<lambda>u. pu_userId u = i) (\<lambda>u. u\<lparr> pu_emailVerified := True, pu_verifiedAtMs := f u \<rparr>) rows) = Some u' \<and>
      pu_emailVerified u'" for rows f
    by (induction rows) (auto simp: sqlUpdate_def)
  then show "getUserById i db = Some u \<Longrightarrow> ?thesis"
    by (simp add: getUserById_def markUserEmailVerified_def verifyOwnedNodes_def verifyUserRow_def)
qed

text \<open>
  C34: Whoever has signed up is mailed the link of a fresh token at the address given (trimmed and in lower case), if mail is configured;
  opened before it expires, the link verifies the account, whatever else the tables hold, and it works once.
\<close>

theorem signup_then_verify:
  assumes "signup cfg lib cr email0 password displayName salt mnemonic delivered uuid clock p = (p1, Inr (userId, w))"
    and "10 \<le> length (uuid 1)" "clock' 0 < clock 1 + pf_verifyTtl cfg"
  shows "pt_mails p1 = pt_mails p @ (if pf_mail cfg then [VerificationMail (normalizeEmail email0) (uuid 1)] else []) \<and>
    (\<exists>p2 u. verifyEmail cr (uuid 1) clock' p1 = (p2, Inr ()) \<and> getUserById userId (pt_db p2) = Some u \<and> pu_emailVerified u \<and>
    snd (verifyEmail cr (uuid 1) clock'' p2) = Inl (P_error 400 ''Invalid or expired verification token.''))"
proof -
  let ?h = "sha256_hex cr (uuid 1)"
  let ?row = "\<lparr> ev_tokenId = uuid 2, ev_userId = uuid 0, ev_tokenHash = ?h, ev_expiresAtMs = clock 1 + pf_verifyTtl cfg,
      ev_consumedAtMs = None, ev_createdAtMs = clock 2 \<rparr>"
  from assms(1) obtain u where s: "db_users (pt_db p1) = db_users (pt_db p) @ [u]" "pu_userId u = userId" "userId = uuid 0"
    "uuid 0 \<notin> set (map pu_userId (db_users (pt_db p)))" "?h \<notin> set (map ev_tokenHash (db_verifications (pt_db p)))"
    "db_verifications (pt_db p1) = db_verifications (pt_db p) @ [?row]"
    "pt_mails p1 = pt_mails p @ (if pf_mail cfg then [VerificationMail (normalizeEmail email0) (uuid 1)] else [])" by (rule signup_Inr) blast
  have open1: "find (openVerification ?h (clock' 0)) (db_verifications (pt_db p1)) = Some ?row"
    unfolding s(6) openVerification_def
    using find_fresh_row [of ?h ev_tokenHash "db_verifications (pt_db p)" ?row "\<lambda>v. ev_consumedAtMs v = None \<and> clock' 0 < ev_expiresAtMs v"] s(5) assms(3)
    by simp
  define db where "db = fst (consumeEmailVerification ?h (clock' 0) (pt_db p1))"
  define p2 where "p2 = p1\<lparr> pt_db := markUserEmailVerified (uuid 0) (clock' 1) db \<rparr>"
  have v: "verifyEmail cr (uuid 1) clock' p1 = (p2, Inr ())"
    using assms(2) open1 by (simp add: verifyEmail_def consumeEmailVerification_def p2_def db_def)
  have "getUserById userId db = Some u"
    using find_fresh_key [of userId pu_userId "db_users (pt_db p)" u] s
    by (simp add: getUserById_def db_def consumeEmailVerification_def)
  then obtain u' where u': "getUserById userId (pt_db p2) = Some u'" "pu_emailVerified u'"
    using getUserById_verified [of userId db u "clock' 1"] s(3) by (auto simp: p2_def)
  have none: "find (openVerification ?h t) (db_verifications (pt_db p2)) = None" for t
  proof -
    have "\<not> openVerification ?h t v" if "v \<in> set (db_verifications (pt_db p2))" for v
      using that s(5) assms(3)
      by (auto simp: p2_def db_def markUserEmailVerified_def verifyOwnedNodes_def verifyUserRow_def consumeEmailVerification_def s(6)
          set_sqlUpdate openVerification_def image_iff)
    then show ?thesis by (simp add: find_None_all)
  qed
  have "snd (verifyEmail cr (uuid 1) clock'' p2) = Inl (P_error 400 ''Invalid or expired verification token.'')"
    using assms(2) none by (simp add: verifyEmail_def consumeEmailVerification_def)
  then show ?thesis using v u' s(7) by blast
qed

definition ex_portal_config :: PortalConfig where
  "ex_portal_config =
     \<lparr> pf_serviceToken = ''service'', pf_controlPlane = False, pf_mail = True, pf_sessionTtl = 1000, pf_verifyTtl = 500, pf_passkeyTtl = 300,
       pf_walletTtl = 600, pf_mobileTtl = 300, pf_systemAdmins = [], pf_coordinatorAdmins = [], pf_operationsOwners = [], pf_pepper = ''pepper'',
       pf_network = ''signet'', pf_callbackPrefix = ''edgecoder://oauth-callback'', pf_oauthConfigured = (\<lambda>_. True) \<rparr>"

definition ex_portal_library :: PortalLibrary where
  "ex_portal_library =
     \<lparr> pl_decode = Some, pl_protocol = (\<lambda>_. Some ''edgecoder:''), pl_scrypt = (\<lambda>p s. p @ s), pl_address = (\<lambda>s n. n @ s), pl_isEmail = (\<lambda>_. True),
       pl_verifyRegistration = (\<lambda>_ _. None), pl_verifyAuthentication = (\<lambda>_ r _ _. if r = None then None else Some None) \<rparr>"

definition ex_portal_crypto :: crypto where
  "ex_portal_crypto = \<lparr> sha256_hex = (\<lambda>s. ''#'' @ s), ed_sign = (\<lambda>_ _. []), ed_verify = (\<lambda>_ _ _. Some False) \<rparr>"

definition ex_uuid :: "nat \<Rightarrow> string" where
  "ex_uuid i = ''uuid-uuid-'' @ nat_str i"

definition ex_setup :: WalletSetup where
  "ex_setup = \<lparr> ws_created = True, ws_accountId = ''acct-uuid-uuid-0'', ws_network = ''signet'', ws_seedPhrase = Some ''seed'',
     ws_derivedAddress = Some ''signetseed'' \<rparr>"

definition ex_signed :: "Portal \<times> (PortalError + string \<times> WalletSetup)" where
  "ex_signed = signup ex_portal_config ex_portal_library ex_portal_crypto '' A@b.c'' ''password'' None ''salt'' ''seed'' True ex_uuid int emptyPortal"

lemma ex_signed_ok: "snd ex_signed = Inr (''uuid-uuid-0'', ex_setup)"
  by code_simp

theorem signup_then_verify_witness:
  "pt_mails (fst ex_signed) = [VerificationMail (normalizeEmail '' A@b.c'') (ex_uuid 1)] \<and>
   (\<exists>p2 u. verifyEmail ex_portal_crypto (ex_uuid 1) (\<lambda>_. 100) (fst ex_signed) = (p2, Inr ()) \<and>
     getUserById ''uuid-uuid-0'' (pt_db p2) = Some u \<and> pu_emailVerified u)"
proof -
  have s: "signup ex_portal_config ex_portal_library ex_portal_crypto '' A@b.c'' ''password'' None ''salt'' ''seed'' True ex_uuid int emptyPortal =
      (fst ex_signed, Inr (''uuid-uuid-0'', ex_setup))"
    using ex_signed_ok by (simp add: ex_signed_def prod_eq_iff)
  have l: "10 \<le> length (ex_uuid 1)" by code_simp
  have t: "(\<lambda>_. 100 :: int) 0 < int 1 + pf_verifyTtl ex_portal_config" by (simp add: ex_portal_config_def)
  have e: "pt_mails emptyPortal @ (if pf_mail ex_portal_config then ms else []) = ms" for ms by (simp add: emptyPortal_def ex_portal_config_def)
  show ?thesis using signup_then_verify [OF s l, of "\<lambda>_. 100"] t unfolding e by blast
qed

section \<open>Whose account an OAuth log-in opens\<close>

lemma resolveAccount_user:
  assumes "resolveAccount cfg lib cr provider subject email verified mnemonic uuid clock p = Some (p', Some u)"
  shows "pu_userId u =
    (case (case findOauthIdentity provider subject (pt_db p) of None \<Rightarrow> None | Some i \<Rightarrow> getUserById i (pt_db p)) of
       Some v \<Rightarrow> pu_userId v
     | None \<Rightarrow> (case getUserByEmail email (pt_db p) of Some v \<Rightarrow> pu_userId v | None \<Rightarrow> uuid 0))"
  using assms
  by (auto simp: resolveAccount_def Let_def createUser_SomeD dest!: getUserById_Some split: option.splits if_splits)

lemma find_upserted: "find (\<lambda>l. key l = k) (sqlUpsert key r f rows) = (if key r = k then
     Some (if k \<in> set (map key rows) then f (the (find (\<lambda>l. key l = k) rows)) else r) else find (\<lambda>l. key l = k) rows)"
  if "\<And>l. key (f l) = key l"
proof -
  have u: "find (\<lambda>l. key l = k) (sqlUpdate (\<lambda>x. key x = key r) f rows) =
      (if key r = k then map_option f (find (\<lambda>l. key l = k) rows) else find (\<lambda>l. key l = k) rows)" for rows
    by (induction rows) (auto simp: sqlUpdate_def that)
  have a: "find P (xs @ [y]) = (case find P xs of None \<Rightarrow> if P y then Some y else None | Some x \<Rightarrow> Some x)" for P xs and y :: 'a
    by (induction xs) auto
  show ?thesis
  proof (cases "key r \<in> set (map key rows)")
    case True
    then obtain l where "l \<in> set rows" "key l = key r" by auto
    then have "find (\<lambda>l. key l = key r) rows \<noteq> None" by (metis (mono_tags, lifting) find_None_all)
    then show ?thesis using True u by (auto simp: sqlUpsert_def)
  next
    case False
    then have "find (\<lambda>l. key l = key r) rows = None" unfolding find_None_all by (metis image_eqI set_map)
    then show ?thesis using False by (auto simp: sqlUpsert_def a split: option.splits)
  qed
qed

lemma find_linkOauthIdentity: "findOauthIdentity provider subject (linkOauthIdentity provider subject userId email now db) = Some userId"
proof -
  define key where "key = (\<lambda>l :: OauthLink. (ol_provider l, ol_subject l))"
  define row where "row = \<lparr> ol_provider = provider, ol_subject = subject, ol_userId = userId, ol_emailSnapshot = email, ol_createdAtMs = now \<rparr>"
  define f where "f = (\<lambda>l :: OauthLink. l\<lparr> ol_userId := userId, ol_emailSnapshot := email \<rparr>)"
  have f: "findOauthIdentity provider subject d = map_option ol_userId (find (\<lambda>l. key l = (provider, subject)) (db_links d))" for d
    by (simp add: findOauthIdentity_def key_def)
  have l: "db_links (linkOauthIdentity provider subject userId email now db) = sqlUpsert key row f (db_links db)"
    by (simp add: linkOauthIdentity_def key_def row_def f_def)
  have k: "key (f l) = key l" "key row = (provider, subject)" "ol_userId (f l) = userId" "ol_userId row = userId" for l
    by (simp_all add: key_def f_def row_def)
  show ?thesis unfolding f l by (subst find_upserted) (simp_all add: k)
qed

lemma findOauthIdentity_links: "db_links db = db_links db' \<Longrightarrow> findOauthIdentity a b db = findOauthIdentity a b db'"
  by (simp add: findOauthIdentity_def)

lemma finishOauth_Inr:
  assumes "finishOauth cfg cr provider subject email a person nr uuid clock user p = (p', Inr lg)"
  shows "findOauthIdentity provider subject (pt_db p') = Some (pu_userId user)"
    "db_sessions (pt_db p') = db_sessions (pt_db p) @
       [\<lparr> ps_sessionId = uuid 2, ps_userId = pu_userId user, ps_tokenHash = sha256_hex cr (lo_sessionToken lg),
         ps_expiresAtMs = clock 5 + pf_sessionTtl cfg, ps_createdAtMs = clock 6 \<rparr>]"
    "pt_mobileTokens p' = (case lo_mobile lg of None \<Rightarrow> pt_mobileTokens p
       | Some (redirect, token) \<Rightarrow> jsm_set token (pu_userId user, clock 7 + pf_mobileTtl cfg) (pt_mobileTokens p))"
proof -
  show "db_sessions (pt_db p') = db_sessions (pt_db p) @
       [\<lparr> ps_sessionId = uuid 2, ps_userId = pu_userId user, ps_tokenHash = sha256_hex cr (lo_sessionToken lg),
         ps_expiresAtMs = clock 5 + pf_sessionTtl cfg, ps_createdAtMs = clock 6 \<rparr>]"
    "pt_mobileTokens p' = (case lo_mobile lg of None \<Rightarrow> pt_mobileTokens p
       | Some (redirect, token) \<Rightarrow> jsm_set token (pu_userId user, clock 7 + pf_mobileTtl cfg) (pt_mobileTokens p))"
    using assms by (auto simp: finishOauth_def Let_def createSessionForUser_def createSession_def sqlInsert_def saveGitHubToken_def
        linkOauthIdentity_def issueMobileOauthSessionToken_def split: option.splits if_splits)
  have "db_links (pt_db p') = db_links (linkOauthIdentity provider subject (pu_userId user) (Some email) (clock 3) (pt_db p))"
    using assms by (auto simp: finishOauth_def Let_def createSessionForUser_def createSession_def saveGitHubToken_def
        issueMobileOauthSessionToken_def split: option.splits if_splits)
  then show "findOauthIdentity provider subject (pt_db p') = Some (pu_userId user)"
    using findOauthIdentity_links find_linkOauthIdentity by metis
qed

lemma resolveAccount_sessions:
  assumes "resolveAccount cfg lib cr provider subject email verified mnemonic uuid clock p = Some (p', u)"
  shows "db_sessions (pt_db p') = db_sessions (pt_db p)" "pt_mobileTokens p' = pt_mobileTokens p"
  using assms
  by (auto simp: resolveAccount_def Let_def createUser_def ensureStarterWallet_tables markUserEmailVerified_def verifyOwnedNodes_def verifyUserRow_def
      split: option.splits if_splits)

lemma consumeOauthState_tables:
  "db_sessions (fst (consumeOauthState i now db)) = db_sessions db"
  "db_users (fst (consumeOauthState i now db)) = db_users db" "db_links (fst (consumeOauthState i now db)) = db_links db"
  by (simp_all add: consumeOauthState_def Let_def)

text \<open>
  C33: An OAuth call-back succeeds only with an unexpired state that was issued for the same provider; the one session it adds, whose token
  the cookie carries, and the mobile token of a native application are those of the account linked to the person, else of the account
  with the person's e-mail, whether or not the provider has verified that e-mail, else of a new one, and it leaves the person linked to
  that account.
\<close>

theorem oauth_account_resolution:
  assumes "handleOauthCallback cfg lib cr provider stateId a mnemonic uuid clock p = (p', Inr lg)"
  shows "\<exists>st subject email account. st \<in> set (db_oauthStates (pt_db p)) \<and> os_stateId st = stateId \<and> os_provider st = provider \<and>
    clock 0 < os_expiresAtMs st \<and>
    op_subject (resolvePerson provider a) = Some subject \<and> op_email (resolvePerson provider a) = Some email \<and>
    account =
      (case (case findOauthIdentity provider subject (pt_db p) of None \<Rightarrow> None | Some i \<Rightarrow> getUserById i (pt_db p)) of
         Some v \<Rightarrow> pu_userId v
       | None \<Rightarrow> (case getUserByEmail (normalizeEmail email) (pt_db p) of Some v \<Rightarrow> pu_userId v | None \<Rightarrow> uuid 0)) \<and>
    db_sessions (pt_db p') = db_sessions (pt_db p) @
      [\<lparr> ps_sessionId = uuid 2, ps_userId = account, ps_tokenHash = sha256_hex cr (lo_sessionToken lg),
        ps_expiresAtMs = clock 5 + pf_sessionTtl cfg, ps_createdAtMs = clock 6 \<rparr>] \<and>
    pt_mobileTokens p' = (case lo_mobile lg of None \<Rightarrow> pt_mobileTokens p
      | Some (redirect, token) \<Rightarrow> jsm_set token (account, clock 7 + pf_mobileTtl cfg) (pt_mobileTokens p)) \<and>
    findOauthIdentity provider subject (pt_db p') = Some account"
proof -
  define person where "person = resolvePerson provider a"
  obtain db st0 where c: "consumeOauthState stateId (clock 0) (pt_db p) = (db, st0)" by fastforce
  define p1 where "p1 = p\<lparr> pt_db := db \<rparr>"
  define nr where "nr = jsm_get (pt_nativeRedirects p1) stateId"
  define p2 where "p2 = (if truthy_str nr then p1\<lparr> pt_nativeRedirects := jsm_delete stateId (pt_nativeRedirects p1) \<rparr> else p1)"
  note defs = handleOauthCallback_def c prod.case Let_def p1_def [symmetric] nr_def [symmetric] p2_def [symmetric] person_def [symmetric]
  obtain st where st: "st0 = Some st" "os_provider st = provider"
    using assms unfolding defs by (cases st0) (auto split: if_splits)
  have sub: "truthy_str (op_subject person)" "truthy_str (op_email person)"
    using assms unfolding defs by (auto split: if_splits)
  then obtain subject email where se: "op_subject person = Some subject" "op_email person = Some email"
    by (cases "op_subject person"; cases "op_email person") auto
  obtain p3 user where r: "resolveAccount cfg lib cr provider subject (normalizeEmail email) (op_verified person) mnemonic uuid clock p2 = Some (p3, Some user)"
    and f: "finishOauth cfg cr provider subject (normalizeEmail email) a person (if truthy_str nr then nr else None) uuid clock user p3 = (p', Inr lg)"
    using assms st sub se unfolding defs by (auto split: if_splits option.splits)
  have stp: "st \<in> set (db_oauthStates (pt_db p)) \<and> os_stateId st = stateId \<and> os_expiresAtMs st > clock 0"
    using c st by (auto simp: consumeOauthState_def Let_def dest: find_SomeD)
  have db: "db_users (pt_db p2) = db_users (pt_db p)" "db_links (pt_db p2) = db_links (pt_db p)"
    using consumeOauthState_tables [of stateId "clock 0" "pt_db p"] c by (simp_all add: p2_def p1_def)
  have look: "findOauthIdentity x y (pt_db p2) = findOauthIdentity x y (pt_db p)" "getUserById i (pt_db p2) = getUserById i (pt_db p)"
    "getUserByEmail e (pt_db p2) = getUserByEmail e (pt_db p)" for x y i e
    using db by (simp_all add: findOauthIdentity_def getUserById_def getUserByEmail_def)
  have rest: "db_sessions (pt_db p3) = db_sessions (pt_db p)" "pt_mobileTokens p3 = pt_mobileTokens p"
    using resolveAccount_sessions [OF r] consumeOauthState_tables(1) [of stateId "clock 0" "pt_db p"] c by (simp_all add: p2_def p1_def)
  note fin = finishOauth_Inr [OF f, unfolded rest]
  show ?thesis
    by (intro exI [of _ st] exI [of _ subject] exI [of _ email] exI [of _ "pu_userId user"])
      (use stp st(2) se [unfolded person_def] resolveAccount_user [OF r, unfolded look] fin in simp)
qed

text \<open>An account whose e-mail the provider reports without having verified it: the log-in opens the account and links it.\<close>

definition ex_victim :: PortalUser where
  "ex_victim = \<lparr> pu_userId = ''victim'', pu_email = ''a@b.c'', pu_emailVerified = True, pu_uiTheme = Warm, pu_role = Role_user, pu_passwordHash = Some ''h'',
     pu_displayName = None, pu_createdAtMs = 0, pu_verifiedAtMs = Some 0 \<rparr>"

definition ex_oauth_portal :: Portal where
  "ex_oauth_portal = emptyPortal\<lparr> pt_db := emptyPortalDb\<lparr> db_users := [ex_victim],
     db_oauthStates := [\<lparr> os_stateId = ''st'', os_provider = ''microsoft'', os_redirectUri = ''cb'', os_expiresAtMs = 1000, os_createdAtMs = 0 \<rparr>] \<rparr> \<rparr>"

definition ex_answers :: OauthAnswers where
  "ex_answers = \<lparr> oa_exchanged = True, oa_accessToken = None,
     oa_claims = Some \<lparr> oc_sub = Some ''attacker'', oc_email = Some ''A@B.C'', oc_verified = False \<rparr>, oa_userInfo = None, oa_emails = None \<rparr>"

definition ex_oauth :: "Portal \<times> (PortalError + OauthLogin)" where
  "ex_oauth = handleOauthCallback ex_portal_config ex_portal_library ex_portal_crypto ''microsoft'' ''st'' ex_answers ''seed'' ex_uuid int ex_oauth_portal"

definition ex_oauth_login :: OauthLogin where
  "ex_oauth_login = \<lparr> lo_sessionToken = ex_uuid 1, lo_mobile = None \<rparr>"

lemma ex_oauth_ok: "snd ex_oauth = Inr ex_oauth_login"
  by code_simp

lemma ex_oauth_unverified: "\<not> op_verified (resolvePerson ''microsoft'' ex_answers)" "op_subject (resolvePerson ''microsoft'' ex_answers) = Some ''attacker''"
  by code_simp+

theorem oauth_account_resolution_witness:
  "map ps_userId (db_sessions (pt_db (fst ex_oauth))) = [''victim''] \<and> findOauthIdentity ''microsoft'' ''attacker'' (pt_db (fst ex_oauth)) = Some ''victim''"
proof -
  have r: "handleOauthCallback ex_portal_config ex_portal_library ex_portal_crypto ''microsoft'' ''st'' ex_answers ''seed'' ex_uuid int ex_oauth_portal =
      (fst ex_oauth, Inr ex_oauth_login)"
    using ex_oauth_ok by (simp add: ex_oauth_def prod_eq_iff)
  have f: "findOauthIdentity ''microsoft'' ''attacker'' (pt_db ex_oauth_portal) = None" "getUserByEmail (normalizeEmail ''A@B.C'') (pt_db ex_oauth_portal) = Some ex_victim"
    "db_sessions (pt_db ex_oauth_portal) = []" "pu_userId ex_victim = ''victim''" "op_email (resolvePerson ''microsoft'' ex_answers) = Some ''A@B.C''"
    by code_simp+
  show ?thesis using oauth_account_resolution [OF r] ex_oauth_unverified(2) f by auto
qed

end
