(* ===== verification/PortalNodes.thy ===== *)
theory PortalNodes
  imports PortalAccounts
begin

text \<open>
  Nodes and wallets of the portal (\<open>src/src/portal/server.ts\<close>, \<open>dns-manager.ts\<close>): enrolment, validation and approval of nodes, the host names of
  coordinators, the set-up of a wallet's seed and the two-factor confirmation of a transfer. The confirmation is modelled in its two
  halves around the calls it awaits, so that confirmations overlap.
\<close>

section \<open>Host names of coordinators\<close>

definition decimalValue :: "string \<Rightarrow> int" where
  "decimalValue s = foldl (\<lambda>n c. n * 10 + (of_char c - 48)) 0 s"

text \<open>A part is valid when it is the numeral of an integer up to 255, without leading zeros.\<close>

definition ipv4Part :: "string \<Rightarrow> int option" where
  "ipv4Part p =
     (if all_digits p \<and> length p \<le> 3 \<and> decimalValue p \<le> 255 \<and> int_str (decimalValue p) = p then Some (decimalValue p) else None)"

definition ipv4Parts :: "string \<Rightarrow> int list option" where
  "ipv4Parts ip =
     (let values = map ipv4Part (split_on (CHR ''.'') ip) in
      if length values = 4 \<and> list_all (\<lambda>v. v \<noteq> None) values then Some (map the values) else None)"

fun ipv4ToNum :: "int list \<Rightarrow> int" where
  "ipv4ToNum [a, b, c, d] = ((a * 256 + b) * 256 + c) * 256 + d"
| "ipv4ToNum _ = 0"

definition ipv4PrivateRanges :: "(int list \<times> int list) list" where
  "ipv4PrivateRanges =
     [([10, 0, 0, 0], [10, 255, 255, 255]), ([172, 16, 0, 0], [172, 31, 255, 255]), ([192, 168, 0, 0], [192, 168, 255, 255]),
      ([127, 0, 0, 0], [127, 255, 255, 255]), ([169, 254, 0, 0], [169, 254, 255, 255]), ([100, 64, 0, 0], [100, 127, 255, 255])]"

definition isPrivateIpv4 :: "int list \<Rightarrow> bool" where
  "isPrivateIpv4 parts =
     (let num = ipv4ToNum parts in list_ex (\<lambda>(a, b). ipv4ToNum a \<le> num \<and> num \<le> ipv4ToNum b) ipv4PrivateRanges)"

definition isPrivateIpv6 :: "string \<Rightarrow> bool" where
  "isPrivateIpv6 ip =
     (let lower = to_lower ip in
      lower = ''::1'' \<or> starts_with lower ''fe80:'' \<or> starts_with lower ''fc'' \<or> starts_with lower ''fd'')"

text \<open>\<open>isIPv6\<close> of \<open>node:net\<close> is an argument.\<close>

definition isPublicIp :: "(string \<Rightarrow> bool) \<Rightarrow> string \<Rightarrow> bool" where
  "isPublicIp isIPv6 ip =
     (let trimmed = trim ip in
      trimmed \<noteq> [] \<and>
      (case ipv4Parts trimmed of
         Some parts \<Rightarrow> \<not> isPrivateIpv4 parts
       | None \<Rightarrow> CHR '':'' \<in> set trimmed \<and> isIPv6 trimmed \<and> \<not> isPrivateIpv6 trimmed))"

fun collapseDashes :: "string \<Rightarrow> string" where
  "collapseDashes [] = []"
| "collapseDashes (c # s) =
     (if c = CHR ''-'' \<and> s \<noteq> [] \<and> hd s = CHR ''-'' then collapseDashes s else c # collapseDashes s)"

definition stripEndDashes :: "string \<Rightarrow> string" where
  "stripEndDashes s = rev (dropWhile (\<lambda>c. c = CHR ''-'') (rev s))"

definition sanitizeNodeIdForDns :: "string \<Rightarrow> string" where
  "sanitizeNodeIdForDns nodeId =
     (let dashed = map (\<lambda>c. if lowerAlnum c \<or> c = CHR ''-'' then c else CHR ''-'') (to_lower nodeId);
          trimmed = stripEndDashes (dropWhile (\<lambda>c. c = CHR ''-'') (collapseDashes dashed));
          sanitized = stripEndDashes (take 63 trimmed) in
      if sanitized = [] then ''node'' else sanitized)"

record DnsConfig =
  dc_credentials :: bool
  dc_prefix :: string
  dc_domain :: string
  dc_isIPv6 :: "string \<Rightarrow> bool"

definition getCoordinatorHostname :: "DnsConfig \<Rightarrow> string \<Rightarrow> string" where
  "getCoordinatorHostname dc nodeId = sanitizeNodeIdForDns nodeId @ ''.'' @ dc_prefix dc @ ''.'' @ dc_domain dc"

definition getCoordinatorUrl :: "DnsConfig \<Rightarrow> string \<Rightarrow> string" where
  "getCoordinatorUrl dc nodeId = ''https://'' @ getCoordinatorHostname dc nodeId"

definition dnsRecordName :: "DnsConfig \<Rightarrow> string \<Rightarrow> string" where
  "dnsRecordName dc nodeId = sanitizeNodeIdForDns nodeId @ ''.'' @ dc_prefix dc"

definition sendDns :: "DnsRequest \<Rightarrow> Portal \<Rightarrow> Portal" where
  "sendDns r p = p\<lparr> pt_dnsRequests := pt_dnsRequests p @ [r] \<rparr>"

text \<open>\<open>accepted\<close>: the DNS provider answers with success. What a deletion answers is used by no caller.\<close>

definition createOrUpdateDnsRecord :: "DnsConfig \<Rightarrow> string \<Rightarrow> string \<Rightarrow> bool \<Rightarrow> Portal \<Rightarrow> Portal \<times> bool" where
  "createOrUpdateDnsRecord dc nodeId ip accepted p =
     (if \<not> dc_credentials dc \<or> \<not> isPublicIp (dc_isIPv6 dc) ip then (p, False)
      else (sendDns (DnsPut (if CHR '':'' \<in> set ip then ''AAAA'' else ''A'') (dnsRecordName dc nodeId) (dc_domain dc) ip) p, accepted))"

definition deleteDnsRecord :: "DnsConfig \<Rightarrow> string \<Rightarrow> Portal \<Rightarrow> Portal" where
  "deleteDnsRecord dc nodeId p =
     (if \<not> dc_credentials dc then p
      else sendDns (DnsDelete ''AAAA'' (dnsRecordName dc nodeId) (dc_domain dc))
             (sendDns (DnsDelete ''A'' (dnsRecordName dc nodeId) (dc_domain dc)) p))"

definition syncCoordinatorDns ::
  "DnsConfig \<Rightarrow> string \<Rightarrow> string \<Rightarrow> string option \<Rightarrow> ms option \<Rightarrow> bool \<Rightarrow> ms \<Rightarrow> Portal \<Rightarrow> Portal \<times> DnsStatus \<times> string option" where
  "syncCoordinatorDns dc nodeId sourceIp currentDnsIp lastUpdatedMs accepted now p =
     (if currentDnsIp = Some sourceIp then (p, Dns_active, currentDnsIp)
      else if truthy_int lastUpdatedMs \<and> now - the lastUpdatedMs < 60000 then
        (p, if truthy_str currentDnsIp then Dns_active else Dns_nat, currentDnsIp)
      else if \<not> isPublicIp (dc_isIPv6 dc) sourceIp then
        (if truthy_str currentDnsIp then deleteDnsRecord dc nodeId p else p, Dns_nat, None)
      else (case createOrUpdateDnsRecord dc nodeId sourceIp accepted p of
              (p', ok) \<Rightarrow> (p', if ok then (Dns_active, Some sourceIp) else (Dns_error, currentDnsIp))))"

section \<open>Enrolment\<close>

definition enrolDevice :: "string \<Rightarrow> NodeKind \<Rightarrow> string option \<Rightarrow> string option" where
  "enrolDevice nodeId kind deviceId =
     (let d = map_option (\<lambda>s. to_lower (trim s)) deviceId in
      if truthy_str d then d else if kind = Node_agent then deriveIosDeviceIdFromNodeId nodeId else None)"

definition validDevice :: "string option \<Rightarrow> bool" where
  "validDevice deviceId = optionally (between_len 3 128) deviceId"

record EnrollReply =
  en_node :: NodeEnrollment
  en_registrationToken :: string
  en_dnsHostname :: "string option"

text \<open>The answer of a coordinator's enrolment carries the row as it was before its host name is stored.\<close>

definition nodesEnroll ::
  "PortalLibrary \<Rightarrow> crypto \<Rightarrow> DnsConfig \<Rightarrow> PortalHeaders \<Rightarrow> string \<Rightarrow> NodeKind \<Rightarrow> string option \<Rightarrow> string \<Rightarrow> (nat \<Rightarrow> ms) \<Rightarrow>
     Portal \<Rightarrow> Portal \<times> (PortalError + EnrollReply)" where
  "nodesEnroll lib cr dc h nodeId kind deviceId registrationToken clock p =
     withUser lib cr h (clock 0) p (\<lambda>user.
       if length nodeId < 3 \<or> \<not> validDevice deviceId then (p, Inl P_threw)
       else (let i = \<lparr> ei_nodeId = nodeId, ei_deviceId = enrolDevice nodeId kind deviceId, ei_nodeKind = kind, ei_ownerUserId = pu_userId user,
                       ei_ownerEmail = pu_email user, ei_registrationTokenHash = sha256_hex cr registrationToken,
                       ei_emailVerified = pu_emailVerified user \<rparr> in
         case upsertNodeEnrollment i (clock 1) (pt_db p) of
           (db, rec0) \<Rightarrow>
             (case (if kind = Node_agent \<and> pu_emailVerified user \<and> \<not> ne_nodeApproved rec0
                    then (case setNodeApproval (ne_nodeId rec0) True (clock 2) db of (db', r) \<Rightarrow> (db', nullish r rec0))
                    else (db, rec0)) of
                (db2, n) \<Rightarrow>
                  (if kind = Node_coordinator
                   then (p\<lparr> pt_db := updateNodeDns (ne_nodeId n) (getCoordinatorHostname dc nodeId) Dns_pending None (clock 3) db2 \<rparr>,
                         Inr \<lparr> en_node = n, en_registrationToken = registrationToken, en_dnsHostname = Some (getCoordinatorHostname dc nodeId) \<rparr>)
                   else (p\<lparr> pt_db := db2 \<rparr>,
                         Inr \<lparr> en_node = n, en_registrationToken = registrationToken, en_dnsHostname = None \<rparr>)))))"

definition nodesDelete ::
  "PortalConfig \<Rightarrow> PortalLibrary \<Rightarrow> crypto \<Rightarrow> DnsConfig \<Rightarrow> PortalHeaders \<Rightarrow> string \<Rightarrow> ms \<Rightarrow> Portal \<Rightarrow> Portal \<times> (PortalError + string)" where
  "nodesDelete cfg lib cr dc h nodeId now p =
     withUser lib cr h now p (\<lambda>user.
       if length nodeId < 3 then (p, Inl P_threw)
       else (case getNodeEnrollment nodeId (pt_db p) of
               None \<Rightarrow> (p, Inl (P_error 404 ''node_not_found''))
             | Some existing \<Rightarrow>
                 if \<not> ac_isSystemAdmin (buildAccessContext cfg user (pt_db p)) \<and> ne_ownerUserId existing \<noteq> pu_userId user
                 then (p, Inl (P_error 403 ''node_delete_forbidden''))
                 else (let p1 = (if ne_nodeKind existing = Node_coordinator \<and> truthy_str (ne_dnsHostname existing)
                                 then deleteDnsRecord dc (ne_nodeId existing) p else p) in
                       case deleteNodeEnrollment nodeId (pt_db p1) of
                         (db, gone) \<Rightarrow> (p1\<lparr> pt_db := db \<rparr>, if gone then Inr nodeId else Inl (P_error 404 ''node_not_found'')))))"

text \<open>\<open>Inr None\<close>: there is no public coordinator.\<close>

definition discoverCoordinator :: "string option \<Rightarrow> Portal \<Rightarrow> PortalError + (string \<times> string) option" where
  "discoverCoordinator authorization p =
     (let auth = nullish authorization [];
          token = (if starts_with auth ''Bearer '' then trim (drop 7 auth) else []) in
      if token = [] then Inl (P_error 401 ''registration_token_required'')
      else (case listActiveCoordinators (pt_db p) of
              [] \<Rightarrow> Inr None
            | n # _ \<Rightarrow> Inr (Some (''https://'' @ nullish (ne_dnsHostname n) ''undefined'', ne_nodeId n))))"

definition nodesMe :: "PortalLibrary \<Rightarrow> crypto \<Rightarrow> PortalHeaders \<Rightarrow> ms \<Rightarrow> Portal \<Rightarrow> Portal \<times> (PortalError + NodeEnrollment list)" where
  "nodesMe lib cr h now p = withUser lib cr h now p (\<lambda>user. (p, Inr (listNodesByOwner (pu_userId user) (pt_db p))))"

text \<open>
  The rejection of a pending node by an operator: the control plane answers \<open>cpStatus\<close> (\<open>None\<close>: not reached), after its own call of the
  approval route below.
\<close>

definition operatorApproval ::
  "PortalConfig \<Rightarrow> PortalLibrary \<Rightarrow> crypto \<Rightarrow> PortalHeaders \<Rightarrow> string \<Rightarrow> bool \<Rightarrow> nat option \<Rightarrow> ms \<Rightarrow> Portal \<Rightarrow> Portal \<times> (PortalError + nat)" where
  "operatorApproval cfg lib cr h nodeId approved cpStatus now p =
     (case requireCoordinatorOperationsUser cfg lib cr h now p of
        Inl e \<Rightarrow> (p, Inl e)
      | Inr (user, access) \<Rightarrow>
          if \<not> ac_canManageCoordinatorOps access then (p, Inl (P_error 403 ''coordinator_operations_forbidden''))
          else if \<not> pf_controlPlane cfg then (p, Inl (P_error 503 ''control_plane_not_configured''))
          else if length nodeId < 3 then (p, Inl P_threw)
          else (case cpStatus of
                  None \<Rightarrow> (p, Inl (P_error 502 ''control_plane_unreachable''))
                | Some code \<Rightarrow>
                    (if 200 \<le> code \<and> code < 300 \<and> \<not> approved \<and>
                        (case getNodeEnrollment nodeId (pt_db p) of None \<Rightarrow> False | Some n \<Rightarrow> \<not> ne_nodeApproved n)
                     then p\<lparr> pt_db := fst (deleteNodeEnrollment nodeId (pt_db p)) \<rparr> else p, Inr code)))"

text \<open>The agents whose model an operator may change: the distinct ids of the request, each owned unless the operator is an administrator.\<close>

definition uniqueAgentIds :: "string list \<Rightarrow> string list" where
  "uniqueAgentIds ids = rev (remdups (rev (filter (\<lambda>s. s \<noteq> []) (map trim ids))))"

definition agentsModelScope ::
  "PortalConfig \<Rightarrow> PortalLibrary \<Rightarrow> crypto \<Rightarrow> PortalHeaders \<Rightarrow> string list \<Rightarrow> ms \<Rightarrow> Portal \<Rightarrow> PortalError + string list" where
  "agentsModelScope cfg lib cr h agentIds now p =
     (case requireCoordinatorOperationsUser cfg lib cr h now p of
        Inl e \<Rightarrow> Inl e
      | Inr (user, access) \<Rightarrow>
          if \<not> ac_canManageCoordinatorOps access then Inl (P_error 403 ''coordinator_operations_forbidden'')
          else if \<not> pf_controlPlane cfg then Inl (P_error 503 ''control_plane_not_configured'')
          else if \<not> list_all (\<lambda>s. 3 \<le> length s) agentIds \<or> agentIds = [] \<or> 250 < length agentIds then Inl P_threw
          else (let ids = uniqueAgentIds agentIds in
            if ids = [] then Inl (P_error 400 ''agent_ids_required'')
            else if \<not> ac_isSystemAdmin access \<and>
               list_ex (\<lambda>i. case getNodeEnrollment i (pt_db p) of
                              None \<Rightarrow> True
                            | Some n \<Rightarrow> ne_nodeKind n \<noteq> Node_agent \<or> ne_ownerUserId n \<noteq> pu_userId user) ids
            then Inl (P_error 403 ''agent_model_switch_forbidden_for_owner_scope'')
            else Inr ids))"

section \<open>The routes for coordinators\<close>

definition validationReason :: "NodeEnrollment \<Rightarrow> string" where
  "validationReason n =
     (if \<not> ne_emailVerified n then ''email_unverified''
      else if \<not> ne_nodeApproved n then ''node_pending_coordinator_approval''
      else if ne_active n then ''ok'' else ''node_inactive'')"

datatype Validation = V_denied nat string | V_answer bool string NodeEnrollment | V_threw

text \<open>The enrolment a validation is about: the node, else one of its device.\<close>

definition validationTarget :: "string \<Rightarrow> string option \<Rightarrow> PortalDb \<Rightarrow> NodeEnrollment option" where
  "validationTarget nodeId deviceId db =
     (let d = map_option (\<lambda>s. to_lower (trim s)) deviceId;
          requestDeviceId = (if truthy_str d then d else deriveIosDeviceIdFromNodeId nodeId) in
      case getNodeEnrollment nodeId db of
        Some n \<Rightarrow> Some n
      | None \<Rightarrow> if truthy_str requestDeviceId then getNodeEnrollmentByDeviceId (the requestDeviceId) db else None)"

text \<open>\<open>intelligence\<close>: the country and the proxy flag the look-up of the address gives.\<close>

definition validateNode ::
  "PortalConfig \<Rightarrow> crypto \<Rightarrow> string option \<Rightarrow> string \<Rightarrow> NodeKind \<Rightarrow> string \<Rightarrow> string option \<Rightarrow> string option \<Rightarrow> string option \<times> bool option \<Rightarrow>
     (nat \<Rightarrow> ms) \<Rightarrow> Portal \<Rightarrow> Portal \<times> Validation" where
  "validateNode cfg cr serviceToken nodeId kind registrationToken deviceId sourceIp intelligence clock p =
     (if \<not> requireInternalToken cfg serviceToken then (p, V_denied 401 ''portal_service_token_required'')
      else if length nodeId < 3 \<or> length registrationToken < 10 \<or> \<not> validDevice deviceId then (p, V_threw)
      else (case validationTarget nodeId deviceId (pt_db p) of
              None \<Rightarrow> (p, V_denied 404 ''node_not_enrolled'')
            | Some n \<Rightarrow>
                if ne_nodeKind n \<noteq> kind then (p, V_denied 403 ''node_kind_mismatch'')
                else if \<not> secureCompare (ne_registrationTokenHash n) (sha256_hex cr registrationToken)
                then (p, V_denied 403 ''registration_token_invalid'')
                else (let p' = p\<lparr> pt_db := touchNodeValidation (ne_nodeId n) sourceIp (fst intelligence) (snd intelligence) (clock 0) (pt_db p) \<rparr> in
                  case getNodeEnrollment (ne_nodeId n) (pt_db p') of
                    None \<Rightarrow> (p', V_denied 404 ''node_missing_after_touch'')
                  | Some refreshed \<Rightarrow> (p', V_answer (ne_active refreshed) (validationReason refreshed) refreshed))))"

text \<open>What a validation starts in the background for an active coordinator.\<close>

definition dnsSync :: "DnsConfig \<Rightarrow> NodeEnrollment \<Rightarrow> string option \<Rightarrow> bool \<Rightarrow> (nat \<Rightarrow> ms) \<Rightarrow> Portal \<Rightarrow> Portal" where
  "dnsSync dc refreshed sourceIp accepted clock p =
     (if ne_nodeKind refreshed = Node_coordinator \<and> ne_active refreshed \<and> truthy_str sourceIp \<and> dc_credentials dc
      then (case syncCoordinatorDns dc (ne_nodeId refreshed) (the sourceIp) (ne_dnsIp refreshed) (ne_dnsLastUpdatedMs refreshed) accepted (clock 1) p of
              (p', st, ip) \<Rightarrow>
                (let hostname = (if truthy_str (ne_dnsHostname refreshed) then the (ne_dnsHostname refreshed)
                                 else getCoordinatorHostname dc (ne_nodeId refreshed)) in
                 p'\<lparr> pt_db := updateNodeDns (ne_nodeId refreshed) hostname st ip (clock 2) (pt_db p') \<rparr>))
      else p)"

text \<open>The whole route, with its background work done before the next request.\<close>

definition validateRoute ::
  "PortalConfig \<Rightarrow> crypto \<Rightarrow> DnsConfig \<Rightarrow> string option \<Rightarrow> string \<Rightarrow> NodeKind \<Rightarrow> string \<Rightarrow> string option \<Rightarrow> string option \<Rightarrow>
     string option \<times> bool option \<Rightarrow> bool \<Rightarrow> (nat \<Rightarrow> ms) \<Rightarrow> Portal \<Rightarrow> Portal \<times> Validation" where
  "validateRoute cfg cr dc serviceToken nodeId kind registrationToken deviceId sourceIp intelligence accepted clock p =
     (case validateNode cfg cr serviceToken nodeId kind registrationToken deviceId sourceIp intelligence clock p of
        (p', V_answer allowed reason refreshed) \<Rightarrow> (dnsSync dc refreshed sourceIp accepted clock p', V_answer allowed reason refreshed)
      | (p', r) \<Rightarrow> (p', r))"

definition approvalRoute ::
  "PortalConfig \<Rightarrow> DnsConfig \<Rightarrow> string option \<Rightarrow> string \<Rightarrow> bool \<Rightarrow> (nat \<Rightarrow> ms) \<Rightarrow> Portal \<Rightarrow> Portal \<times> (PortalError + NodeEnrollment)" where
  "approvalRoute cfg dc serviceToken nodeId approved clock p =
     (if \<not> requireInternalToken cfg serviceToken then (p, Inl (P_error 401 ''portal_service_token_required''))
      else (case setNodeApproval nodeId approved (clock 0) (pt_db p) of
              (db, None) \<Rightarrow> (p\<lparr> pt_db := db \<rparr>, Inl (P_error 404 ''node_not_found''))
            | (db, Some n) \<Rightarrow>
                (let p1 = p\<lparr> pt_db := db \<rparr> in
                 if ne_nodeKind n = Node_coordinator \<and> \<not> approved \<and> truthy_str (ne_dnsHostname n)
                 then (let p2 = deleteDnsRecord dc (ne_nodeId n) p1 in
                       (p2\<lparr> pt_db := updateNodeDns (ne_nodeId n) (the (ne_dnsHostname n)) Dns_pending None (clock 1) (pt_db p2) \<rparr>, Inr n))
                 else (p1, Inr n))))"

definition nodesLookup :: "PortalConfig \<Rightarrow> string option \<Rightarrow> string list \<Rightarrow> Portal \<Rightarrow> PortalError + NodeEnrollment list" where
  "nodesLookup cfg serviceToken nodeIds p =
     (if \<not> requireInternalToken cfg serviceToken then Inl (P_error 401 ''portal_service_token_required'')
      else if 200 < length nodeIds then Inl P_threw
      else Inr (concat (map (\<lambda>i. case getNodeEnrollment i (pt_db p) of None \<Rightarrow> [] | Some n \<Rightarrow> [n]) nodeIds)))"

section \<open>Wallets\<close>

definition walletOnboardingGet :: "PortalLibrary \<Rightarrow> crypto \<Rightarrow> PortalHeaders \<Rightarrow> ms \<Rightarrow> Portal \<Rightarrow> Portal \<times> (PortalError + WalletOnboarding)" where
  "walletOnboardingGet lib cr h now p =
     withUser lib cr h now p (\<lambda>user.
       (p, case getWalletOnboardingByUserId (pu_userId user) (pt_db p) of
             None \<Rightarrow> Inl (P_error 404 ''wallet_onboarding_not_found'')
           | Some w \<Rightarrow> Inr w))"

text \<open>The answer leaves the seed phrase out.\<close>

definition setupSeed ::
  "PortalConfig \<Rightarrow> PortalLibrary \<Rightarrow> crypto \<Rightarrow> PortalHeaders \<Rightarrow> string \<Rightarrow> (nat \<Rightarrow> ms) \<Rightarrow> Portal \<Rightarrow> Portal \<times> (PortalError + WalletSetup)" where
  "setupSeed cfg lib cr h mnemonic clock p =
     withUser lib cr h (clock 0) p (\<lambda>user.
       case setupWalletSeedForUser cfg lib cr (pu_userId user) mnemonic (clock 1) p of
         (p', setup) \<Rightarrow> (p', Inr (setup\<lparr> ws_seedPhrase := None \<rparr>)))"

definition acknowledgeSeed :: "PortalLibrary \<Rightarrow> crypto \<Rightarrow> PortalHeaders \<Rightarrow> (nat \<Rightarrow> ms) \<Rightarrow> Portal \<Rightarrow> Portal \<times> (PortalError + unit)" where
  "acknowledgeSeed lib cr h clock p =
     withUser lib cr h (clock 0) p (\<lambda>user. (p\<lparr> pt_db := acknowledgeWalletOnboarding (pu_userId user) (clock 1) (pt_db p) \<rparr>, Inr ()))"

definition sendRequests :: "PortalLibrary \<Rightarrow> crypto \<Rightarrow> PortalHeaders \<Rightarrow> ms \<Rightarrow> Portal \<Rightarrow> Portal \<times> (PortalError + SendRequest list)" where
  "sendRequests lib cr h now p = withUser lib cr h now p (\<lambda>user. (p, Inr (listWalletSendRequestsByUser (pu_userId user) 25 (pt_db p))))"

record SendBody =
  sb_destination :: string
  sb_amountSats :: int
  sb_note :: "string option"

definition validSendBody :: "SendBody \<Rightarrow> bool" where
  "validSendBody b =
     (between_len 10 220 (sb_destination b) \<and> 0 < sb_amountSats b \<and> sb_amountSats b \<le> 100000000 \<and>
      optionally (\<lambda>n. length n \<le> 280) (sb_note b))"

definition codeHash :: "crypto \<Rightarrow> string \<Rightarrow> string \<Rightarrow> string" where
  "codeHash cr challengeId code = sha256_hex cr (challengeId @ '':'' @ code)"

definition sendChallengeRow ::
  "PortalConfig \<Rightarrow> crypto \<Rightarrow> PortalUser \<Rightarrow> WalletOnboarding \<Rightarrow> SendBody \<Rightarrow> string \<Rightarrow> string \<Rightarrow> string \<Rightarrow> ms \<Rightarrow> ms \<Rightarrow> SendChallenge" where
  "sendChallengeRow cfg cr user w b passkeyChallenge challengeId code now now' =
     \<lparr> sc_challengeId = challengeId, sc_userId = pu_userId user, sc_accountId = wo_accountId w, sc_destination = trim (sb_destination b),
       sc_amountSats = sb_amountSats b,
       sc_note = (let n = map_option trim (sb_note b) in if truthy_str n then n else None),
       sc_emailCodeHash = codeHash cr challengeId code, sc_passkeyChallenge = passkeyChallenge,
       sc_expiresAtMs = now + pf_walletTtl cfg, sc_consumedAtMs = None, sc_createdAtMs = now' \<rparr>"

text \<open>\<open>random32\<close> makes the code that is mailed; the answer names the challenge and the admitted passkeys.\<close>

definition mfaStart ::
  "PortalConfig \<Rightarrow> PortalLibrary \<Rightarrow> crypto \<Rightarrow> PortalHeaders \<Rightarrow> SendBody \<Rightarrow> string \<Rightarrow> int \<Rightarrow> bool \<Rightarrow> (nat \<Rightarrow> string) \<Rightarrow> (nat \<Rightarrow> ms) \<Rightarrow>
     Portal \<Rightarrow> Portal \<times> (PortalError + string \<times> string list)" where
  "mfaStart cfg lib cr h b passkeyChallenge random32 delivered uuid clock p =
     withUser lib cr h (clock 0) p (\<lambda>user.
       if \<not> validSendBody b then (p, Inl P_threw)
       else (case getWalletOnboardingByUserId (pu_userId user) (pt_db p) of
               None \<Rightarrow> (p, Inl (P_error 409 ''wallet_onboarding_required''))
             | Some w \<Rightarrow>
                 (let passkeys = listPasskeysByUserId (pu_userId user) (pt_db p) in
                  if passkeys = [] then (p, Inl (P_error 409 ''passkey_required_for_wallet_send''))
                  else if \<not> pf_mail cfg then (p, Inl (P_error 503 ''email_mfa_not_configured''))
                  else (case createWalletSendMfaChallenge
                               (sendChallengeRow cfg cr user w b passkeyChallenge (uuid 0) (generateSixDigitCode random32) (clock 1) (clock 2)) (pt_db p) of
                          None \<Rightarrow> (p, Inl P_threw)
                        | Some db \<Rightarrow>
                            (case sendWalletSendMfaCodeEmail cfg delivered (pu_email user) (generateSixDigitCode random32) (sb_amountSats b)
                                    (trim (sb_destination b)) (p\<lparr> pt_db := db \<rparr>) of
                               None \<Rightarrow> (p\<lparr> pt_db := db \<rparr>, Inl P_threw)
                             | Some p' \<Rightarrow> (p', Inr (uuid 0, map pk_credentialId passkeys)))))))"

record ConfirmBody =
  cb_challengeId :: string
  cb_emailCode :: string
  cb_credentialId :: string
  cb_response :: "PasskeyResponse option"

text \<open>The first half of a confirmation takes the challenge, the second checks both factors and records the transfer.\<close>

definition confirmTake ::
  "PortalLibrary \<Rightarrow> crypto \<Rightarrow> PortalHeaders \<Rightarrow> ConfirmBody \<Rightarrow> (nat \<Rightarrow> ms) \<Rightarrow> Portal \<Rightarrow> Portal \<times> (PortalError + PortalUser \<times> SendChallenge)" where
  "confirmTake lib cr h b clock p =
     withUser lib cr h (clock 0) p (\<lambda>user.
       if length (cb_challengeId b) < 10 \<or> \<not> between_len 6 8 (cb_emailCode b) \<or> length (cb_credentialId b) < 10 then (p, Inl P_threw)
       else (case consumeWalletSendMfaChallenge (cb_challengeId b) (clock 1) (pt_db p) of
               (db, None) \<Rightarrow> (p\<lparr> pt_db := db \<rparr>, Inl (P_error 400 ''wallet_send_mfa_challenge_invalid''))
             | (db, Some c) \<Rightarrow>
                 (p\<lparr> pt_db := db \<rparr>,
                  if sc_userId c \<noteq> pu_userId user then Inl (P_error 400 ''wallet_send_mfa_challenge_invalid'') else Inr (user, c))))"

definition sendRow :: "PortalUser \<Rightarrow> SendChallenge \<Rightarrow> string \<Rightarrow> ms \<Rightarrow> SendRequest" where
  "sendRow user c requestId now =
     \<lparr> sr_requestId = requestId, sr_userId = pu_userId user, sr_accountId = sc_accountId c, sr_destination = sc_destination c,
       sr_amountSats = sc_amountSats c, sr_note = sc_note c, sr_status = Pending_manual_review, sr_mfaChallengeId = sc_challengeId c,
       sr_createdAtMs = now \<rparr>"

definition confirmFinish ::
  "PortalLibrary \<Rightarrow> crypto \<Rightarrow> ConfirmBody \<Rightarrow> PortalUser \<Rightarrow> SendChallenge \<Rightarrow> string \<Rightarrow> (nat \<Rightarrow> ms) \<Rightarrow> Portal \<Rightarrow> Portal \<times> (PortalError + SendRequest)" where
  "confirmFinish lib cr b user c requestId clock p =
     (if \<not> secureCompare (sc_emailCodeHash c) (codeHash cr (sc_challengeId c) (trim (cb_emailCode b)))
      then (p, Inl (P_error 401 ''wallet_send_email_code_invalid''))
      else (case findPasskeyByCredentialId (cb_credentialId b) (pt_db p) of
              None \<Rightarrow> (p, Inl (P_error 404 ''passkey_credential_not_found''))
            | Some credential \<Rightarrow>
                if pk_userId credential \<noteq> pu_userId user then (p, Inl (P_error 404 ''passkey_credential_not_found''))
                else (case pl_verifyAuthentication lib True (cb_response b) (sc_passkeyChallenge c) credential of
                        None \<Rightarrow> (p, Inl (P_error 401 ''wallet_send_passkey_verification_failed''))
                      | Some newCounter \<Rightarrow>
                          (let p' = p\<lparr> pt_db := updatePasskeyCounter (pk_credentialId credential) (nullish newCounter (pk_counter credential)) (clock 0) (pt_db p) \<rparr>;
                               r = sendRow user c requestId (clock 1) in
                           case createWalletSendRequest r (pt_db p') of
                             None \<Rightarrow> (p', Inl P_threw)
                           | Some db \<Rightarrow> (p'\<lparr> pt_db := db \<rparr>, Inr r)))))"

definition mfaConfirm ::
  "PortalLibrary \<Rightarrow> crypto \<Rightarrow> PortalHeaders \<Rightarrow> ConfirmBody \<Rightarrow> string \<Rightarrow> (nat \<Rightarrow> ms) \<Rightarrow> (nat \<Rightarrow> ms) \<Rightarrow> Portal \<Rightarrow> Portal \<times> (PortalError + SendRequest)" where
  "mfaConfirm lib cr h b requestId clock clock' p =
     (case confirmTake lib cr h b clock p of
        (p', Inl e) \<Rightarrow> (p', Inl e)
      | (p', Inr (user, c)) \<Rightarrow> confirmFinish lib cr b user c requestId clock' p')"

section \<open>Validation\<close>

lemma touch_lookup:
  assumes "nodesOk db" "n \<in> set (db_nodes db)"
  shows "getNodeEnrollment (ne_nodeId n) (touchNodeValidation (ne_nodeId n) ip country vpn now db) =
    Some (n\<lparr> ne_lastSeenMs := Some now, ne_lastIp := coalesce ip (ne_lastIp n), ne_lastCountryCode := coalesce country (ne_lastCountryCode n),
             ne_lastVpnDetected := coalesce vpn (ne_lastVpnDetected n), ne_updatedAtMs := now \<rparr>)"
proof -
  have "distinct (map ne_nodeId rows) \<Longrightarrow> n \<in> set rows \<Longrightarrow> (\<And>m. ne_nodeId (f m) = ne_nodeId m) \<Longrightarrow>
    find (\<lambda>m. ne_nodeId m = ne_nodeId n) (sqlUpdate (\<lambda>m. ne_nodeId m = ne_nodeId n) f rows) = Some (f n)" for rows f
    by (induction rows) (auto simp: sqlUpdate_def image_iff)
  then show ?thesis using assms unfolding getNodeEnrollment_def touchNodeValidation_def nodesOk_def by simp
qed

lemma validationTarget_in:
  assumes "validationTarget nodeId deviceId db = Some m"
  shows "m \<in> set (db_nodes db)"
proof (cases "getNodeEnrollment nodeId db")
  case (Some x)
  then show ?thesis using assms getNodeEnrollment_Some [OF Some] by (simp add: validationTarget_def Let_def)
next
  case None
  then obtain d where "getNodeEnrollmentByDeviceId d db = Some m" using assms by (auto simp: validationTarget_def Let_def split: if_splits)
  then have "m \<in> set (orderDesc ne_updatedAtMs (filter (deviceMatches (to_lower (trim d))) (db_nodes db)))"
    by (auto simp: getNodeEnrollmentByDeviceId_def Let_def split: if_splits list.splits)
  then show ?thesis by (simp add: orderDesc_def)
qed

text \<open>
  C30: The portal confirms a node to a coordinator only when the stored enrolment has the kind the node claims, its token hash is that of
  the presented token, and the node is approved and its owner's e-mail verified.
\<close>

theorem confirmed_node_is_genuine:
  assumes "nodesOk (pt_db p)"
    and "validateNode cfg cr serviceToken nodeId kind token deviceId sourceIp intelligence clock p = (p', V_answer True reason n)"
  shows "\<exists>m \<in> set (db_nodes (pt_db p)). ne_nodeId m = ne_nodeId n \<and> ne_nodeKind m = kind \<and>
      ne_registrationTokenHash m = sha256_hex cr token \<and> ne_nodeApproved m \<and> ne_emailVerified m \<and> reason = ''ok'' \<and>
      (pf_serviceToken cfg = [] \<or> serviceToken = Some (pf_serviceToken cfg))"
proof -
  have ok: "requireInternalToken cfg serviceToken"
    using assms(2) by (cases "requireInternalToken cfg serviceToken") (simp_all add: validateNode_def)
  obtain m where m: "validationTarget nodeId deviceId (pt_db p) = Some m"
    using assms(2) by (auto simp: validateNode_def split: if_splits option.splits)
  have kind: "ne_nodeKind m = kind" and hash: "ne_registrationTokenHash m = sha256_hex cr token"
    using assms(2) m by (simp_all add: validateNode_def split: if_splits)
  note mem = validationTarget_in [OF m]
  note look = touch_lookup [OF assms(1) mem]
  have act: "ne_active m" "reason = validationReason m" "ne_nodeId n = ne_nodeId m"
    using assms(2) ok m kind hash by (auto simp: validateNode_def Let_def look validationReason_def split: if_splits)
  have "ne_nodeApproved m \<and> ne_emailVerified m"
    using assms(1) act(1) mem by (auto simp: nodesOk_def nodeOk_def list_all_iff)
  moreover have "reason = ''ok''" using calculation act by (simp add: validationReason_def)
  ultimately show ?thesis using mem act(3) kind hash ok
    by (intro bexI [of _ m]) (auto simp: requireInternalToken_def)
qed

section \<open>The confirmation of transfers\<close>

text \<open>Confirmations between their halves: the user and the challenge that was taken.\<close>

type_synonym WalletRun = "Portal \<times> (PortalUser \<times> SendChallenge) list"

inductive wallet_step :: "PortalConfig \<Rightarrow> PortalLibrary \<Rightarrow> crypto \<Rightarrow> WalletRun \<Rightarrow> WalletRun \<Rightarrow> bool" for cfg lib cr where
  w_start: "mfaStart cfg lib cr h b passkeyChallenge random32 delivered uuid clock p = (p', r) \<Longrightarrow> wallet_step cfg lib cr (p, fs) (p', fs)"
| w_take: "confirmTake lib cr h cb clock p = (p', Inr (user, c)) \<Longrightarrow> wallet_step cfg lib cr (p, fs) (p', fs @ [(user, c)])"
| w_take_fails: "confirmTake lib cr h cb clock p = (p', Inl e) \<Longrightarrow> wallet_step cfg lib cr (p, fs) (p', fs)"
| w_finish: "confirmFinish lib cr cb user c requestId clock p = (p', r) \<Longrightarrow>
    wallet_step cfg lib cr (p, fs @ (user, c) # fs') (p', fs @ fs')"
| w_other: "db_challenges (pt_db p') = db_challenges (pt_db p) \<Longrightarrow> db_sends (pt_db p') = db_sends (pt_db p) \<Longrightarrow>
    wallet_step cfg lib cr (p, fs) (p', fs)"

inductive wallet_reach :: "PortalConfig \<Rightarrow> PortalLibrary \<Rightarrow> crypto \<Rightarrow> WalletRun \<Rightarrow> bool" for cfg lib cr where
  wr_init: "wallet_reach cfg lib cr (emptyPortal, [])"
| wr_step: "wallet_reach cfg lib cr s \<Longrightarrow> wallet_step cfg lib cr s t \<Longrightarrow> wallet_reach cfg lib cr t"

definition takenIn :: "SendChallenge list \<Rightarrow> SendChallenge \<Rightarrow> bool" where
  "takenIn rows c = list_ex (\<lambda>r. sc_consumedAtMs r \<noteq> None \<and> r\<lparr> sc_consumedAtMs := None \<rparr> = c\<lparr> sc_consumedAtMs := None \<rparr>) rows"

definition backedBy :: "SendChallenge list \<Rightarrow> SendRequest \<Rightarrow> bool" where
  "backedBy rows r =
     list_ex (\<lambda>c. sc_consumedAtMs c \<noteq> None \<and> sc_challengeId c = sr_mfaChallengeId r \<and> sc_userId c = sr_userId r \<and>
       sc_accountId c = sr_accountId r \<and> sc_destination c = sr_destination r \<and> sc_amountSats c = sr_amountSats r \<and> sc_note c = sr_note r) rows"

definition walletOk :: "WalletRun \<Rightarrow> bool" where
  "walletOk s =
     (let db = pt_db (fst s) in
      distinct (map sc_challengeId (db_challenges db)) \<and>
      distinct (map (\<lambda>x. sc_challengeId (snd x)) (snd s) @ map sr_mfaChallengeId (db_sends db)) \<and>
      list_all (\<lambda>(u, c). takenIn (db_challenges db) c \<and> sc_userId c = pu_userId u) (snd s) \<and>
      list_all (backedBy (db_challenges db)) (db_sends db))"

lemma walletOk_tables:
  assumes "db_challenges (pt_db p') = db_challenges (pt_db p)" "db_sends (pt_db p') = db_sends (pt_db p)"
  shows "walletOk (p', fs) = walletOk (p, fs)"
  using assms by (simp add: walletOk_def Let_def)

text \<open>Rows may be added, and open rows taken: what is taken stays.\<close>

definition grows :: "SendChallenge list \<Rightarrow> SendChallenge list \<Rightarrow> bool" where
  "grows rows rows' = (\<forall>c \<in> set rows. sc_consumedAtMs c \<noteq> None \<longrightarrow> c \<in> set rows')"

lemma grows_takenIn: "grows rows rows' \<Longrightarrow> takenIn rows c \<Longrightarrow> takenIn rows' c"
  by (auto simp: grows_def takenIn_def list_ex_iff)

lemma grows_backedBy: "grows rows rows' \<Longrightarrow> backedBy rows r \<Longrightarrow> backedBy rows' r"
  by (fastforce simp: grows_def backedBy_def list_ex_iff)

lemma walletOk_grows:
  assumes "walletOk (p, fs)" "grows (db_challenges (pt_db p)) (db_challenges (pt_db p'))"
    "distinct (map sc_challengeId (db_challenges (pt_db p')))" "db_sends (pt_db p') = db_sends (pt_db p)"
  shows "walletOk (p', fs)"
  using assms unfolding walletOk_def Let_def
  by (auto simp: list_all_iff intro: grows_takenIn grows_backedBy)

lemma grows_consume: "grows rows (sqlUpdate (openChallenge i now) f rows)"
  by (auto simp: grows_def set_sqlUpdate openChallenge_def)

lemma mfaStart_tables:
  assumes "mfaStart cfg lib cr h b passkeyChallenge random32 delivered uuid clock p = (p', r)"
  shows "db_sends (pt_db p') = db_sends (pt_db p)"
    "db_challenges (pt_db p') = db_challenges (pt_db p) \<or>
     (\<exists>c. sc_challengeId c \<notin> set (map sc_challengeId (db_challenges (pt_db p))) \<and> db_challenges (pt_db p') = db_challenges (pt_db p) @ [c])"
  using assms
  by (auto simp: mfaStart_def withUser_def Let_def sendWalletSendMfaCodeEmail_def createWalletSendMfaChallenge_def sqlInsert_def split: if_splits option.splits)

lemma confirmTake_tables:
  assumes "confirmTake lib cr h cb clock p = (p', r)"
  shows "p' = p \<or> p' = p\<lparr> pt_db := fst (consumeWalletSendMfaChallenge (cb_challengeId cb) (clock 1) (pt_db p)) \<rparr>"
  using assms by (auto simp: confirmTake_def withUser_def split: if_splits option.splits prod.splits)

lemma confirmTake_Inr:
  assumes "confirmTake lib cr h cb clock p = (p', Inr (user, c))"
  shows "consumeWalletSendMfaChallenge (cb_challengeId cb) (clock 1) (pt_db p) = (pt_db p', Some c)" "sc_userId c = pu_userId user"
    "getCurrentUser lib cr h (clock 0) p = Some (Some user)"
  using assms by (auto simp: confirmTake_def withUser_def split: if_splits option.splits prod.splits)

lemma confirmFinish_tables:
  assumes "confirmFinish lib cr cb user c requestId clock p = (p', r)"
  shows "db_challenges (pt_db p') = db_challenges (pt_db p)"
    "db_sends (pt_db p') = db_sends (pt_db p) \<or> db_sends (pt_db p') = db_sends (pt_db p) @ [sendRow user c requestId (clock 1)]"
  using assms
  by (auto simp: confirmFinish_def Let_def updatePasskeyCounter_def createWalletSendRequest_def sqlInsert_def split: if_splits option.splits)

lemma takenIn_id: "takenIn rows c \<Longrightarrow> sc_challengeId c \<in> set (map sc_challengeId rows)"
  unfolding takenIn_def list_ex_iff
  by (metis (no_types, lifting) SendChallenge.select_convs(1) SendChallenge.surjective SendChallenge.update_convs(10) image_eqI list.set_map)

lemma open_row_not_taken:
  assumes "distinct (map sc_challengeId rows)" "find (openChallenge i now) rows = Some c" "r \<in> set rows" "sc_challengeId r = sc_challengeId c"
  shows "sc_consumedAtMs r = None"
  using unique_hit [OF assms] by (simp add: openChallenge_def)

lemma takenIn_row:
  "takenIn rows c \<Longrightarrow> \<exists>r \<in> set rows. sc_consumedAtMs r \<noteq> None \<and> sc_challengeId r = sc_challengeId c \<and> sc_userId r = sc_userId c \<and>
     sc_accountId r = sc_accountId c \<and> sc_destination r = sc_destination c \<and> sc_amountSats r = sc_amountSats c \<and> sc_note r = sc_note c"
  unfolding takenIn_def list_ex_iff
proof (elim bexE conjE)
  fix r
  assume r: "r \<in> set rows" "sc_consumedAtMs r \<noteq> None" and e: "r\<lparr> sc_consumedAtMs := None \<rparr> = c\<lparr> sc_consumedAtMs := None \<rparr>"
  have f: "g (r\<lparr> sc_consumedAtMs := None \<rparr>) = g (c\<lparr> sc_consumedAtMs := None \<rparr>)" for g :: "SendChallenge \<Rightarrow> 'a" using e by simp
  show ?thesis
    using r f [of sc_challengeId] f [of sc_userId] f [of sc_accountId] f [of sc_destination] arg_cong [OF e, of sc_amountSats] arg_cong [OF e, of sc_note]
    by (intro bexI [of _ r]) auto
qed

lemma takenIn_backs:
  "takenIn rows c \<Longrightarrow> sc_userId c = pu_userId user \<Longrightarrow> backedBy rows (sendRow user c requestId now)"
  using takenIn_row [of rows c] by (auto simp: backedBy_def list_ex_iff sendRow_def)

lemma consume_row:
  assumes "consumeWalletSendMfaChallenge i now db = (db', Some c)"
  shows "find (openChallenge i now) (db_challenges db) = Some c" "c \<in> set (db_challenges db)" "openChallenge i now c"
    "db_challenges db' = sqlUpdate (openChallenge i now) (\<lambda>c. c\<lparr> sc_consumedAtMs := Some now \<rparr>) (db_challenges db)" "db_sends db' = db_sends db"
proof -
  show f: "find (openChallenge i now) (db_challenges db) = Some c"
    using assms by (simp add: consumeWalletSendMfaChallenge_def)
  show "c \<in> set (db_challenges db)" "openChallenge i now c" using find_SomeD [OF f] by auto
qed (use assms in \<open>auto simp: consumeWalletSendMfaChallenge_def\<close>)

lemma distinct_consume:
  "distinct (map sc_challengeId rows) \<Longrightarrow> distinct (map sc_challengeId (sqlUpdate (openChallenge i now) (\<lambda>c. c\<lparr> sc_consumedAtMs := Some now \<rparr>) rows))"
  by (simp add: map_sqlUpdate)

lemma walletOk_take:
  assumes ok: "walletOk (p, fs)" and c: "consumeWalletSendMfaChallenge i now (pt_db p) = (pt_db p', Some c)" and u: "sc_userId c = pu_userId user"
  shows "walletOk (p', fs @ [(user, c)])"
proof -
  note cr = consume_row [OF c]
  let ?rows = "db_challenges (pt_db p)" and ?rows' = "db_challenges (pt_db p')"
  have d: "distinct (map sc_challengeId ?rows)" using ok by (simp add: walletOk_def Let_def)
  have ok': "walletOk (p', fs)"
    by (rule walletOk_grows [OF ok]) (use cr(4,5) d in \<open>simp_all add: grows_consume distinct_consume\<close>)
  have taken: "takenIn ?rows' c"
    unfolding takenIn_def list_ex_iff cr(4) set_sqlUpdate
    by (rule bexI [of _ "c\<lparr> sc_consumedAtMs := Some now \<rparr>"]) (use cr(2,3) in auto)
  have old: "takenIn ?rows x" if "(v, x) \<in> set fs" for v x
    using ok that by (auto simp: walletOk_def Let_def list_all_iff)
  have fresh1: "sc_challengeId c \<noteq> sc_challengeId x" if "(v, x) \<in> set fs" for v x
    using takenIn_row [OF old [OF that]] open_row_not_taken [OF d cr(1)] by force
  have fresh2: "sc_challengeId c \<noteq> sr_mfaChallengeId r" if "r \<in> set (db_sends (pt_db p))" for r
  proof -
    have "backedBy ?rows r" using ok that by (auto simp: walletOk_def Let_def list_all_iff)
    then show ?thesis using open_row_not_taken [OF d cr(1)] by (force simp: backedBy_def list_ex_iff)
  qed
  have n1: "sc_challengeId c \<notin> (\<lambda>x. sc_challengeId (snd x)) ` set fs" using fresh1 by force
  have n2: "sc_challengeId c \<notin> sr_mfaChallengeId ` set (db_sends (pt_db p))" using fresh2 by force
  show ?thesis
    using ok' taken u n1 n2 cr(5) unfolding walletOk_def Let_def by (auto simp: list_all_iff)
qed

lemma walletOk_finish:
  assumes ok: "walletOk (p, fs @ (user, c) # fs')" and f: "confirmFinish lib cr cb user c requestId clock p = (p', r)"
  shows "walletOk (p', fs @ fs')"
proof -
  note t = confirmFinish_tables [OF f]
  have drop: "walletOk (p, fs @ fs')" using ok by (auto simp: walletOk_def Let_def)
  from t(2) show ?thesis
  proof
    assume "db_sends (pt_db p') = db_sends (pt_db p)"
    then show ?thesis using drop t(1) walletOk_tables by metis
  next
    assume s: "db_sends (pt_db p') = db_sends (pt_db p) @ [sendRow user c requestId (clock 1)]"
    have "takenIn (db_challenges (pt_db p)) c" "sc_userId c = pu_userId user" using ok by (auto simp: walletOk_def Let_def)
    then have "backedBy (db_challenges (pt_db p)) (sendRow user c requestId (clock 1))" by (rule takenIn_backs)
    moreover have "sr_mfaChallengeId (sendRow user c requestId (clock 1)) = sc_challengeId c" by (simp add: sendRow_def)
    ultimately show ?thesis using ok drop s t(1) unfolding walletOk_def Let_def by auto
  qed
qed

lemma walletOk_start:
  assumes ok: "walletOk (p, fs)" and f: "mfaStart cfg lib cr h b passkeyChallenge random32 delivered uuid clock p = (p', r)"
  shows "walletOk (p', fs)"
proof -
  note t = mfaStart_tables [OF f]
  have d: "distinct (map sc_challengeId (db_challenges (pt_db p)))" using ok by (simp add: walletOk_def Let_def)
  show ?thesis
    by (rule walletOk_grows [OF ok]) (use t d in \<open>auto simp: grows_def\<close>)
qed

lemma walletOk_take_fails:
  assumes ok: "walletOk (p, fs)" and f: "confirmTake lib cr h cb clock p = (p', r)"
  shows "walletOk (p', fs)"
proof -
  have d: "distinct (map sc_challengeId (db_challenges (pt_db p)))" using ok by (simp add: walletOk_def Let_def)
  from confirmTake_tables [OF f] show ?thesis
  proof
    assume "p' = p"
    then show ?thesis using ok by simp
  next
    assume p': "p' = p\<lparr> pt_db := fst (consumeWalletSendMfaChallenge (cb_challengeId cb) (clock 1) (pt_db p)) \<rparr>"
    show ?thesis
      by (rule walletOk_grows [OF ok]) (simp_all add: p' consumeWalletSendMfaChallenge_def grows_consume distinct_consume d)
  qed
qed

lemma walletOk_step: "wallet_step cfg lib cr s t \<Longrightarrow> walletOk s \<Longrightarrow> walletOk t"
proof (induction rule: wallet_step.induct)
  case (w_take h cb clock p p' user c fs)
  show ?case using walletOk_take [OF w_take.prems confirmTake_Inr(1) [OF w_take.hyps] confirmTake_Inr(2) [OF w_take.hyps]] by simp
next
  case (w_other p' p fs)
  show ?case using walletOk_tables [OF w_other.hyps] w_other.prems by simp
qed (blast intro: walletOk_start walletOk_take_fails walletOk_finish)+

lemma walletOk_reach: "wallet_reach cfg lib cr s \<Longrightarrow> walletOk s"
proof (induction rule: wallet_reach.induct)
  case wr_init
  then show ?case by (simp add: walletOk_def emptyPortal_def emptyPortalDb_def)
next
  case (wr_step s t)
  then show ?case using walletOk_step by blast
qed

text \<open>
  C24: However confirmations overlap, every recorded transfer goes back to a challenge of the same user that has been taken, with the
  account, destination, amount and note that were confirmed, and no challenge yields two transfers.
\<close>

theorem transfers_backed_by_challenges:
  assumes "wallet_reach cfg lib cr (p, fs)" "r \<in> set (db_sends (pt_db p))"
  shows "distinct (map sr_mfaChallengeId (db_sends (pt_db p))) \<and>
    (\<exists>c \<in> set (db_challenges (pt_db p)). sc_consumedAtMs c \<noteq> None \<and> sc_challengeId c = sr_mfaChallengeId r \<and> sc_userId c = sr_userId r \<and>
      sc_accountId c = sr_accountId r \<and> sc_destination c = sr_destination r \<and> sc_amountSats c = sr_amountSats r \<and> sc_note c = sr_note r)"
  using walletOk_reach [OF assms(1)] assms(2) by (auto simp: walletOk_def Let_def list_all_iff backedBy_def list_ex_iff)

lemma confirmTake_sends: "confirmTake lib cr h b clock p = (p1, t) \<Longrightarrow> db_sends (pt_db p1) = db_sends (pt_db p)"
  by (auto simp: confirmTake_def withUser_def consumeWalletSendMfaChallenge_def split: if_splits option.splits prod.splits)

text \<open>
  C28: A row is added to the transfers only by the second half of a confirmation, and only for the user whose open challenge its first half
  took, with the code that was mailed and with one of that user's passkeys, whose response verifies, user
  verification included, against the challenge's own WebAuthn challenge; the row carries the terms of the challenge. Between
  the halves the portal may have come to any other state \<open>p2\<close>.
\<close>

theorem transfer_needs_both_factors:
  assumes "confirmTake lib cr h b clock p = (p1, t)"
  shows "db_sends (pt_db p1) = db_sends (pt_db p) \<and>
    (\<forall>user c p2 p' out. t = Inr (user, c) \<longrightarrow> confirmFinish lib cr b user c requestId clock' p2 = (p', out) \<longrightarrow>
       db_sends (pt_db p') \<noteq> db_sends (pt_db p2) \<longrightarrow>
       getCurrentUser lib cr h (clock 0) p = Some (Some user) \<and> c \<in> set (db_challenges (pt_db p)) \<and>
       openChallenge (cb_challengeId b) (clock 1) c \<and> sc_userId c = pu_userId user \<and>
       sc_emailCodeHash c = codeHash cr (sc_challengeId c) (trim (cb_emailCode b)) \<and>
       (\<exists>k \<in> set (db_passkeys (pt_db p2)). pk_credentialId k = cb_credentialId b \<and> pk_userId k = pu_userId user \<and>
          pl_verifyAuthentication lib True (cb_response b) (sc_passkeyChallenge c) k \<noteq> None) \<and>
       db_sends (pt_db p') = db_sends (pt_db p2) @ [sendRow user c requestId (clock' 1)] \<and> out = Inr (sendRow user c requestId (clock' 1)))"
proof -
  have "getCurrentUser lib cr h (clock 0) p = Some (Some user) \<and> c \<in> set (db_challenges (pt_db p)) \<and>
       openChallenge (cb_challengeId b) (clock 1) c \<and> sc_userId c = pu_userId user \<and>
       sc_emailCodeHash c = codeHash cr (sc_challengeId c) (trim (cb_emailCode b)) \<and>
       (\<exists>k \<in> set (db_passkeys (pt_db p2)). pk_credentialId k = cb_credentialId b \<and> pk_userId k = pu_userId user \<and>
          pl_verifyAuthentication lib True (cb_response b) (sc_passkeyChallenge c) k \<noteq> None) \<and>
       db_sends (pt_db p') = db_sends (pt_db p2) @ [sendRow user c requestId (clock' 1)] \<and> out = Inr (sendRow user c requestId (clock' 1))"
    if t: "t = Inr (user, c)" and f: "confirmFinish lib cr b user c requestId clock' p2 = (p', out)"
      and new: "db_sends (pt_db p') \<noteq> db_sends (pt_db p2)" for user c p2 p' out
  proof -
    note ci = confirmTake_Inr [OF assms [unfolded t]]
    have sends: "db_sends (pt_db p') = db_sends (pt_db p2) @ [sendRow user c requestId (clock' 1)]"
      using confirmFinish_tables(2) [OF f] new by blast
    have hash: "sc_emailCodeHash c = codeHash cr (sc_challengeId c) (trim (cb_emailCode b))"
      using f new by (auto simp: confirmFinish_def split: if_splits)
    obtain k where k: "findPasskeyByCredentialId (cb_credentialId b) (pt_db p2) = Some k" "pk_userId k = pu_userId user"
      using f new by (auto simp: confirmFinish_def split: if_splits option.splits)
    obtain v where v: "pl_verifyAuthentication lib True (cb_response b) (sc_passkeyChallenge c) k = Some v"
      using f new k by (auto simp: confirmFinish_def split: if_splits option.splits)
    have out: "out = Inr (sendRow user c requestId (clock' 1))"
      using f new k v by (auto simp: confirmFinish_def Let_def updatePasskeyCounter_def split: if_splits option.splits)
    have "k \<in> set (db_passkeys (pt_db p2)) \<and> pk_credentialId k = cb_credentialId b"
      using k(1) unfolding findPasskeyByCredentialId_def by (drule_tac find_SomeD) auto
    then show ?thesis using ci(2,3) consume_row(2,3) [OF ci(1)] hash k(2) v sends out by auto
  qed
  then show ?thesis using confirmTake_sends [OF assms] by blast
qed

section \<open>Host names that are not refreshed\<close>

lemma find_key_update:
  "(\<And>m. key (f m) = key m) \<Longrightarrow> find (\<lambda>m. key m = k) (sqlUpdate (\<lambda>m. key m = k) f rows) = map_option f (find (\<lambda>m. key m = k) rows)"
  by (induction rows) (auto simp: sqlUpdate_def)

lemma getNodeEnrollment_touch:
  "getNodeEnrollment i (touchNodeValidation i ip country vpn now db) =
     map_option (\<lambda>n. n\<lparr> ne_lastSeenMs := Some now, ne_lastIp := coalesce ip (ne_lastIp n), ne_lastCountryCode := coalesce country (ne_lastCountryCode n),
       ne_lastVpnDetected := coalesce vpn (ne_lastVpnDetected n), ne_updatedAtMs := now \<rparr>) (getNodeEnrollment i db)"
  by (simp add: getNodeEnrollment_def touchNodeValidation_def find_key_update)

lemma getNodeEnrollment_dns:
  "getNodeEnrollment i (updateNodeDns i host st ip now db) =
     map_option (\<lambda>n. n\<lparr> ne_dnsHostname := Some host, ne_dnsStatus := Some st, ne_dnsIp := ip, ne_dnsLastUpdatedMs := Some now, ne_updatedAtMs := now \<rparr>)
       (getNodeEnrollment i db)"
  by (simp add: getNodeEnrollment_def updateNodeDns_def find_key_update)

text \<open>
  The validations of one coordinator, all with its registration token: the device id, the address, what the look-up of the address gives,
  the answer of the DNS provider, and the times of the three clock readings (seen, rate limit, stored).
\<close>

fun revalidate ::
  "PortalConfig \<Rightarrow> crypto \<Rightarrow> DnsConfig \<Rightarrow> string option \<Rightarrow> string \<Rightarrow> string \<Rightarrow>
     string option \<times> string \<times> (string option \<times> bool option) \<times> bool \<times> (nat \<Rightarrow> ms) \<Rightarrow> Portal \<Rightarrow> Portal" where
  "revalidate cfg cr dc serviceToken nodeId token (deviceId, sourceIp, intelligence, accepted, clock) p =
     fst (validateRoute cfg cr dc serviceToken nodeId Node_coordinator token deviceId (Some sourceIp) intelligence accepted clock p)"

text \<open>The rate limit of each is read less than a minute after the one before was stored, the first after \<open>t\<close>.\<close>

fun frequent :: "ms \<Rightarrow> (string option \<times> string \<times> (string option \<times> bool option) \<times> bool \<times> (nat \<Rightarrow> ms)) list \<Rightarrow> bool" where
  "frequent t [] = True"
| "frequent t ((deviceId, ip, intelligence, accepted, clock) # vs) =
     (validDevice deviceId \<and> ip \<noteq> [] \<and> clock 1 - t < 60000 \<and> 0 < clock 2 \<and> frequent (clock 2) vs)"

definition frozenDns :: "crypto \<Rightarrow> string \<Rightarrow> string \<Rightarrow> string option \<Rightarrow> ms \<Rightarrow> Portal \<Rightarrow> bool" where
  "frozenDns cr nodeId token ip t p =
     (case getNodeEnrollment nodeId (pt_db p) of
        None \<Rightarrow> False
      | Some n \<Rightarrow> ne_nodeId n = nodeId \<and> ne_nodeKind n = Node_coordinator \<and> ne_registrationTokenHash n = sha256_hex cr token \<and> ne_active n \<and>
          ne_dnsIp n = ip \<and> ne_dnsLastUpdatedMs n = Some t)"

lemma validateNode_frozen:
  assumes "frozenDns cr nodeId token ip t p" "requireInternalToken cfg st" "3 \<le> length nodeId" "10 \<le> length token" "validDevice deviceId"
  obtains p' allowed reason n where "validateNode cfg cr st nodeId Node_coordinator token deviceId src intelligence clock p = (p', V_answer allowed reason n)"
    "getNodeEnrollment nodeId (pt_db p') = Some n" "pt_dnsRequests p' = pt_dnsRequests p" "frozenDns cr nodeId token ip t p'"
proof -
  obtain n where n: "getNodeEnrollment nodeId (pt_db p) = Some n" "ne_nodeId n = nodeId" "ne_nodeKind n = Node_coordinator"
    "ne_registrationTokenHash n = sha256_hex cr token" "ne_active n" "ne_dnsIp n = ip" "ne_dnsLastUpdatedMs n = Some t"
    using assms(1) by (auto simp: frozenDns_def split: option.splits)
  show thesis
    using n assms(2-5) that by (auto simp: validateNode_def validationTarget_def Let_def getNodeEnrollment_touch frozenDns_def)
qed

lemma syncCoordinatorDns_limited:
  "0 < t \<Longrightarrow> now - t < 60000 \<Longrightarrow> \<exists>st. syncCoordinatorDns dc nodeId src ip (Some t) accepted now p = (p, st, ip)"
  by (simp add: syncCoordinatorDns_def)

lemma revalidate_frozen:
  assumes f: "frozenDns cr nodeId token ip t p" "requireInternalToken cfg st" "3 \<le> length nodeId" "10 \<le> length token" "validDevice deviceId"
    and "dc_credentials dc" "0 < t" "src \<noteq> []" "clock 1 - t < 60000"
  shows "frozenDns cr nodeId token ip (clock 2) (revalidate cfg cr dc st nodeId token (deviceId, src, intelligence, accepted, clock) p)"
    "pt_dnsRequests (revalidate cfg cr dc st nodeId token (deviceId, src, intelligence, accepted, clock) p) = pt_dnsRequests p"
proof -
  from f obtain p' allowed reason n where v:
      "validateNode cfg cr st nodeId Node_coordinator token deviceId (Some src) intelligence clock p = (p', V_answer allowed reason n)"
    and n: "getNodeEnrollment nodeId (pt_db p') = Some n" and q: "pt_dnsRequests p' = pt_dnsRequests p" and f': "frozenDns cr nodeId token ip t p'"
    by (rule validateNode_frozen)
  have n': "ne_nodeId n = nodeId" "ne_nodeKind n = Node_coordinator" "ne_registrationTokenHash n = sha256_hex cr token" "ne_active n"
    "ne_dnsIp n = ip" "ne_dnsLastUpdatedMs n = Some t"
    using f' n by (simp_all add: frozenDns_def)
  obtain s where s: "syncCoordinatorDns dc nodeId src ip (Some t) accepted (clock 1) p' = (p', s, ip)"
    using syncCoordinatorDns_limited assms(7,9) by blast
  obtain host where e: "revalidate cfg cr dc st nodeId token (deviceId, src, intelligence, accepted, clock) p =
      p'\<lparr> pt_db := updateNodeDns nodeId host s ip (clock 2) (pt_db p') \<rparr>"
    using assms(6,8) n' s by (simp add: validateRoute_def v dnsSync_def Let_def)
  show "frozenDns cr nodeId token ip (clock 2) (revalidate cfg cr dc st nodeId token (deviceId, src, intelligence, accepted, clock) p)"
    using n n' by (simp only: e) (simp add: frozenDns_def getNodeEnrollment_dns)
  show "pt_dnsRequests (revalidate cfg cr dc st nodeId token (deviceId, src, intelligence, accepted, clock) p) = pt_dnsRequests p"
    using q by (simp only: e) simp
qed

text \<open>
  C35: Take a coordinator that is already active and whose DNS columns were last stored at \<open>t\<close>. As long as every accepted validation of it
  comes less than a minute after the one before (the first: after \<open>t\<close>), with its background work done before the next, and nothing else
  touches the portal, its stored address stays what it was, or none, and the portal sends nothing to the DNS provider, whatever addresses
  it has since: each validation, also one that the limit of one update per minute skips, restarts that minute.
\<close>

theorem frequent_validation_freezes_dns:
  assumes "frozenDns cr nodeId token ip t p" "requireInternalToken cfg st" "3 \<le> length nodeId" "10 \<le> length token"
    "dc_credentials dc" "0 < t" "frequent t vs"
  shows "\<exists>n. getNodeEnrollment nodeId (pt_db (fold (revalidate cfg cr dc st nodeId token) vs p)) = Some n \<and> ne_active n \<and> ne_dnsIp n = ip \<and>
    pt_dnsRequests (fold (revalidate cfg cr dc st nodeId token) vs p) = pt_dnsRequests p"
  using assms
proof (induction vs arbitrary: t p)
  case Nil
  then show ?case by (auto simp: frozenDns_def split: option.splits)
next
  case (Cons v vs)
  obtain deviceId src intelligence accepted clock where v: "v = (deviceId, src, intelligence, accepted, clock)" by (cases v)
  have p: "validDevice deviceId" "src \<noteq> []" "clock 1 - t < 60000" "0 < clock 2" "frequent (clock 2) vs" using Cons.prems(7) by (simp_all add: v)
  note r = revalidate_frozen [where clock = clock and intelligence = intelligence and accepted = accepted, OF Cons.prems(1-4) p(1) Cons.prems(5,6) p(2,3)]
  show ?case using Cons.IH [OF r(1) Cons.prems(2-5) p(4,5)] unfolding r(2) by (simp only: v fold_simps)
qed

definition ex_dns_config :: DnsConfig where
  "ex_dns_config = \<lparr> dc_credentials = True, dc_prefix = ''coord'', dc_domain = ''edgecoder.io'', dc_isIPv6 = (\<lambda>_. False) \<rparr>"

definition ex_coordinator :: NodeEnrollment where
  "ex_coordinator = (enrolledRow ex_enroll ''mac-1'' 1)\<lparr> ne_nodeKind := Node_coordinator, ne_emailVerified := True, ne_nodeApproved := True,
     ne_active := True, ne_dnsHostname := Some ''mac-1.coord.edgecoder.io'', ne_dnsStatus := Some Dns_pending, ne_dnsLastUpdatedMs := Some 1,
     ne_registrationTokenHash := ''#0123456789'' \<rparr>"

definition ex_coordinator_portal :: Portal where
  "ex_coordinator_portal = emptyPortal\<lparr> pt_db := emptyPortalDb\<lparr> db_nodes := [ex_coordinator] \<rparr> \<rparr>"

definition ex_validation :: "ms \<Rightarrow> string option \<times> string \<times> (string option \<times> bool option) \<times> bool \<times> (nat \<Rightarrow> ms)" where
  "ex_validation now = (None, ''8.8.8.8'', (None, None), True, \<lambda>i. now + int i)"

abbreviation ex_revalidate where
  "ex_revalidate \<equiv> revalidate ex_portal_config ex_portal_crypto ex_dns_config (Some ''service'') ''mac-1'' ''0123456789''"

theorem frequent_validation_freezes_dns_witness:
  "\<exists>n. getNodeEnrollment ''mac-1'' (pt_db (fold ex_revalidate (map ex_validation [30000, 60000, 90000]) ex_coordinator_portal)) = Some n \<and>
     ne_dnsIp n = None"
proof -
  have a: "frozenDns ex_portal_crypto ''mac-1'' ''0123456789'' None 1 ex_coordinator_portal" by code_simp
  have r: "requireInternalToken ex_portal_config (Some ''service'')" by code_simp
  have b: "dc_credentials ex_dns_config" by (simp add: ex_dns_config_def)
  have c: "frequent 1 (map ex_validation [30000, 60000, 90000])" by code_simp
  show ?thesis using frequent_validation_freezes_dns [OF a r _ _ b _ c] by auto
qed

text \<open>One validation two minutes later publishes the address.\<close>

lemma rare_validation_publishes:
  "map_option ne_dnsIp (getNodeEnrollment ''mac-1'' (pt_db (ex_revalidate (ex_validation 120000) ex_coordinator_portal))) = Some (Some ''8.8.8.8'') \<and>
   pt_dnsRequests (ex_revalidate (ex_validation 120000) ex_coordinator_portal) = [DnsPut ''A'' ''mac-1.coord'' ''edgecoder.io'' ''8.8.8.8'']"
  by code_simp

text \<open>Node ids that differ in a character outside letters, digits and dashes share their host name.\<close>

lemma hostname_collision: "getCoordinatorHostname ex_dns_config ''mac.1'' = getCoordinatorHostname ex_dns_config ''mac_1''"
  by code_simp

text \<open>Any text passes for a registration token.\<close>

lemma discovery_accepts_any_token:
  "trim t \<noteq> [] \<Longrightarrow> listActiveCoordinators (pt_db p) = n # ns \<Longrightarrow> ne_dnsHostname n = Some host \<Longrightarrow>
     discoverCoordinator (Some (''Bearer '' @ t)) p = Inr (Some (''https://'' @ host, ne_nodeId n))"
  by (simp add: discoverCoordinator_def starts_with_def)

text \<open>Without a service token the routes for coordinators are open.\<close>

lemma internal_routes_open: "pf_serviceToken cfg = [] \<Longrightarrow> requireInternalToken cfg t"
  by (simp add: requireInternalToken_def)

text \<open>A second set-up replaces the seed of the wallet, and nobody is shown the new phrase.\<close>

lemma find_upsert_all: "find (\<lambda>x. key x = key r) (sqlUpsert key r (\<lambda>_. r) rows) = Some r"
proof (cases "key r \<in> set (map key rows)")
  case True
  then show ?thesis unfolding sqlUpsert_def if_P [OF True] sqlUpdate_def by (induction rows) auto
next
  case False
  then show ?thesis using find_fresh_key [OF False refl] by (simp add: sqlUpsert_def)
qed

lemma setupSeed_replaces:
  assumes "getCurrentUser lib cr h (clock 0) p = Some (Some u)"
  shows "\<exists>p' s w. setupSeed cfg lib cr h mnemonic clock p = (p', Inr s) \<and> ws_seedPhrase s = None \<and>
    getWalletOnboardingByUserId (pu_userId u) (pt_db p') = Some w \<and> wo_seedPhraseHash w = sha256_hex cr mnemonic"
proof -
  have "wo_userId (seedRow cfg lib cr (pu_userId u) a n mnemonic t) = pu_userId u" for a n t
    by (simp add: seedRow_def walletRow_def)
  then have "getWalletOnboardingByUserId (pu_userId u) (upsertWalletOnboardingSeed (seedRow cfg lib cr (pu_userId u) a n mnemonic t) db) =
      Some (seedRow cfg lib cr (pu_userId u) a n mnemonic t)" for a n t db
    using find_upsert_all [of wo_userId "seedRow cfg lib cr (pu_userId u) a n mnemonic t" "db_wallets db"]
    by (simp add: getWalletOnboardingByUserId_def upsertWalletOnboardingSeed_def)
  then show ?thesis
    using assms by (simp add: setupSeed_def withUser_user setupWalletSeedForUser_def Let_def) (simp add: seedRow_def walletRow_def)
qed

section \<open>Examples\<close>

definition ex_headers :: PortalHeaders where
  "ex_headers = \<lparr> ph_cookie = None, ph_authorization = Some ''Bearer tok'' \<rparr>"

definition ex_passkey :: PasskeyCredential where
  "ex_passkey = \<lparr> pk_credentialId = ''credential-1'', pk_userId = ''victim'', pk_webauthnUserId = ''w'', pk_publicKeyB64Url = ''k'', pk_counter = 0,
     pk_deviceType = ''singleDevice'', pk_backedUp = False, pk_transports = [], pk_createdAtMs = 0, pk_lastUsedAtMs = None \<rparr>"

definition ex_wallet_portal :: Portal where
  "ex_wallet_portal = emptyPortal\<lparr> pt_db := emptyPortalDb\<lparr> db_users := [ex_victim],
     db_sessions := [\<lparr> ps_sessionId = ''s'', ps_userId = ''victim'', ps_tokenHash = ''#tok'', ps_expiresAtMs = 1000, ps_createdAtMs = 0 \<rparr>],
     db_wallets := [walletRow ''victim'' ''acct-victim'' ''signet'' ''h'' ''r'' None 0], db_passkeys := [ex_passkey] \<rparr> \<rparr>"

definition ex_send :: SendBody where
  "ex_send = \<lparr> sb_destination = ''tb1qdestination'', sb_amountSats = 5000, sb_note = None \<rparr>"

definition ex_confirm :: ConfirmBody where
  "ex_confirm = \<lparr> cb_challengeId = ''uuid-uuid-0'', cb_emailCode = ''000042'', cb_credentialId = ''credential-1'',
     cb_response = Some \<lparr> rs_id = None, rs_rawId = None, rs_credentialId = None, rs_clientDataJSON = None, rs_attestationObject = None,
       rs_authenticatorData = None, rs_signature = None, rs_userHandle = None \<rparr> \<rparr>"

definition ex_started :: Portal where
  "ex_started = fst (mfaStart ex_portal_config ex_portal_library ex_portal_crypto ex_headers ex_send ''challenge'' 42 True ex_uuid int ex_wallet_portal)"

definition ex_challenge :: SendChallenge where
  "ex_challenge = sendChallengeRow ex_portal_config ex_portal_crypto ex_victim (walletRow ''victim'' ''acct-victim'' ''signet'' ''h'' ''r'' None 0) ex_send
     ''challenge'' ''uuid-uuid-0'' ''000042'' 1 2"

definition ex_taken :: Portal where
  "ex_taken = fst (confirmTake ex_portal_library ex_portal_crypto ex_headers ex_confirm (\<lambda>_. 50) ex_started)"

definition ex_finished :: Portal where
  "ex_finished = fst (confirmFinish ex_portal_library ex_portal_crypto ex_confirm ex_victim ex_challenge ''request-1'' (\<lambda>_. 60) ex_taken)"

definition ex_transfer :: SendRequest where
  "ex_transfer = sendRow ex_victim ex_challenge ''request-1'' 60"

lemma ex_take_ok: "confirmTake ex_portal_library ex_portal_crypto ex_headers ex_confirm (\<lambda>_. 50) ex_started = (ex_taken, Inr (ex_victim, ex_challenge))"
proof -
  have "snd (confirmTake ex_portal_library ex_portal_crypto ex_headers ex_confirm (\<lambda>_. 50) ex_started) = Inr (ex_victim, ex_challenge)" by code_simp
  then show ?thesis by (simp add: ex_taken_def prod_eq_iff)
qed

lemma ex_finish_ok:
  "confirmFinish ex_portal_library ex_portal_crypto ex_confirm ex_victim ex_challenge ''request-1'' (\<lambda>_. 60) ex_taken = (ex_finished, Inr ex_transfer)"
proof -
  have "snd (confirmFinish ex_portal_library ex_portal_crypto ex_confirm ex_victim ex_challenge ''request-1'' (\<lambda>_. 60) ex_taken) = Inr ex_transfer"
    by code_simp
  then show ?thesis by (simp add: ex_finished_def prod_eq_iff)
qed

lemma ex_confirm_ok:
  "mfaConfirm ex_portal_library ex_portal_crypto ex_headers ex_confirm ''request-1'' (\<lambda>_. 50) (\<lambda>_. 60) ex_started = (ex_finished, Inr ex_transfer)"
  by (simp add: mfaConfirm_def ex_take_ok ex_finish_ok)

lemma ex_wallet_reach: "wallet_reach ex_portal_config ex_portal_library ex_portal_crypto (ex_finished, [])"
proof -
  let ?step = "wallet_step ex_portal_config ex_portal_library ex_portal_crypto"
  have 1: "?step (emptyPortal, []) (ex_wallet_portal, [])"
    by (rule w_other) (simp_all add: ex_wallet_portal_def emptyPortal_def)
  have 2: "?step (ex_wallet_portal, []) (ex_started, [])"
    by (rule w_start [OF prod_eqI]) (simp_all add: ex_started_def)
  have 3: "?step (ex_started, []) (ex_taken, [(ex_victim, ex_challenge)])"
    using w_take [OF ex_take_ok, of _ "[]"] by simp
  have 4: "?step (ex_taken, [(ex_victim, ex_challenge)]) (ex_finished, [])"
    using w_finish [OF ex_finish_ok, of _ "[]" "[]"] by simp
  show ?thesis using wr_step [OF wr_step [OF wr_step [OF wr_step [OF wr_init 1] 2] 3] 4] .
qed

lemma ex_transfer_recorded: "ex_transfer \<in> set (db_sends (pt_db ex_finished))"
proof -
  have "db_sends (pt_db ex_finished) = [ex_transfer]" by code_simp
  then show ?thesis by simp
qed

theorem transfers_backed_by_challenges_witness:
  "\<exists>c \<in> set (db_challenges (pt_db ex_finished)). sc_consumedAtMs c \<noteq> None \<and> sc_destination c = ''tb1qdestination'' \<and> sc_amountSats c = 5000"
proof -
  have "sr_destination ex_transfer = ''tb1qdestination'' \<and> sr_amountSats ex_transfer = 5000" by code_simp
  then show ?thesis using transfers_backed_by_challenges [OF ex_wallet_reach ex_transfer_recorded] by metis
qed

theorem transfer_needs_both_factors_witness:
  "(\<exists>k. k \<in> set (db_passkeys (pt_db ex_taken)) \<and> pk_credentialId k = ''credential-1'' \<and> pk_userId k = ''victim'') \<and> db_sends (pt_db ex_finished) = [ex_transfer]"
proof -
  have ids: "pu_userId ex_victim = ''victim'' \<and> cb_credentialId ex_confirm = ''credential-1''" by (simp add: ex_victim_def ex_confirm_def)
  have "db_sends (pt_db ex_finished) = [ex_transfer]" "db_sends (pt_db ex_taken) = []" by code_simp+
  then show ?thesis using transfer_needs_both_factors [OF ex_take_ok, of "''request-1''" "\<lambda>_. 60"] ex_finish_ok ids by fastforce
qed

definition ex_genuine_portal :: Portal where
  "ex_genuine_portal = emptyPortal\<lparr> pt_db := emptyPortalDb\<lparr> db_nodes := [ex_coordinator\<lparr> ne_registrationTokenHash := ''#0123456789'' \<rparr>] \<rparr> \<rparr>"

definition ex_confirmed :: NodeEnrollment where
  "ex_confirmed = ex_coordinator\<lparr> ne_registrationTokenHash := ''#0123456789'', ne_lastSeenMs := Some 7, ne_lastIp := Some ''8.8.8.8'', ne_updatedAtMs := 7 \<rparr>"

lemma ex_validated:
  "snd (validateNode ex_portal_config ex_portal_crypto (Some ''service'') ''mac-1'' Node_coordinator ''0123456789'' None (Some ''8.8.8.8'') (None, None)
     (\<lambda>_. 7) ex_genuine_portal) = V_answer True ''ok'' ex_confirmed"
  by code_simp

theorem confirmed_node_is_genuine_witness:
  "\<exists>m \<in> set (db_nodes (pt_db ex_genuine_portal)). ne_nodeId m = ''mac-1'' \<and> ne_nodeApproved m \<and> ne_emailVerified m"
proof -
  have ok: "nodesOk (pt_db ex_genuine_portal)" by code_simp
  have i: "ne_nodeId ex_confirmed = ''mac-1''" by code_simp
  have v: "validateNode ex_portal_config ex_portal_crypto (Some ''service'') ''mac-1'' Node_coordinator ''0123456789'' None (Some ''8.8.8.8'') (None, None)
      (\<lambda>_. 7) ex_genuine_portal = (fst (validateNode ex_portal_config ex_portal_crypto (Some ''service'') ''mac-1'' Node_coordinator ''0123456789'' None
      (Some ''8.8.8.8'') (None, None) (\<lambda>_. 7) ex_genuine_portal), V_answer True ''ok'' ex_confirmed)"
    using ex_validated by (simp add: prod_eq_iff)
  show ?thesis using confirmed_node_is_genuine [OF ok v] i by auto
qed

text \<open>Enrolling the node of somebody else: the approval stays, the owner and the token are the caller's.\<close>

lemma enrolment_takes_over:
  "case getNodeEnrollment ''mac-1'' (pt_db (fst (nodesEnroll ex_portal_library ex_portal_crypto ex_dns_config ex_headers ''mac-1'' Node_coordinator None ''mine''
       (\<lambda>_. 9) (ex_wallet_portal\<lparr> pt_db := (pt_db ex_wallet_portal)\<lparr> db_nodes := [ex_coordinator] \<rparr> \<rparr>)))) of
     None \<Rightarrow> False
   | Some n \<Rightarrow> ne_ownerUserId ex_coordinator = ''u1'' \<and> ne_ownerUserId n = ''victim'' \<and> ne_active n \<and> ne_registrationTokenHash n = ''#mine''"
  by code_simp

end
