(* ===== verification/Spec2Isabelle.thy ===== *)
theory Spec2Isabelle
  imports SubtaskDeps RobotQueue Payments BleMesh TaskFlow StatsLedger Handshake IdeChat Orchestration PortalNodes
begin

text \<open>
  \<^bold>\<open>Verification of the EdgeCoder mesh.\<close>

  EdgeCoder spreads coding work over a mesh of machines. A \<^emph>\<open>coordinator\<close> (\<open>src/src/swarm/coordinator.ts\<close>) takes a
  task, splits it into subtasks with dependencies, queues them, and hands them to \<^emph>\<open>agents\<close> that authenticate every
  request with a signature. Results earn credits, which accounts spend on further tasks or buy with bitcoin;
  coordinators agree on prices and on the issuance of tokens; agents that misbehave are blacklisted in a signed,
  hash-chained log that is gossiped between coordinators; queue events go to a signed ordering chain; robot tasks
  are escrowed and paid out; phones and laptops keep working offline over Bluetooth and settle later.

  \<^bold>\<open>Theories and the code they model.\<close>

  \<^item> \<open>Prelude\<close>: JavaScript maps and sets in insertion order (\<open>jsm_\<close>, \<open>jss_\<close>), truthiness, \<open>??\<close>, array
    idioms, the locales \<open>kv_store\<close> (what a look-up returns after a write) and \<open>op_machine\<close> (an invariant kept
    by every operation holds after any history), and the generic lemmas.
  \<^item> \<open>JsNumber\<close>: \<open>Number\<close> as IEEE-754 binary64: a number is the rational it denotes and every operation rounds its
    exact result to nearest even (\<open>fl\<close>). Ranges in which the code computes stay far from overflow; infinities
    and \<open>NaN\<close> appear only where a branch is about them and are then explicit options.
  \<^item> \<open>JsString\<close>: numerals, \<open>join\<close>, \<open>JSON.stringify\<close>, and that the JSON text of a value determines the value.
  \<^item> \<open>SwarmQueue\<close> (\<open>swarm/queue.ts\<close>): the subtask queue. Reachable states satisfy its invariant, every operation
    is one step of an abstract lease table, no subtask is granted twice within its time limit, and a claim is the fair-share optimum.
  \<^item> \<open>SubtaskDeps\<close> (\<open>swarm/subtask-deps.ts\<close>, \<open>POST /submit\<close> and \<open>POST /result\<close>): holding and releasing
    dependent subtasks. The cycle search is exact; completions release exactly the subtasks whose
    dependencies are met; scheduling loses nothing.
  \<^item> \<open>CoordinatorUtils\<close> (\<open>swarm/coordinator-utils.ts\<close>): client addresses, fees, the weighted median.
  \<^item> \<open>RobotQueue\<close> (\<open>swarm/robot-queue.ts\<close>, \<open>robot-routes.ts\<close>): escrowed tasks, their life cycle and ledger.
  \<^item> \<open>Ledger\<close> (\<open>ledger/\<close>, \<open>audit/ledger-verifier.ts\<close>, \<open>security/blacklist.ts\<close>): hash chains; a verified chain
    determines its history.
  \<^item> \<open>SecurityGuards\<close> (\<open>security/\<close>, \<open>verifyAgentRequest\<close>): rate limits, nonces, request signatures, key rotation,
    model manifests and release integrity. A window admits at most its limit. A request is
    checked and its nonce stored in two steps, between which others run: once stored, a nonce is accepted no more while the skew lasts, and
    two requests that overlap both pass.
  \<^item> \<open>Behavior\<close> (\<open>security/behavior-tracker.ts\<close>, \<open>anomaly-detector.ts\<close>, \<open>auto-blacklister.ts\<close>): sliding-window
    statistics, whose counts are read off the list of all calls, the ten rules, and strikes.
  \<^item> \<open>Credits\<close> (\<open>credits/\<close>, the credit tables of \<open>db/postgres.ts\<close>, charging and offline settlement in the
    coordinator): one interface \<open>credit_ledger\<close> for the in-memory engine, the database and the store over both.
    Spending and offline settlement are split where the code awaits: handlers of different accounts and of different transactions may
    overlap freely, and then no account is overdrawn and no transaction settles twice; those of the same one do harm when they overlap.
  \<^item> \<open>Economy\<close> (\<open>economy/pricing.ts\<close>, \<open>issuance.ts\<close>, \<open>treasury.ts\<close> and the coordinator's quorum): bounds and
    monotonicity of prices, fairness of issuance, majority of the price consensus, the issuance quorum.
  \<^item> \<open>Payments\<close> (payment intents): a transition relation over both stores and the handlers in progress, split where they await; an intent
    that one handler at a time works on is credited exactly once, and a lemma shows the double credit of two that overlap.
  \<^item> \<open>BleMesh\<close> (\<open>mesh/ble/\<close>): chunks, connection quality, peer selection, reconnection, the offline ledger.
  \<^item> \<open>Mesh\<close> (\<open>mesh/peer.ts\<close>, \<open>protocol.ts\<close>, \<open>gossip.ts\<close>, \<open>mesh-peer.ts\<close>, \<open>mesh-http-server.ts\<close>,
    \<open>capability-gossip.ts\<close>): signed messages and the cache of their ids, the broadcast, sequentially and as a
    relation that interleaves its deliveries (all schedules end and agree), and the stand-alone peer, whose
    table spreads by peer exchange.
  \<^item> \<open>Federation\<close> (the mesh part of the coordinator): \<open>handleMeshIngest\<close> for every message type, peer
    registration, the blacklist and its gossip. It composes \<open>SwarmQueue\<close>, \<open>Ledger\<close>, \<open>Behavior\<close> and \<open>Mesh\<close>: only
    authentic messages reach the queue and the blacklist, each at most once, and reports spread.
  \<^item> \<open>PowerPolicy\<close> (\<open>swarm/power-policy.ts\<close>, \<open>sandbox-enforcement.ts\<close>): what a device may be given; the grant is
    monotone in the battery.
  \<^item> \<open>AgentMesh\<close> (the \<open>/agent-mesh\<close> routes of the coordinator): tunnels between agents and work they offer each
    other. An invariant ties tunnels, pair keys, links, offers and inboxes together; an offer is taken and
    completed once, by its target; relays are rate limited.
  \<^item> \<open>AgentRoutes\<close> (enrolment, \<open>POST /register\<close>, \<open>/heartbeat\<close>, \<open>/agent/diagnostics\<close>, \<open>/submit\<close>, \<open>/pull\<close>, \<open>/result\<close>): the
    routes of the agents on the whole state of the coordinator. They compose all of the above: to whom a subtask is
    handed, what a result completes, releases and pays, and where the guards of the code are missing.
  \<^item> \<open>TaskFlow\<close>: a task over two coordinators, from the offer to the forwarded result.
  \<^item> \<open>Orchestration\<close> (gate, roll-outs, bootstrap, chat and summaries of the coordinator): who passes the hook before every
    request, how an order for a model travels to an agent and back, and which records stay open.
  \<^item> \<open>StatsLedger\<close> (the statistics ledger and the \<open>/stats\<close> routes of the coordinator): records that verify, checkpoints and
    their quorum of authentic signatures, and the exchange of records between coordinators.
  \<^item> \<open>Executor\<close> (\<open>executor/\<close>): the denylists and the checks of syntax trees, which accept exactly the programs made of allowed
    parts, and the outcome of a run in a process or container, whose exit is an argument.
  \<^item> \<open>AgentLoop\<close> (\<open>agent/\<close>, \<open>model/extract.ts\<close>, \<open>prompts.ts\<close>): prompts, the extraction of code, plan, run and retry; the loop ends
    within its limit of iterations, with a result or an escalation.
  \<^item> \<open>Escalation\<close> (\<open>escalation/\<close>): the redaction of secrets, the waterfall of resolvers and the human operators.
  \<^item> \<open>Handshake\<close> (\<open>handshake/\<close>): sessions of agents with the cloud model; phases only move forward, results reach their
    owner, and the sessions in the store that an agent has open are bounded.
  \<^item> \<open>ModelRouter\<close> (\<open>model/router.ts\<close>, \<open>providers.ts\<close>, \<open>swap.ts\<close>, \<open>pull-tracker.ts\<close>): where a request runs and the pull of a model, whose result
    does not depend on how the stream is cut.
  \<^item> \<open>IdeTools\<close>, \<open>IdeChat\<close> (\<open>apps/ide/\<close>): the tools of the assistant, which stay inside the project, and
    the tool loop, in which every tool outside the read list needs an approval that the user could see.
  \<^item> \<open>PortalStore\<close> (\<open>portal/store.ts\<close>, \<open>portal-utils.ts\<close>): the tables and statements of the portal. A node is active exactly when
    approved and verified, between any two statements; tokens of the locale \<open>one_time\<close> are taken at most once.
  \<^item> \<open>PortalAccounts\<close> (\<open>portal/server.ts\<close>): sessions, sign-up, OAuth, passkeys, access rights, conversations. A mailed link verifies its
    user once; whose session and mobile token an OAuth log-in issues. Mails and requests to the DNS provider are logged in the state.
  \<^item> \<open>PortalNodes\<close> (\<open>portal/server.ts\<close>, \<open>dns-manager.ts\<close>): enrolment and validation of nodes, host names, and transfers out of a wallet,
    as a step relation of overlapping confirmations: each goes back to one challenge and needs both factors.

  \<^bold>\<open>Conventions.\<close> A class or a group of module variables is a record, a method a function on it, a thrown error a
  value of a sum or option type. \<open>Date.now()\<close>, \<open>randomUUID()\<close> and \<open>Math.random()\<close> are arguments, one per call;
  where the code relies on fresh ids that is a hypothesis. Time stamps, satoshi amounts and counters are
  integers, prices and credits binary64. SHA-256 and Ed25519 are the fields of a record \<open>crypto\<close>; theorems assume
  of them only that signatures verify under the matching key (\<open>key_pair\<close>) and that the texts at hand do not
  collide. The answers of the network, of the Lightning provider, of the portal and of \<open>JSON.parse\<close> are
  arguments too. JSON payloads have integral numbers; payloads the code casts without checking are read at their
  declared type. A handler that does not await reads the clock once. Most handlers are modelled as one step, also where they await. Interleavings are modelled for the
  broadcast, where deliveries overlap; for payments, the spending of credits, the offline settlement and the nonces of requests, whose handlers are
  split at their awaits and overlap under the condition each theorem states; and in the portal for the statements on nodes and the
  confirmation of transfers. In the routes of the portal the i-th calls of the clock and of \<open>randomUUID\<close> are \<open>clock i\<close> and \<open>uuid i\<close>.

  \<^bold>\<open>Bounds.\<close> All definitions are total and executable; no fuel is used. The recursions that are not structural (the
  dependency search) come with a measure; the interleaved broadcast is bounded by recipients times sockets
  plus two; reconnection by its maximal number of attempts.

  \<^bold>\<open>Not modelled.\<close> The pages, dashboards and proxies of the portal, the control plane, the inference service and the dashboards (HTML, plumbing
  between HTTP services, third-party mail and DNS); the worker process and its telemetry (timers, child processes);
  radio transport, the Bitcoin, Lightning and anchoring clients, the set-up of the local model server, envelope encryption
  (wrappers of libraries); the database tables no modelled operation uses; the desktop and iOS applications (other languages). The
  manifest names what is left out of each part.

  \<^bold>\<open>Plan.\<close> The parts with state and decisions of their own are modelled. What would come next are the fleet tables of the
  control plane and the polling loop of the worker.
\<close>

end
